(* ===== verification/Rtp_Prelude.thy ===== *)
theory Rtp_Prelude
  imports Main "HOL-Library.Word" "HOL-Library.Sublist"
begin

text \<open>
  Shared vocabulary of the development: the machine integer types of the C++ sources, the
  big-endian bit and byte view of an unsigned value that every wire format uses, the
  \<open>std::list\<close> insertion idiom \<open>insert(find_if(rbegin, rend, p).base(), x)\<close> of the playout
  buffers, serial-number arithmetic on wrapping counters, and the theorem collections that
  the component theories fill.
\<close>

unbundle bit_operations_syntax

section \<open>Theorem collections\<close>

named_theorems wire_simps \<open>bits and bytes of wire formats\<close>
named_theorems rtcp_defs \<open>definitions of the RTCP writers\<close>
named_theorems inv_defs \<open>invariants of the stateful components\<close>

section \<open>Machine types\<close>

type_synonym u8 = "8 word"
type_synonym u16 = "16 word"
type_synonym u32 = "32 word"
type_synonym u64 = "64 word"
type_synonym bytes = "u8 list"

lemma unat_u8 [simp]: "unat (x :: u8) < 256"
  using unsigned_less [of x, where 'a = nat] by simp

lemma unat_u16 [simp]: "unat (x :: u16) < 65536"
  using unsigned_less [of x, where 'a = nat] by simp

lemma unat_u32 [simp]: "unat (x :: u32) < 4294967296"
  using unsigned_less [of x, where 'a = nat] by simp

lemma unat_of_nat_u8 [simp]: "n < 256 \<Longrightarrow> unat (of_nat n :: u8) = n"
  by (simp add: unat_of_nat take_bit_nat_eq_self)

lemma unat_of_nat_u16 [simp]: "n < 65536 \<Longrightarrow> unat (of_nat n :: u16) = n"
  by (simp add: unat_of_nat take_bit_nat_eq_self)

lemma unat_of_nat_u32 [simp]: "n < 4294967296 \<Longrightarrow> unat (of_nat n :: u32) = n"
  by (simp add: unat_of_nat take_bit_nat_eq_self)

lemma unat_ucast_u16_u32 [simp]: "unat (ucast (x :: u16) :: u32) = unat x"
proof -
  have "unat x < 2 ^ 32" by (rule less_le_trans [OF unat_u16]) simp
  then show ?thesis by (simp add: unsigned_ucast_eq take_bit_nat_eq_self)
qed

lemma of_bool_less_numeral [simp]: "(of_bool b :: nat) < 2"
  by (cases b) simp_all

text \<open>
  What stops the code short of a result: a failing \<open>assert\<close>, a write past an allocation, an
  out of range \<open>at\<close>, a null pointer or unset optional that is dereferenced, an integer division
  by zero, a floating point value converted to an integer type that cannot hold it, a fatal log message.
\<close>

datatype fault = Assertion_failed | Buffer_overflow | Out_of_range | Null_dereference
  | Division_by_zero | Undefined_conversion | Fatal_error

section \<open>Bits of unsigned values, most significant first\<close>

primrec to_bits :: "nat \<Rightarrow> nat \<Rightarrow> bool list" where
  "to_bits 0 v = []"
| "to_bits (Suc n) v = odd (v div 2 ^ n) # to_bits n v"

definition of_bits :: "bool list \<Rightarrow> nat" where
  "of_bits bs = foldl (\<lambda>a b. 2 * a + of_bool b) 0 bs"

definition bytes_bits :: "bytes \<Rightarrow> bool list" where
  "bytes_bits bs = concat (map (\<lambda>b. to_bits 8 (unat b)) bs)"

lemma length_to_bits [simp, wire_simps]: "length (to_bits n v) = n"
  by (induction n) simp_all

lemma to_bits_numeral:
  "to_bits (numeral k) v = odd (v div 2 ^ pred_numeral k) # to_bits (pred_numeral k) v"
  by (simp add: numeral_eq_Suc)

lemma to_bits_zero: "to_bits n 0 = replicate n False"
  by (induction n) simp_all

lemma take_to_bits [simp, wire_simps]: "take n (to_bits n v @ r) = to_bits n v"
  by simp

lemma drop_to_bits [simp, wire_simps]: "drop n (to_bits n v @ r) = r"
  by simp

lemma foldl_bits: "foldl (\<lambda>a b. 2 * a + of_bool b) a bs = a * 2 ^ length bs + of_bits bs"
  unfolding of_bits_def
proof (induction bs arbitrary: a)
  case Nil
  then show ?case by simp
next
  case (Cons b bs)
  show ?case
    using Cons.IH [of "2 * a + of_bool b"] Cons.IH [of "of_bool b"] by (simp add: algebra_simps)
qed

lemma of_bits_Cons: "of_bits (b # bs) = of_bool b * 2 ^ length bs + of_bits bs"
  using foldl_bits [of "of_bool b" bs] by (simp add: of_bits_def)

lemma of_bits_Nil [simp]: "of_bits [] = 0"
  by (simp add: of_bits_def)

lemma of_bits_to_bits_mod: "of_bits (to_bits n v) = v mod 2 ^ n"
proof (induction n)
  case 0
  then show ?case by simp
next
  case (Suc n)
  have "v mod 2 ^ Suc n = 2 ^ n * (v div 2 ^ n mod 2) + v mod 2 ^ n"
    by (simp add: mod_mult2_eq power_Suc2 del: power_Suc)
  then show ?case
    using Suc.IH by (simp add: of_bits_Cons mod_2_eq_odd)
qed

lemma of_bits_to_bits [simp, wire_simps]: "v < 2 ^ n \<Longrightarrow> of_bits (to_bits n v) = v"
  by (simp add: of_bits_to_bits_mod)

lemma of_bits_less: "of_bits bs < 2 ^ length bs"
proof (induction bs)
  case Nil
  then show ?case by simp
next
  case (Cons b bs)
  then show ?case by (cases b) (simp_all add: of_bits_Cons)
qed

lemma to_bits_split: "to_bits (k + m) v = to_bits k (v div 2 ^ m) @ to_bits m v"
  by (induction k) (simp_all add: power_add flip: div_mult2_eq, simp add: mult.commute)

lemma take_to_bits_high: "take k (to_bits (k + m) v) = to_bits k (v div 2 ^ m)"
  by (simp add: to_bits_split)

lemma bytes_bits_Nil [simp]: "bytes_bits [] = []"
  by (simp add: bytes_bits_def)

lemma bytes_bits_Cons [simp]: "bytes_bits (b # bs) = to_bits 8 (unat b) @ bytes_bits bs"
  by (simp add: bytes_bits_def)

lemma bytes_bits_append [simp, wire_simps]: "bytes_bits (xs @ ys) = bytes_bits xs @ bytes_bits ys"
  by (simp add: bytes_bits_def)

lemma length_bytes_bits [simp, wire_simps]: "length (bytes_bits bs) = 8 * length bs"
  by (induction bs) simp_all

lemma take_bytes_bits: "take (8 * n) (bytes_bits bs) = bytes_bits (take n bs)"
proof (induction n arbitrary: bs)
  case 0
  then show ?case by simp
next
  case (Suc n)
  then show ?case by (cases bs) simp_all
qed

lemma drop_bytes_bits: "drop (8 * n) (bytes_bits bs) = bytes_bits (drop n bs)"
proof (induction n arbitrary: bs)
  case 0
  then show ?case by simp
next
  case (Suc n)
  then show ?case by (cases bs) simp_all
qed

lemma to_bits_8_inj: "to_bits 8 (unat a) = to_bits 8 (unat (b :: u8)) \<Longrightarrow> a = b"
proof -
  assume "to_bits 8 (unat a) = to_bits 8 (unat b)"
  then have "of_bits (to_bits 8 (unat a)) = of_bits (to_bits 8 (unat b))" by simp
  then show "a = b" by (simp add: word_unat_eq_iff)
qed

lemma bytes_bits_inj: "bytes_bits xs = bytes_bits ys \<Longrightarrow> xs = ys"
proof (induction xs arbitrary: ys)
  case Nil
  then show ?case by (cases ys) (auto dest: arg_cong [where f = length])
next
  case (Cons x xs)
  then obtain y ys' where ys: "ys = y # ys'"
    by (cases ys) (auto dest: arg_cong [where f = length])
  with Cons.prems have "to_bits 8 (unat x) = to_bits 8 (unat y) \<and> bytes_bits xs = bytes_bits ys'"
    by simp
  then show ?case using Cons.IH ys by (auto dest: to_bits_8_inj)
qed

section \<open>Serial numbers\<close>

text \<open>
  The sources compare wrapping 32 bit counters through their difference. Read as signed
  values that lie less than half the range apart, the difference tells which is ahead.
\<close>

lemma sint_of_int_u32: "\<lbrakk>- (2 ^ 31) \<le> i; i < 2 ^ 31\<rbrakk> \<Longrightarrow> sint (of_int i :: u32) = i"
  by (simp add: signed_of_int signed_take_bit_int_eq_self)

lemma uint_of_int_u32: "\<lbrakk>0 \<le> i; i < 2 ^ 32\<rbrakk> \<Longrightarrow> uint (of_int i :: u32) = i"
  by (simp add: uint_word_of_int)

lemma uint_of_int_u32_neg: "\<lbrakk>- (2 ^ 32) \<le> i; i < 0\<rbrakk> \<Longrightarrow> uint (of_int i :: u32) = i + 2 ^ 32"
proof -
  assume i: "- (2 ^ 32) \<le> i" "i < 0"
  have "(of_int i :: u32) = of_int (i + 2 ^ 32)" by (simp add: word_of_int_2p_len [where 'a = 32, simplified])
  moreover have "uint (of_int (i + 2 ^ 32) :: u32) = i + 2 ^ 32" by (rule uint_of_int_u32) (use i in simp_all)
  ultimately show ?thesis by metis
qed

lemma serial_diff:
  fixes a b :: u32
  assumes "of_int x = a" and "of_int y = b" and "\<bar>x - y\<bar> < 2 ^ 31"
  shows "uint (a - b) = (if y \<le> x then x - y else x - y + 2 ^ 32)"
proof -
  have "a - b = of_int (x - y)" using assms(1,2) by simp
  then show ?thesis
    using uint_of_int_u32 [of "x - y"] uint_of_int_u32_neg [of "x - y"] assms(3) by auto
qed

lemma serial_less:
  fixes a b :: u32
  assumes "of_int x = a" and "of_int y = b" and "\<bar>x - y\<bar> < 2 ^ 31"
  shows "uint (a - b) < 2 ^ 31 \<longleftrightarrow> y \<le> x"
  using serial_diff [OF assms] assms(3) by auto

section \<open>Insertion behind the last match\<close>

text \<open>
  The list insertion of the playout buffers: \<open>xs.insert(find_if(xs.rbegin(), xs.rend(), p).base(), x)\<close>
  searches from the back and puts the new element behind the first match found, or in front
  of the list when there is none.
\<close>

definition insert_after_last :: "('a \<Rightarrow> bool) \<Rightarrow> 'a \<Rightarrow> 'a list \<Rightarrow> 'a list" where
  "insert_after_last P x xs =
     rev (takeWhile (\<lambda>y. \<not> P y) (rev xs) @ x # dropWhile (\<lambda>y. \<not> P y) (rev xs))"

lemma length_insert_after_last [simp]: "length (insert_after_last P x xs) = Suc (length xs)"
proof -
  have "length (takeWhile (\<lambda>y. \<not> P y) (rev xs)) + length (dropWhile (\<lambda>y. \<not> P y) (rev xs)) = length xs"
    by (metis length_append length_rev takeWhile_dropWhile_id)
  then show ?thesis by (simp add: insert_after_last_def)
qed

lemma set_insert_after_last [simp]: "set (insert_after_last P x xs) = insert x (set xs)"
proof -
  have "set (takeWhile (\<lambda>y. \<not> P y) (rev xs)) \<union> set (dropWhile (\<lambda>y. \<not> P y) (rev xs)) = set xs"
    by (metis set_append set_rev takeWhile_dropWhile_id)
  then show ?thesis by (auto simp: insert_after_last_def)
qed

lemma insert_after_last_not_Nil [simp]: "insert_after_last P x xs \<noteq> []"
  by (simp add: insert_after_last_def)

lemma insert_after_last_cong [fundef_cong]:
  assumes "x = x'" and "xs = xs'" and "\<And>y. y \<in> set xs' \<Longrightarrow> P y = P' y"
  shows "insert_after_last P x xs = insert_after_last P' x' xs'"
proof -
  have "takeWhile (\<lambda>y. \<not> P y) (rev xs') = takeWhile (\<lambda>y. \<not> P' y) (rev xs')"
    "dropWhile (\<lambda>y. \<not> P y) (rev xs') = dropWhile (\<lambda>y. \<not> P' y) (rev xs')"
    using assms(3) by (auto intro!: takeWhile_cong dropWhile_cong)
  then show ?thesis using assms(1,2) by (simp add: insert_after_last_def)
qed

lemma descending_insert:
  fixes k :: "'a \<Rightarrow> 'k :: linorder"
  shows "sorted_wrt (\<lambda>a b. k b \<le> k a) ys \<Longrightarrow>
    sorted_wrt (\<lambda>a b. k b \<le> k a) (takeWhile (\<lambda>y. \<not> k y < k x) ys @ x # dropWhile (\<lambda>y. \<not> k y < k x) ys)"
proof (induction ys)
  case (Cons y ys)
  have "set (takeWhile (\<lambda>y. \<not> k y < k x) ys @ x # dropWhile (\<lambda>y. \<not> k y < k x) ys) = insert x (set ys)"
    by (metis Un_insert_right list.simps(15) set_append takeWhile_dropWhile_id)
  then show ?case using Cons by auto
qed simp

lemma sorted_insert_after_last:
  fixes k :: "'a \<Rightarrow> 'k :: linorder"
  assumes "sorted (map k xs)"
  shows "sorted (map k (insert_after_last (\<lambda>y. k y < k x) x xs))"
proof -
  have "sorted_wrt (\<lambda>a b. k b \<le> k a) (rev xs)" using assms by (simp add: sorted_map sorted_wrt_rev)
  from descending_insert [OF this, of x] show ?thesis
    unfolding insert_after_last_def sorted_map sorted_wrt_rev by (simp del: rev_append)
qed

lemma insert_after_last_split: "\<exists>ys zs. xs = ys @ zs \<and> insert_after_last P x xs = ys @ x # zs"
proof (intro exI conjI)
  show "xs = rev (dropWhile (\<lambda>y. \<not> P y) (rev xs)) @ rev (takeWhile (\<lambda>y. \<not> P y) (rev xs))"
    by (metis rev_append rev_rev_ident takeWhile_dropWhile_id)
  show "insert_after_last P x xs = rev (dropWhile (\<lambda>y. \<not> P y) (rev xs)) @ x # rev (takeWhile (\<lambda>y. \<not> P y) (rev xs))"
    by (simp add: insert_after_last_def)
qed

lemma insert_after_last_end:
  assumes "xs \<noteq> [] \<Longrightarrow> P (last xs)"
  shows "insert_after_last P x xs = xs @ [x]"
proof (cases xs rule: rev_cases)
  case (snoc ys y)
  then show ?thesis using assms by (simp add: insert_after_last_def)
qed (simp add: insert_after_last_def)

end
