(* ===== verification/Bit_Stream.thy ===== *)
theory Bit_Stream
  imports Rtp_Prelude
begin

text \<open>
  The bit streams \<open>OBitStream\<close> and \<open>IBitStream\<close> of the \<open>cpputil\<close> package. The package is
  not part of the repository, so the record \<open>bit_io\<close> of its operations is a parameter of
  every definition that reads or writes a wire format, and the locale \<open>bit_stream\<close> states
  the behaviour the RTP sources rely on: fields are appended most significant bit first, a
  read that fits returns exactly the next bits, and a read that does not fit reports failure
  and leaves its variable alone and the stream at a byte boundary if it was at one. A stream over a byte vector is given as the reference
  instance, which also shows that the laws can be met together.
\<close>

section \<open>Interface\<close>

record ('i, 'o) bit_io =
  ob_new :: 'o
  ob_write :: "'o \<Rightarrow> nat \<Rightarrow> nat \<Rightarrow> 'o"
  ob_writeBytes :: "'o \<Rightarrow> bytes \<Rightarrow> 'o"
  ob_str :: "'o \<Rightarrow> bytes"
  ob_bytesUsed :: "'o \<Rightarrow> nat"
  ib_open :: "bytes \<Rightarrow> 'i"
  ib_read :: "'i \<Rightarrow> nat \<Rightarrow> nat \<Rightarrow> bool \<times> nat \<times> 'i"
  ib_readBytes :: "'i \<Rightarrow> nat \<Rightarrow> bool \<times> bytes \<times> 'i"
  ib_skipBytes :: "'i \<Rightarrow> nat \<Rightarrow> bool \<times> 'i"
  ib_bitsRemaining :: "'i \<Rightarrow> nat"
  ib_bytesRemaining :: "'i \<Rightarrow> nat"
  ib_peekAtCurrentByte :: "'i \<Rightarrow> nat"
  cu_i2b :: "nat \<Rightarrow> bool"
  mem_uninit :: "nat \<Rightarrow> u8"

text \<open>
  \<open>ob_write ob v n\<close> is \<open>ob.write(v, n)\<close>; \<open>ib_read ib old n\<close> is \<open>ib.read(x, n)\<close> on a variable
  \<open>x\<close> that holds \<open>old\<close>, and returns the call's result, the value of \<open>x\<close> afterwards and the
  stream; \<open>cu_i2b\<close> is the conversion \<open>i2b\<close> of the same package; \<open>mem_uninit\<close> is the content of memory the code has allocated but not written.
  A run of calls on consecutive fields is given as a table of values and widths.
\<close>

definition writes :: "('i, 'o) bit_io \<Rightarrow> (nat \<times> nat) list \<Rightarrow> 'o \<Rightarrow> 'o" where
  "writes io fs ob = foldl (\<lambda>ob f. ob_write io ob (fst f) (snd f)) ob fs"

fun reads :: "('i, 'o) bit_io \<Rightarrow> (nat \<times> nat) list \<Rightarrow> 'i \<Rightarrow> nat list \<times> 'i" where
  "reads io [] ib = ([], ib)"
| "reads io (f # fs) ib =
     (case ib_read io ib (fst f) (snd f) of (_, v, ib') \<Rightarrow>
        (case reads io fs ib' of (vs, ib'') \<Rightarrow> (v # vs, ib'')))"

text \<open>A loop that reads \<open>n\<close> bytes one by one into an uninitialised array.\<close>

definition read_chars :: "('i, 'o) bit_io \<Rightarrow> nat \<Rightarrow> 'i \<Rightarrow> bytes \<times> 'i" where
  "read_chars io n ib =
     (case reads io (map (\<lambda>i. (unat (mem_uninit io i), 8)) [0..<n]) ib of
        (vs, ib') \<Rightarrow> (map of_nat vs, ib'))"

definition chars_fields :: "bytes \<Rightarrow> (nat \<times> nat) list" where
  "chars_fields cs = map (\<lambda>c. (unat c, 8)) cs"

definition fields_bits :: "(nat \<times> nat) list \<Rightarrow> bool list" where
  "fields_bits fs = concat (map (\<lambda>f. to_bits (snd f) (fst f)) fs)"

definition fields_ok :: "(nat \<times> nat) list \<Rightarrow> bool" where
  "fields_ok fs = list_all (\<lambda>f. fst f < 2 ^ snd f) fs"

lemma fields_bits_simps [simp, wire_simps]:
  "fields_bits [] = []"
  "fields_bits ((v, n) # fs) = to_bits n v @ fields_bits fs"
  "fields_bits (fs @ gs) = fields_bits fs @ fields_bits gs"
  by (simp_all add: fields_bits_def)

lemma fields_ok_simps [simp]:
  "fields_ok []"
  "fields_ok ((v, n) # fs) \<longleftrightarrow> v < 2 ^ n \<and> fields_ok fs"
  "fields_ok (fs @ gs) \<longleftrightarrow> fields_ok fs \<and> fields_ok gs"
  by (simp_all add: fields_ok_def)

lemma fields_bits_chars [simp, wire_simps]: "fields_bits (chars_fields cs) = bytes_bits cs"
  by (induction cs) (simp_all add: chars_fields_def)

lemma fields_ok_chars [simp]: "fields_ok (chars_fields cs)"
  by (induction cs) (simp_all add: chars_fields_def)

lemma length_fields_bits: "length (fields_bits fs) = sum_list (map snd fs)"
  by (induction fs) (auto simp: fields_bits_def)

lemma map_of_nat_chars: "map of_nat (map fst (chars_fields cs)) = cs"
  by (induction cs) (simp_all add: chars_fields_def)

text \<open>Zero octets of padding.\<close>

definition pad_bits :: "nat \<Rightarrow> bool list" where
  "pad_bits n = bytes_bits (replicate n 0)"

lemma pad_bits_Suc: "pad_bits (Suc n) = to_bits 4 0 @ to_bits 4 0 @ pad_bits n"
  by (simp add: pad_bits_def to_bits_zero flip: replicate_add)

lemma pad_bits_Suc8: "pad_bits (Suc n) = to_bits 8 0 @ pad_bits n"
  by (simp add: pad_bits_def)

lemma pad_bits_0 [simp]: "pad_bits 0 = []"
  by (simp add: pad_bits_def)

lemma fields_bits_pad [simp]: "fields_bits (replicate n (0, 8)) = pad_bits n"
  by (induction n) (simp_all add: pad_bits_Suc8)

lemma fields_ok_pad [simp]: "fields_ok (replicate n (0, 8))"
  by (induction n) simp_all

lemma length_pad_bits [simp]: "length (pad_bits n) = 8 * n"
  by (simp add: pad_bits_def)

section \<open>What the sources rely on\<close>

locale bit_stream =
  fixes io :: "('i, 'o) bit_io"
    and obits :: "'o \<Rightarrow> bool list"
    and ibits :: "'i \<Rightarrow> bool list"
  assumes new_bits: "obits (ob_new io) = []"
    and write_bits: "v < 2 ^ n \<Longrightarrow> obits (ob_write io ob v n) = obits ob @ to_bits n v"
    and writeBytes_bits: "obits (ob_writeBytes io ob bs) = obits ob @ bytes_bits bs"
    and str_bits: "8 dvd length (obits ob) \<Longrightarrow> bytes_bits (ob_str io ob) = obits ob"
    and bytesUsed: "ob_bytesUsed io ob = length (obits ob) div 8"
    and open_bits: "ibits (ib_open io bs) = bytes_bits bs"
    and read_ok: "n \<le> length (ibits ib) \<Longrightarrow>
      \<exists>ib'. ib_read io ib old n = (True, of_bits (take n (ibits ib)), ib') \<and> ibits ib' = drop n (ibits ib)"
    and read_fail: "length (ibits ib) < n \<Longrightarrow>
      \<exists>ib'. ib_read io ib old n = (False, old, ib') \<and> length (ibits ib') \<le> length (ibits ib)
        \<and> (8 dvd length (ibits ib) \<longrightarrow> 8 dvd length (ibits ib'))"
    and readBytes_ok: "8 * n \<le> length (ibits ib) \<Longrightarrow>
      \<exists>bs ib'. ib_readBytes io ib n = (True, bs, ib') \<and> bytes_bits bs = take (8 * n) (ibits ib)
        \<and> ibits ib' = drop (8 * n) (ibits ib)"
    and skipBytes_ok: "8 * n \<le> length (ibits ib) \<Longrightarrow>
      \<exists>ib'. ib_skipBytes io ib n = (True, ib') \<and> ibits ib' = drop (8 * n) (ibits ib)"
    and skipBytes_fail: "length (ibits ib) < 8 * n \<Longrightarrow>
      \<exists>ib'. ib_skipBytes io ib n = (False, ib') \<and> length (ibits ib') \<le> length (ibits ib)
        \<and> (8 dvd length (ibits ib) \<longrightarrow> 8 dvd length (ibits ib'))"
    and bitsRemaining: "ib_bitsRemaining io ib = length (ibits ib)"
    and bytesRemaining: "ib_bytesRemaining io ib = length (ibits ib) div 8"
    and i2b_0: "\<not> cu_i2b io 0"
    and i2b_1: "cu_i2b io 1"
    and peek: "8 \<le> length (ibits ib) \<Longrightarrow> ib_peekAtCurrentByte io ib = of_bits (take 8 (ibits ib))"
begin

lemma writes_bits: "fields_ok fs \<Longrightarrow> obits (writes io fs ob) = obits ob @ fields_bits fs"
  unfolding writes_def
proof (induction fs arbitrary: ob)
  case Nil
  then show ?case by simp
next
  case (Cons f fs)
  then show ?case by (cases f) (simp add: write_bits)
qed

lemma foldl_write_bits:
  assumes "\<And>ob e. e \<in> set es \<Longrightarrow> obits (w ob e) = obits ob @ b e"
  shows "obits (foldl w ob es) = obits ob @ concat (map b es)"
  using assms by (induction es arbitrary: ob) auto

lemma i2b_of_bool: "cu_i2b io (of_bool b) = b"
  using i2b_0 i2b_1 by (cases b) simp_all

lemma read_field:
  assumes "ibits ib = to_bits n v @ rest" and "v < 2 ^ n"
  obtains ib' where "ib_read io ib old n = (True, v, ib')" and "ibits ib' = rest"
  using read_ok [of n ib old] assms by auto

lemma reads_fields:
  assumes "map snd olds = map snd fs" and "fields_ok fs" and "ibits ib = fields_bits fs @ rest"
  obtains ib' where "reads io olds ib = (map fst fs, ib')" and "ibits ib' = rest"
proof -
  have "\<exists>ib'. reads io olds ib = (map fst fs, ib') \<and> ibits ib' = rest"
    using assms
  proof (induction fs arbitrary: olds ib)
    case Nil
    then show ?case by simp
  next
    case (Cons f fs)
    obtain v n where f: "f = (v, n)" by (cases f)
    obtain old olds' where olds: "olds = (old, n) # olds'"
      using Cons.prems(1) f by (cases olds) (auto simp: prod_eq_iff)
    obtain ib1 where r1: "ib_read io ib old n = (True, v, ib1)" and b1: "ibits ib1 = fields_bits fs @ rest"
      using Cons.prems f by (auto elim: read_field)
    obtain ib2 where "reads io olds' ib1 = (map fst fs, ib2) \<and> ibits ib2 = rest"
      using Cons.IH [of olds' ib1] Cons.prems f olds b1 by auto
    then show ?case using f olds r1 by simp
  qed
  then show thesis using that by blast
qed

lemma read_chars_bits:
  assumes "ibits ib = bytes_bits cs @ rest"
  obtains ib' where "read_chars io (length cs) ib = (cs, ib')" and "ibits ib' = rest"
proof -
  let ?olds = "map (\<lambda>i. (unat (mem_uninit io i), 8)) [0..<length cs]"
  have widths: "map snd ?olds = map snd (chars_fields cs)"
    by (simp add: chars_fields_def map_replicate_const comp_def)
  obtain ib' where "reads io ?olds ib = (map fst (chars_fields cs), ib')" and "ibits ib' = rest"
    by (rule reads_fields [OF widths, of ib rest]) (simp_all add: assms)
  then show thesis
    using that by (simp add: read_chars_def map_of_nat_chars del: map_map)
qed

lemma readBytes_bits:
  assumes "ibits ib = bytes_bits bs @ rest"
  obtains ib' where "ib_readBytes io ib (length bs) = (True, bs, ib')" and "ibits ib' = rest"
  using readBytes_ok [of "length bs" ib] assms by (auto dest: bytes_bits_inj)

lemma skipBytes_bits:
  assumes "ibits ib = bs @ rest" and "length bs = 8 * n"
  obtains ib' where "ib_skipBytes io ib n = (True, ib')" and "ibits ib' = rest"
  using skipBytes_ok [of n ib] assms by auto

lemma reads_length: "reads io olds ib = (vs, ib') \<Longrightarrow> length vs = length olds"
  by (induction olds arbitrary: ib vs ib') (auto split: prod.splits)

lemma read_shrinks:
  assumes "ib_read io ib old n = (ok, v, ib')"
  shows "length (ibits ib') \<le> length (ibits ib)"
  using assms read_ok [of n ib old] read_fail [of ib n old]
  by (cases "n \<le> length (ibits ib)") auto

text \<open>Reads and skips of whole bytes keep the stream at a byte boundary.\<close>

definition aligned :: "'i \<Rightarrow> bool" where
  "aligned ib \<longleftrightarrow> 8 dvd length (ibits ib)"

lemma read_aligned:
  assumes "ib_read io ib old n = (ok, v, ib')" and "aligned ib" and "8 dvd n"
  shows "aligned ib'"
  using assms read_ok [of n ib old] read_fail [of ib n old]
  by (cases "n \<le> length (ibits ib)") (auto simp: aligned_def dvd_diff_nat)

lemma skip_aligned:
  assumes "ib_skipBytes io ib n = (ok, ib')" and "aligned ib"
  shows "aligned ib'"
  using assms skipBytes_ok [of n ib] skipBytes_fail [of ib n]
  by (cases "8 * n \<le> length (ibits ib)") (auto simp: aligned_def dvd_diff_nat)

lemma reads_aligned:
  "\<lbrakk>reads io olds ib = (vs, ib'); aligned ib; \<forall>f\<in>set olds. 8 dvd snd f\<rbrakk> \<Longrightarrow> aligned ib'"
proof (induction olds arbitrary: ib vs ib')
  case Nil
  then show ?case by simp
next
  case (Cons f fs)
  obtain ok v ib1 where r: "ib_read io ib (fst f) (snd f) = (ok, v, ib1)"
    by (cases "ib_read io ib (fst f) (snd f)")
  have "aligned ib1" using read_aligned [OF r] Cons.prems by simp
  then show ?case using Cons r by (auto split: prod.splits)
qed

lemma reads_shrinks:
  "reads io olds ib = (vs, ib') \<Longrightarrow> length (ibits ib') \<le> length (ibits ib)"
proof (induction olds arbitrary: ib vs ib')
  case Nil
  then show ?case by simp
next
  case (Cons f fs)
  obtain ok v ib1 where r: "ib_read io ib (fst f) (snd f) = (ok, v, ib1)"
    by (cases "ib_read io ib (fst f) (snd f)")
  obtain vs1 ib2 where rs: "reads io fs ib1 = (vs1, ib2)" by (cases "reads io fs ib1")
  have "length (ibits ib2) \<le> length (ibits ib1)" using rs by (rule Cons.IH)
  also have "\<dots> \<le> length (ibits ib)" using r by (rule read_shrinks)
  finally show ?case using Cons.prems r rs by simp
qed

lemma skip_shrinks:
  assumes "ib_skipBytes io ib n = (ok, ib')"
  shows "length (ibits ib') \<le> length (ibits ib)"
  using assms skipBytes_ok [of n ib] skipBytes_fail [of ib n]
  by (cases "8 * n \<le> length (ibits ib)") auto

end

section \<open>A stream over a vector of bits\<close>

function bytes_of_bits :: "bool list \<Rightarrow> bytes" where
  "bytes_of_bits bs =
     (if length bs < 8 then [] else of_nat (of_bits (take 8 bs)) # bytes_of_bits (drop 8 bs))"
  by pat_completeness auto
termination
  by (relation "measure length") auto

declare bytes_of_bits.simps [simp del]

lemma to_bits_of_bits: "to_bits (length bs) (of_bits bs) = bs"
proof (induction bs)
  case Nil
  then show ?case by simp
next
  case (Cons b bs)
  have low: "to_bits n (c * 2 ^ n + w) = to_bits n w" for n c w :: nat
  proof (induction n arbitrary: c w)
    case 0
    then show ?case by simp
  next
    case (Suc n)
    have "to_bits n (c * 2 ^ Suc n + w) = to_bits n w"
      using Suc.IH [of "2 * c" w] by (simp add: mult.assoc mult.left_commute)
    moreover have "odd ((c * 2 ^ Suc n + w) div 2 ^ n) = odd (w div 2 ^ n)"
    proof -
      have "(c * 2 ^ Suc n + w) div 2 ^ n = 2 * c + w div 2 ^ n"
        by (simp add: mult.left_commute flip: mult.assoc)
      then show ?thesis by simp
    qed
    ultimately show ?case by simp
  qed
  have "odd ((of_bool b * 2 ^ length bs + of_bits bs) div 2 ^ length bs) = b"
    using of_bits_less [of bs] by (cases b) (simp_all add: div_add_self1 div_less del: One_nat_def)
  then show ?case
    using Cons.IH low [of "length bs" "of_bool b" "of_bits bs"] by (simp add: of_bits_Cons)
qed

lemma bytes_bits_of_bits: "8 dvd length bs \<Longrightarrow> bytes_bits (bytes_of_bits bs) = bs"
proof (induction bs rule: bytes_of_bits.induct)
  case (1 bs)
  show ?case
  proof (cases "length bs < 8")
    case True
    with "1.prems" have "bs = []" by (auto dest: dvd_imp_le)
    then show ?thesis by (simp add: bytes_of_bits.simps)
  next
    case False
    have l: "length (take 8 bs) = 8" using False by simp
    have "of_bits (take 8 bs) < 256" using of_bits_less [of "take 8 bs"] l by simp
    then have "to_bits 8 (unat (of_nat (of_bits (take 8 bs)) :: u8)) = take 8 bs"
      using to_bits_of_bits [of "take 8 bs"] l by simp
    moreover have "8 dvd length (drop 8 bs)" using "1.prems" by (simp add: dvd_diff_nat)
    ultimately show ?thesis
      using False "1.IH" by (simp add: bytes_of_bits.simps [of bs])
  qed
qed

definition bitlist_io :: "(bool list, bool list) bit_io" where
  "bitlist_io = \<lparr>
     ob_new = [],
     ob_write = (\<lambda>ob v n. ob @ to_bits n v),
     ob_writeBytes = (\<lambda>ob bs. ob @ bytes_bits bs),
     ob_str = bytes_of_bits,
     ob_bytesUsed = (\<lambda>ob. length ob div 8),
     ib_open = bytes_bits,
     ib_read = (\<lambda>ib old n. if n \<le> length ib then (True, of_bits (take n ib), drop n ib)
                           else (False, old, ib)),
     ib_readBytes = (\<lambda>ib n. if 8 * n \<le> length ib
                            then (True, bytes_of_bits (take (8 * n) ib), drop (8 * n) ib)
                            else (False, [], ib)),
     ib_skipBytes = (\<lambda>ib n. if 8 * n \<le> length ib then (True, drop (8 * n) ib) else (False, ib)),
     ib_bitsRemaining = length,
     ib_bytesRemaining = (\<lambda>ib. length ib div 8),
     ib_peekAtCurrentByte = (\<lambda>ib. of_bits (take 8 ib)),
     cu_i2b = (\<lambda>n. n \<noteq> 0),
     mem_uninit = (\<lambda>_. 0)\<rparr>"

interpretation bitlist: bit_stream bitlist_io "\<lambda>ob. ob" "\<lambda>ib. ib"
  by unfold_locales (auto simp: bitlist_io_def bytes_bits_of_bits)

end
