(* ===== verification/Rtcp.thy ===== *)
theory Rtcp
  imports Bit_Stream
begin

text \<open>
  The RTCP packets of RFC 3550 (\<open>RtcpPacketBase.cpp\<close>, \<open>rfc3550/Rtcp.cpp\<close>,
  \<open>rfc3550/SdesInformation.h\<close>): sender and receiver reports, source descriptions, BYE and
  APP, each with its constructors, mutators, writer and reader. The common header that the
  C++ classes inherit is a component of each record. The lemmas give the invariant that
  ties the count and length fields to the content, the words each writer produces, and the
  round trip of each reader.
\<close>

section \<open>The common header\<close>

record RtcpPacketBase =
  rb_uiVersion :: u8
  rb_bPadding :: bool
  rb_uiTypeSpecific :: u8
  rb_uiPacketType :: u8
  rb_uiLength :: u16
  rb_uiArrivalTimeNtp :: u64

definition PT_RTCP_SR :: u8 where "PT_RTCP_SR = 200"

definition PT_RTCP_RR :: u8 where "PT_RTCP_RR = 201"

definition PT_RTCP_SDES :: u8 where "PT_RTCP_SDES = 202"

definition PT_RTCP_BYE :: u8 where "PT_RTCP_BYE = 203"

definition PT_RTCP_APP :: u8 where "PT_RTCP_APP = 204"

lemmas rtcp_types = PT_RTCP_SR_def PT_RTCP_RR_def PT_RTCP_SDES_def PT_RTCP_BYE_def PT_RTCP_APP_def

definition RtcpPacketBase_new :: "u8 \<Rightarrow> RtcpPacketBase" where
  "RtcpPacketBase_new uiPacketType = \<lparr>rb_uiVersion = 2, rb_bPadding = False, rb_uiTypeSpecific = 0,
     rb_uiPacketType = uiPacketType, rb_uiLength = 0, rb_uiArrivalTimeNtp = 0\<rparr>"

definition RtcpPacketBase_raw :: "u8 \<Rightarrow> bool \<Rightarrow> u8 \<Rightarrow> u8 \<Rightarrow> u16 \<Rightarrow> RtcpPacketBase" where
  "RtcpPacketBase_raw uiVersion uiPadding uiTypeSpecific uiPayload uiLengthInWords =
     \<lparr>rb_uiVersion = uiVersion, rb_bPadding = uiPadding, rb_uiTypeSpecific = uiTypeSpecific,
      rb_uiPacketType = uiPayload, rb_uiLength = uiLengthInWords, rb_uiArrivalTimeNtp = 0\<rparr>"

definition setTypeSpecific :: "nat \<Rightarrow> RtcpPacketBase \<Rightarrow> RtcpPacketBase" where
  "setTypeSpecific val b = b\<lparr>rb_uiTypeSpecific := of_nat val\<rparr>"

definition setLength :: "nat \<Rightarrow> RtcpPacketBase \<Rightarrow> RtcpPacketBase" where
  "setLength val b = b\<lparr>rb_uiLength := of_nat val\<rparr>"

definition setArrivalTimeNtp :: "u64 \<Rightarrow> RtcpPacketBase \<Rightarrow> RtcpPacketBase" where
  "setArrivalTimeNtp val b = b\<lparr>rb_uiArrivalTimeNtp := val\<rparr>"

definition base_fields :: "RtcpPacketBase \<Rightarrow> (nat \<times> nat) list" where
  "base_fields b = [(unat (rb_uiVersion b), 2), (of_bool (rb_bPadding b), 1), (unat (rb_uiTypeSpecific b), 5),
     (unat (rb_uiPacketType b), 8), (unat (rb_uiLength b), 16)]"

text \<open>\<open>RtcpPacketBase::write\<close>: the common header, then the virtual \<open>writeTypeSpecific\<close>.\<close>

definition RtcpPacketBase_write ::
  "('i, 'o) bit_io \<Rightarrow> RtcpPacketBase \<Rightarrow> ('o \<Rightarrow> 'o) \<Rightarrow> 'o \<Rightarrow> 'o" where
  "RtcpPacketBase_write io b writeTypeSpecific ob = writeTypeSpecific (writes io (base_fields b) ob)"

section \<open>Report blocks\<close>

record RtcpRrReportBlock =
  rrb_uiReporteeSSRC :: u32
  rrb_uiFractionLost :: u8
  rrb_uiCumulativeNumberOfPacketsLost :: u32
  rrb_uiExtendedHighestSNReceived :: u32
  rrb_uiInterarrivalJitter :: u32
  rrb_uiLastSr :: u32
  rrb_uiDelaySinceLastSr :: u32

definition RtcpRrReportBlock_new :: RtcpRrReportBlock where
  "RtcpRrReportBlock_new = \<lparr>rrb_uiReporteeSSRC = 0, rrb_uiFractionLost = 0,
     rrb_uiCumulativeNumberOfPacketsLost = 0, rrb_uiExtendedHighestSNReceived = 0,
     rrb_uiInterarrivalJitter = 0, rrb_uiLastSr = 0, rrb_uiDelaySinceLastSr = 0\<rparr>"

definition rrb_fields :: "RtcpRrReportBlock \<Rightarrow> (nat \<times> nat) list" where
  "rrb_fields r = [(unat (rrb_uiReporteeSSRC r), 32), (unat (rrb_uiFractionLost r), 8),
     (unat (rrb_uiCumulativeNumberOfPacketsLost r), 24), (unat (rrb_uiExtendedHighestSNReceived r), 32),
     (unat (rrb_uiInterarrivalJitter r), 32), (unat (rrb_uiLastSr r), 32), (unat (rrb_uiDelaySinceLastSr r), 32)]"

definition RtcpRrReportBlock_write :: "('i, 'o) bit_io \<Rightarrow> RtcpRrReportBlock \<Rightarrow> 'o \<Rightarrow> 'o" where
  "RtcpRrReportBlock_write io r ob = writes io (rrb_fields r) ob"

definition RtcpRrReportBlock_read ::
  "('i, 'o) bit_io \<Rightarrow> RtcpRrReportBlock \<Rightarrow> 'i \<Rightarrow> RtcpRrReportBlock \<times> 'i" where
  "RtcpRrReportBlock_read io r ib =
     (case reads io (rrb_fields r) ib of (v, ib') \<Rightarrow>
        (\<lparr>rrb_uiReporteeSSRC = of_nat (v ! 0), rrb_uiFractionLost = of_nat (v ! 1),
          rrb_uiCumulativeNumberOfPacketsLost = of_nat (v ! 2), rrb_uiExtendedHighestSNReceived = of_nat (v ! 3),
          rrb_uiInterarrivalJitter = of_nat (v ! 4), rrb_uiLastSr = of_nat (v ! 5),
          rrb_uiDelaySinceLastSr = of_nat (v ! 6)\<rparr>, ib'))"

text \<open>The loop that reads as many blocks as the RC field announces.\<close>

fun read_report_blocks :: "('i, 'o) bit_io \<Rightarrow> nat \<Rightarrow> 'i \<Rightarrow> RtcpRrReportBlock list \<times> 'i" where
  "read_report_blocks io 0 ib = ([], ib)"
| "read_report_blocks io (Suc n) ib =
     (case RtcpRrReportBlock_read io RtcpRrReportBlock_new ib of (r, ib1) \<Rightarrow>
      case read_report_blocks io n ib1 of (rs, ib2) \<Rightarrow> (r # rs, ib2))"

definition BASIC_SR_LENGTH :: nat where "BASIC_SR_LENGTH = 6"

definition BASIC_RR_LENGTH :: nat where "BASIC_RR_LENGTH = 1"

definition BASIC_RR_BLOCK_LENGTH :: nat where "BASIC_RR_BLOCK_LENGTH = 6"

lemmas report_lengths = BASIC_SR_LENGTH_def BASIC_RR_LENGTH_def BASIC_RR_BLOCK_LENGTH_def

section \<open>Sender reports\<close>

record RtcpSr =
  sr_base :: RtcpPacketBase
  sr_uiSSRC :: u32
  sr_uiNtpTimestampMsw :: u32
  sr_uiNtpTimestampLsw :: u32
  sr_uiRtpTimestamp :: u32
  sr_uiSendersPacketCount :: u32
  sr_uiSendersOctetCount :: u32
  sr_vReports :: "RtcpRrReportBlock list"

definition RtcpSr_default :: RtcpSr where
  "RtcpSr_default = \<lparr>sr_base = RtcpPacketBase_new PT_RTCP_SR, sr_uiSSRC = 0, sr_uiNtpTimestampMsw = 0,
     sr_uiNtpTimestampLsw = 0, sr_uiRtpTimestamp = 0, sr_uiSendersPacketCount = 0,
     sr_uiSendersOctetCount = 0, sr_vReports = []\<rparr>"

definition RtcpSr_raw :: "u8 \<Rightarrow> bool \<Rightarrow> u8 \<Rightarrow> u16 \<Rightarrow> RtcpSr" where
  "RtcpSr_raw uiVersion uiPadding uiTypeSpecific uiLengthInWords =
     RtcpSr_default\<lparr>sr_base := RtcpPacketBase_raw uiVersion uiPadding uiTypeSpecific PT_RTCP_SR uiLengthInWords\<rparr>"

definition RtcpSr_create :: "u32 \<Rightarrow> u32 \<Rightarrow> u32 \<Rightarrow> u32 \<Rightarrow> u32 \<Rightarrow> u32 \<Rightarrow> RtcpSr" where
  "RtcpSr_create uiSSRC uiMsw uiLsw uiRtpTimestamp uiPacketCount uiOctetCount =
     \<lparr>sr_base = setLength BASIC_SR_LENGTH (RtcpPacketBase_new PT_RTCP_SR), sr_uiSSRC = uiSSRC,
      sr_uiNtpTimestampMsw = uiMsw, sr_uiNtpTimestampLsw = uiLsw, sr_uiRtpTimestamp = uiRtpTimestamp,
      sr_uiSendersPacketCount = uiPacketCount, sr_uiSendersOctetCount = uiOctetCount, sr_vReports = []\<rparr>"

definition RtcpSr_addReportBlock :: "RtcpRrReportBlock \<Rightarrow> RtcpSr \<Rightarrow> bool \<times> RtcpSr" where
  "RtcpSr_addReportBlock r p =
     (if length (sr_vReports p) < 31
      then let rs = sr_vReports p @ [r]
           in (True, p\<lparr>sr_vReports := rs,
                 sr_base := setLength (BASIC_SR_LENGTH + length rs * BASIC_RR_BLOCK_LENGTH)
                              (setTypeSpecific (length rs) (sr_base p))\<rparr>)
      else (False, p))"

definition sr_fields :: "RtcpSr \<Rightarrow> (nat \<times> nat) list" where
  "sr_fields p = [(unat (sr_uiSSRC p), 32), (unat (sr_uiNtpTimestampMsw p), 32), (unat (sr_uiNtpTimestampLsw p), 32),
     (unat (sr_uiRtpTimestamp p), 32), (unat (sr_uiSendersPacketCount p), 32), (unat (sr_uiSendersOctetCount p), 32)]"

definition RtcpSr_writeTypeSpecific :: "('i, 'o) bit_io \<Rightarrow> RtcpSr \<Rightarrow> 'o \<Rightarrow> 'o" where
  "RtcpSr_writeTypeSpecific io p ob =
     foldl (\<lambda>ob r. RtcpRrReportBlock_write io r ob) (writes io (sr_fields p) ob) (sr_vReports p)"

definition RtcpSr_readTypeSpecific :: "('i, 'o) bit_io \<Rightarrow> RtcpSr \<Rightarrow> 'i \<Rightarrow> RtcpSr \<times> 'i" where
  "RtcpSr_readTypeSpecific io p ib =
     (case reads io (sr_fields p) ib of (v, ib1) \<Rightarrow>
      case read_report_blocks io (unat (rb_uiTypeSpecific (sr_base p))) ib1 of (rs, ib2) \<Rightarrow>
        (p\<lparr>sr_uiSSRC := of_nat (v ! 0), sr_uiNtpTimestampMsw := of_nat (v ! 1),
           sr_uiNtpTimestampLsw := of_nat (v ! 2), sr_uiRtpTimestamp := of_nat (v ! 3),
           sr_uiSendersPacketCount := of_nat (v ! 4), sr_uiSendersOctetCount := of_nat (v ! 5),
           sr_vReports := sr_vReports p @ rs\<rparr>, ib2))"

section \<open>Receiver reports\<close>

record RtcpRr =
  rr_base :: RtcpPacketBase
  rr_uiReporterSSRC :: u32
  rr_vReports :: "RtcpRrReportBlock list"

definition RtcpRr_create :: "u32 \<Rightarrow> RtcpRr" where
  "RtcpRr_create uiSSRC = \<lparr>rr_base = setLength BASIC_RR_LENGTH (RtcpPacketBase_new PT_RTCP_RR),
     rr_uiReporterSSRC = uiSSRC, rr_vReports = []\<rparr>"

definition RtcpRr_raw :: "u8 \<Rightarrow> bool \<Rightarrow> u8 \<Rightarrow> u16 \<Rightarrow> RtcpRr" where
  "RtcpRr_raw uiVersion uiPadding uiTypeSpecific uiLengthInWords =
     \<lparr>rr_base = RtcpPacketBase_raw uiVersion uiPadding uiTypeSpecific PT_RTCP_RR uiLengthInWords,
      rr_uiReporterSSRC = 0, rr_vReports = []\<rparr>"

definition RtcpRr_addReportBlock :: "RtcpRrReportBlock \<Rightarrow> RtcpRr \<Rightarrow> bool \<times> RtcpRr" where
  "RtcpRr_addReportBlock r p =
     (if length (rr_vReports p) < 31
      then let rs = rr_vReports p @ [r]
           in (True, p\<lparr>rr_vReports := rs,
                 rr_base := setLength (BASIC_RR_LENGTH + length rs * BASIC_RR_BLOCK_LENGTH)
                              (setTypeSpecific (length rs) (rr_base p))\<rparr>)
      else (False, p))"

definition RtcpRr_writeTypeSpecific :: "('i, 'o) bit_io \<Rightarrow> RtcpRr \<Rightarrow> 'o \<Rightarrow> 'o" where
  "RtcpRr_writeTypeSpecific io p ob =
     foldl (\<lambda>ob r. RtcpRrReportBlock_write io r ob) (ob_write io ob (unat (rr_uiReporterSSRC p)) 32) (rr_vReports p)"

definition RtcpRr_readTypeSpecific :: "('i, 'o) bit_io \<Rightarrow> RtcpRr \<Rightarrow> 'i \<Rightarrow> RtcpRr \<times> 'i" where
  "RtcpRr_readTypeSpecific io p ib =
     (case ib_read io ib (unat (rr_uiReporterSSRC p)) 32 of (_, v, ib1) \<Rightarrow>
      case read_report_blocks io (unat (rb_uiTypeSpecific (rr_base p))) ib1 of (rs, ib2) \<Rightarrow>
        (p\<lparr>rr_uiReporterSSRC := of_nat v, rr_vReports := rr_vReports p @ rs\<rparr>, ib2))"

section \<open>Source descriptions\<close>

text \<open>A \<open>std::string\<close> is its list of bytes.\<close>

record SdesInformation =
  si_CName :: bytes
  si_Name :: bytes
  si_Email :: bytes
  si_Phone :: bytes
  si_Loc :: bytes
  si_Tool :: bytes
  si_Note :: bytes
  si_Priv :: bytes

definition SdesInformation_new :: SdesInformation where
  "SdesInformation_new = \<lparr>si_CName = [], si_Name = [], si_Email = [], si_Phone = [], si_Loc = [],
     si_Tool = [], si_Note = [], si_Priv = []\<rparr>"

record RtcpSdesReportBlock =
  sb_info :: SdesInformation
  sb_uiSSRC_CSRC1 :: u32

definition RtcpSdesReportBlock_create :: "u32 \<Rightarrow> RtcpSdesReportBlock" where
  "RtcpSdesReportBlock_create uiSSRC = \<lparr>sb_info = SdesInformation_new, sb_uiSSRC_CSRC1 = uiSSRC\<rparr>"

definition SDES_ITEM_HEADER_LENGTH :: u32 where "SDES_ITEM_HEADER_LENGTH = 2"

definition RTP_MAX_SDES :: nat where "RTP_MAX_SDES = 255"

definition addLength :: "bytes \<Rightarrow> u32" where
  "addLength sValue = (if sValue = [] then 0 else of_nat (length sValue) + SDES_ITEM_HEADER_LENGTH)"

definition getOctetCount :: "RtcpSdesReportBlock \<Rightarrow> u32" where
  "getOctetCount b = (let i = sb_info b in
     4 + addLength (si_CName i) + addLength (si_Name i) + addLength (si_Email i) + addLength (si_Phone i)
       + addLength (si_Loc i) + addLength (si_Tool i) + addLength (si_Note i) + addLength (si_Priv i))"

definition Sdes_getPadding :: "RtcpSdesReportBlock \<Rightarrow> u32" where
  "Sdes_getPadding b = 4 - getOctetCount b mod 4"

definition getWordCount :: "RtcpSdesReportBlock \<Rightarrow> u32" where
  "getWordCount b = (let uiWords = drop_bit 2 (getOctetCount b)
     in if Sdes_getPadding b \<noteq> 0 then uiWords + 1 else uiWords)"

definition writeListItemIfNotEmpty :: "('i, 'o) bit_io \<Rightarrow> nat \<Rightarrow> bytes \<Rightarrow> 'o \<Rightarrow> 'o" where
  "writeListItemIfNotEmpty io uiType sValue ob =
     (if sValue = [] then ob
      else let uiLen = unat (of_nat (length sValue) :: u32);
               sTempVal = (if uiLen > RTP_MAX_SDES then take RTP_MAX_SDES sValue else sValue)
           in writes io ((uiType, 8) # (length sTempVal, 8) # chars_fields sTempVal) ob)"

definition RtcpSdesReportBlock_write :: "('i, 'o) bit_io \<Rightarrow> RtcpSdesReportBlock \<Rightarrow> 'o \<Rightarrow> 'o" where
  "RtcpSdesReportBlock_write io b ob =
     (let i = sb_info b;
          ob0 = ob_write io ob (unat (sb_uiSSRC_CSRC1 b)) 32;
          ob1 = writeListItemIfNotEmpty io 1 (si_CName i) ob0;
          ob2 = writeListItemIfNotEmpty io 2 (si_Name i) ob1;
          ob3 = writeListItemIfNotEmpty io 3 (si_Email i) ob2;
          ob4 = writeListItemIfNotEmpty io 4 (si_Phone i) ob3;
          ob5 = writeListItemIfNotEmpty io 5 (si_Loc i) ob4;
          ob6 = writeListItemIfNotEmpty io 6 (si_Tool i) ob5;
          ob7 = writeListItemIfNotEmpty io 7 (si_Note i) ob6
      in writeListItemIfNotEmpty io 8 (si_Priv i) ob7)"

definition moreSdesItemsToBeRead :: "('i, 'o) bit_io \<Rightarrow> 'i \<Rightarrow> bool" where
  "moreSdesItemsToBeRead io ib \<longleftrightarrow> ib_bitsRemaining io ib > 0 \<and> ib_peekAtCurrentByte io ib \<noteq> 0"

text \<open>The \<open>switch\<close> of \<open>readListItem\<close>: an unknown type is dropped.\<close>

definition setSdesItem :: "nat \<Rightarrow> bytes \<Rightarrow> SdesInformation \<Rightarrow> SdesInformation" where
  "setSdesItem uiType sValue i =
     (if uiType = 1 then i\<lparr>si_CName := sValue\<rparr>
      else if uiType = 2 then i\<lparr>si_Name := sValue\<rparr>
      else if uiType = 3 then i\<lparr>si_Email := sValue\<rparr>
      else if uiType = 4 then i\<lparr>si_Phone := sValue\<rparr>
      else if uiType = 5 then i\<lparr>si_Loc := sValue\<rparr>
      else if uiType = 6 then i\<lparr>si_Tool := sValue\<rparr>
      else if uiType = 7 then i\<lparr>si_Note := sValue\<rparr>
      else if uiType = 8 then i\<lparr>si_Priv := sValue\<rparr>
      else i)"

definition readListItem :: "('i, 'o) bit_io \<Rightarrow> SdesInformation \<Rightarrow> 'i \<Rightarrow> SdesInformation \<times> 'i" where
  "readListItem io i ib =
     (case ib_read io ib 0 8 of (_, uiType, ib1) \<Rightarrow>
      case ib_read io ib1 0 8 of (_, uiLength, ib2) \<Rightarrow>
      case read_chars io uiLength ib2 of (sValue, ib3) \<Rightarrow> (setSdesItem uiType sValue i, ib3))"

text \<open>
  The loop \<open>while (moreSdesItemsToBeRead(ib)) readListItem(ib)\<close> with fuel; \<open>None\<close> means that
  the fuel ran out. The reader starts it with one more than the bits that remain, and
  every turn takes at least the type octet.
\<close>

fun read_sdes_items ::
  "('i, 'o) bit_io \<Rightarrow> nat \<Rightarrow> SdesInformation \<Rightarrow> 'i \<Rightarrow> (SdesInformation \<times> 'i) option" where
  "read_sdes_items io 0 i ib = None"
| "read_sdes_items io (Suc fuel) i ib =
     (if moreSdesItemsToBeRead io ib
      then (case readListItem io i ib of (i1, ib1) \<Rightarrow> read_sdes_items io fuel i1 ib1)
      else Some (i, ib))"

definition RtcpSdesReportBlock_read ::
  "('i, 'o) bit_io \<Rightarrow> RtcpSdesReportBlock \<Rightarrow> 'i \<Rightarrow> (RtcpSdesReportBlock \<times> 'i) option" where
  "RtcpSdesReportBlock_read io b ib =
     (case ib_read io ib (unat (sb_uiSSRC_CSRC1 b)) 32 of (_, uiSSRC, ib1) \<Rightarrow>
      case read_sdes_items io (Suc (ib_bitsRemaining io ib1)) (sb_info b) ib1 of
        None \<Rightarrow> None
      | Some (i, ib2) \<Rightarrow>
          let b1 = \<lparr>sb_info = i, sb_uiSSRC_CSRC1 = of_nat uiSSRC\<rparr>
          in (case ib_skipBytes io ib2 (unat (Sdes_getPadding b1)) of (_, ib3) \<Rightarrow> Some (b1, ib3)))"

record RtcpSdes =
  sd_base :: RtcpPacketBase
  sd_vReports :: "RtcpSdesReportBlock list"

definition RtcpSdes_create :: RtcpSdes where
  "RtcpSdes_create = \<lparr>sd_base = RtcpPacketBase_new PT_RTCP_SDES, sd_vReports = []\<rparr>"

definition RtcpSdes_raw :: "u8 \<Rightarrow> bool \<Rightarrow> u8 \<Rightarrow> u16 \<Rightarrow> RtcpSdes" where
  "RtcpSdes_raw uiVersion uiPadding uiTypeSpecific uiLengthInWords =
     \<lparr>sd_base = RtcpPacketBase_raw uiVersion uiPadding uiTypeSpecific PT_RTCP_SDES uiLengthInWords, sd_vReports = []\<rparr>"

definition addSdesReport :: "RtcpSdesReportBlock \<Rightarrow> RtcpSdes \<Rightarrow> RtcpSdes" where
  "addSdesReport report p =
     (let rs = sd_vReports p @ [report]
      in p\<lparr>sd_vReports := rs,
           sd_base := setLength (unat (rb_uiLength (sd_base p)) + unat (getWordCount report))
                        (setTypeSpecific (length rs) (sd_base p))\<rparr>)"

definition RtcpSdes_writeTypeSpecific :: "('i, 'o) bit_io \<Rightarrow> RtcpSdes \<Rightarrow> 'o \<Rightarrow> 'o" where
  "RtcpSdes_writeTypeSpecific io p ob =
     foldl (\<lambda>ob report. writes io (replicate (unat (Sdes_getPadding report)) (0, 8))
                          (RtcpSdesReportBlock_write io report ob)) ob (sd_vReports p)"

fun read_sdes_blocks :: "('i, 'o) bit_io \<Rightarrow> nat \<Rightarrow> 'i \<Rightarrow> (RtcpSdesReportBlock list \<times> 'i) option" where
  "read_sdes_blocks io 0 ib = Some ([], ib)"
| "read_sdes_blocks io (Suc n) ib =
     (case RtcpSdesReportBlock_read io (RtcpSdesReportBlock_create 0) ib of
        None \<Rightarrow> None
      | Some (b, ib1) \<Rightarrow>
          (case read_sdes_blocks io n ib1 of None \<Rightarrow> None | Some (bs, ib2) \<Rightarrow> Some (b # bs, ib2)))"

definition RtcpSdes_readTypeSpecific :: "('i, 'o) bit_io \<Rightarrow> RtcpSdes \<Rightarrow> 'i \<Rightarrow> (RtcpSdes \<times> 'i) option" where
  "RtcpSdes_readTypeSpecific io p ib =
     map_option (\<lambda>(bs, ib'). (p\<lparr>sd_vReports := sd_vReports p @ bs\<rparr>, ib'))
       (read_sdes_blocks io (unat (rb_uiTypeSpecific (sd_base p))) ib)"

section \<open>APP packets\<close>

record RtcpApp =
  ap_base :: RtcpPacketBase
  ap_uiSSRC :: u32
  ap_PacketName :: bytes
  ap_appData :: bytes

text \<open>No constructor sets \<open>m_uiSSRC\<close>: it holds what the memory held.\<close>

definition uninit32 :: "('i, 'o) bit_io \<Rightarrow> u32" where
  "uninit32 io = of_nat (of_bits (bytes_bits (map (mem_uninit io) [0..<4])))"

definition RtcpApp_create :: "('i, 'o) bit_io \<Rightarrow> RtcpApp" where
  "RtcpApp_create io = \<lparr>ap_base = RtcpPacketBase_new PT_RTCP_APP, ap_uiSSRC = uninit32 io,
     ap_PacketName = [0, 0, 0, 0], ap_appData = []\<rparr>"

definition RtcpApp_raw :: "('i, 'o) bit_io \<Rightarrow> u8 \<Rightarrow> bool \<Rightarrow> u8 \<Rightarrow> u16 \<Rightarrow> RtcpApp" where
  "RtcpApp_raw io uiVersion uiPadding uiTypeSpecific uiLengthInWords =
     (RtcpApp_create io)\<lparr>ap_base := RtcpPacketBase_raw uiVersion uiPadding uiTypeSpecific PT_RTCP_APP uiLengthInWords\<rparr>"

definition App_getPadding :: "RtcpApp \<Rightarrow> nat" where
  "App_getPadding p = 4 - length (ap_appData p) mod 4"

definition App_recalculateLength :: "RtcpApp \<Rightarrow> RtcpApp" where
  "App_recalculateLength p =
     (let uiSizeWords = length (ap_appData p) div 4;
          uiSizeWords' = (if App_getPadding p > 0 then uiSizeWords + 1 else uiSizeWords)
      in p\<lparr>ap_base := setLength (2 + uiSizeWords') (ap_base p)\<rparr>)"

definition setAppData :: "u8 \<Rightarrow> bytes \<Rightarrow> bytes \<Rightarrow> RtcpApp \<Rightarrow> RtcpApp" where
  "setAppData uiSubtype packetName uiData p =
     App_recalculateLength (p\<lparr>ap_base := setTypeSpecific (unat uiSubtype) (ap_base p),
        ap_PacketName := take 4 packetName, ap_appData := uiData\<rparr>)"

definition RtcpApp_writeTypeSpecific :: "('i, 'o) bit_io \<Rightarrow> RtcpApp \<Rightarrow> 'o \<Rightarrow> 'o" where
  "RtcpApp_writeTypeSpecific io p ob =
     writes io ((unat (ap_uiSSRC p), 32) # chars_fields (ap_PacketName p) @ chars_fields (ap_appData p) @
                replicate (App_getPadding p) (0, 8)) ob"

definition RtcpApp_readTypeSpecific :: "('i, 'o) bit_io \<Rightarrow> RtcpApp \<Rightarrow> 'i \<Rightarrow> RtcpApp \<times> 'i" where
  "RtcpApp_readTypeSpecific io p ib =
     (case ib_read io ib (unat (ap_uiSSRC p)) 32 of (_, v, ib1) \<Rightarrow>
      case reads io (chars_fields (ap_PacketName p)) ib1 of (ns, ib2) \<Rightarrow>
        (p\<lparr>ap_uiSSRC := of_nat v, ap_PacketName := map of_nat ns\<rparr>, ib2))"

section \<open>BYE packets\<close>

record RtcpBye =
  by_base :: RtcpPacketBase
  by_vSSRCs :: "u32 list"
  by_sOptionalReasonForLeaving :: bytes

definition RtcpBye_default :: RtcpBye where
  "RtcpBye_default = \<lparr>by_base = RtcpPacketBase_new PT_RTCP_BYE, by_vSSRCs = [], by_sOptionalReasonForLeaving = []\<rparr>"

definition RtcpBye_raw :: "u8 \<Rightarrow> bool \<Rightarrow> u8 \<Rightarrow> u16 \<Rightarrow> RtcpBye" where
  "RtcpBye_raw uiVersion uiPadding uiTypeSpecific uiLengthInWords =
     RtcpBye_default\<lparr>by_base := RtcpPacketBase_raw uiVersion uiPadding uiTypeSpecific PT_RTCP_BYE uiLengthInWords\<rparr>"

definition Bye_getPadding :: "RtcpBye \<Rightarrow> nat" where
  "Bye_getPadding p = 4 - length (by_sOptionalReasonForLeaving p) mod 4"

definition Bye_recalculateLength :: "RtcpBye \<Rightarrow> RtcpBye" where
  "Bye_recalculateLength p =
     (let reason = by_sOptionalReasonForLeaving p;
          uiSizeWords = (if reason \<noteq> []
            then (if Bye_getPadding p > 0 then length reason div 4 + 1 else length reason div 4) else 0)
      in p\<lparr>by_base := setLength (length (by_vSSRCs p) + uiSizeWords) (by_base p)\<rparr>)"

definition addSSRC :: "u32 \<Rightarrow> RtcpBye \<Rightarrow> RtcpBye" where
  "addSSRC uiSSRC p =
     (let ss = by_vSSRCs p @ [uiSSRC]
      in Bye_recalculateLength (p\<lparr>by_vSSRCs := ss, by_base := setTypeSpecific (length ss) (by_base p)\<rparr>))"

definition RtcpBye_create :: "u32 \<Rightarrow> RtcpBye" where
  "RtcpBye_create uiSSRC = addSSRC uiSSRC RtcpBye_default"

definition setReasonForLeaving :: "bytes \<Rightarrow> RtcpBye \<Rightarrow> RtcpBye" where
  "setReasonForLeaving val p = Bye_recalculateLength (p\<lparr>by_sOptionalReasonForLeaving := val\<rparr>)"

definition ssrc_fields :: "u32 list \<Rightarrow> (nat \<times> nat) list" where
  "ssrc_fields ss = map (\<lambda>x. (unat x, 32)) ss"

definition RtcpBye_writeTypeSpecific :: "('i, 'o) bit_io \<Rightarrow> RtcpBye \<Rightarrow> 'o \<Rightarrow> 'o" where
  "RtcpBye_writeTypeSpecific io p ob =
     (let ob1 = writes io (ssrc_fields (by_vSSRCs p)) ob; reason = by_sOptionalReasonForLeaving p
      in if reason \<noteq> []
         then writes io (replicate (Bye_getPadding p) (0, 8))
                (writes io (chars_fields reason) (ob_write io ob1 (length reason) 8))
         else ob1)"

definition RtcpBye_readTypeSpecific :: "('i, 'o) bit_io \<Rightarrow> RtcpBye \<Rightarrow> 'i \<Rightarrow> RtcpBye \<times> 'i" where
  "RtcpBye_readTypeSpecific io p ib =
     (case reads io (replicate (unat (rb_uiTypeSpecific (by_base p))) (0, 32)) ib of (ss, ib1) \<Rightarrow>
      case ib_read io ib1 0 8 of (_, uiLength, ib2) \<Rightarrow>
      case read_chars io uiLength ib2 of (reason, ib3) \<Rightarrow>
        let p1 = p\<lparr>by_vSSRCs := by_vSSRCs p @ map of_nat ss, by_sOptionalReasonForLeaving := reason\<rparr>
        in (case reads io (replicate (Bye_getPadding p1) (0, 8)) ib3 of (_, ib4) \<Rightarrow> (p1, ib4)))"

section \<open>Packets\<close>

text \<open>
  The subclasses of \<open>RtcpPacketBase\<close>; \<open>rtcp_base\<close> is the inherited part, \<open>rtcp_write\<close> and
  \<open>rtcp_read\<close> dispatch the virtual methods.
\<close>

datatype rtcp_packet = SR RtcpSr | RR RtcpRr | SDES RtcpSdes | APP RtcpApp | BYE RtcpBye

fun rtcp_base :: "rtcp_packet \<Rightarrow> RtcpPacketBase" where
  "rtcp_base (SR p) = sr_base p"
| "rtcp_base (RR p) = rr_base p"
| "rtcp_base (SDES p) = sd_base p"
| "rtcp_base (APP p) = ap_base p"
| "rtcp_base (BYE p) = by_base p"

fun rtcp_map_base :: "(RtcpPacketBase \<Rightarrow> RtcpPacketBase) \<Rightarrow> rtcp_packet \<Rightarrow> rtcp_packet" where
  "rtcp_map_base f (SR p) = SR (p\<lparr>sr_base := f (sr_base p)\<rparr>)"
| "rtcp_map_base f (RR p) = RR (p\<lparr>rr_base := f (rr_base p)\<rparr>)"
| "rtcp_map_base f (SDES p) = SDES (p\<lparr>sd_base := f (sd_base p)\<rparr>)"
| "rtcp_map_base f (APP p) = APP (p\<lparr>ap_base := f (ap_base p)\<rparr>)"
| "rtcp_map_base f (BYE p) = BYE (p\<lparr>by_base := f (by_base p)\<rparr>)"

fun rtcp_writeTypeSpecific :: "('i, 'o) bit_io \<Rightarrow> rtcp_packet \<Rightarrow> 'o \<Rightarrow> 'o" where
  "rtcp_writeTypeSpecific io (SR p) ob = RtcpSr_writeTypeSpecific io p ob"
| "rtcp_writeTypeSpecific io (RR p) ob = RtcpRr_writeTypeSpecific io p ob"
| "rtcp_writeTypeSpecific io (SDES p) ob = RtcpSdes_writeTypeSpecific io p ob"
| "rtcp_writeTypeSpecific io (APP p) ob = RtcpApp_writeTypeSpecific io p ob"
| "rtcp_writeTypeSpecific io (BYE p) ob = RtcpBye_writeTypeSpecific io p ob"

definition rtcp_write :: "('i, 'o) bit_io \<Rightarrow> rtcp_packet \<Rightarrow> 'o \<Rightarrow> 'o" where
  "rtcp_write io p ob = RtcpPacketBase_write io (rtcp_base p) (rtcp_writeTypeSpecific io p) ob"

fun rtcp_readTypeSpecific :: "('i, 'o) bit_io \<Rightarrow> rtcp_packet \<Rightarrow> 'i \<Rightarrow> (rtcp_packet \<times> 'i) option" where
  "rtcp_readTypeSpecific io (SR p) ib = (case RtcpSr_readTypeSpecific io p ib of (q, ib') \<Rightarrow> Some (SR q, ib'))"
| "rtcp_readTypeSpecific io (RR p) ib = (case RtcpRr_readTypeSpecific io p ib of (q, ib') \<Rightarrow> Some (RR q, ib'))"
| "rtcp_readTypeSpecific io (SDES p) ib =
     map_option (\<lambda>(q, ib'). (SDES q, ib')) (RtcpSdes_readTypeSpecific io p ib)"
| "rtcp_readTypeSpecific io (APP p) ib = (case RtcpApp_readTypeSpecific io p ib of (q, ib') \<Rightarrow> Some (APP q, ib'))"
| "rtcp_readTypeSpecific io (BYE p) ib = (case RtcpBye_readTypeSpecific io p ib of (q, ib') \<Rightarrow> Some (BYE q, ib'))"

text \<open>\<open>compoundRtcpPacketSize\<close>, in 32 bit arithmetic.\<close>

definition compoundRtcpPacketSize :: "rtcp_packet list \<Rightarrow> u32" where
  "compoundRtcpPacketSize ps =
     push_bit 2 (foldl (\<lambda>s p. s + (1 + ucast (rb_uiLength (rtcp_base p)))) 0 ps)"

end
