(* ===== verification/Rtcp_Wire.thy ===== *)
theory Rtcp_Wire
  imports Rtcp
begin

text \<open>
  The wire format of the RTCP packets: for each packet class a well-formedness predicate that
  the constructors establish and the mutators keep, the bits the writer produces for
  well-formed packets, their number against the length field, and the reader as the
  inverse of the writer.
\<close>

section \<open>Well-formed packets\<close>

definition base_ok :: "u8 \<Rightarrow> nat \<Rightarrow> nat \<Rightarrow> RtcpPacketBase \<Rightarrow> bool" where
  "base_ok ty n w b \<longleftrightarrow> rb_uiVersion b = 2 \<and> \<not> rb_bPadding b \<and> rb_uiPacketType b = ty
     \<and> unat (rb_uiTypeSpecific b) = n \<and> n \<le> 31 \<and> unat (rb_uiLength b) = w"

definition block_ok :: "RtcpRrReportBlock \<Rightarrow> bool" where
  "block_ok r \<longleftrightarrow> unat (rrb_uiCumulativeNumberOfPacketsLost r) < 2 ^ 24"

definition sr_ok :: "RtcpSr \<Rightarrow> bool" where
  "sr_ok p \<longleftrightarrow> base_ok PT_RTCP_SR (length (sr_vReports p)) (6 + 6 * length (sr_vReports p)) (sr_base p)
     \<and> list_all block_ok (sr_vReports p)"

definition rr_ok :: "RtcpRr \<Rightarrow> bool" where
  "rr_ok p \<longleftrightarrow> base_ok PT_RTCP_RR (length (rr_vReports p)) (1 + 6 * length (rr_vReports p)) (rr_base p)
     \<and> list_all block_ok (rr_vReports p)"

definition blocks_bits :: "RtcpRrReportBlock list \<Rightarrow> bool list" where
  "blocks_bits rs = concat (map (\<lambda>r. fields_bits (rrb_fields r)) rs)"

lemma length_blocks_bits [simp]: "length (blocks_bits rs) = 192 * length rs"
  by (induction rs) (simp_all add: blocks_bits_def rrb_fields_def)

lemma fields_ok_rrb: "block_ok r \<Longrightarrow> fields_ok (rrb_fields r)"
  by (simp add: block_ok_def rrb_fields_def)

lemma fields_ok_sr [simp]: "fields_ok (sr_fields p)"
  by (simp add: sr_fields_def)

lemma fields_ok_base: "base_ok ty n w b \<Longrightarrow> fields_ok (base_fields b)"
  by (auto simp: base_ok_def base_fields_def)

lemma length_base_bits [simp]: "length (fields_bits (base_fields b)) = 32"
  by (simp add: base_fields_def)

text \<open>Every way to build a report with the classes' own operations gives a well-formed one.\<close>

lemma sr_ok_create [simp]: "sr_ok (RtcpSr_create a b c d e f)"
  by (simp add: sr_ok_def base_ok_def RtcpSr_create_def setLength_def RtcpPacketBase_new_def report_lengths)

lemma sr_ok_add:
  assumes "sr_ok p" and "block_ok r"
  shows "sr_ok (snd (RtcpSr_addReportBlock r p))"
  using assms
  by (auto simp: sr_ok_def base_ok_def RtcpSr_addReportBlock_def Let_def setLength_def setTypeSpecific_def
      report_lengths simp del: of_nat_add of_nat_Suc of_nat_mult of_nat_numeral)

lemma rr_ok_create [simp]: "rr_ok (RtcpRr_create a)"
  by (simp add: rr_ok_def base_ok_def RtcpRr_create_def setLength_def RtcpPacketBase_new_def report_lengths)

lemma rr_ok_add:
  assumes "rr_ok p" and "block_ok r"
  shows "rr_ok (snd (RtcpRr_addReportBlock r p))"
  using assms
  by (auto simp: rr_ok_def base_ok_def RtcpRr_addReportBlock_def Let_def setLength_def setTypeSpecific_def
      report_lengths simp del: of_nat_add of_nat_Suc of_nat_mult of_nat_numeral)

section \<open>Reports on the wire\<close>

context bit_stream
begin

lemma write_blocks_bits:
  assumes "list_all block_ok rs"
  shows "obits (foldl (\<lambda>ob r. RtcpRrReportBlock_write io r ob) ob rs) = obits ob @ blocks_bits rs"
  unfolding blocks_bits_def
  by (rule foldl_write_bits)
    (use assms in \<open>auto simp: RtcpRrReportBlock_write_def writes_bits fields_ok_rrb list_all_iff\<close>)

lemma RtcpRrReportBlock_read_bits:
  assumes "block_ok r" and "ibits ib = fields_bits (rrb_fields r) @ rest"
  shows "\<exists>ib'. RtcpRrReportBlock_read io old ib = (r, ib') \<and> ibits ib' = rest"
proof -
  have w: "map snd (rrb_fields old) = map snd (rrb_fields r)" by (simp add: rrb_fields_def)
  obtain ib' where "reads io (rrb_fields old) ib = (map fst (rrb_fields r), ib')" and "ibits ib' = rest"
    by (rule reads_fields [OF w fields_ok_rrb [OF assms(1)] assms(2)])
  then show ?thesis by (simp add: RtcpRrReportBlock_read_def rrb_fields_def)
qed

lemma read_report_blocks_bits:
  "\<lbrakk>list_all block_ok rs; ibits ib = blocks_bits rs @ rest\<rbrakk> \<Longrightarrow>
   \<exists>ib'. read_report_blocks io (length rs) ib = (rs, ib') \<and> ibits ib' = rest"
proof (induction rs arbitrary: ib)
  case Nil
  then show ?case by (simp add: blocks_bits_def)
next
  case (Cons r rs)
  obtain ib1 where "RtcpRrReportBlock_read io RtcpRrReportBlock_new ib = (r, ib1)" and "ibits ib1 = blocks_bits rs @ rest"
    using RtcpRrReportBlock_read_bits [of r ib "blocks_bits rs @ rest"] Cons.prems by (auto simp: blocks_bits_def)
  then show ?case using Cons.IH [of ib1] Cons.prems by auto
qed

lemma RtcpSr_write_bits:
  assumes "sr_ok p"
  shows "obits (RtcpSr_writeTypeSpecific io p ob) = obits ob @ fields_bits (sr_fields p) @ blocks_bits (sr_vReports p)"
  using assms by (simp add: RtcpSr_writeTypeSpecific_def write_blocks_bits writes_bits sr_ok_def)

lemma RtcpSr_read_bits:
  assumes ok: "sr_ok p" and new: "sr_vReports q = []" "rb_uiTypeSpecific (sr_base q) = rb_uiTypeSpecific (sr_base p)"
    and bits: "ibits ib = fields_bits (sr_fields p) @ blocks_bits (sr_vReports p) @ rest"
  shows "\<exists>ib'. RtcpSr_readTypeSpecific io q ib = (p\<lparr>sr_base := sr_base q\<rparr>, ib') \<and> ibits ib' = rest"
proof -
  have w: "map snd (sr_fields q) = map snd (sr_fields p)" by (simp add: sr_fields_def)
  obtain ib1 where r1: "reads io (sr_fields q) ib = (map fst (sr_fields p), ib1)"
    and b1: "ibits ib1 = blocks_bits (sr_vReports p) @ rest"
    by (rule reads_fields [OF w fields_ok_sr bits])
  obtain ib2 where "read_report_blocks io (length (sr_vReports p)) ib1 = (sr_vReports p, ib2)" "ibits ib2 = rest"
    using read_report_blocks_bits [OF _ b1] ok by (auto simp: sr_ok_def)
  then show ?thesis
    using r1 new ok by (cases p) (simp add: RtcpSr_readTypeSpecific_def sr_fields_def sr_ok_def base_ok_def)
qed

lemma RtcpRr_write_bits:
  assumes "rr_ok p"
  shows "obits (RtcpRr_writeTypeSpecific io p ob)
    = obits ob @ to_bits 32 (unat (rr_uiReporterSSRC p)) @ blocks_bits (rr_vReports p)"
  using assms by (simp add: RtcpRr_writeTypeSpecific_def write_blocks_bits write_bits rr_ok_def)

lemma RtcpRr_read_bits:
  assumes ok: "rr_ok p" and new: "rr_vReports q = []" "rb_uiTypeSpecific (rr_base q) = rb_uiTypeSpecific (rr_base p)"
    and bits: "ibits ib = to_bits 32 (unat (rr_uiReporterSSRC p)) @ blocks_bits (rr_vReports p) @ rest"
  shows "\<exists>ib'. RtcpRr_readTypeSpecific io q ib = (p\<lparr>rr_base := rr_base q\<rparr>, ib') \<and> ibits ib' = rest"
proof -
  obtain ib1 where r1: "ib_read io ib (unat (rr_uiReporterSSRC q)) 32 = (True, unat (rr_uiReporterSSRC p), ib1)"
    and b1: "ibits ib1 = blocks_bits (rr_vReports p) @ rest"
    by (rule read_field [OF bits]) simp_all
  obtain ib2 where "read_report_blocks io (length (rr_vReports p)) ib1 = (rr_vReports p, ib2)" "ibits ib2 = rest"
    using read_report_blocks_bits [OF _ b1] ok by (auto simp: rr_ok_def)
  then show ?thesis
    using r1 new ok by (cases p) (simp add: RtcpRr_readTypeSpecific_def rr_ok_def base_ok_def)
qed

end

section \<open>Source descriptions on the wire\<close>

definition sdes_items :: "SdesInformation \<Rightarrow> (nat \<times> bytes) list" where
  "sdes_items i = [(1, si_CName i), (2, si_Name i), (3, si_Email i), (4, si_Phone i), (5, si_Loc i),
     (6, si_Tool i), (7, si_Note i), (8, si_Priv i)]"

definition items_ok :: "(nat \<times> bytes) list \<Rightarrow> bool" where
  "items_ok its \<longleftrightarrow> list_all (\<lambda>(t, s). 0 < t \<and> t < 256 \<and> length s \<le> 255) its"

definition info_ok :: "SdesInformation \<Rightarrow> bool" where
  "info_ok i \<longleftrightarrow> list_all (\<lambda>(t, s). length s \<le> 255) (sdes_items i)"

definition item_octets :: "bytes \<Rightarrow> nat" where
  "item_octets s = (if s = [] then 0 else length s + 2)"

definition info_octets :: "SdesInformation \<Rightarrow> nat" where
  "info_octets i = 4 + sum_list (map (\<lambda>(t, s). item_octets s) (sdes_items i))"

definition item_bits :: "nat \<times> bytes \<Rightarrow> bool list" where
  "item_bits = (\<lambda>(t, s). if s = [] then [] else to_bits 8 t @ to_bits 8 (length s) @ bytes_bits s)"

definition items_bits :: "(nat \<times> bytes) list \<Rightarrow> bool list" where
  "items_bits its = concat (map item_bits its)"

definition sdes_block_bits :: "RtcpSdesReportBlock \<Rightarrow> bool list" where
  "sdes_block_bits b = to_bits 32 (unat (sb_uiSSRC_CSRC1 b)) @ items_bits (sdes_items (sb_info b)) @
     pad_bits (unat (Sdes_getPadding b))"

definition sdes_words :: "RtcpSdesReportBlock \<Rightarrow> nat" where
  "sdes_words b = info_octets (sb_info b) div 4 + 1"

definition sdes_ok :: "RtcpSdes \<Rightarrow> bool" where
  "sdes_ok p \<longleftrightarrow> base_ok PT_RTCP_SDES (length (sd_vReports p)) (sum_list (map sdes_words (sd_vReports p))) (sd_base p)
     \<and> list_all (\<lambda>b. info_ok (sb_info b)) (sd_vReports p)"

lemma items_ok_sdes: "info_ok i \<Longrightarrow> items_ok (sdes_items i)"
  by (simp add: info_ok_def items_ok_def sdes_items_def)

lemma length_items_bits: "length (items_bits its) = 8 * sum_list (map (\<lambda>(t, s). item_octets s) its)"
  by (induction its) (auto simp: items_bits_def item_bits_def item_octets_def)

lemma getOctetCount_info: "getOctetCount b = of_nat (info_octets (sb_info b))"
proof -
  have "addLength s = of_nat (item_octets s)" for s
    by (simp add: addLength_def item_octets_def SDES_ITEM_HEADER_LENGTH_def)
  then show ?thesis
    by (simp add: getOctetCount_def info_octets_def sdes_items_def Let_def)
qed

lemma info_octets_bound:
  assumes "info_ok i"
  shows "info_octets i \<le> 2060"
proof -
  have "length s \<le> 255 \<Longrightarrow> item_octets s \<le> 257" for s by (simp add: item_octets_def)
  then have "item_octets (si_CName i) \<le> 257" "item_octets (si_Name i) \<le> 257" "item_octets (si_Email i) \<le> 257"
    "item_octets (si_Phone i) \<le> 257" "item_octets (si_Loc i) \<le> 257" "item_octets (si_Tool i) \<le> 257"
    "item_octets (si_Note i) \<le> 257" "item_octets (si_Priv i) \<le> 257"
    using assms by (simp_all add: info_ok_def sdes_items_def)
  then show ?thesis by (simp add: info_octets_def sdes_items_def)
qed

lemma sdes_counts:
  assumes "info_ok (sb_info b)"
  shows "unat (getOctetCount b) = info_octets (sb_info b)"
    and "unat (Sdes_getPadding b) = 4 - info_octets (sb_info b) mod 4"
    and "unat (getWordCount b) = sdes_words b"
proof -
  define n where "n = info_octets (sb_info b)"
  have n: "n \<le> 2060" using info_octets_bound [OF assms] by (simp add: n_def)
  have oct: "getOctetCount b = of_nat n" by (simp add: getOctetCount_info n_def)
  then have u: "unat (getOctetCount b) = n" using n by simp
  have "unat (getOctetCount b mod 4) = n mod 4" using u by (simp add: unat_mod)
  then have pad: "unat (Sdes_getPadding b) = 4 - n mod 4"
    by (simp add: Sdes_getPadding_def unat_sub_if' less_imp_le)
  have "unat (drop_bit 2 (getOctetCount b)) = n div 4"
    using u by (simp add: drop_bit_eq_div unat_div)
  then have "unat (drop_bit 2 (getOctetCount b) + 1) = n div 4 + 1"
    using n by (simp add: unat_word_ariths)
  moreover have "Sdes_getPadding b \<noteq> 0" using pad by (auto simp: unat_eq_0 [symmetric])
  ultimately show "unat (getWordCount b) = sdes_words b"
    by (simp add: getWordCount_def Let_def sdes_words_def n_def)
  show "unat (getOctetCount b) = info_octets (sb_info b)" "unat (Sdes_getPadding b) = 4 - info_octets (sb_info b) mod 4"
    using u pad by (simp_all add: n_def)
qed

lemma length_sdes_block_bits:
  assumes "info_ok (sb_info b)"
  shows "length (sdes_block_bits b) = 32 * sdes_words b"
proof -
  define n where "n = info_octets (sb_info b)"
  have "length (items_bits (sdes_items (sb_info b))) = 8 * (n - 4)" and "4 \<le> n"
    by (simp_all add: length_items_bits n_def info_octets_def)
  then have "length (sdes_block_bits b) = 8 * (n + (4 - n mod 4))"
    using sdes_counts(2) [OF assms] by (simp add: sdes_block_bits_def n_def [symmetric])
  moreover have "n + (4 - n mod 4) = 4 * (n div 4 + 1)" by presburger
  ultimately show ?thesis by (simp add: sdes_words_def n_def [symmetric])
qed

lemma sdes_words_bound: "info_ok (sb_info b) \<Longrightarrow> sdes_words b \<le> 516"
  using info_octets_bound [of "sb_info b"] by (simp add: sdes_words_def)

lemma sum_sdes_words: "list_all (\<lambda>b. info_ok (sb_info b)) bs \<Longrightarrow> sum_list (map sdes_words bs) \<le> 516 * length bs"
  by (induction bs) (auto dest: sdes_words_bound)

lemma sdes_ok_create [simp]: "sdes_ok RtcpSdes_create"
  by (simp add: sdes_ok_def base_ok_def RtcpSdes_create_def RtcpPacketBase_new_def)

lemma sdes_ok_add:
  assumes ok: "sdes_ok p" and i: "info_ok (sb_info b)" and n: "length (sd_vReports p) < 31"
  shows "sdes_ok (addSdesReport b p)"
proof -
  have "sum_list (map sdes_words (sd_vReports p)) \<le> 516 * length (sd_vReports p)"
    using ok by (intro sum_sdes_words) (simp add: sdes_ok_def)
  then have "sum_list (map sdes_words (sd_vReports p)) + sdes_words b < 65536"
    using sdes_words_bound [OF i] n by linarith
  then show ?thesis
    using assms sdes_counts(3) [OF i]
    by (simp add: sdes_ok_def base_ok_def addSdesReport_def Let_def setLength_def setTypeSpecific_def
        del: of_nat_add of_nat_Suc)
qed

text \<open>Storing one item; the writer leaves empty items out, and they are empty in a new block.\<close>

definition apply_item :: "nat \<times> bytes \<Rightarrow> SdesInformation \<Rightarrow> SdesInformation" where
  "apply_item = (\<lambda>(t, s) i. if s = [] then i else setSdesItem t s i)"

lemma apply_item_simps [simp]:
  "si_CName i = [] \<Longrightarrow> apply_item (Suc 0, s) i = i\<lparr>si_CName := s\<rparr>"
  "si_Name i = [] \<Longrightarrow> apply_item (2, s) i = i\<lparr>si_Name := s\<rparr>"
  "si_Email i = [] \<Longrightarrow> apply_item (3, s) i = i\<lparr>si_Email := s\<rparr>"
  "si_Phone i = [] \<Longrightarrow> apply_item (4, s) i = i\<lparr>si_Phone := s\<rparr>"
  "si_Loc i = [] \<Longrightarrow> apply_item (5, s) i = i\<lparr>si_Loc := s\<rparr>"
  "si_Tool i = [] \<Longrightarrow> apply_item (6, s) i = i\<lparr>si_Tool := s\<rparr>"
  "si_Note i = [] \<Longrightarrow> apply_item (7, s) i = i\<lparr>si_Note := s\<rparr>"
  "si_Priv i = [] \<Longrightarrow> apply_item (8, s) i = i\<lparr>si_Priv := s\<rparr>"
  by (simp_all add: apply_item_def setSdesItem_def)

lemma fold_apply_items: "fold apply_item (sdes_items i) SdesInformation_new = i"
  by (simp add: sdes_items_def SdesInformation_new_def)

context bit_stream
begin

lemma writeListItem_bits:
  assumes "t < 256" and "length s \<le> 255"
  shows "obits (writeListItemIfNotEmpty io t s ob) = obits ob @ item_bits (t, s)"
  using assms by (simp add: writeListItemIfNotEmpty_def item_bits_def Let_def RTP_MAX_SDES_def writes_bits)

lemma RtcpSdesReportBlock_write_bits:
  assumes "info_ok (sb_info b)"
  shows "obits (RtcpSdesReportBlock_write io b ob)
    = obits ob @ to_bits 32 (unat (sb_uiSSRC_CSRC1 b)) @ items_bits (sdes_items (sb_info b))"
  using assms
  by (simp add: RtcpSdesReportBlock_write_def Let_def writeListItem_bits write_bits info_ok_def sdes_items_def
      items_bits_def)

lemma RtcpSdes_write_bits:
  assumes "sdes_ok p"
  shows "obits (RtcpSdes_writeTypeSpecific io p ob) = obits ob @ concat (map sdes_block_bits (sd_vReports p))"
  unfolding RtcpSdes_writeTypeSpecific_def
  by (rule foldl_write_bits)
    (use assms in \<open>auto simp: writes_bits RtcpSdesReportBlock_write_bits sdes_ok_def list_all_iff sdes_block_bits_def\<close>)

lemma readListItem_bits:
  assumes "ibits ib = to_bits 8 t @ to_bits 8 (length s) @ bytes_bits s @ rest" and "t < 256" and "length s \<le> 255"
  shows "\<exists>ib'. readListItem io i ib = (setSdesItem t s i, ib') \<and> ibits ib' = rest"
proof -
  obtain ib1 where r1: "ib_read io ib 0 8 = (True, t, ib1)" and b1: "ibits ib1 = to_bits 8 (length s) @ bytes_bits s @ rest"
    by (rule read_field [OF assms(1), of 0]) (use assms in simp_all)
  obtain ib2 where r2: "ib_read io ib1 0 8 = (True, length s, ib2)" and b2: "ibits ib2 = bytes_bits s @ rest"
    by (rule read_field [OF b1, of 0]) (use assms in simp_all)
  obtain ib3 where "read_chars io (length s) ib2 = (s, ib3)" and "ibits ib3 = rest"
    by (rule read_chars_bits [OF b2])
  then show ?thesis using r1 r2 by (simp add: readListItem_def)
qed

lemma read_sdes_items_bits:
  "\<lbrakk>items_ok its; ibits ib = items_bits its @ to_bits 8 0 @ rest; length its < fuel\<rbrakk> \<Longrightarrow>
   \<exists>ib'. read_sdes_items io fuel i ib = Some (fold apply_item its i, ib') \<and> ibits ib' = to_bits 8 0 @ rest"
proof (induction its arbitrary: ib i fuel)
  case Nil
  then obtain f where "fuel = Suc f" by (cases fuel) auto
  then show ?case
    using Nil.prems peek [of ib] by (simp add: moreSdesItemsToBeRead_def items_bits_def)
next
  case (Cons it its)
  obtain t s where it: "it = (t, s)" by (cases it)
  show ?case
  proof (cases "s = []")
    case True
    then show ?thesis
      using Cons.IH [of ib fuel i] Cons.prems it
      by (simp add: items_ok_def items_bits_def item_bits_def apply_item_def)
  next
    case False
    obtain f where f: "fuel = Suc f" "length its < f" using Cons.prems(3) by (cases fuel) auto
    have t: "0 < t" "t < 256" "length s \<le> 255" using Cons.prems(1) it by (simp_all add: items_ok_def)
    have bits: "ibits ib = to_bits 8 t @ to_bits 8 (length s) @ bytes_bits s @ items_bits its @ to_bits 8 0 @ rest"
      using Cons.prems(2) it False by (simp add: items_bits_def item_bits_def)
    obtain ib1 where r: "readListItem io i ib = (setSdesItem t s i, ib1)"
      and b1: "ibits ib1 = items_bits its @ to_bits 8 0 @ rest"
      using readListItem_bits [OF bits t(2,3)] by blast
    have "moreSdesItemsToBeRead io ib"
      using peek [of ib] bits t by (simp add: moreSdesItemsToBeRead_def bitsRemaining)
    then show ?thesis
      using Cons.IH [OF _ b1 f(2)] Cons.prems(1) r f it False by (simp add: items_ok_def apply_item_def)
  qed
qed

lemma RtcpSdesReportBlock_read_bits:
  assumes ok: "info_ok (sb_info b)" and bits: "ibits ib = sdes_block_bits b @ rest"
  shows "\<exists>ib'. RtcpSdesReportBlock_read io (RtcpSdesReportBlock_create 0) ib = Some (b, ib') \<and> ibits ib' = rest"
proof -
  let ?n = "unat (Sdes_getPadding b)" and ?its = "sdes_items (sb_info b)"
  have n: "0 < ?n" using sdes_counts(2) [OF ok] by simp
  then have pad: "pad_bits ?n = to_bits 8 0 @ pad_bits (?n - 1)" by (cases ?n) (simp_all add: pad_bits_Suc8)
  have b0: "ibits ib = to_bits 32 (unat (sb_uiSSRC_CSRC1 b)) @ items_bits ?its @ pad_bits ?n @ rest"
    using bits by (simp add: sdes_block_bits_def)
  obtain ib1 where r1: "ib_read io ib 0 32 = (True, unat (sb_uiSSRC_CSRC1 b), ib1)"
    and b1: "ibits ib1 = items_bits ?its @ pad_bits ?n @ rest"
    by (rule read_field [OF b0, of 0]) simp_all
  have "length ?its < Suc (ib_bitsRemaining io ib1)"
    using b1 pad by (simp add: bitsRemaining sdes_items_def)
  then obtain ib2 where r2: "read_sdes_items io (Suc (ib_bitsRemaining io ib1)) SdesInformation_new ib1 = Some (sb_info b, ib2)"
    and b2: "ibits ib2 = pad_bits ?n @ rest"
    using read_sdes_items_bits [OF items_ok_sdes [OF ok], of ib1 "pad_bits (?n - 1) @ rest" "Suc (ib_bitsRemaining io ib1)" SdesInformation_new]
      b1 pad by (auto simp: fold_apply_items simp del: read_sdes_items.simps)
  obtain ib3 where "ib_skipBytes io ib2 ?n = (True, ib3)" "ibits ib3 = rest"
    by (rule skipBytes_bits [OF b2]) simp_all
  then show ?thesis
    using r1 r2 by (cases b) (simp add: RtcpSdesReportBlock_read_def RtcpSdesReportBlock_create_def Let_def del: read_sdes_items.simps)
qed

lemma read_sdes_blocks_bits:
  "\<lbrakk>list_all (\<lambda>b. info_ok (sb_info b)) bs; ibits ib = concat (map sdes_block_bits bs) @ rest\<rbrakk> \<Longrightarrow>
   \<exists>ib'. read_sdes_blocks io (length bs) ib = Some (bs, ib') \<and> ibits ib' = rest"
proof (induction bs arbitrary: ib)
  case Nil
  then show ?case by simp
next
  case (Cons b bs)
  obtain ib1 where "RtcpSdesReportBlock_read io (RtcpSdesReportBlock_create 0) ib = Some (b, ib1)"
    and "ibits ib1 = concat (map sdes_block_bits bs) @ rest"
    using RtcpSdesReportBlock_read_bits [of b ib "concat (map sdes_block_bits bs) @ rest"] Cons.prems by auto
  then show ?case using Cons.IH [of ib1] Cons.prems by auto
qed

lemma RtcpSdes_read_bits:
  assumes ok: "sdes_ok p" and new: "sd_vReports q = []" "rb_uiTypeSpecific (sd_base q) = rb_uiTypeSpecific (sd_base p)"
    and bits: "ibits ib = concat (map sdes_block_bits (sd_vReports p)) @ rest"
  shows "\<exists>ib'. RtcpSdes_readTypeSpecific io q ib = Some (p\<lparr>sd_base := sd_base q\<rparr>, ib') \<and> ibits ib' = rest"
  using read_sdes_blocks_bits [of "sd_vReports p" ib rest] assms
  by (cases p) (auto simp: RtcpSdes_readTypeSpecific_def sdes_ok_def base_ok_def)

end

section \<open>BYE and APP on the wire\<close>

text \<open>A BYE without a reason; with one, the writer leaves the word grid (see below).\<close>

definition bye_ok :: "RtcpBye \<Rightarrow> bool" where
  "bye_ok p \<longleftrightarrow> base_ok PT_RTCP_BYE (length (by_vSSRCs p)) (length (by_vSSRCs p)) (by_base p)
     \<and> by_sOptionalReasonForLeaving p = []"

definition app_ok :: "RtcpApp \<Rightarrow> bool" where
  "app_ok p \<longleftrightarrow> (\<exists>n. base_ok PT_RTCP_APP n (3 + length (ap_appData p) div 4) (ap_base p)) \<and> length (ap_PacketName p) = 4"

lemma fields_ok_ssrc [simp]: "fields_ok (ssrc_fields ss)"
  by (induction ss) (simp_all add: ssrc_fields_def)

lemma length_ssrc_bits [simp]: "length (fields_bits (ssrc_fields ss)) = 32 * length ss"
  by (induction ss) (simp_all add: ssrc_fields_def)

lemma map_of_nat_ssrc [simp]: "map of_nat (map fst (ssrc_fields ss)) = ss"
  by (induction ss) (simp_all add: ssrc_fields_def)

lemma bye_ok_create [simp]: "bye_ok (RtcpBye_create s)"
  by (simp add: bye_ok_def base_ok_def RtcpBye_create_def RtcpBye_default_def addSSRC_def Let_def
      Bye_recalculateLength_def setLength_def setTypeSpecific_def RtcpPacketBase_new_def)

lemma bye_ok_addSSRC:
  "\<lbrakk>bye_ok p; length (by_vSSRCs p) < 31\<rbrakk> \<Longrightarrow> bye_ok (addSSRC s p)"
  by (simp add: bye_ok_def base_ok_def addSSRC_def Let_def Bye_recalculateLength_def setLength_def setTypeSpecific_def
      del: of_nat_Suc)

fun rtcp_ok :: "rtcp_packet \<Rightarrow> bool" where
  "rtcp_ok (SR p) = sr_ok p"
| "rtcp_ok (RR p) = rr_ok p"
| "rtcp_ok (SDES p) = sdes_ok p"
| "rtcp_ok (APP p) = app_ok p"
| "rtcp_ok (BYE p) = bye_ok p"

fun body_bits :: "rtcp_packet \<Rightarrow> bool list" where
  "body_bits (SR p) = fields_bits (sr_fields p) @ blocks_bits (sr_vReports p)"
| "body_bits (RR p) = to_bits 32 (unat (rr_uiReporterSSRC p)) @ blocks_bits (rr_vReports p)"
| "body_bits (SDES p) = concat (map sdes_block_bits (sd_vReports p))"
| "body_bits (APP p) = to_bits 32 (unat (ap_uiSSRC p)) @ bytes_bits (ap_PacketName p) @ bytes_bits (ap_appData p) @
     pad_bits (App_getPadding p)"
| "body_bits (BYE p) = fields_bits (ssrc_fields (by_vSSRCs p))"

definition rtcp_bits :: "rtcp_packet \<Rightarrow> bool list" where
  "rtcp_bits p = fields_bits (base_fields (rtcp_base p)) @ body_bits p"

lemma rtcp_ok_base: "rtcp_ok p \<Longrightarrow> \<exists>ty n w. base_ok ty n w (rtcp_base p)"
  by (cases p) (auto simp: sr_ok_def rr_ok_def sdes_ok_def app_ok_def bye_ok_def)

text \<open>The length field counts the words after the common header.\<close>

lemma length_rtcp_bits:
  assumes "rtcp_ok p"
  shows "length (rtcp_bits p) = 32 * (1 + unat (rb_uiLength (rtcp_base p)))"
proof (cases p)
  case (SDES q)
  have "length (concat (map sdes_block_bits bs)) = 32 * sum_list (map sdes_words bs)"
    if "list_all (\<lambda>b. info_ok (sb_info b)) bs" for bs
    using that by (induction bs) (simp_all add: length_sdes_block_bits)
  then show ?thesis using SDES assms by (simp add: rtcp_bits_def sdes_ok_def base_ok_def)
next
  case (APP q)
  let ?n = "length (ap_appData q)"
  have "?n + (4 - ?n mod 4) = 4 * (?n div 4 + 1)" by presburger
  then show ?thesis using APP assms by (simp add: rtcp_bits_def app_ok_def base_ok_def App_getPadding_def)
qed (use assms in \<open>simp_all add: rtcp_bits_def sr_ok_def rr_ok_def bye_ok_def base_ok_def sr_fields_def\<close>)

context bit_stream
begin

lemma rtcp_write_bits:
  assumes "rtcp_ok p"
  shows "obits (rtcp_write io p ob) = obits ob @ rtcp_bits p"
proof -
  have "obits (writes io (base_fields (rtcp_base p)) ob') = obits ob' @ fields_bits (base_fields (rtcp_base p))" for ob'
    using rtcp_ok_base [OF assms] by (auto simp: writes_bits fields_ok_base)
  moreover have "obits (rtcp_writeTypeSpecific io p ob') = obits ob' @ body_bits p" for ob'
    using assms
    by (cases p) (simp_all add: RtcpSr_write_bits RtcpRr_write_bits RtcpSdes_write_bits writes_bits write_bits
        RtcpApp_writeTypeSpecific_def RtcpBye_writeTypeSpecific_def bye_ok_def)
  ultimately show ?thesis by (simp add: rtcp_write_def RtcpPacketBase_write_def rtcp_bits_def)
qed

text \<open>
  The reader of BYE always looks for a reason. Without one it finds the end of the stream
  when the BYE is the last packet.
\<close>

lemma reads_exhausted:
  "ibits ib = [] \<Longrightarrow> \<exists>ib'. reads io (replicate n (v, 8)) ib = (replicate n v, ib') \<and> ibits ib' = []"
proof (induction n arbitrary: ib)
  case 0
  then show ?case by simp
next
  case (Suc n)
  obtain ib1 where "ib_read io ib v 8 = (False, v, ib1)" "ibits ib1 = []"
    using read_fail [of ib 8 v] Suc.prems by auto
  then show ?case using Suc.IH [of ib1] by auto
qed

lemma RtcpBye_read_bits:
  assumes ok: "bye_ok p"
    and new: "by_vSSRCs q = []" "rb_uiTypeSpecific (by_base q) = rb_uiTypeSpecific (by_base p)"
    and bits: "ibits ib = fields_bits (ssrc_fields (by_vSSRCs p))"
  shows "\<exists>ib'. RtcpBye_readTypeSpecific io q ib = (p\<lparr>by_base := by_base q\<rparr>, ib') \<and> ibits ib' = []"
proof -
  let ?n = "length (by_vSSRCs p)"
  have n: "unat (rb_uiTypeSpecific (by_base q)) = ?n" using ok new by (simp add: bye_ok_def base_ok_def)
  have w: "map snd (replicate ?n (0, 32)) = map snd (ssrc_fields (by_vSSRCs p))"
    by (simp add: ssrc_fields_def map_replicate_const comp_def)
  obtain ib1 where r1: "reads io (replicate ?n (0, 32)) ib = (map fst (ssrc_fields (by_vSSRCs p)), ib1)" and b1: "ibits ib1 = []"
    by (rule reads_fields [OF w fields_ok_ssrc, of ib "[]"]) (simp_all add: bits)
  obtain ib2 where r2: "ib_read io ib1 0 8 = (False, 0, ib2)" and b2: "ibits ib2 = []"
    using read_fail [of ib1 8 0] b1 by auto
  obtain ib3 where "reads io (replicate 4 (0, 8)) ib2 = (replicate 4 0, ib3)" "ibits ib3 = []"
    using reads_exhausted [OF b2] by blast
  then show ?thesis
    using n r1 r2 new ok
    by (cases p) (auto simp: RtcpBye_readTypeSpecific_def read_chars_def Bye_getPadding_def Let_def bye_ok_def
        simp del: reads.simps(2) map_map)
qed

end

lemma compound_words:
  fixes ps :: "rtcp_packet list"
  defines "S \<equiv> \<lambda>qs. sum_list (map (\<lambda>p. 1 + unat (rb_uiLength (rtcp_base p))) qs)"
  shows "length ps \<le> 1000 \<Longrightarrow> unat (compoundRtcpPacketSize ps) = 4 * S ps"
    and "list_all rtcp_ok ps \<Longrightarrow> length (concat (map rtcp_bits ps)) = 32 * S ps"
proof -
  show "length (concat (map rtcp_bits ps)) = 32 * S ps" if "list_all rtcp_ok ps"
    using that by (induction ps) (simp_all add: S_def length_rtcp_bits)
  have sum: "foldl (\<lambda>s p. s + (1 + ucast (rb_uiLength (rtcp_base p)))) (of_nat n) qs = (of_nat (n + S qs) :: u32)"
    for n qs
  proof (induction qs arbitrary: n)
    case (Cons q qs)
    have "of_nat n + (1 + ucast (rb_uiLength (rtcp_base q))) = (of_nat (n + (1 + unat (rb_uiLength (rtcp_base q)))) :: u32)"
      by simp
    then show ?case using Cons [of "n + (1 + unat (rb_uiLength (rtcp_base q)))"]
      by (simp add: S_def add.assoc del: of_nat_add of_nat_Suc)
  qed (simp add: S_def)
  have bound: "S qs \<le> 65536 * length qs" for qs
  proof (induction qs)
    case (Cons q qs)
    have "unat (rb_uiLength (rtcp_base q)) \<le> 65535" using unat_u16 [of "rb_uiLength (rtcp_base q)"] by linarith
    then show ?case using Cons by (simp add: S_def)
  qed (simp add: S_def)
  assume "length ps \<le> 1000"
  then have "S ps \<le> 65536000" using bound [of ps] by linarith
  then show "unat (compoundRtcpPacketSize ps) = 4 * S ps"
    using sum [of 0 ps] by (simp add: compoundRtcpPacketSize_def push_bit_eq_mult unat_word_ariths)
qed

lemma compound_size:
  "\<lbrakk>list_all rtcp_ok ps; length ps \<le> 1000\<rbrakk> \<Longrightarrow> length (concat (map rtcp_bits ps)) = 8 * unat (compoundRtcpPacketSize ps)"
  using compound_words [of ps] by simp

context bit_stream
begin

lemma compound_write_bits:
  assumes "list_all rtcp_ok ps"
  shows "obits (foldl (\<lambda>ob p. rtcp_write io p ob) ob ps) = obits ob @ concat (map rtcp_bits ps)"
  by (rule foldl_write_bits) (use assms in \<open>auto simp: list_all_iff rtcp_write_bits\<close>)

end

section \<open>Properties of the packet classes\<close>

text \<open>
  Building a sender report. Adding any sequence of report blocks keeps the first 31 of them, in
  order, sets the RC field to their number and the length field to the six words of sender
  information plus six words for each block.
\<close>

theorem sr_report_blocks_counted:
  fixes a b c d e f :: u32
  defines "p \<equiv> \<lambda>rs. foldl (\<lambda>p r. snd (RtcpSr_addReportBlock r p)) (RtcpSr_create a b c d e f) rs"
  shows "sr_vReports (p rs) = take 31 rs
    \<and> unat (rb_uiTypeSpecific (sr_base (p rs))) = min 31 (length rs)
    \<and> unat (rb_uiLength (sr_base (p rs))) = 6 + 6 * min 31 (length rs)"
proof (induction rs rule: rev_induct)
  case Nil
  then show ?case
    by (simp add: p_def RtcpSr_create_def setLength_def RtcpPacketBase_new_def report_lengths)
next
  case (snoc r rs)
  have step: "p (rs @ [r]) = snd (RtcpSr_addReportBlock r (p rs))" by (simp add: p_def)
  show ?case
  proof (cases "length rs < 31")
    case True
    then show ?thesis
      using snoc.IH unfolding step
      by (simp add: RtcpSr_addReportBlock_def Let_def setLength_def setTypeSpecific_def report_lengths
          del: of_nat_Suc of_nat_add of_nat_mult of_nat_numeral)
  next
    case False
    then show ?thesis using snoc.IH unfolding step by (simp add: RtcpSr_addReportBlock_def)
  qed
qed

text \<open>
  The length field of every packet class (SR, RR, SDES, APP, and BYE without a reason) is the
  number of 32 bit words its writer emits after the common header, and so
  \<open>compoundRtcpPacketSize\<close> is the size of the serialised compound packet in bytes.
\<close>

theorem rtcp_length_field_counts_words:
  assumes "bit_stream io obits ibits" and "list_all rtcp_ok ps" and "length ps \<le> 1000"
  shows "length (obits (foldl (\<lambda>ob p. rtcp_write io p ob) (ob_new io) ps)) = 8 * unat (compoundRtcpPacketSize ps)"
  using compound_size [OF assms(2,3)] bit_stream.compound_write_bits [OF assms(1,2), of "ob_new io"]
  by (simp add: bit_stream.new_bits [OF assms(1)])

theorem rtcp_length_field_counts_words_witness:
  "length (foldl (\<lambda>ob p. rtcp_write bitlist_io p ob) (ob_new bitlist_io) [RR (RtcpRr_create 7), BYE (RtcpBye_create 7)]) = 128"
proof -
  have "compoundRtcpPacketSize [RR (RtcpRr_create 7), BYE (RtcpBye_create 7)] = 16"
    by (simp add: compoundRtcpPacketSize_def RtcpRr_create_def RtcpBye_create_def addSSRC_def Let_def RtcpBye_default_def
        Bye_recalculateLength_def setLength_def setTypeSpecific_def RtcpPacketBase_new_def report_lengths push_bit_eq_mult)
  then show ?thesis
    using rtcp_length_field_counts_words [OF bitlist.bit_stream_axioms, of "[RR (RtcpRr_create 7), BYE (RtcpBye_create 7)]"]
    by simp
qed

text \<open>
  A BYE with a reason for leaving breaks the word grid: the writer emits the length octet, the
  text and padding computed without the length octet, so the packet is never a whole number
  of 32 bit words.
\<close>

theorem bye_reason_breaks_word_grid:
  assumes "bit_stream io obits ibits" and "fields_ok (base_fields (by_base p))"
    and "by_sOptionalReasonForLeaving p \<noteq> []" and "length (by_sOptionalReasonForLeaving p) \<le> 255"
  shows "\<not> 32 dvd length (obits (rtcp_write io (BYE p) (ob_new io)))"
proof -
  let ?n = "length (by_sOptionalReasonForLeaving p)" and ?k = "length (by_vSSRCs p)"
  have "length (obits (rtcp_write io (BYE p) (ob_new io))) = 32 + 32 * ?k + 8 + 8 * ?n + 8 * (4 - ?n mod 4)"
    using assms(2-4)
    by (simp add: rtcp_write_def RtcpPacketBase_write_def RtcpBye_writeTypeSpecific_def Let_def Bye_getPadding_def
        bit_stream.writes_bits [OF assms(1)] bit_stream.write_bits [OF assms(1)] bit_stream.new_bits [OF assms(1)])
  moreover have "\<not> 32 dvd 32 + 32 * k + 8 + 8 * n + 8 * (4 - n mod 4)" for k n :: nat by presburger
  ultimately show ?thesis by simp
qed

theorem bye_reason_breaks_word_grid_witness:
  "\<not> 32 dvd length (rtcp_write bitlist_io (BYE (setReasonForLeaving [98, 121, 101] (RtcpBye_create 7))) (ob_new bitlist_io))"
  by (rule bye_reason_breaks_word_grid [OF bitlist.bit_stream_axioms])
    (simp_all add: setReasonForLeaving_def RtcpBye_create_def addSSRC_def Let_def RtcpBye_default_def
      Bye_recalculateLength_def setLength_def setTypeSpecific_def RtcpPacketBase_new_def base_fields_def PT_RTCP_BYE_def)

text \<open>
  The reader of an APP packet takes the SSRC and the name only. The application data and its
  padding, at least one octet, stay in the stream and are parsed as the next packet.
\<close>

theorem app_data_not_consumed:
  assumes "bit_stream io obits ibits" and "app_ok p"
    and "ibits ib = body_bits (APP p) @ rest" and "length (ap_PacketName q) = 4"
  shows "\<exists>q' ib'. rtcp_readTypeSpecific io (APP q) ib = Some (APP q', ib')
    \<and> ap_uiSSRC q' = ap_uiSSRC p \<and> ap_PacketName q' = ap_PacketName p \<and> ap_appData q' = ap_appData q
    \<and> ibits ib' = bytes_bits (ap_appData p) @ pad_bits (App_getPadding p) @ rest \<and> 0 < App_getPadding p"
proof -
  let ?left = "bytes_bits (ap_appData p) @ pad_bits (App_getPadding p) @ rest"
  have b0: "ibits ib = to_bits 32 (unat (ap_uiSSRC p)) @ fields_bits (chars_fields (ap_PacketName p)) @ ?left"
    using assms(3) by simp
  obtain ib1 where r1: "ib_read io ib (unat (ap_uiSSRC q)) 32 = (True, unat (ap_uiSSRC p), ib1)"
    and b1: "ibits ib1 = fields_bits (chars_fields (ap_PacketName p)) @ ?left"
    by (rule bit_stream.read_field [OF assms(1) b0]) simp_all
  have w: "map snd (chars_fields (ap_PacketName q)) = map snd (chars_fields (ap_PacketName p))"
    using assms(2,4) by (simp add: chars_fields_def map_replicate_const comp_def app_ok_def)
  obtain ib2 where "reads io (chars_fields (ap_PacketName q)) ib1 = (map fst (chars_fields (ap_PacketName p)), ib2)"
    and "ibits ib2 = ?left"
    by (rule bit_stream.reads_fields [OF assms(1) w fields_ok_chars b1])
  then show ?thesis
    using r1 by (simp add: RtcpApp_readTypeSpecific_def map_of_nat_chars App_getPadding_def del: map_map)
qed

theorem app_data_not_consumed_witness:
  "\<exists>q' ib'. rtcp_readTypeSpecific bitlist_io (APP (RtcpApp_raw bitlist_io 2 False 0 4))
       (body_bits (APP (setAppData 0 [65, 66, 67, 68] [1, 2, 3] (RtcpApp_create bitlist_io)))) = Some (APP q', ib')
     \<and> ib' = bytes_bits [1, 2, 3] @ pad_bits 1"
proof -
  let ?p = "setAppData 0 [65, 66, 67, 68] [1, 2, 3] (RtcpApp_create bitlist_io)"
  note defs = setAppData_def RtcpApp_create_def App_recalculateLength_def Let_def setLength_def setTypeSpecific_def
    RtcpPacketBase_new_def App_getPadding_def
  have "app_ok ?p" by (simp add: app_ok_def base_ok_def defs)
  moreover have "ap_appData ?p = [1, 2, 3]" "App_getPadding ?p = 1" by (simp_all add: defs)
  ultimately show ?thesis
    using app_data_not_consumed [OF bitlist.bit_stream_axioms, of ?p "body_bits (APP ?p)" "[]" "RtcpApp_raw bitlist_io 2 False 0 4"]
    by (auto simp: RtcpApp_raw_def RtcpApp_create_def simp del: body_bits.simps rtcp_readTypeSpecific.simps)
qed

end
