(* ===== verification/Header_Extension.thy ===== *)
theory Header_Extension
  imports Bit_Stream
begin

text \<open>
  RFC 5285 header extensions (\<open>rfc5285/HeaderExtensionElement.h\<close>,
  \<open>rfc5285/RtpHeaderExtension.cpp\<close>): the element container, the computation of the one or
  two byte form, the writer and the reader. An \<open>assert\<close> of the source that fails is the
  fault \<open>Assertion_failed\<close>. The lemmas show that the reader consumes exactly the words the
  length field announces whatever the content, and that it inverts the writer.
\<close>

section \<open>Model\<close>

datatype RtpHeaderExtensionType = ONE_BYTE_HEADER | TWO_BYTE_HEADER

record HeaderExtensionElement =
  he_uiId :: u32
  he_uiLength :: u32
  he_data :: bytes

definition MAX_HDR_EXT_SIZE :: nat where
  "MAX_HDR_EXT_SIZE = 256"

text \<open>
  The constructor copies \<open>uiDataLength\<close> bytes from the given buffer; its second assertion
  bounds the length.
\<close>

definition HeaderExtensionElement_create :: "nat \<Rightarrow> nat \<Rightarrow> bytes \<Rightarrow> fault + HeaderExtensionElement" where
  "HeaderExtensionElement_create uiId uiDataLength pData =
     (if \<not> uiDataLength < MAX_HDR_EXT_SIZE - 1 then Inl Assertion_failed
      else Inr \<lparr>he_uiId = of_nat uiId, he_uiLength = of_nat uiDataLength,
                he_data = take uiDataLength pData\<rparr>)"

record RtpHeaderExtension =
  hx_eType :: RtpHeaderExtensionType
  hx_uiProfileDefined :: u16
  hx_uiAppBits :: u8
  hx_uiExtensionLengthInWords :: u16
  hx_uiPadding :: u32
  hx_vHeaderExtensions :: "HeaderExtensionElement list"

definition PROFILE_ONE_BYTE_HEADER :: u16 where
  "PROFILE_ONE_BYTE_HEADER = 0xBEDE"

definition MIN_EXTENSION_HEADER_SIZE :: u32 where
  "MIN_EXTENSION_HEADER_SIZE = 4"

definition RtpHeaderExtension_new :: RtpHeaderExtension where
  "RtpHeaderExtension_new = \<lparr>hx_eType = ONE_BYTE_HEADER, hx_uiProfileDefined = PROFILE_ONE_BYTE_HEADER,
     hx_uiAppBits = 0, hx_uiExtensionLengthInWords = 0, hx_uiPadding = 0, hx_vHeaderExtensions = []\<rparr>"

definition RtpHeaderExtension_clear :: "RtpHeaderExtension \<Rightarrow> RtpHeaderExtension" where
  "RtpHeaderExtension_clear h = h\<lparr>hx_vHeaderExtensions := []\<rparr>"

definition containsExtensions :: "RtpHeaderExtension \<Rightarrow> bool" where
  "containsExtensions h = (hx_vHeaderExtensions h \<noteq> [])"

definition getHeaderExtensionCount :: "RtpHeaderExtension \<Rightarrow> nat" where
  "getHeaderExtensionCount h = length (hx_vHeaderExtensions h)"

text \<open>\<open>std::vector::at\<close> throws when the index is out of range.\<close>

definition getHeaderExtension_at :: "RtpHeaderExtension \<Rightarrow> nat \<Rightarrow> fault + HeaderExtensionElement" where
  "getHeaderExtension_at h i =
     (if i < length (hx_vHeaderExtensions h) then Inr (hx_vHeaderExtensions h ! i) else Inl Out_of_range)"

definition addHeaderExtensions :: "HeaderExtensionElement \<Rightarrow> RtpHeaderExtension \<Rightarrow> RtpHeaderExtension" where
  "addHeaderExtensions e h = h\<lparr>hx_vHeaderExtensions := hx_vHeaderExtensions h @ [e]\<rparr>"

fun erase_first :: "('a \<Rightarrow> bool) \<Rightarrow> 'a list \<Rightarrow> nat \<times> 'a list" where
  "erase_first p [] = (0, [])"
| "erase_first p (x # xs) =
     (if p x then (1, xs) else (case erase_first p xs of (n, ys) \<Rightarrow> (n, x # ys)))"

definition removeHeaderExtension :: "u32 \<Rightarrow> RtpHeaderExtension \<Rightarrow> nat \<times> RtpHeaderExtension" where
  "removeHeaderExtension uiId h =
     (case erase_first (\<lambda>e. he_uiId e = uiId) (hx_vHeaderExtensions h) of
        (n, es) \<Rightarrow> (n, h\<lparr>hx_vHeaderExtensions := es\<rparr>))"

text \<open>
  The method is \<open>const\<close> but writes mutable members; \<open>m_uiPadding\<close> is only assigned in the
  branch where padding is needed, and \<open>m_eType\<close> is never set back to the one byte form.
\<close>

definition calculateExtensionProperties :: "RtpHeaderExtension \<Rightarrow> RtpHeaderExtension" where
  "calculateExtensionProperties h =
     (let es = hx_vHeaderExtensions h;
          uiDataBytes = sum_list (map he_uiLength es);
          eType = (if \<exists>e \<in> set es. he_uiLength e > 16 then TWO_BYTE_HEADER else hx_eType h);
          uiProfile = (case eType of
              ONE_BYTE_HEADER \<Rightarrow> 0xBEDE
            | TWO_BYTE_HEADER \<Rightarrow> 0x1000 OR (ucast (hx_uiAppBits h) AND 0x0F));
          uiTotalBytes = (case eType of
              ONE_BYTE_HEADER \<Rightarrow> uiDataBytes + of_nat (length es)
            | TWO_BYTE_HEADER \<Rightarrow> uiDataBytes + 2 * of_nat (length es));
          uiRem = uiTotalBytes mod 4;
          h1 = h\<lparr>hx_eType := eType, hx_uiProfileDefined := uiProfile\<rparr>
      in if uiRem = 0
         then h1\<lparr>hx_uiExtensionLengthInWords := ucast (uiTotalBytes div 4)\<rparr>
         else h1\<lparr>hx_uiPadding := 4 - uiRem,
                 hx_uiExtensionLengthInWords := ucast (uiTotalBytes div 4 + 1)\<rparr>)"

definition RtpHeaderExtension_getSize :: "RtpHeaderExtension \<Rightarrow> u32 \<times> RtpHeaderExtension" where
  "RtpHeaderExtension_getSize h =
     (let h1 = (if hx_uiExtensionLengthInWords h = 0 then calculateExtensionProperties h else h)
      in if hx_uiExtensionLengthInWords h1 = 0 then (0, h1)
         else (MIN_EXTENSION_HEADER_SIZE + 4 * ucast (hx_uiExtensionLengthInWords h1), h1))"

definition write_one_byte_element ::
  "('i, 'o) bit_io \<Rightarrow> 'o \<Rightarrow> HeaderExtensionElement \<Rightarrow> 'o" where
  "write_one_byte_element io ob e =
     ob_writeBytes io
       (ob_write io (ob_write io ob (unat (he_uiId e)) 4) (unat (he_uiLength e - 1)) 4)
       (take (unat (he_uiLength e)) (he_data e))"

definition write_two_byte_element ::
  "('i, 'o) bit_io \<Rightarrow> 'o \<Rightarrow> HeaderExtensionElement \<Rightarrow> 'o" where
  "write_two_byte_element io ob e =
     ob_writeBytes io
       (ob_write io (ob_write io ob (unat (he_uiId e)) 8) (unat (he_uiLength e)) 8)
       (take (unat (he_uiLength e)) (he_data e))"

definition writeExtensionData ::
  "('i, 'o) bit_io \<Rightarrow> RtpHeaderExtension \<Rightarrow> 'o \<Rightarrow> RtpHeaderExtension \<times> 'o" where
  "writeExtensionData io h ob =
     (let h1 = calculateExtensionProperties h;
          ob1 = ob_write io ob (unat (hx_uiProfileDefined h1)) 16;
          ob2 = ob_write io ob1 (unat (hx_uiExtensionLengthInWords h1)) 16;
          ob3 = (case hx_eType h1 of
              ONE_BYTE_HEADER \<Rightarrow> foldl (write_one_byte_element io) ob2 (hx_vHeaderExtensions h1)
            | TWO_BYTE_HEADER \<Rightarrow> foldl (write_two_byte_element io) ob2 (hx_vHeaderExtensions h1));
          ob4 = writes io (replicate (unat (hx_uiPadding h1)) (0, 8)) ob3
      in (h1, ob4))"

text \<open>
  The two reading loops. The counter \<open>iTotalBytesToRead\<close> starts at four times a 16 bit value
  and never becomes negative, so it is a natural number here; the size check against the
  remaining bytes is what keeps it so.
\<close>

definition skip_rest ::
  "('i, 'o) bit_io \<Rightarrow> nat \<Rightarrow> 'i \<Rightarrow> HeaderExtensionElement list \<Rightarrow>
   fault + (HeaderExtensionElement list \<times> 'i)" where
  "skip_rest io n ib es =
     (case ib_skipBytes io ib n of (res, ib') \<Rightarrow> if res then Inr (es, ib') else Inl Assertion_failed)"

function read_one_byte_elements ::
  "('i, 'o) bit_io \<Rightarrow> nat \<Rightarrow> 'i \<Rightarrow> HeaderExtensionElement list \<Rightarrow>
   fault + (HeaderExtensionElement list \<times> 'i)" where
  "read_one_byte_elements io iTotal ib es =
     (if iTotal = 0 then Inr (es, ib)
      else case ib_read io ib 0 4 of (res, uiId, ib1) \<Rightarrow>
        if \<not> res then Inl Assertion_failed
        else case ib_read io ib1 0 4 of (res, uiLength, ib2) \<Rightarrow>
          if \<not> res then Inl Assertion_failed
          else if uiId = 15 then skip_rest io (iTotal - 1) ib2 es
          else if uiId = 0 \<and> uiLength = 0 then read_one_byte_elements io (iTotal - 1) ib2 es
          else if uiLength + 1 > iTotal - 1 then skip_rest io (iTotal - 1) ib2 es
          else case ib_readBytes io ib2 (uiLength + 1) of (res, data, ib3) \<Rightarrow>
            if \<not> res then Inl Assertion_failed
            else case HeaderExtensionElement_create uiId (uiLength + 1) data of
                Inl e \<Rightarrow> Inl e
              | Inr el \<Rightarrow> read_one_byte_elements io (iTotal - 1 - (uiLength + 1)) ib3 (es @ [el]))"
  by pat_completeness auto
termination
  by (relation "measure (\<lambda>(io, iTotal, ib, es). iTotal)") auto

function read_two_byte_elements ::
  "('i, 'o) bit_io \<Rightarrow> nat \<Rightarrow> 'i \<Rightarrow> HeaderExtensionElement list \<Rightarrow>
   fault + (HeaderExtensionElement list \<times> 'i)" where
  "read_two_byte_elements io iTotal ib es =
     (if iTotal = 0 then Inr (es, ib)
      else case ib_read io ib 0 8 of (res, uiId, ib1) \<Rightarrow>
        if \<not> res then Inl Assertion_failed
        else if iTotal - 1 = 0 then Inr (es, ib1)
        else case ib_read io ib1 0 8 of (res, uiLength, ib2) \<Rightarrow>
          if \<not> res then Inl Assertion_failed
          else if uiId = 0 \<and> uiLength = 0 then read_two_byte_elements io (iTotal - 2) ib2 es
          else if uiLength > iTotal - 2 then skip_rest io (iTotal - 2) ib2 es
          else case ib_readBytes io ib2 uiLength of (res, data, ib3) \<Rightarrow>
            if \<not> res then Inl Assertion_failed
            else case HeaderExtensionElement_create uiId uiLength data of
                Inl e \<Rightarrow> Inl e
              | Inr el \<Rightarrow> read_two_byte_elements io (iTotal - 2 - uiLength) ib3 (es @ [el]))"
  by pat_completeness auto
termination
  by (relation "measure (\<lambda>(io, iTotal, ib, es). iTotal)") auto

declare read_one_byte_elements.simps [simp del] read_two_byte_elements.simps [simp del]

definition readExtensionData ::
  "('i, 'o) bit_io \<Rightarrow> RtpHeaderExtension \<Rightarrow> 'i \<Rightarrow> fault + (RtpHeaderExtension \<times> 'i)" where
  "readExtensionData io h ib =
     (case ib_read io ib (unat (hx_uiProfileDefined h)) 16 of (res, uiProfile, ib1) \<Rightarrow>
      if \<not> res then Inl Assertion_failed
      else case ib_read io ib1 (unat (hx_uiExtensionLengthInWords h)) 16 of (res, uiWords, ib2) \<Rightarrow>
      if \<not> res then Inl Assertion_failed
      else
        let profile = (of_nat uiProfile :: u16); words = (of_nat uiWords :: u16);
            h1 = h\<lparr>hx_uiProfileDefined := profile, hx_uiExtensionLengthInWords := words\<rparr>;
            iTotal = unat words * 4;
            r = (if profile = PROFILE_ONE_BYTE_HEADER
                 then read_one_byte_elements io iTotal ib2 (hx_vHeaderExtensions h1)
                 else if drop_bit 4 profile = 0x100
                 then read_two_byte_elements io iTotal ib2 (hx_vHeaderExtensions h1)
                 else skip_rest io iTotal ib2 (hx_vHeaderExtensions h1))
        in map_sum (\<lambda>e. e) (\<lambda>(es, ib'). (h1\<lparr>hx_vHeaderExtensions := es\<rparr>, ib')) r)"

section \<open>The reader consumes what the length field announces\<close>

lemma create_ok:
  "n < 255 \<Longrightarrow> HeaderExtensionElement_create i n d =
     Inr \<lparr>he_uiId = of_nat i, he_uiLength = of_nat n, he_data = take n d\<rparr>"
  by (simp add: HeaderExtensionElement_create_def MAX_HDR_EXT_SIZE_def)

context bit_stream
begin

text \<open>Splitting the available bits into a field of the wanted width and the rest.\<close>

lemma read_avail:
  assumes "n \<le> length (ibits ib)"
  obtains v ib' where "ib_read io ib old n = (True, v, ib')" and "v < 2 ^ n"
    and "ibits ib' = drop n (ibits ib)"
proof -
  have "of_bits (take n (ibits ib)) < 2 ^ n"
    using of_bits_less [of "take n (ibits ib)"] assms by (simp add: min_absorb2)
  then show thesis using read_ok [OF assms, of old] that by blast
qed

lemma skip_rest_avail:
  assumes "8 * n \<le> length (ibits ib)"
  shows "\<exists>es' ib'. skip_rest io n ib es = Inr (es @ es', ib') \<and> ibits ib' = drop (8 * n) (ibits ib)"
  using skipBytes_ok [OF assms] by (auto simp: skip_rest_def)

lemma read_one_byte_elements_consumes:
  "8 * iTotal \<le> length (ibits ib) \<Longrightarrow>
   \<exists>es' ib'. read_one_byte_elements io iTotal ib es = Inr (es @ es', ib')
     \<and> ibits ib' = drop (8 * iTotal) (ibits ib)"
proof (induction iTotal arbitrary: ib es rule: less_induct)
  case (less iTotal)
  show ?case
  proof (cases "iTotal = 0")
    case True
    then show ?thesis by (simp add: read_one_byte_elements.simps)
  next
    case False
    obtain i ib1 where r1: "ib_read io ib 0 4 = (True, i, ib1)" and b1: "ibits ib1 = drop 4 (ibits ib)"
      by (rule read_avail [of 4 ib 0]) (use less.prems False in auto)
    obtain n ib2 where r2: "ib_read io ib1 0 4 = (True, n, ib2)" and n: "n < 2 ^ 4"
      and "ibits ib2 = drop 4 (ibits ib1)"
      by (rule read_avail [of 4 ib1 0]) (use less.prems False b1 in auto)
    then have b2: "ibits ib2 = drop 8 (ibits ib)" using b1 by simp
    have rest: "8 * (iTotal - 1) \<le> length (ibits ib2)" and fin: "drop (8 * (iTotal - 1)) (ibits ib2) = drop (8 * iTotal) (ibits ib)"
      using less.prems False b2 by (simp_all add: add.commute right_diff_distrib')
    note step = read_one_byte_elements.simps [of io iTotal ib es]
    consider "i = 15" | "i \<noteq> 15" "i = 0 \<and> n = 0" | "i \<noteq> 15" "\<not> (i = 0 \<and> n = 0)" "n + 1 > iTotal - 1"
      | "i \<noteq> 15" "\<not> (i = 0 \<and> n = 0)" "\<not> n + 1 > iTotal - 1" by blast
    then show ?thesis
    proof cases
      case 1
      then show ?thesis using step r1 r2 False skip_rest_avail [OF rest, of es] fin by auto
    next
      case 2
      then show ?thesis using step r1 r2 False less.IH [of "iTotal - 1" ib2 es] rest fin by auto
    next
      case 3
      then show ?thesis using step r1 r2 False skip_rest_avail [OF rest, of es] fin by auto
    next
      case 4
      then obtain d ib3 where r3: "ib_readBytes io ib2 (n + 1) = (True, d, ib3)"
        and b3: "ibits ib3 = drop (8 * (n + 1)) (ibits ib2)"
        using readBytes_ok [of "n + 1" ib2] rest by auto
      have m: "8 * (iTotal - 1 - (n + 1)) + 8 * (n + 1) = 8 * (iTotal - 1)" using 4(3) by presburger
      have "8 * (iTotal - 1 - (n + 1)) \<le> length (ibits ib3)" using rest b3 m by simp
      moreover have "drop (8 * (iTotal - 1 - (n + 1))) (ibits ib3) = drop (8 * iTotal) (ibits ib)"
        using fin b3 m by (simp only: drop_drop)
      moreover define el where "el = \<lparr>he_uiId = of_nat i, he_uiLength = of_nat (n + 1), he_data = take (n + 1) d\<rparr>"
      ultimately obtain es' ib' where
        "read_one_byte_elements io (iTotal - 1 - (n + 1)) ib3 (es @ [el]) = Inr ((es @ [el]) @ es', ib')"
        "ibits ib' = drop (8 * iTotal) (ibits ib)"
        using less.IH [of "iTotal - 1 - (n + 1)" ib3 "es @ [el]"] False by auto
      moreover have "HeaderExtensionElement_create i (n + 1) d = Inr el"
        using n create_ok [of "n + 1" i d] by (simp add: el_def)
      ultimately show ?thesis using 4 step r1 r2 r3 False by auto
    qed
  qed
qed

text \<open>
  The two byte reader hits the constructor's assertion when an element announces 255 bytes;
  every other input is consumed exactly as well.
\<close>

lemma read_two_byte_elements_consumes:
  "8 * iTotal \<le> length (ibits ib) \<Longrightarrow>
   read_two_byte_elements io iTotal ib es = Inl Assertion_failed \<or>
   (\<exists>es' ib'. read_two_byte_elements io iTotal ib es = Inr (es @ es', ib')
     \<and> ibits ib' = drop (8 * iTotal) (ibits ib))"
proof (induction iTotal arbitrary: ib es rule: less_induct)
  case (less iTotal)
  note step = read_two_byte_elements.simps [of io iTotal ib es]
  consider "iTotal = 0" | "iTotal = 1" | "2 \<le> iTotal" by linarith
  then show ?case
  proof cases
    case 1
    then show ?thesis by (simp add: read_two_byte_elements.simps)
  next
    case 2
    obtain i ib1 where "ib_read io ib 0 8 = (True, i, ib1)" and "ibits ib1 = drop 8 (ibits ib)"
      by (rule read_avail [of 8 ib 0]) (use less.prems 2 in auto)
    then show ?thesis using 2 step by simp
  next
    case 3
    obtain i ib1 where r1: "ib_read io ib 0 8 = (True, i, ib1)" and b1: "ibits ib1 = drop 8 (ibits ib)"
      by (rule read_avail [of 8 ib 0]) (use less.prems 3 in auto)
    obtain n ib2 where r2: "ib_read io ib1 0 8 = (True, n, ib2)" and "ibits ib2 = drop 8 (ibits ib1)"
      by (rule read_avail [of 8 ib1 0]) (use less.prems 3 b1 in auto)
    then have b2: "ibits ib2 = drop 16 (ibits ib)" using b1 by simp
    have rest: "8 * (iTotal - 2) \<le> length (ibits ib2)"
      and fin: "drop (8 * (iTotal - 2)) (ibits ib2) = drop (8 * iTotal) (ibits ib)"
      using less.prems 3 b2 by (simp_all add: add.commute right_diff_distrib')
    consider "i = 0 \<and> n = 0" | "\<not> (i = 0 \<and> n = 0)" "n > iTotal - 2"
      | "\<not> (i = 0 \<and> n = 0)" "\<not> n > iTotal - 2" by blast
    then show ?thesis
    proof cases
      case 1
      then show ?thesis using step r1 r2 3 less.IH [of "iTotal - 2" ib2 es] rest fin by auto
    next
      case 2
      then show ?thesis using step r1 r2 3 skip_rest_avail [OF rest, of es] fin by auto
    next
      case c: 3
      then obtain d ib3 where r3: "ib_readBytes io ib2 n = (True, d, ib3)"
        and b3: "ibits ib3 = drop (8 * n) (ibits ib2)"
        using readBytes_ok [of n ib2] rest by auto
      have m: "8 * (iTotal - 2 - n) + 8 * n = 8 * (iTotal - 2)" using c by linarith
      have avail: "8 * (iTotal - 2 - n) \<le> length (ibits ib3)" using rest b3 m by simp
      have fin3: "drop (8 * (iTotal - 2 - n)) (ibits ib3) = drop (8 * iTotal) (ibits ib)"
        using fin b3 m by (simp only: drop_drop)
      show ?thesis
      proof (cases "HeaderExtensionElement_create i n d")
        case (Inl e)
        then show ?thesis
          using 3 c step r1 r2 r3 by (auto simp: HeaderExtensionElement_create_def split: if_splits)
      next
        case (Inr el)
        then show ?thesis
          using 3 c step r1 r2 r3 less.IH [OF _ avail, of "es @ [el]"] fin3 by auto
      qed
    qed
  qed
qed

lemma readExtensionData_consumes:
  assumes hdr: "ibits ib = to_bits 16 p @ to_bits 16 w @ rest"
    and p: "p < 65536" and w: "w < 65536" and len: "32 * w \<le> length rest"
    and ok: "readExtensionData io h ib = Inr (h', ib')"
  shows "ibits ib' = drop (32 * w) rest"
proof -
  obtain ib1 where r1: "ib_read io ib (unat (hx_uiProfileDefined h)) 16 = (True, p, ib1)"
    and b1: "ibits ib1 = to_bits 16 w @ rest"
    by (rule read_field [OF hdr]) (use p in simp_all)
  obtain ib2 where r2: "ib_read io ib1 (unat (hx_uiExtensionLengthInWords h)) 16 = (True, w, ib2)"
    and b2: "ibits ib2 = rest"
    by (rule read_field [OF b1]) (use w in simp_all)
  have avail: "8 * (w * 4) \<le> length (ibits ib2)" using len b2 by simp
  note cons = read_one_byte_elements_consumes [OF avail] read_two_byte_elements_consumes [OF avail]
    skip_rest_avail [OF avail]
  show ?thesis
    using ok r1 r2 w b2 cons [of "hx_vHeaderExtensions h"]
    by (auto simp: readExtensionData_def Let_def mult.commute split: if_splits)
qed

end

section \<open>The reader inverts the writer\<close>

definition element_ok :: "HeaderExtensionElement \<Rightarrow> bool" where
  "element_ok e \<longleftrightarrow> unat (he_uiLength e) = length (he_data e)"

definition one_byte_ok :: "HeaderExtensionElement \<Rightarrow> bool" where
  "one_byte_ok e \<longleftrightarrow> element_ok e \<and> 1 \<le> unat (he_uiId e) \<and> unat (he_uiId e) \<le> 14
     \<and> 1 \<le> length (he_data e) \<and> length (he_data e) \<le> 16"

definition two_byte_ok :: "HeaderExtensionElement \<Rightarrow> bool" where
  "two_byte_ok e \<longleftrightarrow> element_ok e \<and> unat (he_uiId e) < 256 \<and> length (he_data e) < 255
     \<and> (he_uiId e \<noteq> 0 \<or> he_data e \<noteq> [])"

definition one_byte_bits :: "HeaderExtensionElement \<Rightarrow> bool list" where
  "one_byte_bits e = to_bits 4 (unat (he_uiId e)) @ to_bits 4 (length (he_data e) - 1) @ bytes_bits (he_data e)"

definition two_byte_bits :: "HeaderExtensionElement \<Rightarrow> bool list" where
  "two_byte_bits e = to_bits 8 (unat (he_uiId e)) @ to_bits 8 (length (he_data e)) @ bytes_bits (he_data e)"

lemma element_ok_length: "element_ok e \<Longrightarrow> he_uiLength e = of_nat (length (he_data e))"
  unfolding element_ok_def by (metis of_nat_unat ucast_id)

lemma create_self:
  assumes "element_ok e" and "length (he_data e) < 255"
  shows "HeaderExtensionElement_create (unat (he_uiId e)) (length (he_data e)) (he_data e) = Inr e"
  using assms by (simp add: create_ok flip: element_ok_length)

context bit_stream
begin

lemma write_one_byte_element_bits:
  assumes "one_byte_ok e"
  shows "obits (write_one_byte_element io ob e) = obits ob @ one_byte_bits e"
proof -
  have "unat (he_uiLength e - 1) = length (he_data e) - 1"
    using assms by (auto simp: one_byte_ok_def element_ok_def unat_sub_if' unat_eq_0)
  moreover have "unat (he_uiId e) < 2 ^ 4" and "length (he_data e) - 1 < 2 ^ 4"
    using assms by (auto simp: one_byte_ok_def)
  ultimately show ?thesis
    using assms
    by (simp add: write_one_byte_element_def writeBytes_bits write_bits one_byte_bits_def one_byte_ok_def
        element_ok_def)
qed

lemma write_two_byte_element_bits:
  "two_byte_ok e \<Longrightarrow> obits (write_two_byte_element io ob e) = obits ob @ two_byte_bits e"
  by (simp add: write_two_byte_element_def writeBytes_bits write_bits two_byte_bits_def two_byte_ok_def element_ok_def)

lemma read_one_byte_pad:
  "ibits ib = pad_bits n @ rest \<Longrightarrow>
   \<exists>ib'. read_one_byte_elements io n ib es = Inr (es, ib') \<and> ibits ib' = rest"
proof (induction n arbitrary: ib)
  case 0
  then show ?case by (simp add: read_one_byte_elements.simps)
next
  case (Suc n)
  obtain ib1 where "ib_read io ib 0 4 = (True, 0, ib1)" and b1: "ibits ib1 = to_bits 4 0 @ pad_bits n @ rest"
    by (rule read_field [of ib 4 0 "to_bits 4 0 @ pad_bits n @ rest" 0]) (use Suc.prems in \<open>simp_all add: pad_bits_Suc\<close>)
  moreover obtain ib2 where "ib_read io ib1 0 4 = (True, 0, ib2)" and "ibits ib2 = pad_bits n @ rest"
    by (rule read_field [OF b1, of 0]) simp_all
  ultimately show ?case using Suc.IH [of ib2] by (simp add: read_one_byte_elements.simps [of io "Suc n"])
qed

lemma read_one_byte_roundtrip:
  "\<lbrakk>list_all one_byte_ok es; ibits ib = concat (map one_byte_bits es) @ pad_bits n @ rest;
    iTotal = sum_list (map (\<lambda>e. Suc (length (he_data e))) es) + n\<rbrakk> \<Longrightarrow>
   \<exists>ib'. read_one_byte_elements io iTotal ib acc = Inr (acc @ es, ib') \<and> ibits ib' = rest"
proof (induction es arbitrary: ib iTotal acc)
  case Nil
  then show ?case using read_one_byte_pad by simp
next
  case (Cons e es)
  let ?l = "length (he_data e)" and ?r = "concat (map one_byte_bits es) @ pad_bits n @ rest"
  have e: "one_byte_ok e" using Cons.prems by simp
  then have l: "Suc (?l - 1) = ?l" and l16: "?l - 1 < 16" and i16: "unat (he_uiId e) < 16"
    by (auto simp: one_byte_ok_def)
  have bits: "ibits ib = to_bits 4 (unat (he_uiId e)) @ to_bits 4 (?l - 1) @ bytes_bits (he_data e) @ ?r"
    using Cons.prems by (simp add: one_byte_bits_def [of e])
  obtain ib1 where r1: "ib_read io ib 0 4 = (True, unat (he_uiId e), ib1)"
    and b1: "ibits ib1 = to_bits 4 (?l - 1) @ bytes_bits (he_data e) @ ?r"
    by (rule read_field [OF bits, of 0]) (use i16 in simp_all)
  obtain ib2 where r2: "ib_read io ib1 0 4 = (True, ?l - 1, ib2)" and b2: "ibits ib2 = bytes_bits (he_data e) @ ?r"
    by (rule read_field [OF b1, of 0]) (use l16 in simp_all)
  obtain ib3 where r3: "ib_readBytes io ib2 ?l = (True, he_data e, ib3)" and b3: "ibits ib3 = ?r"
    by (rule readBytes_bits [OF b2])
  obtain ib' where "read_one_byte_elements io (iTotal - 1 - ?l) ib3 (acc @ [e]) = Inr ((acc @ [e]) @ es, ib')"
    and "ibits ib' = rest"
    using Cons.IH [of ib3 "iTotal - 1 - ?l" "acc @ [e]"] Cons.prems b3 by auto
  moreover have "HeaderExtensionElement_create (unat (he_uiId e)) ?l (he_data e) = Inr e"
    using e create_self [of e] by (simp add: one_byte_ok_def)
  moreover have "read_one_byte_elements io iTotal ib acc =
      read_one_byte_elements io (iTotal - 1 - ?l) ib3 (acc @ [e])"
    using Cons.prems(3) e r1 r2 r3 l calculation
    by (subst read_one_byte_elements.simps) (auto simp: one_byte_ok_def)
  ultimately show ?case by simp
qed

lemma read_two_byte_pad:
  "ibits ib = pad_bits n @ rest \<Longrightarrow>
   \<exists>ib'. read_two_byte_elements io n ib es = Inr (es, ib') \<and> ibits ib' = rest"
proof (induction n arbitrary: ib rule: less_induct)
  case (less n)
  show ?case
  proof (cases n)
    case 0
    then show ?thesis using less.prems by (simp add: read_two_byte_elements.simps)
  next
    case (Suc m)
    have bits: "ibits ib = to_bits 8 0 @ pad_bits m @ rest" using less.prems Suc by (simp add: pad_bits_Suc8)
    obtain ib1 where r1: "ib_read io ib 0 8 = (True, 0, ib1)" and b1: "ibits ib1 = pad_bits m @ rest"
      by (rule read_field [OF bits, of 0]) simp_all
    show ?thesis
    proof (cases m)
      case 0
      then show ?thesis using Suc r1 b1 by (simp add: read_two_byte_elements.simps [of io "Suc 0"])
    next
      case (Suc k)
      obtain ib2 where r2: "ib_read io ib1 0 8 = (True, 0, ib2)" and b2: "ibits ib2 = pad_bits k @ rest"
        by (rule read_field [of ib1 8 0 "pad_bits k @ rest" 0]) (use b1 Suc in \<open>simp_all add: pad_bits_Suc8\<close>)
      then show ?thesis
        using Suc \<open>n = Suc m\<close> r1 less.IH [OF _ b2]
        by (simp add: read_two_byte_elements.simps [of io "Suc (Suc k)"])
    qed
  qed
qed

lemma read_two_byte_roundtrip:
  "\<lbrakk>list_all two_byte_ok es; ibits ib = concat (map two_byte_bits es) @ pad_bits n @ rest;
    iTotal = sum_list (map (\<lambda>e. Suc (Suc (length (he_data e)))) es) + n\<rbrakk> \<Longrightarrow>
   \<exists>ib'. read_two_byte_elements io iTotal ib acc = Inr (acc @ es, ib') \<and> ibits ib' = rest"
proof (induction es arbitrary: ib iTotal acc)
  case Nil
  then show ?case using read_two_byte_pad by simp
next
  case (Cons e es)
  let ?l = "length (he_data e)" and ?r = "concat (map two_byte_bits es) @ pad_bits n @ rest"
  have e: "two_byte_ok e" using Cons.prems by simp
  then have l: "?l < 256" and i: "unat (he_uiId e) < 256" by (auto simp: two_byte_ok_def)
  have nz: "\<not> (unat (he_uiId e) = 0 \<and> ?l = 0)" using e by (auto simp: two_byte_ok_def unat_eq_0)
  have bits: "ibits ib = to_bits 8 (unat (he_uiId e)) @ to_bits 8 ?l @ bytes_bits (he_data e) @ ?r"
    using Cons.prems by (simp add: two_byte_bits_def [of e])
  obtain ib1 where r1: "ib_read io ib 0 8 = (True, unat (he_uiId e), ib1)"
    and b1: "ibits ib1 = to_bits 8 ?l @ bytes_bits (he_data e) @ ?r"
    by (rule read_field [OF bits, of 0]) (use i in simp_all)
  obtain ib2 where r2: "ib_read io ib1 0 8 = (True, ?l, ib2)" and b2: "ibits ib2 = bytes_bits (he_data e) @ ?r"
    by (rule read_field [OF b1, of 0]) (use l in simp_all)
  obtain ib3 where r3: "ib_readBytes io ib2 ?l = (True, he_data e, ib3)" and b3: "ibits ib3 = ?r"
    by (rule readBytes_bits [OF b2])
  obtain ib' where "read_two_byte_elements io (iTotal - 2 - ?l) ib3 (acc @ [e]) = Inr ((acc @ [e]) @ es, ib')"
    and "ibits ib' = rest"
    using Cons.IH [of ib3 "iTotal - 2 - ?l" "acc @ [e]"] Cons.prems b3 by auto
  moreover have "HeaderExtensionElement_create (unat (he_uiId e)) ?l (he_data e) = Inr e"
    using e create_self [of e] by (simp add: two_byte_ok_def)
  moreover have "read_two_byte_elements io iTotal ib acc =
      read_two_byte_elements io (iTotal - 2 - ?l) ib3 (acc @ [e])"
    using Cons.prems(3) nz r1 r2 r3 calculation
    by (subst read_two_byte_elements.simps) auto
  ultimately show ?case by simp
qed

end

section \<open>Form, length and padding\<close>

definition effective_type :: "RtpHeaderExtension \<Rightarrow> RtpHeaderExtensionType" where
  "effective_type h = (if \<exists>e \<in> set (hx_vHeaderExtensions h). he_uiLength e > 16 then TWO_BYTE_HEADER else hx_eType h)"

definition element_overhead :: "RtpHeaderExtensionType \<Rightarrow> nat" where
  "element_overhead ty = (case ty of ONE_BYTE_HEADER \<Rightarrow> 1 | TWO_BYTE_HEADER \<Rightarrow> 2)"

definition ext_total :: "RtpHeaderExtension \<Rightarrow> nat" where
  "ext_total h = sum_list (map (\<lambda>e. element_overhead (effective_type h) + length (he_data e)) (hx_vHeaderExtensions h))"

definition ext_ok :: "RtpHeaderExtension \<Rightarrow> bool" where
  "ext_ok h \<longleftrightarrow> list_all (case effective_type h of ONE_BYTE_HEADER \<Rightarrow> one_byte_ok | TWO_BYTE_HEADER \<Rightarrow> two_byte_ok)
       (hx_vHeaderExtensions h)
     \<and> hx_uiPadding h = 0 \<and> ext_total h \<le> 262140"

lemma sum_lengths_word:
  "list_all element_ok es \<Longrightarrow>
   sum_list (map he_uiLength es) + of_nat k * of_nat (length es)
     = of_nat (sum_list (map (\<lambda>e. k + length (he_data e)) es))"
proof (induction es)
  case Nil
  then show ?case by simp
next
  case (Cons e es)
  then have IH: "of_nat (sum_list (map (\<lambda>e. k + length (he_data e)) es))
      = sum_list (map he_uiLength es) + of_nat k * of_nat (length es)"
    and e: "he_uiLength e = of_nat (length (he_data e))"
    by (simp_all add: element_ok_length)
  show ?case by (simp add: IH e distrib_left)
qed

lemma ext_ok_element_ok: "ext_ok h \<Longrightarrow> list_all element_ok (hx_vHeaderExtensions h)"
  by (auto simp: ext_ok_def list_all_iff one_byte_ok_def two_byte_ok_def
      split: RtpHeaderExtensionType.splits)

lemma calculateExtensionProperties_frame [simp]:
  "hx_vHeaderExtensions (calculateExtensionProperties h) = hx_vHeaderExtensions h"
  "hx_eType (calculateExtensionProperties h) = effective_type h"
  by (simp_all add: calculateExtensionProperties_def effective_type_def Let_def)

definition ext_profile :: "RtpHeaderExtension \<Rightarrow> u16" where
  "ext_profile h = (case effective_type h of ONE_BYTE_HEADER \<Rightarrow> 0xBEDE
     | TWO_BYTE_HEADER \<Rightarrow> 0x1000 OR (ucast (hx_uiAppBits h) AND 0x0F))"

lemma calculateExtensionProperties_total:
  assumes "list_all element_ok (hx_vHeaderExtensions h)"
  defines "W \<equiv> (of_nat (ext_total h) :: u32)"
    and "h1 \<equiv> h\<lparr>hx_eType := effective_type h, hx_uiProfileDefined := ext_profile h\<rparr>"
  shows "calculateExtensionProperties h =
    (if W mod 4 = 0 then h1\<lparr>hx_uiExtensionLengthInWords := ucast (W div 4)\<rparr>
     else h1\<lparr>hx_uiPadding := 4 - W mod 4, hx_uiExtensionLengthInWords := ucast (W div 4 + 1)\<rparr>)"
proof -
  have W: "W = sum_list (map he_uiLength (hx_vHeaderExtensions h)) +
      of_nat (element_overhead (effective_type h)) * of_nat (length (hx_vHeaderExtensions h))"
    unfolding W_def ext_total_def by (rule sum_lengths_word [OF assms(1), symmetric])
  have ty: "(if \<exists>e\<in>set (hx_vHeaderExtensions h). 16 < he_uiLength e then TWO_BYTE_HEADER else hx_eType h)
      = effective_type h"
    by (simp add: effective_type_def)
  show ?thesis
    unfolding calculateExtensionProperties_def Let_def ty h1_def W ext_profile_def
    by (cases "effective_type h") (simp_all add: element_overhead_def)
qed

lemma calculateExtensionProperties_words:
  assumes "list_all element_ok (hx_vHeaderExtensions h)" and "ext_total h \<le> 262140" and "hx_uiPadding h = 0"
  shows "unat (hx_uiExtensionLengthInWords (calculateExtensionProperties h)) * 4
         = ext_total h + (4 - ext_total h mod 4) mod 4"
    and "unat (hx_uiPadding (calculateExtensionProperties h)) = (4 - ext_total h mod 4) mod 4"
    and "hx_uiProfileDefined (calculateExtensionProperties h) = ext_profile h"
proof -
  define T where "T = ext_total h"
  define W where "W = (of_nat T :: u32)"
  have W: "unat W = T" using assms(2) by (simp add: W_def T_def)
  have m: "unat (W mod 4) = T mod 4" and d: "unat (W div 4) = T div 4"
    using W by (simp_all add: unat_mod unat_div)
  have z: "W mod 4 = 0 \<longleftrightarrow> T mod 4 = 0" using m by (metis unat_eq_0)
  have p: "unat (4 - W mod 4) = 4 - T mod 4"
    using m by (simp add: unat_sub_if' less_imp_le)
  have s: "unat (W div 4 + 1) = T div 4 + 1"
    using d assms(2) by (simp add: unat_word_ariths T_def)
  have u: "unat (ucast x :: u16) = unat x" if "unat x < 65536" for x :: u32
    using that by (simp add: unsigned_ucast_eq take_bit_nat_eq_self)
  have c: "unat (ucast (W div 4) :: u16) = T div 4"
      "T mod 4 \<noteq> 0 \<Longrightarrow> unat (ucast (W div 4 + 1) :: u16) = T div 4 + 1"
    using u [of "W div 4"] u [of "W div 4 + 1"] d s assms(2) by (simp_all add: T_def) presburger?
  note eq = calculateExtensionProperties_total [OF assms(1), folded T_def, folded W_def]
  show "unat (hx_uiPadding (calculateExtensionProperties h)) = (4 - ext_total h mod 4) mod 4"
    unfolding eq using z p assms(3) by (simp flip: T_def)
  show "hx_uiProfileDefined (calculateExtensionProperties h) = ext_profile h"
    unfolding eq by simp
  show "unat (hx_uiExtensionLengthInWords (calculateExtensionProperties h)) * 4
         = ext_total h + (4 - ext_total h mod 4) mod 4"
    unfolding eq T_def [symmetric]
    by (cases "T mod 4 = 0") (use z c in \<open>simp_all\<close>, presburger+)
qed

lemma ext_profile_two_byte:
  fixes a :: u8
  defines "p \<equiv> (0x1000 OR (ucast a AND 0x0F) :: u16)"
  shows "drop_bit 4 p = 0x100" and "p \<noteq> PROFILE_ONE_BYTE_HEADER"
proof -
  show "drop_bit 4 p = 0x100"
    unfolding p_def by (rule bit_word_eqI) (auto simp: bit_simps)
  then show "p \<noteq> PROFILE_ONE_BYTE_HEADER"
    by (auto simp: PROFILE_ONE_BYTE_HEADER_def)
qed

definition ext_bits :: "RtpHeaderExtension \<Rightarrow> bool list" where
  "ext_bits h =
     (let h1 = calculateExtensionProperties h
      in to_bits 16 (unat (hx_uiProfileDefined h1)) @ to_bits 16 (unat (hx_uiExtensionLengthInWords h1)) @
         concat (map (case effective_type h of ONE_BYTE_HEADER \<Rightarrow> one_byte_bits | TWO_BYTE_HEADER \<Rightarrow> two_byte_bits)
           (hx_vHeaderExtensions h)) @
         pad_bits (unat (hx_uiPadding h1)))"

lemma length_ext_elements:
  assumes "ext_ok h"
  shows "length (concat (map (case effective_type h of ONE_BYTE_HEADER \<Rightarrow> one_byte_bits | TWO_BYTE_HEADER \<Rightarrow> two_byte_bits)
           (hx_vHeaderExtensions h))) = 8 * ext_total h"
proof -
  have "length (concat (map b es)) = 8 * sum_list (map (\<lambda>e. k + length (he_data e)) es)"
    if "\<And>e. length (b e) = 8 * (k + length (he_data e))"
    for b :: "HeaderExtensionElement \<Rightarrow> bool list" and k es
    using that by (induction es) (simp_all add: algebra_simps)
  then show ?thesis
    by (cases "effective_type h")
      (simp_all add: ext_total_def element_overhead_def one_byte_bits_def two_byte_bits_def)
qed

lemma length_ext_bits:
  assumes "ext_ok h"
  shows "length (ext_bits h) = 32 + 32 * unat (hx_uiExtensionLengthInWords (calculateExtensionProperties h))"
  using calculateExtensionProperties_words [OF ext_ok_element_ok [OF assms]] assms length_ext_elements [OF assms]
  by (simp add: ext_bits_def Let_def ext_ok_def)

context bit_stream
begin

lemma writeExtensionData_bits:
  assumes "ext_ok h"
  shows "obits (snd (writeExtensionData io h ob)) = obits ob @ ext_bits h"
proof -
  have "obits (foldl (write_one_byte_element io) ob' (hx_vHeaderExtensions h))
      = obits ob' @ concat (map one_byte_bits (hx_vHeaderExtensions h))"
    if "effective_type h = ONE_BYTE_HEADER" for ob'
    by (rule foldl_write_bits, rule write_one_byte_element_bits)
      (use assms that in \<open>auto simp: ext_ok_def list_all_iff\<close>)
  moreover have "obits (foldl (write_two_byte_element io) ob' (hx_vHeaderExtensions h))
      = obits ob' @ concat (map two_byte_bits (hx_vHeaderExtensions h))"
    if "effective_type h = TWO_BYTE_HEADER" for ob'
    by (rule foldl_write_bits, rule write_two_byte_element_bits)
      (use assms that in \<open>auto simp: ext_ok_def list_all_iff\<close>)
  ultimately show ?thesis
    by (cases "effective_type h")
      (simp_all add: writeExtensionData_def ext_bits_def Let_def writes_bits write_bits)
qed

lemma readExtensionData_roundtrip:
  assumes ok: "ext_ok h" and bits: "ibits ib = ext_bits h @ rest"
  shows "\<exists>ib'. readExtensionData io g ib =
      Inr (g\<lparr>hx_uiProfileDefined := ext_profile h,
             hx_uiExtensionLengthInWords := hx_uiExtensionLengthInWords (calculateExtensionProperties h),
             hx_vHeaderExtensions := hx_vHeaderExtensions g @ hx_vHeaderExtensions h\<rparr>, ib')
    \<and> ibits ib' = rest"
proof -
  let ?c = "calculateExtensionProperties h" and ?es = "hx_vHeaderExtensions h"
  note words = calculateExtensionProperties_words [OF ext_ok_element_ok [OF ok]]
  let ?w = "unat (hx_uiExtensionLengthInWords ?c)" and ?n = "unat (hx_uiPadding ?c)"
  let ?body = "concat (map (case effective_type h of ONE_BYTE_HEADER \<Rightarrow> one_byte_bits
      | TWO_BYTE_HEADER \<Rightarrow> two_byte_bits) ?es) @ pad_bits ?n @ rest"
  have prof: "hx_uiProfileDefined ?c = ext_profile h" and tot: "?w * 4 = ext_total h + ?n"
    using words ok by (simp_all add: ext_ok_def)
  have b0: "ibits ib = to_bits 16 (unat (ext_profile h)) @ to_bits 16 ?w @ ?body"
    using bits prof by (simp add: ext_bits_def Let_def)
  obtain ib1 where r1: "ib_read io ib (unat (hx_uiProfileDefined g)) 16 = (True, unat (ext_profile h), ib1)"
    and b1: "ibits ib1 = to_bits 16 ?w @ ?body"
    by (rule read_field [OF b0]) simp_all
  obtain ib2 where r2: "ib_read io ib1 (unat (hx_uiExtensionLengthInWords g)) 16 = (True, ?w, ib2)"
    and b2: "ibits ib2 = ?body"
    by (rule read_field [OF b1]) simp_all
  show ?thesis
  proof (cases "effective_type h")
    case ONE_BYTE_HEADER
    then obtain ib' where "read_one_byte_elements io (?w * 4) ib2 (hx_vHeaderExtensions g)
        = Inr (hx_vHeaderExtensions g @ ?es, ib')" and "ibits ib' = rest"
      using read_one_byte_roundtrip [of ?es ib2 ?n rest "?w * 4"] ok b2 tot
      by (auto simp: ext_ok_def ext_total_def element_overhead_def)
    then show ?thesis
      using r1 r2 ONE_BYTE_HEADER
      by (simp add: readExtensionData_def Let_def ext_profile_def PROFILE_ONE_BYTE_HEADER_def)
  next
    case TWO_BYTE_HEADER
    then obtain ib' where "read_two_byte_elements io (?w * 4) ib2 (hx_vHeaderExtensions g)
        = Inr (hx_vHeaderExtensions g @ ?es, ib')" and "ibits ib' = rest"
      using read_two_byte_roundtrip [of ?es ib2 ?n rest "?w * 4"] ok b2 tot
      by (auto simp: ext_ok_def ext_total_def element_overhead_def)
    then show ?thesis
      using r1 r2 TWO_BYTE_HEADER ext_profile_two_byte [of "hx_uiAppBits h"]
      by (simp add: readExtensionData_def Let_def ext_profile_def)
  qed
qed

end

end
