(* ===== verification/Rtp_Time.thy ===== *)
theory Rtp_Time
  imports Rtp_Prelude Complex_Main "HOL-Library.Log_Nat"
begin

text \<open>
  Time conversions (\<open>RtpTime.cpp\<close>). A \<open>boost::posix_time::ptime\<close> is a number of microseconds
  since 1 January 1900, or \<open>None\<close> for \<open>not_a_date_time\<close>; a duration is a number of
  microseconds. The sources compute with \<open>double\<close>; here that is a rational rounded to 53
  significant bits, ties to even, after every operation (no value comes near the overflow
  or underflow range). The main result is that a posix time survives the conversion to an
  NTP timestamp and back.
\<close>

section \<open>Double precision arithmetic\<close>

definition round_half_even :: "rat \<Rightarrow> int" where
  "round_half_even y =
     (let q = \<lfloor>y\<rfloor>; r = y - of_int q
      in if r < 1 / 2 then q else if 1 / 2 < r then q + 1 else if even q then q else q + 1)"

text \<open>The largest power of two not above a positive rational.\<close>

definition rat_exponent :: "rat \<Rightarrow> int" where
  "rat_exponent x =
     (case quotient_of x of (n, d) \<Rightarrow>
        let k = bitlen n - bitlen d in if x < 2 powi k then k - 1 else k)"

definition round_double :: "rat \<Rightarrow> rat" where
  "round_double x =
     (if x = 0 then 0
      else let u = 2 powi (rat_exponent \<bar>x\<bar> - 52) in of_int (round_half_even (x / u)) * u)"

definition fadd :: "rat \<Rightarrow> rat \<Rightarrow> rat" where "fadd x y = round_double (x + y)"

definition fsub :: "rat \<Rightarrow> rat \<Rightarrow> rat" where "fsub x y = round_double (x - y)"

definition fmul :: "rat \<Rightarrow> rat \<Rightarrow> rat" where "fmul x y = round_double (x * y)"

definition fdiv :: "rat \<Rightarrow> rat \<Rightarrow> rat" where "fdiv x y = round_double (x / y)"

lemma round_half_even_error: "\<bar>of_int (round_half_even y) - y\<bar> \<le> 1 / 2"
proof -
  define q where "q = \<lfloor>y\<rfloor>"
  have "of_int q \<le> y" "y < of_int q + 1" using floor_correct [of y] by (simp_all add: q_def)
  then show ?thesis
    unfolding round_half_even_def Let_def q_def [symmetric] by (auto simp: abs_if)
qed

lemma rat_exponent_lower:
  assumes "0 < x"
  shows "2 powi (rat_exponent x) \<le> x"
proof -
  obtain n d where nd: "quotient_of x = (n, d)" by (cases "quotient_of x")
  have d: "0 < d" and x: "x = of_int n / of_int d" using nd quotient_of_denom_pos quotient_of_div by auto
  then have n: "0 < n" using assms by (simp add: zero_less_divide_iff)
  define k where "k = bitlen n - bitlen d"
  have "2 ^ nat (bitlen n - 1) \<le> n" using bitlen_bounds [OF n] by simp
  then have "(2 ^ nat (bitlen n - 1) :: rat) \<le> of_int n" by (metis of_int_le_iff of_int_numeral of_int_power)
  moreover have "0 < bitlen n" using n by (simp add: bitlen_nonneg order_less_le bitlen_eq_zero_iff)
  ultimately have nlow: "2 powi (bitlen n - 1) \<le> (of_int n :: rat)" by (simp add: power_int_def)
  have "d < 2 ^ nat (bitlen d)" using bitlen_bounds [OF d] by simp
  then have "(of_int d :: rat) < 2 ^ nat (bitlen d)" by (metis of_int_less_iff of_int_numeral of_int_power)
  then have dup: "(of_int d :: rat) < 2 powi (bitlen d)" by (simp add: power_int_def bitlen_nonneg)
  have "(2 :: rat) powi (k - 1) = 2 powi (bitlen n - 1) / 2 powi (bitlen d)"
    by (simp add: k_def power_int_diff diff_right_commute)
  also have "\<dots> \<le> of_int n / of_int d"
    using nlow dup d by (intro frac_le) (simp_all add: n less_imp_le)
  finally have "2 powi (k - 1) \<le> x" using x by simp
  then show ?thesis by (auto simp: rat_exponent_def nd k_def [symmetric] Let_def not_less)
qed

text \<open>The relative error of one rounding is at most half a unit in the last place.\<close>

lemma round_double_error: "\<bar>round_double x - x\<bar> \<le> \<bar>x\<bar> / 2 ^ 53"
proof (cases "x = 0")
  case True
  then show ?thesis by (simp add: round_double_def)
next
  case False
  define e where "e = rat_exponent \<bar>x\<bar>"
  define u where "u = (2 :: rat) powi (e - 52)"
  have u: "0 < u" by (simp add: u_def)
  have "u * 2 ^ 52 = 2 powi e" by (simp add: u_def power_int_diff)
  then have lower: "u * 2 ^ 52 \<le> \<bar>x\<bar>" using rat_exponent_lower [of "\<bar>x\<bar>"] False by (simp add: e_def)
  have "round_double x - x = (of_int (round_half_even (x / u)) - x / u) * u"
    using False u by (simp add: round_double_def e_def u_def Let_def left_diff_distrib)
  then have "\<bar>round_double x - x\<bar> = \<bar>of_int (round_half_even (x / u)) - x / u\<bar> * u"
    using u by (simp add: abs_mult)
  also have "\<dots> \<le> 1 / 2 * u" by (rule mult_right_mono [OF round_half_even_error]) (use u in simp)
  also have "\<dots> \<le> \<bar>x\<bar> / 2 ^ 53" using lower by (simp add: field_simps)
  finally show ?thesis .
qed

section \<open>Durations and posix times\<close>

type_synonym ptime = "int option"

text \<open>\<open>total_seconds\<close> and \<open>fractional_seconds\<close> truncate towards zero.\<close>

definition total_seconds :: "int \<Rightarrow> int" where
  "total_seconds d = sgn d * (\<bar>d\<bar> div 1000000)"

definition fractional_seconds :: "int \<Rightarrow> int" where
  "fractional_seconds d = sgn d * (\<bar>d\<bar> mod 1000000)"

definition getTimeDifference :: "int \<Rightarrow> int \<Rightarrow> u32 \<times> u32" where
  "getTimeDifference t1 t2 =
     (let diff = t2 - t1 in (of_int (total_seconds diff), of_int (fractional_seconds diff)))"

text \<open>1 January 1900 is the origin of the model's time scale, 1 January 1970 is 25567 days later.\<close>

definition NTP_EPOCH :: int where "NTP_EPOCH = 0"

definition UNIX_EPOCH :: int where "UNIX_EPOCH = 25567 * 86400 * 1000000"

section \<open>NTP timestamps\<close>

definition ntp_fraction :: "u32 \<Rightarrow> rat" where
  "ntp_fraction uiMicroseconds = fadd (fmul (fdiv (of_nat (unat uiMicroseconds)) 15625) 0x04000000) (1 / 2)"

definition convertToNtpTimestamp :: "int \<Rightarrow> u32 \<times> u32" where
  "convertToNtpTimestamp t1 =
     (case getTimeDifference NTP_EPOCH t1 of (uiNtpMsw, uiMicroseconds) \<Rightarrow>
        (uiNtpMsw, of_int \<lfloor>ntp_fraction uiMicroseconds\<rfloor>))"

definition convertNtpTimestampToPosixTime :: "u32 \<Rightarrow> u32 \<Rightarrow> int" where
  "convertNtpTimestampToPosixTime uiNtpMsw uiNtpLsw =
     (let hours = unat uiNtpMsw div 3600; rest = unat uiNtpMsw mod 3600;
          minutes = rest div 60; seconds = rest mod 60;
          dMicroseconds = fdiv (fmul (of_nat (unat uiNtpLsw)) 15625) 0x04000000;
          microseconds = \<lfloor>fadd dMicroseconds (1 / 2)\<rfloor>
      in NTP_EPOCH + (int hours * 3600 + int minutes * 60 + int seconds) * 1000000 + microseconds)"

definition ntp_split :: "u64 \<Rightarrow> u32 \<times> u32" where
  "ntp_split uiNtp = (ucast (drop_bit 32 uiNtp), ucast uiNtp)"

definition ntp_join :: "u32 \<Rightarrow> u32 \<Rightarrow> u64" where
  "ntp_join uiNtpMsw uiNtpLsw = push_bit 32 (ucast uiNtpMsw) OR ucast uiNtpLsw"

definition convertNtpTimestampToPosixTime64 :: "u64 \<Rightarrow> int" where
  "convertNtpTimestampToPosixTime64 uiNtp =
     convertNtpTimestampToPosixTime (ucast (drop_bit 32 uiNtp)) (ucast uiNtp)"

definition getNTPTimeStamp :: "int \<Rightarrow> u64" where
  "getNTPTimeStamp tNow =
     (case getTimeDifference NTP_EPOCH tNow of (uiSeconds, uiMicroseconds) \<Rightarrow>
        push_bit 32 (ucast uiSeconds) OR ucast (of_int \<lfloor>ntp_fraction uiMicroseconds\<rfloor> :: u32))"

definition getMiddle32bitsOfNTPTimeStamp :: "int \<Rightarrow> u32" where
  "getMiddle32bitsOfNTPTimeStamp tNow =
     (case getTimeDifference NTP_EPOCH tNow of (uiSeconds, uiMicroseconds) \<Rightarrow>
        (push_bit 16 uiSeconds AND 0xFFFF0000) OR
        (drop_bit 16 (of_int \<lfloor>ntp_fraction uiMicroseconds\<rfloor>) AND 0xFFFF))"

section \<open>RTP timestamps and delays\<close>

definition convertTimeToRtpTimestamp :: "int \<Rightarrow> u32 \<Rightarrow> u32 \<Rightarrow> u32" where
  "convertTimeToRtpTimestamp tArrival uiTimestampFrequency uiTimestampBase =
     (case getTimeDifference UNIX_EPOCH tArrival of (uiSeconds, uiMicroseconds) \<Rightarrow>
        uiTimestampBase + (uiTimestampFrequency * uiSeconds +
          of_int \<lfloor>fadd (fdiv (fmul (of_nat (unat uiMicroseconds)) (of_nat (unat uiTimestampFrequency))) 1000000) (1 / 2)\<rfloor>))"

definition convertDelaySinceLastSenderReportToDlsr :: "rat \<Rightarrow> u32" where
  "convertDelaySinceLastSenderReportToDlsr dDelaySeconds =
     (let dInt = \<lfloor>dDelaySeconds\<rfloor>; dFrac = fmul (fsub dDelaySeconds (of_int dInt)) 65536
      in push_bit 16 (of_int dInt) OR of_int \<lfloor>dFrac\<rfloor>)"

definition convertDlsrToSeconds :: "u32 \<Rightarrow> rat" where
  "convertDlsrToSeconds uiDlsr =
     fadd (of_nat (unat (drop_bit 16 uiDlsr AND 0xFFFF))) (fdiv (of_nat (unat (uiDlsr AND 0xFFFF))) 65536)"

definition presentationTimeMatch :: "int \<Rightarrow> int \<Rightarrow> bool" where
  "presentationTimeMatch t1 t2 \<longleftrightarrow> t1 - t2 < 12"

definition getPresentationTime :: "u32 \<Rightarrow> ptime \<Rightarrow> u32 \<Rightarrow> u32 \<Rightarrow> ptime" where
  "getPresentationTime uiRtpSyncRef tSyncRef uiRtpTs uiRtpTimestampFrequency =
     (let timestampDiff = sint (uiRtpTs - uiRtpSyncRef);
          timeDiff = fdiv (of_int timestampDiff) (of_nat (unat uiRtpTimestampFrequency))
      in if timeDiff \<ge> 0
         then let seconds = \<lfloor>timeDiff\<rfloor>;
                  uSeconds = \<lfloor>fadd (fmul (fsub timeDiff (of_int seconds)) 1000000) (1 / 2)\<rfloor>
              in map_option (\<lambda>t. t + seconds * 1000000 + uSeconds) tSyncRef
         else let timeDiff' = - timeDiff; seconds = \<lfloor>timeDiff'\<rfloor>;
                  uSeconds = \<lfloor>fadd (fmul (fsub timeDiff' (of_int seconds)) 1000000) (1 / 2)\<rfloor>
              in map_option (\<lambda>t. t - seconds * 1000000 - uSeconds) tSyncRef)"

section \<open>A posix time survives the NTP format\<close>

lemma ntp_join_split: "(case ntp_split x of (msw, lsw) \<Rightarrow> ntp_join msw lsw) = x"
  by (rule bit_word_eqI) (auto simp: ntp_split_def ntp_join_def bit_simps not_le)

lemma round_double_bounds:
  assumes "0 \<le> x" and "x \<le> B"
  shows "x - B / 9007199254740992 \<le> round_double x" and "round_double x \<le> x + B / 9007199254740992"
    and "0 \<le> round_double x"
proof -
  have e: "\<bar>round_double x - x\<bar> \<le> x / 9007199254740992" using round_double_error [of x] assms(1) by simp
  have "x / 9007199254740992 \<le> B / 9007199254740992" "x / 9007199254740992 \<le> x"
    using assms by (simp_all add: divide_right_mono)
  then show "x - B / 9007199254740992 \<le> round_double x" "round_double x \<le> x + B / 9007199254740992"
    "0 \<le> round_double x"
    using abs_le_D1 [OF e] abs_le_D2 [OF e] by linarith+
qed

lemma unat_word_of_int: "\<lbrakk>0 \<le> i; i < 4294967296\<rbrakk> \<Longrightarrow> unat (of_int i :: u32) = nat i"
  by (elim nonneg_int_cases) simp

text \<open>Rounding to the nearest NTP fraction, up to an error far below the distance to a tie.\<close>

lemma ntp_fraction_bounds:
  assumes "unat us < 1000000"
  defines "E \<equiv> of_nat (unat us) * 67108864 / (15625 :: rat)"
  shows "E + 1 / 2 - 1 / 1000 \<le> ntp_fraction us" and "ntp_fraction us \<le> E + 1 / 2 + 1 / 1000"
    and "E \<le> 4294963002"
proof -
  define U where "U = (of_nat (unat us) :: rat)"
  have "unat us \<le> 999999" using assms(1) by simp
  then have "U \<le> of_nat 999999" unfolding U_def by (simp only: of_nat_le_iff)
  then have "U \<le> 999999" by simp
  moreover have "0 \<le> U" unfolding U_def by (rule of_nat_0_le_iff)
  ultimately have U: "0 \<le> U" "U \<le> 999999" by simp_all
  define a where "a = fdiv U 15625"
  define b where "b = fmul a 67108864"
  define c where "c = fadd b (1 / 2)"
  have "0 \<le> U / 15625" "U / 15625 \<le> 64" using U by simp_all
  note a = round_double_bounds [OF this, folded fdiv_def, folded a_def]
  have "0 \<le> a * 67108864" "a * 67108864 \<le> 4362076160" using a U by simp_all
  note b = round_double_bounds [OF this, folded fmul_def, folded b_def]
  have "0 \<le> b + 1 / 2" "b + 1 / 2 \<le> 4362076162" using b a U by simp_all
  note c = round_double_bounds [OF this, folded fadd_def, folded c_def]
  have E: "E = U * 67108864 / 15625" by (simp add: E_def U_def)
  have n: "ntp_fraction us = c" by (simp add: ntp_fraction_def U_def a_def b_def c_def)
  show "E + 1 / 2 - 1 / 1000 \<le> ntp_fraction us" "ntp_fraction us \<le> E + 1 / 2 + 1 / 1000" "E \<le> 4294963002"
    unfolding n E using a b c U by simp_all
qed

lemma ntp_microseconds_back:
  fixes L :: nat and U :: rat
  assumes "of_nat L \<le> U * 67108864 / 15625 + 501 / 1000" and "U * 67108864 / 15625 - 501 / 1000 \<le> of_nat L"
    and "0 \<le> U" and "U \<le> 999999"
  defines "e \<equiv> fadd (fdiv (fmul (of_nat L) 15625) 67108864) (1 / 2)"
  shows "U < e" and "e < U + 1"
proof -
  define p where "p = fmul (of_nat L) 15625"
  define d where "d = fdiv p 67108864"
  have L: "0 \<le> (of_nat L :: rat)" "(of_nat L :: rat) \<le> 4294967296" using assms(1,4) by simp_all
  then have "0 \<le> of_nat L * (15625 :: rat)" "of_nat L * (15625 :: rat) \<le> 67108864000000" by simp_all
  note p = round_double_bounds [OF this, folded fmul_def, folded p_def]
  have "0 \<le> p / 67108864" "p / 67108864 \<le> 1000001" using p L by simp_all
  note d = round_double_bounds [OF this, folded fdiv_def, folded d_def]
  have "0 \<le> d + 1 / 2" "d + 1 / 2 \<le> 1000003" using d p L by simp_all
  note e = round_double_bounds [OF this, folded fadd_def, unfolded d_def p_def, folded e_def, folded p_def, folded d_def]
  show "U < e" "e < U + 1" using assms(1-2) p d e by simp_all
qed

text \<open>The seconds and fraction of a timestamp, and how far they are from the time.\<close>

lemma ntp_parts:
  assumes "0 \<le> t" and "t < 4294967296 * 1000000"
  obtains s L where "convertToNtpTimestamp t = (of_int s, of_int L)"
    and "getNTPTimeStamp t = push_bit 32 (ucast (of_int s :: u32)) OR ucast (of_int L :: u32)"
    and "0 \<le> s" "s < 4294967296" "0 \<le> L" "L < 4294967296"
    and "\<bar>(of_int s + of_int L / 4294967296) - of_int t / (1000000 :: rat)\<bar> \<le> 1 / 4294967296"
proof -
  define s where "s = t div 1000000"
  define u where "u = t mod 1000000"
  have t: "t = s * 1000000 + u" and u: "0 \<le> u" "u < 1000000" and s: "0 \<le> s" "s < 4294967296"
    using assms by (auto simp: s_def u_def)
  have diff: "getTimeDifference NTP_EPOCH t = (of_int s, of_int u)"
    using assms by (auto simp: getTimeDifference_def NTP_EPOCH_def total_seconds_def fractional_seconds_def s_def u_def
        Let_def sgn_if)
  have us: "unat (of_int u :: u32) = nat u" using u by (simp add: unat_word_of_int)
  define U where "U = (of_int u :: rat)"
  define L where "L = \<lfloor>ntp_fraction (of_int u)\<rfloor>"
  have nU: "(of_nat (nat u) :: rat) = U" using u by (simp add: U_def)
  have f: "U * 67108864 / 15625 + 1 / 2 - 1 / 1000 \<le> ntp_fraction (of_int u)"
    "ntp_fraction (of_int u) \<le> U * 67108864 / 15625 + 1 / 2 + 1 / 1000" "U * 67108864 / 15625 \<le> 4294963002"
    using ntp_fraction_bounds [of "of_int u", unfolded us] u by (simp_all add: nU)
  have L: "of_int L \<le> ntp_fraction (of_int u)" "ntp_fraction (of_int u) < of_int L + 1"
    using floor_correct [of "ntp_fraction (of_int u)"] by (simp_all add: L_def)
  have "0 < ntp_fraction (of_int u)" using f(1) u by (simp add: U_def)
  then have L0: "0 \<le> L" by (simp add: L_def)
  have "(of_int L :: rat) < 4294967296" using L(1) f(2,3) by simp
  then have L1: "L < 4294967296" by (metis of_int_less_iff of_int_numeral)
  have "\<bar>of_int L - U * 67108864 / 15625\<bar> \<le> 1" using L f unfolding abs_le_iff by linarith
  then have "\<bar>of_int L / 4294967296 - U / 1000000\<bar> \<le> 1 / 4294967296" by (simp add: abs_if split: if_splits)
  moreover have "of_int t / 1000000 = (of_int s + U / 1000000 :: rat)" by (simp add: t U_def add_divide_distrib)
  then have "(of_int s + of_int L / 4294967296) - of_int t / (1000000 :: rat) = of_int L / 4294967296 - U / 1000000" by linarith
  ultimately have "\<bar>(of_int s + of_int L / 4294967296) - of_int t / (1000000 :: rat)\<bar> \<le> 1 / 4294967296" by metis
  then show thesis
    using that [of s L] s L0 L1 by (simp add: convertToNtpTimestamp_def getNTPTimeStamp_def diff L_def)
qed

text \<open>
  A time with microsecond resolution, up to the end of the NTP era, is converted to the 32.32
  bit NTP format and back without loss, in spite of the double precision arithmetic on both ways.
\<close>

theorem ntp_posix_roundtrip:
  assumes "0 \<le> t" and "t < 4294967296 * 1000000"
  shows "(case convertToNtpTimestamp t of (uiNtpMsw, uiNtpLsw) \<Rightarrow> convertNtpTimestampToPosixTime uiNtpMsw uiNtpLsw) = t"
proof -
  define s where "s = t div 1000000"
  define u where "u = t mod 1000000"
  have t: "t = s * 1000000 + u" and u: "0 \<le> u" "u < 1000000" and s: "0 \<le> s" "s < 4294967296"
    using assms by (auto simp: s_def u_def)
  have diff: "getTimeDifference NTP_EPOCH t = (of_int s, of_int u)"
    using assms by (auto simp: getTimeDifference_def NTP_EPOCH_def total_seconds_def fractional_seconds_def s_def u_def
        Let_def sgn_if)
  have us: "unat (of_int u :: u32) = nat u" and ss: "unat (of_int s :: u32) = nat s"
    using u s by (simp_all add: unat_word_of_int)
  define U where "U = (of_int u :: rat)"
  have U: "0 \<le> U" "U \<le> 999999" using u by (simp_all add: U_def)
  define L where "L = \<lfloor>ntp_fraction (of_int u)\<rfloor>"
  note f = ntp_fraction_bounds [of "of_int u", unfolded us]
  have nU: "(of_nat (nat u) :: rat) = U" using u by (simp add: U_def)
  have f1: "U * 67108864 / 15625 + 1 / 2 - 1 / 1000 \<le> ntp_fraction (of_int u)"
    and f2: "ntp_fraction (of_int u) \<le> U * 67108864 / 15625 + 1 / 2 + 1 / 1000"
    and f3: "U * 67108864 / 15625 \<le> 4294963002"
    using f u by (simp_all add: nU)
  have L: "of_int L \<le> ntp_fraction (of_int u)" "ntp_fraction (of_int u) < of_int L + 1"
    using floor_correct [of "ntp_fraction (of_int u)"] by (simp_all add: L_def)
  have "0 < ntp_fraction (of_int u)" using f1 U by simp
  then have "0 \<le> L" by (simp add: L_def)
  have "(of_int L :: rat) < 4294967296" using L(1) f2 f3 by simp
  then have "L < 4294967296" by (metis of_int_less_iff of_int_numeral)
  then have uL: "unat (of_int L :: u32) = nat L"
    using \<open>0 \<le> L\<close> by (simp add: unat_word_of_int)
  have nL: "(of_nat (nat L) :: rat) = of_int L" using \<open>0 \<le> L\<close> by simp
  have "\<lfloor>fadd (fdiv (fmul (of_nat (nat L)) 15625) 67108864) (1 / 2)\<rfloor> = u"
    using ntp_microseconds_back [of "nat L" U] nL L f1 f2 U by (intro floor_unique) (simp_all add: U_def)
  moreover have "int (nat s div 3600) * 3600 + int (nat s mod 3600 div 60) * 60 + int (nat s mod 3600 mod 60) = s"
    using s by (simp add: zdiv_int zmod_int)
  ultimately have "convertNtpTimestampToPosixTime (of_int s) (of_int L) = t"
    unfolding convertNtpTimestampToPosixTime_def Let_def ss uL NTP_EPOCH_def using t by presburger
  moreover have "convertToNtpTimestamp t = (of_int s, of_int L)"
    by (simp add: convertToNtpTimestamp_def diff L_def)
  ultimately show ?thesis by simp
qed

theorem ntp_posix_roundtrip_witness:
  "(case convertToNtpTimestamp 3600000000123456 of (uiNtpMsw, uiNtpLsw) \<Rightarrow>
      convertNtpTimestampToPosixTime uiNtpMsw uiNtpLsw) = 3600000000123456"
  by (rule ntp_posix_roundtrip) simp_all

end
