(* ===== verification/Rtp_Packet.thy ===== *)
theory Rtp_Packet
  imports Header_Extension Rtp_Time
begin

text \<open>
  The RTP data packet (\<open>rfc3550/RtpHeader.h\<close>, \<open>RtpPacket.h\<close>) and its serialisation
  (\<open>RtpPacketiser::packetise\<close>, \<open>RtpPacketiser::doDepacketise\<close>).
\<close>

section \<open>Header and packet\<close>

record RtpHeader =
  rh_uiVersion :: u8
  rh_bPadding :: bool
  rh_uiCC :: u8
  rh_bMarker :: bool
  rh_uiPT :: u8
  rh_uiSN :: u16
  rh_uiRtpTimestamp :: u32
  rh_uiSSRC :: u32
  rh_vCCs :: "u32 list"
  rh_headerExtension :: RtpHeaderExtension

definition RTP_VERSION_NUMBER :: u8 where
  "RTP_VERSION_NUMBER = 2"

definition MIN_RTP_HEADER_SIZE :: u32 where
  "MIN_RTP_HEADER_SIZE = 12"

definition RtpHeader_create :: "bool \<Rightarrow> bool \<Rightarrow> u8 \<Rightarrow> u16 \<Rightarrow> u32 \<Rightarrow> u32 \<Rightarrow> RtpHeader" where
  "RtpHeader_create bPadding bMarker uiPT uiSN uiRtpTS uiSSRC =
     \<lparr>rh_uiVersion = RTP_VERSION_NUMBER, rh_bPadding = bPadding, rh_uiCC = 0, rh_bMarker = bMarker,
      rh_uiPT = uiPT, rh_uiSN = uiSN, rh_uiRtpTimestamp = uiRtpTS, rh_uiSSRC = uiSSRC, rh_vCCs = [],
      rh_headerExtension = RtpHeaderExtension_new\<rparr>"

definition RtpHeader_default :: RtpHeader where
  "RtpHeader_default = RtpHeader_create False False 0 0 0 0"

definition addContributingSource :: "u32 \<Rightarrow> RtpHeader \<Rightarrow> RtpHeader" where
  "addContributingSource uiCSRC h = h\<lparr>rh_vCCs := rh_vCCs h @ [uiCSRC]\<rparr>"

definition addRtpHeaderExtension :: "HeaderExtensionElement \<Rightarrow> RtpHeader \<Rightarrow> RtpHeader" where
  "addRtpHeaderExtension e h = h\<lparr>rh_headerExtension := addHeaderExtensions e (rh_headerExtension h)\<rparr>"

definition hasExtension :: "RtpHeader \<Rightarrow> bool" where
  "hasExtension h = containsExtensions (rh_headerExtension h)"

definition setPadding :: "bool \<Rightarrow> RtpHeader \<Rightarrow> RtpHeader" where
  "setPadding b h = h\<lparr>rh_bPadding := b\<rparr>"

definition setMarkerBit :: "bool \<Rightarrow> RtpHeader \<Rightarrow> RtpHeader" where
  "setMarkerBit b h = h\<lparr>rh_bMarker := b\<rparr>"

definition setPayloadType :: "u8 \<Rightarrow> RtpHeader \<Rightarrow> RtpHeader" where
  "setPayloadType uiPt h = h\<lparr>rh_uiPT := uiPt\<rparr>"

definition setSequenceNumber :: "u16 \<Rightarrow> RtpHeader \<Rightarrow> RtpHeader" where
  "setSequenceNumber uiSN h = h\<lparr>rh_uiSN := uiSN\<rparr>"

definition setRtpTimestamp :: "u32 \<Rightarrow> RtpHeader \<Rightarrow> RtpHeader" where
  "setRtpTimestamp uiTs h = h\<lparr>rh_uiRtpTimestamp := uiTs\<rparr>"

definition setSSRC :: "u32 \<Rightarrow> RtpHeader \<Rightarrow> RtpHeader" where
  "setSSRC uiSSRC h = h\<lparr>rh_uiSSRC := uiSSRC\<rparr>"

text \<open>\<open>getSize\<close> is \<open>const\<close> but updates the cached length of the extension.\<close>

definition RtpHeader_getSize :: "RtpHeader \<Rightarrow> u32 \<times> RtpHeader" where
  "RtpHeader_getSize h =
     (if hasExtension h
      then case RtpHeaderExtension_getSize (rh_headerExtension h) of
             (n, x) \<Rightarrow> (MIN_RTP_HEADER_SIZE + 4 * of_nat (length (rh_vCCs h)) + n, h\<lparr>rh_headerExtension := x\<rparr>)
      else (MIN_RTP_HEADER_SIZE + 4 * of_nat (length (rh_vCCs h)), h))"

record RtpPacket =
  rp_header :: RtpHeader
  rp_rtpPayload :: bytes
  rp_tArrival :: ptime
  rp_uiRtpArrivalTimestamp :: u32
  rp_tNtpArrival :: u64
  rp_uiExtendedSequenceNumber :: u32
  rp_sourcePort :: u16

definition RtpPacket_create :: "RtpHeader \<Rightarrow> RtpPacket" where
  "RtpPacket_create h = \<lparr>rp_header = h, rp_rtpPayload = [], rp_tArrival = None,
     rp_uiRtpArrivalTimestamp = 0, rp_tNtpArrival = 0, rp_uiExtendedSequenceNumber = 0, rp_sourcePort = 0\<rparr>"

definition getRtpTimestamp :: "RtpPacket \<Rightarrow> u32" where
  "getRtpTimestamp p = rh_uiRtpTimestamp (rp_header p)"

definition getSequenceNumber :: "RtpPacket \<Rightarrow> u32" where
  "getSequenceNumber p = ucast (rh_uiSN (rp_header p))"

definition setExtendedSequenceNumber :: "u32 \<Rightarrow> RtpPacket \<Rightarrow> RtpPacket" where
  "setExtendedSequenceNumber uiSN p =
     p\<lparr>rp_uiExtendedSequenceNumber := uiSN, rp_header := setSequenceNumber (ucast uiSN) (rp_header p)\<rparr>"

definition RtpPacket_getSize :: "RtpPacket \<Rightarrow> u32 \<times> RtpPacket" where
  "RtpPacket_getSize p =
     (case RtpHeader_getSize (rp_header p) of
        (n, h) \<Rightarrow> (n + of_nat (length (rp_rtpPayload p)), p\<lparr>rp_header := h\<rparr>))"

section \<open>RtpPacketiser: data packets\<close>

definition rtp_fixed_fields :: "RtpHeader \<Rightarrow> (nat \<times> nat) list" where
  "rtp_fixed_fields h =
     [(unat (rh_uiVersion h), 2), (of_bool (rh_bPadding h), 1), (of_bool (hasExtension h), 1),
      (unat (rh_uiCC h), 4), (of_bool (rh_bMarker h), 1), (unat (rh_uiPT h), 7), (unat (rh_uiSN h), 16),
      (unat (rh_uiRtpTimestamp h), 32), (unat (rh_uiSSRC h), 32)]"

definition csrc_fields :: "u32 list \<Rightarrow> (nat \<times> nat) list" where
  "csrc_fields cs = map (\<lambda>c. (unat c, 32)) cs"

text \<open>\<open>operator<<(OBitStream&, const RtpHeader&)\<close>.\<close>

definition RtpHeader_write :: "('i, 'o) bit_io \<Rightarrow> RtpHeader \<Rightarrow> 'o \<Rightarrow> RtpHeader \<times> 'o" where
  "RtpHeader_write io h ob =
     (let ob1 = writes io (rtp_fixed_fields h) ob;
          ob2 = writes io (csrc_fields (rh_vCCs h)) ob1
      in if hasExtension h
         then (case writeExtensionData io (rh_headerExtension h) ob2 of
                 (x, ob3) \<Rightarrow> (h\<lparr>rh_headerExtension := x\<rparr>, ob3))
         else (h, ob2))"

text \<open>
  \<open>packetise\<close> allocates \<open>getSize()\<close> bytes, writes the header into them and copies the payload
  behind it. The buffer is what the stream wrote, the payload, and what remains of the
  allocation; a header and payload that do not fit overrun the allocation.
\<close>

definition packetise :: "('i, 'o) bit_io \<Rightarrow> RtpPacket \<Rightarrow> fault + bytes" where
  "packetise io p =
     (case RtpPacket_getSize p of (uiSize, p1) \<Rightarrow>
        let h = rp_header p1; payload = rp_rtpPayload p1;
            ob12 = writes io (rtp_fixed_fields h) (ob_new io)
        in if ob_bytesUsed io ob12 \<noteq> 12 then Inl Assertion_failed
           else let ob = snd (RtpHeader_write io h (ob_new io));
                    used = ob_bytesUsed io ob
                in if used + length payload > unat uiSize then Inl Buffer_overflow
                   else Inr (take used (ob_str io ob) @ payload @
                             map (mem_uninit io) [used + length payload ..< unat uiSize]))"

definition UINT_MAX :: nat where
  "UINT_MAX = 4294967295"

definition doDepacketise :: "('i, 'o) bit_io \<Rightarrow> bytes \<Rightarrow> fault + RtpPacket option" where
  "doDepacketise io buffer =
     (if length buffer < 12 then Inr None
      else case ib_read io (ib_open io buffer) UINT_MAX 2 of (_, uiVersion, ib1) \<Rightarrow>
        if uiVersion \<noteq> unat RTP_VERSION_NUMBER then Inr None
        else case reads io [(UINT_MAX, 1), (UINT_MAX, 1), (UINT_MAX, 4), (UINT_MAX, 1), (UINT_MAX, 7),
                            (UINT_MAX, 16), (UINT_MAX, 32), (UINT_MAX, 32)] ib1 of (v, ib2) \<Rightarrow>
          let uiPadding = v ! 0; uiExtension = v ! 1; uiCC = v ! 2; uiMarker = v ! 3; uiPayload = v ! 4;
              uiSN = v ! 5; uiTS = v ! 6; uiSSRC = v ! 7;
              header = RtpHeader_create (cu_i2b io uiPadding) (cu_i2b io uiMarker) (of_nat uiPayload)
                         (of_nat uiSN) (of_nat uiTS) (of_nat uiSSRC)
          in case reads io (replicate uiCC (UINT_MAX, 32)) ib2 of (csrcs, ib3) \<Rightarrow>
            let header1 = fold (\<lambda>c. addContributingSource (of_nat c)) csrcs header
            in case (if uiExtension \<noteq> 0
                     then map_sum (\<lambda>e. e) (\<lambda>(x, ib'). (header1\<lparr>rh_headerExtension := x\<rparr>, ib'))
                            (readExtensionData io (rh_headerExtension header1) ib3)
                     else Inr (header1, ib3)) of
                 Inl e \<Rightarrow> Inl e
               | Inr (header2, ib4) \<Rightarrow>
                   (case ib_readBytes io ib4 (ib_bytesRemaining io ib4) of
                      (_, payload, _) \<Rightarrow>
                        Inr (Some ((RtpPacket_create header2)\<lparr>rp_rtpPayload := payload\<rparr>))))"

definition depacketise :: "('i, 'o) bit_io \<Rightarrow> bytes \<Rightarrow> u64 \<Rightarrow> fault + RtpPacket option" where
  "depacketise io buffer ntpArrival =
     map_sum (\<lambda>e. e) (map_option (\<lambda>p. p\<lparr>rp_tNtpArrival := ntpArrival\<rparr>)) (doDepacketise io buffer)"


section \<open>The wire format\<close>

definition ext_bytes :: "RtpHeader \<Rightarrow> bool list" where
  "ext_bytes h = (if hasExtension h then ext_bits (rh_headerExtension h) else [])"

definition header_bits :: "RtpHeader \<Rightarrow> bool list" where
  "header_bits h = fields_bits (rtp_fixed_fields h) @ fields_bits (csrc_fields (rh_vCCs h)) @ ext_bytes h"

definition header_size :: "RtpHeader \<Rightarrow> nat" where
  "header_size h = length (header_bits h) div 8"

text \<open>
  A header that fits the wire: version, payload type and CSRC count within their fields, and
  an extension whose elements fit their form and whose length has not been computed before.
\<close>

definition header_ok :: "RtpHeader \<Rightarrow> bool" where
  "header_ok h \<longleftrightarrow> rh_uiVersion h = 2 \<and> unat (rh_uiCC h) < 16 \<and> unat (rh_uiPT h) < 128
     \<and> (hasExtension h \<longrightarrow> ext_ok (rh_headerExtension h) \<and> hx_uiExtensionLengthInWords (rh_headerExtension h) = 0)"

definition packet_ok :: "RtpPacket \<Rightarrow> bool" where
  "packet_ok p \<longleftrightarrow> header_ok (rp_header p)
     \<and> header_size (rp_header p) + length (rp_rtpPayload p) < 4294967296"

lemma fields_ok_csrc [simp]: "fields_ok (csrc_fields cs)"
  by (induction cs) (simp_all add: csrc_fields_def)

lemma length_csrc_bits [simp]: "length (fields_bits (csrc_fields cs)) = 32 * length cs"
  by (induction cs) (simp_all add: csrc_fields_def)

lemma length_fixed_bits [simp]: "length (fields_bits (rtp_fixed_fields h)) = 96"
  by (simp add: rtp_fixed_fields_def)

lemma fields_ok_fixed: "header_ok h \<Longrightarrow> fields_ok (rtp_fixed_fields h)"
  by (simp add: header_ok_def rtp_fixed_fields_def)

definition ext_word_total :: "RtpHeaderExtension \<Rightarrow> u32" where
  "ext_word_total h = sum_list (map he_uiLength (hx_vHeaderExtensions h)) +
     of_nat (element_overhead (effective_type h)) * of_nat (length (hx_vHeaderExtensions h))"

lemma calculateExtensionProperties_eq:
  "calculateExtensionProperties h =
     (let h1 = h\<lparr>hx_eType := effective_type h, hx_uiProfileDefined := ext_profile h\<rparr>
      in if ext_word_total h mod 4 = 0
         then h1\<lparr>hx_uiExtensionLengthInWords := ucast (ext_word_total h div 4)\<rparr>
         else h1\<lparr>hx_uiPadding := 4 - ext_word_total h mod 4,
                 hx_uiExtensionLengthInWords := ucast (ext_word_total h div 4 + 1)\<rparr>)"
  unfolding calculateExtensionProperties_def effective_type_def [symmetric] Let_def ext_word_total_def ext_profile_def
  by (cases "effective_type h") (simp_all add: element_overhead_def)

lemma calculateExtensionProperties_idem [simp]:
  "calculateExtensionProperties (calculateExtensionProperties h) = calculateExtensionProperties h"
proof -
  let ?c = "calculateExtensionProperties h"
  have app: "hx_uiAppBits ?c = hx_uiAppBits h"
    by (simp add: calculateExtensionProperties_eq Let_def)
  have ty: "effective_type ?c = effective_type h"
    by (simp add: effective_type_def [of ?c]) (simp add: effective_type_def)
  have P: "ext_profile ?c = ext_profile h" and T: "ext_word_total ?c = ext_word_total h"
    using ty app by (simp_all add: ext_profile_def ext_word_total_def cong: RtpHeaderExtensionType.case_cong)
  show ?thesis
    unfolding calculateExtensionProperties_eq [of ?c] ty P T
    by (simp add: calculateExtensionProperties_eq [of h] Let_def)
qed

lemma writeExtensionData_calculated [simp]:
  "writeExtensionData io (calculateExtensionProperties h) ob = writeExtensionData io h ob"
  by (simp add: writeExtensionData_def)

lemma ext_length_positive:
  assumes "ext_ok x" and "containsExtensions x"
  shows "hx_uiExtensionLengthInWords (calculateExtensionProperties x) \<noteq> 0"
proof -
  have "0 < ext_total x"
    using assms(2) by (cases "hx_vHeaderExtensions x"; cases "effective_type x")
      (auto simp: containsExtensions_def ext_total_def element_overhead_def)
  then show ?thesis
    using calculateExtensionProperties_words(1) [of x] ext_ok_element_ok [OF assms(1)] assms(1)
    by (auto simp: ext_ok_def)
qed

text \<open>\<open>getSize\<close> is the number of bytes the header takes on the wire.\<close>

lemma RtpHeader_getSize_bytes:
  assumes "header_ok h"
  shows "RtpHeader_getSize h = (of_nat (header_size h),
           if hasExtension h
           then h\<lparr>rh_headerExtension := calculateExtensionProperties (rh_headerExtension h)\<rparr> else h)"
    and "length (header_bits h) = 8 * header_size h"
proof -
  let ?w = "hx_uiExtensionLengthInWords (calculateExtensionProperties (rh_headerExtension h))"
  have len: "length (header_bits h) = 8 * (12 + 4 * length (rh_vCCs h)
      + (if hasExtension h then 4 + 4 * unat ?w else 0))"
    using assms by (auto simp: header_bits_def ext_bytes_def length_ext_bits header_ok_def)
  then show "length (header_bits h) = 8 * header_size h"
    by (simp add: header_size_def)
  have u: "(of_nat (unat ?w) :: u32) = ucast ?w"
    by (rule of_nat_unat)
  show "RtpHeader_getSize h = (of_nat (header_size h),
           if hasExtension h
           then h\<lparr>rh_headerExtension := calculateExtensionProperties (rh_headerExtension h)\<rparr> else h)"
    using assms ext_length_positive [of "rh_headerExtension h"] len
    by (auto simp: RtpHeader_getSize_def RtpHeaderExtension_getSize_def header_ok_def Let_def header_size_def
        MIN_RTP_HEADER_SIZE_def MIN_EXTENSION_HEADER_SIZE_def u hasExtension_def algebra_simps)
qed

context bit_stream
begin

lemma RtpHeader_write_bits:
  assumes "header_ok h"
  shows "obits (snd (RtpHeader_write io h ob)) = obits ob @ header_bits h"
proof -
  have "obits (writes io (csrc_fields (rh_vCCs h)) (writes io (rtp_fixed_fields h) ob))
      = obits ob @ fields_bits (rtp_fixed_fields h) @ fields_bits (csrc_fields (rh_vCCs h))"
    using fields_ok_fixed [OF assms] by (simp add: writes_bits)
  moreover have "hasExtension h \<Longrightarrow> ext_ok (rh_headerExtension h)"
    using assms by (simp add: header_ok_def)
  ultimately show ?thesis
    using writeExtensionData_bits [of "rh_headerExtension h"]
    by (auto simp: RtpHeader_write_def Let_def header_bits_def ext_bytes_def split: prod.splits)
      (metis snd_conv append.assoc)
qed

lemma packetise_bytes:
  assumes "packet_ok p"
  shows "\<exists>bs. packetise io p = Inr bs
    \<and> bytes_bits bs = header_bits (rp_header p) @ bytes_bits (rp_rtpPayload p)"
proof -
  let ?h = "rp_header p" and ?n = "length (rp_rtpPayload p)"
  have ok: "header_ok ?h" and fits: "header_size ?h + ?n < 4294967296"
    using assms by (simp_all add: packet_ok_def)
  define h1 where "h1 = (if hasExtension ?h
      then ?h\<lparr>rh_headerExtension := calculateExtensionProperties (rh_headerExtension ?h)\<rparr> else ?h)"
  have size: "RtpPacket_getSize p = (of_nat (header_size ?h + ?n), p\<lparr>rp_header := h1\<rparr>)"
    using RtpHeader_getSize_bytes(1) [OF ok] by (simp add: RtpPacket_getSize_def h1_def)
  have same: "rtp_fixed_fields h1 = rtp_fixed_fields ?h"
      "snd (RtpHeader_write io h1 ob) = snd (RtpHeader_write io ?h ob)" for ob
    by (simp_all add: h1_def rtp_fixed_fields_def RtpHeader_write_def hasExtension_def
        containsExtensions_def Let_def split: prod.splits)
  define ob where "ob = snd (RtpHeader_write io ?h (ob_new io))"
  have obits: "obits ob = header_bits ?h"
    unfolding ob_def by (simp add: RtpHeader_write_bits [OF ok] new_bits)
  have used: "ob_bytesUsed io ob = header_size ?h" and str: "bytes_bits (ob_str io ob) = header_bits ?h"
    using obits RtpHeader_getSize_bytes(2) [OF ok] by (simp_all add: bytesUsed str_bits)
  have "length (ob_str io ob) = header_size ?h"
    using arg_cong [OF str, of length] RtpHeader_getSize_bytes(2) [OF ok] by simp
  then have "packetise io p = Inr (ob_str io ob @ rp_rtpPayload p)"
    using size same used unat_of_nat_u32 [OF fits] fields_ok_fixed [OF ok]
    by (simp add: packetise_def Let_def ob_def bytesUsed writes_bits new_bits del: of_nat_add)
  then show ?thesis using str by simp
qed

text \<open>Reading back: the fixed part, then as many CSRCs as CC announces.\<close>

lemma fold_addContributingSource:
  "fold (\<lambda>c. addContributingSource (of_nat c)) (map fst (csrc_fields cs)) h
     = h\<lparr>rh_vCCs := rh_vCCs h @ cs\<rparr>"
proof (induction cs arbitrary: h)
  case Nil
  then show ?case by (simp add: csrc_fields_def)
next
  case (Cons c cs)
  have "fold (\<lambda>c. addContributingSource (of_nat c)) (map fst (csrc_fields (c # cs))) h
      = fold (\<lambda>c. addContributingSource (of_nat c)) (map fst (csrc_fields cs)) (addContributingSource c h)"
    by (simp add: csrc_fields_def)
  then show ?case by (simp only: Cons.IH) (simp add: addContributingSource_def)
qed

lemma doDepacketise_header:
  assumes bits: "bytes_bits buffer = fields_bits (rtp_fixed_fields h) @ fields_bits (csrc_fields cs) @ rest"
    and ok: "header_ok h" and cc: "unat (rh_uiCC h) = length cs"
  defines "h1 \<equiv> (RtpHeader_create (rh_bPadding h) (rh_bMarker h) (rh_uiPT h) (rh_uiSN h)
                  (rh_uiRtpTimestamp h) (rh_uiSSRC h))\<lparr>rh_vCCs := cs\<rparr>"
  obtains ib3 where "ibits ib3 = rest"
    and "doDepacketise io buffer =
      (case (if hasExtension h
             then map_sum (\<lambda>e. e) (\<lambda>(x, ib'). (h1\<lparr>rh_headerExtension := x\<rparr>, ib'))
                    (readExtensionData io RtpHeaderExtension_new ib3)
             else Inr (h1, ib3)) of
         Inl e \<Rightarrow> Inl e
       | Inr (header2, ib4) \<Rightarrow>
           (case ib_readBytes io ib4 (ib_bytesRemaining io ib4) of
              (_, payload, _) \<Rightarrow> Inr (Some ((RtpPacket_create header2)\<lparr>rp_rtpPayload := payload\<rparr>))))"
proof -
  let ?fs = "tl (rtp_fixed_fields h)"
  have len: "12 \<le> length buffer" using arg_cong [OF bits, of length] by simp
  have v: "unat (rh_uiVersion h) = 2" using ok by (simp add: header_ok_def)
  have b0: "ibits (ib_open io buffer) = to_bits 2 (unat (rh_uiVersion h)) @ fields_bits ?fs @
      fields_bits (csrc_fields cs) @ rest"
    using bits by (simp add: open_bits rtp_fixed_fields_def)
  obtain ib1 where r1: "ib_read io (ib_open io buffer) UINT_MAX 2 = (True, unat (rh_uiVersion h), ib1)"
    and b1: "ibits ib1 = fields_bits ?fs @ fields_bits (csrc_fields cs) @ rest"
    by (rule read_field [OF b0, of UINT_MAX]) (use v in simp_all)
  let ?olds = "[(UINT_MAX, 1), (UINT_MAX, 1), (UINT_MAX, 4), (UINT_MAX, 1), (UINT_MAX, 7),
      (UINT_MAX, 16), (UINT_MAX, 32), (UINT_MAX, 32)]"
  have w: "map snd ?olds = map snd ?fs" and f: "fields_ok ?fs"
    using ok by (simp_all add: rtp_fixed_fields_def header_ok_def)
  obtain ib2 where r2: "reads io ?olds ib1 = (map fst ?fs, ib2)"
    and b2: "ibits ib2 = fields_bits (csrc_fields cs) @ rest"
    by (rule reads_fields [OF w f b1])
  have w2: "map snd (replicate (length cs) (UINT_MAX, 32)) = map snd (csrc_fields cs)"
    by (simp add: csrc_fields_def map_replicate_const comp_def)
  obtain ib3 where r3: "reads io (replicate (length cs) (UINT_MAX, 32)) ib2 = (map fst (csrc_fields cs), ib3)"
    and b3: "ibits ib3 = rest"
    by (rule reads_fields [OF w2 fields_ok_csrc b2])
  show thesis
    by (rule that [OF b3])
      (use len r1 r2 r3 v cc in
        \<open>simp add: doDepacketise_def rtp_fixed_fields_def RTP_VERSION_NUMBER_def Let_def
           fold_addContributingSource i2b_of_bool h1_def RtpHeader_create_def\<close>)
qed

lemma read_payload:
  assumes "ibits ib = bytes_bits payload"
  shows "\<exists>ib'. ib_readBytes io ib (ib_bytesRemaining io ib) = (True, payload, ib')"
  using readBytes_bits [of ib payload "[]"] assms by (auto simp: bytesRemaining)

lemma doDepacketise_plain:
  assumes "bytes_bits buffer = fields_bits (rtp_fixed_fields h) @ fields_bits (csrc_fields cs) @ bytes_bits payload"
    and "header_ok h" and "unat (rh_uiCC h) = length cs" and "\<not> hasExtension h"
  shows "doDepacketise io buffer = Inr (Some ((RtpPacket_create
     ((RtpHeader_create (rh_bPadding h) (rh_bMarker h) (rh_uiPT h) (rh_uiSN h)
        (rh_uiRtpTimestamp h) (rh_uiSSRC h))\<lparr>rh_vCCs := cs\<rparr>))\<lparr>rp_rtpPayload := payload\<rparr>))"
proof -
  let ?h1 = "(RtpHeader_create (rh_bPadding h) (rh_bMarker h) (rh_uiPT h) (rh_uiSN h)
      (rh_uiRtpTimestamp h) (rh_uiSSRC h))\<lparr>rh_vCCs := cs\<rparr>"
  obtain ib3 where b3: "ibits ib3 = bytes_bits payload"
    and dep: "doDepacketise io buffer =
      (case ib_readBytes io ib3 (ib_bytesRemaining io ib3) of
         (_, payload, _) \<Rightarrow> Inr (Some ((RtpPacket_create ?h1)\<lparr>rp_rtpPayload := payload\<rparr>)))"
    by (rule doDepacketise_header [OF assms(1-3)]) (use assms(4) in simp)
  show ?thesis using dep read_payload [OF b3] by auto
qed

lemma doDepacketise_extension:
  assumes "bytes_bits buffer = fields_bits (rtp_fixed_fields h) @ fields_bits (csrc_fields cs) @
      ext_bits (rh_headerExtension h) @ bytes_bits payload"
    and "header_ok h" and "unat (rh_uiCC h) = length cs" and "hasExtension h"
  defines "x \<equiv> rh_headerExtension h"
  shows "doDepacketise io buffer = Inr (Some ((RtpPacket_create
     ((RtpHeader_create (rh_bPadding h) (rh_bMarker h) (rh_uiPT h) (rh_uiSN h)
        (rh_uiRtpTimestamp h) (rh_uiSSRC h))\<lparr>rh_vCCs := cs, rh_headerExtension :=
          RtpHeaderExtension_new\<lparr>hx_uiProfileDefined := ext_profile x,
            hx_uiExtensionLengthInWords := hx_uiExtensionLengthInWords (calculateExtensionProperties x),
            hx_vHeaderExtensions := hx_vHeaderExtensions x\<rparr>\<rparr>))\<lparr>rp_rtpPayload := payload\<rparr>))"
proof -
  have ok: "ext_ok x" using assms by (simp add: header_ok_def)
  have nil: "hx_vHeaderExtensions RtpHeaderExtension_new = []" by (simp add: RtpHeaderExtension_new_def)
  let ?h1 = "(RtpHeader_create (rh_bPadding h) (rh_bMarker h) (rh_uiPT h) (rh_uiSN h)
      (rh_uiRtpTimestamp h) (rh_uiSSRC h))\<lparr>rh_vCCs := cs\<rparr>"
  obtain ib3 where b3: "ibits ib3 = ext_bits x @ bytes_bits payload"
    and dep: "doDepacketise io buffer =
      (case map_sum (\<lambda>e. e) (\<lambda>(x, ib'). (?h1\<lparr>rh_headerExtension := x\<rparr>, ib'))
              (readExtensionData io RtpHeaderExtension_new ib3) of
         Inl e \<Rightarrow> Inl e
       | Inr (header2, ib4) \<Rightarrow>
           (case ib_readBytes io ib4 (ib_bytesRemaining io ib4) of
              (_, payload, _) \<Rightarrow> Inr (Some ((RtpPacket_create header2)\<lparr>rp_rtpPayload := payload\<rparr>))))"
    by (rule doDepacketise_header [OF assms(1-3)]) (use assms(4) in \<open>simp add: x_def\<close>)
  obtain ib4 where r4: "readExtensionData io RtpHeaderExtension_new ib3 =
      Inr (RtpHeaderExtension_new\<lparr>hx_uiProfileDefined := ext_profile x,
             hx_uiExtensionLengthInWords := hx_uiExtensionLengthInWords (calculateExtensionProperties x),
             hx_vHeaderExtensions := hx_vHeaderExtensions x\<rparr>, ib4)" and b4: "ibits ib4 = bytes_bits payload"
    using readExtensionData_roundtrip [OF ok b3, of RtpHeaderExtension_new] nil by auto
  show ?thesis using dep r4 read_payload [OF b4] by auto
qed

end

section \<open>Properties of the data path\<close>

lemma ext_elements_new [simp]: "hx_vHeaderExtensions RtpHeaderExtension_new = []"
  by (simp add: RtpHeaderExtension_new_def)

lemma hasExtension_simps [simp]:
  "hasExtension (RtpHeader_create a b c d e f) = False"
  by (simp add: hasExtension_def containsExtensions_def RtpHeader_create_def)

text \<open>A packet that another implementation has built, with a CC field that counts its CSRCs, is parsed with them.\<close>

lemma counted_packet_parsed:
  assumes "bit_stream io obits ibits" and "packet_ok p"
    and "unat (rh_uiCC (rp_header p)) = length (rh_vCCs (rp_header p))"
  shows "\<exists>bs p'. packetise io p = Inr bs \<and> of_nat (length bs) = fst (RtpPacket_getSize p)
    \<and> depacketise io bs t = Inr (Some p')
    \<and> rp_rtpPayload p' = rp_rtpPayload p \<and> rp_tNtpArrival p' = t
    \<and> hx_vHeaderExtensions (rh_headerExtension (rp_header p'))
        = hx_vHeaderExtensions (rh_headerExtension (rp_header p))
    \<and> (rp_header p')\<lparr>rh_headerExtension := rh_headerExtension (rp_header p)\<rparr>
        = (rp_header p)\<lparr>rh_uiCC := 0\<rparr>"
proof -
  let ?h = "rp_header p" and ?pl = "rp_rtpPayload p"
  have ok: "header_ok ?h" using assms(2) by (simp add: packet_ok_def)
  then have v: "rh_uiVersion ?h = RTP_VERSION_NUMBER" by (simp add: header_ok_def RTP_VERSION_NUMBER_def)
  obtain bs where pk: "packetise io p = Inr bs" and bits: "bytes_bits bs = header_bits ?h @ bytes_bits ?pl"
    using bit_stream.packetise_bytes [OF assms(1,2)] by blast
  have "length bs = header_size ?h + length ?pl"
    using arg_cong [OF bits, of length] RtpHeader_getSize_bytes(2) [OF ok] by simp
  then have size: "of_nat (length bs) = fst (RtpPacket_getSize p)"
    using RtpHeader_getSize_bytes(1) [OF ok] by (simp add: RtpPacket_getSize_def)
  show ?thesis
  proof (cases "hasExtension ?h")
    case True
    with bits have "bytes_bits bs = fields_bits (rtp_fixed_fields ?h) @ fields_bits (csrc_fields (rh_vCCs ?h)) @
        ext_bits (rh_headerExtension ?h) @ bytes_bits ?pl"
      by (simp add: header_bits_def ext_bytes_def)
    from bit_stream.doDepacketise_extension [OF assms(1) this ok assms(3) True]
    show ?thesis using pk size v by (simp add: depacketise_def RtpPacket_create_def RtpHeader_create_def)
  next
    case False
    with bits have "bytes_bits bs = fields_bits (rtp_fixed_fields ?h) @ fields_bits (csrc_fields (rh_vCCs ?h)) @
        bytes_bits ?pl"
      by (simp add: header_bits_def ext_bytes_def)
    from bit_stream.doDepacketise_plain [OF assms(1) this ok assms(3) False]
    show ?thesis using pk size v False
      by (simp add: depacketise_def RtpPacket_create_def RtpHeader_create_def hasExtension_def containsExtensions_def)
  qed
qed

definition sample_packet :: RtpPacket where
  "sample_packet = (RtpPacket_create (addRtpHeaderExtension \<lparr>he_uiId = 3, he_uiLength = 2, he_data = [7, 9]\<rparr>
     (RtpHeader_create False True 96 1234 90000 77)))\<lparr>rp_rtpPayload := [1, 2, 3]\<rparr>"

lemma sample_packet_ok: "packet_ok sample_packet" "rh_uiCC (rp_header sample_packet) = 0" "rh_vCCs (rp_header sample_packet) = []"
proof -
  have "ext_ok (rh_headerExtension (rp_header sample_packet))"
    by (simp add: sample_packet_def RtpPacket_create_def RtpHeader_create_def addRtpHeaderExtension_def
        addHeaderExtensions_def RtpHeaderExtension_new_def ext_ok_def effective_type_def one_byte_ok_def
        element_ok_def ext_total_def element_overhead_def)
  then have ok: "header_ok (rp_header sample_packet)"
    by (simp add: header_ok_def sample_packet_def RtpPacket_create_def RtpHeader_create_def RTP_VERSION_NUMBER_def
        addRtpHeaderExtension_def addHeaderExtensions_def RtpHeaderExtension_new_def)
  moreover have "header_size (rp_header sample_packet) = 20"
    by (simp add: header_size_def header_bits_def ext_bytes_def sample_packet_def RtpPacket_create_def
        RtpHeader_create_def addRtpHeaderExtension_def addHeaderExtensions_def RtpHeaderExtension_new_def
        hasExtension_def containsExtensions_def ext_bits_def calculateExtensionProperties_def effective_type_def
        Let_def one_byte_bits_def)
  ultimately show "packet_ok sample_packet"
    by (simp add: packet_ok_def) (simp add: sample_packet_def RtpPacket_create_def)
qed (simp_all add: sample_packet_def RtpPacket_create_def RtpHeader_create_def addRtpHeaderExtension_def)

lemma sample_packet_payload: "rp_rtpPayload sample_packet = [1, 2, 3]"
  by (simp add: sample_packet_def)

lemma uncounted_csrcs_parsed:
  assumes "bit_stream io obits ibits" and "packet_ok p"
    and "rh_uiCC (rp_header p) = 0" and "\<not> hasExtension (rp_header p)"
  shows "\<exists>bs p'. packetise io p = Inr bs \<and> of_nat (length bs) = fst (RtpPacket_getSize p)
    \<and> depacketise io bs t = Inr (Some p') \<and> rp_tNtpArrival p' = t
    \<and> bytes_bits (rp_rtpPayload p')
        = concat (map (\<lambda>c. to_bits 32 (unat c)) (rh_vCCs (rp_header p))) @ bytes_bits (rp_rtpPayload p)
    \<and> hx_vHeaderExtensions (rh_headerExtension (rp_header p')) = hx_vHeaderExtensions (rh_headerExtension (rp_header p))
    \<and> (rp_header p')\<lparr>rh_headerExtension := rh_headerExtension (rp_header p)\<rparr> = (rp_header p)\<lparr>rh_vCCs := []\<rparr>"
proof -
  let ?h = "rp_header p"
  have ok: "header_ok ?h" using assms(2) by (simp add: packet_ok_def)
  then have v: "rh_uiVersion ?h = RTP_VERSION_NUMBER" by (simp add: header_ok_def RTP_VERSION_NUMBER_def)
  obtain bs where pk: "packetise io p = Inr bs" and all: "bytes_bits bs = header_bits ?h @ bytes_bits (rp_rtpPayload p)"
    using bit_stream.packetise_bytes [OF assms(1,2)] by blast
  have bits: "bytes_bits bs = fields_bits (rtp_fixed_fields ?h) @ fields_bits (csrc_fields (rh_vCCs ?h)) @
      bytes_bits (rp_rtpPayload p)"
    using all assms(4) by (simp add: header_bits_def ext_bytes_def)
  have "length bs = header_size ?h + length (rp_rtpPayload p)"
    using arg_cong [OF all, of length] RtpHeader_getSize_bytes(2) [OF ok] by simp
  then have size: "of_nat (length bs) = fst (RtpPacket_getSize p)"
    using RtpHeader_getSize_bytes(1) [OF ok] by (simp add: RtpPacket_getSize_def)
  have pl: "bytes_bits (drop 12 bs) = fields_bits (csrc_fields (rh_vCCs ?h)) @ bytes_bits (rp_rtpPayload p)"
    using bits by (simp flip: drop_bytes_bits)
  have "bytes_bits bs = fields_bits (rtp_fixed_fields ?h) @ fields_bits (csrc_fields []) @ bytes_bits (drop 12 bs)"
    unfolding pl using bits by (simp add: csrc_fields_def)
  from bit_stream.doDepacketise_plain [OF assms(1) this ok _ assms(4)] show ?thesis
    using pk pl size v assms(3,4)
    by (simp add: depacketise_def RtpPacket_create_def RtpHeader_create_def csrc_fields_def fields_bits_def comp_def
        hasExtension_def containsExtensions_def)
qed

text \<open>The CC field of every header object is 0: the constructors set it, no operation changes it, and the parser keeps it so.\<close>

lemma header_cc_zero:
  "rh_uiCC (RtpHeader_create b m pt sn ts ssrc) = 0" "rh_uiCC (addContributingSource c h) = rh_uiCC h"
  "rh_uiCC (addRtpHeaderExtension e h) = rh_uiCC h"
  by (simp_all add: RtpHeader_create_def addContributingSource_def addRtpHeaderExtension_def)

lemma map_sum_cases: "map_sum f g x = (case x of Inl a \<Rightarrow> Inl (f a) | Inr b \<Rightarrow> Inr (g b))"
  by (cases x) simp_all

lemma depacketised_cc_zero: "doDepacketise io bs = Inr (Some p) \<Longrightarrow> rh_uiCC (rp_header p) = 0"
proof -
  have f: "rh_uiCC (fold (\<lambda>c. addContributingSource (of_nat c)) cs h) = rh_uiCC h" for cs :: "nat list" and h
    by (induction cs arbitrary: h) (simp_all add: header_cc_zero)
  assume "doDepacketise io bs = Inr (Some p)"
  then show ?thesis
    by (auto simp: doDepacketise_def Let_def f header_cc_zero RtpPacket_create_def map_sum_cases
        split: if_splits prod.splits sum.splits)
qed

text \<open>
  C4: Round trip of a data packet. A packet that fits the wire, with the CC field 0 that every header of the program
  has, is serialised without a fault into a buffer of exactly \<open>getSize()\<close> bytes, and
  \<open>depacketise\<close> of that buffer gives back every header field and the header
  extension elements, stamped with the arrival time of the network packet, and the payload. Contributing sources are written, but, as
  the CC field does not count them, come back as the first octets of the payload and not as CSRCs.
  A packet with both contributing sources and extension elements is left out.
\<close>

theorem rtp_packet_roundtrip:
  assumes "bit_stream io obits ibits" and "packet_ok p" and "rh_uiCC (rp_header p) = 0"
    and "rh_vCCs (rp_header p) = [] \<or> \<not> hasExtension (rp_header p)"
  shows "\<exists>bs p'. packetise io p = Inr bs \<and> of_nat (length bs) = fst (RtpPacket_getSize p)
    \<and> depacketise io bs t = Inr (Some p') \<and> rp_tNtpArrival p' = t
    \<and> (rh_vCCs (rp_header p) = [] \<longrightarrow> rp_rtpPayload p' = rp_rtpPayload p)
    \<and> bytes_bits (rp_rtpPayload p')
        = concat (map (\<lambda>c. to_bits 32 (unat c)) (rh_vCCs (rp_header p))) @ bytes_bits (rp_rtpPayload p)
    \<and> hx_vHeaderExtensions (rh_headerExtension (rp_header p')) = hx_vHeaderExtensions (rh_headerExtension (rp_header p))
    \<and> (rp_header p')\<lparr>rh_headerExtension := rh_headerExtension (rp_header p)\<rparr> = (rp_header p)\<lparr>rh_vCCs := []\<rparr>"
proof (cases "rh_vCCs (rp_header p) = []")
  case True
  have "unat (rh_uiCC (rp_header p)) = length (rh_vCCs (rp_header p))" using assms(3) True by simp
  from counted_packet_parsed [OF assms(1,2) this, of t] obtain bs p' where
    "packetise io p = Inr bs" "of_nat (length bs) = fst (RtpPacket_getSize p)" "depacketise io bs t = Inr (Some p')"
    "rp_rtpPayload p' = rp_rtpPayload p" "rp_tNtpArrival p' = t"
    "hx_vHeaderExtensions (rh_headerExtension (rp_header p')) = hx_vHeaderExtensions (rh_headerExtension (rp_header p))"
    and h: "(rp_header p')\<lparr>rh_headerExtension := rh_headerExtension (rp_header p)\<rparr> = (rp_header p)\<lparr>rh_uiCC := 0\<rparr>" by blast
  moreover have "(rp_header p)\<lparr>rh_uiCC := 0\<rparr> = (rp_header p)\<lparr>rh_vCCs := []\<rparr>" using assms(3) True by (cases "rp_header p") simp
  ultimately show ?thesis using True by (intro exI [of _ bs] exI [of _ p']) simp
next
  case False
  with assms(4) have n: "\<not> hasExtension (rp_header p)" by blast
  from uncounted_csrcs_parsed [OF assms(1-3) n, of t] show ?thesis using False by auto
qed

definition csrc_packet :: RtpPacket where
  "csrc_packet = (RtpPacket_create (addContributingSource 5 (RtpHeader_create False True 96 1234 90000 77)))
     \<lparr>rp_rtpPayload := [1]\<rparr>"

lemma csrc_packet_ok: "packet_ok csrc_packet" "rh_uiCC (rp_header csrc_packet) = 0" "\<not> hasExtension (rp_header csrc_packet)"
  "rh_vCCs (rp_header csrc_packet) = [5]" "rp_rtpPayload csrc_packet = [1]"
proof -
  note defs = csrc_packet_def RtpPacket_create_def RtpHeader_create_def addContributingSource_def
    RtpHeaderExtension_new_def hasExtension_def containsExtensions_def
  have h: "rh_uiCC (rp_header csrc_packet) = 0" "\<not> hasExtension (rp_header csrc_packet)"
    "header_ok (rp_header csrc_packet)" "rh_vCCs (rp_header csrc_packet) = [5]" "rp_rtpPayload csrc_packet = [1]"
    by (simp_all add: header_ok_def defs RTP_VERSION_NUMBER_def)
  then show "packet_ok csrc_packet"
    by (simp add: packet_ok_def header_size_def header_bits_def ext_bytes_def)
  show "rh_uiCC (rp_header csrc_packet) = 0" "\<not> hasExtension (rp_header csrc_packet)"
    "rh_vCCs (rp_header csrc_packet) = [5]" "rp_rtpPayload csrc_packet = [1]" by (rule h)+
qed

text \<open>A packet with an extension element, and one with a contributing source.\<close>

theorem rtp_packet_roundtrip_witness:
  "(\<exists>bs p'. packetise bitlist_io sample_packet = Inr bs \<and> depacketise bitlist_io bs 5 = Inr (Some p')
      \<and> rp_rtpPayload p' = [1, 2, 3]
      \<and> (rp_header p')\<lparr>rh_headerExtension := rh_headerExtension (rp_header sample_packet)\<rparr> = (rp_header sample_packet)\<lparr>rh_vCCs := []\<rparr>)
   \<and> (\<exists>bs p'. packetise bitlist_io csrc_packet = Inr bs \<and> depacketise bitlist_io bs 5 = Inr (Some p')
      \<and> bytes_bits (rp_rtpPayload p') = to_bits 32 5 @ bytes_bits [1]
      \<and> (rp_header p')\<lparr>rh_headerExtension := rh_headerExtension (rp_header csrc_packet)\<rparr> = (rp_header csrc_packet)\<lparr>rh_vCCs := []\<rparr>)"
proof
  show "\<exists>bs p'. packetise bitlist_io sample_packet = Inr bs \<and> depacketise bitlist_io bs 5 = Inr (Some p')
      \<and> rp_rtpPayload p' = [1, 2, 3]
      \<and> (rp_header p')\<lparr>rh_headerExtension := rh_headerExtension (rp_header sample_packet)\<rparr> = (rp_header sample_packet)\<lparr>rh_vCCs := []\<rparr>"
    using rtp_packet_roundtrip [OF bitlist.bit_stream_axioms sample_packet_ok(1,2) disjI1 [OF sample_packet_ok(3)], of 5] sample_packet_ok(3)
    by (auto simp: sample_packet_payload)
  show "\<exists>bs p'. packetise bitlist_io csrc_packet = Inr bs \<and> depacketise bitlist_io bs 5 = Inr (Some p')
      \<and> bytes_bits (rp_rtpPayload p') = to_bits 32 5 @ bytes_bits [1]
      \<and> (rp_header p')\<lparr>rh_headerExtension := rh_headerExtension (rp_header csrc_packet)\<rparr> = (rp_header csrc_packet)\<lparr>rh_vCCs := []\<rparr>"
    using rtp_packet_roundtrip [OF bitlist.bit_stream_axioms csrc_packet_ok(1,2) disjI2 [OF csrc_packet_ok(3)], of 5] csrc_packet_ok(4,5)
    by auto
qed

text \<open>
  C33: Which buffers are refused. \<open>doDepacketise\<close> returns the empty optional exactly for buffers of
  fewer than 12 bytes and for buffers whose first two bits are not version 2.
\<close>

theorem doDepacketise_rejects:
  assumes "bit_stream io obits ibits"
  shows "doDepacketise io buffer = Inr None \<longleftrightarrow> length buffer < 12 \<or> unat (hd buffer) div 64 \<noteq> 2"
proof (cases "length buffer < 12")
  case True
  then show ?thesis by (simp add: doDepacketise_def)
next
  case False
  obtain b bs where buf: "buffer = b # bs" using False by (cases buffer) auto
  have "take 2 (bytes_bits buffer) = to_bits 2 (unat b div 64)"
    using take_to_bits_high [of 2 6 "unat b"] buf by simp
  moreover have "2 \<le> length (ibits (ib_open io buffer))"
    using False by (simp add: bit_stream.open_bits [OF assms])
  moreover have "unat b div 64 < 4" using unat_u8 [of b] by linarith
  ultimately obtain ib1 where "ib_read io (ib_open io buffer) UINT_MAX 2 = (True, unat b div 64, ib1)"
    using bit_stream.read_ok [OF assms, of 2 "ib_open io buffer" UINT_MAX] bit_stream.open_bits [OF assms, of buffer]
    by auto
  then show ?thesis
    using False buf by (auto simp: doDepacketise_def RTP_VERSION_NUMBER_def Let_def split: prod.splits sum.splits)
qed

theorem doDepacketise_rejects_witness:
  "doDepacketise bitlist_io [0x40, 0, 0, 0, 0, 0, 0, 0, 0, 0, 0, 0, 0] = Inr None"
  using doDepacketise_rejects [OF bitlist.bit_stream_axioms, of "[0x40, 0, 0, 0, 0, 0, 0, 0, 0, 0, 0, 0, 0]"]
  by simp

text \<open>
  A truncated extension stops the receiver. If the X bit of a well-formed fixed header is set and
  fewer than four bytes follow the CSRCs, depacketising ends in a failing \<open>assert\<close>, not in the
  empty optional.
\<close>

theorem truncated_extension_asserts:
  assumes "bit_stream io obits ibits"
    and "bytes_bits buffer = fields_bits (rtp_fixed_fields h) @ fields_bits (csrc_fields (rh_vCCs h)) @ rest"
    and "header_ok h" and "unat (rh_uiCC h) = length (rh_vCCs h)" and "hasExtension h" and "length rest < 32"
  shows "doDepacketise io buffer = Inl Assertion_failed"
proof -
  obtain ib3 h1 where b3: "ibits ib3 = rest"
    and dep: "readExtensionData io RtpHeaderExtension_new ib3 = Inl Assertion_failed \<Longrightarrow>
      doDepacketise io buffer = Inl Assertion_failed"
    by (rule bit_stream.doDepacketise_header [OF assms(1-4)]) (use assms(5) in simp)
  have "readExtensionData io RtpHeaderExtension_new ib3 = Inl Assertion_failed"
  proof (cases "length rest < 16")
    case True
    then show ?thesis
      using bit_stream.read_fail [OF assms(1), of ib3 16 "unat (hx_uiProfileDefined RtpHeaderExtension_new)"] b3 by (auto simp: readExtensionData_def)
  next
    case False
    then obtain v ib4 where r: "ib_read io ib3 (unat (hx_uiProfileDefined RtpHeaderExtension_new)) 16 = (True, v, ib4)"
      and "ibits ib4 = drop 16 rest"
      using bit_stream.read_ok [OF assms(1), of 16 ib3] b3 by (metis not_less)
    moreover from this(2) have "length (ibits ib4) < 16" using assms(6) by auto
    ultimately show ?thesis
      using bit_stream.read_fail [OF assms(1), of ib4 16 "unat (hx_uiExtensionLengthInWords RtpHeaderExtension_new)"]
      by (auto simp: readExtensionData_def)
  qed
  then show ?thesis by (rule dep)
qed

theorem truncated_extension_asserts_witness:
  "doDepacketise bitlist_io [0x90, 96, 0, 1, 0, 0, 0, 2, 0, 0, 0, 3, 0xBE] = Inl Assertion_failed"
proof -
  let ?h = "addRtpHeaderExtension \<lparr>he_uiId = 1, he_uiLength = 1, he_data = [0]\<rparr> (RtpHeader_create False False 96 1 2 3)"
  note defs = addRtpHeaderExtension_def addHeaderExtensions_def RtpHeader_create_def RtpHeaderExtension_new_def
    hasExtension_def containsExtensions_def
  have "header_ok ?h"
    by (simp add: header_ok_def defs RTP_VERSION_NUMBER_def ext_ok_def effective_type_def one_byte_ok_def
        element_ok_def ext_total_def element_overhead_def)
  moreover have "bytes_bits [0x90, 96, 0, 1, 0, 0, 0, 2, 0, 0, 0, 3, 0xBE]
      = fields_bits (rtp_fixed_fields ?h) @ fields_bits (csrc_fields (rh_vCCs ?h)) @ bytes_bits [0xBE]"
    by (simp add: rtp_fixed_fields_def defs RTP_VERSION_NUMBER_def csrc_fields_def to_bits_numeral)
  ultimately show ?thesis
    using truncated_extension_asserts [OF bitlist.bit_stream_axioms, of _ ?h "bytes_bits [0xBE]"]
    by (simp add: defs)
qed

text \<open>
  The cached extension length goes stale. \<open>getSize\<close> computes the length in words only while it
  is zero, and adding an element does not reset it. If the cached length is below the length
  the elements now need, the buffer that \<open>packetise\<close> allocates is too small for what it writes.
\<close>

theorem stale_extension_length_overflows:
  assumes "bit_stream io obits ibits" and "header_ok ((rp_header p)\<lparr>rh_headerExtension := x\<rparr>)"
    and "rh_headerExtension (rp_header p) = x\<lparr>hx_uiExtensionLengthInWords := w\<rparr>"
    and "containsExtensions x" and "0 < w"
    and "w < hx_uiExtensionLengthInWords (calculateExtensionProperties x)"
    and "12 + 4 * length (rh_vCCs (rp_header p)) + 262144 + length (rp_rtpPayload p) < 4294967296"
  shows "packetise io p = Inl Buffer_overflow"
proof -
  let ?h = "rp_header p" and ?n = "length (rp_rtpPayload p)" and ?k = "length (rh_vCCs (rp_header p))"
  let ?g = "?h\<lparr>rh_headerExtension := x\<rparr>"
  define W where "W = unat (hx_uiExtensionLengthInWords (calculateExtensionProperties x))"
  have has: "hasExtension ?h" "hasExtension ?g"
    using assms(3,4) by (simp_all add: hasExtension_def containsExtensions_def)
  have size: "RtpPacket_getSize p = (of_nat (12 + 4 * ?k + (4 + 4 * unat w) + ?n), p\<lparr>rp_header := ?h\<rparr>)"
    using has assms(3,5) of_nat_unat [of w, where 'a = "32 word"]
    by (auto simp: RtpPacket_getSize_def RtpHeader_getSize_def RtpHeaderExtension_getSize_def Let_def
        MIN_RTP_HEADER_SIZE_def MIN_EXTENSION_HEADER_SIZE_def)
  have total: "unat (of_nat (12 + 4 * ?k + (4 + 4 * unat w) + ?n) :: u32) = 12 + 4 * ?k + (4 + 4 * unat w) + ?n"
    by (rule unat_of_nat_u32) (use assms(7) unat_u16 [of w] in linarith)
  have calc: "calculateExtensionProperties (x\<lparr>hx_uiExtensionLengthInWords := w\<rparr>) = calculateExtensionProperties x"
    by (simp add: calculateExtensionProperties_def Let_def cong: RtpHeaderExtensionType.case_cong)
  have same: "rtp_fixed_fields ?h = rtp_fixed_fields ?g"
      "snd (RtpHeader_write io ?h ob) = snd (RtpHeader_write io ?g ob)" for ob
    using has assms(3) calc
    by (simp_all add: rtp_fixed_fields_def RtpHeader_write_def writeExtensionData_def Let_def)
  have "length (header_bits ?g) = 8 * (12 + 4 * ?k + (4 + 4 * W))"
    using has assms(2) by (simp add: header_bits_def ext_bytes_def length_ext_bits header_ok_def W_def)
  then have used: "ob_bytesUsed io (snd (RtpHeader_write io ?h (ob_new io))) = 12 + 4 * ?k + (4 + 4 * W)"
    using bit_stream.RtpHeader_write_bits [OF assms(1,2)]
    by (simp add: same bit_stream.bytesUsed [OF assms(1)] bit_stream.new_bits [OF assms(1)])
  have fixed: "ob_bytesUsed io (writes io (rtp_fixed_fields ?h) (ob_new io)) = 12"
    using fields_ok_fixed [OF assms(2)] unfolding same(1)
    by (simp add: bit_stream.bytesUsed [OF assms(1)] bit_stream.new_bits [OF assms(1)]
        bit_stream.writes_bits [OF assms(1)])
  have "unat w < W" using assms(6) by (simp add: W_def word_less_nat_alt)
  then show ?thesis
    using total by (simp add: packetise_def size used fixed Let_def del: of_nat_add of_nat_mult of_nat_numeral)
qed

definition grown_packet :: RtpPacket where
  "grown_packet = (let e = \<lparr>he_uiId = 1, he_uiLength = 3, he_data = [1, 2, 3]\<rparr>;
       p0 = RtpPacket_create (addRtpHeaderExtension e (RtpHeader_create False True 96 1 2 3));
       p1 = snd (RtpPacket_getSize p0)
     in p1\<lparr>rp_header := addRtpHeaderExtension e (rp_header p1)\<rparr>)"

theorem stale_extension_length_overflows_witness:
  "packetise bitlist_io grown_packet = Inl Buffer_overflow"
proof -
  let ?x = "RtpHeaderExtension_new\<lparr>hx_vHeaderExtensions :=
      [\<lparr>he_uiId = 1, he_uiLength = 3, he_data = [1, 2, 3]\<rparr>, \<lparr>he_uiId = 1, he_uiLength = 3, he_data = [1, 2, 3]\<rparr>]\<rparr>"
  note defs = grown_packet_def RtpPacket_create_def RtpHeader_create_def addRtpHeaderExtension_def
    addHeaderExtensions_def RtpPacket_getSize_def RtpHeader_getSize_def RtpHeaderExtension_getSize_def
    calculateExtensionProperties_def RtpHeaderExtension_new_def hasExtension_def containsExtensions_def Let_def
  have ext: "rh_headerExtension (rp_header grown_packet) = ?x\<lparr>hx_uiExtensionLengthInWords := 1\<rparr>"
    by (simp add: defs PROFILE_ONE_BYTE_HEADER_def)
  have "header_ok ((rp_header grown_packet)\<lparr>rh_headerExtension := ?x\<rparr>)"
    by (simp add: defs header_ok_def RTP_VERSION_NUMBER_def ext_ok_def effective_type_def one_byte_ok_def
        element_ok_def ext_total_def element_overhead_def)
  from stale_extension_length_overflows [OF bitlist.bit_stream_axioms this ext] show ?thesis
    by (simp add: defs)
qed

text \<open>
  Resynchronisation after an extension. Whatever the bytes of the extension are, a successful
  \<open>readExtensionData\<close> leaves the stream exactly at the word after the announced length, so the
  payload starts where the sender put it; the one byte form never fails when those words
  are present.
\<close>

theorem extension_reader_consumes_announced_words:
  assumes "bit_stream io obits ibits"
    and "ibits ib = to_bits 16 (unat (p :: u16)) @ to_bits 16 (unat (w :: u16)) @ rest"
    and "32 * unat w \<le> length rest"
  shows "(\<forall>h' ib'. readExtensionData io h ib = Inr (h', ib') \<longrightarrow> ibits ib' = drop (32 * unat w) rest)
    \<and> (p = PROFILE_ONE_BYTE_HEADER \<longrightarrow> (\<exists>h' ib'. readExtensionData io h ib = Inr (h', ib')))"
proof (intro conjI allI impI)
  show "ibits ib' = drop (32 * unat w) rest" if "readExtensionData io h ib = Inr (h', ib')" for h' ib'
    by (rule bit_stream.readExtensionData_consumes [OF assms(1,2) _ _ assms(3) that]) simp_all
next
  assume one: "p = PROFILE_ONE_BYTE_HEADER"
  obtain ib1 where r1: "ib_read io ib (unat (hx_uiProfileDefined h)) 16 = (True, unat p, ib1)"
    and b1: "ibits ib1 = to_bits 16 (unat w) @ rest"
    by (rule bit_stream.read_field [OF assms(1,2)]) simp_all
  obtain ib2 where r2: "ib_read io ib1 (unat (hx_uiExtensionLengthInWords h)) 16 = (True, unat w, ib2)"
    and b2: "ibits ib2 = rest"
    by (rule bit_stream.read_field [OF assms(1) b1]) simp_all
  have "8 * (unat w * 4) \<le> length (ibits ib2)" using assms(3) b2 by simp
  from bit_stream.read_one_byte_elements_consumes [OF assms(1) this, of "hx_vHeaderExtensions h"]
  show "\<exists>h' ib'. readExtensionData io h ib = Inr (h', ib')"
    using r1 r2 one by (auto simp: readExtensionData_def Let_def)
qed

theorem extension_reader_consumes_announced_words_witness:
  "\<exists>h'. readExtensionData bitlist_io RtpHeaderExtension_new
          (bytes_bits [0xBE, 0xDE, 0, 1, 0xF7, 1, 2, 3] @ bytes_bits [42]) = Inr (h', bytes_bits [42])"
proof -
  let ?ib = "bytes_bits [0xBE, 0xDE, 0, 1, 0xF7, 1, 2, 3] @ bytes_bits [42]"
  have b: "?ib = to_bits 16 (unat (0xBEDE :: u16)) @ to_bits 16 (unat (1 :: u16)) @ bytes_bits [0xF7, 1, 2, 3, 42]"
    by (simp add: to_bits_numeral)
  have d: "drop (32 * unat (1 :: u16)) (bytes_bits [0xF7, 1, 2, 3, 42]) = bytes_bits [42]" by simp
  have th: "(\<forall>h' ib'. readExtensionData bitlist_io RtpHeaderExtension_new ?ib = Inr (h', ib') \<longrightarrow> ib' = bytes_bits [42])
      \<and> (\<exists>h' ib'. readExtensionData bitlist_io RtpHeaderExtension_new ?ib = Inr (h', ib'))"
    using extension_reader_consumes_announced_words [OF bitlist.bit_stream_axioms b, of RtpHeaderExtension_new] d
    by (simp add: PROFILE_ONE_BYTE_HEADER_def)
  then show ?thesis by blast
qed

end
