(* ===== verification/Loss_Estimator.thy ===== *)
theory Loss_Estimator
  imports Rtp_Prelude
begin

text \<open>
  The estimator of lost sequence numbers (\<open>LossEstimator.h\<close>) that every member entry feeds
  with the sequence numbers it receives. While the stream keeps within its limits it reports exactly the
  missing sequence numbers, each of them once, across wraps and with packets that arrive late or twice.
\<close>

section \<open>Model\<close>

definition MAX_DROPOUT :: nat where "MAX_DROPOUT = 3000"

definition MAX_MISORDER :: nat where "MAX_MISORDER = 100"

definition RTP_SEQ_MOD :: nat where "RTP_SEQ_MOD = 65536"

record LossEstimator =
  le_uiMax :: nat
  le_uiMaxSeq :: u16
  le_uiBadSN :: u32
  le_vSequenceNumbers :: "u16 list"
  le_vExpected :: "u16 set"

text \<open>\<open>m_uiMaxSeq\<close> and \<open>m_uiBadSN\<close> are not initialised; \<open>init\<close> sets them before they are read.\<close>

definition LossEstimator_new :: LossEstimator where
  "LossEstimator_new = \<lparr>le_uiMax = MAX_DROPOUT, le_uiMaxSeq = 0, le_uiBadSN = 0, le_vSequenceNumbers = [], le_vExpected = {}\<rparr>"

definition LossEstimator_clear :: "LossEstimator \<Rightarrow> LossEstimator" where
  "LossEstimator_clear e = e\<lparr>le_vSequenceNumbers := [], le_vExpected := {}\<rparr>"

definition LossEstimator_init :: "u16 \<Rightarrow> LossEstimator \<Rightarrow> LossEstimator" where
  "LossEstimator_init uiSN e =
     e\<lparr>le_vSequenceNumbers := le_vSequenceNumbers e @ [uiSN], le_vExpected := insert (uiSN + 1) (le_vExpected e),
       le_uiMaxSeq := uiSN, le_uiBadSN := - 1\<rparr>"

text \<open>The loop over the gap: \<open>uiMissing = m_uiMaxSeq + i\<close> for \<open>1 \<le> i < uiDelta\<close>.\<close>

definition insert_missing :: "u16 \<Rightarrow> u16 \<Rightarrow> u16 list \<Rightarrow> u16 set \<Rightarrow> u16 set" where
  "insert_missing uiMaxSeq uiDelta vSN vExpected =
     fold (\<lambda>i ex. let uiMissing = uiMaxSeq + of_nat i in if uiMissing \<in> set vSN then ex else insert uiMissing ex)
       [1..<unat uiDelta] vExpected"

definition addSequenceNumber :: "u16 \<Rightarrow> LossEstimator \<Rightarrow> LossEstimator" where
  "addSequenceNumber uiSN e =
     (if le_vSequenceNumbers e = [] then LossEstimator_init uiSN e
      else
        let vSN = (if length (le_vSequenceNumbers e) = le_uiMax e then tl (le_vSequenceNumbers e)
                   else le_vSequenceNumbers e) @ [uiSN];
            e1 = e\<lparr>le_vSequenceNumbers := vSN\<rparr>;
            uiDelta = uiSN - le_uiMaxSeq e
        in if unat uiDelta < MAX_DROPOUT
           then let ex1 = insert_missing (le_uiMaxSeq e) uiDelta vSN (le_vExpected e);
                    ex2 = ex1 - {uiSN};
                    uiNext = uiSN + 1;
                    ex3 = (if uiNext \<in> set vSN then ex2 else insert uiNext ex2)
                in e1\<lparr>le_vExpected := ex3, le_uiMaxSeq := uiSN\<rparr>
           else if unat uiDelta \<le> RTP_SEQ_MOD - MAX_MISORDER
           then (if ucast uiSN = le_uiBadSN e then LossEstimator_init uiSN e1
                 else e1\<lparr>le_uiBadSN := (ucast uiSN + 1) AND 0xFFFF\<rparr>)
           else e1\<lparr>le_vExpected := le_vExpected e - {uiSN}\<rparr>)"

text \<open>
  The candidates below the highest number received, in ascending order; when the window
  straddles the wrap the numbers are compared as signed ones. The last branch of the
  source fails an \<open>assert\<close>.
\<close>

definition copyLostSequenceNumbers :: "LossEstimator \<Rightarrow> fault + u16 list" where
  "copyLostSequenceNumbers e =
     (if le_vSequenceNumbers e = [] then Inr []
      else
        let vSN = le_vSequenceNumbers e; uiMin = Min (set vSN); uiMax = Max (set vSN)
        in if int (unat uiMax) - int (unat uiMin) > 32767
           then let iMax = Max (sint ` set vSN);
                    vSignedExpected = sorted_list_of_set (sint ` le_vExpected e)
                in Inr (map of_int (filter (\<lambda>iSN. iSN < iMax) vSignedExpected))
           else let vExpected = sorted_list_of_set (le_vExpected e)
                in if list_ex (\<lambda>uiSN. \<not> uiSN < uiMax \<and> int (unat uiSN) - int (unat uiMax) > 32767) vExpected
                   then Inl Assertion_failed
                   else Inr (filter (\<lambda>uiSN. uiSN < uiMax) vExpected))"

definition getEstimatedLostSequenceNumbers :: "LossEstimator \<Rightarrow> (fault + u16 list) \<times> LossEstimator" where
  "getEstimatedLostSequenceNumbers e =
     (case copyLostSequenceNumbers e of
        Inl f \<Rightarrow> (Inl f, e)
      | Inr vLost \<Rightarrow> (Inr vLost, e\<lparr>le_vExpected := le_vExpected e - set vLost\<rparr>))"

section \<open>The gap loop\<close>

lemma insert_missing_eq:
  "insert_missing m d vSN ex = ex \<union> ((\<lambda>i. m + of_nat i) ` {1..<unat d} - set vSN)"
proof -
  have "fold (\<lambda>i ex. let x = m + of_nat i in if x \<in> set vSN then ex else insert x ex) is ex
      = ex \<union> ((\<lambda>i. m + of_nat i) ` set is - set vSN)" for "is" ex
    by (induction "is" arbitrary: ex) (auto simp: Let_def)
  then show ?thesis by (simp add: insert_missing_def)
qed

section \<open>What is missing, over unbounded numbers\<close>

text \<open>
  The sender numbers its packets without bound; the wire carries the numbers modulo 65536. A number is
  acceptable after the highest one \<open>M\<close> when it is less than MAX_DROPOUT ahead or fewer than \<open>mm\<close> behind.
\<close>

definition acceptable :: "nat \<Rightarrow> nat \<Rightarrow> nat \<Rightarrow> bool" where
  "acceptable mm M n \<longleftrightarrow> (M \<le> n \<and> n < M + MAX_DROPOUT) \<or> (n < M \<and> M < n + mm)"

text \<open>
  The use of an estimator: a packet arrives, the lost numbers are asked for, the estimator is cleared.
\<close>

datatype loss_event = Received nat | Asked | Cleared

fun loss_run :: "loss_event list \<Rightarrow> LossEstimator \<Rightarrow> (fault + u16 list) list" where
  "loss_run [] e = []"
| "loss_run (Received n # es) e = loss_run es (addSequenceNumber (of_nat n) e)"
| "loss_run (Asked # es) e = (case getEstimatedLostSequenceNumbers e of (r, e') \<Rightarrow> r # loss_run es e')"
| "loss_run (Cleared # es) e = loss_run es (LossEstimator_clear e)"

definition highest :: "nat list \<Rightarrow> nat" where "highest ns = Max (set ns)"

text \<open>
  The numbers between the first one received and the highest one that did not arrive and were not reported yet,
  in ascending order, and the last 3000 numbers received.
\<close>

definition outstanding :: "nat list \<Rightarrow> nat set \<Rightarrow> nat list" where
  "outstanding ns told = (if ns = [] then [] else filter (\<lambda>k. k \<notin> set ns \<and> k \<notin> told) [hd ns..<highest ns])"

definition window :: "nat list \<Rightarrow> nat list" where
  "window ns = drop (length ns - MAX_DROPOUT) ns"

fun lost_reports :: "nat list \<Rightarrow> nat set \<Rightarrow> loss_event list \<Rightarrow> nat list list" where
  "lost_reports ns told [] = []"
| "lost_reports ns told (Received n # es) = lost_reports (ns @ [n]) told es"
| "lost_reports ns told (Asked # es) = outstanding ns told # lost_reports ns (told \<union> set (outstanding ns told)) es"
| "lost_reports ns told (Cleared # es) = lost_reports [] {} es"

text \<open>
  The limits of the estimator. A packet is acceptable with MAX_MISORDER, and what was received or is outstanding
  lies within 32767 of the highest number. The lost numbers are not asked for while the next number expected is
  the first of a cycle of 65536 numbers, nor when the last 3000 numbers hold neither the highest number nor, for some
  outstanding number, one of its cycle or of an earlier one.
\<close>

definition near :: "nat list \<Rightarrow> nat set \<Rightarrow> bool" where
  "near ns told \<longleftrightarrow> (\<forall>k\<in>set (window ns) \<union> set (outstanding ns told). highest ns \<le> k + 32767)"

definition tellable :: "nat list \<Rightarrow> nat set \<Rightarrow> bool" where
  "tellable ns told \<longleftrightarrow> highest ns mod 65536 \<noteq> 65535 \<and> highest ns \<in> set (window ns)
     \<and> (\<forall>k\<in>set (outstanding ns told). \<exists>w\<in>set (window ns). w div 65536 \<le> k div 65536)"

fun paced :: "nat list \<Rightarrow> nat set \<Rightarrow> loss_event list \<Rightarrow> bool" where
  "paced ns told [] \<longleftrightarrow> True"
| "paced ns told (Received n # es) \<longleftrightarrow>
     (ns = [] \<or> acceptable MAX_MISORDER (highest ns) n \<and> near (ns @ [n]) told) \<and> paced (ns @ [n]) told es"
| "paced ns told (Asked # es) \<longleftrightarrow>
     (ns = [] \<or> tellable ns told) \<and> paced ns (told \<union> set (outstanding ns told)) es"
| "paced ns told (Cleared # es) \<longleftrightarrow> paced [] {} es"

subsection \<open>Numbers and their residues\<close>

lemma of_nat_u16_eq_iff: "(of_nat a :: u16) = of_nat b \<longleftrightarrow> a mod 65536 = b mod 65536"
  by (simp add: word_of_nat_eq_iff take_bit_eq_mod)

lemma residues_eq:
  assumes "M \<le> a + 32767" and "M \<le> b + 32767" and "a \<le> M + 1" and "b \<le> M + 1"
  shows "(of_nat a :: u16) = of_nat b \<longleftrightarrow> a = b"
proof
  assume "(of_nat a :: u16) = of_nat b"
  then have "a mod 65536 = b mod 65536" by (simp only: of_nat_u16_eq_iff)
  then have "int a mod 65536 = int b mod 65536" by (metis of_nat_mod of_nat_numeral)
  then have "65536 dvd int a - int b" by (simp only: mod_eq_dvd_iff)
  moreover have "\<bar>int a - int b\<bar> < \<bar>65536\<bar>" using assms by linarith
  ultimately have "int a - int b = 0" using zdvd_not_zless by (meson dvd_imp_le_int linorder_not_less)
  then show "a = b" by simp
qed simp

lemma residues_diff:
  assumes "\<And>k. k \<in> A \<union> B \<Longrightarrow> M \<le> k + 32767 \<and> k \<le> M + 1"
  shows "(of_nat ` A :: u16 set) - of_nat ` B = of_nat ` (A - B)"
proof (intro equalityI subsetI)
  fix x :: u16 assume "x \<in> of_nat ` (A - B)"
  then obtain k where k: "x = of_nat k" "k \<in> A" "k \<notin> B" by (elim imageE DiffE)
  have n: "of_nat k \<noteq> (of_nat b :: u16)" if b: "b \<in> B" for b
  proof -
    have "M \<le> k + 32767" "k \<le> M + 1" "M \<le> b + 32767" "b \<le> M + 1" using assms k(2) b by simp_all
    then have "of_nat k = (of_nat b :: u16) \<longleftrightarrow> k = b" by (intro residues_eq)
    then show ?thesis using k(3) b by metis
  qed
  have "x \<in> of_nat ` A" unfolding k(1) using k(2) by (rule imageI)
  moreover have "x \<notin> of_nat ` B" unfolding k(1) using n by (metis imageE)
  ultimately show "x \<in> of_nat ` A - of_nat ` B" by (rule DiffI)
next
  fix x :: u16 assume "x \<in> of_nat ` A - of_nat ` B"
  then obtain k where "x = of_nat k" "k \<in> A" "x \<notin> of_nat ` B" by (elim imageE DiffE)
  then show "x \<in> of_nat ` (A - B)" by (metis DiffI imageI)
qed

lemma residues_remove:
  assumes "\<And>k. k \<in> insert n A \<Longrightarrow> M \<le> k + 32767 \<and> k \<le> M + 1"
  shows "(of_nat ` A :: u16 set) - {of_nat n} = of_nat ` (A - {n})"
  using residues_diff [of A "{n}" M] assms by auto

lemma residue_in:
  assumes "\<And>k. k \<in> A \<Longrightarrow> M \<le> k + 32767 \<and> k \<le> M + 1" and "M \<le> n + 32767" and "n \<le> M + 1"
  shows "(of_nat n :: u16) \<in> of_nat ` A \<longleftrightarrow> n \<in> A"
proof -
  have "of_nat n = (of_nat k :: u16) \<longleftrightarrow> n = k" if "k \<in> A" for k
    using residues_eq [of M n k] assms(1) [OF that] assms(2,3) by blast
  then show ?thesis by blast
qed

lemma sint_of_int_u16: "\<lbrakk>- (2 ^ 15) \<le> i; i < 2 ^ 15\<rbrakk> \<Longrightarrow> sint (of_int i :: u16) = i"
  by (simp add: signed_of_int signed_take_bit_int_eq_self)

lemma sint_residue:
  assumes "(B :: nat) mod 65536 = 0" and "B \<le> k + 32768" and "k < B + 32768"
  shows "sint (of_nat k :: u16) = int k - int B"
proof -
  have "(of_nat B :: u16) = 0" using assms(1) of_nat_u16_eq_iff [of B 0] by simp
  then have "(of_nat k :: u16) = of_int (int k - int B)" by simp
  moreover have "sint (of_int (int k - int B) :: u16) = int k - int B"
    by (rule sint_of_int_u16) (use assms in simp_all)
  ultimately show ?thesis by metis
qed

lemma mod_residue:
  assumes "(B :: nat) mod 65536 = 0" and "B \<le> k" and "k < B + 65536"
  shows "k mod 65536 = k - B"
proof -
  have "k mod 65536 = (k - B + B) mod 65536" using assms(2) by simp
  also have "\<dots> = (k - B) mod 65536" using assms(1) by (metis add.right_neutral mod_add_right_eq)
  finally show ?thesis using assms by simp
qed

lemma unat_residue:
  assumes "(B :: nat) mod 65536 = 0" and "B \<le> k" and "k < B + 65536"
  shows "unat (of_nat k :: u16) = k - B"
  using mod_residue [OF assms] by (simp add: unat_of_nat)

lemma sorted_list_of_mono_image:
  assumes "sorted_wrt (<) ns" and "\<And>a b. \<lbrakk>a \<in> set ns; b \<in> set ns; a < b\<rbrakk> \<Longrightarrow> f a < (f b :: 'a :: linorder)"
  shows "sorted_list_of_set (f ` set ns) = map f ns"
proof -
  have "sorted_wrt (<) (map f ns)"
    unfolding sorted_wrt_map by (rule sorted_wrt_mono_rel [OF _ assms(1)]) (rule assms(2))
  then have "sorted (map f ns)" "distinct (map f ns)" by (simp_all add: strict_sorted_iff)
  then show ?thesis using sorted_list_of_set.idem_if_sorted_distinct [of "map f ns"] by simp
qed

subsection \<open>What is outstanding\<close>

lemma highest_ge: "k \<in> set ns \<Longrightarrow> k \<le> highest ns"
  by (simp add: highest_def)

lemma highest_in: "ns \<noteq> [] \<Longrightarrow> highest ns \<in> set ns"
  by (simp add: highest_def)

lemma highest_snoc: "ns \<noteq> [] \<Longrightarrow> highest (ns @ [n]) = max (highest ns) n"
  by (simp add: highest_def max.commute)

lemma outstanding_less: "k \<in> set (outstanding ns told) \<Longrightarrow> k < highest ns"
  by (auto simp: outstanding_def split: if_splits)

lemma outstanding_ascending: "sorted_wrt (<) (outstanding ns told)"
  by (simp add: outstanding_def sorted_wrt_filter)

lemma outstanding_told: "outstanding ns (told \<union> set (outstanding ns told)) = []"
  by (auto simp: outstanding_def filter_empty_conv)

lemma outstanding_ahead:
  assumes "ns \<noteq> []" and "\<forall>k\<in>told. k < highest ns" and "highest ns \<le> n"
  shows "set (outstanding (ns @ [n]) told) = set (outstanding ns told) \<union> {highest ns<..<n}"
proof -
  let ?M = "highest ns"
  have h: "highest (ns @ [n]) = n" using assms by (simp add: highest_snoc)
  have hd: "hd ns \<le> ?M" using assms(1) by (simp add: highest_ge)
  have "k \<in> {hd ns..<n} \<and> k \<notin> set ns \<and> k \<noteq> n \<and> k \<notin> told
      \<longleftrightarrow> k \<in> {hd ns..<?M} \<and> k \<notin> set ns \<and> k \<notin> told \<or> k \<in> {?M<..<n}" for k
  proof (cases k ?M rule: linorder_cases)
    case less
    then show ?thesis using assms(3) by auto
  next
    case equal
    then show ?thesis using highest_in [OF assms(1)] by auto
  next
    case greater
    then show ?thesis using hd assms(2) highest_ge [of k ns] by auto
  qed
  moreover have "k \<in> set (outstanding (ns @ [n]) told) \<longleftrightarrow> k \<in> {hd ns..<n} \<and> k \<notin> set ns \<and> k \<noteq> n \<and> k \<notin> told" for k
    using assms(1) h by (simp add: outstanding_def conj_ac)
  moreover have "k \<in> set (outstanding ns told) \<longleftrightarrow> k \<in> {hd ns..<?M} \<and> k \<notin> set ns \<and> k \<notin> told" for k
    using assms(1) by (simp add: outstanding_def)
  ultimately show ?thesis by (intro set_eqI) (simp only: Un_iff)
qed

lemma outstanding_behind:
  assumes "ns \<noteq> []" and "n < highest ns"
  shows "set (outstanding (ns @ [n]) told) = set (outstanding ns told) - {n}"
  using assms by (auto simp: outstanding_def highest_snoc)

lemma window_snoc:
  "(if length (window ns) = MAX_DROPOUT then tl (window ns) else window ns) @ [n] = window (ns @ [n])"
proof (cases "length ns < MAX_DROPOUT")
  case True
  then show ?thesis by (simp add: window_def)
next
  case False
  then have "length ns - 2999 = Suc (length ns - 3000)" by (simp add: MAX_DROPOUT_def)
  with False show ?thesis by (simp add: window_def MAX_DROPOUT_def drop_Suc tl_drop)
qed

lemma window_subset: "set (window ns) \<subseteq> set ns"
  by (simp add: window_def set_drop_subset)

lemma window_empty: "window ns = [] \<longleftrightarrow> ns = []"
  by (cases ns) (auto simp: window_def MAX_DROPOUT_def)

subsection \<open>The estimator follows the unbounded numbers\<close>

definition follows :: "nat list \<Rightarrow> nat set \<Rightarrow> LossEstimator \<Rightarrow> bool" where
  "follows ns told e \<longleftrightarrow> le_uiMax e = MAX_DROPOUT \<and> le_vSequenceNumbers e = map of_nat (window ns)
     \<and> (if ns = [] then le_vExpected e = {} \<and> told = {}
        else le_uiMaxSeq e = of_nat (highest ns) \<and> (\<forall>k\<in>told. k < highest ns)
          \<and> le_vExpected e = of_nat ` insert (highest ns + 1) (set (outstanding ns told)))"

lemma follows_first:
  assumes "follows [] told e"
  shows "follows [n] told (addSequenceNumber (of_nat n) e)"
  using assms by (simp add: follows_def window_def addSequenceNumber_def LossEstimator_init_def highest_def outstanding_def
      MAX_DROPOUT_def add.commute)

lemma follows_window:
  assumes "follows ns told e" and "ns \<noteq> []"
  shows "(if length (le_vSequenceNumbers e) = le_uiMax e then tl (le_vSequenceNumbers e) else le_vSequenceNumbers e) @ [of_nat n]
      = map of_nat (window (ns @ [n]))" "le_vSequenceNumbers e \<noteq> []"
  using assms by (simp_all add: follows_def window_snoc [symmetric] map_tl window_empty)

lemma near_bounds:
  assumes "near ns told" and "k \<in> set (window ns) \<union> set (outstanding ns told) \<union> {highest ns, highest ns + 1}"
  shows "highest ns \<le> k + 32767 \<and> k \<le> highest ns + 1"
proof -
  have "k \<le> highest ns + 1"
    using assms(2) window_subset [of ns] highest_ge [of k ns] outstanding_less [of k ns told] by auto
  moreover have "highest ns \<le> k + 32767" using assms by (auto simp: near_def)
  ultimately show ?thesis by simp
qed

lemma follows_ahead:
  assumes fo: "follows ns told e" and ne: "ns \<noteq> []" and ge: "highest ns \<le> n" and gap: "n < highest ns + MAX_DROPOUT"
    and near: "near (ns @ [n]) told"
  shows "follows (ns @ [n]) told (addSequenceNumber (of_nat n) e)"
proof -
  let ?M = "highest ns" and ?O = "set (outstanding ns told)" and ?W = "map of_nat (window (ns @ [n])) :: u16 list"
  have h: "highest (ns @ [n]) = n" using ne ge by (simp add: highest_snoc)
  have told: "\<forall>k\<in>told. k < ?M" and seq: "le_uiMaxSeq e = of_nat ?M"
    and ex: "le_vExpected e = of_nat ` insert (?M + 1) ?O" using fo ne by (simp_all add: follows_def)
  note O = outstanding_ahead [OF ne told ge]
  have nb: "n \<le> k + 32767 \<and> k \<le> n + 1" if "k \<in> set (window (ns @ [n])) \<union> set (outstanding (ns @ [n]) told) \<union> {n, n + 1}" for k
    using near_bounds [OF near, of k] that unfolding h .
  have win: "k \<le> n" "k \<le> ?M \<or> k = n" if "k \<in> set (window (ns @ [n]))" for k
    using subsetD [OF window_subset that] highest_ge [of k ns] ge by auto
  have delta: "of_nat n - le_uiMaxSeq e = of_nat (n - ?M)" using seq ge by (simp add: of_nat_diff)
  have ud: "unat (of_nat (n - ?M) :: u16) = n - ?M" by (rule unat_of_nat_u16) (use gap in \<open>simp add: MAX_DROPOUT_def\<close>)
  have shift: "(\<lambda>i. of_nat ?M + of_nat i :: u16) ` {1..<n - ?M} = of_nat ` {?M<..<n}"
  proof -
    have "{?M<..<n} = (\<lambda>i. ?M + i) ` {1..<n - ?M}"
      by (auto simp: image_iff intro!: bexI [of _ "_ - ?M"])
    then show ?thesis by (simp only: image_image of_nat_add)
  qed
  have "(of_nat ` {?M<..<n} :: u16 set) - set ?W = of_nat ` ({?M<..<n} - set (window (ns @ [n])))"
    unfolding set_map by (rule residues_diff [where M = n]) (use nb O in blast)
  moreover have "{?M<..<n} - set (window (ns @ [n])) = {?M<..<n}" using win by fastforce
  ultimately have "insert_missing (le_uiMaxSeq e) (of_nat (n - ?M)) ?W (le_vExpected e)
      = of_nat ` (insert (?M + 1) ?O \<union> {?M<..<n})"
    unfolding insert_missing_eq ud seq shift ex by (simp only: image_Un)
  moreover have "(of_nat ` (insert (?M + 1) ?O \<union> {?M<..<n}) :: u16 set) - {of_nat n}
      = of_nat ` (insert (?M + 1) ?O \<union> {?M<..<n} - {n})"
    by (rule residues_remove [where M = n]) (use nb O ge gap in \<open>auto simp: MAX_DROPOUT_def\<close>)
  ultimately have rest: "insert_missing (le_uiMaxSeq e) (of_nat (n - ?M)) ?W (le_vExpected e) - {of_nat n}
      = of_nat ` (insert (?M + 1) ?O \<union> {?M<..<n} - {n})" (is "?A = _") by (simp only:)
  define E where "E = (of_nat ` insert (n + 1) (?O \<union> {?M<..<n}) :: u16 set)"
  have "insert (n + 1) (insert (?M + 1) ?O \<union> {?M<..<n} - {n}) = insert (n + 1) (?O \<union> {?M<..<n})"
    using ge outstanding_less [of n ns told] by auto
  then have E: "insert (of_nat n + 1) ?A = E"
    unfolding rest E_def by (metis image_insert of_nat_add of_nat_1)
  have nxt: "of_nat n + 1 \<notin> set ?W"
  proof -
    have "(of_nat (n + 1) :: u16) \<in> of_nat ` set (window (ns @ [n])) \<longleftrightarrow> n + 1 \<in> set (window (ns @ [n]))"
      by (rule residue_in [where M = n]) (use nb in simp_all)
    moreover have "n + 1 \<notin> set (window (ns @ [n]))" using win(1) [of "n + 1"] by linarith
    ultimately show ?thesis unfolding set_map by (simp add: add.commute)
  qed
  have small: "n - ?M < MAX_DROPOUT" using gap ge by (simp add: MAX_DROPOUT_def)
  have "addSequenceNumber (of_nat n) e = e\<lparr>le_vSequenceNumbers := ?W, le_vExpected := E, le_uiMaxSeq := of_nat n\<rparr>"
    unfolding addSequenceNumber_def Let_def follows_window(1) [OF fo ne, of n] delta ud E
    using follows_window(2) [OF fo ne] nxt small by (simp only: if_False if_True simp_thms)
  then show ?thesis using fo h told ge O unfolding follows_def E_def by auto
qed

lemma follows_behind:
  assumes fo: "follows ns told e" and ne: "ns \<noteq> []" and lt: "n < highest ns" and late: "highest ns < n + MAX_MISORDER"
    and near: "near (ns @ [n]) told"
  shows "follows (ns @ [n]) told (addSequenceNumber (of_nat n) e)"
proof -
  let ?M = "highest ns" and ?O = "set (outstanding ns told)"
  have h: "highest (ns @ [n]) = ?M" using ne lt by (simp add: highest_snoc)
  have told: "\<forall>k\<in>told. k < ?M" and seq: "le_uiMaxSeq e = of_nat ?M"
    and ex: "le_vExpected e = of_nat ` insert (?M + 1) ?O" using fo ne by (simp_all add: follows_def)
  note O = outstanding_behind [OF ne lt, of told]
  have nb: "?M \<le> k + 32767 \<and> k \<le> ?M + 1" if "k \<in> set (outstanding (ns @ [n]) told) \<union> {?M, ?M + 1}" for k
    using near_bounds [OF near, of k] that unfolding h by blast
  have nn: "?M \<le> n + 32767" "n \<le> ?M + 1" using lt late by (simp_all add: MAX_MISORDER_def)
  have "(of_nat (65536 - (?M - n)) :: u16) = of_nat 65536 - of_nat (?M - n)"
    using late by (intro of_nat_diff) (simp add: MAX_MISORDER_def)
  then have "(of_nat n :: u16) - of_nat ?M = of_nat (65536 - (?M - n))" using lt by (simp add: of_nat_diff)
  moreover have "unat (of_nat (65536 - (?M - n)) :: u16) = 65536 - (?M - n)" using lt by (intro unat_of_nat_u16) simp
  ultimately have ud: "unat (of_nat n - le_uiMaxSeq e) = 65536 - (?M - n)" unfolding seq by metis
  define E where "E = (of_nat ` insert (?M + 1) (?O - {n}) :: u16 set)"
  have "insert (?M + 1) ?O - {n} = insert (?M + 1) (?O - {n})" using lt by auto
  then have "le_vExpected e - {of_nat n} = E"
    unfolding ex E_def by (subst residues_remove [where M = ?M]) (use nb O nn in \<open>blast | simp\<close>)+
  then have "addSequenceNumber (of_nat n) e = e\<lparr>le_vSequenceNumbers := map of_nat (window (ns @ [n])), le_vExpected := E\<rparr>"
    using follows_window(1) [OF fo ne, of n] follows_window(2) [OF fo ne] lt late
    unfolding addSequenceNumber_def Let_def ud
    by (simp add: MAX_DROPOUT_def MAX_MISORDER_def RTP_SEQ_MOD_def)
  then show ?thesis using fo h told ne O unfolding follows_def E_def by simp
qed

lemma follows_received:
  assumes "follows ns told e" and "ns = [] \<or> acceptable MAX_MISORDER (highest ns) n \<and> near (ns @ [n]) told"
  shows "follows (ns @ [n]) told (addSequenceNumber (of_nat n) e)"
  using follows_first follows_ahead follows_behind assms unfolding acceptable_def by (cases "ns = []") auto

subsection \<open>What is reported\<close>

text \<open>
  With all of the window in the cycle of the highest number the numbers are compared as unsigned ones, else as signed
  ones. \<open>B\<close> is the first number of the cycle.
\<close>

lemma lost_in_one_cycle:
  assumes fo: "follows ns told e" and ne: "ns \<noteq> []" and near: "near ns told" and tell: "tellable ns told"
    and B: "B mod 65536 = 0" "B \<le> highest ns" "highest ns < B + 65536" and one: "\<forall>w\<in>set (window ns). B \<le> w"
  shows "copyLostSequenceNumbers e = Inr (map of_nat (outstanding ns told))"
proof -
  let ?M = "highest ns" and ?O = "outstanding ns told"
  let ?vs = "map of_nat (window ns) :: u16 list"
  have vs: "le_vSequenceNumbers e = ?vs" and ex: "le_vExpected e = of_nat ` set (?O @ [?M + 1])"
    using fo ne by (simp_all add: follows_def)
  have top: "?M + 1 < B + 65536" 
  proof -
    have "?M - B \<noteq> 65535" using mod_residue [OF B] tell unfolding tellable_def by metis
    then show ?thesis using B(2,3) by linarith
  qed
  have ob: "B \<le> k" if k: "k \<in> set ?O" for k
  proof -
    obtain w where "w \<in> set (window ns)" "w div 65536 \<le> k div 65536" using tell k unfolding tellable_def by blast
    then have "B div 65536 \<le> k div 65536" using one by (meson div_le_mono order_trans)
    then have "B div 65536 * 65536 \<le> k" by (meson div_times_less_eq_dividend mult_le_mono1 order_trans)
    then show ?thesis using B(1) div_mult_mod_eq [of B 65536] by linarith
  qed
  have ub: "unat (of_nat k :: u16) = k - B" if "B \<le> k" "k \<le> ?M + 1" for k
    using B(1) that top by (intro unat_residue) simp_all
  have mono: "(of_nat a :: u16) < of_nat b \<longleftrightarrow> a < b" if "B \<le> a" "B \<le> b" "a \<le> ?M + 1" "b \<le> ?M + 1" for a b
    using that ub by (simp add: word_less_nat_alt del: unat_of_nat) linarith
  have win: "B \<le> w" "w \<le> ?M" "?M \<le> w + 32767" if "w \<in> set (window ns)" for w
    using that one subsetD [OF window_subset that] highest_ge near by (auto simp: near_def)
  have max: "Max (set ?vs) = of_nat ?M"
  proof (rule Max_eqI)
    fix x :: u16 assume "x \<in> set ?vs"
    then obtain w where x: "x = of_nat w" "w \<in> set (window ns)" by auto
    show "x \<le> of_nat ?M"
      using ub [of w] ub [of ?M] win [OF x(2)] B(2) unfolding x(1) word_le_nat_alt by linarith
  qed (use tell in \<open>auto simp: tellable_def\<close>)
  have "Min (set ?vs) \<in> set ?vs" by (intro Min_in) (use ne window_empty [of ns] in auto)
  then obtain w where w: "w \<in> set (window ns)" "Min (set ?vs) = of_nat w" by auto
  have "unat (Max (set ?vs)) = ?M - B" "unat (Min (set ?vs)) = w - B"
    unfolding max w(2) using win [OF w(1)] B(2) by (simp_all add: ub del: unat_of_nat)
  then have small: "\<not> int (unat (Max (set ?vs))) - int (unat (Min (set ?vs))) > 32767" using win [OF w(1)] by linarith
  have sl: "sorted_list_of_set (le_vExpected e) = map of_nat ?O @ [of_nat (?M + 1)]"
  proof -
    have "sorted_wrt (<) (?O @ [?M + 1])"
      using outstanding_ascending outstanding_less [of _ ns told] by (fastforce simp: sorted_wrt_append)
    moreover have mb: "B \<le> k \<and> k \<le> ?M + 1" if "k \<in> set (?O @ [?M + 1])" for k
      using that ob [of k] outstanding_less [of k ns told] B(2) by auto
    moreover have "(of_nat a :: u16) < of_nat b" if "a \<in> set (?O @ [?M + 1])" "b \<in> set (?O @ [?M + 1])" "a < b" for a b
      using mb [OF that(1)] mb [OF that(2)] that(3) mono by blast
    ultimately have "sorted_list_of_set (of_nat ` set (?O @ [?M + 1]) :: u16 set) = map of_nat (?O @ [?M + 1])"
      by (intro sorted_list_of_mono_image)
    then show ?thesis unfolding ex by simp
  qed
  have low: "(of_nat k :: u16) < of_nat ?M" if "k \<in> set ?O" for k
    using mono [of k ?M] ob [OF that] outstanding_less [OF that] B(2) by simp
  have "\<not> (of_nat (?M + 1) :: u16) < of_nat ?M" "\<not> int (unat (of_nat (?M + 1) :: u16)) - int (unat (of_nat ?M :: u16)) > 32767"
    using mono [of "?M + 1" ?M] ub [of ?M] ub [of "?M + 1"] B(2) by (simp_all del: unat_of_nat of_nat_add of_nat_Suc)
  then show ?thesis
    using small low window_empty [of ns] ne unfolding copyLostSequenceNumbers_def Let_def sl vs max
    by (auto simp: list_ex_iff filter_id_conv simp del: unat_of_nat of_nat_add of_nat_Suc)
qed

lemma lost_across_cycles:
  assumes fo: "follows ns told e" and ne: "ns \<noteq> []" and near: "near ns told" and tell: "tellable ns told"
    and B: "B mod 65536 = 0" "B \<le> highest ns" "highest ns < B + 65536" and old: "v \<in> set (window ns)" "v < B"
  shows "copyLostSequenceNumbers e = Inr (map of_nat (outstanding ns told))"
proof -
  let ?M = "highest ns" and ?O = "outstanding ns told"
  let ?vs = "map of_nat (window ns) :: u16 list"
  have vs: "le_vSequenceNumbers e = ?vs" and ex: "le_vExpected e = of_nat ` set (?O @ [?M + 1])"
    using fo ne by (simp_all add: follows_def)
  have nb: "?M \<le> k + 32767 \<and> k \<le> ?M + 1" if "k \<in> set (window ns) \<union> set ?O \<union> {?M, ?M + 1}" for k
    by (rule near_bounds [OF near that])
  have vM: "?M \<le> v + 32767" using nb [of v] old(1) by simp
  have sb: "sint (of_nat k :: u16) = int k - int B" if "k \<in> set (window ns) \<union> set ?O \<union> {?M, ?M + 1}" for k
    by (rule sint_residue [OF B(1)]) (use nb [OF that] vM old(2) B(2) in linarith)+
  have max: "Max (sint ` set ?vs) = int ?M - int B"
  proof (rule Max_eqI)
    show "y \<le> int ?M - int B" if "y \<in> sint ` set ?vs" for y
      using that sb subsetD [OF window_subset] highest_ge [of _ ns] by fastforce
    have "?M \<in> set (window ns)" using tell by (simp add: tellable_def)
    then show "int ?M - int B \<in> sint ` set ?vs" using sb [of ?M] by (metis UnI1 image_eqI set_map)
  qed simp
  have big: "int (unat (Max (set ?vs))) - int (unat (Min (set ?vs))) > 32767"
  proof -
    have "65536 \<le> B" using B(1) old(2) by (metis add_0 gr0_implies_Suc less_nat_zero_code linorder_not_less mod_less zero_less_iff_neq_zero)
    then have "unat (of_nat v :: u16) = v + 65536 - B"
      using unat_residue [of "B - 65536" v] B(1) old(2) vM B(2) by (simp add: le_mod_geq)
    moreover have "unat (of_nat ?M :: u16) = ?M - B" by (rule unat_residue [OF B])
    moreover have "of_nat v \<le> Max (set ?vs)" "Min (set ?vs) \<le> of_nat ?M"
      using old(1) tell by (auto simp: tellable_def)
    ultimately show ?thesis using vM old(2) B(2) unfolding word_le_nat_alt by linarith
  qed
  have sl: "sorted_list_of_set (sint ` le_vExpected e) = map (\<lambda>k. int k - int B) (?O @ [?M + 1])"
  proof -
    have "sint ` le_vExpected e = (\<lambda>k. int k - int B) ` set (?O @ [?M + 1])"
      unfolding ex image_image by (rule image_cong [OF refl], rule sb) auto
    moreover have "sorted_wrt (<) (?O @ [?M + 1])"
      using outstanding_ascending outstanding_less [of _ ns told] by (fastforce simp: sorted_wrt_append)
    ultimately show ?thesis by (simp only:) (rule sorted_list_of_mono_image, simp_all)
  qed
  have "(of_nat B :: u16) = 0" using B(1) of_nat_u16_eq_iff [of B 0] by simp
  then have uns: "(of_int (int k - int B) :: u16) = of_nat k" for k by simp
  have "filter (\<lambda>i. i < int ?M - int B) (map (\<lambda>k. int k - int B) (?O @ [?M + 1])) = map (\<lambda>k. int k - int B) ?O"
    using outstanding_less [of _ ns told] by (auto simp: filter_id_conv)
  then have "map of_int (filter (\<lambda>i. i < int ?M - int B) (map (\<lambda>k. int k - int B) (?O @ [?M + 1]))) = (map of_nat ?O :: u16 list)"
    by (simp only: list.map_comp o_def uns)
  then show ?thesis
    using big window_empty [of ns] ne unfolding copyLostSequenceNumbers_def Let_def sl vs max by simp
qed

lemma follows_asked:
  assumes fo: "follows ns told e" and near: "near ns told" and tell: "ns = [] \<or> tellable ns told"
  shows "fst (getEstimatedLostSequenceNumbers e) = Inr (map of_nat (outstanding ns told))
    \<and> follows ns (told \<union> set (outstanding ns told)) (snd (getEstimatedLostSequenceNumbers e))"
proof (cases "ns = []")
  case True
  then show ?thesis
    using fo by (simp add: follows_def getEstimatedLostSequenceNumbers_def copyLostSequenceNumbers_def outstanding_def window_def)
next
  case False
  let ?M = "highest ns" and ?O = "set (outstanding ns told)"
  define B where "B = highest ns div 65536 * 65536"
  have B: "B mod 65536 = 0" "B \<le> ?M" "?M < B + 65536" unfolding B_def by (simp_all add: div_mod_decomp) 
  have t: "tellable ns told" using False tell by simp
  have lost: "copyLostSequenceNumbers e = Inr (map of_nat (outstanding ns told))"
    using lost_in_one_cycle [OF fo False near t B] lost_across_cycles [OF fo False near t B] by (meson linorder_not_less)
  have "le_vExpected e - of_nat ` ?O = {of_nat (?M + 1)}"
  proof -
    have "le_vExpected e = of_nat ` insert (?M + 1) ?O" using fo False by (simp add: follows_def)
    moreover have "(of_nat ` insert (?M + 1) ?O :: u16 set) - of_nat ` ?O = of_nat ` (insert (?M + 1) ?O - ?O)"
      by (rule residues_diff [where M = ?M], rule near_bounds [OF near]) auto
    moreover have "insert (?M + 1) ?O - ?O = {?M + 1}" using outstanding_less [of "?M + 1" ns told] by auto
    ultimately show ?thesis by simp
  qed
  moreover have "\<forall>k\<in>told \<union> ?O. k < ?M" using fo False outstanding_less [of _ ns told] by (auto simp: follows_def)
  ultimately show ?thesis
    using fo False lost outstanding_told [of ns told] unfolding getEstimatedLostSequenceNumbers_def follows_def by simp
qed

lemma near_asked: "near ns told \<Longrightarrow> near ns (told \<union> set (outstanding ns told))"
  by (simp add: near_def outstanding_told)

lemma loss_run_reports:
  assumes "follows ns told e" and "ns \<noteq> [] \<Longrightarrow> near ns told" and "paced ns told es"
  shows "loss_run es e = map (\<lambda>ks. Inr (map of_nat ks)) (lost_reports ns told es)"
  using assms
proof (induction ns told es arbitrary: e rule: paced.induct)
  case (2 ns told n es)
  have "near (ns @ [n]) told"
  proof (cases "ns = []")
    case True
    then show ?thesis using 2(2) by (simp add: near_def window_def outstanding_def highest_def follows_def MAX_DROPOUT_def)
  next
    case False
    then show ?thesis using 2(4) by simp
  qed
  then show ?case using 2(1) [OF follows_received [OF 2(2)]] 2(4) by simp
next
  case (3 ns told es)
  obtain r e' where g: "getEstimatedLostSequenceNumbers e = (r, e')" by force
  have "r = Inr (map of_nat (outstanding ns told)) \<and> follows ns (told \<union> set (outstanding ns told)) e'"
  proof (cases "ns = []")
    case True
    then show ?thesis
      using 3(2) g by (auto simp: follows_def getEstimatedLostSequenceNumbers_def copyLostSequenceNumbers_def outstanding_def window_def)
  next
    case False
    then show ?thesis using follows_asked [OF 3(2) 3(3)] 3(4) g by simp
  qed
  then show ?case using 3(1) [of e'] 3(3,4) near_asked g by simp
next
  case (4 ns told es)
  have "follows [] {} (LossEstimator_clear e)" using 4(2) by (simp add: follows_def LossEstimator_clear_def window_def)
  then show ?case using 4 by simp
qed simp

text \<open>
  C17: Exactness of the loss estimator. Packets numbered without bound are received in any order and any number of
  times, the lost ones are asked for again and again, and the estimator may be cleared in between. While the
  limits hold, each answer consists of the residues of exactly the numbers between the first and the highest one received
  that have not arrived and were not in an earlier answer, in the order of the unbounded numbers, over any number of wraps,
  and no assertion fails. The limits are those of \<open>paced\<close>: every packet is fewer than 3000 ahead of the
  highest number or fewer than 100 behind it, what was received or is outstanding is at most 32767 behind, and the lost numbers are
  not asked for in the situations that the lemmas after this one show to go wrong.
\<close>

theorem loss_estimator_exact:
  assumes "paced [] {} es"
  shows "loss_run es LossEstimator_new = map (\<lambda>ks. Inr (map of_nat ks)) (lost_reports [] {} es)"
  by (rule loss_run_reports [OF _ _ assms]) (simp_all add: follows_def LossEstimator_new_def window_def)

text \<open>
  65535 and 65536 are missing when 65537 arrives; 65535 comes late. The answers are 0, which is 65536, and
  later 2 and 3, which are 65538 and 65539. Then another stream begins.
\<close>

theorem loss_estimator_exact_witness:
  "loss_run [Received 65534, Received 65537, Received 65535, Asked, Received 65540, Received 65540, Asked, Asked,
     Cleared, Received 10, Received 12, Asked] LossEstimator_new = [Inr [0], Inr [2, 3], Inr [], Inr [11]]"
proof -
  let ?es = "[Received 65534, Received 65537, Received 65535, Asked, Received 65540, Received 65540, Asked, Asked,
     Cleared, Received 10, Received 12, Asked]"
  have "paced [] {} ?es"
    by (simp add: acceptable_def near_def tellable_def window_def outstanding_def highest_def upt_rec
        MAX_DROPOUT_def MAX_MISORDER_def)
  note run = loss_estimator_exact [OF this]
  have "lost_reports [] {} ?es = [[65536], [65538, 65539], [], [11]]"
    by (simp add: outstanding_def highest_def upt_rec)
  then show ?thesis unfolding run by (simp only:) simp
qed

section \<open>Beyond the limits\<close>

text \<open>
  The next number expected is reported as lost when it is the first of a cycle, though no packet is missing.
\<close>

lemma next_number_reported_at_wrap:
  "loss_run [Received 65534, Received 65535, Asked] LossEstimator_new = [Inr [0]]"
  by (simp add: LossEstimator_new_def addSequenceNumber_def LossEstimator_init_def insert_missing_def
      getEstimatedLostSequenceNumbers_def copyLostSequenceNumbers_def MAX_DROPOUT_def)

text \<open>
  Of a gap of 3000 numbers or more only the first one is reported: the second packet after it starts the stream anew.
\<close>

lemma large_gap_not_reported:
  "loss_run [Received 10, Received 5000, Received 5001, Asked] LossEstimator_new = [Inr [11]]"
  by (simp add: LossEstimator_new_def addSequenceNumber_def LossEstimator_init_def insert_missing_def
      getEstimatedLostSequenceNumbers_def copyLostSequenceNumbers_def MAX_DROPOUT_def MAX_MISORDER_def RTP_SEQ_MOD_def)

text \<open>
  A number of an earlier cycle that is still outstanding when the last 3000 numbers are all of the present one fails the
  assertion that the source asks itself about (\<open>can this ever happen?\<close>).
\<close>

lemma old_loss_asserts:
  assumes fo: "follows ns told e" and near: "near ns told" and top: "highest ns \<in> set (window ns)"
    and B: "B mod 65536 = 0" "B \<le> highest ns" and one: "\<forall>w\<in>set (window ns). B \<le> w"
    and k: "k \<in> set (outstanding ns told)" "k < B"
  shows "fst (getEstimatedLostSequenceNumbers e) = Inl Assertion_failed"
proof -
  let ?M = "highest ns" and ?vs = "map of_nat (window ns) :: u16 list"
  have ne: "ns \<noteq> []" using k(1) by (auto simp: outstanding_def)
  have kM: "?M \<le> k + 32767" using near k(1) by (auto simp: near_def)
  have vs: "le_vSequenceNumbers e = ?vs" and kx: "of_nat k \<in> le_vExpected e"
    using fo ne k(1) by (simp_all add: follows_def)
  have win: "B \<le> w" "w \<le> ?M" if "w \<in> set (window ns)" for w
    using that one subsetD [OF window_subset that] highest_ge by auto
  have ub: "unat (of_nat w :: u16) = w - B" if "B \<le> w" "w \<le> ?M" for w
    using B(1) that kM k(2) by (intro unat_residue) linarith+
  have max: "Max (set ?vs) = of_nat ?M"
  proof (rule Max_eqI)
    fix x :: u16 assume "x \<in> set ?vs"
    then obtain w where x: "x = of_nat w" "w \<in> set (window ns)" by auto
    show "x \<le> of_nat ?M"
      using ub [of w] ub [of ?M] win [OF x(2)] B(2) unfolding x(1) word_le_nat_alt by linarith
  qed (use top in auto)
  have uM: "unat (of_nat ?M :: u16) = ?M - B" using ub B(2) by simp
  then have small: "\<not> int (unat (Max (set ?vs))) - int (unat (Min (set ?vs))) > 32767"
    unfolding max using kM k(2) by linarith
  have uk: "unat (of_nat k :: u16) = k + 65536 - B"
  proof -
    have "65536 \<le> B" using B(1) k(2) by (metis add_0 gr0_implies_Suc less_nat_zero_code linorder_not_less mod_less zero_less_iff_neq_zero)
    then show ?thesis using unat_residue [of "B - 65536" k] B k(2) kM by (simp add: le_mod_geq)
  qed
  have "\<not> (of_nat k :: u16) < of_nat ?M" "int (unat (of_nat k :: u16)) - int (unat (of_nat ?M :: u16)) > 32767"
    unfolding word_less_nat_alt uk uM using kM k(2) B(2) by linarith+
  moreover have "finite (le_vExpected e)" by simp
  ultimately have "list_ex (\<lambda>n. \<not> n < of_nat ?M \<and> 32767 < int (unat n) - int (unat (of_nat ?M :: u16))) (sorted_list_of_set (le_vExpected e))"
    using kx unfolding list_ex_iff by (metis set_sorted_list_of_set)
  then show ?thesis
    using small window_empty [of ns] ne unfolding getEstimatedLostSequenceNumbers_def copyLostSequenceNumbers_def Let_def vs max by simp
qed

end
