(* ===== verification/Member_Entry.thy ===== *)
theory Member_Entry
  imports Rtcp Rtp_Packet Loss_Estimator
begin

text \<open>
  The per-source state of a session member (\<open>rfc3550/MemberEntry.cpp\<close>): source validation and
  sequence number bookkeeping of RFC 3550 A.1, loss and jitter statistics, round trip time
  from report blocks, SDES data and activity. The clock is an argument of every operation
  that reads it; the update callback is a list of updates the operation returns. The main
  results refine the wrapping counters to unbounded sequence numbers.
\<close>

section \<open>State\<close>

record MemberUpdate =
  mu_uiSSRC :: u32
  mu_dRtt :: rat
  mu_uiJitter :: u32
  mu_uiLost :: u32
  mu_uiLossFraction :: u32
  mu_uiExtendedHighestSN :: u32

record MemberEntry =
  me_localSSRCs :: "u32 set"
  me_uiSSRC :: u32
  me_tEntryCreated :: ptime
  me_tMarkedInactive :: ptime
  me_bInit :: bool
  me_uiProbation :: u32
  me_bIsSender :: bool
  me_bIsRtcpSynchronised :: bool
  me_bInactive :: bool
  me_sdesInfo :: SdesInformation
  me_uiRtpPacketsReceivedDuringLastInterval :: u32
  me_uiRtcpPacketsReceivedDuringLastInterval :: u32
  me_max_seq :: u16
  me_cycles :: u32
  me_base_seq :: u32
  me_bad_seq :: u32
  me_received :: u32
  me_expected_prior :: u32
  me_received_prior :: u32
  me_uiJitter :: u32
  me_uiMaxMisorder :: u32
  me_iPreviousDiff :: u32
  me_uiPreviousRtpTs :: u32
  me_uiPreviousArrival :: u32
  me_uiLsr :: u32
  me_uiDlsr :: u32
  me_uiLsrRR :: u32
  me_uiDlsrRR :: u32
  me_uiNtpArrival :: u32
  me_uiLost :: u32
  me_uiLossFraction :: u32
  me_dRtt :: rat
  me_tLsr :: ptime
  me_tDlsr :: int
  me_tLastRtpPacketSent :: ptime
  me_tLastPacketSent :: ptime
  me_uiSyncRtpRef :: u32
  me_tSyncRef :: ptime
  me_bEnableDetailedLossDetection :: bool
  me_lossEstimator :: LossEstimator
  me_onUpdate :: bool

text \<open>\<open>m_iPreviousDiff\<close> is a signed 32 bit value, kept as the word that \<open>sint\<close> reads.\<close>

definition MIN_SEQUENTIAL :: u32 where "MIN_SEQUENTIAL = 2"

definition BYE_TIMEOUT_SECONDS :: int where "BYE_TIMEOUT_SECONDS = 2"

definition MemberEntry_create :: "u32 \<Rightarrow> int \<Rightarrow> MemberEntry" where
  "MemberEntry_create uiSSRC tNow = \<lparr>
     me_localSSRCs = {}, me_uiSSRC = uiSSRC, me_tEntryCreated = Some tNow, me_tMarkedInactive = None,
     me_bInit = False, me_uiProbation = MIN_SEQUENTIAL, me_bIsSender = False, me_bIsRtcpSynchronised = False,
     me_bInactive = False, me_sdesInfo = SdesInformation_new,
     me_uiRtpPacketsReceivedDuringLastInterval = 0, me_uiRtcpPacketsReceivedDuringLastInterval = 0,
     me_max_seq = 0, me_cycles = 0, me_base_seq = 0, me_bad_seq = 0, me_received = 0, me_expected_prior = 0,
     me_received_prior = 0, me_uiJitter = 0, me_uiMaxMisorder = of_nat MAX_MISORDER, me_iPreviousDiff = 0,
     me_uiPreviousRtpTs = 0, me_uiPreviousArrival = 0, me_uiLsr = 0, me_uiDlsr = 0, me_uiLsrRR = 0,
     me_uiDlsrRR = 0, me_uiNtpArrival = 0, me_uiLost = 0, me_uiLossFraction = 0, me_dRtt = 0,
     me_tLsr = None, me_tDlsr = 0, me_tLastRtpPacketSent = None, me_tLastPacketSent = None,
     me_uiSyncRtpRef = 0, me_tSyncRef = None, me_bEnableDetailedLossDetection = True,
     me_lossEstimator = LossEstimator_new, me_onUpdate = False\<rparr>"

definition addLocalSSRC :: "u32 \<Rightarrow> MemberEntry \<Rightarrow> MemberEntry" where
  "addLocalSSRC uiLocalSSRC m = m\<lparr>me_localSSRCs := insert uiLocalSSRC (me_localSSRCs m)\<rparr>"

definition isRelevantToParticipant :: "u32 \<Rightarrow> MemberEntry \<Rightarrow> bool" where
  "isRelevantToParticipant uiSSRC m \<longleftrightarrow> uiSSRC \<in> me_localSSRCs m"

definition setSender :: "bool \<Rightarrow> MemberEntry \<Rightarrow> MemberEntry" where
  "setSender b m = m\<lparr>me_bIsSender := b\<rparr>"

definition setMaxMisorder :: "u32 \<Rightarrow> MemberEntry \<Rightarrow> MemberEntry" where
  "setMaxMisorder n m = m\<lparr>me_uiMaxMisorder := n\<rparr>"

definition setValidated :: "MemberEntry \<Rightarrow> MemberEntry" where
  "setValidated m = m\<lparr>me_uiProbation := 0\<rparr>"

definition isValid :: "MemberEntry \<Rightarrow> bool" where
  "isValid m \<longleftrightarrow> me_uiProbation m = 0 \<and> \<not> me_bInactive m"

definition isUnvalidated :: "MemberEntry \<Rightarrow> bool" where
  "isUnvalidated m \<longleftrightarrow> me_uiProbation m > 0"

section \<open>Sequence numbers\<close>

definition init_seq :: "u16 \<Rightarrow> MemberEntry \<Rightarrow> MemberEntry" where
  "init_seq seq m = m\<lparr>me_base_seq := ucast seq, me_max_seq := seq, me_bad_seq := of_nat RTP_SEQ_MOD + 1,
     me_cycles := 0, me_received := 0, me_received_prior := 0, me_expected_prior := 0\<rparr>"

definition initSequence :: "u16 \<Rightarrow> MemberEntry \<Rightarrow> MemberEntry" where
  "initSequence uiSequenceNumber m =
     (init_seq uiSequenceNumber m)\<lparr>me_max_seq := uiSequenceNumber - 1, me_uiProbation := MIN_SEQUENTIAL, me_bInit := True\<rparr>"

text \<open>The comparison \<open>seq == max_seq + 1\<close> is on promoted integers: 65535 has no successor there.\<close>

definition update_seq :: "u16 \<Rightarrow> MemberEntry \<Rightarrow> bool \<times> MemberEntry" where
  "update_seq seq m =
     (let udelta = seq - me_max_seq m in
      if me_uiProbation m \<noteq> 0
      then (if unat seq = unat (me_max_seq m) + 1
            then let m1 = m\<lparr>me_uiProbation := me_uiProbation m - 1, me_max_seq := seq\<rparr>
                 in if me_uiProbation m1 = 0
                    then let m2 = init_seq seq m1 in (True, m2\<lparr>me_received := me_received m2 + 1\<rparr>)
                    else (False, m1)
            else (False, m\<lparr>me_uiProbation := MIN_SEQUENTIAL - 1, me_max_seq := seq\<rparr>))
      else if unat udelta < MAX_DROPOUT
      then let m1 = (if seq < me_max_seq m then m\<lparr>me_cycles := me_cycles m + of_nat RTP_SEQ_MOD\<rparr> else m)
           in (True, m1\<lparr>me_max_seq := seq, me_received := me_received m1 + 1\<rparr>)
      else if ucast udelta \<le> of_nat RTP_SEQ_MOD - me_uiMaxMisorder m
      then (if ucast seq = me_bad_seq m
            then let m1 = init_seq seq m in (True, m1\<lparr>me_received := me_received m1 + 1\<rparr>)
            else (False, m\<lparr>me_bad_seq := (ucast seq + 1) AND of_nat (RTP_SEQ_MOD - 1)\<rparr>))
      else (True, m\<lparr>me_received := me_received m + 1\<rparr>))"

section \<open>Statistics\<close>

definition getExtendedHighestSequenceNumber :: "MemberEntry \<Rightarrow> u32" where
  "getExtendedHighestSequenceNumber m = me_cycles m + ucast (me_max_seq m)"

definition expected_packets :: "MemberEntry \<Rightarrow> u32" where
  "expected_packets m = me_cycles m + ucast (me_max_seq m) - me_base_seq m + 1"

definition getCumulativeNumberOfPacketsLost :: "MemberEntry \<Rightarrow> int" where
  "getCumulativeNumberOfPacketsLost m =
     (let iLost = sint (expected_packets m - me_received m);
          iLost1 = (if iLost > 0x7FFFFF then 0x7FFFFF else iLost)
      in if iLost1 < - 0x800000 then 0x800000 else iLost1)"

text \<open>
  \<open>lost_interval << 8\<close> is a signed shift; the division by the unsigned \<open>expected_interval\<close>
  is unsigned, and the result is cut to eight bits.
\<close>

definition getLostFraction :: "MemberEntry \<Rightarrow> u8 \<times> MemberEntry" where
  "getLostFraction m =
     (let expected = expected_packets m;
          expected_interval = expected - me_expected_prior m;
          received_interval = me_received m - me_received_prior m;
          lost_interval = expected_interval - received_interval;
          m1 = m\<lparr>me_expected_prior := expected, me_received_prior := me_received m\<rparr>;
          fraction = (if expected_interval = 0 \<or> sint lost_interval \<le> 0 then 0
                      else ucast (push_bit 8 lost_interval div expected_interval))
      in (fraction, m1))"

definition newReportingInterval :: "MemberEntry \<Rightarrow> MemberEntry" where
  "newReportingInterval m =
     m\<lparr>me_uiRtcpPacketsReceivedDuringLastInterval := 0, me_uiRtpPacketsReceivedDuringLastInterval := 0\<rparr>"

text \<open>Division of signed integers truncates towards zero.\<close>

definition cdiv :: "int \<Rightarrow> int \<Rightarrow> int" where
  "cdiv a b = sgn a * sgn b * (\<bar>a\<bar> div \<bar>b\<bar>)"

definition jitter_adjustment :: "u32 \<Rightarrow> u32 \<Rightarrow> int" where
  "jitter_adjustment iDiff uiJitter = cdiv (\<bar>sint iDiff\<bar> - sint uiJitter) 16"

definition update_jitter :: "u32 \<Rightarrow> u32 \<Rightarrow> MemberEntry \<Rightarrow> MemberEntry" where
  "update_jitter uiRtpTs uiRtpArrivalTs m =
     (let iCurrentDiff = uiRtpArrivalTs - uiRtpTs;
          m1 = (if me_received m > 1 \<and> uiRtpTs \<noteq> me_uiPreviousRtpTs m
                then m\<lparr>me_uiJitter := me_uiJitter m + of_int (jitter_adjustment (iCurrentDiff - me_iPreviousDiff m) (me_uiJitter m))\<rparr>
                else m)
      in m1\<lparr>me_iPreviousDiff := iCurrentDiff, me_uiPreviousRtpTs := uiRtpTs, me_uiPreviousArrival := uiRtpArrivalTs\<rparr>)"

definition processRtpPacket :: "int \<Rightarrow> u16 \<Rightarrow> u32 \<Rightarrow> u32 \<Rightarrow> MemberEntry \<Rightarrow> MemberEntry" where
  "processRtpPacket tNow uiSequenceNumber uiRtpTs uiRtpArrivalTs m =
     (let m1 = m\<lparr>me_tLastRtpPacketSent := Some tNow, me_tLastPacketSent := Some tNow, me_bIsSender := True,
                 me_uiRtpPacketsReceivedDuringLastInterval := me_uiRtpPacketsReceivedDuringLastInterval m + 1\<rparr>;
          m2 = snd (update_seq uiSequenceNumber m1);
          m3 = (if me_bEnableDetailedLossDetection m2
                then m2\<lparr>me_lossEstimator := addSequenceNumber uiSequenceNumber (me_lossEstimator m2)\<rparr> else m2)
      in update_jitter uiRtpTs uiRtpArrivalTs m3)"

section \<open>Packets\<close>

text \<open>
  \<open>onReceiveRtpPacket\<close> also stores the extended sequence number in the packet; it returns
  the packet, whether the member is synchronised by RTCP, and the presentation time.
\<close>

definition onReceiveRtpPacket ::
  "int \<Rightarrow> RtpPacket \<Rightarrow> u32 \<Rightarrow> MemberEntry \<Rightarrow> RtpPacket \<times> bool \<times> ptime \<times> MemberEntry" where
  "onReceiveRtpPacket tNow packet uiRtpTimestampFrequency m =
     (let m1 = processRtpPacket tNow (ucast (getSequenceNumber packet)) (getRtpTimestamp packet) (rp_uiRtpArrivalTimestamp packet) m;
          packet1 = setExtendedSequenceNumber (me_cycles m1 OR getSequenceNumber packet) packet;
          m2 = (if me_tSyncRef m1 = None
                then m1\<lparr>me_uiSyncRtpRef := getRtpTimestamp packet, me_tSyncRef := me_tLastRtpPacketSent m1\<rparr> else m1);
          tPresentation = getPresentationTime (me_uiSyncRtpRef m2) (me_tSyncRef m2) (getRtpTimestamp packet1) uiRtpTimestampFrequency
      in (packet1, me_bIsRtcpSynchronised m2, tPresentation,
          m2\<lparr>me_uiSyncRtpRef := getRtpTimestamp packet1, me_tSyncRef := tPresentation\<rparr>))"

definition onSendRtpPacket :: "int \<Rightarrow> MemberEntry \<Rightarrow> MemberEntry" where
  "onSendRtpPacket tNow m =
     m\<lparr>me_tLastRtpPacketSent := Some tNow, me_tLastPacketSent := Some tNow, me_bIsSender := True\<rparr>"

definition onReceiveRtcpPacket :: "int \<Rightarrow> MemberEntry \<Rightarrow> MemberEntry" where
  "onReceiveRtcpPacket tNow m =
     m\<lparr>me_tLastPacketSent := Some tNow,
       me_uiRtcpPacketsReceivedDuringLastInterval := me_uiRtcpPacketsReceivedDuringLastInterval m + 1\<rparr>"

definition updateSdesInfo :: "SdesInformation \<Rightarrow> MemberEntry \<Rightarrow> MemberEntry" where
  "updateSdesInfo s m =
     (let upd = (\<lambda>new old. if new = [] then old else new);
          i = me_sdesInfo m;
          m1 = (if si_CName s \<noteq> [] then m\<lparr>me_uiProbation := 0\<rparr> else m)
      in m1\<lparr>me_sdesInfo := \<lparr>si_CName = upd (si_CName s) (si_CName i), si_Name = upd (si_Name s) (si_Name i),
              si_Email = upd (si_Email s) (si_Email i), si_Phone = upd (si_Phone s) (si_Phone i),
              si_Loc = upd (si_Loc s) (si_Loc i), si_Tool = upd (si_Tool s) (si_Tool i),
              si_Note = upd (si_Note s) (si_Note i), si_Priv = upd (si_Priv s) (si_Priv i)\<rparr>\<rparr>)"

definition setInactive :: "int \<Rightarrow> MemberEntry \<Rightarrow> MemberEntry" where
  "setInactive tNow m = m\<lparr>me_bInactive := True, me_tMarkedInactive := Some tNow\<rparr>"

text \<open>The difference to \<open>not_a_date_time\<close> is special; its tick count is the largest number less one, so the time counts as elapsed.\<close>

definition isInactiveAndCanBeRemoved :: "int \<Rightarrow> MemberEntry \<Rightarrow> bool" where
  "isInactiveAndCanBeRemoved tNow m \<longleftrightarrow> me_bInactive m \<and>
     (case me_tMarkedInactive m of None \<Rightarrow> True | Some t \<Rightarrow> total_seconds (tNow - t) \<ge> BYE_TIMEOUT_SECONDS)"

section \<open>Reports\<close>

definition processReceiverReportBlock ::
  "u64 \<Rightarrow> RtcpRrReportBlock \<Rightarrow> MemberEntry \<Rightarrow> MemberUpdate list \<times> MemberEntry" where
  "processReceiverReportBlock uiNtpArrivalTs rrBlock m =
     (let m1 = m\<lparr>me_uiLsrRR := rrb_uiLastSr rrBlock\<rparr> in
      if me_uiLsrRR m1 = 0 then ([], m1)
      else let uiNtpArrival = ucast (drop_bit 16 uiNtpArrivalTs AND 0xFFFFFFFF);
               uiDlsrRR = rrb_uiDelaySinceLastSr rrBlock;
               iRtt = uiNtpArrival - uiDlsrRR - me_uiLsrRR m1;
               uiRtt = (if sint iRtt \<ge> 0 then iRtt else 0);
               m2 = m1\<lparr>me_uiNtpArrival := uiNtpArrival, me_uiDlsrRR := uiDlsrRR,
                       me_uiJitter := rrb_uiInterarrivalJitter rrBlock,
                       me_uiLost := rrb_uiCumulativeNumberOfPacketsLost rrBlock,
                       me_uiLossFraction := ucast (rrb_uiFractionLost rrBlock),
                       me_dRtt := of_nat (unat uiRtt) / 65536\<rparr>;
               update = \<lparr>mu_uiSSRC = me_uiSSRC m2, mu_dRtt = me_dRtt m2, mu_uiJitter = me_uiJitter m2,
                         mu_uiLost = me_uiLost m2, mu_uiLossFraction = me_uiLossFraction m2,
                         mu_uiExtendedHighestSN = rrb_uiExtendedHighestSNReceived rrBlock\<rparr>
           in (if me_onUpdate m2 then [update] else [], m2))"

definition processReceiverReportBlocks ::
  "u64 \<Rightarrow> RtcpRrReportBlock list \<Rightarrow> MemberEntry \<Rightarrow> MemberUpdate list \<times> MemberEntry" where
  "processReceiverReportBlocks uiNtpArrivalTs vReports m =
     fold (\<lambda>rrBlock (us, m). if isRelevantToParticipant (rrb_uiReporteeSSRC rrBlock) m
             then (case processReceiverReportBlock uiNtpArrivalTs rrBlock m of (us', m') \<Rightarrow> (us @ us', m'))
             else (us, m)) vReports ([], m)"

definition onSrReceived :: "int \<Rightarrow> RtcpSr \<Rightarrow> MemberEntry \<Rightarrow> MemberUpdate list \<times> MemberEntry" where
  "onSrReceived tNow rSr m =
     (let m1 = onReceiveRtcpPacket tNow m;
          uiNtpMsw = sr_uiNtpTimestampMsw rSr; uiNtpLsw = sr_uiNtpTimestampLsw rSr;
          m2 = m1\<lparr>me_bIsRtcpSynchronised := True, me_uiSyncRtpRef := sr_uiRtpTimestamp rSr,
                  me_tSyncRef := Some (convertNtpTimestampToPosixTime uiNtpMsw uiNtpLsw),
                  me_bIsSender := True, me_tLsr := Some tNow,
                  me_uiLsr := push_bit 16 (uiNtpMsw AND 0xFFFF) OR (drop_bit 16 uiNtpLsw AND 0xFFFF)\<rparr>
      in processReceiverReportBlocks (rb_uiArrivalTimeNtp (sr_base rSr)) (sr_vReports rSr) m2)"

definition onRrReceived :: "int \<Rightarrow> RtcpRr \<Rightarrow> MemberEntry \<Rightarrow> MemberUpdate list \<times> MemberEntry" where
  "onRrReceived tNow rRr m =
     processReceiverReportBlocks (rb_uiArrivalTimeNtp (rr_base rRr)) (rr_vReports rRr) (onReceiveRtcpPacket tNow m)"

definition onXrReceived :: "int \<Rightarrow> MemberEntry \<Rightarrow> MemberEntry" where
  "onXrReceived tNow m = onReceiveRtcpPacket tNow m"

definition onByeReceived :: "int \<Rightarrow> MemberEntry \<Rightarrow> MemberEntry" where
  "onByeReceived tNow m =
     (let m1 = onReceiveRtcpPacket tNow m in if \<not> me_bInactive m1 then setInactive tNow m1 else m1)"

text \<open>The list of lost sequence numbers is only logged; the estimator forgets what it reported.\<close>

definition finaliseRRData :: "int \<Rightarrow> MemberEntry \<Rightarrow> fault + MemberEntry" where
  "finaliseRRData tNow m =
     (let tDlsr = (case me_tLsr m of None \<Rightarrow> 0 | Some t \<Rightarrow> tNow - t);
          uiSeconds = (of_int (total_seconds tDlsr) :: u32);
          uiMicroseconds = (of_int (fractional_seconds tDlsr) :: u32);
          dDelay = fadd (of_nat (unat uiSeconds)) (fdiv (of_nat (unat uiMicroseconds)) 1000000);
          m1 = m\<lparr>me_tDlsr := tDlsr, me_uiDlsr := convertDelaySinceLastSenderReportToDlsr dDelay\<rparr>
      in if me_bEnableDetailedLossDetection m1
         then (case getEstimatedLostSequenceNumbers (me_lossEstimator m1) of
                 (Inl f, _) \<Rightarrow> Inl f
               | (Inr losses, e) \<Rightarrow> Inr (m1\<lparr>me_lossEstimator := e\<rparr>))
         else Inr m1)"

section \<open>Refinement to unbounded sequence numbers\<close>

text \<open>
  The abstract tracker numbers the packets of a source without wrap-around, starting below
  65536. As in the loss estimator, it accepts a packet that is less than MAX_DROPOUT ahead of or less than the
  misorder limit behind the highest number so far.
\<close>

fun acceptable_run :: "nat \<Rightarrow> nat \<Rightarrow> nat list \<Rightarrow> bool" where
  "acceptable_run mm M [] \<longleftrightarrow> True"
| "acceptable_run mm M (n # ns) \<longleftrightarrow> acceptable mm M n \<and> acceptable_run mm (max M n) ns"

definition tracks :: "nat \<Rightarrow> nat \<Rightarrow> nat \<Rightarrow> nat \<Rightarrow> MemberEntry \<Rightarrow> bool" where
  "tracks mm b M c m \<longleftrightarrow> me_uiProbation m = 0 \<and> me_base_seq m = of_nat b \<and> me_max_seq m = of_nat M
     \<and> me_cycles m = of_nat (65536 * (M div 65536)) \<and> me_received m = of_nat c
     \<and> me_uiMaxMisorder m = of_nat mm \<and> mm \<le> 62536"

lemma unat_of_nat_u16_mod: "unat (of_nat n :: u16) = n mod 65536"
  by (simp add: unat_of_nat take_bit_eq_mod)

lemma div_of_gap:
  fixes M n :: nat
  assumes "M \<le> n" and "n < M + 3000"
  shows "n div 65536 = (if n mod 65536 < M mod 65536 then M div 65536 + 1 else M div 65536)"
proof -
  have "M div 65536 \<le> n div 65536" using assms(1) by (rule div_le_mono)
  moreover have "n div 65536 \<le> M div 65536 + 1"
  proof -
    have "n div 65536 \<le> (M + 65536) div 65536" using assms(2) by (intro div_le_mono) simp
    then show ?thesis by simp
  qed
  moreover have "65536 * (n div 65536) + n mod 65536 = n" "65536 * (M div 65536) + M mod 65536 = M" by simp_all
  moreover have "n mod 65536 < 65536" "M mod 65536 < 65536" by simp_all
  moreover have "q = (if r < s then p + 1 else p)"
    if "p \<le> q" "q \<le> p + 1" "65536 * q + r = n" "65536 * p + s = M" "r < 65536" "s < 65536" for p q r s :: nat
    using that assms by (cases "q = p") auto
  ultimately show ?thesis by blast
qed

lemma tracks_step:
  assumes tr: "tracks mm b M c m" and ok: "acceptable mm M n"
  shows "fst (update_seq (of_nat n) m)" and "tracks mm b (max M n) (Suc c) (snd (update_seq (of_nat n) m))"
proof -
  have "fst (update_seq (of_nat n) m) \<and> tracks mm b (max M n) (Suc c) (snd (update_seq (of_nat n) m))"
  proof (cases "M \<le> n")
    case True
    then have gap: "n < M + 3000" using ok by (simp add: acceptable_def MAX_DROPOUT_def)
    have "of_nat n - me_max_seq m = of_nat (n - M)" using tr True by (simp add: tracks_def of_nat_diff)
    moreover have "unat (of_nat (n - M) :: u16) = n - M" by (rule unat_of_nat_u16) (use gap in simp)
    ultimately have ud: "unat (of_nat n - me_max_seq m) < MAX_DROPOUT" using gap by (simp add: MAX_DROPOUT_def)
    have wrap: "of_nat n < me_max_seq m \<longleftrightarrow> n mod 65536 < M mod 65536"
      using tr by (simp add: tracks_def word_less_nat_alt unat_of_nat_u16_mod)
    have cyc: "(if of_nat n < me_max_seq m then me_cycles m + of_nat RTP_SEQ_MOD else me_cycles m)
        = of_nat (65536 * (n div 65536))"
      using tr div_of_gap [OF True gap] unfolding wrap by (simp add: tracks_def RTP_SEQ_MOD_def algebra_simps)
    show ?thesis
      using tr ud cyc True
      by (auto simp: update_seq_def tracks_def Let_def max_absorb2 add.commute split: if_splits)
  next
    case False
    then have gap: "M < n + mm" using ok by (simp add: acceptable_def)
    define k where "k = 65536 - (M - n)"
    have mm: "mm \<le> 62536" using tr by (simp add: tracks_def)
    have k: "3000 \<le> k" "65536 - mm < k" "k < 65536" using False gap mm by (simp_all add: k_def)
    have "(of_nat n - of_nat M :: u16) = of_nat k"
    proof -
      have "n + 65536 = M + k" using False gap mm by (simp add: k_def)
      then have "(of_nat (n + 65536) :: u16) = of_nat (M + k)" by simp
      moreover have "(of_nat 65536 :: u16) = 0" by (simp only: word_of_nat_eq_0_iff) simp
      ultimately show ?thesis by (simp only: of_nat_add add_0_right) simp
    qed
    then have ud: "unat (of_nat n - me_max_seq m) = k" using tr k by (simp add: tracks_def)
    have "unat (of_nat RTP_SEQ_MOD - me_uiMaxMisorder m) = 65536 - mm"
      using tr by (simp add: tracks_def RTP_SEQ_MOD_def unat_sub_if')
    then have "\<not> ucast (of_nat n - me_max_seq m) \<le> of_nat RTP_SEQ_MOD - me_uiMaxMisorder m"
      using ud k by (simp add: word_le_nat_alt)
    then show ?thesis
      using tr ud k False by (simp add: update_seq_def tracks_def Let_def MAX_DROPOUT_def max_absorb1 add.commute)
  qed
  then show "fst (update_seq (of_nat n) m)" "tracks mm b (max M n) (Suc c) (snd (update_seq (of_nat n) m))" by simp_all
qed

lemma tracks_run:
  "\<lbrakk>tracks mm b M c m; acceptable_run mm M ns\<rbrakk> \<Longrightarrow>
   tracks mm b (fold max ns M) (c + length ns) (fold (\<lambda>n m. snd (update_seq (of_nat n) m)) ns m)"
proof (induction ns arbitrary: M c m)
  case (Cons n ns)
  then show ?case
    using tracks_step(2) [of mm b M c m n] Cons.IH [of "max M n" "Suc c" "snd (update_seq (of_nat n) m)"]
    by (simp add: max.commute)
qed simp

lemma tracks_extended:
  assumes "tracks mm b M c m"
  shows "getExtendedHighestSequenceNumber m = of_nat M"
proof -
  have low: "(ucast (of_nat M :: u16) :: u32) = of_nat (M mod 65536)"
    by (metis of_nat_unat unat_of_nat_u16_mod)
  have "getExtendedHighestSequenceNumber m = of_nat (65536 * (M div 65536)) + ucast (of_nat M :: u16)"
    using assms unfolding getExtendedHighestSequenceNumber_def tracks_def by metis
  also have "\<dots> = of_nat (65536 * (M div 65536) + M mod 65536)" unfolding low by (rule of_nat_add [symmetric])
  finally show ?thesis by (simp only: mult_div_mod_eq)
qed

lemma tracks_lost:
  assumes tr: "tracks mm b M c m" and "b < 65536"
    and low: "- 0x800000 \<le> int M - int b + 1 - int c" and high: "int M - int b + 1 - int c \<le> 0x7FFFFF"
  shows "getCumulativeNumberOfPacketsLost m = int M - int b + 1 - int c"
proof -
  let ?l = "int M - int b + 1 - int c"
  have "expected_packets m = of_nat M - of_nat b + 1"
    using tracks_extended [OF tr] tr
    by (simp add: expected_packets_def getExtendedHighestSequenceNumber_def tracks_def)
  then have "expected_packets m - me_received m = of_int ?l" using tr by (simp add: tracks_def)
  moreover have "sint (of_int ?l :: u32) = ?l"
    using low high by (intro sint_of_int_u32) simp_all
  ultimately have "sint (expected_packets m - me_received m) = ?l" by (simp del: of_int_add of_int_diff of_int_of_nat_eq)
  then show ?thesis using low high by (simp add: getCumulativeNumberOfPacketsLost_def Let_def)
qed

text \<open>Validation: two packets in sequence are enough from every state the code can reach.\<close>

lemma update_seq_probation:
  assumes "me_uiProbation m \<le> 2"
  shows "me_uiProbation (snd (update_seq seq m)) \<le> 1"
    and "me_uiProbation (snd (update_seq seq m)) \<noteq> 0 \<Longrightarrow> me_max_seq (snd (update_seq seq m)) = seq"
    and "me_uiProbation m = 0 \<Longrightarrow> me_uiProbation (snd (update_seq seq m)) = 0"
proof -
  have "unat (me_uiProbation m) \<le> 2" using assms by (simp add: word_le_nat_alt)
  then consider "unat (me_uiProbation m) = 0" | "unat (me_uiProbation m) = 1" | "unat (me_uiProbation m) = 2" by linarith
  then have p: "me_uiProbation m = 0 \<or> me_uiProbation m = 1 \<or> me_uiProbation m = 2"
    by cases (simp_all add: word_unat_eq_iff)
  then show "me_uiProbation (snd (update_seq seq m)) \<le> 1"
    by (auto simp: update_seq_def init_seq_def Let_def MIN_SEQUENTIAL_def)
  show "me_uiProbation (snd (update_seq seq m)) \<noteq> 0 \<Longrightarrow> me_max_seq (snd (update_seq seq m)) = seq"
    using p by (auto simp: update_seq_def init_seq_def Let_def MIN_SEQUENTIAL_def split: if_splits)
  show "me_uiProbation m = 0 \<Longrightarrow> me_uiProbation (snd (update_seq seq m)) = 0"
    by (auto simp: update_seq_def init_seq_def Let_def)
qed

lemma fresh_tracks:
  assumes "1 \<le> s" and "s + 1 < 65536" and "me_uiMaxMisorder m = of_nat MAX_MISORDER"
  shows "tracks MAX_MISORDER (s + 1) (s + 1) 1
    (snd (update_seq (of_nat (s + 1)) (snd (update_seq (of_nat s) (initSequence (of_nat s) m)))))"
proof -
  have s1: "unat (of_nat s - 1 :: u16) = s - 1" and us: "unat (of_nat s :: u16) = s"
    and un: "unat (of_nat (s + 1) :: u16) = s + 1"
    using assms(1,2) by (auto simp: unat_sub_if' word_le_nat_alt simp del: of_nat_add of_nat_Suc)
  have b: "(ucast (of_nat (s + 1) :: u16) :: u32) = of_nat (s + 1)" by (metis of_nat_unat un)
  have first: "update_seq (of_nat s) (initSequence (of_nat s) m)
      = (False, (initSequence (of_nat s) m)\<lparr>me_uiProbation := 1, me_max_seq := of_nat s\<rparr>)"
    using s1 us assms(1) by (simp add: update_seq_def initSequence_def init_seq_def MIN_SEQUENTIAL_def Let_def)
  show ?thesis
    unfolding first snd_conv using us un b assms
    by (simp add: update_seq_def initSequence_def init_seq_def Let_def tracks_def MAX_MISORDER_def
        del: of_nat_add of_nat_Suc) simp
qed

section \<open>Properties of member entries\<close>

text \<open>
  C11: Sequence number tracking refines counting without wrap-around. A new source whose first two
  packets have the consecutive numbers s and s + 1 is validated; after any further run of packets that are
  each less than MAX_DROPOUT ahead of or less than MAX_MISORDER behind the highest number so
  far, over any number of wraps, the extended highest sequence number is the true maximum
  (modulo 2^32), every packet has been counted, and the cumulative loss is the number of
  packets expected minus those received, as long as that fits in 24 bits.
\<close>

theorem sequence_tracking_refines_unbounded_numbers:
  fixes s :: nat and ns :: "nat list" and uiSSRC :: u32 and t :: int
  assumes "1 \<le> s" and "s + 1 < 65536" and "acceptable_run MAX_MISORDER (s + 1) ns"
  defines "m \<equiv> fold (\<lambda>n m. snd (update_seq (of_nat n) m)) (s # (s + 1) # ns)
                 (initSequence (of_nat s) (MemberEntry_create uiSSRC t))"
    and "M \<equiv> fold max ns (s + 1)"
  shows "isUnvalidated m = False \<and> getExtendedHighestSequenceNumber m = of_nat M
    \<and> me_received m = of_nat (1 + length ns)
    \<and> (- 0x800000 \<le> int M - int s - int (1 + length ns) \<and> int M - int s - int (1 + length ns) \<le> 0x7FFFFF
        \<longrightarrow> getCumulativeNumberOfPacketsLost m = int M - int s - int (1 + length ns))"
proof -
  have "me_uiMaxMisorder (MemberEntry_create uiSSRC t) = of_nat MAX_MISORDER" by (simp add: MemberEntry_create_def)
  from tracks_run [OF fresh_tracks [OF assms(1,2) this] assms(3)]
  have tr: "tracks MAX_MISORDER (s + 1) M (1 + length ns) m" by (simp add: m_def M_def)
  have "getCumulativeNumberOfPacketsLost m = int M - int s - int (1 + length ns)"
    if "- 0x800000 \<le> int M - int s - int (1 + length ns)" "int M - int s - int (1 + length ns) \<le> 0x7FFFFF"
    using tracks_lost [OF tr assms(2)] that by simp
  then show ?thesis
    using tracks_extended [OF tr] tr by (auto simp: tracks_def isUnvalidated_def)
qed

theorem sequence_tracking_refines_unbounded_numbers_witness:
  "getExtendedHighestSequenceNumber (fold (\<lambda>n m. snd (update_seq (of_nat n) m)) [65530, 65531, 65533, 65532, 65538]
      (initSequence (of_nat 65530) (MemberEntry_create 7 0))) = 65538
   \<and> getCumulativeNumberOfPacketsLost (fold (\<lambda>n m. snd (update_seq (of_nat n) m)) [65530, 65531, 65533, 65532, 65538]
      (initSequence (of_nat 65530) (MemberEntry_create 7 0))) = 4"
proof -
  have "acceptable_run MAX_MISORDER (65530 + 1) [65533, 65532, 65538]"
    by (simp add: acceptable_def MAX_DROPOUT_def MAX_MISORDER_def)
  from sequence_tracking_refines_unbounded_numbers [OF _ _ this, of 7 0] show ?thesis
    by (simp del: fold_simps add: fold_simps(2) [where f = max] fold_simps(1) [where f = max])
qed

text \<open>
  Source validation. From every state with at most two packets to go, which is every state the
  code reaches, two packets with consecutive sequence numbers validate the source, and a
  validated source stays validated whatever arrives.
\<close>

theorem two_sequential_packets_validate:
  assumes "me_uiProbation m \<le> 2" and "n + 1 < 65536"
  shows "me_uiProbation (snd (update_seq (of_nat (n + 1)) (snd (update_seq (of_nat n) m)))) = 0
    \<and> (me_uiProbation m = 0 \<longrightarrow> me_uiProbation (snd (update_seq seq m)) = 0)"
proof -
  define m1 where "m1 = snd (update_seq (of_nat n) m)"
  note p = update_seq_probation [OF assms(1), of "of_nat n", folded m1_def]
  have "me_uiProbation (snd (update_seq (of_nat (n + 1)) m1)) = 0"
  proof (cases "me_uiProbation m1 = 0")
    case True
    then show ?thesis using update_seq_probation(3) [of m1] by simp
  next
    case False
    have "unat (me_uiProbation m1) \<le> 1" "unat (me_uiProbation m1) \<noteq> 0"
      using p(1) False by (simp_all add: word_le_nat_alt unat_eq_0)
    then have "me_uiProbation m1 = 1" by (simp add: word_unat_eq_iff)
    moreover have "unat (of_nat (n + 1) :: u16) = unat (me_max_seq m1) + 1"
      using p(2) [OF False] assms(2) by (simp del: of_nat_add of_nat_Suc)
    ultimately show ?thesis by (simp add: update_seq_def init_seq_def Let_def del: of_nat_add of_nat_Suc)
  qed
  then show ?thesis using update_seq_probation(3) [OF assms(1), of seq] by (simp add: m1_def)
qed

theorem two_sequential_packets_validate_witness:
  "me_uiProbation (snd (update_seq 9 (snd (update_seq 8 (MemberEntry_create 7 0))))) = 0"
  using two_sequential_packets_validate [of "MemberEntry_create 7 0" 8 0]
  by (simp add: MemberEntry_create_def MIN_SEQUENTIAL_def)

lemma cycle_or:
  assumes "r < 65536"
  shows "(of_nat (65536 * q) OR of_nat r :: u32) = of_nat (65536 * q + r)"
proof -
  have hi: "(of_nat (65536 * q) :: u32) = push_bit 16 (of_nat q)"
    by (simp add: push_bit_eq_mult)
  have "of_nat (65536 * q) AND of_nat r = (0 :: u32)"
  proof (rule bit_word_eqI)
    fix i assume "i < LENGTH(32)"
    have "\<not> bit (of_nat (65536 * q) :: u32) i" if "i < 16"
      unfolding hi using that by (simp add: bit_push_bit_iff)
    moreover have "\<not> bit (of_nat r :: u32) i" if "16 \<le> i"
    proof -
      have "r = take_bit 16 r" using assms by (simp add: take_bit_nat_eq_self)
      then have "\<not> bit r i" using that by (metis bit_take_bit_iff not_less)
      then show ?thesis by (simp add: bit_simps)
    qed
    ultimately show "bit (of_nat (65536 * q) AND of_nat r :: u32) i = bit (0 :: u32) i"
      by (cases "i < 16") (auto simp: bit_and_iff)
  qed
  then show ?thesis by (simp only: of_nat_add) (simp only: disjunctive_add_eq_or)
qed

lemma ucast_u16_u32: "ucast (ucast (x :: u16) :: u32) = x"
  by (rule bit_word_eqI) (auto simp: bit_ucast_iff)

lemma tracks_processRtpPacket:
  assumes "tracks mm b M c m" and "acceptable mm M n"
  shows "tracks mm b (max M n) (Suc c) (processRtpPacket tNow (of_nat n) ts arr m)"
proof -
  let ?m1 = "m\<lparr>me_tLastRtpPacketSent := Some tNow, me_tLastPacketSent := Some tNow, me_bIsSender := True,
    me_uiRtpPacketsReceivedDuringLastInterval := me_uiRtpPacketsReceivedDuringLastInterval m + 1\<rparr>"
  have "tracks mm b M c ?m1" using assms(1) by (simp add: tracks_def)
  from tracks_step(2) [OF this assms(2)]
  show ?thesis by (simp add: processRtpPacket_def update_jitter_def tracks_def Let_def)
qed

lemma late_cycle:
  fixes M n :: nat
  assumes "n < M" and "M < n + 62536"
  shows "M div 65536 = n div 65536 \<or> M div 65536 = n div 65536 + 1"
proof -
  have "n div 65536 \<le> M div 65536" using assms(1) by (intro div_le_mono) simp
  moreover have "M div 65536 \<le> (n + 65536) div 65536" using assms(2) by (intro div_le_mono) simp
  ultimately show ?thesis by simp linarith
qed

lemma extended_number_stored:
  assumes tr: "tracks mm b M c m" and ok: "acceptable mm M n" and sn: "rh_uiSN (rp_header p) = of_nat n"
  shows "rp_uiExtendedSequenceNumber (fst (onReceiveRtpPacket tNow p freq m))
    = of_nat (65536 * (max M n div 65536) + n mod 65536)"
proof -
  have seq: "getSequenceNumber p = of_nat (n mod 65536)"
    unfolding getSequenceNumber_def sn by (metis of_nat_unat unat_of_nat_u16_mod)
  have "(ucast (getSequenceNumber p) :: u16) = of_nat n"
    unfolding getSequenceNumber_def sn by (rule ucast_u16_u32)
  then have "me_cycles (processRtpPacket tNow (ucast (getSequenceNumber p)) (getRtpTimestamp p) (rp_uiRtpArrivalTimestamp p) m)
    = of_nat (65536 * (max M n div 65536))"
    using tracks_processRtpPacket [OF tr ok] by (simp add: tracks_def)
  then show ?thesis
    using cycle_or [of "n mod 65536" "max M n div 65536"] seq
    by (simp add: onReceiveRtpPacket_def Let_def setExtendedSequenceNumber_def del: of_nat_add of_nat_mult)
qed

text \<open>
  The extended sequence number that orders the playout buffer. For a validated source whose
  highest true number is M, the packet with true number n gets the extended number n when it
  is in the 65536 cycle of the highest number; a late packet from before the last wrap is
  stored one full cycle too high, that is ahead of every packet received.
\<close>

theorem extended_sequence_number_stored:
  assumes "tracks mm b M c m" and "acceptable mm M n" and "rh_uiSN (rp_header p) = of_nat n"
  shows "rp_uiExtendedSequenceNumber (fst (onReceiveRtpPacket tNow p freq m))
    = (if n div 65536 = max M n div 65536 then of_nat n else of_nat (n + 65536))"
proof (cases "n div 65536 = max M n div 65536")
  case True
  then show ?thesis using extended_number_stored [OF assms] by (metis mult_div_mod_eq)
next
  case False
  then have "n < M" by (metis max.absorb2 not_less)
  moreover have "M < n + 62536" using assms(1,2) \<open>n < M\<close> by (simp add: acceptable_def tracks_def)
  ultimately have "max M n div 65536 = n div 65536 + 1" using late_cycle [of n M] False by (simp add: max_absorb1)
  moreover have "65536 * (n div 65536 + 1) + n mod 65536 = n + 65536" by simp
  ultimately show ?thesis using extended_number_stored [OF assms] False by metis
qed

theorem extended_sequence_number_stored_witness:
  "\<exists>m p. rh_uiSN (rp_header p) = 65535 \<and> getExtendedHighestSequenceNumber m = 65536
     \<and> rp_uiExtendedSequenceNumber (fst (onReceiveRtpPacket 0 p 90000 m)) = 131071"
proof -
  let ?m = "(MemberEntry_create 7 0)\<lparr>me_uiProbation := 0, me_max_seq := 0, me_cycles := 65536\<rparr>"
  let ?p = "RtpPacket_create (RtpHeader_create False False 96 65535 0 7)"
  have "tracks MAX_MISORDER 0 65536 0 ?m" "acceptable MAX_MISORDER 65536 65535"
    by (simp_all add: tracks_def acceptable_def MemberEntry_create_def MAX_MISORDER_def)
  moreover have "rh_uiSN (rp_header ?p) = of_nat 65535"
    by (simp add: RtpPacket_create_def RtpHeader_create_def)
  ultimately have "rp_uiExtendedSequenceNumber (fst (onReceiveRtpPacket 0 ?p 90000 ?m)) = 131071"
    using extended_sequence_number_stored [of MAX_MISORDER 0 65536 0 ?m 65535 ?p 0 90000] by simp
  moreover have "rh_uiSN (rp_header ?p) = 65535" by (simp add: RtpPacket_create_def RtpHeader_create_def)
  moreover have "getExtendedHighestSequenceNumber ?m = 65536" by (simp add: getExtendedHighestSequenceNumber_def)
  ultimately show ?thesis by (intro exI [of _ ?m] exI [of _ ?p]) simp
qed

text \<open>
  The loss fraction of a reporting interval. With e packets expected and r received since the
  last report, the reported fraction is 256 times the lost share, rounded down, whenever some
  but not all of the packets were lost; an interval in which no packet at all arrived wraps to a
  reported loss of zero; duplicates never give a negative value. The interval restarts.
\<close>

theorem getLostFraction_correct:
  assumes "expected_packets m - me_expected_prior m = of_nat e" and "me_received m - me_received_prior m = of_nat r"
    and "e < 2 ^ 23" and "r < 2 ^ 31"
  shows "unat (fst (getLostFraction m)) = (if r < e \<and> 0 < r then 256 * (e - r) div e else 0)
    \<and> me_expected_prior (snd (getLostFraction m)) = expected_packets m
    \<and> me_received_prior (snd (getLostFraction m)) = me_received m"
proof -
  have "sint (of_nat e - of_nat r :: u32) = int e - int r"
    using sint_of_int_u32 [of "int e - int r"] assms(3,4) by simp
  then have neg: "sint (of_nat e - of_nat r :: u32) \<le> 0 \<longleftrightarrow> e \<le> r" by simp
  have e0: "(of_nat e :: u32) = 0 \<longleftrightarrow> e = 0"
  proof
    assume "(of_nat e :: u32) = 0"
    then have "unat (of_nat e :: u32) = 0" by simp
    moreover have "unat (of_nat e :: u32) = e" by (rule unat_of_nat_u32) (use assms(3) in simp)
    ultimately show "e = 0" by simp
  qed simp
  have quot: "unat (ucast (push_bit 8 (of_nat e - of_nat r) div of_nat e :: u32) :: u8) = (256 * (e - r) div e) mod 256"
    if "r < e"
  proof -
    have "(push_bit 8 (of_nat e - of_nat r) :: u32) = of_nat (256 * (e - r))"
      using that by (simp add: push_bit_eq_mult of_nat_diff)
    moreover have "unat (of_nat (256 * (e - r)) :: u32) = 256 * (e - r)"
      by (rule unat_of_nat_u32) (use assms(3) that in simp)
    moreover have "unat (of_nat e :: u32) = e" by (rule unat_of_nat_u32) (use assms(3) in simp)
    ultimately have "unat (push_bit 8 (of_nat e - of_nat r) div of_nat e :: u32) = 256 * (e - r) div e"
      by (simp only: unat_div)
    then show ?thesis by (simp add: unsigned_ucast_eq take_bit_eq_mod)
  qed
  have "(256 * (e - r) div e) mod 256 = (if 0 < r then 256 * (e - r) div e else 0)" if "r < e"
  proof (cases "0 < r")
    case True
    then have "256 * (e - r) < 256 * e" using that by simp
    then have "256 * (e - r) div e < 256" by (simp add: less_mult_imp_div_less)
    then show ?thesis using True by simp
  next
    case False
    then show ?thesis using that by simp
  qed
  then show ?thesis
    using assms(1,2) neg e0 quot by (auto simp: getLostFraction_def Let_def)
qed

theorem getLostFraction_correct_witness:
  "unat (fst (getLostFraction ((MemberEntry_create 7 0)\<lparr>me_max_seq := 9, me_received := 6\<rparr>))) = 102
   \<and> unat (fst (getLostFraction ((MemberEntry_create 7 0)\<lparr>me_max_seq := 9\<rparr>))) = 0"
  using getLostFraction_correct [of "(MemberEntry_create 7 0)\<lparr>me_max_seq := 9, me_received := 6\<rparr>" 10 6]
    getLostFraction_correct [of "(MemberEntry_create 7 0)\<lparr>me_max_seq := 9\<rparr>" 10 0]
  by (simp add: expected_packets_def MemberEntry_create_def)

lemma cdiv_16_between:
  assumes "0 \<le> d" and "0 \<le> (j :: int)"
  shows "min j d \<le> j + cdiv (d - j) 16 \<and> j + cdiv (d - j) 16 \<le> max j d"
proof (cases "j \<le> d")
  case True
  then have "cdiv (d - j) 16 = (d - j) div 16" by (auto simp: cdiv_def sgn_if)
  moreover have "0 \<le> (d - j) div 16" "(d - j) div 16 \<le> d - j" using True by simp_all
  ultimately show ?thesis using True by simp
next
  case False
  then have "cdiv (d - j) 16 = - ((j - d) div 16)" by (simp add: cdiv_def sgn_if)
  moreover have "0 \<le> (j - d) div 16" "(j - d) div 16 \<le> j - d" using False by simp_all
  ultimately show ?thesis using False by simp
qed

lemma sint_small_u32: "uint (x :: u32) < 2 ^ 31 \<Longrightarrow> sint x = uint x"
  using sint_of_int_u32 [of "uint x"] order_trans [OF _ uint_ge_0 [of x], of "- (2 ^ 31)"] by simp

text \<open>
  Interarrival jitter is a smoothing filter. While the estimate is below 2^31, an arriving
  packet moves it a sixteenth of the way towards the absolute difference in transit time, never
  past either of the two, so it stays below any bound on both; packets of the same frame
  (equal timestamps) and the first packet leave it alone.
\<close>

theorem jitter_stays_between:
  fixes m :: MemberEntry and ts arr :: u32
  assumes "uint (me_uiJitter m) < 2 ^ 31"
  defines "d \<equiv> \<bar>sint (arr - ts - me_iPreviousDiff m)\<bar>"
    and "j \<equiv> uint (me_uiJitter m)"
    and "j' \<equiv> uint (me_uiJitter (update_jitter ts arr m))"
  shows "if me_received m > 1 \<and> ts \<noteq> me_uiPreviousRtpTs m
    then j' = j + cdiv (d - j) 16 \<and> min j d \<le> j' \<and> j' \<le> max j d else j' = j"
proof (cases "me_received m > 1 \<and> ts \<noteq> me_uiPreviousRtpTs m")
  case True
  have d: "0 \<le> d" "d \<le> 2 ^ 31"
    using sint_greater_eq [of "arr - ts - me_iPreviousDiff m"] sint_less [of "arr - ts - me_iPreviousDiff m"]
    by (simp_all add: d_def)
  have j: "0 \<le> j" "j < 2 ^ 31" using assms(1) by (simp_all add: j_def)
  have sj: "sint (me_uiJitter m) = j" using sint_small_u32 [OF assms(1)] by (simp only: j_def)
  have jw: "me_uiJitter m = of_int j" by (simp add: j_def)
  note between = cdiv_16_between [OF d(1) j(1)]
  have "me_uiJitter (update_jitter ts arr m) = of_int (j + cdiv (d - j) 16)"
    using True by (simp add: update_jitter_def Let_def jitter_adjustment_def sj d_def [symmetric]) (simp add: jw)
  moreover have "uint (of_int (j + cdiv (d - j) 16) :: u32) = j + cdiv (d - j) 16"
    by (rule uint_of_int_u32) (use between d j in auto)
  ultimately have "j' = j + cdiv (d - j) 16" by (simp only: j'_def)
  then show ?thesis using True between by simp
next
  case False
  then show ?thesis by (auto simp: update_jitter_def Let_def j_def j'_def)
qed

theorem jitter_stays_between_witness:
  "uint (me_uiJitter (update_jitter 3000 3160 ((MemberEntry_create 7 0)\<lparr>me_received := 2\<rparr>))) = 10"
  using jitter_stays_between [of "(MemberEntry_create 7 0)\<lparr>me_received := 2\<rparr>" 3000 3160]
  by (simp add: MemberEntry_create_def cdiv_def)

text \<open>
  Round trip time from a report block. If the report arrives at the middle 32 bits of NTP time
  equal to the time L the last sender report was sent, plus the delay D the receiver held it, plus a
  round trip of r units of 1/65536 s (modulo the 18 hour wrap), the member records exactly
  r/65536 seconds and passes it on; but the interarrival jitter it had measured for the
  packets it received is overwritten with the one the peer reported.
\<close>

theorem round_trip_time_from_report:
  fixes L D :: u32 and A :: u64
  assumes "ucast (drop_bit 16 A AND 0xFFFFFFFF) = L + D + of_nat r" and "r < 2 ^ 31" and "L \<noteq> 0"
    and "rrb_uiLastSr rr = L" and "rrb_uiDelaySinceLastSr rr = D"
  shows "me_dRtt (snd (processReceiverReportBlock A rr m)) = of_nat r / 65536
    \<and> me_uiJitter (snd (processReceiverReportBlock A rr m)) = rrb_uiInterarrivalJitter rr
    \<and> (map mu_dRtt (fst (processReceiverReportBlock A rr m)) = (if me_onUpdate m then [of_nat r / 65536] else []))"
proof -
  have "sint (of_nat r :: u32) = int r" using sint_of_int_u32 [of "int r"] assms(2) by simp
  moreover have "unat (of_nat r :: u32) = r" by (rule unat_of_nat_u32) (use assms(2) in simp)
  then have "(unsigned (of_nat r :: u32) :: rat) = of_nat r" by (metis of_nat_unat)
  ultimately show ?thesis
    using assms(1,3,4,5) by (simp add: processReceiverReportBlock_def Let_def)
qed

theorem round_trip_time_from_report_witness:
  "me_dRtt (snd (processReceiverReportBlock 0x60000000
     (RtcpRrReportBlock_new\<lparr>rrb_uiLastSr := 0x2000, rrb_uiDelaySinceLastSr := 0x3000\<rparr>) (MemberEntry_create 7 0))) = 1 / 16"
  using round_trip_time_from_report [of "0x60000000" "0x2000" "0x3000" "0x1000"
      "RtcpRrReportBlock_new\<lparr>rrb_uiLastSr := 0x2000, rrb_uiDelaySinceLastSr := 0x3000\<rparr>" "MemberEntry_create 7 0"]
  by simp

end
