(* ===== verification/Rtcp_Xr.thy ===== *)
theory Rtcp_Xr
  imports Rtcp_Wire Member_Entry
begin

text \<open>
  Extended reports of RFC 3611 (\<open>rfc3611/RtcpXr.h\<close>, \<open>rfc3611/RtcpXrFactory.h\<close>) and the member entry that
  evaluates them (\<open>rfc3611/XrMemberEntry.cpp\<close>). A receiver without sender reports measures its round trip
  time by sending a reference time that the peer returns with the delay it took. The blocks
  that the factory builds are parsed back by it, and an XR packet with one block is read back.
\<close>

section \<open>Report blocks\<close>

definition PT_RTCP_XR :: u8 where "PT_RTCP_XR = 207"

definition BASIC_XR_LENGTH :: nat where "BASIC_XR_LENGTH = 1"

definition XR_RECEIVER_REFERENCE_TIME_BLOCK :: u8 where "XR_RECEIVER_REFERENCE_TIME_BLOCK = 4"

definition XR_DLRR_BLOCK :: u8 where "XR_DLRR_BLOCK = 5"

definition XR_RECEIVER_REFERENCE_TIME_BLOCK_LENGTH :: nat where "XR_RECEIVER_REFERENCE_TIME_BLOCK_LENGTH = 2"

definition XR_DLRR_SUBBLOCK_LENGTH :: nat where "XR_DLRR_SUBBLOCK_LENGTH = 3"

lemmas xr_constants = PT_RTCP_XR_def BASIC_XR_LENGTH_def XR_RECEIVER_REFERENCE_TIME_BLOCK_def XR_DLRR_BLOCK_def
  XR_RECEIVER_REFERENCE_TIME_BLOCK_LENGTH_def XR_DLRR_SUBBLOCK_LENGTH_def

record DlrrBlock =
  db_SSRC :: u32
  db_LastRR :: u32
  db_DLRR :: u32

record ReceiverReferenceTimeReportBlock =
  rt_NtpTimestampMsw :: u32
  rt_NtpTimestampLsw :: u32

record RtcpXrReportBlock =
  xb_uiBlockType :: u8
  xb_uiTypeSpecific :: u8
  xb_uiBlockLength :: u16
  xb_rawXrBlockContent :: bytes

definition RtcpXrReportBlock_create :: "u8 \<Rightarrow> u8 \<Rightarrow> RtcpXrReportBlock" where
  "RtcpXrReportBlock_create uiBlockType uiTypeSpecific =
     \<lparr>xb_uiBlockType = uiBlockType, xb_uiTypeSpecific = uiTypeSpecific, xb_uiBlockLength = 0, xb_rawXrBlockContent = []\<rparr>"

definition getBlockLength :: "RtcpXrReportBlock \<Rightarrow> u16" where
  "getBlockLength b = of_nat (length (xb_rawXrBlockContent b) div 4)"

definition setRawXrBlockContent :: "bytes \<Rightarrow> RtcpXrReportBlock \<Rightarrow> RtcpXrReportBlock" where
  "setRawXrBlockContent raw b = b\<lparr>xb_rawXrBlockContent := raw\<rparr>"

definition RtcpXrReportBlock_write :: "('i, 'o) bit_io \<Rightarrow> RtcpXrReportBlock \<Rightarrow> 'o \<Rightarrow> 'o" where
  "RtcpXrReportBlock_write io b ob =
     ob_writeBytes io
       (writes io [(unat (xb_uiBlockType b), 8), (unat (xb_uiTypeSpecific b), 8), (length (xb_rawXrBlockContent b) div 4, 16)] ob)
       (xb_rawXrBlockContent b)"

text \<open>The buffer has the announced size whether or not its bytes could be read.\<close>

definition RtcpXrReportBlock_read :: "('i, 'o) bit_io \<Rightarrow> RtcpXrReportBlock \<Rightarrow> 'i \<Rightarrow> RtcpXrReportBlock \<times> 'i" where
  "RtcpXrReportBlock_read io b ib =
     (case reads io [(unat (xb_uiBlockType b), 8), (unat (xb_uiTypeSpecific b), 8), (unat (xb_uiBlockLength b), 16)] ib of (v, ib1) \<Rightarrow>
        let uiLen = (v ! 2) * 4
        in case ib_readBytes io ib1 uiLen of (ok, bs, ib2) \<Rightarrow>
             (\<lparr>xb_uiBlockType = of_nat (v ! 0), xb_uiTypeSpecific = of_nat (v ! 1), xb_uiBlockLength = of_nat (v ! 2),
               xb_rawXrBlockContent = (if ok then bs else map (mem_uninit io) [0..<uiLen])\<rparr>, ib2))"

section \<open>Extended reports\<close>

record RtcpXr =
  xr_base :: RtcpPacketBase
  xr_uiReporterSSRC :: u32
  xr_vReports :: "RtcpXrReportBlock list"

definition RtcpXr_create :: "u32 \<Rightarrow> RtcpXr" where
  "RtcpXr_create uiSSRC = \<lparr>xr_base = setLength BASIC_XR_LENGTH (RtcpPacketBase_new PT_RTCP_XR),
     xr_uiReporterSSRC = uiSSRC, xr_vReports = []\<rparr>"

definition RtcpXr_raw :: "u8 \<Rightarrow> bool \<Rightarrow> u8 \<Rightarrow> u16 \<Rightarrow> RtcpXr" where
  "RtcpXr_raw uiVersion uiPadding uiTypeSpecific uiLengthInWords =
     \<lparr>xr_base = RtcpPacketBase_raw uiVersion uiPadding uiTypeSpecific PT_RTCP_XR uiLengthInWords,
      xr_uiReporterSSRC = 0, xr_vReports = []\<rparr>"

definition RtcpXr_addReportBlock :: "RtcpXrReportBlock \<Rightarrow> RtcpXr \<Rightarrow> RtcpXr" where
  "RtcpXr_addReportBlock reportBlock p =
     (let rs = xr_vReports p @ [reportBlock];
          uiBlockLength = sum_list (map (\<lambda>r. unat (getBlockLength r) + 1) rs)
      in p\<lparr>xr_vReports := rs, xr_base := setLength (BASIC_XR_LENGTH + uiBlockLength) (setTypeSpecific (length rs) (xr_base p))\<rparr>)"

definition RtcpXr_writeTypeSpecific :: "('i, 'o) bit_io \<Rightarrow> RtcpXr \<Rightarrow> 'o \<Rightarrow> 'o" where
  "RtcpXr_writeTypeSpecific io p ob =
     foldl (\<lambda>ob r. RtcpXrReportBlock_write io r ob) (ob_write io ob (unat (xr_uiReporterSSRC p)) 32) (xr_vReports p)"

text \<open>
  The loop \<open>for (i = 0; i < uilengthRemaining; ++i)\<close> counts blocks against remaining words, and the
  32 bit count of words wraps around when a block announces more than is left.
\<close>

function read_xr_blocks :: "('i, 'o) bit_io \<Rightarrow> nat \<Rightarrow> u32 \<Rightarrow> 'i \<Rightarrow> RtcpXrReportBlock list \<times> 'i" where
  "read_xr_blocks io i uilengthRemaining ib =
     (if i < unat uilengthRemaining
      then (case RtcpXrReportBlock_read io (RtcpXrReportBlock_create 0 0) ib of (reportBlock, ib1) \<Rightarrow>
            case read_xr_blocks io (Suc i) (uilengthRemaining - (ucast (getBlockLength reportBlock) + 1)) ib1 of
              (rs, ib2) \<Rightarrow> (reportBlock # rs, ib2))
      else ([], ib))"
  by pat_completeness auto

termination read_xr_blocks
proof (relation "measure (\<lambda>(io, i, n, ib). 2 ^ 32 - i)")
  fix io :: "('i, 'o) bit_io" and i and n :: u32 and ib :: 'i and b x
  assume "i < unat n"
  moreover have "unat n < 2 ^ 32" using unsigned_less [of n, where ?'a = nat] by simp
  ultimately have "2 ^ 32 - Suc i < 2 ^ 32 - i" by linarith
  then show "((io, Suc i, n - (ucast (getBlockLength b) + 1), x), io, i, n, ib)
    \<in> measure (\<lambda>(io :: ('i, 'o) bit_io, i, n :: u32, ib :: 'i). 2 ^ 32 - i)" by simp
qed simp

definition RtcpXr_readTypeSpecific :: "('i, 'o) bit_io \<Rightarrow> RtcpXr \<Rightarrow> 'i \<Rightarrow> RtcpXr \<times> 'i" where
  "RtcpXr_readTypeSpecific io p ib =
     (case ib_read io ib (unat (xr_uiReporterSSRC p)) 32 of (_, v, ib1) \<Rightarrow>
      case read_xr_blocks io 0 (ucast (rb_uiLength (xr_base p)) - of_nat BASIC_XR_LENGTH) ib1 of (rs, ib2) \<Rightarrow>
        (p\<lparr>xr_uiReporterSSRC := of_nat v, xr_vReports := xr_vReports p @ rs\<rparr>, ib2))"

section \<open>Factory\<close>

definition createReceiverRttXrReportBlock :: "('i, 'o) bit_io \<Rightarrow> ReceiverReferenceTimeReportBlock \<Rightarrow> RtcpXrReportBlock" where
  "createReceiverRttXrReportBlock io rrtBlock =
     setRawXrBlockContent
       (ob_str io (writes io [(unat (rt_NtpTimestampMsw rrtBlock), 32), (unat (rt_NtpTimestampLsw rrtBlock), 32)] (ob_new io)))
       (RtcpXrReportBlock_create XR_RECEIVER_REFERENCE_TIME_BLOCK 0)"

definition dlrr_fields :: "DlrrBlock \<Rightarrow> (nat \<times> nat) list" where
  "dlrr_fields d = [(unat (db_SSRC d), 32), (unat (db_LastRR d), 32), (unat (db_DLRR d), 32)]"

definition createDlrrXrReportBlock :: "('i, 'o) bit_io \<Rightarrow> DlrrBlock list \<Rightarrow> RtcpXrReportBlock" where
  "createDlrrXrReportBlock io vDllrInfo =
     setRawXrBlockContent (ob_str io (foldl (\<lambda>ob d. writes io (dlrr_fields d) ob) (ob_new io) vDllrInfo))
       (RtcpXrReportBlock_create XR_DLRR_BLOCK 0)"

definition parseReceiverReferenceTimeReportBlock ::
  "('i, 'o) bit_io \<Rightarrow> RtcpXrReportBlock \<Rightarrow> ReceiverReferenceTimeReportBlock option" where
  "parseReceiverReferenceTimeReportBlock io xrBlock =
     (if xb_uiBlockType xrBlock \<noteq> XR_RECEIVER_REFERENCE_TIME_BLOCK then None
      else if unat (getBlockLength xrBlock) \<noteq> XR_RECEIVER_REFERENCE_TIME_BLOCK_LENGTH then None
      else if length (xb_rawXrBlockContent xrBlock) \<noteq> XR_RECEIVER_REFERENCE_TIME_BLOCK_LENGTH * 4 then None
      else case reads io [(0, 32), (0, 32)] (ib_open io (xb_rawXrBlockContent xrBlock)) of (v, _) \<Rightarrow>
             Some \<lparr>rt_NtpTimestampMsw = of_nat (v ! 0), rt_NtpTimestampLsw = of_nat (v ! 1)\<rparr>)"

fun read_dlrr_blocks :: "('i, 'o) bit_io \<Rightarrow> nat \<Rightarrow> 'i \<Rightarrow> DlrrBlock list" where
  "read_dlrr_blocks io 0 ib = []"
| "read_dlrr_blocks io (Suc n) ib =
     (case reads io [(0, 32), (0, 32), (0, 32)] ib of (v, ib1) \<Rightarrow>
        \<lparr>db_SSRC = of_nat (v ! 0), db_LastRR = of_nat (v ! 1), db_DLRR = of_nat (v ! 2)\<rparr> # read_dlrr_blocks io n ib1)"

definition parseDlrrReportBlock :: "('i, 'o) bit_io \<Rightarrow> RtcpXrReportBlock \<Rightarrow> DlrrBlock list option" where
  "parseDlrrReportBlock io xrBlock =
     (let uiNumberOfBlocks = unat (getBlockLength xrBlock) div 3; uiSize = unat (getBlockLength xrBlock) * 4
      in if xb_uiBlockType xrBlock \<noteq> XR_DLRR_BLOCK then None
         else if uiNumberOfBlocks = 0 then None
         else if uiSize \<noteq> length (xb_rawXrBlockContent xrBlock) then None
         else Some (read_dlrr_blocks io uiNumberOfBlocks (ib_open io (xb_rawXrBlockContent xrBlock))))"

section \<open>Member entries\<close>

record XrMemberEntry =
  xe_base :: MemberEntry
  xe_uiXrLrr :: u32
  xe_uiXrDlrr :: u32
  xe_uiXrLrr_sender :: u32
  xe_uiXrDlrr_sender :: u32
  xe_uiXrNtpArrival :: u32
  xe_dXrRtt :: rat
  xe_tXrLrr :: ptime
  xe_tXrDlrr :: int

definition XrMemberEntry_create :: "u32 \<Rightarrow> int \<Rightarrow> XrMemberEntry" where
  "XrMemberEntry_create uiSSRC tNow = \<lparr>xe_base = MemberEntry_create uiSSRC tNow, xe_uiXrLrr = 0, xe_uiXrDlrr = 0,
     xe_uiXrLrr_sender = 0, xe_uiXrDlrr_sender = 0, xe_uiXrNtpArrival = 0, xe_dXrRtt = 0, xe_tXrLrr = None, xe_tXrDlrr = 0\<rparr>"

definition processDLRRBlock :: "u64 \<Rightarrow> DlrrBlock \<Rightarrow> XrMemberEntry \<Rightarrow> XrMemberEntry" where
  "processDLRRBlock uiNtpArrivalTs dlrrBlock m =
     (let m1 = m\<lparr>xe_uiXrLrr_sender := db_LastRR dlrrBlock\<rparr>
      in if xe_uiXrLrr_sender m1 = 0 then m1
         else let uiXrNtpArrival = ucast (drop_bit 16 uiNtpArrivalTs AND 0xFFFFFFFF);
                  uiXrDlrr_sender = db_DLRR dlrrBlock;
                  iRtt = uiXrNtpArrival - uiXrDlrr_sender - xe_uiXrLrr_sender m1;
                  uiRtt = (if sint iRtt \<ge> 0 then iRtt else 0)
              in m1\<lparr>xe_uiXrNtpArrival := uiXrNtpArrival, xe_uiXrDlrr_sender := uiXrDlrr_sender,
                    xe_dXrRtt := of_nat (unat uiRtt) / 65536\<rparr>)"

definition xr_process_block :: "('i, 'o) bit_io \<Rightarrow> int \<Rightarrow> u64 \<Rightarrow> RtcpXrReportBlock \<Rightarrow> XrMemberEntry \<Rightarrow> XrMemberEntry" where
  "xr_process_block io tNow uiNtpArrivalTs xrBlock m =
     (if xb_uiBlockType xrBlock = XR_RECEIVER_REFERENCE_TIME_BLOCK
      then (case parseReceiverReferenceTimeReportBlock io xrBlock of
              None \<Rightarrow> m
            | Some rrtBlock \<Rightarrow>
                m\<lparr>xe_tXrLrr := Some tNow,
                  xe_uiXrLrr := push_bit 16 (rt_NtpTimestampMsw rrtBlock AND 0xFFFF) OR (drop_bit 16 (rt_NtpTimestampLsw rrtBlock) AND 0xFFFF)\<rparr>)
      else if xb_uiBlockType xrBlock = XR_DLRR_BLOCK
      then (case parseDlrrReportBlock io xrBlock of
              None \<Rightarrow> m
            | Some blocks \<Rightarrow> fold (\<lambda>dlrrBlock m. if isRelevantToParticipant (db_SSRC dlrrBlock) (xe_base m)
                                              then processDLRRBlock uiNtpArrivalTs dlrrBlock m else m) blocks m)
      else m)"

definition XrMemberEntry_onXrReceived :: "('i, 'o) bit_io \<Rightarrow> int \<Rightarrow> RtcpXr \<Rightarrow> XrMemberEntry \<Rightarrow> XrMemberEntry" where
  "XrMemberEntry_onXrReceived io tNow rXr m =
     fold (xr_process_block io tNow (rb_uiArrivalTimeNtp (xr_base rXr))) (xr_vReports rXr)
       (m\<lparr>xe_base := onReceiveRtcpPacket tNow (xe_base m)\<rparr>)"

definition XrMemberEntry_finaliseData :: "int \<Rightarrow> XrMemberEntry \<Rightarrow> XrMemberEntry" where
  "XrMemberEntry_finaliseData tNow m =
     (let tXrDlrr = (case xe_tXrLrr m of None \<Rightarrow> 0 | Some t \<Rightarrow> tNow - t);
          uiSeconds = (of_int (total_seconds tXrDlrr) :: u32);
          uiMicroseconds = (of_int (fractional_seconds tXrDlrr) :: u32);
          dDelay = fadd (of_nat (unat uiSeconds)) (fdiv (of_nat (unat uiMicroseconds)) 1000000)
      in m\<lparr>xe_tXrDlrr := tXrDlrr, xe_uiXrDlrr := convertDelaySinceLastSenderReportToDlsr dDelay\<rparr>)"

section \<open>Round trips\<close>

definition xr_block_bits :: "RtcpXrReportBlock \<Rightarrow> bool list" where
  "xr_block_bits b = to_bits 8 (unat (xb_uiBlockType b)) @ to_bits 8 (unat (xb_uiTypeSpecific b))
     @ to_bits 16 (length (xb_rawXrBlockContent b) div 4) @ bytes_bits (xb_rawXrBlockContent b)"

definition xr_block_ok :: "RtcpXrReportBlock \<Rightarrow> bool" where
  "xr_block_ok b \<longleftrightarrow> 4 dvd length (xb_rawXrBlockContent b) \<and> length (xb_rawXrBlockContent b) div 4 < 2 ^ 16 - 2"

lemma ucast_u16_u32_nat: "unat (x :: u16) = n \<Longrightarrow> (ucast x :: u32) = of_nat n"
  by (drule arg_cong [of _ _ "of_nat :: nat \<Rightarrow> u32"]) simp

lemma unat_getBlockLength: "xr_block_ok b \<Longrightarrow> unat (getBlockLength b) = length (xb_rawXrBlockContent b) div 4"
  by (simp add: getBlockLength_def xr_block_ok_def unat_of_nat take_bit_eq_mod)

context bit_stream
begin

lemma xr_block_write_bits:
  assumes "xr_block_ok b"
  shows "obits (RtcpXrReportBlock_write io b ob) = obits ob @ xr_block_bits b"
proof -
  have "unat w < 256" for w :: u8 using unsigned_less [of w, where ?'a = nat] by simp
  then show ?thesis
    using assms by (simp add: RtcpXrReportBlock_write_def writeBytes_bits writes_bits xr_block_bits_def xr_block_ok_def)
qed

lemma xr_block_read:
  assumes ok: "xr_block_ok b" and bits: "ibits ib = xr_block_bits b @ rest"
  obtains ib' where "RtcpXrReportBlock_read io (RtcpXrReportBlock_create 0 0) ib = (b\<lparr>xb_uiBlockLength := getBlockLength b\<rparr>, ib')"
    and "ibits ib' = rest"
proof -
  let ?n = "length (xb_rawXrBlockContent b) div 4"
  have lt: "unat w < 256" for w :: u8 using unsigned_less [of w, where ?'a = nat] by simp
  obtain ib1 where r1: "reads io [(0, 8), (0, 8), (0, 16)] ib = ([unat (xb_uiBlockType b), unat (xb_uiTypeSpecific b), ?n], ib1)"
    and b1: "ibits ib1 = bytes_bits (xb_rawXrBlockContent b) @ rest"
    by (rule reads_fields [of "[(0, 8), (0, 8), (0, 16)]" "[(unat (xb_uiBlockType b), 8), (unat (xb_uiTypeSpecific b), 8), (?n, 16)]"
          ib "bytes_bits (xb_rawXrBlockContent b) @ rest"])
      (use ok bits lt in \<open>simp_all add: xr_block_bits_def xr_block_ok_def\<close>)
  obtain ib2 where r2: "ib_readBytes io ib1 (length (xb_rawXrBlockContent b)) = (True, xb_rawXrBlockContent b, ib2)" and b2: "ibits ib2 = rest"
    using readBytes_bits [OF b1] by blast
  have "?n * 4 = length (xb_rawXrBlockContent b)" using ok by (simp add: xr_block_ok_def)
  then have "RtcpXrReportBlock_read io (RtcpXrReportBlock_create 0 0) ib = (b\<lparr>xb_uiBlockLength := getBlockLength b\<rparr>, ib2)"
    using r1 r2 by (cases b) (simp add: RtcpXrReportBlock_read_def RtcpXrReportBlock_create_def getBlockLength_def)
  then show thesis using that b2 by blast
qed

lemma xr_packet_read:
  assumes ok: "xr_block_ok b"
    and bits: "ibits ib = obits (RtcpXr_writeTypeSpecific io (RtcpXr_addReportBlock b (RtcpXr_create uiSSRC)) (ob_new io)) @ rest"
  shows "\<exists>p ib'. RtcpXr_readTypeSpecific io
       (RtcpXr_raw 2 False 1 (rb_uiLength (xr_base (RtcpXr_addReportBlock b (RtcpXr_create uiSSRC))))) ib = (p, ib')
     \<and> xr_uiReporterSSRC p = uiSSRC \<and> xr_vReports p = [b\<lparr>xb_uiBlockLength := getBlockLength b\<rparr>] \<and> ibits ib' = rest"
proof -
  let ?n = "length (xb_rawXrBlockContent b) div 4"
  have ssrc: "unat uiSSRC < 2 ^ 32" using unsigned_less [of uiSSRC, where ?'a = nat] by simp
  have b0: "ibits ib = to_bits 32 (unat uiSSRC) @ xr_block_bits b @ rest"
    using bits xr_block_write_bits [OF ok] ssrc
    by (simp add: RtcpXr_writeTypeSpecific_def RtcpXr_addReportBlock_def RtcpXr_create_def write_bits new_bits Let_def)
  obtain ib1 where r1: "ib_read io ib 0 32 = (True, unat uiSSRC, ib1)" and b1: "ibits ib1 = xr_block_bits b @ rest"
    using read_field [OF b0 ssrc] by blast
  obtain ib2 where r2: "RtcpXrReportBlock_read io (RtcpXrReportBlock_create 0 0) ib1 = (b\<lparr>xb_uiBlockLength := getBlockLength b\<rparr>, ib2)"
    and b2: "ibits ib2 = rest" using xr_block_read [OF ok b1] by blast
  let ?len = "rb_uiLength (xr_base (RtcpXr_addReportBlock b (RtcpXr_create uiSSRC)))"
  have len: "?len = of_nat (?n + 2)"
    using unat_getBlockLength [OF ok] by (simp add: RtcpXr_addReportBlock_def Let_def RtcpXr_create_def setLength_def xr_constants)
  have "unat (of_nat (?n + 2) :: u16) = ?n + 2" using ok by (intro unat_of_nat_u16) (simp add: xr_block_ok_def)
  then have rem: "(ucast ?len :: u32) - of_nat BASIC_XR_LENGTH = of_nat (?n + 1)"
    unfolding len BASIC_XR_LENGTH_def by (simp add: ucast_u16_u32_nat del: of_nat_add)
  have blk: "(ucast (getBlockLength b) :: u32) = of_nat ?n" by (rule ucast_u16_u32_nat [OF unat_getBlockLength [OF ok]])
  have small: "unat (of_nat (?n + 1) :: u32) = ?n + 1" using ok by (intro unat_of_nat_u32) (simp add: xr_block_ok_def)
  have same: "getBlockLength (b\<lparr>xb_uiBlockLength := getBlockLength b\<rparr>) = getBlockLength b" by (simp add: getBlockLength_def)
  have "read_xr_blocks io 0 (of_nat (?n + 1)) ib1 = ([b\<lparr>xb_uiBlockLength := getBlockLength b\<rparr>], ib2)"
    using small r2 by (subst read_xr_blocks.simps, subst read_xr_blocks.simps) (simp add: same blk)
  then show ?thesis
    using r1 b2 rem unfolding RtcpXr_readTypeSpecific_def by (simp add: RtcpXr_raw_def RtcpPacketBase_raw_def)
qed

lemma dlrr_fields_ok [simp]: "fields_ok (dlrr_fields d)"
  by (simp add: dlrr_fields_def)

lemma dlrr_content:
  "bytes_bits (ob_str io (foldl (\<lambda>ob d. writes io (dlrr_fields d) ob) (ob_new io) ds)) = concat (map (\<lambda>d. fields_bits (dlrr_fields d)) ds)"
proof -
  have "obits (foldl (\<lambda>ob d. writes io (dlrr_fields d) ob) (ob_new io) ds) = concat (map (\<lambda>d. fields_bits (dlrr_fields d)) ds)"
    using foldl_write_bits [of ds "\<lambda>ob d. writes io (dlrr_fields d) ob"] by (simp add: writes_bits new_bits)
  moreover have "8 dvd length (concat (map (\<lambda>d. fields_bits (dlrr_fields d)) ds))"
    by (induction ds) (simp_all add: dlrr_fields_def)
  ultimately show ?thesis using str_bits by metis
qed

lemma read_dlrr_blocks_bits:
  "ibits ib = concat (map (\<lambda>d. fields_bits (dlrr_fields d)) ds) @ rest \<Longrightarrow> read_dlrr_blocks io (length ds) ib = ds"
proof (induction ds arbitrary: ib)
  case (Cons d ds)
  obtain ib1 where "reads io [(0, 32), (0, 32), (0, 32)] ib = (map fst (dlrr_fields d), ib1)"
    and "ibits ib1 = concat (map (\<lambda>d. fields_bits (dlrr_fields d)) ds) @ rest"
    by (rule reads_fields [of "[(0, 32), (0, 32), (0, 32)]" "dlrr_fields d" ib])
      (use Cons.prems in \<open>simp_all add: dlrr_fields_def\<close>)
  then show ?case using Cons.IH by (cases d) (simp add: dlrr_fields_def)
qed simp

lemma dlrr_block_parsed:
  assumes "ds \<noteq> []" and "length ds \<le> 20000"
  shows "xr_block_ok (createDlrrXrReportBlock io ds)"
    and "parseDlrrReportBlock io ((createDlrrXrReportBlock io ds)\<lparr>xb_uiBlockLength := w\<rparr>) = Some ds"
proof -
  let ?raw = "ob_str io (foldl (\<lambda>ob d. writes io (dlrr_fields d) ob) (ob_new io) ds)"
  have "length (concat (map (\<lambda>d. fields_bits (dlrr_fields d)) ds)) = 96 * length ds"
    by (induction ds) (simp_all add: dlrr_fields_def)
  then have len: "length ?raw = 12 * length ds" using arg_cong [OF dlrr_content, of length ds] by simp
  then show ok: "xr_block_ok (createDlrrXrReportBlock io ds)"
    using assms(2) by (simp add: xr_block_ok_def createDlrrXrReportBlock_def setRawXrBlockContent_def)
  let ?b = "(createDlrrXrReportBlock io ds)\<lparr>xb_uiBlockLength := w\<rparr>"
  have "xr_block_ok ?b" using ok by (simp add: xr_block_ok_def)
  then have "unat (getBlockLength ?b) = 3 * length ds"
    using len by (simp add: unat_getBlockLength createDlrrXrReportBlock_def setRawXrBlockContent_def)
  moreover have "read_dlrr_blocks io (length ds) (ib_open io ?raw) = ds"
    by (rule read_dlrr_blocks_bits [of _ _ "[]"]) (simp add: open_bits dlrr_content)
  ultimately show "parseDlrrReportBlock io ?b = Some ds"
    using len assms(1) by (simp add: parseDlrrReportBlock_def createDlrrXrReportBlock_def setRawXrBlockContent_def RtcpXrReportBlock_create_def Let_def)
qed

lemma rrt_block_parsed:
  shows "xr_block_ok (createReceiverRttXrReportBlock io t)"
    and "parseReceiverReferenceTimeReportBlock io ((createReceiverRttXrReportBlock io t)\<lparr>xb_uiBlockLength := w\<rparr>) = Some t"
proof -
  let ?fs = "[(unat (rt_NtpTimestampMsw t), 32), (unat (rt_NtpTimestampLsw t), 32)]"
  let ?raw = "ob_str io (writes io ?fs (ob_new io))"
  have "obits (writes io ?fs (ob_new io)) = fields_bits ?fs" by (simp add: writes_bits new_bits)
  then have bits: "bytes_bits ?raw = fields_bits ?fs" using str_bits [of "writes io ?fs (ob_new io)"] by simp
  have len: "length ?raw = 8" using arg_cong [OF bits, of length] by simp
  then show ok: "xr_block_ok (createReceiverRttXrReportBlock io t)"
    by (simp add: xr_block_ok_def createReceiverRttXrReportBlock_def setRawXrBlockContent_def)
  let ?b = "(createReceiverRttXrReportBlock io t)\<lparr>xb_uiBlockLength := w\<rparr>"
  have "xr_block_ok ?b" using ok by (simp add: xr_block_ok_def)
  then have "unat (getBlockLength ?b) = 2"
    using len by (simp add: unat_getBlockLength createReceiverRttXrReportBlock_def setRawXrBlockContent_def)
  moreover obtain ib' where "reads io [(0, 32), (0, 32)] (ib_open io ?raw) = (map fst ?fs, ib')"
    by (rule reads_fields [of "[(0, 32), (0, 32)]" ?fs "ib_open io ?raw" "[]"]) (simp_all add: open_bits bits)
  ultimately show "parseReceiverReferenceTimeReportBlock io ?b = Some t"
    using len by (cases t) (simp add: parseReceiverReferenceTimeReportBlock_def createReceiverRttXrReportBlock_def
        setRawXrBlockContent_def RtcpXrReportBlock_create_def xr_constants)
qed

end

end
