(* ===== verification/Rtcp_Interval.thy ===== *)
theory Rtcp_Interval
  imports Rtp_Time
begin

text \<open>
  The interval between RTCP reports: \<open>rfc3550/ComputeRtcpInterval.cpp\<close> and the transmission timers
  \<open>RtcpTransmissionTimerBase.cpp\<close>, \<open>rfc3550/RtcpTransmissionTimer.cpp\<close> and
  \<open>rfc4585/Rfc4585RtcpTransmissionTimer.cpp\<close>. Intervals are doubles in seconds; \<open>None\<close> is an infinite value or
  not a number, which arises only from a division by zero and which every later step keeps. The
  random generator is a pair of the number drawn and \<open>RAND_MAX\<close>. The main results are that the
  members of a session together stay within the bandwidth share of RTCP, and the bounds of the interval.
\<close>

section \<open>Rounding is monotone\<close>

lemma round_half_even_mono:
  assumes "y \<le> z"
  shows "round_half_even y \<le> round_half_even z"
proof -
  have b: "\<lfloor>w\<rfloor> \<le> round_half_even w" "round_half_even w \<le> \<lfloor>w\<rfloor> + 1" for w
    by (simp_all add: round_half_even_def Let_def)
  show ?thesis
  proof (cases "\<lfloor>y\<rfloor> = \<lfloor>z\<rfloor>")
    case True
    then show ?thesis using assms by (auto simp: round_half_even_def Let_def)
  next
    case False
    then have "\<lfloor>y\<rfloor> + 1 \<le> \<lfloor>z\<rfloor>" using floor_mono [OF assms] by linarith
    then show ?thesis using b [of y] b [of z] by linarith
  qed
qed

lemma round_half_even_of_int [simp]: "round_half_even (of_int n) = n"
  by (simp add: round_half_even_def)

lemma rat_exponent_upper:
  assumes "0 < x"
  shows "x < 2 powi (rat_exponent x + 1)"
proof -
  obtain n d where nd: "quotient_of x = (n, d)" by (cases "quotient_of x")
  have d: "0 < d" and x: "x = of_int n / of_int d" using nd quotient_of_denom_pos quotient_of_div by auto
  then have n: "0 < n" using assms by (simp add: zero_less_divide_iff)
  define k where "k = bitlen n - bitlen d"
  have "n < 2 ^ nat (bitlen n)" using bitlen_bounds [OF n] by simp
  then have "(of_int n :: rat) < 2 ^ nat (bitlen n)" by (metis of_int_less_iff of_int_numeral of_int_power)
  then have nup: "(of_int n :: rat) < 2 powi (bitlen n)" by (simp add: power_int_def bitlen_nonneg)
  have "2 ^ nat (bitlen d - 1) \<le> d" using bitlen_bounds [OF d] by simp
  then have "(2 ^ nat (bitlen d - 1) :: rat) \<le> of_int d" by (metis of_int_le_iff of_int_numeral of_int_power)
  moreover have "0 < bitlen d" using d by (simp add: bitlen_nonneg order_less_le bitlen_eq_zero_iff)
  ultimately have dlow: "2 powi (bitlen d - 1) \<le> (of_int d :: rat)" by (simp add: power_int_def)
  have "x < 2 powi (bitlen n) / 2 powi (bitlen d - 1)"
    unfolding x using nup dlow n by (intro frac_less) simp_all
  also have "\<dots> = (2 :: rat) powi (k + 1)" by (simp add: k_def power_int_diff power_int_add)
  finally have "x < 2 powi (k + 1)" .
  then show ?thesis by (auto simp: rat_exponent_def nd k_def [symmetric] Let_def)
qed

lemma rat_exponent_mono:
  assumes "0 < x" and "x \<le> y"
  shows "rat_exponent x \<le> rat_exponent y"
proof (rule ccontr)
  assume "\<not> rat_exponent x \<le> rat_exponent y"
  then have "(2 :: rat) powi (rat_exponent y + 1) \<le> 2 powi (rat_exponent x)" by (intro power_int_increasing) simp_all
  then show False using rat_exponent_lower [OF assms(1)] rat_exponent_upper [of y] assms by linarith
qed

lemma round_double_between:
  assumes "0 < x"
  shows "2 powi (rat_exponent x) \<le> round_double x" and "round_double x \<le> 2 powi (rat_exponent x + 1)"
proof -
  define u where "u = (2 :: rat) powi (rat_exponent x - 52)"
  have u: "0 < u" by (simp add: u_def)
  have pow: "of_int (2 ^ 52) * u = 2 powi (rat_exponent x)" "of_int (2 ^ 53) * u = 2 powi (rat_exponent x + 1)"
    by (simp_all add: u_def power_int_diff power_int_add)
  have rd: "round_double x = of_int (round_half_even (x / u)) * u" using assms by (simp add: round_double_def u_def Let_def)
  have "of_int (2 ^ 52) \<le> x / u" "x / u \<le> of_int (2 ^ 53)"
    using rat_exponent_lower [OF assms] rat_exponent_upper [OF assms] u
    unfolding pow [symmetric] by (simp_all add: pos_le_divide_eq pos_divide_le_eq)
  then have "(2 :: int) ^ 52 \<le> round_half_even (x / u)" "round_half_even (x / u) \<le> (2 :: int) ^ 53"
    using round_half_even_mono round_half_even_of_int by metis+
  then have "(of_int (2 ^ 52) :: rat) \<le> of_int (round_half_even (x / u))"
    "(of_int (round_half_even (x / u)) :: rat) \<le> of_int (2 ^ 53)" unfolding of_int_le_iff by simp_all
  then show "2 powi (rat_exponent x) \<le> round_double x" "round_double x \<le> 2 powi (rat_exponent x + 1)"
    unfolding rd pow [symmetric] using u by (simp_all del: of_int_power of_int_numeral)
qed

lemma round_double_mono:
  assumes "0 \<le> x" and "x \<le> y"
  shows "round_double x \<le> round_double y"
proof -
  consider "x = 0" | "0 < x" "rat_exponent x = rat_exponent y" | "0 < x" "rat_exponent x + 1 \<le> rat_exponent y"
    using assms rat_exponent_mono [of x y] by linarith
  then show ?thesis
  proof cases
    case 1
    then show ?thesis using round_double_bounds(3) [of y y] assms by (simp add: round_double_def)
  next
    case 2
    define u where "u = (2 :: rat) powi (rat_exponent y - 52)"
    have u: "0 < u" by (simp add: u_def)
    have "round_half_even (x / u) \<le> round_half_even (y / u)"
      using assms u by (intro round_half_even_mono divide_right_mono) simp_all
    then have "of_int (round_half_even (x / u)) * u \<le> of_int (round_half_even (y / u)) * u"
      using u by (intro mult_right_mono) simp_all
    then show ?thesis using 2 assms by (simp add: round_double_def u_def Let_def)
  next
    case 3
    then have "(2 :: rat) powi (rat_exponent x + 1) \<le> 2 powi (rat_exponent y)" by (intro power_int_increasing) simp_all
    then show ?thesis using round_double_between(2) [of x] round_double_between(1) [of y] 3 assms by linarith
  qed
qed

section \<open>The interval of RFC 3550\<close>

definition MINIMUM_RTCP_INTERVAL_SECONDS :: u32 where "MINIMUM_RTCP_INTERVAL_SECONDS = 5"

definition RECOMMENDED_RTCP_BANDWIDTH_PERCENTAGE :: u32 where "RECOMMENDED_RTCP_BANDWIDTH_PERCENTAGE = 5"

definition TIMEOUT_MULTIPLIER :: u32 where "TIMEOUT_MULTIPLIER = 5"

definition of_u32 :: "u32 \<Rightarrow> rat" where "of_u32 w = of_nat (unat w)"

text \<open>Division of doubles whose divisor may be zero.\<close>

definition fdivide :: "rat \<Rightarrow> rat \<Rightarrow> rat option" where
  "fdivide x y = (if y = 0 then None else Some (fdiv x y))"

type_synonym rand = "nat \<times> nat"

definition fRand :: "rand \<Rightarrow> rat \<Rightarrow> rat \<Rightarrow> rat" where
  "fRand rnd fMin fMax =
     (case rnd of (r, RAND_MAX) \<Rightarrow>
        let f = fdiv (of_nat r) (of_nat RAND_MAX) in fadd fMin (fmul f (fsub fMax fMin)))"

definition updateIntervalAccordingToMinimum :: "rat option \<Rightarrow> bool \<Rightarrow> u32 \<Rightarrow> bool \<Rightarrow> rat option" where
  "updateIntervalAccordingToMinimum dTransmissionInterval bUseReducedMinimum uiSessionBandwidthKbps bInitial =
     (let dMin = (if bUseReducedMinimum then fdivide 360 (of_u32 uiSessionBandwidthKbps)
                  else if bInitial then Some (fdiv (of_u32 MINIMUM_RTCP_INTERVAL_SECONDS) 2)
                  else Some (of_u32 MINIMUM_RTCP_INTERVAL_SECONDS))
      in case (dTransmissionInterval, dMin) of
           (Some dInterval, Some dMin) \<Rightarrow> Some (if dInterval < dMin then dMin else dInterval)
         | (Some dInterval, None) \<Rightarrow> None
         | (None, _) \<Rightarrow> None)"

definition computeDeterministicRtcpIntervalSeconds :: "bool \<Rightarrow> u32 \<Rightarrow> u32 \<Rightarrow> rat \<Rightarrow> rat \<Rightarrow> rat option" where
  "computeDeterministicRtcpIntervalSeconds bIsSender uiSenders uiTotalMembers dAverageRtcpSize dRtcpBw =
     (let ui25PercentOfMembers = drop_bit 2 uiTotalMembers
      in if uiSenders > 0 \<and> uiSenders \<le> ui25PercentOfMembers
         then (if bIsSender
               then fdivide (fmul dAverageRtcpSize (of_u32 uiSenders)) (fmul dRtcpBw (1 / 4))
               else fdivide (fmul dAverageRtcpSize (of_u32 (uiTotalMembers - uiSenders))) (fmul dRtcpBw (3 / 4)))
         else fdivide (fmul dAverageRtcpSize (of_u32 uiTotalMembers)) dRtcpBw)"

text \<open>The decimal constant that compensates for timer reconsideration, e - 3/2, as a double.\<close>

definition COMPENSATION :: rat where "COMPENSATION = round_double (121828 / 100000)"

definition computeRtcpIntervalSeconds ::
  "rand \<Rightarrow> bool \<Rightarrow> u32 \<Rightarrow> u32 \<Rightarrow> rat \<Rightarrow> u32 \<Rightarrow> bool \<Rightarrow> bool \<Rightarrow> bool \<Rightarrow> rat option" where
  "computeRtcpIntervalSeconds rnd bIsSender uiSenders uiTotalMembers dAverageRtcpSize uiRtcpBwKbps bUseReducedMinimum bInitial bRandomise =
     (let dRtcpBw = fmul (of_u32 uiRtcpBwKbps) (25 / 4);
          d1 = computeDeterministicRtcpIntervalSeconds bIsSender uiSenders uiTotalMembers dAverageRtcpSize dRtcpBw;
          d2 = updateIntervalAccordingToMinimum d1 bUseReducedMinimum uiRtcpBwKbps bInitial;
          d3 = (if bRandomise then map_option (\<lambda>d. fmul d (fRand rnd (1 / 2) (3 / 2))) d2 else d2);
          d4 = map_option (\<lambda>d. fdiv d COMPENSATION) d3
      in if bInitial then map_option (\<lambda>d. fmul d (1 / 2)) d4 else d4)"

section \<open>Transmission timers\<close>

text \<open>The base class with its flag, and the two classes that implement it.\<close>

datatype RtcpTransmissionTimerKind = Rfc3550RtcpTransmissionTimer bool bool | Rfc4585TransmissionTimer bool

record RtcpTransmissionTimer =
  tt_kind :: RtcpTransmissionTimerKind
  tt_bInitial :: bool

definition RtcpTransmissionTimer_create :: "RtcpTransmissionTimerKind \<Rightarrow> RtcpTransmissionTimer" where
  "RtcpTransmissionTimer_create k = \<lparr>tt_kind = k, tt_bInitial = True\<rparr>"

definition rfc3550_doComputeRtcpIntervalSeconds ::
  "bool \<Rightarrow> bool \<Rightarrow> rand \<Rightarrow> bool \<Rightarrow> u32 \<Rightarrow> u32 \<Rightarrow> u32 \<Rightarrow> u32 \<Rightarrow> bool \<Rightarrow> rat option" where
  "rfc3550_doComputeRtcpIntervalSeconds bUseReducedMinimum bIsMulticast rnd bIsSender uiSenderCount uiMemberCount
     uiAverageRtcpSizeBytes uiSessionBandwidthKbps bInitial =
     (if bInitial \<and> bIsSender \<and> \<not> bIsMulticast then Some 0
      else computeRtcpIntervalSeconds rnd bIsSender uiSenderCount uiMemberCount (of_u32 uiAverageRtcpSizeBytes)
             uiSessionBandwidthKbps bUseReducedMinimum bInitial True)"

definition rfc4585_doComputeRtcpIntervalSeconds ::
  "bool \<Rightarrow> rand \<Rightarrow> bool \<Rightarrow> u32 \<Rightarrow> u32 \<Rightarrow> u32 \<Rightarrow> u32 \<Rightarrow> bool \<Rightarrow> rat option" where
  "rfc4585_doComputeRtcpIntervalSeconds bPointToPoint rnd bIsSender uiSenderCount uiMemberCount
     uiAverageRtcpSizeBytes uiSessionBandwidthKbps bInitial =
     (let dRtcpBw = fmul (of_u32 uiSessionBandwidthKbps) (25 / 4);
          d1 = computeDeterministicRtcpIntervalSeconds bIsSender uiSenderCount uiMemberCount (of_u32 uiAverageRtcpSizeBytes) dRtcpBw;
          d2 = (if bInitial \<and> bPointToPoint then map_option (\<lambda>d. if d < 1 then 1 else d) d1 else d1);
          d3 = map_option (\<lambda>d. fmul d (fRand rnd (1 / 2) (3 / 2))) d2
      in map_option (\<lambda>d. fdiv d COMPENSATION) d3)"

definition timer_computeRtcpIntervalSeconds ::
  "rand \<Rightarrow> bool \<Rightarrow> u32 \<Rightarrow> u32 \<Rightarrow> u32 \<Rightarrow> u32 \<Rightarrow> RtcpTransmissionTimer \<Rightarrow> rat option \<times> RtcpTransmissionTimer" where
  "timer_computeRtcpIntervalSeconds rnd bIsSender uiSenderCount uiMemberCount uiAverageRtcpSize uiSessionBandwidthKbps tt =
     (let dInterval = (case tt_kind tt of
            Rfc3550RtcpTransmissionTimer bUseReducedMinimum bIsMulticast \<Rightarrow>
              rfc3550_doComputeRtcpIntervalSeconds bUseReducedMinimum bIsMulticast rnd bIsSender uiSenderCount uiMemberCount
                uiAverageRtcpSize uiSessionBandwidthKbps (tt_bInitial tt)
          | Rfc4585TransmissionTimer bPointToPoint \<Rightarrow>
              rfc4585_doComputeRtcpIntervalSeconds bPointToPoint rnd bIsSender uiSenderCount uiMemberCount
                uiAverageRtcpSize uiSessionBandwidthKbps (tt_bInitial tt))
      in (dInterval, if tt_bInitial tt then tt\<lparr>tt_bInitial := False\<rparr> else tt))"

section \<open>Bandwidth share and bounds\<close>

lemma round_double_near:
  assumes "0 < x"
  shows "x * (1 - 1 / 2 ^ 53) \<le> round_double x" and "round_double x \<le> x * (1 + 1 / 2 ^ 53)" and "0 < round_double x"
proof -
  have e: "\<bar>round_double x - x\<bar> \<le> x / 2 ^ 53" using round_double_error [of x] assms by simp
  show l: "x * (1 - 1 / 2 ^ 53) \<le> round_double x" and "round_double x \<le> x * (1 + 1 / 2 ^ 53)"
    using abs_le_D1 [OF e] abs_le_D2 [OF e] by (simp_all add: algebra_simps)
  show "0 < round_double x" by (rule less_le_trans [OF _ l]) (use assms in simp)
qed

lemma rate_of_interval:
  assumes "0 < a" and "0 < k" and "0 < b" and "b' \<le> b * (1 + 1 / 2 ^ 53)" and "0 < b'"
  shows "k * a / fdiv (fmul a k) b' \<le> b * (1 + 1 / 2 ^ 50)"
proof -
  let ?e = "1 / 2 ^ 53 :: rat"
  have m: "a * k * (1 - ?e) \<le> fmul a k" "0 < fmul a k"
    using round_double_near [of "a * k"] assms by (simp_all add: fmul_def)
  have d: "fmul a k / b' * (1 - ?e) \<le> fdiv (fmul a k) b'" "0 < fdiv (fmul a k) b'"
    using round_double_near [of "fmul a k / b'"] m(2) assms by (simp_all add: fdiv_def)
  have "a * k * (1 - ?e) * (1 - ?e) / b' \<le> fmul a k * (1 - ?e) / b'"
    using m assms by (intro divide_right_mono mult_right_mono) simp_all
  also have "\<dots> \<le> fdiv (fmul a k) b'" using d(1) by simp
  finally have "a * k * ((1 - ?e) * (1 - ?e)) \<le> fdiv (fmul a k) b' * b'" using assms by (simp add: pos_divide_le_eq mult.assoc)
  also have "\<dots> \<le> fdiv (fmul a k) b' * (b * (1 + ?e))" using assms d by (intro mult_left_mono) simp_all
  finally have "a * k * ((1 - ?e) * (1 - ?e)) \<le> fdiv (fmul a k) b' * b * (1 + ?e)" by (simp add: mult.assoc)
  moreover have "fdiv (fmul a k) b' * b * (1 + ?e) \<le> fdiv (fmul a k) b' * b * ((1 + 1 / 2 ^ 50) * ((1 - ?e) * (1 - ?e)))"
    using assms d by (intro mult_left_mono) simp_all
  ultimately have "a * k * ((1 - ?e) * (1 - ?e)) \<le> (fdiv (fmul a k) b' * b * (1 + 1 / 2 ^ 50)) * ((1 - ?e) * (1 - ?e))"
    by (simp only: mult.assoc)
  then have "a * k \<le> fdiv (fmul a k) b' * b * (1 + 1 / 2 ^ 50)"
    by (rule mult_right_le_imp_le) simp
  then show ?thesis using d(2) by (simp add: pos_divide_le_eq mult.commute mult.left_commute)
qed

lemma fmul_upper: "0 < b \<Longrightarrow> 0 < c \<Longrightarrow> fmul b c \<le> (b * c) * (1 + 1 / 2 ^ 53) \<and> 0 < fmul b c"
  using round_double_near [of "b * c"] by (simp add: fmul_def)

lemma of_u32_pos: "0 < w \<Longrightarrow> 0 < of_u32 w"
  by (simp add: of_u32_def word_less_nat_alt del: word_of_nat_eq_0_iff of_nat_unat)

lemma of_u32_minus: "v \<le> w \<Longrightarrow> of_u32 (w - v) = of_u32 w - of_u32 v"
  by (simp add: of_u32_def unat_sub word_le_nat_alt)

text \<open>
  RTCP stays within its share of the bandwidth. When every member of a session with the same view
  of the session reports at the deterministic interval, senders and receivers together send at
  most the RTCP bandwidth (up to the rounding of doubles), however many members and senders there are.
\<close>

theorem rtcp_bandwidth_shared:
  assumes "0 < dAverageRtcpSize" and "0 < dRtcpBw" and "uiSenders \<le> uiTotalMembers" and "0 < uiTotalMembers"
  shows "\<exists>tSender tReceiver.
     computeDeterministicRtcpIntervalSeconds True uiSenders uiTotalMembers dAverageRtcpSize dRtcpBw = Some tSender
   \<and> computeDeterministicRtcpIntervalSeconds False uiSenders uiTotalMembers dAverageRtcpSize dRtcpBw = Some tReceiver
   \<and> of_u32 uiSenders * dAverageRtcpSize / tSender + of_u32 (uiTotalMembers - uiSenders) * dAverageRtcpSize / tReceiver
       \<le> dRtcpBw * (1 + 1 / 2 ^ 50)"
proof (cases "0 < uiSenders \<and> uiSenders \<le> drop_bit 2 uiTotalMembers")
  case True
  have bw: "0 < fmul dRtcpBw (1 / 4)" "0 < fmul dRtcpBw (3 / 4)"
    "fmul dRtcpBw (1 / 4) \<le> dRtcpBw * (1 / 4) * (1 + 1 / 2 ^ 53)" "fmul dRtcpBw (3 / 4) \<le> dRtcpBw * (3 / 4) * (1 + 1 / 2 ^ 53)"
    using fmul_upper [OF assms(2), of "1 / 4"] fmul_upper [OF assms(2), of "3 / 4"] by simp_all
  have "unat (drop_bit 2 uiTotalMembers) < unat uiTotalMembers"
    using assms(4) by (simp add: drop_bit_eq_div unat_div word_less_nat_alt)
  then have "unat uiSenders < unat uiTotalMembers" using True by (simp add: word_le_nat_alt)
  then have "0 < uiTotalMembers - uiSenders" by (simp add: word_gt_0 unat_eq_zero [symmetric] unat_sub assms)
  then have "of_u32 uiSenders * dAverageRtcpSize / fdiv (fmul dAverageRtcpSize (of_u32 uiSenders)) (fmul dRtcpBw (1 / 4))
      \<le> dRtcpBw * (1 / 4) * (1 + 1 / 2 ^ 50)"
    "of_u32 (uiTotalMembers - uiSenders) * dAverageRtcpSize
        / fdiv (fmul dAverageRtcpSize (of_u32 (uiTotalMembers - uiSenders))) (fmul dRtcpBw (3 / 4))
      \<le> dRtcpBw * (3 / 4) * (1 + 1 / 2 ^ 50)"
    using True assms(1,2) bw by (intro rate_of_interval of_u32_pos; simp)+
  from add_mono [OF this] have "of_u32 uiSenders * dAverageRtcpSize / fdiv (fmul dAverageRtcpSize (of_u32 uiSenders)) (fmul dRtcpBw (1 / 4))
      + of_u32 (uiTotalMembers - uiSenders) * dAverageRtcpSize
        / fdiv (fmul dAverageRtcpSize (of_u32 (uiTotalMembers - uiSenders))) (fmul dRtcpBw (3 / 4))
      \<le> dRtcpBw * (1 + 1 / 2 ^ 50)"
    by (rule order_trans) (simp add: algebra_simps)
  moreover have "fmul dRtcpBw (1 / 4) \<noteq> 0" "fmul dRtcpBw (3 / 4) \<noteq> 0" using bw by auto
  ultimately show ?thesis
    unfolding computeDeterministicRtcpIntervalSeconds_def Let_def fdivide_def by (simp only: True if_True if_False simp_thms option.inject) blast
next
  case False
  define t where "t = fdiv (fmul dAverageRtcpSize (of_u32 uiTotalMembers)) dRtcpBw"
  have le: "of_u32 uiTotalMembers * dAverageRtcpSize / t \<le> dRtcpBw * (1 + 1 / 2 ^ 50)"
    unfolding t_def using assms by (intro rate_of_interval of_u32_pos) simp_all
  have eq: "of_u32 uiSenders * dAverageRtcpSize / t + of_u32 (uiTotalMembers - uiSenders) * dAverageRtcpSize / t
    = of_u32 uiTotalMembers * dAverageRtcpSize / t"
    by (simp add: of_u32_minus [OF assms(3)] left_diff_distrib diff_divide_distrib)
  have "computeDeterministicRtcpIntervalSeconds b uiSenders uiTotalMembers dAverageRtcpSize dRtcpBw = Some t" for b
    using False assms(2) by (auto simp: computeDeterministicRtcpIntervalSeconds_def Let_def fdivide_def t_def)
  then show ?thesis using le eq by (intro exI [of _ t] conjI) (simp_all only: eq)
qed

theorem rtcp_bandwidth_shared_witness:
  "\<exists>tSender tReceiver.
     computeDeterministicRtcpIntervalSeconds True 2 10 112 6250 = Some tSender
   \<and> computeDeterministicRtcpIntervalSeconds False 2 10 112 6250 = Some tReceiver
   \<and> of_u32 2 * 112 / tSender + of_u32 (10 - 2) * 112 / tReceiver \<le> 6250 * (1 + 1 / 2 ^ 50)"
  by (rule rtcp_bandwidth_shared) simp_all

lemma round_double_exact [simp]: "round_double 1 = 1" "round_double (1 / 2) = 1 / 2" "round_double (3 / 2) = 3 / 2"
  by code_simp+

lemma fRand_between:
  assumes "r \<le> RAND_MAX" and "0 < RAND_MAX"
  shows "1 / 2 \<le> fRand (r, RAND_MAX) (1 / 2) (3 / 2)" and "fRand (r, RAND_MAX) (1 / 2) (3 / 2) \<le> 3 / 2"
proof -
  have unit: "0 \<le> round_double x \<and> round_double x \<le> 1" if "0 \<le> x" "x \<le> 1" for x
    using that round_double_bounds(3) [of x x] round_double_mono [of x 1] by simp
  define f where "f = fmul (fdiv (of_nat r) (of_nat RAND_MAX)) (fsub (3 / 2) (1 / 2))"
  have "0 \<le> f \<and> f \<le> 1" using assms by (simp add: f_def fmul_def fdiv_def fsub_def unit)
  then show "1 / 2 \<le> fRand (r, RAND_MAX) (1 / 2) (3 / 2)" "fRand (r, RAND_MAX) (1 / 2) (3 / 2) \<le> 3 / 2"
    using round_double_mono [of "1 / 2" "1 / 2 + f"] round_double_mono [of "1 / 2 + f" "3 / 2"]
    by (simp_all add: fRand_def f_def [symmetric] fadd_def)
qed

lemma compensation_value: "1218279 / 1000000 \<le> COMPENSATION" "COMPENSATION \<le> 1218281 / 1000000"
  by code_simp+

lemma randomised_between:
  assumes "0 < m" and "1 / 2 \<le> f" and "f \<le> 3 / 2"
  shows "41 / 100 * m \<le> fdiv (fmul m f) COMPENSATION" and "fdiv (fmul m f) COMPENSATION \<le> 124 / 100 * m"
proof -
  let ?e = "1 / 2 ^ 53 :: rat" and ?c = COMPENSATION
  have c: "0 < ?c" using compensation_value by linarith
  have mf: "m * (1 / 2) \<le> m * f" "m * f \<le> m * (3 / 2)" "0 < m * f" using assms by simp_all
  note r = round_double_near [OF mf(3), folded fmul_def]
  have "m * f * (1 + ?e) \<le> m * (3 / 2) * (1 + ?e)" "m * (1 / 2) * (1 - ?e) \<le> m * f * (1 - ?e)"
    by (rule mult_right_mono [OF mf(2)], simp) (rule mult_right_mono [OF mf(1)], simp)
  then have p: "m * (4999 / 10000) \<le> fmul m f" "fmul m f \<le> m * (15001 / 10000)" "0 < fmul m f"
    using order_trans [OF _ r(1), of "m * (1 / 2) * (1 - ?e)"] order_trans [OF r(2), of "m * (3 / 2) * (1 + ?e)"] r(3) assms(1) by simp_all
  have q: "0 < fmul m f / ?c" using p c by simp
  note s = round_double_near [OF q, folded fdiv_def]
  have "m * (4999 / 10000) / (1218281 / 1000000) \<le> fmul m f / ?c" "fmul m f / ?c \<le> m * (15001 / 10000) / (1218279 / 1000000)"
    using p c compensation_value assms(1) by (intro frac_le; simp)+
  then have w: "m * (41032 / 100000) \<le> fmul m f / ?c" "fmul m f / ?c \<le> m * (12314 / 10000)" using assms(1) by simp_all
  have "m * (41032 / 100000) * (1 - ?e) \<le> fmul m f / ?c * (1 - ?e)" "fmul m f / ?c * (1 + ?e) \<le> m * (12314 / 10000) * (1 + ?e)"
    by (rule mult_right_mono [OF w(1)], simp) (rule mult_right_mono [OF w(2)], simp)
  then show "41 / 100 * m \<le> fdiv (fmul m f) ?c" "fdiv (fmul m f) ?c \<le> 124 / 100 * m"
    using order_trans [OF _ s(1), of "m * (41032 / 100000) * (1 - ?e)"] order_trans [OF s(2), of "m * (12314 / 10000) * (1 + ?e)"] assms(1)
    by simp_all
qed

lemma fdivide_pos: "y \<noteq> 0 \<Longrightarrow> fdivide x y = Some (fdiv x y)"
  by (simp add: fdivide_def)

lemma deterministic_interval_exists:
  assumes "0 < uiRtcpBwKbps"
  shows "\<exists>d. computeDeterministicRtcpIntervalSeconds b uiSenders uiTotalMembers dAverageRtcpSize (fmul (of_u32 uiRtcpBwKbps) (25 / 4)) = Some d"
proof -
  have "0 < fmul (of_u32 uiRtcpBwKbps) (25 / 4)" using fmul_upper [OF of_u32_pos [OF assms], of "25 / 4"] by simp
  then have "fmul (of_u32 uiRtcpBwKbps) (25 / 4) \<noteq> 0" "fmul (fmul (of_u32 uiRtcpBwKbps) (25 / 4)) (1 / 4) \<noteq> 0"
    "fmul (fmul (of_u32 uiRtcpBwKbps) (25 / 4)) (3 / 4) \<noteq> 0"
    using fmul_upper [of _ "1 / 4"] fmul_upper [of _ "3 / 4"] by (metis less_irrefl zero_less_divide_1_iff zero_less_numeral zero_less_divide_iff)+
  then show ?thesis by (simp add: computeDeterministicRtcpIntervalSeconds_def Let_def fdivide_pos)
qed

text \<open>
  C36: Bounds of the RTCP interval. With a positive session bandwidth, without the reduced minimum,
  the randomised interval is defined and lies between 0.4 and 1.25 times the larger of the
  deterministic interval and the minimum of 5 seconds (2.5 seconds for the first report, whose
  interval is then halved once more).
\<close>

theorem rtcp_interval_bounds:
  fixes bInitial :: bool
  assumes "0 < uiRtcpBwKbps" and "r \<le> RAND_MAX" and "0 < RAND_MAX"
  defines "dMin \<equiv> (if bInitial then 5 / 2 else 5)"
  shows "\<exists>dDeterministic dInterval.
     computeDeterministicRtcpIntervalSeconds bIsSender uiSenders uiTotalMembers dAverageRtcpSize (fmul (of_u32 uiRtcpBwKbps) (25 / 4))
       = Some dDeterministic
   \<and> computeRtcpIntervalSeconds (r, RAND_MAX) bIsSender uiSenders uiTotalMembers dAverageRtcpSize uiRtcpBwKbps False bInitial True
       = Some dInterval
   \<and> (if bInitial then 1 / 2 else 1) * (40 / 100 * max dDeterministic dMin) \<le> dInterval
   \<and> dInterval \<le> (if bInitial then 1 / 2 else 1) * (125 / 100 * max dDeterministic dMin)"
proof -
  obtain d where d: "computeDeterministicRtcpIntervalSeconds bIsSender uiSenders uiTotalMembers dAverageRtcpSize (fmul (of_u32 uiRtcpBwKbps) (25 / 4)) = Some d"
    using deterministic_interval_exists [OF assms(1)] by blast
  define m where "m = max d dMin"
  have m: "0 < m" by (simp add: m_def dMin_def less_max_iff_disj)
  have five: "fdiv 5 2 = 5 / 2" "of_u32 MINIMUM_RTCP_INTERVAL_SECONDS = 5"
    by code_simp+
  have min: "updateIntervalAccordingToMinimum (Some d) False uiRtcpBwKbps bInitial = Some m"
    by (simp add: updateIntervalAccordingToMinimum_def five m_def dMin_def max_def)
  define t where "t = fdiv (fmul m (fRand (r, RAND_MAX) (1 / 2) (3 / 2))) COMPENSATION"
  have t: "41 / 100 * m \<le> t" "t \<le> 124 / 100 * m"
    unfolding t_def by (rule randomised_between [OF m fRand_between [OF assms(2,3)]])+
  have h: "t * (1 / 2) * (1 - 1 / 2 ^ 53) \<le> fmul t (1 / 2)" "fmul t (1 / 2) \<le> t * (1 / 2) * (1 + 1 / 2 ^ 53)"
    using round_double_near [of "t * (1 / 2)"] t m by (simp_all add: fmul_def)
  have "computeRtcpIntervalSeconds (r, RAND_MAX) bIsSender uiSenders uiTotalMembers dAverageRtcpSize uiRtcpBwKbps False bInitial True
      = Some (if bInitial then fmul t (1 / 2) else t)"
    unfolding computeRtcpIntervalSeconds_def Let_def d min t_def by simp
  moreover have "1 / 2 * (40 / 100 * m) \<le> fmul t (1 / 2)" "fmul t (1 / 2) \<le> 1 / 2 * (125 / 100 * m)"
    using h t m by simp_all
  moreover have "40 / 100 * m \<le> t" "t \<le> 125 / 100 * m" using t m by simp_all
  ultimately show ?thesis
    using d unfolding m_def by (cases bInitial) (simp_all only: if_True if_False mult_1 option.inject, blast+)
qed

theorem rtcp_interval_bounds_witness:
  "\<exists>dDeterministic dInterval.
     computeDeterministicRtcpIntervalSeconds False 1 2 112 (fmul (of_u32 1000) (25 / 4)) = Some dDeterministic
   \<and> computeRtcpIntervalSeconds (5, 32767) False 1 2 112 1000 False True True = Some dInterval
   \<and> (if True then 1 / 2 else 1) * (40 / 100 * max dDeterministic (if True then 5 / 2 else 5)) \<le> dInterval
   \<and> dInterval \<le> (if True then 1 / 2 else 1) * (125 / 100 * max dDeterministic (if True then 5 / 2 else 5))"
  by (rule rtcp_interval_bounds) simp_all

end
