(* ===== verification/Xr_Round_Trip.thy ===== *)
theory Xr_Round_Trip
  imports Rtcp_Xr Rtcp_Interval
begin

text \<open>
  The round trip time that a receiver learns from extended reports, from the reference time it sends to
  the delay that the peer reports. All times go through 16.16 bit fixed point numbers, which
  limits the precision.
\<close>

section \<open>Fixed point numbers\<close>

definition ntp_middle :: "int \<Rightarrow> int \<Rightarrow> int" where
  "ntp_middle s L = s * 65536 + L div 65536"

lemma word_fixed_point:
  assumes "0 \<le> b" and "b < 65536"
  shows "push_bit 16 (of_int a :: u32) OR of_int b = of_int (a * 65536 + b)"
proof -
  have tb: "take_bit 16 b = b" using assms by (simp add: take_bit_int_eq_self)
  have "push_bit 16 a OR take_bit 16 b = push_bit 16 a + take_bit 16 b"
    by (rule disjunctive_add [symmetric]) (auto simp: bit_simps)
  then have "of_int (push_bit 16 a OR b) = (of_int (a * 65536 + b) :: u32)"
    unfolding tb by (simp add: push_bit_eq_mult)
  moreover have "of_int (push_bit 16 a OR b) = push_bit 16 (of_int a :: u32) OR of_int b"
    by (rule bit_word_eqI) (auto simp: bit_simps)
  ultimately show ?thesis by simp
qed

lemma masks: "x AND 0xFFFF = take_bit 16 x" "y AND 0xFFFFFFFF = take_bit 32 y" for x :: u32 and y :: u64
  by (simp_all add: take_bit_eq_mask mask_eq_exp_minus_1)

lemma middle_of_words:
  assumes "0 \<le> L" and "L < 4294967296"
  shows "push_bit 16 ((of_int s :: u32) AND 0xFFFF) OR (drop_bit 16 (of_int L :: u32) AND 0xFFFF) = of_int (ntp_middle s L)"
proof -
  have "take_bit 16 (drop_bit 16 (of_int L :: u32)) = of_int (drop_bit 16 (take_bit 32 L))"
    by (rule bit_word_eqI) (auto simp: bit_simps)
  then have lo: "drop_bit 16 (of_int L :: u32) AND 0xFFFF = of_int (L div 65536)"
    using assms by (simp add: masks take_bit_int_eq_self drop_bit_eq_div)
  have hi: "push_bit 16 ((of_int s :: u32) AND 0xFFFF) = push_bit 16 (of_int s)"
    unfolding masks by (rule bit_word_eqI) (auto simp: bit_simps)
  have "0 \<le> L div 65536" "L div 65536 < 65536" using assms by auto
  then show ?thesis unfolding lo hi ntp_middle_def by (rule word_fixed_point)
qed

lemma middle_of_ntp:
  "ucast (drop_bit 16 (push_bit 32 (ucast (msw :: u32)) OR ucast (lsw :: u32) :: u64) AND 0xFFFFFFFF)
     = (push_bit 16 (msw AND 0xFFFF) OR (drop_bit 16 lsw AND 0xFFFF) :: u32)"
  unfolding masks by (rule bit_word_eqI) (auto simp: bit_simps dest: bit_imp_le_length)

text \<open>The middle 32 bits are the time in units of 1/65536 seconds, rounded down, modulo \<open>2 ^ 32\<close>.\<close>

lemma ntp_middle_bits:
  assumes "0 \<le> t" and "t < 4294967296 * 1000000"
  obtains M where "(case convertToNtpTimestamp t of (msw, lsw) \<Rightarrow> push_bit 16 (msw AND 0xFFFF) OR (drop_bit 16 lsw AND 0xFFFF)) = of_int M"
    and "ucast (drop_bit 16 (getNTPTimeStamp t) AND 0xFFFFFFFF) = (of_int M :: u32)"
    and "of_int t * 65536 / 1000000 - (10001 / 10000 :: rat) \<le> of_int M" and "of_int M \<le> of_int t * 65536 / 1000000 + (1 / 10000 :: rat)"
proof -
  obtain s L where c: "convertToNtpTimestamp t = (of_int s, of_int L)"
    and n: "getNTPTimeStamp t = push_bit 32 (ucast (of_int s :: u32)) OR ucast (of_int L :: u32)"
    and L: "0 \<le> L" "L < 4294967296"
    and d: "\<bar>(of_int s + of_int L / 4294967296) - of_int t / (1000000 :: rat)\<bar> \<le> 1 / 4294967296"
    using ntp_parts [OF assms] by metis
  have "L = (L div 65536) * 65536 + L mod 65536" "0 \<le> L mod 65536" "L mod 65536 < 65536" by simp_all
  then have "(L div 65536) * 65536 \<le> L" "L < (L div 65536) * 65536 + 65536" by linarith+
  then have "of_int ((L div 65536) * 65536) \<le> (of_int L :: rat)" "(of_int L :: rat) < of_int ((L div 65536) * 65536 + 65536)"
    by (simp_all only: of_int_le_iff of_int_less_iff)
  moreover have "of_int (ntp_middle s L) = (of_int s * 65536 + of_int (L div 65536) :: rat)" by (simp add: ntp_middle_def)
  ultimately have "of_int t * 65536 / 1000000 - (10001 / 10000 :: rat) \<le> of_int (ntp_middle s L)"
    "of_int (ntp_middle s L) \<le> of_int t * 65536 / 1000000 + (1 / 10000 :: rat)"
    using abs_le_D1 [OF d] abs_le_D2 [OF d] by (simp_all add: field_simps)
  moreover have "(case convertToNtpTimestamp t of (msw, lsw) \<Rightarrow> push_bit 16 (msw AND 0xFFFF) OR (drop_bit 16 lsw AND 0xFFFF)) = of_int (ntp_middle s L)"
    unfolding c prod.case by (rule middle_of_words [OF L])
  moreover have "ucast (drop_bit 16 (getNTPTimeStamp t) AND 0xFFFFFFFF) = (of_int (ntp_middle s L) :: u32)"
    unfolding n middle_of_ntp by (rule middle_of_words [OF L])
  ultimately show thesis using that by blast
qed

section \<open>The reported delay\<close>

lemma round_double_of_nat:
  assumes "n < 2 ^ 53"
  shows "round_double (of_nat n) = of_nat n"
proof (cases "n = 0")
  case False
  define e where "e = rat_exponent (of_nat n)"
  have n: "(0 :: rat) < of_nat n" using False by simp
  have "(2 :: rat) powi e < 2 powi 53"
    using rat_exponent_lower [OF n] assms by (simp add: e_def)
  moreover have "(2 :: rat) powi 53 \<le> 2 powi e" if "53 \<le> e" by (rule power_int_increasing) (use that in simp_all)
  ultimately have e: "e \<le> 52" by force
  define u where "u = (2 :: rat) powi (e - 52)"
  have u: "u \<noteq> 0" by (simp add: u_def)
  have "u * 2 ^ nat (52 - e) = 1" using e by (simp add: u_def power_int_def power_int_minus field_simps split: if_splits)
  then have "of_nat n / u = of_int (int n * 2 ^ nat (52 - e))" using u by (simp add: field_simps)
  then have "of_int (round_half_even (of_nat n / u)) * u = of_nat n"
    using \<open>u * 2 ^ nat (52 - e) = 1\<close> by (simp del: of_int_mult add: round_half_even_of_int) (simp add: mult.assoc mult.commute)
  then show ?thesis using False by (simp add: round_double_def u_def e_def Let_def)
qed (simp add: round_double_def)

lemma delay_as_double:
  assumes "0 \<le> d" and "d < 32768 * 1000000"
  defines "dDelay \<equiv> fadd (of_nat (unat (of_int (total_seconds d) :: u32))) (fdiv (of_nat (unat (of_int (fractional_seconds d) :: u32))) 1000000)"
  shows "of_int (d div 1000000) \<le> dDelay" and "dDelay \<le> of_int (d div 1000000) + 999999 / 1000000 + 1 / 2 ^ 36"
    and "\<bar>dDelay - of_int d / 1000000\<bar> \<le> 1 / 2 ^ 36"
proof -
  define s where "s = d div 1000000"
  define u where "u = d mod 1000000"
  have d: "d = s * 1000000 + u" and u: "0 \<le> u" "u \<le> 999999" and s: "0 \<le> s" "s \<le> 32767"
    using assms by (auto simp: s_def u_def)
  have "total_seconds d = s" "fractional_seconds d = u"
    using assms(1) by (simp_all add: total_seconds_def fractional_seconds_def sgn_if s_def u_def)
  then have "unat (of_int (total_seconds d) :: u32) = nat s" "unat (of_int (fractional_seconds d) :: u32) = nat u"
    using u s by (simp_all add: unat_word_of_int)
  then have D: "dDelay = fadd (of_nat (nat s)) (fdiv (of_nat (nat u)) 1000000)" by (simp add: dDelay_def)
  have ns: "(of_nat (nat s) :: rat) = of_int s" "(of_nat (nat u) :: rat) = of_int u" using s u by simp_all
  have ur: "0 \<le> (of_int u :: rat)" "(of_int u :: rat) \<le> 999999" "0 \<le> (of_int s :: rat)" "(of_int s :: rat) \<le> 32767"
    using u s by simp_all
  define f where "f = fdiv (of_int u) (1000000 :: rat)"
  have "0 \<le> of_int u / (1000000 :: rat)" "of_int u / (1000000 :: rat) \<le> 1" using ur by simp_all
  note f = round_double_bounds [OF this, folded fdiv_def, folded f_def]
  have "0 \<le> of_int s + f" "of_int s + f \<le> 32770" using f ur by simp_all
  note r = round_double_bounds [OF this, folded fadd_def]
  have D': "dDelay = fadd (of_int s) f" by (simp add: D ns f_def)
  have "round_double (of_int s) \<le> round_double (of_int s + f)"
    using f ur by (intro round_double_mono) simp_all
  moreover have "round_double (of_int s) = of_int s" using round_double_of_nat [of "nat s"] s by (simp add: ns)
  ultimately show "of_int (d div 1000000) \<le> dDelay" by (simp add: D' s_def [symmetric] fadd_def)
  have q: "of_int d / 1000000 = (of_int s + of_int u / 1000000 :: rat)" by (simp add: d add_divide_distrib)
  show "dDelay \<le> of_int (d div 1000000) + 999999 / 1000000 + 1 / 2 ^ 36"
    unfolding D' s_def [symmetric] using r f ur by simp
  show "\<bar>dDelay - of_int d / 1000000\<bar> \<le> 1 / 2 ^ 36"
    unfolding D' q abs_le_iff using r f ur by (simp add: field_simps)
qed

lemma dlsr_of_delay:
  assumes "0 \<le> d" and "d < 32768 * 1000000"
  defines "dDelay \<equiv> fadd (of_nat (unat (of_int (total_seconds d) :: u32))) (fdiv (of_nat (unat (of_int (fractional_seconds d) :: u32))) 1000000)"
  obtains D where "convertDelaySinceLastSenderReportToDlsr dDelay = of_int D"
    and "of_int d * 65536 / 1000000 - (10001 / 10000 :: rat) \<le> of_int D" and "of_int D \<le> of_int d * 65536 / 1000000 + (1 / 10000 :: rat)"
proof -
  note b = delay_as_double [OF assms(1,2), folded dDelay_def]
  define i where "i = d div 1000000"
  have i: "\<lfloor>dDelay\<rfloor> = i" using b(1,2) unfolding i_def [symmetric] by (intro floor_unique) simp_all
  have "0 \<le> dDelay - of_int i" "dDelay - of_int i \<le> 1 - 1 / 2000000" using b(1,2) unfolding i_def [symmetric] by simp_all
  note x = round_double_bounds [OF this, folded fsub_def]
  define x where "x = fsub dDelay (of_int i)"
  have "0 \<le> x * 65536" "x * 65536 \<le> 65536" using x b(1,2) unfolding x_def i_def [symmetric] by simp_all
  note y = round_double_bounds [OF this, folded fmul_def]
  define F where "F = \<lfloor>fmul x 65536\<rfloor>"
  have F: "of_int F \<le> fmul x 65536" "fmul x 65536 < of_int F + 1" using floor_correct [of "fmul x 65536"] by (simp_all add: F_def)
  have "0 \<le> F" using y(3) by (simp add: F_def)
  have "fmul x 65536 < 65536" using y x b(2) unfolding x_def i_def [symmetric] by simp
  then have "(of_int F :: rat) < 65536" using F(1) by simp
  then have "F < 65536" by (metis of_int_less_iff of_int_numeral)
  then have w: "convertDelaySinceLastSenderReportToDlsr dDelay = of_int (i * 65536 + F)"
    using word_fixed_point [OF \<open>0 \<le> F\<close>, of i] by (simp add: convertDelaySinceLastSenderReportToDlsr_def i x_def [symmetric] F_def [symmetric] Let_def)
  have D: "(of_int (i * 65536 + F) :: rat) = of_int i * 65536 + of_int F" by simp
  have "of_int d * 65536 / 1000000 - (10001 / 10000 :: rat) \<le> of_int (i * 65536 + F)"
    "of_int (i * 65536 + F) \<le> of_int d * 65536 / 1000000 + (1 / 10000 :: rat)"
    unfolding D using F y x abs_le_D1 [OF b(3)] abs_le_D2 [OF b(3)] unfolding x_def by simp_all
  then show thesis using that w by blast
qed

section \<open>Round trip times\<close>

text \<open>What the peer stores of a reference time, and what it answers.\<close>

definition reference_time :: "int \<Rightarrow> ReceiverReferenceTimeReportBlock" where
  "reference_time t = (case convertToNtpTimestamp t of (msw, lsw) \<Rightarrow> \<lparr>rt_NtpTimestampMsw = msw, rt_NtpTimestampLsw = lsw\<rparr>)"

definition answer_reference_time :: "('i, 'o) bit_io \<Rightarrow> u32 \<Rightarrow> int \<Rightarrow> int \<Rightarrow> u64 \<Rightarrow> u16 \<Rightarrow> int \<Rightarrow> XrMemberEntry \<Rightarrow> DlrrBlock" where
  "answer_reference_time io uiSSRC tSent tReceived uiNtpArrivalTs w tAnswered m =
     (let m1 = xr_process_block io tReceived uiNtpArrivalTs
                 ((createReceiverRttXrReportBlock io (reference_time tSent))\<lparr>xb_uiBlockLength := w\<rparr>) m;
          m2 = XrMemberEntry_finaliseData tAnswered m1
      in \<lparr>db_SSRC = uiSSRC, db_LastRR = xe_uiXrLrr m2, db_DLRR = xe_uiXrDlrr m2\<rparr>)"

text \<open>
  C37: Round trip times from extended reports. A receiver sends a reference time, the peer answers it after
  some delay by its own clock, and the receiver gets the answer: the round trip time it stores
  is the time that elapsed less the delay of the peer, to within 31 microseconds. (Without the two
  middle bits being zero, which the code takes for a missing reference time.)
\<close>

theorem xr_round_trip_time:
  assumes "bit_stream io obits ibits"
    and "0 \<le> t1" and "t4 < 4294967296 * 1000000" and "0 \<le> delay" and "delay \<le> t4 - t1" and "t4 - t1 < 32767 * 1000000"
    and "(case convertToNtpTimestamp t1 of (msw, lsw) \<Rightarrow> push_bit 16 (msw AND 0xFFFF) OR (drop_bit 16 lsw AND 0xFFFF)) \<noteq> 0"
  shows "\<bar>xe_dXrRtt (processDLRRBlock (getNTPTimeStamp t4) (answer_reference_time io uiSSRC t1 t2 uiNtp w (t2 + delay) m) m')
      - of_int (t4 - t1 - delay) / 1000000\<bar> \<le> 31 / 1000000"
proof -
  let ?b = "answer_reference_time io uiSSRC t1 t2 uiNtp w (t2 + delay) m"
  have range: "t1 < 4294967296 * 1000000" "0 \<le> t4" "delay < 32768 * 1000000" using assms(2-6) by linarith+
  obtain M1 where M1: "(case convertToNtpTimestamp t1 of (msw, lsw) \<Rightarrow> push_bit 16 (msw AND 0xFFFF) OR (drop_bit 16 lsw AND 0xFFFF)) = of_int M1"
      "ucast (drop_bit 16 (getNTPTimeStamp t1) AND 0xFFFFFFFF) = (of_int M1 :: u32)"
    and b1: "of_int t1 * 65536 / 1000000 - (10001 / 10000 :: rat) \<le> of_int M1" "of_int M1 \<le> of_int t1 * 65536 / 1000000 + (1 / 10000 :: rat)"
    by (rule ntp_middle_bits [OF assms(2) range(1)])
  obtain M4 where M4: "(case convertToNtpTimestamp t4 of (msw, lsw) \<Rightarrow> push_bit 16 (msw AND 0xFFFF) OR (drop_bit 16 lsw AND 0xFFFF)) = of_int M4"
      "ucast (drop_bit 16 (getNTPTimeStamp t4) AND 0xFFFFFFFF) = (of_int M4 :: u32)"
    and b4: "of_int t4 * 65536 / 1000000 - (10001 / 10000 :: rat) \<le> of_int M4" "of_int M4 \<le> of_int t4 * 65536 / 1000000 + (1 / 10000 :: rat)"
    by (rule ntp_middle_bits [OF range(2) assms(3)])
  obtain D where D: "convertDelaySinceLastSenderReportToDlsr (fadd (of_nat (unat (of_int (total_seconds delay) :: u32)))
        (fdiv (of_nat (unat (of_int (fractional_seconds delay) :: u32))) 1000000)) = of_int D"
    and bD: "of_int delay * 65536 / 1000000 - (10001 / 10000 :: rat) \<le> of_int D" "of_int D \<le> of_int delay * 65536 / 1000000 + (1 / 10000 :: rat)"
    by (rule dlsr_of_delay [OF assms(4) range(3)])
  have parsed: "parseReceiverReferenceTimeReportBlock io ((createReceiverRttXrReportBlock io (reference_time t1))\<lparr>xb_uiBlockLength := w\<rparr>) = Some (reference_time t1)"
    by (rule bit_stream.rrt_block_parsed(2) [OF assms(1)])
  have ty: "xb_uiBlockType ((createReceiverRttXrReportBlock io (reference_time t1))\<lparr>xb_uiBlockLength := w\<rparr>) = XR_RECEIVER_REFERENCE_TIME_BLOCK"
    by (simp add: createReceiverRttXrReportBlock_def setRawXrBlockContent_def RtcpXrReportBlock_create_def)
  obtain msw lsw where ml: "convertToNtpTimestamp t1 = (msw, lsw)" by (cases "convertToNtpTimestamp t1")
  have rt: "rt_NtpTimestampMsw (reference_time t1) = msw" "rt_NtpTimestampLsw (reference_time t1) = lsw"
    by (simp_all add: reference_time_def ml)
  have "xr_process_block io t2 uiNtp ((createReceiverRttXrReportBlock io (reference_time t1))\<lparr>xb_uiBlockLength := w\<rparr>) m
      = m\<lparr>xe_tXrLrr := Some t2, xe_uiXrLrr := of_int M1\<rparr>"
    unfolding xr_process_block_def ty parsed using M1(1) by (simp add: rt ml)
  then have block: "db_LastRR ?b = of_int M1" "db_DLRR ?b = of_int D"
    using D by (simp_all add: answer_reference_time_def Let_def XrMemberEntry_finaliseData_def)
  define Z where "Z = M4 - D - M1"
  define r where "r = (of_int (t4 - t1 - delay) * 65536 / 1000000 :: rat)"
  have "of_int Z = (of_int M4 - of_int D - of_int M1 :: rat)" by (simp add: Z_def)
  moreover have "r = of_int t4 * 65536 / 1000000 - of_int delay * 65536 / 1000000 - of_int t1 * 65536 / 1000000"
    by (simp add: r_def left_diff_distrib diff_divide_distrib)
  ultimately have Z: "r - 10003 / 10000 \<le> of_int Z" "of_int Z \<le> r + 20003 / 10000" using b1 b4 bD by linarith+
  have "(0 :: rat) \<le> of_int (t4 - t1 - delay)" "(of_int (t4 - t1 - delay) :: rat) \<le> of_int (32767 * 1000000)"
    using assms(4-6) unfolding of_int_0_le_iff of_int_le_iff by linarith+
  then have r: "0 \<le> r" "r \<le> 2147418112" by (simp_all add: r_def)
  then have "(of_int Z :: rat) < of_int (2 ^ 31)" "of_int (- 2) \<le> (of_int Z :: rat)" using Z by simp_all
  then have Zb: "Z < 2 ^ 31" "- 2 \<le> Z" by (simp_all only: of_int_less_iff of_int_le_iff)
  have "of_int M4 - of_int D - of_int M1 = (of_int Z :: u32)" by (simp add: Z_def)
  moreover have "sint (of_int Z :: u32) = Z" using Zb by (intro sint_of_int_u32) simp_all
  moreover have "0 \<le> Z \<Longrightarrow> (of_nat (unat (of_int Z :: u32)) :: rat) = of_int Z"
    using Zb unat_word_of_int [of Z] by (simp del: of_nat_unat)
  ultimately have rtt: "xe_dXrRtt (processDLRRBlock (getNTPTimeStamp t4) ?b m') = (if 0 \<le> Z then of_int Z / 65536 else 0)"
    using assms(7) M1(1) by (simp add: processDLRRBlock_def Let_def block M4(2))
  have "of_int (t4 - t1 - delay) / 1000000 = r / 65536" by (simp add: r_def)
  moreover have "(of_int Z :: rat) \<le> - 1" if "\<not> 0 \<le> Z"
  proof -
    have "Z \<le> - 1" using that by simp
    then have "(of_int Z :: rat) \<le> of_int (- 1)" by (simp only: of_int_le_iff)
    then show ?thesis by simp
  qed
  ultimately show ?thesis
    using rtt Z r by (cases "0 \<le> Z") (simp_all add: abs_le_iff field_simps)
qed

theorem xr_round_trip_time_witness:
  "\<bar>xe_dXrRtt (processDLRRBlock (getNTPTimeStamp 3600000000200000)
       (answer_reference_time bitlist_io 7 3600000000000000 5 0 2 (5 + 150000) (XrMemberEntry_create 8 0)) (XrMemberEntry_create 7 0))
     - of_int (3600000000200000 - 3600000000000000 - 150000) / 1000000\<bar> \<le> 31 / 1000000"
proof -
  have "(case convertToNtpTimestamp 3600000000000000 of (msw, lsw) \<Rightarrow> push_bit 16 (msw AND 0xFFFF) OR (drop_bit 16 lsw AND 0xFFFF)) \<noteq> 0"
    by code_simp
  then show ?thesis by (intro xr_round_trip_time [OF bitlist.bit_stream_axioms]) simp_all
qed

text \<open>
  C40: Round trip of an extended report. The packet with the delays for a list of peers, serialised and read
  back, yields the same reporter and the same delays.
\<close>

theorem xr_dlrr_roundtrip:
  assumes "bit_stream io obits ibits" and "ds \<noteq> []" and "length ds \<le> 20000"
    and "ibits ib = obits (RtcpXr_writeTypeSpecific io (RtcpXr_addReportBlock (createDlrrXrReportBlock io ds) (RtcpXr_create uiSSRC)) (ob_new io)) @ rest"
  shows "\<exists>p ib'. RtcpXr_readTypeSpecific io
       (RtcpXr_raw 2 False 1 (rb_uiLength (xr_base (RtcpXr_addReportBlock (createDlrrXrReportBlock io ds) (RtcpXr_create uiSSRC))))) ib = (p, ib')
     \<and> xr_uiReporterSSRC p = uiSSRC \<and> map (parseDlrrReportBlock io) (xr_vReports p) = [Some ds] \<and> ibits ib' = rest"
  using bit_stream.xr_packet_read [OF assms(1) bit_stream.dlrr_block_parsed(1) [OF assms(1-3)] assms(4)]
    bit_stream.dlrr_block_parsed(2) [OF assms(1-3)]
  by fastforce

definition sample_delays :: "DlrrBlock list" where
  "sample_delays = [\<lparr>db_SSRC = 1, db_LastRR = 2, db_DLRR = 3\<rparr>]"

definition sample_xr :: RtcpXr where
  "sample_xr = RtcpXr_addReportBlock (createDlrrXrReportBlock bitlist_io sample_delays) (RtcpXr_create 9)"

theorem xr_dlrr_roundtrip_witness:
  "\<exists>p ib'. RtcpXr_readTypeSpecific bitlist_io (RtcpXr_raw 2 False 1 (rb_uiLength (xr_base sample_xr)))
        (RtcpXr_writeTypeSpecific bitlist_io sample_xr (ob_new bitlist_io)) = (p, ib')
     \<and> xr_uiReporterSSRC p = 9 \<and> map (parseDlrrReportBlock bitlist_io) (xr_vReports p) = [Some sample_delays] \<and> ib' = []"
  unfolding sample_xr_def by (rule xr_dlrr_roundtrip [OF bitlist.bit_stream_axioms]) (simp_all add: sample_delays_def)

end
