(* ===== verification/Session_Database.thy ===== *)
theory Session_Database
  imports Rtcp_Xr Rtcp_Interval "HOL-Library.Monad_Syntax"
begin

text \<open>
  The table of the members of a session (\<open>rfc3550/SessionDatabase.cpp\<close>), with the session state
  (\<open>RtpSessionState.h\<close>) and the parameters it reads (\<open>RtpSessionParameters.h\<close>), which it holds by reference
  and which are arguments here. Members are added by the packets they send, are validated, become senders,
  and are removed when they leave or fall silent. \<open>std::unordered_map\<close> is an association list in the
  order of iteration, which the library does not specify and on which no statement depends.
\<close>

section \<open>State\<close>

record RtpSessionState =
  ss_uiCurrentPayloadType :: u8
  ss_uiSequenceNumber :: u16
  ss_uiRtpTimestampBase :: u32
  ss_uiSSRC :: u32
  ss_uiRemoteSSRC :: u32
  ss_bIsSender :: bool
  ss_uiRtxPayloadType :: u8
  ss_uiRtxSequenceNumber :: u16
  ss_uiRtxSSRC :: u32
  ss_uiRemoteRtxSSRC :: u32

text \<open>
  The constructor draws the SSRC if none is given, the sequence number, the timestamp base and the SSRC for
  retransmissions from the random generator; the sequence number for retransmissions is not initialised.
\<close>

definition RtpSessionState_create :: "u32 \<times> u16 \<times> u32 \<times> u32 \<Rightarrow> u16 \<Rightarrow> u8 \<Rightarrow> u32 \<Rightarrow> bool \<Rightarrow> u8 \<Rightarrow> RtpSessionState" where
  "RtpSessionState_create rnd uninit uiDefaultPayloadType uiSSRC bIsSender uiRtxPayloadType =
     (case rnd of (rSSRC, rSN, rTsBase, rRtxSSRC) \<Rightarrow>
        \<lparr>ss_uiCurrentPayloadType = uiDefaultPayloadType, ss_uiSequenceNumber = rSN, ss_uiRtpTimestampBase = rTsBase,
         ss_uiSSRC = (if uiSSRC = 0 then rSSRC else uiSSRC), ss_uiRemoteSSRC = 0, ss_bIsSender = bIsSender,
         ss_uiRtxPayloadType = uiRtxPayloadType, ss_uiRtxSequenceNumber = uninit, ss_uiRtxSSRC = rRtxSSRC, ss_uiRemoteRtxSSRC = 0\<rparr>)"

definition getLocalSSRCs :: "RtpSessionState \<Rightarrow> u32 list" where
  "getLocalSSRCs st = ss_uiSSRC st # (if ss_uiRtxPayloadType st \<noteq> 0 then [ss_uiRtxSSRC st] else [])"

definition getNextSequenceNumber :: "RtpSessionState \<Rightarrow> u16 \<times> RtpSessionState" where
  "getNextSequenceNumber st = (ss_uiSequenceNumber st, st\<lparr>ss_uiSequenceNumber := ss_uiSequenceNumber st + 1\<rparr>)"

definition getNextRtxSequenceNumber :: "RtpSessionState \<Rightarrow> u16 \<times> RtpSessionState" where
  "getNextRtxSequenceNumber st = (ss_uiRtxSequenceNumber st, st\<lparr>ss_uiRtxSequenceNumber := ss_uiRtxSequenceNumber st + 1\<rparr>)"

definition updateSSRC :: "u32 \<Rightarrow> RtpSessionState \<Rightarrow> RtpSessionState" where
  "updateSSRC uiSSRC st = st\<lparr>ss_uiSSRC := uiSSRC\<rparr>"

text \<open>The parameters that reporting depends on.\<close>

record RtpSessionParameters =
  sp_sdesInfo :: SdesInformation
  sp_uiSessionBandwidthKbps :: u32
  sp_sProfile :: string
  sp_uiPayloadType :: u8
  sp_uiRtpTimestampFrequency :: u32
  sp_uiRtxPt :: u8
  sp_uiRtxTime :: u32
  sp_mXr :: "(string \<times> string) list"

definition AVPF :: string where "AVPF = ''AVPF''"

definition RCVR_RTT :: string where "RCVR_RTT = ''rcvr-rtt''"

definition isRetransmissionEnabled :: "RtpSessionParameters \<Rightarrow> bool" where
  "isRetransmissionEnabled par \<longleftrightarrow> sp_sProfile par = AVPF \<and> sp_uiRtxTime par > 0"

definition isXrEnabled :: "RtpSessionParameters \<Rightarrow> bool" where
  "isXrEnabled par \<longleftrightarrow> sp_mXr par \<noteq> []"

definition hasXrAttribute :: "string \<Rightarrow> RtpSessionParameters \<Rightarrow> bool" where
  "hasXrAttribute sAttributeName par \<longleftrightarrow> map_of (sp_mXr par) sAttributeName \<noteq> None"

text \<open>A member entry, or one that evaluates extended reports.\<close>

datatype member = Member MemberEntry | XrMember XrMemberEntry

fun mem_base :: "member \<Rightarrow> MemberEntry" where
  "mem_base (Member m) = m"
| "mem_base (XrMember m) = xe_base m"

fun mem_map :: "(MemberEntry \<Rightarrow> MemberEntry) \<Rightarrow> member \<Rightarrow> member" where
  "mem_map f (Member m) = Member (f m)"
| "mem_map f (XrMember m) = XrMember (m\<lparr>xe_base := f (xe_base m)\<rparr>)"

lemma mem_base_map [simp]: "mem_base (mem_map f m) = f (mem_base m)"
  by (cases m) simp_all

fun member_onXrReceived :: "('i, 'o) bit_io \<Rightarrow> int \<Rightarrow> RtcpXr \<Rightarrow> member \<Rightarrow> member" where
  "member_onXrReceived io tNow xr (Member m) = Member (onXrReceived tNow m)"
| "member_onXrReceived io tNow xr (XrMember m) = XrMember (XrMemberEntry_onXrReceived io tNow xr m)"

fun member_finaliseData :: "int \<Rightarrow> member \<Rightarrow> member" where
  "member_finaliseData tNow (Member m) = Member m"
| "member_finaliseData tNow (XrMember m) = XrMember (XrMemberEntry_finaliseData tNow m)"

text \<open>The packets the database distinguishes.\<close>

datatype session_packet = Standard rtcp_packet | XR RtcpXr | OtherRtcp RtcpPacketBase

fun packet_base :: "session_packet \<Rightarrow> RtcpPacketBase" where
  "packet_base (Standard p) = rtcp_base p"
| "packet_base (XR p) = xr_base p"
| "packet_base (OtherRtcp b) = b"

definition compound_size :: "session_packet list \<Rightarrow> u32" where
  "compound_size ps = push_bit 2 (foldl (\<lambda>s p. s + (1 + ucast (rb_uiLength (packet_base p)))) 0 ps)"

record SessionDatabase =
  db_uiRtcpBandwidthFraction :: u32
  db_memberDb :: "(u32 \<times> member) list"
  db_tp :: ptime
  db_tp_prev :: ptime
  db_uiPrevMembers :: u32
  db_members :: u32
  db_senders :: u32
  db_rtcp_bw :: rat
  db_we_sent :: bool
  db_avg_rtcp_size :: rat
  db_initial :: bool
  db_bXrEnabled :: bool
  db_onUpdate :: bool

section \<open>Members\<close>

definition lookupMemberEntryInSessionDb :: "u32 \<Rightarrow> SessionDatabase \<Rightarrow> member option" where
  "lookupMemberEntryInSessionDb uiSSRC db = map_of (db_memberDb db) uiSSRC"

text \<open>Access through the pointer that the table holds.\<close>

definition update_member :: "u32 \<Rightarrow> (member \<Rightarrow> member) \<Rightarrow> SessionDatabase \<Rightarrow> SessionDatabase" where
  "update_member uiSSRC f db = db\<lparr>db_memberDb := map (\<lambda>(k, m). (k, if k = uiSSRC then f m else m)) (db_memberDb db)\<rparr>"

definition disableDetailedLossDetection :: "MemberEntry \<Rightarrow> MemberEntry" where
  "disableDetailedLossDetection m = m\<lparr>me_bEnableDetailedLossDetection := False\<rparr>"

definition createMemberEntry :: "int \<Rightarrow> u32 \<Rightarrow> SessionDatabase \<Rightarrow> member" where
  "createMemberEntry tNow uiSSRC db =
     (if \<not> db_bXrEnabled db then Member (MemberEntry_create uiSSRC tNow) else XrMember (XrMemberEntry_create uiSSRC tNow))"

definition insertSSRCIfNotInSessionDb ::
  "RtpSessionState \<Rightarrow> RtpSessionParameters \<Rightarrow> int \<Rightarrow> u32 \<Rightarrow> SessionDatabase \<Rightarrow> SessionDatabase" where
  "insertSSRCIfNotInSessionDb st par tNow uiSSRC db =
     (if lookupMemberEntryInSessionDb uiSSRC db = None
      then let m0 = createMemberEntry tNow uiSSRC db;
               m1 = mem_map (addLocalSSRC (ss_uiSSRC st)) m0;
               m2 = (if isRetransmissionEnabled par then mem_map (addLocalSSRC (ss_uiRtxSSRC st)) m1 else m1);
               m3 = mem_map disableDetailedLossDetection m2;
               m4 = mem_map (\<lambda>m. m\<lparr>me_onUpdate := True\<rparr>) m3
           in db\<lparr>db_memberDb := db_memberDb db @ [(uiSSRC, m4)]\<rparr>
      else db)"

definition calculateEstimatedRtcpSize :: "RtpSessionParameters \<Rightarrow> u32" where
  "calculateEstimatedRtcpSize par =
     (let uiLen = 2 + of_nat (length (si_CName (sp_sdesInfo par))) :: u32;
          uiWords = (if uiLen mod 4 \<noteq> 0 then drop_bit 2 uiLen + 1 else drop_bit 2 uiLen)
      in 20 + 8 + push_bit 2 (8 + 2 + uiWords))"

definition initialiseLocalSSRCs :: "RtpSessionState \<Rightarrow> RtpSessionParameters \<Rightarrow> int \<Rightarrow> SessionDatabase \<Rightarrow> SessionDatabase" where
  "initialiseLocalSSRCs st par tNow db =
     fold (\<lambda>uiSSRC db. update_member uiSSRC
             (mem_map (\<lambda>m. disableDetailedLossDetection (setSender (ss_bIsSender st) (setValidated m))))
             (insertSSRCIfNotInSessionDb st par tNow uiSSRC db))
       (getLocalSSRCs st) db"

definition RFC3550_initialization :: "RtpSessionParameters \<Rightarrow> SessionDatabase \<Rightarrow> SessionDatabase" where
  "RFC3550_initialization par db =
     db\<lparr>db_uiPrevMembers := 1, db_members := 1, db_senders := 0,
        db_rtcp_bw := fmul (fmul (of_u32 (sp_uiSessionBandwidthKbps par)) (fdiv (of_u32 (db_uiRtcpBandwidthFraction db)) 100)) 125,
        db_we_sent := False, db_avg_rtcp_size := of_u32 (calculateEstimatedRtcpSize par), db_initial := True\<rparr>"

definition SessionDatabase_create :: "RtpSessionState \<Rightarrow> RtpSessionParameters \<Rightarrow> int \<Rightarrow> SessionDatabase" where
  "SessionDatabase_create st par tNow =
     initialiseLocalSSRCs st par tNow (RFC3550_initialization par
       \<lparr>db_uiRtcpBandwidthFraction = RECOMMENDED_RTCP_BANDWIDTH_PERCENTAGE, db_memberDb = [], db_tp = None, db_tp_prev = None,
        db_uiPrevMembers = 0, db_members = 0, db_senders = 0, db_rtcp_bw = 0, db_we_sent = False, db_avg_rtcp_size = 0,
        db_initial = False, db_bXrEnabled = isXrEnabled par, db_onUpdate = False\<rparr>)"

definition updateSSRCs :: "RtpSessionState \<Rightarrow> RtpSessionParameters \<Rightarrow> int \<Rightarrow> SessionDatabase \<Rightarrow> SessionDatabase" where
  "updateSSRCs st par tNow db = initialiseLocalSSRCs st par tNow db"

definition member_flag :: "(MemberEntry \<Rightarrow> bool) \<Rightarrow> u32 \<Rightarrow> SessionDatabase \<Rightarrow> bool" where
  "member_flag P uiSSRC db = (case lookupMemberEntryInSessionDb uiSSRC db of None \<Rightarrow> False | Some m \<Rightarrow> P (mem_base m))"

definition isSourceValid :: "u32 \<Rightarrow> SessionDatabase \<Rightarrow> bool" where
  "isSourceValid = member_flag isValid"

definition db_isSender :: "u32 \<Rightarrow> SessionDatabase \<Rightarrow> bool" where
  "db_isSender = member_flag me_bIsSender"

definition isSourceSynchronised :: "u32 \<Rightarrow> SessionDatabase \<Rightarrow> bool" where
  "isSourceSynchronised = member_flag me_bIsRtcpSynchronised"

definition isOurSSRC :: "RtpSessionState \<Rightarrow> u32 \<Rightarrow> bool" where
  "isOurSSRC st uiSSRC \<longleftrightarrow> uiSSRC = ss_uiSSRC st \<or> uiSSRC = ss_uiRtxSSRC st"

definition count_members :: "(MemberEntry \<Rightarrow> bool) \<Rightarrow> SessionDatabase \<Rightarrow> u32" where
  "count_members P db = of_nat (length (filter (\<lambda>(k, m). P (mem_base m)) (db_memberDb db)))"

definition getActiveMemberCount :: "SessionDatabase \<Rightarrow> u32" where
  "getActiveMemberCount = count_members isValid"

definition getInactiveMemberCount :: "SessionDatabase \<Rightarrow> u32" where
  "getInactiveMemberCount = count_members me_bInactive"

definition getUnvalidatedMemberCount :: "SessionDatabase \<Rightarrow> u32" where
  "getUnvalidatedMemberCount = count_members isUnvalidated"

definition getTotalMemberCount :: "SessionDatabase \<Rightarrow> u32" where
  "getTotalMemberCount db = of_nat (length (db_memberDb db))"

definition getSenderCount :: "SessionDatabase \<Rightarrow> u32" where
  "getSenderCount = count_members me_bIsSender"

section \<open>Packets\<close>

text \<open>\<open>m_memberDb[ssrc]->f()\<close> inserts a null pointer for an unknown source and dereferences it.\<close>

definition processOutgoingRtpPacket :: "int \<Rightarrow> RtpPacket \<Rightarrow> SessionDatabase \<Rightarrow> fault + SessionDatabase" where
  "processOutgoingRtpPacket tNow packet db =
     (let uiSSRC = rh_uiSSRC (rp_header packet)
      in case lookupMemberEntryInSessionDb uiSSRC db of
           None \<Rightarrow> Inl Null_dereference
         | Some _ \<Rightarrow> Inr (update_member uiSSRC (mem_map (onSendRtpPacket tNow)) db))"

definition SessionDatabase_onSendRtpPacket :: "int \<Rightarrow> RtpPacket \<Rightarrow> SessionDatabase \<Rightarrow> fault + SessionDatabase" where
  "SessionDatabase_onSendRtpPacket tNow packet db = processOutgoingRtpPacket tNow packet db"

definition average_rtcp_size :: "u32 \<Rightarrow> rat \<Rightarrow> rat" where
  "average_rtcp_size uiSize avg = fadd (fmul (1 / 16) (of_u32 uiSize)) (fmul (15 / 16) avg)"

text \<open>The average is updated twice for a packet sent.\<close>

definition SessionDatabase_onSendRtcpPacket :: "int \<Rightarrow> session_packet list \<Rightarrow> SessionDatabase \<Rightarrow> SessionDatabase" where
  "SessionDatabase_onSendRtcpPacket tNow compoundPacket db =
     (let db1 = (if db_initial db then db\<lparr>db_initial := False, db_tp := Some tNow\<rparr>
                 else db\<lparr>db_tp_prev := db_tp db, db_tp := Some tNow\<rparr>);
          db2 = db1\<lparr>db_avg_rtcp_size := average_rtcp_size (compound_size compoundPacket) (db_avg_rtcp_size db1)\<rparr>
      in db2\<lparr>db_avg_rtcp_size := average_rtcp_size (compound_size compoundPacket) (db_avg_rtcp_size db2)\<rparr>)"

definition processParticipant ::
  "RtpSessionState \<Rightarrow> RtpSessionParameters \<Rightarrow> int \<Rightarrow> u32 \<Rightarrow> RtpPacket \<Rightarrow> SessionDatabase \<Rightarrow> SessionDatabase" where
  "processParticipant st par tNow uiSSRC packet db =
     update_member uiSSRC (mem_map (\<lambda>m. if \<not> me_bInit m then initSequence (ucast (getSequenceNumber packet)) m else m))
       (insertSSRCIfNotInSessionDb st par tNow uiSSRC db)"

text \<open>
  The results are the packet with its extended sequence number, whether the source was valid before this
  packet, whether it is synchronised, and the presentation time.
\<close>

definition processIncomingRtpPacket ::
  "RtpSessionState \<Rightarrow> RtpSessionParameters \<Rightarrow> int \<Rightarrow> RtpPacket \<Rightarrow> u32 \<Rightarrow> SessionDatabase \<Rightarrow>
     fault + (RtpPacket \<times> bool \<times> bool \<times> ptime \<times> SessionDatabase)" where
  "processIncomingRtpPacket st par tNow packet uiRtpTimestampFrequency db =
     (let uiSSRC = rh_uiSSRC (rp_header packet);
          db1 = processParticipant st par tNow uiSSRC packet db;
          bIsSSRCValid = isSourceValid uiSSRC db1
      in case lookupMemberEntryInSessionDb uiSSRC db1 of
           None \<Rightarrow> Inl Null_dereference
         | Some m \<Rightarrow>
             (case onReceiveRtpPacket tNow packet uiRtpTimestampFrequency (mem_base m) of
                (packet1, bIsRtcpSyncronised, tPresentation, m1) \<Rightarrow>
                  let db2 = update_member uiSSRC (mem_map (\<lambda>_. m1)) db1;
                      db3 = fold (\<lambda>uiCSRC db. processParticipant st par tNow uiCSRC packet1 db) (rh_vCCs (rp_header packet)) db2
                  in Inr (packet1, bIsSSRCValid, bIsRtcpSyncronised, tPresentation, db3)))"

text \<open>The updates of the member entries reach the callback of the database, if one is set.\<close>

definition notify :: "SessionDatabase \<Rightarrow> MemberUpdate list \<Rightarrow> MemberUpdate list" where
  "notify db us = (if db_onUpdate db then us else [])"

definition with_member :: "u32 \<Rightarrow> (MemberEntry \<Rightarrow> MemberUpdate list \<times> MemberEntry) \<Rightarrow> SessionDatabase \<Rightarrow> MemberUpdate list \<times> SessionDatabase" where
  "with_member uiSSRC f db =
     (case lookupMemberEntryInSessionDb uiSSRC db of
        None \<Rightarrow> ([], db)
      | Some m \<Rightarrow> (notify db (fst (f (mem_base m))), update_member uiSSRC (mem_map (\<lambda>m. snd (f m))) db))"

definition processSenderReport ::
  "RtpSessionState \<Rightarrow> RtpSessionParameters \<Rightarrow> int \<Rightarrow> RtcpSr \<Rightarrow> SessionDatabase \<Rightarrow> MemberUpdate list \<times> SessionDatabase" where
  "processSenderReport st par tNow sr db =
     with_member (sr_uiSSRC sr) (onSrReceived tNow sr) (insertSSRCIfNotInSessionDb st par tNow (sr_uiSSRC sr) db)"

definition processReceiverReport ::
  "RtpSessionState \<Rightarrow> RtpSessionParameters \<Rightarrow> int \<Rightarrow> RtcpRr \<Rightarrow> SessionDatabase \<Rightarrow> MemberUpdate list \<times> SessionDatabase" where
  "processReceiverReport st par tNow rr db =
     with_member (rr_uiReporterSSRC rr) (onRrReceived tNow rr) (insertSSRCIfNotInSessionDb st par tNow (rr_uiReporterSSRC rr) db)"

definition processSdesReportBlocks :: "RtcpSdesReportBlock list \<Rightarrow> SessionDatabase \<Rightarrow> SessionDatabase" where
  "processSdesReportBlocks vReports db =
     fold (\<lambda>report db. update_member (sb_uiSSRC_CSRC1 report) (mem_map (updateSdesInfo (sb_info report))) db) vReports db"

definition processBye :: "int \<Rightarrow> RtcpBye \<Rightarrow> SessionDatabase \<Rightarrow> SessionDatabase" where
  "processBye tNow bye db =
     fold (\<lambda>uiSSRC db. update_member uiSSRC (mem_map (onByeReceived tNow)) db) (by_vSSRCs bye) db"

definition processXrReport ::
  "('i, 'o) bit_io \<Rightarrow> RtpSessionState \<Rightarrow> RtpSessionParameters \<Rightarrow> int \<Rightarrow> RtcpXr \<Rightarrow> SessionDatabase \<Rightarrow> SessionDatabase" where
  "processXrReport io st par tNow xr db =
     update_member (xr_uiReporterSSRC xr) (member_onXrReceived io tNow xr)
       (insertSSRCIfNotInSessionDb st par tNow (xr_uiReporterSSRC xr) db)"

fun doProcessIncomingRtcpPacket ::
  "('i, 'o) bit_io \<Rightarrow> RtpSessionState \<Rightarrow> RtpSessionParameters \<Rightarrow> int \<Rightarrow> session_packet \<Rightarrow> SessionDatabase \<Rightarrow>
     MemberUpdate list \<times> SessionDatabase" where
  "doProcessIncomingRtcpPacket io st par tNow (Standard (SR sr)) db = processSenderReport st par tNow sr db"
| "doProcessIncomingRtcpPacket io st par tNow (Standard (RR rr)) db = processReceiverReport st par tNow rr db"
| "doProcessIncomingRtcpPacket io st par tNow (Standard (SDES sdes)) db = ([], processSdesReportBlocks (sd_vReports sdes) db)"
| "doProcessIncomingRtcpPacket io st par tNow (Standard (APP app)) db = ([], db)"
| "doProcessIncomingRtcpPacket io st par tNow (Standard (BYE bye)) db = ([], processBye tNow bye db)"
| "doProcessIncomingRtcpPacket io st par tNow (XR xr) db =
     ([], if db_bXrEnabled db then processXrReport io st par tNow xr db else db)"
| "doProcessIncomingRtcpPacket io st par tNow (OtherRtcp b) db = ([], db)"

definition processIncomingRtcpPacket ::
  "('i, 'o) bit_io \<Rightarrow> RtpSessionState \<Rightarrow> RtpSessionParameters \<Rightarrow> int \<Rightarrow> session_packet list \<Rightarrow> SessionDatabase \<Rightarrow>
     MemberUpdate list \<times> SessionDatabase" where
  "processIncomingRtcpPacket io st par tNow compoundPacket db =
     (case fold (\<lambda>p (us, db). case doProcessIncomingRtcpPacket io st par tNow p db of (us', db') \<Rightarrow> (us @ us', db'))
             compoundPacket ([], db) of
        (us, db1) \<Rightarrow> (us, db1\<lparr>db_avg_rtcp_size := average_rtcp_size (compound_size compoundPacket) (db_avg_rtcp_size db1)\<rparr>))"

section \<open>Reporting intervals and timeouts\<close>

text \<open>
  The entries of senders and receivers are passed on by pointer, here by their SSRC. Both loops over the
  table are the same but for the test and the way the entry is finalised.
\<close>

fun gather_loop ::
  "(u32 \<Rightarrow> member \<Rightarrow> bool) \<Rightarrow> (member \<Rightarrow> fault + member) \<Rightarrow> (u32 \<times> member) list \<Rightarrow> fault + (u32 list \<times> (u32 \<times> member) list)" where
  "gather_loop P finalise [] = Inr ([], [])"
| "gather_loop P finalise ((k, m) # ms) =
     (case (if P k m then finalise m else Inr m) of
        Inl f \<Rightarrow> Inl f
      | Inr m1 \<Rightarrow>
          (case gather_loop P finalise ms of
             Inl f \<Rightarrow> Inl f
           | Inr (ks, ms') \<Rightarrow> Inr (if P k m then k # ks else ks, (k, mem_map newReportingInterval m1) # ms')))"

fun member_finaliseRRData :: "int \<Rightarrow> member \<Rightarrow> fault + member" where
  "member_finaliseRRData tNow (Member m) = (case finaliseRRData tNow m of Inl f \<Rightarrow> Inl f | Inr m' \<Rightarrow> Inr (Member m'))"
| "member_finaliseRRData tNow (XrMember m) =
     (case finaliseRRData tNow (xe_base m) of Inl f \<Rightarrow> Inl f | Inr m' \<Rightarrow> Inr (XrMember (m\<lparr>xe_base := m'\<rparr>)))"

definition gatherRTCPReportDataAndBeginNewInterval ::
  "RtpSessionState \<Rightarrow> int \<Rightarrow> SessionDatabase \<Rightarrow> fault + ((bool \<times> u32 list \<times> u32 list) \<times> SessionDatabase)" where
  "gatherRTCPReportDataAndBeginNewInterval st tNow db =
     (case lookupMemberEntryInSessionDb (ss_uiSSRC st) db of
        None \<Rightarrow> Inl Assertion_failed
      | Some pOurEntry \<Rightarrow>
          let we_sent = me_bIsSender (mem_base pOurEntry)
          in case gather_loop (\<lambda>k m. me_bIsSender (mem_base m) \<and> \<not> isOurSSRC st k) (member_finaliseRRData tNow) (db_memberDb db) of
               Inl f \<Rightarrow> Inl f
             | Inr (vSenderList, ms1) \<Rightarrow>
                 (case gather_loop (\<lambda>k m. \<not> me_bIsSender (mem_base m) \<and> \<not> isOurSSRC st k) (\<lambda>m. Inr (member_finaliseData tNow m)) ms1 of
                    Inl f \<Rightarrow> Inl f
                  | Inr (vReceiverList, ms2) \<Rightarrow>
                      Inr ((we_sent, vSenderList, vReceiverList), db\<lparr>db_we_sent := we_sent, db_memberDb := ms2\<rparr>)))"

text \<open>A double converted to \<open>uint32_t\<close>: undefined if the value is not finite or does not fit.\<close>

definition double_to_u32 :: "rat option \<Rightarrow> fault + u32" where
  "double_to_u32 d =
     (case d of None \<Rightarrow> Inl Undefined_conversion
      | Some x \<Rightarrow> if 0 \<le> x \<and> x < 2 ^ 32 then Inr (of_int \<lfloor>x\<rfloor>) else Inl Undefined_conversion)"

text \<open>A comparison with \<open>not_a_date_time\<close> is false.\<close>

definition before :: "ptime \<Rightarrow> int \<Rightarrow> bool" where
  "before t tLimit = (case t of None \<Rightarrow> False | Some x \<Rightarrow> x < tLimit)"

definition timed_out :: "RtpSessionState \<Rightarrow> int \<Rightarrow> int \<Rightarrow> u32 \<times> member \<Rightarrow> bool" where
  "timed_out st tCurrent tTimeout e \<longleftrightarrow> \<not> isOurSSRC st (fst e)
     \<and> (before (me_tLastPacketSent (mem_base (snd e))) tTimeout \<or> isInactiveAndCanBeRemoved tCurrent (mem_base (snd e)))"

definition stop_sending :: "int \<Rightarrow> member \<Rightarrow> member" where
  "stop_sending tSenderTimeout m =
     (if me_bIsSender (mem_base m) \<and> before (me_tLastPacketSent (mem_base m)) tSenderTimeout then mem_map (setSender False) m else m)"

definition checkMemberDatabase ::
  "RtpSessionState \<Rightarrow> RtpSessionParameters \<Rightarrow> rand \<Rightarrow> int \<Rightarrow> SessionDatabase \<Rightarrow> fault + SessionDatabase" where
  "checkMemberDatabase st par rnd tCurrent db =
     (let dTransmissionInterval = computeRtcpIntervalSeconds rnd False (getSenderCount db) (getActiveMemberCount db)
            (db_avg_rtcp_size db) (sp_uiSessionBandwidthKbps par) False False False
      in case double_to_u32 (map_option (\<lambda>d. fadd (fmul (fmul d 1000) (of_u32 TIMEOUT_MULTIPLIER)) (1 / 2)) dTransmissionInterval) of
           Inl f \<Rightarrow> Inl f
         | Inr uiTimeoutMs \<Rightarrow>
             (case double_to_u32 (map_option (\<lambda>d. fadd (fmul (fmul d 1000) 2) (1 / 2)) dTransmissionInterval) of
                Inl f \<Rightarrow> Inl f
              | Inr uiSenderTimeoutMs \<Rightarrow>
                  let tTimeout = tCurrent - 1000 * uint uiTimeoutMs;
                      tSenderTimeout = tCurrent - 1000 * uint uiSenderTimeoutMs;
                      vRemovalList = map fst (filter (timed_out st tCurrent tTimeout) (db_memberDb db));
                      ms = map (\<lambda>(k, m). (k, stop_sending tSenderTimeout m)) (db_memberDb db)
                  in Inr (db\<lparr>db_memberDb := filter (\<lambda>(k, m). k \<notin> set vRemovalList) ms\<rparr>)))"

end
