(* ===== verification/Session_Statistics.thy ===== *)
theory Session_Statistics
  imports Session_Database Ordered_Map
begin

text \<open>
  Packet and octet counts of a session (\<open>RtpSessionStatistics.cpp\<close>) and the clock that relates RTP
  timestamps to wall clock time (\<open>RtpReferenceClock.cpp\<close>), from which sender reports are made. Counters wrap at
  32 bits. An end point is known by its identifier.
\<close>

section \<open>Counters\<close>

record PacketCounter =
  pc_TotalPackets :: u32
  pc_TotalOctets :: u32
  pc_PacketsInInterval :: u32
  pc_OctetsInInterval :: u32

definition PacketCounter_new :: PacketCounter where
  "PacketCounter_new = \<lparr>pc_TotalPackets = 0, pc_TotalOctets = 0, pc_PacketsInInterval = 0, pc_OctetsInInterval = 0\<rparr>"

definition PacketCounter_addPacket :: "u32 \<Rightarrow> PacketCounter \<Rightarrow> PacketCounter" where
  "PacketCounter_addPacket uiPacketSize c =
     \<lparr>pc_TotalPackets = pc_TotalPackets c + 1, pc_TotalOctets = pc_TotalOctets c + uiPacketSize,
      pc_PacketsInInterval = pc_PacketsInInterval c + 1, pc_OctetsInInterval = pc_OctetsInInterval c + uiPacketSize\<rparr>"

definition PacketCounter_newInterval :: "PacketCounter \<Rightarrow> PacketCounter" where
  "PacketCounter_newInterval c = c\<lparr>pc_PacketsInInterval := 0, pc_OctetsInInterval := 0\<rparr>"

record ChannelStatistics =
  cs_tLastRtpPacketSent :: ptime
  cs_tLastRtcpPacketSent :: ptime
  cs_uiRtpTsLastRtpPacketSent :: u32
  cs_mRtpPacketsSent :: "(u8 \<times> PacketCounter) list"
  cs_mRtpPacketsReceived :: "(u8 \<times> PacketCounter) list"
  cs_rtcpPacketsSent :: PacketCounter
  cs_rtcpPacketsReceived :: PacketCounter

definition ChannelStatistics_new :: ChannelStatistics where
  "ChannelStatistics_new = \<lparr>cs_tLastRtpPacketSent = None, cs_tLastRtcpPacketSent = None, cs_uiRtpTsLastRtpPacketSent = 0,
     cs_mRtpPacketsSent = [], cs_mRtpPacketsReceived = [], cs_rtcpPacketsSent = PacketCounter_new, cs_rtcpPacketsReceived = PacketCounter_new\<rparr>"

text \<open>Sums over all payload types, and the value of one.\<close>

definition total_of :: "(PacketCounter \<Rightarrow> u32) \<Rightarrow> (u8 \<times> PacketCounter) list \<Rightarrow> u32" where
  "total_of f m = foldl (\<lambda>s (pt, c). s + f c) 0 m"

definition value_of :: "(PacketCounter \<Rightarrow> u32) \<Rightarrow> (u8 \<times> PacketCounter) list \<Rightarrow> u8 \<Rightarrow> u32" where
  "value_of f m uiPayloadType = (case map_of m uiPayloadType of None \<Rightarrow> 0 | Some c \<Rightarrow> f c)"

definition getTotalRtpPacketsSent :: "ChannelStatistics \<Rightarrow> u32" where
  "getTotalRtpPacketsSent cs = total_of pc_TotalPackets (cs_mRtpPacketsSent cs)"

definition getTotalOctetsSent :: "ChannelStatistics \<Rightarrow> u32" where
  "getTotalOctetsSent cs = total_of pc_TotalOctets (cs_mRtpPacketsSent cs)"

definition getTotalRtpPacketsSent_pt :: "u8 \<Rightarrow> ChannelStatistics \<Rightarrow> u32" where
  "getTotalRtpPacketsSent_pt uiPayloadType cs = value_of pc_TotalPackets (cs_mRtpPacketsSent cs) uiPayloadType"

definition getTotalOctetsSent_pt :: "u8 \<Rightarrow> ChannelStatistics \<Rightarrow> u32" where
  "getTotalOctetsSent_pt uiPayloadType cs = value_of pc_TotalOctets (cs_mRtpPacketsSent cs) uiPayloadType"

definition getRtpPacketsSentDuringLastInterval :: "ChannelStatistics \<Rightarrow> u32" where
  "getRtpPacketsSentDuringLastInterval cs = total_of pc_PacketsInInterval (cs_mRtpPacketsSent cs)"

definition getRtpPacketsSentDuringLastInterval_pt :: "u8 \<Rightarrow> ChannelStatistics \<Rightarrow> u32" where
  "getRtpPacketsSentDuringLastInterval_pt uiPayloadType cs = value_of pc_PacketsInInterval (cs_mRtpPacketsSent cs) uiPayloadType"

definition getOctetsSentDuringLastInterval_pt :: "u8 \<Rightarrow> ChannelStatistics \<Rightarrow> u32" where
  "getOctetsSentDuringLastInterval_pt uiPayloadType cs = value_of pc_OctetsInInterval (cs_mRtpPacketsSent cs) uiPayloadType"

definition getOctetsSentDuringLastInterval :: "ChannelStatistics \<Rightarrow> u32" where
  "getOctetsSentDuringLastInterval cs = total_of pc_OctetsInInterval (cs_mRtpPacketsSent cs)"

definition getTotalRtpPacketsReceived :: "ChannelStatistics \<Rightarrow> u32" where
  "getTotalRtpPacketsReceived cs = total_of pc_TotalPackets (cs_mRtpPacketsReceived cs)"

definition getTotalOctetsReceived :: "ChannelStatistics \<Rightarrow> u32" where
  "getTotalOctetsReceived cs = total_of pc_TotalOctets (cs_mRtpPacketsReceived cs)"

definition getRtpPacketsReceivedDuringLastInterval :: "ChannelStatistics \<Rightarrow> u32" where
  "getRtpPacketsReceivedDuringLastInterval cs = total_of pc_PacketsInInterval (cs_mRtpPacketsReceived cs)"

definition getOctetsReceivedDuringLastInterval :: "ChannelStatistics \<Rightarrow> u32" where
  "getOctetsReceivedDuringLastInterval cs = total_of pc_OctetsInInterval (cs_mRtpPacketsReceived cs)"

definition ChannelStatistics_newInterval :: "ChannelStatistics \<Rightarrow> ChannelStatistics" where
  "ChannelStatistics_newInterval cs =
     cs\<lparr>cs_mRtpPacketsSent := map (\<lambda>(pt, c). (pt, PacketCounter_newInterval c)) (cs_mRtpPacketsSent cs),
        cs_mRtpPacketsReceived := map (\<lambda>(pt, c). (pt, PacketCounter_newInterval c)) (cs_mRtpPacketsReceived cs),
        cs_rtcpPacketsSent := PacketCounter_newInterval (cs_rtcpPacketsSent cs),
        cs_rtcpPacketsReceived := PacketCounter_newInterval (cs_rtcpPacketsReceived cs)\<rparr>"

text \<open>\<open>m[key]\<close> inserts a new counter for an unknown key.\<close>

definition count_packet :: "u8 \<Rightarrow> u32 \<Rightarrow> (u8 \<times> PacketCounter) list \<Rightarrow> (u8 \<times> PacketCounter) list" where
  "count_packet uiPayload uiPacketSize m =
     omap_put uiPayload
       (PacketCounter_addPacket uiPacketSize (case map_of m uiPayload of None \<Rightarrow> PacketCounter_new | Some c \<Rightarrow> c)) m"

definition ChannelStatistics_onSendRtpPacket :: "int \<Rightarrow> u8 \<Rightarrow> u32 \<Rightarrow> u32 \<Rightarrow> ChannelStatistics \<Rightarrow> ChannelStatistics" where
  "ChannelStatistics_onSendRtpPacket tNow uiPayload uiPacketSize uiRtpTimestamp cs =
     cs\<lparr>cs_tLastRtpPacketSent := Some tNow, cs_uiRtpTsLastRtpPacketSent := uiRtpTimestamp,
        cs_mRtpPacketsSent := count_packet uiPayload uiPacketSize (cs_mRtpPacketsSent cs)\<rparr>"

definition ChannelStatistics_onReceiveRtpPacket :: "u8 \<Rightarrow> u32 \<Rightarrow> ChannelStatistics \<Rightarrow> ChannelStatistics" where
  "ChannelStatistics_onReceiveRtpPacket uiPayload uiPacketSize cs =
     cs\<lparr>cs_mRtpPacketsReceived := count_packet uiPayload uiPacketSize (cs_mRtpPacketsReceived cs)\<rparr>"

definition ChannelStatistics_onSendRtcpPacket :: "int \<Rightarrow> u32 \<Rightarrow> ChannelStatistics \<Rightarrow> ChannelStatistics" where
  "ChannelStatistics_onSendRtcpPacket tNow uiPacketSize cs =
     cs\<lparr>cs_tLastRtcpPacketSent := Some tNow, cs_rtcpPacketsSent := PacketCounter_addPacket uiPacketSize (cs_rtcpPacketsSent cs)\<rparr>"

definition ChannelStatistics_onReceiveRtcpPacket :: "u32 \<Rightarrow> ChannelStatistics \<Rightarrow> ChannelStatistics" where
  "ChannelStatistics_onReceiveRtcpPacket uiPacketSize cs =
     cs\<lparr>cs_rtcpPacketsReceived := PacketCounter_addPacket uiPacketSize (cs_rtcpPacketsReceived cs)\<rparr>"

section \<open>Statistics of a session\<close>

record IntervalStatistic =
  is_IncomingRtpRateKbps :: "rat option"
  is_OutgoingRtpRateKbps :: "rat option"
  is_IncomingRtcpRateKbps :: "rat option"
  is_OutgoingRtcpRateKbps :: "rat option"
  is_DurationMillisecs :: rat

record RtpSessionStatistics =
  st_tStart :: ptime
  st_tEnd :: ptime
  st_tLastEstimate :: ptime
  st_overallStatistic :: ChannelStatistics
  st_mEndpointStatistic :: "(u32 \<times> ChannelStatistics) list"
  st_vStats :: "IntervalStatistic list"
  st_uiCurrentDurationMs :: u32
  st_uiRtpRecv :: u32
  st_uiRtpSent :: u32
  st_uiRtcpRecv :: u32
  st_uiRtcpSent :: u32
  st_bSummariseStats :: bool
  st_bFinalised :: bool
  st_dIncomingRtpRateKbps :: "rat option"
  st_dIncomingRtcpRateKbps :: "rat option"
  st_dOutgoingRtpRateKbps :: "rat option"
  st_dOutgoingRtcpRateKbps :: "rat option"

definition RtpSessionStatistics_new :: RtpSessionStatistics where
  "RtpSessionStatistics_new = \<lparr>st_tStart = None, st_tEnd = None, st_tLastEstimate = None, st_overallStatistic = ChannelStatistics_new,
     st_mEndpointStatistic = [], st_vStats = [], st_uiCurrentDurationMs = 0, st_uiRtpRecv = 0, st_uiRtpSent = 0, st_uiRtcpRecv = 0,
     st_uiRtcpSent = 0, st_bSummariseStats = False, st_bFinalised = False, st_dIncomingRtpRateKbps = Some 0,
     st_dIncomingRtcpRateKbps = Some 0, st_dOutgoingRtpRateKbps = Some 0, st_dOutgoingRtcpRateKbps = Some 0\<rparr>"

definition MIN_MEASUREMENT_INTERVAL_MS :: u32 where "MIN_MEASUREMENT_INTERVAL_MS = 1000"

text \<open>The product with eight is taken in 32 bits; a duration of zero gives an infinite rate.\<close>

definition rate_kbps :: "u32 \<Rightarrow> u32 \<Rightarrow> rat option" where
  "rate_kbps uiOctets uiDurationMs = fdivide (of_u32 (8 * uiOctets)) (of_u32 uiDurationMs)"

definition estimate_rates :: "RtpSessionStatistics \<Rightarrow> RtpSessionStatistics" where
  "estimate_rates st =
     (let d = st_uiCurrentDurationMs st;
          st1 = st\<lparr>st_tLastEstimate := st_tEnd st, st_dIncomingRtpRateKbps := rate_kbps (st_uiRtpRecv st) d,
                   st_dOutgoingRtpRateKbps := rate_kbps (st_uiRtpSent st) d, st_dIncomingRtcpRateKbps := rate_kbps (st_uiRtcpRecv st) d,
                   st_dOutgoingRtcpRateKbps := rate_kbps (st_uiRtcpSent st) d\<rparr>;
          st2 = (if st_bSummariseStats st1
                 then st1\<lparr>st_vStats := st_vStats st1 @ [\<lparr>is_IncomingRtpRateKbps = st_dIncomingRtpRateKbps st1,
                        is_OutgoingRtpRateKbps = st_dOutgoingRtpRateKbps st1, is_IncomingRtcpRateKbps = st_dIncomingRtcpRateKbps st1,
                        is_OutgoingRtcpRateKbps = st_dOutgoingRtcpRateKbps st1, is_DurationMillisecs = of_u32 d\<rparr>]\<rparr>
                 else st1)
      in st2\<lparr>st_uiCurrentDurationMs := 0, st_uiRtpRecv := 0, st_uiRtpSent := 0, st_uiRtcpRecv := 0, st_uiRtcpSent := 0\<rparr>)"

definition RtpSessionStatistics_newInterval :: "int \<Rightarrow> RtpSessionStatistics \<Rightarrow> RtpSessionStatistics" where
  "RtpSessionStatistics_newInterval tNow st =
     (let st0 = st\<lparr>st_tEnd := Some tNow\<rparr>; o' = st_overallStatistic st0;
          st1 = (case st_tStart st0 of
                   None \<Rightarrow> st0
                 | Some tStart \<Rightarrow>
                     let uiDurationMs = of_int (sgn (tNow - tStart) * (\<bar>tNow - tStart\<bar> div 1000));
                         st' = st0\<lparr>st_uiCurrentDurationMs := st_uiCurrentDurationMs st0 + uiDurationMs,
                                 st_uiRtpRecv := st_uiRtpRecv st0 + getOctetsReceivedDuringLastInterval o',
                                 st_uiRtpSent := st_uiRtpSent st0 + getOctetsSentDuringLastInterval o',
                                 st_uiRtcpRecv := st_uiRtcpRecv st0 + pc_OctetsInInterval (cs_rtcpPacketsReceived o'),
                                 st_uiRtcpSent := st_uiRtcpSent st0 + pc_OctetsInInterval (cs_rtcpPacketsSent o')\<rparr>
                     in if st_uiCurrentDurationMs st' \<ge> MIN_MEASUREMENT_INTERVAL_MS \<or> st_bFinalised st' then estimate_rates st' else st')
      in st1\<lparr>st_overallStatistic := ChannelStatistics_newInterval (st_overallStatistic st1), st_tStart := st_tEnd st1\<rparr>)"

definition getTotalRtpPacketsSent_id :: "u32 \<Rightarrow> RtpSessionStatistics \<Rightarrow> u32" where
  "getTotalRtpPacketsSent_id uiId st =
     (case map_of (st_mEndpointStatistic st) uiId of None \<Rightarrow> 0 | Some c \<Rightarrow> getTotalRtpPacketsSent c)"

definition getTotalOctetsSent_id :: "u32 \<Rightarrow> RtpSessionStatistics \<Rightarrow> u32" where
  "getTotalOctetsSent_id uiId st = (case map_of (st_mEndpointStatistic st) uiId of None \<Rightarrow> 0 | Some c \<Rightarrow> getTotalOctetsSent c)"

definition enableStatisticsSummary :: "RtpSessionStatistics \<Rightarrow> RtpSessionStatistics" where
  "enableStatisticsSummary st = st\<lparr>st_bSummariseStats := True\<rparr>"

definition endpoint_statistic :: "u32 \<Rightarrow> RtpSessionStatistics \<Rightarrow> ChannelStatistics" where
  "endpoint_statistic uiId st = (case map_of (st_mEndpointStatistic st) uiId of None \<Rightarrow> ChannelStatistics_new | Some c \<Rightarrow> c)"

definition update_endpoint :: "u32 \<Rightarrow> (ChannelStatistics \<Rightarrow> ChannelStatistics) \<Rightarrow> RtpSessionStatistics \<Rightarrow> RtpSessionStatistics" where
  "update_endpoint uiId f st =
     st\<lparr>st_mEndpointStatistic := omap_put uiId (f (endpoint_statistic uiId st)) (st_mEndpointStatistic st)\<rparr>"

definition RtpSessionStatistics_newInterval_id :: "u32 \<Rightarrow> RtpSessionStatistics \<Rightarrow> RtpSessionStatistics" where
  "RtpSessionStatistics_newInterval_id uiId st = update_endpoint uiId ChannelStatistics_newInterval st"

text \<open>The loop over the end points of \<open>finalise\<close> works on copies and changes nothing.\<close>

definition RtpSessionStatistics_finalise :: "int \<Rightarrow> RtpSessionStatistics \<Rightarrow> RtpSessionStatistics" where
  "RtpSessionStatistics_finalise tNow st = RtpSessionStatistics_newInterval tNow (st\<lparr>st_bFinalised := True\<rparr>)"

definition on_both :: "u32 \<Rightarrow> (ChannelStatistics \<Rightarrow> ChannelStatistics) \<Rightarrow> RtpSessionStatistics \<Rightarrow> RtpSessionStatistics" where
  "on_both uiId f st = update_endpoint uiId f (st\<lparr>st_overallStatistic := f (st_overallStatistic st)\<rparr>)"

definition RtpSessionStatistics_onSendRtpPacket :: "int \<Rightarrow> RtpPacket \<Rightarrow> u32 \<Rightarrow> RtpSessionStatistics \<Rightarrow> RtpSessionStatistics" where
  "RtpSessionStatistics_onSendRtpPacket tNow packet uiId st =
     on_both uiId (ChannelStatistics_onSendRtpPacket tNow (rh_uiPT (rp_header packet)) (fst (RtpPacket_getSize packet)) (getRtpTimestamp packet)) st"

definition RtpSessionStatistics_onReceiveRtpPacket :: "RtpPacket \<Rightarrow> u32 \<Rightarrow> RtpSessionStatistics \<Rightarrow> RtpSessionStatistics" where
  "RtpSessionStatistics_onReceiveRtpPacket packet uiId st =
     on_both uiId (ChannelStatistics_onReceiveRtpPacket (rh_uiPT (rp_header packet)) (fst (RtpPacket_getSize packet))) st"

definition RtpSessionStatistics_onSendRtcpPacket :: "int \<Rightarrow> session_packet list \<Rightarrow> u32 \<Rightarrow> RtpSessionStatistics \<Rightarrow> RtpSessionStatistics" where
  "RtpSessionStatistics_onSendRtcpPacket tNow compoundPacket uiId st =
     on_both uiId (ChannelStatistics_onSendRtcpPacket tNow (compound_size compoundPacket)) st"

definition RtpSessionStatistics_onReceiveRtcpPacket :: "session_packet list \<Rightarrow> u32 \<Rightarrow> RtpSessionStatistics \<Rightarrow> RtpSessionStatistics" where
  "RtpSessionStatistics_onReceiveRtcpPacket compoundPacket uiId st =
     on_both uiId (ChannelStatistics_onReceiveRtcpPacket (compound_size compoundPacket)) st"

section \<open>The reference clock\<close>

definition convertToRtpTimestamp :: "u32 \<Rightarrow> u32 \<Rightarrow> u32 \<Rightarrow> u32 \<Rightarrow> u32" where
  "convertToRtpTimestamp uiSeconds uiMicroseconds uiTimestampFrequency uiTimestampBase =
     uiTimestampBase + (uiTimestampFrequency * uiSeconds +
       of_int \<lfloor>fadd (fdiv (fmul (of_u32 uiMicroseconds) (of_u32 uiTimestampFrequency)) 1000000) (1 / 2)\<rfloor>)"

definition convertPresentationTimeToRtpTimestamp :: "rat \<Rightarrow> u32 \<Rightarrow> u32 \<Rightarrow> fault + u32" where
  "convertPresentationTimeToRtpTimestamp dPresentationTime uiTimestampFrequency uiTimestampBase =
     (case double_to_u32 (Some (fadd (fmul (of_u32 uiTimestampFrequency) dPresentationTime) (1 / 2))) of
        Inl f \<Rightarrow> Inl f | Inr uiRtpTimestamp \<Rightarrow> Inr (uiTimestampBase + uiRtpTimestamp))"

definition convertToNtpTimestamp_freq :: "int \<Rightarrow> u32 \<Rightarrow> u32 \<times> u32" where
  "convertToNtpTimestamp_freq t1 uiClockFrequency =
     (case getTimeDifference NTP_EPOCH t1 of (uiNtpMsw, uiMicroseconds) \<Rightarrow>
        let dFactor = fdiv 1000000 (of_u32 uiClockFrequency);
            uiDiv = of_int \<lfloor>fadd (fdiv (of_u32 uiMicroseconds) dFactor) (1 / 2)\<rfloor> :: u32;
            uiMicroseconds1 = of_int \<lfloor>fmul (of_u32 uiDiv) dFactor\<rfloor> :: u32
        in (uiNtpMsw, of_int \<lfloor>ntp_fraction uiMicroseconds1\<rfloor>))"

datatype ReferenceClockMode = RC_WALL_CLOCK_TIME | RC_MEDIA_SAMPLE_TIME

record RtpReferenceClock =
  rc_eMode :: ReferenceClockMode
  rc_tReferenceBase :: ptime
  rc_uiLastRtpTimestamp :: u32
  rc_uiRtcpOffset :: u32
  rc_bOffsetRtp :: bool

definition RtpReferenceClock_new :: "ReferenceClockMode \<Rightarrow> RtpReferenceClock" where
  "RtpReferenceClock_new eMode =
     \<lparr>rc_eMode = eMode, rc_tReferenceBase = None, rc_uiLastRtpTimestamp = 0, rc_uiRtcpOffset = 0, rc_bOffsetRtp = False\<rparr>"

text \<open>The time since the reference, in timestamp units.\<close>

definition rtp_time_since :: "ptime \<Rightarrow> int \<Rightarrow> u32 \<Rightarrow> u32" where
  "rtp_time_since tReference tNow uiRtpTimestampFrequency =
     (let uiTotalMicroseconds = of_int (tNow - (case tReference of None \<Rightarrow> tNow | Some t \<Rightarrow> t)) :: u64
      in convertToRtpTimestamp (ucast (uiTotalMicroseconds div 1000000)) (ucast (uiTotalMicroseconds mod 1000000)) uiRtpTimestampFrequency 0)"

definition wall_clock_timestamp :: "int \<Rightarrow> u32 \<Rightarrow> u32 \<Rightarrow> u32 \<times> u32 \<times> u32" where
  "wall_clock_timestamp tNow uiRtpTimestampFrequency uiRtpTimestampBase =
     (case convertToNtpTimestamp_freq tNow 90000 of (uiMsw2, uiLsw2) \<Rightarrow>
        (convertTimeToRtpTimestamp (convertNtpTimestampToPosixTime uiMsw2 uiLsw2) uiRtpTimestampFrequency uiRtpTimestampBase, uiMsw2, uiLsw2))"

text \<open>The results are the RTP timestamp, the two words of the NTP timestamp and the clock.\<close>

definition clock_getRtpTimestamp ::
  "int \<Rightarrow> u32 \<Rightarrow> u32 \<Rightarrow> rat \<Rightarrow> RtpReferenceClock \<Rightarrow> fault + (u32 \<times> u32 \<times> u32 \<times> RtpReferenceClock)" where
  "clock_getRtpTimestamp tNow uiRtpTimestampFrequency uiRtpTimestampBase dMediaSampleTime rc =
     (case rc_eMode rc of
        RC_MEDIA_SAMPLE_TIME \<Rightarrow>
          let rc1 = (if rc_bOffsetRtp rc
                     then rc\<lparr>rc_uiRtcpOffset := rtp_time_since (rc_tReferenceBase rc) tNow uiRtpTimestampFrequency, rc_bOffsetRtp := False\<rparr>
                     else rc)
          in (case convertPresentationTimeToRtpTimestamp dMediaSampleTime uiRtpTimestampFrequency 0 of
                Inl f \<Rightarrow> Inl f
              | Inr uiRtpTimestamp \<Rightarrow>
                  let rc2 = (if uiRtpTimestamp \<noteq> rc_uiLastRtpTimestamp rc1 \<or> rc_tReferenceBase rc1 = None
                             then rc1\<lparr>rc_uiLastRtpTimestamp := uiRtpTimestamp, rc_tReferenceBase := Some tNow\<rparr> else rc1)
                  in Inr (rc_uiLastRtpTimestamp rc2 + uiRtpTimestampBase + rc_uiRtcpOffset rc2, 0, 0, rc2))
      | RC_WALL_CLOCK_TIME \<Rightarrow>
          (case wall_clock_timestamp tNow uiRtpTimestampFrequency uiRtpTimestampBase of (uiRtpTs, uiMsw, uiLsw) \<Rightarrow>
             Inr (uiRtpTs, uiMsw, uiLsw, rc)))"

definition getRtpAndNtpTimestamps :: "int \<Rightarrow> u32 \<Rightarrow> u32 \<Rightarrow> RtpReferenceClock \<Rightarrow> u32 \<times> u32 \<times> u32 \<times> RtpReferenceClock" where
  "getRtpAndNtpTimestamps tNow uiRtpTimestampFrequency uiRtpTimestampBase rc =
     (case convertToNtpTimestamp tNow of (uiMsw, uiLsw) \<Rightarrow>
      case rc_eMode rc of
        RC_MEDIA_SAMPLE_TIME \<Rightarrow>
          (case rc_tReferenceBase rc of
             None \<Rightarrow> let rc1 = rc\<lparr>rc_tReferenceBase := Some tNow, rc_bOffsetRtp := True, rc_uiLastRtpTimestamp := 0\<rparr>
                     in (rc_uiLastRtpTimestamp rc1 + uiRtpTimestampBase + rc_uiRtcpOffset rc1, uiMsw, uiLsw, rc1)
           | Some _ \<Rightarrow> let rc1 = rc\<lparr>rc_uiLastRtpTimestamp := rc_uiLastRtpTimestamp rc
                                     + rtp_time_since (rc_tReferenceBase rc) tNow uiRtpTimestampFrequency, rc_tReferenceBase := Some tNow\<rparr>
                     in (rc_uiLastRtpTimestamp rc1 + uiRtpTimestampBase + rc_uiRtcpOffset rc1, uiMsw, uiLsw, rc1))
      | RC_WALL_CLOCK_TIME \<Rightarrow>
          (case wall_clock_timestamp tNow uiRtpTimestampFrequency uiRtpTimestampBase of (uiRtpTs, _, _) \<Rightarrow> (uiRtpTs, uiMsw, uiLsw, rc)))"

end
