(* ===== verification/Rtcp_Report_Manager.thy ===== *)
theory Rtcp_Report_Manager
  imports Session_Statistics
begin

text \<open>
  Periodic RTCP reports (\<open>rfc3550/RtcpReportManager.cpp\<close>): when the timer of the interval fires, members that
  fell silent are removed, a compound packet with a sender report or receiver reports on every
  active source is generated and passed to the handler, and the timer is set again. A session ends with a
  BYE. What an operation passes to the handler and to the timer are outputs.
\<close>

section \<open>State\<close>

record RtcpReportManager =
  rm_pTransmissionTimer :: RtcpTransmissionTimer
  rm_bShuttingDown :: bool
  rm_onRtcp :: bool
  rm_bInitial :: bool
  rm_uiRtcpBandwidthFraction :: u32
  rm_dRtcpBw :: rat
  rm_bUseReducedMinimum :: bool
  rm_tPrevious :: ptime
  rm_tNext :: ptime
  rm_uiPreviousMembers :: u32
  rm_dTransmissionInterval :: rat
  rm_uiTransmissionIntervalMs :: u32

text \<open>The objects that the manager shares with the session: the database and the reference clock.\<close>

record reporting =
  rp_manager :: RtcpReportManager
  rp_database :: SessionDatabase
  rp_clock :: RtpReferenceClock

datatype report_output = OnRtcp "session_packet list" | StartTimer u32 | ScheduleBye u32 "session_packet list" | CancelTimer

definition RtcpReportManager_create :: "RtpSessionParameters \<Rightarrow> RtcpTransmissionTimer \<Rightarrow> u32 \<Rightarrow> RtcpReportManager" where
  "RtcpReportManager_create par pTransmissionTimer uninit =
     \<lparr>rm_pTransmissionTimer = pTransmissionTimer, rm_bShuttingDown = False, rm_onRtcp = False, rm_bInitial = True,
      rm_uiRtcpBandwidthFraction = RECOMMENDED_RTCP_BANDWIDTH_PERCENTAGE,
      rm_dRtcpBw = fmul (fmul (of_u32 (sp_uiSessionBandwidthKbps par)) (fdiv (of_u32 RECOMMENDED_RTCP_BANDWIDTH_PERCENTAGE) 100)) 125,
      rm_bUseReducedMinimum = False, rm_tPrevious = None, rm_tNext = None, rm_uiPreviousMembers = 0,
      rm_dTransmissionInterval = 0, rm_uiTransmissionIntervalMs = uninit\<rparr>"

definition setRtcpHandler :: "RtcpReportManager \<Rightarrow> RtcpReportManager" where
  "setRtcpHandler rm = rm\<lparr>rm_onRtcp := True\<rparr>"

section \<open>Reports\<close>

definition MAX_SOURCES_PER_RTCP_RR :: nat where "MAX_SOURCES_PER_RTCP_RR = 31"

definition RFC3550_IMMEDIATE_BYE_LIMIT :: u32 where "RFC3550_IMMEDIATE_BYE_LIMIT = 50"

definition isRetransmissionSender :: "RtpSessionParameters \<Rightarrow> ChannelStatistics \<Rightarrow> bool" where
  "isRetransmissionSender par rtpStatistic \<longleftrightarrow> sp_uiRtxTime par > 0 \<and> getTotalRtpPacketsSent_pt (sp_uiRtxPt par) rtpStatistic > 0"

definition generateSenderReports ::
  "RtpSessionState \<Rightarrow> RtpSessionParameters \<Rightarrow> ChannelStatistics \<Rightarrow> int \<Rightarrow> RtpReferenceClock \<Rightarrow> RtcpSr list \<times> RtpReferenceClock" where
  "generateSenderReports st par rtpStatistic tNow rc =
     (case getRtpAndNtpTimestamps tNow (sp_uiRtpTimestampFrequency par) (ss_uiRtpTimestampBase st) rc of
        (uiRtpTimestamp, uiNtpTimestampMsw, uiNtpTimestampLsw, rc1) \<Rightarrow>
          let uiPt = sp_uiPayloadType par;
              pSr = RtcpSr_create (ss_uiSSRC st) uiNtpTimestampMsw uiNtpTimestampLsw uiRtpTimestamp
                      (getTotalRtpPacketsSent_pt uiPt rtpStatistic) (getTotalOctetsSent_pt uiPt rtpStatistic);
              uiRtxPt = sp_uiRtxPt par;
              pRtxSr = RtcpSr_create (ss_uiRtxSSRC st) uiNtpTimestampMsw uiNtpTimestampLsw uiRtpTimestamp
                      (getTotalRtpPacketsSent_pt uiRtxPt rtpStatistic) (getTotalOctetsSent_pt uiRtxPt rtpStatistic)
          in (pSr # (if isRetransmissionSender par rtpStatistic then [pRtxSr] else []), rc1))"

text \<open>The block on a member; \<open>getLostFraction\<close> starts the next interval of its counts.\<close>

definition make_report_block :: "MemberEntry \<Rightarrow> RtcpRrReportBlock \<times> MemberEntry" where
  "make_report_block m =
     (case getLostFraction m of (uiFraction, m1) \<Rightarrow>
        (\<lparr>rrb_uiReporteeSSRC = me_uiSSRC m, rrb_uiFractionLost = uiFraction,
          rrb_uiCumulativeNumberOfPacketsLost = of_int (getCumulativeNumberOfPacketsLost m1),
          rrb_uiExtendedHighestSNReceived = getExtendedHighestSequenceNumber m1,
          rrb_uiInterarrivalJitter = me_uiJitter m1, rrb_uiLastSr = me_uiLsr m1, rrb_uiDelaySinceLastSr = me_uiDlsr m1\<rparr>, m1))"

fun add_report_block :: "RtcpRrReportBlock \<Rightarrow> rtcp_packet \<Rightarrow> rtcp_packet" where
  "add_report_block b (SR p) = SR (snd (RtcpSr_addReportBlock b p))"
| "add_report_block b (RR p) = RR (snd (RtcpRr_addReportBlock b p))"
| "add_report_block b p = p"

text \<open>
  The loop over the senders. \<open>pSr\<close> is whether blocks still go to the first sender report, \<open>uiCounter\<close> the number
  of blocks in the current packet; without a sender report they go to the receiver report that was added last.
\<close>

fun report_loop ::
  "u32 \<Rightarrow> u32 list \<Rightarrow> bool \<Rightarrow> nat \<Rightarrow> rtcp_packet list \<Rightarrow> SessionDatabase \<Rightarrow> fault + (rtcp_packet list \<times> SessionDatabase)" where
  "report_loop uiSSRC [] pSr uiCounter ps db = Inr (ps, db)"
| "report_loop uiSSRC (k # ks) pSr uiCounter ps db =
     (let ps1 = (if uiCounter = 0 \<and> \<not> pSr then ps @ [RR (RtcpRr_create uiSSRC)] else ps)
      in case lookupMemberEntryInSessionDb k db of
           None \<Rightarrow> Inl Null_dereference
         | Some m \<Rightarrow>
             (case make_report_block (mem_base m) of (block, m1) \<Rightarrow>
                let db1 = update_member k (mem_map (\<lambda>_. m1)) db;
                    i = (if pSr then 0 else length ps1 - 1);
                    ps2 = ps1[i := add_report_block block (ps1 ! i)];
                    uiCounter1 = uiCounter + 1
                in if uiCounter1 = MAX_SOURCES_PER_RTCP_RR
                   then report_loop uiSSRC ks False 0 ps2 db1
                   else report_loop uiSSRC ks pSr uiCounter1 ps2 db1))"

definition sdes_packet :: "u32 \<Rightarrow> SdesInformation \<Rightarrow> RtcpSdes" where
  "sdes_packet uiSSRC sdesInfo =
     (let block = RtcpSdesReportBlock_create uiSSRC
      in addSdesReport (block\<lparr>sb_info := (sb_info block)\<lparr>si_CName := si_CName sdesInfo\<rparr>\<rparr>) RtcpSdes_create)"

text \<open>A member without XR state is read as an XR member through a cast: undefined.\<close>

fun dlrr_blocks :: "SessionDatabase \<Rightarrow> u32 list \<Rightarrow> fault + DlrrBlock list" where
  "dlrr_blocks db [] = Inr []"
| "dlrr_blocks db (k # ks) =
     (case lookupMemberEntryInSessionDb k db of
        None \<Rightarrow> Inl Null_dereference
      | Some (Member m) \<Rightarrow> Inl Undefined_conversion
      | Some (XrMember m) \<Rightarrow>
          (case dlrr_blocks db ks of
             Inl f \<Rightarrow> Inl f
           | Inr ds \<Rightarrow> Inr (\<lparr>db_SSRC = me_uiSSRC (xe_base m), db_LastRR = xe_uiXrLrr m, db_DLRR = xe_uiXrDlrr m\<rparr> # ds)))"

definition createAdditionalReports ::
  "('i, 'o) bit_io \<Rightarrow> RtpSessionState \<Rightarrow> RtpSessionParameters \<Rightarrow> int \<Rightarrow> bool \<times> u32 list \<times> u32 list \<Rightarrow> SessionDatabase \<Rightarrow>
     fault + session_packet list" where
  "createAdditionalReports io st par tNow reportData db =
     (case reportData of (we_sent, vSenderList, vReceiverList) \<Rightarrow>
        if isXrEnabled par \<and> hasXrAttribute RCVR_RTT par
        then (if we_sent
              then (if vReceiverList = [] then Inr []
                    else case dlrr_blocks db vReceiverList of
                           Inl f \<Rightarrow> Inl f
                         | Inr vDllrInfo \<Rightarrow> Inr [XR (RtcpXr_addReportBlock (createDlrrXrReportBlock io vDllrInfo) (RtcpXr_create (ss_uiSSRC st)))])
              else (case convertToNtpTimestamp tNow of (uiNtpMsw, uiNtpLsw) \<Rightarrow>
                      Inr [XR (RtcpXr_addReportBlock
                        (createReceiverRttXrReportBlock io \<lparr>rt_NtpTimestampMsw = uiNtpMsw, rt_NtpTimestampLsw = uiNtpLsw\<rparr>)
                        (RtcpXr_create (ss_uiSSRC st)))]))
        else Inr [])"

definition generatePeriodicCompoundRtcpPacket ::
  "('i, 'o) bit_io \<Rightarrow> RtpSessionState \<Rightarrow> RtpSessionParameters \<Rightarrow> ChannelStatistics \<Rightarrow> int \<Rightarrow> bool \<times> u32 list \<times> u32 list \<Rightarrow> bool \<Rightarrow>
     SessionDatabase \<Rightarrow> RtpReferenceClock \<Rightarrow> fault + (session_packet list \<times> SessionDatabase \<times> RtpReferenceClock)" where
  "generatePeriodicCompoundRtcpPacket io st par stat tNow reportData bMinimalRtcpPacket db rc =
     (case reportData of (we_sent, vSenderList, vReceiverList) \<Rightarrow>
      case (if bMinimalRtcpPacket then Inr ([], db, rc)
            else case (if we_sent then generateSenderReports st par stat tNow rc else ([], rc)) of (srs, rc1) \<Rightarrow>
                 (case report_loop (ss_uiSSRC st) vSenderList we_sent 0 (map SR srs) db of
                    Inl f \<Rightarrow> Inl f
                  | Inr (ps, db1) \<Rightarrow>
                      let ps1 = (if ps = [] then [RR (RtcpRr_create (ss_uiSSRC st))] else ps)
                      in Inr (ps1 @ [SDES (sdes_packet (ss_uiSSRC st) (sp_sdesInfo par))], db1, rc1))) of
        Inl f \<Rightarrow> Inl f
      | Inr (ps, db2, rc2) \<Rightarrow>
          (case createAdditionalReports io st par tNow reportData db2 of
             Inl f \<Rightarrow> Inl f
           | Inr xs \<Rightarrow> Inr (map Standard ps @ xs, db2, rc2)))"

definition generateCompoundRtcpPacket ::
  "('i, 'o) bit_io \<Rightarrow> RtpSessionState \<Rightarrow> RtpSessionParameters \<Rightarrow> ChannelStatistics \<Rightarrow> int \<Rightarrow> bool \<Rightarrow> bool \<Rightarrow>
     SessionDatabase \<Rightarrow> RtpReferenceClock \<Rightarrow> fault + (session_packet list \<times> SessionDatabase \<times> RtpReferenceClock)" where
  "generateCompoundRtcpPacket io st par stat tNow bWithBye bMinimal db rc =
     (case gatherRTCPReportDataAndBeginNewInterval st tNow db of
        Inl f \<Rightarrow> Inl f
      | Inr (reportData, db1) \<Rightarrow>
          (case generatePeriodicCompoundRtcpPacket io st par stat tNow reportData bMinimal db1 rc of
             Inl f \<Rightarrow> Inl f
           | Inr (compoundPacket, db2, rc2) \<Rightarrow>
               let bye = RtcpBye_create (ss_uiSSRC st);
                   bye1 = (if isRetransmissionSender par stat then addSSRC (ss_uiRtxSSRC st) bye else bye)
               in Inr (if bWithBye then compoundPacket @ [Standard (BYE bye1)] else compoundPacket, db2, rc2)))"

section \<open>Timers\<close>

definition rtcp_handler :: "RtcpReportManager \<Rightarrow> session_packet list \<Rightarrow> report_output list" where
  "rtcp_handler rm ps = (if rm_onRtcp rm then [OnRtcp ps] else [])"

definition sendRtcpPacket ::
  "('i, 'o) bit_io \<Rightarrow> RtpSessionState \<Rightarrow> RtpSessionParameters \<Rightarrow> ChannelStatistics \<Rightarrow> int \<Rightarrow> bool \<Rightarrow> reporting \<Rightarrow>
     fault + (report_output list \<times> reporting)" where
  "sendRtcpPacket io st par stat tNow bIsMinimalPacketAllowed r =
     (case generateCompoundRtcpPacket io st par stat tNow False bIsMinimalPacketAllowed (rp_database r) (rp_clock r) of
        Inl f \<Rightarrow> Inl f
      | Inr (ps, db, rc) \<Rightarrow> Inr (rtcp_handler (rp_manager r) ps, r\<lparr>rp_database := db, rp_clock := rc\<rparr>))"

text \<open>The average packet size, a double, is cut to an integer for the timer.\<close>

definition setNextRtcpTimeout ::
  "RtpSessionState \<Rightarrow> RtpSessionParameters \<Rightarrow> rand \<Rightarrow> int \<Rightarrow> reporting \<Rightarrow> fault + (report_output list \<times> reporting)" where
  "setNextRtcpTimeout st par rnd tNow r =
     (let rm = rp_manager r; db = rp_database r
      in case double_to_u32 (Some (db_avg_rtcp_size db)) of
           Inl f \<Rightarrow> Inl f
         | Inr uiAverage \<Rightarrow>
             (case timer_computeRtcpIntervalSeconds rnd (db_isSender (ss_uiSSRC st) db) (getSenderCount db) (getActiveMemberCount db)
                     uiAverage (sp_uiSessionBandwidthKbps par) (rm_pTransmissionTimer rm) of
                (dInterval, tt) \<Rightarrow>
                  (case double_to_u32 (map_option (\<lambda>d. fadd (fmul d 1000) (1 / 2)) dInterval) of
                     Inl f \<Rightarrow> Inl f
                   | Inr uiIntervalMs \<Rightarrow>
                       let rm1 = rm\<lparr>rm_pTransmissionTimer := tt, rm_dTransmissionInterval := (case dInterval of None \<Rightarrow> 0 | Some d \<Rightarrow> d),
                                    rm_uiTransmissionIntervalMs := uiIntervalMs, rm_tPrevious := Some tNow,
                                    rm_tNext := Some (tNow + 1000 * uint uiIntervalMs), rm_uiPreviousMembers := getActiveMemberCount db\<rparr>
                       in Inr ([StartTimer uiIntervalMs], r\<lparr>rp_manager := rm1\<rparr>))))"

definition startReporting ::
  "RtpSessionState \<Rightarrow> RtpSessionParameters \<Rightarrow> rand \<Rightarrow> int \<Rightarrow> reporting \<Rightarrow> fault + (report_output list \<times> reporting)" where
  "startReporting st par rnd tNow r =
     setNextRtcpTimeout st par rnd tNow (r\<lparr>rp_manager := (rp_manager r)\<lparr>rm_bShuttingDown := False\<rparr>\<rparr>)"

definition scheduleFinalReportAndShutdown :: "reporting \<Rightarrow> report_output list \<times> reporting" where
  "scheduleFinalReportAndShutdown r = ([CancelTimer], r\<lparr>rp_manager := (rp_manager r)\<lparr>rm_bShuttingDown := True\<rparr>\<rparr>)"

definition onScheduleByeTimeout :: "session_packet list \<Rightarrow> reporting \<Rightarrow> report_output list" where
  "onScheduleByeTimeout bye r = rtcp_handler (rp_manager r) bye"

definition scheduleBye :: "rat option \<Rightarrow> session_packet list \<Rightarrow> reporting \<Rightarrow> fault + report_output list" where
  "scheduleBye dTransmissionInterval bye r =
     (if dTransmissionInterval = Some 0 then Inr (onScheduleByeTimeout bye r)
      else case double_to_u32 (map_option (\<lambda>d. fadd (fmul d 1000) (1 / 2)) dTransmissionInterval) of
             Inl f \<Rightarrow> Inl f
           | Inr uiIntervalMs \<Rightarrow> Inr [ScheduleBye uiIntervalMs bye])"

definition finaliseSession ::
  "('i, 'o) bit_io \<Rightarrow> RtpSessionState \<Rightarrow> RtpSessionParameters \<Rightarrow> ChannelStatistics \<Rightarrow> rand \<Rightarrow> int \<Rightarrow> reporting \<Rightarrow>
     fault + (report_output list \<times> reporting)" where
  "finaliseSession io st par stat rnd tNow r =
     (case checkMemberDatabase st par rnd tNow (rp_database r) of
        Inl f \<Rightarrow> Inl f
      | Inr db \<Rightarrow>
          let rm = rp_manager r; delayed = getActiveMemberCount db > RFC3550_IMMEDIATE_BYE_LIMIT;
              rm1 = (if delayed then rm\<lparr>rm_tPrevious := Some tNow, rm_uiPreviousMembers := 1, rm_bInitial := True\<rparr> else rm);
              dTransmissionInterval = (if delayed
                then computeRtcpIntervalSeconds rnd False 0 1 (db_avg_rtcp_size db) (sp_uiSessionBandwidthKbps par)
                       (rm_bUseReducedMinimum rm1) (rm_bInitial rm1) True
                else Some 0)
          in (case generateCompoundRtcpPacket io st par stat tNow True False db (rp_clock r) of
                Inl f \<Rightarrow> Inl f
              | Inr (ps, db1, rc) \<Rightarrow>
                  let r1 = r\<lparr>rp_manager := rm1, rp_database := db1, rp_clock := rc\<rparr>
                  in (case scheduleBye dTransmissionInterval ps r1 of Inl f \<Rightarrow> Inl f | Inr out \<Rightarrow> Inr (out, r1))))"

text \<open>The argument \<open>ec\<close> is whether the wait ended with an error, such as a cancelled timer.\<close>

definition onRtcpIntervalTimeout ::
  "('i, 'o) bit_io \<Rightarrow> RtpSessionState \<Rightarrow> RtpSessionParameters \<Rightarrow> ChannelStatistics \<Rightarrow> rand \<Rightarrow> int \<Rightarrow> bool \<Rightarrow> reporting \<Rightarrow>
     fault + (report_output list \<times> reporting)" where
  "onRtcpIntervalTimeout io st par stat rnd tNow ec r =
     (if rm_bShuttingDown (rp_manager r) then finaliseSession io st par stat rnd tNow r
      else if \<not> ec
      then (case checkMemberDatabase st par rnd tNow (rp_database r) of
              Inl f \<Rightarrow> Inl f
            | Inr db \<Rightarrow>
                (case sendRtcpPacket io st par stat tNow False (r\<lparr>rp_database := db\<rparr>) of
                   Inl f \<Rightarrow> Inl f
                 | Inr (out1, r1) \<Rightarrow>
                     (case setNextRtcpTimeout st par rnd tNow r1 of
                        Inl f \<Rightarrow> Inl f
                      | Inr (out2, r2) \<Rightarrow> Inr (out1 @ out2, r2))))
      else Inr ([], r))"

end
