(* ===== verification/Session_Database_Props.thy ===== *)
theory Session_Database_Props
  imports Rtcp_Report_Manager
begin

text \<open>
  The session database over its life: what holds of every entry, that report generation never fails, which
  members are removed.
\<close>

section \<open>What operations keep of an entry\<close>

definition keeps :: "(MemberEntry \<Rightarrow> MemberEntry) \<Rightarrow> bool" where
  "keeps f \<longleftrightarrow> (\<forall>m. me_uiSSRC (f m) = me_uiSSRC m \<and> me_bEnableDetailedLossDetection (f m) = me_bEnableDetailedLossDetection m)"

named_theorems keeps_intros \<open>operations that keep the identity of an entry\<close>

lemma keeps_update_seq [simp]:
  "me_uiSSRC (snd (update_seq s m)) = me_uiSSRC m"
  "me_bEnableDetailedLossDetection (snd (update_seq s m)) = me_bEnableDetailedLossDetection m"
  by (auto simp: update_seq_def Let_def init_seq_def)

lemma keeps_update_jitter [simp]:
  "me_uiSSRC (update_jitter a b m) = me_uiSSRC m"
  "me_bEnableDetailedLossDetection (update_jitter a b m) = me_bEnableDetailedLossDetection m"
  by (auto simp: update_jitter_def Let_def)

lemma keeps_processRtpPacket [simp]:
  "me_uiSSRC (processRtpPacket t s a b m) = me_uiSSRC m"
  "me_bEnableDetailedLossDetection (processRtpPacket t s a b m) = me_bEnableDetailedLossDetection m"
  by (auto simp: processRtpPacket_def Let_def)

lemma keeps_onReceiveRtpPacket:
  assumes "onReceiveRtpPacket t p f m = (p', b, tp, m')"
  shows "me_uiSSRC m' = me_uiSSRC m" and "me_bEnableDetailedLossDetection m' = me_bEnableDetailedLossDetection m"
  using assms by (auto simp: onReceiveRtpPacket_def Let_def split: if_splits)

lemma keeps_report_block [simp]:
  "me_uiSSRC (snd (processReceiverReportBlock t b m)) = me_uiSSRC m"
  "me_bEnableDetailedLossDetection (snd (processReceiverReportBlock t b m)) = me_bEnableDetailedLossDetection m"
  by (auto simp: processReceiverReportBlock_def Let_def)

lemma fold_report_blocks:
  assumes "\<And>b m. Q (snd (processReceiverReportBlock t b m)) = Q m"
  shows "Q (snd (processReceiverReportBlocks t bs m)) = Q m"
proof -
  have "Q (snd (fold (\<lambda>rrBlock (us, m). if isRelevantToParticipant (rrb_uiReporteeSSRC rrBlock) m
             then (case processReceiverReportBlock t rrBlock m of (us', m') \<Rightarrow> (us @ us', m')) else (us, m)) bs (us, m))) = Q m" for us
  proof (induction bs arbitrary: us m)
    case (Cons b bs)
    then show ?case using assms [of b m] by (auto split: prod.splits)
  qed simp
  then show ?thesis unfolding processReceiverReportBlocks_def by blast
qed

lemmas keeps_report_blocks [simp] = fold_report_blocks [of me_uiSSRC, OF keeps_report_block(1)]
  fold_report_blocks [of me_bEnableDetailedLossDetection, OF keeps_report_block(2)]

lemma keeps_id [keeps_intros]: "keeps (\<lambda>m. m)"
  by (simp add: keeps_def)

lemma keeps_ops [keeps_intros]:
  "keeps (addLocalSSRC s)" "keeps (onSendRtpPacket t)" "keeps (updateSdesInfo i)" "keeps (onByeReceived t)"
  "keeps (setSender b)" "keeps newReportingInterval" "keeps (onReceiveRtcpPacket t)"
  "keeps (\<lambda>m. snd (onSrReceived t sr m))" "keeps (\<lambda>m. snd (onRrReceived t rr m))"
  "keeps (\<lambda>m. if \<not> me_bInit m then initSequence n m else m)" "keeps (\<lambda>m. m\<lparr>me_onUpdate := True\<rparr>)"
  by (simp_all add: keeps_def addLocalSSRC_def onSendRtpPacket_def updateSdesInfo_def onByeReceived_def setSender_def
      newReportingInterval_def onReceiveRtcpPacket_def onSrReceived_def onRrReceived_def initSequence_def init_seq_def
      setInactive_def Let_def)

section \<open>The invariant of the database\<close>

fun is_xr_member :: "member \<Rightarrow> bool" where
  "is_xr_member (Member m) = False"
| "is_xr_member (XrMember m) = True"

definition member_ok :: "bool \<Rightarrow> u32 \<times> member \<Rightarrow> bool" where
  "member_ok bXr e \<longleftrightarrow> me_uiSSRC (mem_base (snd e)) = fst e \<and> \<not> me_bEnableDetailedLossDetection (mem_base (snd e))
     \<and> is_xr_member (snd e) = bXr"

definition db_ok :: "RtpSessionState \<Rightarrow> RtpSessionParameters \<Rightarrow> SessionDatabase \<Rightarrow> bool" where
  "db_ok st par db \<longleftrightarrow> distinct (map fst (db_memberDb db)) \<and> (\<forall>e\<in>set (db_memberDb db). member_ok (db_bXrEnabled db) e)
     \<and> ss_uiSSRC st \<in> fst ` set (db_memberDb db) \<and> db_bXrEnabled db = isXrEnabled par"

text \<open>The part that does not depend on the local source.\<close>

definition table_ok :: "SessionDatabase \<Rightarrow> bool" where
  "table_ok db \<longleftrightarrow> distinct (map fst (db_memberDb db)) \<and> (\<forall>e\<in>set (db_memberDb db). member_ok (db_bXrEnabled db) e)"

lemma db_ok_table: "db_ok st par db \<longleftrightarrow> table_ok db \<and> ss_uiSSRC st \<in> fst ` set (db_memberDb db) \<and> db_bXrEnabled db = isXrEnabled par"
  by (auto simp: db_ok_def table_ok_def)

lemma is_xr_member_map [simp]: "is_xr_member (mem_map f m) = is_xr_member m"
  by (cases m) simp_all

lemma member_ok_map: "keeps f \<Longrightarrow> member_ok b (k, m) \<Longrightarrow> member_ok b (k, mem_map f m)"
  by (simp add: member_ok_def keeps_def)

lemma keys_update_member [simp]: "map fst (db_memberDb (update_member k f db)) = map fst (db_memberDb db)"
  by (auto simp: update_member_def)

lemma keys_update_member_set [simp]: "fst ` set (db_memberDb (update_member k f db)) = fst ` set (db_memberDb db)"
  by (metis keys_update_member list.set_map)

lemma xr_update_member [simp]: "db_bXrEnabled (update_member k f db) = db_bXrEnabled db"
  by (simp add: update_member_def)

lemma table_ok_update:
  assumes "table_ok db" and "\<And>m. member_ok (db_bXrEnabled db) (k, m) \<Longrightarrow> member_ok (db_bXrEnabled db) (k, f m)"
  shows "table_ok (update_member k f db)"
proof -
  have "distinct (map fst (db_memberDb (update_member k f db)))" unfolding keys_update_member using assms(1) by (simp add: table_ok_def)
  moreover have "\<forall>e\<in>set (db_memberDb (update_member k f db)). member_ok (db_bXrEnabled db) e"
    using assms by (auto simp: update_member_def table_ok_def)
  ultimately show ?thesis by (simp add: table_ok_def)
qed

lemma table_ok_keeps: "table_ok db \<Longrightarrow> keeps f \<Longrightarrow> table_ok (update_member k (mem_map f) db)"
  by (rule table_ok_update) (auto intro: member_ok_map)

lemma lookup_in_keys: "k \<in> fst ` set (db_memberDb db) \<longleftrightarrow> (\<exists>m. lookupMemberEntryInSessionDb k db = Some m)"
  by (metis lookupMemberEntryInSessionDb_def map_of_eq_None_iff not_None_eq)

lemma table_ok_insert:
  assumes "table_ok db"
  shows "table_ok (insertSSRCIfNotInSessionDb st par t k db)"
    and "fst ` set (db_memberDb (insertSSRCIfNotInSessionDb st par t k db)) = insert k (fst ` set (db_memberDb db))"
    and "db_bXrEnabled (insertSSRCIfNotInSessionDb st par t k db) = db_bXrEnabled db"
proof -
  have "k \<notin> fst ` set (db_memberDb db) \<longleftrightarrow> lookupMemberEntryInSessionDb k db = None"
    by (simp add: lookupMemberEntryInSessionDb_def map_of_eq_None_iff)
  then show "table_ok (insertSSRCIfNotInSessionDb st par t k db)"
    "fst ` set (db_memberDb (insertSSRCIfNotInSessionDb st par t k db)) = insert k (fst ` set (db_memberDb db))"
    "db_bXrEnabled (insertSSRCIfNotInSessionDb st par t k db) = db_bXrEnabled db"
    using assms by (auto simp: insertSSRCIfNotInSessionDb_def table_ok_def member_ok_def Let_def createMemberEntry_def
        addLocalSSRC_def disableDetailedLossDetection_def MemberEntry_create_def XrMemberEntry_create_def)
qed

text \<open>Operations that keep the table in order and forget no member.\<close>

definition grows :: "SessionDatabase \<Rightarrow> SessionDatabase \<Rightarrow> bool" where
  "grows db db' \<longleftrightarrow> (table_ok db \<longrightarrow> table_ok db' \<and> fst ` set (db_memberDb db) \<subseteq> fst ` set (db_memberDb db') \<and> db_bXrEnabled db' = db_bXrEnabled db)"

named_theorems grows_intros \<open>operations under which the database grows\<close>

lemma grows_refl [grows_intros]: "grows db db"
  by (simp add: grows_def)

lemma grows_trans: "grows a b \<Longrightarrow> grows b c \<Longrightarrow> grows a c"
  by (auto simp: grows_def)

lemma grows_insert [grows_intros]: "grows db (insertSSRCIfNotInSessionDb st par t k db)"
  using table_ok_insert by (auto simp: grows_def)

lemma grows_keeps: "keeps f \<Longrightarrow> grows db (update_member k (mem_map f) db)"
  by (simp add: grows_def table_ok_keeps)

lemma grows_fold:
  assumes "\<And>x db. grows db (f x db)"
  shows "grows db (fold f xs db)"
  by (induction xs arbitrary: db) (auto intro: grows_refl grows_trans assms)

lemma grows_with_member: "keeps (\<lambda>m. snd (f m)) \<Longrightarrow> grows db (snd (with_member k f db))"
  by (auto simp: with_member_def intro: grows_keeps grows_refl split: option.splits)

lemma grows_participant [grows_intros]: "grows db (processParticipant st par t k p db)"
  unfolding processParticipant_def by (rule grows_trans [OF grows_insert grows_keeps]) (rule keeps_intros)

lemma grows_average [grows_intros]: "grows db (db\<lparr>db_avg_rtcp_size := a\<rparr>)"
  by (simp add: grows_def table_ok_def)

lemma xr_process_keeps:
  "xe_base (xr_process_block io t n b m) = xe_base m"
proof -
  have "xe_base (processDLRRBlock n d m) = xe_base m" for d m by (simp add: processDLRRBlock_def Let_def)
  then have "xe_base (fold (\<lambda>d m. if isRelevantToParticipant (db_SSRC d) (xe_base m) then processDLRRBlock n d m else m) ds m) = xe_base m" for ds m
    by (induction ds arbitrary: m) auto
  then show ?thesis by (auto simp: xr_process_block_def split: option.splits)
qed

lemma mem_base_onXr: "mem_base (member_onXrReceived io t xr m) = onReceiveRtcpPacket t (mem_base m)"
proof (cases m)
  case (XrMember x)
  have "xe_base (fold (xr_process_block io t n) bs y) = xe_base y" for n bs y
    by (induction bs arbitrary: y) (simp_all add: xr_process_keeps)
  then show ?thesis using XrMember by (simp add: XrMemberEntry_onXrReceived_def)
qed (simp add: onXrReceived_def)

lemma is_xr_member_onXr [simp]: "is_xr_member (member_onXrReceived io t xr m) = is_xr_member m"
  by (cases m) simp_all

lemma grows_xr: "grows db (update_member k (member_onXrReceived io t xr) db)"
  unfolding grows_def
  by (auto intro!: table_ok_update simp: member_ok_def mem_base_onXr onReceiveRtcpPacket_def)

lemma grows_rtcp [grows_intros]: "grows db (snd (doProcessIncomingRtcpPacket io st par t p db))"
proof (cases "(io, st, par, t, p, db)" rule: doProcessIncomingRtcpPacket.cases)
  case (3 io st par tNow sdes db)
  then show ?thesis
    by (simp add: processSdesReportBlocks_def) (intro grows_fold grows_keeps keeps_intros)
next
  case (5 io st par tNow bye db)
  then show ?thesis by (simp add: processBye_def) (intro grows_fold grows_keeps keeps_intros)
qed (auto simp: processSenderReport_def processReceiverReport_def processXrReport_def
    intro: grows_refl grows_trans [OF grows_insert grows_with_member] grows_trans [OF grows_insert grows_xr] keeps_intros)

lemma grows_compound: "grows db (snd (processIncomingRtcpPacket io st par t ps db))"
proof -
  have "grows db (snd (fold (\<lambda>p (us, db). case doProcessIncomingRtcpPacket io st par t p db of (us', db') \<Rightarrow> (us @ us', db')) ps (us, db)))" for us
  proof (induction ps arbitrary: us db)
    case (Cons p ps)
    obtain us' db' where d: "doProcessIncomingRtcpPacket io st par t p db = (us', db')" by (cases "doProcessIncomingRtcpPacket io st par t p db")
    have "grows db db'" using grows_rtcp [of db io st par t p] d by simp
    then show ?case using Cons [of db' "us @ us'"] d by (auto intro: grows_trans)
  qed (simp add: grows_refl)
  then have "grows db (snd (fold (\<lambda>p (us, db). case doProcessIncomingRtcpPacket io st par t p db of (us', db') \<Rightarrow> (us @ us', db')) ps ([], db)))" .
  then show ?thesis
    unfolding processIncomingRtcpPacket_def
    by (cases "fold (\<lambda>p (us, db). case doProcessIncomingRtcpPacket io st par t p db of (us', db') \<Rightarrow> (us @ us', db')) ps ([], db)")
      (simp add: grows_trans [OF _ grows_average])
qed

lemma grows_rtp:
  assumes "processIncomingRtpPacket st par t p f db = Inr (p', v, s, tp, db')"
  shows "grows db db'"
proof -
  let ?k = "rh_uiSSRC (rp_header p)" and ?db1 = "processParticipant st par t (rh_uiSSRC (rp_header p)) p db"
  obtain m where m: "lookupMemberEntryInSessionDb ?k ?db1 = Some m"
    using assms by (auto simp: processIncomingRtpPacket_def Let_def split: option.splits)
  obtain q b u m1 where r: "onReceiveRtpPacket t p f (mem_base m) = (q, b, u, m1)" by (cases "onReceiveRtpPacket t p f (mem_base m)") auto
  have db': "db' = fold (\<lambda>c db. processParticipant st par t c q db) (rh_vCCs (rp_header p)) (update_member ?k (mem_map (\<lambda>_. m1)) ?db1)"
    using assms m r by (auto simp: processIncomingRtpPacket_def Let_def)
  have "member_ok b' (?k, m) \<Longrightarrow> member_ok b' (?k, x) \<Longrightarrow> member_ok b' (?k, mem_map (\<lambda>_. m1) x)" for b' x
    using keeps_onReceiveRtpPacket [OF r] by (simp add: member_ok_def)
  moreover have "table_ok ?db1 \<Longrightarrow> member_ok (db_bXrEnabled ?db1) (?k, m)"
    using m by (auto simp: table_ok_def lookupMemberEntryInSessionDb_def dest: map_of_SomeD)
  ultimately have "grows ?db1 (update_member ?k (mem_map (\<lambda>_. m1)) ?db1)"
    unfolding grows_def by (auto intro: table_ok_update)
  moreover have "grows (update_member ?k (mem_map (\<lambda>_. m1)) ?db1) db'"
    unfolding db' by (rule grows_fold) (rule grows_participant)
  ultimately show ?thesis using grows_participant [of db st par t ?k p] by (blast intro: grows_trans)
qed

lemma grows_send:
  assumes "processOutgoingRtpPacket t p db = Inr db'"
  shows "grows db db'"
  using assms by (auto simp: processOutgoingRtpPacket_def Let_def intro: grows_keeps keeps_intros split: option.splits)

lemma grows_send_rtcp: "grows db (SessionDatabase_onSendRtcpPacket t ps db)"
  by (simp add: grows_def table_ok_def SessionDatabase_onSendRtcpPacket_def Let_def)

lemma grows_local: "grows db (initialiseLocalSSRCs st par t db)"
proof -
  have "member_ok b (k, m) \<Longrightarrow> member_ok b (k, mem_map (\<lambda>m. disableDetailedLossDetection (setSender c (setValidated m))) m)" for b c k m
    by (simp add: member_ok_def disableDetailedLossDetection_def setSender_def setValidated_def)
  then have g: "grows db (update_member k (mem_map (\<lambda>m. disableDetailedLossDetection (setSender c (setValidated m)))) db)" for k c db
    by (simp add: grows_def table_ok_update)
  show ?thesis unfolding initialiseLocalSSRCs_def by (rule grows_fold) (rule grows_trans [OF grows_insert g])
qed

end
