(* ===== verification/Rtcp_Report_Props.thy ===== *)
theory Rtcp_Report_Props
  imports Session_Database_Props
begin

text \<open>
  The session over its life: reports can be generated in every state that packets, reports and timeouts lead
  to, and hold one block per sender.
\<close>

section \<open>Gathering\<close>

definition finalised :: "(u32 \<Rightarrow> member \<Rightarrow> bool) \<Rightarrow> (member \<Rightarrow> fault + member) \<Rightarrow> u32 \<times> member \<Rightarrow> u32 \<times> member" where
  "finalised P f e = (fst e, mem_map newReportingInterval (if P (fst e) (snd e) then (case f (snd e) of Inr m \<Rightarrow> m | Inl _ \<Rightarrow> snd e) else snd e))"

lemma gather_loop_result:
  assumes "\<And>e. e \<in> set ms \<Longrightarrow> \<exists>m. f (snd e) = Inr m"
  shows "gather_loop P f ms = Inr (map fst (filter (\<lambda>e. P (fst e) (snd e)) ms), map (finalised P f) ms)"
  using assms
proof (induction ms)
  case (Cons e ms)
  obtain k m where e: "e = (k, m)" by (cases e)
  obtain m' where "f m = Inr m'" using Cons.prems [of e] e by auto
  then show ?case using Cons e by (simp add: finalised_def)
qed simp

lemma fst_finalised [simp]: "fst (finalised P f e) = fst e" "fst \<circ> finalised P f = fst"
  by (auto simp: finalised_def)

lemma finaliseRR_ok:
  assumes "member_ok b (k, m)"
  shows "\<exists>m'. member_finaliseRRData t m = Inr m' \<and> member_ok b (k, m')"
  using assms by (cases m) (auto simp: member_ok_def finaliseRRData_def Let_def)

lemma finaliseData_ok: "member_ok b (k, m) \<Longrightarrow> member_ok b (k, member_finaliseData t m)"
  by (cases m) (auto simp: member_ok_def XrMemberEntry_finaliseData_def Let_def)

lemma finalised_ok:
  assumes "member_ok b e" and "\<exists>m'. f (snd e) = Inr m' \<and> member_ok b (fst e, m')"
  shows "member_ok b (finalised P f e)"
  using assms member_ok_map [OF keeps_ops(6)] by (cases e) (auto simp: finalised_def)

definition gathered :: "RtpSessionState \<Rightarrow> int \<Rightarrow> (u32 \<times> member) list \<Rightarrow> (u32 \<times> member) list" where
  "gathered st t ms =
     map (finalised (\<lambda>k m. \<not> me_bIsSender (mem_base m) \<and> \<not> isOurSSRC st k) (\<lambda>m. Inr (member_finaliseData t m)))
       (map (finalised (\<lambda>k m. me_bIsSender (mem_base m) \<and> \<not> isOurSSRC st k) (member_finaliseRRData t)) ms)"

lemma gathered_ok:
  assumes "\<forall>e\<in>set ms. member_ok b e"
  shows "\<forall>e\<in>set (gathered st t ms). member_ok b e"
proof
  fix e assume "e \<in> set (gathered st t ms)"
  then obtain e0 where e0: "e0 \<in> set ms"
    and e: "e = finalised (\<lambda>k m. \<not> me_bIsSender (mem_base m) \<and> \<not> isOurSSRC st k) (\<lambda>m. Inr (member_finaliseData t m))
      (finalised (\<lambda>k m. me_bIsSender (mem_base m) \<and> \<not> isOurSSRC st k) (member_finaliseRRData t) e0)"
    by (auto simp: gathered_def)
  have ok: "member_ok b (fst e0, snd e0)" using assms e0 by simp
  let ?e1 = "finalised (\<lambda>k m. me_bIsSender (mem_base m) \<and> \<not> isOurSSRC st k) (member_finaliseRRData t) e0"
  have "member_ok b ?e1" by (rule finalised_ok) (use ok finaliseRR_ok [OF ok] in simp_all)
  moreover from this have "member_ok b (fst ?e1, member_finaliseData t (snd ?e1))"
    by (intro finaliseData_ok) (simp only: prod.collapse)
  ultimately show "member_ok b e" unfolding e by (intro finalised_ok [where b = b and e = ?e1]) auto
qed

lemma gather_result:
  assumes "db_ok st par db"
  shows "\<exists>we_sent vS vR. gatherRTCPReportDataAndBeginNewInterval st t db
      = Inr ((we_sent, vS, vR), db\<lparr>db_we_sent := we_sent, db_memberDb := gathered st t (db_memberDb db)\<rparr>)
    \<and> we_sent = db_isSender (ss_uiSSRC st) db
    \<and> vS = map fst (filter (\<lambda>e. me_bIsSender (mem_base (snd e)) \<and> \<not> isOurSSRC st (fst e)) (db_memberDb db))
    \<and> set vR \<subseteq> fst ` set (db_memberDb db)"
proof -
  obtain m where m: "lookupMemberEntryInSessionDb (ss_uiSSRC st) db = Some m"
    using assms lookup_in_keys by (auto simp: db_ok_table)
  have ok: "e \<in> set (db_memberDb db) \<Longrightarrow> \<exists>m'. member_finaliseRRData t (snd e) = Inr m'" for e
    using assms finaliseRR_ok [of _ "fst e" "snd e" t] by (auto simp: db_ok_def)
  note loops = gather_loop_result [where f = "member_finaliseRRData t" and ms = "db_memberDb db", OF ok]
    gather_loop_result [where f = "\<lambda>m. Inr (member_finaliseData t m)"]
  have "gatherRTCPReportDataAndBeginNewInterval st t db =
      Inr ((me_bIsSender (mem_base m), map fst (filter (\<lambda>e. me_bIsSender (mem_base (snd e)) \<and> \<not> isOurSSRC st (fst e)) (db_memberDb db)),
        map fst (filter (\<lambda>e. \<not> me_bIsSender (mem_base (snd e)) \<and> \<not> isOurSSRC st (fst e))
          (map (finalised (\<lambda>k m. me_bIsSender (mem_base m) \<and> \<not> isOurSSRC st k) (member_finaliseRRData t)) (db_memberDb db)))),
        db\<lparr>db_we_sent := me_bIsSender (mem_base m), db_memberDb := gathered st t (db_memberDb db)\<rparr>)"
    using m by (simp add: gatherRTCPReportDataAndBeginNewInterval_def loops gathered_def Let_def)
  moreover have "db_isSender (ss_uiSSRC st) db = me_bIsSender (mem_base m)" using m by (simp add: db_isSender_def member_flag_def)
  moreover have "set (map fst (filter P (map (finalised Q f) ms))) \<subseteq> fst ` set ms" for P Q f and ms :: "(u32 \<times> member) list"
    by (auto simp del: fst_finalised) (metis fst_finalised(1) fst_conv imageI)
  ultimately show ?thesis by blast
qed

section \<open>The report blocks\<close>

text \<open>
  The reference: one block per sender, in groups of 31; the first group goes to the first sender report, if
  there is one, and each other group to a receiver report of its own.
\<close>

function chunks :: "nat \<Rightarrow> 'a list \<Rightarrow> 'a list list" where
  "chunks n xs = (if xs = [] \<or> n = 0 then [] else take n xs # chunks n (drop n xs))"
  by pat_completeness auto
termination by (relation "measure (\<lambda>(n, xs). length xs)") auto

declare chunks.simps [simp del]

definition rr_with :: "u32 \<Rightarrow> RtcpRrReportBlock list \<Rightarrow> rtcp_packet" where
  "rr_with uiSSRC bs = foldl (\<lambda>p b. add_report_block b p) (RR (RtcpRr_create uiSSRC)) bs"

fun report_packets :: "u32 \<Rightarrow> RtcpSr list \<Rightarrow> RtcpRrReportBlock list \<Rightarrow> rtcp_packet list" where
  "report_packets uiSSRC [] bs = map (rr_with uiSSRC) (chunks 31 bs)"
| "report_packets uiSSRC (sr # srs) bs =
     foldl (\<lambda>p b. add_report_block b p) (SR sr) (take 31 bs) # map SR srs @ map (rr_with uiSSRC) (chunks 31 (drop 31 bs))"

definition block_of :: "SessionDatabase \<Rightarrow> u32 \<Rightarrow> RtcpRrReportBlock" where
  "block_of db k = fst (make_report_block (mem_base (the (lookupMemberEntryInSessionDb k db))))"

definition reported :: "u32 list \<Rightarrow> SessionDatabase \<Rightarrow> SessionDatabase" where
  "reported ks db = fold (\<lambda>k. update_member k (mem_map (\<lambda>m. snd (getLostFraction m)))) ks db"

lemma chunks_Nil [simp]: "chunks n [] = []"
  by (simp add: chunks.simps)

lemma chunks_short: "xs \<noteq> [] \<Longrightarrow> length xs \<le> n \<Longrightarrow> chunks n xs = [xs]"
  by (cases "n = 0") (auto simp: chunks.simps [of n xs])

lemma chunks_append: "xs \<noteq> [] \<Longrightarrow> length xs = n \<Longrightarrow> chunks n (xs @ ys) = xs # chunks n ys"
  by (auto simp: chunks.simps [of n "xs @ ys"])

lemma concat_chunks: "0 < n \<Longrightarrow> concat (chunks n xs) = xs"
  by (induction n xs rule: chunks.induct) (subst chunks.simps, auto)

lemma length_chunk: "c \<in> set (chunks n xs) \<Longrightarrow> 0 < length c \<and> length c \<le> n"
proof (induction n xs rule: chunks.induct)
  case (1 n xs)
  then show ?case by (auto simp: chunks.simps [of n xs] split: if_splits)
qed

lemma rr_with_snoc: "rr_with s (bs @ [b]) = add_report_block b (rr_with s bs)"
  by (simp add: rr_with_def)

lemma snd_make_report_block: "snd (make_report_block m) = snd (getLostFraction m)"
  by (simp add: make_report_block_def split: prod.splits)

lemma lookup_update_other: "k \<noteq> k' \<Longrightarrow> lookupMemberEntryInSessionDb k (update_member k' f db) = lookupMemberEntryInSessionDb k db"
proof -
  assume "k \<noteq> k'"
  then have "map_of (map (\<lambda>(a, m). (a, if a = k' then f m else m)) ms) k = map_of ms k" for ms by (induction ms) auto
  then show ?thesis by (simp add: lookupMemberEntryInSessionDb_def update_member_def)
qed

lemma block_of_update: "k \<noteq> k' \<Longrightarrow> block_of (update_member k' f db) k = block_of db k"
  by (simp add: block_of_def lookup_update_other)

lemma update_member_const:
  assumes "distinct (map fst (db_memberDb db))" and "lookupMemberEntryInSessionDb k db = Some m"
  shows "update_member k (mem_map (\<lambda>_. g (mem_base m))) db = update_member k (mem_map g) db"
proof -
  have "(k, m') \<in> set (db_memberDb db) \<Longrightarrow> m' = m" for m'
    using assms by (metis lookupMemberEntryInSessionDb_def map_of_is_SomeI option.inject)
  moreover have "mem_map (\<lambda>_. g (mem_base m)) m = mem_map g m" by (cases m) simp_all
  ultimately show ?thesis unfolding update_member_def by (intro SessionDatabase.fold_congs refl map_cong) auto
qed

lemma lost_fraction_keeps: "keeps (\<lambda>m. snd (getLostFraction m))"
  by (simp add: keeps_def getLostFraction_def Let_def)

text \<open>One round of the loop.\<close>

lemma report_loop_Cons:
  assumes "table_ok db" and "k \<in> fst ` set (db_memberDb db)"
  shows "report_loop s (k # ks) pSr c ps db =
    (let ps1 = (if c = 0 \<and> \<not> pSr then ps @ [rr_with s []] else ps); i = (if pSr then 0 else length ps1 - 1);
         ps2 = ps1[i := add_report_block (block_of db k) (ps1 ! i)];
         db1 = update_member k (mem_map (\<lambda>m. snd (getLostFraction m))) db
     in report_loop s ks (if Suc c = 31 then False else pSr) (if Suc c = 31 then 0 else Suc c) ps2 db1)"
proof -
  obtain m where m: "lookupMemberEntryInSessionDb k db = Some m" using assms(2) lookup_in_keys by auto
  obtain b m1 where b: "make_report_block (mem_base m) = (b, m1)" by (cases "make_report_block (mem_base m)")
  have "m1 = snd (getLostFraction (mem_base m))" using snd_make_report_block [of "mem_base m"] b by simp
  then have "update_member k (mem_map (\<lambda>_. m1)) db = update_member k (mem_map (\<lambda>m. snd (getLostFraction m))) db"
    using update_member_const [OF _ m, of "\<lambda>m. snd (getLostFraction m)"] assms(1) by (simp add: table_ok_def)
  moreover have "block_of db k = b" using m b by (simp add: block_of_def)
  ultimately show ?thesis using m b by (simp add: MAX_SOURCES_PER_RTCP_RR_def rr_with_def Let_def)
qed

declare report_loop.simps(2) [simp del]

lemma report_loop_rr:
  assumes "table_ok db" and "distinct ks" and "set ks \<subseteq> fst ` set (db_memberDb db)" and "length acc < 31"
  shows "report_loop s ks False (length acc) (qs @ map (rr_with s) (chunks 31 acc)) db
    = Inr (qs @ map (rr_with s) (chunks 31 (acc @ map (block_of db) ks)), reported ks db)"
  using assms
proof (induction ks arbitrary: acc qs db)
  case (Cons k ks)
  let ?ps = "qs @ map (rr_with s) (chunks 31 acc)" and ?b = "block_of db k"
  let ?db1 = "update_member k (mem_map (\<lambda>m. snd (getLostFraction m))) db"
  let ?ps1 = "if length acc = 0 then ?ps @ [rr_with s []] else ?ps"
  have ps1: "?ps1 = qs @ [rr_with s acc]"
    using Cons.prems(4) by (cases "acc = []") (auto simp: chunks_short)
  have ps2: "?ps1[length ?ps1 - 1 := add_report_block ?b (?ps1 ! (length ?ps1 - 1))] = qs @ [rr_with s (acc @ [?b])]"
    unfolding ps1 by (simp add: rr_with_snoc)
  have bs: "map (block_of ?db1) ks = map (block_of db) ks"
    using Cons.prems(2) by (auto intro!: block_of_update)
  have ok: "table_ok ?db1" using Cons.prems(1) lost_fraction_keeps by (rule table_ok_keeps)
  have sub: "set ks \<subseteq> fst ` set (db_memberDb ?db1)" using Cons.prems(3) by simp
  have step: "report_loop s (k # ks) False (length acc) ?ps db =
      report_loop s ks False (if Suc (length acc) = 31 then 0 else Suc (length acc)) (qs @ [rr_with s (acc @ [?b])]) ?db1"
    using report_loop_Cons [OF Cons.prems(1), of k s ks False "length acc" ?ps] ps2 Cons.prems(3) by (simp add: Let_def)
  have rep: "reported (k # ks) db = reported ks ?db1" by (simp add: reported_def)
  show ?case
  proof (cases "Suc (length acc) = 31")
    case True
    have "chunks 31 ((acc @ [?b]) @ map (block_of db) ks) = (acc @ [?b]) # chunks 31 (map (block_of db) ks)"
      by (rule chunks_append) (use True in auto)
    then show ?thesis
      using step Cons.IH [OF ok _ sub, of "[]" "qs @ [rr_with s (acc @ [?b])]"] Cons.prems(2) True bs rep by simp
  next
    case False
    then show ?thesis
      using step Cons.IH [OF ok _ sub, of "acc @ [?b]" qs] Cons.prems(2,4) bs rep by (simp add: chunks_short)
  qed
qed (simp add: reported_def)

lemma report_loop_sr:
  assumes "table_ok db" and "distinct ks" and "set ks \<subseteq> fst ` set (db_memberDb db)" and "length acc < 31"
  shows "report_loop s ks True (length acc) (foldl (\<lambda>p b. add_report_block b p) sr acc # qs) db
    = Inr (foldl (\<lambda>p b. add_report_block b p) sr (take 31 (acc @ map (block_of db) ks)) # qs
        @ map (rr_with s) (chunks 31 (drop 31 (acc @ map (block_of db) ks))), reported ks db)"
  using assms
proof (induction ks arbitrary: acc db)
  case (Cons k ks)
  let ?sr = "\<lambda>bs. foldl (\<lambda>p b. add_report_block b p) sr bs" and ?b = "block_of db k"
  let ?db1 = "update_member k (mem_map (\<lambda>m. snd (getLostFraction m))) db"
  have bs: "map (block_of ?db1) ks = map (block_of db) ks"
    using Cons.prems(2) by (auto intro!: block_of_update)
  have ok: "table_ok ?db1" using Cons.prems(1) lost_fraction_keeps by (rule table_ok_keeps)
  have sub: "set ks \<subseteq> fst ` set (db_memberDb ?db1)" using Cons.prems(3) by simp
  have step: "report_loop s (k # ks) True (length acc) (?sr acc # qs) db =
      report_loop s ks (Suc (length acc) \<noteq> 31) (if Suc (length acc) = 31 then 0 else Suc (length acc)) (?sr (acc @ [?b]) # qs) ?db1"
    using report_loop_Cons [OF Cons.prems(1), of k s ks True "length acc" "?sr acc # qs"] Cons.prems(3) by (simp add: Let_def)
  have rep: "reported (k # ks) db = reported ks ?db1" by (simp add: reported_def)
  show ?case
  proof (cases "Suc (length acc) = 31")
    case True
    then show ?thesis
      using step report_loop_rr [OF ok _ sub, of "[]" s "?sr (acc @ [?b]) # qs"] Cons.prems(2) bs rep by simp
  next
    case False
    then show ?thesis using step Cons.IH [OF ok _ sub, of "acc @ [?b]"] Cons.prems(2,4) bs rep by simp
  qed
qed (simp add: reported_def)

lemma report_loop_result:
  assumes "table_ok db" and "distinct ks" and "set ks \<subseteq> fst ` set (db_memberDb db)"
  shows "report_loop s ks (srs \<noteq> []) 0 (map SR srs) db = Inr (report_packets s srs (map (block_of db) ks), reported ks db)"
  using report_loop_rr [OF assms, of "[]" s "[]"] report_loop_sr [OF assms, of "[]" s]
  by (cases srs) simp_all

section \<open>Generated packets\<close>

definition other_senders :: "RtpSessionState \<Rightarrow> SessionDatabase \<Rightarrow> u32 list" where
  "other_senders st db = map fst (filter (\<lambda>e. me_bIsSender (mem_base (snd e)) \<and> \<not> isOurSSRC st (fst e)) (db_memberDb db))"

definition begun_interval :: "RtpSessionState \<Rightarrow> int \<Rightarrow> SessionDatabase \<Rightarrow> SessionDatabase" where
  "begun_interval st t db = db\<lparr>db_we_sent := db_isSender (ss_uiSSRC st) db, db_memberDb := gathered st t (db_memberDb db)\<rparr>"

definition expected_reports ::
  "RtpSessionState \<Rightarrow> RtpSessionParameters \<Rightarrow> ChannelStatistics \<Rightarrow> int \<Rightarrow> SessionDatabase \<Rightarrow> RtpReferenceClock \<Rightarrow> rtcp_packet list" where
  "expected_reports st par stat t db rc =
     (let srs = (if db_isSender (ss_uiSSRC st) db then fst (generateSenderReports st par stat t rc) else []);
          ps = report_packets (ss_uiSSRC st) srs (map (block_of (begun_interval st t db)) (other_senders st db))
      in (if ps = [] then [RR (RtcpRr_create (ss_uiSSRC st))] else ps) @ [SDES (sdes_packet (ss_uiSSRC st) (sp_sdesInfo par))])"

lemma db_ok_begun:
  assumes "db_ok st par db"
  shows "db_ok st par (begun_interval st t db)"
    and "fst ` set (db_memberDb (begun_interval st t db)) = fst ` set (db_memberDb db)"
proof -
  have keys: "map fst (gathered st t (db_memberDb db)) = map fst (db_memberDb db)" by (simp add: gathered_def)
  then have k: "fst ` set (gathered st t (db_memberDb db)) = fst ` set (db_memberDb db)" by (metis list.set_map)
  show "db_ok st par (begun_interval st t db)"
    using assms gathered_ok keys k by (auto simp: db_ok_def begun_interval_def)
  show "fst ` set (db_memberDb (begun_interval st t db)) = fst ` set (db_memberDb db)" using k by (simp add: begun_interval_def)
qed

lemma reported_ok: "db_ok st par db \<Longrightarrow> db_ok st par (reported ks db)"
proof -
  assume ok: "db_ok st par db"
  have "grows db (reported ks db)" unfolding reported_def by (intro grows_fold grows_keeps lost_fraction_keeps)
  then show ?thesis using ok by (auto simp: db_ok_table grows_def)
qed

lemma dlrr_blocks_total:
  assumes "table_ok db" and "db_bXrEnabled db" and "set ks \<subseteq> fst ` set (db_memberDb db)"
  shows "\<exists>ds. dlrr_blocks db ks = Inr ds"
  using assms(3)
proof (induction ks)
  case (Cons k ks)
  obtain m where m: "lookupMemberEntryInSessionDb k db = Some m" using Cons.prems lookup_in_keys by auto
  then have "(k, m) \<in> set (db_memberDb db)" by (auto simp: lookupMemberEntryInSessionDb_def dest: map_of_SomeD)
  then have "is_xr_member m" using assms(1,2) by (auto simp: table_ok_def member_ok_def)
  then show ?case using Cons m by (cases m) auto
qed simp

lemma additional_reports_total:
  assumes "db_ok st par db" and "set vR \<subseteq> fst ` set (db_memberDb db)"
  shows "\<exists>xs. createAdditionalReports io st par t (w, vS, vR) db = Inr xs"
proof -
  have "isXrEnabled par \<Longrightarrow> \<exists>ds. dlrr_blocks db vR = Inr ds"
    using assms by (intro dlrr_blocks_total) (auto simp: db_ok_table)
  then show ?thesis by (auto simp: createAdditionalReports_def split: prod.splits)
qed

lemma periodic_result:
  assumes "db_ok st par db" and "distinct vS" and "set vS \<subseteq> fst ` set (db_memberDb db)" and "set vR \<subseteq> fst ` set (db_memberDb db)"
  shows "\<exists>ps xs db' rc'. generatePeriodicCompoundRtcpPacket io st par stat t (w, vS, vR) bMin db rc = Inr (map Standard ps @ xs, db', rc')
    \<and> db_ok st par db' \<and> createAdditionalReports io st par t (w, vS, vR) db' = Inr xs
    \<and> (\<not> bMin \<longrightarrow> ps = (let qs = report_packets (ss_uiSSRC st) (if w then fst (generateSenderReports st par stat t rc) else []) (map (block_of db) vS)
         in (if qs = [] then [RR (RtcpRr_create (ss_uiSSRC st))] else qs) @ [SDES (sdes_packet (ss_uiSSRC st) (sp_sdesInfo par))]))"
proof -
  have keys: "fst ` set (db_memberDb (reported vS db)) = fst ` set (db_memberDb db)"
    unfolding reported_def by (induction vS arbitrary: db) (simp_all add: image_Un)
  obtain srs rc1 where srs: "(if w then generateSenderReports st par stat t rc else ([], rc)) = (srs, rc1)" by (metis surj_pair)
  then have w: "w = (srs \<noteq> [])" and srs': "srs = (if w then fst (generateSenderReports st par stat t rc) else [])"
    by (auto simp: generateSenderReports_def Let_def split: if_splits prod.splits)
  have loop: "report_loop (ss_uiSSRC st) vS w 0 (map SR srs) db = Inr (report_packets (ss_uiSSRC st) srs (map (block_of db) vS), reported vS db)"
    unfolding w using assms by (intro report_loop_result) (auto simp: db_ok_table)
  obtain xs where xs: "createAdditionalReports io st par t (w, vS, vR) (reported vS db) = Inr xs"
    using additional_reports_total [OF reported_ok [OF assms(1)]] assms(4) keys by metis
  obtain ys where ys: "createAdditionalReports io st par t (w, vS, vR) db = Inr ys"
    using additional_reports_total [OF assms(1,4)] by metis
  show ?thesis
  proof (cases bMin)
    case True
    then have "generatePeriodicCompoundRtcpPacket io st par stat t (w, vS, vR) bMin db rc = Inr (map Standard [] @ ys, db, rc)"
      using ys by (simp add: generatePeriodicCompoundRtcpPacket_def)
    then show ?thesis using assms(1) ys True by blast
  next
    case False
    then show ?thesis using srs loop xs reported_ok [OF assms(1), of vS] unfolding srs' [symmetric]
      by (simp add: generatePeriodicCompoundRtcpPacket_def Let_def)
  qed
qed

lemma generate_result:
  assumes "db_ok st par db"
  shows "\<exists>ps xs db' rc'. generateCompoundRtcpPacket io st par stat t bBye bMin db rc = Inr (map Standard ps @ xs, db', rc')
    \<and> db_ok st par db' \<and> (\<not> bMin \<longrightarrow> ps = expected_reports st par stat t db rc)"
proof -
  obtain vR where g: "gatherRTCPReportDataAndBeginNewInterval st t db
      = Inr ((db_isSender (ss_uiSSRC st) db, other_senders st db, vR), begun_interval st t db)"
    and vR: "set vR \<subseteq> fst ` set (db_memberDb db)"
    using gather_result [OF assms, of t] by (auto simp: other_senders_def begun_interval_def)
  have "distinct (other_senders st db)" using assms by (simp add: other_senders_def db_ok_def distinct_map_filter)
  moreover have "set (other_senders st db) \<subseteq> fst ` set (db_memberDb db)" by (auto simp: other_senders_def)
  ultimately obtain ps xs db' rc' where p: "generatePeriodicCompoundRtcpPacket io st par stat t
      (db_isSender (ss_uiSSRC st) db, other_senders st db, vR) bMin (begun_interval st t db) rc = Inr (map Standard ps @ xs, db', rc')"
    "db_ok st par db'" "\<not> bMin \<longrightarrow> ps = expected_reports st par stat t db rc"
    using periodic_result [OF db_ok_begun(1) [OF assms, of t], of "other_senders st db" vR io stat t "db_isSender (ss_uiSSRC st) db" bMin rc]
      vR db_ok_begun(2) [OF assms, of t] by (auto simp: expected_reports_def)
  show ?thesis
  proof (cases bBye)
    case True
    then show ?thesis using g p by (simp add: generateCompoundRtcpPacket_def Let_def) (metis append.assoc)
  qed (use g p in \<open>auto simp: generateCompoundRtcpPacket_def Let_def\<close>)
qed

section \<open>Reachable sessions\<close>

text \<open>
  The state is the session state and the database. A session starts with the constructor and changes by the
  packets it receives and sends, its reports, the check of the members, by \<open>updateSSRC\<close>, which changes the
  session state only, and by \<open>updateSSRCs\<close>, which enters the local sources in the database. In \<open>session_run\<close> these come
  in any order, as the code allows: \<open>MpRtpTranslator\<close> calls \<open>updateSSRC\<close> and nothing calls \<open>updateSSRCs\<close>. The comment of
  \<open>updateSSRCs\<close> asks for its call whenever the SSRC changes; the sessions that follow it are \<open>session_reachable\<close>, among them
  all whose SSRC never changes.
\<close>

type_synonym session = "RtpSessionState \<times> SessionDatabase"

inductive session_step :: "('i, 'o) bit_io \<Rightarrow> RtpSessionParameters \<Rightarrow> session \<Rightarrow> session \<Rightarrow> bool"
  for io :: "('i, 'o) bit_io" and par :: RtpSessionParameters where
  receive_rtp: "processIncomingRtpPacket st par t p f db = Inr (p', v, s, tp, db') \<Longrightarrow> session_step io par (st, db) (st, db')"
| send_rtp: "SessionDatabase_onSendRtpPacket t p db = Inr db' \<Longrightarrow> session_step io par (st, db) (snd (getNextSequenceNumber st), db')"
| receive_rtcp: "session_step io par (st, db) (st, snd (processIncomingRtcpPacket io st par t ps db))"
| send_rtcp: "session_step io par (st, db) (st, SessionDatabase_onSendRtcpPacket t ps db)"
| report: "generateCompoundRtcpPacket io st par stat t bBye bMin db rc = Inr (ps, db', rc') \<Longrightarrow> session_step io par (st, db) (st, db')"
| check_members: "checkMemberDatabase st par rnd t db = Inr db' \<Longrightarrow> session_step io par (st, db) (st, db')"
| change_ssrc: "session_step io par (st, db) (updateSSRC k st, db)"
| enter_ssrcs: "session_step io par (st, db) (st, updateSSRCs st par t db)"

inductive session_run :: "('i, 'o) bit_io \<Rightarrow> RtpSessionParameters \<Rightarrow> session \<Rightarrow> bool"
  for io :: "('i, 'o) bit_io" and par :: RtpSessionParameters where
  begins: "session_run io par (st, SessionDatabase_create st par t)"
| continues: "session_run io par s \<Longrightarrow> session_step io par s s' \<Longrightarrow> session_run io par s'"

inductive session_reachable :: "('i, 'o) bit_io \<Rightarrow> RtpSessionParameters \<Rightarrow> session \<Rightarrow> bool"
  for io :: "('i, 'o) bit_io" and par :: RtpSessionParameters where
  start: "session_reachable io par (st, SessionDatabase_create st par t)"
| step: "session_reachable io par s \<Longrightarrow> session_step io par s s' \<Longrightarrow> ss_uiSSRC (fst s') = ss_uiSSRC (fst s) \<Longrightarrow> session_reachable io par s'"
| change: "session_reachable io par (st, db) \<Longrightarrow> session_reachable io par (updateSSRC k st, updateSSRCs (updateSSRC k st) par t db)"

lemma reachable_run: "session_reachable io par s \<Longrightarrow> session_run io par s"
  by (induction rule: session_reachable.induct) (blast intro: session_run.intros session_step.intros)+

text \<open>What every step keeps of the table, and that the entry of the local source stays while its SSRC does.\<close>

definition typed :: "RtpSessionParameters \<Rightarrow> session \<Rightarrow> bool" where
  "typed par s \<longleftrightarrow> table_ok (snd s) \<and> db_bXrEnabled (snd s) = isXrEnabled par"

definition listed :: "session \<Rightarrow> bool" where
  "listed s \<longleftrightarrow> ss_uiSSRC (fst s) \<in> set (map fst (db_memberDb (snd s)))"

lemma db_ok_typed: "db_ok st par db \<longleftrightarrow> typed par (st, db) \<and> listed (st, db)"
  by (auto simp: db_ok_table typed_def listed_def)

lemma grows_session: "grows db db' \<Longrightarrow> typed par (st, db) \<Longrightarrow> typed par (st', db') \<and> (listed (st, db) \<and> ss_uiSSRC st' = ss_uiSSRC st \<longrightarrow> listed (st', db'))"
  by (auto simp: typed_def listed_def grows_def)

lemma db_ok_grows: "db_ok st par db \<Longrightarrow> grows db db' \<Longrightarrow> db_ok st par db'"
  by (auto simp: db_ok_table grows_def)

lemma local_ssrc_present:
  assumes "table_ok db" and "k \<in> set (getLocalSSRCs st)"
  shows "k \<in> fst ` set (db_memberDb (initialiseLocalSSRCs st par t db))"
proof -
  let ?f = "\<lambda>uiSSRC db. update_member uiSSRC (mem_map (\<lambda>m. disableDetailedLossDetection (setSender (ss_bIsSender st) (setValidated m))))
    (insertSSRCIfNotInSessionDb st par t uiSSRC db)"
  have keys: "fst ` set (db_memberDb (?f k db)) = insert k (fst ` set (db_memberDb db))" if "table_ok db" for k db
    using table_ok_insert(2) [OF that] by simp
  have ok: "table_ok (?f k db)" if "table_ok db" for k db
    using that by (intro table_ok_update table_ok_insert)
      (simp_all add: member_ok_def disableDetailedLossDetection_def setSender_def setValidated_def)
  have "set ks \<subseteq> fst ` set (db_memberDb (fold ?f ks db)) \<and> fst ` set (db_memberDb db) \<subseteq> fst ` set (db_memberDb (fold ?f ks db))"
    if "table_ok db" for ks db
    using that
  proof (induction ks arbitrary: db)
    case (Cons k ks)
    from Cons.IH [OF ok [OF Cons.prems, of k]] show ?case unfolding keys [OF Cons.prems] by auto
  qed simp
  then show ?thesis using assms unfolding initialiseLocalSSRCs_def by blast
qed

lemma own_ssrc_local: "ss_uiSSRC st \<in> set (getLocalSSRCs st)"
  by (simp add: getLocalSSRCs_def)

lemma db_ok_local:
  assumes "table_ok db" and "db_bXrEnabled db = isXrEnabled par"
  shows "db_ok st par (initialiseLocalSSRCs st par t db)"
  using assms grows_local [of db st par t] local_ssrc_present [OF assms(1) own_ssrc_local, of st par t]
  by (auto simp: db_ok_table grows_def)

lemma db_ok_create: "db_ok st par (SessionDatabase_create st par t)"
  unfolding SessionDatabase_create_def
  by (rule db_ok_local) (simp_all add: table_ok_def RFC3550_initialization_def)

lemma check_result:
  assumes "checkMemberDatabase st par rnd t db = Inr db'"
  obtains T S where "db' = db\<lparr>db_memberDb := map (\<lambda>(k, m). (k, stop_sending S m))
      (filter (\<lambda>(k, m). k \<notin> fst ` {e \<in> set (db_memberDb db). timed_out st t T e}) (db_memberDb db))\<rparr>"
  using assms
  by (auto simp: checkMemberDatabase_def Let_def filter_map case_prod_unfold comp_def split: sum.splits)

lemma member_ok_stop: "member_ok b (k, m) \<Longrightarrow> member_ok b (k, stop_sending S m)"
  by (simp add: stop_sending_def member_ok_map keeps_ops(5))

lemma check_session:
  assumes "typed par (st, db)" and "checkMemberDatabase st par rnd t db = Inr db'"
  shows "typed par (st, db') \<and> (listed (st, db) \<longrightarrow> listed (st, db'))"
proof -
  obtain T S where db': "db' = db\<lparr>db_memberDb := map (\<lambda>(k, m). (k, stop_sending S m))
      (filter (\<lambda>(k, m). k \<notin> fst ` {e \<in> set (db_memberDb db). timed_out st t T e}) (db_memberDb db))\<rparr>"
    by (rule check_result [OF assms(2)])
  have "map fst (db_memberDb db') = map fst (filter (\<lambda>(k, m). k \<notin> fst ` {e \<in> set (db_memberDb db). timed_out st t T e}) (db_memberDb db))"
    by (simp add: db' case_prod_unfold comp_def)
  then have "distinct (map fst (db_memberDb db'))" using assms(1) by (simp add: typed_def table_ok_def distinct_map_filter)
  moreover have "\<forall>e\<in>set (db_memberDb db'). member_ok (db_bXrEnabled db') e"
    using assms(1) by (auto simp: db' typed_def table_ok_def intro: member_ok_stop)
  moreover have "listed (st, db')" if l: "listed (st, db)"
  proof -
    obtain m where m: "(ss_uiSSRC st, m) \<in> set (db_memberDb db)" using l by (auto simp: listed_def)
    have "ss_uiSSRC st \<notin> fst ` {e \<in> set (db_memberDb db). timed_out st t T e}" by (auto simp: timed_out_def isOurSSRC_def)
    then have "(ss_uiSSRC st, stop_sending S m) \<in> set (db_memberDb db')" using m by (auto simp: db' image_iff Bex_def)
    then show ?thesis unfolding listed_def by (metis fst_conv imageI set_map snd_conv)
  qed
  ultimately show ?thesis using assms(1) by (simp add: db' typed_def table_ok_def)
qed

lemma db_ok_check: "\<lbrakk>db_ok st par db; checkMemberDatabase st par rnd t db = Inr db'\<rbrakk> \<Longrightarrow> db_ok st par db'"
  using check_session [of par st db rnd t db'] by (simp add: db_ok_typed)

lemma unlisted_report:
  assumes "\<not> listed (st, db)"
  shows "generateCompoundRtcpPacket io st par stat t bBye bMin db rc = Inl Assertion_failed"
proof -
  have "lookupMemberEntryInSessionDb (ss_uiSSRC st) db = None" using assms lookup_in_keys [of "ss_uiSSRC st" db] by (auto simp: listed_def)
  then show ?thesis by (simp add: generateCompoundRtcpPacket_def gatherRTCPReportDataAndBeginNewInterval_def)
qed

lemma session_step_typed:
  "session_step io par s s' \<Longrightarrow> typed par s \<Longrightarrow> typed par s' \<and> (listed s \<and> ss_uiSSRC (fst s') = ss_uiSSRC (fst s) \<longrightarrow> listed s')"
proof (induction rule: session_step.induct)
  case (receive_rtp st t p f db p' v s tp db')
  from grows_session [OF grows_rtp [OF receive_rtp(1)] receive_rtp(2), of st] show ?case by simp
next
  case (send_rtp t p db db' st)
  from send_rtp(1) have "grows db db'" by (intro grows_send) (simp add: SessionDatabase_onSendRtpPacket_def)
  from grows_session [OF this send_rtp(2), of "snd (getNextSequenceNumber st)"] show ?case by simp
next
  case (receive_rtcp st db t ps)
  from grows_session [OF grows_compound receive_rtcp, of st] show ?case by simp
next
  case (send_rtcp st db t ps)
  from grows_session [OF grows_send_rtcp send_rtcp, of st] show ?case by simp
next
  case (report st stat t bBye bMin db rc ps db' rc')
  have "listed (st, db)" using report(1) unlisted_report [of st db io par stat t bBye bMin rc] by (cases "listed (st, db)") simp_all
  then have "db_ok st par db'" using report generate_result [of st par db io stat t bBye bMin rc] by (auto simp: db_ok_typed)
  then show ?case by (simp add: db_ok_typed)
next
  case (check_members st rnd t db db')
  from check_session [OF check_members(2,1)] show ?case by simp
next
  case (change_ssrc st db k)
  then show ?case by (simp add: typed_def listed_def)
next
  case (enter_ssrcs st db t)
  from grows_session [OF grows_local enter_ssrcs, of st] show ?case by (simp add: updateSSRCs_def)
qed

lemma entered_listed:
  assumes "typed par (st, db)"
  shows "typed par (st, updateSSRCs st par t db) \<and> listed (st, updateSSRCs st par t db)"
proof -
  have "db_ok st par (updateSSRCs st par t db)" using assms db_ok_local [of db par st t] by (simp add: updateSSRCs_def typed_def)
  then show ?thesis by (simp add: db_ok_typed)
qed

lemma run_typed: "session_run io par s \<Longrightarrow> typed par s"
proof (induction rule: session_run.induct)
  case (begins st t)
  then show ?case using db_ok_create [of st par t] by (simp add: db_ok_typed)
qed (use session_step_typed in blast)

lemma reachable_listed: "session_reachable io par s \<Longrightarrow> listed s"
proof (induction rule: session_reachable.induct)
  case (start st t)
  then show ?case using db_ok_create [of st par t] by (simp add: db_ok_typed)
next
  case (step s s')
  then show ?case using session_step_typed [OF step(2)] run_typed [OF reachable_run [OF step(1)]] by blast
next
  case (change st db k t)
  have "typed par (updateSSRC k st, db)" using run_typed [OF reachable_run [OF change(1)]] by (simp add: typed_def)
  then show ?case using entered_listed by blast
qed

lemma session_ok: "session_reachable io par s \<Longrightarrow> db_ok (fst s) par (snd s)"
  using reachable_listed run_typed [OF reachable_run] by (cases s) (auto simp: db_ok_typed)

section \<open>Properties\<close>

text \<open>
  C31: The member table is well typed in every session that packets, reports, timeouts and changes of the
  local SSRC, in any order, can lead to: keys are distinct, every entry carries the SSRC it is filed under, and the
  entries are of the class that the report manager casts them to. The local source is among them if every change of its SSRC
  is followed by \<open>updateSSRCs\<close>.
\<close>

theorem member_table_well_typed:
  assumes "session_run io par (st, db)"
  shows "distinct (map fst (db_memberDb db)) \<and> (session_reachable io par (st, db) \<longrightarrow> ss_uiSSRC st \<in> set (map fst (db_memberDb db)))
    \<and> (\<forall>k m. lookupMemberEntryInSessionDb k db = Some m \<longrightarrow> me_uiSSRC (mem_base m) = k \<and> is_xr_member m = isXrEnabled par)"
proof -
  have ok: "table_ok db" "db_bXrEnabled db = isXrEnabled par" using run_typed [OF assms] by (simp_all add: typed_def)
  have "me_uiSSRC (mem_base m) = k \<and> is_xr_member m = isXrEnabled par" if "lookupMemberEntryInSessionDb k db = Some m" for k m
  proof -
    have "(k, m) \<in> set (db_memberDb db)" using that by (auto simp: lookupMemberEntryInSessionDb_def dest: map_of_SomeD)
    then show ?thesis using ok by (auto simp: table_ok_def member_ok_def)
  qed
  then show ?thesis using ok(1) reachable_listed [of io par "(st, db)"] by (auto simp: table_ok_def listed_def)
qed

definition sample_state :: RtpSessionState where
  "sample_state = RtpSessionState_create (7, 100, 200, 8) 0 96 0 True 0"

definition sample_parameters :: RtpSessionParameters where
  "sample_parameters = \<lparr>sp_sdesInfo = SdesInformation_new\<lparr>si_CName := [97, 64, 98]\<rparr>, sp_uiSessionBandwidthKbps = 64, sp_sProfile = ''AVP'',
     sp_uiPayloadType = 96, sp_uiRtpTimestampFrequency = 90000, sp_uiRtxPt = 0, sp_uiRtxTime = 0, sp_mXr = []\<rparr>"

theorem member_table_well_typed_witness:
  "ss_uiSSRC sample_state \<in> set (map fst (db_memberDb (SessionDatabase_create sample_state sample_parameters 0)))"
  using member_table_well_typed [OF session_run.begins [of bitlist_io sample_parameters sample_state 0]]
    session_reachable.start [of bitlist_io sample_parameters sample_state 0] by blast

lemma lookup_after_participant: "\<exists>m. lookupMemberEntryInSessionDb k (processParticipant st par t k p db) = Some m"
proof -
  have "k \<in> fst ` set (db_memberDb (insertSSRCIfNotInSessionDb st par t k db))"
    by (cases "lookupMemberEntryInSessionDb k db")
      (auto simp: insertSSRCIfNotInSessionDb_def Let_def, auto simp: lookup_in_keys)
  then show ?thesis by (simp add: processParticipant_def lookup_in_keys [symmetric])
qed

lemma receive_rtp_total: "\<exists>r. processIncomingRtpPacket st par t p f db = Inr r"
  using lookup_after_participant [of "rh_uiSSRC (rp_header p)" st par t p db]
  by (auto simp: processIncomingRtpPacket_def Let_def split: prod.splits)

text \<open>
  C14: When a session faults. In every session that the operations can lead to, in any order, a data packet can be
  received. Whether the session can send and report depends on one thing, that the local source has its entry in the table. With it,
  packets with the local SSRC can be sent, and a report, with or without BYE, full or minimal, can be
  generated, without null pointers, failed assertions or bad casts; without it, sending dereferences a null pointer and
  every report fails an assertion. No operation removes the entry, so it can be missing only after \<open>updateSSRC\<close>, which \<open>MpRtpTranslator\<close>
  calls alone; \<open>updateSSRCs\<close> brings it back.
\<close>

theorem session_faults_exactly:
  assumes "session_run io par (st, db)"
  shows "(\<exists>r. processIncomingRtpPacket st par t p f db = Inr r)
    \<and> (if ss_uiSSRC st \<in> set (map fst (db_memberDb db))
        then (\<exists>db'. SessionDatabase_onSendRtpPacket t (p\<lparr>rp_header := (rp_header p)\<lparr>rh_uiSSRC := ss_uiSSRC st\<rparr>\<rparr>) db = Inr db')
          \<and> (\<exists>r. generateCompoundRtcpPacket io st par stat t bWithBye bMinimal db rc = Inr r)
        else SessionDatabase_onSendRtpPacket t (p\<lparr>rp_header := (rp_header p)\<lparr>rh_uiSSRC := ss_uiSSRC st\<rparr>\<rparr>) db = Inl Null_dereference
          \<and> generateCompoundRtcpPacket io st par stat t bWithBye bMinimal db rc = Inl Assertion_failed)
    \<and> (ss_uiSSRC st \<in> set (map fst (db_memberDb db)) \<longrightarrow>
        (\<forall>st' db'. session_step io par (st, db) (st', db') \<and> ss_uiSSRC st' = ss_uiSSRC st \<longrightarrow> ss_uiSSRC st' \<in> set (map fst (db_memberDb db'))))
    \<and> ss_uiSSRC st \<in> set (map fst (db_memberDb (updateSSRCs st par t db)))"
proof (intro conjI receive_rtp_total)
  have ty: "typed par (st, db)" by (rule run_typed [OF assms])
  let ?own = "ss_uiSSRC st \<in> set (map fst (db_memberDb db))"
  let ?send = "SessionDatabase_onSendRtpPacket t (p\<lparr>rp_header := (rp_header p)\<lparr>rh_uiSSRC := ss_uiSSRC st\<rparr>\<rparr>) db"
    and ?report = "generateCompoundRtcpPacket io st par stat t bWithBye bMinimal db rc"
  have l: "listed (st, db) \<longleftrightarrow> ?own" by (simp add: listed_def)
  show "if ?own then (\<exists>db'. ?send = Inr db') \<and> (\<exists>r. ?report = Inr r) else ?send = Inl Null_dereference \<and> ?report = Inl Assertion_failed"
  proof (cases ?own)
    case True
    then obtain m where "lookupMemberEntryInSessionDb (ss_uiSSRC st) db = Some m" using lookup_in_keys by auto
    moreover have "db_ok st par db" using True ty l by (simp add: db_ok_typed)
    ultimately show ?thesis using True generate_result [of st par db io stat t bWithBye bMinimal rc]
      by (auto simp: SessionDatabase_onSendRtpPacket_def processOutgoingRtpPacket_def)
  next
    case False
    then have "lookupMemberEntryInSessionDb (ss_uiSSRC st) db = None" using lookup_in_keys [of "ss_uiSSRC st" db] by auto
    then show ?thesis using False unlisted_report l by (simp add: SessionDatabase_onSendRtpPacket_def processOutgoingRtpPacket_def)
  qed
  show "?own \<longrightarrow> (\<forall>st' db'. session_step io par (st, db) (st', db') \<and> ss_uiSSRC st' = ss_uiSSRC st \<longrightarrow> ss_uiSSRC st' \<in> set (map fst (db_memberDb db')))"
  proof (intro impI allI)
    fix st' db' assume "?own" "session_step io par (st, db) (st', db') \<and> ss_uiSSRC st' = ss_uiSSRC st"
    then have "listed (st', db')" using session_step_typed [of io par "(st, db)" "(st', db')"] ty l by simp
    then show "ss_uiSSRC st' \<in> set (map fst (db_memberDb db'))" by (simp add: listed_def)
  qed
  show "ss_uiSSRC st \<in> set (map fst (db_memberDb (updateSSRCs st par t db)))"
    using entered_listed [OF ty] by (simp add: listed_def)
qed

text \<open>The session of the sample after \<open>updateSSRC\<close> alone.\<close>

theorem session_faults_exactly_witness:
  "(\<exists>r. generateCompoundRtcpPacket bitlist_io sample_state sample_parameters ChannelStatistics_new 5 True False
     (SessionDatabase_create sample_state sample_parameters 0) (RtpReferenceClock_new RC_WALL_CLOCK_TIME) = Inr r)
   \<and> generateCompoundRtcpPacket bitlist_io (updateSSRC 9 sample_state) sample_parameters ChannelStatistics_new 5 True False
     (SessionDatabase_create sample_state sample_parameters 0) (RtpReferenceClock_new RC_WALL_CLOCK_TIME) = Inl Assertion_failed"
proof -
  let ?db = "SessionDatabase_create sample_state sample_parameters 0"
  have run: "session_run bitlist_io sample_parameters (sample_state, ?db)" by (rule session_run.begins)
  then have run': "session_run bitlist_io sample_parameters (updateSSRC 9 sample_state, ?db)"
    by (rule session_run.continues) (rule session_step.change_ssrc)
  have keys: "map fst (db_memberDb ?db) = [7]" by code_simp
  have "ss_uiSSRC sample_state = 7" by code_simp
  then show ?thesis using session_faults_exactly [OF run] session_faults_exactly [OF run'] by (simp add: keys updateSSRC_def)
qed

fun report_blocks :: "rtcp_packet \<Rightarrow> RtcpRrReportBlock list" where
  "report_blocks (SR p) = sr_vReports p"
| "report_blocks (RR p) = rr_vReports p"
| "report_blocks p = []"

lemma report_blocks_fold:
  assumes "\<exists>q. p = SR q \<or> p = RR q'" and "length (report_blocks p) + length bs \<le> 31"
  shows "report_blocks (foldl (\<lambda>p b. add_report_block b p) p bs) = report_blocks p @ bs"
  using assms
proof (induction bs arbitrary: p q')
  case (Cons b bs)
  have "report_blocks (add_report_block b p) = report_blocks p @ [b]" and "\<exists>q q'. add_report_block b p = SR q \<or> add_report_block b p = RR q'"
    using Cons.prems by (auto simp: RtcpSr_addReportBlock_def RtcpRr_addReportBlock_def Let_def)
  then show ?case using Cons.IH [of "add_report_block b p"] Cons.prems(2) by auto
qed simp

lemma report_blocks_rr_with: "length bs \<le> 31 \<Longrightarrow> report_blocks (rr_with s bs) = bs"
  using report_blocks_fold [of "RR (RtcpRr_create s)"] by (simp add: rr_with_def RtcpRr_create_def)

lemma report_blocks_chunks: "concat (map report_blocks (map (rr_with s) (chunks 31 bs))) = bs"
proof -
  have "map report_blocks (map (rr_with s) (chunks 31 bs)) = chunks 31 bs"
    using length_chunk by (fastforce simp: report_blocks_rr_with intro: map_idI)
  then show ?thesis by (simp add: concat_chunks)
qed

lemma report_blocks_packets:
  assumes "\<forall>sr\<in>set srs. sr_vReports sr = []"
  shows "concat (map report_blocks (report_packets s srs bs)) = bs"
proof (cases srs)
  case (Cons sr srs')
  have "report_blocks (foldl (\<lambda>p b. add_report_block b p) (SR sr) (take 31 bs)) = take 31 bs"
    using report_blocks_fold [of "SR sr" "RtcpRr_create 0" "take 31 bs"] assms Cons by auto
  moreover have "concat (map report_blocks (map SR srs')) = []" using assms Cons by auto
  ultimately show ?thesis using report_blocks_chunks [of s "drop 31 bs"]
    by (simp only: Cons report_packets.simps list.map map_append concat.simps concat_append append_Nil append_take_drop_id)
qed (use report_blocks_chunks in simp)

lemma length_report_blocks_packets:
  assumes "\<forall>sr\<in>set srs. sr_vReports sr = []" and "p \<in> set (report_packets s srs bs)"
  shows "length (report_blocks p) \<le> 31"
proof (cases srs)
  case Nil
  then show ?thesis using assms(2) length_chunk by (fastforce simp: report_blocks_rr_with)
next
  case (Cons sr srs')
  have "report_blocks (foldl (\<lambda>p b. add_report_block b p) (SR sr) (take 31 bs)) = take 31 bs"
    using report_blocks_fold [of "SR sr" "RtcpRr_create 0" "take 31 bs"] assms Cons by auto
  then show ?thesis using assms Cons length_chunk by (fastforce simp: report_blocks_rr_with)
qed

lemma sender_reports_empty: "\<forall>sr\<in>set (fst (generateSenderReports st par stat t rc)). sr_vReports sr = []"
  by (auto simp: generateSenderReports_def Let_def RtcpSr_create_def split: prod.splits)

text \<open>
  C22: Report generation matches its reference. The loop that distributes report blocks over packets by a counter
  and two pointers yields the packets of the reference: the sender reports if the local source sent data, with
  the first 31 blocks in the first, receiver reports with up to 31 further blocks each, at least one report,
  and the source description. The blocks are, in order, one per other sender in the table, and no
  packet has more than 31.
\<close>

theorem compound_report_matches_reference:
  assumes "session_reachable io par (st, db)"
  shows "\<exists>xs db' rc'. generateCompoundRtcpPacket io st par stat t False False db rc
        = Inr (map Standard (expected_reports st par stat t db rc) @ xs, db', rc')
    \<and> concat (map report_blocks (expected_reports st par stat t db rc)) = map (block_of (begun_interval st t db)) (other_senders st db)
    \<and> (\<forall>p\<in>set (expected_reports st par stat t db rc). length (report_blocks p) \<le> 31)"
proof -
  have ok: "db_ok st par db" using session_ok [OF assms] by simp
  let ?srs = "if db_isSender (ss_uiSSRC st) db then fst (generateSenderReports st par stat t rc) else []"
  let ?bs = "map (block_of (begun_interval st t db)) (other_senders st db)"
  have srs: "\<forall>sr\<in>set ?srs. sr_vReports sr = []" using sender_reports_empty by auto
  have "concat (map report_blocks (expected_reports st par stat t db rc)) = ?bs"
    using report_blocks_packets [OF srs, of "ss_uiSSRC st" ?bs] by (auto simp: expected_reports_def Let_def RtcpRr_create_def)
  moreover have "\<forall>p\<in>set (expected_reports st par stat t db rc). length (report_blocks p) \<le> 31"
    using length_report_blocks_packets [OF srs, of _ "ss_uiSSRC st" ?bs] by (auto simp: expected_reports_def Let_def RtcpRr_create_def)
  ultimately show ?thesis using generate_result [OF ok, of io stat t False False rc] by blast
qed

theorem compound_report_matches_reference_witness:
  "concat (map report_blocks (expected_reports sample_state sample_parameters ChannelStatistics_new 5
     (SessionDatabase_create sample_state sample_parameters 0) (RtpReferenceClock_new RC_WALL_CLOCK_TIME)))
   = map (block_of (begun_interval sample_state 5 (SessionDatabase_create sample_state sample_parameters 0)))
       (other_senders sample_state (SessionDatabase_create sample_state sample_parameters 0))"
  using compound_report_matches_reference [OF session_reachable.start [of bitlist_io sample_parameters sample_state 0]] by blast

end
