(* ===== verification/Session_Timeouts.thy ===== *)
theory Session_Timeouts
  imports Rtcp_Report_Props
begin

text \<open>
  Which members the check of the session database (\<open>SessionDatabase::checkMemberDatabase\<close>) removes, and how
  reports keep a member alive at its peers.
\<close>

section \<open>The timeout\<close>

definition timeout_ms :: "rat \<Rightarrow> rat \<Rightarrow> rat" where
  "timeout_ms d k = fadd (fmul (fmul d 1000) k) (1 / 2)"

lemma timeout_at_minimum:
  "\<lfloor>timeout_ms (fdiv 5 COMPENSATION) 5\<rfloor> = 20521" "\<lfloor>timeout_ms (fdiv 5 COMPENSATION) 2\<rfloor> = 8208"
  by code_simp+

lemma timeout_mono: "0 \<le> d \<Longrightarrow> d \<le> d' \<Longrightarrow> 0 \<le> k \<Longrightarrow> timeout_ms d k \<le> timeout_ms d' k"
proof -
  assume d: "0 \<le> d" "d \<le> d'" "0 \<le> k"
  have "0 \<le> fmul d 1000" and "fmul d 1000 \<le> fmul d' 1000"
    using d round_double_bounds(3) [of "d * 1000" "d * 1000"] by (simp_all add: fmul_def round_double_mono)
  then have "0 \<le> fmul (fmul d 1000) k" and "fmul (fmul d 1000) k \<le> fmul (fmul d' 1000) k"
    using d(3) round_double_bounds(3) [of "fmul d 1000 * k" "fmul d 1000 * k"]
    by (simp_all add: fmul_def [of _ k] round_double_mono mult_right_mono)
  then show ?thesis by (simp add: timeout_ms_def fadd_def round_double_mono)
qed

lemma interval_at_least_minimum:
  assumes "computeRtcpIntervalSeconds rnd b s n avg bw False False False = Some d"
  shows "fdiv 5 COMPENSATION \<le> d"
proof -
  obtain x where d: "d = fdiv (if x < 5 then 5 else x) COMPENSATION"
    using assms by (auto simp: computeRtcpIntervalSeconds_def updateIntervalAccordingToMinimum_def Let_def of_u32_def
        MINIMUM_RTCP_INTERVAL_SECONDS_def split: option.splits)
  define e where "e = (if x < 5 then 5 else x)"
  then have "5 \<le> e" and d: "d = fdiv e COMPENSATION" using d by auto
  then have "5 / COMPENSATION \<le> e / COMPENSATION" using compensation_value by (intro divide_right_mono) auto
  moreover have "0 \<le> 5 / COMPENSATION" using compensation_value by (intro divide_nonneg_nonneg) auto
  ultimately show ?thesis by (simp add: d fdiv_def round_double_mono)
qed

lemma minimum_interval_pos: "0 \<le> fdiv 5 COMPENSATION"
  by code_simp

lemma double_to_u32_floor:
  assumes "double_to_u32 (Some x) = Inr w"
  shows "uint w = \<lfloor>x\<rfloor>"
proof -
  have "0 \<le> x" and "x < 2 ^ 32" and w: "w = of_int \<lfloor>x\<rfloor>" using assms by (auto simp: double_to_u32_def split: if_splits)
  then have "0 \<le> \<lfloor>x\<rfloor>" and "\<lfloor>x\<rfloor> < 2 ^ 32" by (simp_all add: floor_less_iff)
  then show ?thesis by (simp add: w uint_word_of_int take_bit_int_eq_self)
qed

text \<open>The result of the check, by member.\<close>

definition checked :: "RtpSessionState \<Rightarrow> int \<Rightarrow> int \<Rightarrow> int \<Rightarrow> SessionDatabase \<Rightarrow> u32 \<Rightarrow> member option" where
  "checked st t T S db k =
     (case lookupMemberEntryInSessionDb k db of
        None \<Rightarrow> None
      | Some m \<Rightarrow> if timed_out st t (t - 1000 * T) (k, m) then None else Some (stop_sending (t - 1000 * S) m))"

lemma map_of_kept:
  "map_of (filter (\<lambda>(k, m). k \<notin> L) (map (\<lambda>(k, m). (k, f m)) ms)) k = (if k \<in> L then None else map_option f (map_of ms k))"
  by (induction ms) auto

lemma map_of_checked:
  assumes "distinct (map fst ms)"
  shows "map_of (filter (\<lambda>(k, m). k \<notin> set (map fst (filter Q ms))) (map (\<lambda>(k, m). (k, f m)) ms)) k
    = (case map_of ms k of None \<Rightarrow> None | Some m \<Rightarrow> if Q (k, m) then None else Some (f m))"
proof (cases "map_of ms k")
  case (Some m)
  have "(k, m') \<in> set ms \<longleftrightarrow> m' = m" for m' using assms Some by (metis map_of_is_SomeI map_of_SomeD option.inject)
  then have "k \<in> set (map fst (filter Q ms)) \<longleftrightarrow> Q (k, m)" by (auto simp: image_iff)
  then show ?thesis using Some unfolding map_of_kept by simp
qed (simp add: map_of_kept)

lemma check_by_member:
  assumes "distinct (map fst (db_memberDb db))" and "checkMemberDatabase st par rnd t db = Inr db'"
  shows "\<exists>d T S. computeRtcpIntervalSeconds rnd False (getSenderCount db) (getActiveMemberCount db) (db_avg_rtcp_size db)
        (sp_uiSessionBandwidthKbps par) False False False = Some d
    \<and> T = \<lfloor>timeout_ms d 5\<rfloor> \<and> S = \<lfloor>timeout_ms d 2\<rfloor> \<and> (\<forall>k. lookupMemberEntryInSessionDb k db' = checked st t T S db k)"
proof -
  let ?d = "computeRtcpIntervalSeconds rnd False (getSenderCount db) (getActiveMemberCount db) (db_avg_rtcp_size db)
        (sp_uiSessionBandwidthKbps par) False False False"
  obtain d where d: "?d = Some d" using assms(2) by (cases ?d) (simp_all add: checkMemberDatabase_def double_to_u32_def)
  have u: "of_u32 TIMEOUT_MULTIPLIER = 5" by (simp add: of_u32_def TIMEOUT_MULTIPLIER_def)
  obtain w v where w: "double_to_u32 (Some (timeout_ms d 5)) = Inr w" and v: "double_to_u32 (Some (timeout_ms d 2)) = Inr v"
    and db': "db' = db\<lparr>db_memberDb := filter (\<lambda>(k, m). k \<notin> set (map fst (filter (timed_out st t (t - 1000 * uint w)) (db_memberDb db))))
        (map (\<lambda>(k, m). (k, stop_sending (t - 1000 * uint v) m)) (db_memberDb db))\<rparr>"
    using assms(2) by (auto simp: checkMemberDatabase_def d u timeout_ms_def Let_def split: sum.splits)
  have "lookupMemberEntryInSessionDb k db' = checked st t (uint w) (uint v) db k" for k
    using map_of_checked [OF assms(1), of "timed_out st t (t - 1000 * uint w)" "stop_sending (t - 1000 * uint v)" k]
    unfolding lookupMemberEntryInSessionDb_def checked_def db' by (simp cong: option.case_cong)
  then show ?thesis using d double_to_u32_floor [OF w] double_to_u32_floor [OF v] by auto
qed

lemma session_keys_distinct: "session_reachable io par (st, db) \<Longrightarrow> distinct (map fst (db_memberDb db))"
  using session_ok by (fastforce simp: db_ok_def)

lemma total_seconds_ge: "2 \<le> total_seconds x \<longleftrightarrow> 2000000 \<le> x"
  by (cases "0 < x") (auto simp: total_seconds_def sgn_if)

text \<open>
  C29: The check of the members removes nobody it should not. Whatever the size of the session, it adds no member and
  keeps the local sources and every member that has not left and was heard within the last 20.521 seconds, and it
  removes members that left two seconds ago or more. A member that never sent a packet of its own (a
  contributing source) does not time out.
\<close>

theorem active_members_kept:
  assumes "session_reachable io par (st, db)" and "checkMemberDatabase st par rnd t db = Inr db'"
  shows "\<forall>k. case lookupMemberEntryInSessionDb k db of
      None \<Rightarrow> lookupMemberEntryInSessionDb k db' = None
    | Some m \<Rightarrow>
        (isOurSSRC st k \<longrightarrow> lookupMemberEntryInSessionDb k db' \<noteq> None)
      \<and> (\<not> me_bInactive (mem_base m) \<and> (\<forall>tLast. me_tLastPacketSent (mem_base m) = Some tLast \<longrightarrow> t - 20521000 \<le> tLast)
           \<longrightarrow> lookupMemberEntryInSessionDb k db' \<noteq> None)
      \<and> (\<forall>tBye. \<not> isOurSSRC st k \<and> me_bInactive (mem_base m) \<and> me_tMarkedInactive (mem_base m) = Some tBye \<and> tBye + 2000000 \<le> t
           \<longrightarrow> lookupMemberEntryInSessionDb k db' = None)"
proof -
  obtain d T S where d: "computeRtcpIntervalSeconds rnd False (getSenderCount db) (getActiveMemberCount db) (db_avg_rtcp_size db)
        (sp_uiSessionBandwidthKbps par) False False False = Some d"
    and T: "T = \<lfloor>timeout_ms d 5\<rfloor>" and db': "\<And>k. lookupMemberEntryInSessionDb k db' = checked st t T S db k"
    using check_by_member [OF session_keys_distinct [OF assms(1)] assms(2)] by blast
  have "timeout_ms (fdiv 5 COMPENSATION) 5 \<le> timeout_ms d 5"
    by (intro timeout_mono interval_at_least_minimum [OF d] minimum_interval_pos) simp
  then have "20521 \<le> T" unfolding T timeout_at_minimum(1) [symmetric] by (rule floor_mono)
  then have late: "tLast < t - 1000 * T \<Longrightarrow> \<not> t - 20521000 \<le> tLast" for tLast by simp
  show ?thesis
    by (auto dest: late simp: db' checked_def timed_out_def before_def isInactiveAndCanBeRemoved_def BYE_TIMEOUT_SECONDS_def total_seconds_ge
        split: option.splits)
qed

lemma interval_small:
  assumes "0 \<le> a" and "0 \<le> k" and "0 < bw" and "a * k \<le> 23 * bw" and "75 / 16 * bw * ((1 - 1 / 2 ^ 53) * (1 - 1 / 2 ^ 53)) \<le> y"
  shows "fdiv (fmul a k) y \<le> 5" and "0 \<le> fdiv (fmul a k) y" and "0 < y"
proof -
  let ?e = "1 / 2 ^ 53 :: rat"
  have "0 < 75 / 16 * bw * ((1 - ?e) * (1 - ?e))" using assms(3) by simp
  then show y: "0 < y" using assms(5) by (rule less_le_trans)
  have x0: "0 \<le> fmul a k" using assms(1,2) round_double_bounds(3) [of "a * k" "a * k"] by (simp add: fmul_def)
  have "fmul a k \<le> round_double (23 * bw)" unfolding fmul_def using assms by (intro round_double_mono) simp_all
  also have "\<dots> \<le> 23 * bw * (1 + ?e)" using assms(3) by (intro round_double_near(2)) simp
  also have "\<dots> \<le> 5 * (75 / 16 * bw * ((1 - ?e) * (1 - ?e)))" using assms(3) by simp
  also have "\<dots> \<le> 5 * y" using assms(5) by (rule mult_left_mono) simp
  finally have "fmul a k / y \<le> 5" using y by (simp add: pos_divide_le_eq)
  moreover have "round_double 5 = (5 :: rat)" by code_simp
  ultimately show "fdiv (fmul a k) y \<le> 5" using round_double_mono [of "fmul a k / y" 5] x0 y by (simp add: fdiv_def)
  show "0 \<le> fdiv (fmul a k) y" using x0 y round_double_bounds(3) [of "fmul a k / y" "fmul a k / y"] by (simp add: fdiv_def)
qed

lemma small_session_interval:
  assumes "0 \<le> avg" and "0 < bw" and "avg * of_u32 n \<le> 23 * of_u32 bw"
  shows "computeRtcpIntervalSeconds rnd False s n avg bw False False False = Some (fdiv 5 COMPENSATION)"
proof -
  let ?e = "1 / 2 ^ 53 :: rat" and ?B = "fmul (of_u32 bw) (25 / 4)"
  have bw: "0 < of_u32 bw" using assms(2) by (rule of_u32_pos)
  have B: "25 / 4 * of_u32 bw * (1 - ?e) \<le> ?B" and B0: "0 < ?B"
    using round_double_near [of "of_u32 bw * (25 / 4)"] bw by (simp_all add: fmul_def)
  have "?B * (3 / 4) * (1 - ?e) \<le> fmul ?B (3 / 4)" using round_double_near(1) [of "?B * (3 / 4)"] B0 by (simp add: fmul_def)
  moreover have "25 / 4 * of_u32 bw * (1 - ?e) * (3 / 4 * (1 - ?e)) \<le> ?B * (3 / 4 * (1 - ?e))" using B by (rule mult_right_mono) simp
  ultimately have y2: "75 / 16 * of_u32 bw * ((1 - ?e) * (1 - ?e)) \<le> fmul ?B (3 / 4)" by simp
  have "75 / 16 * of_u32 bw * ((1 - ?e) * (1 - ?e)) \<le> 25 / 4 * of_u32 bw * (1 - ?e)" using bw by simp
  then have y1: "75 / 16 * of_u32 bw * ((1 - ?e) * (1 - ?e)) \<le> ?B" using B by (rule order_trans)
  have sub: "of_u32 (n - s) \<le> of_u32 n" and sub': "s \<le> n" if "s \<le> drop_bit 2 n"
  proof -
    have "drop_bit 2 n \<le> n" by (simp add: word_le_nat_alt unat_drop_bit_eq drop_bit_eq_div unat_div)
    then show s: "s \<le> n" using that by (rule order_trans [rotated])
    show "of_u32 (n - s) \<le> of_u32 n" by (simp add: of_u32_minus [OF s]) (simp add: of_u32_def del: of_nat_unat)
  qed
  have k2: "avg * of_u32 (n - s) \<le> 23 * of_u32 bw" if "s \<le> drop_bit 2 n"
    using mult_left_mono [OF sub [OF that] assms(1)] assms(3) by simp
  have nn: "0 \<le> of_u32 w" for w by (simp add: of_u32_def del: of_nat_unat)
  have "\<exists>d. computeDeterministicRtcpIntervalSeconds False s n avg ?B = Some d \<and> d \<le> 5"
    using interval_small [OF assms(1) nn bw assms(3) y1] interval_small [OF assms(1) nn bw k2 y2]
    by (auto simp: computeDeterministicRtcpIntervalSeconds_def fdivide_def Let_def)
  then show ?thesis
    by (auto simp: computeRtcpIntervalSeconds_def updateIntervalAccordingToMinimum_def Let_def MINIMUM_RTCP_INTERVAL_SECONDS_def of_u32_def
        dest: antisym)
qed

lemma double_to_u32_ok: "0 \<le> x \<Longrightarrow> x < 2 ^ 32 \<Longrightarrow> \<exists>w. double_to_u32 (Some x) = Inr w"
  by (simp add: double_to_u32_def)

lemma small_session_check:
  assumes "0 < sp_uiSessionBandwidthKbps par" and "0 \<le> db_avg_rtcp_size db"
    and "db_avg_rtcp_size db * of_u32 (getActiveMemberCount db) \<le> 23 * of_u32 (sp_uiSessionBandwidthKbps par)"
  shows "\<exists>db'. checkMemberDatabase st par rnd t db = Inr db'"
proof -
  have d: "computeRtcpIntervalSeconds rnd False (getSenderCount db) (getActiveMemberCount db) (db_avg_rtcp_size db)
        (sp_uiSessionBandwidthKbps par) False False False = Some (fdiv 5 COMPENSATION)"
    by (rule small_session_interval [OF assms(2,1,3)])
  have "0 \<le> timeout_ms (fdiv 5 COMPENSATION) 5" "timeout_ms (fdiv 5 COMPENSATION) 5 < 2 ^ 32"
    "0 \<le> timeout_ms (fdiv 5 COMPENSATION) 2" "timeout_ms (fdiv 5 COMPENSATION) 2 < 2 ^ 32"
    using timeout_at_minimum by (simp_all add: floor_eq_iff)
  then obtain w v where "double_to_u32 (Some (timeout_ms (fdiv 5 COMPENSATION) 5)) = Inr w"
    "double_to_u32 (Some (timeout_ms (fdiv 5 COMPENSATION) 2)) = Inr v"
    using double_to_u32_ok by metis
  then show ?thesis
    unfolding checkMemberDatabase_def by (simp add: d timeout_ms_def of_u32_def TIMEOUT_MULTIPLIER_def Let_def)
qed

text \<open>
  C38: In a session whose reports fit the RTCP bandwidth at the minimum interval, the check always succeeds and
  decides by member: a member other than the local sources is removed exactly when its last packet is more than 20.521
  seconds old or it left two seconds ago, and a sender that stays but sent nothing for 8.208 seconds
  becomes a receiver. (RFC 3550 asks for 25 and 10 seconds: the interval is divided by the factor
  that compensates for randomisation although it is not randomised.)
\<close>

theorem silent_members_removed:
  assumes "session_reachable io par (st, db)" and "0 < sp_uiSessionBandwidthKbps par" and "0 \<le> db_avg_rtcp_size db"
    and "db_avg_rtcp_size db * of_u32 (getActiveMemberCount db) \<le> 23 * of_u32 (sp_uiSessionBandwidthKbps par)"
  shows "\<exists>db'. checkMemberDatabase st par rnd t db = Inr db' \<and> (\<forall>k. lookupMemberEntryInSessionDb k db' =
      (case lookupMemberEntryInSessionDb k db of
         None \<Rightarrow> None
       | Some m \<Rightarrow> if \<not> isOurSSRC st k \<and> (before (me_tLastPacketSent (mem_base m)) (t - 20521000) \<or> isInactiveAndCanBeRemoved t (mem_base m))
                   then None else Some (stop_sending (t - 8208000) m)))"
proof -
  obtain db' where db': "checkMemberDatabase st par rnd t db = Inr db'" using small_session_check [OF assms(2-4)] by blast
  have "lookupMemberEntryInSessionDb k db' = checked st t 20521 8208 db k" for k
    using check_by_member [OF session_keys_distinct [OF assms(1)] db'] small_session_interval [OF assms(3,2,4)] timeout_at_minimum by auto
  then show ?thesis using db' by (auto simp: checked_def timed_out_def split: option.splits)
qed

definition sample_database :: SessionDatabase where
  "sample_database = SessionDatabase_create sample_state sample_parameters 0"

lemma sample_database_simps:
  "db_avg_rtcp_size sample_database = 76" "getActiveMemberCount sample_database = 1" "of_u32 1 = 1" "of_u32 64 = 64"
  "sp_uiSessionBandwidthKbps sample_parameters = 64"
  by (simp_all add: sample_database_def SessionDatabase_create_def RFC3550_initialization_def calculateEstimatedRtcpSize_def Let_def
      initialiseLocalSSRCs_def getLocalSSRCs_def insertSSRCIfNotInSessionDb_def lookupMemberEntryInSessionDb_def createMemberEntry_def
      update_member_def count_members_def getActiveMemberCount_def isValid_def disableDetailedLossDetection_def setSender_def setValidated_def
      MemberEntry_create_def XrMemberEntry_create_def addLocalSSRC_def
      sample_state_def sample_parameters_def RtpSessionState_create_def isXrEnabled_def isRetransmissionEnabled_def AVPF_def of_u32_def)

theorem silent_members_removed_witness:
  "\<exists>db'. checkMemberDatabase sample_state sample_parameters (0, 1) 100000000 sample_database = Inr db'
     \<and> lookupMemberEntryInSessionDb 9 db' = None"
proof -
  have "\<exists>db'. checkMemberDatabase sample_state sample_parameters (0, 1) 100000000 sample_database = Inr db'
      \<and> (\<forall>k. lookupMemberEntryInSessionDb k db' = (case lookupMemberEntryInSessionDb k sample_database of
         None \<Rightarrow> None
       | Some m \<Rightarrow> if \<not> isOurSSRC sample_state k \<and> (before (me_tLastPacketSent (mem_base m)) (100000000 - 20521000)
              \<or> isInactiveAndCanBeRemoved 100000000 (mem_base m))
                   then None else Some (stop_sending (100000000 - 8208000) m)))"
    by (rule silent_members_removed [where io = bitlist_io])
      (simp_all add: sample_database_simps session_reachable.start [of bitlist_io sample_parameters sample_state 0, folded sample_database_def])
  moreover have "lookupMemberEntryInSessionDb 9 sample_database = None" by code_simp
  ultimately show ?thesis by (metis (no_types, lifting) option.case(1))
qed

theorem active_members_kept_witness:
  "\<exists>db'. checkMemberDatabase sample_state sample_parameters (0, 1) 100000000 sample_database = Inr db'
     \<and> lookupMemberEntryInSessionDb 7 db' \<noteq> None"
proof -
  obtain db' where db': "checkMemberDatabase sample_state sample_parameters (0, 1) 100000000 sample_database = Inr db'"
    using small_session_check [of sample_parameters sample_database sample_state "(0, 1)" 100000000]
    by (auto simp: sample_database_simps)
  have "lookupMemberEntryInSessionDb 7 sample_database \<noteq> None" by code_simp
  then obtain m where m: "lookupMemberEntryInSessionDb 7 sample_database = Some m" by blast
  have "isOurSSRC sample_state 7" by (simp add: isOurSSRC_def sample_state_def RtpSessionState_create_def)
  then show ?thesis
    using active_members_kept [OF session_reachable.start [of bitlist_io sample_parameters sample_state 0, folded sample_database_def] db'] m db'
    by (auto dest!: spec [of _ 7])
qed

end
