(* ===== verification/Rtcp_Compound.thy ===== *)
theory Rtcp_Compound
  imports Rtcp_Wire Rtp_Packet
begin

text \<open>
  Compound RTCP packets: the parser interface \<open>RtcpParserInterface\<close> and its RFC 3550
  instance \<open>rfc3550/RtcpParser.h\<close>, the RTCP half of \<open>RtpPacketiser.cpp\<close>, and the validators
  \<open>Rfc3550RtcpValidator.cpp\<close> and \<open>Rfc5506RtcpValidator.cpp\<close>. The locale \<open>rtcp_parsers\<close> is what
  the packetiser relies on from its registered parsers; under it every datagram is
  processed in finitely many steps. A serialised compound packet is parsed back to itself.
\<close>

section \<open>Parsers\<close>

record 'i RtcpParserInterface =
  pi_canHandleRtcpType :: "nat \<Rightarrow> bool"
  pi_parseRtcpPacket :: "'i \<Rightarrow> nat \<Rightarrow> nat \<Rightarrow> nat \<Rightarrow> nat \<Rightarrow> nat \<Rightarrow> (rtcp_packet option \<times> 'i) option"

definition Rfc3550_canHandleRtcpType :: "nat \<Rightarrow> bool" where
  "Rfc3550_canHandleRtcpType uiType \<longleftrightarrow> uiType = unat PT_RTCP_SR \<or> uiType = unat PT_RTCP_RR
     \<or> uiType = unat PT_RTCP_SDES \<or> uiType = unat PT_RTCP_BYE \<or> uiType = unat PT_RTCP_APP"

text \<open>
  The result is the parsed packet, or \<open>None\<close> inside for the null pointer, with the stream;
  the outer \<open>None\<close> stands for a loop that ran out of fuel.
\<close>

definition Rfc3550_createRtcpPacket ::
  "('i, 'o) bit_io \<Rightarrow> nat \<Rightarrow> nat \<Rightarrow> nat \<Rightarrow> nat \<Rightarrow> nat \<Rightarrow> rtcp_packet option" where
  "Rfc3550_createRtcpPacket io uiVersion uiPadding uiTypeSpecific uiPayload uiLengthInWords =
     (let v = of_nat uiVersion; p = (uiPadding \<noteq> 0); t = of_nat uiTypeSpecific; l = of_nat uiLengthInWords
      in if uiPayload = unat PT_RTCP_SR then Some (SR (RtcpSr_raw v p t l))
         else if uiPayload = unat PT_RTCP_RR then Some (RR (RtcpRr_raw v p t l))
         else if uiPayload = unat PT_RTCP_SDES then Some (SDES (RtcpSdes_raw v p t l))
         else if uiPayload = unat PT_RTCP_BYE then Some (BYE (RtcpBye_raw v p t l))
         else if uiPayload = unat PT_RTCP_APP then Some (APP (RtcpApp_raw io v p t l))
         else None)"

definition Rfc3550_parseRtcpPacket ::
  "('i, 'o) bit_io \<Rightarrow> 'i \<Rightarrow> nat \<Rightarrow> nat \<Rightarrow> nat \<Rightarrow> nat \<Rightarrow> nat \<Rightarrow> (rtcp_packet option \<times> 'i) option" where
  "Rfc3550_parseRtcpPacket io ib uiVersion uiPadding uiTypeSpecific uiPayload uiLengthInWords =
     (case Rfc3550_createRtcpPacket io uiVersion uiPadding uiTypeSpecific uiPayload uiLengthInWords of
        None \<Rightarrow> Some (None, ib)
      | Some pPacket \<Rightarrow> map_option (\<lambda>(q, ib'). (Some q, ib')) (rtcp_readTypeSpecific io pPacket ib))"

definition Rfc3550_RtcpParser :: "('i, 'o) bit_io \<Rightarrow> 'i RtcpParserInterface" where
  "Rfc3550_RtcpParser io = \<lparr>pi_canHandleRtcpType = Rfc3550_canHandleRtcpType,
     pi_parseRtcpPacket = Rfc3550_parseRtcpPacket io\<rparr>"

section \<open>Validators\<close>

definition Rfc3550_validateCompoundRtcpPacket :: "rtcp_packet list \<Rightarrow> u32 \<Rightarrow> bool" where
  "Rfc3550_validateCompoundRtcpPacket ps uiTotalLength =
     (if ps = [] then False
      else if uiTotalLength \<noteq> 0 \<and> push_bit 2 (ucast (rb_uiLength (rtcp_base (ps ! 0))) + 1) = uiTotalLength then False
      else if list_ex (\<lambda>p. rb_uiVersion (rtcp_base p) \<noteq> RTP_VERSION_NUMBER) ps then False
      else if rb_uiPacketType (rtcp_base (ps ! 0)) \<noteq> PT_RTCP_SR \<and> rb_uiPacketType (rtcp_base (ps ! 0)) \<noteq> PT_RTCP_RR then False
      else if list_ex (\<lambda>p. rb_bPadding (rtcp_base p)) (butlast ps) then False
      else True)"

definition Rfc5506_validateCompoundRtcpPacket :: "rtcp_packet list \<Rightarrow> u32 \<Rightarrow> bool" where
  "Rfc5506_validateCompoundRtcpPacket ps uiTotalLength =
     (if ps = [] then False
      else if list_ex (\<lambda>p. rb_uiVersion (rtcp_base p) \<noteq> RTP_VERSION_NUMBER) ps then False
      else if rb_uiPacketType (rtcp_base (ps ! 0)) < PT_RTCP_SR then False
      else if list_ex (\<lambda>p. rb_bPadding (rtcp_base p)) (butlast ps) then False
      else True)"

section \<open>RtpPacketiser: compound packets\<close>

record 'i RtpPacketiser =
  pk_bValidate :: bool
  pk_pValidator :: "rtcp_packet list \<Rightarrow> u32 \<Rightarrow> bool"
  pk_vRtcpParsers :: "'i RtcpParserInterface list"

text \<open>\<open>m_bValidate\<close> is not initialised by the constructor, so its value is an argument here.\<close>

definition RtpPacketiser_create ::
  "('i, 'o) bit_io \<Rightarrow> bool \<Rightarrow> (rtcp_packet list \<Rightarrow> u32 \<Rightarrow> bool) \<Rightarrow> 'i RtpPacketiser" where
  "RtpPacketiser_create io bUninit pValidator =
     \<lparr>pk_bValidate = bUninit, pk_pValidator = pValidator, pk_vRtcpParsers = [Rfc3550_RtcpParser io]\<rparr>"

definition setValidateRtcp :: "bool \<Rightarrow> 'i RtpPacketiser \<Rightarrow> 'i RtpPacketiser" where
  "setValidateRtcp b pk = pk\<lparr>pk_bValidate := b\<rparr>"

definition setRtcpValidator :: "(rtcp_packet list \<Rightarrow> u32 \<Rightarrow> bool) \<Rightarrow> 'i RtpPacketiser \<Rightarrow> 'i RtpPacketiser" where
  "setRtcpValidator v pk = pk\<lparr>pk_pValidator := v\<rparr>"

definition registerRtcpParser :: "'i RtcpParserInterface \<Rightarrow> 'i RtpPacketiser \<Rightarrow> 'i RtpPacketiser" where
  "registerRtcpParser p pk = pk\<lparr>pk_vRtcpParsers := pk_vRtcpParsers pk @ [p]\<rparr>"

definition RtpPacketiser_validate :: "'i RtpPacketiser \<Rightarrow> rtcp_packet list \<Rightarrow> bool" where
  "RtpPacketiser_validate pk ps = pk_pValidator pk ps 0"

definition packetise_rtcp :: "('i, 'o) bit_io \<Rightarrow> rtcp_packet list \<Rightarrow> bytes" where
  "packetise_rtcp io ps = ob_str io (foldl (\<lambda>ob p. rtcp_write io p ob) (ob_new io) ps)"

definition findRtcpParsers :: "'i RtcpParserInterface list \<Rightarrow> nat \<Rightarrow> nat list" where
  "findRtcpParsers parsers uiType =
     filter (\<lambda>i. pi_canHandleRtcpType (parsers ! i) uiType) [0..<length parsers]"

fun try_parsers ::
  "'i RtcpParserInterface list \<Rightarrow> nat list \<Rightarrow> 'i \<Rightarrow> nat list \<Rightarrow> (rtcp_packet option \<times> 'i) option" where
  "try_parsers parsers [] ib v = Some (None, ib)"
| "try_parsers parsers (i # is) ib v =
     (case pi_parseRtcpPacket (parsers ! i) ib (v ! 0) (v ! 1) (v ! 2) (v ! 3) (v ! 4) of
        None \<Rightarrow> None
      | Some (Some p, ib') \<Rightarrow> Some (Some p, ib')
      | Some (None, ib') \<Rightarrow> try_parsers parsers is ib' v)"

text \<open>
  \<open>parseRtcpPacket\<close> calls itself after it has skipped a packet of unknown type; the recursion
  and the loop of \<open>doDepacketiseRtcp\<close> have fuel. An unread length is \<open>UINT_MAX\<close>, shifted left in
  32 bit arithmetic.
\<close>

fun parseRtcpPacket ::
  "('i, 'o) bit_io \<Rightarrow> 'i RtcpParserInterface list \<Rightarrow> nat \<Rightarrow> 'i \<Rightarrow> (rtcp_packet option \<times> 'i) option" where
  "parseRtcpPacket io parsers 0 ib = None"
| "parseRtcpPacket io parsers (Suc fuel) ib =
     (case reads io [(UINT_MAX, 2), (UINT_MAX, 1), (UINT_MAX, 5), (UINT_MAX, 8), (UINT_MAX, 16)] ib of (v, ib1) \<Rightarrow>
        if v ! 0 \<noteq> unat RTP_VERSION_NUMBER then Some (None, ib1)
        else let indices = findRtcpParsers parsers (v ! 3)
             in if indices = []
                then (case ib_skipBytes io ib1 (v ! 4 * 4 mod 2 ^ 32) of (ok, ib2) \<Rightarrow>
                        if \<not> ok then Some (None, ib2) else parseRtcpPacket io parsers fuel ib2)
                else try_parsers parsers indices ib1 v)"

fun depacketise_loop ::
  "('i, 'o) bit_io \<Rightarrow> 'i RtcpParserInterface list \<Rightarrow> nat \<Rightarrow> 'i \<Rightarrow> rtcp_packet list \<Rightarrow> rtcp_packet list option" where
  "depacketise_loop io parsers 0 ib ps = None"
| "depacketise_loop io parsers (Suc fuel) ib ps =
     (if ib_bitsRemaining io ib = 0 then Some ps
      else case parseRtcpPacket io parsers (Suc (ib_bitsRemaining io ib)) ib of
             None \<Rightarrow> None
           | Some (None, ib') \<Rightarrow> Some ps
           | Some (Some p, ib') \<Rightarrow> depacketise_loop io parsers fuel ib' (ps @ [p]))"

definition doDepacketiseRtcp :: "('i, 'o) bit_io \<Rightarrow> 'i RtpPacketiser \<Rightarrow> bytes \<Rightarrow> rtcp_packet list option" where
  "doDepacketiseRtcp io pk buffer =
     (let ib = ib_open io buffer
      in case depacketise_loop io (pk_vRtcpParsers pk) (Suc (ib_bitsRemaining io ib)) ib [] of
           None \<Rightarrow> None
         | Some ps \<Rightarrow>
             if pk_bValidate pk
             then (if pk_pValidator pk ps (of_nat (length buffer)) then Some ps else Some [])
             else Some ps)"

definition depacketiseRtcp :: "('i, 'o) bit_io \<Rightarrow> 'i RtpPacketiser \<Rightarrow> bytes \<Rightarrow> u64 \<Rightarrow> rtcp_packet list option" where
  "depacketiseRtcp io pk buffer ntpArrival =
     map_option (map (rtcp_map_base (setArrivalTimeNtp ntpArrival))) (doDepacketiseRtcp io pk buffer)"

section \<open>Readers advance\<close>

context bit_stream
begin

definition advances :: "'i \<Rightarrow> 'i \<Rightarrow> bool" where
  "advances ib ib' \<longleftrightarrow> length (ibits ib') \<le> length (ibits ib) \<and> (aligned ib \<longrightarrow> aligned ib')"

lemma advances_refl [simp]: "advances ib ib"
  by (simp add: advances_def)

lemma advances_trans: "\<lbrakk>advances a b; advances b c\<rbrakk> \<Longrightarrow> advances a c"
  by (auto simp: advances_def)

lemma read_advances: "\<lbrakk>ib_read io ib old n = (ok, v, ib'); 8 dvd n\<rbrakk> \<Longrightarrow> advances ib ib'"
  by (auto simp: advances_def intro: read_shrinks read_aligned)

lemma reads_advances: "\<lbrakk>reads io olds ib = (vs, ib'); \<forall>f\<in>set olds. 8 dvd snd f\<rbrakk> \<Longrightarrow> advances ib ib'"
  by (auto simp: advances_def intro: reads_shrinks reads_aligned)

lemma skip_advances: "ib_skipBytes io ib n = (ok, ib') \<Longrightarrow> advances ib ib'"
  by (auto simp: advances_def intro: skip_shrinks skip_aligned)

lemma read_chars_advances: "read_chars io n ib = (cs, ib') \<Longrightarrow> advances ib ib'"
  by (auto simp: read_chars_def intro!: reads_advances split: prod.splits)

lemma read_report_blocks_advances: "read_report_blocks io n ib = (rs, ib') \<Longrightarrow> advances ib ib'"
proof (induction n arbitrary: ib rs ib')
  case (Suc n)
  obtain r ib1 where r: "RtcpRrReportBlock_read io RtcpRrReportBlock_new ib = (r, ib1)"
    by (cases "RtcpRrReportBlock_read io RtcpRrReportBlock_new ib")
  then have "advances ib ib1"
    by (auto simp: RtcpRrReportBlock_read_def rrb_fields_def intro!: reads_advances split: prod.splits simp del: reads.simps)
  then show ?case using Suc r by (auto split: prod.splits intro: advances_trans)
qed simp

lemma readListItem_advances:
  assumes "readListItem io i ib = (i', ib')" and "aligned ib" and "ibits ib \<noteq> []"
  shows "advances ib ib' \<and> length (ibits ib') < length (ibits ib)"
proof -
  have eight: "8 \<le> length (ibits ib)" using assms(2,3) by (auto simp: aligned_def dest: dvd_imp_le)
  obtain t ib1 where r1: "ib_read io ib 0 8 = (True, t, ib1)" and b1: "ibits ib1 = drop 8 (ibits ib)"
    using read_ok [OF eight] by blast
  obtain ok n ib2 where r2: "ib_read io ib1 0 8 = (ok, n, ib2)" by (cases "ib_read io ib1 0 8")
  obtain s ib3 where r3: "read_chars io n ib2 = (s, ib3)" by (cases "read_chars io n ib2")
  have "advances ib1 ib3" using read_advances [OF r2] read_chars_advances [OF r3] by (auto intro: advances_trans)
  moreover have "advances ib ib1" using read_advances [OF r1] by simp
  moreover have "ib' = ib3" using assms(1) r1 r2 r3 by (simp add: readListItem_def)
  ultimately show ?thesis using b1 eight by (auto simp: advances_def)
qed

lemma read_sdes_items_total:
  "\<lbrakk>aligned ib; length (ibits ib) < fuel\<rbrakk> \<Longrightarrow>
   \<exists>i' ib'. read_sdes_items io fuel i ib = Some (i', ib') \<and> advances ib ib'"
proof (induction fuel arbitrary: i ib)
  case (Suc fuel)
  show ?case
  proof (cases "moreSdesItemsToBeRead io ib")
    case True
    obtain i1 ib1 where r: "readListItem io i ib = (i1, ib1)" by (cases "readListItem io i ib")
    have "ibits ib \<noteq> []" using True by (auto simp: moreSdesItemsToBeRead_def bitsRemaining)
    then have a: "advances ib ib1" "length (ibits ib1) < length (ibits ib)"
      using readListItem_advances [OF r Suc.prems(1)] by simp_all
    then have "aligned ib1" "length (ibits ib1) < fuel" using Suc.prems by (simp_all add: advances_def)
    then show ?thesis using Suc.IH [of ib1 i1] True r a(1) by (auto intro: advances_trans)
  qed simp
qed simp

lemma RtcpSdesReportBlock_read_total:
  assumes "aligned ib"
  shows "\<exists>b' ib'. RtcpSdesReportBlock_read io b ib = Some (b', ib') \<and> advances ib ib'"
proof -
  obtain ok v ib1 where r1: "ib_read io ib (unat (sb_uiSSRC_CSRC1 b)) 32 = (ok, v, ib1)"
    by (cases "ib_read io ib (unat (sb_uiSSRC_CSRC1 b)) 32")
  have a1: "advances ib ib1" using read_advances [OF r1] by simp
  then have "aligned ib1" using assms by (simp add: advances_def)
  then obtain i ib2 where r2: "read_sdes_items io (Suc (ib_bitsRemaining io ib1)) (sb_info b) ib1 = Some (i, ib2)"
    and a2: "advances ib1 ib2"
    using read_sdes_items_total [of ib1 "Suc (ib_bitsRemaining io ib1)" "sb_info b"] by (auto simp: bitsRemaining)
  obtain ok3 ib3 where r3: "ib_skipBytes io ib2 (unat (Sdes_getPadding \<lparr>sb_info = i, sb_uiSSRC_CSRC1 = of_nat v\<rparr>)) = (ok3, ib3)"
    by (cases "ib_skipBytes io ib2 (unat (Sdes_getPadding \<lparr>sb_info = i, sb_uiSSRC_CSRC1 = of_nat v\<rparr>))")
  have "advances ib ib3" using a1 a2 skip_advances [OF r3] by (blast intro: advances_trans)
  then show ?thesis
    using r1 r2 r3 by (simp add: RtcpSdesReportBlock_read_def Let_def del: read_sdes_items.simps)
qed

lemma read_sdes_blocks_total:
  "aligned ib \<Longrightarrow> \<exists>bs ib'. read_sdes_blocks io n ib = Some (bs, ib') \<and> advances ib ib'"
proof (induction n arbitrary: ib)
  case (Suc n)
  obtain b ib1 where r: "RtcpSdesReportBlock_read io (RtcpSdesReportBlock_create 0) ib = Some (b, ib1)" "advances ib ib1"
    using RtcpSdesReportBlock_read_total [OF Suc.prems] by blast
  then obtain bs ib2 where "read_sdes_blocks io n ib1 = Some (bs, ib2)" "advances ib1 ib2"
    using Suc.IH [of ib1] Suc.prems by (auto simp: advances_def)
  then show ?case using r by (auto intro: advances_trans)
qed simp

lemma rtcp_readTypeSpecific_total:
  assumes "aligned ib"
  shows "\<exists>q ib'. rtcp_readTypeSpecific io p ib = Some (q, ib') \<and> advances ib ib'"
proof (cases p)
  case (SR x)
  then show ?thesis
    by (auto simp: RtcpSr_readTypeSpecific_def sr_fields_def simp del: reads.simps split: prod.splits
        intro!: advances_trans [OF reads_advances read_report_blocks_advances])
next
  case (RR x)
  then show ?thesis
    by (auto simp: RtcpRr_readTypeSpecific_def split: prod.splits
        intro!: advances_trans [OF read_advances read_report_blocks_advances])
next
  case (SDES x)
  then show ?thesis
    using read_sdes_blocks_total [OF assms, of "unat (rb_uiTypeSpecific (sd_base x))"]
    by (auto simp: RtcpSdes_readTypeSpecific_def)
next
  case (APP x)
  then show ?thesis
    by (auto simp: RtcpApp_readTypeSpecific_def chars_fields_def split: prod.splits
        intro!: advances_trans [OF read_advances reads_advances])
next
  case (BYE x)
  obtain ss ib1 where r1: "reads io (replicate (unat (rb_uiTypeSpecific (by_base x))) (0, 32)) ib = (ss, ib1)"
    by (cases "reads io (replicate (unat (rb_uiTypeSpecific (by_base x))) (0, 32)) ib")
  obtain ok n ib2 where r2: "ib_read io ib1 0 8 = (ok, n, ib2)" by (cases "ib_read io ib1 0 8")
  obtain s ib3 where r3: "read_chars io n ib2 = (s, ib3)" by (cases "read_chars io n ib2")
  have "advances ib ib3"
    using reads_advances [OF r1] read_advances [OF r2] read_chars_advances [OF r3]
    by (auto intro: advances_trans)
  moreover have "advances ib3 ib4" if "reads io (replicate k (0, 8)) ib3 = (vs, ib4)" for k vs ib4
    using reads_advances [OF that] by simp
  ultimately show ?thesis
    using BYE r1 r2 r3
    by (auto simp: RtcpBye_readTypeSpecific_def Let_def split: prod.splits intro: advances_trans)
qed

end

section \<open>What the packetiser relies on from its parsers\<close>

locale rtcp_parsers = bit_stream io obits ibits
  for io :: "('i, 'o) bit_io" and obits ibits +
  fixes parsers :: "'i RtcpParserInterface list"
  assumes parse_total: "\<lbrakk>p \<in> set parsers; aligned ib\<rbrakk> \<Longrightarrow>
    \<exists>r ib'. pi_parseRtcpPacket p ib v1 v2 v3 v4 v5 = Some (r, ib') \<and> advances ib ib'"
begin

lemma try_parsers_total:
  "\<lbrakk>\<forall>i\<in>set is. i < length parsers; aligned ib\<rbrakk> \<Longrightarrow>
   \<exists>r ib'. try_parsers parsers is ib v = Some (r, ib') \<and> advances ib ib'"
proof (induction "is" arbitrary: ib)
  case (Cons i "is")
  have "parsers ! i \<in> set parsers" using Cons.prems(1) by simp
  then obtain r ib1 where r: "pi_parseRtcpPacket (parsers ! i) ib (v ! 0) (v ! 1) (v ! 2) (v ! 3) (v ! 4) = Some (r, ib1)"
    and a: "advances ib ib1"
    using parse_total Cons.prems(2) by blast
  have "aligned ib1" using a Cons.prems(2) by (simp add: advances_def)
  then show ?case using Cons.IH [of ib1] Cons.prems(1) r a by (cases r) (auto intro: advances_trans)
qed simp

lemma read_avail3:
  assumes "8 \<le> length (ibits ib)" and "ibits ib2 = drop 2 (ibits ib)"
  shows "\<exists>y ib3. ib_read io ib2 old 1 = (True, y, ib3) \<and> ibits ib3 = drop 3 (ibits ib)"
proof -
  have "1 \<le> length (ibits ib2)" using assms by simp
  from read_ok [OF this, of old] show ?thesis using assms(2) by (auto simp: numeral_3_eq_3)
qed

lemma header_reads:
  assumes "aligned ib"
    and "reads io [(UINT_MAX, 2), (UINT_MAX, 1), (UINT_MAX, 5), (UINT_MAX, 8), (UINT_MAX, 16)] ib = (v, ib1)"
  shows "advances ib ib1" and "v ! 0 = 2 \<Longrightarrow> length (ibits ib1) < length (ibits ib)"
proof -
  let ?w = "[(UINT_MAX, 8), (UINT_MAX, 16)]"
  have "advances ib ib1 \<and> (v ! 0 = 2 \<longrightarrow> length (ibits ib1) < length (ibits ib))"
  proof (cases "ibits ib = []")
    case True
    then obtain ib2 where "ib_read io ib UINT_MAX 2 = (False, UINT_MAX, ib2)"
      using read_fail [of ib 2 UINT_MAX] by auto
    then have "v ! 0 \<noteq> 2" using assms(2) by (auto simp: UINT_MAX_def split: prod.splits)
    moreover have "length (ibits ib1) \<le> length (ibits ib)" using reads_shrinks [OF assms(2)] .
    ultimately show ?thesis using True by (simp add: advances_def aligned_def)
  next
    case False
    then have eight: "8 \<le> length (ibits ib)" using assms(1) by (auto simp: aligned_def dest: dvd_imp_le)
    obtain x ib2 where r2: "ib_read io ib UINT_MAX 2 = (True, x, ib2)" and b2: "ibits ib2 = drop 2 (ibits ib)"
      using read_ok [of 2 ib UINT_MAX] eight by auto
    obtain y ib3 where r3: "ib_read io ib2 UINT_MAX 1 = (True, y, ib3)" and b3: "ibits ib3 = drop 3 (ibits ib)"
      using read_avail3 [OF eight b2] by blast
    have five: "5 \<le> length (ibits ib3)" using b3 eight by simp
    obtain z ib4 where r4: "ib_read io ib3 UINT_MAX 5 = (True, z, ib4)" and b4: "ibits ib4 = drop 8 (ibits ib)"
      using read_ok [OF five, of UINT_MAX] b3 by auto
    obtain us where "reads io ?w ib4 = (us, ib1)"
      using assms(2) r2 r3 r4 by (auto split: prod.splits)
    then have "advances ib4 ib1" by (rule reads_advances) simp
    moreover have "advances ib ib4" using b4 assms(1) eight by (simp add: advances_def aligned_def dvd_diff_nat)
    ultimately show ?thesis using b4 eight by (auto simp: advances_def)
  qed
  then show "advances ib ib1" and "v ! 0 = 2 \<Longrightarrow> length (ibits ib1) < length (ibits ib)" by simp_all
qed

lemma parseRtcpPacket_total:
  "\<lbrakk>aligned ib; length (ibits ib) < fuel\<rbrakk> \<Longrightarrow>
   \<exists>r ib'. parseRtcpPacket io parsers fuel ib = Some (r, ib') \<and> advances ib ib'
     \<and> (r \<noteq> None \<longrightarrow> length (ibits ib') < length (ibits ib))"
proof (induction fuel arbitrary: ib)
  case (Suc fuel)
  let ?h = "[(UINT_MAX, 2), (UINT_MAX, 1), (UINT_MAX, 5), (UINT_MAX, 8), (UINT_MAX, 16)]"
  obtain v ib1 where hd: "reads io ?h ib = (v, ib1)" by (cases "reads io ?h ib")
  note h = header_reads [OF Suc.prems(1) hd]
  have al: "aligned ib1" using h(1) Suc.prems(1) by (simp add: advances_def)
  note step = parseRtcpPacket.simps(2) [of io parsers fuel ib]
  show ?case
  proof (cases "v ! 0 = 2")
    case False
    then show ?thesis using step hd h(1) by (simp add: RTP_VERSION_NUMBER_def del: reads.simps)
  next
    case True
    note less = h(2) [OF True]
    show ?thesis
    proof (cases "findRtcpParsers parsers (v ! 3) = []")
      case False
      have "\<forall>i\<in>set (findRtcpParsers parsers (v ! 3)). i < length parsers" by (simp add: findRtcpParsers_def)
      then obtain r ib2 where "try_parsers parsers (findRtcpParsers parsers (v ! 3)) ib1 v = Some (r, ib2)" "advances ib1 ib2"
        using try_parsers_total al by blast
      moreover from this(2) have "length (ibits ib2) < length (ibits ib)" using less by (auto simp: advances_def)
      ultimately show ?thesis
        using step hd h(1) True False by (auto simp: RTP_VERSION_NUMBER_def intro: advances_trans simp del: reads.simps)
    next
      case unknown: True
      obtain ok ib2 where sk: "ib_skipBytes io ib1 (v ! 4 * 4 mod 2 ^ 32) = (ok, ib2)"
        by (cases "ib_skipBytes io ib1 (v ! 4 * 4 mod 2 ^ 32)")
      have a2: "advances ib1 ib2" by (rule skip_advances [OF sk])
      then have "aligned ib2" "length (ibits ib2) < length (ibits ib)" "advances ib ib2"
        using al less h(1) by (auto simp: advances_def)
      then show ?thesis
        using step hd sk unknown True Suc.IH [of ib2] Suc.prems(2)
        by (cases ok) (auto simp: RTP_VERSION_NUMBER_def advances_def simp del: reads.simps)
    qed
  qed
qed simp

lemma depacketise_loop_total:
  "\<lbrakk>aligned ib; length (ibits ib) < fuel\<rbrakk> \<Longrightarrow> \<exists>qs. depacketise_loop io parsers fuel ib ps = Some qs"
proof (induction fuel arbitrary: ib ps)
  case (Suc fuel)
  obtain r ib1 where p: "parseRtcpPacket io parsers (Suc (ib_bitsRemaining io ib)) ib = Some (r, ib1)"
    and a: "advances ib ib1" "r \<noteq> None \<longrightarrow> length (ibits ib1) < length (ibits ib)"
    using parseRtcpPacket_total [OF Suc.prems(1), of "Suc (ib_bitsRemaining io ib)"] by (auto simp: bitsRemaining)
  then show ?case
    using Suc.IH [of ib1] Suc.prems by (cases r) (auto simp: advances_def simp del: parseRtcpPacket.simps)
qed simp

lemma doDepacketiseRtcp_total:
  assumes "pk_vRtcpParsers pk = parsers"
  shows "\<exists>ps. doDepacketiseRtcp io pk buffer = Some ps"
proof -
  have "aligned (ib_open io buffer)" by (simp add: aligned_def open_bits)
  then obtain qs where "depacketise_loop io parsers (Suc (ib_bitsRemaining io (ib_open io buffer))) (ib_open io buffer) [] = Some qs"
    using depacketise_loop_total [of "ib_open io buffer" "Suc (ib_bitsRemaining io (ib_open io buffer))" "[]"]
    by (auto simp: bitsRemaining simp del: depacketise_loop.simps)
  then show ?thesis
    using assms by (auto simp: doDepacketiseRtcp_def Let_def simp del: depacketise_loop.simps)
qed

end

text \<open>The RFC 3550 parser, registered by every constructor of the packetiser, meets the contract.\<close>

sublocale bit_stream \<subseteq> rfc3550: rtcp_parsers io obits ibits "[Rfc3550_RtcpParser io]"
proof unfold_locales
  fix p ib v1 v2 v3 v4 v5
  assume "p \<in> set [Rfc3550_RtcpParser io]" and al: "aligned ib"
  then have p: "pi_parseRtcpPacket p = Rfc3550_parseRtcpPacket io" by (simp add: Rfc3550_RtcpParser_def)
  show "\<exists>r ib'. pi_parseRtcpPacket p ib v1 v2 v3 v4 v5 = Some (r, ib') \<and> advances ib ib'"
  proof (cases "Rfc3550_createRtcpPacket io v1 v2 v3 v4 v5")
    case (Some q)
    obtain q' ib' where "rtcp_readTypeSpecific io q ib = Some (q', ib')" "advances ib ib'"
      using rtcp_readTypeSpecific_total [OF al] by blast
    then show ?thesis unfolding p using Some by (simp add: Rfc3550_parseRtcpPacket_def)
  qed (simp add: p Rfc3550_parseRtcpPacket_def)
qed

context bit_stream
begin

lemma RtpPacketiser_create_total:
  "\<exists>ps. doDepacketiseRtcp io (RtpPacketiser_create io bValidate pValidator) buffer = Some ps"
  by (rule rfc3550.doDepacketiseRtcp_total) (simp add: RtpPacketiser_create_def)

end

interpretation bitlist_rtcp: rtcp_parsers bitlist_io "\<lambda>ob. ob" "\<lambda>ib. ib" "[Rfc3550_RtcpParser bitlist_io]"
  by (rule bitlist.rfc3550.rtcp_parsers_axioms)

section \<open>Reading back what was written\<close>

definition rtcp_readable :: "rtcp_packet \<Rightarrow> bool list \<Rightarrow> bool" where
  "rtcp_readable p rest \<longleftrightarrow> rtcp_ok p \<and> (case p of APP _ \<Rightarrow> False | BYE _ \<Rightarrow> rest = [] | _ \<Rightarrow> True)"

fun compound_readable :: "rtcp_packet list \<Rightarrow> bool" where
  "compound_readable [] \<longleftrightarrow> True"
| "compound_readable (p # ps) \<longleftrightarrow> rtcp_readable p (concat (map rtcp_bits ps)) \<and> compound_readable ps"

lemma base_raw:
  assumes "base_ok ty n w b"
  shows "RtcpPacketBase_raw (of_nat (unat (rb_uiVersion b))) (of_bool (rb_bPadding b) \<noteq> (0::nat))
      (of_nat (unat (rb_uiTypeSpecific b))) ty (of_nat (unat (rb_uiLength b))) = b\<lparr>rb_uiArrivalTimeNtp := 0\<rparr>"
proof -
  have "\<not> rb_bPadding b" "rb_uiPacketType b = ty" using assms by (simp_all add: base_ok_def)
  then show ?thesis by (cases b) (simp add: RtcpPacketBase_raw_def)
qed

context bit_stream
begin

lemma Rfc3550_parse_bits:
  assumes ok: "rtcp_readable p rest" and bits: "ibits ib = body_bits p @ rest"
  defines "b \<equiv> rtcp_base p"
  shows "\<exists>ib'. Rfc3550_parseRtcpPacket io ib (unat (rb_uiVersion b)) (of_bool (rb_bPadding b)) (unat (rb_uiTypeSpecific b))
      (unat (rb_uiPacketType b)) (unat (rb_uiLength b)) = Some (Some (rtcp_map_base (setArrivalTimeNtp 0) p), ib')
    \<and> ibits ib' = rest"
proof (cases p)
  case (SR q)
  let ?q = "RtcpSr_default\<lparr>sr_base := (sr_base q)\<lparr>rb_uiArrivalTimeNtp := 0\<rparr>\<rparr>"
  have q: "sr_ok q" and ty: "rb_uiPacketType b = PT_RTCP_SR" and base: "base_ok PT_RTCP_SR (length (sr_vReports q)) (6 + 6 * length (sr_vReports q)) (sr_base q)"
    using ok SR by (simp_all add: rtcp_readable_def sr_ok_def base_ok_def b_def)
  obtain ib' where "RtcpSr_readTypeSpecific io ?q ib = (q\<lparr>sr_base := sr_base ?q\<rparr>, ib')" "ibits ib' = rest"
    using RtcpSr_read_bits [OF q, of ?q ib rest] bits SR by (auto simp: RtcpSr_default_def)
  then show ?thesis
    using SR ty base_raw [OF base]
    by (simp add: Rfc3550_parseRtcpPacket_def Rfc3550_createRtcpPacket_def Let_def RtcpSr_raw_def b_def setArrivalTimeNtp_def)
next
  case (RR q)
  let ?q = "\<lparr>rr_base = (rr_base q)\<lparr>rb_uiArrivalTimeNtp := 0\<rparr>, rr_uiReporterSSRC = 0, rr_vReports = []\<rparr>"
  have q: "rr_ok q" and ty: "rb_uiPacketType b = PT_RTCP_RR" and base: "base_ok PT_RTCP_RR (length (rr_vReports q)) (1 + 6 * length (rr_vReports q)) (rr_base q)"
    using ok RR by (simp_all add: rtcp_readable_def rr_ok_def base_ok_def b_def)
  obtain ib' where "RtcpRr_readTypeSpecific io ?q ib = (q\<lparr>rr_base := rr_base ?q\<rparr>, ib')" "ibits ib' = rest"
    using RtcpRr_read_bits [OF q, of ?q ib rest] bits RR by auto
  then show ?thesis
    using RR ty base_raw [OF base]
    by (simp add: Rfc3550_parseRtcpPacket_def Rfc3550_createRtcpPacket_def Let_def RtcpRr_raw_def b_def setArrivalTimeNtp_def
        rtcp_types)
next
  case (SDES q)
  let ?q = "\<lparr>sd_base = (sd_base q)\<lparr>rb_uiArrivalTimeNtp := 0\<rparr>, sd_vReports = []\<rparr>"
  have q: "sdes_ok q" and ty: "rb_uiPacketType b = PT_RTCP_SDES"
    and base: "base_ok PT_RTCP_SDES (length (sd_vReports q)) (sum_list (map sdes_words (sd_vReports q))) (sd_base q)"
    using ok SDES by (simp_all add: rtcp_readable_def sdes_ok_def base_ok_def b_def)
  obtain ib' where "RtcpSdes_readTypeSpecific io ?q ib = Some (q\<lparr>sd_base := sd_base ?q\<rparr>, ib')" "ibits ib' = rest"
    using RtcpSdes_read_bits [OF q, of ?q ib rest] bits SDES by auto
  then show ?thesis
    using SDES ty base_raw [OF base]
    by (simp add: Rfc3550_parseRtcpPacket_def Rfc3550_createRtcpPacket_def Let_def RtcpSdes_raw_def b_def setArrivalTimeNtp_def
        rtcp_types)
next
  case (APP q)
  then show ?thesis using ok by (simp add: rtcp_readable_def)
next
  case (BYE q)
  let ?q = "RtcpBye_default\<lparr>by_base := (by_base q)\<lparr>rb_uiArrivalTimeNtp := 0\<rparr>\<rparr>"
  have q: "bye_ok q" and r: "rest = []" and ty: "rb_uiPacketType b = PT_RTCP_BYE"
    and base: "base_ok PT_RTCP_BYE (length (by_vSSRCs q)) (length (by_vSSRCs q)) (by_base q)"
    using ok BYE by (simp_all add: rtcp_readable_def bye_ok_def base_ok_def b_def)
  obtain ib' where "RtcpBye_readTypeSpecific io ?q ib = (q\<lparr>by_base := by_base ?q\<rparr>, ib')" "ibits ib' = rest"
    using RtcpBye_read_bits [OF q, of ?q ib] bits BYE r by (auto simp: RtcpBye_default_def)
  then show ?thesis
    using BYE ty base_raw [OF base]
    by (simp add: Rfc3550_parseRtcpPacket_def Rfc3550_createRtcpPacket_def Let_def RtcpBye_raw_def b_def setArrivalTimeNtp_def
        rtcp_types)
qed

lemma parseRtcpPacket_bits:
  assumes ok: "rtcp_readable p rest" and bits: "ibits ib = rtcp_bits p @ rest"
  shows "\<exists>ib'. parseRtcpPacket io [Rfc3550_RtcpParser io] (Suc fuel) ib = Some (Some (rtcp_map_base (setArrivalTimeNtp 0) p), ib')
    \<and> ibits ib' = rest"
proof -
  let ?b = "rtcp_base p"
  let ?h = "[(UINT_MAX, 2), (UINT_MAX, 1), (UINT_MAX, 5), (UINT_MAX, 8), (UINT_MAX, 16)]"
  obtain ty n w where base: "base_ok ty n w ?b" using ok rtcp_ok_base [of p] by (auto simp: rtcp_readable_def)
  have ty: "rb_uiPacketType ?b \<in> {PT_RTCP_SR, PT_RTCP_RR, PT_RTCP_SDES, PT_RTCP_BYE}"
    using ok by (cases p) (simp_all add: rtcp_readable_def sr_ok_def rr_ok_def sdes_ok_def bye_ok_def base_ok_def)
  have b0: "ibits ib = fields_bits (base_fields ?b) @ body_bits p @ rest" using bits by (simp add: rtcp_bits_def)
  have w: "map snd ?h = map snd (base_fields ?b)" by (simp add: base_fields_def)
  obtain ib1 where r1: "reads io ?h ib = (map fst (base_fields ?b), ib1)" and b1: "ibits ib1 = body_bits p @ rest"
    by (rule reads_fields [OF w fields_ok_base [OF base] b0])
  obtain ib2 where r2: "Rfc3550_parseRtcpPacket io ib1 (unat (rb_uiVersion ?b)) (of_bool (rb_bPadding ?b))
      (unat (rb_uiTypeSpecific ?b)) (unat (rb_uiPacketType ?b)) (unat (rb_uiLength ?b))
      = Some (Some (rtcp_map_base (setArrivalTimeNtp 0) p), ib2)" and b2: "ibits ib2 = rest"
    using Rfc3550_parse_bits [OF ok b1] by blast
  have "Rfc3550_canHandleRtcpType (unat (rb_uiPacketType ?b))"
    using ty by (auto simp: Rfc3550_canHandleRtcpType_def)
  then have "findRtcpParsers [Rfc3550_RtcpParser io] (unat (rb_uiPacketType ?b)) = [0]"
    by (simp add: findRtcpParsers_def Rfc3550_RtcpParser_def)
  then show ?thesis
    using r1 r2 b2 base
    by (simp add: base_fields_def base_ok_def RTP_VERSION_NUMBER_def Rfc3550_RtcpParser_def del: reads.simps)
qed

lemma depacketise_loop_bits:
  "\<lbrakk>compound_readable ps; ibits ib = concat (map rtcp_bits ps); length (ibits ib) < fuel\<rbrakk> \<Longrightarrow>
   depacketise_loop io [Rfc3550_RtcpParser io] fuel ib acc = Some (acc @ map (rtcp_map_base (setArrivalTimeNtp 0)) ps)"
proof (induction ps arbitrary: ib acc fuel)
  case Nil
  then obtain f where "fuel = Suc f" by (cases fuel) auto
  then show ?case using Nil.prems by (simp add: bitsRemaining)
next
  case (Cons p ps)
  obtain f where f: "fuel = Suc f" using Cons.prems(3) by (cases fuel) auto
  have b: "ibits ib = rtcp_bits p @ concat (map rtcp_bits ps)" and ok: "rtcp_readable p (concat (map rtcp_bits ps))"
    using Cons.prems by simp_all
  obtain ib1 where r: "parseRtcpPacket io [Rfc3550_RtcpParser io] (Suc (ib_bitsRemaining io ib)) ib
      = Some (Some (rtcp_map_base (setArrivalTimeNtp 0) p), ib1)" and b1: "ibits ib1 = concat (map rtcp_bits ps)"
    using parseRtcpPacket_bits [OF ok b] by blast
  have "0 < length (rtcp_bits p)" by (simp add: rtcp_bits_def)
  moreover have "length (ibits ib) = length (rtcp_bits p) + length (ibits ib1)" using b b1 by simp
  ultimately have pos: "0 < ib_bitsRemaining io ib" and less: "length (ibits ib1) < f"
    using f Cons.prems(3) unfolding bitsRemaining by linarith+
  show ?case
    using Cons.IH [OF _ b1 less] Cons.prems(1) f r pos by (simp del: parseRtcpPacket.simps)
qed

end

section \<open>Properties of compound packets\<close>

definition sender_or_receiver_report :: "rtcp_packet \<Rightarrow> bool" where
  "sender_or_receiver_report p = (case p of SR _ \<Rightarrow> True | RR _ \<Rightarrow> True | _ \<Rightarrow> False)"

lemma rtcp_map_base_simps [simp]:
  "rtcp_base (rtcp_map_base f p) = f (rtcp_base p)"
  "rtcp_map_base f (rtcp_map_base g p) = rtcp_map_base (f \<circ> g) p"
  by (cases p; simp)+

lemma setArrivalTimeNtp_fold [simp]: "setArrivalTimeNtp t \<circ> setArrivalTimeNtp s = setArrivalTimeNtp t"
  by (simp add: setArrivalTimeNtp_def fun_eq_iff)

lemma rtcp_ok_base_fields:
  "rtcp_ok p \<Longrightarrow> rb_uiVersion (rtcp_base p) = 2 \<and> \<not> rb_bPadding (rtcp_base p)"
  using rtcp_ok_base by (auto simp: base_ok_def)

lemma compound_readable_ok: "compound_readable ps \<Longrightarrow> list_all rtcp_ok ps"
  by (induction ps) (auto simp: rtcp_readable_def)

lemma compound_readable_intro:
  "\<lbrakk>list_all rtcp_ok ps; \<forall>p\<in>set ps. \<forall>q. p \<noteq> APP q; \<forall>p\<in>set (butlast ps). \<forall>q. p \<noteq> BYE q\<rbrakk> \<Longrightarrow> compound_readable ps"
proof (induction ps)
  case (Cons p ps)
  have "compound_readable ps" using Cons by (cases ps) auto
  moreover have "rtcp_readable p (concat (map rtcp_bits ps))"
    using Cons.prems by (cases "ps = []"; cases p) (auto simp: rtcp_readable_def)
  ultimately show ?case by simp
qed simp

lemma unat_push4: "unat (push_bit 2 (ucast (x :: u16) + 1) :: u32) = 4 * (unat x + 1)"
proof -
  have "Suc y mod 4294967296 * 4 mod 4294967296 = 4 + 4 * y" if "y < 65536" for y :: nat using that by simp
  from this [OF unat_u16 [of x]] show ?thesis by (simp add: push_bit_eq_mult unat_word_ariths)
qed

text \<open>A compound packet of two or more packets is longer than its first one claims to be.\<close>

lemma compound_accepted:
  assumes "list_all rtcp_ok ps" and "2 \<le> length ps" and "length ps \<le> 1000" and "sender_or_receiver_report (hd ps)"
    and "8 * n = length (concat (map rtcp_bits ps))"
  shows "Rfc3550_validateCompoundRtcpPacket (map (rtcp_map_base (setArrivalTimeNtp t)) ps) (of_nat n)"
proof -
  let ?ps = "map (rtcp_map_base (setArrivalTimeNtp t)) ps"
  obtain p q rs where ps: "ps = p # q # rs" using assms(2) by (cases ps; cases "tl ps") auto
  have n: "n = unat (compoundRtcpPacketSize ps)"
    using compound_size [OF assms(1,3)] assms(5) by simp
  let ?l = "unat (rb_uiLength (rtcp_base p))"
  have "n = 4 * (1 + ?l + (1 + unat (rb_uiLength (rtcp_base q)) + sum_list (map (\<lambda>p. 1 + unat (rb_uiLength (rtcp_base p))) rs)))"
    using compound_words(1) [OF assms(3)] n ps by simp
  then have less: "4 * (?l + 1) < n" by simp
  have "unat (push_bit 2 (ucast (rb_uiLength (rtcp_base p)) + 1) :: u32) = 4 * (?l + 1)" by (rule unat_push4)
  also note less
  also have "n = unat (of_nat n :: u32)" using n by simp
  finally have "unat (push_bit 2 (ucast (rb_uiLength (rtcp_base p)) + 1) :: u32) < unat (of_nat n :: u32)" .
  then have len: "push_bit 2 (ucast (rb_uiLength (rtcp_base p)) + 1) \<noteq> (of_nat n :: u32)" by (metis less_irrefl)
  have f: "\<forall>p\<in>set ps. rb_uiVersion (rtcp_base p) = 2 \<and> \<not> rb_bPadding (rtcp_base p)"
    using assms(1) rtcp_ok_base_fields by (auto simp: list_all_iff)
  have ty: "rb_uiPacketType (rtcp_base p) = PT_RTCP_SR \<or> rb_uiPacketType (rtcp_base p) = PT_RTCP_RR"
    using assms(1,4) ps by (cases p) (simp_all add: sender_or_receiver_report_def sr_ok_def rr_ok_def base_ok_def)
  have "\<not> list_ex (\<lambda>p. rb_uiVersion (rtcp_base p) \<noteq> RTP_VERSION_NUMBER) ?ps"
    "\<not> list_ex (\<lambda>p. rb_bPadding (rtcp_base p)) (butlast ?ps)"
    using f by (auto simp: list_ex_iff RTP_VERSION_NUMBER_def setArrivalTimeNtp_def map_butlast [symmetric]
        dest: in_set_butlastD)
  then show ?thesis
    using len ty ps
    by (auto simp: Rfc3550_validateCompoundRtcpPacket_def setArrivalTimeNtp_def)
qed

lemma compound_parsed:
  assumes "bit_stream io obits ibits" and "list_all rtcp_ok ps" and "2 \<le> length ps" and "length ps \<le> 1000"
    and "sender_or_receiver_report (hd ps)"
    and "\<forall>p\<in>set ps. \<forall>q. p \<noteq> APP q" and "\<forall>p\<in>set (butlast ps). \<forall>q. p \<noteq> BYE q"
  shows "depacketiseRtcp io (RtpPacketiser_create io bValidate Rfc3550_validateCompoundRtcpPacket) (packetise_rtcp io ps) t
    = Some (map (rtcp_map_base (setArrivalTimeNtp t)) ps)"
proof -
  let ?buf = "packetise_rtcp io ps" and ?pk = "RtpPacketiser_create io bValidate Rfc3550_validateCompoundRtcpPacket"
  let ?ps = "map (rtcp_map_base (setArrivalTimeNtp 0)) ps"
  have r: "compound_readable ps" by (rule compound_readable_intro [OF assms(2,6,7)])
  have bits: "obits (foldl (\<lambda>ob p. rtcp_write io p ob) (ob_new io) ps) = concat (map rtcp_bits ps)"
    using bit_stream.compound_write_bits [OF assms(1,2)] by (simp add: bit_stream.new_bits [OF assms(1)])
  have buf: "bytes_bits ?buf = concat (map rtcp_bits ps)"
    using bit_stream.str_bits [OF assms(1), of "foldl (\<lambda>ob p. rtcp_write io p ob) (ob_new io) ps"] bits
      compound_size [OF assms(2,4)] by (simp add: packetise_rtcp_def)
  then have ib: "ibits (ib_open io ?buf) = concat (map rtcp_bits ps)" by (simp add: bit_stream.open_bits [OF assms(1)])
  have loop: "depacketise_loop io [Rfc3550_RtcpParser io] (Suc (ib_bitsRemaining io (ib_open io ?buf))) (ib_open io ?buf) [] = Some ?ps"
    using bit_stream.depacketise_loop_bits [OF assms(1) r ib, of _ "[]"] bit_stream.bitsRemaining [OF assms(1)]
    by (simp del: depacketise_loop.simps)
  have "8 * length ?buf = length (concat (map rtcp_bits ps))" using arg_cong [OF buf, of length] by simp
  then have "Rfc3550_validateCompoundRtcpPacket ?ps (of_nat (length ?buf))"
    by (rule compound_accepted [OF assms(2-5)])
  then have "doDepacketiseRtcp io ?pk ?buf = Some ?ps"
    using loop by (simp add: doDepacketiseRtcp_def RtpPacketiser_create_def Let_def del: depacketise_loop.simps)
  then show ?thesis by (simp add: depacketiseRtcp_def)
qed

text \<open>
  C8: Round trip of a compound RTCP packet. A compound packet of well-formed SR, RR and SDES packets,
  optionally closed by a BYE without a reason, that starts with a report and has at least two
  packets is serialised, parsed back to the same packets stamped with the arrival time, and
  accepted by the RFC 3550 validator, whether or not validation is switched on.
\<close>

theorem rtcp_compound_roundtrip:
  assumes "bit_stream io obits ibits" and "list_all rtcp_ok ps" and "2 \<le> length ps" and "length ps \<le> 1000"
    and "sender_or_receiver_report (hd ps)"
    and "\<forall>p\<in>set ps. \<forall>q. p \<noteq> APP q" and "\<forall>p\<in>set (butlast ps). \<forall>q. p \<noteq> BYE q"
  shows "depacketiseRtcp io (RtpPacketiser_create io bValidate Rfc3550_validateCompoundRtcpPacket) (packetise_rtcp io ps) t
    = Some (map (rtcp_map_base (setArrivalTimeNtp t)) ps)"
  using assms by (rule compound_parsed)

definition sample_compound :: "rtcp_packet list" where
  "sample_compound = [SR (snd (RtcpSr_addReportBlock RtcpRrReportBlock_new (RtcpSr_create 1 2 3 4 5 6))),
     SDES (addSdesReport \<lparr>sb_info = SdesInformation_new\<lparr>si_CName := [97, 64, 98]\<rparr>, sb_uiSSRC_CSRC1 = 1\<rparr> RtcpSdes_create),
     BYE (RtcpBye_create 1)]"

lemma sample_compound_ok: "list_all rtcp_ok sample_compound"
proof -
  have "info_ok (SdesInformation_new\<lparr>si_CName := [97, 64, 98]\<rparr>)"
    by (simp add: info_ok_def sdes_items_def SdesInformation_new_def)
  then have "sdes_ok (addSdesReport \<lparr>sb_info = SdesInformation_new\<lparr>si_CName := [97, 64, 98]\<rparr>, sb_uiSSRC_CSRC1 = 1\<rparr> RtcpSdes_create)"
    by (intro sdes_ok_add sdes_ok_create) (simp_all add: RtcpSdes_create_def)
  moreover have "sr_ok (snd (RtcpSr_addReportBlock RtcpRrReportBlock_new (RtcpSr_create 1 2 3 4 5 6)))"
    by (rule sr_ok_add) (simp_all add: block_ok_def RtcpRrReportBlock_new_def)
  ultimately show ?thesis by (simp add: sample_compound_def)
qed

theorem rtcp_compound_roundtrip_witness:
  "depacketiseRtcp bitlist_io (RtpPacketiser_create bitlist_io True Rfc3550_validateCompoundRtcpPacket)
     (packetise_rtcp bitlist_io sample_compound) 9 = Some (map (rtcp_map_base (setArrivalTimeNtp 9)) sample_compound)"
  by (rule rtcp_compound_roundtrip [OF bitlist.bit_stream_axioms sample_compound_ok])
    (simp_all add: sample_compound_def sender_or_receiver_report_def)

text \<open>
  C10: Every datagram is processed. For a packetiser as its constructors build it, the recursion over
  unknown packet types, the loop over the compound packet and the loop over SDES items end
  on every input, so \<open>depacketiseRtcp\<close> always returns.
\<close>

theorem depacketiseRtcp_terminates:
  assumes "bit_stream io obits ibits"
  shows "\<exists>ps. depacketiseRtcp io (RtpPacketiser_create io bValidate pValidator) buffer t = Some ps"
proof -
  obtain ps where "doDepacketiseRtcp io (RtpPacketiser_create io bValidate pValidator) buffer = Some ps"
    using bit_stream.RtpPacketiser_create_total [OF assms] by blast
  then show ?thesis by (simp add: depacketiseRtcp_def)
qed

theorem depacketiseRtcp_terminates_witness:
  "\<exists>ps. depacketiseRtcp bitlist_io (RtpPacketiser_create bitlist_io True Rfc3550_validateCompoundRtcpPacket)
     [0x81, 202, 0, 1, 0, 0, 0, 9, 1, 200] 3 = Some ps"
  by (rule depacketiseRtcp_terminates [OF bitlist.bit_stream_axioms])

text \<open>
  The reduced-size validator of RFC 5506 is weaker: it accepts every compound packet that the
  RFC 3550 validator accepts.
\<close>

theorem rfc5506_validator_weaker:
  "Rfc3550_validateCompoundRtcpPacket ps n \<Longrightarrow> Rfc5506_validateCompoundRtcpPacket ps m"
  by (auto simp: Rfc3550_validateCompoundRtcpPacket_def Rfc5506_validateCompoundRtcpPacket_def rtcp_types
      split: if_splits)

theorem rfc5506_validator_weaker_witness:
  "Rfc5506_validateCompoundRtcpPacket [RR (RtcpRr_create 1), BYE (RtcpBye_create 1)] 16"
  by (rule rfc5506_validator_weaker [of _ 16])
    (simp add: Rfc3550_validateCompoundRtcpPacket_def RtcpRr_create_def RtcpBye_create_def addSSRC_def Let_def
      RtcpBye_default_def Bye_recalculateLength_def setLength_def setTypeSpecific_def RtcpPacketBase_new_def
      report_lengths RTP_VERSION_NUMBER_def push_bit_eq_mult)

end
