(* ===== verification/Session_Exchange.thy ===== *)
theory Session_Exchange
  imports Session_Timeouts Rtcp_Compound
begin

text \<open>
  From one session to another: a report generated from the database of a session, written to octets, parsed and
  validated by a peer and entered into the database of the peer.
\<close>

section \<open>Generated reports are well formed\<close>

lemma block_of_ok: "0 \<le> getCumulativeNumberOfPacketsLost (snd (getLostFraction (mem_base m))) \<Longrightarrow> lookupMemberEntryInSessionDb k db = Some m
  \<Longrightarrow> block_ok (block_of db k)"
proof -
  assume p: "0 \<le> getCumulativeNumberOfPacketsLost (snd (getLostFraction (mem_base m)))" and l: "lookupMemberEntryInSessionDb k db = Some m"
  let ?n = "getCumulativeNumberOfPacketsLost (snd (getLostFraction (mem_base m)))"
  have "?n \<le> 0x800000" by (simp add: getCumulativeNumberOfPacketsLost_def Let_def)
  then have n: "nat ?n < 2 ^ 24" by simp
  then have "unat (of_nat (nat ?n) :: u32) = nat ?n" by (intro unat_of_nat_u32) simp
  moreover have "of_int ?n = (of_nat (nat ?n) :: u32)" using p by simp
  ultimately have "unat (of_int ?n :: u32) < 2 ^ 24" using n by (simp only:)
  moreover have "rrb_uiCumulativeNumberOfPacketsLost (block_of db k) = of_int ?n"
    using l by (simp add: block_of_def make_report_block_def split: prod.splits)
  ultimately show ?thesis by (simp only: block_ok_def)
qed

lemma cumulative_after_fraction: "getCumulativeNumberOfPacketsLost (snd (getLostFraction m)) = getCumulativeNumberOfPacketsLost m"
  by (simp add: getCumulativeNumberOfPacketsLost_def getLostFraction_def expected_packets_def Let_def)

lemma rtcp_ok_fold: "rtcp_ok p \<Longrightarrow> list_all block_ok bs \<Longrightarrow> rtcp_ok (foldl (\<lambda>p b. add_report_block b p) p bs)"
proof (induction bs arbitrary: p)
  case (Cons b bs)
  have "rtcp_ok (add_report_block b p)" using Cons.prems by (cases p) (auto intro: sr_ok_add rr_ok_add)
  then show ?case using Cons by simp
qed simp

lemma chunks_all: "list_all P bs \<Longrightarrow> \<forall>c\<in>set (chunks n bs). list_all P c"
proof (induction n bs rule: chunks.induct)
  case (1 n xs)
  have "list_all P (take n xs)" "list_all P (drop n xs)" using 1(2) by (auto simp: list_all_iff dest: in_set_takeD in_set_dropD)
  then show ?case using 1 by (subst chunks.simps) auto
qed

lemma report_packets_ok:
  assumes "\<forall>sr\<in>set srs. sr_ok sr" and "list_all block_ok bs"
  shows "list_all rtcp_ok (report_packets s srs bs)"
proof -
  have rr: "list_all rtcp_ok (map (rr_with s) (chunks 31 bs'))" if "list_all block_ok bs'" for bs'
    using chunks_all [OF that, of 31] by (auto simp: list_all_iff rr_with_def intro!: rtcp_ok_fold)
  have td: "list_all block_ok (take 31 bs)" "list_all block_ok (drop 31 bs)"
    using assms(2) by (auto simp: list_all_iff dest: in_set_takeD in_set_dropD)
  show ?thesis
  proof (cases srs)
    case (Cons sr srs')
    then show ?thesis using assms(1) rr [OF td(2)] td(1)
      by (auto simp: list_all_iff intro!: rtcp_ok_fold)
  qed (use rr [OF assms(2)] in simp)
qed

lemma sdes_packet_ok: "length (si_CName i) \<le> 255 \<Longrightarrow> sdes_ok (sdes_packet s i)"
  unfolding sdes_packet_def Let_def
  by (rule sdes_ok_add [OF sdes_ok_create])
    (simp_all add: info_ok_def sdes_items_def RtcpSdesReportBlock_create_def SdesInformation_new_def RtcpSdes_create_def)

lemma length_chunks: "n = 31 \<Longrightarrow> 31 * length (chunks n bs) \<le> length bs + 30"
proof (induction n bs rule: chunks.induct)
  case (1 n xs)
  have "chunks n (drop n xs) = [] \<or> 31 < length xs" using 1(2) by (cases "31 < length xs") simp_all
  moreover have "xs \<noteq> [] \<Longrightarrow> 0 < length xs" by simp
  ultimately show ?case using 1 by (subst chunks.simps) (auto simp: Suc_le_eq)
qed

lemma cumulative_finaliseRR:
  "member_finaliseRRData t m = Inr m' \<Longrightarrow> getCumulativeNumberOfPacketsLost (mem_base m') = getCumulativeNumberOfPacketsLost (mem_base m)"
  by (cases m) (auto simp: finaliseRRData_def getCumulativeNumberOfPacketsLost_def expected_packets_def Let_def split: if_splits prod.splits sum.splits)

lemma cumulative_finalised:
  assumes "\<And>m'. f (snd e) = Inr m' \<Longrightarrow> getCumulativeNumberOfPacketsLost (mem_base m') = getCumulativeNumberOfPacketsLost (mem_base (snd e))"
  shows "getCumulativeNumberOfPacketsLost (mem_base (snd (finalised P f e))) = getCumulativeNumberOfPacketsLost (mem_base (snd e))"
proof -
  have "getCumulativeNumberOfPacketsLost (newReportingInterval m) = getCumulativeNumberOfPacketsLost m" for m
    by (simp add: getCumulativeNumberOfPacketsLost_def expected_packets_def newReportingInterval_def)
  then show ?thesis using assms by (cases "f (snd e)") (simp_all add: finalised_def)
qed

lemma cumulative_gathered:
  assumes "e' \<in> set (gathered st t ms)"
  shows "\<exists>e\<in>set ms. fst e = fst e' \<and> getCumulativeNumberOfPacketsLost (mem_base (snd e')) = getCumulativeNumberOfPacketsLost (mem_base (snd e))"
proof -
  obtain e where e: "e \<in> set ms" and e': "e' = finalised (\<lambda>k m. \<not> me_bIsSender (mem_base m) \<and> \<not> isOurSSRC st k) (\<lambda>m. Inr (member_finaliseData t m))
      (finalised (\<lambda>k m. me_bIsSender (mem_base m) \<and> \<not> isOurSSRC st k) (member_finaliseRRData t) e)"
    using assms by (auto simp: gathered_def)
  have fd: "mem_base (member_finaliseData t m) = mem_base m" for m by (cases m) (simp_all add: XrMemberEntry_finaliseData_def Let_def)
  have "getCumulativeNumberOfPacketsLost (mem_base (snd e')) = getCumulativeNumberOfPacketsLost (mem_base (snd e))"
    unfolding e' by (subst cumulative_finalised, force simp: fd, rule cumulative_finalised, rule cumulative_finaliseRR)
  then show ?thesis using e by (auto simp: e')
qed

lemma expected_reports_ok:
  assumes "db_ok st par db" and "length (si_CName (sp_sdesInfo par)) \<le> 255"
    and "\<forall>(k, m)\<in>set (db_memberDb db). me_bIsSender (mem_base m) \<and> \<not> isOurSSRC st k \<longrightarrow> 0 \<le> getCumulativeNumberOfPacketsLost (mem_base m)"
  shows "list_all rtcp_ok (expected_reports st par stat t db rc)"
proof -
  let ?db = "begun_interval st t db"
  have "block_ok (block_of ?db k)" if k: "k \<in> set (other_senders st db)" for k
  proof -
    obtain m0 where m0: "(k, m0) \<in> set (db_memberDb db)" "me_bIsSender (mem_base m0)" "\<not> isOurSSRC st k"
      using k by (auto simp: other_senders_def)
    then have "k \<in> fst ` set (db_memberDb ?db)" using db_ok_begun(2) [OF assms(1), of t] by force
    then obtain m where m: "lookupMemberEntryInSessionDb k ?db = Some m" using lookup_in_keys by auto
    then have "(k, m) \<in> set (gathered st t (db_memberDb db))"
      by (auto simp: lookupMemberEntryInSessionDb_def begun_interval_def dest: map_of_SomeD)
    from cumulative_gathered [OF this] obtain m1 where m1: "(k, m1) \<in> set (db_memberDb db)"
      "getCumulativeNumberOfPacketsLost (mem_base m) = getCumulativeNumberOfPacketsLost (mem_base m1)" by auto
    have "m1 = m0" using assms(1) m0(1) m1(1) by (auto simp: db_ok_def dest: eq_key_imp_eq_value)
    then have "0 \<le> getCumulativeNumberOfPacketsLost (mem_base m)" using assms(3) m0 m1(2) by auto
    then show ?thesis using block_of_ok [OF _ m] by (simp add: cumulative_after_fraction)
  qed
  then have "list_all block_ok (map (block_of ?db) (other_senders st db))" by (simp add: list_all_iff)
  moreover have "\<forall>sr\<in>set (fst (generateSenderReports st par stat t rc)). sr_ok sr"
    by (auto simp: generateSenderReports_def Let_def split: prod.splits)
  ultimately have "list_all rtcp_ok (report_packets (ss_uiSSRC st)
      (if db_isSender (ss_uiSSRC st) db then fst (generateSenderReports st par stat t rc) else []) (map (block_of ?db) (other_senders st db)))"
    by (intro report_packets_ok) auto
  then show ?thesis using assms(2)
    by (simp add: expected_reports_def Let_def sdes_packet_ok del: report_packets.simps)
qed

lemma report_packets_length: "length (report_packets s srs bs) \<le> length srs + length bs div 31 + 1"
proof -
  have c: "length (chunks 31 bs) \<le> length bs div 31 + 1" for bs :: "RtcpRrReportBlock list" using length_chunks [of 31 bs] by simp
  show ?thesis
  proof (cases srs)
    case (Cons sr srs')
    have "(length bs - 31) div 31 \<le> length bs div 31" by (rule div_le_mono) simp
    then show ?thesis using Cons c [of "drop 31 bs"] by simp
  qed (use c [of bs] in simp)
qed

lemma expected_reports_length: "length (expected_reports st par stat t db rc) \<le> length (db_memberDb db) div 31 + 4"
proof -
  let ?srs = "if db_isSender (ss_uiSSRC st) db then fst (generateSenderReports st par stat t rc) else []"
  have "length ?srs \<le> 2" by (auto simp: generateSenderReports_def Let_def split: prod.splits)
  moreover have "length (other_senders st db) div 31 \<le> length (db_memberDb db) div 31" by (rule div_le_mono) (simp add: other_senders_def)
  ultimately show ?thesis
    using report_packets_length [of "ss_uiSSRC st" ?srs "map (block_of (begun_interval st t db)) (other_senders st db)"]
    by (simp add: expected_reports_def Let_def del: report_packets.simps)
qed

section \<open>Reports at a peer\<close>

definition has :: "u32 \<Rightarrow> (MemberEntry \<Rightarrow> bool) \<Rightarrow> SessionDatabase \<Rightarrow> bool" where
  "has k P db \<longleftrightarrow> (\<exists>m. lookupMemberEntryInSessionDb k db = Some m \<and> P (mem_base m))"

lemma lookup_update_same: "lookupMemberEntryInSessionDb k (update_member k f db) = map_option f (lookupMemberEntryInSessionDb k db)"
proof -
  have "map_of (map (\<lambda>(a, m). (a, if a = k then f m else m)) ms) k = map_option f (map_of ms k)" for ms by (induction ms) auto
  then show ?thesis by (simp add: lookupMemberEntryInSessionDb_def update_member_def)
qed

lemma has_update: "has k P db \<Longrightarrow> (\<And>m. P m \<Longrightarrow> Q (f m)) \<Longrightarrow> (\<And>m. P m \<Longrightarrow> k \<noteq> k' \<Longrightarrow> Q m) \<Longrightarrow> has k Q (update_member k' (mem_map f) db)"
  by (cases "k = k'") (auto simp: has_def lookup_update_same lookup_update_other)

lemma has_insert: "has k P db \<Longrightarrow> has k P (insertSSRCIfNotInSessionDb st par t k' db)"
  by (auto simp: has_def insertSSRCIfNotInSessionDb_def Let_def lookupMemberEntryInSessionDb_def map_add_def)

lemma has_inserted:
  assumes "\<And>m. lookupMemberEntryInSessionDb k db = Some m \<Longrightarrow> \<not> me_bInactive (mem_base m)"
  shows "has k (\<lambda>m. \<not> me_bInactive m) (insertSSRCIfNotInSessionDb st par t k db)"
proof (cases "lookupMemberEntryInSessionDb k db")
  case None
  then show ?thesis
    by (auto simp: has_def insertSSRCIfNotInSessionDb_def Let_def lookupMemberEntryInSessionDb_def map_add_def createMemberEntry_def
        addLocalSSRC_def disableDetailedLossDetection_def MemberEntry_create_def XrMemberEntry_create_def)
qed (use assms in \<open>simp add: has_def insertSSRCIfNotInSessionDb_def\<close>)

lemma report_block_flags:
  "me_bInactive (snd (processReceiverReportBlock t b m)) = me_bInactive m"
  "me_bIsRtcpSynchronised (snd (processReceiverReportBlock t b m)) = me_bIsRtcpSynchronised m"
  "me_bIsSender (snd (processReceiverReportBlock t b m)) = me_bIsSender m"
  by (auto simp: processReceiverReportBlock_def Let_def)

lemmas report_blocks_flags = fold_report_blocks [of me_bInactive, OF report_block_flags(1)]
  fold_report_blocks [of me_bIsRtcpSynchronised, OF report_block_flags(2)] fold_report_blocks [of me_bIsSender, OF report_block_flags(3)]

lemma report_flags [simp]:
  "me_bInactive (snd (onSrReceived t sr m)) = me_bInactive m" "me_bInactive (snd (onRrReceived t rr m)) = me_bInactive m"
  "me_bIsRtcpSynchronised (snd (onSrReceived t sr m))" "me_bIsRtcpSynchronised (snd (onRrReceived t rr m)) = me_bIsRtcpSynchronised m"
  "me_bIsSender (snd (onSrReceived t sr m))" "me_bIsSender (snd (onRrReceived t rr m)) = me_bIsSender m"
  by (simp_all add: onSrReceived_def onRrReceived_def Let_def report_blocks_flags onReceiveRtcpPacket_def)

text \<open>A member that is active, and synchronised and a sender if \<open>b\<close>.\<close>

definition alive :: "bool \<Rightarrow> MemberEntry \<Rightarrow> bool" where
  "alive b m \<longleftrightarrow> \<not> me_bInactive m \<and> (b \<longrightarrow> me_bIsRtcpSynchronised m \<and> me_bIsSender m)"

fun reporter :: "rtcp_packet \<Rightarrow> u32" where
  "reporter (SR p) = sr_uiSSRC p"
| "reporter (RR p) = rr_uiReporterSSRC p"
| "reporter p = 0"

fun is_sr :: "rtcp_packet \<Rightarrow> bool" where
  "is_sr (SR p) = True"
| "is_sr p = False"

fun is_report :: "rtcp_packet \<Rightarrow> bool" where
  "is_report (SR p) = True"
| "is_report (RR p) = True"
| "is_report p = False"

lemma snd_with_member: "snd (with_member k f db) = (if lookupMemberEntryInSessionDb k db = None then db else update_member k (mem_map (\<lambda>m. snd (f m))) db)"
  by (simp add: with_member_def split: option.splits)

lemma has_with_member: "has k P db \<Longrightarrow> (\<And>m. P m \<Longrightarrow> Q (snd (f m))) \<Longrightarrow> (\<And>m. P m \<Longrightarrow> k \<noteq> k' \<Longrightarrow> Q m) \<Longrightarrow> has k Q (snd (with_member k' f db))"
  by (cases "k = k'") (auto simp: snd_with_member has_def lookup_update_same lookup_update_other)

lemma report_keeps_alive:
  "is_report p \<Longrightarrow> has k (alive b) db \<Longrightarrow> has k (alive b) (snd (doProcessIncomingRtcpPacket io st par t (Standard p) db))"
  by (cases p) (auto simp: processSenderReport_def processReceiverReport_def alive_def intro!: has_with_member [OF has_insert])

lemma first_report:
  assumes "is_report p" and "\<And>m. lookupMemberEntryInSessionDb (reporter p) db = Some m \<Longrightarrow> \<not> me_bInactive (mem_base m)"
  shows "has (reporter p) (alive (is_sr p)) (snd (doProcessIncomingRtcpPacket io st par t (Standard p) db))"
  using assms
  by (cases p) (auto simp: processSenderReport_def processReceiverReport_def alive_def intro!: has_with_member [OF has_inserted])

lemma sdes_validates:
  assumes "has k (alive b) db" and "si_CName info \<noteq> []"
  shows "has k (\<lambda>m. alive b m \<and> isValid m \<and> si_CName (me_sdesInfo m) = si_CName info)
    (snd (doProcessIncomingRtcpPacket io st par t (Standard (SDES (sdes_packet k info))) db))"
proof -
  obtain x where x: "sd_vReports (sdes_packet k info) = [x]" "sb_uiSSRC_CSRC1 x = k" "si_CName (sb_info x) = si_CName info"
    by (simp add: sdes_packet_def Let_def addSdesReport_def RtcpSdes_create_def RtcpSdesReportBlock_create_def)
  have "has k (\<lambda>m. alive b m \<and> isValid m \<and> si_CName (me_sdesInfo m) = si_CName info) (update_member k (mem_map (updateSdesInfo (sb_info x))) db)"
    using assms(2) x(3) by (intro has_update [OF assms(1)]) (auto simp: alive_def isValid_def updateSdesInfo_def Let_def)
  then show ?thesis by (simp add: processSdesReportBlocks_def x)
qed

lemma reports_fold:
  assumes "list_all is_report qs" and "has k (alive b) db"
  shows "has k (alive b) (fold (\<lambda>p db. snd (doProcessIncomingRtcpPacket io st par t (Standard p) db)) qs db)"
  using assms by (induction qs arbitrary: db) (simp_all add: report_keeps_alive)

lemma compound_fold:
  "\<exists>a. snd (processIncomingRtcpPacket io st par t ps db)
     = (fold (\<lambda>p db. snd (doProcessIncomingRtcpPacket io st par t p db)) ps db)\<lparr>db_avg_rtcp_size := a\<rparr>"
proof -
  have "snd (fold (\<lambda>p (us, db). case doProcessIncomingRtcpPacket io st par t p db of (us', db') \<Rightarrow> (us @ us', db')) ps (us, db))
      = fold (\<lambda>p db. snd (doProcessIncomingRtcpPacket io st par t p db)) ps db" for us
    by (induction ps arbitrary: us db) (auto split: prod.splits)
  from this [of "[]"] show ?thesis unfolding processIncomingRtcpPacket_def by (auto split: prod.splits)
qed

section \<open>The exchange\<close>

lemma fold_add_kind:
  "is_report p \<Longrightarrow> is_report (foldl (\<lambda>p b. add_report_block b p) p bs) \<and> reporter (foldl (\<lambda>p b. add_report_block b p) p bs) = reporter p
     \<and> is_sr (foldl (\<lambda>p b. add_report_block b p) p bs) = is_sr p"
proof (induction bs arbitrary: p)
  case (Cons b bs)
  have "is_report (add_report_block b p) \<and> reporter (add_report_block b p) = reporter p \<and> is_sr (add_report_block b p) = is_sr p"
    using Cons.prems by (cases p) (auto simp: RtcpSr_addReportBlock_def RtcpRr_addReportBlock_def Let_def)
  then show ?case using Cons.IH [of "add_report_block b p"] by simp
qed simp

lemma rr_with_kind: "is_report (rr_with s bs)" "reporter (rr_with s bs) = s" "\<not> is_sr (rr_with s bs)"
  using fold_add_kind [of "RR (RtcpRr_create s)" bs] by (simp_all add: rr_with_def RtcpRr_create_def)

lemma expected_reports_shape:
  obtains p qs where "expected_reports st par stat t db rc = p # qs @ [SDES (sdes_packet (ss_uiSSRC st) (sp_sdesInfo par))]"
    and "is_report p" and "reporter p = ss_uiSSRC st" and "list_all is_report qs" and "is_sr p = db_isSender (ss_uiSSRC st) db"
proof (cases "db_isSender (ss_uiSSRC st) db")
  case True
  obtain sr srs where srs: "fst (generateSenderReports st par stat t rc) = sr # srs" and sr: "sr_uiSSRC sr = ss_uiSSRC st"
    by (cases "getRtpAndNtpTimestamps t (sp_uiRtpTimestampFrequency par) (ss_uiRtpTimestampBase st) rc")
      (auto simp: generateSenderReports_def Let_def RtcpSr_create_def)
  let ?bs = "map (block_of (begun_interval st t db)) (other_senders st db)"
  let ?p = "foldl (\<lambda>p b. add_report_block b p) (SR sr) (take 31 ?bs)"
  let ?qs = "map SR srs @ map (rr_with (ss_uiSSRC st)) (chunks 31 (drop 31 ?bs))"
  have "expected_reports st par stat t db rc = ?p # ?qs @ [SDES (sdes_packet (ss_uiSSRC st) (sp_sdesInfo par))]"
    using True srs by (simp add: expected_reports_def)
  moreover have "list_all is_report ?qs" by (auto simp: list_all_iff rr_with_kind)
  ultimately show thesis using that fold_add_kind [of "SR sr" "take 31 ?bs"] sr True by simp
next
  case False
  let ?cs = "chunks 31 (map (block_of (begun_interval st t db)) (other_senders st db))"
  obtain c cs where c: "(if ?cs = [] then [[]] else ?cs) = c # cs" by (cases ?cs) auto
  have "expected_reports st par stat t db rc = rr_with (ss_uiSSRC st) c # map (rr_with (ss_uiSSRC st)) cs @ [SDES (sdes_packet (ss_uiSSRC st) (sp_sdesInfo par))]"
    using False c by (cases ?cs) (auto simp: expected_reports_def rr_with_def)
  moreover have "list_all is_report (map (rr_with (ss_uiSSRC st)) cs)" by (auto simp: list_all_iff rr_with_kind)
  ultimately show thesis using that rr_with_kind [of "ss_uiSSRC st" c] False by simp
qed

lemma stamped_kind [simp]:
  "is_report (rtcp_map_base f p) = is_report p" "reporter (rtcp_map_base f p) = reporter p" "is_sr (rtcp_map_base f p) = is_sr p"
  by (cases p; simp)+

lemma stamped_sdes: "doProcessIncomingRtcpPacket io st par t (Standard (rtcp_map_base f (SDES x))) db = doProcessIncomingRtcpPacket io st par t (Standard (SDES x)) db"
  by simp

lemma no_extended_reports:
  assumes "db_ok st par db" and "sp_mXr par = []"
  shows "\<exists>db' rc'. generateCompoundRtcpPacket io st par stat t False False db rc = Inr (map Standard (expected_reports st par stat t db rc), db', rc')"
proof -
  have "createAdditionalReports io st par t rd db' = Inr []" for rd db'
    using assms(2) by (simp add: createAdditionalReports_def isXrEnabled_def split: prod.splits)
  moreover obtain vR where g: "gatherRTCPReportDataAndBeginNewInterval st t db
      = Inr ((db_isSender (ss_uiSSRC st) db, other_senders st db, vR), begun_interval st t db)"
    and vR: "set vR \<subseteq> fst ` set (db_memberDb db)"
    using gather_result [OF assms(1), of t] by (auto simp: other_senders_def begun_interval_def)
  have "distinct (other_senders st db)" using assms(1) by (simp add: other_senders_def db_ok_def distinct_map_filter)
  moreover have "set (other_senders st db) \<subseteq> fst ` set (db_memberDb db)" by (auto simp: other_senders_def)
  ultimately show ?thesis
    using periodic_result [OF db_ok_begun(1) [OF assms(1), of t], of "other_senders st db" vR io stat t "db_isSender (ss_uiSSRC st) db" False rc]
      vR db_ok_begun(2) [OF assms(1), of t] g
    by (auto simp: generateCompoundRtcpPacket_def expected_reports_def Let_def simp del: report_packets.simps)
qed

lemma has_average: "has k P (db\<lparr>db_avg_rtcp_size := a\<rparr>) = has k P db"
  by (simp add: has_def lookupMemberEntryInSessionDb_def)

lemma reports_processed:
  assumes "is_report p" and "list_all is_report qs" and "si_CName info \<noteq> []"
    and "\<And>m. lookupMemberEntryInSessionDb (reporter p) db = Some m \<Longrightarrow> \<not> me_bInactive (mem_base m)"
  shows "has (reporter p) (\<lambda>m. alive (is_sr p) m \<and> isValid m \<and> si_CName (me_sdesInfo m) = si_CName info)
    (snd (processIncomingRtcpPacket io st par t
      (map Standard (map (rtcp_map_base f) (p # qs @ [SDES (sdes_packet (reporter p) info)]))) db))"
proof -
  let ?do = "\<lambda>p db. snd (doProcessIncomingRtcpPacket io st par t (Standard p) db)"
  let ?ps = "map (rtcp_map_base f) (p # qs @ [SDES (sdes_packet (reporter p) info)])"
  have "has (reporter p) (alive (is_sr p)) (?do (rtcp_map_base f p) db)"
    using first_report [of "rtcp_map_base f p" db io st par t] assms(1,4) by simp
  then have "has (reporter p) (alive (is_sr p)) (fold ?do (map (rtcp_map_base f) qs) (?do (rtcp_map_base f p) db))"
    using assms(2) by (intro reports_fold) (auto simp: list_all_iff)
  from sdes_validates [OF this assms(3), of io st par t]
  have h: "has (reporter p) (\<lambda>m. alive (is_sr p) m \<and> isValid m \<and> si_CName (me_sdesInfo m) = si_CName info) (fold ?do ?ps db)"
    by (simp add: stamped_sdes del: doProcessIncomingRtcpPacket.simps rtcp_map_base.simps)
  have "fold (\<lambda>p db. snd (doProcessIncomingRtcpPacket io st par t p db)) (map Standard ?ps) db = fold ?do ?ps db"
    by (simp only: fold_map comp_def)
  then obtain a where "snd (processIncomingRtcpPacket io st par t (map Standard ?ps) db) = (fold ?do ?ps db)\<lparr>db_avg_rtcp_size := a\<rparr>"
    using compound_fold [of io st par t "map Standard ?ps" db] by auto
  then show ?thesis using h by (simp only: has_average)
qed

text \<open>
  C9: A report reaches the peer. In every session without extended reports, with a name of 1 to 255 octets, at
  most 30000 members and no sender with more packets received than expected, the periodic report can be
  generated; written to octets it is parsed and accepted by the packetiser of the peer; and once the peer
  has processed it, the reporter is a valid member with that name, and, if it sent data, a
  synchronised sender, unless it had said BYE before.
\<close>

theorem report_reaches_peer:
  assumes "bit_stream io obits ibits" and "session_reachable io par (st, db)" and "sp_mXr par = []"
    and "si_CName (sp_sdesInfo par) \<noteq> []" and "length (si_CName (sp_sdesInfo par)) \<le> 255" and "length (db_memberDb db) \<le> 30000"
    and "\<forall>(k, m)\<in>set (db_memberDb db). me_bIsSender (mem_base m) \<and> \<not> isOurSSRC st k \<longrightarrow> 0 \<le> getCumulativeNumberOfPacketsLost (mem_base m)"
    and "\<forall>m. lookupMemberEntryInSessionDb (ss_uiSSRC st) peerDb = Some m \<longrightarrow> \<not> me_bInactive (mem_base m)"
  shows "\<exists>ps db' rc' qs m. generateCompoundRtcpPacket io st par stat t False False db rc = Inr (map Standard ps, db', rc')
    \<and> depacketiseRtcp io (RtpPacketiser_create io bValidate Rfc3550_validateCompoundRtcpPacket) (packetise_rtcp io ps) tNtp = Some qs
    \<and> lookupMemberEntryInSessionDb (ss_uiSSRC st) (snd (processIncomingRtcpPacket io peer peerPar t' (map Standard qs) peerDb)) = Some m
    \<and> isValid (mem_base m) \<and> si_CName (me_sdesInfo (mem_base m)) = si_CName (sp_sdesInfo par)
    \<and> (db_isSender (ss_uiSSRC st) db \<longrightarrow> me_bIsRtcpSynchronised (mem_base m) \<and> me_bIsSender (mem_base m))"
proof -
  have ok: "db_ok st par db" using session_ok [OF assms(2)] by simp
  let ?ps = "expected_reports st par stat t db rc"
  obtain p qs where ps: "?ps = p # qs @ [SDES (sdes_packet (ss_uiSSRC st) (sp_sdesInfo par))]" and p: "is_report p" "reporter p = ss_uiSSRC st"
    "list_all is_report qs" "is_sr p = db_isSender (ss_uiSSRC st) db" by (rule expected_reports_shape)
  have kinds: "is_report q \<or> (\<exists>x. q = SDES x)" if "q \<in> set ?ps" for q using that ps p by (auto simp: list_all_iff)
  have "depacketiseRtcp io (RtpPacketiser_create io bValidate Rfc3550_validateCompoundRtcpPacket) (packetise_rtcp io ?ps) tNtp
      = Some (map (rtcp_map_base (setArrivalTimeNtp tNtp)) ?ps)"
  proof (rule compound_parsed [OF assms(1) expected_reports_ok [OF ok assms(5,7)]])
    show "2 \<le> length ?ps" by (simp add: ps)
    have "length (db_memberDb db) div 31 \<le> 30000 div 31" using assms(6) by (rule div_le_mono)
    then show "length ?ps \<le> 1000" using expected_reports_length [of st par stat t db rc] by simp
    show "sender_or_receiver_report (hd ?ps)" using p(1) by (cases p) (simp_all add: ps sender_or_receiver_report_def)
    show "\<forall>p\<in>set ?ps. \<forall>q. p \<noteq> APP q" "\<forall>p\<in>set (butlast ?ps). \<forall>q. p \<noteq> BYE q"
      using kinds by (force dest: in_set_butlastD)+
  qed
  moreover have "has (ss_uiSSRC st) (\<lambda>m. alive (db_isSender (ss_uiSSRC st) db) m \<and> isValid m \<and> si_CName (me_sdesInfo m) = si_CName (sp_sdesInfo par))
      (snd (processIncomingRtcpPacket io peer peerPar t' (map Standard (map (rtcp_map_base (setArrivalTimeNtp tNtp)) ?ps)) peerDb))"
    using reports_processed [OF p(1,3) assms(4), of peerDb io peer peerPar t' "setArrivalTimeNtp tNtp"] assms(8) p(2,4) unfolding ps by simp
  moreover obtain db' rc' where "generateCompoundRtcpPacket io st par stat t False False db rc = Inr (map Standard ?ps, db', rc')"
    using no_extended_reports [OF ok assms(3)] by blast
  ultimately show ?thesis unfolding has_def alive_def by blast
qed

definition peer_state :: RtpSessionState where
  "peer_state = RtpSessionState_create (55, 1, 2, 3) 0 96 0 False 0"

lemma sample_own: "isOurSSRC sample_state 7"
  by (simp add: isOurSSRC_def sample_state_def RtpSessionState_create_def)

lemma sample_members: "map fst (db_memberDb sample_database) = [7]" and peer_members: "lookupMemberEntryInSessionDb 7 (SessionDatabase_create peer_state sample_parameters 0) = None"
  by code_simp+

theorem report_reaches_peer_witness:
  "\<exists>ps db' rc' qs m. generateCompoundRtcpPacket bitlist_io sample_state sample_parameters ChannelStatistics_new 5 False False
       sample_database (RtpReferenceClock_new RC_WALL_CLOCK_TIME) = Inr (map Standard ps, db', rc')
    \<and> depacketiseRtcp bitlist_io (RtpPacketiser_create bitlist_io True Rfc3550_validateCompoundRtcpPacket) (packetise_rtcp bitlist_io ps) 9 = Some qs
    \<and> lookupMemberEntryInSessionDb 7 (snd (processIncomingRtcpPacket bitlist_io peer_state sample_parameters 6 (map Standard qs)
         (SessionDatabase_create peer_state sample_parameters 0))) = Some m
    \<and> isValid (mem_base m) \<and> si_CName (me_sdesInfo (mem_base m)) = [97, 64, 98]"
proof -
  have ssrc: "ss_uiSSRC sample_state = 7" by (simp add: sample_state_def RtpSessionState_create_def)
  have name: "si_CName (sp_sdesInfo sample_parameters) = [97, 64, 98]" "sp_mXr sample_parameters = []" by (simp_all add: sample_parameters_def)
  obtain m0 where m0: "db_memberDb sample_database = [(7, m0)]" using sample_members by (cases "db_memberDb sample_database") auto
  show ?thesis
    using sample_own report_reaches_peer [OF bitlist.bit_stream_axioms session_reachable.start [of bitlist_io sample_parameters sample_state 0, folded sample_database_def],
        of "SessionDatabase_create peer_state sample_parameters 0" ChannelStatistics_new 5 "RtpReferenceClock_new RC_WALL_CLOCK_TIME" True 9
          peer_state sample_parameters 6]
    unfolding ssrc name by (simp add: m0 peer_members) blast
qed

end
