(* ===== verification/Rtcp_Feedback.thy ===== *)
theory Rtcp_Feedback
  imports Rtcp_Xr
begin

text \<open>
  Feedback packets of RFC 4585 (\<open>rfc4585/RtcpFb.h\<close>, \<open>rfc4585/RtcpFb.cpp\<close>, \<open>rfc4585/Rfc4585RtcpParser.h\<close>) and the
  experimental acknowledgement (\<open>experimental/RtcpGenericAck.h\<close>): negative acknowledgements of sequence numbers,
  the same per flow, positive acknowledgements, and application data. The vectors of base numbers and of
  masks grow together; they are one list of pairs here, on which the assertions that they have the same
  size hold.
\<close>

unbundle bit_operations_syntax

section \<open>Common part\<close>

definition PT_RTCP_GENERIC_FEEDBACK :: u8 where "PT_RTCP_GENERIC_FEEDBACK = 205"

definition PT_RTCP_PAYLOAD_SPECIFIC :: u8 where "PT_RTCP_PAYLOAD_SPECIFIC = 206"

definition TL_FB_GENERIC_NACK :: u8 where "TL_FB_GENERIC_NACK = 1"

definition TL_FB_EXTENDED_NACK :: u8 where "TL_FB_EXTENDED_NACK = 10"

definition TL_FB_GENERIC_ACK :: u8 where "TL_FB_GENERIC_ACK = 11"

definition FMT_APPLICATION_LAYER_FEEDBACK :: u8 where "FMT_APPLICATION_LAYER_FEEDBACK = 15"

definition BASIC_FB_LENGTH :: nat where "BASIC_FB_LENGTH = 2"

record RtcpFb =
  fb_base :: RtcpPacketBase
  fb_uiSenderSSRC :: u32
  fb_uiSourceSSRC :: u32

definition RtcpFb_create :: "u8 \<Rightarrow> u8 \<Rightarrow> u32 \<Rightarrow> u32 \<Rightarrow> RtcpFb" where
  "RtcpFb_create uiFmt uiPt uiSenderSSRC uiSourceSSRC =
     \<lparr>fb_base = RtcpPacketBase_raw 2 False uiFmt uiPt 0, fb_uiSenderSSRC = uiSenderSSRC, fb_uiSourceSSRC = uiSourceSSRC\<rparr>"

text \<open>The constructor for packets that are read leaves both sources uninitialised.\<close>

definition RtcpFb_raw :: "('i, 'o) bit_io \<Rightarrow> u8 \<Rightarrow> bool \<Rightarrow> u8 \<Rightarrow> u8 \<Rightarrow> u16 \<Rightarrow> RtcpFb" where
  "RtcpFb_raw io uiVersion uiPadding uiTypeSpecific uiPayloadType uiLengthInWords =
     \<lparr>fb_base = RtcpPacketBase_raw uiVersion uiPadding uiTypeSpecific uiPayloadType uiLengthInWords,
      fb_uiSenderSSRC = uninit32 io, fb_uiSourceSSRC = uninit32 io\<rparr>"

definition fb_setLength :: "nat \<Rightarrow> RtcpFb \<Rightarrow> RtcpFb" where
  "fb_setLength n p = p\<lparr>fb_base := setLength n (fb_base p)\<rparr>"

definition fb_length :: "RtcpFb \<Rightarrow> nat" where
  "fb_length p = unat (rb_uiLength (fb_base p))"

definition RtcpFb_writeTypeSpecific :: "('i, 'o) bit_io \<Rightarrow> RtcpFb \<Rightarrow> ('o \<Rightarrow> 'o) \<Rightarrow> 'o \<Rightarrow> 'o" where
  "RtcpFb_writeTypeSpecific io p writeFeedbackControlInformation ob =
     writeFeedbackControlInformation (writes io [(unat (fb_uiSenderSSRC p), 32), (unat (fb_uiSourceSSRC p), 32)] ob)"

definition RtcpFb_readTypeSpecific :: "('i, 'o) bit_io \<Rightarrow> RtcpFb \<Rightarrow> 'i \<Rightarrow> RtcpFb \<times> 'i" where
  "RtcpFb_readTypeSpecific io p ib =
     (case reads io [(unat (fb_uiSenderSSRC p), 32), (unat (fb_uiSourceSSRC p), 32)] ib of (v, ib1) \<Rightarrow>
        (p\<lparr>fb_uiSenderSSRC := of_nat (v ! 0), fb_uiSourceSSRC := of_nat (v ! 1)\<rparr>, ib1))"

section \<open>Groups of sequence numbers\<close>

text \<open>A base number and a mask over the 16 numbers after it; the comparison is on promoted integers.\<close>

type_synonym sn_group = "u16 \<times> u16"

fun getNackIndex :: "u16 \<Rightarrow> sn_group list \<Rightarrow> nat option" where
  "getNackIndex uiSN [] = None"
| "getNackIndex uiSN ((uiBase, uiMask) # gs) =
     (if uiBase \<le> uiSN \<and> unat uiSN \<le> unat uiBase + 16 then Some 0 else map_option Suc (getNackIndex uiSN gs))"

definition nack_group_add :: "u16 \<Rightarrow> sn_group list \<Rightarrow> sn_group list" where
  "nack_group_add uiSN gs =
     (case getNackIndex uiSN gs of
        Some i \<Rightarrow> (case gs ! i of (uiBase, uiMask) \<Rightarrow>
                     gs[i := (uiBase, uiMask OR push_bit (16 - unat (uiSN - uiBase)) 1)])
      | None \<Rightarrow> gs @ [(uiSN, 0)])"

definition nack_numbers :: "sn_group \<Rightarrow> u16 list" where
  "nack_numbers g = (case g of (uiBase, uiMask) \<Rightarrow>
     uiBase # map (\<lambda>j. uiBase + of_nat (16 - j)) (filter (bit uiMask) (rev [0..<16])))"

definition group_fields :: "sn_group \<Rightarrow> (nat \<times> nat) list" where
  "group_fields g = [(unat (fst g), 16), (unat (snd g), 16)]"

definition write_groups :: "('i, 'o) bit_io \<Rightarrow> sn_group list \<Rightarrow> 'o \<Rightarrow> 'o" where
  "write_groups io gs ob = foldl (\<lambda>ob g. writes io (group_fields g) ob) ob gs"

text \<open>The variables of the loop keep the values of the group before when the stream ends.\<close>

fun read_groups :: "('i, 'o) bit_io \<Rightarrow> nat \<Rightarrow> sn_group \<Rightarrow> 'i \<Rightarrow> sn_group list \<times> 'i" where
  "read_groups io 0 old ib = ([], ib)"
| "read_groups io (Suc n) old ib =
     (case reads io (group_fields old) ib of (v, ib1) \<Rightarrow>
      let g = (of_nat (v ! 0), of_nat (v ! 1))
      in case read_groups io n g ib1 of (gs, ib2) \<Rightarrow> (g # gs, ib2))"

section \<open>Negative acknowledgements\<close>

record RtcpGenericNack =
  gn_fb :: RtcpFb
  gn_vNacks :: "u16 list"
  gn_groups :: "sn_group list"

definition RtcpGenericNack_new :: "u32 \<Rightarrow> u32 \<Rightarrow> RtcpGenericNack" where
  "RtcpGenericNack_new uiSenderSSRC uiSourceSSRC =
     \<lparr>gn_fb = RtcpFb_create TL_FB_GENERIC_NACK PT_RTCP_GENERIC_FEEDBACK uiSenderSSRC uiSourceSSRC, gn_vNacks = [], gn_groups = []\<rparr>"

definition RtcpGenericNack_default :: RtcpGenericNack where
  "RtcpGenericNack_default = (let p = RtcpGenericNack_new 0 0 in p\<lparr>gn_fb := fb_setLength BASIC_FB_LENGTH (gn_fb p)\<rparr>)"

definition RtcpGenericNack_addNack :: "u16 \<Rightarrow> RtcpGenericNack \<Rightarrow> RtcpGenericNack" where
  "RtcpGenericNack_addNack uiSN p =
     (let gs = nack_group_add uiSN (gn_groups p)
      in p\<lparr>gn_vNacks := gn_vNacks p @ [uiSN], gn_groups := gs, gn_fb := fb_setLength (BASIC_FB_LENGTH + length gs) (gn_fb p)\<rparr>)"

definition RtcpGenericNack_addNacks :: "u16 list \<Rightarrow> RtcpGenericNack \<Rightarrow> RtcpGenericNack" where
  "RtcpGenericNack_addNacks vNacks p = fold RtcpGenericNack_addNack vNacks p"

definition RtcpGenericNack_create :: "u16 list \<Rightarrow> u32 \<Rightarrow> u32 \<Rightarrow> RtcpGenericNack" where
  "RtcpGenericNack_create vSNs uiSenderSSRC uiSourceSSRC = RtcpGenericNack_addNacks vSNs (RtcpGenericNack_new uiSenderSSRC uiSourceSSRC)"

definition RtcpGenericNack_create32 :: "u32 list \<Rightarrow> u32 \<Rightarrow> u32 \<Rightarrow> RtcpGenericNack" where
  "RtcpGenericNack_create32 vSNs uiSenderSSRC uiSourceSSRC = RtcpGenericNack_create (map ucast vSNs) uiSenderSSRC uiSourceSSRC"

definition RtcpGenericNack_raw :: "('i, 'o) bit_io \<Rightarrow> u8 \<Rightarrow> bool \<Rightarrow> u16 \<Rightarrow> RtcpGenericNack" where
  "RtcpGenericNack_raw io uiVersion uiPadding uiLengthInWords =
     \<lparr>gn_fb = RtcpFb_raw io uiVersion uiPadding TL_FB_GENERIC_NACK PT_RTCP_GENERIC_FEEDBACK uiLengthInWords, gn_vNacks = [], gn_groups = []\<rparr>"

definition RtcpGenericNack_write :: "('i, 'o) bit_io \<Rightarrow> RtcpGenericNack \<Rightarrow> 'o \<Rightarrow> 'o" where
  "RtcpGenericNack_write io p ob = RtcpFb_writeTypeSpecific io (gn_fb p) (write_groups io (gn_groups p)) ob"

definition RtcpGenericNack_read :: "('i, 'o) bit_io \<Rightarrow> RtcpGenericNack \<Rightarrow> 'i \<Rightarrow> fault + (RtcpGenericNack \<times> 'i)" where
  "RtcpGenericNack_read io p ib =
     (case RtcpFb_readTypeSpecific io (gn_fb p) ib of (fb, ib1) \<Rightarrow>
      if fb_length fb < 2 then Inl Assertion_failed
      else case read_groups io (fb_length fb - 2) (0, 0) ib1 of (gs, ib2) \<Rightarrow>
        let gs1 = gn_groups p @ gs
        in Inr (p\<lparr>gn_fb := fb_setLength (BASIC_FB_LENGTH + length gs1) fb, gn_groups := gs1,
                  gn_vNacks := gn_vNacks p @ concat (map nack_numbers gs)\<rparr>, ib2))"

section \<open>Negative acknowledgements per flow\<close>

record RtcpExtendedNack =
  xn_fb :: RtcpFb
  xn_uiFlowId :: u16
  xn_vNacks :: "u16 list"
  xn_groups :: "sn_group list"

definition RtcpExtendedNack_addNack :: "u16 \<Rightarrow> RtcpExtendedNack \<Rightarrow> RtcpExtendedNack" where
  "RtcpExtendedNack_addNack uiSN p =
     (let gs = nack_group_add uiSN (xn_groups p)
      in p\<lparr>xn_vNacks := xn_vNacks p @ [uiSN], xn_groups := gs, xn_fb := fb_setLength (BASIC_FB_LENGTH + (length gs + 1)) (xn_fb p)\<rparr>)"

definition RtcpExtendedNack_create :: "u16 \<Rightarrow> u16 list \<Rightarrow> u32 \<Rightarrow> u32 \<Rightarrow> RtcpExtendedNack" where
  "RtcpExtendedNack_create uiFlowId vSNs uiSenderSSRC uiSourceSSRC =
     fold RtcpExtendedNack_addNack vSNs
       \<lparr>xn_fb = RtcpFb_create TL_FB_EXTENDED_NACK PT_RTCP_GENERIC_FEEDBACK uiSenderSSRC uiSourceSSRC, xn_uiFlowId = uiFlowId,
        xn_vNacks = [], xn_groups = []\<rparr>"

definition RtcpExtendedNack_raw :: "('i, 'o) bit_io \<Rightarrow> u8 \<Rightarrow> bool \<Rightarrow> u16 \<Rightarrow> RtcpExtendedNack" where
  "RtcpExtendedNack_raw io uiVersion uiPadding uiLengthInWords =
     \<lparr>xn_fb = RtcpFb_raw io uiVersion uiPadding TL_FB_EXTENDED_NACK PT_RTCP_GENERIC_FEEDBACK uiLengthInWords, xn_uiFlowId = 0,
      xn_vNacks = [], xn_groups = []\<rparr>"

definition RtcpExtendedNack_write :: "('i, 'o) bit_io \<Rightarrow> RtcpExtendedNack \<Rightarrow> 'o \<Rightarrow> 'o" where
  "RtcpExtendedNack_write io p ob =
     RtcpFb_writeTypeSpecific io (xn_fb p)
       (\<lambda>ob. ob_write io (write_groups io (xn_groups p) (ob_write io ob (unat (xn_uiFlowId p)) 16)) 0 16) ob"

text \<open>
  The count is an unsigned difference: a length of 2 gives \<open>2\<^sup>32 - 1\<close> rounds. The two octets at the end are read into an
  uninitialised variable and must be zero.
\<close>

definition RtcpExtendedNack_read :: "('i, 'o) bit_io \<Rightarrow> RtcpExtendedNack \<Rightarrow> 'i \<Rightarrow> fault + (RtcpExtendedNack \<times> 'i)" where
  "RtcpExtendedNack_read io p ib =
     (case RtcpFb_readTypeSpecific io (xn_fb p) ib of (fb, ib1) \<Rightarrow>
      if fb_length fb < 2 then Inl Assertion_failed
      else case ib_read io ib1 (unat (xn_uiFlowId p)) 16 of (_, uiFlowId, ib2) \<Rightarrow>
        let uiCount = unat (of_nat (fb_length fb) - 2 - 1 :: u32)
        in case read_groups io uiCount (0, 0) ib2 of (gs, ib3) \<Rightarrow>
           case ib_read io ib3 (unat (uninit32 io) mod 2 ^ 16) 16 of (_, dummy, ib4) \<Rightarrow>
             if dummy \<noteq> 0 then Inl Assertion_failed
             else let gs1 = xn_groups p @ gs
                  in Inr (p\<lparr>xn_fb := fb_setLength (BASIC_FB_LENGTH + (length gs1 + 1)) fb, xn_uiFlowId := of_nat uiFlowId,
                            xn_groups := gs1, xn_vNacks := xn_vNacks p @ concat (map nack_numbers gs)\<rparr>, ib4))"

section \<open>Positive acknowledgements\<close>

record RtcpGenericAck =
  ga_fb :: RtcpFb
  ga_vAcks :: "u16 list"
  ga_groups :: "sn_group list"

text \<open>
  The mask counts downwards from the highest number of a group. The bit of the base itself would be
  \<open>0x01 << -1\<close>, which the language does not define; its value, cut to 16 bits, is an argument.
\<close>

definition ack_bit :: "u16 \<Rightarrow> u16 \<Rightarrow> u16" where
  "ack_bit uUndefined uiDiff = (if uiDiff = 0 then uUndefined else push_bit (unat uiDiff - 1) 1)"

fun setMasks_loop :: "u16 \<Rightarrow> u16 \<Rightarrow> sn_group list \<Rightarrow> u16 list \<Rightarrow> sn_group list" where
  "setMasks_loop uUndefined uiLast gs [] = gs"
| "setMasks_loop uUndefined uiLast gs (a # as) =
     (let uiDiff = uiLast - a
      in if uiDiff > 16 then setMasks_loop uUndefined a (gs @ [(a, 0)]) as
         else setMasks_loop uUndefined uiLast
                (butlast gs @ [(fst (last gs), snd (last gs) OR ack_bit uUndefined uiDiff)]) as)"

definition setMasks :: "u16 \<Rightarrow> RtcpGenericAck \<Rightarrow> RtcpGenericAck" where
  "setMasks uUndefined p =
     (let as = rev (ga_vAcks p) in p\<lparr>ga_groups := setMasks_loop uUndefined (hd as) [(hd as, 0)] as\<rparr>)"

definition RtcpGenericAck_calculateLength :: "u16 \<Rightarrow> RtcpGenericAck \<Rightarrow> nat \<times> RtcpGenericAck" where
  "RtcpGenericAck_calculateLength uUndefined p = (let p1 = setMasks uUndefined p in (length (ga_groups p1), p1))"

definition RtcpGenericAck_addAck :: "u16 \<Rightarrow> u16 \<Rightarrow> RtcpGenericAck \<Rightarrow> RtcpGenericAck" where
  "RtcpGenericAck_addAck uUndefined uiSN p =
     (let p1 = p\<lparr>ga_vAcks := sort (ga_vAcks p @ [uiSN])\<rparr>;
          p2 = setMasks uUndefined p1
      in case RtcpGenericAck_calculateLength uUndefined p2 of (n, p3) \<Rightarrow> p3\<lparr>ga_fb := fb_setLength (BASIC_FB_LENGTH + n) (ga_fb p3)\<rparr>)"

definition RtcpGenericAck_create :: "u16 \<Rightarrow> u16 list \<Rightarrow> u32 \<Rightarrow> u32 \<Rightarrow> RtcpGenericAck" where
  "RtcpGenericAck_create uUndefined vSNs uiSenderSSRC uiSourceSSRC =
     fold (RtcpGenericAck_addAck uUndefined) vSNs
       \<lparr>ga_fb = RtcpFb_create TL_FB_GENERIC_ACK PT_RTCP_GENERIC_FEEDBACK uiSenderSSRC uiSourceSSRC, ga_vAcks = [], ga_groups = []\<rparr>"

definition ack_numbers :: "sn_group \<Rightarrow> u16 list" where
  "ack_numbers g = (case g of (uiBase, uiMask) \<Rightarrow>
     map (\<lambda>j. uiBase - of_nat (j + 1)) (filter (bit uiMask) (rev [0..<16])) @ [uiBase])"

definition RtcpGenericAck_raw :: "('i, 'o) bit_io \<Rightarrow> u8 \<Rightarrow> bool \<Rightarrow> u16 \<Rightarrow> RtcpGenericAck" where
  "RtcpGenericAck_raw io uiVersion uiPadding uiLengthInWords =
     \<lparr>ga_fb = RtcpFb_raw io uiVersion uiPadding TL_FB_GENERIC_ACK PT_RTCP_GENERIC_FEEDBACK uiLengthInWords, ga_vAcks = [], ga_groups = []\<rparr>"

definition RtcpGenericAck_write :: "('i, 'o) bit_io \<Rightarrow> RtcpGenericAck \<Rightarrow> 'o \<Rightarrow> 'o" where
  "RtcpGenericAck_write io p ob = RtcpFb_writeTypeSpecific io (ga_fb p) (write_groups io (ga_groups p)) ob"

text \<open>The length is computed from masks that are rebuilt from the numbers, which must not be empty (\<open>*rit\<close>).\<close>

definition RtcpGenericAck_read :: "('i, 'o) bit_io \<Rightarrow> u16 \<Rightarrow> RtcpGenericAck \<Rightarrow> 'i \<Rightarrow> fault + (RtcpGenericAck \<times> 'i)" where
  "RtcpGenericAck_read io uUndefined p ib =
     (case RtcpFb_readTypeSpecific io (ga_fb p) ib of (fb, ib1) \<Rightarrow>
      if fb_length fb < 2 then Inl Assertion_failed
      else case read_groups io (fb_length fb - 2) (0, 0) ib1 of (gs, ib2) \<Rightarrow>
        let p1 = p\<lparr>ga_fb := fb, ga_groups := ga_groups p @ gs, ga_vAcks := ga_vAcks p @ concat (map ack_numbers gs)\<rparr>
        in if ga_vAcks p1 = [] then Inl Out_of_range
           else case RtcpGenericAck_calculateLength uUndefined p1 of (n, p2) \<Rightarrow>
             Inr (p2\<lparr>ga_fb := fb_setLength (BASIC_FB_LENGTH + n) (ga_fb p2)\<rparr>, ib2))"

section \<open>Application layer feedback\<close>

record RtcpApplicationLayerFeedback =
  af_fb :: RtcpFb
  af_sAppData :: bytes

text \<open>The length field counts words, but the octets of the data are added to it.\<close>

definition RtcpApplicationLayerFeedback_create :: "bytes \<Rightarrow> u32 \<Rightarrow> u32 \<Rightarrow> RtcpApplicationLayerFeedback" where
  "RtcpApplicationLayerFeedback_create sAppData uiSenderSSRC uiSourceSSRC =
     \<lparr>af_fb = fb_setLength (BASIC_FB_LENGTH + length sAppData)
        (RtcpFb_create FMT_APPLICATION_LAYER_FEEDBACK PT_RTCP_PAYLOAD_SPECIFIC uiSenderSSRC uiSourceSSRC), af_sAppData = sAppData\<rparr>"

definition RtcpApplicationLayerFeedback_raw :: "('i, 'o) bit_io \<Rightarrow> u8 \<Rightarrow> bool \<Rightarrow> u16 \<Rightarrow> RtcpApplicationLayerFeedback" where
  "RtcpApplicationLayerFeedback_raw io uiVersion uiPadding uiLengthInWords =
     \<lparr>af_fb = RtcpFb_raw io uiVersion uiPadding FMT_APPLICATION_LAYER_FEEDBACK PT_RTCP_PAYLOAD_SPECIFIC uiLengthInWords, af_sAppData = []\<rparr>"

definition RtcpApplicationLayerFeedback_write :: "('i, 'o) bit_io \<Rightarrow> RtcpApplicationLayerFeedback \<Rightarrow> 'o \<Rightarrow> 'o" where
  "RtcpApplicationLayerFeedback_write io p ob =
     RtcpFb_writeTypeSpecific io (af_fb p) (\<lambda>ob. ob_writeBytes io ob (af_sAppData p)) ob"

definition RtcpApplicationLayerFeedback_read ::
  "('i, 'o) bit_io \<Rightarrow> RtcpApplicationLayerFeedback \<Rightarrow> 'i \<Rightarrow> fault + (RtcpApplicationLayerFeedback \<times> 'i)" where
  "RtcpApplicationLayerFeedback_read io p ib =
     (case RtcpFb_readTypeSpecific io (af_fb p) ib of (fb, ib1) \<Rightarrow>
      if fb_length fb \<le> 2 then Inl Assertion_failed
      else let uiAppDataLength = fb_length fb - 2
           in if uiAppDataLength > 256 then Inl Assertion_failed
              else case ib_readBytes io ib1 uiAppDataLength of (ok, bs, ib2) \<Rightarrow>
                Inr (p\<lparr>af_fb := fb, af_sAppData := (if ok then bs else map (mem_uninit io) [0..<uiAppDataLength])\<rparr>, ib2))"

section \<open>Parser\<close>

datatype feedback_packet = GenericNack RtcpGenericNack | ExtendedNack RtcpExtendedNack | GenericAck RtcpGenericAck
  | ApplicationLayerFeedback RtcpApplicationLayerFeedback

definition Rfc4585_canHandleRtcpType :: "nat \<Rightarrow> bool" where
  "Rfc4585_canHandleRtcpType uiType \<longleftrightarrow> uiType = unat PT_RTCP_GENERIC_FEEDBACK \<or> uiType = unat PT_RTCP_PAYLOAD_SPECIFIC"

definition Rfc4585_parseRtcpPacket ::
  "('i, 'o) bit_io \<Rightarrow> u16 \<Rightarrow> 'i \<Rightarrow> nat \<Rightarrow> nat \<Rightarrow> nat \<Rightarrow> nat \<Rightarrow> nat \<Rightarrow> fault + (feedback_packet option \<times> 'i)" where
  "Rfc4585_parseRtcpPacket io uUndefined ib uiVersion uiPadding uiTypeSpecific uiPayload uiLengthInWords =
     (let v = of_nat uiVersion; pad = (uiPadding \<noteq> 0); n = of_nat uiLengthInWords
      in if uiPayload = unat PT_RTCP_GENERIC_FEEDBACK
         then (if uiTypeSpecific = unat TL_FB_GENERIC_NACK
               then map_sum id (map_prod (\<lambda>p. Some (GenericNack p)) id) (RtcpGenericNack_read io (RtcpGenericNack_raw io v pad n) ib)
               else if uiTypeSpecific = unat TL_FB_EXTENDED_NACK
               then map_sum id (map_prod (\<lambda>p. Some (ExtendedNack p)) id) (RtcpExtendedNack_read io (RtcpExtendedNack_raw io v pad n) ib)
               else if uiTypeSpecific = unat TL_FB_GENERIC_ACK
               then map_sum id (map_prod (\<lambda>p. Some (GenericAck p)) id) (RtcpGenericAck_read io uUndefined (RtcpGenericAck_raw io v pad n) ib)
               else Inr (None, ib))
         else if uiPayload = unat PT_RTCP_PAYLOAD_SPECIFIC
         then (if uiTypeSpecific = unat FMT_APPLICATION_LAYER_FEEDBACK
               then map_sum id (map_prod (\<lambda>p. Some (ApplicationLayerFeedback p)) id)
                      (RtcpApplicationLayerFeedback_read io (RtcpApplicationLayerFeedback_raw io v pad n) ib)
               else Inr (None, ib))
         else Inr (None, ib))"

section \<open>The numbers of a packet\<close>

lemma set_nack_numbers: "set (nack_numbers (b, m)) = insert b ((\<lambda>j. b + of_nat (16 - j)) ` {j. j < 16 \<and> bit m j})"
proof -
  have "set (filter (bit m) (rev [0..<16])) = {j. j < 16 \<and> bit m j}" by auto
  then show ?thesis by (simp only: nack_numbers_def prod.case list.set(2) set_map)
qed

lemma set_ack_numbers: "set (ack_numbers (b, m)) = insert b {b - of_nat (j + 1) | j. j < 16 \<and> bit m j}"
  by (auto simp: ack_numbers_def)

lemma getNackIndex_Some:
  "getNackIndex sn gs = Some i \<Longrightarrow> i < length gs \<and> fst (gs ! i) \<le> sn \<and> unat sn \<le> unat (fst (gs ! i)) + 16"
proof (induction gs arbitrary: i)
  case (Cons g gs)
  then show ?case by (cases g) (auto split: if_splits)
qed simp

lemma mask_bits_add: "{j. j < 16 \<and> bit (m OR push_bit k 1 :: u16) j} = {j. j < 16 \<and> bit m j} \<union> (if k < 16 then {k} else {})"
  by (auto simp: bit_simps)

lemma nack_numbers_add:
  assumes "b \<le> sn" and "unat sn \<le> unat b + 16"
  shows "set (nack_numbers (b, m OR push_bit (16 - unat (sn - b)) 1)) = insert sn (set (nack_numbers (b, m)))"
proof -
  define k where "k = 16 - unat (sn - b)"
  have off: "unat (sn - b) \<le> 16" using assms by (simp add: unat_sub)
  have eq: "b + of_nat (16 - k) = sn" using off by (simp add: k_def)
  show ?thesis
  proof (cases "k < 16")
    case True
    then show ?thesis unfolding k_def [symmetric] set_nack_numbers mask_bits_add
      by (simp only: if_True image_Un image_insert image_empty eq) blast
  next
    case False
    then have "b = sn" using eq by simp
    then show ?thesis unfolding k_def [symmetric] set_nack_numbers mask_bits_add using False by simp
  qed
qed

lemma set_concat_update:
  "i < length gs \<Longrightarrow> set (f g) = insert x (set (f (gs ! i))) \<Longrightarrow> set (concat (map f (gs[i := g]))) = insert x (set (concat (map f gs)))"
proof (induction gs arbitrary: i)
  case (Cons a gs)
  then show ?case by (cases i) auto
qed simp

lemma nack_group_add_numbers:
  "set (concat (map nack_numbers (nack_group_add sn gs))) = insert sn (set (concat (map nack_numbers gs)))"
proof (cases "getNackIndex sn gs")
  case None
  then show ?thesis by (simp add: nack_group_add_def nack_numbers_def)
next
  case (Some i)
  obtain b m where g: "gs ! i = (b, m)" by (cases "gs ! i")
  have i: "i < length gs" "b \<le> sn" "unat sn \<le> unat b + 16" using getNackIndex_Some [OF Some] g by simp_all
  have "set (concat (map nack_numbers (gs[i := (b, m OR push_bit (16 - unat (sn - b)) 1)]))) = insert sn (set (concat (map nack_numbers gs)))"
    using nack_numbers_add [OF i(2,3)] g by (intro set_concat_update i(1)) simp
  then show ?thesis using Some g by (simp add: nack_group_add_def)
qed

lemma length_nack_group_add: "length (nack_group_add sn gs) \<le> Suc (length gs)"
  by (simp add: nack_group_add_def split: option.splits prod.splits)

lemma nack_groups_fold: "set (concat (map nack_numbers (fold nack_group_add sns gs))) = set sns \<union> set (concat (map nack_numbers gs))"
proof (induction sns arbitrary: gs)
  case (Cons sn sns)
  show ?case unfolding fold_simps Cons.IH nack_group_add_numbers by simp
qed simp

lemma length_nack_groups_fold: "length (fold nack_group_add sns gs) \<le> length sns + length gs"
proof (induction sns arbitrary: gs)
  case (Cons sn sns)
  show ?case using Cons.IH [of "nack_group_add sn gs"] length_nack_group_add [of sn gs] by simp
qed simp

text \<open>
  The bits of a mask are numbered from the far end: RFC 4585 assigns the least significant bit to the number after the
  base, this packet assigns it the number 16 after the base.
\<close>

lemma nack_mask_reversed: "gn_groups (RtcpGenericNack_create [100, 101, 116] uiSender uiSource) = [(100, 0x8001)]"
  by (simp add: RtcpGenericNack_create_def RtcpGenericNack_addNacks_def RtcpGenericNack_addNack_def RtcpGenericNack_new_def nack_group_add_def)

lemma generic_nack_built:
  fixes sns s t
  defines "p \<equiv> RtcpGenericNack_create sns s t"
  shows "gn_groups p = fold nack_group_add sns []" and "gn_vNacks p = sns"
    and "sns \<noteq> [] \<Longrightarrow> rb_uiLength (fb_base (gn_fb p)) = of_nat (2 + length (gn_groups p))"
    and "fb_uiSenderSSRC (gn_fb p) = s" and "fb_uiSourceSSRC (gn_fb p) = t"
proof -
  have "gn_groups (fold RtcpGenericNack_addNack sns q) = fold nack_group_add sns (gn_groups q)
    \<and> gn_vNacks (fold RtcpGenericNack_addNack sns q) = gn_vNacks q @ sns
    \<and> (sns \<noteq> [] \<longrightarrow> rb_uiLength (fb_base (gn_fb (fold RtcpGenericNack_addNack sns q))) = of_nat (2 + length (gn_groups (fold RtcpGenericNack_addNack sns q))))
    \<and> fb_uiSenderSSRC (gn_fb (fold RtcpGenericNack_addNack sns q)) = fb_uiSenderSSRC (gn_fb q)
    \<and> fb_uiSourceSSRC (gn_fb (fold RtcpGenericNack_addNack sns q)) = fb_uiSourceSSRC (gn_fb q)" for q
  proof (induction sns rule: rev_induct)
    case (snoc sn sns)
    then show ?case by (simp add: RtcpGenericNack_addNack_def Let_def fb_setLength_def setLength_def BASIC_FB_LENGTH_def)
  qed simp
  then show "gn_groups p = fold nack_group_add sns []" "gn_vNacks p = sns"
    "sns \<noteq> [] \<Longrightarrow> rb_uiLength (fb_base (gn_fb p)) = of_nat (2 + length (gn_groups p))"
    "fb_uiSenderSSRC (gn_fb p) = s" "fb_uiSourceSSRC (gn_fb p) = t"
    by (simp_all add: p_def RtcpGenericNack_create_def RtcpGenericNack_addNacks_def RtcpGenericNack_new_def RtcpFb_create_def)
qed

lemma group_fields_ok [simp]: "fields_ok (group_fields g)"
proof -
  have "unat w < 65536" for w :: u16 using unsigned_less [of w, where ?'a = nat] by simp
  then show ?thesis by (simp add: group_fields_def)
qed

lemma ssrc_pair_ok [simp]: "fields_ok [(unat (a :: u32), 32), (unat (b :: u32), 32)]"
proof -
  have "unat w < 4294967296" for w :: u32 using unsigned_less [of w, where ?'a = nat] by simp
  then show ?thesis by simp
qed

context bit_stream
begin

lemma write_groups_bits: "obits (write_groups io gs ob) = obits ob @ concat (map (\<lambda>g. fields_bits (group_fields g)) gs)"
  unfolding write_groups_def by (rule foldl_write_bits) (simp add: writes_bits)

lemma read_groups_bits:
  "ibits ib = concat (map (\<lambda>g. fields_bits (group_fields g)) gs) @ rest
     \<Longrightarrow> \<exists>ib'. read_groups io (length gs) old ib = (gs, ib') \<and> ibits ib' = rest"
proof (induction gs arbitrary: ib old)
  case (Cons g gs)
  obtain ib1 where r: "reads io (group_fields old) ib = (map fst (group_fields g), ib1)"
    and b: "ibits ib1 = concat (map (\<lambda>g. fields_bits (group_fields g)) gs) @ rest"
    by (rule reads_fields [of "group_fields old" "group_fields g" ib]) (use Cons.prems in \<open>simp_all add: group_fields_def\<close>)
  have g: "(of_nat (map fst (group_fields g) ! 0), of_nat (map fst (group_fields g) ! 1)) = g" by (simp add: group_fields_def)
  obtain ib2 where "read_groups io (length gs) g ib1 = (gs, ib2)" "ibits ib2 = rest" using Cons.IH [OF b] by blast
  then show ?case using r g by (simp add: Let_def)
qed simp

lemma fb_read_bits:
  assumes "ibits ib = fields_bits [(unat s, 32), (unat t, 32)] @ rest"
  shows "\<exists>ib'. RtcpFb_readTypeSpecific io p ib = (p\<lparr>fb_uiSenderSSRC := s, fb_uiSourceSSRC := t\<rparr>, ib') \<and> ibits ib' = rest"
proof -
  obtain ib' where "reads io [(unat (fb_uiSenderSSRC p), 32), (unat (fb_uiSourceSSRC p), 32)] ib = (map fst [(unat s, 32), (unat t, 32)], ib')"
    and "ibits ib' = rest"
    by (rule reads_fields [of "[(unat (fb_uiSenderSSRC p), 32), (unat (fb_uiSourceSSRC p), 32)]" "[(unat s, 32), (unat t, 32)]" ib])
      (use assms in simp_all)
  then show ?thesis by (simp add: RtcpFb_readTypeSpecific_def)
qed

lemma fb_write_bits: "obits (RtcpFb_writeTypeSpecific io p w ob) = obits (w (writes io [(unat (fb_uiSenderSSRC p), 32), (unat (fb_uiSourceSSRC p), 32)] ob))"
  by (simp add: RtcpFb_writeTypeSpecific_def)

lemma generic_nack_read:
  assumes "sns \<noteq> []" and "length sns \<le> 65533"
    and bits: "ibits ib = obits (RtcpGenericNack_write io (RtcpGenericNack_create sns s t) (ob_new io)) @ rest"
  shows "\<exists>p ib'. RtcpGenericNack_read io (RtcpGenericNack_raw io v b (rb_uiLength (fb_base (gn_fb (RtcpGenericNack_create sns s t))))) ib = Inr (p, ib')
    \<and> set (gn_vNacks p) = set sns \<and> fb_uiSenderSSRC (gn_fb p) = s \<and> fb_uiSourceSSRC (gn_fb p) = t \<and> ibits ib' = rest"
proof -
  let ?p = "RtcpGenericNack_create sns s t" and ?gs = "fold nack_group_add sns []"
  let ?raw = "RtcpGenericNack_raw io v b (rb_uiLength (fb_base (gn_fb ?p)))"
  note built = generic_nack_built [of sns s t]
  have n: "length ?gs \<le> 65533" using length_nack_groups_fold [of sns "[]"] assms(2) by simp
  have len: "unat (rb_uiLength (fb_base (gn_fb ?p))) = 2 + length ?gs"
    unfolding built(3) [OF assms(1)] built(1) by (rule unat_of_nat_u16) (use n in simp)
  have "ibits ib = fields_bits [(unat s, 32), (unat t, 32)] @ concat (map (\<lambda>g. fields_bits (group_fields g)) ?gs) @ rest"
    using bits by (simp add: RtcpGenericNack_write_def fb_write_bits write_groups_bits writes_bits new_bits built)
  then obtain ib1 where r1: "RtcpFb_readTypeSpecific io (gn_fb ?raw) ib = ((gn_fb ?raw)\<lparr>fb_uiSenderSSRC := s, fb_uiSourceSSRC := t\<rparr>, ib1)"
    and b1: "ibits ib1 = concat (map (\<lambda>g. fields_bits (group_fields g)) ?gs) @ rest" using fb_read_bits by blast
  obtain ib2 where r2: "read_groups io (length ?gs) (0, 0) ib1 = (?gs, ib2)" and b2: "ibits ib2 = rest" using read_groups_bits [OF b1] by blast
  have l: "fb_length ((gn_fb ?raw)\<lparr>fb_uiSenderSSRC := s, fb_uiSourceSSRC := t\<rparr>) = 2 + length ?gs"
    using len by (simp add: fb_length_def RtcpGenericNack_raw_def RtcpFb_raw_def RtcpPacketBase_raw_def)
  have "set (concat (map nack_numbers ?gs)) = set sns" using nack_groups_fold [of sns "[]"] by simp
  then show ?thesis using r1 r2 b2 l
    by (simp add: RtcpGenericNack_read_def RtcpGenericNack_raw_def fb_setLength_def Let_def)
qed

end

text \<open>
  A request for retransmission names the packets it was made for. A generic NACK made from any non-empty list
  of up to 65533 sequence numbers, in any order, with repetitions and across the wrap-around, and written to
  a stream, is read back with the same sources and exactly the same set of sequence numbers.
\<close>

theorem nack_roundtrip:
  assumes "bit_stream io obits ibits" and "vSNs \<noteq> []" and "length vSNs \<le> 65533"
    and "ibits ib = obits (RtcpGenericNack_write io (RtcpGenericNack_create vSNs uiSender uiSource) (ob_new io)) @ rest"
  shows "\<exists>p ib'. RtcpGenericNack_read io (RtcpGenericNack_raw io 2 False (rb_uiLength (fb_base (gn_fb (RtcpGenericNack_create vSNs uiSender uiSource))))) ib
      = Inr (p, ib') \<and> set (gn_vNacks p) = set vSNs \<and> fb_uiSenderSSRC (gn_fb p) = uiSender \<and> fb_uiSourceSSRC (gn_fb p) = uiSource \<and> ibits ib' = rest"
  using bit_stream.generic_nack_read [OF assms] .

theorem nack_roundtrip_witness:
  "\<exists>p ib'. RtcpGenericNack_read bitlist_io (RtcpGenericNack_raw bitlist_io 2 False
        (rb_uiLength (fb_base (gn_fb (RtcpGenericNack_create [7, 65535, 9, 0, 7] 1 2)))))
      (RtcpGenericNack_write bitlist_io (RtcpGenericNack_create [7, 65535, 9, 0, 7] 1 2) [] @ [True]) = Inr (p, ib')
    \<and> set (gn_vNacks p) = {7, 65535, 9, 0} \<and> fb_uiSenderSSRC (gn_fb p) = 1 \<and> fb_uiSourceSSRC (gn_fb p) = 2 \<and> ib' = [True]"
  using nack_roundtrip [OF bitlist.bit_stream_axioms, of "[7, 65535, 9, 0, 7]"
      "RtcpGenericNack_write bitlist_io (RtcpGenericNack_create [7, 65535, 9, 0, 7] 1 2) [] @ [True]" 1 2 "[True]"]
  by (simp add: bitlist_io_def insert_commute)

end
