(* ===== verification/Rtp_Packet_Group.thy ===== *)
theory Rtp_Packet_Group
  imports Rtp_Packet
begin

text \<open>
  The packets that are depacketised together (\<open>RtpPacketGroup.h\<close>, \<open>RtpPacketGroup.cpp\<close>),
  usually those with one RTP timestamp. Insertion keeps them in sequence number order across
  the wrap of the extended sequence number and refuses duplicates; the main result refines
  a group to the set of sequence numbers received.
\<close>

section \<open>State and operations\<close>

record RtpPacketGroup =
  pg_uiRtpTs :: u32
  pg_tArrival :: ptime
  pg_tPresentation :: ptime
  pg_bRtcpSynchronised :: bool
  pg_tPlayout :: ptime
  pg_rtpPacketList :: "RtpPacket list"
  pg_receivedSequenceNumbers :: "u32 set"
  pg_uiNextExpectedSN :: u32

definition getExtendedSequenceNumber :: "RtpPacket \<Rightarrow> u32" where
  "getExtendedSequenceNumber p = rp_uiExtendedSequenceNumber p"

definition RtpPacketGroup_create :: "RtpPacket \<Rightarrow> ptime \<Rightarrow> bool \<Rightarrow> ptime \<Rightarrow> RtpPacketGroup" where
  "RtpPacketGroup_create rtpPacket tPresentation bRtcpSynchronised tPlayout =
     \<lparr>pg_uiRtpTs = getRtpTimestamp rtpPacket, pg_tArrival = rp_tArrival rtpPacket, pg_tPresentation = tPresentation,
      pg_bRtcpSynchronised = bRtcpSynchronised, pg_tPlayout = tPlayout, pg_rtpPacketList = [rtpPacket],
      pg_receivedSequenceNumbers = {getExtendedSequenceNumber rtpPacket},
      pg_uiNextExpectedSN = getExtendedSequenceNumber rtpPacket + 1\<rparr>"

definition append_packet :: "RtpPacket \<Rightarrow> RtpPacketGroup \<Rightarrow> RtpPacketGroup" where
  "append_packet p g = g\<lparr>pg_rtpPacketList := pg_rtpPacketList g @ [p],
     pg_receivedSequenceNumbers := insert (getExtendedSequenceNumber p) (pg_receivedSequenceNumbers g),
     pg_uiNextExpectedSN := getExtendedSequenceNumber p + 1\<rparr>"

definition reorder_packet :: "(RtpPacket \<Rightarrow> bool) \<Rightarrow> RtpPacket \<Rightarrow> RtpPacketGroup \<Rightarrow> RtpPacketGroup" where
  "reorder_packet before p g = g\<lparr>pg_rtpPacketList := insert_after_last before p (pg_rtpPacketList g),
     pg_receivedSequenceNumbers := insert (getExtendedSequenceNumber p) (pg_receivedSequenceNumbers g)\<rparr>"

definition RtpPacketGroup_insert :: "RtpPacket \<Rightarrow> RtpPacketGroup \<Rightarrow> bool \<times> RtpPacketGroup" where
  "RtpPacketGroup_insert rtpPacket g =
     (let uiReceivedSN = getExtendedSequenceNumber rtpPacket; uiNext = pg_uiNextExpectedSN g in
      if uiReceivedSN = uiNext
      then (True, (append_packet rtpPacket g)\<lparr>pg_uiNextExpectedSN := uiNext + 1\<rparr>)
      else if uiReceivedSN \<in> pg_receivedSequenceNumbers g then (False, g)
      else if uiReceivedSN > uiNext
      then (let uiDiff = uiReceivedSN - uiNext in
            if uiDiff AND 0x80000000 = 0 then (True, append_packet rtpPacket g)
            else let uiMappedReceivedSequenceNumber = uiReceivedSN - 0x80000000 in
                 (True, reorder_packet (\<lambda>q. let uiOrigSN = getExtendedSequenceNumber q;
                           uiMappedSequenceNumber = (if uiOrigSN AND 0x80000000 = 0 then uiOrigSN + 0x80000000 else uiOrigSN - 0x80000000)
                         in uiMappedSequenceNumber < uiMappedReceivedSequenceNumber) rtpPacket g))
      else (let uiDiff = uiNext - uiReceivedSN in
            if uiDiff AND 0x80000000 \<noteq> 0 then (True, append_packet rtpPacket g)
            else (True, reorder_packet (\<lambda>q. sint (getExtendedSequenceNumber q) < sint uiReceivedSN) rtpPacket g)))"

definition RtpPacketGroup_sort :: "RtpPacketGroup \<Rightarrow> RtpPacketGroup" where
  "RtpPacketGroup_sort g = g\<lparr>pg_rtpPacketList := sort_key rp_sourcePort (pg_rtpPacketList g)\<rparr>"

section \<open>The group as a set of sequence numbers\<close>

definition sn_of :: "RtpPacket \<Rightarrow> int" where
  "sn_of p = sint (getExtendedSequenceNumber p)"

definition spread :: "u32 set \<Rightarrow> bool" where
  "spread S \<longleftrightarrow> (\<forall>a\<in>S. \<forall>b\<in>S. \<bar>sint a - sint b\<bar> < 2 ^ 31 - 1)"

definition group_inv :: "RtpPacketGroup \<Rightarrow> bool" where
  "group_inv g \<longleftrightarrow> pg_rtpPacketList g \<noteq> []
     \<and> pg_receivedSequenceNumbers g = getExtendedSequenceNumber ` set (pg_rtpPacketList g)
     \<and> sorted_wrt (<) (map sn_of (pg_rtpPacketList g))
     \<and> pg_uiNextExpectedSN g = getExtendedSequenceNumber (last (pg_rtpPacketList g)) + 1"

lemma and_msb_u32: "(x :: u32) AND 0x80000000 = 0 \<longleftrightarrow> uint x < 2 ^ 31"
proof -
  have "(0x80000000 :: u32) = 2 ^ 31" by simp
  then have "x AND 0x80000000 = 0 \<longleftrightarrow> \<not> bit x 31" by (metis and_exp_eq_0_iff_not_bit)
  moreover have "bit x 31 \<longleftrightarrow> 2 ^ 31 \<le> uint x"
  proof -
    have "bit x 31 \<longleftrightarrow> odd (uint x div 2 ^ 31)" unfolding bit_iff_odd [symmetric] by (simp add: bit_uint_iff)
    moreover have "uint x div 2 ^ 31 = (if 2 ^ 31 \<le> uint x then 1 else 0)"
      using uint_lt2p [of x] int_div_pos_eq [of "uint x" "2 ^ 31" 1 "uint x - 2 ^ 31"] by simp
    ultimately show ?thesis by simp
  qed
  ultimately show ?thesis by (simp add: not_le)
qed

lemma uint_toggle_u32: "uint (x + 0x80000000 :: u32) = sint x + 2 ^ 31"
proof -
  have "x + 0x80000000 = of_int (sint x + 2 ^ 31)" by simp
  moreover have "uint (of_int (sint x + 2 ^ 31) :: u32) = sint x + 2 ^ 31"
    by (rule uint_of_int_u32) (use sint_greater_eq [of x] sint_less [of x] in simp_all)
  ultimately show ?thesis by metis
qed

lemma minus_half_u32: "(x :: u32) - 0x80000000 = x + 0x80000000"
proof -
  have "(0x80000000 + 0x80000000 :: u32) = 0" by simp
  then show ?thesis by (simp only: diff_eq_eq add.assoc add_0_right)
qed

lemma mapped_less_u32: "(if a AND 0x80000000 = 0 then a + 0x80000000 else a - 0x80000000) < b - (0x80000000 :: u32) \<longleftrightarrow> sint a < sint b"
  by (simp add: minus_half_u32 word_less_def uint_toggle_u32)

lemma strict_sorted_le_last: "\<lbrakk>sorted_wrt (<) xs; x \<in> set xs\<rbrakk> \<Longrightarrow> x \<le> (last xs :: int)"
proof (induction xs)
  case (Cons y ys)
  then show ?case by (cases ys) (auto intro: less_imp_le)
qed simp

lemma strict_sorted_append:
  assumes "sorted_wrt (<) xs" and "xs \<noteq> [] \<Longrightarrow> last xs < (x :: int)"
  shows "sorted_wrt (<) (xs @ [x])"
proof -
  have "y < x" if "y \<in> set xs" for y
    using strict_sorted_le_last [OF assms(1) that] assms(2) that by (cases xs) auto
  then show ?thesis using assms(1) by (simp add: sorted_wrt_append)
qed

lemma sn_of_eq: "sn_of p = sn_of q \<longleftrightarrow> getExtendedSequenceNumber p = getExtendedSequenceNumber q"
proof -
  have "of_int (sint (getExtendedSequenceNumber p)) = getExtendedSequenceNumber p" for p by simp
  then show ?thesis unfolding sn_of_def by metis
qed

lemma group_inv_append:
  assumes "group_inv g" and "sn_of (last (pg_rtpPacketList g)) < sn_of p"
  shows "group_inv (append_packet p g)"
  using assms strict_sorted_append [of "map sn_of (pg_rtpPacketList g)" "sn_of p"]
  by (simp add: group_inv_def append_packet_def last_map)

lemma strict_sorted_insert_after_last:
  fixes k :: "'a \<Rightarrow> 'k :: linorder"
  assumes "sorted_wrt (<) (map k xs)" and "k x \<notin> k ` set xs"
  shows "sorted_wrt (<) (map k (insert_after_last (\<lambda>y. k y < k x) x xs))"
proof -
  have "sorted (map k (insert_after_last (\<lambda>y. k y < k x) x xs))"
    by (rule sorted_insert_after_last) (use assms(1) in \<open>simp add: strict_sorted_iff\<close>)
  moreover have "distinct (map k (insert_after_last (\<lambda>y. k y < k x) x xs))"
  proof (rule card_distinct)
    have "distinct (map k xs)" using assms(1) by (simp add: strict_sorted_iff)
    then have "card (k ` set xs) = length xs" by (metis distinct_card length_map set_map)
    then show "card (set (map k (insert_after_last (\<lambda>y. k y < k x) x xs)))
        = length (map k (insert_after_last (\<lambda>y. k y < k x) x xs))"
      using assms(2) by simp
  qed
  ultimately show ?thesis by (simp add: strict_sorted_iff)
qed

lemma last_insert_after_last:
  assumes "xs \<noteq> []" and "\<not> P (last xs)"
  shows "last (insert_after_last P x xs) = last xs"
proof (cases xs rule: rev_cases)
  case (snoc ys y)
  then show ?thesis using assms by (simp add: insert_after_last_def)
qed (use assms in simp)

lemma group_inv_reorder:
  assumes "group_inv g" and "getExtendedSequenceNumber p \<notin> pg_receivedSequenceNumbers g"
    and "sn_of p \<le> sn_of (last (pg_rtpPacketList g))"
  shows "group_inv (reorder_packet (\<lambda>q. sn_of q < sn_of p) p g)"
proof -
  have "sn_of p \<notin> sn_of ` set (pg_rtpPacketList g)" using assms(1,2) by (auto simp: group_inv_def sn_of_eq)
  moreover have "last (insert_after_last (\<lambda>q. sn_of q < sn_of p) p (pg_rtpPacketList g)) = last (pg_rtpPacketList g)"
    by (rule last_insert_after_last) (use assms(1,3) in \<open>auto simp: group_inv_def\<close>)
  ultimately show ?thesis
    using assms(1) strict_sorted_insert_after_last [of sn_of "pg_rtpPacketList g" p]
    by (simp add: group_inv_def reorder_packet_def)
qed

text \<open>Within the spread, the four wrap-around cases of the code come down to two.\<close>

lemma insert_cases:
  assumes inv: "group_inv g" and sp: "spread (insert (getExtendedSequenceNumber p) (pg_receivedSequenceNumbers g))"
  shows "RtpPacketGroup_insert p g =
    (if getExtendedSequenceNumber p \<in> pg_receivedSequenceNumbers g then (False, g)
     else if sn_of (last (pg_rtpPacketList g)) < sn_of p then (True, append_packet p g)
     else (True, reorder_packet (\<lambda>q. sn_of q < sn_of p) p g))"
proof -
  let ?r = "getExtendedSequenceNumber p" and ?l = "last (pg_rtpPacketList g)" and ?e = "pg_uiNextExpectedSN g"
  have lin: "getExtendedSequenceNumber ?l \<in> pg_receivedSequenceNumbers g" using inv by (simp add: group_inv_def)
  then have near: "\<bar>sn_of p - sn_of ?l\<bar> < 2 ^ 31 - 1" using sp by (auto simp: spread_def sn_of_def)
  have e: "of_int (sn_of ?l + 1) = ?e" and r: "of_int (sn_of p) = ?r" using inv by (simp_all add: group_inv_def sn_of_def)
  have up: "(?r - ?e) AND 0x80000000 = 0 \<longleftrightarrow> sn_of ?l + 1 \<le> sn_of p"
    unfolding and_msb_u32 by (rule serial_less [OF r e]) (use near in linarith)
  have down: "(?e - ?r) AND 0x80000000 = 0 \<longleftrightarrow> sn_of p \<le> sn_of ?l + 1"
    unfolding and_msb_u32 by (rule serial_less [OF e r]) (use near in linarith)
  have top: "?e \<notin> pg_receivedSequenceNumbers g \<and> sn_of p = sn_of ?l + 1" if "?r = ?e"
  proof
    have "?r - ?e = 0" "?e - ?r = 0" using that by simp_all
    then show s: "sn_of p = sn_of ?l + 1" using up down by simp
    have "\<forall>q\<in>set (pg_rtpPacketList g). sn_of q \<le> sn_of ?l"
      using inv strict_sorted_le_last [of "map sn_of (pg_rtpPacketList g)"] by (auto simp: group_inv_def last_map)
    then show "?e \<notin> pg_receivedSequenceNumbers g"
      using s inv that by (auto simp: group_inv_def sn_of_eq [symmetric])
  qed
  have le: "?r = ?e" if "sn_of p = sn_of ?l + 1" using e r that by metis
  consider "?r = ?e" | "?r \<noteq> ?e" "?r \<in> pg_receivedSequenceNumbers g"
    | "?r \<noteq> ?e" "?r \<notin> pg_receivedSequenceNumbers g" by blast
  then show ?thesis
  proof cases
    case 1
    then show ?thesis using top by (simp add: RtpPacketGroup_insert_def Let_def append_packet_def)
  next
    case 2
    then show ?thesis by (simp add: RtpPacketGroup_insert_def Let_def)
  next
    case 3
    then have "sn_of p \<noteq> sn_of ?l + 1" using le by blast
    then have up': "(?r - ?e) AND 0x80000000 = 0 \<longleftrightarrow> sn_of ?l < sn_of p"
      and down': "(?e - ?r) AND 0x80000000 = 0 \<longleftrightarrow> \<not> sn_of ?l < sn_of p" using up down by linarith+
    show ?thesis
      unfolding RtpPacketGroup_insert_def Let_def up' down' mapped_less_u32 sn_of_def [symmetric] using 3 by simp
  qed
qed

lemma insert_refines:
  assumes inv: "group_inv g" and sp: "spread (insert (getExtendedSequenceNumber p) (pg_receivedSequenceNumbers g))"
  shows "group_inv (snd (RtpPacketGroup_insert p g))"
    and "pg_receivedSequenceNumbers (snd (RtpPacketGroup_insert p g)) = insert (getExtendedSequenceNumber p) (pg_receivedSequenceNumbers g)"
    and "fst (RtpPacketGroup_insert p g) \<longleftrightarrow> getExtendedSequenceNumber p \<notin> pg_receivedSequenceNumbers g"
  using group_inv_append [OF inv, of p] group_inv_reorder [OF inv, of p] inv
  unfolding insert_cases [OF assms] by (auto simp: append_packet_def reorder_packet_def not_less)

lemma group_inv_create: "group_inv (RtpPacketGroup_create p tPres b tPlay)"
  by (simp add: group_inv_def RtpPacketGroup_create_def)

lemma spread_mono: "\<lbrakk>spread B; A \<subseteq> B\<rbrakk> \<Longrightarrow> spread A"
  by (auto simp: spread_def)

lemma insert_run:
  "\<lbrakk>group_inv g; spread (pg_receivedSequenceNumbers g \<union> getExtendedSequenceNumber ` set ps)\<rbrakk> \<Longrightarrow>
   group_inv (fold (\<lambda>p g. snd (RtpPacketGroup_insert p g)) ps g)
   \<and> pg_receivedSequenceNumbers (fold (\<lambda>p g. snd (RtpPacketGroup_insert p g)) ps g)
     = pg_receivedSequenceNumbers g \<union> getExtendedSequenceNumber ` set ps"
proof (induction ps arbitrary: g)
  case (Cons p ps)
  have "spread (insert (getExtendedSequenceNumber p) (pg_receivedSequenceNumbers g))"
    by (rule spread_mono [OF Cons.prems(2)]) auto
  note r = insert_refines [OF Cons.prems(1) this]
  show ?case using Cons.IH [OF r(1)] Cons.prems(2) by (simp add: r(2))
qed simp

section \<open>Properties of packet groups\<close>

definition numbered_packet :: "u32 \<Rightarrow> RtpPacket" where
  "numbered_packet n = (RtpPacket_create RtpHeader_default)\<lparr>rp_uiExtendedSequenceNumber := n\<rparr>"

lemma sn_numbered_packet [simp]: "getExtendedSequenceNumber (numbered_packet n) = n"
  by (simp add: numbered_packet_def getExtendedSequenceNumber_def)

text \<open>
  C20: A packet group is the ordered set of the packets it was given. Whatever order the packets
  arrive in and however often each is repeated, if their extended sequence numbers, which may
  wrap past 2^32, read as signed values lie within half the range, the group holds exactly one
  packet for each number, in increasing order; and a further packet is refused exactly when
  its number is already there.
\<close>

theorem packet_group_is_ordered_set:
  fixes p q :: RtpPacket and ps :: "RtpPacket list" and tPres tPlay :: ptime and b :: bool
  assumes "spread (getExtendedSequenceNumber ` set (q # p # ps))"
  defines "g \<equiv> fold (\<lambda>p g. snd (RtpPacketGroup_insert p g)) ps (RtpPacketGroup_create p tPres b tPlay)"
  shows "map sn_of (pg_rtpPacketList g) = sorted_list_of_set (sn_of ` set (p # ps))
    \<and> fst (RtpPacketGroup_insert q g) = (getExtendedSequenceNumber q \<notin> getExtendedSequenceNumber ` set (p # ps))"
proof -
  let ?g = "RtpPacketGroup_create p tPres b tPlay"
  have "pg_receivedSequenceNumbers ?g = {getExtendedSequenceNumber p}" by (simp add: RtpPacketGroup_create_def)
  then have "group_inv g" and rec: "pg_receivedSequenceNumbers g = getExtendedSequenceNumber ` set (p # ps)"
    using insert_run [OF group_inv_create, of p tPres b tPlay ps] spread_mono [OF assms(1)]
    unfolding g_def by (auto simp: subset_iff)
  then have strict: "sorted_wrt (<) (map sn_of (pg_rtpPacketList g))"
    and same: "getExtendedSequenceNumber ` set (pg_rtpPacketList g) = getExtendedSequenceNumber ` set (p # ps)"
    by (simp_all add: group_inv_def)
  have "sn_of ` S = sint ` getExtendedSequenceNumber ` S" for S by (simp add: image_image sn_of_def)
  then have "set (map sn_of (pg_rtpPacketList g)) = sn_of ` set (p # ps)"
    using same by (metis set_map)
  then have "map sn_of (pg_rtpPacketList g) = sorted_list_of_set (sn_of ` set (p # ps))"
    using strict by (metis sorted_list_of_set.idem_if_sorted_distinct strict_sorted_iff)
  moreover have "spread (insert (getExtendedSequenceNumber q) (pg_receivedSequenceNumbers g))"
    using assms(1) rec by simp
  ultimately show ?thesis using insert_refines(3) [OF \<open>group_inv g\<close>, of q] rec by simp
qed

theorem packet_group_is_ordered_set_witness:
  "map sn_of (pg_rtpPacketList (fold (\<lambda>p g. snd (RtpPacketGroup_insert p g))
     [numbered_packet 1, numbered_packet 0, numbered_packet 1]
     (RtpPacketGroup_create (numbered_packet 0xFFFFFFFF) None False None))) = [-1, 0, 1]"
proof -
  have "spread (getExtendedSequenceNumber ` set
      [numbered_packet 2, numbered_packet 0xFFFFFFFF, numbered_packet 1, numbered_packet 0, numbered_packet 1])"
    by (simp add: spread_def)
  from packet_group_is_ordered_set [OF this] show ?thesis by (simp add: sn_of_def insert_commute)
qed

text \<open>
  The order is lost where the signed reading jumps: a packet that was overtaken around sequence number
  2^31 is put in front of the group, although the packets before it have smaller numbers.
\<close>

theorem packet_group_misorders_at_half_range:
  "map getExtendedSequenceNumber (pg_rtpPacketList (fold (\<lambda>p g. snd (RtpPacketGroup_insert p g))
     [numbered_packet 0x80000001, numbered_packet 0x80000000]
     (RtpPacketGroup_create (numbered_packet 0x7FFFFFFE) None False None))) = [0x80000000, 0x7FFFFFFE, 0x80000001]"
  by (simp add: RtpPacketGroup_insert_def RtpPacketGroup_create_def append_packet_def reorder_packet_def
      insert_after_last_def Let_def)

end
