(* ===== verification/Early_Feedback.thy ===== *)
theory Early_Feedback
  imports Session_Timeouts Rtcp_Feedback Jitter_Buffer
begin

text \<open>
  Reports with feedback (\<open>rfc4585/Rfc4585RtcpReportManager.cpp\<close>): the report manager of the feedback profile
  extends the one of RFC 3550. A report may be sent early, once per regular interval; regular reports
  may be suppressed when nothing has to be fed back; the packets that the feedback callback returns
  are appended to the next compound packet. The clock is read once per operation, except that a timer that is
  set relative to now reads it again.
\<close>

section \<open>State\<close>

record Rfc4585RtcpReportManager =
  ef_base :: reporting
  ef_bAllowEarly :: bool
  ef_bEarlyScheduled :: bool
  ef_t_rr_last :: ptime
  ef_tE :: ptime
  ef_vFeedback :: "feedback_packet list"
  ef_dT_dither_max :: rat
  ef_dT_rr_interval :: rat
  ef_dl :: rat
  ef_uiT_rr_ms :: u32
  ef_uiMaxFeedbackDelayMs :: u32
  ef_bSupportsReducedSize :: bool

datatype early_packet = Session session_packet | Feedback feedback_packet

datatype early_output = FeedbackRtcp "early_packet list" | EarlyTimer u32 | TimerAt ptime | Base report_output
  | ScheduleFinal u32 "early_packet list"

text \<open>The attribute \<open>rtcp-rsize\<close> of the session parameters decides about reduced size packets.\<close>

definition Rfc4585RtcpReportManager_create ::
  "RtpSessionParameters \<Rightarrow> bool \<Rightarrow> u32 \<Rightarrow> SessionDatabase \<Rightarrow> RtpReferenceClock \<Rightarrow> Rfc4585RtcpReportManager" where
  "Rfc4585RtcpReportManager_create par bReducedSize uninit db rc =
     \<lparr>ef_base = \<lparr>rp_manager = RtcpReportManager_create par (RtcpTransmissionTimer_create (Rfc4585TransmissionTimer False)) uninit,
                 rp_database = db, rp_clock = rc\<rparr>,
      ef_bAllowEarly = True, ef_bEarlyScheduled = False, ef_t_rr_last = None, ef_tE = None, ef_vFeedback = [],
      ef_dT_dither_max = 0, ef_dT_rr_interval = 5, ef_dl = 1 / 2, ef_uiT_rr_ms = 0, ef_uiMaxFeedbackDelayMs = 200,
      ef_bSupportsReducedSize = bReducedSize\<rparr>"

abbreviation ef_manager :: "Rfc4585RtcpReportManager \<Rightarrow> RtcpReportManager" where
  "ef_manager e \<equiv> rp_manager (ef_base e)"

abbreviation ef_database :: "Rfc4585RtcpReportManager \<Rightarrow> SessionDatabase" where
  "ef_database e \<equiv> rp_database (ef_base e)"

definition setT_rr_interval :: "rat \<Rightarrow> Rfc4585RtcpReportManager \<Rightarrow> Rfc4585RtcpReportManager" where
  "setT_rr_interval d e = e\<lparr>ef_dT_rr_interval := d\<rparr>"

section \<open>Early reports\<close>

definition isFeedbackUseful :: "int \<Rightarrow> Rfc4585RtcpReportManager \<Rightarrow> bool" where
  "isFeedbackUseful t0 e \<longleftrightarrow> total_milliseconds (pt_diff (rm_tNext (ef_manager e)) (Some t0)) < uint (ef_uiMaxFeedbackDelayMs e)"

definition to_ms :: "rat \<Rightarrow> fault + u32" where
  "to_ms d = double_to_u32 (Some (fadd (fmul d 1000) (1 / 2)))"

text \<open>
  \<open>t0\<close> is the clock at the test, \<open>tTimer\<close> the clock that the timer reads. The result is the time and the delay that are
  assigned to the reference parameters when the report was scheduled.
\<close>

definition scheduleEarlyFeedbackIfPossible ::
  "rand \<Rightarrow> int \<Rightarrow> int \<Rightarrow> Rfc4585RtcpReportManager \<Rightarrow> fault + ((int \<times> u32) option \<times> early_output list \<times> Rfc4585RtcpReportManager)" where
  "scheduleEarlyFeedbackIfPossible rnd t0 tTimer e =
     (case to_ms (ef_dT_dither_max e) of
        Inl f \<Rightarrow> Inl f
      | Inr uiIntervalMs \<Rightarrow>
          if pt_less (rm_tNext (ef_manager e)) (pt_add (Some t0) (milliseconds uiIntervalMs)) then Inr (None, [], e)
          else if ef_bAllowEarly e
          then (case to_ms (fmul (fRand rnd 0 1) (ef_dT_dither_max e)) of
                  Inl f \<Rightarrow> Inl f
                | Inr uiMs \<Rightarrow>
                    let tE = tTimer + uint uiMs * 1000
                    in Inr (Some (tE, uiMs), [EarlyTimer uiMs], e\<lparr>ef_tE := Some tE, ef_bAllowEarly := False, ef_bEarlyScheduled := True\<rparr>))
          else Inr (None, [], e))"

section \<open>Timers\<close>

definition onTimerSet :: "Rfc4585RtcpReportManager \<Rightarrow> Rfc4585RtcpReportManager" where
  "onTimerSet e =
     e\<lparr>ef_uiT_rr_ms := rm_uiTransmissionIntervalMs (ef_manager e),
       ef_dT_dither_max := fmul (ef_dl e) (rm_dTransmissionInterval (ef_manager e))\<rparr>"

definition early_setNextRtcpTimeout ::
  "RtpSessionState \<Rightarrow> RtpSessionParameters \<Rightarrow> rand \<Rightarrow> int \<Rightarrow> Rfc4585RtcpReportManager \<Rightarrow>
     fault + (early_output list \<times> Rfc4585RtcpReportManager)" where
  "early_setNextRtcpTimeout st par rnd tNow e =
     (if ef_bEarlyScheduled e
      then let rm = ef_manager e;
               tNext = pt_add (rm_tPrevious rm) (milliseconds (2 * ef_uiT_rr_ms e));
               rm1 = rm\<lparr>rm_tNext := tNext, rm_tPrevious := rm_tNext rm, rm_uiPreviousMembers := getActiveMemberCount (ef_database e)\<rparr>
           in Inr ([TimerAt tNext], e\<lparr>ef_bEarlyScheduled := False, ef_base := (ef_base e)\<lparr>rp_manager := rm1\<rparr>\<rparr>)
      else case setNextRtcpTimeout st par rnd tNow (ef_base e) of
             Inl f \<Rightarrow> Inl f
           | Inr (out, r) \<Rightarrow> Inr (map Base out, (onTimerSet (e\<lparr>ef_base := r\<rparr>))\<lparr>ef_bAllowEarly := True\<rparr>))"

definition early_startReporting ::
  "RtpSessionState \<Rightarrow> RtpSessionParameters \<Rightarrow> rand \<Rightarrow> int \<Rightarrow> Rfc4585RtcpReportManager \<Rightarrow>
     fault + (early_output list \<times> Rfc4585RtcpReportManager)" where
  "early_startReporting st par rnd tNow e =
     early_setNextRtcpTimeout st par rnd tNow
       (e\<lparr>ef_base := (ef_base e)\<lparr>rp_manager := (ef_manager e)\<lparr>rm_bShuttingDown := False\<rparr>\<rparr>\<rparr>)"

section \<open>Reports\<close>

text \<open>
  The periodic packet ends with the additional reports; the override of \<open>createAdditionalReports\<close> appends the feedback
  to them and empties the queue. A BYE comes after them.
\<close>

definition early_generateCompoundRtcpPacket ::
  "('i, 'o) bit_io \<Rightarrow> RtpSessionState \<Rightarrow> RtpSessionParameters \<Rightarrow> ChannelStatistics \<Rightarrow> int \<Rightarrow> bool \<Rightarrow> bool \<Rightarrow>
     Rfc4585RtcpReportManager \<Rightarrow> fault + (early_packet list \<times> Rfc4585RtcpReportManager)" where
  "early_generateCompoundRtcpPacket io st par stat tNow bWithBye bMinimal e =
     (case generateCompoundRtcpPacket io st par stat tNow False bMinimal (ef_database e) (rp_clock (ef_base e)) of
        Inl f \<Rightarrow> Inl f
      | Inr (ps, db, rc) \<Rightarrow>
          let bye = RtcpBye_create (ss_uiSSRC st);
              bye1 = (if isRetransmissionSender par stat then addSSRC (ss_uiRtxSSRC st) bye else bye)
          in Inr (map Session ps @ map Feedback (ef_vFeedback e) @ (if bWithBye then [Session (Standard (BYE bye1))] else []),
                  e\<lparr>ef_base := (ef_base e)\<lparr>rp_database := db, rp_clock := rc\<rparr>, ef_vFeedback := []\<rparr>))"

definition early_handler :: "Rfc4585RtcpReportManager \<Rightarrow> early_packet list \<Rightarrow> early_output list" where
  "early_handler e ps = (if rm_onRtcp (ef_manager e) then [FeedbackRtcp ps] else [])"

definition early_sendRtcpPacket ::
  "('i, 'o) bit_io \<Rightarrow> RtpSessionState \<Rightarrow> RtpSessionParameters \<Rightarrow> ChannelStatistics \<Rightarrow> int \<Rightarrow> bool \<Rightarrow>
     Rfc4585RtcpReportManager \<Rightarrow> fault + (early_output list \<times> Rfc4585RtcpReportManager)" where
  "early_sendRtcpPacket io st par stat tNow bMinimal e =
     (case early_generateCompoundRtcpPacket io st par stat tNow False bMinimal e of
        Inl f \<Rightarrow> Inl f
      | Inr (ps, e1) \<Rightarrow> Inr (early_handler e1 ps, e1))"

definition early_scheduleBye :: "rat option \<Rightarrow> early_packet list \<Rightarrow> Rfc4585RtcpReportManager \<Rightarrow> fault + early_output list" where
  "early_scheduleBye dTransmissionInterval bye e =
     (if dTransmissionInterval = Some 0 then Inr (early_handler e bye)
      else case double_to_u32 (map_option (\<lambda>d. fadd (fmul d 1000) (1 / 2)) dTransmissionInterval) of
             Inl f \<Rightarrow> Inl f
           | Inr uiIntervalMs \<Rightarrow> Inr [ScheduleFinal uiIntervalMs bye])"

definition early_finaliseSession ::
  "('i, 'o) bit_io \<Rightarrow> RtpSessionState \<Rightarrow> RtpSessionParameters \<Rightarrow> ChannelStatistics \<Rightarrow> rand \<Rightarrow> int \<Rightarrow>
     Rfc4585RtcpReportManager \<Rightarrow> fault + (early_output list \<times> Rfc4585RtcpReportManager)" where
  "early_finaliseSession io st par stat rnd tNow e =
     (case checkMemberDatabase st par rnd tNow (ef_database e) of
        Inl f \<Rightarrow> Inl f
      | Inr db \<Rightarrow>
          let rm = ef_manager e; delayed = getActiveMemberCount db > RFC3550_IMMEDIATE_BYE_LIMIT;
              rm1 = (if delayed then rm\<lparr>rm_tPrevious := Some tNow, rm_uiPreviousMembers := 1, rm_bInitial := True\<rparr> else rm);
              dTransmissionInterval = (if delayed
                then computeRtcpIntervalSeconds rnd False 0 1 (db_avg_rtcp_size db) (sp_uiSessionBandwidthKbps par)
                       (rm_bUseReducedMinimum rm1) (rm_bInitial rm1) True
                else Some 0);
              e1 = e\<lparr>ef_base := (ef_base e)\<lparr>rp_manager := rm1, rp_database := db\<rparr>\<rparr>
          in (case early_generateCompoundRtcpPacket io st par stat tNow True False e1 of
                Inl f \<Rightarrow> Inl f
              | Inr (ps, e2) \<Rightarrow>
                  (case early_scheduleBye dTransmissionInterval ps e2 of Inl f \<Rightarrow> Inl f | Inr out \<Rightarrow> Inr (out, e2))))"

text \<open>
  What is sent when the timer fires: the regular report, a report with the feedback, or nothing. The reconsideration of
  RFC 4585 draws the minimal distance between regular reports at random.
\<close>

definition send_report ::
  "('i, 'o) bit_io \<Rightarrow> RtpSessionState \<Rightarrow> RtpSessionParameters \<Rightarrow> ChannelStatistics \<Rightarrow> rand \<Rightarrow> int \<Rightarrow>
     Rfc4585RtcpReportManager \<Rightarrow> fault + (early_output list \<times> Rfc4585RtcpReportManager)" where
  "send_report io st par stat rnd tNow e =
     (let tNext = rm_tNext (ef_manager e);
          regular = (case early_sendRtcpPacket io st par stat tNow False e of
                       Inl f \<Rightarrow> Inl f | Inr (out, e1) \<Rightarrow> Inr (out, e1\<lparr>ef_t_rr_last := tNext\<rparr>))
      in if ef_dT_rr_interval e \<noteq> 0 \<and> ef_t_rr_last e \<noteq> None
         then (case to_ms (fmul (ef_dT_rr_interval e) (fRand rnd (1 / 2) (3 / 2))) of
                 Inl f \<Rightarrow> Inl f
               | Inr uiT_rr_current_interval \<Rightarrow>
                   if \<not> pt_less tNext (pt_add (ef_t_rr_last e) (milliseconds uiT_rr_current_interval)) then regular
                   else if ef_vFeedback e = [] then Inr ([], e)
                   else early_sendRtcpPacket io st par stat tNow (ef_bSupportsReducedSize e) e)
         else regular)"

text \<open>
  The callback \<open>fnFeedback\<close>, if one was set, adds its packets to the queue. \<open>rnd\<close> and \<open>rnd1\<close> are the random numbers of the next
  interval and of the reconsideration.
\<close>

definition early_onRtcpIntervalTimeout ::
  "('i, 'o) bit_io \<Rightarrow> RtpSessionState \<Rightarrow> RtpSessionParameters \<Rightarrow> ChannelStatistics \<Rightarrow> rand \<Rightarrow> rand \<Rightarrow> int \<Rightarrow>
     (feedback_packet list \<Rightarrow> feedback_packet list) option \<Rightarrow> bool \<Rightarrow>
     Rfc4585RtcpReportManager \<Rightarrow> fault + (early_output list \<times> Rfc4585RtcpReportManager)" where
  "early_onRtcpIntervalTimeout io st par stat rnd rnd1 tNow fnFeedback ec e =
     (if rm_bShuttingDown (ef_manager e) then early_finaliseSession io st par stat rnd tNow e
      else if \<not> ec
      then (case checkMemberDatabase st par rnd tNow (ef_database e) of
              Inl f \<Rightarrow> Inl f
            | Inr db \<Rightarrow>
                let e1 = e\<lparr>ef_base := (ef_base e)\<lparr>rp_database := db\<rparr>,
                           ef_vFeedback := (case fnFeedback of None \<Rightarrow> ef_vFeedback e | Some fn \<Rightarrow> fn (ef_vFeedback e))\<rparr>
                in (case send_report io st par stat rnd1 tNow e1 of
                      Inl f \<Rightarrow> Inl f
                    | Inr (out1, e2) \<Rightarrow>
                        (case early_setNextRtcpTimeout st par rnd tNow e2 of
                           Inl f \<Rightarrow> Inl f
                         | Inr (out2, e3) \<Rightarrow> Inr (out1 @ out2, e3))))
      else Inr ([], e))"

section \<open>Runs of the manager\<close>

text \<open>
  \<open>early_run a b outs e\<close>: since reporting began, \<open>a\<close> early reports were scheduled, \<open>b\<close> regular intervals were begun and \<open>outs\<close> was put out.
  The other components may change the database, and the application the handler and the interval between regular reports, at any time.
\<close>

inductive early_run :: "('i, 'o) bit_io \<Rightarrow> RtpSessionParameters \<Rightarrow> nat \<Rightarrow> nat \<Rightarrow> early_output list \<Rightarrow> Rfc4585RtcpReportManager \<Rightarrow> bool"
  for io :: "('i, 'o) bit_io" and par :: RtpSessionParameters where
  start: "early_startReporting st par rnd t (Rfc4585RtcpReportManager_create par bReduced u db rc) = Inr (out, e) \<Longrightarrow> early_run io par 0 1 out e"
| scheduled: "early_run io par a b outs e \<Longrightarrow> scheduleEarlyFeedbackIfPossible rnd t0 t1 e = Inr (Some x, out, e')
    \<Longrightarrow> early_run io par (Suc a) b (outs @ out) e'"
| refused: "early_run io par a b outs e \<Longrightarrow> scheduleEarlyFeedbackIfPossible rnd t0 t1 e = Inr (None, out, e') \<Longrightarrow> early_run io par a b (outs @ out) e'"
| fired: "early_run io par a b outs e \<Longrightarrow> early_onRtcpIntervalTimeout io st par stat rnd rnd1 t fn False e = Inr (out, e')
    \<Longrightarrow> early_run io par a (if ef_bEarlyScheduled e then b else Suc b) (outs @ out) e'"
| cancelled: "early_run io par a b outs e \<Longrightarrow> early_onRtcpIntervalTimeout io st par stat rnd rnd1 t fn True e = Inr (out, e')
    \<Longrightarrow> early_run io par a b (outs @ out) e'"
| database: "early_run io par a b outs e \<Longrightarrow> early_run io par a b outs (e\<lparr>ef_base := (ef_base e)\<lparr>rp_database := db\<rparr>\<rparr>)"
| handler: "early_run io par a b outs e \<Longrightarrow> early_run io par a b outs (e\<lparr>ef_base := (ef_base e)\<lparr>rp_manager := setRtcpHandler (ef_manager e)\<rparr>\<rparr>)"
| interval: "early_run io par a b outs e \<Longrightarrow> early_run io par a b outs (setT_rr_interval d e)"

fun is_report :: "early_output \<Rightarrow> bool" where
  "is_report (FeedbackRtcp ps) = True"
| "is_report out = False"

definition report_count :: "early_output list \<Rightarrow> nat" where
  "report_count outs = length (filter is_report outs)"

lemma report_count_simps [simp]:
  "report_count [] = 0" "report_count (x # xs) = (if is_report x then 1 else 0) + report_count xs"
  "report_count (xs @ ys) = report_count xs + report_count ys" "report_count (map Base out) = 0"
  by (simp_all add: report_count_def filter_map comp_def)

text \<open>The timer is set one regular interval after the previous report time, early reports included.\<close>

definition on_schedule :: "Rfc4585RtcpReportManager \<Rightarrow> bool" where
  "on_schedule e \<longleftrightarrow> (unat (ef_uiT_rr_ms e) < 2 ^ 31 \<longrightarrow>
     rm_tNext (ef_manager e) = pt_add (rm_tPrevious (ef_manager e)) (milliseconds (ef_uiT_rr_ms e)))"

definition run_ok :: "nat \<Rightarrow> nat \<Rightarrow> nat \<Rightarrow> Rfc4585RtcpReportManager \<Rightarrow> bool" where
  "run_ok a b c e \<longleftrightarrow> a + (if ef_bAllowEarly e then 1 else 0) \<le> b \<and> (ef_bEarlyScheduled e \<longrightarrow> \<not> ef_bAllowEarly e)
     \<and> c + (if ef_bEarlyScheduled e then 1 else 0) < a + b \<and> on_schedule e \<and> \<not> rm_bShuttingDown (ef_manager e)"

lemma setNext_regular:
  assumes "setNextRtcpTimeout st par rnd t r = Inr (out, r')"
  shows "rm_tPrevious (rp_manager r') = Some t"
    and "rm_tNext (rp_manager r') = Some (t + uint (rm_uiTransmissionIntervalMs (rp_manager r')) * 1000)"
    and "rm_bShuttingDown (rp_manager r') = rm_bShuttingDown (rp_manager r)"
    and "rm_onRtcp (rp_manager r') = rm_onRtcp (rp_manager r)"
  using assms by (auto simp: setNextRtcpTimeout_def Let_def split: sum.splits prod.splits option.splits)

lemma double_interval: "unat (w :: u32) < 2 ^ 31 \<Longrightarrow> uint (2 * w) = 2 * uint w"
proof -
  assume "unat w < 2 ^ 31"
  then have "uint w < 2 ^ 31" using unsigned_less [of w] by (simp add: uint_nat del: of_nat_unat)
  then show ?thesis by (simp add: uint_word_ariths)
qed

lemma run_ok_next:
  assumes ok: "a + (if ef_bAllowEarly e then 1 else 0) \<le> b" "ef_bEarlyScheduled e \<longrightarrow> \<not> ef_bAllowEarly e" "c < a + b + (if ef_bEarlyScheduled e then 0 else 1)"
      "on_schedule e" "\<not> rm_bShuttingDown (ef_manager e)"
    and set: "early_setNextRtcpTimeout st par rnd t e = Inr (out, e')"
  shows "run_ok a (if ef_bEarlyScheduled e then b else Suc b) c e'" and "report_count out = 0"
proof -
  have "on_schedule e'"
  proof (cases "ef_bEarlyScheduled e")
    case True
    show ?thesis unfolding on_schedule_def
    proof
      assume T': "unat (ef_uiT_rr_ms e') < 2 ^ 31"
      have T: "ef_uiT_rr_ms e' = ef_uiT_rr_ms e" using set True by (auto simp: early_setNextRtcpTimeout_def Let_def)
      then have "uint (2 * ef_uiT_rr_ms e) = 2 * uint (ef_uiT_rr_ms e)" using T' double_interval by simp
      moreover have "rm_tNext (ef_manager e) = pt_add (rm_tPrevious (ef_manager e)) (milliseconds (ef_uiT_rr_ms e))"
        using ok(4) T' T by (simp add: on_schedule_def)
      ultimately show "rm_tNext (ef_manager e') = pt_add (rm_tPrevious (ef_manager e')) (milliseconds (ef_uiT_rr_ms e'))"
        using set True T by (auto simp: early_setNextRtcpTimeout_def Let_def pt_add_def milliseconds_def split: option.splits)
    qed
  next
    case False
    then obtain out' r where r: "setNextRtcpTimeout st par rnd t (ef_base e) = Inr (out', r)"
      and e': "e' = (onTimerSet (e\<lparr>ef_base := r\<rparr>))\<lparr>ef_bAllowEarly := True\<rparr>"
      using set by (auto simp: early_setNextRtcpTimeout_def split: sum.splits)
    show ?thesis using setNext_regular [OF r] by (simp add: on_schedule_def e' onTimerSet_def pt_add_def milliseconds_def)
  qed
  moreover have "\<not> rm_bShuttingDown (ef_manager e')"
    using set ok(5)
    by (auto simp: setNext_regular(3) early_setNextRtcpTimeout_def Let_def onTimerSet_def split: if_splits sum.splits)
  ultimately show "run_ok a (if ef_bEarlyScheduled e then b else Suc b) c e'"
    using set ok by (auto simp: run_ok_def early_setNextRtcpTimeout_def Let_def onTimerSet_def split: if_splits sum.splits)
  show "report_count out = 0" using set by (auto simp: early_setNextRtcpTimeout_def Let_def split: if_splits sum.splits)
qed

lemma generateCompound_frame:
  assumes "early_generateCompoundRtcpPacket io st par stat t bBye bMin e = Inr (ps, e')"
  shows "\<exists>qs db rc. e' = e\<lparr>ef_base := (ef_base e)\<lparr>rp_database := db, rp_clock := rc\<rparr>, ef_vFeedback := []\<rparr>
    \<and> (\<not> bBye \<longrightarrow> ps = map Session qs @ map Feedback (ef_vFeedback e))"
  using assms by (auto simp: early_generateCompoundRtcpPacket_def Let_def split: sum.splits)

text \<open>Sending leaves the timers alone, passes on at most one packet and, if the queue is not empty, all of the queue.\<close>

lemma sendRtcp_frame:
  assumes "early_sendRtcpPacket io st par stat t bMin e = Inr (out, e')"
  shows "\<exists>qs db rc. e' = e\<lparr>ef_base := (ef_base e)\<lparr>rp_database := db, rp_clock := rc\<rparr>, ef_vFeedback := []\<rparr>
    \<and> out = early_handler e (map Session qs @ map Feedback (ef_vFeedback e))"
proof -
  obtain ps where g: "early_generateCompoundRtcpPacket io st par stat t False bMin e = Inr (ps, e')" and out: "out = early_handler e' ps"
    using assms by (auto simp: early_sendRtcpPacket_def split: sum.splits)
  from generateCompound_frame [OF g] out show ?thesis by (auto simp: early_handler_def)
qed

lemma send_report_cases:
  assumes "send_report io st par stat rnd t e = Inr (out, e')"
  shows "out = [] \<and> ef_vFeedback e = [] \<and> e' = e
    \<or> (\<exists>e1. early_sendRtcpPacket io st par stat t False e = Inr (out, e1) \<and> e' = e1\<lparr>ef_t_rr_last := rm_tNext (ef_manager e)\<rparr>)
    \<or> early_sendRtcpPacket io st par stat t (ef_bSupportsReducedSize e) e = Inr (out, e')"
proof -
  define S where "S = early_sendRtcpPacket io st par stat t (ef_bSupportsReducedSize e) e"
  define R where "R = (case early_sendRtcpPacket io st par stat t False e of
    Inl f \<Rightarrow> Inl f | Inr (out, e1) \<Rightarrow> Inr (out, e1\<lparr>ef_t_rr_last := rm_tNext (ef_manager e)\<rparr>))"
  have "Inr (out, e') = (if ef_dT_rr_interval e \<noteq> 0 \<and> ef_t_rr_last e \<noteq> None
      then (case to_ms (fmul (ef_dT_rr_interval e) (fRand rnd (1 / 2) (3 / 2))) of
              Inl f \<Rightarrow> Inl f
            | Inr uiT_rr_current_interval \<Rightarrow>
                if \<not> pt_less (rm_tNext (ef_manager e)) (pt_add (ef_t_rr_last e) (milliseconds uiT_rr_current_interval)) then R
                else if ef_vFeedback e = [] then Inr ([], e) else S)
      else R)"
    by (simp only: assms [symmetric] send_report_def Let_def R_def S_def)
  then have "R = Inr (out, e') \<or> out = [] \<and> ef_vFeedback e = [] \<and> e' = e \<or> S = Inr (out, e')"
    by (auto split: if_split_asm sum.split_asm)
  moreover have "\<exists>e1. early_sendRtcpPacket io st par stat t False e = Inr (out, e1) \<and> e' = e1\<lparr>ef_t_rr_last := rm_tNext (ef_manager e)\<rparr>"
    if "R = Inr (out, e')"
    using that by (simp add: R_def split: sum.split_asm prod.split_asm)
  ultimately show ?thesis unfolding S_def by blast
qed

lemma send_report_frame:
  assumes "send_report io st par stat rnd t e = Inr (out, e')"
  shows "\<exists>db rc tl. e' = e\<lparr>ef_base := (ef_base e)\<lparr>rp_database := db, rp_clock := rc\<rparr>, ef_vFeedback := [], ef_t_rr_last := tl\<rparr>
    \<and> (out = [] \<and> ef_vFeedback e = [] \<or> (\<exists>qs. out = early_handler e (map Session qs @ map Feedback (ef_vFeedback e))))"
proof -
  let ?upd = "\<lambda>db rc tl. e\<lparr>ef_base := (ef_base e)\<lparr>rp_database := db, rp_clock := rc\<rparr>, ef_vFeedback := [], ef_t_rr_last := tl\<rparr>"
  consider (none) "out = []" "ef_vFeedback e = []" "e' = e"
    | (regular) e1 tl where "early_sendRtcpPacket io st par stat t False e = Inr (out, e1)" "e' = e1\<lparr>ef_t_rr_last := tl\<rparr>"
    | (minimal) "early_sendRtcpPacket io st par stat t (ef_bSupportsReducedSize e) e = Inr (out, e')"
    using send_report_cases [OF assms] by blast
  then show ?thesis
  proof cases
    case none
    then have "e' = ?upd (ef_database e) (rp_clock (ef_base e)) (ef_t_rr_last e)" by simp
    then show ?thesis using none by blast
  next
    case regular
    from sendRtcp_frame [OF regular(1)] obtain qs db rc where "e1 = e\<lparr>ef_base := (ef_base e)\<lparr>rp_database := db, rp_clock := rc\<rparr>, ef_vFeedback := []\<rparr>"
      "out = early_handler e (map Session qs @ map Feedback (ef_vFeedback e))" by blast
    then have "e' = ?upd db rc tl" using regular(2) by simp
    then show ?thesis using \<open>out = _\<close> by blast
  next
    case minimal
    from sendRtcp_frame [OF this] obtain qs db rc where "e' = e\<lparr>ef_base := (ef_base e)\<lparr>rp_database := db, rp_clock := rc\<rparr>, ef_vFeedback := []\<rparr>"
      "out = early_handler e (map Session qs @ map Feedback (ef_vFeedback e))" by blast
    then have "e' = ?upd db rc (ef_t_rr_last e)" by simp
    then show ?thesis using \<open>out = _\<close> by blast
  qed
qed

lemma timeout_parts:
  assumes "early_onRtcpIntervalTimeout io st par stat rnd rnd1 t fn False e = Inr (out, e')" and "\<not> rm_bShuttingDown (ef_manager e)"
  obtains db e1 out1 e2 out2 where
    "e1 = e\<lparr>ef_base := (ef_base e)\<lparr>rp_database := db\<rparr>, ef_vFeedback := (case fn of None \<Rightarrow> ef_vFeedback e | Some fn \<Rightarrow> fn (ef_vFeedback e))\<rparr>"
    "send_report io st par stat rnd1 t e1 = Inr (out1, e2)"
    "early_setNextRtcpTimeout st par rnd t e2 = Inr (out2, e')" "out = out1 @ out2"
  using assms by (auto simp: early_onRtcpIntervalTimeout_def Let_def split: sum.splits)

lemma report_count_handler: "report_count (early_handler e ps) \<le> 1"
  by (simp add: early_handler_def)

lemma run_ok_fired:
  assumes ok: "run_ok a b c e" and fire: "early_onRtcpIntervalTimeout io st par stat rnd rnd1 t fn False e = Inr (out, e')"
  shows "run_ok a (if ef_bEarlyScheduled e then b else Suc b) (c + report_count out) e'"
proof -
  have "\<not> rm_bShuttingDown (ef_manager e)" using ok by (simp add: run_ok_def)
  then obtain db e1 out1 e2 out2 where
    e1: "e1 = e\<lparr>ef_base := (ef_base e)\<lparr>rp_database := db\<rparr>, ef_vFeedback := (case fn of None \<Rightarrow> ef_vFeedback e | Some fn \<Rightarrow> fn (ef_vFeedback e))\<rparr>"
    and send: "send_report io st par stat rnd1 t e1 = Inr (out1, e2)"
    and set: "early_setNextRtcpTimeout st par rnd t e2 = Inr (out2, e')" and out: "out = out1 @ out2"
    by (rule timeout_parts [OF fire])
  from send_report_frame [OF send] obtain db' rc tl where
    e2: "e2 = e1\<lparr>ef_base := (ef_base e1)\<lparr>rp_database := db', rp_clock := rc\<rparr>, ef_vFeedback := [], ef_t_rr_last := tl\<rparr>"
    and out1: "out1 = [] \<and> ef_vFeedback e1 = [] \<or> (\<exists>qs. out1 = early_handler e1 (map Session qs @ map Feedback (ef_vFeedback e1)))"
    by (elim exE conjE)
  then have c1: "report_count out1 \<le> 1" using report_count_handler by auto
  have same: "ef_bAllowEarly e2 = ef_bAllowEarly e" "ef_bEarlyScheduled e2 = ef_bEarlyScheduled e"
    "on_schedule e2 = on_schedule e" "rm_bShuttingDown (ef_manager e2) = rm_bShuttingDown (ef_manager e)"
    by (simp_all add: e1 e2 on_schedule_def)
  have "run_ok a (if ef_bEarlyScheduled e2 then b else Suc b) (c + report_count out1) e'" and "report_count out2 = 0"
    by (rule run_ok_next [OF _ _ _ _ _ set]; use ok c1 same in \<open>auto simp: run_ok_def split: if_splits\<close>)+
  then show ?thesis by (simp add: out same)
qed

lemma run_ok_reachable: "early_run io par a b outs e \<Longrightarrow> run_ok a b (report_count outs) e"
proof (induction rule: early_run.induct)
  case (start st rnd t bReduced u db rc out e)
  let ?e = "Rfc4585RtcpReportManager_create par bReduced u db rc"
  let ?e0 = "?e\<lparr>ef_base := (ef_base ?e)\<lparr>rp_manager := (ef_manager ?e)\<lparr>rm_bShuttingDown := False\<rparr>\<rparr>\<rparr>"
  obtain out' r where r: "setNextRtcpTimeout st par rnd t (ef_base ?e0) = Inr (out', r)" "out = map Base out'"
    and e: "e = (onTimerSet (?e0\<lparr>ef_base := r\<rparr>))\<lparr>ef_bAllowEarly := True\<rparr>"
    using start by (auto simp: early_startReporting_def early_setNextRtcpTimeout_def Rfc4585RtcpReportManager_create_def split: sum.splits)
  then show ?case using setNext_regular [OF r(1)]
    by (simp add: run_ok_def on_schedule_def onTimerSet_def pt_add_def milliseconds_def) (simp add: Rfc4585RtcpReportManager_create_def)
next
  case (scheduled a b outs e rnd t0 t1 x out e')
  then show ?case
    by (auto simp: scheduleEarlyFeedbackIfPossible_def run_ok_def on_schedule_def Let_def split: sum.splits if_splits)
next
  case (refused a b outs e rnd t0 t1 out e')
  then show ?case by (auto simp: scheduleEarlyFeedbackIfPossible_def Let_def split: sum.splits if_splits)
next
  case (fired a b outs e st stat rnd rnd1 t fn out e')
  then show ?case using run_ok_fired [OF fired.IH fired.hyps(2)] by (simp only: report_count_simps)
next
  case (cancelled a b outs e st stat rnd rnd1 t fn out e')
  then show ?case by (auto simp: early_onRtcpIntervalTimeout_def run_ok_def)
qed (auto simp: run_ok_def on_schedule_def setT_rr_interval_def setRtcpHandler_def)

section \<open>Properties\<close>

text \<open>
  C23: Early feedback does not exceed its budget. However the requests for early feedback, the timeouts, cancelled waits and
  changes of the session interleave, the early reports never outnumber the regular intervals, fewer than
  twice as many reports as regular intervals are sent, and the timer always stands one regular interval after the last
  report time, so that an early report takes the place of a regular one.
\<close>

theorem early_reports_limited:
  assumes "early_run io par nEarly nRegular outs e"
  shows "nEarly \<le> nRegular \<and> report_count outs < 2 * nRegular
    \<and> (unat (ef_uiT_rr_ms e) < 2 ^ 31 \<longrightarrow> rm_tNext (ef_manager e) = pt_add (rm_tPrevious (ef_manager e)) (milliseconds (ef_uiT_rr_ms e)))"
  using run_ok_reachable [OF assms] by (auto simp: run_ok_def on_schedule_def split: if_splits)

definition sample_manager :: Rfc4585RtcpReportManager where
  "sample_manager = Rfc4585RtcpReportManager_create sample_parameters False 0 sample_database (RtpReferenceClock_new RC_WALL_CLOCK_TIME)"

lemma sample_interval:
  "rfc4585_doComputeRtcpIntervalSeconds False rnd b n 1 76 64 True
    = Some (fdiv (fmul (fdiv (fmul 76 1) (fmul 64 (25 / 4))) (fRand rnd (1 / 2) (3 / 2))) COMPENSATION)"
proof -
  have "fmul 64 (25 / 4) \<noteq> 0" by code_simp
  moreover have "drop_bit 2 (1 :: u32) = 0" by code_simp
  moreover have "n \<le> 0 \<longleftrightarrow> n = 0" by simp
  ultimately show ?thesis
    by (cases "n = 0") (auto simp del: word_le_0_iff simp: rfc4585_doComputeRtcpIntervalSeconds_def computeDeterministicRtcpIntervalSeconds_def fdivide_def Let_def of_u32_def)
qed

section \<open>Delay of early feedback\<close>

lemma round_double_nonneg: "0 \<le> x \<Longrightarrow> 0 \<le> round_double x"
  using round_double_bounds(3) [of x x] by simp

text \<open>A result of the rounding is a double.\<close>

lemma round_double_idem:
  assumes "0 \<le> x"
  shows "round_double (round_double x) = round_double x"
proof (cases "x = 0")
  case False
  then have x: "0 < x" using assms by simp
  define y where "y = round_double x"
  have y0: "0 < y" unfolding y_def using x by (rule round_double_near)
  have le: "2 powi (rat_exponent x) \<le> y" "y \<le> 2 powi (rat_exponent x + 1)"
    unfolding y_def using round_double_between [OF x] by simp_all
  define n where "n = round_half_even (x / 2 powi (rat_exponent x - 52))"
  have y: "y = of_int n * 2 powi (rat_exponent x - 52)" using x by (simp add: y_def n_def round_double_def Let_def)
  have e: "rat_exponent x \<le> rat_exponent y"
  proof (rule ccontr)
    assume "\<not> rat_exponent x \<le> rat_exponent y"
    then have "(2 :: rat) powi (rat_exponent y + 1) \<le> 2 powi (rat_exponent x)" by (intro power_int_increasing) simp_all
    then show False using rat_exponent_upper [OF y0] le by linarith
  qed
  have "\<exists>m. y = of_int m * 2 powi (rat_exponent y - 52)"
  proof (cases "rat_exponent y = rat_exponent x")
    case False
    then have "(2 :: rat) powi (rat_exponent x + 1) \<le> 2 powi (rat_exponent y)" using e by (intro power_int_increasing) simp_all
    then have "y = 2 powi (rat_exponent y)" using rat_exponent_lower [OF y0] le by linarith
    also have "\<dots> = of_int (2 ^ 52) * 2 powi (rat_exponent y - 52)" by (simp add: power_int_diff)
    finally show ?thesis by blast
  qed (use y in auto)
  then obtain m where m: "y = of_int m * 2 powi (rat_exponent y - 52)" by blast
  have "(2 :: rat) powi (rat_exponent y - 52) \<noteq> 0" by simp
  then have "y / 2 powi (rat_exponent y - 52) = of_int m" using m nonzero_divide_eq_eq by metis
  then show ?thesis using y0 m unfolding y_def [symmetric] by (simp add: round_double_def Let_def)
qed (simp add: round_double_def)

lemma to_ms_mono:
  assumes "to_ms d = Inr m" and "to_ms d' = Inr m'" and "0 \<le> d" and "d \<le> d'"
  shows "uint m \<le> uint m'"
proof -
  have "0 \<le> fmul d 1000" unfolding fmul_def using round_double_bounds(3) [of "d * 1000" "d * 1000"] assms(3) by simp
  moreover have "fmul d 1000 \<le> fmul d' 1000" unfolding fmul_def using assms(3,4) by (intro round_double_mono) simp_all
  ultimately have "fadd (fmul d 1000) (1 / 2) \<le> fadd (fmul d' 1000) (1 / 2)"
    unfolding fadd_def by (intro round_double_mono) simp_all
  moreover have "uint m = \<lfloor>fadd (fmul d 1000) (1 / 2)\<rfloor>" "uint m' = \<lfloor>fadd (fmul d' 1000) (1 / 2)\<rfloor>"
    using assms(1,2) by (auto simp: to_ms_def double_to_u32_def unsigned_of_int take_bit_int_eq_self floor_less_iff split: if_splits)
  ultimately show ?thesis by (simp add: floor_mono)
qed

definition delay_ok :: "Rfc4585RtcpReportManager \<Rightarrow> bool" where
  "delay_ok e \<longleftrightarrow> 0 \<le> ef_dT_dither_max e \<and> round_double (ef_dT_dither_max e) = ef_dT_dither_max e \<and> 0 \<le> ef_dl e
     \<and> rm_tNext (ef_manager e) \<noteq> None \<and> rm_tPrevious (ef_manager e) \<noteq> None
     \<and> (\<exists>b. tt_kind (rm_pTransmissionTimer (ef_manager e)) = Rfc4585TransmissionTimer b)"

lemma fdivide_nonneg: "0 \<le> x \<Longrightarrow> 0 \<le> y \<Longrightarrow> fdivide x y = Some z \<Longrightarrow> 0 \<le> z"
  by (auto simp: fdivide_def fdiv_def round_double_nonneg split: if_splits)

lemma fmul_nonneg: "0 \<le> x \<Longrightarrow> 0 \<le> y \<Longrightarrow> 0 \<le> fmul x y"
  by (simp add: fmul_def round_double_nonneg)

lemma of_u32_nonneg: "0 \<le> of_u32 w"
  by (simp add: of_u32_def del: of_nat_unat)

lemma rfc4585_interval_nonneg:
  assumes "rfc4585_doComputeRtcpIntervalSeconds bP rnd b s n avg bw bInitial = Some d"
  shows "0 \<le> d"
proof -
  have rnd: "0 \<le> fRand rnd (1 / 2) (3 / 2)"
  proof (cases rnd)
    case (Pair r m)
    have "0 \<le> fmul (fdiv (of_nat r) (of_nat m)) (fsub (3 / 2) (1 / 2))"
      by (intro fmul_nonneg) (simp_all add: fdiv_def fsub_def round_double_nonneg)
    then show ?thesis by (simp add: Pair fRand_def fadd_def round_double_nonneg)
  qed
  have det: "0 \<le> x" if "computeDeterministicRtcpIntervalSeconds b s n (of_u32 avg) (fmul (of_u32 bw) (25 / 4)) = Some x" for x
    using that unfolding computeDeterministicRtcpIntervalSeconds_def Let_def
    by (simp split: if_split_asm) (erule fdivide_nonneg [rotated 2]; simp add: fmul_nonneg of_u32_nonneg)+
  have "0 \<le> COMPENSATION" using compensation_value by linarith
  then have last: "0 \<le> fdiv (fmul x (fRand rnd (1 / 2) (3 / 2))) COMPENSATION" if "0 \<le> x" for x
    unfolding fdiv_def using that rnd by (intro round_double_nonneg divide_nonneg_nonneg fmul_nonneg)
  obtain x where "computeDeterministicRtcpIntervalSeconds b s n (of_u32 avg) (fmul (of_u32 bw) (25 / 4)) = Some x"
    using assms by (cases "computeDeterministicRtcpIntervalSeconds b s n (of_u32 avg) (fmul (of_u32 bw) (25 / 4))")
      (simp_all add: rfc4585_doComputeRtcpIntervalSeconds_def split: if_split_asm)
  then show ?thesis using assms det [of x] last [of x] last [of 1]
    by (auto simp: rfc4585_doComputeRtcpIntervalSeconds_def Let_def split: if_split_asm)
qed

lemma setNext_delay:
  assumes "setNextRtcpTimeout st par rnd t r = Inr (out, r')" and "tt_kind (rm_pTransmissionTimer (rp_manager r)) = Rfc4585TransmissionTimer b"
  shows "0 \<le> rm_dTransmissionInterval (rp_manager r')" and "tt_kind (rm_pTransmissionTimer (rp_manager r')) = Rfc4585TransmissionTimer b"
  using assms rfc4585_interval_nonneg [of _ rnd]
  by (auto simp: setNextRtcpTimeout_def timer_computeRtcpIntervalSeconds_def Let_def split: sum.splits option.splits)

lemma delay_ok_regular:
  assumes "setNextRtcpTimeout st par rnd t (ef_base e) = Inr (out, r)" and "0 \<le> ef_dl e"
    and "tt_kind (rm_pTransmissionTimer (ef_manager e)) = Rfc4585TransmissionTimer b"
  shows "delay_ok ((onTimerSet (e\<lparr>ef_base := r\<rparr>))\<lparr>ef_bAllowEarly := x\<rparr>)"
  using setNext_delay [OF assms(1,3)] setNext_regular(1,2) [OF assms(1)] assms(2)
  by (simp add: delay_ok_def onTimerSet_def fmul_nonneg) (simp add: fmul_def round_double_idem)

lemma delay_ok_next:
  assumes "delay_ok e" and "early_setNextRtcpTimeout st par rnd t e = Inr (out, e')"
  shows "delay_ok e'"
proof (cases "ef_bEarlyScheduled e")
  case True
  then show ?thesis using assms by (auto simp: early_setNextRtcpTimeout_def Let_def delay_ok_def pt_add_def milliseconds_def)
next
  case False
  then obtain out' r where "setNextRtcpTimeout st par rnd t (ef_base e) = Inr (out', r)" and e': "e' = (onTimerSet (e\<lparr>ef_base := r\<rparr>))\<lparr>ef_bAllowEarly := True\<rparr>"
    using assms(2) by (auto simp: early_setNextRtcpTimeout_def split: sum.splits)
  then show ?thesis using assms(1) delay_ok_regular [of st par rnd t e out' r] by (auto simp: delay_ok_def [of e])
qed

lemma delay_ok_reachable: "early_run io par a b outs e \<Longrightarrow> delay_ok e"
proof (induction rule: early_run.induct)
  case (start st rnd t bReduced u db rc out e)
  let ?e = "Rfc4585RtcpReportManager_create par bReduced u db rc"
  let ?e0 = "?e\<lparr>ef_base := (ef_base ?e)\<lparr>rp_manager := (ef_manager ?e)\<lparr>rm_bShuttingDown := False\<rparr>\<rparr>\<rparr>"
  obtain out' r where r: "setNextRtcpTimeout st par rnd t (ef_base ?e0) = Inr (out', r)"
    and e: "e = (onTimerSet (?e0\<lparr>ef_base := r\<rparr>))\<lparr>ef_bAllowEarly := True\<rparr>"
    using start by (auto simp: early_startReporting_def early_setNextRtcpTimeout_def Rfc4585RtcpReportManager_create_def split: sum.splits)
  show ?case unfolding e
    by (rule delay_ok_regular [OF r, of False])
      (simp_all add: Rfc4585RtcpReportManager_create_def RtcpReportManager_create_def RtcpTransmissionTimer_create_def)
next
  case (scheduled a b outs e rnd t0 t1 x out e')
  then show ?case
    by (auto simp: scheduleEarlyFeedbackIfPossible_def delay_ok_def Let_def split: sum.split_asm if_split_asm)
next
  case (refused a b outs e rnd t0 t1 out e')
  then show ?case by (auto simp: scheduleEarlyFeedbackIfPossible_def Let_def split: sum.split_asm if_split_asm)
next
  case (fired a b outs e st stat rnd rnd1 t fn out e')
  have "\<not> rm_bShuttingDown (ef_manager e)" using run_ok_reachable [OF fired.hyps(1)] by (simp add: run_ok_def)
  then obtain db e1 out1 e2 out2 where
    e1: "e1 = e\<lparr>ef_base := (ef_base e)\<lparr>rp_database := db\<rparr>, ef_vFeedback := (case fn of None \<Rightarrow> ef_vFeedback e | Some fn \<Rightarrow> fn (ef_vFeedback e))\<rparr>"
    and send: "send_report io st par stat rnd1 t e1 = Inr (out1, e2)"
    and set: "early_setNextRtcpTimeout st par rnd t e2 = Inr (out2, e')" and "out = out1 @ out2"
    by (rule timeout_parts [OF fired.hyps(2)])
  from send_report_frame [OF send] obtain db' rc tl where
    "e2 = e1\<lparr>ef_base := (ef_base e1)\<lparr>rp_database := db', rp_clock := rc\<rparr>, ef_vFeedback := [], ef_t_rr_last := tl\<rparr>"
    by (elim exE conjE)
  then have "delay_ok e2" using fired.IH by (simp add: e1 delay_ok_def)
  then show ?case using set by (rule delay_ok_next)
next
  case (cancelled a b outs e st stat rnd rnd1 t fn out e')
  then show ?case using run_ok_reachable [OF cancelled.hyps(1)] by (auto simp: early_onRtcpIntervalTimeout_def run_ok_def)
qed (auto simp: delay_ok_def setT_rr_interval_def setRtcpHandler_def)

lemma early_delay:
  assumes "scheduleEarlyFeedbackIfPossible (r, RAND_MAX) t0 tTimer e = Inr (Some (tE, uiMs), outs, e')"
    and "delay_ok e" and "rm_tNext (ef_manager e) = Some tNext" and "r \<le> RAND_MAX" and "0 < RAND_MAX"
  shows "tE \<le> tNext + (tTimer - t0)"
proof -
  let ?d = "ef_dT_dither_max e" and ?f = "fRand (r, RAND_MAX) 0 1"
  obtain u where u: "to_ms ?d = Inr u" and le: "t0 + uint u * 1000 \<le> tNext"
    and ms: "to_ms (fmul ?f ?d) = Inr uiMs" and tE: "tE = tTimer + uint uiMs * 1000"
    using assms(1,3) by (auto simp: scheduleEarlyFeedbackIfPossible_def Let_def pt_less_def pt_add_def milliseconds_def
        split: sum.split_asm if_split_asm)
  have unit: "0 \<le> round_double x \<and> round_double x \<le> 1" if "0 \<le> x" "x \<le> 1" for x
    using that round_double_nonneg round_double_mono [of x 1] by simp
  have f: "0 \<le> ?f" "?f \<le> 1" using assms(4,5) by (simp_all add: fRand_def fadd_def fmul_def fsub_def fdiv_def unit)
  have d: "0 \<le> ?d" "round_double ?d = ?d" using assms(2) by (simp_all add: delay_ok_def)
  have "fmul ?f ?d \<le> round_double ?d" unfolding fmul_def using f d by (intro round_double_mono) (simp_all add: mult_left_le_one_le)
  then have "uint uiMs \<le> uint u" using to_ms_mono [OF ms u] f d by (simp add: fmul_nonneg)
  then show ?thesis using le tE by linarith
qed

text \<open>
  C35: Early feedback is on time. However the requests, timeouts and changes of the session interleave, a report that is
  scheduled early is due no later than the regular report it comes before (up to the time between the two
  readings of the clock), whatever the random number.
\<close>

theorem early_feedback_in_time:
  assumes "early_run io par nEarly nRegular outs e"
    and "scheduleEarlyFeedbackIfPossible (r, RAND_MAX) t0 tTimer e = Inr (Some (tE, uiMs), out, e')" and "r \<le> RAND_MAX" and "0 < RAND_MAX"
  shows "\<exists>tNext. rm_tNext (ef_manager e) = Some tNext \<and> tE \<le> tNext + (tTimer - t0) \<and> ef_tE e' = Some tE \<and> out = [EarlyTimer uiMs]"
proof -
  have ok: "delay_ok e" using assms(1) by (rule delay_ok_reachable)
  then obtain tNext where tNext: "rm_tNext (ef_manager e) = Some tNext" by (auto simp: delay_ok_def)
  have "ef_tE e' = Some tE \<and> out = [EarlyTimer uiMs]"
    using assms(2) by (auto simp: scheduleEarlyFeedbackIfPossible_def Let_def split: sum.split_asm if_split_asm)
  then show ?thesis using early_delay [OF assms(2) ok tNext assms(3,4)] tNext by blast
qed

section \<open>Delivery of feedback\<close>

lemma queue_empty: "early_run io par a b outs e \<Longrightarrow> ef_vFeedback e = []"
proof (induction rule: early_run.induct)
  case (start st rnd t bReduced u db rc out e)
  then show ?case
    by (auto simp: early_startReporting_def early_setNextRtcpTimeout_def Rfc4585RtcpReportManager_create_def onTimerSet_def split: sum.split_asm)
next
  case (scheduled a b outs e rnd t0 t1 x out e')
  then show ?case by (auto simp: scheduleEarlyFeedbackIfPossible_def Let_def split: sum.split_asm if_split_asm)
next
  case (refused a b outs e rnd t0 t1 out e')
  then show ?case by (auto simp: scheduleEarlyFeedbackIfPossible_def Let_def split: sum.split_asm if_split_asm)
next
  case (fired a b outs e st stat rnd rnd1 t fn out e')
  have "\<not> rm_bShuttingDown (ef_manager e)" using run_ok_reachable [OF fired.hyps(1)] by (simp add: run_ok_def)
  then obtain db e1 out1 e2 out2 where
    "e1 = e\<lparr>ef_base := (ef_base e)\<lparr>rp_database := db\<rparr>, ef_vFeedback := (case fn of None \<Rightarrow> ef_vFeedback e | Some fn \<Rightarrow> fn (ef_vFeedback e))\<rparr>"
    and send: "send_report io st par stat rnd1 t e1 = Inr (out1, e2)"
    and set: "early_setNextRtcpTimeout st par rnd t e2 = Inr (out2, e')" and "out = out1 @ out2"
    by (rule timeout_parts [OF fired.hyps(2)])
  have "ef_vFeedback e2 = []" using send_report_frame [OF send] by auto
  then show ?case using set by (auto simp: early_setNextRtcpTimeout_def onTimerSet_def Let_def split: sum.split_asm if_split_asm)
next
  case (cancelled a b outs e st stat rnd rnd1 t fn out e')
  then show ?case using run_ok_reachable [OF cancelled.hyps(1)] by (auto simp: early_onRtcpIntervalTimeout_def run_ok_def)
qed (auto simp: setT_rr_interval_def)

lemma to_ms_total:
  assumes "0 \<le> d" and "d \<le> 1000000" and "r \<le> RAND_MAX" and "0 < RAND_MAX"
  shows "\<exists>w. to_ms (fmul d (fRand (r, RAND_MAX) (1 / 2) (3 / 2))) = Inr w"
proof -
  let ?f = "fRand (r, RAND_MAX) (1 / 2) (3 / 2)"
  have f: "1 / 2 \<le> ?f" "?f \<le> 3 / 2" using fRand_between [OF assms(3,4)] by simp_all
  have "d * ?f \<le> 1000000 * (3 / 2)" using assms f by (intro mult_mono) simp_all
  then have "fmul d ?f \<le> round_double 1500000" unfolding fmul_def using assms f by (intro round_double_mono) simp_all
  also have "\<dots> = 1500000" by code_simp
  finally have 1: "fmul d ?f \<le> 1500000" .
  have 0: "0 \<le> fmul d ?f" using assms f by (intro fmul_nonneg) simp_all
  have "fmul (fmul d ?f) 1000 \<le> round_double 1500000000" unfolding fmul_def [of _ 1000] using 0 1 by (intro round_double_mono) simp_all
  also have "\<dots> = 1500000000" by code_simp
  finally have 2: "fmul (fmul d ?f) 1000 \<le> 1500000000" .
  have "fadd (fmul (fmul d ?f) 1000) (1 / 2) \<le> round_double 1500000001"
    unfolding fadd_def using 0 2 by (intro round_double_mono) (simp_all add: fmul_nonneg)
  also have "\<dots> < 2 ^ 32" by code_simp
  finally show ?thesis unfolding to_ms_def
    using 0 by (intro double_to_u32_ok) (simp_all add: fadd_def round_double_nonneg fmul_nonneg)
qed

lemma generate_total:
  assumes "db_ok st par (ef_database e)"
  shows "\<exists>ps e'. early_generateCompoundRtcpPacket io st par stat t False bMin e = Inr (ps, e')"
  using generate_result [OF assms, of io stat t False bMin "rp_clock (ef_base e)"]
  by (auto simp: early_generateCompoundRtcpPacket_def Let_def)

lemma send_total:
  assumes "db_ok st par (ef_database e)"
  shows "\<exists>out e'. early_sendRtcpPacket io st par stat t bMin e = Inr (out, e')"
proof -
  obtain ps e' where "early_generateCompoundRtcpPacket io st par stat t False bMin e = Inr (ps, e')" using generate_total [OF assms] by metis
  then show ?thesis by (simp add: early_sendRtcpPacket_def)
qed

lemma send_report_total:
  assumes "db_ok st par (ef_database e)" and "0 \<le> ef_dT_rr_interval e" and "ef_dT_rr_interval e \<le> 1000000"
    and "r \<le> RAND_MAX" and "0 < RAND_MAX"
  shows "\<exists>out e'. send_report io st par stat (r, RAND_MAX) t e = Inr (out, e')"
proof -
  obtain w where w: "to_ms (fmul (ef_dT_rr_interval e) (fRand (r, RAND_MAX) (1 / 2) (3 / 2))) = Inr w"
    using to_ms_total [OF assms(2-5)] by blast
  obtain out1 e1 out2 e2 where "early_sendRtcpPacket io st par stat t False e = Inr (out1, e1)"
    "early_sendRtcpPacket io st par stat t (ef_bSupportsReducedSize e) e = Inr (out2, e2)"
    using send_total [OF assms(1)] by metis
  then show ?thesis using w by (simp add: send_report_def Let_def)
qed

text \<open>
  C24: Early feedback is delivered. In every run, when the timer of an early report fires in a session of the size for
  which the members' timeout is the minimal one, exactly one compound packet is passed on, and it carries the packets
  that the feedback callback returned, all of them and in order, after the standard reports; the schedule then
  returns to regular reports.
\<close>

theorem early_feedback_delivered:
  assumes "early_run io par nEarly nRegular outs e" and "ef_bEarlyScheduled e" and "rm_onRtcp (ef_manager e)"
    and "session_reachable io par (st, ef_database e)"
    and "0 < sp_uiSessionBandwidthKbps par" and "0 \<le> db_avg_rtcp_size (ef_database e)"
    and "db_avg_rtcp_size (ef_database e) * of_u32 (getActiveMemberCount (ef_database e)) \<le> 23 * of_u32 (sp_uiSessionBandwidthKbps par)"
    and "0 \<le> ef_dT_rr_interval e" and "ef_dT_rr_interval e \<le> 1000000" and "r \<le> RAND_MAX" and "0 < RAND_MAX"
    and "fnFeedback [] \<noteq> []"
  shows "\<exists>out e' ps. early_onRtcpIntervalTimeout io st par stat rnd (r, RAND_MAX) tNow (Some fnFeedback) False e = Inr (out, e')
    \<and> filter is_report out = [FeedbackRtcp (map Session ps @ map Feedback (fnFeedback []))] \<and> \<not> ef_bEarlyScheduled e' \<and> ef_vFeedback e' = []"
proof -
  have q: "ef_vFeedback e = []" and run: "\<not> rm_bShuttingDown (ef_manager e)"
    using queue_empty [OF assms(1)] run_ok_reachable [OF assms(1)] by (simp_all add: run_ok_def)
  obtain db where db: "checkMemberDatabase st par rnd tNow (ef_database e) = Inr db" using small_session_check [OF assms(5-7)] by blast
  have ok: "db_ok st par db" using session_ok [OF assms(4)] db_ok_check [OF _ db] by simp
  define e1 where "e1 = e\<lparr>ef_base := (ef_base e)\<lparr>rp_database := db\<rparr>, ef_vFeedback := fnFeedback []\<rparr>"
  have e1: "ef_database e1 = db" "ef_dT_rr_interval e1 = ef_dT_rr_interval e" "ef_vFeedback e1 = fnFeedback []"
    "ef_bEarlyScheduled e1" "rm_onRtcp (ef_manager e1)" using assms(2,3) by (simp_all add: e1_def)
  obtain out1 e2 where send: "send_report io st par stat (r, RAND_MAX) tNow e1 = Inr (out1, e2)"
    using send_report_total [of st par e1] ok assms(8-11) e1 by metis
  from send_report_frame [OF this] obtain db' rc tl qs where
    e2: "e2 = e1\<lparr>ef_base := (ef_base e1)\<lparr>rp_database := db', rp_clock := rc\<rparr>, ef_vFeedback := [], ef_t_rr_last := tl\<rparr>"
    and out1: "out1 = [FeedbackRtcp (map Session qs @ map Feedback (fnFeedback []))]"
    using assms(12) e1 by (auto simp: early_handler_def)
  have "ef_bEarlyScheduled e2" "ef_vFeedback e2 = []" using e1 by (simp_all add: e2)
  then obtain e3 t where set: "early_setNextRtcpTimeout st par rnd tNow e2 = Inr ([TimerAt t], e3)" "\<not> ef_bEarlyScheduled e3" "ef_vFeedback e3 = []"
    by (simp add: early_setNextRtcpTimeout_def Let_def)
  have "early_onRtcpIntervalTimeout io st par stat rnd (r, RAND_MAX) tNow (Some fnFeedback) False e = Inr (out1 @ [TimerAt t], e3)"
    using run db send set(1) q by (simp add: early_onRtcpIntervalTimeout_def e1_def Let_def)
  then show ?thesis using out1 set(2,3) by (intro exI [of _ "out1 @ [TimerAt t]"] exI [of _ e3] exI [of _ qs]) simp
qed

text \<open>A run in which reporting starts at time 0, the handler is set and early feedback is requested at once.\<close>

lemma sample_run:
  "\<exists>e0 e uiMs. early_run bitlist_io sample_parameters 0 1 [Base (StartTimer 156)] e0
     \<and> scheduleEarlyFeedbackIfPossible (0, 1) 0 0 e0 = Inr (Some (uint uiMs * 1000, uiMs), [EarlyTimer uiMs], e)
     \<and> early_run bitlist_io sample_parameters 1 1 [Base (StartTimer 156), EarlyTimer uiMs] e
     \<and> ef_bEarlyScheduled e \<and> rm_onRtcp (ef_manager e) \<and> ef_database e = sample_database \<and> ef_dT_rr_interval e = 5"
proof -
  define rnd :: rand where "rnd = (1, 2)"
  let ?d = "fdiv (fmul (fdiv (fmul 76 1) (fmul 64 (25 / 4))) (fRand rnd (1 / 2) (3 / 2))) COMPENSATION"
  have d: "?d = 5618963976756701 / 36028797018963968" unfolding rnd_def by code_simp
  have ms: "double_to_u32 (Some (fadd (fmul ?d 1000) (1 / 2))) = Inr 156" unfolding d by code_simp
  have dither: "to_ms (fmul (1 / 2) ?d) = Inr 78" unfolding d by code_simp
  have "\<not> isl (to_ms (fmul (fRand (0, 1) 0 1) (fmul (1 / 2) ?d)))" unfolding d by code_simp
  then obtain uiMs where uiMs: "to_ms (fmul (fRand (0, 1) 0 1) (fmul (1 / 2) ?d)) = Inr uiMs"
    by (cases "to_ms (fmul (fRand (0, 1) 0 1) (fmul (1 / 2) ?d))") auto
  have "double_to_u32 (Some 76) = Inr 76" by code_simp
  then have "\<exists>e0. early_startReporting sample_state sample_parameters rnd 0 sample_manager = Inr ([Base (StartTimer 156)], e0)
      \<and> ef_dT_dither_max e0 = fmul (1 / 2) ?d \<and> rm_tNext (ef_manager e0) = Some 156000 \<and> ef_bAllowEarly e0
      \<and> ef_database e0 = sample_database \<and> ef_dT_rr_interval e0 = 5"
    using ms
    by (simp add: early_startReporting_def early_setNextRtcpTimeout_def sample_manager_def Rfc4585RtcpReportManager_create_def
        RtcpReportManager_create_def setNextRtcpTimeout_def timer_computeRtcpIntervalSeconds_def RtcpTransmissionTimer_create_def
        sample_database_simps sample_interval onTimerSet_def Let_def)
  then obtain e0 where e0: "early_startReporting sample_state sample_parameters rnd 0 sample_manager = Inr ([Base (StartTimer 156)], e0)"
    "ef_dT_dither_max e0 = fmul (1 / 2) ?d" "rm_tNext (ef_manager e0) = Some 156000" "ef_bAllowEarly e0"
    "ef_database e0 = sample_database" "ef_dT_rr_interval e0 = 5" by blast
  define e1 where "e1 = e0\<lparr>ef_base := (ef_base e0)\<lparr>rp_manager := setRtcpHandler (ef_manager e0)\<rparr>\<rparr>"
  define e where "e = e1\<lparr>ef_tE := Some (uint uiMs * 1000), ef_bAllowEarly := False, ef_bEarlyScheduled := True\<rparr>"
  have r1: "early_run bitlist_io sample_parameters 0 1 [Base (StartTimer 156)] e1"
    unfolding e1_def by (rule early_run.handler, rule early_run.start [OF e0(1) [unfolded sample_manager_def]])
  have s: "scheduleEarlyFeedbackIfPossible (0, 1) 0 0 e1 = Inr (Some (uint uiMs * 1000, uiMs), [EarlyTimer uiMs], e)"
    using e0(2-4) dither uiMs
    by (simp add: scheduleEarlyFeedbackIfPossible_def e1_def e_def setRtcpHandler_def pt_less_def pt_add_def milliseconds_def Let_def)
  have "early_run bitlist_io sample_parameters 1 1 [Base (StartTimer 156), EarlyTimer uiMs] e"
    using early_run.scheduled [OF r1 s] by simp
  moreover have "ef_bEarlyScheduled e" "rm_onRtcp (ef_manager e)" "ef_database e = sample_database" "ef_dT_rr_interval e = 5"
    using e0 by (simp_all add: e_def e1_def setRtcpHandler_def)
  ultimately show ?thesis using r1 s by blast
qed

theorem early_reports_limited_witness:
  "\<exists>e uiMs. early_run bitlist_io sample_parameters 1 1 [Base (StartTimer 156), EarlyTimer uiMs] e \<and> (1::nat) \<le> 1"
proof -
  obtain e uiMs where r: "early_run bitlist_io sample_parameters 1 1 [Base (StartTimer 156), EarlyTimer uiMs] e" using sample_run by blast
  from early_reports_limited [OF this] r show ?thesis by blast
qed

theorem early_feedback_in_time_witness:
  "\<exists>e uiMs tNext. early_run bitlist_io sample_parameters 0 1 [Base (StartTimer 156)] e
     \<and> rm_tNext (ef_manager e) = Some tNext \<and> uint (uiMs :: u32) * 1000 \<le> tNext"
proof -
  obtain e0 e uiMs where r: "early_run bitlist_io sample_parameters 0 1 [Base (StartTimer 156)] e0"
    "scheduleEarlyFeedbackIfPossible (0, 1) 0 0 e0 = Inr (Some (uint uiMs * 1000, uiMs), [EarlyTimer uiMs], e)" using sample_run by blast
  from early_feedback_in_time [OF this] r(1) show ?thesis by auto
qed

theorem early_feedback_delivered_witness:
  "\<exists>e out e' ps. early_onRtcpIntervalTimeout bitlist_io sample_state sample_parameters ChannelStatistics_new (0, 1) (1, 2) 78000
      (Some (\<lambda>fb. fb @ [GenericNack (RtcpGenericNack_create [5] 7 9)])) False e = Inr (out, e')
    \<and> filter is_report out = [FeedbackRtcp (map Session ps @ [Feedback (GenericNack (RtcpGenericNack_create [5] 7 9))])]"
proof -
  obtain e uiMs where r: "early_run bitlist_io sample_parameters 1 1 [Base (StartTimer 156), EarlyTimer uiMs] e"
    "ef_bEarlyScheduled e" "rm_onRtcp (ef_manager e)" and e: "ef_database e = sample_database" "ef_dT_rr_interval e = 5"
    using sample_run by blast
  have s: "session_reachable bitlist_io sample_parameters (sample_state, ef_database e)"
    unfolding e sample_database_def by (rule session_reachable.start)
  from early_feedback_delivered [OF r s, of 1 2 "\<lambda>fb. fb @ [GenericNack (RtcpGenericNack_create [5] 7 9)]" ChannelStatistics_new "(0, 1)" 78000]
  show ?thesis by (simp add: sample_database_simps e) blast
qed

end
