(* ===== verification/Loss_Detection.thy ===== *)
theory Loss_Detection
  imports Early_Feedback Loss_Estimator
begin

text \<open>
  Which packets a receiver asks for again: the record of what became of each packet
  (\<open>rto/PacketTransmissionInfo.h\<close>, \<open>rto/StatisticsManager.cpp\<close>), the detection of losses from gaps in the sequence numbers
  (\<open>rto/SimpleRtoEstimator.cpp\<close>, \<open>rto/RtoManagerInterface.h\<close>) and the manager that collects the numbers for the next feedback
  packet (\<open>rfc4585/FeedbackManager.cpp\<close>). The detector calls back into the manager; what it needs of its listener
  is a locale, and the manager interprets it.
\<close>

section \<open>The fate of a packet\<close>

record PacketTransmissionInfo =
  pti_tEstimated :: ptime
  pti_tArrival :: ptime
  pti_tAssumedLost :: ptime
  pti_tFalsePositive :: ptime
  pti_tRtxRequested :: ptime
  pti_tRtxArrival :: ptime
  pti_bRtxCancelled :: bool

definition PacketTransmissionInfo_estimated :: "ptime \<Rightarrow> PacketTransmissionInfo" where
  "PacketTransmissionInfo_estimated tEstimated =
     \<lparr>pti_tEstimated = tEstimated, pti_tArrival = None, pti_tAssumedLost = None, pti_tFalsePositive = None,
      pti_tRtxRequested = None, pti_tRtxArrival = None, pti_bRtxCancelled = False\<rparr>"

definition PacketTransmissionInfo_default :: PacketTransmissionInfo where
  "PacketTransmissionInfo_default = PacketTransmissionInfo_estimated None"

section \<open>Statistics\<close>

definition SLIDING_WINDOW_SIZE :: nat where "SLIDING_WINDOW_SIZE = 500"

record StatisticsManager =
  stm_uiTotalOriginalPacketsReceived :: u32
  stm_uiTotalRtxPacketsReceived :: u32
  stm_qRecentlyReceived :: "u32 list"
  stm_mPacketTransmissionInfo :: "u32 \<rightharpoonup> PacketTransmissionInfo"

definition StatisticsManager_create :: StatisticsManager where
  "StatisticsManager_create = \<lparr>stm_uiTotalOriginalPacketsReceived = 0, stm_uiTotalRtxPacketsReceived = 0,
     stm_qRecentlyReceived = [], stm_mPacketTransmissionInfo = Map.empty\<rparr>"

text \<open>The index operator of the map makes an entry when there is none.\<close>

definition info_at :: "u32 \<Rightarrow> StatisticsManager \<Rightarrow> PacketTransmissionInfo" where
  "info_at uiSN stm = (case stm_mPacketTransmissionInfo stm uiSN of None \<Rightarrow> PacketTransmissionInfo_default | Some i \<Rightarrow> i)"

definition set_info :: "u32 \<Rightarrow> (PacketTransmissionInfo \<Rightarrow> PacketTransmissionInfo) \<Rightarrow> StatisticsManager \<Rightarrow> StatisticsManager" where
  "set_info uiSN f stm = stm\<lparr>stm_mPacketTransmissionInfo := (stm_mPacketTransmissionInfo stm)(uiSN \<mapsto> f (info_at uiSN stm))\<rparr>"

definition isPacketAssumedLost :: "u32 \<Rightarrow> StatisticsManager \<Rightarrow> bool" where
  "isPacketAssumedLost uiSN stm =
     (case stm_mPacketTransmissionInfo stm uiSN of None \<Rightarrow> False | Some i \<Rightarrow> pti_tAssumedLost i \<noteq> None)"

definition isFalsePositive :: "u32 \<Rightarrow> StatisticsManager \<Rightarrow> bool" where
  "isFalsePositive uiSN stm =
     (case stm_mPacketTransmissionInfo stm uiSN of None \<Rightarrow> False | Some i \<Rightarrow> pti_tFalsePositive i \<noteq> None)"

definition hasPacketBeenReceivedRecently :: "u32 \<Rightarrow> StatisticsManager \<Rightarrow> bool" where
  "hasPacketBeenReceivedRecently uiSN stm \<longleftrightarrow> uiSN \<in> set (stm_qRecentlyReceived stm)"

text \<open>\<open>insert\<close> keeps an entry that is there.\<close>

definition estimatePacketArrivalTime :: "ptime \<Rightarrow> u32 \<Rightarrow> StatisticsManager \<Rightarrow> StatisticsManager" where
  "estimatePacketArrivalTime tEstimation uiSN stm =
     (case stm_mPacketTransmissionInfo stm uiSN of
        Some _ \<Rightarrow> stm
      | None \<Rightarrow> stm\<lparr>stm_mPacketTransmissionInfo := (stm_mPacketTransmissionInfo stm)(uiSN \<mapsto> PacketTransmissionInfo_estimated tEstimation)\<rparr>)"

definition push_circular :: "nat \<Rightarrow> 'a \<Rightarrow> 'a list \<Rightarrow> 'a list" where
  "push_circular n x q = (if length q < n then q @ [x] else tl q @ [x])"

definition receivePacket :: "ptime \<Rightarrow> u32 \<Rightarrow> StatisticsManager \<Rightarrow> StatisticsManager" where
  "receivePacket tArrival uiSN stm =
     (let stm1 = set_info uiSN (pti_tArrival_update (\<lambda>_. tArrival))
                   (stm\<lparr>stm_uiTotalOriginalPacketsReceived := stm_uiTotalOriginalPacketsReceived stm + 1,
                        stm_qRecentlyReceived := push_circular SLIDING_WINDOW_SIZE uiSN (stm_qRecentlyReceived stm)\<rparr>)
      in if isPacketAssumedLost uiSN stm1 \<or> pt_less (pti_tEstimated (info_at uiSN stm1)) tArrival
         then set_info uiSN (pti_tFalsePositive_update (\<lambda>_. tArrival)) stm1 else stm1)"

definition receiveRtxPacket :: "ptime \<Rightarrow> u32 \<Rightarrow> StatisticsManager \<Rightarrow> StatisticsManager" where
  "receiveRtxPacket tArrival uiSN stm =
     set_info uiSN (pti_tRtxArrival_update (\<lambda>_. tArrival)) (stm\<lparr>stm_uiTotalRtxPacketsReceived := stm_uiTotalRtxPacketsReceived stm + 1\<rparr>)"

definition assumePacketLost :: "ptime \<Rightarrow> u32 \<Rightarrow> StatisticsManager \<Rightarrow> StatisticsManager" where
  "assumePacketLost tLost uiSN = set_info uiSN (pti_tAssumedLost_update (\<lambda>_. tLost))"

definition retransmissionRequested :: "ptime \<Rightarrow> u32 \<Rightarrow> StatisticsManager \<Rightarrow> StatisticsManager" where
  "retransmissionRequested tRequested uiSN = set_info uiSN (pti_tRtxRequested_update (\<lambda>_. tRequested))"

definition setRtxCancelled :: "u32 \<Rightarrow> StatisticsManager \<Rightarrow> StatisticsManager" where
  "setRtxCancelled uiSN = set_info uiSN (pti_bRtxCancelled_update (\<lambda>_. True))"

section \<open>Gaps in the sequence numbers\<close>

record SimplePacketLossDetection =
  pld_bShuttingdown :: bool
  pld_bFirst :: bool
  pld_uiPreviouslyReceivedMaxSN :: u32
  pld_bStopped :: bool
  pld_statisticsManager :: StatisticsManager

definition SimplePacketLossDetection_create :: SimplePacketLossDetection where
  "SimplePacketLossDetection_create = \<lparr>pld_bShuttingdown = False, pld_bFirst = True, pld_uiPreviouslyReceivedMaxSN = 0,
     pld_bStopped = False, pld_statisticsManager = StatisticsManager_create\<rparr>"

definition SimplePacketLossDetection_reset :: "SimplePacketLossDetection \<Rightarrow> SimplePacketLossDetection" where
  "SimplePacketLossDetection_reset d = d\<lparr>pld_bShuttingdown := False, pld_bFirst := True, pld_uiPreviouslyReceivedMaxSN := 0\<rparr>"

text \<open>The callbacks work on a state of their own.\<close>

definition doOnPacketArrival ::
  "(u32 \<Rightarrow> 's \<Rightarrow> 's) \<Rightarrow> (u32 \<Rightarrow> 's \<Rightarrow> bool \<times> 's) \<Rightarrow> ptime \<Rightarrow> u32 \<Rightarrow> SimplePacketLossDetection \<times> 's \<Rightarrow> SimplePacketLossDetection \<times> 's" where
  "doOnPacketArrival onLost onFalsePositive tArrival uiSN ds =
     (case ds of (d, s) \<Rightarrow>
        let uiMax = pld_uiPreviouslyReceivedMaxSN d; stm = pld_statisticsManager d; uiDelta = uiSN - uiMax
        in if pld_bShuttingdown d then (d, s)
           else if pld_bFirst d then (d\<lparr>pld_bFirst := False, pld_uiPreviouslyReceivedMaxSN := uiSN\<rparr>, s)
           else if uiSN = uiMax + 1 then (d\<lparr>pld_uiPreviouslyReceivedMaxSN := uiSN\<rparr>, s)
           else if unat uiDelta < MAX_DROPOUT
           then (d\<lparr>pld_uiPreviouslyReceivedMaxSN := uiSN,
                   pld_statisticsManager := fold (\<lambda>i. assumePacketLost tArrival (uiMax + of_nat i)) [1..<unat uiDelta] stm\<rparr>,
                 fold (\<lambda>i. onLost (uiMax + of_nat i)) [1..<unat uiDelta] s)
           else if unat uiDelta \<le> RTP_SEQ_MOD - MAX_MISORDER then (SimplePacketLossDetection_reset d, s)
           else if isFalsePositive uiSN stm
           then (case onFalsePositive uiSN s of
                   (bCancelled, s1) \<Rightarrow> (if bCancelled then d\<lparr>pld_statisticsManager := setRtxCancelled uiSN stm\<rparr> else d, s1))
           else (d, s))"

definition doStop :: "SimplePacketLossDetection \<Rightarrow> SimplePacketLossDetection" where
  "doStop d = d\<lparr>pld_bShuttingdown := True\<rparr>"

definition PacketLossDetectionBase_stop :: "SimplePacketLossDetection \<Rightarrow> SimplePacketLossDetection" where
  "PacketLossDetectionBase_stop d = doStop (d\<lparr>pld_bStopped := True\<rparr>)"

definition PacketLossDetectionBase_onPacketArrival ::
  "(u32 \<Rightarrow> 's \<Rightarrow> 's) \<Rightarrow> (u32 \<Rightarrow> 's \<Rightarrow> bool \<times> 's) \<Rightarrow> ptime \<Rightarrow> u32 \<Rightarrow> SimplePacketLossDetection \<times> 's \<Rightarrow> SimplePacketLossDetection \<times> 's" where
  "PacketLossDetectionBase_onPacketArrival onLost onFalsePositive tArrival uiSN ds =
     (case ds of (d, s) \<Rightarrow>
        doOnPacketArrival onLost onFalsePositive tArrival uiSN
          (d\<lparr>pld_statisticsManager := receivePacket tArrival uiSN (pld_statisticsManager d)\<rparr>, s))"

definition PacketLossDetectionBase_onRtxRequested :: "ptime \<Rightarrow> u32 \<Rightarrow> SimplePacketLossDetection \<Rightarrow> SimplePacketLossDetection" where
  "PacketLossDetectionBase_onRtxRequested tRequested uiSN d =
     d\<lparr>pld_statisticsManager := retransmissionRequested tRequested uiSN (pld_statisticsManager d)\<rparr>"

definition PacketLossDetectionBase_onRtxPacketArrival :: "ptime \<Rightarrow> u16 \<Rightarrow> SimplePacketLossDetection \<Rightarrow> SimplePacketLossDetection" where
  "PacketLossDetectionBase_onRtxPacketArrival tArrival uiSN d =
     d\<lparr>pld_statisticsManager := receiveRtxPacket tArrival (ucast uiSN) (pld_statisticsManager d)\<rparr>"

section \<open>The feedback manager\<close>

datatype FeedbackMode = FB_NONE | FB_NACK | FB_ACK

datatype PredictorType = PT_NONE | PT_SIMPLE | PT_MOVING_AVERAGE | PT_AR2

text \<open>
  The estimator is the simple detector; for the two predictors that estimate arrival times (\<open>rto/BasicRtoEstimator.cpp\<close>)
  the manager has no estimator here. A call of the loss callback is a value of the output list.
\<close>

record FeedbackManager =
  fm_eFeedbackMode :: FeedbackMode
  fm_pRtoEstimator :: "SimplePacketLossDetection option"
  fm_vAssumedLost :: "u32 list"
  fm_vReceivedSN :: "u32 list"

definition FeedbackManager_create :: "bool \<Rightarrow> bool \<Rightarrow> bool \<Rightarrow> PredictorType \<Rightarrow> FeedbackManager" where
  "FeedbackManager_create bNack bAck bRetransmissionEnabled eType =
     (let mode = (if bNack \<and> bRetransmissionEnabled then FB_NACK else if bAck \<and> bRetransmissionEnabled then FB_ACK else FB_NONE)
      in \<lparr>fm_eFeedbackMode = mode,
          fm_pRtoEstimator = (if mode = FB_NACK \<and> eType = PT_SIMPLE then Some SimplePacketLossDetection_create else None),
          fm_vAssumedLost = [], fm_vReceivedSN = []\<rparr>)"

definition FeedbackManager_reset :: "FeedbackManager \<Rightarrow> FeedbackManager" where
  "FeedbackManager_reset fm = fm\<lparr>fm_pRtoEstimator := map_option SimplePacketLossDetection_reset (fm_pRtoEstimator fm)\<rparr>"

definition FeedbackManager_shutdown :: "FeedbackManager \<Rightarrow> FeedbackManager" where
  "FeedbackManager_shutdown fm = fm\<lparr>fm_pRtoEstimator := map_option PacketLossDetectionBase_stop (fm_pRtoEstimator fm)\<rparr>"

type_synonym fb_calls = "FeedbackManager \<times> u32 list"

definition onRtpPacketAssumedLost :: "u32 \<Rightarrow> fb_calls \<Rightarrow> fb_calls" where
  "onRtpPacketAssumedLost uiSN s = (case s of (fm, onLoss) \<Rightarrow> (fm\<lparr>fm_vAssumedLost := fm_vAssumedLost fm @ [uiSN]\<rparr>, onLoss @ [uiSN]))"

definition onRtpPacketLate :: "u32 \<Rightarrow> fb_calls \<Rightarrow> bool \<times> fb_calls" where
  "onRtpPacketLate uiSN s =
     (case s of (fm, onLoss) \<Rightarrow>
        if uiSN \<in> set (fm_vAssumedLost fm) then (True, fm\<lparr>fm_vAssumedLost := remove1 uiSN (fm_vAssumedLost fm)\<rparr>, onLoss)
        else (False, fm, onLoss))"

definition FeedbackManager_onPacketArrival :: "ptime \<Rightarrow> u32 \<Rightarrow> FeedbackManager \<Rightarrow> fb_calls" where
  "FeedbackManager_onPacketArrival tArrival uiSN fm =
     (case fm_eFeedbackMode fm of
        FB_NACK \<Rightarrow>
          (case fm_pRtoEstimator fm of
             None \<Rightarrow> (fm, [])
           | Some d \<Rightarrow>
               (case PacketLossDetectionBase_onPacketArrival onRtpPacketAssumedLost onRtpPacketLate tArrival uiSN (d, fm, []) of
                  (d1, fm1, onLoss) \<Rightarrow> (fm1\<lparr>fm_pRtoEstimator := Some d1\<rparr>, onLoss)))
      | FB_ACK \<Rightarrow> (fm\<lparr>fm_vReceivedSN := fm_vReceivedSN fm @ [uiSN]\<rparr>, [])
      | FB_NONE \<Rightarrow> (fm, []))"

definition FeedbackManager_onRtxPacketArrival :: "ptime \<Rightarrow> u16 \<Rightarrow> FeedbackManager \<Rightarrow> fault + FeedbackManager" where
  "FeedbackManager_onRtxPacketArrival tArrival uiOriginalSN fm =
     (case fm_eFeedbackMode fm of
        FB_NACK \<Rightarrow>
          (case fm_pRtoEstimator fm of
             None \<Rightarrow> Inl Assertion_failed
           | Some d \<Rightarrow> Inr (fm\<lparr>fm_pRtoEstimator := Some (PacketLossDetectionBase_onRtxPacketArrival tArrival uiOriginalSN d)\<rparr>))
      | FB_ACK \<Rightarrow> Inr (fm\<lparr>fm_vReceivedSN := fm_vReceivedSN fm @ [ucast uiOriginalSN]\<rparr>)
      | FB_NONE \<Rightarrow> Inr fm)"

definition FeedbackManager_onRtxRequested :: "ptime \<Rightarrow> u16 \<Rightarrow> FeedbackManager \<Rightarrow> fault + FeedbackManager" where
  "FeedbackManager_onRtxRequested tRequested uiSN fm =
     (case fm_pRtoEstimator fm of
        None \<Rightarrow> Inl Null_dereference
      | Some d \<Rightarrow> Inr (fm\<lparr>fm_pRtoEstimator := Some (PacketLossDetectionBase_onRtxRequested tRequested (ucast uiSN) d)\<rparr>))"

definition getAssumedLost :: "FeedbackManager \<Rightarrow> u32 list \<times> FeedbackManager" where
  "getAssumedLost fm = (fm_vAssumedLost fm, fm\<lparr>fm_vAssumedLost := []\<rparr>)"

definition getReceived :: "FeedbackManager \<Rightarrow> u32 list \<times> FeedbackManager" where
  "getReceived fm = (fm_vReceivedSN fm, fm\<lparr>fm_vReceivedSN := []\<rparr>)"

definition getAssumedLostCount :: "FeedbackManager \<Rightarrow> u32" where
  "getAssumedLostCount fm = of_nat (length (fm_vAssumedLost fm))"

definition getReceivedCount :: "FeedbackManager \<Rightarrow> u32" where
  "getReceivedCount fm = of_nat (length (fm_vReceivedSN fm))"

section \<open>What the statistics remember\<close>

definition no_estimates :: "StatisticsManager \<Rightarrow> bool" where
  "no_estimates stm \<longleftrightarrow> (\<forall>sn. pti_tEstimated (info_at sn stm) = None)"

lemma no_estimates_create [simp]: "no_estimates StatisticsManager_create"
  by (simp add: no_estimates_def info_at_def StatisticsManager_create_def PacketTransmissionInfo_default_def PacketTransmissionInfo_estimated_def)

lemma info_at_set_info [simp]: "info_at sn (set_info x f stm) = (if sn = x then f (info_at x stm) else info_at sn stm)"
  by (simp add: info_at_def set_info_def)

lemma isPacketAssumedLost_info: "isPacketAssumedLost sn stm \<longleftrightarrow> pti_tAssumedLost (info_at sn stm) \<noteq> None"
  by (simp add: isPacketAssumedLost_def info_at_def PacketTransmissionInfo_default_def PacketTransmissionInfo_estimated_def split: option.split)

lemma isFalsePositive_info: "isFalsePositive sn stm \<longleftrightarrow> pti_tFalsePositive (info_at sn stm) \<noteq> None"
  by (simp add: isFalsePositive_def info_at_def PacketTransmissionInfo_default_def PacketTransmissionInfo_estimated_def split: option.split)

lemmas stats_info = isPacketAssumedLost_info isFalsePositive_info no_estimates_def

lemma assumePacketLost_stats [simp]:
  "isPacketAssumedLost sn (assumePacketLost (Some t) x stm) \<longleftrightarrow> sn = x \<or> isPacketAssumedLost sn stm"
  "no_estimates (assumePacketLost (Some t) x stm) \<longleftrightarrow> no_estimates stm"
  by (auto simp: stats_info assumePacketLost_def)

lemma assumePacketsLost_stats:
  "isPacketAssumedLost sn (fold (\<lambda>i. assumePacketLost (Some t) (f i)) is stm) \<longleftrightarrow> sn \<in> f ` set is \<or> isPacketAssumedLost sn stm"
  "no_estimates (fold (\<lambda>i. assumePacketLost (Some t) (f i)) is stm) \<longleftrightarrow> no_estimates stm"
  by (induction "is" arbitrary: stm) auto

lemma setRtxCancelled_stats [simp]:
  "isPacketAssumedLost sn (setRtxCancelled x stm) \<longleftrightarrow> isPacketAssumedLost sn stm"
  "no_estimates (setRtxCancelled x stm) \<longleftrightarrow> no_estimates stm"
  by (auto simp: stats_info setRtxCancelled_def)

lemma info_at_counters [simp]:
  "info_at sn (stm\<lparr>stm_uiTotalOriginalPacketsReceived := a, stm_qRecentlyReceived := b\<rparr>) = info_at sn stm"
  by (simp add: info_at_def)

lemma receivePacket_stats:
  assumes "no_estimates stm"
  shows "isPacketAssumedLost sn (receivePacket (Some t) x stm) \<longleftrightarrow> isPacketAssumedLost sn stm"
    and "no_estimates (receivePacket (Some t) x stm)"
    and "isPacketAssumedLost x stm \<Longrightarrow> isFalsePositive x (receivePacket (Some t) x stm)"
  using assms by (auto simp: receivePacket_def stats_info Let_def pt_less_def split: if_splits)

section \<open>Detection refines the set of missing numbers\<close>

text \<open>
  The contract of the listener: it keeps a list of pending numbers, to which a lost number is added and from which
  a late one is removed.
\<close>

locale loss_listener =
  fixes onLost :: "u32 \<Rightarrow> 's \<Rightarrow> 's" and onFalsePositive :: "u32 \<Rightarrow> 's \<Rightarrow> bool \<times> 's" and pending :: "'s \<Rightarrow> u32 list"
  assumes pending_lost: "pending (onLost x s) = pending s @ [x]"
    and pending_late: "pending (snd (onFalsePositive x s)) = remove1 x (pending s)"
begin

text \<open>
  Packets have unbounded numbers: \<open>s\<close> is the first, \<open>M\<close> the highest, \<open>R\<close> those that arrived and \<open>F\<close> those that have been
  reported already.
\<close>

definition detects :: "nat \<Rightarrow> nat \<Rightarrow> nat set \<Rightarrow> nat set \<Rightarrow> SimplePacketLossDetection \<times> 's \<Rightarrow> bool" where
  "detects s M R F ds \<longleftrightarrow> (case ds of (d, st) \<Rightarrow>
     \<not> pld_bShuttingdown d \<and> \<not> pld_bFirst d \<and> pld_uiPreviouslyReceivedMaxSN d = of_nat M \<and> s \<le> M \<and> M < 2 ^ 31 \<and> M \<in> R \<and> R \<subseteq> {..M}
     \<and> F \<subseteq> {s..M} \<and> no_estimates (pld_statisticsManager d)
     \<and> (\<forall>n\<in>{s..M} - R. isPacketAssumedLost (of_nat n) (pld_statisticsManager d))
     \<and> (\<exists>ps. pending st = map of_nat ps \<and> distinct ps \<and> set ps = {s..M} - R - F))"

lemma pending_losses: "pending (fold (\<lambda>i. onLost (f i)) is st) = pending st @ map f is"
  by (induction "is" arbitrary: st) (simp_all add: pending_lost)

lemma detects_first:
  assumes "pending st = []" and "n < 2 ^ 31" and "\<not> pld_bShuttingdown d" and "pld_bFirst d" and "no_estimates (pld_statisticsManager d)"
  shows "detects n n {n} {} (PacketLossDetectionBase_onPacketArrival onLost onFalsePositive (Some t) (of_nat n) (d, st))"
  using assms receivePacket_stats [OF assms(5)]
  by (simp add: detects_def PacketLossDetectionBase_onPacketArrival_def doOnPacketArrival_def Let_def)

end

lemma u32_of_nat_inj: "a < 2 ^ 32 \<Longrightarrow> b < 2 ^ 32 \<Longrightarrow> (of_nat a :: u32) = of_nat b \<longleftrightarrow> a = b"
  by (simp add: word_of_nat_eq_iff take_bit_nat_eq_self)

lemma unat_u32_diff:
  assumes "a < 2 ^ 31" and "b < 2 ^ 31"
  shows "unat (of_nat a - of_nat b :: u32) = (if b \<le> a then a - b else 2 ^ 32 - (b - a))"
proof (cases "b \<le> a")
  case True
  then have "(of_nat a - of_nat b :: u32) = of_nat (a - b)" by simp
  moreover have "a - b < 2 ^ 32" using assms by simp
  ultimately show ?thesis using True by (simp add: unsigned_of_nat take_bit_nat_eq_self del: of_nat_diff)
next
  case False
  have "(of_nat (2 ^ 32 - (b - a)) :: u32) = of_nat (2 ^ 32) - of_nat (b - a)" using assms by (subst of_nat_diff) auto
  also have "\<dots> = of_nat a - of_nat b" using False by simp
  finally have "(of_nat a - of_nat b :: u32) = of_nat (2 ^ 32 - (b - a))" ..
  moreover have "2 ^ 32 - (b - a) < (2 ^ 32 :: nat)" using False by simp
  ultimately show ?thesis using False by (simp add: unsigned_of_nat take_bit_nat_eq_self del: of_nat_diff)
qed

lemma remove1_map_of_nat:
  "n < 2 ^ 31 \<Longrightarrow> \<forall>x\<in>set ps. x < 2 ^ 31 \<Longrightarrow> remove1 (of_nat n :: u32) (map of_nat ps) = map of_nat (remove1 n ps)"
  by (induction ps) (auto simp: u32_of_nat_inj)

context loss_listener
begin

lemma detectsI:
  assumes "\<not> pld_bShuttingdown d" and "\<not> pld_bFirst d" and "pld_uiPreviouslyReceivedMaxSN d = of_nat M" and "s \<le> M" and "M < 2 ^ 31"
    and "M \<in> R" and "R \<subseteq> {..M}" and "F \<subseteq> {s..M}" and "no_estimates (pld_statisticsManager d)"
    and "\<And>k. k \<in> {s..M} - R \<Longrightarrow> isPacketAssumedLost (of_nat k) (pld_statisticsManager d)"
    and "pending st = map of_nat ps" and "distinct ps" and "set ps = {s..M} - R - F"
  shows "detects s M R F (d, st)"
  unfolding detects_def using assms by auto

lemma detects_arrival:
  assumes "detects s M R F (d, st)" and "n < 2 ^ 31" and "n < M + MAX_DROPOUT"
  shows "detects s (max M n) (insert n R) F (PacketLossDetectionBase_onPacketArrival onLost onFalsePositive (Some t) (of_nat n) (d, st))"
proof -
  let ?stm = "receivePacket (Some t) (of_nat n) (pld_statisticsManager d)" and ?sn = "of_nat n :: u32"
  obtain ps where inv: "\<not> pld_bShuttingdown d" "\<not> pld_bFirst d" "pld_uiPreviouslyReceivedMaxSN d = of_nat M" "s \<le> M" "M < 2 ^ 31" "M \<in> R"
      "R \<subseteq> {..M}" "F \<subseteq> {s..M}" "no_estimates (pld_statisticsManager d)"
      "\<forall>n\<in>{s..M} - R. isPacketAssumedLost (of_nat n) (pld_statisticsManager d)"
    and ps: "pending st = map of_nat ps" "distinct ps" "set ps = {s..M} - R - F"
    using assms(1) unfolding detects_def by auto
  note stats = receivePacket_stats [OF inv(9), where t = t and x = ?sn]
  have delta: "unat (?sn - of_nat M) = (if M \<le> n then n - M else 2 ^ 32 - (M - n))" by (rule unat_u32_diff [OF assms(2) inv(5)])
  have succ: "?sn = of_nat M + 1 \<longleftrightarrow> n = M + 1" using u32_of_nat_inj [of n "M + 1"] assms(2) inv(5) by (simp add: add.commute)
  note arrival = PacketLossDetectionBase_onPacketArrival_def doOnPacketArrival_def Let_def
  consider "n = M + 1" | "n = M" | "M + 1 < n" | "n < M" by linarith
  then show ?thesis
  proof cases
    case 1
    have r: "PacketLossDetectionBase_onPacketArrival onLost onFalsePositive (Some t) ?sn (d, st)
        = (d\<lparr>pld_statisticsManager := ?stm, pld_uiPreviouslyReceivedMaxSN := ?sn\<rparr>, st)" using inv(1-3) succ 1 by (simp add: arrival)
    have "{s..n} - insert n R = {s..M} - R" "set ps = {s..n} - insert n R - F" "insert n R \<subseteq> {..n}" "F \<subseteq> {s..n}"
      using ps(3) inv(7,8) 1 by auto
    then show ?thesis unfolding r using 1 inv(1-5,10) stats(1,2) ps(1,2) assms(2) by (intro detectsI [where ps = ps]) simp_all
  next
    case 2
    have r: "PacketLossDetectionBase_onPacketArrival onLost onFalsePositive (Some t) ?sn (d, st)
        = (d\<lparr>pld_statisticsManager := ?stm, pld_uiPreviouslyReceivedMaxSN := ?sn\<rparr>, st)"
      using inv(1-3) succ 2 by (simp add: arrival MAX_DROPOUT_def)
    have "insert n R = R" using inv(6) 2 by auto
    then show ?thesis unfolding r using 2 inv stats(1,2) ps by (intro detectsI [where ps = ps]) simp_all
  next
    case 3
    let ?new = "map (\<lambda>i. M + i) [1..<n - M]"
    let ?f = "\<lambda>i. of_nat M + of_nat i :: u32"
    have new: "set ?new = {M + 1..<n}" using 3 by simp
    have "distinct (ps @ ?new)" using ps(2,3) new by (auto simp: distinct_map inj_on_def)
    moreover have "set (ps @ ?new) = {s..n} - insert n R - F" unfolding set_append new ps(3) using inv(4,7,8) 3 by auto
    moreover have "pending (fold (\<lambda>i. onLost (?f i)) [1..<n - M] st) = map of_nat (ps @ ?new)"
      unfolding pending_losses by (simp add: ps(1))
    moreover have "isPacketAssumedLost (of_nat k) (fold (\<lambda>i. assumePacketLost (Some t) (?f i)) [1..<n - M] ?stm)"
      if "k \<in> {s..n} - insert n R" for k
    proof (cases "k \<le> M")
      case True
      then show ?thesis using inv(10) that stats(1) by (simp add: assumePacketsLost_stats)
    next
      case False
      then have "of_nat k = ?f (k - M)" "k - M \<in> set [1..<n - M]" using that by auto
      then show ?thesis unfolding assumePacketsLost_stats by blast
    qed
    moreover have "insert n R \<subseteq> {..n}" "F \<subseteq> {s..n}" using inv(7,8) 3 by auto
    moreover have "n - M < MAX_DROPOUT" using assms(3) 3 by simp
    moreover have "PacketLossDetectionBase_onPacketArrival onLost onFalsePositive (Some t) ?sn (d, st)
        = (d\<lparr>pld_statisticsManager := fold (\<lambda>i. assumePacketLost (Some t) (?f i)) [1..<n - M] ?stm, pld_uiPreviouslyReceivedMaxSN := ?sn\<rparr>,
           fold (\<lambda>i. onLost (?f i)) [1..<n - M] st)"
      using inv(1-3) succ 3 delta assms(3) by (simp add: arrival)
    ultimately show ?thesis using 3 inv(1,2,4) stats(2) assms(2)
      by (simp add: max_def) (intro detectsI [where ps = "ps @ ?new"], simp_all add: assumePacketsLost_stats)
  next
    case 4
    have late: "pending (snd (onFalsePositive ?sn st)) = map of_nat (remove1 n ps)"
    proof -
      have "\<forall>x\<in>set ps. x < 2 ^ 31" using ps(3) inv(5) by auto
      then show ?thesis unfolding pending_late ps(1) using assms(2) by (rule remove1_map_of_nat [rotated])
    qed
    have gone: "{s..M} - insert n R - F = set ps - {n}" "{s..M} - insert n R \<subseteq> {s..M} - R" using ps(3) by auto
    have kept: "n \<notin> set ps" if "\<not> isFalsePositive ?sn ?stm" 
    proof
      assume "n \<in> set ps"
      then have "isPacketAssumedLost ?sn (pld_statisticsManager d)" using inv(10) ps(3) by simp
      from stats(3) [OF this] that show False by simp
    qed
    have "\<not> unat (?sn - of_nat M) < MAX_DROPOUT" "\<not> unat (?sn - of_nat M) \<le> RTP_SEQ_MOD - MAX_MISORDER"
      using delta 4 inv(5) by (simp_all add: MAX_DROPOUT_def RTP_SEQ_MOD_def MAX_MISORDER_def)
    then have step: "PacketLossDetectionBase_onPacketArrival onLost onFalsePositive (Some t) ?sn (d, st) =
        (let d1 = d\<lparr>pld_statisticsManager := ?stm\<rparr>
         in if isFalsePositive ?sn ?stm
            then (case onFalsePositive ?sn st of (b, s1) \<Rightarrow> (if b then d1\<lparr>pld_statisticsManager := setRtxCancelled ?sn ?stm\<rparr> else d1, s1))
            else (d1, st))"
      using inv(1-3) succ 4 by (cases "onFalsePositive ?sn st") (simp add: arrival)
    have m: "max M n = M" "insert n R \<subseteq> {..M}" using 4 inv(7) by auto
    show ?thesis
    proof (cases "isFalsePositive ?sn ?stm")
      case True
      obtain b s1 where fp: "onFalsePositive ?sn st = (b, s1)" by (cases "onFalsePositive ?sn st")
      then have "pending s1 = map of_nat (remove1 n ps)" using late by simp
      moreover have "detects s M (insert n R) F (d\<lparr>pld_statisticsManager := stm\<rparr>, s1)" if "stm \<in> {?stm, setRtxCancelled ?sn ?stm}" for stm
        using that inv(1-6,8,10) stats(1,2) m(2) ps(2) gone calculation by (intro detectsI [where ps = "remove1 n ps"]) auto
      ultimately show ?thesis unfolding m(1) step Let_def using True fp by simp
    next
      case False
      have "set ps = {s..M} - insert n R - F" using gone(1) kept [OF False] by simp
      then have "detects s M (insert n R) F (d\<lparr>pld_statisticsManager := ?stm\<rparr>, st)"
        using inv(1-6,8,10) stats(1,2) m(2) ps(1,2) by (intro detectsI [where ps = ps]) simp_all
      then show ?thesis unfolding m(1) step Let_def using False by simp
    qed
  qed
qed

end

section \<open>The feedback manager as listener\<close>

interpretation fm: loss_listener onRtpPacketAssumedLost onRtpPacketLate "\<lambda>s. fm_vAssumedLost (fst s)"
  by unfold_locales (simp_all add: onRtpPacketAssumedLost_def onRtpPacketLate_def remove1_idem split: prod.split)

text \<open>A receiver: packets arrive, with their unbounded number, and reports are made.\<close>

datatype fb_event = Arrives int nat | Reported

fun fb_run :: "fb_event list \<Rightarrow> FeedbackManager \<Rightarrow> u32 list list \<times> FeedbackManager" where
  "fb_run [] fm = ([], fm)"
| "fb_run (Arrives t n # es) fm = fb_run es (fst (FeedbackManager_onPacketArrival (Some t) (of_nat n) fm))"
| "fb_run (Reported # es) fm =
     (case getAssumedLost fm of (vLost, fm1) \<Rightarrow> (case fb_run es fm1 of (reports, fm2) \<Rightarrow> (vLost # reports, fm2)))"

fun arrivals :: "fb_event list \<Rightarrow> nat list" where
  "arrivals [] = []"
| "arrivals (Arrives t n # es) = n # arrivals es"
| "arrivals (Reported # es) = arrivals es"

text \<open>No packet is further ahead of those before it than the detector accepts.\<close>

fun within_window :: "nat \<Rightarrow> nat list \<Rightarrow> bool" where
  "within_window M [] \<longleftrightarrow> True"
| "within_window M (n # ns) \<longleftrightarrow> n < 2 ^ 31 \<and> n < M + MAX_DROPOUT \<and> within_window (max M n) ns"

lemma fm_arrival:
  assumes "fm_eFeedbackMode m = FB_NACK" and "fm_pRtoEstimator m = Some d"
  shows "\<exists>d' m' ls. PacketLossDetectionBase_onPacketArrival onRtpPacketAssumedLost onRtpPacketLate t sn (d, m, []) = (d', m', ls)
    \<and> fst (FeedbackManager_onPacketArrival t sn m) = m'\<lparr>fm_pRtoEstimator := Some d'\<rparr> \<and> fm_eFeedbackMode m' = FB_NACK"
proof -
  have lost: "fm_eFeedbackMode (fst (fold (\<lambda>i. onRtpPacketAssumedLost (f i)) is s)) = fm_eFeedbackMode (fst s)" for f :: "nat \<Rightarrow> u32" and "is" s
    by (induction "is" arbitrary: s) (auto simp: onRtpPacketAssumedLost_def split: prod.split)
  have late: "fm_eFeedbackMode (fst (snd (onRtpPacketLate x s))) = fm_eFeedbackMode (fst s)" for x s
    by (auto simp: onRtpPacketLate_def split: prod.split)
  obtain d' m' ls where r: "PacketLossDetectionBase_onPacketArrival onRtpPacketAssumedLost onRtpPacketLate t sn (d, m, []) = (d', m', ls)"
    by (cases "PacketLossDetectionBase_onPacketArrival onRtpPacketAssumedLost onRtpPacketLate t sn (d, m, [])")
  have "fm_eFeedbackMode (fst (snd (PacketLossDetectionBase_onPacketArrival onRtpPacketAssumedLost onRtpPacketLate t sn (d, m, [])))) = FB_NACK"
    using assms(1) late [of sn "(m, [])"]
    by (cases "onRtpPacketLate sn (m, [])") (simp add: PacketLossDetectionBase_onPacketArrival_def doOnPacketArrival_def Let_def lost)
  then show ?thesis using assms r by (simp add: FeedbackManager_onPacketArrival_def)
qed

text \<open>The detector of the manager, which a report leaves alone.\<close>

definition manager_detects :: "nat \<Rightarrow> nat \<Rightarrow> nat set \<Rightarrow> nat set \<Rightarrow> FeedbackManager \<Rightarrow> bool" where
  "manager_detects s M R F m \<longleftrightarrow> fm_eFeedbackMode m = FB_NACK \<and> (\<exists>d. fm_pRtoEstimator m = Some d \<and> fm.detects s M R F (d, m, []))"

lemma detects_pending_only:
  "fm.detects s M R F (d, m, ls) \<Longrightarrow> fm_vAssumedLost m' = fm_vAssumedLost m \<Longrightarrow> fm.detects s M R F (d, m', ls')"
  by (simp add: fm.detects_def)

lemma manager_detects_arrival:
  assumes "manager_detects s M R F m" and "n < 2 ^ 31" and "n < M + MAX_DROPOUT"
  shows "manager_detects s (max M n) (insert n R) F (fst (FeedbackManager_onPacketArrival (Some t) (of_nat n) m))"
proof -
  obtain d where d: "fm_pRtoEstimator m = Some d" "fm_eFeedbackMode m = FB_NACK" "fm.detects s M R F (d, m, [])"
    using assms(1) unfolding manager_detects_def by blast
  obtain d' m' ls where r: "PacketLossDetectionBase_onPacketArrival onRtpPacketAssumedLost onRtpPacketLate (Some t) (of_nat n) (d, m, []) = (d', m', ls)"
    "fst (FeedbackManager_onPacketArrival (Some t) (of_nat n) m) = m'\<lparr>fm_pRtoEstimator := Some d'\<rparr>" "fm_eFeedbackMode m' = FB_NACK"
    using fm_arrival [OF d(2,1), of "Some t" "of_nat n"] by blast
  have "fm.detects s (max M n) (insert n R) F (d', m', ls)" using fm.detects_arrival [OF d(3) assms(2,3), of t] r(1) by simp
  from detects_pending_only [OF this, of "m'\<lparr>fm_pRtoEstimator := Some d'\<rparr>" "[]"] r(2,3) show ?thesis
    unfolding manager_detects_def by simp
qed

lemma manager_detects_report:
  assumes "manager_detects s M R F m"
  shows "\<exists>ps. getAssumedLost m = (map of_nat ps, m\<lparr>fm_vAssumedLost := []\<rparr>) \<and> distinct ps \<and> set ps = {s..M} - R - F
    \<and> manager_detects s M R (F \<union> set ps) (m\<lparr>fm_vAssumedLost := []\<rparr>)"
proof -
  obtain d ps where d: "fm_pRtoEstimator m = Some d" "fm_eFeedbackMode m = FB_NACK" "fm.detects s M R F (d, m, [])"
    and ps: "fm_vAssumedLost m = map of_nat ps" "distinct ps" "set ps = {s..M} - R - F"
    using assms unfolding manager_detects_def fm.detects_def by auto
  have "fm.detects s M R (F \<union> set ps) (d, m\<lparr>fm_vAssumedLost := []\<rparr>, [])"
    using d(3) ps(3) by (intro fm.detectsI [where ps = "[]"]) (auto simp: fm.detects_def)
  then show ?thesis using d ps unfolding manager_detects_def getAssumedLost_def by (intro exI [of _ ps]) simp
qed

lemma fb_run_detects:
  assumes "manager_detects s M R F m" and "within_window M (arrivals es)"
  shows "\<exists>rs m' M'. fb_run es m = (map (map of_nat) rs, m') \<and> manager_detects s M' (R \<union> set (arrivals es)) (F \<union> set (concat rs)) m'
    \<and> M' = fold max (arrivals es) M \<and> distinct (concat rs) \<and> set (concat rs) \<inter> F = {}"
  using assms
proof (induction es arbitrary: M R F m)
  case Nil
  then show ?case by (intro exI [of _ "[]"] exI [of _ m] exI [of _ M]) simp
next
  case (Cons e es)
  show ?case
  proof (cases e)
    case (Arrives t n)
    have "manager_detects s (max M n) (insert n R) F (fst (FeedbackManager_onPacketArrival (Some t) (of_nat n) m))"
      using Cons.prems Arrives by (intro manager_detects_arrival) simp_all
    from Cons.IH [OF this] Cons.prems(2) Arrives obtain rs m' M' where
      "fb_run es (fst (FeedbackManager_onPacketArrival (Some t) (of_nat n) m)) = (map (map of_nat) rs, m')"
      "manager_detects s M' (insert n R \<union> set (arrivals es)) (F \<union> set (concat rs)) m'" "M' = fold max (arrivals es) (max M n)"
      "distinct (concat rs)" "set (concat rs) \<inter> F = {}" by auto
    then show ?thesis using Arrives by (intro exI [of _ rs] exI [of _ m'] exI [of _ M']) (simp add: max.commute)
  next
    case Reported
    obtain ps where ps: "getAssumedLost m = (map of_nat ps, m\<lparr>fm_vAssumedLost := []\<rparr>)" "distinct ps" "set ps = {s..M} - R - F"
      and inv: "manager_detects s M R (F \<union> set ps) (m\<lparr>fm_vAssumedLost := []\<rparr>)" using manager_detects_report [OF Cons.prems(1)] by blast
    from Cons.IH [OF inv] Cons.prems(2) Reported obtain rs m' M' where
      "fb_run es (m\<lparr>fm_vAssumedLost := []\<rparr>) = (map (map of_nat) rs, m')"
      "manager_detects s M' (R \<union> set (arrivals es)) (F \<union> set ps \<union> set (concat rs)) m'" "M' = fold max (arrivals es) M"
      "distinct (concat rs)" "set (concat rs) \<inter> (F \<union> set ps) = {}" by auto
    moreover have "set (concat (ps # rs)) \<inter> F = {}" "F \<union> set (concat (ps # rs)) = F \<union> set ps \<union> set (concat rs)"
      using calculation(5) ps(3) by auto
    ultimately show ?thesis using Reported ps(1,2)
      by (intro exI [of _ "ps # rs"] exI [of _ m'] exI [of _ M'] conjI) (auto simp del: set_concat)
  qed
qed

lemma manager_detects_first:
  assumes "n < 2 ^ 31"
  shows "manager_detects n n {n} {} (fst (FeedbackManager_onPacketArrival (Some t) (of_nat n) (FeedbackManager_create True bAck True PT_SIMPLE)))"
proof -
  let ?m0 = "FeedbackManager_create True bAck True PT_SIMPLE" and ?d = SimplePacketLossDetection_create
  have m0: "fm_eFeedbackMode ?m0 = FB_NACK" "fm_pRtoEstimator ?m0 = Some ?d" "fm_vAssumedLost (fst (?m0, [])) = []"
    by (simp_all add: FeedbackManager_create_def)
  obtain d' m' ls where r: "PacketLossDetectionBase_onPacketArrival onRtpPacketAssumedLost onRtpPacketLate (Some t) (of_nat n) (?d, ?m0, []) = (d', m', ls)"
    "fst (FeedbackManager_onPacketArrival (Some t) (of_nat n) ?m0) = m'\<lparr>fm_pRtoEstimator := Some d'\<rparr>" "fm_eFeedbackMode m' = FB_NACK"
    using fm_arrival [OF m0(1,2), of "Some t" "of_nat n"] by blast
  have "fm.detects n n {n} {} (d', m', ls)"
    using fm.detects_first [OF m0(3) assms, of ?d t] r(1) by (simp add: SimplePacketLossDetection_create_def)
  from detects_pending_only [OF this, of "m'\<lparr>fm_pRtoEstimator := Some d'\<rparr>" "[]"] r(2,3) show ?thesis
    unfolding manager_detects_def by simp
qed

section \<open>Properties\<close>

text \<open>
  C6: Every lost packet is asked for once. A manager in NACK mode receives packets, in any order and with
  repetitions, as long as none is more than the accepted gap ahead of the highest so far, and reports are made in between. Then no
  number is reported twice, only numbers from the first packet to the highest are, and the numbers that wait for the next report are exactly
  those in this range that have neither arrived nor been reported.
\<close>

theorem losses_reported_once:
  assumes "n < 2 ^ 31" and "within_window n (arrivals es)"
    and "fb_run (Arrives t n # es) (FeedbackManager_create True bAck True PT_SIMPLE) = (reports, m)"
  shows "distinct (concat reports @ fm_vAssumedLost m)
    \<and> set (concat reports) \<subseteq> of_nat ` {n..Max (set (n # arrivals es))}
    \<and> set (fm_vAssumedLost m) = of_nat ` ({n..Max (set (n # arrivals es))} - set (n # arrivals es)) - set (concat reports)"
proof -
  let ?m0 = "FeedbackManager_create True bAck True PT_SIMPLE" and ?M = "Max (set (n # arrivals es))"
  let ?m1 = "fst (FeedbackManager_onPacketArrival (Some t) (of_nat n) ?m0)"
  have first: "manager_detects n n {n} {} ?m1" by (rule manager_detects_first [OF assms(1)])
  have M: "fold max (arrivals es) n = ?M" using Max.set_eq_fold [of n "arrivals es"] by simp
  obtain rs where rs: "reports = map (map of_nat) rs" "distinct (concat rs)"
    and inv: "manager_detects n ?M (set (n # arrivals es)) (set (concat rs)) m"
    using fb_run_detects [OF first assms(2)] assms(3) by (auto simp: M)
  obtain ps where ps: "fm_vAssumedLost m = map of_nat ps" "distinct ps" "set ps = {n..?M} - set (n # arrivals es) - set (concat rs)"
    and r: "set (concat rs) \<subseteq> {n..?M}" "?M < 2 ^ 31" using inv unfolding manager_detects_def fm.detects_def by auto
  have all: "set (concat rs @ ps) \<subseteq> {n..?M}" using ps(3) r(1) by auto
  have inj: "inj_on (of_nat :: nat \<Rightarrow> u32) {n..?M}"
  proof (rule inj_onI)
    fix x y assume xy: "x \<in> {n..?M}" "y \<in> {n..?M}" "(of_nat x :: u32) = of_nat y"
    then have "x < 2 ^ 31" "y < 2 ^ 31" using le_less_trans [OF _ r(2)] by (simp_all del: Max_insert)
    then show "x = y" using xy(3) u32_of_nat_inj [of x y] by simp
  qed
  have cr: "concat reports = map of_nat (concat rs)" unfolding rs(1) by (simp add: map_concat)
  have "distinct (concat rs @ ps)" using rs(2) ps(2,3) by auto
  then have "distinct (map (of_nat :: nat \<Rightarrow> u32) (concat rs @ ps))" using inj_on_subset [OF inj all] by (simp only: distinct_map)
  moreover have "(of_nat :: nat \<Rightarrow> u32) ` ({n..?M} - set (n # arrivals es) - set (concat rs))
      = of_nat ` ({n..?M} - set (n # arrivals es)) - of_nat ` set (concat rs)"
    using inj_on_image_set_diff [OF inj, of "{n..?M} - set (n # arrivals es)" "set (concat rs)"] r(1) by auto
  ultimately show ?thesis using r(1) by (simp only: cr ps map_append set_map) blast
qed

theorem losses_reported_once_witness:
  "(let es = [Arrives 1 100, Arrives 2 104, Arrives 3 102, Reported, Arrives 4 101, Arrives 5 106];
        (reports, m) = fb_run es (FeedbackManager_create True False True PT_SIMPLE)
    in reports = [[101, 103]] \<and> fm_vAssumedLost m = [105] \<and> distinct (concat reports @ fm_vAssumedLost m))"
proof -
  define es where "es = [Arrives 2 104, Arrives 3 102, Reported, Arrives 4 101, Arrives 5 106]"
  obtain reports m where run: "fb_run (Arrives 1 100 # es) (FeedbackManager_create True False True PT_SIMPLE) = (reports, m)"
    by (cases "fb_run (Arrives 1 100 # es) (FeedbackManager_create True False True PT_SIMPLE)")
  have "within_window 100 (arrivals es)" by (simp add: es_def MAX_DROPOUT_def)
  from losses_reported_once [OF _ this run] have d: "distinct (concat reports @ fm_vAssumedLost m)" by simp
  have "(case fb_run (Arrives 1 100 # es) (FeedbackManager_create True False True PT_SIMPLE) of (reports, m) \<Rightarrow>
      reports = [[101, 103]] \<and> fm_vAssumedLost m = [105])" unfolding es_def
    by (simp add: FeedbackManager_create_def SimplePacketLossDetection_create_def StatisticsManager_create_def
        FeedbackManager_onPacketArrival_def PacketLossDetectionBase_onPacketArrival_def doOnPacketArrival_def Let_def MAX_DROPOUT_def
        RTP_SEQ_MOD_def MAX_MISORDER_def isFalsePositive_info receivePacket_def isPacketAssumedLost_info assumePacketLost_def
        setRtxCancelled_def pt_less_def onRtpPacketAssumedLost_def onRtpPacketLate_def getAssumedLost_def upt_rec)
  then show ?thesis using d run unfolding es_def by simp
qed

end
