(* ===== verification/Transmission_Manager.thy ===== *)
theory Transmission_Manager
  imports Loss_Detection
begin

text \<open>
  The transmission manager (\<open>TransmissionManager.cpp\<close>): a sender keeps the packets it has sent and makes
  retransmission packets from them, which carry the original sequence number before the payload; a receiver restores the original packet and
  remembers the numbers that arrived. The subflow header of a packet (\<open>mprtp/MpRtpHeader.h\<close>), which the other theories have no use for, is kept
  beside it. The cached extension size that \<open>getSize\<close> updates in the caller's packet is not followed here. Timers are numbered.
\<close>

unbundle bit_operations_syntax

section \<open>State\<close>

datatype TxBufferManagementMode = CIRCULAR_MODE | NACK_TIMED_MODE | ACK_MODE

type_synonym MpRtpSubflowRtpHeader = "u16 \<times> u16"

type_synonym mp_packet = "RtpPacket \<times> MpRtpSubflowRtpHeader option"

record RtpPacketInfo =
  pi_originalRtpPacket :: mp_packet
  pi_rtpPacketSize :: u32
  pi_rtpPayloadSize :: u32
  pi_tStored :: ptime
  pi_tAcked :: ptime
  pi_tNacked :: ptime
  pi_tReceived :: ptime
  pi_bProcessedByScheduler :: bool

definition RtpPacketInfo_default :: RtpPacketInfo where
  "RtpPacketInfo_default = \<lparr>pi_originalRtpPacket = (RtpPacket_create RtpHeader_default, None), pi_rtpPacketSize = 0, pi_rtpPayloadSize = 0,
     pi_tStored = None, pi_tAcked = None, pi_tNacked = None, pi_tReceived = None, pi_bProcessedByScheduler = False\<rparr>"

definition RtpPacketInfo_create :: "int \<Rightarrow> mp_packet \<Rightarrow> RtpPacketInfo" where
  "RtpPacketInfo_create tNow rtpPacket = RtpPacketInfo_default\<lparr>pi_originalRtpPacket := rtpPacket,
     pi_rtpPacketSize := fst (RtpPacket_getSize (fst rtpPacket)), pi_rtpPayloadSize := of_nat (length (rp_rtpPayload (fst rtpPacket))),
     pi_tStored := Some tNow\<rparr>"

record PathInfo =
  pa_uiSSRC :: u32
  pa_uiFlowId :: int
  pa_dRtt :: rat
  pa_uiJitter :: u32
  pa_uiLost :: u32
  pa_uiLostFraction :: u32
  pa_uiExtendedHighestSNReceived :: u32
  pa_uiJiffy :: u32

text \<open>
  \<open>m_mSnMap\<close> is a \<open>boost::bimap\<close> from sequence numbers to flow and flow specific number. The constructor leaves
  \<open>m_bIsMpRtpSession\<close> uninitialised and fills the queue of the circular mode with 30 zeros.
\<close>

record TransmissionManager =
  tm_eMode :: TxBufferManagementMode
  tm_uiRtxTimeMs :: u32
  tm_mTxMap :: "u16 \<rightharpoonup> RtpPacketInfo"
  tm_mRtxTimers :: "nat list"
  tm_bIsMpRtpSession :: bool
  tm_mSnMap :: "(u16 \<times> u32) list"
  tm_pathInfo :: PathInfo
  tm_uiRecvBufferSize :: nat
  tm_qRecentArrivals :: "u32 list"
  tm_mIncoming :: "u32 \<rightharpoonup> RtpPacketInfo"
  tm_tFirstPacketReceived :: ptime
  tm_uiLastReceivedExtendedSN :: u32
  tm_qCircularBuffer :: "u16 list"

definition MAX_CIRCULAR :: nat where "MAX_CIRCULAR = 30"

definition TransmissionManager_create :: "bool \<Rightarrow> PathInfo \<Rightarrow> TxBufferManagementMode \<Rightarrow> u32 \<Rightarrow> nat \<Rightarrow> TransmissionManager" where
  "TransmissionManager_create uninit pathInfo eMode uiRtxTimeMs uiRecvBufferSize =
     \<lparr>tm_eMode = eMode, tm_uiRtxTimeMs = uiRtxTimeMs, tm_mTxMap = Map.empty, tm_mRtxTimers = [], tm_bIsMpRtpSession = uninit,
      tm_mSnMap = [], tm_pathInfo = pathInfo, tm_uiRecvBufferSize = uiRecvBufferSize, tm_qRecentArrivals = [], tm_mIncoming = Map.empty,
      tm_tFirstPacketReceived = None, tm_uiLastReceivedExtendedSN = 0, tm_qCircularBuffer = replicate MAX_CIRCULAR 0\<rparr>"

datatype tx_out = StartRtxTimer nat u32 u16 | CancelRtxTimer nat

section \<open>The buffer of sent packets\<close>

definition packet_SN :: "mp_packet \<Rightarrow> u16" where
  "packet_SN rtpPacket = ucast (getSequenceNumber (fst rtpPacket))"

text \<open>\<open>insert\<close> of both maps keeps what is there.\<close>

definition flow_fssn :: "MpRtpSubflowRtpHeader \<Rightarrow> u32" where
  "flow_fssn sf = push_bit 16 (ucast (fst sf)) OR ucast (snd sf)"

definition sn_mapping_insert :: "u16 \<times> u32 \<Rightarrow> (u16 \<times> u32) list \<Rightarrow> (u16 \<times> u32) list" where
  "sn_mapping_insert e m = (if fst e \<in> fst ` set m \<or> snd e \<in> snd ` set m then m else m @ [e])"

definition insertPacketIntoTxBuffer :: "int \<Rightarrow> mp_packet \<Rightarrow> TransmissionManager \<Rightarrow> TransmissionManager" where
  "insertPacketIntoTxBuffer tNow rtpPacket tm =
     (let uiSN = packet_SN rtpPacket;
          tm1 = (case tm_mTxMap tm uiSN of
                   Some _ \<Rightarrow> tm
                 | None \<Rightarrow> tm\<lparr>tm_mTxMap := (tm_mTxMap tm)(uiSN \<mapsto> RtpPacketInfo_create tNow rtpPacket)\<rparr>)
      in case snd rtpPacket of
           None \<Rightarrow> tm1
         | Some sf \<Rightarrow> tm1\<lparr>tm_mSnMap := sn_mapping_insert (uiSN, flow_fssn sf) (tm_mSnMap tm1)\<rparr>)"

definition removePacketFromTxBuffer :: "u16 \<Rightarrow> TransmissionManager \<Rightarrow> TransmissionManager" where
  "removePacketFromTxBuffer uiSN tm =
     tm\<lparr>tm_mTxMap := (tm_mTxMap tm)(uiSN := None),
        tm_mSnMap := (if tm_bIsMpRtpSession tm then filter (\<lambda>e. fst e \<noteq> uiSN) (tm_mSnMap tm) else tm_mSnMap tm)\<rparr>"

text \<open>\<open>pTimer\<close> is the timer that is allocated in the timed mode.\<close>

definition storePacketForRetransmission ::
  "int \<Rightarrow> nat \<Rightarrow> RtpSessionState \<Rightarrow> mp_packet \<Rightarrow> TransmissionManager \<Rightarrow> tx_out list \<times> TransmissionManager" where
  "storePacketForRetransmission tNow pTimer st rtpPacket tm =
     (if rh_uiPT (rp_header (fst rtpPacket)) = ss_uiRtxPayloadType st then ([], tm)
      else case tm_eMode tm of
        CIRCULAR_MODE \<Rightarrow>
          let q = tm_qCircularBuffer tm @ [packet_SN rtpPacket]; tm1 = insertPacketIntoTxBuffer tNow rtpPacket tm
          in ([], if length q > MAX_CIRCULAR then removePacketFromTxBuffer (hd q) (tm1\<lparr>tm_qCircularBuffer := tl q\<rparr>)
                  else tm1\<lparr>tm_qCircularBuffer := q\<rparr>)
      | NACK_TIMED_MODE \<Rightarrow>
          let tm1 = insertPacketIntoTxBuffer tNow rtpPacket tm
          in ([StartRtxTimer pTimer (tm_uiRtxTimeMs tm) (packet_SN rtpPacket)], tm1\<lparr>tm_mRtxTimers := List.insert pTimer (tm_mRtxTimers tm1)\<rparr>)
      | ACK_MODE \<Rightarrow> ([], insertPacketIntoTxBuffer tNow rtpPacket tm))"

definition TransmissionManager_stop :: "TransmissionManager \<Rightarrow> tx_out list" where
  "TransmissionManager_stop tm = (if tm_eMode tm = NACK_TIMED_MODE then map CancelRtxTimer (tm_mRtxTimers tm) else [])"

definition onRemoveRtpPacketTimeout :: "nat \<Rightarrow> u16 \<Rightarrow> TransmissionManager \<Rightarrow> fault + TransmissionManager" where
  "onRemoveRtpPacketTimeout pTimer uiSN tm =
     (if tm_eMode tm \<noteq> NACK_TIMED_MODE \<or> pTimer \<notin> set (tm_mRtxTimers tm) then Inl Assertion_failed
      else Inr (removePacketFromTxBuffer uiSN (tm\<lparr>tm_mRtxTimers := filter (\<lambda>t. t \<noteq> pTimer) (tm_mRtxTimers tm)\<rparr>)))"

definition lookupRtpPacketInfo :: "u16 \<Rightarrow> TransmissionManager \<Rightarrow> RtpPacketInfo option" where
  "lookupRtpPacketInfo uiSN tm = tm_mTxMap tm uiSN"

section \<open>Retransmission packets\<close>

definition generateRtxPacket :: "RtpSessionState \<Rightarrow> mp_packet \<Rightarrow> mp_packet \<times> RtpSessionState" where
  "generateRtxPacket st rtpPacket =
     (case getNextRtxSequenceNumber st of (uiSN, st1) \<Rightarrow>
        ((RtpPacket_create (setRtpTimestamp (getRtpTimestamp (fst rtpPacket)) (setSSRC (ss_uiRtxSSRC st)
            (setSequenceNumber uiSN (setPayloadType (ss_uiRtxPayloadType st) (rp_header (fst rtpPacket)))))), snd rtpPacket), st1))"

definition generateRtxPacketSsrcMultiplexing ::
  "('i, 'o) bit_io \<Rightarrow> RtpSessionState \<Rightarrow> mp_packet \<Rightarrow> mp_packet \<times> RtpSessionState" where
  "generateRtxPacketSsrcMultiplexing io st rtpPacket =
     (case generateRtxPacket st rtpPacket of ((packet, sf), st1) \<Rightarrow>
        let newPayload = ob_str io (ob_writeBytes io (writes io [(unat (packet_SN rtpPacket), 16)] (ob_new io)) (rp_rtpPayload (fst rtpPacket)))
        in ((packet\<lparr>rp_rtpPayload := newPayload\<rparr>, sf), st1))"

definition generateRtxPacketSsrcMultiplexing_flow ::
  "('i, 'o) bit_io \<Rightarrow> RtpSessionState \<Rightarrow> mp_packet \<Rightarrow> u16 \<Rightarrow> u16 \<Rightarrow> mp_packet \<times> RtpSessionState" where
  "generateRtxPacketSsrcMultiplexing_flow io st rtpPacket uiFlowId uiFSSN =
     (case generateRtxPacket st rtpPacket of ((packet, sf), st1) \<Rightarrow>
        let newPayload = ob_str io (ob_writeBytes io (writes io [(unat (packet_SN rtpPacket), 16), (unat uiFlowId, 16), (unat uiFSSN, 16)] (ob_new io))
              (rp_rtpPayload (fst rtpPacket)))
        in ((packet\<lparr>rp_rtpPayload := newPayload\<rparr>, sf), st1))"

text \<open>The flow specific number is masked with \<open>0xFF\<close>.\<close>

definition generateRetransmissionPacket ::
  "('i, 'o) bit_io \<Rightarrow> u16 \<Rightarrow> TransmissionManager \<Rightarrow> RtpSessionState \<Rightarrow> mp_packet option \<times> RtpSessionState" where
  "generateRetransmissionPacket io uiSN tm st =
     (case tm_mTxMap tm uiSN of
        None \<Rightarrow> (None, st)
      | Some entry \<Rightarrow>
          (case map_of (tm_mSnMap tm) uiSN of
             None \<Rightarrow> map_prod Some id (generateRtxPacketSsrcMultiplexing io st (pi_originalRtpPacket entry))
           | Some uiFlowFssn \<Rightarrow>
               map_prod Some id (generateRtxPacketSsrcMultiplexing_flow io st (pi_originalRtpPacket entry)
                 (ucast (drop_bit 16 uiFlowFssn)) (ucast (uiFlowFssn AND 0xFF)))))"

definition lookupSequenceNumber :: "u16 \<Rightarrow> u16 \<Rightarrow> TransmissionManager \<Rightarrow> u16 option" where
  "lookupSequenceNumber uiFlowId uiFSSN tm = map_of (map (\<lambda>(a, b). (b, a)) (tm_mSnMap tm)) (flow_fssn (uiFlowId, uiFSSN))"

definition generateRetransmissionPacket_flow ::
  "('i, 'o) bit_io \<Rightarrow> u16 \<Rightarrow> u16 \<Rightarrow> TransmissionManager \<Rightarrow> RtpSessionState \<Rightarrow> fault + (mp_packet option \<times> RtpSessionState)" where
  "generateRetransmissionPacket_flow io uiFlowId uiFSSN tm st =
     (case lookupSequenceNumber uiFlowId uiFSSN tm of
        None \<Rightarrow> Inr (None, st)
      | Some uiSN \<Rightarrow>
          (case tm_mTxMap tm uiSN of
             None \<Rightarrow> Inl Out_of_range
           | Some entry \<Rightarrow> Inr (map_prod Some id (generateRtxPacketSsrcMultiplexing_flow io st (pi_originalRtpPacket entry) uiFlowId uiFSSN))))"

text \<open>
  The restored payload has the size of the whole packet less the octets stripped, more than the payload has; \<open>beyond\<close> is the
  memory after the payload.
\<close>

definition strip_payload :: "(nat \<Rightarrow> u8) \<Rightarrow> nat \<Rightarrow> u32 \<Rightarrow> bytes \<Rightarrow> bytes" where
  "strip_payload beyond k uiNewSize bs = map (\<lambda>i. if i + k < length bs then bs ! (i + k) else beyond (i + k)) [0..<unat uiNewSize]"

definition processRetransmission :: "('i, 'o) bit_io \<Rightarrow> (nat \<Rightarrow> u8) \<Rightarrow> mp_packet \<Rightarrow> mp_packet" where
  "processRetransmission io beyond rtpPacket =
     (let ib = ib_open io (rp_rtpPayload (fst rtpPacket)); payload = rp_rtpPayload (fst rtpPacket)
      in case RtpPacket_getSize (fst rtpPacket) of (uiSize, packet) \<Rightarrow>
           (case snd rtpPacket of
              None \<Rightarrow>
                (case reads io [(0, 16)] ib of (v, _) \<Rightarrow>
                   ((setExtendedSequenceNumber (of_nat (v ! 0)) packet)\<lparr>rp_rtpPayload := strip_payload beyond 2 (uiSize - 2) payload\<rparr>, None))
            | Some _ \<Rightarrow>
                (case reads io [(0, 16), (0, 16), (0, 16)] ib of (v, _) \<Rightarrow>
                   ((setExtendedSequenceNumber (of_nat (v ! 0)) packet)\<lparr>rp_rtpPayload := strip_payload beyond 6 (uiSize - 6) payload\<rparr>,
                    Some (of_nat (v ! 1), of_nat (v ! 2))))))"

section \<open>Arrivals and acknowledgements\<close>

definition TransmissionManager_onPacketReceived :: "RtpPacket \<Rightarrow> TransmissionManager \<Rightarrow> TransmissionManager" where
  "TransmissionManager_onPacketReceived rtpPacket tm =
     (let uiSN = getExtendedSequenceNumber rtpPacket;
          entry = (case tm_mIncoming tm uiSN of None \<Rightarrow> RtpPacketInfo_default | Some i \<Rightarrow> i)
      in tm\<lparr>tm_mIncoming := (tm_mIncoming tm)(uiSN \<mapsto> entry\<lparr>pi_tReceived := rp_tArrival rtpPacket\<rparr>),
            tm_uiLastReceivedExtendedSN := uiSN,
            tm_qRecentArrivals := (if tm_uiRecvBufferSize tm = 0 then [] else push_circular (tm_uiRecvBufferSize tm) uiSN (tm_qRecentArrivals tm)),
            tm_tFirstPacketReceived := (if tm_tFirstPacketReceived tm = None then rp_tArrival rtpPacket else tm_tFirstPacketReceived tm)\<rparr>)"

definition getPacketArrivalTime :: "u32 \<Rightarrow> TransmissionManager \<Rightarrow> ptime" where
  "getPacketArrivalTime uiSequenceNumber tm = (case tm_mIncoming tm uiSequenceNumber of None \<Rightarrow> None | Some i \<Rightarrow> pi_tReceived i)"

definition getLastNReceivedSequenceNumbers :: "nat \<Rightarrow> TransmissionManager \<Rightarrow> u32 list" where
  "getLastNReceivedSequenceNumbers uiN tm = rev (take uiN (rev (tm_qRecentArrivals tm)))"

definition updatePathChar :: "PathInfo \<Rightarrow> TransmissionManager \<Rightarrow> TransmissionManager" where
  "updatePathChar pathInfo tm = tm\<lparr>tm_pathInfo := pathInfo\<rparr>"

text \<open>The result is the numbers for the callback \<open>m_onAck\<close>: those acknowledged for the first time.\<close>

fun TransmissionManager_ack :: "int \<Rightarrow> u16 list \<Rightarrow> TransmissionManager \<Rightarrow> u16 list \<times> TransmissionManager" where
  "TransmissionManager_ack tNow [] tm = ([], tm)"
| "TransmissionManager_ack tNow (a # as) tm =
     (case tm_mTxMap tm a of
        Some i \<Rightarrow>
          if pi_tAcked i = None
          then apfst ((#) a) (TransmissionManager_ack tNow as (tm\<lparr>tm_mTxMap := (tm_mTxMap tm)(a \<mapsto> i\<lparr>pi_tAcked := Some tNow\<rparr>)\<rparr>))
          else TransmissionManager_ack tNow as tm
      | None \<Rightarrow> TransmissionManager_ack tNow as tm)"

definition TransmissionManager_nack :: "int \<Rightarrow> u16 list \<Rightarrow> TransmissionManager \<Rightarrow> TransmissionManager" where
  "TransmissionManager_nack tNow nacks tm =
     fold (\<lambda>n tm. tm\<lparr>tm_mTxMap := (tm_mTxMap tm)(n := map_option (pi_tNacked_update (\<lambda>_. Some tNow)) (tm_mTxMap tm n))\<rparr>) nacks tm"

end
