(* ===== verification/H264_Packetiser.thy ===== *)
theory H264_Packetiser
  imports Rtp_Packet_Group
begin

text \<open>
  The H.264 payload format (\<open>rfc6184/Rfc6184Packetiser.cpp\<close>, \<open>media/MediaSample.h\<close>, \<open>PayloadPacketiserBase.cpp\<close>): NAL units are
  sent alone, several to an aggregation packet, or in fragments, and put together again from the packets
  of a group. The loops of the packetiser do not end for every packet size and those over the
  contents of a packet depend on the stream package; they are partial functions, in which \<open>None\<close> is a loop that does not end.
\<close>

unbundle bit_operations_syntax

section \<open>Streams that copy\<close>

text \<open>
  Further operations of the package \<open>cpputil\<close>: \<open>out.write(in)\<close> copies the rest of an input stream, \<open>out.write(in, n)\<close> the
  next \<open>n\<close> octets, and \<open>skipBits\<close> skips bits.
\<close>

record ('i, 'o) copy_io =
  cp_io :: "('i, 'o) bit_io"
  cp_write :: "'o \<Rightarrow> 'i \<Rightarrow> 'o"
  cp_writeBytes :: "'o \<Rightarrow> 'i \<Rightarrow> nat \<Rightarrow> bool \<times> 'o \<times> 'i"
  cp_skipBits :: "'i \<Rightarrow> nat \<Rightarrow> 'i"

text \<open>A chain of reads joined by \<open>&&\<close> stops at the first that fails.\<close>

fun reads_ok :: "('i, 'o) bit_io \<Rightarrow> (nat \<times> nat) list \<Rightarrow> 'i \<Rightarrow> nat list option \<times> 'i" where
  "reads_ok io [] ib = (Some [], ib)"
| "reads_ok io (f # fs) ib =
     (case ib_read io ib (fst f) (snd f) of (ok, v, ib1) \<Rightarrow>
        if \<not> ok then (None, ib1) else (case reads_ok io fs ib1 of (vs, ib2) \<Rightarrow> (map_option ((#) v) vs, ib2)))"

section \<open>Media samples\<close>

record MediaSample =
  ms_dStartTime :: rat
  ms_dDecodingTime :: rat
  ms_data :: bytes
  ms_bMarker :: bool
  ms_uiRtpTime :: u32
  ms_uiSourceId :: u32
  ms_uiChannelId :: u32
  ms_iDecodingOrderNumber :: u16
  ms_iFlowIdHint :: u32
  ms_iStartCodeLengthHint :: u32
  ms_bNaluContainsStartCode :: bool
  ms_tPresentation :: ptime

text \<open>The constructor leaves the RTP time uninitialised; signed members are words that hold their two's complement.\<close>

definition MediaSample_new :: "u32 \<Rightarrow> MediaSample" where
  "MediaSample_new uninit =
     \<lparr>ms_dStartTime = 0, ms_dDecodingTime = 0, ms_data = [], ms_bMarker = False, ms_uiRtpTime = uninit, ms_uiSourceId = 0,
      ms_uiChannelId = 0, ms_iDecodingOrderNumber = -1, ms_iFlowIdHint = -1, ms_iStartCodeLengthHint = -1,
      ms_bNaluContainsStartCode = False, ms_tPresentation = None\<rparr>"

section \<open>State of the packetiser\<close>

datatype PacketizationMode = SINGLE_NAL_UNIT_MODE | NON_INTERLEAVED_MODE | INTERLEAVED_MODE

definition NUT_RESERVED_23 :: nat where "NUT_RESERVED_23 = 23"

definition NUT_STAP_A :: nat where "NUT_STAP_A = 24"

definition NUT_STAP_B :: nat where "NUT_STAP_B = 25"

definition NUT_FU_A :: nat where "NUT_FU_A = 28"

definition NUT_FU_B :: nat where "NUT_FU_B = 29"

definition IP_UDP_RTP_HEADER_SIZE :: u32 where "IP_UDP_RTP_HEADER_SIZE = 40"

definition DEFAULT_MTU :: u32 where "DEFAULT_MTU = 1500"

definition DEFAULT_BUFFER_SIZE_BYTES :: u32 where "DEFAULT_BUFFER_SIZE_BYTES = 10000"

record Rfc6184Packetiser =
  pk_eMode :: PacketizationMode
  pk_uiMtu :: u32
  pk_uiBytesAvailableForPayload :: u32
  pk_uiSessionBandwidthKbps :: u32
  pk_uiEstimatedFrameSize :: u32
  pk_bDisableStap :: bool
  pk_vLastPacketisationInfo :: "nat list list"

definition Rfc6184Packetiser_create :: "u32 \<Rightarrow> u32 \<Rightarrow> fault + Rfc6184Packetiser" where
  "Rfc6184Packetiser_create uiMtu uiSessionBandwidthKbps =
     (if uiMtu = 0 then Inl Assertion_failed
      else Inr \<lparr>pk_eMode = SINGLE_NAL_UNIT_MODE, pk_uiMtu = uiMtu, pk_uiBytesAvailableForPayload = uiMtu - IP_UDP_RTP_HEADER_SIZE,
        pk_uiSessionBandwidthKbps = uiSessionBandwidthKbps,
        pk_uiEstimatedFrameSize = (if uiSessionBandwidthKbps > 0 then uiSessionBandwidthKbps * 10 else DEFAULT_BUFFER_SIZE_BYTES),
        pk_bDisableStap = False, pk_vLastPacketisationInfo = []\<rparr>)"

definition setPacketizationMode :: "PacketizationMode \<Rightarrow> Rfc6184Packetiser \<Rightarrow> Rfc6184Packetiser" where
  "setPacketizationMode eMode pk = pk\<lparr>pk_eMode := eMode\<rparr>"

text \<open>The bytes available for the payload keep the value of the constructor.\<close>

definition setMtu :: "u32 \<Rightarrow> Rfc6184Packetiser \<Rightarrow> Rfc6184Packetiser" where
  "setMtu uiMtu pk = pk\<lparr>pk_uiMtu := uiMtu\<rparr>"

definition setDisableStap :: "bool \<Rightarrow> Rfc6184Packetiser \<Rightarrow> Rfc6184Packetiser" where
  "setDisableStap bDisable pk = pk\<lparr>pk_bDisableStap := bDisable\<rparr>"

section \<open>Packets with one NAL unit\<close>

definition payload_packet :: "bytes \<Rightarrow> bool \<Rightarrow> RtpPacket" where
  "payload_packet bs bMarker = (RtpPacket_create (setMarkerBit bMarker RtpHeader_default))\<lparr>rp_rtpPayload := bs\<rparr>"

definition packetiseSingleNalUnit :: "MediaSample \<Rightarrow> RtpPacket" where
  "packetiseSingleNalUnit mediaSample = payload_packet (ms_data mediaSample) (ms_bMarker mediaSample)"

section \<open>Fragments\<close>

text \<open>The NAL unit header at the start of a stream: the forbidden bit is skipped.\<close>

definition read_nal_header :: "('i, 'o) copy_io \<Rightarrow> nat \<Rightarrow> bytes \<Rightarrow> nat \<times> nat \<times> 'i" where
  "read_nal_header cp uiNri data =
     (case reads (cp_io cp) [(uiNri, 2), (0, 5)] (cp_skipBits cp (ib_open (cp_io cp) data) 1) of (v, ib) \<Rightarrow> (v ! 0, v ! 1, ib))"

definition fu_fields :: "nat \<Rightarrow> nat \<Rightarrow> nat \<Rightarrow> bool \<Rightarrow> bool \<Rightarrow> (nat \<times> nat) list" where
  "fu_fields uiType uiNri uiNut bStart bEnd =
     [(0, 1), (uiNri, 2), (uiType, 5), (of_bool bStart, 1), (of_bool bEnd, 1), (0, 1), (uiNut, 5)]"

partial_function (option) fua_loop ::
  "('i, 'o) copy_io \<Rightarrow> u32 \<Rightarrow> bool \<Rightarrow> nat \<Rightarrow> nat \<Rightarrow> nat \<Rightarrow> 'i \<Rightarrow> bool \<Rightarrow> RtpPacket list \<Rightarrow> (fault + RtpPacket list) option" where
  "fua_loop cp uiMaxBytesPerPayload bMarker uiNri uiNut uiBytesToPacketize ib bStart vRtpPackets =
     (if uiBytesToPacketize = 0 then Some (Inr vRtpPackets)
      else let bEnd = (\<not> bStart \<and> uiBytesToPacketize \<le> unat uiMaxBytesPerPayload);
               out1 = writes (cp_io cp) (fu_fields NUT_FU_A uiNri uiNut bStart bEnd) (ob_new (cp_io cp));
               uiBytesToWrite = min (ib_bytesRemaining (cp_io cp) ib) (unat uiMaxBytesPerPayload)
           in case cp_writeBytes cp out1 ib uiBytesToWrite of (bRes, out2, ib1) \<Rightarrow>
                if \<not> bRes then Some (Inl Assertion_failed)
                else fua_loop cp uiMaxBytesPerPayload bMarker uiNri uiNut (uiBytesToPacketize - uiBytesToWrite) ib1 False
                       (vRtpPackets @ [payload_packet (ob_str (cp_io cp) out2) (bEnd \<and> bMarker)]))"

definition packetiseFuA :: "('i, 'o) copy_io \<Rightarrow> Rfc6184Packetiser \<Rightarrow> MediaSample \<Rightarrow> (fault + RtpPacket list) option" where
  "packetiseFuA cp pk mediaSample =
     (if length (ms_data mediaSample) \<le> unat (pk_uiBytesAvailableForPayload pk) then Some (Inl Assertion_failed)
      else case read_nal_header cp 0 (ms_data mediaSample) of (uiNri, uiNut, ib) \<Rightarrow>
        fua_loop cp (pk_uiBytesAvailableForPayload pk - 2) (ms_bMarker mediaSample) uiNri uiNut (ib_bytesRemaining (cp_io cp) ib) ib True [])"

text \<open>With decoding order numbers, only the first fragment has a header of its own.\<close>

partial_function (option) fub_loop ::
  "('i, 'o) copy_io \<Rightarrow> u32 \<Rightarrow> bool \<Rightarrow> u16 \<Rightarrow> nat \<Rightarrow> nat \<Rightarrow> nat \<Rightarrow> 'i \<Rightarrow> bool \<Rightarrow> RtpPacket list \<Rightarrow> (fault + RtpPacket list) option" where
  "fub_loop cp uiBytesAvailableForPayload bMarker iDON uiNri uiNut uiBytesToPacketize ib bStart vRtpPackets =
     (if uiBytesToPacketize = 0 then Some (Inr vRtpPackets)
      else let uiMaxBytesPerPayload = (if bStart then uiBytesAvailableForPayload - 4 else uiBytesAvailableForPayload - 2);
               bEnd = (\<not> bStart \<and> uiBytesToPacketize \<le> unat uiMaxBytesPerPayload);
               fields = (if bStart then fu_fields NUT_FU_B uiNri uiNut True False @ [(unat iDON, 16)]
                         else fu_fields NUT_FU_A uiNri uiNut False bEnd);
               out1 = writes (cp_io cp) fields (ob_new (cp_io cp));
               uiBytesToWrite = min (ib_bytesRemaining (cp_io cp) ib) (unat uiMaxBytesPerPayload)
           in case cp_writeBytes cp out1 ib uiBytesToWrite of (bRes, out2, ib1) \<Rightarrow>
                if \<not> bRes then Some (Inl Assertion_failed)
                else fub_loop cp uiBytesAvailableForPayload bMarker iDON uiNri uiNut (uiBytesToPacketize - uiBytesToWrite) ib1 False
                       (vRtpPackets @ [payload_packet (ob_str (cp_io cp) out2) (bEnd \<and> bMarker)]))"

definition packetiseFuB :: "('i, 'o) copy_io \<Rightarrow> Rfc6184Packetiser \<Rightarrow> MediaSample \<Rightarrow> (fault + RtpPacket list) option" where
  "packetiseFuB cp pk mediaSample =
     (if length (ms_data mediaSample) \<le> unat (pk_uiBytesAvailableForPayload pk) then Some (Inl Assertion_failed)
      else case read_nal_header cp 0 (ms_data mediaSample) of (uiNri, uiNut, ib) \<Rightarrow>
        fub_loop cp (pk_uiBytesAvailableForPayload pk) (ms_bMarker mediaSample) (ms_iDecodingOrderNumber mediaSample) uiNri uiNut
          (ib_bytesRemaining (cp_io cp) ib) ib True [])"

section \<open>Aggregation\<close>

text \<open>The state of the loop: how many units fit, the size of the packet, its F bit and NRI. The first octet of an empty unit is out of range.\<close>

type_synonym stap = "nat \<times> u32 \<times> bool \<times> nat"

fun aggregate_loop :: "u32 \<Rightarrow> MediaSample list \<Rightarrow> stap \<Rightarrow> fault + stap" where
  "aggregate_loop uiBytesAvailable [] s = Inr s"
| "aggregate_loop uiBytesAvailable (m # ms) (iNalUnits, uiStapSize, bFBit, uiNri) =
     (if uiBytesAvailable = 0 then Inr (iNalUnits, uiStapSize, bFBit, uiNri)
      else let uiSizeRequired = of_nat (length (ms_data m)) + 2
           in if uiSizeRequired > uiBytesAvailable then Inr (iNalUnits, uiStapSize, bFBit, uiNri)
              else if ms_data m = [] then Inl Out_of_range
              else let uiNalHeader = hd (ms_data m);
                       uiCurrentNri = unat (drop_bit 5 (uiNalHeader AND 0x60))
                   in aggregate_loop (uiBytesAvailable - uiSizeRequired) ms
                        (iNalUnits + 1, uiStapSize + uiSizeRequired, bFBit \<or> uiNalHeader AND 0x80 \<noteq> 0, max uiNri uiCurrentNri))"

definition getNumberOfSamplesToAggregate ::
  "Rfc6184Packetiser \<Rightarrow> u32 \<Rightarrow> MediaSample list \<Rightarrow> nat \<Rightarrow> stap \<Rightarrow> fault + stap" where
  "getNumberOfSamplesToAggregate pk uiBytesAvailableForPayload mediaSamples uiStartIndex old =
     (if pk_bDisableStap pk then Inr (1, snd old)
      else aggregate_loop (uiBytesAvailableForPayload - 1) (drop uiStartIndex mediaSamples) (0, 1, False, 0))"

text \<open>The units of an aggregation packet: a length and the octets.\<close>

definition write_units :: "('i, 'o) copy_io \<Rightarrow> MediaSample list \<Rightarrow> 'o \<Rightarrow> 'o" where
  "write_units cp ms ob =
     foldl (\<lambda>ob m. cp_write cp (ob_write (cp_io cp) ob (length (ms_data m)) 16) (ib_open (cp_io cp) (ms_data m))) ob ms"

definition note_packets :: "nat list \<Rightarrow> nat list \<Rightarrow> nat list list \<Rightarrow> nat list list" where
  "note_packets is ks info = fold (\<lambda>i info. info[i := info ! i @ ks]) is info"

section \<open>Packetisation\<close>

definition packetiseNonInterleaved_one :: "('i, 'o) copy_io \<Rightarrow> Rfc6184Packetiser \<Rightarrow> MediaSample \<Rightarrow> (fault + RtpPacket list) option" where
  "packetiseNonInterleaved_one cp pk mediaSample =
     (if length (ms_data mediaSample) > unat (pk_uiBytesAvailableForPayload pk) then packetiseFuA cp pk mediaSample
      else Some (Inr [packetiseSingleNalUnit mediaSample]))"

text \<open>The STAP-B packet of a single NAL unit; \<open>uiNri\<close> is what the variable holds when the indicator is written.\<close>

definition stap_b_single :: "('i, 'o) copy_io \<Rightarrow> nat \<Rightarrow> nat \<Rightarrow> 'i \<Rightarrow> nat \<Rightarrow> MediaSample \<Rightarrow> RtpPacket" where
  "stap_b_single cp uiNriIndicator uiNut ib uiNri mediaSample =
     (let fields = [(0, 1), (uiNriIndicator, 2), (NUT_STAP_B, 5), (unat (ms_iDecodingOrderNumber mediaSample), 16),
                    (length (ms_data mediaSample), 16), (0, 1), (uiNri, 2), (uiNut, 5)]
      in case cp_writeBytes cp (writes (cp_io cp) fields (ob_new (cp_io cp))) ib (unat (of_nat (length (ms_data mediaSample)) - 1 :: u32)) of
           (_, out, _) \<Rightarrow> payload_packet (ob_str (cp_io cp) out) (ms_bMarker mediaSample))"

definition packetiseInterleaved_one :: "('i, 'o) copy_io \<Rightarrow> Rfc6184Packetiser \<Rightarrow> MediaSample \<Rightarrow> (fault + RtpPacket list) option" where
  "packetiseInterleaved_one cp pk mediaSample =
     (if length (ms_data mediaSample) > unat (pk_uiBytesAvailableForPayload pk - 4) then packetiseFuB cp pk mediaSample
      else case read_nal_header cp 0 (ms_data mediaSample) of (uiNri, uiNut, ib) \<Rightarrow>
        Some (Inr [stap_b_single cp uiNri uiNut ib uiNri mediaSample]))"

definition packetise_one :: "('i, 'o) copy_io \<Rightarrow> Rfc6184Packetiser \<Rightarrow> MediaSample \<Rightarrow> (fault + RtpPacket list) option" where
  "packetise_one cp pk mediaSample =
     (case pk_eMode pk of
        NON_INTERLEAVED_MODE \<Rightarrow> packetiseNonInterleaved_one cp pk mediaSample
      | INTERLEAVED_MODE \<Rightarrow> packetiseInterleaved_one cp pk mediaSample
      | SINGLE_NAL_UNIT_MODE \<Rightarrow> Some (Inr [packetiseSingleNalUnit mediaSample]))"

text \<open>
  The loops over an access unit: \<open>i\<close> is the current sample, \<open>vRtpPackets\<close> the packets so far, whose number is the next
  packet index, and \<open>info\<close> the indices of the packets that hold each sample.
\<close>

definition stap_a_packet :: "('i, 'o) copy_io \<Rightarrow> bool \<Rightarrow> nat \<Rightarrow> MediaSample list \<Rightarrow> RtpPacket" where
  "stap_a_packet cp bFBit uiNri ms =
     payload_packet (ob_str (cp_io cp) (write_units cp ms
       (writes (cp_io cp) [(of_bool bFBit, 1), (uiNri, 2), (NUT_STAP_A, 5)] (ob_new (cp_io cp))))) (ms_bMarker (last ms))"

partial_function (option) non_interleaved_loop ::
  "('i, 'o) copy_io \<Rightarrow> Rfc6184Packetiser \<Rightarrow> MediaSample list \<Rightarrow> nat \<Rightarrow> RtpPacket list \<Rightarrow> nat list list \<Rightarrow>
     (fault + (RtpPacket list \<times> nat list list)) option" where
  "non_interleaved_loop cp pk mediaSamples i vRtpPackets info =
     (if i \<ge> length mediaSamples then Some (Inr (vRtpPackets, info))
      else let mediaSample = mediaSamples ! i; k = length vRtpPackets
           in if length (ms_data mediaSample) > unat (pk_uiBytesAvailableForPayload pk)
              then Option.bind (packetiseFuA cp pk mediaSample)
                     (\<lambda>r. case r of
                        Inl f \<Rightarrow> Some (Inl f)
                      | Inr fus \<Rightarrow> non_interleaved_loop cp pk mediaSamples (i + 1) (vRtpPackets @ fus)
                                    (note_packets [i] [k..<k + length fus] info))
              else case getNumberOfSamplesToAggregate pk (pk_uiBytesAvailableForPayload pk) mediaSamples i (0, 0, False, 0) of
                     Inl f \<Rightarrow> Some (Inl f)
                   | Inr (iCount, uiStapSize, bFBit, uiNri) \<Rightarrow>
                       if iCount < 2
                       then non_interleaved_loop cp pk mediaSamples (i + 1) (vRtpPackets @ [packetiseSingleNalUnit mediaSample])
                              (note_packets [i] [k] info)
                       else non_interleaved_loop cp pk mediaSamples (i + iCount)
                              (vRtpPackets @ [stap_a_packet cp bFBit uiNri (take iCount (drop i mediaSamples))])
                              (note_packets [i..<i + iCount] [k] info))"

definition packetiseNonInterleaved ::
  "('i, 'o) copy_io \<Rightarrow> Rfc6184Packetiser \<Rightarrow> MediaSample list \<Rightarrow> (fault + (RtpPacket list \<times> nat list list)) option" where
  "packetiseNonInterleaved cp pk mediaSamples = non_interleaved_loop cp pk mediaSamples 0 [] (pk_vLastPacketisationInfo pk)"

text \<open>The loop that copies the units of a STAP-B runs from the current sample to the number of samples, not to their sum.\<close>

definition stap_b_packet :: "('i, 'o) copy_io \<Rightarrow> bool \<Rightarrow> nat \<Rightarrow> MediaSample list \<Rightarrow> nat \<Rightarrow> nat \<Rightarrow> RtpPacket" where
  "stap_b_packet cp bFBit uiNri mediaSamples i iCount =
     payload_packet (ob_str (cp_io cp) (write_units cp (drop i (take iCount mediaSamples))
       (writes (cp_io cp) [(of_bool bFBit, 1), (uiNri, 2), (NUT_STAP_B, 5), (unat (ms_iDecodingOrderNumber (mediaSamples ! i)), 16)]
         (ob_new (cp_io cp))))) (ms_bMarker (mediaSamples ! (i + iCount - 1)))"

partial_function (option) interleaved_loop ::
  "('i, 'o) copy_io \<Rightarrow> Rfc6184Packetiser \<Rightarrow> MediaSample list \<Rightarrow> nat \<Rightarrow> RtpPacket list \<Rightarrow> nat list list \<Rightarrow>
     (fault + (RtpPacket list \<times> nat list list)) option" where
  "interleaved_loop cp pk mediaSamples i vRtpPackets info =
     (if i \<ge> length mediaSamples then Some (Inr (vRtpPackets, info))
      else let mediaSample = mediaSamples ! i; k = length vRtpPackets
           in if length (ms_data mediaSample) > unat (pk_uiBytesAvailableForPayload pk - 4)
              then Option.bind (packetiseFuB cp pk mediaSample)
                     (\<lambda>r. case r of
                        Inl f \<Rightarrow> Some (Inl f)
                      | Inr fus \<Rightarrow> interleaved_loop cp pk mediaSamples (i + 1) (vRtpPackets @ fus)
                                    (note_packets [i] [k..<k + length fus] info))
              else case getNumberOfSamplesToAggregate pk (pk_uiBytesAvailableForPayload pk - 2) mediaSamples i (0, 0, False, 0) of
                     Inl f \<Rightarrow> Some (Inl f)
                   | Inr (iCount, uiStapSize, bFBit, uiNri) \<Rightarrow>
                       if iCount < 2
                       then case read_nal_header cp uiNri (ms_data mediaSample) of (uiNri1, uiNut, ib) \<Rightarrow>
                              interleaved_loop cp pk mediaSamples (i + 1)
                                (vRtpPackets @ [stap_b_single cp uiNri uiNut ib uiNri1 mediaSample]) (note_packets [i] [k] info)
                       else interleaved_loop cp pk mediaSamples (i + iCount)
                              (vRtpPackets @ [stap_b_packet cp bFBit uiNri mediaSamples i iCount])
                              (note_packets [i..<iCount] [k] info))"

definition packetiseInterleaved ::
  "('i, 'o) copy_io \<Rightarrow> Rfc6184Packetiser \<Rightarrow> MediaSample list \<Rightarrow> (fault + (RtpPacket list \<times> nat list list)) option" where
  "packetiseInterleaved cp pk mediaSamples = interleaved_loop cp pk mediaSamples 0 [] (pk_vLastPacketisationInfo pk)"

definition Rfc6184Packetiser_packetise ::
  "('i, 'o) copy_io \<Rightarrow> MediaSample list \<Rightarrow> Rfc6184Packetiser \<Rightarrow> (fault + (RtpPacket list \<times> Rfc6184Packetiser)) option" where
  "Rfc6184Packetiser_packetise cp mediaSamples pk =
     (let pk1 = pk\<lparr>pk_vLastPacketisationInfo := replicate (length mediaSamples) []\<rparr>;
          finish = map_option (map_sum id (\<lambda>(ps, info). (ps, pk1\<lparr>pk_vLastPacketisationInfo := info\<rparr>)))
      in case pk_eMode pk of
           NON_INTERLEAVED_MODE \<Rightarrow> finish (packetiseNonInterleaved cp pk1 mediaSamples)
         | INTERLEAVED_MODE \<Rightarrow> finish (packetiseInterleaved cp pk1 mediaSamples)
         | SINGLE_NAL_UNIT_MODE \<Rightarrow>
             Some (Inr (map packetiseSingleNalUnit mediaSamples,
                        pk1\<lparr>pk_vLastPacketisationInfo := map (\<lambda>i. [i]) [0..<length mediaSamples]\<rparr>)))"

section \<open>Depacketisation\<close>

definition group_sample :: "u32 \<Rightarrow> RtpPacketGroup \<Rightarrow> bytes \<Rightarrow> MediaSample" where
  "group_sample uninit g bs =
     (MediaSample_new uninit)\<lparr>ms_data := bs, ms_uiRtpTime := pg_uiRtpTs g, ms_tPresentation := pg_tPresentation g\<rparr>"

partial_function (option) handleStapA ::
  "('i, 'o) copy_io \<Rightarrow> u32 \<Rightarrow> RtpPacketGroup \<Rightarrow> nat \<Rightarrow> 'i \<Rightarrow> MediaSample list \<Rightarrow> MediaSample list option" where
  "handleStapA cp uninit g uiSize ib vSamples =
     (case ib_read (cp_io cp) ib uiSize 16 of (ok, uiSize1, ib1) \<Rightarrow>
        if \<not> ok then Some vSamples
        else if uiSize1 > 0
        then (case ib_readBytes (cp_io cp) ib1 uiSize1 of (ok2, bs, ib2) \<Rightarrow>
                if ok2 then handleStapA cp uninit g uiSize1 ib2 (vSamples @ [group_sample uninit g bs]) else Some vSamples)
        else handleStapA cp uninit g uiSize1 ib1 vSamples)"

partial_function (option) handleStapB_loop ::
  "('i, 'o) copy_io \<Rightarrow> u32 \<Rightarrow> RtpPacketGroup \<Rightarrow> nat \<Rightarrow> u16 \<Rightarrow> 'i \<Rightarrow> MediaSample list \<Rightarrow> MediaSample list option" where
  "handleStapB_loop cp uninit g uiSize uiDON ib vSamples =
     (case ib_read (cp_io cp) ib uiSize 16 of (ok, uiSize1, ib1) \<Rightarrow>
        if \<not> ok then Some vSamples
        else if uiSize1 > 0
        then (case ib_readBytes (cp_io cp) ib1 uiSize1 of (ok2, bs, ib2) \<Rightarrow>
                if ok2 then handleStapB_loop cp uninit g uiSize1 (uiDON + 1) ib2
                              (vSamples @ [(group_sample uninit g bs)\<lparr>ms_iDecodingOrderNumber := uiDON\<rparr>])
                else Some vSamples)
        else handleStapB_loop cp uninit g uiSize1 uiDON ib1 vSamples)"

definition handleStapB ::
  "('i, 'o) copy_io \<Rightarrow> u32 \<Rightarrow> RtpPacketGroup \<Rightarrow> 'i \<Rightarrow> MediaSample list \<Rightarrow> MediaSample list option" where
  "handleStapB cp uninit g ib vSamples =
     (case ib_read (cp_io cp) ib 0 16 of (_, uiDON, ib1) \<Rightarrow> handleStapB_loop cp uninit g 0 (of_nat uiDON) ib1 vSamples)"

text \<open>
  The fragments after the first: the packets that follow, up to the fragment with the end bit. The result is the samples
  found and the packets at which the next unit is looked for; a missing packet gives up the rest of the
  group. A decoding order number is that of the first fragment.
\<close>

definition fu_sample :: "u32 \<Rightarrow> RtpPacketGroup \<Rightarrow> u16 option \<Rightarrow> bytes \<Rightarrow> MediaSample" where
  "fu_sample uninit g uiDON bs =
     (case uiDON of None \<Rightarrow> group_sample uninit g bs | Some d \<Rightarrow> (group_sample uninit g bs)\<lparr>ms_iDecodingOrderNumber := d\<rparr>)"

fun fu_next ::
  "('i, 'o) copy_io \<Rightarrow> u32 \<Rightarrow> RtpPacketGroup \<Rightarrow> u16 option \<Rightarrow> 'o \<Rightarrow> u32 \<Rightarrow> RtpPacket list \<Rightarrow> fault + (MediaSample list \<times> RtpPacket list)" where
  "fu_next cp uninit g uiDON ob uiPreviousSN [] = Inr ([], [])"
| "fu_next cp uninit g uiDON ob uiPreviousSN (p # ps) =
     (if getExtendedSequenceNumber p \<noteq> uiPreviousSN + 1 then Inr ([], [])
      else case reads_ok (cp_io cp) [(0, 1), (0, 2), (0, 5), (0, 1), (0, 1), (0, 1), (0, 5)] (ib_open (cp_io cp) (rp_rtpPayload p)) of
             (None, _) \<Rightarrow> Inr ([], [])
           | (Some v, ib) \<Rightarrow>
               if v ! 2 \<noteq> NUT_FU_A then Inr ([], p # ps)
               else if v ! 3 \<noteq> 0 \<or> v ! 5 \<noteq> 0 then Inl Assertion_failed
               else let ob1 = cp_write cp ob ib
                    in if v ! 4 \<noteq> 0 then Inr ([fu_sample uninit g uiDON (ob_str (cp_io cp) ob1)], ps)
                       else fu_next cp uninit g uiDON ob1 (getExtendedSequenceNumber p) ps)"

definition fu_begin :: "('i, 'o) copy_io \<Rightarrow> nat \<Rightarrow> nat \<Rightarrow> nat \<Rightarrow> 'i \<Rightarrow> 'o" where
  "fu_begin cp forbidden nri fu_type ib = cp_write cp (writes (cp_io cp) [(forbidden, 1), (nri, 2), (fu_type, 5)] (ob_new (cp_io cp))) ib"

definition handleFuA ::
  "('i, 'o) copy_io \<Rightarrow> u32 \<Rightarrow> RtpPacketGroup \<Rightarrow> 'i \<Rightarrow> RtpPacket list \<Rightarrow> u32 \<Rightarrow> nat \<Rightarrow> nat \<Rightarrow> fault + (MediaSample list \<times> RtpPacket list)" where
  "handleFuA cp uninit g ib ps uiStartSN forbidden nri =
     (case reads_ok (cp_io cp) [(0, 1), (0, 1), (0, 1), (0, 5)] ib of
        (None, _) \<Rightarrow> Inr ([], [])
      | (Some v, ib1) \<Rightarrow>
          if v ! 0 = 0 then Inr ([], [])
          else if v ! 1 \<noteq> 0 \<or> v ! 2 \<noteq> 0 then Inl Assertion_failed
          else fu_next cp uninit g None (fu_begin cp forbidden nri (v ! 3) ib1) uiStartSN ps)"

definition handleFuB ::
  "('i, 'o) copy_io \<Rightarrow> u32 \<Rightarrow> RtpPacketGroup \<Rightarrow> 'i \<Rightarrow> RtpPacket list \<Rightarrow> u32 \<Rightarrow> nat \<Rightarrow> nat \<Rightarrow> fault + (MediaSample list \<times> RtpPacket list)" where
  "handleFuB cp uninit g ib ps uiStartSN forbidden nri =
     (case reads_ok (cp_io cp) [(0, 1), (0, 1), (0, 1), (0, 5), (0, 16)] ib of
        (None, _) \<Rightarrow> Inr ([], [])
      | (Some v, ib1) \<Rightarrow>
          if v ! 0 = 0 then Inr ([], [])
          else if v ! 1 \<noteq> 0 \<or> v ! 2 \<noteq> 0 then Inl Assertion_failed
          else fu_next cp uninit g (Some (of_nat (v ! 4))) (fu_begin cp forbidden nri (v ! 3) ib1) uiStartSN ps)"

definition extractNextMediaSample ::
  "('i, 'o) copy_io \<Rightarrow> u32 \<Rightarrow> RtpPacketGroup \<Rightarrow> RtpPacket \<Rightarrow> RtpPacket list \<Rightarrow> (fault + (MediaSample list \<times> RtpPacket list)) option" where
  "extractNextMediaSample cp uninit g p ps =
     (case reads_ok (cp_io cp) [(0, 1), (0, 2), (0, 5)] (ib_open (cp_io cp) (rp_rtpPayload p)) of
        (None, _) \<Rightarrow> Some (Inl Fatal_error)
      | (Some v, ib) \<Rightarrow>
          if v ! 2 \<le> NUT_RESERVED_23
          then Some (Inr ([(group_sample uninit g (rp_rtpPayload p))\<lparr>ms_uiRtpTime := getRtpTimestamp p\<rparr>], ps))
          else if v ! 2 = NUT_STAP_A then map_option (\<lambda>ms. Inr (ms, ps)) (handleStapA cp uninit g 0 ib [])
          else if v ! 2 = NUT_STAP_B then map_option (\<lambda>ms. Inr (ms, ps)) (handleStapB cp uninit g ib [])
          else if v ! 2 = NUT_FU_A then Some (handleFuA cp uninit g ib ps (getExtendedSequenceNumber p) (v ! 0) (v ! 1))
          else if v ! 2 = NUT_FU_B then Some (handleFuB cp uninit g ib ps (getExtendedSequenceNumber p) (v ! 0) (v ! 1))
          else Some (Inr ([], [])))"

partial_function (option) depacketize_loop ::
  "('i, 'o) copy_io \<Rightarrow> u32 \<Rightarrow> RtpPacketGroup \<Rightarrow> RtpPacket list \<Rightarrow> MediaSample list \<Rightarrow> (fault + MediaSample list) option" where
  "depacketize_loop cp uninit g ps vSamples =
     (case ps of
        [] \<Rightarrow> Some (Inr vSamples)
      | p # qs \<Rightarrow>
          Option.bind (extractNextMediaSample cp uninit g p qs)
            (\<lambda>r. case r of Inl f \<Rightarrow> Some (Inl f) | Inr (ms, rest) \<Rightarrow> depacketize_loop cp uninit g rest (vSamples @ ms)))"

definition depacketizeNonInterleaved :: "('i, 'o) copy_io \<Rightarrow> u32 \<Rightarrow> RtpPacketGroup \<Rightarrow> (fault + MediaSample list) option" where
  "depacketizeNonInterleaved cp uninit g = depacketize_loop cp uninit g (pg_rtpPacketList g) []"

definition depacketizeInterleaved :: "('i, 'o) copy_io \<Rightarrow> u32 \<Rightarrow> RtpPacketGroup \<Rightarrow> (fault + MediaSample list) option" where
  "depacketizeInterleaved cp uninit g = depacketize_loop cp uninit g (pg_rtpPacketList g) []"

text \<open>In this mode the RTP time of the samples stays uninitialised.\<close>

fun depacketize_single :: "('i, 'o) copy_io \<Rightarrow> u32 \<Rightarrow> RtpPacketGroup \<Rightarrow> RtpPacket list \<Rightarrow> fault + MediaSample list" where
  "depacketize_single cp uninit g [] = Inr []"
| "depacketize_single cp uninit g (p # ps) =
     (case reads_ok (cp_io cp) [(0, 1), (0, 2), (0, 5)] (ib_open (cp_io cp) (rp_rtpPayload p)) of
        (None, _) \<Rightarrow> Inl Fatal_error
      | (Some v, ib) \<Rightarrow>
          map_sum id (\<lambda>ms. (if v ! 2 > NUT_RESERVED_23 then []
                            else [(MediaSample_new uninit)\<lparr>ms_data := rp_rtpPayload p, ms_tPresentation := pg_tPresentation g\<rparr>]) @ ms)
            (depacketize_single cp uninit g ps))"

definition depacketizeSingleNalUnit :: "('i, 'o) copy_io \<Rightarrow> u32 \<Rightarrow> RtpPacketGroup \<Rightarrow> (fault + MediaSample list) option" where
  "depacketizeSingleNalUnit cp uninit g = Some (depacketize_single cp uninit g (pg_rtpPacketList g))"

definition Rfc6184Packetiser_depacketize ::
  "('i, 'o) copy_io \<Rightarrow> u32 \<Rightarrow> Rfc6184Packetiser \<Rightarrow> RtpPacketGroup \<Rightarrow> (fault + MediaSample list) option" where
  "Rfc6184Packetiser_depacketize cp uninit pk g =
     map_option (map_sum id (map (\<lambda>m. m\<lparr>ms_bMarker := pg_bRtcpSynchronised g\<rparr>)))
       (case pk_eMode pk of
          SINGLE_NAL_UNIT_MODE \<Rightarrow> depacketizeSingleNalUnit cp uninit g
        | NON_INTERLEAVED_MODE \<Rightarrow> depacketizeNonInterleaved cp uninit g
        | INTERLEAVED_MODE \<Rightarrow> depacketizeInterleaved cp uninit g)"

section \<open>The simple packetiser\<close>

text \<open>Payload formats without a packetiser of their own: one packet for each sample.\<close>

definition PayloadPacketiserBase_packetise :: "MediaSample list \<Rightarrow> RtpPacket list" where
  "PayloadPacketiserBase_packetise vMediaSamples = map (\<lambda>m. payload_packet (ms_data m) False) vMediaSamples"

definition PayloadPacketiserBase_depacketize :: "u32 \<Rightarrow> RtpPacketGroup \<Rightarrow> MediaSample list" where
  "PayloadPacketiserBase_depacketize uninit g =
     map (\<lambda>p. (MediaSample_new uninit)\<lparr>ms_data := rp_rtpPayload p, ms_tPresentation := pg_tPresentation g, ms_bMarker := pg_bRtcpSynchronised g\<rparr>)
       (pg_rtpPacketList g)"

end
