(* ===== verification/Playout.thy ===== *)
theory Playout
  imports Jitter_Buffer
begin

text \<open>
  The contract between a playout buffer and its client. The client adds packets as they
  arrive, starts a timer whenever \<open>addRtpPacket\<close> reports a new node, and fetches one node for
  every timer that fires. The contract is a locale, interpreted for the three buffers; order,
  lateness and playout times of the individual buffers follow.
\<close>

section \<open>The client\<close>

datatype playout_event = Packet int RtpPacket ptime bool | Timer

definition accepted :: "AddResult \<Rightarrow> bool" where
  "accepted r \<longleftrightarrow> ar_uiLateMs r = None \<and> \<not> ar_bDuplicate r"

text \<open>The run returns the packets accepted, the groups fetched, and the timers still pending.\<close>

fun playout ::
  "(int \<Rightarrow> RtpPacket \<Rightarrow> ptime \<Rightarrow> bool \<Rightarrow> 's \<Rightarrow> fault + ptime \<times> AddResult \<times> 's) \<Rightarrow>
   ('s \<Rightarrow> fault + RtpPacketGroup \<times> 's) \<Rightarrow> playout_event list \<Rightarrow> nat \<Rightarrow> 's \<Rightarrow>
   fault + RtpPacket list \<times> RtpPacketGroup list \<times> nat \<times> 's" where
  "playout add next [] n s = Inr ([], [], n, s)"
| "playout add next (Packet tNow p tPres b # es) n s =
     (case add tNow p tPres b s of
        Inl f \<Rightarrow> Inl f
      | Inr (t, r, s1) \<Rightarrow>
          (case playout add next es (if ar_bNewNode r then Suc n else n) s1 of
             Inl f \<Rightarrow> Inl f
           | Inr (acc, out, n', s') \<Rightarrow> Inr (if accepted r then p # acc else acc, out, n', s')))"
| "playout add next (Timer # es) n s =
     (case n of
        0 \<Rightarrow> playout add next es 0 s
      | Suc k \<Rightarrow>
          (case next s of
             Inl f \<Rightarrow> Inl f
           | Inr (g, s1) \<Rightarrow>
               (case playout add next es k s1 of
                  Inl f \<Rightarrow> Inl f
                | Inr (acc, out, n', s') \<Rightarrow> Inr (acc, g # out, n', s'))))"

definition group_packets :: "RtpPacketGroup list \<Rightarrow> RtpPacket multiset" where
  "group_packets gs = (\<Sum>g\<leftarrow>gs. mset (pg_rtpPacketList g))"

lemma group_packets_simps [simp]:
  "group_packets [] = {#}" "group_packets (g # gs) = mset (pg_rtpPacketList g) + group_packets gs"
  "group_packets (xs @ ys) = group_packets xs + group_packets ys"
  by (simp_all add: group_packets_def)

section \<open>The contract\<close>

lemma playout_invariant:
  assumes add_inv: "\<And>tNow p tPres b s t r s'. \<lbrakk>A (Packet tNow p tPres b); I s; add tNow p tPres b s = Inr (t, r, s')\<rbrakk> \<Longrightarrow> I s'"
    and next_inv: "\<And>s g s'. \<lbrakk>I s; next s = Inr (g, s')\<rbrakk> \<Longrightarrow> I s'"
  shows "\<lbrakk>I s; list_all A es; playout add next es n s = Inr (acc, out, n', s')\<rbrakk> \<Longrightarrow> I s'"
proof (induction es arbitrary: n s acc out)
  case (Cons e es)
  show ?case
  proof (cases e)
    case (Packet tNow p tPres b)
    then obtain t r s1 acc1 where a: "add tNow p tPres b s = Inr (t, r, s1)"
      "playout add next es (if ar_bNewNode r then Suc n else n) s1 = Inr (acc1, out, n', s')"
      using Cons.prems(3) by (auto split: sum.splits prod.splits)
    then show ?thesis using Cons.IH [OF add_inv [OF _ _ a(1)] _ a(2)] Cons.prems(1,2) Packet by simp
  next
    case Timer
    show ?thesis
    proof (cases n)
      case 0
      then show ?thesis using Cons.IH [of s 0 acc out] Cons.prems Timer by simp
    next
      case (Suc k)
      then obtain g s1 out1 where "next s = Inr (g, s1)" "playout add next es k s1 = Inr (acc, out1, n', s')"
        using Cons.prems(3) Timer by (auto split: sum.splits prod.splits)
      then show ?thesis using Cons.IH [OF next_inv] Cons.prems(1,2) by simp
    qed
  qed
qed simp

text \<open>What a client that starts with an empty buffer may expect of a run.\<close>

definition playout_ok :: "('s \<Rightarrow> RtpPacketGroup list) \<Rightarrow> fault + RtpPacket list \<times> RtpPacketGroup list \<times> nat \<times> 's \<Rightarrow> bool" where
  "playout_ok groups res \<longleftrightarrow> (case res of
     Inl f \<Rightarrow> f \<noteq> Assertion_failed
   | Inr (acc, out, n, s') \<Rightarrow> n = length (groups s') \<and> mset acc = group_packets out + group_packets (groups s'))"

text \<open>Adding a packet rejects it, makes a new node for it, or puts it into a node.\<close>

definition add_outcome :: "RtpPacket \<Rightarrow> AddResult \<Rightarrow> RtpPacketGroup list \<Rightarrow> RtpPacketGroup list \<Rightarrow> bool" where
  "add_outcome p r l l' \<longleftrightarrow>
     (\<not> accepted r \<and> \<not> ar_bNewNode r \<and> l' = l)
   \<or> (accepted r \<and> ar_bNewNode r \<and> (\<exists>xs g ys. l = xs @ ys \<and> l' = xs @ g # ys \<and> pg_rtpPacketList g = [p]))
   \<or> (accepted r \<and> \<not> ar_bNewNode r \<and> (\<exists>xs g g' ys. l = xs @ g # ys \<and> l' = xs @ g' # ys
        \<and> mset (pg_rtpPacketList g') = add_mset p (mset (pg_rtpPacketList g))))"

locale jitter_buffer =
  fixes add :: "int \<Rightarrow> RtpPacket \<Rightarrow> ptime \<Rightarrow> bool \<Rightarrow> 's \<Rightarrow> fault + ptime \<times> AddResult \<times> 's"
    and next_node :: "'s \<Rightarrow> fault + RtpPacketGroup \<times> 's"
    and groups :: "'s \<Rightarrow> RtpPacketGroup list"
  assumes add_no_assertion: "add tNow p tPres b s \<noteq> Inl Assertion_failed"
    and add_outcome: "add tNow p tPres b s = Inr (t, r, s') \<Longrightarrow> add_outcome p r (groups s) (groups s')"
    and next_node_Nil: "groups s = [] \<Longrightarrow> next_node s = Inl Assertion_failed"
    and next_node_Cons: "groups s = g # gs \<Longrightarrow>
      \<exists>g' s'. next_node s = Inr (g', s') \<and> groups s' = gs \<and> mset (pg_rtpPacketList g') = mset (pg_rtpPacketList g)"
begin

lemma add_step:
  assumes "add tNow p tPres b s = Inr (t, r, s')"
  shows "length (groups s') = (if ar_bNewNode r then Suc (length (groups s)) else length (groups s))"
    and "group_packets (groups s') = (if accepted r then {#p#} else {#}) + group_packets (groups s)"
  using add_outcome [OF assms] by (auto simp: add_outcome_def)

lemma playout_sound:
  "n = length (groups s) \<Longrightarrow>
   (case playout add next_node es n s of
      Inl f \<Rightarrow> f \<noteq> Assertion_failed
    | Inr (acc, out, n', s') \<Rightarrow> n' = length (groups s')
        \<and> mset acc + group_packets (groups s) = group_packets out + group_packets (groups s'))"
proof (induction es arbitrary: n s)
  case Nil
  then show ?case by simp
next
  case (Cons e es)
  note IH = Cons.IH and n = Cons.prems
  show ?case
  proof (cases e)
    case (Packet tNow p tPres b)
    show ?thesis
    proof (cases "add tNow p tPres b s")
      case (Inl f)
      then show ?thesis using Packet add_no_assertion [of tNow p tPres b s] by auto
    next
      case (Inr x)
      then obtain t r s1 where a: "add tNow p tPres b s = Inr (t, r, s1)" by (cases x) auto
      from IH [of "if ar_bNewNode r then Suc n else n" s1] add_step [OF a] n
      show ?thesis using Packet a by (auto split: sum.splits)
    qed
  next
    case Timer
    show ?thesis
    proof (cases "groups s")
      case Nil
      then show ?thesis using IH [of 0 s] n Timer by simp
    next
      case (Cons g gs)
      then obtain g' s1 where nx: "next_node s = Inr (g', s1)" "groups s1 = gs"
        "mset (pg_rtpPacketList g') = mset (pg_rtpPacketList g)" using next_node_Cons by blast
      from IH [of "length gs" s1] nx Cons n
      show ?thesis using Timer by (auto split: sum.splits simp: ac_simps)
    qed
  qed
qed

lemma playout_ok_empty: "groups s = [] \<Longrightarrow> playout_ok groups (playout add next_node es 0 s)"
  using playout_sound [of 0 s es] by (auto simp: playout_ok_def split: sum.splits)

end

section \<open>The three buffers keep the contract\<close>

lemma mset_insert_after_last: "mset (insert_after_last P x xs) = add_mset x (mset xs)"
proof -
  obtain ys zs where "xs = ys @ zs" "insert_after_last P x xs = ys @ x # zs"
    using insert_after_last_split [of xs P x] by blast
  then show ?thesis by simp
qed

text \<open>Every branch of the insertion rejects the packet, appends it or puts it in order.\<close>

lemma packet_group_insert_form:
  "RtpPacketGroup_insert p g = (False, g)
   \<or> (\<exists>g'. RtpPacketGroup_insert p g = (True, g') \<and> mset (pg_rtpPacketList g') = add_mset p (mset (pg_rtpPacketList g))
        \<and> pg_uiRtpTs g' = pg_uiRtpTs g \<and> pg_tPresentation g' = pg_tPresentation g)"
proof -
  define ok where "ok = (\<lambda>r. r = (False, g) \<or> (\<exists>g'. r = (True, g') \<and> mset (pg_rtpPacketList g') = add_mset p (mset (pg_rtpPacketList g))
        \<and> pg_uiRtpTs g' = pg_uiRtpTs g \<and> pg_tPresentation g' = pg_tPresentation g))"
  have "ok (False, g)" "ok (True, append_packet p g)" "ok (True, (append_packet p g)\<lparr>pg_uiNextExpectedSN := n\<rparr>)"
    "ok (True, reorder_packet P p g)" for n P
    by (simp_all add: ok_def append_packet_def reorder_packet_def mset_insert_after_last)
  then have "ok (RtpPacketGroup_insert p g)"
    unfolding RtpPacketGroup_insert_def Let_def by (simp only: if_splits simp_thms HOL.if_split_asm)
  then show ?thesis by (simp add: ok_def)
qed

lemma packet_group_insert_packets:
  assumes "RtpPacketGroup_insert p g = (b, g')"
  shows "if b then mset (pg_rtpPacketList g') = add_mset p (mset (pg_rtpPacketList g)) else g' = g"
  using packet_group_insert_form [of p g] assms by auto

lemma packet_group_insert_keeps:
  assumes "RtpPacketGroup_insert p g = (b, g')"
  shows "pg_uiRtpTs g' = pg_uiRtpTs g" and "pg_tPresentation g' = pg_tPresentation g"
  using packet_group_insert_form [of p g] assms by auto

lemma update_group_Some:
  "update_group P p l = Some (b, l') \<Longrightarrow>
   \<exists>xs g g' ys. l = xs @ g # ys \<and> P g \<and> RtpPacketGroup_insert p g = (b, g') \<and> l' = xs @ g' # ys"
proof (induction l arbitrary: l')
  case (Cons h hs)
  show ?case
  proof (cases "P h")
    case True
    then obtain g' where "RtpPacketGroup_insert p h = (b, g')" "l' = g' # hs" using Cons.prems by (auto split: prod.splits)
    then show ?thesis using True by (intro exI [of _ "[]"] exI [of _ h] exI [of _ g'] exI [of _ hs]) simp
  next
    case False
    then obtain l1 where "update_group P p hs = Some (b, l1)" and l': "l' = h # l1" using Cons.prems by auto
    from Cons.IH [OF this(1)] obtain xs g g' ys
      where "hs = xs @ g # ys" "P g" "RtpPacketGroup_insert p g = (b, g')" "l1 = xs @ g' # ys" by blast
    then show ?thesis using l' by (intro exI [of _ "h # xs"] exI [of _ g] exI [of _ g'] exI [of _ ys]) simp
  qed
qed simp

lemma update_group_None: "update_group P p l = None \<longleftrightarrow> (\<forall>g\<in>set l. \<not> P g)"
  by (induction l) (auto split: prod.splits)

lemmas result_defs = accepted_def new_node_def updated_node_def late_packet_def

lemma outcome_late: "add_outcome p (late_packet tNow tPlay) l l" "add_outcome p ((late_packet tNow tPlay)\<lparr>ar_bDuplicate := d\<rparr>) l l"
  by (simp_all add: add_outcome_def result_defs)

lemma outcome_update:
  assumes "update_group P p l = Some (b, l')"
  shows "add_outcome p (updated_node b) l l'"
proof -
  obtain xs g g' ys where u: "l = xs @ g # ys" "RtpPacketGroup_insert p g = (b, g')" "l' = xs @ g' # ys"
    using update_group_Some [OF assms] by blast
  then show ?thesis
    using packet_group_insert_packets [OF u(2)] by (cases b) (auto simp: add_outcome_def result_defs)
qed

lemma outcome_insert:
  "add_outcome p new_node l (insert_after_last P (RtpPacketGroup_create p tPres b tPlay) l)"
proof -
  obtain ys zs where "l = ys @ zs"
    "insert_after_last P (RtpPacketGroup_create p tPres b tPlay) l = ys @ RtpPacketGroup_create p tPres b tPlay # zs"
    using insert_after_last_split [of l P "RtpPacketGroup_create p tPres b tPlay"] by blast
  then show ?thesis
    by (auto simp: add_outcome_def result_defs RtpPacketGroup_create_def intro!: exI [of _ ys])
qed

lemmas outcomes = outcome_late outcome_update outcome_insert

lemma RtpJitterBuffer_outcome:
  "add_outcome p (fst (RtpJitterBuffer_doAddRtpPacket tNow p tPres b tPlay s)) (jb_playoutBufferList s)
     (jb_playoutBufferList (snd (RtpJitterBuffer_doAddRtpPacket tNow p tPres b tPlay s)))"
proof (cases "jb_playoutBufferList s")
  case Nil
  then show ?thesis
    using outcome_insert [of p "[]"] by (simp add: RtpJitterBuffer_doAddRtpPacket_def insertAccordingToRtpTs_def Let_def)
next
  case (Cons g gs)
  then show ?thesis
    using outcome_insert [of p "g # gs"] outcome_update [of _ p "g # gs"]
    by (auto simp: RtpJitterBuffer_doAddRtpPacket_def Let_def insertAccordingToRtpTs_def outcome_late
        split: option.split simp del: update_group.simps)
qed

lemma RtpJitterBufferV2_outcome:
  "add_outcome p (fst (RtpJitterBufferV2_doAddRtpPacket tNow p tPres b tPlay s)) (v2_playoutBufferList s)
     (v2_playoutBufferList (snd (RtpJitterBufferV2_doAddRtpPacket tNow p tPres b tPlay s)))"
  by (auto simp: RtpJitterBufferV2_doAddRtpPacket_def Let_def insertAccordingToPts_def outcomes split: option.split)

lemma PtsBasedJitterBuffer_outcome:
  "add_outcome p (fst (PtsBasedJitterBuffer_doAddRtpPacket tNow p tPres b tPlay s)) (pb_playoutBufferList s)
     (pb_playoutBufferList (snd (PtsBasedJitterBuffer_doAddRtpPacket tNow p tPres b tPlay s)))"
  using outcome_insert [of p "[]"]
  by (auto simp: PtsBasedJitterBuffer_doAddRtpPacket_def Let_def insertAccordingToPts_def outcomes split: option.split)

text \<open>Computing the playout time leaves the nodes alone and never fails an assertion.\<close>

definition calculates :: "(RtpPacket \<Rightarrow> ptime \<Rightarrow> bool \<Rightarrow> 's \<Rightarrow> fault + ptime \<times> 's) \<Rightarrow> ('s \<Rightarrow> RtpPacketGroup list) \<Rightarrow> bool" where
  "calculates calc groups \<longleftrightarrow> (\<forall>p tPres b s. case calc p tPres b s of
     Inl f \<Rightarrow> f \<noteq> Assertion_failed | Inr (t, s') \<Rightarrow> groups s' = groups s)"

lemma RtpJitterBuffer_calculates: "calculates RtpJitterBuffer_calculatePlayoutTime jb_playoutBufferList"
  by (auto simp: calculates_def RtpJitterBuffer_calculatePlayoutTime_def playout_milliseconds_def Let_def split: sum.split if_splits)

lemma RtpJitterBufferV2_calculates: "calculates RtpJitterBufferV2_calculatePlayoutTime v2_playoutBufferList"
  by (auto simp: calculates_def RtpJitterBufferV2_calculatePlayoutTime_def v2_synchronise_def Let_def split: sum.split if_splits)

lemma PtsBasedJitterBuffer_calculates: "calculates PtsBasedJitterBuffer_calculatePlayoutTime pb_playoutBufferList"
  by (simp add: calculates_def PtsBasedJitterBuffer_calculatePlayoutTime_def Let_def)

lemma addRtpPacket_laws:
  assumes calc: "calculates calc groups"
    and out: "\<And>tNow p tPres b tPlay s. add_outcome p (fst (doAdd tNow p tPres b tPlay s)) (groups s) (groups (snd (doAdd tNow p tPres b tPlay s)))"
  shows "addRtpPacket calc doAdd tNow p tPres b s \<noteq> Inl Assertion_failed"
    and "addRtpPacket calc doAdd tNow p tPres b s = Inr (t, r, s') \<Longrightarrow> add_outcome p r (groups s) (groups s')"
proof -
  have c: "case calc p tPres b s of Inl f \<Rightarrow> f \<noteq> Assertion_failed | Inr (t, s') \<Rightarrow> groups s' = groups s"
    using calc by (simp add: calculates_def)
  then show "addRtpPacket calc doAdd tNow p tPres b s \<noteq> Inl Assertion_failed"
    by (auto simp: addRtpPacket_def split: sum.splits prod.splits)
  assume a: "addRtpPacket calc doAdd tNow p tPres b s = Inr (t, r, s')"
  then obtain s1 where "calc p tPres b s = Inr (t, s1)" "doAdd tNow p tPres b t s1 = (r, s')"
    by (auto simp: addRtpPacket_def split: sum.splits prod.splits)
  then show "add_outcome p r (groups s) (groups s')" using c out [of p tNow tPres b t s1] by simp
qed

lemmas RtpJitterBuffer_laws = addRtpPacket_laws
  [where doAdd = RtpJitterBuffer_doAddRtpPacket, OF RtpJitterBuffer_calculates RtpJitterBuffer_outcome, folded RtpJitterBuffer_addRtpPacket_def]
lemmas RtpJitterBufferV2_laws = addRtpPacket_laws
  [where doAdd = RtpJitterBufferV2_doAddRtpPacket, OF RtpJitterBufferV2_calculates RtpJitterBufferV2_outcome, folded RtpJitterBufferV2_addRtpPacket_def]
lemmas PtsBasedJitterBuffer_laws = addRtpPacket_laws
  [where doAdd = PtsBasedJitterBuffer_doAddRtpPacket, OF PtsBasedJitterBuffer_calculates PtsBasedJitterBuffer_outcome, folded PtsBasedJitterBuffer_addRtpPacket_def]

interpretation jb: jitter_buffer RtpJitterBuffer_addRtpPacket RtpJitterBuffer_getNext jb_playoutBufferList
  by unfold_locales (use RtpJitterBuffer_laws in \<open>auto simp: RtpJitterBuffer_getNext_def\<close>)

interpretation v2: jitter_buffer RtpJitterBufferV2_addRtpPacket RtpJitterBufferV2_getNext v2_playoutBufferList
  by unfold_locales (use RtpJitterBufferV2_laws in \<open>auto simp: RtpJitterBufferV2_getNext_def\<close>)

interpretation pts: jitter_buffer PtsBasedJitterBuffer_addRtpPacket PtsBasedJitterBuffer_getNext pb_playoutBufferList
  by unfold_locales (use PtsBasedJitterBuffer_laws in \<open>auto simp: PtsBasedJitterBuffer_getNext_def RtpPacketGroup_sort_def\<close>)

section \<open>Order by presentation time\<close>

definition in_pts_order :: "RtpPacketGroup list \<Rightarrow> bool" where
  "in_pts_order gs \<longleftrightarrow> (\<forall>g\<in>set gs. pg_tPresentation g \<noteq> None) \<and> sorted (map (the \<circ> pg_tPresentation) gs)"

definition dated :: "playout_event \<Rightarrow> bool" where
  "dated e \<longleftrightarrow> (case e of Packet tNow p tPres b \<Rightarrow> tPres \<noteq> None | Timer \<Rightarrow> True)"

locale pts_jitter_buffer = jitter_buffer +
  assumes add_in_order: "\<lbrakk>add tNow p (Some x) b s = Inr (t, r, s'); in_pts_order (groups s)\<rbrakk> \<Longrightarrow> in_pts_order (groups s')"
begin

lemma playout_in_order:
  assumes "in_pts_order (groups s)" and "list_all dated es" and "playout add next_node es n s = Inr (acc, out, n', s')"
  shows "in_pts_order (groups s')"
proof (rule playout_invariant [where I = "\<lambda>s. in_pts_order (groups s)" and A = dated, OF _ _ assms])
  fix tNow p tPres b s t r s'
  assume "dated (Packet tNow p tPres b)" "in_pts_order (groups s)" "add tNow p tPres b s = Inr (t, r, s')"
  then show "in_pts_order (groups s')" using add_in_order by (cases tPres) (auto simp: dated_def)
next
  fix s g s'
  assume "in_pts_order (groups s)" "next_node s = Inr (g, s')"
  then show "in_pts_order (groups s')"
    using next_node_Nil [of s] next_node_Cons [of s] by (cases "groups s") (auto simp: in_pts_order_def)
qed

end

lemma in_pts_order_insert:
  assumes "in_pts_order l"
  shows "in_pts_order (insertAccordingToPts p (Some x) b tPlay l)"
proof -
  let ?g = "RtpPacketGroup_create p (Some x) b tPlay" and ?k = "the \<circ> pg_tPresentation"
  have x: "?k ?g = x" by (simp add: RtpPacketGroup_create_def)
  have "insertAccordingToPts p (Some x) b tPlay l = insert_after_last (\<lambda>y. ?k y < ?k ?g) ?g l"
    unfolding insertAccordingToPts_def
    by (rule insert_after_last_cong) (use assms x in \<open>auto simp: in_pts_order_def pt_less_def\<close>)
  then show ?thesis
    using sorted_insert_after_last [of ?k l ?g] assms by (simp add: in_pts_order_def) (simp add: RtpPacketGroup_create_def)
qed

lemma update_group_keeps:
  assumes "update_group P p l = Some (b, l')"
  shows "map pg_uiRtpTs l' = map pg_uiRtpTs l" and "map pg_tPresentation l' = map pg_tPresentation l"
proof -
  obtain xs g g' ys where u: "l = xs @ g # ys" "RtpPacketGroup_insert p g = (b, g')" "l' = xs @ g' # ys"
    using update_group_Some [OF assms] by blast
  then show "map pg_uiRtpTs l' = map pg_uiRtpTs l" "map pg_tPresentation l' = map pg_tPresentation l"
    using packet_group_insert_keeps [OF u(2)] by simp_all
qed

lemma in_pts_order_cong:
  assumes "map pg_tPresentation l' = map pg_tPresentation l"
  shows "in_pts_order l' = in_pts_order l"
proof -
  have "in_pts_order l \<longleftrightarrow> None \<notin> set (map pg_tPresentation l) \<and> sorted (map the (map pg_tPresentation l))" for l
    by (force simp: in_pts_order_def)
  then show ?thesis using assms by metis
qed

lemma addRtpPacket_Inr:
  assumes "addRtpPacket calc doAdd tNow p tPres b s = Inr (t, r, s')"
  obtains s1 where "calc p tPres b s = Inr (t, s1)" and "doAdd tNow p tPres b t s1 = (r, s')"
  using assms by (auto simp: addRtpPacket_def split: sum.splits prod.splits)

lemma calculates_Inr:
  assumes "calculates calc groups" and "calc p tPres b s = Inr (t, s')"
  shows "groups s' = groups s"
proof -
  have "case calc p tPres b s of Inl f \<Rightarrow> f \<noteq> Assertion_failed | Inr (t, s') \<Rightarrow> groups s' = groups s"
    using assms(1) by (simp add: calculates_def)
  then show ?thesis using assms(2) by simp
qed

lemma v2_add_in_order:
  assumes "RtpJitterBufferV2_addRtpPacket tNow p (Some x) b s = Inr (t, r, s')" and "in_pts_order (v2_playoutBufferList s)"
  shows "in_pts_order (v2_playoutBufferList s')"
proof -
  obtain s1 where s1: "RtpJitterBufferV2_calculatePlayoutTime p (Some x) b s = Inr (t, s1)"
    "RtpJitterBufferV2_doAddRtpPacket tNow p (Some x) b t s1 = (r, s')"
    using addRtpPacket_Inr [OF assms(1) [unfolded RtpJitterBufferV2_addRtpPacket_def]] by blast
  have l: "v2_playoutBufferList s1 = v2_playoutBufferList s" by (rule calculates_Inr [OF RtpJitterBufferV2_calculates s1(1)])
  show ?thesis
    using s1(2) assms(2) in_pts_order_cong [OF update_group_keeps(2)] in_pts_order_insert [OF assms(2), of p x b t]
    by (auto simp: RtpJitterBufferV2_doAddRtpPacket_def Let_def l split: option.splits if_splits)
qed

lemma pts_add_in_order:
  assumes "PtsBasedJitterBuffer_addRtpPacket tNow p (Some x) b s = Inr (t, r, s')" and "in_pts_order (pb_playoutBufferList s)"
  shows "in_pts_order (pb_playoutBufferList s')"
proof -
  obtain s1 where s1: "PtsBasedJitterBuffer_calculatePlayoutTime p (Some x) b s = Inr (t, s1)"
    "PtsBasedJitterBuffer_doAddRtpPacket tNow p (Some x) b t s1 = (r, s')"
    using addRtpPacket_Inr [OF assms(1) [unfolded PtsBasedJitterBuffer_addRtpPacket_def]] by blast
  have l: "pb_playoutBufferList s1 = pb_playoutBufferList s" by (rule calculates_Inr [OF PtsBasedJitterBuffer_calculates s1(1)])
  show ?thesis
    using s1(2) assms(2) in_pts_order_cong [OF update_group_keeps(2)] in_pts_order_insert [OF assms(2), of p x b t]
    by (auto simp: PtsBasedJitterBuffer_doAddRtpPacket_def Let_def l split: option.splits if_splits)
qed

interpretation v2_order: pts_jitter_buffer RtpJitterBufferV2_addRtpPacket RtpJitterBufferV2_getNext v2_playoutBufferList
  by unfold_locales (rule v2_add_in_order)

interpretation pts_order: pts_jitter_buffer PtsBasedJitterBuffer_addRtpPacket PtsBasedJitterBuffer_getNext pb_playoutBufferList
  by unfold_locales (rule pts_add_in_order)

section \<open>Properties of the playout buffers\<close>

text \<open>
  C13: The contract of the playout buffers. Whatever packets arrive and whenever timers fire, each of the
  three buffers, started empty with any latency and clock, has one node for every timer its
  client still has to run, so fetching a node never fails the assertion on the empty buffer;
  and every packet reported neither late nor duplicate is played out exactly once or still buffered.
\<close>

theorem playout_conserves_packets:
  fixes es :: "playout_event list" and lat clk :: u32
  shows "playout_ok jb_playoutBufferList (playout RtpJitterBuffer_addRtpPacket RtpJitterBuffer_getNext es 0
           (setClockFrequency clk (RtpJitterBuffer_create lat)))
    \<and> playout_ok v2_playoutBufferList (playout RtpJitterBufferV2_addRtpPacket RtpJitterBufferV2_getNext es 0
           (setClockFrequency clk (RtpJitterBufferV2_create lat)))
    \<and> playout_ok pb_playoutBufferList (playout PtsBasedJitterBuffer_addRtpPacket PtsBasedJitterBuffer_getNext es 0
           (setClockFrequency clk (PtsBasedJitterBuffer_create lat)))"
proof (intro conjI)
  let ?jb = "setClockFrequency clk (RtpJitterBuffer_create lat)"
  have "jb_playoutBufferList ?jb = []" by (simp add: setClockFrequency_def RtpJitterBuffer_create_def)
  then show "playout_ok jb_playoutBufferList (playout RtpJitterBuffer_addRtpPacket RtpJitterBuffer_getNext es 0 ?jb)"
    by (rule jb.playout_ok_empty)
  let ?v2 = "setClockFrequency clk (RtpJitterBufferV2_create lat)"
  have "v2_playoutBufferList ?v2 = []" by (simp add: setClockFrequency_def RtpJitterBufferV2_create_def)
  then show "playout_ok v2_playoutBufferList (playout RtpJitterBufferV2_addRtpPacket RtpJitterBufferV2_getNext es 0 ?v2)"
    by (rule v2.playout_ok_empty)
  let ?pb = "setClockFrequency clk (PtsBasedJitterBuffer_create lat)"
  have "pb_playoutBufferList ?pb = []" by (simp add: setClockFrequency_def PtsBasedJitterBuffer_create_def)
  then show "playout_ok pb_playoutBufferList (playout PtsBasedJitterBuffer_addRtpPacket PtsBasedJitterBuffer_getNext es 0 ?pb)"
    by (rule pts.playout_ok_empty)
qed

lemma in_pts_order_head: "in_pts_order (g # gs) \<Longrightarrow> \<forall>h\<in>set gs. the (pg_tPresentation g) \<le> the (pg_tPresentation h)"
  by (auto simp: in_pts_order_def)

text \<open>
  C27: Playout in presentation order. When all presentation times are dates, after any sequence of
  arrivals and timers the node that \<open>RtpJitterBufferV2\<close> or \<open>PtsBasedJitterBuffer\<close> plays out next
  has the smallest presentation time of all nodes in the buffer.
\<close>

theorem playout_in_presentation_order:
  fixes es :: "playout_event list" and lat clk :: u32
  assumes "list_all dated es"
  shows "(\<forall>acc out n s g gs. playout RtpJitterBufferV2_addRtpPacket RtpJitterBufferV2_getNext es 0
             (setClockFrequency clk (RtpJitterBufferV2_create lat)) = Inr (acc, out, n, s)
           \<longrightarrow> v2_playoutBufferList s = g # gs \<longrightarrow> (\<forall>h\<in>set gs. the (pg_tPresentation g) \<le> the (pg_tPresentation h)))
    \<and> (\<forall>acc out n s g gs. playout PtsBasedJitterBuffer_addRtpPacket PtsBasedJitterBuffer_getNext es 0
             (setClockFrequency clk (PtsBasedJitterBuffer_create lat)) = Inr (acc, out, n, s)
           \<longrightarrow> pb_playoutBufferList s = g # gs \<longrightarrow> (\<forall>h\<in>set gs. the (pg_tPresentation g) \<le> the (pg_tPresentation h)))"
proof -
  let ?v2 = "setClockFrequency clk (RtpJitterBufferV2_create lat)"
  let ?pb = "setClockFrequency clk (PtsBasedJitterBuffer_create lat)"
  have v: "v2_playoutBufferList ?v2 = []" by (simp add: setClockFrequency_def RtpJitterBufferV2_create_def)
  have p: "pb_playoutBufferList ?pb = []" by (simp add: setClockFrequency_def PtsBasedJitterBuffer_create_def)
  have "in_pts_order (v2_playoutBufferList s)"
    if "playout RtpJitterBufferV2_addRtpPacket RtpJitterBufferV2_getNext es 0 ?v2 = Inr (acc, out, n, s)" for acc out n s
    by (rule v2_order.playout_in_order [OF _ assms that]) (simp add: v in_pts_order_def)
  moreover have "in_pts_order (pb_playoutBufferList s)"
    if "playout PtsBasedJitterBuffer_addRtpPacket PtsBasedJitterBuffer_getNext es 0 ?pb = Inr (acc, out, n, s)" for acc out n s
    by (rule pts_order.playout_in_order [OF _ assms that]) (simp add: p in_pts_order_def)
  ultimately show ?thesis using in_pts_order_head by metis
qed

lemmas v2_eval = RtpJitterBufferV2_addRtpPacket_def addRtpPacket_def RtpJitterBufferV2_calculatePlayoutTime_def
  v2_synchronise_def RtpJitterBufferV2_doAddRtpPacket_def RtpJitterBufferV2_create_def setClockFrequency_def
  numbered_packet_def RtpPacket_create_def RtpHeader_default_def RtpHeader_create_def setRtpTimestamp_def getRtpTimestamp_def
  insertAccordingToPts_def insert_after_last_def pt_less_def pt_add_def pt_diff_def milliseconds_def
  new_node_def accepted_def RtpPacketGroup_create_def

theorem playout_in_presentation_order_witness:
  "case playout RtpJitterBufferV2_addRtpPacket RtpJitterBufferV2_getNext
       [Packet 0 ((numbered_packet 1)\<lparr>rp_tArrival := Some 0\<rparr>) (Some 40000) False,
        Packet 0 (RtpPacket_create (setRtpTimestamp 900 RtpHeader_default)) (Some 20000) False] 0
       (setClockFrequency 90000 (RtpJitterBufferV2_create 100)) of
     Inl f \<Rightarrow> False
   | Inr (acc, out, n, s) \<Rightarrow> (case v2_playoutBufferList s of
        g # gs \<Rightarrow> length gs = 1 \<and> (\<forall>h\<in>set gs. the (pg_tPresentation g) \<le> the (pg_tPresentation h)) | [] \<Rightarrow> False)"
  using playout_in_presentation_order [of "[Packet 0 ((numbered_packet 1)\<lparr>rp_tArrival := Some 0\<rparr>) (Some 40000) False,
        Packet 0 (RtpPacket_create (setRtpTimestamp 900 RtpHeader_default)) (Some 20000) False]" 90000 100]
  by (simp add: dated_def v2_eval)

definition v2_timestamps :: "RtpJitterBufferV2 \<Rightarrow> u32 list" where
  "v2_timestamps s = map pg_uiRtpTs (v2_recentHistory s @ v2_playoutBufferList s)"

lemma v2_calculate_keeps:
  assumes "RtpJitterBufferV2_calculatePlayoutTime p tPres b s = Inr (t, s')"
  shows "v2_playoutBufferList s' = v2_playoutBufferList s \<and> v2_recentHistory s' = v2_recentHistory s"
  using assms
  by (auto simp: RtpJitterBufferV2_calculatePlayoutTime_def v2_synchronise_def Let_def split: sum.splits if_splits)

lemma distinct_insert_after_last: "distinct (map f (insert_after_last P x xs)) \<longleftrightarrow> f x \<notin> f ` set xs \<and> distinct (map f xs)"
proof -
  obtain ys zs where "xs = ys @ zs" "insert_after_last P x xs = ys @ x # zs"
    using insert_after_last_split [of xs P x] by blast
  then show ?thesis by auto
qed

lemma v2_add_distinct:
  assumes "RtpJitterBufferV2_addRtpPacket tNow p tPres b s = Inr (t, r, s')" and dist: "distinct (v2_timestamps s)"
  shows "distinct (v2_timestamps s')" and "ar_bNewNode r \<Longrightarrow> \<not> pt_less t (Some tNow) \<and> getRtpTimestamp p \<notin> set (v2_timestamps s)"
proof -
  obtain s1 where s1: "RtpJitterBufferV2_calculatePlayoutTime p tPres b s = Inr (t, s1)"
    "RtpJitterBufferV2_doAddRtpPacket tNow p tPres b t s1 = (r, s')"
    using addRtpPacket_Inr [OF assms(1) [unfolded RtpJitterBufferV2_addRtpPacket_def]] by blast
  note keep = v2_calculate_keeps [OF s1(1)]
  let ?ts = "getRtpTimestamp p" and ?m = "\<lambda>g. getRtpTimestamp p = pg_uiRtpTs g"
  consider (buffered) b l' where "update_group ?m p (v2_playoutBufferList s) = Some (b, l')"
    | (played) b h' where "update_group ?m p (v2_playoutBufferList s) = None" "update_group ?m p (rev (v2_recentHistory s)) = Some (b, h')"
    | (fresh) "update_group ?m p (v2_playoutBufferList s) = None" "update_group ?m p (rev (v2_recentHistory s)) = None"
    by (metis option.exhaust surj_pair)
  then have "distinct (v2_timestamps s') \<and> (ar_bNewNode r \<longrightarrow> \<not> pt_less t (Some tNow) \<and> ?ts \<notin> set (v2_timestamps s))"
  proof cases
    case buffered
    then have "v2_timestamps s' = v2_timestamps s \<and> \<not> ar_bNewNode r"
      using s1(2) keep update_group_keeps(1) [OF buffered]
      by (auto simp: RtpJitterBufferV2_doAddRtpPacket_def v2_timestamps_def result_defs Let_def)
    then show ?thesis using dist by simp
  next
    case played
    have "map pg_uiRtpTs (rev h') = map pg_uiRtpTs (v2_recentHistory s)"
      using update_group_keeps(1) [OF played(2)] by (simp add: rev_map [symmetric])
    then have "v2_timestamps s' = v2_timestamps s \<and> \<not> ar_bNewNode r"
      using s1(2) keep played
      by (auto simp: RtpJitterBufferV2_doAddRtpPacket_def v2_timestamps_def result_defs Let_def)
    then show ?thesis using dist by simp
  next
    case fresh
    have new: "?ts \<notin> set (v2_timestamps s)" using fresh by (auto simp: update_group_None v2_timestamps_def)
    show ?thesis
    proof (cases "pt_less t (Some tNow)")
      case True
      then have "v2_timestamps s' = v2_timestamps s \<and> \<not> ar_bNewNode r"
        using s1(2) keep fresh by (auto simp: RtpJitterBufferV2_doAddRtpPacket_def v2_timestamps_def result_defs Let_def)
      then show ?thesis using dist by simp
    next
      case False
      then have "v2_recentHistory s' = v2_recentHistory s"
        "v2_playoutBufferList s' = insertAccordingToPts p tPres b t (v2_playoutBufferList s)"
        using s1(2) keep fresh by (auto simp: RtpJitterBufferV2_doAddRtpPacket_def Let_def)
      moreover have "pg_uiRtpTs (RtpPacketGroup_create p tPres b t) = ?ts" by (simp add: RtpPacketGroup_create_def)
      ultimately have "distinct (v2_timestamps s')"
        using dist new by (simp add: v2_timestamps_def insertAccordingToPts_def distinct_insert_after_last)
      then show ?thesis using False new by simp
    qed
  qed
  then show "distinct (v2_timestamps s')" "ar_bNewNode r \<Longrightarrow> \<not> pt_less t (Some tNow) \<and> ?ts \<notin> set (v2_timestamps s)" by simp_all
qed

lemma v2_next_distinct:
  assumes "RtpJitterBufferV2_getNext s = Inr (g, s')" and "distinct (v2_timestamps s)"
  shows "distinct (v2_timestamps s')"
proof -
  obtain gs where l: "v2_playoutBufferList s = g # gs" and s': "v2_playoutBufferList s' = gs"
    "v2_recentHistory s' = push_history g (v2_recentHistory s)"
    using assms(1) by (auto simp: RtpJitterBufferV2_getNext_def split: list.splits)
  show ?thesis
    using assms(2) unfolding v2_timestamps_def s' l
    by (cases "v2_recentHistory s") (auto simp: push_history_def HISTORY_SIZE_def)
qed

text \<open>
  C25: No timestamp is played twice. In every state \<open>RtpJitterBufferV2\<close> can reach, no RTP timestamp occurs
  twice among the nodes in the buffer and the last 150 nodes played out; and a packet starts
  a new node only if its timestamp is not among them and its playout time has not passed.
\<close>

theorem v2_timestamps_unique:
  fixes es :: "playout_event list" and lat clk :: u32
  assumes run: "playout RtpJitterBufferV2_addRtpPacket RtpJitterBufferV2_getNext es 0
      (setClockFrequency clk (RtpJitterBufferV2_create lat)) = Inr (acc, out, n, s)"
  shows "distinct (map pg_uiRtpTs (v2_recentHistory s @ v2_playoutBufferList s))
    \<and> (\<forall>tNow p tPres b t r s'. RtpJitterBufferV2_addRtpPacket tNow p tPres b s = Inr (t, r, s') \<and> ar_bNewNode r
         \<longrightarrow> \<not> pt_less t (Some tNow) \<and> getRtpTimestamp p \<notin> pg_uiRtpTs ` set (v2_recentHistory s @ v2_playoutBufferList s))"
proof -
  have "distinct (v2_timestamps s)"
  proof (rule playout_invariant [where I = "\<lambda>s. distinct (v2_timestamps s)" and A = "\<lambda>_. True", OF _ _ _ _ run])
    show "distinct (v2_timestamps (setClockFrequency clk (RtpJitterBufferV2_create lat)))"
      by (simp add: v2_timestamps_def setClockFrequency_def RtpJitterBufferV2_create_def)
  qed (auto intro: v2_add_distinct(1) v2_next_distinct simp: list_all_iff)
  then show ?thesis using v2_add_distinct(2) [of _ _ _ _ s] by (fastforce simp: v2_timestamps_def)
qed

theorem v2_timestamps_unique_witness:
  "\<exists>acc out n s. playout RtpJitterBufferV2_addRtpPacket RtpJitterBufferV2_getNext
       [Packet 0 ((numbered_packet 1)\<lparr>rp_tArrival := Some 0\<rparr>) (Some 40000) False, Timer,
        Packet 0 (RtpPacket_create (setRtpTimestamp 900 RtpHeader_default)) (Some 50000) False] 0
       (setClockFrequency 90000 (RtpJitterBufferV2_create 100)) = Inr (acc, out, n, s)
     \<and> length (v2_recentHistory s @ v2_playoutBufferList s) = 2
     \<and> distinct (map pg_uiRtpTs (v2_recentHistory s @ v2_playoutBufferList s))"
proof -
  let ?run = "playout RtpJitterBufferV2_addRtpPacket RtpJitterBufferV2_getNext
       [Packet 0 ((numbered_packet 1)\<lparr>rp_tArrival := Some 0\<rparr>) (Some 40000) False, Timer,
        Packet 0 (RtpPacket_create (setRtpTimestamp 900 RtpHeader_default)) (Some 50000) False] 0
       (setClockFrequency 90000 (RtpJitterBufferV2_create 100))"
  have "\<exists>acc out n s. ?run = Inr (acc, out, n, s) \<and> length (v2_recentHistory s @ v2_playoutBufferList s) = 2"
    by (simp add: v2_eval RtpJitterBufferV2_getNext_def push_history_def HISTORY_SIZE_def)
  then obtain acc out n s where run: "?run = Inr (acc, out, n, s)" "length (v2_recentHistory s @ v2_playoutBufferList s) = 2"
    by blast
  from v2_timestamps_unique [OF run(1)] run show ?thesis by blast
qed

end
