(* ===== verification/H264_Round_Trip.thy ===== *)
theory H264_Round_Trip
  imports H264_Packetiser Playout
begin

text \<open>
  What the H.264 packetiser and depacketiser promise together: an access unit that is cut into single packets,
  aggregation packets and fragments is put together again, also when its packets arrive in any order and
  more than once; the packets fit the limit; and which packet sizes and modes do not work.
\<close>

unbundle bit_operations_syntax

section \<open>The copying streams\<close>

locale copy_stream = bit_stream "cp_io cp" obits ibits
  for cp :: "('i, 'o) copy_io" and obits :: "'o \<Rightarrow> bool list" and ibits :: "'i \<Rightarrow> bool list" +
  assumes copy_rest: "8 dvd length (ibits ib) \<Longrightarrow> obits (cp_write cp ob ib) = obits ob @ ibits ib"
    and copy_bytes: "8 * n \<le> length (ibits ib) \<Longrightarrow>
      \<exists>ob' ib'. cp_writeBytes cp ob ib n = (True, ob', ib') \<and> obits ob' = obits ob @ take (8 * n) (ibits ib)
        \<and> ibits ib' = drop (8 * n) (ibits ib)"
    and skip_bits: "n \<le> length (ibits ib) \<Longrightarrow> ibits (cp_skipBits cp ib n) = drop n (ibits ib)"

definition bitlist_copy :: "(bool list, bool list) copy_io" where
  "bitlist_copy = \<lparr>
     cp_io = bitlist_io,
     cp_write = (\<lambda>ob ib. ob @ ib),
     cp_writeBytes = (\<lambda>ob ib n. if 8 * n \<le> length ib then (True, ob @ take (8 * n) ib, drop (8 * n) ib) else (False, ob, ib)),
     cp_skipBits = (\<lambda>ib n. drop n ib)\<rparr>"

interpretation bitlist_copy: copy_stream bitlist_copy "\<lambda>ob. ob" "\<lambda>ib. ib"
proof -
  have io: "cp_io bitlist_copy = bitlist_io" by (simp add: bitlist_copy_def)
  show "copy_stream bitlist_copy (\<lambda>ob. ob) (\<lambda>ib. ib)"
    unfolding copy_stream_def copy_stream_axioms_def io
    by (simp add: bitlist.bit_stream_axioms) (simp add: bitlist_copy_def)
qed

section \<open>NAL unit headers\<close>

definition nal_f :: "u8 \<Rightarrow> nat" where "nal_f h = unat h div 128"

definition nal_nri :: "u8 \<Rightarrow> nat" where "nal_nri h = unat h div 32 mod 4"

definition nal_nut :: "u8 \<Rightarrow> nat" where "nal_nut h = unat h mod 32"

lemma nal_bounds [simp]: "nal_f h < 2" "nal_nri h < 4" "nal_nut h < 32"
proof -
  have "unat h < 256" by (rule unat_u8)
  then show "nal_f h < 2" by (simp add: nal_f_def less_mult_imp_div_less)
qed (simp_all add: nal_nri_def nal_nut_def)

lemma nal_header_bits: "to_bits 8 (unat h) = to_bits 1 (nal_f h) @ to_bits 2 (nal_nri h) @ to_bits 5 (nal_nut h)"
proof -
  have low: "to_bits n (v mod 2 ^ n) = to_bits n v" for n v :: nat
    using to_bits_of_bits [of "to_bits n v"] by (simp add: of_bits_to_bits_mod)
  have "to_bits (1 + (2 + 5)) (unat h) = to_bits 1 (unat h div 2 ^ (2 + 5)) @ to_bits 2 (unat h div 2 ^ 5) @ to_bits 5 (unat h)"
    by (simp only: to_bits_split)
  then show ?thesis using low [of 2 "unat h div 32"] low [of 5 "unat h"]
    by (simp only: nal_f_def nal_nri_def nal_nut_def) (simp del: to_bits_numeral)
qed

lemma nal_bits: "bytes_bits (h # t) = fields_bits [(nal_f h, 1), (nal_nri h, 2), (nal_nut h, 5)] @ bytes_bits t"
  by (simp only: bytes_bits_Cons nal_header_bits fields_bits_simps append_assoc append_Nil2 append_Nil)

section \<open>Packets that carry units\<close>

text \<open>
  \<open>carried B pls ds\<close>: the payloads \<open>pls\<close>, each of at most \<open>B\<close> octets, are the packets of the units \<open>ds\<close>: one unit alone, several in an aggregation
  packet, or the fragments of one.
\<close>

definition fragment :: "nat \<Rightarrow> nat \<Rightarrow> bool \<Rightarrow> bool \<Rightarrow> bytes \<Rightarrow> bytes \<Rightarrow> bool" where
  "fragment nri nut bStart bEnd c pl \<longleftrightarrow> bytes_bits pl = fields_bits (fu_fields NUT_FU_A nri nut bStart bEnd) @ bytes_bits c"

definition unit_bits :: "bytes list \<Rightarrow> bool list" where
  "unit_bits ds = concat (map (\<lambda>d. to_bits 16 (length d) @ bytes_bits d) ds)"

inductive carried :: "nat \<Rightarrow> bytes list \<Rightarrow> bytes list \<Rightarrow> bool" for B :: nat where
  single: "nal_nut h \<le> NUT_RESERVED_23 \<Longrightarrow> length t < B \<Longrightarrow> carried B [h # t] [h # t]"
| aggregated: "bytes_bits pl = fields_bits [(f, 1), (nri, 2), (NUT_STAP_A, 5)] @ unit_bits ds \<Longrightarrow> f < 2 \<Longrightarrow> nri < 4
    \<Longrightarrow> \<forall>d\<in>set ds. d \<noteq> [] \<and> length d < 65536 \<Longrightarrow> length pl \<le> B \<Longrightarrow> ds \<noteq> [] \<Longrightarrow> carried B [pl] ds"
| fragments: "nal_f h = 0 \<Longrightarrow> fragment (nal_nri h) (nal_nut h) True False c0 pl0
    \<Longrightarrow> list_all2 (fragment (nal_nri h) (nal_nut h) False False) cs pls \<Longrightarrow> fragment (nal_nri h) (nal_nut h) False True c1 pl1
    \<Longrightarrow> \<forall>pl\<in>set (pl0 # pls @ [pl1]). length pl \<le> B
    \<Longrightarrow> length cs + 2 \<le> length (c0 @ concat cs @ c1) \<Longrightarrow> carried B (pl0 # pls @ [pl1]) [h # c0 @ concat cs @ c1]"

inductive carries :: "nat \<Rightarrow> bytes list \<Rightarrow> bytes list \<Rightarrow> bool" for B :: nat where
  none: "carries B [] []"
| more: "carried B pls ds \<Longrightarrow> carries B qls es \<Longrightarrow> carries B (pls @ qls) (ds @ es)"

lemma carried_bound: "carried B pls ds \<Longrightarrow> pl \<in> set pls \<Longrightarrow> length pl \<le> B"
  by (induction rule: carried.induct) auto

lemma carries_bound: "carries B pls ds \<Longrightarrow> pl \<in> set pls \<Longrightarrow> length pl \<le> B"
  by (induction rule: carries.induct) (auto dest: carried_bound)

lemma carried_count: "carried B pls ds \<Longrightarrow> length pls \<le> sum_list (map length ds)"
proof (induction rule: carried.induct)
  case (aggregated pl f nri ds)
  then show ?case by (cases ds) (auto simp: Suc_le_eq)
qed (auto dest: list_all2_lengthD)

lemma carries_count: "carries B pls ds \<Longrightarrow> length pls \<le> sum_list (map length ds)"
  by (induction rule: carries.induct) (auto dest: carried_count)

section \<open>Packetising\<close>

lemma fields_ok_fu: "nri < 4 \<Longrightarrow> nut < 32 \<Longrightarrow> ty < 32 \<Longrightarrow> fields_ok (fu_fields ty nri nut b e)"
  by (simp add: fu_fields_def)

lemma length_fu_fields [simp]: "length (fields_bits (fu_fields ty nri nut b e)) = 16"
  by (simp add: fu_fields_def fields_bits_def)

context copy_stream
begin

lemma fragment_written:
  assumes "nri < 4" and "nut < 32" and "ibits ib = bytes_bits bs" and "n \<le> length bs"
  shows "\<exists>ob ib'. cp_writeBytes cp (writes (cp_io cp) (fu_fields NUT_FU_A nri nut b e) (ob_new (cp_io cp))) ib n = (True, ob, ib')
    \<and> fragment nri nut b e (take n bs) (ob_str (cp_io cp) ob) \<and> length (ob_str (cp_io cp) ob) = n + 2 \<and> ibits ib' = bytes_bits (drop n bs)"
proof -
  have ok: "fields_ok (fu_fields NUT_FU_A nri nut b e)" using assms by (intro fields_ok_fu) (simp_all add: NUT_FU_A_def)
  obtain ob ib' where w: "cp_writeBytes cp (writes (cp_io cp) (fu_fields NUT_FU_A nri nut b e) (ob_new (cp_io cp))) ib n = (True, ob, ib')"
    and ob: "obits ob = fields_bits (fu_fields NUT_FU_A nri nut b e) @ bytes_bits (take n bs)" and ib': "ibits ib' = bytes_bits (drop n bs)"
    using copy_bytes [of n ib "writes (cp_io cp) (fu_fields NUT_FU_A nri nut b e) (ob_new (cp_io cp))"] assms
    by (auto simp: writes_bits [OF ok] new_bits take_bytes_bits drop_bytes_bits)
  have "length (obits ob) = 8 * (n + 2)" using assms(4) by (simp add: ob)
  then have str: "bytes_bits (ob_str (cp_io cp) ob) = obits ob" by (intro str_bits) simp
  then have "8 * length (ob_str (cp_io cp) ob) = 8 * (n + 2)" using \<open>length (obits ob) = _\<close> by (metis length_bytes_bits)
  then show ?thesis using w ob ib' str by (auto simp: fragment_def)
qed

lemma fua_rest:
  assumes "nri < 4" and "nut < 32" and "0 < unat M"
  shows "ibits ib = bytes_bits bs \<Longrightarrow> bs \<noteq> [] \<Longrightarrow>
    \<exists>pkts q cs c1. fua_loop cp M bMarker nri nut (length bs) ib False acc = Some (Inr (acc @ pkts @ [q])) \<and> bs = concat cs @ c1
      \<and> list_all2 (fragment nri nut False False) cs (map rp_rtpPayload pkts) \<and> fragment nri nut False True c1 (rp_rtpPayload q)
      \<and> (\<forall>p\<in>set (pkts @ [q]). length (rp_rtpPayload p) \<le> unat M + 2)
      \<and> length cs < length bs"
proof (induction "length bs" arbitrary: bs ib acc rule: less_induct)
  case less
  have rem: "ib_bytesRemaining (cp_io cp) ib = length bs" using less.prems by (simp add: bytesRemaining)
  let ?n = "min (length bs) (unat M)" and ?e = "length bs \<le> unat M"
  obtain ob ib' where w: "cp_writeBytes cp (writes (cp_io cp) (fu_fields NUT_FU_A nri nut False ?e) (ob_new (cp_io cp))) ib ?n = (True, ob, ib')"
    and fr: "fragment nri nut False ?e (take ?n bs) (ob_str (cp_io cp) ob)" "length (ob_str (cp_io cp) ob) = ?n + 2"
    and ib': "ibits ib' = bytes_bits (drop ?n bs)"
    using fragment_written [OF assms(1,2) less.prems(1), of ?n False ?e] by auto
  let ?p = "payload_packet (ob_str (cp_io cp) ob) (?e \<and> bMarker)"
  have step: "fua_loop cp M bMarker nri nut (length bs) ib False acc
      = fua_loop cp M bMarker nri nut (length bs - ?n) ib' False (acc @ [?p])"
    using w less.prems(2) by (simp add: fua_loop.simps [of _ _ _ _ _ "length bs"] rem Let_def)
  show ?case
  proof (cases ?e)
    case True
    then have "fua_loop cp M bMarker nri nut (length bs) ib False acc = Some (Inr (acc @ [?p]))"
      using step by (simp add: fua_loop.simps [of _ _ _ _ _ 0])
    moreover have "fragment nri nut False True bs (rp_rtpPayload ?p)" using fr True by (simp add: payload_packet_def)
    ultimately show ?thesis using fr(2) True less.prems(2)
      by (intro exI [of _ "[]"] exI [of _ ?p] exI [of _ bs]) (simp add: payload_packet_def)
  next
    case False
    let ?bs = "drop (unat M) bs"
    have n: "?n = unat M" using False by simp
    have bs': "length ?bs < length bs" "?bs \<noteq> []" using False assms(3) by simp_all
    obtain pkts q cs c1 where r: "fua_loop cp M bMarker nri nut (length ?bs) ib' False (acc @ [?p]) = Some (Inr ((acc @ [?p]) @ pkts @ [q]))"
      "?bs = concat cs @ c1" "list_all2 (fragment nri nut False False) cs (map rp_rtpPayload pkts)"
      "fragment nri nut False True c1 (rp_rtpPayload q)" "\<forall>p\<in>set (pkts @ [q]). length (rp_rtpPayload p) \<le> unat M + 2"
      "length cs < length ?bs"
      using less.hyps [OF bs'(1) ib' [unfolded n] bs'(2), of "acc @ [?p]"] by blast
    have "bs = concat (take (unat M) bs # cs) @ c1" using r(2) by (metis append.assoc append_take_drop_id concat.simps(2))
    moreover have "fragment nri nut False False (take (unat M) bs) (rp_rtpPayload ?p)" "length (rp_rtpPayload ?p) = unat M + 2"
      using fr False n by (simp_all add: payload_packet_def)
    moreover have "fua_loop cp M bMarker nri nut (length bs) ib False acc = Some (Inr (acc @ (?p # pkts) @ [q]))"
      using step r(1) n by simp
    moreover have "length (take (unat M) bs # cs) < length bs" using r(6) bs'(1) by simp
    ultimately show ?thesis using r(3-5)
      by (intro exI [of _ "?p # pkts"] exI [of _ q] exI [of _ "take (unat M) bs # cs"] exI [of _ c1]) simp
  qed
qed

lemma nal_header_read:
  assumes "old < 4"
  shows "\<exists>ib. read_nal_header cp old (h # t) = (nal_nri h, nal_nut h, ib) \<and> ibits ib = bytes_bits t"
proof -
  let ?ib = "cp_skipBits cp (ib_open (cp_io cp) (h # t)) 1"
  have "ibits (ib_open (cp_io cp) (h # t)) = to_bits 1 (nal_f h) @ fields_bits [(nal_nri h, 2), (nal_nut h, 5)] @ bytes_bits t"
    unfolding open_bits nal_bits by simp
  then have "ibits ?ib = fields_bits [(nal_nri h, 2), (nal_nut h, 5)] @ bytes_bits t"
    using skip_bits [of 1 "ib_open (cp_io cp) (h # t)"] by simp
  then obtain ib where "reads (cp_io cp) [(old, 2), (0, 5)] ?ib = ([nal_nri h, nal_nut h], ib)" "ibits ib = bytes_bits t"
    by (elim reads_fields [of "[(old, 2), (0, 5)]" "[(nal_nri h, 2), (nal_nut h, 5)]" ?ib, rotated 2]) (simp_all del: reads.simps)
  then show ?thesis by (simp add: read_nal_header_def)
qed

lemma packetise_fu:
  assumes "2 < unat B" and "unat B = unat (pk_uiBytesAvailableForPayload pk)" and "unat B < length (ms_data m)"
    and "nal_f (hd (ms_data m)) = 0"
  shows "\<exists>pkts. packetiseFuA cp pk m = Some (Inr pkts) \<and> carried (unat B) (map rp_rtpPayload pkts) [ms_data m]"
proof -
  obtain h t where d: "ms_data m = h # t" using assms(3) by (cases "ms_data m") auto
  define M where "M = pk_uiBytesAvailableForPayload pk - 2"
  have M: "unat M = unat B - 2" unfolding M_def using assms(1,2) by (simp add: unat_sub word_le_nat_alt)
  obtain ib where rh: "read_nal_header cp 0 (ms_data m) = (nal_nri h, nal_nut h, ib)" and ib: "ibits ib = bytes_bits t"
    using nal_header_read [of 0 h t] d by auto
  have lt: "unat M < length t" "t \<noteq> []" using assms(1,3) M d by auto
  have rem: "ib_bytesRemaining (cp_io cp) ib = length t" by (simp add: bytesRemaining ib)
  obtain ob ib' where w: "cp_writeBytes cp (writes (cp_io cp) (fu_fields NUT_FU_A (nal_nri h) (nal_nut h) True False) (ob_new (cp_io cp))) ib (unat M) = (True, ob, ib')"
    and fr: "fragment (nal_nri h) (nal_nut h) True False (take (unat M) t) (ob_str (cp_io cp) ob)" "length (ob_str (cp_io cp) ob) = unat M + 2"
    and ib': "ibits ib' = bytes_bits (drop (unat M) t)"
    using fragment_written [of "nal_nri h" "nal_nut h" ib t "unat M" True False] ib lt(1) by auto
  let ?p = "payload_packet (ob_str (cp_io cp) ob) False"
  have n: "min (length t) (unat M) = unat M" using lt(1) by simp
  have "packetiseFuA cp pk m = fua_loop cp M (ms_bMarker m) (nal_nri h) (nal_nut h) (length t) ib True []"
    using assms(2,3) rh rem by (simp add: packetiseFuA_def M_def)
  also have "\<dots> = fua_loop cp M (ms_bMarker m) (nal_nri h) (nal_nut h) (length (drop (unat M) t)) ib' False [?p]"
    using w lt by (simp add: fua_loop.simps [of _ _ _ _ _ "length t"] rem n Let_def)
  finally have start: "packetiseFuA cp pk m = fua_loop cp M (ms_bMarker m) (nal_nri h) (nal_nut h) (length (drop (unat M) t)) ib' False [?p]" .
  have ne: "0 < unat M" "drop (unat M) t \<noteq> []" using assms(1) M lt by simp_all
  from fua_rest [of "nal_nri h" "nal_nut h" M ib' "drop (unat M) t" "ms_bMarker m" "[?p]", OF nal_bounds(2,3) ne(1) ib' ne(2)] obtain pkts q cs c1 where
    r: "packetiseFuA cp pk m = Some (Inr ([?p] @ pkts @ [q]))" "drop (unat M) t = concat cs @ c1"
      "list_all2 (fragment (nal_nri h) (nal_nut h) False False) cs (map rp_rtpPayload pkts)"
      "fragment (nal_nri h) (nal_nut h) False True c1 (rp_rtpPayload q)" "\<forall>p\<in>set (pkts @ [q]). length (rp_rtpPayload p) \<le> unat M + 2"
      "length cs < length (drop (unat M) t)"
    unfolding start by blast
  have t: "t = take (unat M) t @ concat cs @ c1" using r(2) by (metis append_take_drop_id)
  have "length cs + 2 \<le> length (take (unat M) t @ concat cs @ c1)" using r(6) ne(1) lt(1) by (simp flip: r(2))
  then have "carried (unat B) (rp_rtpPayload ?p # map rp_rtpPayload pkts @ [rp_rtpPayload q]) [h # take (unat M) t @ concat cs @ c1]"
    using assms(1,4) d fr r(3-5) M by (intro carried.fragments) (auto simp: payload_packet_def)
  then show ?thesis using r(1) d t by simp
qed

lemma aggregate_ok:
  assumes "\<forall>m\<in>set ms. ms_data m \<noteq> [] \<and> length (ms_data m) < 2 ^ 31" and "nri < 4"
  shows "\<exists>k sz f nri'. aggregate_loop a ms (n, s, b, nri) = Inr (n + k, sz, f, nri') \<and> k \<le> length ms \<and> nri' < 4
    \<and> (\<Sum>m\<leftarrow>take k ms. length (ms_data m) + 2) \<le> unat a"
  using assms
proof (induction ms arbitrary: a n s b nri)
  case (Cons m ms)
  let ?r = "of_nat (length (ms_data m)) + 2 :: u32"
  have r: "unat ?r = length (ms_data m) + 2"
  proof -
    have "?r = of_nat (length (ms_data m) + 2)" by simp
    then show ?thesis using Cons.prems(1) unat_of_nat_u32 [of "length (ms_data m) + 2"] by (simp add: add.commute)
  qed
  show ?case
  proof (cases "a = 0 \<or> ?r > a")
    case True
    then have "aggregate_loop a (m # ms) (n, s, b, nri) = Inr (n + 0, s, b, nri)" by (auto simp: Let_def)
    then show ?thesis using Cons.prems(2) by (intro exI [of _ 0] exI [of _ s] exI [of _ b] exI [of _ nri]) simp
  next
    case False
    let ?h = "hd (ms_data m)"
    have "unat (drop_bit 5 (?h AND 0x60)) < 4"
    proof -
      have "unat (?h AND 0x60) < 128" using unat_u8 [of "?h AND 0x60"] word_and_le1 [of ?h "0x60"] by (simp add: word_le_nat_alt)
      then show ?thesis by (simp add: unat_div drop_bit_eq_div less_mult_imp_div_less)
    qed
    then have mx: "max nri (unat (drop_bit 5 (?h AND 0x60))) < 4" using Cons.prems(2) by simp
    obtain k sz f nri' where IH: "aggregate_loop (a - ?r) ms (n + 1, s + ?r, b \<or> ?h AND 0x80 \<noteq> 0, max nri (unat (drop_bit 5 (?h AND 0x60))))
        = Inr (n + 1 + k, sz, f, nri')" "k \<le> length ms" "nri' < 4" "(\<Sum>m\<leftarrow>take k ms. length (ms_data m) + 2) \<le> unat (a - ?r)"
      using Cons.IH [OF _ mx, of "a - ?r" "n + 1" "s + ?r" "b \<or> ?h AND 0x80 \<noteq> 0"] Cons.prems(1) by auto
    have "aggregate_loop a (m # ms) (n, s, b, nri) = Inr (n + Suc k, sz, f, nri')"
      using False Cons.prems(1) IH(1) by (simp add: Let_def)
    moreover have le: "?r \<le> a" using False by (metis not_less)
    moreover have "unat (a - ?r) = unat a - unat ?r" "unat ?r \<le> unat a" using unat_sub [OF le] le by (simp_all only: word_le_nat_alt)
    ultimately show ?thesis using IH(2-4) r by (intro exI [of _ "Suc k"]) simp
  qed
qed simp

lemma units_written:
  assumes "\<forall>m\<in>set ms. length (ms_data m) < 65536"
  shows "obits (write_units cp ms ob) = obits ob @ unit_bits (map ms_data ms)"
proof -
  have "obits (write_units cp ms ob) = obits ob @ concat (map (\<lambda>m. to_bits 16 (length (ms_data m)) @ bytes_bits (ms_data m)) ms)"
    unfolding write_units_def by (rule foldl_write_bits) (use assms in \<open>simp add: copy_rest open_bits write_bits\<close>)
  then show ?thesis by (simp add: unit_bits_def comp_def)
qed

lemma length_unit_bits: "length (unit_bits (map ms_data ms)) = 8 * (\<Sum>m\<leftarrow>ms. length (ms_data m) + 2)"
  by (induction ms) (simp_all add: unit_bits_def)

lemma stap_written:
  assumes "\<forall>m\<in>set ms. ms_data m \<noteq> [] \<and> length (ms_data m) < 65536" and "nri < 4"
    and "(\<Sum>m\<leftarrow>ms. length (ms_data m) + 2) < B" and "ms \<noteq> []"
  shows "carried B [rp_rtpPayload (stap_a_packet cp f nri ms)] (map ms_data ms)"
proof -
  let ?ob = "write_units cp ms (writes (cp_io cp) [(of_bool f, 1), (nri, 2), (NUT_STAP_A, 5)] (ob_new (cp_io cp)))"
  have "fields_ok [(of_bool f, 1), (nri, 2), (NUT_STAP_A, 5)]" using assms(2) by (simp add: NUT_STAP_A_def)
  then have ob: "obits ?ob = fields_bits [(of_bool f, 1), (nri, 2), (NUT_STAP_A, 5)] @ unit_bits (map ms_data ms)"
    using assms(1) units_written [of ms "writes (cp_io cp) [(of_bool f, 1), (nri, 2), (NUT_STAP_A, 5)] (ob_new (cp_io cp))"]
    by (simp add: writes_bits new_bits del: fields_ok_simps fields_bits_simps)
  then have len: "length (obits ?ob) = 8 * (1 + (\<Sum>m\<leftarrow>ms. length (ms_data m) + 2))" by (simp add: length_unit_bits fields_bits_def)
  then have str: "bytes_bits (ob_str (cp_io cp) ?ob) = obits ?ob" by (intro str_bits) simp
  then have "length (ob_str (cp_io cp) ?ob) = 1 + (\<Sum>m\<leftarrow>ms. length (ms_data m) + 2)" using len
    by (metis length_bytes_bits mult_cancel1 zero_neq_numeral)
  then show ?thesis using assms ob str
    by (intro carried.aggregated [of _ "of_bool f" nri]) (auto simp: stap_a_packet_def payload_packet_def)
qed

lemma non_interleaved_ok:
  assumes "2 < unat (pk_uiBytesAvailableForPayload pk)" and "unat (pk_uiBytesAvailableForPayload pk) < 65536"
    and samples: "\<forall>m\<in>set samples. ms_data m \<noteq> [] \<and> length (ms_data m) < 2 ^ 31
      \<and> nal_f (hd (ms_data m)) = 0 \<and> nal_nut (hd (ms_data m)) \<le> NUT_RESERVED_23"
  shows "\<exists>new info'. non_interleaved_loop cp pk samples i acc info = Some (Inr (acc @ new, info'))
    \<and> carries (unat (pk_uiBytesAvailableForPayload pk)) (map rp_rtpPayload new) (map ms_data (drop i samples))"
proof (induction "length samples - i" arbitrary: i acc info rule: less_induct)
  case less
  let ?B = "pk_uiBytesAvailableForPayload pk"
  show ?case
  proof (cases "length samples \<le> i")
    case True
    then show ?thesis by (simp add: non_interleaved_loop.simps [of cp pk samples i] carries.none)
  next
    case False
    define m where "m = samples ! i"
    have m: "drop i samples = m # drop (i + 1) samples" "m \<in> set samples" using False by (simp_all add: m_def Cons_nth_drop_Suc)
    have carry: "\<exists>new info'. non_interleaved_loop cp pk samples j (acc @ pkts) inf = Some (Inr (acc @ new, info'))
        \<and> carries (unat ?B) (map rp_rtpPayload new) (map ms_data (drop i samples))"
      if "i < j" "carried (unat ?B) (map rp_rtpPayload pkts) ds" "map ms_data (drop i samples) = ds @ map ms_data (drop j samples)" for j pkts ds inf
    proof -
      have "length samples - j < length samples - i" using that(1) False by simp
      then obtain new info' where "non_interleaved_loop cp pk samples j (acc @ pkts) inf = Some (Inr ((acc @ pkts) @ new, info'))"
        "carries (unat ?B) (map rp_rtpPayload new) (map ms_data (drop j samples))" using less.hyps by blast
      then show ?thesis using carries.more [OF that(2)] that(3) by (intro exI [of _ "pkts @ new"] exI [of _ info']) simp
    qed
    have loop: "non_interleaved_loop cp pk samples i acc info =
      (if length (ms_data m) > unat ?B
       then Option.bind (packetiseFuA cp pk m) (\<lambda>r. case r of Inl f \<Rightarrow> Some (Inl f)
         | Inr fus \<Rightarrow> non_interleaved_loop cp pk samples (i + 1) (acc @ fus) (note_packets [i] [length acc..<length acc + length fus] info))
       else case getNumberOfSamplesToAggregate pk ?B samples i (0, 0, False, 0) of
              Inl f \<Rightarrow> Some (Inl f)
            | Inr (iCount, uiStapSize, bFBit, uiNri) \<Rightarrow>
                if iCount < 2
                then non_interleaved_loop cp pk samples (i + 1) (acc @ [packetiseSingleNalUnit m]) (note_packets [i] [length acc] info)
                else non_interleaved_loop cp pk samples (i + iCount)
                       (acc @ [stap_a_packet cp bFBit uiNri (take iCount (drop i samples))]) (note_packets [i..<i + iCount] [length acc] info))"
      by (subst non_interleaved_loop.simps) (simp only: False if_False Let_def flip: m_def)
    have d1: "map ms_data (drop i samples) = [ms_data m] @ map ms_data (drop (i + 1) samples)" using m(1) by simp
    show ?thesis
    proof (cases "length (ms_data m) > unat ?B")
      case True
      obtain fus where "packetiseFuA cp pk m = Some (Inr fus)" "carried (unat ?B) (map rp_rtpPayload fus) [ms_data m]"
        using packetise_fu [of ?B pk m] assms(1) True samples m(2) by auto
      then show ?thesis using carry [of "i + 1" fus "[ms_data m]"] d1 True by (simp add: loop)
    next
      case small: False
      have agg: "\<exists>k sz f nri'. getNumberOfSamplesToAggregate pk ?B samples i (0, 0, False, 0) = Inr (k, sz, f, nri') \<and> nri' < 4
          \<and> (k < 2 \<or> k \<le> length (drop i samples) \<and> (\<Sum>m\<leftarrow>take k (drop i samples). length (ms_data m) + 2) \<le> unat (?B - 1))"
      proof (cases "pk_bDisableStap pk")
        case False
        have "\<forall>m\<in>set (drop i samples). ms_data m \<noteq> [] \<and> length (ms_data m) < 2 ^ 31" using samples by (auto dest: in_set_dropD)
        then show ?thesis using False aggregate_ok [of "drop i samples" 0 "?B - 1" 0 1 False] by (auto simp: getNumberOfSamplesToAggregate_def)
      qed (auto simp: getNumberOfSamplesToAggregate_def intro: exI [of _ False])
      then obtain k sz f nri where agg: "getNumberOfSamplesToAggregate pk ?B samples i (0, 0, False, 0) = Inr (k, sz, f, nri)" "nri < 4"
        "k < 2 \<or> k \<le> length (drop i samples) \<and> (\<Sum>m\<leftarrow>take k (drop i samples). length (ms_data m) + 2) \<le> unat (?B - 1)" by blast
      show ?thesis
      proof (cases "k < 2")
        case True
        have "ms_data m \<noteq> []" "nal_nut (hd (ms_data m)) \<le> NUT_RESERVED_23" using samples m(2) by simp_all
        then have "carried (unat ?B) (map rp_rtpPayload [packetiseSingleNalUnit m]) [ms_data m]"
          using small carried.single [of "hd (ms_data m)" "tl (ms_data m)" "unat ?B"]
          by (cases "ms_data m") (simp_all add: packetiseSingleNalUnit_def payload_packet_def)
        then show ?thesis using carry [of "i + 1" "[packetiseSingleNalUnit m]" "[ms_data m]"] d1 small True agg(1) by (simp add: loop)
      next
        case False
        let ?ms = "take k (drop i samples)"
        have "unat (?B - 1) < unat ?B" using assms(1) by (simp add: unat_sub word_le_nat_alt)
        then have sum: "(\<Sum>m\<leftarrow>?ms. length (ms_data m) + 2) < unat ?B" using agg(3) False by (meson le_less_trans)
        have "length (ms_data q) < 65536" if "q \<in> set ?ms" for q
        proof -
          have "length (ms_data q) + 2 \<le> (\<Sum>m\<leftarrow>?ms. length (ms_data m) + 2)" using that by (intro member_le_sum_list) auto
          then show ?thesis using sum assms(2) by linarith
        qed
        moreover have "ms_data q \<noteq> []" if "q \<in> set ?ms" for q using that samples by (auto dest: in_set_takeD in_set_dropD)
        ultimately have "carried (unat ?B) (map rp_rtpPayload [stap_a_packet cp f nri ?ms]) (map ms_data ?ms)"
          using stap_written [of ?ms nri "unat ?B" f] agg(2) sum False m(1) by simp
        moreover have "map ms_data (drop i samples) = map ms_data ?ms @ map ms_data (drop (i + k) samples)"
          by (metis add.commute append_take_drop_id drop_drop map_append)
        ultimately show ?thesis using carry [of "i + k" "[stap_a_packet cp f nri ?ms]" "map ms_data ?ms"] False small agg(1) by (simp add: loop)
      qed
    qed
  qed
qed

end

section \<open>Depacketising\<close>

fun numbered :: "u32 \<Rightarrow> RtpPacket list \<Rightarrow> bool" where
  "numbered sn [] = True"
| "numbered sn (p # ps) = (getExtendedSequenceNumber p = sn \<and> numbered (sn + 1) ps)"

lemma numbered_append: "numbered sn (ps @ qs) \<longleftrightarrow> numbered sn ps \<and> numbered (sn + of_nat (length ps)) qs"
  by (induction ps arbitrary: sn) (simp_all add: add.assoc)

context copy_stream
begin

lemma reads_ok_fields:
  assumes "map snd olds = map snd fs" and "fields_ok fs" and "ibits ib = fields_bits fs @ rest"
  shows "\<exists>ib'. reads_ok (cp_io cp) olds ib = (Some (map fst fs), ib') \<and> ibits ib' = rest"
  using assms
proof (induction fs arbitrary: olds ib)
  case (Cons f fs)
  obtain v n where f: "f = (v, n)" by (cases f)
  obtain old olds' where olds: "olds = (old, n) # olds'" using Cons.prems(1) f by (cases olds) (auto simp: prod_eq_iff)
  obtain ib1 where r1: "ib_read (cp_io cp) ib old n = (True, v, ib1)" and b1: "ibits ib1 = fields_bits fs @ rest"
    using Cons.prems f by (auto elim: read_field)
  obtain ib2 where "reads_ok (cp_io cp) olds' ib1 = (Some (map fst fs), ib2)" "ibits ib2 = rest"
    using Cons.IH [of olds' ib1] Cons.prems f olds b1 by auto
  then show ?case using f olds r1 by simp
qed simp

lemma stap_read:
  assumes "\<forall>d\<in>set ds. d \<noteq> [] \<and> length d < 65536" and "ibits ib = unit_bits ds"
  shows "handleStapA cp u g old ib acc = Some (acc @ map (group_sample u g) ds)"
  using assms
proof (induction ds arbitrary: ib old acc)
  case Nil
  obtain ib' where "ib_read (cp_io cp) ib old 16 = (False, old, ib')"
    using read_fail [of ib 16 old] Nil by (auto simp: unit_bits_def)
  then show ?case by (simp add: handleStapA.simps [of cp u g old ib])
next
  case (Cons d ds)
  have "ibits ib = to_bits 16 (length d) @ bytes_bits d @ unit_bits ds" "length d < 2 ^ 16"
    using Cons.prems by (simp_all add: unit_bits_def)
  then obtain ib1 where r1: "ib_read (cp_io cp) ib old 16 = (True, length d, ib1)" and b1: "ibits ib1 = bytes_bits d @ unit_bits ds"
    by (rule read_field)
  obtain ib2 where r2: "ib_readBytes (cp_io cp) ib1 (length d) = (True, d, ib2)" and b2: "ibits ib2 = unit_bits ds"
    using b1 by (rule readBytes_bits)
  have "handleStapA cp u g old ib acc = handleStapA cp u g (length d) ib2 (acc @ [group_sample u g d])"
    using r1 r2 Cons.prems(1) by (simp add: handleStapA.simps [of cp u g old ib])
  then show ?case using Cons.IH [OF _ b2] Cons.prems(1) by simp
qed

lemma fu_fields_read:
  assumes "fragment nri nut b e c (rp_rtpPayload p)" and "nri < 4" and "nut < 32"
  shows "\<exists>ib. reads_ok (cp_io cp) [(0, 1), (0, 2), (0, 5), (0, 1), (0, 1), (0, 1), (0, 5)] (ib_open (cp_io cp) (rp_rtpPayload p))
      = (Some [0, nri, NUT_FU_A, of_bool b, of_bool e, 0, nut], ib) \<and> ibits ib = bytes_bits c"
  using reads_ok_fields [of "[(0, 1), (0, 2), (0, 5), (0, 1), (0, 1), (0, 1), (0, 5)]" "fu_fields NUT_FU_A nri nut b e"
      "ib_open (cp_io cp) (rp_rtpPayload p)" "bytes_bits c"] assms fields_ok_fu [OF assms(2,3), of NUT_FU_A b e]
  by (simp add: fragment_def open_bits fu_fields_def NUT_FU_A_def del: reads_ok.simps)

lemma fragments_read:
  assumes "nri < 4" and "nut < 32"
  shows "list_all2 (fragment nri nut False False) cs (map rp_rtpPayload ps) \<Longrightarrow> fragment nri nut False True c1 (rp_rtpPayload q)
    \<Longrightarrow> numbered (sn + 1) (ps @ [q]) \<Longrightarrow> 8 dvd length (obits ob)
    \<Longrightarrow> \<exists>bs. fu_next cp u g d ob sn (ps @ q # rest) = Inr ([fu_sample u g d bs], rest) \<and> bytes_bits bs = obits ob @ bytes_bits (concat cs @ c1)"
proof (induction ps arbitrary: cs sn ob)
  case Nil
  obtain ib where r: "reads_ok (cp_io cp) [(0, 1), (0, 2), (0, 5), (0, 1), (0, 1), (0, 1), (0, 5)] (ib_open (cp_io cp) (rp_rtpPayload q))
      = (Some [0, nri, NUT_FU_A, 0, 1, 0, nut], ib)" and ib: "ibits ib = bytes_bits c1"
    using fu_fields_read [OF Nil.prems(2) assms] by auto
  have ob: "obits (cp_write cp ob ib) = obits ob @ bytes_bits c1" by (simp add: copy_rest ib)
  then have "bytes_bits (ob_str (cp_io cp) (cp_write cp ob ib)) = obits ob @ bytes_bits c1"
    using Nil.prems(4) str_bits [of "cp_write cp ob ib"] by simp
  then show ?case using r Nil.prems(1,3)
    by (intro exI [of _ "ob_str (cp_io cp) (cp_write cp ob ib)"]) (simp add: Let_def del: reads_ok.simps)
next
  case (Cons p ps)
  obtain c cs' where cs: "cs = c # cs'" "fragment nri nut False False c (rp_rtpPayload p)"
    "list_all2 (fragment nri nut False False) cs' (map rp_rtpPayload ps)" using Cons.prems(1) by (cases cs) auto
  obtain ib where r: "reads_ok (cp_io cp) [(0, 1), (0, 2), (0, 5), (0, 1), (0, 1), (0, 1), (0, 5)] (ib_open (cp_io cp) (rp_rtpPayload p))
      = (Some [0, nri, NUT_FU_A, 0, 0, 0, nut], ib)" and ib: "ibits ib = bytes_bits c"
    using fu_fields_read [OF cs(2) assms] by auto
  have ob: "obits (cp_write cp ob ib) = obits ob @ bytes_bits c" by (simp add: copy_rest ib)
  have "numbered (sn + 1 + 1) (ps @ [q])" "8 dvd length (obits (cp_write cp ob ib))" using Cons.prems(3,4) by (simp_all add: ob)
  then obtain bs where "fu_next cp u g d (cp_write cp ob ib) (sn + 1) (ps @ q # rest) = Inr ([fu_sample u g d bs], rest)"
    "bytes_bits bs = obits (cp_write cp ob ib) @ bytes_bits (concat cs' @ c1)"
    using Cons.IH [OF cs(3) Cons.prems(2)] by blast
  then show ?case using r Cons.prems(3) cs(1) by (intro exI [of _ bs]) (simp add: Let_def ob del: reads_ok.simps)
qed

lemma nal_type_read:
  assumes "bytes_bits pl = fields_bits [(f, 1), (nri, 2), (ty, 5)] @ rest" and "f < 2" and "nri < 4" and "ty < 32"
  shows "\<exists>ib. reads_ok (cp_io cp) [(0, 1), (0, 2), (0, 5)] (ib_open (cp_io cp) pl) = (Some [f, nri, ty], ib) \<and> ibits ib = rest"
  using reads_ok_fields [of "[(0, 1), (0, 2), (0, 5)]" "[(f, 1), (nri, 2), (ty, 5)]" "ib_open (cp_io cp) pl" rest] assms
  by (simp add: open_bits del: reads_ok.simps)

lemma carried_extracted:
  assumes "carried B pls ds" and "map rp_rtpPayload ps = pls" and "numbered sn ps"
  shows "\<exists>ms. extractNextMediaSample cp u g (hd ps) (tl ps @ rest) = Some (Inr (ms, rest)) \<and> ps \<noteq> [] \<and> map ms_data ms = ds
    \<and> (\<forall>m\<in>set ms. ms_tPresentation m = pg_tPresentation g)"
  using assms
proof (induction rule: carried.induct)
  case (single h t)
  then obtain p where ps: "ps = [p]" "rp_rtpPayload p = h # t" by auto
  obtain ib where "reads_ok (cp_io cp) [(0, 1), (0, 2), (0, 5)] (ib_open (cp_io cp) (h # t)) = (Some [nal_f h, nal_nri h, nal_nut h], ib)"
    using nal_type_read [OF nal_bits, of h t] by auto
  then show ?case using ps single.hyps(1) by (simp add: extractNextMediaSample_def group_sample_def del: reads_ok.simps)
next
  case (aggregated pl f nri ds)
  then obtain p where ps: "ps = [p]" "rp_rtpPayload p = pl" by auto
  obtain ib where r: "reads_ok (cp_io cp) [(0, 1), (0, 2), (0, 5)] (ib_open (cp_io cp) pl) = (Some [f, nri, NUT_STAP_A], ib)"
    and ib: "ibits ib = unit_bits ds"
    using nal_type_read [OF aggregated.hyps(1-3)] by (auto simp: NUT_STAP_A_def)
  have "handleStapA cp u g 0 ib [] = Some (map (group_sample u g) ds)" using stap_read [OF aggregated.hyps(4) ib] by simp
  then show ?case using ps r
    by (simp add: extractNextMediaSample_def NUT_STAP_A_def NUT_RESERVED_23_def comp_def group_sample_def del: reads_ok.simps)
next
  case (fragments h c0 pl0 cs pls c1 pl1)
  then obtain p qs q where ps: "ps = p # qs @ [q]" "rp_rtpPayload p = pl0" "map rp_rtpPayload qs = pls" "rp_rtpPayload q = pl1"
    by (auto simp: map_eq_Cons_conv map_eq_append_conv)
  have "bytes_bits pl0 = fields_bits [(0, 1), (nal_nri h, 2), (NUT_FU_A, 5)] @ fields_bits [(1, 1), (0, 1), (0, 1), (nal_nut h, 5)] @ bytes_bits c0"
    using fragments.hyps(2) by (simp add: fragment_def fu_fields_def)
  then obtain ib where r: "reads_ok (cp_io cp) [(0, 1), (0, 2), (0, 5)] (ib_open (cp_io cp) pl0) = (Some [0, nal_nri h, NUT_FU_A], ib)"
    and ib: "ibits ib = fields_bits [(1, 1), (0, 1), (0, 1), (nal_nut h, 5)] @ bytes_bits c0"
    using nal_type_read [of pl0 0 "nal_nri h" NUT_FU_A] by (auto simp: NUT_FU_A_def)
  obtain ib1 where r1: "reads_ok (cp_io cp) [(0, 1), (0, 1), (0, 1), (0, 5)] ib = (Some [1, 0, 0, nal_nut h], ib1)" and ib1: "ibits ib1 = bytes_bits c0"
    using reads_ok_fields [OF _ _ ib, of "[(0, 1), (0, 1), (0, 1), (0, 5)]"] by (auto simp del: reads_ok.simps)
  have fo: "fields_ok [(0, 1), (nal_nri h, 2), (nal_nut h, 5)]" by simp
  let ?ob = "fu_begin cp 0 (nal_nri h) (nal_nut h) ib1"
  have ob: "obits ?ob = to_bits 8 (unat h) @ bytes_bits c0"
    unfolding fu_begin_def nal_header_bits copy_rest [of ib1, unfolded ib1 length_bytes_bits, OF dvd_triv_left] writes_bits [OF fo] new_bits fragments.hyps(1)
    by (simp only: fields_bits_simps append_assoc append_Nil append_Nil2)
  have num: "getExtendedSequenceNumber p = sn" "numbered (sn + 1) (qs @ [q])" using fragments.prems ps by simp_all
  have "8 dvd length (obits ?ob)" by (simp add: ob)
  from fragments_read [OF nal_bounds(2,3) fragments.hyps(3) [folded ps(3)] fragments.hyps(4) [folded ps(4)] num(2) this, of u g None rest]
  obtain bs where f: "fu_next cp u g None ?ob sn (qs @ q # rest) = Inr ([fu_sample u g None bs], rest)"
    and bs: "bytes_bits bs = obits ?ob @ bytes_bits (concat cs @ c1)" by blast
  have "bytes_bits bs = bytes_bits (h # c0 @ concat cs @ c1)" unfolding bs ob by simp
  then have "bs = h # c0 @ concat cs @ c1" by (rule bytes_bits_inj)
  then show ?case using r r1 f ps num(1)
    by (simp add: extractNextMediaSample_def handleFuA_def NUT_FU_A_def NUT_STAP_A_def NUT_STAP_B_def NUT_RESERVED_23_def
        fu_sample_def group_sample_def del: reads_ok.simps)
qed

lemma carries_depacketized:
  assumes "carries B pls ds" and "map rp_rtpPayload ps = pls" and "numbered sn ps"
  shows "\<exists>ms. depacketize_loop cp u g ps acc = Some (Inr (acc @ ms)) \<and> map ms_data ms = ds
    \<and> (\<forall>m\<in>set ms. ms_tPresentation m = pg_tPresentation g)"
  using assms
proof (induction arbitrary: ps sn acc rule: carries.induct)
  case none
  then show ?case by (simp add: depacketize_loop.simps [of cp u g "[]"])
next
  case (more pls ds qls es)
  obtain ps1 ps2 where ps: "ps = ps1 @ ps2" "map rp_rtpPayload ps1 = pls" "map rp_rtpPayload ps2 = qls"
    using more.prems(1) by (auto simp: map_eq_append_conv)
  have n1: "numbered sn ps1" and n2: "numbered (sn + of_nat (length ps1)) ps2" using more.prems(2) ps(1) by (simp_all add: numbered_append)
  obtain ms where e: "extractNextMediaSample cp u g (hd ps1) (tl ps1 @ ps2) = Some (Inr (ms, ps2))" "ps1 \<noteq> []" "map ms_data ms = ds"
    "\<forall>m\<in>set ms. ms_tPresentation m = pg_tPresentation g" using carried_extracted [OF more.hyps(1) ps(2) n1] by blast
  obtain ms' where d: "depacketize_loop cp u g ps2 (acc @ ms) = Some (Inr ((acc @ ms) @ ms'))" "map ms_data ms' = es"
    "\<forall>m\<in>set ms'. ms_tPresentation m = pg_tPresentation g" using more.IH [OF ps(3) n2] by blast
  have "depacketize_loop cp u g ps acc = depacketize_loop cp u g ps2 (acc @ ms)"
    using e(1,2) ps(1) by (cases ps1) (simp_all add: depacketize_loop.simps [of cp u g "_ # _"])
  then show ?case using d e(3,4) by (intro exI [of _ "ms @ ms'"]) auto
qed

end

lemma carries_nonempty: "carries B pls ds \<Longrightarrow> pls = [] \<Longrightarrow> ds = []"
  by (induction rule: carries.induct) (auto elim: carried.cases)

section \<open>Packets on the network\<close>

text \<open>The session numbers the packets consecutively; the network reorders and repeats them.\<close>

fun numbered_from :: "u32 \<Rightarrow> RtpPacket list \<Rightarrow> RtpPacket list" where
  "numbered_from sn [] = []"
| "numbered_from sn (p # ps) = setExtendedSequenceNumber sn p # numbered_from (sn + 1) ps"

lemma numbered_numbered_from: "numbered sn (numbered_from sn ps)"
  by (induction ps arbitrary: sn) (simp_all add: getExtendedSequenceNumber_def setExtendedSequenceNumber_def)

lemma payload_numbered_from [simp]: "map rp_rtpPayload (numbered_from sn ps) = map rp_rtpPayload ps"
  by (induction ps arbitrary: sn) (simp_all add: setExtendedSequenceNumber_def)

lemma length_numbered_from [simp]: "length (numbered_from sn ps) = length ps"
  by (induction ps arbitrary: sn) simp_all

lemma sint_next:
  assumes "sint (w :: u32) + 1 < 2 ^ 31"
  shows "sint (w + 1) = sint w + 1"
proof -
  have "w + 1 = of_int (sint w + 1)" by simp
  moreover have "sint (of_int (sint w + 1) :: u32) = sint w + 1"
    by (rule sint_of_int_u32) (use assms sint_greater_eq [of w] in simp_all)
  ultimately show ?thesis by metis
qed

lemma map_sn_numbered_from: "sint sn + int (length ps) < 2 ^ 31 \<Longrightarrow> map sn_of (numbered_from sn ps) = map (\<lambda>i. sint sn + int i) [0..<length ps]"
proof (induction ps arbitrary: sn)
  case (Cons p ps)
  have e: "sint (sn + 1) = sint sn + 1" using Cons.prems by (intro sint_next) simp
  have "map sn_of (numbered_from (sn + 1) ps) = map (\<lambda>i. sint (sn + 1) + int i) [0..<length ps]"
    by (rule Cons.IH) (use Cons.prems e in simp)
  also have "\<dots> = map (\<lambda>i. sint sn + int i) (map Suc [0..<length ps])" by (simp add: e)
  finally have IH: "map sn_of (numbered_from (sn + 1) ps) = map (\<lambda>i. sint sn + int i) [Suc 0..<Suc (length ps)]" by (simp only: map_Suc_upt)
  have "sn_of (setExtendedSequenceNumber sn p) = sint sn" by (simp add: sn_of_def getExtendedSequenceNumber_def setExtendedSequenceNumber_def)
  then show ?case using IH by (simp add: upt_conv_Cons del: upt_Suc)
qed simp

lemma insert_run_packets:
  "set (pg_rtpPacketList (fold (\<lambda>p g. snd (RtpPacketGroup_insert p g)) ps g)) \<subseteq> set (pg_rtpPacketList g) \<union> set ps
   \<and> pg_tPresentation (fold (\<lambda>p g. snd (RtpPacketGroup_insert p g)) ps g) = pg_tPresentation g"
proof (induction ps arbitrary: g)
  case (Cons p ps)
  obtain b g' where i: "RtpPacketGroup_insert p g = (b, g')" by (cases "RtpPacketGroup_insert p g")
  have "mset (pg_rtpPacketList g') = add_mset p (mset (pg_rtpPacketList g)) \<or> g' = g"
    using packet_group_insert_packets [OF i] by (auto split: if_splits)
  then have "set (pg_rtpPacketList g') \<subseteq> insert p (set (pg_rtpPacketList g))" by (metis set_mset_add_mset_insert set_mset_mset subset_insertI order_refl)
  then show ?case using Cons.IH [of g'] packet_group_insert_keeps(2) [OF i] i by auto
qed simp

lemma insert_synchronised: "pg_bRtcpSynchronised (snd (RtpPacketGroup_insert p g)) = pg_bRtcpSynchronised g"
  by (simp add: RtpPacketGroup_insert_def append_packet_def reorder_packet_def Let_def)

lemma insert_run_synchronised: "pg_bRtcpSynchronised (fold (\<lambda>p g. snd (RtpPacketGroup_insert p g)) ps g) = pg_bRtcpSynchronised g"
  by (induction ps arbitrary: g) (simp_all add: insert_synchronised)

lemma group_restores_order:
  assumes "set (p # arrivals) = set (numbered_from sn pkts)" and "sint sn + int (length pkts) < 2 ^ 31" and "length pkts < 2 ^ 31"
  shows "pg_rtpPacketList (fold (\<lambda>p g. snd (RtpPacketGroup_insert p g)) arrivals (RtpPacketGroup_create p tPres b tPlay)) = numbered_from sn pkts"
proof -
  let ?first = "RtpPacketGroup_create p tPres b tPlay"
  let ?g = "fold (\<lambda>p g. snd (RtpPacketGroup_insert p g)) arrivals ?first" and ?ps = "numbered_from sn pkts"
  have sns: "map sn_of ?ps = map (\<lambda>i. sint sn + int i) [0..<length pkts]" by (rule map_sn_numbered_from [OF assms(2)])
  have dist: "distinct (map sn_of ?ps)" and sorted: "sorted (map sn_of ?ps)"
    unfolding sns by (simp_all add: distinct_map inj_on_def sorted_map)
  have vals: "sn_of q \<in> (\<lambda>i. sint sn + int i) ` {0..<length pkts}" if "q \<in> set ?ps" for q
    using that sns by (metis image_eqI list.set_map set_upt)
  have sp: "spread (getExtendedSequenceNumber ` set (p # arrivals))"
    unfolding assms(1) spread_def
  proof (intro ballI)
    fix a c assume "a \<in> getExtendedSequenceNumber ` set ?ps" "c \<in> getExtendedSequenceNumber ` set ?ps"
    then obtain i j where "sint a = sint sn + int i" "i < length pkts" "sint c = sint sn + int j" "j < length pkts"
      using vals unfolding sn_of_def by (metis (no_types, lifting) atLeastLessThan_iff imageE)
    moreover have "int k < 2147483647" if "k < length pkts" for k using that assms(3) by simp
    ultimately have "int i < 2147483647" "int j < 2147483647" "\<bar>sint a - sint c\<bar> = \<bar>int i - int j\<bar>" by simp_all
    then show "\<bar>sint a - sint c\<bar> < 2 ^ 31 - 1" by simp
  qed
  have r0: "pg_receivedSequenceNumbers ?first = {getExtendedSequenceNumber p}" by (simp add: RtpPacketGroup_create_def)
  have sp0: "spread (pg_receivedSequenceNumbers ?first \<union> getExtendedSequenceNumber ` set arrivals)" using sp by (simp only: r0 list.set image_insert insert_is_Un [symmetric])
  note run = insert_run [OF group_inv_create sp0]
  have "getExtendedSequenceNumber ` set ?ps = {getExtendedSequenceNumber p} \<union> getExtendedSequenceNumber ` set arrivals"
    unfolding assms(1) [symmetric] by simp
  with run have inv: "group_inv ?g" and rec: "pg_receivedSequenceNumbers ?g = getExtendedSequenceNumber ` set ?ps"
    by (simp_all only: r0)
  have sub: "set (pg_rtpPacketList ?g) \<subseteq> set ?ps"
    using insert_run_packets [of arrivals ?first] assms(1) by (auto simp: RtpPacketGroup_create_def)
  have nums: "getExtendedSequenceNumber ` set (pg_rtpPacketList ?g) = getExtendedSequenceNumber ` set ?ps"
    using inv rec by (simp add: group_inv_def)
  have inj: "inj_on sn_of (set ?ps)" using dist by (simp add: distinct_map)
  have "set ?ps \<subseteq> set (pg_rtpPacketList ?g)"
  proof
    fix q assume q: "q \<in> set ?ps"
    then have "getExtendedSequenceNumber q \<in> getExtendedSequenceNumber ` set (pg_rtpPacketList ?g)" using nums by auto
    then obtain r where r: "r \<in> set (pg_rtpPacketList ?g)" "getExtendedSequenceNumber r = getExtendedSequenceNumber q" by auto
    have "sn_of r = sn_of q" using r(2) by (simp add: sn_of_eq)
    from inj_onD [OF inj this subsetD [OF sub r(1)] q] r(1) show "q \<in> set (pg_rtpPacketList ?g)" by simp
  qed
  then have same: "set (pg_rtpPacketList ?g) = set ?ps" using sub by blast
  have "sorted (map sn_of (pg_rtpPacketList ?g))" "distinct (map sn_of (pg_rtpPacketList ?g))"
    using inv by (simp_all add: group_inv_def strict_sorted_iff)
  then show ?thesis using map_sorted_distinct_set_unique [of sn_of "pg_rtpPacketList ?g" ?ps] sorted dist same inj by simp
qed

section \<open>Where the packetiser gives up\<close>

text \<open>In interleaved mode, the units a few octets smaller than the limit are too large for one packet and too small for fragments.\<close>

lemma interleaved_near_limit_asserts:
  "\<lbrakk>length (ms_data m) \<le> unat (pk_uiBytesAvailableForPayload pk); unat (pk_uiBytesAvailableForPayload pk - 4) < length (ms_data m)\<rbrakk>
   \<Longrightarrow> packetiseInterleaved_one cp pk m = Some (Inl Assertion_failed)"
  by (simp add: packetiseInterleaved_one_def packetiseFuB_def)

text \<open>An aggregation packet that does not start at the first unit of the access unit loses its last units, often all.\<close>

lemma stap_b_units_dropped:
  "iCount \<le> i \<Longrightarrow> stap_b_packet cp bFBit uiNri samples i iCount = payload_packet (ob_str (cp_io cp) (writes (cp_io cp)
     [(of_bool bFBit, 1), (uiNri, 2), (NUT_STAP_B, 5), (unat (ms_iDecodingOrderNumber (samples ! i)), 16)] (ob_new (cp_io cp))))
     (ms_bMarker (samples ! (i + iCount - 1)))"
  by (simp add: stap_b_packet_def write_units_def)

text \<open>With room for the two header octets only, the loop over the fragments does not end.\<close>

lemma fua_loop_ends:
  assumes "fua_loop cp M bMarker nri nut n ib bStart acc = Some r"
  shows "M = 0 \<and> cp = bitlist_copy \<longrightarrow> n = 0"
  using assms
proof (rule fua_loop.raw_induct [where P = "\<lambda>cp M bMarker nri nut n ib bStart acc r. M = 0 \<and> cp = bitlist_copy \<longrightarrow> n = 0", rotated])
  fix rec and cp :: "(bool list, bool list) copy_io" and M bMarker nri nut n ib bStart acc and r :: "fault + RtpPacket list"
  assume hyp: "\<And>cp M bMarker nri nut n ib bStart acc r. rec cp M bMarker nri nut n ib bStart acc = Some r \<Longrightarrow> M = 0 \<and> cp = bitlist_copy \<longrightarrow> n = 0"
    and body: "(if n = 0 then Some (Inr acc)
      else let bEnd = (\<not> bStart \<and> n \<le> unat M);
               out1 = writes (cp_io cp) (fu_fields NUT_FU_A nri nut bStart bEnd) (ob_new (cp_io cp));
               uiBytesToWrite = min (ib_bytesRemaining (cp_io cp) ib) (unat M)
           in case cp_writeBytes cp out1 ib uiBytesToWrite of (bRes, out2, ib1) \<Rightarrow>
                if \<not> bRes then Some (Inl Assertion_failed)
                else rec cp M bMarker nri nut (n - uiBytesToWrite) ib1 False
                       (acc @ [payload_packet (ob_str (cp_io cp) out2) (bEnd \<and> bMarker)])) = Some r"
  show "M = 0 \<and> cp = bitlist_copy \<longrightarrow> n = 0"
  proof (intro impI, rule ccontr)
    assume z: "M = 0 \<and> cp = bitlist_copy" "n \<noteq> 0"
    then obtain ib' acc' where "rec cp M bMarker nri nut n ib' False acc' = Some r"
      using body by (auto simp: Let_def bitlist_copy_def)
    from hyp [OF this] z show False by simp
  qed
qed

lemma fua_loop_stuck: "0 < n \<Longrightarrow> fua_loop bitlist_copy 0 bMarker nri nut n ib bStart acc = None"
  using fua_loop_ends [of bitlist_copy 0 bMarker nri nut n ib bStart acc] by (cases "fua_loop bitlist_copy 0 bMarker nri nut n ib bStart acc") auto

context copy_stream
begin

text \<open>A second start fragment in place of a continuation stops the receiver.\<close>

lemma second_start_asserts:
  assumes "fragment nri nut True bEnd c (rp_rtpPayload p)" and "getExtendedSequenceNumber p = sn + 1" and "nri < 4" and "nut < 32"
  shows "fu_next cp u g don ob sn (p # ps) = Inl Assertion_failed"
proof -
  obtain ib where "reads_ok (cp_io cp) [(0, 1), (0, 2), (0, 5), (0, 1), (0, 1), (0, 1), (0, 5)] (ib_open (cp_io cp) (rp_rtpPayload p))
      = (Some [0, nri, NUT_FU_A, of_bool True, of_bool bEnd, 0, nut], ib)"
    using fu_fields_read [OF assms(1,3,4)] by blast
  then show ?thesis using assms(2) by (simp del: reads_ok.simps)
qed

end

section \<open>Whole access units\<close>

lemma packetised_carries:
  assumes "copy_stream cp obits ibits" and "pk_eMode pk = NON_INTERLEAVED_MODE"
    and "2 < unat (pk_uiBytesAvailableForPayload pk)" and "unat (pk_uiBytesAvailableForPayload pk) < 65536"
    and "\<forall>m\<in>set samples. ms_data m \<noteq> [] \<and> length (ms_data m) < 2 ^ 31
      \<and> nal_f (hd (ms_data m)) = 0 \<and> nal_nut (hd (ms_data m)) \<le> NUT_RESERVED_23"
  shows "\<exists>pkts info. Rfc6184Packetiser_packetise cp samples pk = Some (Inr (pkts, pk\<lparr>pk_vLastPacketisationInfo := info\<rparr>))
    \<and> carries (unat (pk_uiBytesAvailableForPayload pk)) (map rp_rtpPayload pkts) (map ms_data samples)"
proof -
  define pk1 where "pk1 = pk\<lparr>pk_vLastPacketisationInfo := replicate (length samples) []\<rparr>"
  obtain pkts info where "non_interleaved_loop cp pk1 samples 0 [] (pk_vLastPacketisationInfo pk1) = Some (Inr (pkts, info))"
    "carries (unat (pk_uiBytesAvailableForPayload pk)) (map rp_rtpPayload pkts) (map ms_data samples)"
    using copy_stream.non_interleaved_ok [OF assms(1), of pk1 samples 0 "[]" "pk_vLastPacketisationInfo pk1"] assms(3-5)
    by (auto simp: pk1_def)
  then show ?thesis using assms(2) by (auto simp: Rfc6184Packetiser_packetise_def packetiseNonInterleaved_def pk1_def)
qed

lemma carried_group_depacketized:
  assumes "copy_stream cp obits ibits" and "carries B pls ds" and "pk_eMode pk = NON_INTERLEAVED_MODE"
    and "map rp_rtpPayload (pg_rtpPacketList g) = pls" and "numbered sn (pg_rtpPacketList g)"
  shows "\<exists>ms. Rfc6184Packetiser_depacketize cp uninit pk g = Some (Inr ms) \<and> map ms_data ms = ds
    \<and> (\<forall>m\<in>set ms. ms_tPresentation m = pg_tPresentation g \<and> ms_bMarker m = pg_bRtcpSynchronised g)"
proof -
  obtain ms where "depacketize_loop cp uninit g (pg_rtpPacketList g) [] = Some (Inr ms)" "map ms_data ms = ds"
    "\<forall>m\<in>set ms. ms_tPresentation m = pg_tPresentation g"
    using copy_stream.carries_depacketized [OF assms(1,2,4,5), of uninit g "[]"] by auto
  then show ?thesis using assms(3)
    by (intro exI [of _ "map (\<lambda>m. m\<lparr>ms_bMarker := pg_bRtcpSynchronised g\<rparr>) ms"])
      (simp add: Rfc6184Packetiser_depacketize_def depacketizeNonInterleaved_def comp_def)
qed

section \<open>Properties\<close>

text \<open>
  C5: An access unit survives the network. In non-interleaved mode, the NAL units of an access unit, of any number and
  size, are packetised into packets that fit the limit; when these packets arrive in any order and any number of times
  each, and are collected in a packet group, the depacketiser gives back exactly the NAL units, in their order, with the
  presentation time of the group.
\<close>

theorem h264_access_unit_roundtrip:
  assumes "copy_stream cp obits ibits" and "pk_eMode pk = NON_INTERLEAVED_MODE"
    and "2 < unat (pk_uiBytesAvailableForPayload pk)" and "unat (pk_uiBytesAvailableForPayload pk) < 65536"
    and "\<forall>m\<in>set samples. ms_data m \<noteq> [] \<and> length (ms_data m) < 2 ^ 31
      \<and> nal_f (hd (ms_data m)) = 0 \<and> nal_nut (hd (ms_data m)) \<le> NUT_RESERVED_23"
  shows "\<exists>pkts pk'. Rfc6184Packetiser_packetise cp samples pk = Some (Inr (pkts, pk'))
    \<and> (\<forall>p\<in>set pkts. length (rp_rtpPayload p) \<le> unat (pk_uiBytesAvailableForPayload pk)) \<and> (samples \<noteq> [] \<longrightarrow> pkts \<noteq> [])
    \<and> length pkts \<le> (\<Sum>m\<leftarrow>samples. length (ms_data m))
    \<and> (\<forall>sn p arrivals. set (p # arrivals) = set (numbered_from sn pkts) \<and> sint sn + int (length pkts) < 2 ^ 31 \<and> length pkts < 2 ^ 31 \<longrightarrow>
         (\<exists>ms. Rfc6184Packetiser_depacketize cp uninit pk'
                 (fold (\<lambda>p g. snd (RtpPacketGroup_insert p g)) arrivals (RtpPacketGroup_create p tPresentation b tPlayout)) = Some (Inr ms)
            \<and> map ms_data ms = map ms_data samples \<and> (\<forall>m\<in>set ms. ms_tPresentation m = tPresentation \<and> ms_bMarker m = b)))"
proof -
  let ?B = "unat (pk_uiBytesAvailableForPayload pk)"
  obtain pkts info where p: "Rfc6184Packetiser_packetise cp samples pk = Some (Inr (pkts, pk\<lparr>pk_vLastPacketisationInfo := info\<rparr>))"
    and c: "carries ?B (map rp_rtpPayload pkts) (map ms_data samples)" using packetised_carries [OF assms] by blast
  let ?pk = "pk\<lparr>pk_vLastPacketisationInfo := info\<rparr>"
  have fit: "\<forall>p\<in>set pkts. length (rp_rtpPayload p) \<le> ?B" using carries_bound [OF c] by simp
  have count: "length pkts \<le> (\<Sum>m\<leftarrow>samples. length (ms_data m))" using carries_count [OF c] by (simp add: comp_def)
  have ne: "samples \<noteq> [] \<longrightarrow> pkts \<noteq> []" using carries_nonempty [OF c] by auto
  have d: "\<exists>ms. Rfc6184Packetiser_depacketize cp uninit ?pk
          (fold (\<lambda>p g. snd (RtpPacketGroup_insert p g)) arrivals (RtpPacketGroup_create p tPresentation b tPlayout)) = Some (Inr ms)
        \<and> map ms_data ms = map ms_data samples \<and> (\<forall>m\<in>set ms. ms_tPresentation m = tPresentation \<and> ms_bMarker m = b)"
    if arr: "set (p # arrivals) = set (numbered_from sn pkts)" "sint sn + int (length pkts) < 2 ^ 31" "length pkts < 2 ^ 31" for sn p arrivals
  proof -
    define g where "g = fold (\<lambda>p g. snd (RtpPacketGroup_insert p g)) arrivals (RtpPacketGroup_create p tPresentation b tPlayout)"
    have g: "pg_rtpPacketList g = numbered_from sn pkts" "pg_tPresentation g = tPresentation" "pg_bRtcpSynchronised g = b"
      unfolding g_def using group_restores_order [OF arr] insert_run_packets insert_run_synchronised
      by (simp_all add: RtpPacketGroup_create_def)
    then show ?thesis
      using carried_group_depacketized [OF assms(1) c, of ?pk g sn uninit] assms(2) unfolding g_def [symmetric]
      by (simp add: numbered_numbered_from)
  qed
  show ?thesis using p fit ne count d by (intro exI [of _ pkts] exI [of _ ?pk]) blast
qed

definition nal_sample :: "bytes \<Rightarrow> bool \<Rightarrow> MediaSample" where
  "nal_sample bs bMarker = (MediaSample_new 0)\<lparr>ms_data := bs, ms_bMarker := bMarker\<rparr>"

definition sample_packetiser :: Rfc6184Packetiser where
  "sample_packetiser = \<lparr>pk_eMode = NON_INTERLEAVED_MODE, pk_uiMtu = 50, pk_uiBytesAvailableForPayload = 10, pk_uiSessionBandwidthKbps = 0,
     pk_uiEstimatedFrameSize = 10000, pk_bDisableStap = False, pk_vLastPacketisationInfo = []\<rparr>"

text \<open>A parameter set and another, which are aggregated, and a picture in three fragments; the packets arrive backwards, the last one twice.\<close>

definition sample_unit :: "MediaSample list" where
  "sample_unit = [nal_sample [0x67, 1] False, nal_sample [0x68, 2, 3] False, nal_sample (0x65 # replicate 20 7) True]"

theorem h264_access_unit_roundtrip_witness:
  "\<exists>pkts pk' p arrivals ms. Rfc6184Packetiser_packetise bitlist_copy sample_unit sample_packetiser = Some (Inr (pkts, pk'))
     \<and> rev (numbered_from 65534 pkts) = p # arrivals
     \<and> Rfc6184Packetiser_depacketize bitlist_copy 0 pk'
          (fold (\<lambda>p g. snd (RtpPacketGroup_insert p g)) (arrivals @ [p]) (RtpPacketGroup_create p (Some 5) True None)) = Some (Inr ms)
     \<and> map ms_data ms = [[0x67, 1], [0x68, 2, 3], 0x65 # replicate 20 7]"
proof -
  have u: "\<forall>m\<in>set sample_unit. ms_data m \<noteq> [] \<and> length (ms_data m) < 2 ^ 31 \<and> nal_f (hd (ms_data m)) = 0 \<and> nal_nut (hd (ms_data m)) \<le> NUT_RESERVED_23"
    by (simp add: sample_unit_def nal_sample_def nal_f_def nal_nut_def NUT_RESERVED_23_def)
  have pk: "pk_eMode sample_packetiser = NON_INTERLEAVED_MODE" "2 < unat (pk_uiBytesAvailableForPayload sample_packetiser)"
    "unat (pk_uiBytesAvailableForPayload sample_packetiser) < 65536" by (simp_all add: sample_packetiser_def)
  from h264_access_unit_roundtrip [OF bitlist_copy.copy_stream_axioms pk u, of 0 "Some 5" True None] obtain pkts pk' where
    p: "Rfc6184Packetiser_packetise bitlist_copy sample_unit sample_packetiser = Some (Inr (pkts, pk'))"
      "sample_unit \<noteq> [] \<longrightarrow> pkts \<noteq> []" "length pkts \<le> (\<Sum>m\<leftarrow>sample_unit. length (ms_data m))"
    and d: "\<And>sn p arrivals. set (p # arrivals) = set (numbered_from sn pkts) \<and> sint sn + int (length pkts) < 2 ^ 31 \<and> length pkts < 2 ^ 31 \<Longrightarrow>
      \<exists>ms. Rfc6184Packetiser_depacketize bitlist_copy 0 pk'
          (fold (\<lambda>p g. snd (RtpPacketGroup_insert p g)) arrivals (RtpPacketGroup_create p (Some 5) True None)) = Some (Inr ms)
        \<and> map ms_data ms = map ms_data sample_unit" by meson
  have len: "length pkts \<le> 26" "pkts \<noteq> []" using p(2,3) by (simp_all add: sample_unit_def nal_sample_def)
  then have "rev (numbered_from 65534 pkts) \<noteq> []" by (cases pkts) simp_all
  then obtain q arrivals where a: "rev (numbered_from 65534 pkts) = q # arrivals" by (cases "rev (numbered_from 65534 pkts)") auto
  have "set (q # arrivals @ [q]) = set (numbered_from 65534 pkts)" using arg_cong [OF a, of set] by auto
  moreover have "sint (65534 :: u32) + int (length pkts) < 2 ^ 31 \<and> length pkts < 2 ^ 31" using len(1) by simp
  ultimately obtain ms where m: "Rfc6184Packetiser_depacketize bitlist_copy 0 pk'
      (fold (\<lambda>p g. snd (RtpPacketGroup_insert p g)) (arrivals @ [q]) (RtpPacketGroup_create q (Some 5) True None)) = Some (Inr ms)"
    "map ms_data ms = map ms_data sample_unit" using d [of q "arrivals @ [q]" 65534] by blast
  show ?thesis using p(1) a m(1) m(2) unfolding sample_unit_def nal_sample_def
    by (intro exI [of _ pkts] exI [of _ pk'] exI [of _ q] exI [of _ arrivals] exI [of _ ms]) simp
qed

end
