(* ===== verification/Session_Manager.thy ===== *)
theory Session_Manager
  imports Transmission_Manager H264_Round_Trip
begin

text \<open>
  The single path of a session between the payload format and the network: the headers a session gives the packets of a
  sample (\<open>RtpSession.cpp\<close>, \<open>rfc6051/Rfc6051.cpp\<close>), and the session manager (\<open>RtpSessionManager.cpp\<close>) that feeds arriving packets to the
  feedback manager and the playout buffer, hands out media samples when a playout timer fires, makes feedback packets and answers
  them. The playout buffer, the payload format and the scheduler are arguments; calls of the scheduler and of the application, and timers, are
  values of an output list. The scheduler is in place (it is created when the session starts).
\<close>

unbundle bit_operations_syntax

section \<open>Outgoing packets\<close>

datatype RapidSyncMode = RS_NONE | RS_EVERY_SAMPLE | RS_EVERY_RTP_PACKET

definition RTP_SYNC_HEADER_EXT_64_LENGTH :: nat where "RTP_SYNC_HEADER_EXT_64_LENGTH = 8"

definition RtpSynchronisationExtensionHeader_create :: "('i, 'o) bit_io \<Rightarrow> u32 \<Rightarrow> u32 \<Rightarrow> u32 \<Rightarrow> fault + HeaderExtensionElement" where
  "RtpSynchronisationExtensionHeader_create io uiRtpSyncExtMapId uiNtpTimestampMsw uiNtpTimestampLsw =
     HeaderExtensionElement_create (unat uiRtpSyncExtMapId) RTP_SYNC_HEADER_EXT_64_LENGTH
       (ob_str io (writes io [(unat uiNtpTimestampMsw, 32), (unat uiNtpTimestampLsw, 32)] (ob_new io)))"

definition parseRtpSynchronisationExtensionHeader :: "('i, 'o) bit_io \<Rightarrow> HeaderExtensionElement \<Rightarrow> u64 option" where
  "parseRtpSynchronisationExtensionHeader io headerExtension =
     (if he_uiLength headerExtension = of_nat RTP_SYNC_HEADER_EXT_64_LENGTH
      then (case reads_ok io [(0, 32), (0, 32)] (ib_open io (he_data headerExtension)) of
              (None, _) \<Rightarrow> None
            | (Some v, _) \<Rightarrow> Some (ntp_join (of_nat (v ! 0)) (of_nat (v ! 1))))
      else None)"

text \<open>Only a time whose two halves are both not zero is sent.\<close>

definition add_sync_header :: "('i, 'o) bit_io \<Rightarrow> u32 \<Rightarrow> u32 \<Rightarrow> u32 \<Rightarrow> RtpPacket \<Rightarrow> fault + RtpPacket" where
  "add_sync_header io uiId uiNtpMws uiNtpLws p =
     (if uiNtpMws \<noteq> 0 \<and> uiNtpLws \<noteq> 0
      then map_sum id (\<lambda>e. p\<lparr>rp_header := addRtpHeaderExtension e (rp_header p)\<rparr>) (RtpSynchronisationExtensionHeader_create io uiId uiNtpMws uiNtpLws)
      else Inr p)"

definition set_header :: "u32 \<Rightarrow> RtpSessionState \<Rightarrow> RtpPacket \<Rightarrow> RtpPacket \<times> RtpSessionState" where
  "set_header uiRtpTimestamp st p =
     (case getNextSequenceNumber st of (uiSN, st1) \<Rightarrow>
        (p\<lparr>rp_header := setSSRC (ss_uiSSRC st) (setRtpTimestamp uiRtpTimestamp (setSequenceNumber uiSN
             (setPayloadType (ss_uiCurrentPayloadType st) (rp_header p))))\<rparr>, st1))"

fun set_headers ::
  "('i, 'o) bit_io \<Rightarrow> RapidSyncMode \<Rightarrow> u32 \<Rightarrow> u32 \<Rightarrow> u32 \<Rightarrow> u32 \<Rightarrow> RtpPacket list \<Rightarrow> RtpSessionState \<Rightarrow> fault + (RtpPacket list \<times> RtpSessionState)" where
  "set_headers io eMode uiId uiRtpTimestamp uiNtpMws uiNtpLws [] st = Inr ([], st)"
| "set_headers io eMode uiId uiRtpTimestamp uiNtpMws uiNtpLws (p # ps) st =
     (case set_header uiRtpTimestamp st p of (p1, st1) \<Rightarrow>
        case (if eMode = RS_EVERY_RTP_PACKET then add_sync_header io uiId uiNtpMws uiNtpLws p1 else Inr p1) of
          Inl f \<Rightarrow> Inl f
        | Inr p2 \<Rightarrow> map_sum id (apfst ((#) p2)) (set_headers io eMode uiId uiRtpTimestamp uiNtpMws uiNtpLws ps st1))"

definition setRtpHeaderValues ::
  "('i, 'o) bit_io \<Rightarrow> RapidSyncMode \<Rightarrow> u32 \<Rightarrow> u32 \<Rightarrow> u32 \<Rightarrow> u32 \<Rightarrow> RtpPacket list \<Rightarrow> RtpSessionState \<Rightarrow> fault + (RtpPacket list \<times> RtpSessionState)" where
  "setRtpHeaderValues io eMode uiId uiRtpTimestamp uiNtpMws uiNtpLws rtpPackets st =
     (case set_headers io eMode uiId uiRtpTimestamp uiNtpMws uiNtpLws rtpPackets st of
        Inl f \<Rightarrow> Inl f
      | Inr (ps, st1) \<Rightarrow>
          if eMode = RS_EVERY_SAMPLE
          then (case ps of
                  [] \<Rightarrow> Inr (ps, st1)
                | p # qs \<Rightarrow> map_sum id (\<lambda>p1. (p1 # qs, st1)) (add_sync_header io uiId uiNtpMws uiNtpLws p))
          else Inr (ps, st1))"

datatype RtpSessionPhase = SS_STOPPED | SS_STARTED | SS_SHUTTING_DOWN

text \<open>What a session keeps of the last access unit.\<close>

record RtpSession =
  rs_state :: RtpSessionPhase
  rs_rtpSessionState :: RtpSessionState
  rs_eRapidSyncMode :: RapidSyncMode
  rs_uiRapidSyncExtmapId :: u32
  rs_uiLastAUStartSN :: u16
  rs_uiLastAUPacketCount :: u32

definition RtpSession_doPacketise ::
  "('i, 'o) bit_io \<Rightarrow> (MediaSample list \<Rightarrow> 'p \<Rightarrow> (fault + (RtpPacket list \<times> 'p)) option) \<Rightarrow> MediaSample list \<Rightarrow> u32 \<Rightarrow> u32 \<Rightarrow> u32 \<Rightarrow> 'p \<Rightarrow> RtpSession \<Rightarrow>
     (fault + (RtpPacket list \<times> 'p \<times> RtpSession)) option" where
  "RtpSession_doPacketise io payloadPacketise vMediaSamples uiRtpTimestamp uiNtpMws uiNtpLws pk rs =
     (if rs_state rs = SS_STARTED
      then if vMediaSamples = [] then Some (Inl Assertion_failed)
           else case payloadPacketise vMediaSamples pk of
             None \<Rightarrow> None
           | Some (Inl f) \<Rightarrow> Some (Inl f)
           | Some (Inr (ps, pk1)) \<Rightarrow>
               Some (map_sum id (\<lambda>(qs, st). (qs, pk1, rs\<lparr>rs_rtpSessionState := st,
                         rs_uiLastAUStartSN := (case qs of [] \<Rightarrow> rs_uiLastAUStartSN rs | q # _ \<Rightarrow> ucast (getSequenceNumber q)),
                         rs_uiLastAUPacketCount := (if qs = [] then rs_uiLastAUPacketCount rs else of_nat (length qs))\<rparr>))
                       (setRtpHeaderValues io (rs_eRapidSyncMode rs) (rs_uiRapidSyncExtmapId rs) uiRtpTimestamp uiNtpMws uiNtpLws ps (rs_rtpSessionState rs)))
      else Some (Inr ([], pk, rs)))"

definition getRtpPacketisationInfo :: "nat list list \<Rightarrow> RtpSession \<Rightarrow> u16 list list" where
  "getRtpPacketisationInfo vInfo rs = map (map (\<lambda>k. rs_uiLastAUStartSN rs + of_nat k)) vInfo"

section \<open>The session manager\<close>

record 'b RtpSessionManager =
  rsm_state :: RtpSessionState
  rsm_parameters :: RtpSessionParameters
  rsm_pTxManager :: TransmissionManager
  rsm_pFeedbackManager :: "FeedbackManager option"
  rsm_pReceiverBuffer :: 'b
  rsm_mPlayoutTimers :: "nat list"
  rsm_bNackEnabled :: bool
  rsm_bAckEnabled :: bool
  rsm_bAnalyse :: bool
  rsm_uiLastReceived :: u32
  rsm_mRtxDurationMap :: "u16 \<rightharpoonup> int"
  rsm_vSequenceNumbers :: "u32 list"
  rsm_vDiscards :: "u32 list"
  rsm_vLateness :: "u32 list"
  rsm_bMediaCallback :: bool
  rsm_qOutgoing :: "MediaSample list list"

datatype manager_out = ScheduleRtxPacket mp_packet | SchedulerIncomingRtp mp_packet | SchedulerFeedback feedback_packet
  | ScheduleEarlyFeedback u16 | PlayoutTimer nat ptime | MediaCallback "MediaSample list" | Notification
  | AckCallback "u16 list" | NackCallback "u16 list" | StoreTimers "tx_out list"

definition isRtxPayloadType :: "u8 \<Rightarrow> RtpSessionParameters \<Rightarrow> bool" where
  "isRtxPayloadType uiPt par \<longleftrightarrow> uiPt = sp_uiRtxPt par"

subsection \<open>Arriving packets\<close>

definition onPacketAssumedLost :: "u32 \<Rightarrow> manager_out" where
  "onPacketAssumedLost uiSN = ScheduleEarlyFeedback (ucast uiSN)"

definition incoming_original :: "mp_packet \<Rightarrow> 'b RtpSessionManager \<Rightarrow> fault + (manager_out list \<times> 'b RtpSessionManager)" where
  "incoming_original rtpPacket m =
     map_sum id (\<lambda>(out, fm). (out, m\<lparr>rsm_pFeedbackManager := fm,
                   rsm_pTxManager := TransmissionManager_onPacketReceived (fst rtpPacket) (rsm_pTxManager m)\<rparr>))
       (if isRetransmissionEnabled (rsm_parameters m)
        then (case rsm_pFeedbackManager m of
                None \<Rightarrow> Inl Assertion_failed
              | Some fm \<Rightarrow>
                  (case FeedbackManager_onPacketArrival (rp_tArrival (fst rtpPacket)) (getExtendedSequenceNumber (fst rtpPacket)) fm of
                     (fm1, losses) \<Rightarrow> Inr (map onPacketAssumedLost losses, Some fm1)))
        else Inr ([], rsm_pFeedbackManager m))"

definition incoming_retransmission ::
  "('i, 'o) bit_io \<Rightarrow> (nat \<Rightarrow> u8) \<Rightarrow> mp_packet \<Rightarrow> 'b RtpSessionManager \<Rightarrow> fault + (manager_out list \<times> 'b RtpSessionManager)" where
  "incoming_retransmission io beyond rtpPacket m =
     (let restored = processRetransmission io beyond rtpPacket;
          m1 = m\<lparr>rsm_pTxManager := TransmissionManager_onPacketReceived (fst restored) (rsm_pTxManager m)\<rparr>
      in case rsm_pFeedbackManager m1 of
           None \<Rightarrow> Inr ([], m1)
         | Some fm \<Rightarrow> map_sum id (\<lambda>fm1. ([], m1\<lparr>rsm_pFeedbackManager := Some fm1\<rparr>))
                        (FeedbackManager_onRtxPacketArrival (rp_tArrival (fst rtpPacket)) (packet_SN restored) fm))"

text \<open>The packet that arrived goes into the buffer, in the case of a retransmission too. \<open>pTimer\<close> is the timer that is allocated.\<close>

definition buffer_packet ::
  "(int \<Rightarrow> RtpPacket \<Rightarrow> ptime \<Rightarrow> bool \<Rightarrow> 'b \<Rightarrow> fault + ptime \<times> AddResult \<times> 'b) \<Rightarrow> int \<Rightarrow> nat \<Rightarrow> RtpPacket \<Rightarrow> bool \<Rightarrow> ptime \<Rightarrow>
     'b RtpSessionManager \<Rightarrow> fault + (manager_out list \<times> 'b RtpSessionManager)" where
  "buffer_packet add tNow pTimer rtpPacket bRtcpSynchronised tPresentation m =
     (case add tNow rtpPacket tPresentation bRtcpSynchronised (rsm_pReceiverBuffer m) of
        Inl f \<Rightarrow> Inl f
      | Inr (tPlayout, r, b) \<Rightarrow>
          let uiLateMs = (case ar_uiLateMs r of None \<Rightarrow> 0 | Some n \<Rightarrow> n); uiSN = getExtendedSequenceNumber rtpPacket;
              m1 = m\<lparr>rsm_pReceiverBuffer := b\<rparr>;
              m2 = (if ar_bNewNode r then m1\<lparr>rsm_mPlayoutTimers := List.insert pTimer (rsm_mPlayoutTimers m1)\<rparr>
                    else if rsm_bAnalyse m1 \<and> uiLateMs \<noteq> 0
                    then m1\<lparr>rsm_vDiscards := rsm_vDiscards m1 @ [uiSN], rsm_vLateness := rsm_vLateness m1 @ [uiLateMs]\<rparr>
                    else m1)
          in Inr (if ar_bNewNode r then [PlayoutTimer pTimer tPlayout] else [],
                  if rsm_bAnalyse m2 then m2\<lparr>rsm_vSequenceNumbers := rsm_vSequenceNumbers m2 @ [uiSN]\<rparr> else m2))"

definition doHandleIncomingRtp ::
  "('i, 'o) bit_io \<Rightarrow> (nat \<Rightarrow> u8) \<Rightarrow> (int \<Rightarrow> RtpPacket \<Rightarrow> ptime \<Rightarrow> bool \<Rightarrow> 'b \<Rightarrow> fault + ptime \<times> AddResult \<times> 'b) \<Rightarrow>
     int \<Rightarrow> nat \<Rightarrow> mp_packet \<Rightarrow> bool \<Rightarrow> ptime \<Rightarrow> 'b RtpSessionManager \<Rightarrow> fault + (manager_out list \<times> 'b RtpSessionManager)" where
  "doHandleIncomingRtp io beyond add tNow pTimer rtpPacket bRtcpSynchronised tPresentation m =
     (case (if \<not> isRtxPayloadType (rh_uiPT (rp_header (fst rtpPacket))) (rsm_parameters m) then incoming_original rtpPacket m
            else incoming_retransmission io beyond rtpPacket m) of
        Inl f \<Rightarrow> Inl f
      | Inr (out, m1) \<Rightarrow>
          (case buffer_packet add tNow pTimer (fst rtpPacket) bRtcpSynchronised tPresentation m1 of
             Inl f \<Rightarrow> Inl f
           | Inr (out1, m2) \<Rightarrow> Inr (out @ SchedulerIncomingRtp rtpPacket # out1, m2)))"

subsection \<open>Playout\<close>

definition prepareSampleForOutput :: "MediaSample list \<Rightarrow> 'b RtpSessionManager \<Rightarrow> manager_out list \<times> 'b RtpSessionManager" where
  "prepareSampleForOutput vMediaSamples m =
     (if rsm_bMediaCallback m then ([MediaCallback vMediaSamples], m) else ([], m\<lparr>rsm_qOutgoing := rsm_qOutgoing m @ [vMediaSamples]\<rparr>))"

definition remove_timer :: "nat \<Rightarrow> manager_out list \<times> 'b RtpSessionManager \<Rightarrow> fault + (manager_out list \<times> 'b RtpSessionManager)" where
  "remove_timer pTimer r =
     (case r of (out, m) \<Rightarrow>
        if pTimer \<in> set (rsm_mPlayoutTimers m)
        then Inr (out @ [Notification], m\<lparr>rsm_mPlayoutTimers := filter (\<lambda>t. t \<noteq> pTimer) (rsm_mPlayoutTimers m)\<rparr>)
        else Inl Assertion_failed)"

definition onScheduledSampleTimeout ::
  "('b \<Rightarrow> fault + RtpPacketGroup \<times> 'b) \<Rightarrow> (RtpPacketGroup \<Rightarrow> (fault + MediaSample list) option) \<Rightarrow> bool \<Rightarrow> nat \<Rightarrow>
     'b RtpSessionManager \<Rightarrow> (fault + (manager_out list \<times> 'b RtpSessionManager)) option" where
  "onScheduledSampleTimeout next_node payloadDepacketise bAborted pTimer m =
     (if bAborted then Some (remove_timer pTimer ([], m))
      else case next_node (rsm_pReceiverBuffer m) of
        Inl f \<Rightarrow> Some (Inl f)
      | Inr (node, b) \<Rightarrow>
          (case payloadDepacketise node of
             None \<Rightarrow> None
           | Some (Inl f) \<Rightarrow> Some (Inl f)
           | Some (Inr vSamples) \<Rightarrow>
               let m1 = m\<lparr>rsm_pReceiverBuffer := b\<rparr>
               in Some (remove_timer pTimer (if vSamples \<noteq> [] then prepareSampleForOutput vSamples m1 else ([], m1)))))"

definition isSampleAvailable :: "'b RtpSessionManager \<Rightarrow> bool" where
  "isSampleAvailable m \<longleftrightarrow> rsm_qOutgoing m \<noteq> []"

definition getNextSample :: "'b RtpSessionManager \<Rightarrow> MediaSample list \<times> 'b RtpSessionManager" where
  "getNextSample m = (case rsm_qOutgoing m of [] \<Rightarrow> ([], m) | v # vs \<Rightarrow> (v, m\<lparr>rsm_qOutgoing := vs\<rparr>))"

subsection \<open>Feedback\<close>

definition MAX_RTX :: nat where "MAX_RTX = 30"

definition MAX_PER_GENERIC_ACK :: nat where "MAX_PER_GENERIC_ACK = 17"

text \<open>\<open>onRtxRequested\<close> is called on the interface, whose method is not virtual and empty.\<close>

definition nack_feedback :: "int \<Rightarrow> 'b RtpSessionManager \<Rightarrow> fault + (feedback_packet list \<times> 'b RtpSessionManager)" where
  "nack_feedback tNow m =
     (if \<not> rsm_bNackEnabled m then Inr ([], m)
      else case rsm_pFeedbackManager m of
        None \<Rightarrow> Inl Null_dereference
      | Some fm \<Rightarrow>
          (case getAssumedLost fm of (vLost, fm1) \<Rightarrow>
             let m1 = m\<lparr>rsm_pFeedbackManager := Some fm1\<rparr>
             in if vLost = [] \<or> length vLost \<ge> MAX_RTX then Inr ([], m1)
                else Inr ([GenericNack (RtcpGenericNack_create32 vLost (ss_uiRemoteSSRC (rsm_state m)) (ss_uiSSRC (rsm_state m)))],
                       m1\<lparr>rsm_mRtxDurationMap := fold (\<lambda>sn d. if d (ucast sn) = None then d(ucast sn \<mapsto> tNow) else d) vLost (rsm_mRtxDurationMap m1)\<rparr>)))"

definition ack_feedback :: "u16 \<Rightarrow> 'b RtpSessionManager \<Rightarrow> feedback_packet list \<times> 'b RtpSessionManager" where
  "ack_feedback uUndefined m =
     (let vReceived = getLastNReceivedSequenceNumbers MAX_PER_GENERIC_ACK (rsm_pTxManager m)
      in if \<not> rsm_bAckEnabled m \<or> vReceived = [] \<or> last vReceived = rsm_uiLastReceived m then ([], m)
         else ([GenericAck (RtcpGenericAck_create uUndefined (map ucast vReceived) (ss_uiRemoteSSRC (rsm_state m)) (ss_uiSSRC (rsm_state m)))],
               m\<lparr>rsm_uiLastReceived := last vReceived\<rparr>))"

definition onFeedbackGeneration ::
  "u16 \<Rightarrow> int \<Rightarrow> feedback_packet list \<Rightarrow> 'b RtpSessionManager \<Rightarrow> fault + (feedback_packet list \<times> 'b RtpSessionManager)" where
  "onFeedbackGeneration uUndefined tNow schedulerFeedback m =
     (case nack_feedback tNow m of
        Inl f \<Rightarrow> Inl f
      | Inr (nacks, m1) \<Rightarrow> (case ack_feedback uUndefined m1 of (acks, m2) \<Rightarrow> Inr (nacks @ acks @ schedulerFeedback, m2)))"

fun retransmit :: "('i, 'o) bit_io \<Rightarrow> u16 list \<Rightarrow> TransmissionManager \<Rightarrow> RtpSessionState \<Rightarrow> mp_packet list \<times> RtpSessionState" where
  "retransmit io [] tm st = ([], st)"
| "retransmit io (sn # sns) tm st =
     (case generateRetransmissionPacket io sn tm st of (p, st1) \<Rightarrow>
        apfst ((@) (case p of None \<Rightarrow> [] | Some q \<Rightarrow> [q])) (retransmit io sns tm st1))"

definition handleNacks :: "('i, 'o) bit_io \<Rightarrow> int \<Rightarrow> u16 list \<Rightarrow> 'b RtpSessionManager \<Rightarrow> manager_out list \<times> 'b RtpSessionManager" where
  "handleNacks io tNow nacks m =
     (let tm = TransmissionManager_nack tNow nacks (rsm_pTxManager m)
      in case retransmit io nacks tm (rsm_state m) of (ps, st) \<Rightarrow>
           (NackCallback nacks # map ScheduleRtxPacket ps, m\<lparr>rsm_pTxManager := tm, rsm_state := st\<rparr>))"

definition handleNacks_flow :: "('i, 'o) bit_io \<Rightarrow> u16 \<Rightarrow> u16 list \<Rightarrow> 'b RtpSessionManager \<Rightarrow> manager_out list \<times> 'b RtpSessionManager" where
  "handleNacks_flow io uiFlowId nacks m =
     (case retransmit io (List.map_filter (\<lambda>fssn. lookupSequenceNumber uiFlowId fssn (rsm_pTxManager m)) nacks) (rsm_pTxManager m) (rsm_state m) of
        (ps, st) \<Rightarrow> (map ScheduleRtxPacket ps, m\<lparr>rsm_state := st\<rparr>))"

definition handleAcks :: "int \<Rightarrow> u16 list \<Rightarrow> 'b RtpSessionManager \<Rightarrow> manager_out list \<times> 'b RtpSessionManager" where
  "handleAcks tNow acks m =
     (case TransmissionManager_ack tNow acks (rsm_pTxManager m) of (newlyAcked, tm) \<Rightarrow> ([AckCallback newlyAcked], m\<lparr>rsm_pTxManager := tm\<rparr>))"

definition doHandleFb :: "('i, 'o) bit_io \<Rightarrow> int \<Rightarrow> feedback_packet \<Rightarrow> 'b RtpSessionManager \<Rightarrow> manager_out list \<times> 'b RtpSessionManager" where
  "doHandleFb io tNow fb m =
     apfst (\<lambda>out. out @ [SchedulerFeedback fb])
       (case fb of
          GenericNack nack \<Rightarrow> handleNacks io tNow (gn_vNacks nack) m
        | ExtendedNack nack \<Rightarrow> handleNacks_flow io (xn_uiFlowId nack) (xn_vNacks nack) m
        | GenericAck ack \<Rightarrow> handleAcks tNow (ga_vAcks ack) m
        | ApplicationLayerFeedback _ \<Rightarrow> ([], m))"

definition doHandleOutgoingRtp :: "int \<Rightarrow> nat \<Rightarrow> mp_packet \<Rightarrow> 'b RtpSessionManager \<Rightarrow> manager_out list \<times> 'b RtpSessionManager" where
  "doHandleOutgoingRtp tNow pTimer rtpPacket m =
     (case storePacketForRetransmission tNow pTimer (rsm_state m) rtpPacket (rsm_pTxManager m) of
        (out, tm) \<Rightarrow> ([StoreTimers out], m\<lparr>rsm_pTxManager := tm\<rparr>))"

end
