(* ===== verification/Loss_Recovery.thy ===== *)
theory Loss_Recovery
  imports Session_Manager
begin

text \<open>
  How the parts of a session recover a lost packet: what a sender keeps (\<open>TransmissionManager.cpp\<close>) answers what a receiver
  asks for (\<open>rfc4585/FeedbackManager.cpp\<close>, \<open>RtpSessionManager.cpp\<close>) through the feedback packets of \<open>Rtcp_Feedback\<close>. The
  last section shows where the code of the path back, and of the circular buffer, falls short.
\<close>

unbundle bit_operations_syntax

section \<open>Packets that are kept\<close>

text \<open>A sender that sends the packets with the given numbers; the times and timers are functions of the number.\<close>

definition send_all :: "(nat \<Rightarrow> int) \<Rightarrow> (nat \<Rightarrow> nat) \<Rightarrow> (nat \<Rightarrow> RtpPacket) \<Rightarrow> nat list \<Rightarrow> 'b RtpSessionManager \<Rightarrow> 'b RtpSessionManager" where
  "send_all tSent timer pkt ns a = fold (\<lambda>n a. snd (doHandleOutgoingRtp (tSent n) (timer n) (pkt n, None) a)) ns a"

definition holds_packet :: "u16 \<Rightarrow> RtpPacket \<Rightarrow> TransmissionManager \<Rightarrow> bool" where
  "holds_packet sn p tm \<longleftrightarrow> map_option pi_originalRtpPacket (tm_mTxMap tm sn) = Some (p, None) \<and> tm_mSnMap tm = []"

lemma packet_SN_header [simp]: "packet_SN (p, sf) = rh_uiSN (rp_header p)"
  by (simp add: packet_SN_def getSequenceNumber_def unsigned_ucast_eq take_bit_word_eq_self)

lemma original_created [simp]: "pi_originalRtpPacket (RtpPacketInfo_create t p) = p"
  by (simp add: RtpPacketInfo_create_def)

lemma insert_kept:
  "tm_mTxMap (insertPacketIntoTxBuffer t (p, None) tm) =
     (let sn = rh_uiSN (rp_header p) in (tm_mTxMap tm)(sn := (case tm_mTxMap tm sn of None \<Rightarrow> Some (RtpPacketInfo_create t (p, None)) | Some i \<Rightarrow> Some i)))"
  "tm_mSnMap (insertPacketIntoTxBuffer t (p, None) tm) = tm_mSnMap tm" "tm_eMode (insertPacketIntoTxBuffer t (p, None) tm) = tm_eMode tm"
  by (auto simp: insertPacketIntoTxBuffer_def Let_def split: option.split)

lemma outgoing_kept:
  assumes "tm_eMode (rsm_pTxManager a) \<noteq> CIRCULAR_MODE" and "rh_uiPT (rp_header p) \<noteq> ss_uiRtxPayloadType (rsm_state a)"
  shows "rsm_state (snd (doHandleOutgoingRtp t k (p, None) a)) = rsm_state a"
    "tm_eMode (rsm_pTxManager (snd (doHandleOutgoingRtp t k (p, None) a))) = tm_eMode (rsm_pTxManager a)"
    "tm_mSnMap (rsm_pTxManager (snd (doHandleOutgoingRtp t k (p, None) a))) = tm_mSnMap (rsm_pTxManager a)"
    "tm_mTxMap (rsm_pTxManager (snd (doHandleOutgoingRtp t k (p, None) a))) = tm_mTxMap (insertPacketIntoTxBuffer t (p, None) (rsm_pTxManager a))"
  using assms by (cases "tm_eMode (rsm_pTxManager a)";
      simp add: doHandleOutgoingRtp_def storePacketForRetransmission_def Let_def insert_kept)+

definition numbered_packets :: "nat \<Rightarrow> nat \<Rightarrow> u8 \<Rightarrow> (nat \<Rightarrow> RtpPacket) \<Rightarrow> bool" where
  "numbered_packets x y rtx pkt \<longleftrightarrow> y \<le> x + 65536 \<and> (\<forall>n\<in>{x..<y}. rh_uiSN (rp_header (pkt n)) = of_nat n \<and> rh_uiPT (rp_header (pkt n)) \<noteq> rtx)"

lemma u16_of_nat_near:
  assumes "m \<le> n" and "n < m + 65536" and "(of_nat m :: u16) = of_nat n"
  shows "m = n"
proof -
  have "n mod 65536 = m mod 65536" using arg_cong [OF assms(3), of unat] by (simp add: unsigned_of_nat take_bit_eq_mod)
  then have "65536 dvd n - m" using mod_eq_dvd_iff_nat [OF assms(1), of 65536] by simp
  then have "n - m = 0" using nat_dvd_not_less [of "n - m" 65536] assms(2) by linarith
  then show ?thesis using assms(1) by simp
qed

lemma u16_of_nat_inj_on: "y \<le> x + 65536 \<Longrightarrow> inj_on (of_nat :: nat \<Rightarrow> u16) {x..<y}"
proof (rule linorder_inj_onI)
  fix m n :: nat
  assume y: "y \<le> x + 65536" and mn: "m < n" "m \<in> {x..<y}" "n \<in> {x..<y}"
  then have "n < m + 65536" by simp
  then show "(of_nat m :: u16) \<noteq> of_nat n" using u16_of_nat_near [of m n] mn(1) by force
qed auto

lemma sent_kept:
  assumes "numbered_packets x y (ss_uiRtxPayloadType (rsm_state a)) pkt" and "tm_eMode (rsm_pTxManager a) \<noteq> CIRCULAR_MODE"
    and "tm_mTxMap (rsm_pTxManager a) = Map.empty" and "tm_mSnMap (rsm_pTxManager a) = []" and "x \<le> z" and "z \<le> y"
    and "a1 = send_all tSent timer pkt [x..<z] a"
  shows "rsm_state a1 = rsm_state a \<and> tm_eMode (rsm_pTxManager a1) = tm_eMode (rsm_pTxManager a) \<and> tm_mSnMap (rsm_pTxManager a1) = []
    \<and> dom (tm_mTxMap (rsm_pTxManager a1)) \<subseteq> of_nat ` {x..<z} \<and> (\<forall>n\<in>{x..<z}. holds_packet (of_nat n) (pkt n) (rsm_pTxManager a1))"
  using assms(5,6) unfolding assms(7)
proof (induction z rule: dec_induct)
  case base
  then show ?case using assms(3,4) by (simp add: send_all_def)
next
  case (step z)
  let ?a = "send_all tSent timer pkt [x..<z] a"
  have IH: "rsm_state ?a = rsm_state a" "tm_eMode (rsm_pTxManager ?a) = tm_eMode (rsm_pTxManager a)" "tm_mSnMap (rsm_pTxManager ?a) = []"
    "dom (tm_mTxMap (rsm_pTxManager ?a)) \<subseteq> of_nat ` {x..<z}" "\<forall>n\<in>{x..<z}. holds_packet (of_nat n) (pkt n) (rsm_pTxManager ?a)"
    using step by simp_all
  have all: "send_all tSent timer pkt [x..<Suc z] a = snd (doHandleOutgoingRtp (tSent z) (timer z) (pkt z, None) ?a)"
    using step(1) by (simp add: send_all_def)
  have p: "rh_uiSN (rp_header (pkt z)) = of_nat z" "rh_uiPT (rp_header (pkt z)) \<noteq> ss_uiRtxPayloadType (rsm_state ?a)" "y \<le> x + 65536"
    using assms(1) step IH(1) by (simp_all add: numbered_packets_def)
  have fresh: "(of_nat z :: u16) \<notin> of_nat ` {x..<z}"
    using inj_on_subset [OF u16_of_nat_inj_on [OF p(3)], of "insert z {x..<z}"] step by (auto simp: inj_on_insert)
  then have "tm_mTxMap (rsm_pTxManager ?a) (of_nat z) = None" using IH(4) by auto
  then have map: "tm_mTxMap (rsm_pTxManager (send_all tSent timer pkt [x..<Suc z] a)) =
      (tm_mTxMap (rsm_pTxManager ?a))(of_nat z \<mapsto> RtpPacketInfo_create (tSent z) (pkt z, None))"
    unfolding all using outgoing_kept(4) [of ?a "pkt z" "tSent z" "timer z"] IH(2) p(1,2) assms(2) by (simp add: insert_kept Let_def)
  have rest: "rsm_state (send_all tSent timer pkt [x..<Suc z] a) = rsm_state a"
    "tm_eMode (rsm_pTxManager (send_all tSent timer pkt [x..<Suc z] a)) = tm_eMode (rsm_pTxManager a)"
    "tm_mSnMap (rsm_pTxManager (send_all tSent timer pkt [x..<Suc z] a)) = []"
    unfolding all using outgoing_kept(1-3) [of ?a "pkt z" "tSent z" "timer z"] IH(1-3) p(2) assms(2) by simp_all
  have "holds_packet (of_nat n) (pkt n) (rsm_pTxManager (send_all tSent timer pkt [x..<Suc z] a))" if n: "n \<in> {x..<Suc z}" for n
  proof (cases "n = z")
    case False
    then have i: "n \<in> {x..<z}" using n by auto
    then have "(of_nat n :: u16) \<in> of_nat ` {x..<z}" by (rule imageI)
    then have "(of_nat n :: u16) \<noteq> of_nat z" using fresh by auto
    then show ?thesis using IH(5) i unfolding holds_packet_def map rest by simp
  qed (unfold holds_packet_def map rest, simp)
  moreover have "dom (tm_mTxMap (rsm_pTxManager (send_all tSent timer pkt [x..<Suc z] a))) \<subseteq> of_nat ` {x..<Suc z}"
    unfolding map using IH(4) step(1) by (auto simp: atLeastLessThanSuc)
  ultimately show ?case using rest by simp
qed

section \<open>Packets that are asked for\<close>

definition sn_octets :: "u16 \<Rightarrow> bytes" where
  "sn_octets sn = [of_nat (unat sn div 256), of_nat (unat sn)]"

lemma bytes_bits_sn_octets: "bytes_bits (sn_octets sn) = to_bits 16 (unat sn)"
proof -
  have "unat sn div 256 < 256" using unsigned_less [of sn] by (simp add: less_mult_imp_div_less)
  then have u: "unat (of_nat (unat sn div 256) :: u8) = unat sn div 256" by (simp only: unsigned_of_nat) (simp add: take_bit_nat_eq_self)
  have l: "unat (of_nat (unat sn) :: u8) = unat sn mod 2 ^ 8" by (simp only: unsigned_of_nat take_bit_eq_mod) simp
  have "to_bits 16 (unat sn) = to_bits 8 (unat sn div 2 ^ 8) @ to_bits 8 (unat sn)" using to_bits_split [of 8 8 "unat sn"] by simp
  moreover have "to_bits 8 (unat sn mod 2 ^ 8) = to_bits 8 (unat sn)" using to_bits_of_bits [of "to_bits 8 (unat sn)"] by (simp add: of_bits_to_bits_mod)
  ultimately show ?thesis unfolding sn_octets_def by (simp del: to_bits_numeral of_nat_unat add: u l)
qed

definition rtx_packet :: "RtpSessionState \<Rightarrow> nat \<Rightarrow> RtpPacket \<Rightarrow> RtpPacket" where
  "rtx_packet st i p = (RtpPacket_create (setRtpTimestamp (getRtpTimestamp p) (setSSRC (ss_uiRtxSSRC st)
     (setSequenceNumber (ss_uiRtxSequenceNumber st + of_nat i) (setPayloadType (ss_uiRtxPayloadType st) (rp_header p))))))
     \<lparr>rp_rtpPayload := sn_octets (rh_uiSN (rp_header p)) @ rp_rtpPayload p\<rparr>"

context bit_stream
begin

lemma rtx_payload: "ob_str io (ob_writeBytes io (writes io [(unat sn, 16)] (ob_new io)) bs) = sn_octets (sn :: u16) @ bs"
proof (rule bytes_bits_inj)
  have "obits (ob_writeBytes io (writes io [(unat sn, 16)] (ob_new io)) bs) = to_bits 16 (unat sn) @ bytes_bits bs"
    using unsigned_less [of sn] by (simp add: writeBytes_bits writes_bits new_bits fields_bits_def fields_ok_def del: to_bits_numeral)
  then show "bytes_bits (ob_str io (ob_writeBytes io (writes io [(unat sn, 16)] (ob_new io)) bs)) = bytes_bits (sn_octets sn @ bs)"
    by (subst str_bits) (simp_all add: bytes_bits_sn_octets del: to_bits_numeral)
qed

lemma generated_packet:
  assumes "holds_packet sn p tm"
  shows "generateRetransmissionPacket io sn tm st = (Some (rtx_packet st 0 p, None), snd (getNextRtxSequenceNumber st))"
proof -
  obtain e where "tm_mTxMap tm sn = Some e" "pi_originalRtpPacket e = (p, None)" "tm_mSnMap tm = []"
    using assms by (auto simp: holds_packet_def)
  then show ?thesis by (simp add: generateRetransmissionPacket_def generateRtxPacketSsrcMultiplexing_def generateRtxPacket_def
        getNextRtxSequenceNumber_def rtx_packet_def rtx_payload)
qed

lemma retransmit_all:
  assumes "\<forall>n\<in>set ns. holds_packet (sn n) (pkt n) tm"
  shows "fst (retransmit io (map sn ns) tm st) = map2 (\<lambda>i n. (rtx_packet st i (pkt n), None)) [0..<length ns] ns"
  using assms
proof (induction ns arbitrary: st)
  case (Cons n ns)
  let ?st = "snd (getNextRtxSequenceNumber st)"
  have "rtx_packet ?st i p = rtx_packet st (Suc i) p" for i p by (simp add: rtx_packet_def getNextRtxSequenceNumber_def add.assoc)
  moreover have "[0..<length (n # ns)] = 0 # map Suc [0..<length ns]" by (simp add: map_Suc_upt upt_conv_Cons del: upt_Suc)
  ultimately show ?case using Cons generated_packet [of "sn n" "pkt n" tm st]
    by (simp add: zip_map1 comp_def case_prod_unfold del: upt_Suc split: prod.split)
qed simp

end

lemma nack_keeps: "holds_packet sn p (TransmissionManager_nack t sns tm) = holds_packet sn p tm"
  unfolding TransmissionManager_nack_def
  by (induction sns arbitrary: tm) (auto simp: holds_packet_def option.map_comp comp_def)

section \<open>Packets that arrive\<close>

text \<open>
  A receiver that gets the packets with the given numbers, the extended sequence number of which the member entry has set. Times, timers and
  synchronisation are functions of the number.
\<close>

definition arrived :: "(nat \<Rightarrow> int) \<Rightarrow> (nat \<Rightarrow> RtpPacket) \<Rightarrow> nat \<Rightarrow> RtpPacket" where
  "arrived tArrival pkt n = (pkt n)\<lparr>rp_tArrival := Some (tArrival n), rp_uiExtendedSequenceNumber := of_nat n\<rparr>"

fun receive_all ::
  "('i, 'o) bit_io \<Rightarrow> (nat \<Rightarrow> u8) \<Rightarrow> (int \<Rightarrow> RtpPacket \<Rightarrow> ptime \<Rightarrow> bool \<Rightarrow> 'b \<Rightarrow> fault + ptime \<times> AddResult \<times> 'b) \<Rightarrow>
     (nat \<Rightarrow> int) \<Rightarrow> (nat \<Rightarrow> nat) \<Rightarrow> (nat \<Rightarrow> bool \<times> ptime) \<Rightarrow> (nat \<Rightarrow> RtpPacket) \<Rightarrow> nat list \<Rightarrow> 'b RtpSessionManager \<Rightarrow> fault + 'b RtpSessionManager" where
  "receive_all io beyond add tArrival timer sync pkt [] b = Inr b"
| "receive_all io beyond add tArrival timer sync pkt (n # ns) b =
     (case doHandleIncomingRtp io beyond add (tArrival n) (timer n) (arrived tArrival pkt n, None) (fst (sync n)) (snd (sync n)) b of
        Inl f \<Rightarrow> Inl f
      | Inr (out, b1) \<Rightarrow> receive_all io beyond add tArrival timer sync pkt ns b1)"

lemma buffer_packet_keeps:
  assumes "buffer_packet add t k p s tp m = Inr (out, m')"
  shows "rsm_pFeedbackManager m' = rsm_pFeedbackManager m \<and> rsm_parameters m' = rsm_parameters m \<and> rsm_state m' = rsm_state m
    \<and> rsm_bNackEnabled m' = rsm_bNackEnabled m \<and> rsm_bAckEnabled m' = rsm_bAckEnabled m"
  using assms by (auto simp: buffer_packet_def Let_def split: sum.splits prod.splits if_splits)

lemma incoming_feedback:
  assumes "doHandleIncomingRtp io beyond add t k (arrived tA pkt n, None) s tp m = Inr (out, m')"
    and "\<not> isRtxPayloadType (rh_uiPT (rp_header (pkt n))) (rsm_parameters m)" and "isRetransmissionEnabled (rsm_parameters m)"
    and "rsm_pFeedbackManager m = Some fm"
  shows "rsm_pFeedbackManager m' = Some (fst (FeedbackManager_onPacketArrival (Some (tA n)) (of_nat n) fm)) \<and> rsm_parameters m' = rsm_parameters m
    \<and> rsm_state m' = rsm_state m \<and> rsm_bNackEnabled m' = rsm_bNackEnabled m \<and> rsm_bAckEnabled m' = rsm_bAckEnabled m"
proof -
  obtain fm1 losses where f: "FeedbackManager_onPacketArrival (Some (tA n)) (of_nat n) fm = (fm1, losses)"
    by (cases "FeedbackManager_onPacketArrival (Some (tA n)) (of_nat n) fm")
  obtain out1 where "buffer_packet add t k (arrived tA pkt n) s tp (m\<lparr>rsm_pFeedbackManager := Some fm1,
      rsm_pTxManager := TransmissionManager_onPacketReceived (arrived tA pkt n) (rsm_pTxManager m)\<rparr>) = Inr (out1, m')"
    using assms f by (auto simp: doHandleIncomingRtp_def incoming_original_def arrived_def getExtendedSequenceNumber_def split: sum.splits prod.splits)
  from buffer_packet_keeps [OF this] f show ?thesis by simp
qed

lemma receive_all_feedback:
  assumes "receive_all io beyond add tA k sync pkt ns m = Inr m'"
    and "\<forall>n\<in>set ns. \<not> isRtxPayloadType (rh_uiPT (rp_header (pkt n))) (rsm_parameters m)" and "isRetransmissionEnabled (rsm_parameters m)"
    and "rsm_pFeedbackManager m = Some fm"
  shows "rsm_pFeedbackManager m' = Some (snd (fb_run (map (\<lambda>n. Arrives (tA n) n) ns) fm)) \<and> rsm_state m' = rsm_state m
    \<and> rsm_bNackEnabled m' = rsm_bNackEnabled m \<and> rsm_bAckEnabled m' = rsm_bAckEnabled m"
  using assms
proof (induction ns arbitrary: m fm)
  case (Cons n ns)
  from Cons.prems(1) obtain out m1 where
    r: "doHandleIncomingRtp io beyond add (tA n) (k n) (arrived tA pkt n, None) (fst (sync n)) (snd (sync n)) m = Inr (out, m1)"
    and rest: "receive_all io beyond add tA k sync pkt ns m1 = Inr m'" by (auto split: sum.splits)
  have p: "\<not> isRtxPayloadType (rh_uiPT (rp_header (pkt n))) (rsm_parameters m)" using Cons.prems(2) by simp
  note f = incoming_feedback [OF r p Cons.prems(3,4)]
  from Cons.IH [OF rest] f Cons.prems(2,3) show ?case by simp
qed simp

lemma arrivals_map [simp]: "arrivals (map (\<lambda>n. Arrives (tA n) n) ns) = ns"
  by (induction ns) simp_all

section \<open>Feedback that is sent\<close>

lemma feedback_after_losses:
  assumes "receive_all io beyond add tA k sync pkt (n0 # ns) b = Inr b'"
    and "\<forall>n\<in>set (n0 # ns). \<not> isRtxPayloadType (rh_uiPT (rp_header (pkt n))) (rsm_parameters b)" and "isRetransmissionEnabled (rsm_parameters b)"
    and "rsm_pFeedbackManager b = Some (FeedbackManager_create True bAck True PT_SIMPLE)" and "rsm_bNackEnabled b" and "\<not> rsm_bAckEnabled b"
    and "n0 < 2 ^ 31" and "within_window n0 ns"
    and "0 < card ({n0..Max (set (n0 # ns))} - set (n0 # ns))" and "card ({n0..Max (set (n0 # ns))} - set (n0 # ns)) < MAX_RTX"
  shows "\<exists>ps b2. distinct ps \<and> set ps = {n0..Max (set (n0 # ns))} - set (n0 # ns)
    \<and> onFeedbackGeneration u tNow [] b' = Inr ([GenericNack (RtcpGenericNack_create (map of_nat ps) (ss_uiRemoteSSRC (rsm_state b)) (ss_uiSSRC (rsm_state b)))], b2)"
proof -
  let ?M = "Max (set (n0 # ns))" and ?fm = "FeedbackManager_create True bAck True PT_SIMPLE"
  let ?es = "map (\<lambda>n. Arrives (tA n) n) ns"
  have first: "manager_detects n0 n0 {n0} {} (fst (FeedbackManager_onPacketArrival (Some (tA n0)) (of_nat n0) ?fm))"
    by (rule manager_detects_first [OF assms(7)])
  have M: "fold max ns n0 = ?M" using Max.set_eq_fold [of n0 ns] by simp
  have nr: "fst (fb_run (map (\<lambda>n. Arrives (tA n) n) ns) m) = []" for ns m by (induction ns arbitrary: m) simp_all
  obtain rs m' where run: "fb_run ?es (fst (FeedbackManager_onPacketArrival (Some (tA n0)) (of_nat n0) ?fm)) = (map (map of_nat) rs, m')"
    and inv: "manager_detects n0 ?M (set (n0 # ns)) (set (concat rs)) m'"
    using fb_run_detects [OF first, of ?es] assms(8) by (auto simp: M)
  have "rs = []" using arg_cong [OF run, of fst] unfolding nr by simp
  then obtain ps where ps: "getAssumedLost m' = (map of_nat ps, m'\<lparr>fm_vAssumedLost := []\<rparr>)" "distinct ps" "set ps = {n0..?M} - set (n0 # ns)"
    using manager_detects_report [OF inv] by auto
  then have len: "length ps = card ({n0..?M} - set (n0 # ns))" using distinct_card [OF ps(2)] by (simp only:)
  have r: "rsm_pFeedbackManager b' = Some m'" "rsm_state b' = rsm_state b" "rsm_bNackEnabled b'" "\<not> rsm_bAckEnabled b'"
    using receive_all_feedback [OF assms(1-4)] run assms(5,6) by simp_all
  have "ps \<noteq> []" "length ps < MAX_RTX" using assms(9,10) unfolding len [symmetric] by auto
  moreover have "ucast (of_nat n :: u32) = (of_nat n :: u16)" for n by (simp add: unsigned_of_nat word_of_nat_eq_iff)
  ultimately show ?thesis using r ps
    by (intro exI [of _ ps]) (simp add: onFeedbackGeneration_def nack_feedback_def ack_feedback_def Let_def RtcpGenericNack_create32_def comp_def)
qed

section \<open>Feedback that is answered\<close>

lemma nack_answered:
  assumes "bit_stream io obits ibits" and "\<forall>n\<in>set ns. holds_packet (of_nat n) (pkt n) (rsm_pTxManager a)" and "gn_vNacks p = map of_nat ns"
  shows "\<exists>a'. doHandleFb io t (GenericNack p) a =
    (NackCallback (map of_nat ns) # map ScheduleRtxPacket (map2 (\<lambda>i n. (rtx_packet (rsm_state a) i (pkt n), None)) [0..<length ns] ns)
       @ [SchedulerFeedback (GenericNack p)], a')"
proof -
  let ?tm = "TransmissionManager_nack t (map of_nat ns) (rsm_pTxManager a)"
  obtain ps st where r: "retransmit io (map of_nat ns) ?tm (rsm_state a) = (ps, st)"
    by (cases "retransmit io (map of_nat ns) ?tm (rsm_state a)")
  have "\<forall>n\<in>set ns. holds_packet (of_nat n) (pkt n) ?tm" using assms(2) by (simp add: nack_keeps)
  from bit_stream.retransmit_all [OF assms(1) this, of "rsm_state a"]
  have "ps = map2 (\<lambda>i n. (rtx_packet (rsm_state a) i (pkt n), None)) [0..<length ns] ns" using r by simp
  then show ?thesis using r assms(3) by (simp add: doHandleFb_def handleNacks_def Let_def)
qed

lemma numbers_of_nacks:
  assumes "inj_on (of_nat :: nat \<Rightarrow> u16) L" and "set sns = of_nat ` L"
  shows "\<exists>rs. set rs = L \<and> map of_nat rs = (sns :: u16 list)"
proof (intro exI conjI)
  let ?rs = "map (the_inv_into L of_nat) sns"
  show "set ?rs = L" using assms by (simp add: the_inv_into_f_f image_image)
  show "map of_nat ?rs = sns" using assms by (auto intro!: map_idI simp: f_the_inv_into_f)
qed

section \<open>Properties\<close>

text \<open>
  C2: A lost packet is sent again. A sender sends numbered packets in a mode that keeps them; some of them arrive at a receiver in
  any order and with repetitions, through its handler of incoming packets and whatever playout buffer it has; fewer than 30
  and more than none are missing. Then the receiver makes one feedback packet, and the sender that reads
  it from the wire schedules, for exactly the missing packets, retransmissions that carry the original sequence number and payload after it, the original timestamp,
  the payload type and source for retransmissions and consecutive sequence numbers.
\<close>

theorem lost_packets_resent:
  assumes "bit_stream io obits ibits"
    and "numbered_packets x y (ss_uiRtxPayloadType (rsm_state a)) pkt" and "y \<le> 2 ^ 31"
    and "rsm_pTxManager a = TransmissionManager_create u0 pathInfo mode ms k" and "mode \<noteq> CIRCULAR_MODE"
    and "rsm_pFeedbackManager b = Some (FeedbackManager_create True bAck True PT_SIMPLE)" and "rsm_bNackEnabled b" and "\<not> rsm_bAckEnabled b"
    and "isRetransmissionEnabled (rsm_parameters b)" and "sp_uiRtxPt (rsm_parameters b) = ss_uiRtxPayloadType (rsm_state a)"
    and "set (n # ns) \<subseteq> {x..<y}" and "within_window n ns" and "lost = {n..Max (set (n # ns))} - set (n # ns)"
    and "lost \<noteq> {}" and "card lost < MAX_RTX"
    and "receive_all io beyond add tArrival timer' sync pkt (n # ns) b = Inr b'"
  shows "\<exists>nack b2. onFeedbackGeneration u tNow [] b' = Inr ([GenericNack nack], b2)
    \<and> (\<forall>v pad ib rest. ibits ib = obits (RtcpGenericNack_write io nack (ob_new io)) @ rest \<longrightarrow>
         (\<exists>p ib' a2 rs rtx.
            RtcpGenericNack_read io (RtcpGenericNack_raw io v pad (rb_uiLength (fb_base (gn_fb nack)))) ib = Inr (p, ib') \<and> ibits ib' = rest
          \<and> doHandleFb io tNow (GenericNack p) (send_all tSent timer pkt [x..<y] a)
              = (NackCallback (map of_nat rs) # map (\<lambda>q. ScheduleRtxPacket (q, None)) rtx @ [SchedulerFeedback (GenericNack p)], a2)
          \<and> set rs = lost
          \<and> map rp_rtpPayload rtx = map (\<lambda>r. sn_octets (of_nat r) @ rp_rtpPayload (pkt r)) rs
          \<and> map getRtpTimestamp rtx = map (\<lambda>r. getRtpTimestamp (pkt r)) rs
          \<and> map (\<lambda>q. rh_uiSN (rp_header q)) rtx = map (\<lambda>i. ss_uiRtxSequenceNumber (rsm_state a) + of_nat i) [0..<length rs]
          \<and> (\<forall>q\<in>set rtx. rh_uiPT (rp_header q) = ss_uiRtxPayloadType (rsm_state a) \<and> rh_uiSSRC (rp_header q) = ss_uiRtxSSRC (rsm_state a))))"
proof -
  have fin: "finite lost" using assms(13) by simp
  have pt: "\<forall>r\<in>set (n # ns). \<not> isRtxPayloadType (rh_uiPT (rp_header (pkt r))) (rsm_parameters b)"
    using assms(2,10,11) by (auto simp: isRtxPayloadType_def numbered_packets_def)
  have "n \<in> {x..<y}" using assms(11) by (simp del: atLeastLessThan_iff)
  then have n: "n < 2 ^ 31" using assms(3) by (simp del: One_nat_def)
  have c: "0 < card lost" using assms(14) fin by (simp only: card_gt_0_iff simp_thms)
  obtain ps b2 where ps: "distinct ps" "set ps = lost" and
    fb: "onFeedbackGeneration u tNow [] b' = Inr ([GenericNack (RtcpGenericNack_create (map of_nat ps) (ss_uiRemoteSSRC (rsm_state b)) (ss_uiSSRC (rsm_state b)))], b2)"
    using feedback_after_losses [OF assms(16) pt assms(9,6-8) n assms(12), folded assms(13), OF c assms(15), of u tNow] by blast
  let ?nack = "RtcpGenericNack_create (map of_nat ps) (ss_uiRemoteSSRC (rsm_state b)) (ss_uiSSRC (rsm_state b))"
  let ?a = "send_all tSent timer pkt [x..<y] a"
  have ivl: "{n..M} \<subseteq> {x..<y}" if "n \<in> {x..<y}" "M \<in> {x..<y}" for M using that by auto
  have "Max (set (n # ns)) \<in> {x..<y}" using assms(11) Max_in [of "set (n # ns)"] by blast
  with \<open>n \<in> {x..<y}\<close> have "{n..Max (set (n # ns))} \<subseteq> {x..<y}" using ivl by blast
  then have sub: "lost \<subseteq> {x..<y}" unfolding assms(13) by (rule order_trans [OF Diff_subset])
  have "y \<le> x + 65536" using assms(2) by (simp add: numbered_packets_def)
  note inj = inj_on_subset [OF u16_of_nat_inj_on [OF this] sub]
  have "x \<le> y" using \<open>n \<in> {x..<y}\<close> by simp
  then have held: "rsm_state ?a = rsm_state a" "\<forall>r\<in>lost. holds_packet (of_nat r) (pkt r) (rsm_pTxManager ?a)"
    using sent_kept [OF assms(2), of y ?a tSent timer] assms(4,5) sub by (auto simp: TransmissionManager_create_def)
  have "length ps \<le> 65533" "ps \<noteq> []" using distinct_card [OF ps(1)] ps(2) assms(14,15) by (auto simp: MAX_RTX_def)
  note wire = bit_stream.generic_nack_read [OF assms(1), of "map of_nat ps", simplified, OF this(2,1)]
  show ?thesis
  proof (rule exI [of _ ?nack], rule exI [of _ b2], intro conjI allI impI, rule fb)
    fix v pad ib rest
    assume "ibits ib = obits (RtcpGenericNack_write io ?nack (ob_new io)) @ rest"
    from wire [OF this, of v pad] obtain p ib' where p: "RtcpGenericNack_read io (RtcpGenericNack_raw io v pad (rb_uiLength (fb_base (gn_fb ?nack)))) ib = Inr (p, ib')"
      "ibits ib' = rest" and "set (gn_vNacks p) = of_nat ` lost" using ps(2) by auto
    then obtain rs where rs: "set rs = lost" "map of_nat rs = gn_vNacks p" using numbers_of_nacks [OF inj, of "gn_vNacks p"] by blast
    obtain a2 where a2: "doHandleFb io tNow (GenericNack p) ?a =
        (NackCallback (map of_nat rs) # map ScheduleRtxPacket (map2 (\<lambda>i r. (rtx_packet (rsm_state ?a) i (pkt r), None)) [0..<length rs] rs)
           @ [SchedulerFeedback (GenericNack p)], a2)"
      using nack_answered [OF assms(1), of rs pkt ?a p tNow] held(2) rs by auto
    let ?rtx = "map2 (\<lambda>i r. rtx_packet (rsm_state a) i (pkt r)) [0..<length rs] rs"
    have hd: "rh_uiSN (rp_header (pkt r)) = of_nat r" if "r \<in> set rs" for r using that rs(1) sub assms(2) by (auto simp: numbered_packets_def)
    have "map rp_rtpPayload ?rtx = map (\<lambda>r. sn_octets (of_nat r) @ rp_rtpPayload (pkt r)) rs"
      by (rule nth_equalityI) (simp_all add: rtx_packet_def hd)
    moreover have "map getRtpTimestamp ?rtx = map (\<lambda>r. getRtpTimestamp (pkt r)) rs"
      by (rule nth_equalityI) (simp_all add: rtx_packet_def getRtpTimestamp_def RtpPacket_create_def setRtpTimestamp_def)
    moreover have "map (\<lambda>q. rh_uiSN (rp_header q)) ?rtx = map (\<lambda>i. ss_uiRtxSequenceNumber (rsm_state a) + of_nat i) [0..<length rs]"
      by (rule nth_equalityI) (simp_all add: rtx_packet_def RtpPacket_create_def setRtpTimestamp_def setSSRC_def setSequenceNumber_def)
    moreover have "\<forall>q\<in>set ?rtx. rh_uiPT (rp_header q) = ss_uiRtxPayloadType (rsm_state a) \<and> rh_uiSSRC (rp_header q) = ss_uiRtxSSRC (rsm_state a)"
      by (auto simp: rtx_packet_def RtpPacket_create_def setRtpTimestamp_def setSSRC_def setSequenceNumber_def setPayloadType_def)
    ultimately show "\<exists>p ib' a2 rs rtx.
            RtcpGenericNack_read io (RtcpGenericNack_raw io v pad (rb_uiLength (fb_base (gn_fb ?nack)))) ib = Inr (p, ib') \<and> ibits ib' = rest
          \<and> doHandleFb io tNow (GenericNack p) ?a
              = (NackCallback (map of_nat rs) # map (\<lambda>q. ScheduleRtxPacket (q, None)) rtx @ [SchedulerFeedback (GenericNack p)], a2)
          \<and> set rs = lost
          \<and> map rp_rtpPayload rtx = map (\<lambda>r. sn_octets (of_nat r) @ rp_rtpPayload (pkt r)) rs
          \<and> map getRtpTimestamp rtx = map (\<lambda>r. getRtpTimestamp (pkt r)) rs
          \<and> map (\<lambda>q. rh_uiSN (rp_header q)) rtx = map (\<lambda>i. ss_uiRtxSequenceNumber (rsm_state a) + of_nat i) [0..<length rs]
          \<and> (\<forall>q\<in>set rtx. rh_uiPT (rp_header q) = ss_uiRtxPayloadType (rsm_state a) \<and> rh_uiSSRC (rp_header q) = ss_uiRtxSSRC (rsm_state a))"
      using p a2 rs(1) unfolding held(1)
      by (intro exI [of _ p] exI [of _ ib'] exI [of _ a2] exI [of _ rs] exI [of _ ?rtx]) (simp add: case_prod_unfold comp_def)
  qed
qed

definition sample_session_manager :: "RtpSessionState \<Rightarrow> unit RtpSessionManager" where
  "sample_session_manager st = \<lparr>rsm_state = st, rsm_parameters = sample_parameters\<lparr>sp_sProfile := AVPF, sp_uiRtxPt := 97, sp_uiRtxTime := 1000\<rparr>,
     rsm_pTxManager = TransmissionManager_create False
       \<lparr>pa_uiSSRC = 0, pa_uiFlowId = -1, pa_dRtt = 0, pa_uiJitter = 0, pa_uiLost = 0, pa_uiLostFraction = 0, pa_uiExtendedHighestSNReceived = 0, pa_uiJiffy = 0\<rparr>
       NACK_TIMED_MODE 1000 100,
     rsm_pFeedbackManager = Some (FeedbackManager_create True False True PT_SIMPLE), rsm_pReceiverBuffer = (), rsm_mPlayoutTimers = [],
     rsm_bNackEnabled = True, rsm_bAckEnabled = False, rsm_bAnalyse = False, rsm_uiLastReceived = 0, rsm_mRtxDurationMap = Map.empty,
     rsm_vSequenceNumbers = [], rsm_vDiscards = [], rsm_vLateness = [], rsm_bMediaCallback = False, rsm_qOutgoing = []\<rparr>"

definition sample_numbered :: "nat \<Rightarrow> RtpPacket" where
  "sample_numbered n = (RtpPacket_create (RtpHeader_create False False 96 (of_nat n) 5 7))\<lparr>rp_rtpPayload := [1, of_nat n]\<rparr>"

text \<open>Of the packets 65533 to 65538, whose 16 bit numbers wrap, three arrive, out of order.\<close>

theorem lost_packets_resent_witness:
  "\<exists>b' nack b2 p ib' a2 rs rtx.
      receive_all bitlist_io (\<lambda>_. 0) (\<lambda>_ _ _ _ b. Inr (None, new_node, b)) int id (\<lambda>_. (False, None)) sample_numbered [65533, 65537, 65535]
        (sample_session_manager (sample_state\<lparr>ss_uiRtxPayloadType := 97\<rparr>)) = Inr b'
    \<and> onFeedbackGeneration 0 9 [] b' = Inr ([GenericNack nack], b2)
    \<and> RtcpGenericNack_read bitlist_io (RtcpGenericNack_raw bitlist_io 2 False (rb_uiLength (fb_base (gn_fb nack))))
        (RtcpGenericNack_write bitlist_io nack (ob_new bitlist_io)) = Inr (p, ib')
    \<and> doHandleFb bitlist_io 9 (GenericNack p)
        (send_all int id sample_numbered [65533..<65539] (sample_session_manager (sample_state\<lparr>ss_uiRtxPayloadType := 97\<rparr>)))
        = (NackCallback (map of_nat rs) # map (\<lambda>q. ScheduleRtxPacket (q, None)) rtx @ [SchedulerFeedback (GenericNack p)], a2)
    \<and> set rs = {65534, 65536} \<and> set (map rp_rtpPayload rtx) = {[255, 254, 1, 254], [0, 0, 1, 0]}"
proof -
  let ?a = "sample_session_manager (sample_state\<lparr>ss_uiRtxPayloadType := 97\<rparr>)" and ?add = "\<lambda>_ _ _ _ b. Inr (None, new_node, b)"
  have pkts: "numbered_packets 65533 65539 (ss_uiRtxPayloadType (rsm_state ?a)) sample_numbered"
    by (simp add: numbered_packets_def sample_numbered_def sample_session_manager_def RtpPacket_create_def RtpHeader_create_def)
  have a: "rsm_pFeedbackManager ?a = Some (FeedbackManager_create True False True PT_SIMPLE)" "rsm_bNackEnabled ?a" "\<not> rsm_bAckEnabled ?a"
    "isRetransmissionEnabled (rsm_parameters ?a)" "sp_uiRtxPt (rsm_parameters ?a) = ss_uiRtxPayloadType (rsm_state ?a)"
    by (simp_all add: sample_session_manager_def isRetransmissionEnabled_def)
  have w: "within_window 65533 [65537, 65535]" by (simp add: MAX_DROPOUT_def)
  have lost: "{65534, 65536} = {65533..Max (set [65533, 65537, 65535::nat])} - set [65533, 65537, 65535]" by auto
  have c: "card {65534, 65536 :: nat} < MAX_RTX" by (simp add: MAX_RTX_def)
  have "\<exists>b'. receive_all bitlist_io (\<lambda>_. 0) ?add int id (\<lambda>_. (False, None)) sample_numbered ns m = Inr b'"
    if "rsm_pFeedbackManager m \<noteq> None" "\<And>n. \<not> isRtxPayloadType (rh_uiPT (rp_header (sample_numbered n))) (rsm_parameters m)" for ns and m :: "unit RtpSessionManager"
    using that
  proof (induction ns arbitrary: m)
    case (Cons n ns)
    show ?case using Cons.IH Cons.prems
      by (auto simp: doHandleIncomingRtp_def incoming_original_def buffer_packet_def Let_def arrived_def split: prod.split)
  qed simp
  moreover have rtx: "\<not> isRtxPayloadType (rh_uiPT (rp_header (sample_numbered n))) (rsm_parameters ?a)" for n
    by (simp add: isRtxPayloadType_def sample_numbered_def sample_session_manager_def RtpPacket_create_def RtpHeader_create_def)
  ultimately obtain b' where b': "receive_all bitlist_io (\<lambda>_. 0) ?add int id (\<lambda>_. (False, None)) sample_numbered [65533, 65537, 65535] ?a = Inr b'"
    using a(1) rtx by blast
  have t: "rsm_pTxManager ?a = TransmissionManager_create False
       \<lparr>pa_uiSSRC = 0, pa_uiFlowId = -1, pa_dRtt = 0, pa_uiJitter = 0, pa_uiLost = 0, pa_uiLostFraction = 0, pa_uiExtendedHighestSNReceived = 0, pa_uiJiffy = 0\<rparr>
       NACK_TIMED_MODE 1000 100" by (simp add: sample_session_manager_def)
  obtain nack b2 where fb: "onFeedbackGeneration 0 9 [] b' = Inr ([GenericNack nack], b2)" and
    answer: "\<And>v pad ib rest. ib = RtcpGenericNack_write bitlist_io nack (ob_new bitlist_io) @ rest \<Longrightarrow>
         (\<exists>p ib' a2 rs rtx.
            RtcpGenericNack_read bitlist_io (RtcpGenericNack_raw bitlist_io v pad (rb_uiLength (fb_base (gn_fb nack)))) ib = Inr (p, ib') \<and> ib' = rest
          \<and> doHandleFb bitlist_io 9 (GenericNack p) (send_all int id sample_numbered [65533..<65539] ?a)
              = (NackCallback (map of_nat rs) # map (\<lambda>q. ScheduleRtxPacket (q, None)) rtx @ [SchedulerFeedback (GenericNack p)], a2)
          \<and> set rs = {65534, 65536}
          \<and> map rp_rtpPayload rtx = map (\<lambda>r. sn_octets (of_nat r) @ rp_rtpPayload (sample_numbered r)) rs)"
    using lost_packets_resent [OF bitlist.bit_stream_axioms pkts _ t _ a _ w lost _ c b', where u = 0 and tNow = 9 and tSent = int and timer = id]
    by simp meson
  obtain p ib' a2 rs rtx where r: "RtcpGenericNack_read bitlist_io (RtcpGenericNack_raw bitlist_io 2 False (rb_uiLength (fb_base (gn_fb nack))))
        (RtcpGenericNack_write bitlist_io nack (ob_new bitlist_io)) = Inr (p, ib')"
      "doHandleFb bitlist_io 9 (GenericNack p) (send_all int id sample_numbered [65533..<65539] ?a)
        = (NackCallback (map of_nat rs) # map (\<lambda>q. ScheduleRtxPacket (q, None)) rtx @ [SchedulerFeedback (GenericNack p)], a2)"
      "set rs = {65534, 65536}" "map rp_rtpPayload rtx = map (\<lambda>r. sn_octets (of_nat r) @ rp_rtpPayload (sample_numbered r)) rs"
    using answer [of _ "[]" 2 False] by auto
  have u8: "(65534 :: u8) = 254" "(65536 :: u8) = 0" by simp_all
  have "set (map rp_rtpPayload rtx) = {[255, 254, 1, 254], [0, 0, 1, 0]}"
    unfolding r(4) set_map r(3) by (simp add: sn_octets_def sample_numbered_def u8)
  then show ?thesis using b' fb r(1-3) by blast
qed

section \<open>The circular buffer\<close>

lemma circular_step:
  assumes "tm_eMode (rsm_pTxManager a) = CIRCULAR_MODE" and "rh_uiPT (rp_header p) \<noteq> ss_uiRtxPayloadType (rsm_state a)"
    and "length (tm_qCircularBuffer (rsm_pTxManager a)) = MAX_CIRCULAR" and "tm_mSnMap (rsm_pTxManager a) = []"
  shows "rsm_state (snd (doHandleOutgoingRtp t k (p, None) a)) = rsm_state a
    \<and> tm_eMode (rsm_pTxManager (snd (doHandleOutgoingRtp t k (p, None) a))) = CIRCULAR_MODE
    \<and> tm_mSnMap (rsm_pTxManager (snd (doHandleOutgoingRtp t k (p, None) a))) = []
    \<and> tm_qCircularBuffer (rsm_pTxManager (snd (doHandleOutgoingRtp t k (p, None) a))) = tl (tm_qCircularBuffer (rsm_pTxManager a) @ [rh_uiSN (rp_header p)])
    \<and> tm_mTxMap (rsm_pTxManager (snd (doHandleOutgoingRtp t k (p, None) a))) =
        (tm_mTxMap (insertPacketIntoTxBuffer t (p, None) (rsm_pTxManager a)))(hd (tm_qCircularBuffer (rsm_pTxManager a) @ [rh_uiSN (rp_header p)]) := None)"
  using assms by (simp add: doHandleOutgoingRtp_def storePacketForRetransmission_def Let_def removePacketFromTxBuffer_def insert_kept)

lemma u16_of_nat_inj_below: "inj_on (of_nat :: nat \<Rightarrow> u16) {..<65536}"
  using u16_of_nat_inj_on [of 65536 0] by (simp add: atLeast0LessThan)

text \<open>
  C15: The circular buffer keeps the last 30 packets. After packets with the numbers from a first one, that is not 0, up to
  another below 65536 have been sent in the circular mode, exactly the last 30 of them can be sent again.
\<close>

theorem circular_buffer_keeps_last:
  assumes "numbered_packets x y (ss_uiRtxPayloadType (rsm_state a)) pkt" and "0 < x" and "x \<le> y" and "y \<le> 65536"
    and "rsm_pTxManager a = TransmissionManager_create u0 pathInfo CIRCULAR_MODE ms k"
  shows "(lookupRtpPacketInfo sn (rsm_pTxManager (send_all tSent timer pkt [x..<y] a)) \<noteq> None \<longleftrightarrow> sn \<in> of_nat ` {max x (y - 30)..<y})
    \<and> (\<forall>n\<in>{max x (y - 30)..<y}. holds_packet (of_nat n) (pkt n) (rsm_pTxManager (send_all tSent timer pkt [x..<y] a)))"
proof -
  have "tm_eMode (rsm_pTxManager (send_all tSent timer pkt [x..<z] a)) = CIRCULAR_MODE \<and> tm_mSnMap (rsm_pTxManager (send_all tSent timer pkt [x..<z] a)) = []
    \<and> rsm_state (send_all tSent timer pkt [x..<z] a) = rsm_state a
    \<and> tm_qCircularBuffer (rsm_pTxManager (send_all tSent timer pkt [x..<z] a)) = drop (z - x) (replicate 30 0 @ map of_nat [x..<z])
    \<and> dom (tm_mTxMap (rsm_pTxManager (send_all tSent timer pkt [x..<z] a))) = of_nat ` {max x (z - 30)..<z}
    \<and> (\<forall>n\<in>{max x (z - 30)..<z}. holds_packet (of_nat n) (pkt n) (rsm_pTxManager (send_all tSent timer pkt [x..<z] a)))"
    if "x \<le> z" "z \<le> y" for z
    using that
  proof (induction z rule: dec_induct)
    case base
    then show ?case using assms(5) by (simp add: send_all_def TransmissionManager_create_def MAX_CIRCULAR_def)
  next
    case (step z)
    define b where "b = send_all tSent timer pkt [x..<z] a"
    have IH: "tm_eMode (rsm_pTxManager b) = CIRCULAR_MODE" "tm_mSnMap (rsm_pTxManager b) = []" "rsm_state b = rsm_state a"
      "tm_qCircularBuffer (rsm_pTxManager b) = drop (z - x) (replicate 30 0 @ map of_nat [x..<z])"
      "dom (tm_mTxMap (rsm_pTxManager b)) = of_nat ` {max x (z - 30)..<z}"
      "\<forall>n\<in>{max x (z - 30)..<z}. holds_packet (of_nat n) (pkt n) (rsm_pTxManager b)"
      using step unfolding b_def by simp_all
    define h where "h = (if z < x + 30 then 0 else z - 30)"
    let ?all = "replicate 30 0 @ map of_nat [x..<Suc z]" and ?i = "doHandleOutgoingRtp (tSent z) (timer z) (pkt z, None) b"
    have all: "send_all tSent timer pkt [x..<Suc z] a = snd ?i" using step(1) by (simp add: send_all_def b_def)
    have p: "rh_uiSN (rp_header (pkt z)) = of_nat z" "rh_uiPT (rp_header (pkt z)) \<noteq> ss_uiRtxPayloadType (rsm_state b)"
      using assms(1) step IH(3) by (simp_all add: numbered_packets_def)
    have q: "tm_qCircularBuffer (rsm_pTxManager b) @ [of_nat z] = drop (z - x) ?all" using IH(4) step(1) by simp
    have hd: "hd (drop (z - x) ?all) = of_nat h"
      using step(1) by (simp add: hd_drop_conv_nth nth_append h_def del: upt_Suc)
    have tl: "tl (drop (z - x) ?all) = drop (Suc z - x) ?all" using step(1) by (simp only: tl_drop drop_Suc [symmetric] Suc_diff_le)
    have len: "length (tm_qCircularBuffer (rsm_pTxManager b)) = MAX_CIRCULAR" using IH(4) step(1) by (simp add: MAX_CIRCULAR_def)
    note s = circular_step [OF IH(1) p(2) len IH(2), of "tSent z" "timer z", unfolded p(1) q hd tl]
    have below: "insert z {max x (z - 30)..<z} \<subseteq> {..<65536}" "h \<in> {..<65536}" using step assms(4) by (auto simp: h_def)
    note inj = inj_on_subset [OF u16_of_nat_inj_below]
    have range: "{max x (Suc z - 30)..<Suc z} = insert z {max x (z - 30)..<z} - {h}" using step(1) assms(2) by (auto simp: h_def)
    have "(of_nat z :: u16) \<notin> of_nat ` {max x (z - 30)..<z}" using inj [OF below(1)] by (auto simp: inj_on_insert)
    then have "tm_mTxMap (rsm_pTxManager b) (of_nat z) = None" using IH(5) by auto
    then have map: "tm_mTxMap (rsm_pTxManager (snd ?i)) = (tm_mTxMap (rsm_pTxManager b))(of_nat z \<mapsto> RtpPacketInfo_create (tSent z) (pkt z, None), of_nat h := None)"
      using s p(1) by (simp add: insert_kept Let_def)
    have eq: "(of_nat m :: u16) = of_nat n \<longleftrightarrow> m = n" if "m < 65536" "n < 65536" for m n
      using inj_on_eq_iff [OF u16_of_nat_inj_below, of m n] that by simp
    have d: "dom (tm_mTxMap (rsm_pTxManager (snd ?i))) = of_nat ` {max x (Suc z - 30)..<Suc z}"
      unfolding range map using IH(5) inj_on_image_set_diff [OF u16_of_nat_inj_below, of "insert z {max x (z - 30)..<z}" "{h}"] below by auto
    have held: "holds_packet (of_nat n) (pkt n) (rsm_pTxManager (snd ?i))" if n: "n \<in> {max x (Suc z - 30)..<Suc z}" for n
    proof -
      have "n < 65536" "n \<noteq> h" "n = z \<or> n \<in> {max x (z - 30)..<z}" "z < 65536" using n step.prems assms(4) unfolding range by auto
      moreover have "h < 65536" "tm_mSnMap (rsm_pTxManager (snd ?i)) = []" using below(2) s by simp_all
      ultimately show ?thesis using IH(6) unfolding holds_packet_def map by (cases "n = z") (auto simp: eq)
    qed
    show ?case unfolding all by (intro conjI ballI; (rule d held | (use s IH(3) in \<open>simp only: simp_thms\<close>)))
  qed
  from this [OF assms(3) order_refl] show ?thesis by (auto simp: lookupRtpPacketInfo_def)
qed

theorem circular_buffer_keeps_last_witness:
  "(let a = sample_session_manager (sample_state\<lparr>ss_uiRtxPayloadType := 97\<rparr>);
        a0 = a\<lparr>rsm_pTxManager := TransmissionManager_create False (tm_pathInfo (rsm_pTxManager a)) CIRCULAR_MODE 1000 100\<rparr>;
        tm = rsm_pTxManager (send_all int id sample_numbered [1..<41] a0)
    in lookupRtpPacketInfo 10 tm = None \<and> holds_packet 11 (sample_numbered 11) tm)"
proof -
  let ?a = "sample_session_manager (sample_state\<lparr>ss_uiRtxPayloadType := 97\<rparr>)"
  let ?b = "?a\<lparr>rsm_pTxManager := TransmissionManager_create False (tm_pathInfo (rsm_pTxManager ?a)) CIRCULAR_MODE 1000 100\<rparr>"
  have p: "numbered_packets 1 41 (ss_uiRtxPayloadType (rsm_state ?b)) sample_numbered"
    by (simp add: numbered_packets_def sample_numbered_def sample_session_manager_def RtpPacket_create_def RtpHeader_create_def)
  have t: "rsm_pTxManager ?b = TransmissionManager_create False (tm_pathInfo (rsm_pTxManager ?a)) CIRCULAR_MODE 1000 100" by simp
  note c = circular_buffer_keeps_last [OF p _ _ _ t, of 10 int id]
  have "(10 :: u16) \<notin> of_nat ` {11..<41}"
  proof
    assume "(10 :: u16) \<in> of_nat ` {11..<41}"
    then obtain n where "n \<in> {11..<41}" "(of_nat 10 :: u16) = of_nat n" by auto
    then show False using u16_of_nat_near [of 10 n] by simp
  qed
  then show ?thesis using c by (auto simp: Let_def dest: bspec [of _ _ 11])
qed

section \<open>Retransmissions at the receiver\<close>

lemma rtx_header [simp]:
  "rp_rtpPayload (rtx_packet st i p) = sn_octets (rh_uiSN (rp_header p)) @ rp_rtpPayload p"
  "fst (RtpHeader_getSize (rp_header (rtx_packet st i p))) = fst (RtpHeader_getSize (rp_header p))"
  by (simp_all add: rtx_packet_def RtpPacket_create_def RtpHeader_getSize_def hasExtension_def setRtpTimestamp_def setSSRC_def
      setSequenceNumber_def setPayloadType_def split: prod.split)

lemma restored_packet:
  assumes "bit_stream io obits ibits" and "RtpPacket_getSize q = (n, q1)" and "rp_rtpPayload q = sn_octets sn @ bs"
  shows "processRetransmission io beyond (q, None) =
    ((setExtendedSequenceNumber (ucast sn) q1)\<lparr>rp_rtpPayload := strip_payload beyond 2 (n - 2) (sn_octets sn @ bs)\<rparr>, None)"
proof -
  have "ibits (ib_open io (sn_octets sn @ bs)) = fields_bits [(unat sn, 16)] @ bytes_bits bs"
    by (simp add: bit_stream.open_bits [OF assms(1)] bytes_bits_sn_octets fields_bits_def del: to_bits_numeral)
  moreover have "fields_ok [(unat sn, 16)]" using unsigned_less [of sn] by (simp add: fields_ok_def)
  ultimately obtain ib where "reads io [(0, 16)] (ib_open io (sn_octets sn @ bs)) = ([unat sn], ib)"
    using bit_stream.reads_fields [OF assms(1), of "[(0, 16)]" "[(unat sn, 16)]" "ib_open io (sn_octets sn @ bs)" "bytes_bits bs"] by auto
  then show ?thesis using assms(2,3) by (simp add: processRetransmission_def Let_def del: reads.simps)
qed

lemma stripped_payload:
  "strip_payload beyond 2 (h + of_nat (length bs)) (sn_octets sn @ bs) = bs @ map (\<lambda>j. beyond (2 + length bs + j)) [0..<unat h]"
  if "unat h + length bs < 2 ^ 32"
proof (rule nth_equalityI)
  have "unat (of_nat (length bs) :: u32) = length bs" using that by (simp only: unsigned_of_nat) (simp add: take_bit_nat_eq_self)
  then have n: "unat (h + of_nat (length bs)) = unat h + length bs" using that by (simp add: unat_add_lem [THEN iffD1])
  show "length (strip_payload beyond 2 (h + of_nat (length bs)) (sn_octets sn @ bs)) = length (bs @ map (\<lambda>j. beyond (2 + length bs + j)) [0..<unat h])"
    unfolding strip_payload_def n by simp
  fix i
  assume "i < length (strip_payload beyond 2 (h + of_nat (length bs)) (sn_octets sn @ bs))"
  then have i: "i < unat h + length bs" unfolding strip_payload_def n by simp
  show "strip_payload beyond 2 (h + of_nat (length bs)) (sn_octets sn @ bs) ! i = (bs @ map (\<lambda>j. beyond (2 + length bs + j)) [0..<unat h]) ! i"
  proof (cases "i < length bs")
    case True
    then show ?thesis unfolding strip_payload_def n using i by (simp add: nth_append sn_octets_def)
  next
    case False
    then obtain k where "i = length bs + k" "k < unat h" using i le_Suc_ex [of "length bs" i] by auto
    then show ?thesis unfolding strip_payload_def n using i by (simp add: nth_append sn_octets_def)
  qed
qed

text \<open>
  C16: What a retransmission becomes. A retransmission that the sender generates for a packet it holds is restored by the
  receiver to a packet with the original sequence number and timestamp, the upper half of whose extended sequence number is
  zero, and whose payload is the original one followed by as many octets of the memory behind it as the header is long.
\<close>

theorem retransmission_restored:
  assumes "bit_stream io obits ibits" and "holds_packet (rh_uiSN (rp_header p)) p tm"
    and "unat (fst (RtpHeader_getSize (rp_header p))) + length (rp_rtpPayload p) < 2 ^ 32"
  shows "\<exists>r q. fst (generateRetransmissionPacket io (rh_uiSN (rp_header p)) tm st) = Some (r, None) \<and> processRetransmission io beyond (r, None) = (q, None)
    \<and> getSequenceNumber q = getSequenceNumber p \<and> getExtendedSequenceNumber q = ucast (rh_uiSN (rp_header p)) \<and> getRtpTimestamp q = getRtpTimestamp p
    \<and> rp_rtpPayload q = rp_rtpPayload p @ map (\<lambda>j. beyond (2 + length (rp_rtpPayload p) + j)) [0..<unat (fst (RtpHeader_getSize (rp_header p)))]"
proof -
  let ?r = "rtx_packet st 0 p" and ?sn = "rh_uiSN (rp_header p)" and ?h = "fst (RtpHeader_getSize (rp_header p))"
  obtain n r1 where s: "RtpPacket_getSize ?r = (n, r1)" by (cases "RtpPacket_getSize ?r")
  then have n: "n = ?h + of_nat (length (sn_octets ?sn @ rp_rtpPayload p))"
    using rtx_header(2) [of st 0 p] by (auto simp: RtpPacket_getSize_def simp del: rtx_header(2) split: prod.splits)
  then have n2: "n - 2 = ?h + of_nat (length (rp_rtpPayload p))" by (simp add: sn_octets_def)
  have ts: "getRtpTimestamp r1 = getRtpTimestamp p"
    using s by (auto simp: RtpPacket_getSize_def RtpHeader_getSize_def rtx_packet_def RtpPacket_create_def getRtpTimestamp_def setRtpTimestamp_def
        split: prod.splits if_splits)
  let ?q = "(setExtendedSequenceNumber (ucast ?sn) r1)\<lparr>rp_rtpPayload := strip_payload beyond 2 (n - 2) (sn_octets ?sn @ rp_rtpPayload p)\<rparr>"
  have "getSequenceNumber ?q = getSequenceNumber p" "getExtendedSequenceNumber ?q = ucast ?sn" "getRtpTimestamp ?q = getRtpTimestamp p"
    using ts by (simp_all add: getSequenceNumber_def getExtendedSequenceNumber_def setExtendedSequenceNumber_def setSequenceNumber_def getRtpTimestamp_def
        unsigned_ucast_eq take_bit_word_eq_self)
  moreover have "rp_rtpPayload ?q = rp_rtpPayload p @ map (\<lambda>j. beyond (2 + length (rp_rtpPayload p) + j)) [0..<unat ?h]"
    unfolding n2 using stripped_payload [OF assms(3)] by simp
  ultimately show ?thesis
    using restored_packet [OF assms(1) s rtx_header(1)] bit_stream.generated_packet [OF assms(1,2), of st]
    by (intro exI [of _ ?r] exI [of _ ?q] conjI) simp_all
qed

theorem retransmission_restored_witness:
  "\<exists>tm r q. fst (generateRetransmissionPacket bitlist_io 65535 tm sample_state) = Some (r, None)
     \<and> processRetransmission bitlist_io (\<lambda>_. 9) (r, None) = (q, None) \<and> getSequenceNumber q = 65535 \<and> rp_rtpPayload q = [1, 255] @ replicate 12 9"
proof -
  let ?p = "sample_numbered 65535" and ?tm = "(rsm_pTxManager (sample_session_manager sample_state))
      \<lparr>tm_mTxMap := [65535 \<mapsto> RtpPacketInfo_create 0 (sample_numbered 65535, None)]\<rparr>"
  have sn: "rh_uiSN (rp_header ?p) = 65535" by (simp add: sample_numbered_def RtpPacket_create_def RtpHeader_create_def)
  have s: "fst (RtpHeader_getSize (rp_header ?p)) = 12" and pl: "rp_rtpPayload ?p = [1, 255]"
    by (simp_all add: sample_numbered_def RtpPacket_create_def RtpHeader_create_def RtpHeader_getSize_def hasExtension_def containsExtensions_def
        MIN_RTP_HEADER_SIZE_def RtpHeaderExtension_new_def)
  have h: "holds_packet (rh_uiSN (rp_header ?p)) ?p ?tm"
    unfolding sn by (simp add: holds_packet_def sample_session_manager_def TransmissionManager_create_def)
  have l: "unat (fst (RtpHeader_getSize (rp_header ?p))) + length (rp_rtpPayload ?p) < 2 ^ 32" unfolding s pl by simp
  have m: "map (\<lambda>j. 9) [0..<unat (12 :: u32)] = replicate 12 (9 :: u8)" by (simp add: map_replicate_const)
  have g: "getSequenceNumber ?p = 65535" by (simp add: getSequenceNumber_def sn)
  show ?thesis using retransmission_restored [OF bitlist.bit_stream_axioms h l, of sample_state "\<lambda>_. 9"] unfolding sn s pl m g by blast
qed

section \<open>Where recovery falls short\<close>

text \<open>A packet that is still held keeps a new one with the same number out, so that the old one is sent again.\<close>

lemma held_packet_blocks_new:
  "holds_packet sn p tm \<Longrightarrow> rh_uiSN (rp_header q) = sn \<Longrightarrow> holds_packet sn p (insertPacketIntoTxBuffer t (q, None) tm)"
  by (auto simp: holds_packet_def insert_kept Let_def)

text \<open>The zeros in the queue of a new circular buffer remove the packet with the number 0 at once.\<close>

lemma circular_loses_packet_zero:
  assumes "rh_uiPT (rp_header p) \<noteq> ss_uiRtxPayloadType st" and "rh_uiSN (rp_header p) = 0"
  shows "tm_mTxMap (snd (storePacketForRetransmission t k st (p, None) (TransmissionManager_create u0 pathInfo CIRCULAR_MODE ms n))) = Map.empty"
  using assms by (simp add: storePacketForRetransmission_def Let_def TransmissionManager_create_def MAX_CIRCULAR_def removePacketFromTxBuffer_def
      insertPacketIntoTxBuffer_def)

text \<open>Thirty losses or more at a report are forgotten without a request.\<close>

lemma many_losses_forgotten:
  assumes "rsm_bNackEnabled m" and "rsm_pFeedbackManager m = Some fm" and "30 \<le> length (fm_vAssumedLost fm)"
  shows "nack_feedback tNow m = Inr ([], m\<lparr>rsm_pFeedbackManager := Some (fm\<lparr>fm_vAssumedLost := []\<rparr>)\<rparr>)"
  using assms by (simp add: nack_feedback_def getAssumedLost_def MAX_RTX_def Let_def)

text \<open>A restored packet goes to the statistics only; what goes into the playout buffer is the retransmission itself.\<close>

lemma retransmission_itself_buffered:
  assumes "isRtxPayloadType (rh_uiPT (rp_header (fst p))) (rsm_parameters m)" and "rsm_pFeedbackManager m = None"
  shows "doHandleIncomingRtp io beyond add tNow k p b tp m =
    map_sum id (apfst ((#) (SchedulerIncomingRtp p)))
      (buffer_packet add tNow k (fst p) b tp (m\<lparr>rsm_pTxManager := TransmissionManager_onPacketReceived (fst (processRetransmission io beyond p)) (rsm_pTxManager m)\<rparr>))"
  using assms by (simp add: doHandleIncomingRtp_def incoming_retransmission_def Let_def map_sum_def apfst_def map_prod_def split: sum.split prod.split)

text \<open>The flow specific number in a retransmission by sequence number is cut to 8 bits.\<close>

lemma flow_number_truncated:
  assumes "tm_mTxMap tm sn = Some e" and "map_of (tm_mSnMap tm) sn = Some (flow_fssn (1, 256))"
  shows "generateRetransmissionPacket io sn tm st = map_prod Some id (generateRtxPacketSsrcMultiplexing_flow io st (pi_originalRtpPacket e) 1 0)"
  using assms by (simp add: generateRetransmissionPacket_def flow_fssn_def)

end
