(* ===== verification/Session_Input.thy ===== *)
theory Session_Input
  imports Session_Manager Rtcp_Report_Props
begin

text \<open>
  A data packet on its way into a session (\<open>RtpSession::onIncomingRtp\<close> in \<open>RtpSession.cpp\<close>): the session
  database numbers it and estimates its presentation time, the session manager buffers it, the statistics count it.
  The numbers that the database gives to the packets of a validated source are the sender's, without wrap-around.
\<close>

section \<open>Model\<close>

text \<open>What the members of the session share; an end point is known by its identifier.\<close>

record 'b SessionInput =
  si_pSessionDb :: SessionDatabase
  si_rtpSessionStatistics :: RtpSessionStatistics
  si_manager :: "'b RtpSessionManager"

text \<open>The tick count of a special duration is the largest 64 bit integer less one.\<close>

definition arrival_rtp_timestamp :: "ptime \<Rightarrow> u32 \<Rightarrow> u32 \<Rightarrow> u32" where
  "arrival_rtp_timestamp tArrival uiTimestampFrequency uiTimestampBase =
     convertTimeToRtpTimestamp (case tArrival of Some t \<Rightarrow> t | None \<Rightarrow> UNIX_EPOCH + (2 ^ 63 - 2)) uiTimestampFrequency uiTimestampBase"

text \<open>
  The handlers of header extensions set the one way delay and the subflow header of a packet, which the packets of the
  model do not have; the experimental one that carries RTCP is left out. The first part enters the packet into the
  database; the second one passes it on. \<open>tNow\<close> is the clock, \<open>pTimer\<close> the playout timer that may be allocated.
\<close>

definition register_packet :: "int \<Rightarrow> RtpPacket \<Rightarrow> 'b SessionInput \<Rightarrow> fault + (RtpPacket \<times> bool \<times> ptime \<times> 'b SessionInput)" where
  "register_packet tNow rtpPacket s =
     (let m = si_manager s; par = rsm_parameters m; st = rsm_state m; uiFrequency = sp_uiRtpTimestampFrequency par;
          rPacket = rtpPacket\<lparr>rp_uiRtpArrivalTimestamp :=
            arrival_rtp_timestamp (rp_tArrival rtpPacket) uiFrequency (ss_uiRtpTimestampBase st)\<rparr>;
          uiSSRC = rh_uiSSRC (rp_header rPacket);
          st1 = (if \<not> isRtxPayloadType (rh_uiPT (rp_header rPacket)) par \<and> uiSSRC \<noteq> ss_uiRemoteSSRC st
                 then st\<lparr>ss_uiRemoteSSRC := uiSSRC\<rparr> else st)
      in map_sum id (\<lambda>(packet, bIsValid, bIsRtcpSynchronised, tPresentation, db).
             (packet, bIsRtcpSynchronised, tPresentation, s\<lparr>si_pSessionDb := db, si_manager := m\<lparr>rsm_state := st1\<rparr>\<rparr>))
           (processIncomingRtpPacket st1 par tNow rPacket uiFrequency (si_pSessionDb s)))"

definition RtpSession_onIncomingRtp ::
  "('i, 'o) bit_io \<Rightarrow> (nat \<Rightarrow> u8) \<Rightarrow> (int \<Rightarrow> RtpPacket \<Rightarrow> ptime \<Rightarrow> bool \<Rightarrow> 'b \<Rightarrow> fault + ptime \<times> AddResult \<times> 'b) \<Rightarrow>
     int \<Rightarrow> nat \<Rightarrow> u32 \<Rightarrow> RtpPacket \<Rightarrow> 'b SessionInput \<Rightarrow> fault + (manager_out list \<times> 'b SessionInput)" where
  "RtpSession_onIncomingRtp io beyond add tNow pTimer ep rtpPacket s =
     (case register_packet tNow rtpPacket s of
        Inl f \<Rightarrow> Inl f
      | Inr (packet, bIsRtcpSynchronised, tPresentation, s1) \<Rightarrow>
          (case doHandleIncomingRtp io beyond add tNow pTimer (packet, None) bIsRtcpSynchronised tPresentation (si_manager s1) of
             Inl f \<Rightarrow> Inl f
           | Inr (out, m) \<Rightarrow>
               Inr (out, s1\<lparr>si_manager := m,
                 si_rtpSessionStatistics := (if isRtxPayloadType (rh_uiPT (rp_header packet)) (rsm_parameters (si_manager s))
                   then si_rtpSessionStatistics s1
                   else RtpSessionStatistics_onReceiveRtpPacket packet ep (si_rtpSessionStatistics s1))\<rparr>)))"

text \<open>A session sets the clock frequency of the playout buffer before packets arrive (\<open>setRtpSession\<close>).\<close>

definition configure_receiver_buffer :: "'a IRtpJitterBuffer_scheme RtpSessionManager \<Rightarrow> 'a IRtpJitterBuffer_scheme RtpSessionManager" where
  "configure_receiver_buffer m =
     m\<lparr>rsm_pReceiverBuffer := setClockFrequency (sp_uiRtpTimestampFrequency (rsm_parameters m)) (rsm_pReceiverBuffer m)\<rparr>"

section \<open>The entry of a source that is being received\<close>

lemma lookup_after_update:
  "lookupMemberEntryInSessionDb k (update_member k f db) = map_option f (lookupMemberEntryInSessionDb k db)"
proof -
  have "map_of (map (\<lambda>(a, m). (a, if a = k then f m else m)) ms) k = map_option f (map_of ms k)" for ms by (induction ms) auto
  then show ?thesis by (simp add: lookupMemberEntryInSessionDb_def update_member_def)
qed

lemma mem_map_same: "f (mem_base m) = mem_base m \<Longrightarrow> mem_map f m = m"
  by (cases m) simp_all

lemma lookup_insert_known:
  "lookupMemberEntryInSessionDb k db = Some e \<Longrightarrow> lookupMemberEntryInSessionDb k (insertSSRCIfNotInSessionDb st par t k' db) = Some e"
  by (auto simp: insertSSRCIfNotInSessionDb_def Let_def lookupMemberEntryInSessionDb_def)

lemma participant_keeps_entry:
  assumes "lookupMemberEntryInSessionDb k db = Some e" and "me_bInit (mem_base e)"
  shows "lookupMemberEntryInSessionDb k (processParticipant st par t k' p db) = Some e"
  using lookup_insert_known [OF assms(1), of st par t k'] assms(2)
  by (cases "k = k'") (auto simp: processParticipant_def lookup_after_update lookup_update_other mem_map_same)

lemma participants_keep_entry:
  "\<lbrakk>lookupMemberEntryInSessionDb k db = Some e; me_bInit (mem_base e)\<rbrakk> \<Longrightarrow>
    lookupMemberEntryInSessionDb k (fold (\<lambda>k' db. processParticipant st par t k' p db) ks db) = Some e"
  by (induction ks arbitrary: db) (simp_all add: participant_keeps_entry)

text \<open>
  The database has validated the source \<open>uiSSRC\<close>, and the highest of its packets has number \<open>M\<close>, counted without
  wrap-around; a packet is numbered by it as long as it comes from the same cycle of 65536 numbers as the highest one.
\<close>

definition follows_source :: "u32 \<Rightarrow> nat \<Rightarrow> nat \<Rightarrow> SessionDatabase \<Rightarrow> bool" where
  "follows_source uiSSRC mm M db \<longleftrightarrow>
     (\<exists>e b c. lookupMemberEntryInSessionDb uiSSRC db = Some e \<and> me_bInit (mem_base e) \<and> tracks mm b M c (mem_base e))"

fun numbered_run :: "nat \<Rightarrow> nat \<Rightarrow> nat list \<Rightarrow> bool" where
  "numbered_run mm M [] \<longleftrightarrow> True"
| "numbered_run mm M (n # ns) \<longleftrightarrow> acceptable mm M n \<and> n div 65536 = max M n div 65536 \<and> numbered_run mm (max M n) ns"

lemma process_keeps_init: "me_bInit (processRtpPacket t sn ts arr m) = me_bInit m"
  by (simp add: processRtpPacket_def update_jitter_def update_seq_def init_seq_def Let_def)

lemma received_entry:
  assumes "tracks mm b M c m" and "acceptable mm M n" and "rh_uiSN (rp_header p) = of_nat n"
  shows "tracks mm b (max M n) (Suc c) (snd (snd (snd (onReceiveRtpPacket t p f m))))"
    and "me_bInit (snd (snd (snd (onReceiveRtpPacket t p f m)))) = me_bInit m"
proof -
  have sn: "(ucast (getSequenceNumber p) :: u16) = of_nat n"
    unfolding getSequenceNumber_def assms(3) by (rule ucast_u16_u32)
  show "tracks mm b (max M n) (Suc c) (snd (snd (snd (onReceiveRtpPacket t p f m))))"
    using tracks_processRtpPacket [OF assms(1,2)] sn by (simp add: onReceiveRtpPacket_def Let_def tracks_def)
  show "me_bInit (snd (snd (snd (onReceiveRtpPacket t p f m)))) = me_bInit m"
    by (simp add: onReceiveRtpPacket_def Let_def process_keeps_init)
qed

lemma received_number:
  assumes "tracks mm b M c m" and "acceptable mm M n" and "rh_uiSN (rp_header p) = of_nat n" and "n div 65536 = max M n div 65536"
  shows "fst (onReceiveRtpPacket t p f m) = setExtendedSequenceNumber (of_nat n) p"
proof -
  have "rp_uiExtendedSequenceNumber (fst (onReceiveRtpPacket t p f m)) = of_nat n"
    using extended_number_stored [OF assms(1-3)] assms(4) by (metis mult_div_mod_eq)
  then show ?thesis by (auto simp: onReceiveRtpPacket_def Let_def setExtendedSequenceNumber_def)
qed

lemma incoming_numbered:
  assumes "follows_source uiSSRC mm M db" and "acceptable mm M n" and "n div 65536 = max M n div 65536"
    and "rh_uiSN (rp_header p) = of_nat n" and "rh_uiSSRC (rp_header p) = uiSSRC"
  shows "\<exists>v s tp db'. processIncomingRtpPacket st par t p f db = Inr (setExtendedSequenceNumber (of_nat n) p, v, s, tp, db')
    \<and> follows_source uiSSRC mm (max M n) db'"
proof -
  obtain e b c where e: "lookupMemberEntryInSessionDb uiSSRC db = Some e" "me_bInit (mem_base e)" "tracks mm b M c (mem_base e)"
    using assms(1) by (auto simp: follows_source_def)
  let ?db1 = "processParticipant st par t uiSSRC p db"
  have l1: "lookupMemberEntryInSessionDb uiSSRC ?db1 = Some e" by (rule participant_keeps_entry [OF e(1,2)])
  obtain p1 s tp m1 where r: "onReceiveRtpPacket t p f (mem_base e) = (p1, s, tp, m1)" by (rule prod_cases4)
  have p1: "p1 = setExtendedSequenceNumber (of_nat n) p" using received_number [OF e(3) assms(2,4,3), of t f] r by simp
  have m1: "tracks mm b (max M n) (Suc c) m1" "me_bInit m1"
    using received_entry [OF e(3) assms(2,4), of t f] r e(2) by simp_all
  let ?db2 = "update_member uiSSRC (mem_map (\<lambda>_. m1)) ?db1"
  have "lookupMemberEntryInSessionDb uiSSRC ?db2 = Some (mem_map (\<lambda>_. m1) e)" by (simp add: lookup_after_update l1)
  then have "lookupMemberEntryInSessionDb uiSSRC (fold (\<lambda>k db. processParticipant st par t k p1 db) (rh_vCCs (rp_header p)) ?db2)
      = Some (mem_map (\<lambda>_. m1) e)" by (rule participants_keep_entry) (simp add: m1(2))
  then have "follows_source uiSSRC mm (max M n) (fold (\<lambda>k db. processParticipant st par t k p1 db) (rh_vCCs (rp_header p)) ?db2)"
    unfolding follows_source_def using m1 by (intro exI [of _ "mem_map (\<lambda>_. m1) e"] exI [of _ b] exI [of _ "Suc c"]) simp
  then show ?thesis using l1 r p1 assms(5) unfolding processIncomingRtpPacket_def Let_def by simp
qed

lemma register_numbered:
  assumes "follows_source (rh_uiSSRC (rp_header p)) mm M (si_pSessionDb s)" and "acceptable mm M n"
    and "n div 65536 = max M n div 65536" and "rh_uiSN (rp_header p) = of_nat n"
  shows "\<exists>q sy tp s1 st. register_packet t p s = Inr (q, sy, tp, s1) \<and> rp_header q = rp_header p \<and> rp_rtpPayload q = rp_rtpPayload p
    \<and> getExtendedSequenceNumber q = of_nat n \<and> rp_tArrival q = rp_tArrival p
    \<and> follows_source (rh_uiSSRC (rp_header p)) mm (max M n) (si_pSessionDb s1) \<and> si_manager s1 = (si_manager s)\<lparr>rsm_state := st\<rparr>"
proof -
  let ?m = "si_manager s" and ?p = "p\<lparr>rp_uiRtpArrivalTimestamp := arrival_rtp_timestamp (rp_tArrival p)
    (sp_uiRtpTimestampFrequency (rsm_parameters (si_manager s))) (ss_uiRtpTimestampBase (rsm_state (si_manager s)))\<rparr>"
  define st1 where "st1 = (if \<not> isRtxPayloadType (rh_uiPT (rp_header p)) (rsm_parameters ?m) \<and> rh_uiSSRC (rp_header p) \<noteq> ss_uiRemoteSSRC (rsm_state ?m)
    then (rsm_state ?m)\<lparr>ss_uiRemoteSSRC := rh_uiSSRC (rp_header p)\<rparr> else rsm_state ?m)"
  obtain v sy tp db where r: "processIncomingRtpPacket st1 (rsm_parameters ?m) t ?p (sp_uiRtpTimestampFrequency (rsm_parameters ?m)) (si_pSessionDb s)
      = Inr (setExtendedSequenceNumber (of_nat n) ?p, v, sy, tp, db)"
    and f: "follows_source (rh_uiSSRC (rp_header p)) mm (max M n) db"
    using incoming_numbered [OF assms(1-3), of ?p st1 "rsm_parameters ?m" t "sp_uiRtpTimestampFrequency (rsm_parameters ?m)"] assms(4) by auto
  have "register_packet t p s = map_sum id (\<lambda>(packet, v, sy, tp, db). (packet, sy, tp, s\<lparr>si_pSessionDb := db, si_manager := ?m\<lparr>rsm_state := st1\<rparr>\<rparr>))
      (processIncomingRtpPacket st1 (rsm_parameters ?m) t ?p (sp_uiRtpTimestampFrequency (rsm_parameters ?m)) (si_pSessionDb s))"
    unfolding register_packet_def Let_def st1_def by simp
  then have "register_packet t p s = Inr (setExtendedSequenceNumber (of_nat n) ?p, sy, tp, s\<lparr>si_pSessionDb := db, si_manager := ?m\<lparr>rsm_state := st1\<rparr>\<rparr>)"
    unfolding r by simp
  moreover have "setSequenceNumber (ucast (of_nat n :: u32)) (rp_header p) = rp_header p"
  proof -
    have "(ucast (of_nat n :: u32) :: u16) = of_nat n"
      by (rule bit_word_eqI) (auto simp: bit_simps)
    then show ?thesis unfolding setSequenceNumber_def using assms(4) by simp
  qed
  ultimately show ?thesis using f
    by (intro exI [of _ "setExtendedSequenceNumber (of_nat n) ?p"] exI [of _ sy] exI [of _ tp] exI [of _ "s\<lparr>si_pSessionDb := db, si_manager := ?m\<lparr>rsm_state := st1\<rparr>\<rparr>"] exI [of _ st1])
      (simp add: setExtendedSequenceNumber_def getExtendedSequenceNumber_def)
qed

end
