(* ===== verification/Unit_Delivery.thy ===== *)
theory Unit_Delivery
  imports Loss_Recovery Session_Input
begin

text \<open>
  An access unit from one application to the other: a session packetises its samples and numbers the packets
  (\<open>RtpSession.cpp\<close>); the session of the receiver numbers what arrives without wrap-around, its manager puts it
  into the playout buffer and, when the playout timer fires, hands the samples to the application
  (\<open>RtpSessionManager.cpp\<close>), whatever the network did to the order of the packets.
\<close>

section \<open>The headers of a session\<close>

lemma set_headers_values:
  "\<exists>qs. set_headers io RS_NONE uiId ts m l ps st = Inr (qs, st\<lparr>ss_uiSequenceNumber := ss_uiSequenceNumber st + of_nat (length ps)\<rparr>)
    \<and> map rp_rtpPayload qs = map rp_rtpPayload ps
    \<and> map (\<lambda>q. rh_uiSN (rp_header q)) qs = map (\<lambda>i. ss_uiSequenceNumber st + of_nat i) [0..<length ps]
    \<and> (\<forall>q\<in>set qs. getRtpTimestamp q = ts \<and> rh_uiPT (rp_header q) = ss_uiCurrentPayloadType st \<and> rh_uiSSRC (rp_header q) = ss_uiSSRC st)"
proof (induction ps arbitrary: st)
  case (Cons p ps)
  let ?sn = "ss_uiSequenceNumber st" and ?st = "st\<lparr>ss_uiSequenceNumber := ss_uiSequenceNumber st + 1\<rparr>"
  obtain q where q: "set_header ts st p = (q, ?st)" "rp_rtpPayload q = rp_rtpPayload p" "rh_uiSN (rp_header q) = ?sn" "getRtpTimestamp q = ts"
    "rh_uiPT (rp_header q) = ss_uiCurrentPayloadType st" "rh_uiSSRC (rp_header q) = ss_uiSSRC st"
    by (simp_all add: set_header_def getNextSequenceNumber_def setSSRC_def setRtpTimestamp_def setSequenceNumber_def setPayloadType_def getRtpTimestamp_def)
  obtain qs where qs: "set_headers io RS_NONE uiId ts m l ps ?st = Inr (qs, ?st\<lparr>ss_uiSequenceNumber := ss_uiSequenceNumber ?st + of_nat (length ps)\<rparr>)"
    "map rp_rtpPayload qs = map rp_rtpPayload ps"
    "map (\<lambda>q. rh_uiSN (rp_header q)) qs = map (\<lambda>i. ss_uiSequenceNumber ?st + of_nat i) [0..<length ps]"
    "\<forall>q\<in>set qs. getRtpTimestamp q = ts \<and> rh_uiPT (rp_header q) = ss_uiCurrentPayloadType st \<and> rh_uiSSRC (rp_header q) = ss_uiSSRC st"
    using Cons.IH [of ?st] by auto
  have "[0..<length (p # ps)] = 0 # map Suc [0..<length ps]" by (simp add: map_Suc_upt upt_conv_Cons del: upt_Suc)
  then show ?case using q qs by (intro exI [of _ "q # qs"]) (simp add: comp_def add.assoc del: upt_Suc)
qed simp

lemma packetised_unit:
  assumes "rs_state rs = SS_STARTED" and "rs_eRapidSyncMode rs = RS_NONE" and "samples \<noteq> []"
    and "pp samples pk = Some (Inr (ps, pk'))" and "ps \<noteq> []"
  shows "\<exists>qs rs'. RtpSession_doPacketise io pp samples ts m l pk rs = Some (Inr (qs, pk', rs'))
    \<and> map rp_rtpPayload qs = map rp_rtpPayload ps
    \<and> map (\<lambda>q. rh_uiSN (rp_header q)) qs = map (\<lambda>i. ss_uiSequenceNumber (rs_rtpSessionState rs) + of_nat i) [0..<length ps]
    \<and> (\<forall>q\<in>set qs. getRtpTimestamp q = ts \<and> rh_uiPT (rp_header q) = ss_uiCurrentPayloadType (rs_rtpSessionState rs)
         \<and> rh_uiSSRC (rp_header q) = ss_uiSSRC (rs_rtpSessionState rs))
    \<and> ss_uiSequenceNumber (rs_rtpSessionState rs') = ss_uiSequenceNumber (rs_rtpSessionState rs) + of_nat (length ps)
    \<and> rs_uiLastAUStartSN rs' = ss_uiSequenceNumber (rs_rtpSessionState rs)"
proof -
  let ?st = "rs_rtpSessionState rs"
  obtain qs where qs: "set_headers io RS_NONE (rs_uiRapidSyncExtmapId rs) ts m l ps ?st = Inr (qs, ?st\<lparr>ss_uiSequenceNumber := ss_uiSequenceNumber ?st + of_nat (length ps)\<rparr>)"
    and v: "map rp_rtpPayload qs = map rp_rtpPayload ps"
    "map (\<lambda>q. rh_uiSN (rp_header q)) qs = map (\<lambda>i. ss_uiSequenceNumber ?st + of_nat i) [0..<length ps]"
    "\<forall>q\<in>set qs. getRtpTimestamp q = ts \<and> rh_uiPT (rp_header q) = ss_uiCurrentPayloadType ?st \<and> rh_uiSSRC (rp_header q) = ss_uiSSRC ?st"
    using set_headers_values [of io "rs_uiRapidSyncExtmapId rs" ts m l ps ?st] by blast
  have ne: "qs \<noteq> []" using v(1) assms(5) by auto
  then obtain q qs' where q: "qs = q # qs'" by (cases qs) auto
  have "length qs = length ps" using arg_cong [OF v(1), of length] by simp
  then have "rh_uiSN (rp_header q) = ss_uiSequenceNumber ?st"
    using arg_cong [OF v(2), of hd] q assms(5) by (simp add: hd_map upt_conv_Cons del: upt_Suc)
  then show ?thesis using assms(1-4) qs v q ne
    by (simp add: RtpSession_doPacketise_def setRtpHeaderValues_def getSequenceNumber_def unsigned_ucast_eq take_bit_word_eq_self)
qed

section \<open>Packets in the playout buffer\<close>

definition packet_view :: "RtpPacket \<Rightarrow> u32 \<times> bytes" where
  "packet_view q = (getExtendedSequenceNumber q, rp_rtpPayload q)"

lemma numbered_views: "map packet_view ps = map packet_view qs \<Longrightarrow> numbered sn ps = numbered sn qs"
proof (induction ps arbitrary: qs sn)
  case (Cons p ps)
  then obtain q qs' where q: "qs = q # qs'" "packet_view p = packet_view q" "map packet_view ps = map packet_view qs'" by (cases qs) simp_all
  then have "getExtendedSequenceNumber p = getExtendedSequenceNumber q" by (simp add: packet_view_def)
  then show ?case using Cons.IH [OF q(3)] q(1) by simp
qed simp

lemma payload_views: "map packet_view ps = map packet_view qs \<Longrightarrow> map rp_rtpPayload ps = map rp_rtpPayload qs"
proof -
  assume "map packet_view ps = map packet_view qs"
  then have "map snd (map packet_view ps) = map snd (map packet_view qs)" by (rule arg_cong)
  then show ?thesis by (simp add: packet_view_def comp_def)
qed

text \<open>The group depends on the numbers and payloads only, not on when a packet arrived.\<close>

lemma group_restores_views:
  assumes "packet_view ` set (p # arr) = packet_view ` set (numbered_from sn pkts)" and "sint sn + int (length pkts) < 2 ^ 31" and "length pkts < 2 ^ 31"
  shows "map packet_view (pg_rtpPacketList (fold (\<lambda>p g. snd (RtpPacketGroup_insert p g)) arr (RtpPacketGroup_create p tPres b tPlay)))
    = map packet_view (numbered_from sn pkts)"
proof -
  let ?g = "fold (\<lambda>p g. snd (RtpPacketGroup_insert p g)) arr (RtpPacketGroup_create p tPres b tPlay)" and ?ps = "numbered_from sn pkts"
  let ?sn = "\<lambda>v :: u32 \<times> bytes. sint (fst v)"
  have v: "sn_of q = ?sn (packet_view q)" for q by (simp add: sn_of_def packet_view_def)
  have sns: "map ?sn (map packet_view ?ps) = map (\<lambda>i. sint sn + int i) [0..<length pkts]"
    using map_sn_numbered_from [OF assms(2)] unfolding v map_map comp_def .
  have sp: "spread (getExtendedSequenceNumber ` set (p # arr))"
  proof -
    have "getExtendedSequenceNumber ` set (p # arr) = fst ` packet_view ` set ?ps"
      unfolding assms(1) [symmetric] by (simp add: image_image packet_view_def)
    moreover have "sint (fst a) \<in> {sint sn..<sint sn + int (length pkts)}" if "a \<in> packet_view ` set ?ps" for a
    proof -
      have "sint (fst a) \<in> set (map ?sn (map packet_view ?ps))" using that by auto
      then show ?thesis unfolding sns by auto
    qed
    ultimately have near: "sint a \<in> {sint sn..<sint sn + int (length pkts)}" if "a \<in> getExtendedSequenceNumber ` set (p # arr)" for a
      using that by (metis (no_types, lifting) imageE)
    have "int (length pkts) < 2 ^ 31" using assms(3) by simp
    then have "\<bar>x - y\<bar> < 2 ^ 31 - 1" if "x \<in> {z..<z + int (length pkts)}" "y \<in> {z..<z + int (length pkts)}" for x y z using that by auto
    then show ?thesis unfolding spread_def using near by blast
  qed
  have first: "pg_receivedSequenceNumbers (RtpPacketGroup_create p tPres b tPlay) = {getExtendedSequenceNumber p}" by (simp add: RtpPacketGroup_create_def)
  have inv: "group_inv ?g" and rec: "pg_receivedSequenceNumbers ?g = getExtendedSequenceNumber ` set (p # arr)"
    using insert_run [OF group_inv_create, of p tPres b tPlay arr] sp unfolding first by simp_all
  have sub: "set (pg_rtpPacketList ?g) \<subseteq> set (p # arr)"
    using insert_run_packets [of arr "RtpPacketGroup_create p tPres b tPlay"] by (simp add: RtpPacketGroup_create_def)
  have views: "packet_view ` set (pg_rtpPacketList ?g) \<subseteq> set (map packet_view ?ps)" using sub assms(1) by auto
  have dist: "distinct (map ?sn (map packet_view ?ps))" and sorted: "sorted (map ?sn (map packet_view ?ps))"
    unfolding sns by (simp_all add: distinct_map inj_on_def sorted_map)
  have e: "getExtendedSequenceNumber ` S = fst ` packet_view ` S" for S by (simp add: packet_view_def image_image)
  have "getExtendedSequenceNumber ` set (pg_rtpPacketList ?g) = getExtendedSequenceNumber ` set (p # arr)"
    using inv rec unfolding group_inv_def by metis
  then have f: "fst ` packet_view ` set (pg_rtpPacketList ?g) = fst ` set (map packet_view ?ps)"
    unfolding e assms(1) by (simp only: set_map)
  have nums: "?sn ` set (map packet_view (pg_rtpPacketList ?g)) = ?sn ` set (map packet_view ?ps)"
    using arg_cong [OF f, of "image sint"] by (simp only: image_image set_map)
  have inj: "inj_on ?sn (set (map packet_view ?ps))" using dist by (simp only: distinct_map)
  have same: "set (map packet_view (pg_rtpPacketList ?g)) = set (map packet_view ?ps)"
  proof
    show "set (map packet_view (pg_rtpPacketList ?g)) \<subseteq> set (map packet_view ?ps)" using views by simp
    show "set (map packet_view ?ps) \<subseteq> set (map packet_view (pg_rtpPacketList ?g))"
    proof
      fix a assume a: "a \<in> set (map packet_view ?ps)"
      then have "?sn a \<in> ?sn ` set (map packet_view (pg_rtpPacketList ?g))" unfolding nums by (rule imageI)
      then obtain c where c: "?sn a = ?sn c" "c \<in> set (map packet_view (pg_rtpPacketList ?g))" by (rule imageE)
      have "c \<in> set (map packet_view ?ps)" using c(2) views by (simp only: set_map subset_iff)
      from inj_onD [OF inj c(1) a this] c(2) show "a \<in> set (map packet_view (pg_rtpPacketList ?g))" by simp
    qed
  qed
  have "sorted_wrt (<) (map ?sn (map packet_view (pg_rtpPacketList ?g)))" using inv unfolding group_inv_def v map_map comp_def by blast
  then have "sorted (map ?sn (map packet_view (pg_rtpPacketList ?g)))" "distinct (map ?sn (map packet_view (pg_rtpPacketList ?g)))"
    by (simp_all only: strict_sorted_iff)
  then show ?thesis
    by (intro map_sorted_distinct_set_unique [of ?sn]) (use sorted dist same inj in \<open>simp_all only: Un_absorb\<close>)
qed

section \<open>Arrivals at the session\<close>

text \<open>
  What arrives of the packets of a unit: the clock, the timer that may be allocated, the index of the packet, and the
  time that the network stamped on it.
\<close>

type_synonym arrival = "int \<times> nat \<times> nat \<times> ptime"

abbreviation index_of :: "arrival \<Rightarrow> nat" where
  "index_of e \<equiv> fst (snd (snd e))"

fun arriving :: "RtpPacket list \<Rightarrow> arrival \<Rightarrow> RtpPacket" where
  "arriving pkts (tNow, k, i, tArrival) = (pkts ! i)\<lparr>rp_tArrival := tArrival\<rparr>"

fun receive_unit ::
  "('i, 'o) bit_io \<Rightarrow> (nat \<Rightarrow> u8) \<Rightarrow> u32 \<Rightarrow> RtpPacket list \<Rightarrow> arrival list \<Rightarrow> RtpJitterBufferV2 SessionInput \<Rightarrow>
     fault + (manager_out list \<times> RtpJitterBufferV2 SessionInput)" where
  "receive_unit io beyond ep pkts [] s = Inr ([], s)"
| "receive_unit io beyond ep pkts ((tNow, k, i, tArrival) # es) s =
     (case RtpSession_onIncomingRtp io beyond RtpJitterBufferV2_addRtpPacket tNow k ep (arriving pkts (tNow, k, i, tArrival)) s of
        Inl f \<Rightarrow> Inl f
      | Inr (out, s1) \<Rightarrow> map_sum id (apfst ((@) out)) (receive_unit io beyond ep pkts es s1))"

definition playout_timers :: "manager_out list \<Rightarrow> (nat \<times> ptime) list" where
  "playout_timers out = concat (map (\<lambda>x. case x of PlayoutTimer k t \<Rightarrow> [(k, t)] | _ \<Rightarrow> []) out)"

text \<open>The manager is ready for packets of the payload type: they are no retransmissions, and there is a feedback manager if one is needed.\<close>

definition ready :: "u8 \<Rightarrow> 'b RtpSessionManager \<Rightarrow> bool" where
  "ready pt m \<longleftrightarrow> sp_uiRtxPt (rsm_parameters m) \<noteq> pt \<and> (isRetransmissionEnabled (rsm_parameters m) \<longrightarrow> rsm_pFeedbackManager m \<noteq> None)"

lemma incoming_buffered:
  assumes "ready (rh_uiPT (rp_header p)) m" and "\<not> rsm_bAnalyse m"
    and "add t p tp s (rsm_pReceiverBuffer m) = Inr (tPlayout, r, b)"
  shows "\<exists>out m'. doHandleIncomingRtp io beyond add t k (p, None) s tp m = Inr (out, m')
    \<and> playout_timers out = (if ar_bNewNode r then [(k, tPlayout)] else []) \<and> rsm_pReceiverBuffer m' = b
    \<and> rsm_mPlayoutTimers m' = (if ar_bNewNode r then List.insert k (rsm_mPlayoutTimers m) else rsm_mPlayoutTimers m)
    \<and> rsm_bMediaCallback m' = rsm_bMediaCallback m \<and> \<not> rsm_bAnalyse m' \<and> (\<forall>pt. ready pt m \<longrightarrow> ready pt m')"
proof -
  have lossy: "playout_timers (map onPacketAssumedLost ls) = []" for ls by (induction ls) (simp_all add: playout_timers_def onPacketAssumedLost_def)
  obtain ls fm' where i: "incoming_original (p, None) m = Inr (map onPacketAssumedLost ls, m\<lparr>rsm_pFeedbackManager := fm',
      rsm_pTxManager := TransmissionManager_onPacketReceived p (rsm_pTxManager m)\<rparr>)"
    and fm: "isRetransmissionEnabled (rsm_parameters m) \<longrightarrow> fm' \<noteq> None" "\<not> isRetransmissionEnabled (rsm_parameters m) \<longrightarrow> fm' = rsm_pFeedbackManager m"
  proof (cases "isRetransmissionEnabled (rsm_parameters m)")
    case True
    then obtain fm where fm: "rsm_pFeedbackManager m = Some fm" using assms(1) by (auto simp: ready_def)
    obtain fm1 ls where "FeedbackManager_onPacketArrival (rp_tArrival p) (getExtendedSequenceNumber p) fm = (fm1, ls)"
      by (cases "FeedbackManager_onPacketArrival (rp_tArrival p) (getExtendedSequenceNumber p) fm")
    then show thesis using True fm that [of ls "Some fm1"] by (simp add: incoming_original_def)
  next
    case False
    then show thesis using that [of "[]" "rsm_pFeedbackManager m"] by (simp add: incoming_original_def)
  qed
  have rtx: "\<not> isRtxPayloadType (rh_uiPT (rp_header p)) (rsm_parameters m)" using assms(1) by (auto simp: ready_def isRtxPayloadType_def)
  have tail: "playout_timers (map onPacketAssumedLost ls @ SchedulerIncomingRtp (p, None) # out) = playout_timers out" for out
    using lossy [of ls] by (simp add: playout_timers_def)
  show ?thesis
    using i fm rtx assms(2,3) by (simp add: doHandleIncomingRtp_def buffer_packet_def Let_def tail)
      (simp add: playout_timers_def ready_def)
qed

lemma v2_clocked:
  assumes "ij_uiClockFrequency b \<noteq> 0"
  shows "\<exists>due b1. RtpJitterBufferV2_calculatePlayoutTime p tp sy b = Inr (due, b1) \<and> v2_playoutBufferList b1 = v2_playoutBufferList b
    \<and> v2_recentHistory b1 = v2_recentHistory b \<and> ij_uiClockFrequency b1 = ij_uiClockFrequency b
    \<and> (v2_tFirstPacket b = None \<longrightarrow> due = pt_add (rp_tArrival p) (milliseconds (ij_uiPlayoutBufferLatencyMs b)))"
proof -
  have "\<exists>s1. v2_synchronise p tp sy b = Inr s1 \<and> v2_playoutBufferList s1 = v2_playoutBufferList b
    \<and> v2_recentHistory s1 = v2_recentHistory b \<and> ij_uiClockFrequency s1 = ij_uiClockFrequency b
    \<and> v2_tFirstPacket s1 = v2_tFirstPacket b \<and> ij_uiPlayoutBufferLatencyMs s1 = ij_uiPlayoutBufferLatencyMs b"
    using assms by (cases "\<not> v2_bRtcpSync b \<and> sy") (simp_all only: v2_synchronise_def Let_def if_True if_False, simp_all)
  then obtain s1 where s1: "v2_synchronise p tp sy b = Inr s1" "v2_playoutBufferList s1 = v2_playoutBufferList b"
    "v2_recentHistory s1 = v2_recentHistory b" "ij_uiClockFrequency s1 = ij_uiClockFrequency b"
    "v2_tFirstPacket s1 = v2_tFirstPacket b" "ij_uiPlayoutBufferLatencyMs s1 = ij_uiPlayoutBufferLatencyMs b" by (elim exE conjE) (rule that)
  show ?thesis
    by (cases "v2_tFirstPacket b"; cases "v2_tFirstSyncedPts s1")
      (simp_all add: RtpJitterBufferV2_calculatePlayoutTime_def Let_def s1)
qed

lemma update_group_none: "\<forall>g\<in>set l. \<not> P g \<Longrightarrow> update_group P p l = None"
  by (induction l) simp_all

lemma v2_first_packet:
  assumes "RtpJitterBufferV2_calculatePlayoutTime p tp sy b = Inr (Some due, b1)" and "t \<le> due"
    and "v2_playoutBufferList b = []" and "\<forall>g\<in>set (v2_recentHistory b). pg_uiRtpTs g \<noteq> getRtpTimestamp p" and "ij_uiClockFrequency b \<noteq> 0"
  shows "\<exists>b'. RtpJitterBufferV2_addRtpPacket t p tp sy b = Inr (Some due, new_node, b')
    \<and> v2_playoutBufferList b' = [RtpPacketGroup_create p tp sy (Some due)] \<and> ij_uiClockFrequency b' = ij_uiClockFrequency b"
proof -
  have b1: "v2_playoutBufferList b1 = []" "v2_recentHistory b1 = v2_recentHistory b" "ij_uiClockFrequency b1 = ij_uiClockFrequency b"
    using v2_clocked [OF assms(5), of p tp sy] assms(1,3) by auto
  have "update_group (\<lambda>g. getRtpTimestamp p = pg_uiRtpTs g) p (rev (v2_recentHistory b)) = None"
    by (rule update_group_none) (use assms(4) in auto)
  then show ?thesis using assms(1,2) b1
    by (simp add: RtpJitterBufferV2_addRtpPacket_def addRtpPacket_def RtpJitterBufferV2_doAddRtpPacket_def Let_def pt_less_def insertAccordingToPts_def insert_after_last_def)
qed

lemma v2_next_packet:
  assumes "v2_playoutBufferList b = [g]" and "getRtpTimestamp p = pg_uiRtpTs g" and "ij_uiClockFrequency b \<noteq> 0"
  shows "\<exists>due d b'. RtpJitterBufferV2_addRtpPacket t p tp sy b = Inr (due, updated_node d, b')
    \<and> v2_playoutBufferList b' = [snd (RtpPacketGroup_insert p g)] \<and> ij_uiClockFrequency b' = ij_uiClockFrequency b"
proof -
  obtain d g' where i: "RtpPacketGroup_insert p g = (d, g')" by (cases "RtpPacketGroup_insert p g")
  obtain due b1 where "RtpJitterBufferV2_calculatePlayoutTime p tp sy b = Inr (due, b1)" "v2_playoutBufferList b1 = [g]"
    "ij_uiClockFrequency b1 = ij_uiClockFrequency b" using v2_clocked [OF assms(3), of p tp sy] assms(1) by auto
  then show ?thesis using assms(2) i
    by (intro exI [of _ due] exI [of _ d])
      (simp add: RtpJitterBufferV2_addRtpPacket_def addRtpPacket_def RtpJitterBufferV2_doAddRtpPacket_def Let_def)
qed

lemma insert_timestamp: "pg_uiRtpTs (snd (RtpPacketGroup_insert p g)) = pg_uiRtpTs g"
  by (simp add: RtpPacketGroup_insert_def append_packet_def reorder_packet_def Let_def)

text \<open>A packet of the source that has entered the database reaches the buffer.\<close>

lemma registered_buffered:
  assumes "register_packet t p s = Inr (q, sy, tp, s1)" and "si_manager s1 = (si_manager s)\<lparr>rsm_state := st\<rparr>"
    and "ready (rh_uiPT (rp_header q)) (si_manager s)" and "\<not> rsm_bAnalyse (si_manager s)"
    and "add t q tp sy (rsm_pReceiverBuffer (si_manager s)) = Inr (due, r, b)"
  shows "\<exists>out s'. RtpSession_onIncomingRtp io beyond add t k ep p s = Inr (out, s')
    \<and> playout_timers out = (if ar_bNewNode r then [(k, due)] else []) \<and> si_pSessionDb s' = si_pSessionDb s1
    \<and> rsm_pReceiverBuffer (si_manager s') = b
    \<and> rsm_mPlayoutTimers (si_manager s') = (if ar_bNewNode r then List.insert k (rsm_mPlayoutTimers (si_manager s)) else rsm_mPlayoutTimers (si_manager s))
    \<and> rsm_bMediaCallback (si_manager s') = rsm_bMediaCallback (si_manager s) \<and> \<not> rsm_bAnalyse (si_manager s')
    \<and> (\<forall>pt. ready pt (si_manager s) \<longrightarrow> ready pt (si_manager s'))"
proof -
  have m: "ready pt (si_manager s1) = ready pt (si_manager s)" for pt by (simp add: assms(2) ready_def)
  have "ready (rh_uiPT (rp_header q)) (si_manager s1)" "\<not> rsm_bAnalyse (si_manager s1)"
    "add t q tp sy (rsm_pReceiverBuffer (si_manager s1)) = Inr (due, r, b)" using assms(2-5) m by simp_all
  from incoming_buffered [where add = add and io = io and beyond = beyond and k = k, OF this] obtain out m' where
    "doHandleIncomingRtp io beyond add t k (q, None) sy tp (si_manager s1) = Inr (out, m')"
    "playout_timers out = (if ar_bNewNode r then [(k, due)] else [])" "rsm_pReceiverBuffer m' = b"
    "rsm_mPlayoutTimers m' = (if ar_bNewNode r then List.insert k (rsm_mPlayoutTimers (si_manager s1)) else rsm_mPlayoutTimers (si_manager s1))"
    "rsm_bMediaCallback m' = rsm_bMediaCallback (si_manager s1)" "\<not> rsm_bAnalyse m'" "\<forall>pt. ready pt (si_manager s1) \<longrightarrow> ready pt m'"
    by blast
  then show ?thesis using assms(1,2) m by (simp add: RtpSession_onIncomingRtp_def)
qed

section \<open>The packets of a unit in the buffer\<close>

text \<open>A playing receiver whose buffer is empty and has not played a unit of this timestamp lately.\<close>

definition idle_receiver :: "u8 \<Rightarrow> u32 \<Rightarrow> RtpJitterBufferV2 RtpSessionManager \<Rightarrow> bool" where
  "idle_receiver pt ts m \<longleftrightarrow> ready pt m \<and> \<not> rsm_bAnalyse m \<and> rsm_bMediaCallback m
     \<and> ij_uiClockFrequency (rsm_pReceiverBuffer m) \<noteq> 0 \<and> v2_playoutBufferList (rsm_pReceiverBuffer m) = []
     \<and> (\<forall>g\<in>set (v2_recentHistory (rsm_pReceiverBuffer m)). pg_uiRtpTs g \<noteq> ts)"

text \<open>
  What the session makes of a first packet that is not late: whether its source is synchronised, its presentation time
  and the playout time that the buffer works out.
\<close>

definition plays_at :: "int \<Rightarrow> RtpPacket \<Rightarrow> RtpJitterBufferV2 SessionInput \<Rightarrow> bool \<Rightarrow> ptime \<Rightarrow> int \<Rightarrow> bool" where
  "plays_at t p s sy tp due \<longleftrightarrow> t \<le> due \<and>
     (\<exists>q s1 b. register_packet t p s = Inr (q, sy, tp, s1)
        \<and> RtpJitterBufferV2_calculatePlayoutTime q tp sy (rsm_pReceiverBuffer (si_manager s1)) = Inr (Some due, b))"

text \<open>Packets of one unit, numbered from \<open>n0\<close> by the sender.\<close>

definition unit_packets :: "u32 \<Rightarrow> u8 \<Rightarrow> u32 \<Rightarrow> nat \<Rightarrow> RtpPacket list \<Rightarrow> bool" where
  "unit_packets ts pt uiSSRC n0 pkts \<longleftrightarrow>
     (\<forall>i<length pkts. rh_uiSN (rp_header (pkts ! i)) = of_nat (n0 + i) \<and> getRtpTimestamp (pkts ! i) = ts
        \<and> rh_uiPT (rp_header (pkts ! i)) = pt \<and> rh_uiSSRC (rp_header (pkts ! i)) = uiSSRC)"

definition arrival_view :: "RtpPacket list \<Rightarrow> nat \<Rightarrow> arrival \<Rightarrow> u32 \<times> bytes" where
  "arrival_view pkts n0 e = (of_nat (n0 + index_of e), rp_rtpPayload (pkts ! index_of e))"

lemma arrival_registered:
  assumes "unit_packets ts pt uiSSRC n0 pkts" and "i < length pkts" and "follows_source uiSSRC mm M (si_pSessionDb s)"
    and "acceptable mm M (n0 + i)" and "(n0 + i) div 65536 = max M (n0 + i) div 65536"
  shows "\<exists>q sy tp s1 st. register_packet t (arriving pkts (t, k, i, tA)) s = Inr (q, sy, tp, s1)
    \<and> packet_view q = arrival_view pkts n0 (t, k, i, tA) \<and> getRtpTimestamp q = ts \<and> rh_uiPT (rp_header q) = pt \<and> rp_tArrival q = tA
    \<and> follows_source uiSSRC mm (max M (n0 + i)) (si_pSessionDb s1) \<and> si_manager s1 = (si_manager s)\<lparr>rsm_state := st\<rparr>"
proof -
  have u: "rh_uiSN (rp_header (pkts ! i)) = of_nat (n0 + i)" "getRtpTimestamp (pkts ! i) = ts" "rh_uiPT (rp_header (pkts ! i)) = pt"
    "rh_uiSSRC (rp_header (pkts ! i)) = uiSSRC" using assms(1,2) by (simp_all add: unit_packets_def)
  have "follows_source (rh_uiSSRC (rp_header (arriving pkts (t, k, i, tA)))) mm M (si_pSessionDb s)"
    "rh_uiSN (rp_header (arriving pkts (t, k, i, tA))) = of_nat (n0 + i)" using assms(3) u by simp_all
  from register_numbered [OF this(1) assms(4,5) this(2), of t] u show ?thesis
    by (fastforce simp: packet_view_def arrival_view_def getRtpTimestamp_def)
qed

lemma receive_rest:
  assumes "v2_playoutBufferList (rsm_pReceiverBuffer (si_manager s)) = [g]" and "ij_uiClockFrequency (rsm_pReceiverBuffer (si_manager s)) \<noteq> 0"
    and "unit_packets (pg_uiRtpTs g) pt uiSSRC n0 pkts" and "\<forall>e\<in>set es. index_of e < length pkts"
    and "follows_source uiSSRC mm M (si_pSessionDb s)" and "numbered_run mm M (map (\<lambda>e. n0 + index_of e) es)"
    and "ready pt (si_manager s)" and "\<not> rsm_bAnalyse (si_manager s)"
  shows "\<exists>out s' qs. receive_unit io beyond ep pkts es s = Inr (out, s') \<and> playout_timers out = []
    \<and> map packet_view qs = map (arrival_view pkts n0) es
    \<and> v2_playoutBufferList (rsm_pReceiverBuffer (si_manager s')) = [fold (\<lambda>p g. snd (RtpPacketGroup_insert p g)) qs g]
    \<and> rsm_mPlayoutTimers (si_manager s') = rsm_mPlayoutTimers (si_manager s) \<and> rsm_bMediaCallback (si_manager s') = rsm_bMediaCallback (si_manager s)
    \<and> follows_source uiSSRC mm (fold max (map (\<lambda>e. n0 + index_of e) es) M) (si_pSessionDb s')"
  using assms
proof (induction es arbitrary: s g M)
  case Nil
  then show ?case by (simp add: playout_timers_def)
next
  case (Cons e es)
  obtain t k i tA where e: "e = (t, k, i, tA)" by (rule prod_cases4)
  let ?n = "n0 + i"
  have i: "i < length pkts" "acceptable mm M ?n" "?n div 65536 = max M ?n div 65536"
    and run: "numbered_run mm (max M ?n) (map (\<lambda>e. n0 + index_of e) es)" using Cons.prems(4,6) e by simp_all
  obtain q sy tp s1 st where r: "register_packet t (arriving pkts e) s = Inr (q, sy, tp, s1)"
    "packet_view q = arrival_view pkts n0 e" "getRtpTimestamp q = pg_uiRtpTs g" "rh_uiPT (rp_header q) = pt"
    and f: "follows_source uiSSRC mm (max M ?n) (si_pSessionDb s1)" and st: "si_manager s1 = (si_manager s)\<lparr>rsm_state := st\<rparr>"
    using arrival_registered [OF Cons.prems(3) i(1) Cons.prems(5) i(2,3), of t k tA] e by blast
  obtain due d b' where b: "RtpJitterBufferV2_addRtpPacket t q tp sy (rsm_pReceiverBuffer (si_manager s)) = Inr (due, updated_node d, b')"
    "v2_playoutBufferList b' = [snd (RtpPacketGroup_insert q g)]" "ij_uiClockFrequency b' \<noteq> 0"
    using v2_next_packet [OF Cons.prems(1) r(3) Cons.prems(2), of t tp sy] Cons.prems(2) by auto
  have rd: "ready (rh_uiPT (rp_header q)) (si_manager s)" using Cons.prems(7) r(4) by simp
  have new: "\<not> ar_bNewNode (updated_node d)" by (simp add: updated_node_def)
  obtain out s2 where s2: "RtpSession_onIncomingRtp io beyond RtpJitterBufferV2_addRtpPacket t k ep (arriving pkts e) s = Inr (out, s2)"
    "playout_timers out = []" "si_pSessionDb s2 = si_pSessionDb s1" "rsm_pReceiverBuffer (si_manager s2) = b'"
    "rsm_mPlayoutTimers (si_manager s2) = rsm_mPlayoutTimers (si_manager s)" "rsm_bMediaCallback (si_manager s2) = rsm_bMediaCallback (si_manager s)"
    "\<not> rsm_bAnalyse (si_manager s2)" and rd2: "\<forall>pt. ready pt (si_manager s) \<longrightarrow> ready pt (si_manager s2)"
    using registered_buffered [where add = RtpJitterBufferV2_addRtpPacket and io = io and beyond = beyond and k = k and ep = ep,
        OF r(1) st rd Cons.prems(8) b(1)] new by auto
  let ?g = "snd (RtpPacketGroup_insert q g)"
  have l: "v2_playoutBufferList (rsm_pReceiverBuffer (si_manager s2)) = [?g]" "ij_uiClockFrequency (rsm_pReceiverBuffer (si_manager s2)) \<noteq> 0"
    using b s2(4) by simp_all
  have u: "unit_packets (pg_uiRtpTs ?g) pt uiSSRC n0 pkts" using Cons.prems(3) by (simp add: insert_timestamp)
  have idx: "\<forall>e\<in>set es. index_of e < length pkts" using Cons.prems(4) by simp
  have f2: "follows_source uiSSRC mm (max M ?n) (si_pSessionDb s2)" using f s2(3) by simp
  obtain out2 s3 qs where s3: "receive_unit io beyond ep pkts es s2 = Inr (out2, s3)" "playout_timers out2 = []"
    "map packet_view qs = map (arrival_view pkts n0) es"
    "v2_playoutBufferList (rsm_pReceiverBuffer (si_manager s3)) = [fold (\<lambda>p g. snd (RtpPacketGroup_insert p g)) qs ?g]"
    "rsm_mPlayoutTimers (si_manager s3) = rsm_mPlayoutTimers (si_manager s2)" "rsm_bMediaCallback (si_manager s3) = rsm_bMediaCallback (si_manager s2)"
    "follows_source uiSSRC mm (fold max (map (\<lambda>e. n0 + index_of e) es) (max M ?n)) (si_pSessionDb s3)"
    using Cons.IH [OF l u idx f2 run rd2 [rule_format, OF Cons.prems(7)] s2(7)] by blast
  have all: "receive_unit io beyond ep pkts (e # es) s = Inr (out @ out2, s3)" using s2(1) s3(1) e by simp
  have "playout_timers (out @ out2) = []" using s2(2) s3(2) by (simp add: playout_timers_def)
  moreover have "map packet_view (q # qs) = map (arrival_view pkts n0) (e # es)" using r(2) s3(3) by simp
  moreover have "fold max (map (\<lambda>e. n0 + index_of e) (e # es)) M = fold max (map (\<lambda>e. n0 + index_of e) es) (max M ?n)"
    by (simp add: e max.commute)
  ultimately show ?case using all s2(5,6) s3(4-7)
    by (intro exI [of _ "out @ out2"] exI [of _ s3] exI [of _ "q # qs"]) (simp only: fold_simps simp_thms)
qed

lemma numbered_from_views: "map packet_view (numbered_from ext ps) = map (\<lambda>i. (ext + of_nat i, rp_rtpPayload (ps ! i))) [0..<length ps]"
proof (induction ps arbitrary: ext)
  case (Cons p ps)
  have "[0..<length (p # ps)] = 0 # map Suc [0..<length ps]" by (simp add: map_Suc_upt upt_conv_Cons del: upt_Suc)
  then show ?case using Cons.IH [of "ext + 1"]
    by (simp add: comp_def add.assoc packet_view_def getExtendedSequenceNumber_def setExtendedSequenceNumber_def del: upt_Suc)
qed simp

lemma arrived_views:
  assumes "map packet_view qs = map (arrival_view pkts n0) es" and "index_of ` set es = {..<length pkts}"
  shows "packet_view ` set qs = packet_view ` set (numbered_from (of_nat n0) pkts)"
proof -
  have "packet_view ` set (numbered_from (of_nat n0) pkts) = (\<lambda>i. (of_nat n0 + of_nat i, rp_rtpPayload (pkts ! i))) ` {..<length pkts}"
    using arg_cong [OF numbered_from_views [of "of_nat n0" pkts], of set] by (simp add: atLeast0LessThan)
  also have "\<dots> = arrival_view pkts n0 ` set es"
    unfolding assms(2) [symmetric] image_image arrival_view_def of_nat_add ..
  also have "\<dots> = packet_view ` set qs" using arg_cong [OF assms(1), of set] by simp
  finally show ?thesis by (rule sym)
qed

section \<open>Properties\<close>

text \<open>The buffer holds the unit as one group, ordered as it was sent, after the first packet has made it.\<close>

lemma unit_received:
  assumes u: "unit_packets ts pt uiSSRC n0 pkts" and idle: "idle_receiver pt ts (si_manager s)" and f: "follows_source uiSSRC mm M (si_pSessionDb s)"
    and idx: "index_of ` set ((t, k, i, a) # es) = {..<length pkts}" and run: "numbered_run mm M (map (\<lambda>e. n0 + index_of e) ((t, k, i, a) # es))"
    and plays: "plays_at t (arriving pkts (t, k, i, a)) s sy tp due"
    and small: "sint (of_nat n0 :: u32) + int (length pkts) < 2 ^ 31" "length pkts < 2 ^ 31"
  shows "\<exists>out s' g. receive_unit io beyond ep pkts ((t, k, i, a) # es) s = Inr (out, s') \<and> playout_timers out = [(k, Some due)]
    \<and> (v2_tFirstPacket (rsm_pReceiverBuffer (si_manager s)) = None \<longrightarrow>
         Some due = pt_add a (milliseconds (ij_uiPlayoutBufferLatencyMs (rsm_pReceiverBuffer (si_manager s)))))
    \<and> follows_source uiSSRC mm (fold max (map (\<lambda>e. n0 + index_of e) ((t, k, i, a) # es)) M) (si_pSessionDb s')
    \<and> v2_playoutBufferList (rsm_pReceiverBuffer (si_manager s')) = [g]
    \<and> map rp_rtpPayload (pg_rtpPacketList g) = map rp_rtpPayload pkts \<and> numbered (of_nat n0) (pg_rtpPacketList g)
    \<and> pg_tPresentation g = tp \<and> pg_bRtcpSynchronised g = sy
    \<and> k \<in> set (rsm_mPlayoutTimers (si_manager s')) \<and> rsm_bMediaCallback (si_manager s')"
proof -
  have i: "i < length pkts" "acceptable mm M (n0 + i)" "(n0 + i) div 65536 = max M (n0 + i) div 65536"
    and rest: "numbered_run mm (max M (n0 + i)) (map (\<lambda>e. n0 + index_of e) es)" using idx run by auto
  have idle': "ready pt (si_manager s)" "\<not> rsm_bAnalyse (si_manager s)" "rsm_bMediaCallback (si_manager s)"
    "ij_uiClockFrequency (rsm_pReceiverBuffer (si_manager s)) \<noteq> 0" "v2_playoutBufferList (rsm_pReceiverBuffer (si_manager s)) = []"
    "\<forall>g\<in>set (v2_recentHistory (rsm_pReceiverBuffer (si_manager s))). pg_uiRtpTs g \<noteq> ts"
    using idle by (simp_all add: idle_receiver_def)
  obtain q s1 b1 where r: "register_packet t (arriving pkts (t, k, i, a)) s = Inr (q, sy, tp, s1)"
    and c1: "RtpJitterBufferV2_calculatePlayoutTime q tp sy (rsm_pReceiverBuffer (si_manager s1)) = Inr (Some due, b1)" and "t \<le> due"
    using plays unfolding plays_at_def by (elim conjE exE) (rule that)
  obtain q1 sy1 tp1 s11 st where r1: "register_packet t (arriving pkts (t, k, i, a)) s = Inr (q1, sy1, tp1, s11)"
    "packet_view q1 = arrival_view pkts n0 (t, k, i, a)" "getRtpTimestamp q1 = ts" "rh_uiPT (rp_header q1) = pt" "rp_tArrival q1 = a"
    "follows_source uiSSRC mm (max M (n0 + i)) (si_pSessionDb s11)" "si_manager s11 = (si_manager s)\<lparr>rsm_state := st\<rparr>"
    using arrival_registered [OF u i(1) f i(2,3), of t k a] by (elim exE conjE) (rule that)
  have same: "q1 = q" "s11 = s1" using r r1(1) by simp_all
  note q = r1(2-5) [unfolded same] and f1 = r1(6) [unfolded same] and st = r1(7) [unfolded same]
  have c: "RtpJitterBufferV2_calculatePlayoutTime q tp sy (rsm_pReceiverBuffer (si_manager s)) = Inr (Some due, b1)" "t \<le> due"
    using c1 \<open>t \<le> due\<close> st by simp_all
  have due: "v2_tFirstPacket (rsm_pReceiverBuffer (si_manager s)) = None \<longrightarrow>
      Some due = pt_add a (milliseconds (ij_uiPlayoutBufferLatencyMs (rsm_pReceiverBuffer (si_manager s))))"
    using v2_clocked [OF idle'(4), of q tp sy] c(1) q(4) by auto
  let ?first = "RtpPacketGroup_create q tp sy (Some due)"
  have hist: "\<forall>g\<in>set (v2_recentHistory (rsm_pReceiverBuffer (si_manager s))). pg_uiRtpTs g \<noteq> getRtpTimestamp q" using idle'(6) q(2) by simp
  obtain b where b: "RtpJitterBufferV2_addRtpPacket t q tp sy (rsm_pReceiverBuffer (si_manager s)) = Inr (Some due, new_node, b)"
    "v2_playoutBufferList b = [?first]" "ij_uiClockFrequency b \<noteq> 0"
    using v2_first_packet [OF c idle'(5) hist idle'(4)] idle'(4) by auto
  have rd: "ready (rh_uiPT (rp_header q)) (si_manager s)" using idle'(1) q(3) by simp
  have nn: "ar_bNewNode new_node = True" by (simp add: new_node_def)
  obtain out s2 where s2: "RtpSession_onIncomingRtp io beyond RtpJitterBufferV2_addRtpPacket t k ep (arriving pkts (t, k, i, a)) s = Inr (out, s2)"
    "playout_timers out = [(k, Some due)]" "si_pSessionDb s2 = si_pSessionDb s1" "rsm_pReceiverBuffer (si_manager s2) = b"
    "rsm_mPlayoutTimers (si_manager s2) = List.insert k (rsm_mPlayoutTimers (si_manager s))"
    "rsm_bMediaCallback (si_manager s2) = rsm_bMediaCallback (si_manager s)" "\<not> rsm_bAnalyse (si_manager s2)"
    and rd2: "\<forall>pt. ready pt (si_manager s) \<longrightarrow> ready pt (si_manager s2)"
    using registered_buffered [where add = RtpJitterBufferV2_addRtpPacket and io = io and beyond = beyond and k = k and ep = ep,
        OF r st rd idle'(2) b(1), unfolded nn if_True] by blast
  have l: "v2_playoutBufferList (rsm_pReceiverBuffer (si_manager s2)) = [?first]" "ij_uiClockFrequency (rsm_pReceiverBuffer (si_manager s2)) \<noteq> 0"
    using b(2,3) s2(4) by simp_all
  have u1: "unit_packets (pg_uiRtpTs ?first) pt uiSSRC n0 pkts" using u q(2) by (simp add: RtpPacketGroup_create_def)
  have idx1: "\<forall>e\<in>set es. index_of e < length pkts" using idx by auto
  have f2: "follows_source uiSSRC mm (max M (n0 + i)) (si_pSessionDb s2)" using f1 s2(3) by simp
  obtain out3 s3 qs where s3: "receive_unit io beyond ep pkts es s2 = Inr (out3, s3)" "playout_timers out3 = []"
    "map packet_view qs = map (arrival_view pkts n0) es"
    "v2_playoutBufferList (rsm_pReceiverBuffer (si_manager s3)) = [fold (\<lambda>p g. snd (RtpPacketGroup_insert p g)) qs ?first]"
    "rsm_mPlayoutTimers (si_manager s3) = rsm_mPlayoutTimers (si_manager s2)" "rsm_bMediaCallback (si_manager s3) = rsm_bMediaCallback (si_manager s2)"
    "follows_source uiSSRC mm (fold max (map (\<lambda>e. n0 + index_of e) es) (max M (n0 + i))) (si_pSessionDb s3)"
    using receive_rest [OF l u1 idx1 f2 rest rd2 [rule_format, OF idle'(1)] s2(7)] by blast
  let ?g = "fold (\<lambda>p g. snd (RtpPacketGroup_insert p g)) qs ?first"
  have "map packet_view (q # qs) = map (arrival_view pkts n0) ((t, k, i, a) # es)" using q(1) s3(3) by simp
  from arrived_views [OF this idx] have views: "map packet_view (pg_rtpPacketList ?g) = map packet_view (numbered_from (of_nat n0) pkts)"
    by (rule group_restores_views [OF _ small])
  have g: "map rp_rtpPayload (pg_rtpPacketList ?g) = map rp_rtpPayload pkts" "numbered (of_nat n0) (pg_rtpPacketList ?g)"
    using payload_views [OF views] numbered_views [OF views, of "of_nat n0"] by (simp_all add: numbered_numbered_from)
  have tp: "pg_tPresentation ?g = tp" "pg_bRtcpSynchronised ?g = sy"
    using insert_run_packets [of qs ?first] insert_run_synchronised [of qs ?first] by (simp_all add: RtpPacketGroup_create_def)
  have all: "receive_unit io beyond ep pkts ((t, k, i, a) # es) s = Inr (out @ out3, s3)" using s2(1) s3(1) by simp
  have timers: "playout_timers (out @ out3) = [(k, Some due)]" using s2(2) s3(2) by (simp add: playout_timers_def)
  have k: "k \<in> set (rsm_mPlayoutTimers (si_manager s3))" "rsm_bMediaCallback (si_manager s3)" using s2(5,6) s3(5,6) idle'(3) by simp_all
  have "fold max (map (\<lambda>e. n0 + index_of e) ((t, k, i, a) # es)) M = fold max (map (\<lambda>e. n0 + index_of e) es) (max M (n0 + i))"
    by (simp add: max.commute)
  then have f3: "follows_source uiSSRC mm (fold max (map (\<lambda>e. n0 + index_of e) ((t, k, i, a) # es)) M) (si_pSessionDb s3)" using s3(7) by simp
  show ?thesis by (intro exI [of _ "out @ out3"] exI [of _ s3] exI [of _ ?g] conjI all timers due f3 s3(4) g tp k)
qed

text \<open>
  C1: An access unit is delivered. A started session packetises an access unit in non-interleaved mode, and numbers the
  packets from its next sequence number, which is that of the unbounded number \<open>n0\<close>. They reach a session that follows
  the source in its database, in any order and any number of times, as long as each is acceptable to the sequence tracking and
  none from before a wrap of the numbers comes after one from behind it. If the playout buffer is empty, whatever it played
  before, and the first packet is not later than the playout time that the buffer works out for it, which is the arrival plus the
  latency when it is the first one of the buffer, then the session manager schedules one playout, at this time; when its timer fires, the
  application gets exactly the samples that were sent, in their order, with the presentation time of the first packet, and the buffer
  is empty again. The session goes on following the source.
\<close>

theorem access_unit_delivered:
  assumes "copy_stream cp obits ibits" and "pk_eMode pk = NON_INTERLEAVED_MODE"
    and "2 < unat (pk_uiBytesAvailableForPayload pk)" and "unat (pk_uiBytesAvailableForPayload pk) < 65536" and "samples \<noteq> []"
    and "\<forall>m\<in>set samples. ms_data m \<noteq> [] \<and> length (ms_data m) < 2 ^ 31
      \<and> nal_f (hd (ms_data m)) = 0 \<and> nal_nut (hd (ms_data m)) \<le> NUT_RESERVED_23"
    and "rs_state rs = SS_STARTED" and "rs_eRapidSyncMode rs = RS_NONE"
    and "ss_uiSequenceNumber (rs_rtpSessionState rs) = of_nat n0"
  shows "\<exists>pkts pk' rs'. RtpSession_doPacketise (cp_io cp) (Rfc6184Packetiser_packetise cp) samples ts ntp1 ntp2 pk rs = Some (Inr (pkts, pk', rs'))
    \<and> length pkts \<le> (\<Sum>m\<leftarrow>samples. length (ms_data m)) \<and> pkts \<noteq> []
    \<and> unit_packets ts (ss_uiCurrentPayloadType (rs_rtpSessionState rs)) (ss_uiSSRC (rs_rtpSessionState rs)) n0 pkts
    \<and> ss_uiSequenceNumber (rs_rtpSessionState rs') = of_nat (n0 + length pkts)
    \<and> (\<forall>s mm M t k i a es sy tp due ep.
         idle_receiver (ss_uiCurrentPayloadType (rs_rtpSessionState rs)) ts (si_manager s)
         \<and> follows_source (ss_uiSSRC (rs_rtpSessionState rs)) mm M (si_pSessionDb s)
         \<and> index_of ` set ((t, k, i, a) # es) = {..<length pkts}
         \<and> numbered_run mm M (map (\<lambda>e. n0 + index_of e) ((t, k, i, a) # es))
         \<and> plays_at t (arriving pkts (t, k, i, a)) s sy tp due
         \<and> sint (of_nat n0 :: u32) + int (length pkts) < 2 ^ 31 \<and> length pkts < 2 ^ 31 \<longrightarrow>
         (\<exists>out s' ms m''. receive_unit (cp_io cp) beyond ep pkts ((t, k, i, a) # es) s = Inr (out, s')
            \<and> playout_timers out = [(k, Some due)]
            \<and> (v2_tFirstPacket (rsm_pReceiverBuffer (si_manager s)) = None \<longrightarrow>
                 Some due = pt_add a (milliseconds (ij_uiPlayoutBufferLatencyMs (rsm_pReceiverBuffer (si_manager s)))))
            \<and> onScheduledSampleTimeout RtpJitterBufferV2_getNext (Rfc6184Packetiser_depacketize cp uninit pk') False k (si_manager s')
                = Some (Inr ([MediaCallback ms, Notification], m''))
            \<and> map ms_data ms = map ms_data samples \<and> (\<forall>x\<in>set ms. ms_tPresentation x = tp \<and> ms_bMarker x = sy)
            \<and> v2_playoutBufferList (rsm_pReceiverBuffer m'') = []
            \<and> follows_source (ss_uiSSRC (rs_rtpSessionState rs)) mm (fold max (map (\<lambda>e. n0 + index_of e) ((t, k, i, a) # es)) M) (si_pSessionDb s')))"
proof -
  let ?st = "rs_rtpSessionState rs" and ?B = "unat (pk_uiBytesAvailableForPayload pk)"
  obtain ps info where p: "Rfc6184Packetiser_packetise cp samples pk = Some (Inr (ps, pk\<lparr>pk_vLastPacketisationInfo := info\<rparr>))"
    and c: "carries ?B (map rp_rtpPayload ps) (map ms_data samples)" using packetised_carries [OF assms(1-4,6)] by blast
  let ?pk = "pk\<lparr>pk_vLastPacketisationInfo := info\<rparr>"
  have ne: "ps \<noteq> []" using carries_nonempty [OF c] assms(5) by auto
  have count: "length ps \<le> (\<Sum>m\<leftarrow>samples. length (ms_data m))" using carries_count [OF c] by (simp add: comp_def)
  obtain pkts rs' where s: "RtpSession_doPacketise (cp_io cp) (Rfc6184Packetiser_packetise cp) samples ts ntp1 ntp2 pk rs = Some (Inr (pkts, ?pk, rs'))"
    and v: "map rp_rtpPayload pkts = map rp_rtpPayload ps"
      "map (\<lambda>q. rh_uiSN (rp_header q)) pkts = map (\<lambda>i. ss_uiSequenceNumber ?st + of_nat i) [0..<length ps]"
      "\<forall>q\<in>set pkts. getRtpTimestamp q = ts \<and> rh_uiPT (rp_header q) = ss_uiCurrentPayloadType ?st \<and> rh_uiSSRC (rp_header q) = ss_uiSSRC ?st"
      "ss_uiSequenceNumber (rs_rtpSessionState rs') = ss_uiSequenceNumber ?st + of_nat (length ps)"
    using packetised_unit [where pp = "Rfc6184Packetiser_packetise cp", OF assms(7,8,5) p ne, of "cp_io cp" ts ntp1 ntp2] by blast
  have len: "length pkts = length ps" using arg_cong [OF v(1), of length] by simp
  have sn: "rh_uiSN (rp_header (pkts ! i)) = of_nat (n0 + i)" if "i < length pkts" for i
    using arg_cong [OF v(2), of "\<lambda>l. l ! i"] that assms(9) len by simp
  have unit: "unit_packets ts (ss_uiCurrentPayloadType ?st) (ss_uiSSRC ?st) n0 pkts" using sn v(3) by (simp add: unit_packets_def)
  have deliver: "\<exists>out s' ms m''. receive_unit (cp_io cp) beyond ep pkts ((t, k, i, a) # es) s = Inr (out, s')
      \<and> playout_timers out = [(k, Some due)]
      \<and> (v2_tFirstPacket (rsm_pReceiverBuffer (si_manager s)) = None \<longrightarrow>
           Some due = pt_add a (milliseconds (ij_uiPlayoutBufferLatencyMs (rsm_pReceiverBuffer (si_manager s)))))
      \<and> onScheduledSampleTimeout RtpJitterBufferV2_getNext (Rfc6184Packetiser_depacketize cp uninit ?pk) False k (si_manager s')
          = Some (Inr ([MediaCallback ms, Notification], m''))
      \<and> map ms_data ms = map ms_data samples \<and> (\<forall>x\<in>set ms. ms_tPresentation x = tp \<and> ms_bMarker x = sy)
      \<and> v2_playoutBufferList (rsm_pReceiverBuffer m'') = []
      \<and> follows_source (ss_uiSSRC ?st) mm (fold max (map (\<lambda>e. n0 + index_of e) ((t, k, i, a) # es)) M) (si_pSessionDb s')"
    if r: "idle_receiver (ss_uiCurrentPayloadType ?st) ts (si_manager s)" "follows_source (ss_uiSSRC ?st) mm M (si_pSessionDb s)"
      "index_of ` set ((t, k, i, a) # es) = {..<length pkts}" "numbered_run mm M (map (\<lambda>e. n0 + index_of e) ((t, k, i, a) # es))"
      "plays_at t (arriving pkts (t, k, i, a)) s sy tp due"
      "sint (of_nat n0 :: u32) + int (length pkts) < 2 ^ 31" "length pkts < 2 ^ 31"
    for s mm M t k i a es sy tp due ep
  proof -
    obtain out s' g where g: "receive_unit (cp_io cp) beyond ep pkts ((t, k, i, a) # es) s = Inr (out, s')" "playout_timers out = [(k, Some due)]"
      "v2_tFirstPacket (rsm_pReceiverBuffer (si_manager s)) = None \<longrightarrow>
         Some due = pt_add a (milliseconds (ij_uiPlayoutBufferLatencyMs (rsm_pReceiverBuffer (si_manager s))))"
      "follows_source (ss_uiSSRC ?st) mm (fold max (map (\<lambda>e. n0 + index_of e) ((t, k, i, a) # es)) M) (si_pSessionDb s')"
      "v2_playoutBufferList (rsm_pReceiverBuffer (si_manager s')) = [g]" "map rp_rtpPayload (pg_rtpPacketList g) = map rp_rtpPayload ps"
      "numbered (of_nat n0) (pg_rtpPacketList g)" "pg_tPresentation g = tp" "pg_bRtcpSynchronised g = sy"
      "k \<in> set (rsm_mPlayoutTimers (si_manager s'))" "rsm_bMediaCallback (si_manager s')"
      using unit_received [OF unit r, of "cp_io cp" beyond ep] unfolding v(1) by (elim exE conjE) (rule that)
    have nim: "pk_eMode ?pk = NON_INTERLEAVED_MODE" using assms(2) by simp
    obtain ms where ms: "Rfc6184Packetiser_depacketize cp uninit ?pk g = Some (Inr ms)" "map ms_data ms = map ms_data samples"
      "\<forall>x\<in>set ms. ms_tPresentation x = pg_tPresentation g \<and> ms_bMarker x = pg_bRtcpSynchronised g"
      using carried_group_depacketized [OF assms(1) c nim g(6,7), of uninit] by (elim exE conjE) (rule that)
    have "ms \<noteq> []" using ms(2) assms(5) by auto
    then have "\<exists>m''. onScheduledSampleTimeout RtpJitterBufferV2_getNext (Rfc6184Packetiser_depacketize cp uninit ?pk) False k (si_manager s')
        = Some (Inr ([MediaCallback ms, Notification], m'')) \<and> v2_playoutBufferList (rsm_pReceiverBuffer m'') = []"
      using g(5,10,11) ms(1)
      by (simp add: onScheduledSampleTimeout_def RtpJitterBufferV2_getNext_def prepareSampleForOutput_def remove_timer_def)
    then obtain m'' where m'': "onScheduledSampleTimeout RtpJitterBufferV2_getNext (Rfc6184Packetiser_depacketize cp uninit ?pk) False k (si_manager s')
        = Some (Inr ([MediaCallback ms, Notification], m''))" "v2_playoutBufferList (rsm_pReceiverBuffer m'') = []" by blast
    have tp: "\<forall>x\<in>set ms. ms_tPresentation x = tp \<and> ms_bMarker x = sy" using ms(3) unfolding g(8,9) .
    show ?thesis by (intro exI [of _ out] exI [of _ s'] exI [of _ ms] exI [of _ m''] conjI g(1-4) m'' ms(2) tp)
  qed
  have nonempty: "pkts \<noteq> []" using ne len by auto
  have seq: "ss_uiSequenceNumber (rs_rtpSessionState rs') = of_nat (n0 + length pkts)" using v(4) assms(9) len by simp
  show ?thesis
    by (rule exI [of _ pkts], rule exI [of _ ?pk], rule exI [of _ rs'], intro conjI allI impI s count [folded len] nonempty unit seq)
      (elim conjE, rule deliver; assumption)
qed

subsection \<open>A unit whose packets arrive backwards\<close>

lemma numbered_run_behind: "\<forall>n\<in>set ns. n \<le> M \<and> M < n + mm \<and> n div 65536 = M div 65536 \<Longrightarrow> numbered_run mm M ns"
  by (induction ns) (auto simp: acceptable_def max_absorb1 MAX_DROPOUT_def)

lemma numbered_backwards:
  assumes "m \<le> mm" and "M \<le> n0" and "n0 + m < M + 3000" and "n0 div 65536 = (n0 + m) div 65536"
  shows "numbered_run mm M (rev (map (\<lambda>i. n0 + i) [0..<m]))"
proof (cases m)
  case (Suc k)
  have d: "(n0 + j) div 65536 = n0 div 65536" if "j \<le> m" for j
    using assms(4) div_le_mono [of n0 "n0 + j" 65536] div_le_mono [of "n0 + j" "n0 + m" 65536] that by simp
  have "numbered_run mm (n0 + k) (rev (map (\<lambda>i. n0 + i) [0..<k]))"
  proof (rule numbered_run_behind, intro ballI)
    fix n assume "n \<in> set (rev (map (\<lambda>i. n0 + i) [0..<k]))"
    then have "n = n0 + (n - n0)" "n - n0 < k" by auto
    then show "n \<le> n0 + k \<and> n0 + k < n + mm \<and> n div 65536 = (n0 + k) div 65536" using assms(1) Suc d [of "n - n0"] d [of k] by simp
  qed
  then show ?thesis using assms(2,3) Suc by (simp add: acceptable_def max_absorb2 MAX_DROPOUT_def)
qed simp

definition sample_receiver :: "RtpJitterBufferV2 RtpSessionManager" where
  "sample_receiver = \<lparr>rsm_state = sample_state, rsm_parameters = sample_parameters\<lparr>sp_uiRtxPt := 97\<rparr>,
     rsm_pTxManager = rsm_pTxManager (sample_session_manager sample_state), rsm_pFeedbackManager = None, rsm_pReceiverBuffer = RtpJitterBufferV2_create 100,
     rsm_mPlayoutTimers = [], rsm_bNackEnabled = False, rsm_bAckEnabled = False, rsm_bAnalyse = False, rsm_uiLastReceived = 0,
     rsm_mRtxDurationMap = Map.empty, rsm_vSequenceNumbers = [], rsm_vDiscards = [], rsm_vLateness = [], rsm_bMediaCallback = True, rsm_qOutgoing = []\<rparr>"

text \<open>The receiver has got the source's packets up to number 65635, the 100th of the second cycle.\<close>

definition sample_input :: "RtpJitterBufferV2 SessionInput" where
  "sample_input = \<lparr>si_pSessionDb = (SessionDatabase_create sample_state sample_parameters 0)\<lparr>db_memberDb :=
       [(7, Member ((MemberEntry_create 7 0)\<lparr>me_bInit := True, me_uiProbation := 0, me_max_seq := 99, me_cycles := 65536\<rparr>))]\<rparr>,
     si_rtpSessionStatistics = RtpSessionStatistics_new, si_manager = configure_receiver_buffer sample_receiver\<rparr>"

definition sample_session :: RtpSession where
  "sample_session = \<lparr>rs_state = SS_STARTED, rs_rtpSessionState = sample_state, rs_eRapidSyncMode = RS_NONE, rs_uiRapidSyncExtmapId = 0,
     rs_uiLastAUStartSN = 0, rs_uiLastAUPacketCount = 0\<rparr>"

definition backwards :: "nat \<Rightarrow> arrival list" where
  "backwards m = rev (map (\<lambda>i. (1, 8, i, Some 0)) [0..<m])"

lemma sample_state_values: "ss_uiSequenceNumber sample_state = of_nat 65636" "ss_uiCurrentPayloadType sample_state = 96" "ss_uiSSRC sample_state = 7"
  by (simp_all add: sample_state_def RtpSessionState_create_def)

lemma sample_input_follows: "follows_source 7 MAX_MISORDER 65635 (si_pSessionDb sample_input)"
  unfolding follows_source_def
  by (intro exI [of _ "Member ((MemberEntry_create 7 0)\<lparr>me_bInit := True, me_uiProbation := 0, me_max_seq := 99, me_cycles := 65536\<rparr>)"] exI [of _ 0] exI [of _ 0])
    (simp add: sample_input_def lookupMemberEntryInSessionDb_def tracks_def MemberEntry_create_def MAX_MISORDER_def)

lemma sample_input_idle: "idle_receiver 96 ts (si_manager sample_input)"
  by (simp add: idle_receiver_def ready_def sample_input_def sample_receiver_def configure_receiver_buffer_def setClockFrequency_def
      sample_parameters_def isRetransmissionEnabled_def AVPF_def RtpJitterBufferV2_create_def)

lemma sample_input_plays:
  assumes "unit_packets ts 96 7 65636 pkts" and "i < length pkts" and "length pkts < 100"
  shows "\<exists>sy tp. plays_at 1 (arriving pkts (1, k, i, Some 0)) sample_input sy tp 100000"
proof -
  have a: "acceptable MAX_MISORDER 65635 (65636 + i)" "(65636 + i) div 65536 = max 65635 (65636 + i) div 65536"
    using assms(2,3) by (simp_all add: acceptable_def MAX_DROPOUT_def max_absorb2)
  obtain q sy tp s1 st where r: "register_packet 1 (arriving pkts (1, k, i, Some 0)) sample_input = Inr (q, sy, tp, s1)" "rp_tArrival q = Some 0"
    "si_manager s1 = (si_manager sample_input)\<lparr>rsm_state := st\<rparr>"
    using arrival_registered [OF assms(1,2) sample_input_follows a, of 1 k "Some 0"] by (elim exE conjE) (rule that)
  have b: "rsm_pReceiverBuffer (si_manager s1) = setClockFrequency 90000 (RtpJitterBufferV2_create 100)"
    by (simp add: r(3) sample_input_def configure_receiver_buffer_def sample_receiver_def sample_parameters_def)
  have "ij_uiClockFrequency (setClockFrequency 90000 (RtpJitterBufferV2_create 100)) \<noteq> 0" by (simp add: setClockFrequency_def)
  from v2_clocked [OF this, of q tp sy] obtain due b1 where
    d: "RtpJitterBufferV2_calculatePlayoutTime q tp sy (setClockFrequency 90000 (RtpJitterBufferV2_create 100)) = Inr (due, b1)"
    "v2_tFirstPacket (setClockFrequency 90000 (RtpJitterBufferV2_create 100)) = None \<longrightarrow> due = pt_add (rp_tArrival q)
       (milliseconds (ij_uiPlayoutBufferLatencyMs (setClockFrequency 90000 (RtpJitterBufferV2_create 100))))" by (elim exE conjE) (rule that)
  have "due = Some 100000" using d(2) r(2) by (simp add: setClockFrequency_def RtpJitterBufferV2_create_def pt_add_def milliseconds_def)
  then show ?thesis unfolding plays_at_def using r(1) d(1) b
    by (intro exI [of _ sy] exI [of _ tp] conjI exI [of _ q] exI [of _ s1] exI [of _ b1]) simp_all
qed

text \<open>The access unit of \<open>H264_Round_Trip\<close>.\<close>

theorem access_unit_delivered_witness:
  "\<exists>pkts pk' rs' out s' ms m''.
      RtpSession_doPacketise (cp_io bitlist_copy) (Rfc6184Packetiser_packetise bitlist_copy) sample_unit 5 0 0 sample_packetiser sample_session
        = Some (Inr (pkts, pk', rs'))
    \<and> receive_unit (cp_io bitlist_copy) (\<lambda>_. 0) 1 pkts (backwards (length pkts)) sample_input = Inr (out, s')
    \<and> playout_timers out = [(8, Some 100000)]
    \<and> onScheduledSampleTimeout RtpJitterBufferV2_getNext (Rfc6184Packetiser_depacketize bitlist_copy 0 pk') False 8 (si_manager s')
        = Some (Inr ([MediaCallback ms, Notification], m''))
    \<and> map ms_data ms = [[0x67, 1], [0x68, 2, 3], 0x65 # replicate 20 7]"
proof -
  have u: "\<forall>m\<in>set sample_unit. ms_data m \<noteq> [] \<and> length (ms_data m) < 2 ^ 31 \<and> nal_f (hd (ms_data m)) = 0 \<and> nal_nut (hd (ms_data m)) \<le> NUT_RESERVED_23"
    by (simp add: sample_unit_def nal_sample_def nal_f_def nal_nut_def NUT_RESERVED_23_def)
  have pk: "pk_eMode sample_packetiser = NON_INTERLEAVED_MODE" "2 < unat (pk_uiBytesAvailableForPayload sample_packetiser)"
    "unat (pk_uiBytesAvailableForPayload sample_packetiser) < 65536" "sample_unit \<noteq> []" by (simp_all add: sample_packetiser_def sample_unit_def)
  have rs: "rs_state sample_session = SS_STARTED" "rs_eRapidSyncMode sample_session = RS_NONE"
    "ss_uiSequenceNumber (rs_rtpSessionState sample_session) = of_nat 65636"
    using sample_state_values(1) by (simp_all add: sample_session_def)
  have st: "rs_rtpSessionState sample_session = sample_state" by (simp add: sample_session_def)
  note all = access_unit_delivered [OF bitlist_copy.copy_stream_axioms pk u rs, of 5 0 0 "\<lambda>_. 0" 0, unfolded st sample_state_values(2,3)]
  obtain pkts pk' rs' where p: "RtpSession_doPacketise (cp_io bitlist_copy) (Rfc6184Packetiser_packetise bitlist_copy) sample_unit 5 0 0 sample_packetiser sample_session
        = Some (Inr (pkts, pk', rs'))" "length pkts \<le> (\<Sum>m\<leftarrow>sample_unit. length (ms_data m))" "pkts \<noteq> []" "unit_packets 5 96 7 65636 pkts"
    and d: "\<forall>s mm M t k i a es sy tp due ep.
         idle_receiver 96 5 (si_manager s) \<and> follows_source 7 mm M (si_pSessionDb s)
         \<and> index_of ` set ((t, k, i, a) # es) = {..<length pkts}
         \<and> numbered_run mm M (map (\<lambda>e. 65636 + index_of e) ((t, k, i, a) # es))
         \<and> plays_at t (arriving pkts (t, k, i, a)) s sy tp due
         \<and> sint (of_nat 65636 :: u32) + int (length pkts) < 2 ^ 31 \<and> length pkts < 2 ^ 31 \<longrightarrow>
         (\<exists>out s' ms m''. receive_unit (cp_io bitlist_copy) (\<lambda>_. 0) ep pkts ((t, k, i, a) # es) s = Inr (out, s')
            \<and> playout_timers out = [(k, Some due)]
            \<and> (v2_tFirstPacket (rsm_pReceiverBuffer (si_manager s)) = None \<longrightarrow>
                 Some due = pt_add a (milliseconds (ij_uiPlayoutBufferLatencyMs (rsm_pReceiverBuffer (si_manager s)))))
            \<and> onScheduledSampleTimeout RtpJitterBufferV2_getNext (Rfc6184Packetiser_depacketize bitlist_copy 0 pk') False k (si_manager s')
                = Some (Inr ([MediaCallback ms, Notification], m''))
            \<and> map ms_data ms = map ms_data sample_unit \<and> (\<forall>x\<in>set ms. ms_tPresentation x = tp \<and> ms_bMarker x = sy)
            \<and> v2_playoutBufferList (rsm_pReceiverBuffer m'') = []
            \<and> follows_source 7 mm (fold max (map (\<lambda>e. 65636 + index_of e) ((t, k, i, a) # es)) M) (si_pSessionDb s'))"
    using all by (elim exE conjE) (rule that)
  have len: "length pkts \<le> 26" using p(2) by (simp add: sample_unit_def nal_sample_def)
  obtain m where m: "length pkts = Suc m" using p(3) by (cases pkts) auto
  let ?es = "backwards m"
  have b: "backwards (length pkts) = (1, 8, m, Some 0) # ?es" by (simp add: m backwards_def)
  have idx: "index_of ` set ((1, 8, m, Some 0) # ?es) = {..<length pkts}" by (auto simp: m backwards_def image_iff)
  have "map (\<lambda>e. 65636 + index_of e) (backwards (length pkts)) = rev (map (\<lambda>i. 65636 + i) [0..<length pkts])"
    by (simp add: backwards_def rev_map comp_def)
  moreover have "numbered_run MAX_MISORDER 65635 (rev (map (\<lambda>i. 65636 + i) [0..<length pkts]))"
    by (rule numbered_backwards) (use len in \<open>simp_all add: MAX_MISORDER_def\<close>)
  ultimately have run: "numbered_run MAX_MISORDER 65635 (map (\<lambda>e. 65636 + index_of e) ((1, 8, m, Some 0) # ?es))" using b by metis
  obtain sy tp where pl: "plays_at 1 (arriving pkts (1, 8, m, Some 0)) sample_input sy tp 100000"
    using sample_input_plays [OF p(4), of m 8] m len by auto
  have small: "sint (of_nat 65636 :: u32) + int (length pkts) < 2 ^ 31" "length pkts < 2 ^ 31" using len by simp_all
  obtain out s' ms m'' where r: "receive_unit (cp_io bitlist_copy) (\<lambda>_. 0) 1 pkts ((1, 8, m, Some 0) # ?es) sample_input = Inr (out, s')"
    "playout_timers out = [(8, Some 100000)]"
    "onScheduledSampleTimeout RtpJitterBufferV2_getNext (Rfc6184Packetiser_depacketize bitlist_copy 0 pk') False 8 (si_manager s')
        = Some (Inr ([MediaCallback ms, Notification], m''))" "map ms_data ms = map ms_data sample_unit"
    using d [rule_format, OF conjI [OF sample_input_idle conjI [OF sample_input_follows conjI [OF idx conjI [OF run conjI [OF pl conjI [OF small]]]]]], of 1]
    by (elim exE conjE) (rule that)
  have "map ms_data sample_unit = [[0x67, 1], [0x68, 2, 3], 0x65 # replicate 20 7]" by (simp add: sample_unit_def nal_sample_def)
  then have ms: "map ms_data ms = [[0x67, 1], [0x68, 2, 3], 0x65 # replicate 20 7]" using r(4) by simp
  show ?thesis
    by (intro exI [of _ pkts] exI [of _ pk'] exI [of _ rs'] exI [of _ out] exI [of _ s'] exI [of _ ms] exI [of _ m''] conjI p(1) r(1) [folded b] r(2,3) ms)
qed

end
