(* ===== verification/Timestamp_Playout.thy ===== *)
theory Timestamp_Playout
  imports Playout
begin

text \<open>
  Order, lateness and playout times of \<open>RtpJitterBuffer\<close>, which compares 32 bit RTP timestamps. The
  true timestamps are integers \<open>T\<close> that the words represent modulo \<open>2^32\<close>; the results say
  for which packets the code follows them and for which it does not.
\<close>

section \<open>Timestamps and their true values\<close>

definition represents :: "(u32 \<Rightarrow> int) \<Rightarrow> u32 set \<Rightarrow> bool" where
  "represents T S \<longleftrightarrow> (\<forall>a\<in>S. of_int (T a) = a) \<and> (\<forall>a\<in>S. \<forall>b\<in>S. \<bar>T a - T b\<bar> < 2 ^ 31 - 1)"

definition epoch :: "int \<Rightarrow> int" where
  "epoch t = t div 2 ^ 32"

lemma epoch_split: "t = 4294967296 * epoch t + t mod 4294967296"
  by (simp add: epoch_def)

lemma represents_uint:
  assumes "represents T S" and "a \<in> S"
  shows "uint a = T a mod 4294967296"
proof -
  have "uint (of_int (T a) :: u32) = T a mod 4294967296" by (simp add: uint_word_of_int)
  then show ?thesis using assms by (simp add: represents_def)
qed

lemma represents_less_same_epoch:
  assumes "represents T S" and "a \<in> S" and "b \<in> S" and "epoch (T a) = epoch (T b)"
  shows "a < b \<longleftrightarrow> T a < T b"
proof -
  have "T a mod 4294967296 < T b mod 4294967296 \<longleftrightarrow> T a < T b"
    using epoch_split [of "T a"] epoch_split [of "T b"] assms(4) by (intro iffI) linarith+
  then show ?thesis using represents_uint [OF assms(1)] assms(2,3) by (simp add: word_less_def)
qed

lemma represents_diff:
  assumes "represents T S" and "a \<in> S" and "b \<in> S"
  shows "uint (a - b) = (if T b \<le> T a then T a - T b else T a - T b + 2 ^ 32)"
proof (rule serial_diff)
  have "\<bar>T a - T b\<bar> < 2 ^ 31 - 1" using assms by (simp add: represents_def)
  then show "\<bar>T a - T b\<bar> < 2 ^ 31" by linarith
qed (use assms in \<open>simp_all add: represents_def\<close>)

lemma represents_behind:
  assumes "represents T S" and "a \<in> S" and "b \<in> S"
  shows "a - b > 0x7FFFFFFF \<longleftrightarrow> T a < T b"
proof -
  have "\<bar>T a - T b\<bar> < 2 ^ 31 - 1" using assms by (simp add: represents_def)
  then show ?thesis using represents_diff [OF assms] by (auto simp: word_less_def)
qed

lemma represents_next_epoch:
  assumes "represents T S" and "a \<in> S" and "b \<in> S" and "epoch (T a) < epoch (T b)"
  shows "b < a \<and> \<not> a - b < 0x7FFFFFFF"
proof -
  have win: "\<bar>T a - T b\<bar> < 2 ^ 31 - 1" using assms by (simp add: represents_def)
  have less: "T a < T b"
    using assms(4) unfolding epoch_def by (meson not_le zdiv_mono1 zero_less_numeral zero_less_power linorder_not_less)
  have "4294967296 * epoch (T a) + 4294967296 \<le> 4294967296 * epoch (T b)" using assms(4) by simp
  then have "T b mod 4294967296 < T a mod 4294967296"
    using epoch_split [of "T a"] epoch_split [of "T b"] win [simplified] by linarith
  then have "b < a" using represents_uint [OF assms(1)] assms(2,3) by (simp add: word_less_def)
  moreover have "\<not> a - b < 0x7FFFFFFF"
    using represents_diff [OF assms(1-3)] less win by (auto simp: word_less_def)
  ultimately show ?thesis ..
qed

section \<open>Order of the nodes\<close>

lemma timestamp_insertion:
  fixes l :: "RtpPacketGroup list" and p :: RtpPacket
  assumes rep: "represents T (insert (getRtpTimestamp p) (pg_uiRtpTs ` set (g # gs)))"
    and sorted: "sorted (map (T \<circ> pg_uiRtpTs) (g # gs))"
    and no_later: "\<forall>h\<in>set (g # gs). epoch (T (pg_uiRtpTs h)) \<le> epoch (T (getRtpTimestamp p))"
  shows "sorted (map (T \<circ> pg_uiRtpTs) (insertAccordingToRtpTs p tPres b tPlay
     (getRtpTimestamp p < pg_uiRtpTs g \<and> \<not> pg_uiRtpTs g - getRtpTimestamp p < 0x7FFFFFFF) (g # gs)))"
proof -
  let ?ts = "getRtpTimestamp p" and ?n = "RtpPacketGroup_create p tPres b tPlay" and ?k = "T \<circ> pg_uiRtpTs"
  let ?S = "insert ?ts (pg_uiRtpTs ` set (g # gs))"
  let ?w = "?ts < pg_uiRtpTs g \<and> \<not> pg_uiRtpTs g - ?ts < 0x7FFFFFFF"
  have n: "?k ?n = T ?ts" by (simp add: RtpPacketGroup_create_def)
  have "insertAccordingToRtpTs p tPres b tPlay ?w (g # gs) = insert_after_last (\<lambda>h. ?k h < ?k ?n) ?n (g # gs)"
    unfolding insertAccordingToRtpTs_def Let_def
  proof (rule insert_after_last_cong)
    fix h assume h: "h \<in> set (g # gs)"
    then have hS: "pg_uiRtpTs h \<in> ?S" and gS: "pg_uiRtpTs g \<in> ?S" and tS: "?ts \<in> ?S" by auto
    show "(if ?w then pg_uiRtpTs h - ?ts > 0x7FFFFFFF else pg_uiRtpTs h < ?ts) = (?k h < ?k ?n)"
    proof (cases "epoch (T (pg_uiRtpTs g)) = epoch (T ?ts)")
      case True
      have "T (pg_uiRtpTs g) \<le> T (pg_uiRtpTs h)" using h sorted by auto
      then have "epoch (T (pg_uiRtpTs g)) \<le> epoch (T (pg_uiRtpTs h))" by (simp add: epoch_def zdiv_mono1)
      then have "epoch (T (pg_uiRtpTs h)) = epoch (T ?ts)" using True no_later h by force
      then have h_less: "pg_uiRtpTs h < ?ts \<longleftrightarrow> ?k h < ?k ?n"
        using represents_less_same_epoch [OF rep hS tS] n by simp
      have "\<not> ?w"
      proof
        assume w: ?w
        then have "T ?ts < T (pg_uiRtpTs g)" using represents_less_same_epoch [OF rep tS gS] True by simp
        then have "uint (pg_uiRtpTs g - ?ts) = T (pg_uiRtpTs g) - T ?ts" using represents_diff [OF rep gS tS] by simp
        moreover have "\<bar>T (pg_uiRtpTs g) - T ?ts\<bar> < 2 ^ 31 - 1" using rep gS tS by (simp add: represents_def)
        ultimately show False using w by (simp add: word_less_def)
      qed
      then show ?thesis using h_less by (simp only: if_False)
    next
      case False
      then have "epoch (T (pg_uiRtpTs g)) < epoch (T ?ts)" using no_later by force
      then have ?w using represents_next_epoch [OF rep gS tS] by simp
      then show ?thesis using represents_behind [OF rep hS tS] n by simp
    qed
  qed simp_all
  then show ?thesis using sorted_insert_after_last [OF sorted, of ?n] by simp
qed

section \<open>The playout clock\<close>

lemma uint_of_int_mod: "uint (of_int t :: u32) = t mod 4294967296"
  by (simp add: uint_word_of_int)

lemma uint_minus_of_int: "uint (of_int a - of_int b :: u32) = (a - b) mod 4294967296"
  using uint_of_int_mod [of "a - b"] by simp

lemma epoch_step:
  assumes "a \<le> b" and "b - a < 2 ^ 31"
  shows "epoch b = epoch a + (if b mod 4294967296 < a mod 4294967296 then 1 else 0)"
    and "b mod 4294967296 < a mod 4294967296 \<Longrightarrow> (a - b) mod 4294967296 > 0x7FFFFFFF"
proof -
  have m: "0 \<le> a mod 4294967296" "a mod 4294967296 < 4294967296" "0 \<le> b mod 4294967296" "b mod 4294967296 < 4294967296"
    by simp_all
  note sp = epoch_split [of a] epoch_split [of b]
  have "epoch a \<le> epoch b" using assms(1) by (simp add: epoch_def zdiv_mono1)
  then consider "epoch b = epoch a" | "epoch b = epoch a + 1" | "epoch a + 2 \<le> epoch b" by linarith
  then show "epoch b = epoch a + (if b mod 4294967296 < a mod 4294967296 then 1 else 0)"
  proof cases
    case 1
    then show ?thesis using sp assms(1) by simp
  next
    case 2
    then have "b mod 4294967296 < a mod 4294967296" using sp assms(2) by simp
    then show ?thesis using 2 by simp
  next
    case 3
    then show ?thesis using sp m assms(2) by simp
  qed
  then show "b mod 4294967296 < a mod 4294967296 \<Longrightarrow> (a - b) mod 4294967296 > 0x7FFFFFFF"
  proof -
    assume lt: "b mod 4294967296 < a mod 4294967296"
    then have "a \<noteq> b" by auto
    then have "(a - b) mod 4294967296 = a - b + 4294967296"
      using assms by (intro mod_pos_pos_trivial [of "a - b + 4294967296" 4294967296, simplified mod_add_self2]) simp_all
    then show ?thesis using assms(2) by simp
  qed
qed

lemma hasWrappedAround_epoch:
  assumes "a \<le> b" and "b - a < 2 ^ 31"
  shows "hasWrappedAround (of_int a) (of_int b) \<longleftrightarrow> epoch b = epoch a + 1"
  using epoch_step [OF assms]
  by (auto simp: hasWrappedAround_def word_less_def uint_of_int_mod uint_minus_of_int)

definition clock_state :: "int \<Rightarrow> int \<Rightarrow> int \<Rightarrow> RtpJitterBuffer \<Rightarrow> bool" where
  "clock_state tFirst T0 Tprev s \<longleftrightarrow> jb_tFirstPacket s = Some tFirst \<and> jb_uiFirstRtpTime s = of_int T0
     \<and> jb_uiPreviousRtpTime s = of_int Tprev \<and> jb_uiWrapAroundCounter s = of_int (epoch Tprev - epoch T0)"

lemma whole_wraps: "(T - T0) div 4294967296 = epoch T - epoch T0 - (if T mod 4294967296 < T0 mod 4294967296 then 1 else 0)"
proof -
  have m: "0 \<le> T mod 4294967296" "T mod 4294967296 < 4294967296" "0 \<le> T0 mod 4294967296" "T0 mod 4294967296 < 4294967296"
    by simp_all
  have "T - T0 = (epoch T - epoch T0) * 4294967296 + (T mod 4294967296 - T0 mod 4294967296)"
    using epoch_split [of T] epoch_split [of T0] by (simp add: algebra_simps)
  then have "(T - T0) div 4294967296 = epoch T - epoch T0 + (T mod 4294967296 - T0 mod 4294967296) div 4294967296"
    by (simp only:) simp
  moreover have "(T mod 4294967296 - T0 mod 4294967296) div 4294967296 = (if T mod 4294967296 < T0 mod 4294967296 then -1 else 0)"
    using m int_div_pos_eq [of "T mod 4294967296 - T0 mod 4294967296" 4294967296 "- 1" "T mod 4294967296 - T0 mod 4294967296 + 4294967296"]
    by (simp add: div_pos_pos_trivial)
  ultimately show ?thesis by simp
qed

lemma clock_state_step:
  assumes st: "clock_state tFirst T0 Tprev s" and step: "Tprev \<le> T" "T - Tprev < 2 ^ 31" and ts: "getRtpTimestamp p = of_int T"
  shows "RtpJitterBuffer_calculatePlayoutTime p tPres b s =
    (case playout_milliseconds (ij_uiClockFrequency s) (ucast (of_int (T - T0 - (T - T0) div 4294967296) :: u32)) of
       Inl f \<Rightarrow> Inl f
     | Inr ms \<Rightarrow> Inr (Some (tFirst + uint ms * 1000),
         s\<lparr>jb_uiWrapAroundCounter := of_int (epoch T - epoch T0), jb_tPrevPlayoutTime := Some (tFirst + uint ms * 1000),
           jb_uiPreviousRtpTime := of_int T\<rparr>))"
proof -
  let ?s1 = "s\<lparr>jb_uiWrapAroundCounter := of_int (epoch T - epoch T0)\<rparr>"
  have s1: "(if hasWrappedAround (jb_uiPreviousRtpTime s) (of_int T)
      then s\<lparr>jb_uiWrapAroundCounter := jb_uiWrapAroundCounter s + 1\<rparr> else s) = ?s1"
    using st hasWrappedAround_epoch [OF step] epoch_step(1) [OF step]
    by (auto simp: clock_state_def split: if_splits)
  have less: "(of_int T :: u32) < of_int T0 \<longleftrightarrow> T mod 4294967296 < T0 mod 4294967296"
    by (simp add: word_less_def uint_of_int_mod)
  have w: "(if (of_int T :: u32) < of_int T0 then of_int (epoch T - epoch T0) - 1 else of_int (epoch T - epoch T0))
      = (of_int ((T - T0) div 4294967296) :: u32)"
    unfolding whole_wraps less by simp
  have prod: "(of_int k * 0xFFFFFFFF + (of_int T - of_int T0) :: u32) = of_int (T - T0 - k)" for k
  proof -
    have "(0xFFFFFFFF :: u32) = - 1" by simp
    then show ?thesis unfolding \<open>(0xFFFFFFFF :: u32) = - 1\<close> by (simp only: of_int_diff) simp
  qed
  have fields: "jb_uiFirstRtpTime ?s1 = of_int T0" "jb_uiWrapAroundCounter ?s1 = of_int (epoch T - epoch T0)"
    "ij_uiClockFrequency ?s1 = ij_uiClockFrequency s" "jb_tFirstPacket ?s1 = Some tFirst" "jb_tFirstPacket s = None \<longleftrightarrow> False"
    using st by (simp_all add: clock_state_def)
  show ?thesis
    unfolding RtpJitterBuffer_calculatePlayoutTime_def ts Let_def s1 fields w prod if_False
    by (cases "playout_milliseconds (ij_uiClockFrequency s) (ucast (of_int (T - T0 - (T - T0) div 4294967296) :: u32))")
      (simp_all add: pt_add_def milliseconds_def del: of_int_diff)
qed

section \<open>Properties of the timestamp ordered buffer\<close>

definition timed_packet :: "u32 \<Rightarrow> RtpPacket" where
  "timed_packet ts = RtpPacket_create (setRtpTimestamp ts RtpHeader_default)"

text \<open>
  Nodes stay in timestamp order across a wrap. Let the timestamps of the buffered nodes and of the
  packet lie within half the range of their true values; if the packet is not from before a
  wrap that a buffered node is already past, adding it keeps the nodes of \<open>RtpJitterBuffer\<close> in the
  order of their true timestamps, whether it starts a node, joins one or is dropped as late.
\<close>

theorem timestamp_order_kept:
  assumes "represents T (insert (getRtpTimestamp p) (pg_uiRtpTs ` set (jb_playoutBufferList s)))"
    and "sorted (map (T \<circ> pg_uiRtpTs) (jb_playoutBufferList s))"
    and "\<forall>h\<in>set (jb_playoutBufferList s). epoch (T (pg_uiRtpTs h)) \<le> epoch (T (getRtpTimestamp p))"
  shows "sorted (map (T \<circ> pg_uiRtpTs) (jb_playoutBufferList (snd (RtpJitterBuffer_doAddRtpPacket tNow p tPres b tPlay s))))"
proof (cases "jb_playoutBufferList s")
  case Nil
  then show ?thesis
    by (simp add: RtpJitterBuffer_doAddRtpPacket_def insertAccordingToRtpTs_def insert_after_last_def Let_def)
next
  case (Cons g gs)
  note ins = timestamp_insertion [OF assms [unfolded Cons], of tPres b tPlay]
  show ?thesis
  proof (cases "update_group (\<lambda>node. pg_uiRtpTs node = getRtpTimestamp p) p (g # gs)")
    case None
    then show ?thesis
      using ins assms(2) Cons
      by (cases "getRtpTimestamp p < pg_uiRtpTs g")
        (simp_all add: RtpJitterBuffer_doAddRtpPacket_def Let_def del: update_group.simps list.map sorted_simps)
  next
    case (Some x)
    obtain c l' where x: "x = (c, l')" by (cases x)
    have "map (T \<circ> pg_uiRtpTs) l' = map (T \<circ> pg_uiRtpTs) (g # gs)"
      using update_group_keeps(1) [OF Some [unfolded x]] by (metis map_map)
    then show ?thesis
      using Some x assms(2) Cons by (simp add: RtpJitterBuffer_doAddRtpPacket_def Let_def del: update_group.simps)
  qed
qed

theorem timestamp_order_kept_witness:
  "sorted (map (sint \<circ> pg_uiRtpTs) (jb_playoutBufferList (snd (RtpJitterBuffer_doAddRtpPacket 0 (timed_packet 10) None False None
     ((RtpJitterBuffer_create 100)\<lparr>jb_playoutBufferList := [RtpPacketGroup_create (timed_packet 0xFFFFFF00) None False None]\<rparr>)))))"
  by (rule timestamp_order_kept)
    (simp_all add: represents_def epoch_def RtpJitterBuffer_create_def RtpPacketGroup_create_def timed_packet_def
      RtpPacket_create_def setRtpTimestamp_def getRtpTimestamp_def)

text \<open>
  A reordered packet from before the wrap is misplaced: with nodes from both sides of the wrap in the
  buffer, a packet whose timestamp belongs between them is put behind the node from after the wrap.
\<close>

theorem timestamp_order_lost_at_wrap:
  "map pg_uiRtpTs (jb_playoutBufferList (snd (RtpJitterBuffer_doAddRtpPacket 0 (timed_packet 0xFFFFFF80) None False None
     ((RtpJitterBuffer_create 100)\<lparr>jb_playoutBufferList := [RtpPacketGroup_create (timed_packet 0xFFFFFF00) None False None,
        RtpPacketGroup_create (timed_packet 10) None False None]\<rparr>)))) = [0xFFFFFF00, 10, 0xFFFFFF80]"
  by (simp add: RtpJitterBuffer_doAddRtpPacket_def insertAccordingToRtpTs_def insert_after_last_def Let_def pt_less_def new_node_def
      RtpJitterBuffer_create_def RtpPacketGroup_create_def timed_packet_def RtpPacket_create_def setRtpTimestamp_def getRtpTimestamp_def)

text \<open>
  The playout clock. While true timestamps grow by less than half the range from packet to packet,
  the playout time is that of the first packet plus the time the code computes for the exact
  elapsed timestamp units, as long as these are fewer than 2^32, even across a wrap of the
  32 bit timestamp; the state for the next packet is kept. From 2^32 units on the 32 bit
  product drops the completed wraps and the clock falls back to the start.
\<close>

theorem playout_clock:
  assumes "clock_state tFirst T0 Tprev s" and "T0 \<le> T" and "Tprev \<le> T" and "T - Tprev < 2 ^ 31" and "getRtpTimestamp p = of_int T"
  shows "\<exists>s'. RtpJitterBuffer_calculatePlayoutTime p tPres b s =
      (case playout_milliseconds (ij_uiClockFrequency s)
              (if T - T0 < 2 ^ 32 then of_int (T - T0) else of_int ((T - T0 - (T - T0) div 2 ^ 32) mod 2 ^ 32)) of
         Inl f \<Rightarrow> Inl f | Inr ms \<Rightarrow> Inr (Some (tFirst + uint ms * 1000), s' ms))
    \<and> (\<forall>ms. clock_state tFirst T0 T (s' ms) \<and> ij_uiClockFrequency (s' ms) = ij_uiClockFrequency s)"
proof -
  let ?e = "T - T0 - (T - T0) div 4294967296"
  have e: "(ucast (of_int ?e :: u32) :: u64) = of_int (?e mod 4294967296)"
    by (simp add: uint_of_int_mod unsigned_ucast_eq word_uint_eq_iff uint_word_of_int take_bit_eq_mod del: of_int_diff)
  have "(if T - T0 < 2 ^ 32 then of_int (T - T0) else of_int ((T - T0 - (T - T0) div 2 ^ 32) mod 2 ^ 32)) = (of_int (?e mod 4294967296) :: u64)"
    using assms(2) by (simp add: div_pos_pos_trivial)
  then show ?thesis
    using assms(1) clock_state_step [OF assms(1,3,4,5), of tPres b] unfolding e
    by (intro exI [of _ "\<lambda>ms. s\<lparr>jb_uiWrapAroundCounter := of_int (epoch T - epoch T0),
          jb_tPrevPlayoutTime := Some (tFirst + uint ms * 1000), jb_uiPreviousRtpTime := of_int T\<rparr>"])
      (simp add: clock_state_def del: of_int_diff)
qed

theorem playout_clock_witness:
  "\<exists>s'. RtpJitterBuffer_calculatePlayoutTime (timed_packet 100) None False
      ((RtpJitterBuffer_create 100)\<lparr>ij_uiClockFrequency := 90000, jb_tFirstPacket := Some 5000, jb_uiFirstRtpTime := 0xFFFFFF00,
         jb_uiPreviousRtpTime := 0xFFFFFF00\<rparr>) =
      (case playout_milliseconds 90000 356 of Inl f \<Rightarrow> Inl f | Inr ms \<Rightarrow> Inr (Some (5000 + uint ms * 1000), s' ms))
    \<and> (\<forall>ms. clock_state 5000 0xFFFFFF00 0x100000064 (s' ms) \<and> ij_uiClockFrequency (s' ms) = 90000)"
proof -
  let ?s = "(RtpJitterBuffer_create 100)\<lparr>ij_uiClockFrequency := 90000, jb_tFirstPacket := Some 5000,
    jb_uiFirstRtpTime := 0xFFFFFF00, jb_uiPreviousRtpTime := 0xFFFFFF00\<rparr>"
  have st: "clock_state 5000 0xFFFFFF00 0xFFFFFF00 ?s" by (simp add: clock_state_def RtpJitterBuffer_create_def)
  have ts: "getRtpTimestamp (timed_packet 100) = of_int 0x100000064"
    by (simp add: timed_packet_def RtpPacket_create_def setRtpTimestamp_def getRtpTimestamp_def)
  show ?thesis
    using playout_clock [OF st _ _ _ ts, of None False] by simp
qed

text \<open>
  Late packets. In a buffer that is not empty \<open>RtpJitterBuffer\<close> starts a node only for a packet whose
  playout time has not passed, and counts every other packet with a new timestamp as late;
  an empty buffer starts a node for any packet, however late, even one whose timestamp has just been played out.
\<close>

theorem late_packets_and_empty_buffer:
  "(\<forall>tNow p tPres b tPlay s. jb_playoutBufferList s \<noteq> [] \<and> getRtpTimestamp p \<notin> pg_uiRtpTs ` set (jb_playoutBufferList s) \<longrightarrow>
      (let (r, s') = RtpJitterBuffer_doAddRtpPacket tNow p tPres b tPlay s in
       ar_bNewNode r = (\<not> pt_less tPlay (Some tNow))
       \<and> jb_uiTotalLatePackets s' = jb_uiTotalLatePackets s + (if pt_less tPlay (Some tNow) then 1 else 0)))
   \<and> (\<forall>tNow p tPres b tPlay s. jb_playoutBufferList s = [] \<longrightarrow>
      (let (r, s') = RtpJitterBuffer_doAddRtpPacket tNow p tPres b tPlay s in
       ar_bNewNode r \<and> jb_playoutBufferList s' = [RtpPacketGroup_create p tPres b tPlay]))"
proof (intro conjI allI impI)
  fix tNow p tPres b tPlay and s :: RtpJitterBuffer
  assume a: "jb_playoutBufferList s \<noteq> [] \<and> getRtpTimestamp p \<notin> pg_uiRtpTs ` set (jb_playoutBufferList s)"
  then obtain g gs where l: "jb_playoutBufferList s = g # gs" by (cases "jb_playoutBufferList s") auto
  have "update_group (\<lambda>node. pg_uiRtpTs node = getRtpTimestamp p) p (g # gs) = None"
    unfolding update_group_None using a l by (metis imageI)
  then show "let (r, s') = RtpJitterBuffer_doAddRtpPacket tNow p tPres b tPlay s in
       ar_bNewNode r = (\<not> pt_less tPlay (Some tNow))
       \<and> jb_uiTotalLatePackets s' = jb_uiTotalLatePackets s + (if pt_less tPlay (Some tNow) then 1 else 0)"
    using l by (simp add: RtpJitterBuffer_doAddRtpPacket_def Let_def result_defs del: update_group.simps)
qed (simp add: RtpJitterBuffer_doAddRtpPacket_def insertAccordingToRtpTs_def insert_after_last_def new_node_def Let_def)

theorem late_packets_and_empty_buffer_witness:
  "ar_bNewNode (fst (RtpJitterBuffer_doAddRtpPacket 5000 (timed_packet 10) None False (Some 0) (RtpJitterBuffer_create 100)))"
proof -
  have "jb_playoutBufferList (RtpJitterBuffer_create 100) = []" by (simp add: RtpJitterBuffer_create_def)
  then show ?thesis
    using late_packets_and_empty_buffer [THEN conjunct2, rule_format, of "RtpJitterBuffer_create 100" 5000 "timed_packet 10" None False "Some 0"]
    by (simp add: case_prod_beta)
qed

end
