(* ===== verification/Sip_Message.thy ===== *)
theory Sip_Message
  imports Rtp_Prelude "HOL-Library.List_Lexorder" "HOL-Library.Char_ord"
begin

text \<open>
  SIP requests and responses (\<open>rfc3261/SipMessage.cpp\<close>): methods, response codes, and the header
  map, a multimap ordered by field name. Number parsing (\<open>convert\<close>) and tokenisation belong to
  the external cpputil library and are parameters of the operations that call them.
\<close>

section \<open>Methods and response codes\<close>

datatype Method = UNKNOWN | INVITE | BYE | REGISTER | CANCEL | OPTIONS | ACK

definition methodToString :: "Method \<Rightarrow> string" where
  "methodToString eMethod = (case eMethod of
     INVITE \<Rightarrow> ''INVITE'' | BYE \<Rightarrow> ''BYE'' | REGISTER \<Rightarrow> ''REGISTER'' | CANCEL \<Rightarrow> ''CANCEL''
   | OPTIONS \<Rightarrow> ''OPTIONS'' | ACK \<Rightarrow> ''ACK'' | UNKNOWN \<Rightarrow> ''UNKNOWN'')"

definition stringToMethod :: "string \<Rightarrow> Method" where
  "stringToMethod sMethod =
     (if sMethod = ''INVITE'' then INVITE else if sMethod = ''BYE'' then BYE
      else if sMethod = ''REGISTER'' then REGISTER else if sMethod = ''CANCEL'' then CANCEL
      else if sMethod = ''OPTIONS'' then OPTIONS else if sMethod = ''ACK'' then ACK else UNKNOWN)"

lemma stringToMethod_methodToString: "stringToMethod (methodToString e) = e"
  by (cases e) (simp_all add: stringToMethod_def methodToString_def)

text \<open>A response code is the number of its enumerator; received codes need not have a name.\<close>

type_synonym ResponseCode = nat

abbreviation (input) NOT_SET :: ResponseCode where "NOT_SET \<equiv> 0"
abbreviation (input) TRYING :: ResponseCode where "TRYING \<equiv> 100"
abbreviation (input) OK :: ResponseCode where "OK \<equiv> 200"
abbreviation (input) MULTIPLE_CHOICES :: ResponseCode where "MULTIPLE_CHOICES \<equiv> 300"
abbreviation (input) BAD_REQUEST :: ResponseCode where "BAD_REQUEST \<equiv> 400"
abbreviation (input) RESERVED_FINAL_GLOBAL :: ResponseCode where "RESERVED_FINAL_GLOBAL \<equiv> 699"

definition isResponseFinal :: "ResponseCode \<Rightarrow> bool" where
  "isResponseFinal eCode \<longleftrightarrow> eCode \<ge> OK"

definition isResponseProvisional :: "ResponseCode \<Rightarrow> bool" where
  "isResponseProvisional eCode \<longleftrightarrow> eCode \<ge> TRYING \<and> eCode < OK"

definition isResponseRedirectional :: "ResponseCode \<Rightarrow> bool" where
  "isResponseRedirectional eCode \<longleftrightarrow> eCode \<ge> MULTIPLE_CHOICES \<and> eCode < BAD_REQUEST"

definition isResponseSuccessfull :: "ResponseCode \<Rightarrow> bool" where
  "isResponseSuccessfull eCode \<longleftrightarrow> eCode \<ge> OK \<and> eCode < MULTIPLE_CHOICES"

definition isFinalNonSuccessfulResponse :: "ResponseCode \<Rightarrow> bool" where
  "isFinalNonSuccessfulResponse eCode \<longleftrightarrow> eCode \<ge> MULTIPLE_CHOICES \<and> eCode < RESERVED_FINAL_GLOBAL"

lemmas code_defs = isResponseFinal_def isResponseProvisional_def isResponseSuccessfull_def isFinalNonSuccessfulResponse_def

section \<open>Messages\<close>

datatype MessageType = SIP_NOT_SET | SIP_REQUEST | SIP_RESPONSE

record MessageBody =
  mb_sMessageBody :: string
  mb_sContentBase :: string
  mb_sContentLocation :: string
  mb_sContentType :: string
  mb_sRequestUri :: string

type_synonym header_map = "(string \<times> string) list"

record SipMessage =
  sm_eType :: MessageType
  sm_sVersion :: string
  sm_eMethod :: Method
  sm_sMethod :: string
  sm_sRequestUriString :: string
  sm_eResponseCode :: ResponseCode
  sm_sResponseCodeString :: string
  sm_sResponseCodeDescriptionString :: string
  sm_mHeaderMap :: header_map
  sm_messageBody :: MessageBody

definition MessageBody_new :: "string \<Rightarrow> string \<Rightarrow> MessageBody" where
  "MessageBody_new sMessageBody sContentType = \<lparr>mb_sMessageBody = sMessageBody, mb_sContentBase = [], mb_sContentLocation = [],
     mb_sContentType = sContentType, mb_sRequestUri = []\<rparr>"

definition SipMessage_new :: SipMessage where
  "SipMessage_new = \<lparr>sm_eType = SIP_NOT_SET, sm_sVersion = ''2.0'', sm_eMethod = UNKNOWN, sm_sMethod = '''',
     sm_sRequestUriString = '''', sm_eResponseCode = NOT_SET, sm_sResponseCodeString = '''',
     sm_sResponseCodeDescriptionString = '''', sm_mHeaderMap = [], sm_messageBody = MessageBody_new [] []\<rparr>"

definition SipMessage_request :: "Method \<Rightarrow> string \<Rightarrow> SipMessage" where
  "SipMessage_request eMethod sRequestUri =
     SipMessage_new\<lparr>sm_eType := SIP_REQUEST, sm_eMethod := eMethod, sm_sMethod := methodToString eMethod,
       sm_sRequestUriString := sRequestUri\<rparr>"

definition SipMessage_request_string :: "string \<Rightarrow> string \<Rightarrow> SipMessage" where
  "SipMessage_request_string sMethod sRequestUri =
     SipMessage_new\<lparr>sm_eType := SIP_REQUEST, sm_eMethod := stringToMethod sMethod, sm_sMethod := sMethod,
       sm_sRequestUriString := sRequestUri\<rparr>"

definition SipMessage_response :: "ResponseCode \<Rightarrow> SipMessage" where
  "SipMessage_response eCode = SipMessage_new\<lparr>sm_eType := SIP_RESPONSE, sm_eResponseCode := eCode\<rparr>"

definition isRequest :: "SipMessage \<Rightarrow> bool" where
  "isRequest m \<longleftrightarrow> sm_eType m = SIP_REQUEST"

definition isResponse :: "SipMessage \<Rightarrow> bool" where
  "isResponse m \<longleftrightarrow> sm_eType m = SIP_RESPONSE"

definition setRequest :: "string \<Rightarrow> string \<Rightarrow> SipMessage \<Rightarrow> SipMessage" where
  "setRequest sMethod sRequestUri m = m\<lparr>sm_eType := SIP_REQUEST, sm_eMethod := stringToMethod sMethod, sm_sMethod := sMethod,
     sm_sRequestUriString := sRequestUri\<rparr>"

definition stringToResponseCode :: "(string \<Rightarrow> u32 option) \<Rightarrow> string \<Rightarrow> ResponseCode" where
  "stringToResponseCode convert sCode = (case convert sCode of Some uiCode \<Rightarrow> unat uiCode | None \<Rightarrow> NOT_SET)"

definition setResponse :: "(string \<Rightarrow> u32 option) \<Rightarrow> string \<Rightarrow> string \<Rightarrow> SipMessage \<Rightarrow> SipMessage" where
  "setResponse convert sResponseCode sResponseDescription m =
     m\<lparr>sm_eType := SIP_RESPONSE, sm_eResponseCode := stringToResponseCode convert sResponseCode,
       sm_sResponseCodeString := sResponseCode, sm_sResponseCodeDescriptionString := sResponseDescription\<rparr>"

definition setMethod :: "string \<Rightarrow> SipMessage \<Rightarrow> SipMessage" where
  "setMethod sMethod m = m\<lparr>sm_sMethod := sMethod, sm_eMethod := stringToMethod sMethod\<rparr>"

definition setResponseCode :: "ResponseCode \<Rightarrow> SipMessage \<Rightarrow> SipMessage" where
  "setResponseCode eCode m = m\<lparr>sm_eResponseCode := eCode\<rparr>"

section \<open>Header fields\<close>

text \<open>
  \<open>insert\<close> puts a pair behind the pairs with the same key, \<open>insert\<close> with the hint \<open>begin()\<close> in
  front of them; \<open>find\<close> gives the first pair with the key.
\<close>

definition header_insert :: "string \<Rightarrow> string \<Rightarrow> header_map \<Rightarrow> header_map" where
  "header_insert k v m = takeWhile (\<lambda>kv. fst kv \<le> k) m @ (k, v) # dropWhile (\<lambda>kv. fst kv \<le> k) m"

definition header_insert_front :: "string \<Rightarrow> string \<Rightarrow> header_map \<Rightarrow> header_map" where
  "header_insert_front k v m = takeWhile (\<lambda>kv. fst kv < k) m @ (k, v) # dropWhile (\<lambda>kv. fst kv < k) m"

fun header_update :: "string \<Rightarrow> (string \<Rightarrow> string) \<Rightarrow> header_map \<Rightarrow> header_map option" where
  "header_update k f [] = None"
| "header_update k f (kv # m) = (if fst kv = k then Some ((k, f (snd kv)) # m) else map_option ((#) kv) (header_update k f m))"

definition addHeaderField :: "string \<Rightarrow> string \<Rightarrow> SipMessage \<Rightarrow> SipMessage" where
  "addHeaderField sName sValue m = m\<lparr>sm_mHeaderMap := header_insert sName sValue (sm_mHeaderMap m)\<rparr>"

definition setHeaderField :: "string \<Rightarrow> string \<Rightarrow> SipMessage \<Rightarrow> SipMessage" where
  "setHeaderField sName sValue m =
     m\<lparr>sm_mHeaderMap := header_insert sName sValue (filter (\<lambda>kv. fst kv \<noteq> sName) (sm_mHeaderMap m))\<rparr>"

definition getHeaderField :: "string \<Rightarrow> SipMessage \<Rightarrow> string option" where
  "getHeaderField sName m = map_of (sm_mHeaderMap m) sName"

definition hasHeader :: "string \<Rightarrow> SipMessage \<Rightarrow> bool" where
  "hasHeader sName m \<longleftrightarrow> getHeaderField sName m \<noteq> None"

definition getHeaderFields :: "string \<Rightarrow> SipMessage \<Rightarrow> string list" where
  "getHeaderFields sName m = map snd (filter (\<lambda>kv. fst kv = sName) (sm_mHeaderMap m))"

definition copyHeaderField :: "string \<Rightarrow> SipMessage \<Rightarrow> SipMessage \<Rightarrow> SipMessage" where
  "copyHeaderField sHeaderField other m =
     (case getHeaderField sHeaderField other of None \<Rightarrow> m | Some v \<Rightarrow> addHeaderField sHeaderField v m)"

definition copyHeaderFields :: "string \<Rightarrow> SipMessage \<Rightarrow> SipMessage \<Rightarrow> SipMessage" where
  "copyHeaderFields sHeaderField other m =
     fold (addHeaderField sHeaderField) (getHeaderFields sHeaderField other) m"

definition appendToHeaderField :: "string \<Rightarrow> string \<Rightarrow> SipMessage \<Rightarrow> bool \<times> SipMessage" where
  "appendToHeaderField sHeaderField sValue m =
     (case header_update sHeaderField (\<lambda>old. old @ '';'' @ sValue) (sm_mHeaderMap m) of
        None \<Rightarrow> (False, m) | Some h \<Rightarrow> (True, m\<lparr>sm_mHeaderMap := h\<rparr>))"

definition setAttribute :: "string \<Rightarrow> string \<Rightarrow> string \<Rightarrow> SipMessage \<Rightarrow> bool \<times> SipMessage" where
  "setAttribute sHeader sAttribute sValue m =
     (case header_update sHeader (\<lambda>old. old @ '';'' @ sAttribute @ ''='' @ sValue) (sm_mHeaderMap m) of
        None \<Rightarrow> (False, m) | Some h \<Rightarrow> (True, m\<lparr>sm_mHeaderMap := h\<rparr>))"

definition getTopMostVia :: "SipMessage \<Rightarrow> fault + string" where
  "getTopMostVia m = (case getHeaderField ''Via'' m of None \<Rightarrow> Inl Assertion_failed | Some v \<Rightarrow> Inr v)"

definition setTopMostVia :: "string \<Rightarrow> SipMessage \<Rightarrow> fault + SipMessage" where
  "setTopMostVia sVia m = (case header_update ''Via'' (\<lambda>_. sVia) (sm_mHeaderMap m) of
     None \<Rightarrow> Inl Assertion_failed | Some h \<Rightarrow> Inr (m\<lparr>sm_mHeaderMap := h\<rparr>))"

definition insertTopMostVia :: "string \<Rightarrow> SipMessage \<Rightarrow> SipMessage" where
  "insertTopMostVia sVia m = m\<lparr>sm_mHeaderMap := header_insert_front ''Via'' sVia (sm_mHeaderMap m)\<rparr>"

fun header_remove :: "string \<Rightarrow> header_map \<Rightarrow> header_map" where
  "header_remove k [] = []"
| "header_remove k (kv # m) = (if fst kv = k then m else kv # header_remove k m)"

definition removeTopMostVia :: "SipMessage \<Rightarrow> string \<times> SipMessage" where
  "removeTopMostVia m = (case getHeaderField ''Via'' m of None \<Rightarrow> ('''', m)
     | Some v \<Rightarrow> (v, m\<lparr>sm_mHeaderMap := header_remove ''Via'' (sm_mHeaderMap m)\<rparr>))"

text \<open>Attributes of a header value: the tokens between semicolons, split by the external tokeniser.\<close>

definition starts_with :: "string \<Rightarrow> string \<Rightarrow> bool" where
  "starts_with s p \<longleftrightarrow> take (length p) s = p"

definition getAttribute :: "(string \<Rightarrow> string list) \<Rightarrow> string \<Rightarrow> string \<Rightarrow> SipMessage \<Rightarrow> fault + string option" where
  "getAttribute tokenize sHeader sAttribute m =
     (case getHeaderField sHeader m of
        None \<Rightarrow> Inr None
      | Some header \<Rightarrow>
          (case find (\<lambda>attr. starts_with attr sAttribute) (tokenize header) of
             None \<Rightarrow> Inr None
           | Some attr \<Rightarrow> if length sAttribute + 1 \<le> length attr then Inr (Some (drop (length sAttribute + 1) attr))
                          else Inl Out_of_range))"

definition hasAttribute :: "(string \<Rightarrow> string list) \<Rightarrow> string \<Rightarrow> string \<Rightarrow> SipMessage \<Rightarrow> bool" where
  "hasAttribute tokenize sHeader sAttribute m =
     (case getHeaderField sHeader m of
        None \<Rightarrow> False
      | Some header \<Rightarrow> list_ex (\<lambda>attr. starts_with attr sAttribute) (tokenize header))"

definition getBranchParameter :: "(string \<Rightarrow> string list) \<Rightarrow> SipMessage \<Rightarrow> string option" where
  "getBranchParameter tokenize m =
     (case getHeaderField ''Via'' m of
        None \<Rightarrow> None
      | Some via \<Rightarrow> map_option (drop 7) (find (\<lambda>attr. starts_with attr ''branch='') (tokenize via)))"

definition matchHeaderFieldAttribute ::
  "(string \<Rightarrow> string list) \<Rightarrow> string \<Rightarrow> string \<Rightarrow> SipMessage \<Rightarrow> SipMessage \<Rightarrow> fault + bool" where
  "matchHeaderFieldAttribute tokenize sHeaderField sAttribute other m =
     (case getAttribute tokenize sHeaderField sAttribute m of
        Inl f \<Rightarrow> Inl f
      | Inr None \<Rightarrow> Inr False
      | Inr (Some a1) \<Rightarrow>
          (case getAttribute tokenize sHeaderField sAttribute other of
             Inl f \<Rightarrow> Inl f | Inr None \<Rightarrow> Inr False | Inr (Some a2) \<Rightarrow> Inr (a1 = a2)))"

section \<open>Sequence numbers and responses\<close>

text \<open>The decimal digits that the stream operator prints for an unsigned number.\<close>

fun decimal :: "nat \<Rightarrow> string" where
  "decimal n = (if n < 10 then [char_of (48 + n)] else decimal (n div 10) @ [char_of (48 + n mod 10)])"

declare decimal.simps [simp del]

definition setCSeq_method :: "u32 \<Rightarrow> string \<Rightarrow> SipMessage \<Rightarrow> SipMessage" where
  "setCSeq_method uiSn sMethod m =
     addHeaderField ''CSeq'' (decimal (unat uiSn) @ '' '' @ sMethod)
       (m\<lparr>sm_mHeaderMap := filter (\<lambda>kv. fst kv \<noteq> ''CSeq'') (sm_mHeaderMap m)\<rparr>)"

definition setCSeq :: "u32 \<Rightarrow> SipMessage \<Rightarrow> SipMessage" where
  "setCSeq uiSn m =
     addHeaderField ''CSeq'' (decimal (unat uiSn) @ '' '' @ sm_sMethod m)
       (m\<lparr>sm_mHeaderMap := filter (\<lambda>kv. fst kv \<noteq> ''CSeq'') (sm_mHeaderMap m)\<rparr>)"

definition getRequestSequenceNumber :: "(string \<Rightarrow> u32 option) \<Rightarrow> SipMessage \<Rightarrow> fault + u32" where
  "getRequestSequenceNumber convert m =
     (case getHeaderField ''CSeq'' m of
        None \<Rightarrow> Inl Assertion_failed
      | Some cseq \<Rightarrow>
          if CHR '' '' \<notin> set cseq then Inl Assertion_failed
          else (case convert (takeWhile (\<lambda>c. c \<noteq> CHR '' '') cseq) of
                  None \<Rightarrow> Inl Assertion_failed | Some uiSN \<Rightarrow> Inr uiSN))"

definition decrementMaxForwards :: "(string \<Rightarrow> u32 option) \<Rightarrow> SipMessage \<Rightarrow> fault + SipMessage" where
  "decrementMaxForwards convert m =
     (case getHeaderField ''Max-Forwards'' m of
        None \<Rightarrow> Inr m
      | Some v \<Rightarrow> (case convert v of
          None \<Rightarrow> Inl Assertion_failed
        | Some n \<Rightarrow>
            (case header_update ''Max-Forwards'' (\<lambda>_. decimal (unat (if n > 0 then n - 1 else n))) (sm_mHeaderMap m) of
               None \<Rightarrow> Inr m | Some h \<Rightarrow> Inr (m\<lparr>sm_mHeaderMap := h\<rparr>))))"

definition isValidRequest :: "SipMessage \<Rightarrow> bool" where
  "isValidRequest m \<longleftrightarrow> hasHeader ''To'' m \<and> hasHeader ''From'' m \<and> hasHeader ''CSeq'' m \<and> hasHeader ''Call-ID'' m
     \<and> hasHeader ''Max-Forwards'' m"

definition isValidResponse :: "SipMessage \<Rightarrow> bool" where
  "isValidResponse m \<longleftrightarrow> hasHeader ''To'' m \<and> hasHeader ''From'' m \<and> hasHeader ''CSeq'' m \<and> hasHeader ''Call-ID'' m"

definition createResponse :: "SipMessage \<Rightarrow> SipMessage option" where
  "createResponse request =
     (if \<not> isValidRequest request then None
      else let r0 = SipMessage_response NOT_SET;
               r1 = addHeaderField ''From'' (the (getHeaderField ''From'' request)) r0;
               r2 = addHeaderField ''Call-ID'' (the (getHeaderField ''Call-ID'' request)) r1;
               r3 = addHeaderField ''CSeq'' (the (getHeaderField ''CSeq'' request)) r2
           in Some (fold (addHeaderField ''Via'') (getHeaderFields ''Via'' request) r3))"

text \<open>The split of a To, From or Contact value into URI and display name.\<close>

definition trim :: "string \<Rightarrow> string" where
  "trim s = (let ws = (\<lambda>c. c \<in> set [CHR '' '', CHR 0x09, CHR 0x0A, CHR 0x0B, CHR 0x0C, CHR 0x0D])
             in rev (dropWhile ws (rev (dropWhile ws s))))"

definition getUriAndDisplayName :: "string \<Rightarrow> string \<times> string" where
  "getUriAndDisplayName sHeader =
     (let header = takeWhile (\<lambda>c. c \<noteq> CHR '';'') sHeader in
      if CHR ''<'' \<notin> set header then (header, [])
      else let name = takeWhile (\<lambda>c. c \<noteq> CHR ''<'') header; rest = drop (length name + 1) header;
               pos = length name; pos2 = length (takeWhile (\<lambda>c. c \<noteq> CHR ''>'') header);
               uri = (if CHR ''>'' \<in> set header \<and> pos < pos2 then take (pos2 - pos - 1) rest else rest)
           in (uri, trim name))"

section \<open>Header fields by name\<close>

definition header_uri :: "string \<Rightarrow> SipMessage \<Rightarrow> string" where
  "header_uri sHeader m = (case getHeaderField sHeader m of None \<Rightarrow> [] | Some v \<Rightarrow> fst (getUriAndDisplayName v))"

definition header_display_name :: "string \<Rightarrow> SipMessage \<Rightarrow> string" where
  "header_display_name sHeader m = (case getHeaderField sHeader m of None \<Rightarrow> [] | Some v \<Rightarrow> snd (getUriAndDisplayName v))"

definition getFromUri :: "SipMessage \<Rightarrow> string" where "getFromUri = header_uri ''From''"
definition getFromDisplayName :: "SipMessage \<Rightarrow> string" where "getFromDisplayName = header_display_name ''From''"
definition getContactUri :: "SipMessage \<Rightarrow> string" where "getContactUri = header_uri ''Contact''"
definition getContactDisplayName :: "SipMessage \<Rightarrow> string" where "getContactDisplayName = header_display_name ''Contact''"
definition getToUri :: "SipMessage \<Rightarrow> string" where "getToUri = header_uri ''To''"
definition getToDisplayName :: "SipMessage \<Rightarrow> string" where "getToDisplayName = header_display_name ''To''"

definition SipMessage_getContact :: "SipMessage \<Rightarrow> fault + string" where
  "SipMessage_getContact m = (case getHeaderField ''Contact'' m of None \<Rightarrow> Inl Assertion_failed | Some v \<Rightarrow> Inr v)"

definition setContact :: "string \<Rightarrow> SipMessage \<Rightarrow> SipMessage" where
  "setContact sContact m = setHeaderField ''Contact'' sContact m"

text \<open>What follows the first blank of the part of the topmost Via field that names the protocol.\<close>

definition getSentByInTopMostVia :: "(string \<Rightarrow> string list) \<Rightarrow> SipMessage \<Rightarrow> fault + string" where
  "getSentByInTopMostVia tokenize m =
     (case getTopMostVia m of
        Inl f \<Rightarrow> Inl f
      | Inr sVia \<Rightarrow>
          (case find (\<lambda>param. starts_with param ''SIP/2.0'') (tokenize sVia) of
             None \<Rightarrow> Inr []
           | Some param \<Rightarrow>
               if CHR '' '' \<notin> set param then Inl Assertion_failed
               else Inr (drop (length (takeWhile (\<lambda>c. c \<noteq> CHR '' '') param) + 1) param)))"

section \<open>The header map as an ordered multimap\<close>

definition header_sorted :: "header_map \<Rightarrow> bool" where
  "header_sorted m \<longleftrightarrow> sorted (map fst m)"

lemma set_header_insert: "set (header_insert k v m) = insert (k, v) (set m)"
proof -
  have "set (takeWhile (\<lambda>kv. fst kv \<le> k) m) \<union> set (dropWhile (\<lambda>kv. fst kv \<le> k) m) = set m"
    by (metis set_append takeWhile_dropWhile_id)
  then show ?thesis by (auto simp: header_insert_def)
qed

lemma header_sorted_insert: "header_sorted m \<Longrightarrow> header_sorted (header_insert k v m)"
proof (induction m)
  case (Cons kv m)
  have "header_insert k v (kv # m) = (if fst kv \<le> k then kv # header_insert k v m else (k, v) # kv # m)"
    by (simp add: header_insert_def)
  then show ?case
    using Cons set_header_insert [of k v m] by (auto simp: header_sorted_def)
qed (simp add: header_sorted_def header_insert_def)

lemma filter_header_insert_other: "k' \<noteq> k \<Longrightarrow> filter (\<lambda>kv. fst kv = k') (header_insert k v m) = filter (\<lambda>kv. fst kv = k') m"
  unfolding header_insert_def by (induction m) auto

lemma filter_header_insert_same:
  assumes "header_sorted m"
  shows "filter (\<lambda>kv. fst kv = k) (header_insert k v m) = filter (\<lambda>kv. fst kv = k) m @ [(k, v)]"
  using assms
proof (induction m)
  case (Cons kv m)
  show ?case
  proof (cases "fst kv \<le> k")
    case True
    then show ?thesis using Cons by (auto simp: header_insert_def header_sorted_def)
  next
    case False
    then have "\<forall>x\<in>set m. fst x \<noteq> k" using Cons.prems by (auto simp: header_sorted_def)
    then have "filter (\<lambda>kv. fst kv = k) m = []" by (simp add: filter_empty_conv)
    then show ?thesis using False by (auto simp: header_insert_def)
  qed
qed (simp add: header_insert_def)

lemma getHeaderFields_add:
  assumes "header_sorted (sm_mHeaderMap m)"
  shows "getHeaderFields k' (addHeaderField k v m) = (if k' = k then getHeaderFields k m @ [v] else getHeaderFields k' m)"
  using filter_header_insert_same [OF assms, of k v] filter_header_insert_other [of k' k v]
  by (simp add: getHeaderFields_def addHeaderField_def)

lemma map_of_filter_key: "map_of m k = (case filter (\<lambda>kv. fst kv = k) m of [] \<Rightarrow> None | kv # _ \<Rightarrow> Some (snd kv))"
  by (induction m) auto

lemma getHeaderField_first: "getHeaderField k m = (case getHeaderFields k m of [] \<Rightarrow> None | v # _ \<Rightarrow> Some v)"
  unfolding getHeaderField_def getHeaderFields_def map_of_filter_key by (auto split: list.split)

lemma header_sorted_add: "header_sorted (sm_mHeaderMap m) \<Longrightarrow> header_sorted (sm_mHeaderMap (addHeaderField k v m))"
  by (simp add: addHeaderField_def header_sorted_insert)

lemma fold_addHeaderField:
  assumes "header_sorted (sm_mHeaderMap m)"
  shows "getHeaderFields k' (fold (addHeaderField k) vs m) = (if k' = k then getHeaderFields k m @ vs else getHeaderFields k' m)"
    and "header_sorted (sm_mHeaderMap (fold (addHeaderField k) vs m))"
  using assms
proof (induction vs arbitrary: m)
  case (Cons v vs)
  {
    case 1
    then show ?case
      using Cons.IH(1) [OF header_sorted_add, of m k v] getHeaderFields_add [of m] by simp
  next
    case 2
    then show ?case using Cons.IH(2) [OF header_sorted_add, of m k v] by simp
  }
qed simp_all

lemma getHeaderFields_new [simp]: "getHeaderFields k (SipMessage_response c) = []"
  "getHeaderFields k (SipMessage_request e u) = []"
  by (simp_all add: getHeaderFields_def SipMessage_response_def SipMessage_request_def SipMessage_new_def)

lemma header_sorted_new [simp]: "header_sorted (sm_mHeaderMap (SipMessage_response c))"
  "header_sorted (sm_mHeaderMap (SipMessage_request e u))"
  by (simp_all add: header_sorted_def SipMessage_response_def SipMessage_request_def SipMessage_new_def)

lemma copyHeaderField_frame [simp]:
  "sm_sMethod (copyHeaderField k other m) = sm_sMethod m" "sm_eMethod (copyHeaderField k other m) = sm_eMethod m"
  "sm_sRequestUriString (copyHeaderField k other m) = sm_sRequestUriString m"
  by (simp_all add: copyHeaderField_def addHeaderField_def split: option.split)

lemma createResponse_fields:
  assumes "createResponse request = Some response"
  shows "getHeaderFields k response = (if k = ''Via'' then getHeaderFields ''Via'' request
      else if k \<in> {''From'', ''Call-ID'', ''CSeq''} then [the (getHeaderField k request)] else [])"
    and "header_sorted (sm_mHeaderMap response)" and "isValidRequest request" and "isResponse response"
proof -
  let ?get = "\<lambda>k. the (getHeaderField k request)"
  let ?r3 = "addHeaderField ''CSeq'' (?get ''CSeq'') (addHeaderField ''Call-ID'' (?get ''Call-ID'')
      (addHeaderField ''From'' (?get ''From'') (SipMessage_response NOT_SET)))"
  show "isValidRequest request" using assms by (auto simp: createResponse_def Let_def split: if_splits)
  have resp: "response = fold (addHeaderField ''Via'') (getHeaderFields ''Via'' request) ?r3"
    using assms by (auto simp: createResponse_def Let_def split: if_splits)
  have s: "header_sorted (sm_mHeaderMap ?r3)" by (simp add: header_sorted_add)
  note f = fold_addHeaderField(1) [OF s, of _ "''Via''" "getHeaderFields ''Via'' request", folded resp]
    fold_addHeaderField(2) [OF s, of "''Via''" "getHeaderFields ''Via'' request", folded resp]
  show "header_sorted (sm_mHeaderMap response)" by (rule f(2))
  show "getHeaderFields k response = (if k = ''Via'' then getHeaderFields ''Via'' request
      else if k \<in> {''From'', ''Call-ID'', ''CSeq''} then [?get k] else [])"
    by (simp add: f(1) getHeaderFields_add header_sorted_add)
  have "sm_eType (fold (addHeaderField k) vs m) = sm_eType m" for k vs m
    by (induction vs arbitrary: m) (simp_all add: addHeaderField_def)
  then show "isResponse response"
    by (simp add: resp isResponse_def) (simp add: addHeaderField_def SipMessage_response_def)
qed

section \<open>Properties of SIP messages\<close>

text \<open>
  A response mirrors its request. A response is made exactly for the requests with To, From, CSeq,
  Call-ID and Max-Forwards; it has one From, Call-ID and CSeq field each, equal to the first of the
  request, all Via fields of the request in the same order, and no other field.
\<close>

theorem createResponse_mirrors_request:
  "(createResponse request \<noteq> None) = isValidRequest request
   \<and> (\<forall>response. createResponse request = Some response \<longrightarrow>
       isResponse response
       \<and> (\<forall>k\<in>{''From'', ''Call-ID'', ''CSeq''}. \<exists>v. getHeaderField k request = Some v \<and> getHeaderFields k response = [v])
       \<and> getHeaderFields ''Via'' response = getHeaderFields ''Via'' request
       \<and> (\<forall>k. k \<notin> {''From'', ''Call-ID'', ''CSeq'', ''Via''} \<longrightarrow> getHeaderFields k response = []))"
proof (intro conjI allI impI)
  show "(createResponse request \<noteq> None) = isValidRequest request" by (simp add: createResponse_def Let_def)
next
  fix response assume "createResponse request = Some response"
  note fields = createResponse_fields [OF this]
  show "isResponse response" by (rule fields)
  show "\<forall>k\<in>{''From'', ''Call-ID'', ''CSeq''}. \<exists>v. getHeaderField k request = Some v \<and> getHeaderFields k response = [v]"
    using fields(3) by (auto simp: fields(1) isValidRequest_def hasHeader_def)
  show "getHeaderFields ''Via'' response = getHeaderFields ''Via'' request" by (simp add: fields(1))
  show "getHeaderFields k response = []" if "k \<notin> {''From'', ''Call-ID'', ''CSeq'', ''Via''}" for k
    using that by (auto simp: fields(1))
qed

definition sample_request :: SipMessage where
  "sample_request = addHeaderField ''Via'' ''SIP/2.0/UDP b'' (addHeaderField ''Via'' ''SIP/2.0/UDP a''
     (addHeaderField ''Max-Forwards'' ''70'' (addHeaderField ''Call-ID'' ''c1'' (addHeaderField ''CSeq'' ''7 INVITE''
     (addHeaderField ''From'' ''sip:a'' (addHeaderField ''To'' ''sip:b'' (SipMessage_request INVITE ''sip:b'')))))))"

lemma sample_request_fields:
  "getHeaderFields k sample_request = (if k = ''Via'' then [''SIP/2.0/UDP a'', ''SIP/2.0/UDP b''] else if k = ''Max-Forwards'' then [''70'']
     else if k = ''Call-ID'' then [''c1''] else if k = ''CSeq'' then [''7 INVITE''] else if k = ''From'' then [''sip:a'']
     else if k = ''To'' then [''sip:b''] else [])"
  unfolding sample_request_def by (simp add: getHeaderFields_add header_sorted_add)

theorem createResponse_mirrors_request_witness:
  "\<exists>r. createResponse sample_request = Some r \<and> getHeaderFields ''Via'' r = [''SIP/2.0/UDP a'', ''SIP/2.0/UDP b'']"
proof -
  have "isValidRequest sample_request" by (simp add: isValidRequest_def hasHeader_def getHeaderField_first sample_request_fields)
  then show ?thesis
    using createResponse_mirrors_request [of sample_request] by (auto simp: sample_request_fields)
qed

end
