(* ===== verification/Client_Transaction.thy ===== *)
theory Client_Transaction
  imports Sip_Message
begin

text \<open>
  The SIP client transaction (\<open>rfc3261/ClientTransaction.cpp\<close>), a state machine driven by responses
  and timers. A handler returns the messages it hands to the transport and the notifications it
  makes, in order, and the new state; whether the transport accepts a message is part of the event.
  A timer holds the interval of its pending wait, none if there is none: \<open>async_wait\<close> starts
  it, firing and \<open>cancel\<close> end it. The transaction user destroys a transaction when it terminates.
\<close>

section \<open>State\<close>

datatype TransactionProtocol = TP_TCP | TP_UDP | TP_SCTP

definition isTransportUnreliable :: "TransactionProtocol \<Rightarrow> bool" where
  "isTransportUnreliable eProtocol = (case eProtocol of TP_TCP \<Rightarrow> False | TP_UDP \<Rightarrow> True | TP_SCTP \<Rightarrow> True)"

datatype ClientTransactionState = CTXS_CALLING_OR_TRYING | CTXS_PROCEEDING | CTXS_COMPLETED | CTXS_TERMINATED

datatype CtType = CT_INVITE | CT_NON_INVITE

definition INTERVAL_T1_DEFAULT_MS :: u32 where "INTERVAL_T1_DEFAULT_MS = 500"
definition INTERVAL_T2_DEFAULT_MS :: u32 where "INTERVAL_T2_DEFAULT_MS = 4000"
definition INTERVAL_T4_DEFAULT_MS :: u32 where "INTERVAL_T4_DEFAULT_MS = 5000"
definition INTERVAL_UNRELIABLE_PROTOCOL_TIMEOUT_S :: u32 where "INTERVAL_UNRELIABLE_PROTOCOL_TIMEOUT_S = 32"

lemmas interval_defs = INTERVAL_T1_DEFAULT_MS_def INTERVAL_T2_DEFAULT_MS_def INTERVAL_T4_DEFAULT_MS_def
  INTERVAL_UNRELIABLE_PROTOCOL_TIMEOUT_S_def

record ClientTransaction =
  ct_timerA :: "u32 option"
  ct_timerB :: "u32 option"
  ct_timerD :: "u32 option"
  ct_timerE :: "u32 option"
  ct_timerF :: "u32 option"
  ct_timerK :: "u32 option"
  ct_originalRequest :: SipMessage
  ct_eProtocol :: TransactionProtocol
  ct_eTxState :: ClientTransactionState
  ct_eTxType :: CtType
  ct_timerAIntervalMs :: u32
  ct_timerDIntervalS :: u32
  ct_timerEIntervalMs :: u32
  ct_bTuHasBeenNotififedOfFinalResponse :: bool

datatype ct_output = Send SipMessage | Notify_timeout | Notify_response SipMessage | Notify_terminated

type_synonym ct_result = "fault + ct_output list \<times> ClientTransaction"

section \<open>Handlers\<close>

definition updateState :: "ClientTransactionState \<Rightarrow> ClientTransaction \<Rightarrow> ct_output list \<times> ClientTransaction" where
  "updateState eState s0 =
     (let s = s0\<lparr>ct_eTxState := eState\<rparr> in
      case ct_eTxType s of
        CT_INVITE \<Rightarrow>
          if eState = CTXS_TERMINATED
          then ([Notify_terminated], s\<lparr>ct_timerA := None, ct_timerB := None, ct_timerD := None\<rparr>)
          else ([], s)
      | CT_NON_INVITE \<Rightarrow>
          if eState = CTXS_COMPLETED
          then ([], if isTransportUnreliable (ct_eProtocol s) then s\<lparr>ct_timerK := Some INTERVAL_T4_DEFAULT_MS\<rparr> else s)
          else if eState = CTXS_TERMINATED
          then ([Notify_terminated], s\<lparr>ct_timerE := None, ct_timerF := None, ct_timerK := None\<rparr>)
          else ([], s))"

definition beginInviteTransaction :: "ClientTransaction \<Rightarrow> ct_output list \<times> ClientTransaction" where
  "beginInviteTransaction s =
     (let s1 = (if isTransportUnreliable (ct_eProtocol s) then s\<lparr>ct_timerA := Some INTERVAL_T1_DEFAULT_MS\<rparr> else s)
      in ([Send (ct_originalRequest s)], s1\<lparr>ct_timerB := Some (64 * INTERVAL_T1_DEFAULT_MS)\<rparr>))"

definition beginNonInviteTransaction :: "bool \<Rightarrow> ClientTransaction \<Rightarrow> ct_output list \<times> ClientTransaction" where
  "beginNonInviteTransaction bSent s =
     (if \<not> bSent then ([Send (ct_originalRequest s)], s)
      else let s1 = (if isTransportUnreliable (ct_eProtocol s) then s\<lparr>ct_timerE := Some INTERVAL_T1_DEFAULT_MS\<rparr> else s)
           in ([Send (ct_originalRequest s)], s1\<lparr>ct_timerF := Some (64 * INTERVAL_T1_DEFAULT_MS)\<rparr>))"

definition ClientTransaction_create :: "bool \<Rightarrow> SipMessage \<Rightarrow> TransactionProtocol \<Rightarrow> ct_output list \<times> ClientTransaction" where
  "ClientTransaction_create bSent sipMessage eProtocol =
     (let s = \<lparr>ct_timerA = None, ct_timerB = None, ct_timerD = None, ct_timerE = None, ct_timerF = None, ct_timerK = None,
               ct_originalRequest = sipMessage, ct_eProtocol = eProtocol, ct_eTxState = CTXS_CALLING_OR_TRYING,
               ct_eTxType = (if sm_eMethod sipMessage = INVITE then CT_INVITE else CT_NON_INVITE),
               ct_timerAIntervalMs = INTERVAL_T1_DEFAULT_MS,
               ct_timerDIntervalS = (if isTransportUnreliable eProtocol then INTERVAL_UNRELIABLE_PROTOCOL_TIMEOUT_S else 0),
               ct_timerEIntervalMs = INTERVAL_T1_DEFAULT_MS, ct_bTuHasBeenNotififedOfFinalResponse = False\<rparr>
      in case ct_eTxType s of
           CT_INVITE \<Rightarrow> beginInviteTransaction s
         | CT_NON_INVITE \<Rightarrow> beginNonInviteTransaction bSent s)"

definition handleTimerATimeout :: "bool \<Rightarrow> ClientTransaction \<Rightarrow> ct_result" where
  "handleTimerATimeout bSent s =
     (let s1 = s\<lparr>ct_timerAIntervalMs := ct_timerAIntervalMs s * 2\<rparr>; sent = Send (ct_originalRequest s1) in
      if \<not> bSent then (case updateState CTXS_TERMINATED s1 of (out, s2) \<Rightarrow> Inr (sent # out, s2))
      else Inr ([sent], s1\<lparr>ct_timerA := Some (ct_timerAIntervalMs s1)\<rparr>))"

definition handleTimerBTimeout :: "ClientTransaction \<Rightarrow> ct_result" where
  "handleTimerBTimeout s =
     (if ct_eTxState s = CTXS_CALLING_OR_TRYING
      then (case updateState CTXS_TERMINATED s of (out, s1) \<Rightarrow> Inr (Notify_timeout # out, s1))
      else Inr ([], s))"

definition handleTimerDTimeout :: "ClientTransaction \<Rightarrow> ct_result" where
  "handleTimerDTimeout s =
     (case ct_eTxState s of
        CTXS_CALLING_OR_TRYING \<Rightarrow> Inl Assertion_failed
      | CTXS_PROCEEDING \<Rightarrow> Inl Assertion_failed
      | CTXS_COMPLETED \<Rightarrow> Inr (updateState CTXS_TERMINATED s)
      | CTXS_TERMINATED \<Rightarrow> Inl Assertion_failed)"

text \<open>In the Proceeding state the expiry time of timer E is set, but no wait is started.\<close>

definition handleTimerETimeout :: "bool \<Rightarrow> ClientTransaction \<Rightarrow> ct_result" where
  "handleTimerETimeout bSent s =
     (let sent = Send (ct_originalRequest s) in
      if ct_eTxState s = CTXS_CALLING_OR_TRYING
      then let s1 = s\<lparr>ct_timerEIntervalMs := min (2 * ct_timerEIntervalMs s) INTERVAL_T2_DEFAULT_MS\<rparr> in
           if \<not> bSent then (case updateState CTXS_TERMINATED s1 of (out, s2) \<Rightarrow> Inr (sent # out, s2))
           else Inr ([sent], s1\<lparr>ct_timerE := Some (ct_timerEIntervalMs s1)\<rparr>)
      else if ct_eTxState s = CTXS_PROCEEDING
      then if \<not> bSent then (case updateState CTXS_TERMINATED s of (out, s2) \<Rightarrow> Inr (sent # out, s2))
           else Inr ([sent], s\<lparr>ct_timerEIntervalMs := INTERVAL_T2_DEFAULT_MS\<rparr>)
      else Inr ([], s))"

definition handleTimerFTimeout :: "ClientTransaction \<Rightarrow> ct_result" where
  "handleTimerFTimeout s =
     (if ct_eTxState s = CTXS_CALLING_OR_TRYING \<or> ct_eTxState s = CTXS_PROCEEDING
      then (case updateState CTXS_TERMINATED s of (out, s1) \<Rightarrow> Inr (Notify_timeout # out, s1))
      else Inr ([], s))"

definition handleTimerKTimeout :: "ClientTransaction \<Rightarrow> ct_result" where
  "handleTimerKTimeout s =
     (if ct_eTxState s \<noteq> CTXS_COMPLETED then Inl Assertion_failed else Inr (updateState CTXS_TERMINATED s))"

definition make_ack :: "(string \<Rightarrow> u32 option) \<Rightarrow> SipMessage \<Rightarrow> SipMessage \<Rightarrow> fault + SipMessage" where
  "make_ack convert originalRequest sipResponse =
     (let ack0 = SipMessage_request ACK (sm_sRequestUriString originalRequest);
          ack1 = copyHeaderField ''Call-ID'' originalRequest ack0;
          ack2 = copyHeaderField ''From'' originalRequest ack1;
          ack3 = copyHeaderField ''Max-Forwards'' originalRequest ack2;
          ack4 = copyHeaderField ''To'' sipResponse ack3;
          ack5 = copyHeaderField ''Via'' originalRequest ack4
      in case getRequestSequenceNumber convert originalRequest of
           Inl f \<Rightarrow> Inl f | Inr uiSn \<Rightarrow> Inr (setCSeq uiSn ack5))"

definition sendAck :: "(string \<Rightarrow> u32 option) \<Rightarrow> bool \<Rightarrow> SipMessage \<Rightarrow> ClientTransaction \<Rightarrow> ct_result" where
  "sendAck convert bSent sipResponse s =
     (case make_ack convert (ct_originalRequest s) sipResponse of
        Inl f \<Rightarrow> Inl f
      | Inr ack \<Rightarrow>
          if \<not> bSent then (case updateState CTXS_TERMINATED s of (out, s1) \<Rightarrow> Inr (Send ack # out, s1))
          else Inr ([Send ack], s))"

definition prepend :: "ct_output list \<Rightarrow> ct_result \<Rightarrow> ct_result" where
  "prepend out r = (case r of Inl f \<Rightarrow> Inl f | Inr (out', s) \<Rightarrow> Inr (out @ out', s))"

text \<open>The code shared by the Calling state, which falls through, and the Proceeding state.\<close>

definition inviteProceeding :: "(string \<Rightarrow> u32 option) \<Rightarrow> bool \<Rightarrow> SipMessage \<Rightarrow> ClientTransaction \<Rightarrow> ct_result" where
  "inviteProceeding convert bSent sipMessage s =
     (let eCode = sm_eResponseCode sipMessage in
      if isResponseProvisional eCode then Inr ([Notify_response sipMessage], s)
      else if isFinalNonSuccessfulResponse eCode
      then (case updateState CTXS_COMPLETED s of (out, s1) \<Rightarrow>
              let s2 = s1\<lparr>ct_timerD := Some (ct_timerDIntervalS s1 * 1000), ct_bTuHasBeenNotififedOfFinalResponse := True\<rparr>
              in prepend (out @ [Notify_response sipMessage]) (sendAck convert bSent sipMessage s2))
      else if isResponseSuccessfull eCode
      then (case updateState CTXS_TERMINATED s of (out, s1) \<Rightarrow> Inr (Notify_response sipMessage # out, s1))
      else Inr ([], s))"

definition onInviteResponseReceived :: "(string \<Rightarrow> u32 option) \<Rightarrow> bool \<Rightarrow> SipMessage \<Rightarrow> ClientTransaction \<Rightarrow> ct_result" where
  "onInviteResponseReceived convert bSent sipMessage s0 =
     (if \<not> isResponse sipMessage then Inl Assertion_failed
      else let s = (if isTransportUnreliable (ct_eProtocol s0) then s0\<lparr>ct_timerA := None\<rparr> else s0) in
           case ct_eTxState s of
             CTXS_CALLING_OR_TRYING \<Rightarrow>
               if isResponseProvisional (sm_eResponseCode sipMessage)
               then (case updateState CTXS_PROCEEDING s of (out, s1) \<Rightarrow>
                       prepend (out @ [Notify_response sipMessage])
                         (inviteProceeding convert bSent sipMessage (s1\<lparr>ct_timerA := None\<rparr>)))
               else inviteProceeding convert bSent sipMessage s
           | CTXS_PROCEEDING \<Rightarrow> inviteProceeding convert bSent sipMessage s
           | CTXS_COMPLETED \<Rightarrow>
               if ct_bTuHasBeenNotififedOfFinalResponse s then sendAck convert bSent sipMessage s else Inr ([], s)
           | CTXS_TERMINATED \<Rightarrow> Inl Assertion_failed)"

definition nonInviteProceeding :: "SipMessage \<Rightarrow> ClientTransaction \<Rightarrow> ct_result" where
  "nonInviteProceeding sipMessage s =
     (if isResponseFinal (sm_eResponseCode sipMessage)
      then (case updateState CTXS_COMPLETED (s\<lparr>ct_timerE := None, ct_timerF := None\<rparr>) of
              (out, s1) \<Rightarrow> Inr (out @ [Notify_response sipMessage], s1))
      else Inr ([], s))"

definition onNonInviteResponseReceived :: "SipMessage \<Rightarrow> ClientTransaction \<Rightarrow> ct_result" where
  "onNonInviteResponseReceived sipMessage s =
     (if \<not> isResponse sipMessage then Inl Assertion_failed
      else case ct_eTxState s of
             CTXS_CALLING_OR_TRYING \<Rightarrow>
               if isResponseProvisional (sm_eResponseCode sipMessage)
               then (case updateState CTXS_PROCEEDING s of (out, s1) \<Rightarrow>
                       prepend (out @ [Notify_response sipMessage]) (nonInviteProceeding sipMessage s1))
               else nonInviteProceeding sipMessage s
           | CTXS_PROCEEDING \<Rightarrow> nonInviteProceeding sipMessage s
           | CTXS_COMPLETED \<Rightarrow> Inr ([], s)
           | CTXS_TERMINATED \<Rightarrow> Inl Assertion_failed)"

definition onResponseReceived :: "(string \<Rightarrow> u32 option) \<Rightarrow> bool \<Rightarrow> SipMessage \<Rightarrow> ClientTransaction \<Rightarrow> ct_result" where
  "onResponseReceived convert bSent sipMessage s =
     (case ct_eTxType s of
        CT_INVITE \<Rightarrow> onInviteResponseReceived convert bSent sipMessage s
      | CT_NON_INVITE \<Rightarrow> onNonInviteResponseReceived sipMessage s)"

section \<open>The transition system\<close>

datatype ct_event = Timer_A bool | Timer_B | Timer_D | Timer_E bool | Timer_F | Timer_K | Response SipMessage bool

text \<open>A timer fires only while a wait is pending; responses reach a transaction until it is destroyed.\<close>

definition ct_enabled :: "ct_event \<Rightarrow> ClientTransaction \<Rightarrow> bool" where
  "ct_enabled e s = (case e of
     Timer_A b \<Rightarrow> ct_timerA s \<noteq> None | Timer_B \<Rightarrow> ct_timerB s \<noteq> None | Timer_D \<Rightarrow> ct_timerD s \<noteq> None
   | Timer_E b \<Rightarrow> ct_timerE s \<noteq> None | Timer_F \<Rightarrow> ct_timerF s \<noteq> None | Timer_K \<Rightarrow> ct_timerK s \<noteq> None
   | Response r b \<Rightarrow> isResponse r \<and> ct_eTxState s \<noteq> CTXS_TERMINATED)"

definition ct_handle :: "(string \<Rightarrow> u32 option) \<Rightarrow> ct_event \<Rightarrow> ClientTransaction \<Rightarrow> ct_result" where
  "ct_handle convert e s = (case e of
     Timer_A b \<Rightarrow> handleTimerATimeout b (s\<lparr>ct_timerA := None\<rparr>)
   | Timer_B \<Rightarrow> handleTimerBTimeout (s\<lparr>ct_timerB := None\<rparr>)
   | Timer_D \<Rightarrow> handleTimerDTimeout (s\<lparr>ct_timerD := None\<rparr>)
   | Timer_E b \<Rightarrow> handleTimerETimeout b (s\<lparr>ct_timerE := None\<rparr>)
   | Timer_F \<Rightarrow> handleTimerFTimeout (s\<lparr>ct_timerF := None\<rparr>)
   | Timer_K \<Rightarrow> handleTimerKTimeout (s\<lparr>ct_timerK := None\<rparr>)
   | Response r b \<Rightarrow> onResponseReceived convert b r s)"

inductive ct_reachable :: "(string \<Rightarrow> u32 option) \<Rightarrow> SipMessage \<Rightarrow> TransactionProtocol \<Rightarrow> ct_output list \<Rightarrow> ClientTransaction \<Rightarrow> bool"
  for convert request eProtocol where
  start: "ClientTransaction_create True request eProtocol = (out, s) \<Longrightarrow> ct_reachable convert request eProtocol out s"
| step: "\<lbrakk>ct_reachable convert request eProtocol out s; ct_enabled e s; ct_handle convert e s = Inr (out', s')\<rbrakk> \<Longrightarrow>
    ct_reachable convert request eProtocol (out @ out') s'"

inductive_cases ct_reachableE: "ct_reachable convert request eProtocol out s"

text \<open>Which timers can be pending in which state.\<close>

definition ct_inv :: "SipMessage \<Rightarrow> TransactionProtocol \<Rightarrow> ClientTransaction \<Rightarrow> bool" where
  "ct_inv request eProtocol s \<longleftrightarrow>
     ct_originalRequest s = request \<and> ct_eProtocol s = eProtocol
   \<and> (ct_eTxType s = CT_INVITE \<longrightarrow> ct_timerE s = None \<and> ct_timerF s = None \<and> ct_timerK s = None
       \<and> (ct_eTxState s = CTXS_CALLING_OR_TRYING \<longrightarrow> ct_timerB s \<noteq> None)
       \<and> (ct_timerA s \<noteq> None \<longrightarrow> ct_eTxState s = CTXS_CALLING_OR_TRYING \<and> isTransportUnreliable eProtocol)
       \<and> (ct_timerD s \<noteq> None \<longleftrightarrow> ct_eTxState s = CTXS_COMPLETED)
       \<and> (ct_eTxState s = CTXS_TERMINATED \<longrightarrow> ct_timerB s = None)
       \<and> (ct_eTxState s = CTXS_COMPLETED \<longrightarrow> ct_bTuHasBeenNotififedOfFinalResponse s))
   \<and> (ct_eTxType s = CT_NON_INVITE \<longrightarrow> ct_timerA s = None \<and> ct_timerB s = None \<and> ct_timerD s = None
       \<and> (ct_timerF s \<noteq> None \<longleftrightarrow> ct_eTxState s = CTXS_CALLING_OR_TRYING \<or> ct_eTxState s = CTXS_PROCEEDING)
       \<and> (ct_timerE s \<noteq> None \<longrightarrow> ct_timerF s \<noteq> None)
       \<and> (ct_timerK s \<noteq> None \<longleftrightarrow> ct_eTxState s = CTXS_COMPLETED \<and> isTransportUnreliable eProtocol))"

lemmas ct_handler_defs = updateState_def handleTimerATimeout_def handleTimerBTimeout_def handleTimerDTimeout_def
  handleTimerETimeout_def handleTimerFTimeout_def handleTimerKTimeout_def Let_def

lemma ct_inv_create:
  "ClientTransaction_create True request eProtocol = (out, s) \<Longrightarrow> ct_inv request eProtocol s"
  by (cases "sm_eMethod request = INVITE"; cases "isTransportUnreliable eProtocol")
    (auto simp: ClientTransaction_create_def beginInviteTransaction_def beginNonInviteTransaction_def ct_inv_def Let_def)

lemma make_ack_ok:
  assumes "getRequestSequenceNumber convert request = Inr n"
  obtains ack where "make_ack convert request r = Inr ack"
  using assms by (auto simp: make_ack_def Let_def)

text \<open>One handler at a time: it does not fault, and keeps the invariant.\<close>

definition ct_ok :: "SipMessage \<Rightarrow> TransactionProtocol \<Rightarrow> ct_result \<Rightarrow> bool" where
  "ct_ok request eProtocol r \<longleftrightarrow> (case r of Inl f \<Rightarrow> False | Inr (out, s) \<Rightarrow> ct_inv request eProtocol s)"

lemma ct_timer_ok:
  assumes inv: "ct_inv request eProtocol s"
  shows "ct_timerA s \<noteq> None \<Longrightarrow> ct_ok request eProtocol (handleTimerATimeout b (s\<lparr>ct_timerA := None\<rparr>))"
    and "ct_timerB s \<noteq> None \<Longrightarrow> ct_ok request eProtocol (handleTimerBTimeout (s\<lparr>ct_timerB := None\<rparr>))"
    and "ct_timerD s \<noteq> None \<Longrightarrow> ct_ok request eProtocol (handleTimerDTimeout (s\<lparr>ct_timerD := None\<rparr>))"
    and "ct_timerE s \<noteq> None \<Longrightarrow> ct_ok request eProtocol (handleTimerETimeout b (s\<lparr>ct_timerE := None\<rparr>))"
    and "ct_timerF s \<noteq> None \<Longrightarrow> ct_ok request eProtocol (handleTimerFTimeout (s\<lparr>ct_timerF := None\<rparr>))"
    and "ct_timerK s \<noteq> None \<Longrightarrow> ct_ok request eProtocol (handleTimerKTimeout (s\<lparr>ct_timerK := None\<rparr>))"
proof -
  show "ct_timerA s \<noteq> None \<Longrightarrow> ct_ok request eProtocol (handleTimerATimeout b (s\<lparr>ct_timerA := None\<rparr>))"
    using inv by (cases "ct_eTxType s") (auto simp: ct_ok_def ct_inv_def ct_handler_defs)
  show "ct_timerB s \<noteq> None \<Longrightarrow> ct_ok request eProtocol (handleTimerBTimeout (s\<lparr>ct_timerB := None\<rparr>))"
    using inv by (cases "ct_eTxType s") (auto simp: ct_ok_def ct_inv_def ct_handler_defs)
  show "ct_timerD s \<noteq> None \<Longrightarrow> ct_ok request eProtocol (handleTimerDTimeout (s\<lparr>ct_timerD := None\<rparr>))"
    using inv by (cases "ct_eTxType s") (auto simp: ct_ok_def ct_inv_def ct_handler_defs)
  show "ct_timerE s \<noteq> None \<Longrightarrow> ct_ok request eProtocol (handleTimerETimeout b (s\<lparr>ct_timerE := None\<rparr>))"
    using inv by (cases "ct_eTxType s"; cases "ct_eTxState s") (auto simp: ct_ok_def ct_inv_def ct_handler_defs)
  show "ct_timerF s \<noteq> None \<Longrightarrow> ct_ok request eProtocol (handleTimerFTimeout (s\<lparr>ct_timerF := None\<rparr>))"
    using inv by (cases "ct_eTxType s"; cases "ct_eTxState s") (auto simp: ct_ok_def ct_inv_def ct_handler_defs)
  show "ct_timerK s \<noteq> None \<Longrightarrow> ct_ok request eProtocol (handleTimerKTimeout (s\<lparr>ct_timerK := None\<rparr>))"
    using inv by (cases "ct_eTxType s") (auto simp: ct_ok_def ct_inv_def ct_handler_defs)
qed

lemma ct_inv_terminate: "ct_inv request eProtocol s \<Longrightarrow> ct_inv request eProtocol (snd (updateState CTXS_TERMINATED s))"
  by (cases "ct_eTxType s") (auto simp: ct_inv_def updateState_def Let_def)

lemma sendAck_ok:
  assumes inv: "ct_inv request eProtocol s" and cseq: "getRequestSequenceNumber convert request = Inr n"
  shows "ct_ok request eProtocol (sendAck convert b r s)"
proof -
  obtain ack where "make_ack convert request r = Inr ack" by (rule make_ack_ok [OF cseq])
  then have ack: "make_ack convert (ct_originalRequest s) r = Inr ack" using inv by (simp add: ct_inv_def)
  show ?thesis
    using inv ct_inv_terminate [OF inv] by (simp add: sendAck_def ack ct_ok_def case_prod_beta)
qed

lemma ct_ok_prepend [simp]: "ct_ok request eProtocol (prepend out r) = ct_ok request eProtocol r"
  by (auto simp: ct_ok_def prepend_def split: sum.split)

lemma ct_ok_Inr [simp]: "ct_ok request eProtocol (Inr (out, s)) = ct_inv request eProtocol s"
  by (simp add: ct_ok_def)

lemma inviteProceeding_ok:
  assumes inv: "ct_inv request eProtocol s" and inviting: "ct_eTxType s = CT_INVITE" and A: "ct_timerA s = None"
    and st: "ct_eTxState s = CTXS_CALLING_OR_TRYING \<or> ct_eTxState s = CTXS_PROCEEDING"
    and cseq: "getRequestSequenceNumber convert request = Inr n"
  shows "ct_ok request eProtocol (inviteProceeding convert b r s)"
proof -
  let ?s = "s\<lparr>ct_eTxState := CTXS_COMPLETED, ct_timerD := Some (ct_timerDIntervalS s * 1000),
    ct_bTuHasBeenNotififedOfFinalResponse := True\<rparr>"
  have "ct_inv request eProtocol ?s" using inv inviting A by (auto simp: ct_inv_def)
  note ack = sendAck_ok [OF this cseq, of b r]
  show ?thesis
    using inv inviting ack ct_inv_terminate [OF inv] by (auto simp: inviteProceeding_def updateState_def Let_def)
qed

lemma ct_inv_cancel_A: "ct_inv request eProtocol s \<Longrightarrow> ct_inv request eProtocol (s\<lparr>ct_timerA := None\<rparr>)"
  by (auto simp: ct_inv_def)

lemma ct_response_ok:
  assumes inv: "ct_inv request eProtocol s" and r: "isResponse r" and st: "ct_eTxState s \<noteq> CTXS_TERMINATED"
    and cseq: "getRequestSequenceNumber convert request = Inr n"
  shows "ct_ok request eProtocol (onResponseReceived convert b r s)"
proof (cases "ct_eTxType s")
  case CT_INVITE
  let ?s = "if isTransportUnreliable (ct_eProtocol s) then s\<lparr>ct_timerA := None\<rparr> else s"
  have inv': "ct_inv request eProtocol ?s" using inv ct_inv_cancel_A by simp
  have A: "ct_timerA ?s = None" using inv CT_INVITE by (auto simp: ct_inv_def)
  have same: "ct_eTxState ?s = ct_eTxState s" "ct_eTxType ?s = CT_INVITE" using CT_INVITE by simp_all
  have next_state: "ct_inv request eProtocol (?s\<lparr>ct_eTxState := CTXS_PROCEEDING, ct_timerA := None\<rparr>)"
    if "ct_eTxState s = CTXS_CALLING_OR_TRYING"
    using inv' that same by (auto simp: ct_inv_def)
  show ?thesis
    using inv' A same st r next_state sendAck_ok [OF inv' cseq, of b r] inviteProceeding_ok [OF inv' same(2) A _ cseq, of b r]
      inviteProceeding_ok [OF next_state _ _ _ cseq, of b r] CT_INVITE
    by (cases "ct_eTxState s")
      (auto simp: onResponseReceived_def onInviteResponseReceived_def updateState_def Let_def)
next
  case CT_NON_INVITE
  then show ?thesis
    using inv st r
    by (cases "ct_eTxState s"; cases "isTransportUnreliable eProtocol")
      (auto simp: onResponseReceived_def onNonInviteResponseReceived_def nonInviteProceeding_def updateState_def Let_def ct_inv_def)
qed

lemma ct_handle_ok:
  assumes "ct_inv request eProtocol s" and "ct_enabled e s" and "getRequestSequenceNumber convert request = Inr n"
  shows "ct_ok request eProtocol (ct_handle convert e s)"
  using assms(2) ct_timer_ok [OF assms(1)] ct_response_ok [OF assms(1) _ _ assms(3)]
  by (cases e) (simp_all add: ct_enabled_def ct_handle_def)

lemma ct_reachable_inv:
  assumes "ct_reachable convert request eProtocol out s" and "getRequestSequenceNumber convert request = Inr n"
  shows "ct_inv request eProtocol s"
  using assms(1)
proof induction
  case (start out s)
  then show ?case by (rule ct_inv_create)
next
  case (step out s e out' s')
  then show ?case using ct_handle_ok [OF step.IH step.hyps(2) assms(2)] by simp
qed

end
