(* ===== verification/Client_Transaction_Props.thy ===== *)
theory Client_Transaction_Props
  imports Client_Transaction
begin

text \<open>
  What a SIP client transaction guarantees its user: handlers never fail an assertion, the outcome is
  reported once, a transaction that waits for nothing terminates, the ACK matches the request.
\<close>

section \<open>Notifications\<close>

definition final_outcome :: "ct_output \<Rightarrow> bool" where
  "final_outcome o' = (case o' of Notify_timeout \<Rightarrow> True | Notify_response r \<Rightarrow> isResponseFinal (sm_eResponseCode r) | _ \<Rightarrow> False)"

definition outcomes_in :: "ct_output list \<Rightarrow> nat" where
  "outcomes_in out = length (filter final_outcome out)"

definition terminations_in :: "ct_output list \<Rightarrow> nat" where
  "terminations_in out = length (filter (\<lambda>o'. o' = Notify_terminated) out)"

definition undecided :: "ClientTransaction \<Rightarrow> bool" where
  "undecided s \<longleftrightarrow> ct_eTxState s = CTXS_CALLING_OR_TRYING \<or> ct_eTxState s = CTXS_PROCEEDING"

text \<open>What a handler that starts in state \<open>s\<close> may report.\<close>

definition reports :: "ClientTransaction \<Rightarrow> ct_result \<Rightarrow> bool" where
  "reports s r \<longleftrightarrow> (case r of
     Inl f \<Rightarrow> True
   | Inr (out, s') \<Rightarrow>
       outcomes_in out \<le> (if undecided s then 1 else 0) \<and> (undecided s' \<longrightarrow> undecided s \<and> outcomes_in out = 0)
     \<and> terminations_in out = (if ct_eTxState s' = CTXS_TERMINATED then 1 else 0))"

lemmas report_defs = reports_def outcomes_in_def terminations_in_def undecided_def final_outcome_def

lemma timer_reports:
  assumes "ct_eTxState s \<noteq> CTXS_TERMINATED"
  shows "reports s (handleTimerATimeout b (s\<lparr>ct_timerA := None\<rparr>))"
    and "reports s (handleTimerBTimeout (s\<lparr>ct_timerB := None\<rparr>))"
    and "reports s (handleTimerDTimeout (s\<lparr>ct_timerD := None\<rparr>))"
    and "reports s (handleTimerETimeout b (s\<lparr>ct_timerE := None\<rparr>))"
    and "reports s (handleTimerFTimeout (s\<lparr>ct_timerF := None\<rparr>))"
    and "reports s (handleTimerKTimeout (s\<lparr>ct_timerK := None\<rparr>))"
  using assms by (cases "ct_eTxType s"; cases "ct_eTxState s"; simp add: report_defs ct_handler_defs)+

lemma sendAck_reports:
  "\<lbrakk>sendAck convert b r s = Inr (out, s'); ct_eTxState s = CTXS_COMPLETED\<rbrakk> \<Longrightarrow>
   outcomes_in out = 0 \<and> \<not> undecided s' \<and> terminations_in out = (if ct_eTxState s' = CTXS_TERMINATED then 1 else 0)"
  by (cases "ct_eTxType s")
    (auto simp: sendAck_def report_defs updateState_def Let_def split: sum.splits if_splits)

lemma inviteProceeding_reports:
  assumes "undecided s" and "ct_eTxType s = CT_INVITE"
  shows "reports s (inviteProceeding convert b r s)"
proof -
  let ?s = "s\<lparr>ct_eTxState := CTXS_COMPLETED, ct_timerD := Some (ct_timerDIntervalS s * 1000),
    ct_bTuHasBeenNotififedOfFinalResponse := True\<rparr>"
  consider "isResponseProvisional (sm_eResponseCode r)" | "isFinalNonSuccessfulResponse (sm_eResponseCode r)"
    | "\<not> isResponseProvisional (sm_eResponseCode r)" "\<not> isFinalNonSuccessfulResponse (sm_eResponseCode r)" by blast
  then show ?thesis
  proof cases
    case 1
    then show ?thesis using assms by (auto simp: inviteProceeding_def report_defs code_defs)
  next
    case 2
    then have "\<not> isResponseProvisional (sm_eResponseCode r)" by (simp add: code_defs)
    then have eq: "inviteProceeding convert b r s = prepend [Notify_response r] (sendAck convert b r ?s)"
      using 2 assms(2) by (simp add: inviteProceeding_def updateState_def Let_def)
    show ?thesis
    proof (cases "sendAck convert b r ?s")
      case (Inr x)
      then obtain out s' where x: "sendAck convert b r ?s = Inr (out, s')" by (cases x) auto
      from sendAck_reports [OF x] assms(1) 2 show ?thesis
        by (auto simp: eq x prepend_def reports_def outcomes_in_def terminations_in_def final_outcome_def code_defs)
    qed (simp add: eq prepend_def reports_def)
  next
    case 3
    then show ?thesis
      using assms by (auto simp: inviteProceeding_def updateState_def Let_def report_defs code_defs)
  qed
qed

lemma reports_prepend_provisional:
  assumes "isResponseProvisional (sm_eResponseCode r)" and "reports s' res" and "undecided s" and "undecided s'"
  shows "reports s (prepend [Notify_response r] res)"
  using assms by (auto simp: reports_def prepend_def outcomes_in_def terminations_in_def final_outcome_def code_defs split: sum.splits)

lemma reports_same_state: "ct_eTxState s' = ct_eTxState s \<Longrightarrow> reports s' res = reports s res"
proof -
  assume "ct_eTxState s' = ct_eTxState s"
  then have same: "undecided s' = undecided s" by (simp add: undecided_def)
  show ?thesis unfolding reports_def same by (rule refl)
qed

lemma nonInviteProceeding_reports:
  "\<lbrakk>undecided s; ct_eTxType s = CT_NON_INVITE\<rbrakk> \<Longrightarrow> reports s (nonInviteProceeding r s)"
  by (auto simp: nonInviteProceeding_def updateState_def Let_def report_defs)

lemma response_reports:
  assumes "ct_eTxState s \<noteq> CTXS_TERMINATED" and "isResponse r"
  shows "reports s (onResponseReceived convert b r s)"
proof (cases "ct_eTxType s")
  case CT_INVITE
  let ?s = "if isTransportUnreliable (ct_eProtocol s) then s\<lparr>ct_timerA := None\<rparr> else s"
  have st: "ct_eTxState ?s = ct_eTxState s" "ct_eTxType ?s = CT_INVITE" using CT_INVITE by simp_all
  have handler: "onResponseReceived convert b r s = onInviteResponseReceived convert b r s"
    using CT_INVITE by (simp add: onResponseReceived_def)
  show ?thesis
  proof (cases "ct_eTxState s")
    case CTXS_CALLING_OR_TRYING
    let ?p = "?s\<lparr>ct_eTxState := CTXS_PROCEEDING, ct_timerA := None\<rparr>"
    have u: "undecided s" "undecided ?s" "undecided ?p" using CTXS_CALLING_OR_TRYING by (simp_all add: undecided_def)
    have "reports ?p (inviteProceeding convert b r ?p)" "reports ?s (inviteProceeding convert b r ?s)"
      using inviteProceeding_reports u st by simp_all
    then show ?thesis
      using CTXS_CALLING_OR_TRYING assms(2) st reports_prepend_provisional [OF _ _ u(1) u(3), of r] reports_same_state [OF st(1)]
      by (auto simp: handler onInviteResponseReceived_def updateState_def Let_def)
  next
    case CTXS_PROCEEDING
    then have "reports ?s (inviteProceeding convert b r ?s)"
      using inviteProceeding_reports [of ?s] st by (simp add: undecided_def)
    then show ?thesis
      using CTXS_PROCEEDING assms(2) st reports_same_state [OF st(1)] by (simp add: handler onInviteResponseReceived_def Let_def)
  next
    case CTXS_COMPLETED
    show ?thesis
    proof (cases "sendAck convert b r ?s")
      case (Inl f)
      then show ?thesis using CTXS_COMPLETED assms(2) st by (auto simp: handler onInviteResponseReceived_def Let_def report_defs)
    next
      case (Inr x)
      then obtain out s' where x: "sendAck convert b r ?s = Inr (out, s')" by (cases x) auto
      from sendAck_reports [OF x] CTXS_COMPLETED assms(2) st x show ?thesis
        by (auto simp: handler onInviteResponseReceived_def Let_def reports_def undecided_def outcomes_in_def terminations_in_def)
    qed
  qed (use assms in simp)
next
  case CT_NON_INVITE
  have "undecided (s\<lparr>ct_eTxState := CTXS_PROCEEDING\<rparr>)" by (simp add: undecided_def)
  then show ?thesis
    using assms CT_NON_INVITE nonInviteProceeding_reports [of s r] nonInviteProceeding_reports [of "s\<lparr>ct_eTxState := CTXS_PROCEEDING\<rparr>" r]
      reports_prepend_provisional [of r "s\<lparr>ct_eTxState := CTXS_PROCEEDING\<rparr>" _ s]
    by (cases "ct_eTxState s")
      (auto simp: onResponseReceived_def onNonInviteResponseReceived_def updateState_def Let_def undecided_def
        reports_def outcomes_in_def terminations_in_def)
qed

lemma ct_handle_reports:
  assumes inv: "ct_inv request eProtocol s" and e: "ct_enabled e s"
  shows "reports s (ct_handle convert e s)"
proof -
  have "ct_eTxState s \<noteq> CTXS_TERMINATED"
    using inv e by (cases "ct_eTxType s"; cases e) (auto simp: ct_enabled_def ct_inv_def)
  then show ?thesis
    using e timer_reports [of s] response_reports [of s] by (cases e) (auto simp: ct_handle_def ct_enabled_def)
qed

section \<open>Properties of client transactions\<close>

definition udp_invite :: SipMessage where
  "udp_invite = sample_request"

definition parse_seven :: "string \<Rightarrow> u32 option" where
  "parse_seven str = (if str = ''7'' then Some 7 else None)"

lemma udp_invite_cseq: "getRequestSequenceNumber parse_seven udp_invite = Inr 7"
  by (simp add: getRequestSequenceNumber_def getHeaderField_first udp_invite_def sample_request_fields parse_seven_def)

lemma udp_invite_start:
  "ct_reachable parse_seven udp_invite TP_UDP (fst (ClientTransaction_create True udp_invite TP_UDP)) (snd (ClientTransaction_create True udp_invite TP_UDP))"
  by (rule ct_reachable.start) simp

lemma udp_invite_method: "sm_eMethod udp_invite = INVITE"
  by (simp add: udp_invite_def sample_request_def addHeaderField_def SipMessage_request_def)

lemma udp_invite_state:
  "ClientTransaction_create True udp_invite TP_UDP = ([Send udp_invite],
     \<lparr>ct_timerA = Some 500, ct_timerB = Some 32000, ct_timerD = None, ct_timerE = None, ct_timerF = None, ct_timerK = None,
      ct_originalRequest = udp_invite, ct_eProtocol = TP_UDP, ct_eTxState = CTXS_CALLING_OR_TRYING, ct_eTxType = CT_INVITE,
      ct_timerAIntervalMs = 500, ct_timerDIntervalS = 32, ct_timerEIntervalMs = 500, ct_bTuHasBeenNotififedOfFinalResponse = False\<rparr>)"
  by (simp add: ClientTransaction_create_def udp_invite_method beginInviteTransaction_def isTransportUnreliable_def interval_defs)

text \<open>
  C30: No handler of a client transaction fails an assertion: in every state a transaction can reach,
  whichever pending timer fires and whatever response arrives before it is destroyed, and
  whether or not the transport accepts what is sent, the handler completes, provided the CSeq
  field of its request can be parsed.
\<close>

theorem client_handlers_never_assert:
  assumes "ct_reachable convert request eProtocol out s" and "getRequestSequenceNumber convert request = Inr n"
    and "ct_enabled e s"
  shows "\<exists>out' s'. ct_handle convert e s = Inr (out', s')"
  using ct_handle_ok [OF ct_reachable_inv [OF assms(1,2)] assms(3,2)]
  by (cases "ct_handle convert e s") (auto simp: ct_ok_def)

theorem client_handlers_never_assert_witness:
  "\<exists>out' s'. ct_handle parse_seven Timer_B (snd (ClientTransaction_create True udp_invite TP_UDP)) = Inr (out', s')"
  by (rule client_handlers_never_assert [OF udp_invite_start udp_invite_cseq])
    (simp add: ct_enabled_def udp_invite_state)

text \<open>
  C26: The outcome is reported once. In every run, the transaction user is told of at most one final
  response or timeout, and of none while the transaction is calling, trying or proceeding; its
  termination is reported exactly once, when it enters the terminated state.
\<close>

theorem client_outcome_reported_once:
  assumes "ct_reachable convert request eProtocol out s" and "getRequestSequenceNumber convert request = Inr n"
  shows "outcomes_in out \<le> 1 \<and> (undecided s \<longrightarrow> outcomes_in out = 0)
    \<and> terminations_in out = (if ct_eTxState s = CTXS_TERMINATED then 1 else 0)"
  using assms(1)
proof induction
  case (start out s)
  then show ?case
    by (cases "sm_eMethod request = INVITE"; cases "isTransportUnreliable eProtocol")
      (auto simp: ClientTransaction_create_def beginInviteTransaction_def beginNonInviteTransaction_def Let_def report_defs)
next
  case (step out s e out' s')
  have inv: "ct_inv request eProtocol s" by (rule ct_reachable_inv [OF step.hyps(1) assms(2)])
  have "ct_eTxState s \<noteq> CTXS_TERMINATED"
    using inv step.hyps(2) by (cases "ct_eTxType s"; cases e) (auto simp: ct_enabled_def ct_inv_def)
  moreover have "reports s (Inr (out', s'))" using ct_handle_reports [OF inv step.hyps(2), of convert] step.hyps(3) by simp
  ultimately show ?case
    using step.IH by (auto simp: reports_def outcomes_in_def terminations_in_def split: if_splits)
qed

lemma udp_invite_rejected:
  "\<exists>ack s. ct_reachable parse_seven udp_invite TP_UDP [Send udp_invite, Notify_response (SipMessage_response 486), Send ack] s
     \<and> ct_eTxState s = CTXS_COMPLETED"
proof -
  let ?s0 = "snd (ClientTransaction_create True udp_invite TP_UDP)" and ?r = "SipMessage_response 486"
  obtain ack where ack: "make_ack parse_seven udp_invite ?r = Inr ack" by (rule make_ack_ok [OF udp_invite_cseq])
  have r: "isResponse ?r" "sm_eResponseCode ?r = 486" by (simp_all add: SipMessage_response_def isResponse_def)
  have "\<exists>s. ct_handle parse_seven (Response ?r True) ?s0 = Inr ([Notify_response ?r, Send ack], s) \<and> ct_eTxState s = CTXS_COMPLETED"
    by (simp add: ct_handle_def onResponseReceived_def onInviteResponseReceived_def udp_invite_state inviteProceeding_def
        updateState_def sendAck_def ack prepend_def Let_def isTransportUnreliable_def code_defs r)
  then obtain s where h: "ct_handle parse_seven (Response ?r True) ?s0 = Inr ([Notify_response ?r, Send ack], s)"
    and st: "ct_eTxState s = CTXS_COMPLETED" by blast
  have "ct_enabled (Response ?r True) ?s0" by (simp add: ct_enabled_def udp_invite_state r)
  from ct_reachable.step [OF udp_invite_start this h]
  have "ct_reachable parse_seven udp_invite TP_UDP [Send udp_invite, Notify_response ?r, Send ack] s" by (simp add: udp_invite_state)
  then show ?thesis using st by blast
qed

theorem client_outcome_reported_once_witness:
  "\<exists>ack s. ct_reachable parse_seven udp_invite TP_UDP [Send udp_invite, Notify_response (SipMessage_response 486), Send ack] s
     \<and> outcomes_in [Send udp_invite, Notify_response (SipMessage_response 486), Send ack] \<le> 1
     \<and> terminations_in [Send udp_invite, Notify_response (SipMessage_response 486), Send ack] = 0"
proof -
  obtain ack s where run: "ct_reachable parse_seven udp_invite TP_UDP [Send udp_invite, Notify_response (SipMessage_response 486), Send ack] s"
    and st: "ct_eTxState s = CTXS_COMPLETED" using udp_invite_rejected by blast
  from client_outcome_reported_once [OF run udp_invite_cseq] st have
    "outcomes_in [Send udp_invite, Notify_response (SipMessage_response 486), Send ack] \<le> 1"
    "terminations_in [Send udp_invite, Notify_response (SipMessage_response 486), Send ack] = 0" by auto
  then show ?thesis using run by blast
qed

text \<open>
  C32: Progress. A transaction that has not terminated has a pending timer that terminates it, with two
  exceptions: an INVITE that has been answered provisionally waits for a final response however
  long that takes, and a completed non-INVITE transaction over a reliable transport waits for ever:
  no timer is pending and no response has any effect.
\<close>

theorem client_transaction_progress:
  assumes "ct_reachable convert request eProtocol out s" and "getRequestSequenceNumber convert request = Inr n"
    and "ct_eTxState s \<noteq> CTXS_TERMINATED"
  shows "(\<exists>e\<in>{Timer_B, Timer_D, Timer_F, Timer_K}. ct_enabled e s
       \<and> (\<exists>out' s'. ct_handle convert e s = Inr (out', s') \<and> ct_eTxState s' = CTXS_TERMINATED))
    \<or> (ct_eTxType s = CT_INVITE \<and> ct_eTxState s = CTXS_PROCEEDING)
    \<or> (ct_eTxType s = CT_NON_INVITE \<and> ct_eTxState s = CTXS_COMPLETED \<and> \<not> isTransportUnreliable eProtocol
       \<and> (\<forall>e. ct_enabled e s \<longrightarrow> ct_handle convert e s = Inr ([], s)))"
proof -
  note inv = ct_reachable_inv [OF assms(1,2)]
  show ?thesis
  proof (cases "ct_eTxType s")
    case CT_INVITE
    then show ?thesis
      using inv assms(3)
      by (cases "ct_eTxState s") (auto simp: ct_inv_def ct_enabled_def ct_handle_def ct_handler_defs)
  next
    case CT_NON_INVITE
    show ?thesis
    proof (cases "ct_eTxState s = CTXS_COMPLETED \<and> \<not> isTransportUnreliable eProtocol")
      case True
      have "ct_handle convert e s = Inr ([], s)" if "ct_enabled e s" for e
        using inv True CT_NON_INVITE that
        by (cases e) (auto simp: ct_inv_def ct_enabled_def ct_handle_def onResponseReceived_def onNonInviteResponseReceived_def)
      then show ?thesis using True CT_NON_INVITE by blast
    next
      case False
      then show ?thesis
        using inv assms(3) CT_NON_INVITE
        by (cases "ct_eTxState s") (auto simp: ct_inv_def ct_enabled_def ct_handle_def ct_handler_defs)
    qed
  qed
qed

theorem client_transaction_progress_witness:
  "\<exists>e\<in>{Timer_B, Timer_D, Timer_F, Timer_K}. ct_enabled e (snd (ClientTransaction_create True udp_invite TP_UDP))
     \<and> (\<exists>out' s'. ct_handle parse_seven e (snd (ClientTransaction_create True udp_invite TP_UDP)) = Inr (out', s')
          \<and> ct_eTxState s' = CTXS_TERMINATED)"
  using client_transaction_progress [OF udp_invite_start udp_invite_cseq] unfolding udp_invite_state by simp

text \<open>A provisional response in the Calling state is passed to the transaction user twice.\<close>

lemma provisional_response_notified_twice:
  assumes "ct_eTxType s = CT_INVITE" and "ct_eTxState s = CTXS_CALLING_OR_TRYING" and "isResponse r"
    and "isResponseProvisional (sm_eResponseCode r)"
  shows "\<exists>s'. onResponseReceived convert b r s = Inr ([Notify_response r, Notify_response r], s') \<and> ct_eTxState s' = CTXS_PROCEEDING"
  using assms
  by (simp add: onResponseReceived_def onInviteResponseReceived_def inviteProceeding_def prepend_def updateState_def Let_def)

text \<open>
  The ACK for a failed INVITE (RFC 3261, 17.1.1.3). It goes to the request URI of the original request, has its
  Call-ID, From, Max-Forwards and topmost Via, each as the only field of that name, the To field of
  the response, and a CSeq with the number of the request and the method ACK.
\<close>

theorem ack_matches_request:
  assumes "getRequestSequenceNumber convert request = Inr n"
  shows "\<exists>ack. make_ack convert request response = Inr ack
    \<and> sm_eMethod ack = ACK \<and> sm_sRequestUriString ack = sm_sRequestUriString request
    \<and> (\<forall>k\<in>{''Call-ID'', ''From'', ''Max-Forwards'', ''Via''}. getHeaderFields k ack = take 1 (getHeaderFields k request))
    \<and> getHeaderFields ''To'' ack = take 1 (getHeaderFields ''To'' response)
    \<and> getHeaderFields ''CSeq'' ack = [decimal (unat n) @ '' ACK'']"
proof -
  have copy: "getHeaderFields k' (copyHeaderField k other m) =
      (if k' = k then getHeaderFields k m @ take 1 (getHeaderFields k other) else getHeaderFields k' m)
      \<and> header_sorted (sm_mHeaderMap (copyHeaderField k other m))"
    if "header_sorted (sm_mHeaderMap m)" for k k' other m
    using that getHeaderFields_add [OF that] header_sorted_add [OF that]
    by (cases "getHeaderFields k other") (simp_all add: copyHeaderField_def getHeaderField_first)
  have cseq: "getHeaderFields k (setCSeq n m) = (if k = ''CSeq'' then [decimal (unat n) @ '' '' @ sm_sMethod m] else getHeaderFields k m)"
    if "header_sorted (sm_mHeaderMap m)" for k m
  proof -
    let ?m = "m\<lparr>sm_mHeaderMap := filter (\<lambda>kv. fst kv \<noteq> ''CSeq'') (sm_mHeaderMap m)\<rparr>"
    have "header_sorted (sm_mHeaderMap ?m)" using that by (simp add: header_sorted_def sorted_filter)
    moreover have "getHeaderFields k ?m = (if k = ''CSeq'' then [] else getHeaderFields k m)" for k
      by (auto simp: getHeaderFields_def intro!: arg_cong [where f = "map snd"] filter_cong)
    ultimately show ?thesis unfolding setCSeq_def by (simp add: getHeaderFields_add)
  qed
  show ?thesis
    using assms
    by (simp add: make_ack_def Let_def cseq copy)
      (simp add: setCSeq_def addHeaderField_def SipMessage_request_def methodToString_def)
qed

theorem ack_matches_request_witness:
  "\<exists>ack. make_ack parse_seven udp_invite (SipMessage_response 486) = Inr ack
     \<and> getHeaderFields ''Via'' ack = [''SIP/2.0/UDP a''] \<and> getHeaderFields ''CSeq'' ack = [''7 ACK'']"
proof -
  have seven: "decimal 7 = ''7''" by code_simp
  obtain ack where "make_ack parse_seven udp_invite (SipMessage_response 486) = Inr ack"
    "getHeaderFields ''Via'' ack = take 1 (getHeaderFields ''Via'' udp_invite)" "getHeaderFields ''CSeq'' ack = [decimal (unat (7 :: u32)) @ '' ACK'']"
    using ack_matches_request [OF udp_invite_cseq, of "SipMessage_response 486"] by auto
  then show ?thesis by (simp add: udp_invite_def sample_request_fields seven)
qed

end
