(* ===== verification/Sip_Parser.thy ===== *)
theory Sip_Parser
  imports Sip_Message
begin

text \<open>
  Printing and parsing of SIP messages (\<open>SipMessage::toString\<close> and \<open>SipMessage::create\<close>). The
  replacement of folded header lines by a regular expression (boost), the tokeniser of the first line
  and the number conversion (cpputil) are parameters. \<open>create\<close> also writes its input to log files,
  which is left out.
\<close>

section \<open>Strings\<close>

abbreviation CR :: char where "CR \<equiv> CHR 0x0D"
abbreviation LF :: char where "LF \<equiv> CHR 0x0A"
abbreviation CRLF :: string where "CRLF \<equiv> [CR, LF]"

fun find_sub :: "string \<Rightarrow> string \<Rightarrow> nat option" where
  "find_sub p [] = (if p = [] then Some 0 else None)"
| "find_sub p (c # s) = (if starts_with (c # s) p then Some 0 else map_option Suc (find_sub p s))"

definition contains :: "string \<Rightarrow> string \<Rightarrow> bool" where
  "contains s p \<longleftrightarrow> find_sub p s \<noteq> None"

definition ends_with :: "string \<Rightarrow> string \<Rightarrow> bool" where
  "ends_with s p \<longleftrightarrow> starts_with (rev s) (rev p)"

text \<open>The lines that repeated calls of \<open>getline\<close> read, without their ends.\<close>

function getlines :: "string \<Rightarrow> string list" where
  "getlines [] = []"
| "getlines (c # s) = takeWhile (\<lambda>x. x \<noteq> LF) (c # s) # getlines (drop 1 (dropWhile (\<lambda>x. x \<noteq> LF) (c # s)))"
  by pat_completeness auto
termination
proof (relation "measure length")
  fix c and s :: string
  have "length (dropWhile (\<lambda>x. x \<noteq> LF) (c # s)) \<le> length (c # s)" by (rule length_dropWhile_le)
  then show "(drop 1 (dropWhile (\<lambda>x. x \<noteq> LF) (c # s)), c # s) \<in> measure length" by simp
qed simp

definition to_lower :: "string \<Rightarrow> string" where
  "to_lower = map (\<lambda>c. if 65 \<le> (of_char c :: nat) \<and> (of_char c :: nat) \<le> 90 then char_of ((of_char c :: nat) + 32) else c)"

section \<open>Printing\<close>

definition reason_phrases :: "(ResponseCode \<times> string) list" where
  "reason_phrases =
     [(100, ''Trying''), (180, ''Ringing''), (181, ''Call is being forwarded''), (182, ''Queued''),
      (183, ''Session Progress''), (200, ''OK''), (300, ''Multiple Choices''),
      (301, ''Moved Permanently''), (302, ''Moved Temporarily''), (305, ''Use Proxy''),
      (380, ''Alternative Service''), (400, ''Bad Request''), (401, ''Unauthorized''),
      (402, ''Payment Required''), (403, ''Forbidden''), (404, ''Not Found''),
      (405, ''Method Not Allowed''), (406, ''Not Acceptable''), (407, ''Proxy Authentication Required''),
      (408, ''Request Timeout''), (410, ''Gone''), (413, ''Request Entity Too Large''),
      (414, ''Request Uri Too Long''), (415, ''Unsupported Media Type''),
      (416, ''Unsupported Uri Scheme''), (420, ''Bad Extension''), (421, ''Extension Required''),
      (423, ''Interval Too Brief''), (480, ''Temporarily Unavailable''),
      (481, ''Call Transaction Does Not Exist''), (482, ''Loop Detected''), (483, ''Too May Hops''),
      (484, ''Address Incomplete''), (485, ''Ambiguous''), (486, ''Busy Here''),
      (487, ''Request Terminated''), (488, ''Not Acceptable Here''), (491, ''Request Pending''),
      (493, ''Undecipherable''), (500, ''Internal Server Error''), (501, ''Not Implemented''),
      (502, ''Bad Gateway''), (503, ''Service Unavailable''), (504, ''Server Timeout''),
      (505, ''Version Not Supported''), (513, ''Message Too Large''), (600, ''Busy Everywhere''),
      (603, ''Decline''), (604, ''Does Not Exist Anwhere''), (606, ''Not Acceptable'')]"

definition responseCodeString :: "ResponseCode \<Rightarrow> string" where
  "responseCodeString eCode = (case map_of reason_phrases eCode of Some s \<Rightarrow> s | None \<Rightarrow> ''Unknown response code'')"

definition responseCodeToErrorCode :: "ResponseCode \<Rightarrow> nat" where
  "responseCodeToErrorCode eCode = (if eCode \<in> {100, 180, 181, 182, 183, 200} then 0 else eCode)"

definition SipMessage_toString :: "SipMessage \<Rightarrow> string" where
  "SipMessage_toString m =
     (let body = mb_sMessageBody (sm_messageBody m) in
      (if isRequest m then sm_sMethod m @ '' '' @ sm_sRequestUriString m @ '' SIP/2.0'' @ CRLF
       else ''SIP/2.0 '' @ decimal (sm_eResponseCode m) @ '' '' @ responseCodeString (sm_eResponseCode m) @ CRLF)
      @ concat (map (\<lambda>kv. fst kv @ '': '' @ snd kv @ CRLF) (sm_mHeaderMap m))
      @ (if length body > 0
         then ''Content-Length: '' @ decimal (length body) @ CRLF @ ''Content-Type: '' @ mb_sContentType (sm_messageBody m) @ CRLF
         else [])
      @ CRLF @ (if length body > 0 then body else []))"

section \<open>Parsing\<close>

text \<open>The loop over the header lines; it carries the message, the content type and the content length.\<close>

fun read_headers :: "(string \<Rightarrow> u32) \<Rightarrow> string list \<Rightarrow> SipMessage \<times> string \<times> u32 \<Rightarrow> fault + SipMessage \<times> string \<times> u32" where
  "read_headers convert [] st = Inr st"
| "read_headers convert (sLine # ls) (m, sContentType, uiContentLength) =
     (if CHR '':'' \<notin> set sLine then Inr (m, sContentType, uiContentLength)
      else let sHeader = takeWhile (\<lambda>c. c \<noteq> CHR '':'') sLine;
               sHeaderLower = to_lower sHeader;
               sValue = trim (drop (length sHeader + 1) sLine);
               m1 = addHeaderField sHeader sValue m
           in if sHeaderLower = ''cseq''
              then if CHR '' '' \<notin> set sValue then Inl Assertion_failed
                   else read_headers convert ls
                          (setMethod (drop (length (takeWhile (\<lambda>c. c \<noteq> CHR '' '') sValue) + 1) sValue) m1, sContentType, uiContentLength)
              else if sHeaderLower = ''content-type'' then read_headers convert ls (m1, sValue, uiContentLength)
              else if sHeaderLower = ''content-length'' then read_headers convert ls (m1, sContentType, convert sValue)
              else read_headers convert ls (m1, sContentType, uiContentLength))"

text \<open>What follows the second blank of a status line; a search that fails wraps around to the start.\<close>

definition reason_of :: "string \<Rightarrow> string" where
  "reason_of sLine =
     (let pos1 = (case find_sub '' '' sLine of None \<Rightarrow> 0 | Some p \<Rightarrow> p + 1)
      in case find_sub '' '' (drop pos1 sLine) of None \<Rightarrow> sLine | Some p \<Rightarrow> drop (pos1 + p + 1) sLine)"

definition first_line :: "(string \<Rightarrow> string list) \<Rightarrow> (string \<Rightarrow> u32 option) \<Rightarrow> string \<Rightarrow> SipMessage option" where
  "first_line tokenize convert sLine =
     (if \<not> contains sLine ''SIP/2.0'' then None
      else let tokens = tokenize sLine in
           if length tokens < 3 then None
           else if starts_with sLine ''SIP/2.0'' then Some (setResponse convert (tokens ! 1) (reason_of sLine) SipMessage_new)
           else if ends_with sLine ''SIP/2.0'' then Some (setRequest (tokens ! 0) (tokens ! 1) SipMessage_new)
           else None)"

definition SipMessage_create ::
  "(string \<Rightarrow> string) \<Rightarrow> (string \<Rightarrow> string list) \<Rightarrow> (string \<Rightarrow> u32 option) \<Rightarrow> (string \<Rightarrow> u32) \<Rightarrow> string \<Rightarrow> fault + SipMessage option" where
  "SipMessage_create unfold_lines tokenize convert convert_value sSipMessage =
     (let s = unfold_lines sSipMessage in
      case find_sub (CRLF @ CRLF) s of
        None \<Rightarrow> Inr None
      | Some pos \<Rightarrow>
          let sMessageBody = drop (pos + 4) s in
          (case getlines (take (pos + 2) s) of
             [] \<Rightarrow> Inr None
           | l # ls \<Rightarrow>
               (case first_line tokenize convert (trim l) of
                  None \<Rightarrow> Inr None
                | Some m0 \<Rightarrow>
                    (case read_headers convert_value ls (m0, [], 0) of
                       Inl f \<Rightarrow> Inl f
                     | Inr (m, sContentType, uiContentLength) \<Rightarrow>
                         Inr (Some (if uiContentLength > 0 \<and> sContentType \<noteq> [] \<and> length sMessageBody = unat uiContentLength
                                    then m\<lparr>sm_messageBody := MessageBody_new sMessageBody sContentType\<rparr> else m))))))"

section \<open>Lines\<close>

definition text_lines :: "string list \<Rightarrow> string" where
  "text_lines ls = concat (map (\<lambda>l. l @ CRLF) ls)"

lemma text_lines_simps [simp]: "text_lines [] = []" "text_lines (l # ls) = l @ CRLF @ text_lines ls"
  "text_lines (ls @ ls') = text_lines ls @ text_lines ls'"
  by (simp_all add: text_lines_def)

definition plain_line :: "string \<Rightarrow> bool" where
  "plain_line l \<longleftrightarrow> l \<noteq> [] \<and> CR \<notin> set l \<and> LF \<notin> set l"

lemma find_sub_skip: "c \<notin> set l \<Longrightarrow> find_sub (c # p) (l @ s) = map_option ((+) (length l)) (find_sub (c # p) s)"
  by (induction l) (auto simp: starts_with_def option.map_comp comp_def option.map_ident cong: map_option_cong)

lemma find_blank_line:
  assumes "\<forall>l\<in>set ls. plain_line l" and "ls \<noteq> []"
  shows "find_sub (CRLF @ CRLF) (text_lines ls @ CRLF @ b) = Some (length (text_lines ls) - 2)"
  using assms
proof (induction ls)
  case (Cons l ls)
  have l: "CR \<notin> set l" using Cons.prems by (simp add: plain_line_def)
  show ?case
  proof (cases ls)
    case Nil
    then show ?thesis using find_sub_skip [OF l, of "[LF, CR, LF]" "CRLF @ CRLF @ b"] by (simp add: starts_with_def)
  next
    case (Cons l' ls')
    then have ne: "ls \<noteq> []" and p: "plain_line l'" using Cons.prems by auto
    then obtain c l'' where l': "l' = c # l''" "c \<noteq> CR" by (cases l') (auto simp: plain_line_def)
    have "length (text_lines ls) \<ge> 2" using ne by (cases ls) auto
    moreover have "find_sub (CRLF @ CRLF) (CRLF @ text_lines ls @ CRLF @ b) = map_option ((+) 2) (find_sub (CRLF @ CRLF) (text_lines ls @ CRLF @ b))"
      using l' Cons by (simp add: starts_with_def option.map_comp comp_def)
    ultimately show ?thesis
      using find_sub_skip [OF l, of "[LF, CR, LF]" "CRLF @ text_lines ls @ CRLF @ b"] Cons.IH ne Cons.prems by simp
  qed
qed simp

lemma getlines_text:
  assumes "\<forall>l\<in>set ls. plain_line l"
  shows "getlines (text_lines ls) = map (\<lambda>l. l @ [CR]) ls"
  using assms
proof (induction ls)
  case (Cons l ls)
  then have l: "LF \<notin> set l" "l \<noteq> []" by (auto simp: plain_line_def)
  have tw: "takeWhile (\<lambda>x. x \<noteq> LF) (l @ CRLF @ r) = l @ [CR]" "dropWhile (\<lambda>x. x \<noteq> LF) (l @ CRLF @ r) = LF # r" for r
    using l by (auto simp: takeWhile_append dropWhile_append)
  obtain c l' where cl: "l @ CRLF @ text_lines ls = c # l'" using l(2) by (cases l) auto
  have "getlines (l @ CRLF @ text_lines ls) = (l @ [CR]) # getlines (text_lines ls)"
    unfolding cl getlines.simps unfolding cl [symmetric] tw by simp
  then show ?case using Cons by simp
qed simp

definition is_blank :: "char \<Rightarrow> bool" where
  "is_blank c \<longleftrightarrow> c \<in> set [CHR '' '', CHR 0x09, CHR 0x0A, CHR 0x0B, CHR 0x0C, CHR 0x0D]"

lemma trim_blank: "trim s = rev (dropWhile is_blank (rev (dropWhile is_blank s)))"
  unfolding trim_def is_blank_def Let_def by simp

definition trimmed :: "string \<Rightarrow> bool" where
  "trimmed s \<longleftrightarrow> s = [] \<or> (\<not> is_blank (hd s) \<and> \<not> is_blank (last s))"

lemma dropWhile_hd: "s \<noteq> [] \<Longrightarrow> \<not> P (hd s) \<Longrightarrow> dropWhile P s = s"
  by (cases s) auto

lemma trim_padded:
  assumes "trimmed s" "list_all is_blank a" "list_all is_blank b"
  shows "trim (a @ s @ b) = s"
proof (cases "s = []")
  case True
  then show ?thesis using assms(2,3) by (auto simp: trim_blank list_all_iff dropWhile_append dest: set_dropWhileD)
next
  case False
  then have s: "dropWhile is_blank s = s" "dropWhile is_blank (rev s) = rev s"
    using assms(1) by (auto simp: trimmed_def hd_rev intro!: dropWhile_hd)
  have "dropWhile is_blank (a @ s @ b) = s @ b"
    using assms(2) False s(1) by (metis append_Nil2 dropWhile_append2 dropWhile_append1 dropWhile_eq_Cons_conv dropWhile_hd assms(1) hd_append2 append_is_Nil_conv list_all_iff trimmed_def)
  moreover have "dropWhile is_blank (rev b @ rev s) = rev s"
    using assms(3) s(2) by (subst dropWhile_append2) (auto simp: list_all_iff)
  ultimately show ?thesis by (simp add: trim_blank)
qed

section \<open>Reading back what was printed\<close>

text \<open>Fields that survive printing: names without a colon, trimmed values, neither with a line end.\<close>

definition plain_field :: "string \<Rightarrow> string \<times> string \<Rightarrow> bool" where
  "plain_field sMethod kv \<longleftrightarrow> fst kv \<noteq> [] \<and> \<not> is_blank (hd (fst kv)) \<and> CHR '':'' \<notin> set (fst kv) \<and> CR \<notin> set (fst kv) \<and> LF \<notin> set (fst kv)
     \<and> to_lower (fst kv) \<notin> {''content-type'', ''content-length''}
     \<and> trimmed (snd kv) \<and> CR \<notin> set (snd kv) \<and> LF \<notin> set (snd kv)
     \<and> (to_lower (fst kv) = ''cseq'' \<longrightarrow> (\<exists>n. snd kv = n @ '' '' @ sMethod \<and> CHR '' '' \<notin> set n))"

definition header_line :: "string \<times> string \<Rightarrow> string" where
  "header_line kv = fst kv @ '': '' @ snd kv"

lemma header_insert_last: "\<forall>kv\<in>set m. fst kv \<le> k \<Longrightarrow> header_insert k v m = m @ [(k, v)]"
  by (simp add: header_insert_def takeWhile_eq_all_conv [THEN iffD2] dropWhile_eq_Nil_conv [THEN iffD2])

lemma split_header_line:
  assumes "CHR '':'' \<notin> set k" "trimmed v"
  shows "takeWhile (\<lambda>c. c \<noteq> CHR '':'') (header_line (k, v) @ [CR]) = k"
    and "trim (drop (length k + 1) (header_line (k, v) @ [CR])) = v"
    and "CHR '':'' \<in> set (header_line (k, v) @ [CR])"
proof -
  show "takeWhile (\<lambda>c. c \<noteq> CHR '':'') (header_line (k, v) @ [CR]) = k"
    using assms(1) by (auto simp: header_line_def takeWhile_append)
  show "trim (drop (length k + 1) (header_line (k, v) @ [CR])) = v"
    using trim_padded [OF assms(2), of "'' ''" "[CR]"] by (simp add: header_line_def is_blank_def)
qed (simp add: header_line_def)

lemma read_header_step:
  assumes "CHR '':'' \<notin> set k" "trimmed v"
  shows "read_headers convert ((header_line (k, v) @ [CR]) # ls) (m, ct, cl) =
    (if to_lower k = ''cseq''
     then if CHR '' '' \<notin> set v then Inl Assertion_failed
          else read_headers convert ls (setMethod (drop (length (takeWhile (\<lambda>c. c \<noteq> CHR '' '') v) + 1) v) (addHeaderField k v m), ct, cl)
     else if to_lower k = ''content-type'' then read_headers convert ls (addHeaderField k v m, v, cl)
     else if to_lower k = ''content-length'' then read_headers convert ls (addHeaderField k v m, ct, convert v)
     else read_headers convert ls (addHeaderField k v m, ct, cl))"
  unfolding read_headers.simps(2) Let_def split_header_line(1) [OF assms] split_header_line(2) [OF assms]
  using split_header_line(3) [OF assms] by simp

lemma setMethod_header [simp]: "setMethod x (m\<lparr>sm_mHeaderMap := h\<rparr>) = (setMethod x m)\<lparr>sm_mHeaderMap := h\<rparr>"
  "sm_mHeaderMap (setMethod x m) = sm_mHeaderMap m" "setMethod x (setMethod y m) = setMethod x m"
  by (cases m; simp add: setMethod_def)+

lemma read_headers_plain:
  assumes "\<forall>kv\<in>set hs. plain_field sMethod kv" and "sorted (map fst (sm_mHeaderMap m @ hs))"
  shows "read_headers convert (map (\<lambda>kv. header_line kv @ [CR]) hs @ ls) (m, ct, cl) =
    read_headers convert ls
      ((if \<exists>kv\<in>set hs. to_lower (fst kv) = ''cseq'' then setMethod sMethod m else m)\<lparr>sm_mHeaderMap := sm_mHeaderMap m @ hs\<rparr>, ct, cl)"
  using assms
proof (induction hs arbitrary: m)
  case (Cons kv hs)
  obtain k v where kv: "kv = (k, v)" by fastforce
  have p: "plain_field sMethod (k, v)" using Cons.prems kv by simp
  then have kt: "CHR '':'' \<notin> set k" "trimmed v" by (simp_all add: plain_field_def)
  have "\<forall>x\<in>set (sm_mHeaderMap m). fst x \<le> k" using Cons.prems(2) kv by (auto simp: sorted_append)
  then have add: "addHeaderField k v m = m\<lparr>sm_mHeaderMap := sm_mHeaderMap m @ [(k, v)]\<rparr>"
    by (simp add: addHeaderField_def header_insert_last)
  let ?m = "(if to_lower k = ''cseq'' then setMethod sMethod m else m)\<lparr>sm_mHeaderMap := sm_mHeaderMap m @ [(k, v)]\<rparr>"
  have after: "CHR '' '' \<in> set v \<and> drop (length (takeWhile (\<lambda>c. c \<noteq> CHR '' '') v) + 1) v = sMethod" if "to_lower k = ''cseq''"
    using that p by (auto simp: plain_field_def takeWhile_append)
  have step: "read_headers convert ((header_line (k, v) @ [CR]) # rest) (m, ct, cl) = read_headers convert rest (?m, ct, cl)" for rest
    using p after unfolding read_header_step [OF kt] add by (simp add: plain_field_def)
  have "sorted (map fst (sm_mHeaderMap ?m @ hs))" using Cons.prems(2) kv by simp
  note ih = Cons.IH [OF _ this]
  show ?case using Cons.prems(1) by (simp add: kv step ih del: read_headers.simps)
qed simp

subsection \<open>Folded lines, words and numbers\<close>

text \<open>What the regular expression looks for: a line end before a blank or a tabulator.\<close>

fun has_fold :: "string \<Rightarrow> bool" where
  "has_fold (a # b # c # s) = (a = CR \<and> b = LF \<and> (c = CHR '' '' \<or> c = CHR 0x09) \<or> has_fold (b # c # s))"
| "has_fold s = False"

lemma has_fold_skip: "CR \<notin> set l \<Longrightarrow> has_fold (l @ s) = has_fold s"
proof (induction l)
  case (Cons x l)
  have "x \<noteq> CR \<Longrightarrow> has_fold (x # t) = has_fold t" for t by (cases t rule: has_fold.cases) auto
  then show ?case using Cons by auto
qed simp

lemma no_fold_text:
  assumes "\<forall>l\<in>set ls. plain_line l \<and> \<not> is_blank (hd l)" and "\<not> has_fold (CRLF @ b)"
  shows "\<not> has_fold (text_lines ls @ CRLF @ b)"
  using assms(1)
proof (induction ls)
  case (Cons l ls)
  have nb: "\<not> is_blank (hd l') \<Longrightarrow> l' \<noteq> [] \<Longrightarrow> has_fold (CRLF @ l' @ s) = has_fold (l' @ s)" for l' s
    by (cases l') (auto simp: is_blank_def has_fold_skip [of "[LF]", simplified])
  have "\<not> has_fold (CRLF @ text_lines ls @ CRLF @ b)"
  proof (cases ls)
    case Nil
    have "has_fold (CRLF @ CRLF @ b) = has_fold (CRLF @ b)" using has_fold_skip [of "[LF]" "CRLF @ b"] by simp
    then show ?thesis using Nil assms(2) by simp
  next
    case (Cons l' ls')
    then show ?thesis using Cons.IH Cons.prems nb [of l' "CRLF @ text_lines ls' @ CRLF @ b"] by (simp add: plain_line_def)
  qed
  moreover have "CR \<notin> set l" using Cons.prems by (simp add: plain_line_def)
  ultimately show ?case using has_fold_skip [of l "CRLF @ text_lines ls @ CRLF @ b"] by simp
qed (use assms(2) in simp)

fun join :: "string list \<Rightarrow> string" where
  "join [] = []"
| "join [w] = w"
| "join (w # ws) = w @ '' '' @ join ws"

definition plain_word :: "string \<Rightarrow> bool" where
  "plain_word w \<longleftrightarrow> w \<noteq> [] \<and> list_all (\<lambda>c. \<not> is_blank c) w"

fun split_words :: "string \<Rightarrow> string \<Rightarrow> string list" where
  "split_words acc [] = (if acc = [] then [] else [rev acc])"
| "split_words acc (c # s) =
     (if c = CHR '' '' then if acc = [] then split_words [] s else rev acc # split_words [] s else split_words (c # acc) s)"

lemma split_words_run: "CHR '' '' \<notin> set w \<Longrightarrow> split_words acc (w @ s) = split_words (rev w @ acc) s"
  by (induction w arbitrary: acc) auto

lemma split_words_join: "\<forall>w\<in>set ws. plain_word w \<Longrightarrow> split_words [] (join ws) = ws"
proof (induction ws rule: join.induct)
  case (2 w)
  then have "CHR '' '' \<notin> set w" "w \<noteq> []" by (auto simp: plain_word_def list_all_iff is_blank_def)
  then show ?case using split_words_run [of w "[]" "[]"] by simp
next
  case (3 w v va)
  then have "CHR '' '' \<notin> set w" "w \<noteq> []" by (auto simp: plain_word_def list_all_iff is_blank_def)
  then show ?case using split_words_run [of w "[]" "CHR '' '' # join (v # va)"] 3 by simp
qed simp

lemma reason_words:
  obtains ws where "responseCodeString eCode = join ws" "ws \<noteq> []" "\<forall>w\<in>set ws. plain_word w"
proof -
  let ?ok = "\<lambda>p. join (split_words [] p) = p \<and> split_words [] p \<noteq> [] \<and> list_all plain_word (split_words [] p)"
  have all: "list_all (\<lambda>p. ?ok (snd p)) reason_phrases" by code_simp
  have default: "?ok ''Unknown response code''" by code_simp
  have "?ok (responseCodeString eCode)"
  proof (cases "map_of reason_phrases eCode")
    case None
    then show ?thesis using default unfolding responseCodeString_def by simp
  next
    case (Some p)
    then have "(eCode, p) \<in> set reason_phrases" by (rule map_of_SomeD)
    then have "?ok (snd (eCode, p))" using all unfolding list_all_iff by blast
    then show ?thesis using Some unfolding responseCodeString_def by simp
  qed
  then show ?thesis using that [of "split_words [] (responseCodeString eCode)"] by (simp add: list_all_iff)
qed

definition undecimal :: "string \<Rightarrow> nat" where
  "undecimal s = foldl (\<lambda>n c. 10 * n + (of_char c - 48)) 0 s"

lemma decimal_chars: "\<forall>c\<in>set (decimal n). 48 \<le> (of_char c :: nat) \<and> (of_char c :: nat) \<le> 57"
proof (induction n rule: decimal.induct)
  case (1 n)
  have "(48 + n mod 10) mod 256 = 48 + n mod 10" "n mod 10 < 10" by simp_all
  then show ?case using 1 by (subst decimal.simps) auto
qed

lemma undecimal_decimal: "undecimal (decimal n) = n"
proof (induction n rule: decimal.induct)
  case (1 n)
  have "n mod 10 < 10" by simp
  then show ?case using 1 by (subst decimal.simps) (auto simp: undecimal_def)
qed

lemma decimal_not_Nil [simp]: "decimal n \<noteq> []"
  by (subst decimal.simps) simp

lemma decimal_word: "plain_word (decimal n)"
  using decimal_chars [of n] by (auto simp: plain_word_def list_all_iff is_blank_def)

lemma plain_word_facts:
  assumes "plain_word w"
  shows "trimmed w" "CR \<notin> set w" "LF \<notin> set w" "CHR '' '' \<notin> set w" "w \<noteq> []" "\<not> is_blank (hd w)"
  using assms by (auto simp: plain_word_def trimmed_def list_all_iff is_blank_def hd_in_set)

subsection \<open>The first line\<close>

lemma contains_middle: "contains (a @ p @ b) p"
proof -
  have "find_sub p (a @ p @ b) \<noteq> None"
  proof (induction a)
    case Nil
    have "starts_with (p @ b) p" by (simp add: starts_with_def)
    then show ?case by (cases "p @ b") simp_all
  qed auto
  then show ?thesis by (simp add: contains_def)
qed

lemma starts_with_word:
  assumes "starts_with (w @ c # r) p" and "c \<notin> set p"
  shows "starts_with w p"
proof (cases "length p \<le> length w")
  case True
  then show ?thesis using assms(1) by (simp add: starts_with_def)
next
  case False
  then have "(w @ c # r) ! length w \<in> set p" using assms(1) unfolding starts_with_def
    by (metis in_set_conv_nth linorder_not_le nth_take)
  then show ?thesis using assms(2) by simp
qed

lemma first_line_request:
  assumes tok: "\<And>ws. \<forall>w\<in>set ws. plain_word w \<Longrightarrow> tokenize (join ws) = ws"
    and w: "plain_word sMethod" "plain_word sUri" "\<not> starts_with sMethod ''SIP/2.0''"
  shows "first_line tokenize convert (sMethod @ '' '' @ sUri @ '' SIP/2.0'') = Some (setRequest sMethod sUri SipMessage_new)"
proof -
  let ?l = "sMethod @ '' '' @ sUri @ '' SIP/2.0''"
  have "plain_word ''SIP/2.0''" by code_simp
  then have t: "tokenize ?l = [sMethod, sUri, ''SIP/2.0'']" using tok [of "[sMethod, sUri, ''SIP/2.0'']"] w by simp
  have "contains ?l ''SIP/2.0''" using contains_middle [of "sMethod @ '' '' @ sUri @ '' ''" "''SIP/2.0''" "[]"] by simp
  moreover have "\<not> starts_with ?l ''SIP/2.0''" using starts_with_word [of sMethod "CHR '' ''" _ "''SIP/2.0''"] w(3) by auto
  moreover have "ends_with ?l ''SIP/2.0''" by (simp add: ends_with_def starts_with_def)
  ultimately show ?thesis unfolding first_line_def t Let_def by simp
qed

lemma find_space: "CHR '' '' \<notin> set w \<Longrightarrow> find_sub '' '' (w @ '' '' @ r) = Some (length w)"
  using find_sub_skip [of "CHR '' ''" w "[]" "'' '' @ r"] by (simp add: starts_with_def)

lemma first_line_response:
  assumes tok: "\<And>ws. \<forall>w\<in>set ws. plain_word w \<Longrightarrow> tokenize (join ws) = ws"
  shows "first_line tokenize convert (''SIP/2.0 '' @ decimal n @ '' '' @ responseCodeString eCode) =
    Some (setResponse convert (decimal n) (responseCodeString eCode) SipMessage_new)"
proof -
  obtain ws where ws: "responseCodeString eCode = join ws" "ws \<noteq> []" "\<forall>w\<in>set ws. plain_word w" by (rule reason_words)
  let ?l = "''SIP/2.0'' @ '' '' @ decimal n @ '' '' @ join ws"
  have p: "plain_word ''SIP/2.0''" by code_simp
  have "join (''SIP/2.0'' # decimal n # ws) = ?l" using ws(2) by (cases ws) simp_all
  then have t: "tokenize ?l = ''SIP/2.0'' # decimal n # ws" using tok [of "''SIP/2.0'' # decimal n # ws"] ws p decimal_word by simp
  have "find_sub '' '' ?l = Some 7" using find_space [of "''SIP/2.0''"] by simp
  moreover have "find_sub '' '' (decimal n @ '' '' @ join ws) = Some (length (decimal n))"
    by (rule find_space [OF plain_word_facts(4) [OF decimal_word]])
  moreover have d8: "drop 8 ?l = decimal n @ '' '' @ join ws" by simp
  moreover have "drop (8 + length (decimal n) + 1) ?l = join ws"
  proof -
    have "8 + length (decimal n) + 1 = length (decimal n) + 1 + 8" by simp
    then have "drop (8 + length (decimal n) + 1) ?l = drop (length (decimal n) + 1) (drop 8 ?l)" by (simp only: drop_drop)
    then show ?thesis unfolding d8 by simp
  qed
  ultimately have "reason_of ?l = join ws" unfolding reason_of_def Let_def by simp
  moreover have "contains ?l ''SIP/2.0''" "starts_with ?l ''SIP/2.0''"
    using contains_middle [of "[]" "''SIP/2.0''"] by (simp_all add: starts_with_def)
  moreover have "length ws > 0" using ws(2) by simp
  ultimately have "first_line tokenize convert ?l = Some (setResponse convert (decimal n) (join ws) SipMessage_new)"
    unfolding first_line_def t Let_def by simp
  then show ?thesis unfolding ws(1) by simp
qed

subsection \<open>Whole messages\<close>

abbreviation sm_body :: "SipMessage \<Rightarrow> string" where "sm_body m \<equiv> mb_sMessageBody (sm_messageBody m)"
abbreviation sm_contentType :: "SipMessage \<Rightarrow> string" where "sm_contentType m \<equiv> mb_sContentType (sm_messageBody m)"

definition start_line :: "SipMessage \<Rightarrow> string" where
  "start_line m = (if isRequest m then sm_sMethod m @ '' '' @ sm_sRequestUriString m @ '' SIP/2.0''
     else ''SIP/2.0 '' @ decimal (sm_eResponseCode m) @ '' '' @ responseCodeString (sm_eResponseCode m))"

definition content_fields :: "SipMessage \<Rightarrow> (string \<times> string) list" where
  "content_fields m = (if sm_body m = [] then [] else
     [(''Content-Length'', decimal (length (sm_body m))), (''Content-Type'', sm_contentType m)])"

lemma toString_lines:
  "SipMessage_toString m = text_lines (start_line m # map header_line (sm_mHeaderMap m @ content_fields m)) @ CRLF @ sm_body m"
proof -
  have "concat (map (\<lambda>kv. fst kv @ '': '' @ snd kv @ CRLF) hs) = text_lines (map header_line hs)" for hs
    by (induction hs) (simp_all add: header_line_def)
  then show ?thesis by (simp add: SipMessage_toString_def start_line_def content_fields_def header_line_def Let_def)
qed

text \<open>The messages that can be read back, and what is read back.\<close>

definition printable :: "SipMessage \<Rightarrow> bool" where
  "printable m \<longleftrightarrow> sm_sVersion m = ''2.0'' \<and> sm_eMethod m = stringToMethod (sm_sMethod m)
   \<and> (case sm_eType m of
        SIP_NOT_SET \<Rightarrow> False
      | SIP_REQUEST \<Rightarrow> plain_word (sm_sMethod m) \<and> \<not> starts_with (sm_sMethod m) ''SIP/2.0'' \<and> plain_word (sm_sRequestUriString m)
          \<and> sm_eResponseCode m = NOT_SET \<and> sm_sResponseCodeString m = [] \<and> sm_sResponseCodeDescriptionString m = []
      | SIP_RESPONSE \<Rightarrow> sm_eResponseCode m < 2 ^ 32 \<and> sm_sRequestUriString m = [])
   \<and> sorted (map fst (sm_mHeaderMap m)) \<and> (\<forall>kv\<in>set (sm_mHeaderMap m). plain_field (sm_sMethod m) kv)
   \<and> (\<exists>kv\<in>set (sm_mHeaderMap m). to_lower (fst kv) = ''cseq'')
   \<and> sm_messageBody m = MessageBody_new (sm_body m) (sm_contentType m)
   \<and> length (sm_body m) < 2 ^ 32 \<and> \<not> has_fold (CRLF @ sm_body m)
   \<and> (if sm_body m = [] then sm_contentType m = []
      else sm_contentType m \<noteq> [] \<and> trimmed (sm_contentType m) \<and> CR \<notin> set (sm_contentType m) \<and> LF \<notin> set (sm_contentType m))"

definition received :: "SipMessage \<Rightarrow> SipMessage" where
  "received m = fold (\<lambda>kv. addHeaderField (fst kv) (snd kv)) (content_fields m)
     (if isRequest m then m else m\<lparr>sm_sResponseCodeString := decimal (sm_eResponseCode m),
        sm_sResponseCodeDescriptionString := responseCodeString (sm_eResponseCode m)\<rparr>)"

lemma join_plain_line:
  assumes "ws \<noteq> []" "\<forall>w\<in>set ws. plain_word w"
  shows "plain_line (join ws) \<and> \<not> is_blank (hd (join ws)) \<and> trimmed (join ws)"
  using assms
proof (induction ws rule: join.induct)
  case (2 w)
  then show ?case using plain_word_facts [of w] by (simp add: plain_line_def)
next
  case (3 w v va)
  then have "plain_line (join (v # va))" "trimmed (join (v # va))" by auto
  then show ?case using 3(3) plain_word_facts [of w] by (auto simp: plain_line_def trimmed_def)
qed simp

lemma start_line_words:
  assumes "printable m"
  obtains ws where "start_line m = join ws" "ws \<noteq> []" "\<forall>w\<in>set ws. plain_word w"
proof -
  have sip: "plain_word ''SIP/2.0''" by code_simp
  show ?thesis
  proof (cases "isRequest m")
    case True
    then show ?thesis
      using that [of "[sm_sMethod m, sm_sRequestUriString m, ''SIP/2.0'']"] assms sip
      by (simp add: printable_def isRequest_def start_line_def)
  next
    case False
    obtain ws where ws: "responseCodeString (sm_eResponseCode m) = join ws" "ws \<noteq> []" "\<forall>w\<in>set ws. plain_word w"
      by (rule reason_words)
    then have "start_line m = join (''SIP/2.0'' # decimal (sm_eResponseCode m) # ws)"
      using False by (cases ws) (simp_all add: start_line_def)
    then show ?thesis using that sip decimal_word ws by (metis list.distinct(1) set_ConsD)
  qed
qed

lemma header_line_plain:
  "plain_field sMethod kv \<Longrightarrow> plain_line (header_line kv) \<and> \<not> is_blank (hd (header_line kv))"
  by (auto simp: plain_field_def plain_line_def header_line_def)

lemma printable_lines:
  assumes p: "printable m"
  shows "\<forall>l\<in>set (start_line m # map header_line (sm_mHeaderMap m @ content_fields m)). plain_line l \<and> \<not> is_blank (hd l)"
proof -
  obtain ws where "start_line m = join ws" "ws \<noteq> []" "\<forall>w\<in>set ws. plain_word w" by (rule start_line_words [OF p])
  then have "plain_line (start_line m) \<and> \<not> is_blank (hd (start_line m))" using join_plain_line by simp
  moreover have "\<forall>kv\<in>set (sm_mHeaderMap m). plain_line (header_line kv) \<and> \<not> is_blank (hd (header_line kv))"
    using p header_line_plain unfolding printable_def by blast
  moreover have "\<forall>kv\<in>set (content_fields m). plain_line (header_line kv) \<and> \<not> is_blank (hd (header_line kv))"
    using p plain_word_facts [OF decimal_word, of "length (sm_body m)"]
    by (auto simp: printable_def content_fields_def plain_line_def header_line_def is_blank_def)
  ultimately show ?thesis by auto
qed

lemma first_line_printable:
  assumes tok: "\<And>ws. \<forall>w\<in>set ws. plain_word w \<Longrightarrow> tokenize (join ws) = ws" and p: "printable m"
    and conv: "\<And>n. n < 2 ^ 32 \<Longrightarrow> convert (decimal n) = Some (of_nat n)"
  obtains m0 where "first_line tokenize convert (start_line m) = Some m0" "sm_mHeaderMap m0 = []"
    and "(setMethod (sm_sMethod m) m0)\<lparr>sm_mHeaderMap := sm_mHeaderMap m\<rparr> =
      (if isRequest m then m else m\<lparr>sm_sResponseCodeString := decimal (sm_eResponseCode m),
        sm_sResponseCodeDescriptionString := responseCodeString (sm_eResponseCode m)\<rparr>)\<lparr>sm_messageBody := MessageBody_new [] []\<rparr>"
proof (cases "sm_eType m")
  case SIP_NOT_SET
  then show ?thesis using p by (simp add: printable_def)
next
  case SIP_REQUEST
  then have r: "isRequest m" by (simp add: isRequest_def)
  have "first_line tokenize convert (start_line m) = Some (setRequest (sm_sMethod m) (sm_sRequestUriString m) SipMessage_new)"
    using first_line_request [OF tok, of "sm_sMethod m" "sm_sRequestUriString m" convert] p SIP_REQUEST r by (simp add: printable_def start_line_def)
  moreover have "(setMethod (sm_sMethod m) (setRequest (sm_sMethod m) (sm_sRequestUriString m) SipMessage_new))\<lparr>sm_mHeaderMap := sm_mHeaderMap m\<rparr> =
      m\<lparr>sm_messageBody := MessageBody_new [] []\<rparr>"
    using p SIP_REQUEST by (cases m) (simp add: setRequest_def setMethod_def SipMessage_new_def printable_def)
  ultimately show ?thesis using that r by (simp add: setRequest_def SipMessage_new_def)
next
  case SIP_RESPONSE
  then have r: "\<not> isRequest m" by (simp add: isRequest_def)
  let ?c = "sm_eResponseCode m"
  have "convert (decimal ?c) = Some (of_nat ?c)" "unat (of_nat ?c :: u32) = ?c"
    using p conv SIP_RESPONSE by (simp_all add: printable_def unat_of_nat_u32)
  then have c: "stringToResponseCode convert (decimal ?c) = ?c" by (simp add: stringToResponseCode_def)
  have "first_line tokenize convert (start_line m) = Some (setResponse convert (decimal ?c) (responseCodeString ?c) SipMessage_new)"
    using first_line_response [OF tok, of convert ?c ?c] r by (simp add: start_line_def)
  moreover have "(setMethod (sm_sMethod m) (setResponse convert (decimal ?c) (responseCodeString ?c) SipMessage_new))\<lparr>sm_mHeaderMap := sm_mHeaderMap m\<rparr> =
      m\<lparr>sm_sResponseCodeString := decimal ?c, sm_sResponseCodeDescriptionString := responseCodeString ?c, sm_messageBody := MessageBody_new [] []\<rparr>"
    using p SIP_RESPONSE c by (cases m) (simp add: setResponse_def setMethod_def SipMessage_new_def printable_def)
  ultimately show ?thesis using that r by (simp add: setResponse_def SipMessage_new_def)
qed

lemma content_lower: "to_lower ''Content-Length'' = ''content-length''" "to_lower ''Content-Type'' = ''content-type''"
  by (code_simp, code_simp)

lemma read_content_fields:
  assumes p: "printable m" and conv: "\<And>n. n < 2 ^ 32 \<Longrightarrow> convert_value (decimal n) = of_nat n"
  shows "read_headers convert_value (map (\<lambda>kv. header_line kv @ [CR]) (content_fields m)) (m1, [], 0) =
    Inr (fold (\<lambda>kv. addHeaderField (fst kv) (snd kv)) (content_fields m) m1, sm_contentType m, of_nat (length (sm_body m)))"
proof (cases "sm_body m = []")
  case True
  then show ?thesis using p by (simp add: content_fields_def printable_def)
next
  case False
  have d: "trimmed (decimal n)" for n by (rule plain_word_facts(1) [OF decimal_word])
  have c: "trimmed (sm_contentType m)" using p False by (simp add: printable_def)
  have "convert_value (decimal (length (sm_body m))) = of_nat (length (sm_body m))" using p conv by (simp add: printable_def)
  moreover have "CHR '':'' \<notin> set ''Content-Length''" "CHR '':'' \<notin> set ''Content-Type''" by simp_all
  ultimately show ?thesis
    using False by (simp add: content_fields_def read_header_step d c content_lower del: append.simps read_headers.simps(2))
qed

lemma addHeaderField_body [simp]: "sm_messageBody (addHeaderField k v m) = sm_messageBody m"
  "(addHeaderField k v m)\<lparr>sm_messageBody := b\<rparr> = addHeaderField k v (m\<lparr>sm_messageBody := b\<rparr>)"
  by (cases m; simp add: addHeaderField_def)+

lemma fold_addHeaderField_body:
  "(fold (\<lambda>kv. addHeaderField (fst kv) (snd kv)) hs m)\<lparr>sm_messageBody := b\<rparr> =
    fold (\<lambda>kv. addHeaderField (fst kv) (snd kv)) hs (m\<lparr>sm_messageBody := b\<rparr>)"
  by (induction hs arbitrary: m) simp_all

lemma create_lines:
  assumes unf: "\<And>s. \<not> has_fold s \<Longrightarrow> unfold_lines s = s" and b: "\<not> has_fold (CRLF @ b)"
    and lines: "\<forall>l\<in>set (l # ls). plain_line l \<and> \<not> is_blank (hd l)"
    and first: "first_line tokenize convert (trim (l @ [CR])) = Some m0"
    and rest: "read_headers convert_value (map (\<lambda>l. l @ [CR]) ls) (m0, [], 0) = Inr (m, ct, n)"
  shows "SipMessage_create unfold_lines tokenize convert convert_value (text_lines (l # ls) @ CRLF @ b) =
    Inr (Some (if n > 0 \<and> ct \<noteq> [] \<and> length b = unat n then m\<lparr>sm_messageBody := MessageBody_new b ct\<rparr> else m))"
proof -
  let ?t = "text_lines (l # ls)"
  let ?s = "?t @ CRLF @ b"
  have unfolded: "unfold_lines ?s = ?s" using no_fold_text [OF lines b] by (rule unf)
  have pos: "find_sub (CRLF @ CRLF) ?s = Some (length ?t - 2)" by (rule find_blank_line) (use lines in auto)
  have "length ?t \<ge> 2" by simp
  then have cut: "length ?t - 2 + 4 = length ?t + 2" "length ?t - 2 + 2 = length ?t" by linarith+
  have body: "drop (length ?t + 2) ?s = b" by (simp del: text_lines_simps)
  have gl: "getlines (take (length ?t) ?s) = (l @ [CR]) # map (\<lambda>l. l @ [CR]) ls"
    using getlines_text [of "l # ls"] lines by (simp del: text_lines_simps)
  show ?thesis
    unfolding SipMessage_create_def unfolded pos Let_def option.case cut body gl list.case first rest sum.case prod.case by simp
qed

lemma sm_messageBody_update: "sm_messageBody m = b \<Longrightarrow> m\<lparr>sm_messageBody := b\<rparr> = m"
  by (cases m) simp

text \<open>
  C12: SIP messages survive printing and parsing. A request or response whose fields are free of line ends and
  surrounding blanks, with a CSeq field that names its method, is parsed from its printed form as it was,
  with its body; the length and type of a body appear as fields too, and a response has its code and
  reason as strings. It relies on the regular expression leaving a text without folded lines alone, on
  the tokeniser splitting words at blanks, and on the conversion of decimal numbers.
\<close>

theorem sip_message_roundtrip:
  assumes unf: "\<And>s. \<not> has_fold s \<Longrightarrow> unfold_lines s = s"
    and tok: "\<And>ws. \<forall>w\<in>set ws. plain_word w \<Longrightarrow> tokenize (join ws) = ws"
    and conv: "\<And>n. n < 2 ^ 32 \<Longrightarrow> convert (decimal n) = Some (of_nat n)"
    and conv': "\<And>n. n < 2 ^ 32 \<Longrightarrow> convert_value (decimal n) = of_nat n"
    and p: "printable m"
  shows "SipMessage_create unfold_lines tokenize convert convert_value (SipMessage_toString m) = Inr (Some (received m))"
proof -
  let ?b = "sm_body m" and ?ct = "sm_contentType m" and ?fields = "fold (\<lambda>kv. addHeaderField (fst kv) (snd kv)) (content_fields m)"
  obtain ws where "start_line m = join ws" "ws \<noteq> []" "\<forall>w\<in>set ws. plain_word w" by (rule start_line_words [OF p])
  then have trim: "trim (start_line m @ [CR]) = start_line m"
    using join_plain_line [of ws] trim_padded [of "start_line m" "[]" "[CR]"] by (simp add: is_blank_def)
  obtain m0 where m0: "first_line tokenize convert (start_line m) = Some m0" "sm_mHeaderMap m0 = []"
    and eq: "(setMethod (sm_sMethod m) m0)\<lparr>sm_mHeaderMap := sm_mHeaderMap m\<rparr> =
      (if isRequest m then m else m\<lparr>sm_sResponseCodeString := decimal (sm_eResponseCode m),
        sm_sResponseCodeDescriptionString := responseCodeString (sm_eResponseCode m)\<rparr>)\<lparr>sm_messageBody := MessageBody_new [] []\<rparr>" (is "_ = ?m\<lparr>sm_messageBody := _\<rparr>")
    by (rule first_line_printable [OF tok p conv])
  let ?m1 = "?m\<lparr>sm_messageBody := MessageBody_new [] []\<rparr>" and ?n = "of_nat (length ?b) :: u32"
  have cseq: "(\<exists>kv\<in>set (sm_mHeaderMap m). to_lower (fst kv) = ''cseq'') = True" using p by (simp add: printable_def)
  have rest: "read_headers convert_value (map (\<lambda>l. l @ [CR]) (map header_line (sm_mHeaderMap m @ content_fields m))) (m0, [], 0) =
      Inr (?fields ?m1, ?ct, ?n)"
    using read_headers_plain [of "sm_mHeaderMap m" "sm_sMethod m" m0 convert_value "map (\<lambda>kv. header_line kv @ [CR]) (content_fields m)" "[]" 0]
      read_content_fields [OF p conv'] p eq m0(2) by (simp add: cseq printable_def comp_def)
  have n: "unat ?n = length ?b" using p by (simp add: printable_def unat_of_nat_u32)
  then have pos: "?n > 0 \<longleftrightarrow> ?b \<noteq> []" by (metis length_greater_0_conv unat_gt_0 word_neq_0_conv)
  have body: "sm_messageBody m = MessageBody_new ?b ?ct" "?b = [] \<longleftrightarrow> ?ct = []" "\<not> has_fold (CRLF @ ?b)"
    using p by (auto simp: printable_def split: if_splits)
  have "(if ?n > 0 \<and> ?ct \<noteq> [] \<and> length ?b = unat ?n then (?fields ?m1)\<lparr>sm_messageBody := MessageBody_new ?b ?ct\<rparr> else ?fields ?m1) =
      ?fields (?m\<lparr>sm_messageBody := MessageBody_new ?b ?ct\<rparr>)"
    using body(2) n unfolding pos fold_addHeaderField_body by auto
  also have "\<dots> = received m" unfolding received_def by (subst sm_messageBody_update) (use body(1) in simp_all)
  finally show ?thesis
    using create_lines [OF unf body(3) printable_lines [OF p], of tokenize convert m0 convert_value, OF _ _ rest] trim m0
    unfolding toString_lines by simp
qed

definition sample_offer :: SipMessage where
  "sample_offer = sample_request\<lparr>sm_messageBody := MessageBody_new ''v=0'' ''application/sdp''\<rparr>"

lemma sample_request_map: "sm_mHeaderMap sample_request = [(''CSeq'', ''7 INVITE''), (''Call-ID'', ''c1''), (''From'', ''sip:a''),
    (''Max-Forwards'', ''70''), (''To'', ''sip:b''), (''Via'', ''SIP/2.0/UDP a''), (''Via'', ''SIP/2.0/UDP b'')]"
  by code_simp

lemma plain_field_simple:
  assumes "fst kv \<noteq> [] \<and> \<not> is_blank (hd (fst kv)) \<and> CHR '':'' \<notin> set (fst kv) \<and> CR \<notin> set (fst kv) \<and> LF \<notin> set (fst kv)
     \<and> to_lower (fst kv) \<notin> {''content-type'', ''content-length'', ''cseq''} \<and> trimmed (snd kv) \<and> CR \<notin> set (snd kv) \<and> LF \<notin> set (snd kv)"
  shows "plain_field sMethod kv"
  using assms by (simp add: plain_field_def)

lemma sample_offer_printable: "printable sample_offer"
proof -
  have hm: "sm_mHeaderMap sample_offer = sm_mHeaderMap sample_request" by (simp add: sample_offer_def)
  have meth: "sm_sMethod sample_offer = ''INVITE''" by code_simp
  have cseq: "plain_field ''INVITE'' (''CSeq'', ''7 INVITE'')"
    unfolding plain_field_def by (intro conjI impI exI [of _ "''7''"]; code_simp)
  have "\<forall>kv\<in>set (tl (sm_mHeaderMap sample_request)). plain_field ''INVITE'' kv"
    unfolding sample_request_map list.sel list.set ball_simps by (intro conjI plain_field_simple TrueI; code_simp)
  then have fields: "\<forall>kv\<in>set (sm_mHeaderMap sample_offer). plain_field (sm_sMethod sample_offer) kv"
    unfolding hm meth using cseq by (simp add: sample_request_map)
  have "\<exists>kv\<in>set (sm_mHeaderMap sample_offer). to_lower (fst kv) = ''cseq''" by code_simp
  moreover have "sorted (map fst (sm_mHeaderMap sample_offer))" by code_simp
  moreover have "sm_sVersion sample_offer = ''2.0''" "sm_eMethod sample_offer = INVITE" "stringToMethod ''INVITE'' = INVITE"
      "sm_eType sample_offer = SIP_REQUEST" "sm_sRequestUriString sample_offer = ''sip:b''" "sm_eResponseCode sample_offer = 0"
      "sm_sResponseCodeString sample_offer = []" "sm_sResponseCodeDescriptionString sample_offer = []"
    by code_simp+
  moreover have "plain_word ''INVITE''" "plain_word ''sip:b''" "\<not> starts_with ''INVITE'' ''SIP/2.0''" by code_simp+
  moreover have body: "sm_messageBody sample_offer = MessageBody_new ''v=0'' ''application/sdp''" by (simp add: sample_offer_def)
  moreover have "trimmed ''application/sdp''" "\<not> has_fold (CRLF @ ''v=0'')" by code_simp+
  ultimately show ?thesis
    using fields unfolding printable_def meth body by (simp add: MessageBody_new_def)
qed

theorem sip_message_roundtrip_witness:
  "SipMessage_create id (split_words []) (\<lambda>s. Some (of_nat (undecimal s))) (\<lambda>s. of_nat (undecimal s)) (SipMessage_toString sample_offer) =
     Inr (Some (received sample_offer)) \<and> printable sample_offer"
  using sip_message_roundtrip [of id "split_words []" "\<lambda>s. Some (of_nat (undecimal s))" "\<lambda>s. of_nat (undecimal s)" sample_offer]
    sample_offer_printable by (simp add: split_words_join undecimal_decimal)

text \<open>A message that is parsed and printed again has the fields of its body twice.\<close>

lemma forwarded_body_fields_doubled:
  "length (getHeaderFields ''Content-Length'' (received sample_offer)) = 1
   \<and> length (filter (\<lambda>l. starts_with l ''Content-Length:'') (getlines (SipMessage_toString (received sample_offer)))) = 2"
  by (intro conjI; code_simp)

end
