(* ===== verification/Sip_Uri.thy ===== *)
theory Sip_Uri
  imports Sip_Parser
begin

text \<open>
  SIP URIs (\<open>rfc3261/SipUri.cpp\<close>): parsing and printing. The tokeniser, called with a string and a
  separator, and the conversion of the port belong to the external cpputil library and are parameters.
\<close>

section \<open>URIs\<close>

datatype Scheme = S_SIP | S_SIPS

record SipUri =
  su_sRawUri :: string
  su_eScheme :: Scheme
  su_sUser :: string
  su_sPassword :: string
  su_sHost :: string
  su_uiPort :: u16
  su_mUriParameters :: "string \<rightharpoonup> string"
  su_vUriParameters :: "string list"
  su_mHeaderFields :: "string \<rightharpoonup> string"
  su_vHeaderFields :: "string list"

definition SipUri_new :: SipUri where
  "SipUri_new = \<lparr>su_sRawUri = [], su_eScheme = S_SIP, su_sUser = [], su_sPassword = [], su_sHost = [], su_uiPort = 0,
     su_mUriParameters = Map.empty, su_vUriParameters = [], su_mHeaderFields = Map.empty, su_vHeaderFields = []\<rparr>"

definition SipUri_make :: "string \<Rightarrow> u16 \<Rightarrow> string \<Rightarrow> string \<Rightarrow> Scheme \<Rightarrow> SipUri" where
  "SipUri_make sHost uiPort sUser sPassword eScheme =
     SipUri_new\<lparr>su_eScheme := eScheme, su_sUser := sUser, su_sPassword := sPassword, su_sHost := sHost, su_uiPort := uiPort\<rparr>"

definition DEFAULT_SIP_PORT :: u16 where "DEFAULT_SIP_PORT = 5060"
definition DEFAULT_SIPS_PORT :: u16 where "DEFAULT_SIPS_PORT = 5061"

definition getPort :: "SipUri \<Rightarrow> u16" where
  "getPort u = (if su_uiPort u \<noteq> 0 then su_uiPort u
     else if su_eScheme u = S_SIP then DEFAULT_SIP_PORT else DEFAULT_SIPS_PORT)"

definition addUriParameter :: "string \<Rightarrow> string \<Rightarrow> SipUri \<Rightarrow> SipUri" where
  "addUriParameter sName sValue u =
     u\<lparr>su_mUriParameters := (su_mUriParameters u)(sName \<mapsto> sValue), su_vUriParameters := su_vUriParameters u @ [sName]\<rparr>"

definition addUriHeaderField :: "string \<Rightarrow> string \<Rightarrow> SipUri \<Rightarrow> SipUri" where
  "addUriHeaderField sName sValue u =
     u\<lparr>su_mHeaderFields := (su_mHeaderFields u)(sName \<mapsto> sValue), su_vHeaderFields := su_vHeaderFields u @ [sName]\<rparr>"

section \<open>Parsing\<close>

text \<open>\<open>find\<close> of a character and the two \<open>substr\<close> around it.\<close>

definition split_at :: "char \<Rightarrow> string \<Rightarrow> (string \<times> string) option" where
  "split_at c s = (if c \<in> set s then Some (takeWhile (\<lambda>x. x \<noteq> c) s, tl (dropWhile (\<lambda>x. x \<noteq> c) s)) else None)"

definition parse_scheme :: "string \<Rightarrow> fault + (Scheme \<times> string) option" where
  "parse_scheme s =
     (if starts_with s ''sip''
      then if starts_with s ''sips'' then if length s < 5 then Inl Out_of_range else Inr (Some (S_SIPS, drop 5 s))
           else if length s < 4 then Inl Out_of_range else Inr (Some (S_SIP, drop 4 s))
      else Inr None)"

definition parse_user :: "string \<Rightarrow> string \<times> string \<times> string" where
  "parse_user s = (case split_at CHR ''@'' s of
     None \<Rightarrow> ([], [], s)
   | Some (up, rest) \<Rightarrow> (case split_at CHR '':'' up of None \<Rightarrow> (up, [], rest) | Some (user, pass) \<Rightarrow> (user, pass, rest)))"

fun add_pairs :: "(string \<Rightarrow> string list) \<Rightarrow> (string \<Rightarrow> string \<Rightarrow> SipUri \<Rightarrow> SipUri) \<Rightarrow> string list \<Rightarrow> SipUri \<Rightarrow> SipUri option" where
  "add_pairs split_pair add [] u = Some u"
| "add_pairs split_pair add (nvp # nvps) u =
     (let vNvp = split_pair nvp in
      if length vNvp \<noteq> 2 then None else add_pairs split_pair add nvps (add (vNvp ! 0) (vNvp ! 1) u))"

definition SipUri_parse ::
  "(string \<Rightarrow> char \<Rightarrow> string list) \<Rightarrow> (string \<Rightarrow> u16 option) \<Rightarrow> string \<Rightarrow> fault + SipUri option" where
  "SipUri_parse tokenize convert sUri =
     (if sUri = [] then Inr None
      else case parse_scheme sUri of
        Inl f \<Rightarrow> Inl f
      | Inr None \<Rightarrow> Inr None
      | Inr (Some (eScheme, s0)) \<Rightarrow>
          let (sUser, sPassword, s1) = parse_user s0;
              (s2, sHeaderFields) = (case split_at CHR ''?'' s1 of None \<Rightarrow> (s1, []) | Some p \<Rightarrow> p);
              (s3, sUriParameters) = (case split_at CHR '';'' s2 of None \<Rightarrow> (s2, []) | Some p \<Rightarrow> p);
              hostPort = (case split_at CHR '':'' s3 of None \<Rightarrow> Some (s3, 0)
                          | Some (sHost, sPort) \<Rightarrow> map_option (Pair sHost) (convert sPort))
          in case hostPort of
               None \<Rightarrow> Inr None
             | Some (sHost, uiPort) \<Rightarrow>
                 Inr (case add_pairs (\<lambda>s. tokenize s CHR ''='') addUriParameter (tokenize sUriParameters CHR '';'')
                             (SipUri_make sHost uiPort sUser sPassword eScheme) of
                        None \<Rightarrow> None
                      | Some u \<Rightarrow> add_pairs (\<lambda>s. tokenize s CHR ''='') addUriHeaderField (tokenize sHeaderFields CHR ''&'') u))"

section \<open>Printing\<close>

text \<open>A name without a value fails an assertion.\<close>

definition print_pair :: "(string \<rightharpoonup> string) \<Rightarrow> string \<Rightarrow> fault + string" where
  "print_pair m sName = (case m sName of None \<Rightarrow> Inl Assertion_failed | Some v \<Rightarrow> Inr (sName @ ''='' @ v))"

fun print_pairs :: "(string \<rightharpoonup> string) \<Rightarrow> string list \<Rightarrow> fault + string list" where
  "print_pairs m [] = Inr []"
| "print_pairs m (sName # names) = (case print_pair m sName of
     Inl f \<Rightarrow> Inl f
   | Inr s \<Rightarrow> (case print_pairs m names of Inl f \<Rightarrow> Inl f | Inr ss \<Rightarrow> Inr (s # ss)))"

fun join_with :: "char \<Rightarrow> string list \<Rightarrow> string" where
  "join_with c [] = []"
| "join_with c [w] = w"
| "join_with c (w # ws) = w @ [c] @ join_with c ws"

definition SipUri_toString :: "SipUri \<Rightarrow> fault + string option" where
  "SipUri_toString u =
     (let scheme = (case su_eScheme u of S_SIP \<Rightarrow> ''sip:'' | S_SIPS \<Rightarrow> ''sips:'');
          user = (if su_sUser u \<noteq> []
                  then su_sUser u @ (if su_sPassword u \<noteq> [] then '':'' @ su_sPassword u else []) @ ''@'' else []);
          port = (if su_uiPort u \<noteq> 0 then '':'' @ decimal (unat (su_uiPort u)) else [])
      in if su_sHost u = [] then Inr None
         else case print_pairs (su_mUriParameters u) (su_vUriParameters u) of
           Inl f \<Rightarrow> Inl f
         | Inr params \<Rightarrow>
             (case print_pairs (su_mHeaderFields u) (su_vHeaderFields u) of
                Inl f \<Rightarrow> Inl f
              | Inr headers \<Rightarrow>
                  Inr (Some (scheme @ user @ su_sHost u @ port @ concat (map (\<lambda>p. '';'' @ p) params)
                    @ (if headers = [] then [] else ''?'' @ join_with CHR ''&'' headers)))))"

section \<open>Reading back a printed URI\<close>

definition avoids :: "string \<Rightarrow> string \<Rightarrow> bool" where
  "avoids cs s \<longleftrightarrow> list_all (\<lambda>c. c \<notin> set s) cs"

text \<open>A name and a value that survive between separators.\<close>

definition plain_pair :: "string \<Rightarrow> (string \<rightharpoonup> string) \<Rightarrow> string \<Rightarrow> bool" where
  "plain_pair cs m sName \<longleftrightarrow> (\<exists>v. m sName = Some v \<and> v \<noteq> [] \<and> avoids cs v \<and> trimmed v) \<and> sName \<noteq> [] \<and> avoids cs sName \<and> trimmed sName"

definition pair_text :: "(string \<rightharpoonup> string) \<Rightarrow> string \<Rightarrow> string" where
  "pair_text m sName = sName @ ''='' @ the (m sName)"

definition printable_uri :: "SipUri \<Rightarrow> bool" where
  "printable_uri u \<longleftrightarrow> su_sRawUri u = [] \<and> su_sHost u \<noteq> [] \<and> avoids ''@?;:'' (su_sHost u)
   \<and> avoids ''@:'' (su_sUser u) \<and> avoids ''@'' (su_sPassword u) \<and> (su_sUser u = [] \<longrightarrow> su_sPassword u = [])
   \<and> set (su_vUriParameters u) = dom (su_mUriParameters u)
   \<and> (\<forall>n\<in>set (su_vUriParameters u). plain_pair (''=;?'' @ (if su_sUser u = [] then ''@'' else [])) (su_mUriParameters u) n)
   \<and> set (su_vHeaderFields u) = dom (su_mHeaderFields u)
   \<and> (\<forall>n\<in>set (su_vHeaderFields u). plain_pair (''=&'' @ (if su_sUser u = [] then ''@'' else [])) (su_mHeaderFields u) n)"

lemma split_at_simps:
  "c \<notin> set a \<Longrightarrow> split_at c (a @ c # b) = Some (a, b)" "c \<notin> set a \<Longrightarrow> split_at c a = None"
  by (auto simp: split_at_def takeWhile_append dropWhile_append)

lemma split_optional:
  assumes "c \<notin> set a"
  shows "(case split_at c (a @ (if e then [] else c # b)) of None \<Rightarrow> (a @ (if e then [] else c # b), []) | Some x \<Rightarrow> x) = (a, if e then [] else b)"
  using split_at_simps [OF assms] by simp

lemma print_pairs_plain:
  "\<forall>n\<in>set names. m n \<noteq> None \<Longrightarrow> print_pairs m names = Inr (map (pair_text m) names)"
  by (induction names) (auto simp: print_pair_def pair_text_def)

lemma set_join_with: "set (join_with c ws) \<subseteq> insert c (\<Union>w\<in>set ws. set w)"
  by (induction c ws rule: join_with.induct) auto

lemma semicolons: "concat (map (\<lambda>p. '';'' @ p) ps) = (if ps = [] then [] else CHR '';'' # join_with CHR '';'' ps)"
  by (induction ps rule: join_with.induct [of "\<lambda>_. _" "CHR '';''"]) auto

lemma pair_text_tokens:
  assumes tok: "\<And>c ws. \<forall>w\<in>set ws. w \<noteq> [] \<and> c \<notin> set w \<and> trimmed w \<Longrightarrow> tokenize (join_with c ws) c = ws"
    and p: "plain_pair (CHR ''='' # cs) m n"
  shows "tokenize (pair_text m n) CHR ''='' = [n, the (m n)]"
proof -
  obtain v where "m n = Some v" "v \<noteq> []" "CHR ''='' \<notin> set v" "trimmed v" "n \<noteq> []" "CHR ''='' \<notin> set n" "trimmed n"
    using p by (auto simp: plain_pair_def avoids_def)
  then show ?thesis using tok [of "[n, v]" "CHR ''=''"] by (simp add: pair_text_def)
qed

lemma pair_text_clean:
  assumes "plain_pair cs m n" "c \<in> set cs" "c \<noteq> CHR ''=''"
  shows "c \<notin> set (pair_text m n)"
  using assms by (auto simp: plain_pair_def avoids_def pair_text_def list_all_iff)

lemma pair_text_trimmed: "plain_pair cs m n \<Longrightarrow> trimmed (pair_text m n) \<and> pair_text m n \<noteq> []"
  by (auto simp: plain_pair_def pair_text_def trimmed_def)

lemma pairs_tokens:
  assumes tok: "\<And>c ws. \<forall>w\<in>set ws. w \<noteq> [] \<and> c \<notin> set w \<and> trimmed w \<Longrightarrow> tokenize (join_with c ws) c = ws"
    and p: "\<forall>n\<in>set names. plain_pair cs m n" and c: "c \<in> set cs" "c \<noteq> CHR ''=''"
  shows "tokenize (join_with c (map (pair_text m) names)) c = map (pair_text m) names"
  using p pair_text_clean [OF _ c] pair_text_trimmed by (intro tok) auto

lemma map_add_restrict_Cons:
  "m n \<noteq> None \<Longrightarrow> (f(n \<mapsto> the (m n))) ++ m |` set names = f ++ m |` insert n (set names)"
  by (auto simp: fun_eq_iff map_add_def restrict_map_def split: option.split)

lemma add_parameters:
  assumes "\<forall>n\<in>set names. m n \<noteq> None \<and> split_pair (pair_text m n) = [n, the (m n)]"
  shows "add_pairs split_pair addUriParameter (map (pair_text m) names) u =
    Some (u\<lparr>su_mUriParameters := su_mUriParameters u ++ m |` set names, su_vUriParameters := su_vUriParameters u @ names\<rparr>)"
  using assms
proof (induction names arbitrary: u)
  case (Cons n names)
  then show ?case using map_add_restrict_Cons [of m n] by (simp add: addUriParameter_def)
qed simp

lemma add_header_fields:
  assumes "\<forall>n\<in>set names. m n \<noteq> None \<and> split_pair (pair_text m n) = [n, the (m n)]"
  shows "add_pairs split_pair addUriHeaderField (map (pair_text m) names) u =
    Some (u\<lparr>su_mHeaderFields := su_mHeaderFields u ++ m |` set names, su_vHeaderFields := su_vHeaderFields u @ names\<rparr>)"
  using assms
proof (induction names arbitrary: u)
  case (Cons n names)
  then show ?case using map_add_restrict_Cons [of m n] by (simp add: addUriHeaderField_def)
qed simp

text \<open>The parts of a printed URI.\<close>

definition user_text :: "SipUri \<Rightarrow> string" where
  "user_text u = (if su_sUser u \<noteq> [] then su_sUser u @ (if su_sPassword u \<noteq> [] then '':'' @ su_sPassword u else []) @ ''@'' else [])"

definition host_text :: "SipUri \<Rightarrow> string" where
  "host_text u = su_sHost u @ (if su_uiPort u \<noteq> 0 then '':'' @ decimal (unat (su_uiPort u)) else [])"

definition parameters_text :: "SipUri \<Rightarrow> string" where
  "parameters_text u = join_with CHR '';'' (map (pair_text (su_mUriParameters u)) (su_vUriParameters u))"

definition fields_text :: "SipUri \<Rightarrow> string" where
  "fields_text u = join_with CHR ''&'' (map (pair_text (su_mHeaderFields u)) (su_vHeaderFields u))"

definition after_user :: "SipUri \<Rightarrow> string" where
  "after_user u = host_text u @ (if su_vUriParameters u = [] then [] else CHR '';'' # parameters_text u)
     @ (if su_vHeaderFields u = [] then [] else CHR ''?'' # fields_text u)"

lemma toString_printable:
  assumes "printable_uri u"
  shows "SipUri_toString u = Inr (Some ((case su_eScheme u of S_SIP \<Rightarrow> ''sip:'' | S_SIPS \<Rightarrow> ''sips:'') @ user_text u @ after_user u))"
proof -
  have "\<forall>n\<in>set (su_vUriParameters u). su_mUriParameters u n \<noteq> None" "\<forall>n\<in>set (su_vHeaderFields u). su_mHeaderFields u n \<noteq> None"
    using assms by (auto simp: printable_uri_def)
  note pairs = this [THEN print_pairs_plain]
  show ?thesis
    using assms unfolding SipUri_toString_def pairs Let_def sum.case semicolons
    by (simp add: user_text_def after_user_def host_text_def parameters_text_def fields_text_def printable_uri_def)
qed

lemma decimal_clean: "of_char c < (48 :: nat) \<or> of_char c > (57 :: nat) \<Longrightarrow> c \<notin> set (decimal n)"
  using decimal_chars [of n] by fastforce

lemma host_text_clean:
  assumes "printable_uri u"
  shows "CHR ''@'' \<notin> set (host_text u)" "CHR ''?'' \<notin> set (host_text u)" "CHR '';'' \<notin> set (host_text u)"
  using assms by (auto simp: host_text_def printable_uri_def avoids_def decimal_clean)

lemma parameters_text_clean:
  assumes "printable_uri u" and "c = CHR ''?'' \<or> c = CHR ''@'' \<and> su_sUser u = []"
  shows "c \<notin> set (parameters_text u)"
proof -
  have "c \<notin> set (pair_text (su_mUriParameters u) n)" if "n \<in> set (su_vUriParameters u)" for n
    by (rule pair_text_clean) (use assms that in \<open>auto simp: printable_uri_def\<close>)
  then show ?thesis using set_join_with [of "CHR '';''"] assms(2) unfolding parameters_text_def by fastforce
qed

lemma fields_text_clean:
  assumes "printable_uri u" and "su_sUser u = []"
  shows "CHR ''@'' \<notin> set (fields_text u)"
proof -
  have "CHR ''@'' \<notin> set (pair_text (su_mHeaderFields u) n)" if "n \<in> set (su_vHeaderFields u)" for n
    by (rule pair_text_clean) (use assms that in \<open>auto simp: printable_uri_def\<close>)
  then show ?thesis using set_join_with [of "CHR ''&''"] unfolding fields_text_def by fastforce
qed

lemma parse_user_text:
  assumes p: "printable_uri u"
  shows "parse_user (user_text u @ after_user u) = (su_sUser u, su_sPassword u, after_user u)"
proof (cases "su_sUser u = []")
  case True
  then have "CHR ''@'' \<notin> set (after_user u)"
    using host_text_clean [OF p] parameters_text_clean [OF p] fields_text_clean [OF p] by (auto simp: after_user_def)
  then show ?thesis using True p by (simp add: user_text_def parse_user_def split_at_simps printable_uri_def)
next
  case False
  let ?up = "su_sUser u @ (if su_sPassword u \<noteq> [] then '':'' @ su_sPassword u else [])"
  have "CHR ''@'' \<notin> set ?up" using p by (auto simp: printable_uri_def avoids_def)
  then have "split_at CHR ''@'' (?up @ CHR ''@'' # after_user u) = Some (?up, after_user u)" by (rule split_at_simps)
  moreover have "CHR '':'' \<notin> set (su_sUser u)" using p by (simp add: printable_uri_def avoids_def)
  ultimately show ?thesis using False by (auto simp: user_text_def parse_user_def split_at_simps)
qed

lemma restrict_to_dom: "m |` dom m = m"
  by (auto simp: fun_eq_iff restrict_map_def dom_def)

lemma add_printed_pairs:
  assumes tok: "\<And>c ws. \<forall>w\<in>set ws. w \<noteq> [] \<and> c \<notin> set w \<and> trimmed w \<Longrightarrow> tokenize (join_with c ws) c = ws"
    and p: "printable_uri u"
  shows "add_pairs (\<lambda>s. tokenize s CHR ''='') addUriParameter (tokenize (parameters_text u) CHR '';'') v =
      Some (v\<lparr>su_mUriParameters := su_mUriParameters v ++ su_mUriParameters u, su_vUriParameters := su_vUriParameters v @ su_vUriParameters u\<rparr>)"
    and "add_pairs (\<lambda>s. tokenize s CHR ''='') addUriHeaderField (tokenize (fields_text u) CHR ''&'') v =
      Some (v\<lparr>su_mHeaderFields := su_mHeaderFields v ++ su_mHeaderFields u, su_vHeaderFields := su_vHeaderFields v @ su_vHeaderFields u\<rparr>)"
proof -
  let ?m = "su_mUriParameters u" and ?f = "su_mHeaderFields u"
  have params: "\<forall>n\<in>set (su_vUriParameters u). plain_pair (CHR ''='' # '';?'' @ (if su_sUser u = [] then ''@'' else [])) ?m n"
    and hdrs: "\<forall>n\<in>set (su_vHeaderFields u). plain_pair (CHR ''='' # ''&'' @ (if su_sUser u = [] then ''@'' else [])) ?f n"
    and dom: "set (su_vUriParameters u) = dom ?m" "set (su_vHeaderFields u) = dom ?f"
    using p by (simp_all add: printable_uri_def)
  have pt: "tokenize (parameters_text u) CHR '';'' = map (pair_text ?m) (su_vUriParameters u)"
    unfolding parameters_text_def by (rule pairs_tokens [OF tok params]) simp_all
  have ft: "tokenize (fields_text u) CHR ''&'' = map (pair_text ?f) (su_vHeaderFields u)"
    unfolding fields_text_def by (rule pairs_tokens [OF tok hdrs]) simp_all
  have "\<forall>n\<in>set (su_vUriParameters u). ?m n \<noteq> None \<and> tokenize (pair_text ?m n) CHR ''='' = [n, the (?m n)]"
    using params pair_text_tokens [OF tok] by (auto simp: dom)
  then show "add_pairs (\<lambda>s. tokenize s CHR ''='') addUriParameter (tokenize (parameters_text u) CHR '';'') v =
      Some (v\<lparr>su_mUriParameters := su_mUriParameters v ++ ?m, su_vUriParameters := su_vUriParameters v @ su_vUriParameters u\<rparr>)"
    using add_parameters [of "su_vUriParameters u" ?m "\<lambda>s. tokenize s CHR ''=''" v] unfolding pt dom restrict_to_dom by simp
  have "\<forall>n\<in>set (su_vHeaderFields u). ?f n \<noteq> None \<and> tokenize (pair_text ?f n) CHR ''='' = [n, the (?f n)]"
    using hdrs pair_text_tokens [OF tok] by (auto simp: dom)
  then show "add_pairs (\<lambda>s. tokenize s CHR ''='') addUriHeaderField (tokenize (fields_text u) CHR ''&'') v =
      Some (v\<lparr>su_mHeaderFields := su_mHeaderFields v ++ ?f, su_vHeaderFields := su_vHeaderFields v @ su_vHeaderFields u\<rparr>)"
    using add_header_fields [of "su_vHeaderFields u" ?f "\<lambda>s. tokenize s CHR ''=''" v] unfolding ft dom restrict_to_dom by simp
qed

text \<open>
  C28: A SIP URI survives printing and parsing: scheme, user, password, host, port, and the parameters and
  header fields with their order, if none of the parts contains a separator that ends it. It relies on
  the tokeniser splitting at a separator and on the conversion of decimal port numbers.
\<close>

theorem sip_uri_roundtrip:
  assumes tok: "\<And>c ws. \<forall>w\<in>set ws. w \<noteq> [] \<and> c \<notin> set w \<and> trimmed w \<Longrightarrow> tokenize (join_with c ws) c = ws"
    and conv: "\<And>n. convert (decimal (unat n)) = Some n" and p: "printable_uri u"
  shows "\<exists>s. SipUri_toString u = Inr (Some s) \<and> SipUri_parse tokenize convert s = Inr (Some u)"
proof -
  let ?m = "su_mUriParameters u" and ?f = "su_mHeaderFields u"
  define s where "s = (case su_eScheme u of S_SIP \<Rightarrow> ''sip:'' | S_SIPS \<Rightarrow> ''sips:'') @ user_text u @ after_user u"
  have scheme: "s \<noteq> []" "parse_scheme s = Inr (Some (su_eScheme u, user_text u @ after_user u))"
    by (cases "su_eScheme u"; simp add: s_def parse_scheme_def starts_with_def)+
  define hp where "hp = host_text u @ (if su_vUriParameters u = [] then [] else CHR '';'' # parameters_text u)"
  have "CHR ''?'' \<notin> set hp" using host_text_clean [OF p] parameters_text_clean [OF p] by (auto simp: hp_def)
  then have q: "(case split_at CHR ''?'' (after_user u) of None \<Rightarrow> (after_user u, []) | Some x \<Rightarrow> x) = (hp, fields_text u)"
    using split_optional [of "CHR ''?''" hp "su_vHeaderFields u = []" "fields_text u"]
    unfolding after_user_def append_assoc [symmetric] hp_def [symmetric] by (simp add: fields_text_def)
  have semi: "(case split_at CHR '';'' hp of None \<Rightarrow> (hp, []) | Some x \<Rightarrow> x) = (host_text u, parameters_text u)"
    using split_optional [OF host_text_clean(3) [OF p], of "su_vUriParameters u = []" "parameters_text u"]
    unfolding hp_def [symmetric] by (simp add: parameters_text_def)
  have "CHR '':'' \<notin> set (su_sHost u)" using p by (simp add: printable_uri_def avoids_def)
  then have host: "(case split_at CHR '':'' (host_text u) of None \<Rightarrow> Some (host_text u, 0)
      | Some (sHost, sPort) \<Rightarrow> map_option (Pair sHost) (convert sPort)) = Some (su_sHost u, su_uiPort u)"
    using split_at_simps [of "CHR '':''" "su_sHost u"] conv by (simp add: host_text_def)
  note pairs = add_printed_pairs [where tokenize = tokenize, OF tok p]
  have "SipUri_parse tokenize convert s = Inr (Some ((SipUri_make (su_sHost u) (su_uiPort u) (su_sUser u) (su_sPassword u) (su_eScheme u))
      \<lparr>su_mUriParameters := su_mUriParameters u, su_vUriParameters := su_vUriParameters u,
        su_mHeaderFields := su_mHeaderFields u, su_vHeaderFields := su_vHeaderFields u\<rparr>))"
    unfolding SipUri_parse_def scheme(2) sum.case option.case prod.case parse_user_text [OF p] Let_def q semi host
    using scheme(1) by (simp add: SipUri_make_def SipUri_new_def pairs)
  also have "\<dots> = Inr (Some u)" using p by (cases u) (simp add: SipUri_make_def SipUri_new_def printable_uri_def)
  finally show ?thesis using toString_printable [OF p] unfolding s_def by simp
qed

definition sample_uri :: SipUri where
  "sample_uri = addUriHeaderField ''subject'' ''x'' (addUriParameter ''transport'' ''udp'' (addUriParameter ''ttl'' ''9''
     (SipUri_make ''host'' 5070 ''bob'' ''pw'' S_SIPS)))"

fun split_on :: "string \<Rightarrow> string \<Rightarrow> char \<Rightarrow> string list" where
  "split_on acc [] d = (if acc = [] then [] else [rev acc])"
| "split_on acc (c # s) d = (if c = d then if acc = [] then split_on [] s d else rev acc # split_on [] s d else split_on (c # acc) s d)"

lemma split_on_run: "d \<notin> set w \<Longrightarrow> split_on acc (w @ s) d = split_on (rev w @ acc) s d"
  by (induction w arbitrary: acc) auto

lemma split_on_join: "\<forall>w\<in>set ws. w \<noteq> [] \<and> c \<notin> set w \<Longrightarrow> split_on [] (join_with c ws) c = ws"
proof (induction c ws rule: join_with.induct)
  case (2 c w)
  then show ?case using split_on_run [of c w "[]" "[]"] by simp
next
  case (3 c w v va)
  then show ?case using split_on_run [of c w "[]" "c # join_with c (v # va)"] by simp
qed simp

lemma sample_uri_printable: "printable_uri sample_uri"
proof -
  have "trimmed ''ttl''" "trimmed ''9''" "trimmed ''transport''" "trimmed ''udp''" "trimmed ''subject''" "trimmed ''x''" by code_simp+
  then show ?thesis
    by (auto simp: printable_uri_def sample_uri_def addUriHeaderField_def addUriParameter_def SipUri_make_def SipUri_new_def plain_pair_def avoids_def)
qed

theorem sip_uri_roundtrip_witness:
  "\<exists>s. SipUri_toString sample_uri = Inr (Some s) \<and> SipUri_parse (split_on []) (\<lambda>s. Some (of_nat (undecimal s))) s = Inr (Some sample_uri)
     \<and> printable_uri sample_uri"
  using sip_uri_roundtrip [of "split_on []" "\<lambda>s. Some (of_nat (undecimal s))" sample_uri] sample_uri_printable
  by (simp add: split_on_join undecimal_decimal)

text \<open>The scheme names alone make the parser leave the string.\<close>

lemma bare_scheme_throws:
  "SipUri_parse tokenize convert ''sip'' = Inl Out_of_range" "SipUri_parse tokenize convert ''sips'' = Inl Out_of_range"
  by (simp_all add: SipUri_parse_def parse_scheme_def starts_with_def)

end
