(* ===== verification/Server_Transaction.thy ===== *)
theory Server_Transaction
  imports Client_Transaction
begin

text \<open>
  The SIP server transaction (\<open>rfc3261/ServerTransaction.cpp\<close>): it passes a request to the transaction
  user, sends the responses of the user and retransmits a final response until it is acknowledged.
  As for client transactions a handler returns what it sends and notifies, a timer holds the interval
  of its pending wait, and whether the transport accepts the message of a handler is an argument
  (no handler sends two). The string that \<open>random_string\<close> draws is an argument too.
\<close>

section \<open>State\<close>

datatype ServerInviteTransactionState = STXS_PROCEEDING | STXS_COMPLETED | STXS_CONFIRMED | STXS_TERMINATED

datatype ServerNonInviteTransactionState = STXS_NI_TRYING | STXS_NI_PROCEEDING | STXS_NI_COMPLETED | STXS_NI_TERMINATED

record SipContext =
  sc_User :: string
  sc_FQDN :: string
  sc_Domain :: string
  sc_Secure :: bool
  sc_SipPort :: u16

definition getContact :: "SipContext \<Rightarrow> string" where
  "getContact c = (if sc_Secure c then ''sips:'' else ''sip:'') @ sc_User c @ ''@'' @ sc_FQDN c
     @ (if sc_SipPort c \<noteq> 5060 then '':'' @ decimal (unat (sc_SipPort c)) else [])"

definition getUserSipUri :: "SipContext \<Rightarrow> string" where
  "getUserSipUri c = (if sc_Secure c then ''sips:'' else ''sip:'') @ sc_User c @ ''@'' @ sc_Domain c"

record ServerTransaction =
  st_eTxType :: CtType
  st_eInviteState :: ServerInviteTransactionState
  st_eNonInviteState :: ServerNonInviteTransactionState
  st_timerG :: "u32 option"
  st_timerH :: "u32 option"
  st_timerI :: "u32 option"
  st_timerJ :: "u32 option"
  st_localContext :: SipContext
  st_request :: SipMessage
  st_sSource :: string
  st_uiPort :: u16
  st_eProtocol :: TransactionProtocol
  st_mostRecentProvisionalSipResponse :: SipMessage
  st_finalSipResponse :: SipMessage
  st_timerGIntervalMs :: u32
  st_toTag :: "string option"

datatype st_output = Respond SipMessage string u16 TransactionProtocol | Report_failure | Report_terminated

type_synonym st_result = "fault + st_output list \<times> ServerTransaction"

text \<open>The result of sending: whether an error code is returned, what was sent and notified, the state.\<close>

type_synonym st_send_result = "fault + bool \<times> st_output list \<times> ServerTransaction"

definition respond :: "SipMessage \<Rightarrow> ServerTransaction \<Rightarrow> st_output" where
  "respond sipResponse s = Respond sipResponse (st_sSource s) (st_uiPort s) (st_eProtocol s)"

section \<open>State changes\<close>

definition updateInviteState :: "ServerInviteTransactionState \<Rightarrow> ServerTransaction \<Rightarrow> st_result" where
  "updateInviteState eState s0 =
     (let s = s0\<lparr>st_eInviteState := eState\<rparr> in
      case eState of
        STXS_PROCEEDING \<Rightarrow> Inl Assertion_failed
      | STXS_CONFIRMED \<Rightarrow>
          Inr ([], s\<lparr>st_timerH := None,
                     st_timerI := Some (if isTransportUnreliable (st_eProtocol s) then INTERVAL_T4_DEFAULT_MS else 0)\<rparr>)
      | STXS_COMPLETED \<Rightarrow> Inr ([], s\<lparr>st_timerH := Some (64 * INTERVAL_T1_DEFAULT_MS)\<rparr>)
      | STXS_TERMINATED \<Rightarrow> Inr ([Report_terminated], s\<lparr>st_timerG := None, st_timerH := None, st_timerI := None\<rparr>))"

definition updateNonInviteState :: "ServerNonInviteTransactionState \<Rightarrow> ServerTransaction \<Rightarrow> st_result" where
  "updateNonInviteState eState s0 =
     (let s = s0\<lparr>st_eNonInviteState := eState\<rparr> in
      case eState of
        STXS_NI_TRYING \<Rightarrow> Inl Assertion_failed
      | STXS_NI_PROCEEDING \<Rightarrow> Inr ([], s)
      | STXS_NI_COMPLETED \<Rightarrow>
          Inr ([], s\<lparr>st_timerJ := Some (if isTransportUnreliable (st_eProtocol s) then 64 * INTERVAL_T1_DEFAULT_MS else 0)\<rparr>)
      | STXS_NI_TERMINATED \<Rightarrow> Inr ([Report_terminated], s\<lparr>st_timerJ := None\<rparr>))"

definition after_output :: "st_output list \<Rightarrow> st_result \<Rightarrow> st_result" where
  "after_output out r = (case r of Inl f \<Rightarrow> Inl f | Inr (out', s) \<Rightarrow> Inr (out @ out', s))"

definition returning :: "bool \<Rightarrow> st_result \<Rightarrow> st_send_result" where
  "returning bError r = (case r of Inl f \<Rightarrow> Inl f | Inr (out, s) \<Rightarrow> Inr (bError, out, s))"

section \<open>Responses\<close>

definition generateResponse ::
  "(string \<Rightarrow> string list) \<Rightarrow> string \<Rightarrow> ResponseCode \<Rightarrow> ServerTransaction \<Rightarrow> fault + SipMessage \<times> ServerTransaction" where
  "generateResponse tokenize sRandom eCode s =
     (case createResponse (st_request s) of
        None \<Rightarrow> Inl Assertion_failed
      | Some response0 \<Rightarrow>
          let response1 = setResponseCode eCode response0;
              to = the (getHeaderField ''To'' (st_request s));
              (response2, s1) =
                (if \<not> hasAttribute tokenize ''To'' ''tag'' (st_request s)
                 then let tag = (case st_toTag s of None \<Rightarrow> sRandom | Some t \<Rightarrow> t)
                      in (addHeaderField ''To'' (to @ '';tag='' @ tag) response1, s\<lparr>st_toTag := Some tag\<rparr>)
                 else (addHeaderField ''To'' to response1, s))
          in Inr (addHeaderField ''Contact'' (getContact (st_localContext s1)) response2, s1))"

definition sendProvisionalResponse :: "bool \<Rightarrow> SipMessage \<Rightarrow> ServerTransaction \<Rightarrow> st_send_result" where
  "sendProvisionalResponse bSent sipProvisionalResponse s =
     (let sent = [respond sipProvisionalResponse s];
          remember = (\<lambda>t. t\<lparr>st_mostRecentProvisionalSipResponse := sipProvisionalResponse\<rparr>) in
      case st_eTxType s of
        CT_INVITE \<Rightarrow>
          (case st_eInviteState s of
             STXS_PROCEEDING \<Rightarrow> Inr (\<not> bSent, sent, remember s)
           | _ \<Rightarrow> Inl Assertion_failed)
      | CT_NON_INVITE \<Rightarrow>
          (case st_eNonInviteState s of
             STXS_NI_TRYING \<Rightarrow>
               (case updateNonInviteState STXS_NI_PROCEEDING s of
                  Inl f \<Rightarrow> Inl f | Inr (out, s1) \<Rightarrow> Inr (\<not> bSent, sent @ out, remember s1))
           | STXS_NI_PROCEEDING \<Rightarrow> Inr (\<not> bSent, sent, remember s)
           | _ \<Rightarrow> Inl Assertion_failed))"

text \<open>The final responses of a non-INVITE transaction, shared by the Trying state, which falls through.\<close>

definition sendFinalNonInvite :: "SipMessage \<Rightarrow> ServerTransaction \<Rightarrow> st_result" where
  "sendFinalNonInvite sipResponse s =
     (if isResponseFinal (sm_eResponseCode sipResponse)
      then after_output [respond sipResponse s] (updateNonInviteState STXS_NI_COMPLETED (s\<lparr>st_finalSipResponse := sipResponse\<rparr>))
      else Inr ([], s))"

definition sendFinalInvite :: "SipMessage \<Rightarrow> ServerTransaction \<Rightarrow> st_result" where
  "sendFinalInvite sipResponse s =
     (let sent = [respond sipResponse s]; s1 = s\<lparr>st_finalSipResponse := sipResponse\<rparr> in
      if isResponseSuccessfull (sm_eResponseCode sipResponse)
      then after_output sent (updateInviteState STXS_TERMINATED s1)
      else if isFinalNonSuccessfulResponse (sm_eResponseCode sipResponse)
      then (case updateInviteState STXS_COMPLETED s1 of
              Inl f \<Rightarrow> Inl f
            | Inr (out, s2) \<Rightarrow>
                Inr (sent @ out, if isTransportUnreliable (st_eProtocol s2) then s2\<lparr>st_timerG := Some INTERVAL_T1_DEFAULT_MS\<rparr> else s2))
      else Inr ([], s))"

text \<open>Past the first test the response is not provisional, so neither are the ones tested for below it.\<close>

definition sendResponse :: "bool \<Rightarrow> SipMessage \<Rightarrow> ServerTransaction \<Rightarrow> st_send_result" where
  "sendResponse bSent sipResponse s =
     (if isResponseProvisional (sm_eResponseCode sipResponse) then sendProvisionalResponse bSent sipResponse s
      else case st_eTxType s of
        CT_INVITE \<Rightarrow>
          (case st_eInviteState s of
             STXS_PROCEEDING \<Rightarrow> returning False (sendFinalInvite sipResponse s)
           | _ \<Rightarrow> Inl Assertion_failed)
      | CT_NON_INVITE \<Rightarrow>
          (case st_eNonInviteState s of
             STXS_NI_TRYING \<Rightarrow> returning False (sendFinalNonInvite sipResponse s)
           | STXS_NI_PROCEEDING \<Rightarrow> returning False (sendFinalNonInvite sipResponse s)
           | STXS_NI_COMPLETED \<Rightarrow> Inr (False, [], s)
           | STXS_NI_TERMINATED \<Rightarrow> Inl Assertion_failed))"

section \<open>Creation\<close>

definition ServerTransaction_new ::
  "SipContext \<Rightarrow> SipMessage \<Rightarrow> string \<Rightarrow> u16 \<Rightarrow> TransactionProtocol \<Rightarrow> ServerTransaction" where
  "ServerTransaction_new localContext sipRequest sSource uiPort eProtocol =
     \<lparr>st_eTxType = (if sm_eMethod sipRequest = INVITE then CT_INVITE else CT_NON_INVITE),
      st_eInviteState = STXS_PROCEEDING, st_eNonInviteState = STXS_NI_TRYING,
      st_timerG = None, st_timerH = None, st_timerI = None, st_timerJ = None,
      st_localContext = localContext, st_request = sipRequest, st_sSource = sSource, st_uiPort = uiPort,
      st_eProtocol = eProtocol, st_mostRecentProvisionalSipResponse = SipMessage_new,
      st_finalSipResponse = SipMessage_new, st_timerGIntervalMs = INTERVAL_T1_DEFAULT_MS, st_toTag = None\<rparr>"

text \<open>An error of the transport is reported to the user after the send.\<close>

definition report_error :: "st_send_result \<Rightarrow> st_result" where
  "report_error r = (case r of
     Inl f \<Rightarrow> Inl f
   | Inr (bError, out, s) \<Rightarrow> Inr (if bError then out @ [Report_failure] else out, s))"

definition answer_provisional :: "bool \<Rightarrow> SipMessage \<Rightarrow> ServerTransaction \<Rightarrow> st_result" where
  "answer_provisional bSent response s =
     report_error (sendProvisionalResponse bSent response (s\<lparr>st_mostRecentProvisionalSipResponse := response\<rparr>))"

definition answer_final :: "bool \<Rightarrow> SipMessage \<Rightarrow> ServerTransaction \<Rightarrow> st_result" where
  "answer_final bSent response s = report_error (sendResponse bSent response (s\<lparr>st_finalSipResponse := response\<rparr>))"

text \<open>The end of the constructor: what it does with the answer of the transaction user.\<close>

definition answer_request :: "bool \<Rightarrow> bool \<Rightarrow> SipMessage \<Rightarrow> ServerTransaction \<Rightarrow> st_result" where
  "answer_request bSent bWillTuGenerateResponse response s =
     (case st_eTxType s of
        CT_INVITE \<Rightarrow>
          if \<not> bWillTuGenerateResponse then answer_provisional bSent (setResponseCode TRYING response) s
          else if sm_eResponseCode response = NOT_SET then Inl Assertion_failed
          else if isResponseProvisional (sm_eResponseCode response) then answer_provisional bSent response s
          else answer_final bSent response s
      | CT_NON_INVITE \<Rightarrow>
          if isResponseProvisional (sm_eResponseCode response) then answer_provisional bSent response s
          else if sm_eResponseCode response > NOT_SET then answer_final bSent response s
          else Inr ([], s))"

text \<open>
  The whole constructor. The transaction user gets the response to fill in and says whether it answers
  at once; \<open>'u\<close> is the state of the user.
\<close>

definition ServerTransaction_create ::
  "(string \<Rightarrow> string list) \<Rightarrow> string \<Rightarrow> bool \<Rightarrow> (SipMessage \<Rightarrow> 'u \<Rightarrow> fault + bool \<times> SipMessage \<times> 'u) \<Rightarrow>
   SipContext \<Rightarrow> SipMessage \<Rightarrow> string \<Rightarrow> u16 \<Rightarrow> TransactionProtocol \<Rightarrow> 'u \<Rightarrow> fault + st_output list \<times> ServerTransaction \<times> 'u" where
  "ServerTransaction_create tokenize sRandom bSent tu localContext sipRequest sSource uiPort eProtocol u =
     (case generateResponse tokenize sRandom NOT_SET (ServerTransaction_new localContext sipRequest sSource uiPort eProtocol) of
        Inl f \<Rightarrow> Inl f
      | Inr (response, s) \<Rightarrow>
          (case tu response u of
             Inl f \<Rightarrow> Inl f
           | Inr (bWill, response', u') \<Rightarrow>
               (case answer_request bSent bWill response' s of
                  Inl f \<Rightarrow> Inl f
                | Inr (out, s') \<Rightarrow> Inr (out, s', u'))))"

section \<open>Requests and timers\<close>

definition onAckReceived :: "ServerTransaction \<Rightarrow> st_result" where
  "onAckReceived s =
     (if st_eTxType s \<noteq> CT_INVITE then Inl Assertion_failed
      else case st_eInviteState s of
             STXS_PROCEEDING \<Rightarrow> Inl Assertion_failed
           | STXS_COMPLETED \<Rightarrow> updateInviteState STXS_CONFIRMED s
           | STXS_CONFIRMED \<Rightarrow> Inl Assertion_failed
           | STXS_TERMINATED \<Rightarrow> Inl Assertion_failed)"

definition onRequestReceived :: "SipMessage \<Rightarrow> ServerTransaction \<Rightarrow> st_result" where
  "onRequestReceived sipRequest s = (if sm_eMethod sipRequest = ACK then onAckReceived s else Inr ([], s))"

definition ignore_error :: "st_send_result \<Rightarrow> st_result" where
  "ignore_error r = (case r of Inl f \<Rightarrow> Inl f | Inr (bError, out, s) \<Rightarrow> Inr (out, s))"

definition onRequestRetransmissionReceived :: "bool \<Rightarrow> ServerTransaction \<Rightarrow> st_result" where
  "onRequestRetransmissionReceived bSent s =
     (case st_eTxType s of
        CT_INVITE \<Rightarrow>
          (case st_eInviteState s of
             STXS_PROCEEDING \<Rightarrow> ignore_error (sendProvisionalResponse bSent (st_mostRecentProvisionalSipResponse s) s)
           | STXS_COMPLETED \<Rightarrow> ignore_error (sendResponse bSent (st_finalSipResponse s) s)
           | STXS_CONFIRMED \<Rightarrow> Inr ([], s)
           | STXS_TERMINATED \<Rightarrow> Inl Assertion_failed)
      | CT_NON_INVITE \<Rightarrow>
          (case st_eNonInviteState s of
             STXS_NI_TRYING \<Rightarrow> Inr ([], s)
           | STXS_NI_PROCEEDING \<Rightarrow> ignore_error (sendProvisionalResponse bSent (st_mostRecentProvisionalSipResponse s) s)
           | STXS_NI_COMPLETED \<Rightarrow> ignore_error (sendResponse bSent (st_finalSipResponse s) s)
           | STXS_NI_TERMINATED \<Rightarrow> Inl Assertion_failed))"

definition handleTimerGTimeout :: "bool \<Rightarrow> ServerTransaction \<Rightarrow> st_result" where
  "handleTimerGTimeout bSent s =
     (case st_eInviteState s of
        STXS_COMPLETED \<Rightarrow>
          let out = respond (st_finalSipResponse s) s # (if bSent then [] else [Report_failure]);
              interval = min (2 * st_timerGIntervalMs s) INTERVAL_T1_DEFAULT_MS
          in Inr (out, s\<lparr>st_timerGIntervalMs := interval, st_timerG := Some interval\<rparr>)
      | STXS_CONFIRMED \<Rightarrow> Inr ([], s)
      | _ \<Rightarrow> Inl Assertion_failed)"

definition handleTimerHTimeout :: "ServerTransaction \<Rightarrow> st_result" where
  "handleTimerHTimeout s =
     (if st_eTxType s \<noteq> CT_INVITE then Inl Assertion_failed
      else case st_eInviteState s of
             STXS_PROCEEDING \<Rightarrow> Inl Assertion_failed
           | STXS_COMPLETED \<Rightarrow> after_output [Report_failure] (updateInviteState STXS_TERMINATED s)
           | _ \<Rightarrow> Inr ([], s))"

definition handleTimerITimeout :: "ServerTransaction \<Rightarrow> st_result" where
  "handleTimerITimeout s = updateInviteState STXS_TERMINATED s"

text \<open>Timer J too ends a transaction by \<open>updateInviteState\<close>.\<close>

definition handleTimerJTimeout :: "ServerTransaction \<Rightarrow> st_result" where
  "handleTimerJTimeout s = updateInviteState STXS_TERMINATED s"

end
