(* ===== verification/Sip_Dialog.thy ===== *)
theory Sip_Dialog
  imports Sip_Uri Server_Transaction Ordered_Map "HOL-Library.Product_Lexorder"
begin

text \<open>
  SIP dialogs (\<open>rfc3261/SipDialog.cpp\<close>) and the table of dialogs (\<open>rfc3261/DialogManager.cpp\<close>). The
  functions of external libraries that they call are collected in a record.
\<close>

section \<open>External functions\<close>

record externals =
  ext_attributes :: "string \<Rightarrow> string list"
  ext_tokenize :: "string \<Rightarrow> char \<Rightarrow> string list"
  ext_convert :: "string \<Rightarrow> u32 option"
  ext_port :: "string \<Rightarrow> u16 option"

section \<open>Dialogs\<close>

type_synonym DialogId = "string \<times> string \<times> string"

text \<open>Reading a missing value of an optional fails an assertion.\<close>

definition extractDialogId :: "externals \<Rightarrow> SipMessage \<Rightarrow> bool \<Rightarrow> fault + DialogId option" where
  "extractDialogId x sipMessage isUac =
     (let callId = getHeaderField ''Call-ID'' sipMessage in
      case getAttribute (ext_attributes x) ''From'' ''tag'' sipMessage of
        Inl f \<Rightarrow> Inl f
      | Inr fromTag \<Rightarrow>
          (case getAttribute (ext_attributes x) ''To'' ''tag'' sipMessage of
             Inl f \<Rightarrow> Inl f
           | Inr toTag \<Rightarrow>
               if isUac
               then (case (callId, fromTag) of
                       (Some c, Some l) \<Rightarrow> Inr (Some (c, l, case toTag of Some r \<Rightarrow> r | None \<Rightarrow> ''null''))
                     | _ \<Rightarrow> Inl Assertion_failed)
               else (case (callId, toTag) of
                       (Some c, Some l) \<Rightarrow> Inr (Some (c, l, case fromTag of Some r \<Rightarrow> r | None \<Rightarrow> ''null''))
                     | _ \<Rightarrow> Inr None)))"

datatype DialogState = DS_EARLY | DS_CONFIRMED | DS_COMPLETE

record SipDialog =
  sd_eState :: DialogState
  sd_sipContext :: SipContext
  sd_uiTxId :: u32
  sd_dialogId :: DialogId
  sd_bIsUAC :: bool
  sd_bSecure :: bool
  sd_uiLocalSN :: u32
  sd_uiRemoteSN :: u32
  sd_localUri :: SipUri
  sd_remoteUri :: SipUri
  sd_routeSet :: "SipUri list"

definition SN_EMPTY :: u32 where "SN_EMPTY = 4294967295"

definition parse_uri :: "externals \<Rightarrow> string \<Rightarrow> fault + SipUri" where
  "parse_uri x s = (case SipUri_parse (ext_tokenize x) (ext_port x) s of
     Inl f \<Rightarrow> Inl f | Inr None \<Rightarrow> Inl Assertion_failed | Inr (Some u) \<Rightarrow> Inr u)"

definition intialiseDialogState :: "externals \<Rightarrow> bool \<Rightarrow> SipMessage \<Rightarrow> SipDialog \<Rightarrow> fault + SipDialog" where
  "intialiseDialogState x bIsUac sipMessage d =
     (case getRequestSequenceNumber (ext_convert x) sipMessage of
        Inl f \<Rightarrow> Inl f
      | Inr uiSN \<Rightarrow>
          let (remoteText, localText) = (if bIsUac then (getToUri sipMessage, getFromUri sipMessage)
                                         else (getFromUri sipMessage, getToUri sipMessage));
              d1 = (if bIsUac then d\<lparr>sd_uiLocalSN := uiSN, sd_uiRemoteSN := SN_EMPTY\<rparr>
                    else d\<lparr>sd_uiRemoteSN := uiSN, sd_uiLocalSN := SN_EMPTY\<rparr>)
          in case parse_uri x remoteText of
               Inl f \<Rightarrow> Inl f
             | Inr remoteUri \<Rightarrow>
                 (case parse_uri x localText of
                    Inl f \<Rightarrow> Inl f
                  | Inr localUri \<Rightarrow> Inr (d1\<lparr>sd_remoteUri := remoteUri, sd_localUri := localUri\<rparr>)))"

text \<open>
  The constructor with an identifier; the sequence numbers it leaves unset are set by the
  initialisation.
\<close>

definition SipDialog_create ::
  "externals \<Rightarrow> SipContext \<Rightarrow> u32 \<Rightarrow> DialogId \<Rightarrow> SipMessage \<Rightarrow> bool \<Rightarrow> bool \<Rightarrow> DialogState \<Rightarrow> fault + SipDialog" where
  "SipDialog_create x sipContext uiTxId dialogId sipRequest bIsUAC bSecure eState =
     intialiseDialogState x bIsUAC sipRequest
       \<lparr>sd_eState = eState, sd_sipContext = sipContext, sd_uiTxId = uiTxId, sd_dialogId = dialogId, sd_bIsUAC = bIsUAC,
        sd_bSecure = bSecure, sd_uiLocalSN = SN_EMPTY, sd_uiRemoteSN = SN_EMPTY, sd_localUri = SipUri_new,
        sd_remoteUri = SipUri_new, sd_routeSet = []\<rparr>"

definition SipDialog_confirm :: "SipDialog \<Rightarrow> SipDialog" where "SipDialog_confirm d = d\<lparr>sd_eState := DS_CONFIRMED\<rparr>"
definition isConfirmed :: "SipDialog \<Rightarrow> bool" where "isConfirmed d \<longleftrightarrow> sd_eState d = DS_CONFIRMED"
definition isComplete :: "SipDialog \<Rightarrow> bool" where "isComplete d \<longleftrightarrow> sd_eState d = DS_COMPLETE"
definition SipDialog_terminate :: "SipDialog \<Rightarrow> SipDialog" where "SipDialog_terminate d = d\<lparr>sd_eState := DS_COMPLETE\<rparr>"

definition uri_text :: "SipUri \<Rightarrow> fault + string" where
  "uri_text u = (case SipUri_toString u of Inl f \<Rightarrow> Inl f | Inr None \<Rightarrow> Inl Assertion_failed | Inr (Some s) \<Rightarrow> Inr s)"

text \<open>Adds a To or From field with the tag, unless that is empty or null.\<close>

definition add_tagged :: "string \<Rightarrow> string \<Rightarrow> string \<Rightarrow> SipMessage \<Rightarrow> SipMessage" where
  "add_tagged sHeader sUri sTag m =
     (let m1 = addHeaderField sHeader sUri m
      in if sTag \<noteq> [] \<and> sTag \<noteq> ''null'' then snd (setAttribute sHeader ''tag'' sTag m1) else m1)"

definition generateSipRequest :: "string \<Rightarrow> string \<Rightarrow> SipDialog \<Rightarrow> fault + SipMessage" where
  "generateSipRequest sRandom sMethod d =
     (let (callId, sFromTag, sToTag) = sd_dialogId d in
      case uri_text (sd_remoteUri d) of
        Inl f \<Rightarrow> Inl f
      | Inr remote \<Rightarrow>
          (case uri_text (sd_localUri d) of
             Inl f \<Rightarrow> Inl f
           | Inr local \<Rightarrow>
               let m0 = SipMessage_request_string sMethod [];
                   m1 = add_tagged ''To'' remote sToTag m0;
                   m2 = add_tagged ''From'' local sFromTag m1;
                   m3 = addHeaderField ''Call-ID'' callId m2;
                   m4 = addHeaderField ''CSeq'' (decimal 1 @ '' '' @ sMethod) m3;
                   m5 = (if sd_routeSet d = [] then m4\<lparr>sm_sRequestUriString := remote\<rparr> else m4);
                   m6 = addHeaderField ''Contact'' (getContact (sd_sipContext d)) m5;
                   m7 = addHeaderField ''Max-Forwards'' (decimal 70) m6
               in Inr (addHeaderField ''Via'' (''SIP/2.0/<<PROTO>> <<FQDN>>;branch=z9hG4bK'' @ sRandom) m7)))"

text \<open>A request within a dialog, and the response that is filled in.\<close>

definition SipDialog_handleRequest :: "externals \<Rightarrow> SipMessage \<Rightarrow> SipMessage \<Rightarrow> SipDialog \<Rightarrow> fault + SipMessage \<times> SipDialog" where
  "SipDialog_handleRequest x sipRequest sipResponse d =
     (case getRequestSequenceNumber (ext_convert x) sipRequest of
        Inl f \<Rightarrow> Inl f
      | Inr uiSN \<Rightarrow>
          if sd_uiRemoteSN d \<noteq> SN_EMPTY \<and> uiSN < sd_uiRemoteSN d then Inr (setResponseCode 500 sipResponse, d)
          else let d1 = d\<lparr>sd_uiRemoteSN := uiSN\<rparr> in
               (case sm_eMethod sipRequest of
                  ACK \<Rightarrow> Inr (sipResponse, d1)
                | BYE \<Rightarrow> Inr (setResponseCode OK sipResponse, d1)
                | _ \<Rightarrow> Inl Assertion_failed))"

section \<open>The dialog manager\<close>

record DialogManager =
  dm_mDialogs :: "(DialogId \<times> SipDialog) list"
  dm_mIdMap :: "(u32 \<times> DialogId) list"
  dm_sipContext :: SipContext
  dm_qTerminatedDialogs :: "DialogId list"

definition DialogManager_create :: "SipContext \<Rightarrow> DialogManager" where
  "DialogManager_create sipContext = \<lparr>dm_mDialogs = [], dm_mIdMap = [], dm_sipContext = sipContext, dm_qTerminatedDialogs = []\<rparr>"

definition getActiveDialogIds :: "DialogManager \<Rightarrow> DialogId list" where
  "getActiveDialogIds dm = map fst (filter (\<lambda>p. \<not> isComplete (snd p)) (dm_mDialogs dm))"

definition dialogExists :: "DialogId \<Rightarrow> DialogManager \<Rightarrow> bool" where
  "dialogExists did dm \<longleftrightarrow> map_of (dm_mDialogs dm) did \<noteq> None"

definition dialogExists_tx :: "u32 \<Rightarrow> DialogManager \<Rightarrow> bool" where
  "dialogExists_tx uiTxId dm = (case map_of (dm_mIdMap dm) uiTxId of None \<Rightarrow> False | Some did \<Rightarrow> dialogExists did dm)"

definition getDialog :: "DialogId \<Rightarrow> DialogManager \<Rightarrow> fault + SipDialog" where
  "getDialog did dm = (case map_of (dm_mDialogs dm) did of None \<Rightarrow> Inl Assertion_failed | Some d \<Rightarrow> Inr d)"

definition getDialog_tx :: "u32 \<Rightarrow> DialogManager \<Rightarrow> fault + SipDialog" where
  "getDialog_tx uiTxId dm = (case map_of (dm_mIdMap dm) uiTxId of None \<Rightarrow> Inl Assertion_failed | Some did \<Rightarrow> getDialog did dm)"

definition createDialog ::
  "externals \<Rightarrow> u32 \<Rightarrow> SipMessage \<Rightarrow> SipMessage \<Rightarrow> bool \<Rightarrow> bool \<Rightarrow> DialogManager \<Rightarrow> fault + DialogId \<times> DialogManager" where
  "createDialog x uiTxId sipRequest sipResponse bIsUac bEarly dm =
     (case extractDialogId x sipResponse bIsUac of
        Inl f \<Rightarrow> Inl f
      | Inr None \<Rightarrow> Inl Assertion_failed
      | Inr (Some did) \<Rightarrow>
          (case SipDialog_create x (dm_sipContext dm) uiTxId did sipRequest bIsUac False (if bEarly then DS_EARLY else DS_CONFIRMED) of
             Inl f \<Rightarrow> Inl f
           | Inr d \<Rightarrow> Inr (did, dm\<lparr>dm_mDialogs := omap_put did d (dm_mDialogs dm), dm_mIdMap := omap_put uiTxId did (dm_mIdMap dm)\<rparr>)))"

definition terminateDialog_tx :: "u32 \<Rightarrow> DialogId \<Rightarrow> DialogManager \<Rightarrow> DialogManager" where
  "terminateDialog_tx uiTxId did dm =
     (if dialogExists did dm
      then dm\<lparr>dm_mDialogs := omap_erase did (dm_mDialogs dm), dm_mIdMap := omap_erase uiTxId (dm_mIdMap dm)\<rparr> else dm)"

definition terminateDialog :: "DialogId \<Rightarrow> DialogManager \<Rightarrow> DialogManager" where
  "terminateDialog did dm = (if dialogExists did dm then dm\<lparr>dm_mDialogs := omap_erase did (dm_mDialogs dm)\<rparr> else dm)"

definition DialogManager_handleRequest ::
  "externals \<Rightarrow> DialogId \<Rightarrow> SipMessage \<Rightarrow> SipMessage \<Rightarrow> DialogManager \<Rightarrow> fault + SipMessage \<times> DialogManager" where
  "DialogManager_handleRequest x did sipRequest sipResponse dm =
     (case map_of (dm_mDialogs dm) did of
        None \<Rightarrow> Inr (setResponseCode (if did \<in> set (dm_qTerminatedDialogs dm) then 487 else 481) sipResponse, dm)
      | Some d \<Rightarrow>
          (case SipDialog_handleRequest x sipRequest sipResponse d of
             Inl f \<Rightarrow> Inl f
           | Inr (sipResponse', d') \<Rightarrow>
               let dm1 = dm\<lparr>dm_mDialogs := omap_put did d' (dm_mDialogs dm)\<rparr> in
               Inr (sipResponse',
                    if sm_eMethod sipRequest = BYE
                    then (terminateDialog did dm1)\<lparr>dm_qTerminatedDialogs := dm_qTerminatedDialogs dm @ [did]\<rparr>
                    else dm1)))"

end
