(* ===== verification/User_Agent_Server.thy ===== *)
theory User_Agent_Server
  imports Sip_Dialog
begin

text \<open>
  The transaction user (\<open>rfc3261/TransactionUser.cpp\<close>) and the user agent server
  (\<open>rfc3261/UserAgentServer.cpp\<close>), which matches requests to server transactions, answers them with the
  help of the dialogs, and lets the application accept or reject calls. What the transport does with a
  message is an argument, as are random strings; the handlers of the application are outputs, but for
  the REGISTER handler, a function that fills in the response. A transaction that reports its
  termination is removed from the table.
\<close>

section \<open>State\<close>

record TransactionUser =
  tu_sipContext :: SipContext
  tu_uiLastTxId :: u32
  tu_mClientTransactions :: "(u32 \<times> ClientTransaction) list"
  tu_mServerTransactions :: "(u32 \<times> ServerTransaction) list"

record UserAgentServer = TransactionUser +
  uas_dialogManager :: DialogManager
  uas_onRegister :: "(u32 \<Rightarrow> SipMessage \<Rightarrow> SipMessage \<Rightarrow> SipMessage) option"
  uas_onInvite :: bool
  uas_onBye :: bool

datatype ua_output = Transaction_output u32 st_output | On_invite u32 SipMessage | On_bye u32 SipMessage

datatype ua_error = No_such_file_or_directory | No_such_device

section \<open>The transaction user\<close>

text \<open>
  \<open>beginTransaction\<close>: a client transaction that cannot send its request is not kept.
\<close>

definition beginTransaction ::
  "bool \<Rightarrow> SipMessage \<Rightarrow> TransactionProtocol \<Rightarrow> 'a TransactionUser_scheme \<Rightarrow> u32 \<times> ct_output list \<times> 'a TransactionUser_scheme" where
  "beginTransaction bSent sipMessage eProtocol tu =
     (let uiTxId = tu_uiLastTxId tu; tu1 = tu\<lparr>tu_uiLastTxId := uiTxId + 1\<rparr>;
          (out, ct) = ClientTransaction_create bSent sipMessage eProtocol
      in (uiTxId, out, if bSent then tu1\<lparr>tu_mClientTransactions := omap_put uiTxId ct (tu_mClientTransactions tu1)\<rparr> else tu1))"

definition cancelTransaction :: "u32 \<Rightarrow> 'a TransactionUser_scheme \<Rightarrow> ua_error option" where
  "cancelTransaction uiTxId tu =
     (if map_of (tu_mClientTransactions tu) uiTxId = None then Some No_such_file_or_directory else None)"

definition onServerTransactionTermination :: "u32 \<Rightarrow> 'a TransactionUser_scheme \<Rightarrow> 'a TransactionUser_scheme" where
  "onServerTransactionTermination uiTxId tu = tu\<lparr>tu_mServerTransactions := omap_erase uiTxId (tu_mServerTransactions tu)\<rparr>"

definition onTransactionTermination :: "u32 \<Rightarrow> 'a TransactionUser_scheme \<Rightarrow> 'a TransactionUser_scheme" where
  "onTransactionTermination uiTxId tu = tu\<lparr>tu_mClientTransactions := omap_erase uiTxId (tu_mClientTransactions tu)\<rparr>"

text \<open>An operation on a stored server transaction; its termination removes it.\<close>

definition store_server_result :: "u32 \<Rightarrow> st_output list \<Rightarrow> ServerTransaction \<Rightarrow> 'a TransactionUser_scheme \<Rightarrow> 'a TransactionUser_scheme" where
  "store_server_result uiTxId out st tu =
     (let tu1 = tu\<lparr>tu_mServerTransactions := omap_put uiTxId st (tu_mServerTransactions tu)\<rparr>
      in if Report_terminated \<in> set out then onServerTransactionTermination uiTxId tu1 else tu1)"

text \<open>
  \<open>beginServerTransaction\<close>: the constructor of the transaction calls the user before the transaction is
  stored, so a termination in the constructor finds nothing to remove.
\<close>

definition beginServerTransaction ::
  "externals \<Rightarrow> string \<Rightarrow> bool \<Rightarrow> (u32 \<Rightarrow> SipMessage \<Rightarrow> 'a TransactionUser_scheme \<Rightarrow> fault + bool \<times> SipMessage \<times> ua_output list \<times> 'a TransactionUser_scheme) \<Rightarrow>
   SipMessage \<Rightarrow> string \<Rightarrow> u16 \<Rightarrow> TransactionProtocol \<Rightarrow> 'a TransactionUser_scheme \<Rightarrow> fault + u32 \<times> ua_output list \<times> 'a TransactionUser_scheme" where
  "beginServerTransaction x sRandom bSent process sipRequest sSource uiPort eProtocol tu =
     (let uiTxId = tu_uiLastTxId tu; tu1 = tu\<lparr>tu_uiLastTxId := uiTxId + 1\<rparr>;
          user = (\<lambda>response u. case process uiTxId response (snd u) of
                    Inl f \<Rightarrow> Inl f | Inr (bWill, response', out, u') \<Rightarrow> Inr (bWill, response', fst u @ out, u'))
      in case ServerTransaction_create (ext_attributes x) sRandom bSent user (tu_sipContext tu) sipRequest sSource uiPort eProtocol ([], tu1) of
           Inl f \<Rightarrow> Inl f
         | Inr (out, st, (uout, tu2)) \<Rightarrow>
             Inr (uiTxId, uout @ map (Transaction_output uiTxId) out,
                  tu2\<lparr>tu_mServerTransactions := omap_put uiTxId st (tu_mServerTransactions tu2)\<rparr>))"

section \<open>The user agent server\<close>

definition isMethodAllowed :: "Method \<Rightarrow> bool" where
  "isMethodAllowed eMethod \<longleftrightarrow> eMethod \<in> {REGISTER, INVITE, ACK, BYE}"

type_synonym process_result = "fault + bool \<times> SipMessage \<times> ua_output list \<times> UserAgentServer"

definition processRequestInsideOfDialog :: "externals \<Rightarrow> SipMessage \<Rightarrow> u32 \<Rightarrow> SipMessage \<Rightarrow> UserAgentServer \<Rightarrow> process_result" where
  "processRequestInsideOfDialog x sipRequest uiTxId sipResponse uas =
     (if \<not> isMethodAllowed (sm_eMethod sipRequest) then Inr (True, setResponseCode 405 sipResponse, [], uas)
      else case extractDialogId x sipRequest False of
        Inl f \<Rightarrow> Inl f
      | Inr None \<Rightarrow> Inl Assertion_failed
      | Inr (Some did) \<Rightarrow>
          (case DialogManager_handleRequest x did sipRequest sipResponse (uas_dialogManager uas) of
             Inl f \<Rightarrow> Inl f
           | Inr (sipResponse', dm) \<Rightarrow>
               Inr (True, sipResponse',
                    if sm_eMethod sipRequest = BYE \<and> uas_onBye uas then [On_bye uiTxId sipRequest] else [],
                    uas\<lparr>uas_dialogManager := dm\<rparr>)))"

definition processRequestOutsideOfDialog :: "SipMessage \<Rightarrow> u32 \<Rightarrow> SipMessage \<Rightarrow> UserAgentServer \<Rightarrow> process_result" where
  "processRequestOutsideOfDialog sipRequest uiTxId sipResponse uas =
     (if \<not> isMethodAllowed (sm_eMethod sipRequest) then Inr (True, setResponseCode 405 sipResponse, [], uas)
      else case sm_eMethod sipRequest of
        REGISTER \<Rightarrow>
          Inr (False, case uas_onRegister uas of Some handler \<Rightarrow> handler uiTxId sipRequest sipResponse
                      | None \<Rightarrow> setResponseCode 500 sipResponse, [], uas)
      | INVITE \<Rightarrow> if uas_onInvite uas then Inr (False, sipResponse, [On_invite uiTxId sipRequest], uas) else Inl Assertion_failed
      | ACK \<Rightarrow> Inr (False, sipResponse, [], uas)
      | BYE \<Rightarrow> Inr (False, sipResponse, [], uas)
      | _ \<Rightarrow> Inl Assertion_failed)"

text \<open>The flag keeps its value unless it is set to true; an INVITE transaction passes it as false.\<close>

definition processIncomingRequestFromTransactionLayer :: "externals \<Rightarrow> SipMessage \<Rightarrow> u32 \<Rightarrow> SipMessage \<Rightarrow> UserAgentServer \<Rightarrow> process_result" where
  "processIncomingRequestFromTransactionLayer x sipRequest uiTxId sipResponse uas =
     (case getHeaderField ''To'' sipRequest of
        None \<Rightarrow> Inl Assertion_failed
      | Some to \<Rightarrow>
          if contains to ''tag='' then processRequestInsideOfDialog x sipRequest uiTxId sipResponse uas
          else processRequestOutsideOfDialog sipRequest uiTxId sipResponse uas)"

text \<open>Completes the topmost Via field: the address of the sender, and the port if it asked for it.\<close>

definition annotate_via :: "(string \<Rightarrow> string list) \<Rightarrow> externals \<Rightarrow> string \<Rightarrow> u16 \<Rightarrow> SipMessage \<Rightarrow> fault + SipMessage" where
  "annotate_via raw_attributes x sSource uiPort sipRequest =
     (let request = snd (appendToHeaderField ''Via'' (''received='' @ sSource) sipRequest) in
      if hasAttribute (ext_attributes x) ''Via'' ''rport'' request
      then case getTopMostVia request of
             Inl f \<Rightarrow> Inl f
           | Inr sTopMostVia \<Rightarrow>
               setTopMostVia (join_with CHR '';''
                 (map (\<lambda>a. if contains a ''rport'' then a @ ''='' @ decimal (unat uiPort) else a) (raw_attributes sTopMostVia))) request
      else Inr request)"

text \<open>Whether a request belongs to a server transaction.\<close>

definition same_branch :: "externals \<Rightarrow> SipMessage \<Rightarrow> SipMessage \<Rightarrow> fault + bool" where
  "same_branch x sipRequest original =
     (case matchHeaderFieldAttribute (ext_attributes x) ''Via'' ''branch'' original sipRequest of
        Inl f \<Rightarrow> Inl f
      | Inr False \<Rightarrow> Inr False
      | Inr True \<Rightarrow>
          (case getSentByInTopMostVia (ext_attributes x) sipRequest of
             Inl f \<Rightarrow> Inl f
           | Inr s1 \<Rightarrow> (case getSentByInTopMostVia (ext_attributes x) original of Inl f \<Rightarrow> Inl f | Inr s2 \<Rightarrow> Inr (s1 = s2))))"

definition matches_method :: "SipMessage \<Rightarrow> SipMessage \<Rightarrow> bool" where
  "matches_method sipRequest original =
     (if sm_sMethod original = ''INVITE'' then sm_sMethod sipRequest = ''ACK'' else sm_sMethod original = sm_sMethod sipRequest)"

fun find_transaction :: "externals \<Rightarrow> SipMessage \<Rightarrow> (u32 \<times> ServerTransaction) list \<Rightarrow> fault + (u32 \<times> ServerTransaction) option" where
  "find_transaction x sipRequest [] = Inr None"
| "find_transaction x sipRequest (p # ps) =
     (case same_branch x sipRequest (st_request (snd p)) of
        Inl f \<Rightarrow> Inl f
      | Inr b \<Rightarrow> if b \<and> matches_method sipRequest (st_request (snd p)) then Inr (Some p) else find_transaction x sipRequest ps)"

definition handleIncomingRequestFromTransportLayer ::
  "(string \<Rightarrow> string list) \<Rightarrow> externals \<Rightarrow> string \<Rightarrow> bool \<Rightarrow> SipMessage \<Rightarrow> string \<Rightarrow> u16 \<Rightarrow> TransactionProtocol \<Rightarrow> UserAgentServer \<Rightarrow>
   fault + ua_output list \<times> UserAgentServer" where
  "handleIncomingRequestFromTransportLayer raw_attributes x sRandom bSent sipRequest sSource uiPort eProtocol uas =
     (case annotate_via raw_attributes x sSource uiPort sipRequest of
        Inl f \<Rightarrow> Inl f
      | Inr request \<Rightarrow>
          (case getBranchParameter (ext_attributes x) request of
             None \<Rightarrow> Inr ([], uas)
           | Some branch \<Rightarrow>
               if \<not> starts_with branch ''z9hG4bK'' then Inr ([], uas)
               else case find_transaction x request (tu_mServerTransactions uas) of
                 Inl f \<Rightarrow> Inl f
               | Inr (Some (uiTxId, st)) \<Rightarrow>
                   (case onRequestReceived request st of
                      Inl f \<Rightarrow> Inl f
                    | Inr (out, st') \<Rightarrow> Inr (map (Transaction_output uiTxId) out, store_server_result uiTxId out st' uas))
               | Inr None \<Rightarrow>
                   (case beginServerTransaction x sRandom bSent (processIncomingRequestFromTransactionLayer x request) request sSource uiPort eProtocol uas of
                      Inl f \<Rightarrow> Inl f
                    | Inr (uiTxId, out, uas') \<Rightarrow> Inr (out, uas'))))"

section \<open>Answers of the application\<close>

type_synonym ua_result = "fault + ua_error option \<times> ua_output list \<times> UserAgentServer"

text \<open>Generates a response with a code and sends it on a stored transaction.\<close>

definition respond_with :: "externals \<Rightarrow> string \<Rightarrow> bool \<Rightarrow> ResponseCode \<Rightarrow> u32 \<Rightarrow> UserAgentServer \<Rightarrow> ua_result" where
  "respond_with x sRandom bSent eCode uiTxId uas =
     (case map_of (tu_mServerTransactions uas) uiTxId of
        None \<Rightarrow> Inr (Some No_such_device, [], uas)
      | Some st \<Rightarrow>
          (case generateResponse (ext_attributes x) sRandom eCode st of
             Inl f \<Rightarrow> Inl f
           | Inr (sipResponse, st1) \<Rightarrow>
               (case sendResponse bSent sipResponse st1 of
                  Inl f \<Rightarrow> Inl f
                | Inr (bError, out, st2) \<Rightarrow>
                    Inr (None, map (Transaction_output uiTxId) out, store_server_result uiTxId out st2 uas))))"

definition ringing :: "externals \<Rightarrow> string \<Rightarrow> bool \<Rightarrow> u32 \<Rightarrow> UserAgentServer \<Rightarrow> ua_result" where
  "ringing x sRandom bSent uiTxId uas = respond_with x sRandom bSent 180 uiTxId uas"

definition reject :: "externals \<Rightarrow> string \<Rightarrow> bool \<Rightarrow> u32 \<Rightarrow> UserAgentServer \<Rightarrow> ua_result" where
  "reject x sRandom bSent uiTxId uas = respond_with x sRandom bSent 486 uiTxId uas"

text \<open>Accepting a call creates the dialog, then sends the response, which ends the transaction.\<close>

definition uas_accept :: "externals \<Rightarrow> string \<Rightarrow> bool \<Rightarrow> u32 \<Rightarrow> MessageBody \<Rightarrow> UserAgentServer \<Rightarrow> ua_result" where
  "uas_accept x sRandom bSent uiTxId sessionDescription uas =
     (case map_of (tu_mServerTransactions uas) uiTxId of
        None \<Rightarrow> Inr (Some No_such_device, [], uas)
      | Some st \<Rightarrow>
          (case generateResponse (ext_attributes x) sRandom 200 st of
             Inl f \<Rightarrow> Inl f
           | Inr (sipResponse0, st1) \<Rightarrow>
               let sipResponse = sipResponse0\<lparr>sm_messageBody := sessionDescription\<rparr> in
               (case createDialog x uiTxId (st_request st1) sipResponse False False (uas_dialogManager uas) of
                  Inl f \<Rightarrow> Inl f
                | Inr (did, dm) \<Rightarrow>
                    (case sendResponse bSent sipResponse st1 of
                       Inl f \<Rightarrow> Inl f
                     | Inr (bError, out, st2) \<Rightarrow>
                         (case getDialog did dm of
                            Inl f \<Rightarrow> Inl f
                          | Inr d \<Rightarrow>
                              Inr (None, map (Transaction_output uiTxId) out,
                                   (store_server_result uiTxId out st2 uas)\<lparr>uas_dialogManager := dm\<rparr>))))))"

end
