(* ===== verification/Server_Transaction_Props.thy ===== *)
theory Server_Transaction_Props
  imports Server_Transaction
begin

text \<open>
  What a SIP server transaction guarantees: which events it cannot handle, that it sends one final
  response, that it ends once, and that its responses carry one To tag.
\<close>

section \<open>The transition system\<close>

datatype st_event = Tu_response SipMessage bool | Tu_provisional SipMessage bool | Request SipMessage
  | Retransmission bool | Timer_G bool | Timer_H | Timer_I | Timer_J

text \<open>The user destroys a transaction that has terminated.\<close>

definition st_terminated :: "ServerTransaction \<Rightarrow> bool" where
  "st_terminated s \<longleftrightarrow> st_eInviteState s = STXS_TERMINATED \<or> st_eNonInviteState s = STXS_NI_TERMINATED"

definition st_enabled :: "st_event \<Rightarrow> ServerTransaction \<Rightarrow> bool" where
  "st_enabled e s = (case e of
     Timer_G b \<Rightarrow> st_timerG s \<noteq> None | Timer_H \<Rightarrow> st_timerH s \<noteq> None | Timer_I \<Rightarrow> st_timerI s \<noteq> None
   | Timer_J \<Rightarrow> st_timerJ s \<noteq> None
   | Tu_provisional r b \<Rightarrow> \<not> st_terminated s \<and> isResponseProvisional (sm_eResponseCode r)
   | _ \<Rightarrow> \<not> st_terminated s)"

definition st_handle :: "st_event \<Rightarrow> ServerTransaction \<Rightarrow> st_result" where
  "st_handle e s = (case e of
     Tu_response r b \<Rightarrow> ignore_error (sendResponse b r s)
   | Tu_provisional r b \<Rightarrow> ignore_error (sendProvisionalResponse b r s)
   | Request r \<Rightarrow> onRequestReceived r s
   | Retransmission b \<Rightarrow> onRequestRetransmissionReceived b s
   | Timer_G b \<Rightarrow> handleTimerGTimeout b (s\<lparr>st_timerG := None\<rparr>)
   | Timer_H \<Rightarrow> handleTimerHTimeout (s\<lparr>st_timerH := None\<rparr>)
   | Timer_I \<Rightarrow> handleTimerITimeout (s\<lparr>st_timerI := None\<rparr>)
   | Timer_J \<Rightarrow> handleTimerJTimeout (s\<lparr>st_timerJ := None\<rparr>))"

text \<open>
  An INVITE that the user answers at once gets a response of the classes 1xx to 6xx; the code 699
  belongs to none of the classes the program knows.
\<close>

definition known_response :: "ResponseCode \<Rightarrow> bool" where
  "known_response eCode \<longleftrightarrow> isResponseProvisional eCode \<or> isResponseSuccessfull eCode \<or> isFinalNonSuccessfulResponse eCode"

inductive st_reachable :: "ServerTransaction \<Rightarrow> st_output list \<Rightarrow> ServerTransaction \<Rightarrow> bool" for s0 where
  start: "\<lbrakk>bWill \<longrightarrow> known_response (sm_eResponseCode response); answer_request bSent bWill response s0 = Inr (out, s)\<rbrakk> \<Longrightarrow>
    st_reachable s0 out s"
| step: "\<lbrakk>st_reachable s0 out s; st_enabled e s; st_handle e s = Inr (out', s')\<rbrakk> \<Longrightarrow> st_reachable s0 (out @ out') s'"

text \<open>The state in which the constructor asks the user, for any To tag drawn by then.\<close>

definition st_fresh :: "ServerTransaction \<Rightarrow> bool" where
  "st_fresh s \<longleftrightarrow> (\<exists>localContext sipRequest sSource uiPort eProtocol tag.
     s = ServerTransaction_new localContext sipRequest sSource uiPort eProtocol \<lparr>st_toTag := tag\<rparr>)"

section \<open>The invariant\<close>

text \<open>Which timers are pending in which state, and what has been handed to the transport and the user.\<close>

definition responses :: "st_output list \<Rightarrow> SipMessage list" where
  "responses out = concat (map (\<lambda>x. case x of Respond m a p t \<Rightarrow> [m] | _ \<Rightarrow> []) out)"

definition st_timers :: "ServerTransaction \<Rightarrow> bool" where
  "st_timers s \<longleftrightarrow> st_eNonInviteState s \<noteq> STXS_NI_TERMINATED
   \<and> st_timerGIntervalMs s = INTERVAL_T1_DEFAULT_MS \<and> st_timerG s \<in> {None, Some INTERVAL_T1_DEFAULT_MS}
   \<and> (st_eTxType s = CT_INVITE \<longrightarrow> st_timerJ s = None
       \<and> (st_timerG s \<noteq> None \<longrightarrow> st_eInviteState s = STXS_COMPLETED \<or> st_eInviteState s = STXS_CONFIRMED)
       \<and> (st_timerH s \<noteq> None \<longleftrightarrow> st_eInviteState s = STXS_COMPLETED)
       \<and> (st_timerI s \<noteq> None \<longleftrightarrow> st_eInviteState s = STXS_CONFIRMED))
   \<and> (st_eTxType s = CT_NON_INVITE \<longrightarrow> st_timerG s = None \<and> st_timerH s = None \<and> st_timerI s = None
       \<and> st_eInviteState s \<in> {STXS_PROCEEDING, STXS_TERMINATED}
       \<and> (st_eInviteState s = STXS_TERMINATED \<longrightarrow> st_eNonInviteState s = STXS_NI_COMPLETED)
       \<and> (st_timerJ s \<noteq> None \<longleftrightarrow> st_eNonInviteState s = STXS_NI_COMPLETED \<and> st_eInviteState s \<noteq> STXS_TERMINATED))"

definition st_completed :: "ServerTransaction \<Rightarrow> bool" where
  "st_completed s \<longleftrightarrow> (if st_eTxType s = CT_INVITE then st_eInviteState s \<noteq> STXS_PROCEEDING
     else st_eNonInviteState s \<in> {STXS_NI_COMPLETED, STXS_NI_TERMINATED})"

definition st_answered :: "st_output list \<Rightarrow> ServerTransaction \<Rightarrow> bool" where
  "st_answered out s \<longleftrightarrow>
     (\<exists>ps n. responses out = ps @ replicate n (st_finalSipResponse s)
        \<and> (\<forall>p\<in>set ps. isResponseProvisional (sm_eResponseCode p))
        \<and> (st_completed s \<longleftrightarrow> n > 0)
        \<and> (st_eTxType s = CT_NON_INVITE \<longrightarrow> n \<le> 1))
   \<and> (st_completed s \<longrightarrow> isResponseFinal (sm_eResponseCode (st_finalSipResponse s)))
   \<and> (\<not> st_completed s \<and> \<not> (st_eTxType s = CT_NON_INVITE \<and> st_eNonInviteState s = STXS_NI_TRYING) \<longrightarrow>
        isResponseProvisional (sm_eResponseCode (st_mostRecentProvisionalSipResponse s)))
   \<and> count_list out Report_terminated = (if st_terminated s then 1 else 0)"

definition st_inv :: "st_output list \<Rightarrow> ServerTransaction \<Rightarrow> bool" where
  "st_inv out s \<longleftrightarrow> st_timers s \<and> st_answered out s"

lemma responses_simps [simp]:
  "responses [] = []" "responses (out @ out') = responses out @ responses out'"
  "responses (Respond m a p t # out) = m # responses out" "responses (Report_failure # out) = responses out"
  "responses (Report_terminated # out) = responses out" "responses (respond m s # out) = m # responses out"
  by (simp_all add: responses_def respond_def)

lemma respond_not_terminated [simp]: "respond m s \<noteq> Report_terminated" "Report_terminated \<noteq> respond m s"
  by (simp_all add: respond_def)

subsection \<open>How an event extends what was sent\<close>

lemma answered_frame:
  assumes "st_answered out s" and "responses out' = []" "count_list out' Report_terminated = 0"
    and "st_eTxType s' = st_eTxType s" "st_completed s' = st_completed s" "st_finalSipResponse s' = st_finalSipResponse s"
    and "st_mostRecentProvisionalSipResponse s' = st_mostRecentProvisionalSipResponse s"
    and "st_eNonInviteState s' = st_eNonInviteState s" "st_terminated s' = st_terminated s"
  shows "st_answered (out @ out') s'"
  using assms unfolding st_answered_def by simp

lemma answered_provisional:
  assumes a: "st_answered out s" and "responses out' = [p]" "count_list out' Report_terminated = 0"
    and "isResponseProvisional (sm_eResponseCode p)" "\<not> st_completed s" "\<not> st_completed s'" "\<not> st_terminated s" "\<not> st_terminated s'"
    and "st_eTxType s' = st_eTxType s" "st_mostRecentProvisionalSipResponse s' = p"
  shows "st_answered (out @ out') s'"
proof -
  obtain ps where "responses out = ps" "\<forall>p\<in>set ps. isResponseProvisional (sm_eResponseCode p)"
    using a assms(5) unfolding st_answered_def by auto
  then have "responses (out @ out') = (ps @ [p]) @ replicate 0 (st_finalSipResponse s')
      \<and> (\<forall>q\<in>set (ps @ [p]). isResponseProvisional (sm_eResponseCode q))"
    using assms(2,4) by simp
  then show ?thesis
    using assms unfolding st_answered_def by (intro conjI exI [of _ "ps @ [p]"] exI [of _ 0]) simp_all
qed

lemma answered_final:
  assumes a: "st_answered out s" and "responses out' = [r]" and "count_list out' Report_terminated = (if st_terminated s' then 1 else 0)"
    and "isResponseFinal (sm_eResponseCode r)" "\<not> st_completed s" "st_completed s'" "\<not> st_terminated s"
    and "st_finalSipResponse s' = r"
  shows "st_answered (out @ out') s'"
proof -
  obtain ps where "responses out = ps" "\<forall>p\<in>set ps. isResponseProvisional (sm_eResponseCode p)"
    using a assms(5) unfolding st_answered_def by auto
  then show ?thesis
    using assms unfolding st_answered_def by (intro conjI exI [of _ ps] exI [of _ 1]) simp_all
qed

lemma answered_again:
  assumes a: "st_answered out s" and "responses out' = [st_finalSipResponse s]" "count_list out' Report_terminated = 0"
    and "st_completed s" "st_completed s'" "st_eTxType s = CT_INVITE" "st_eTxType s' = CT_INVITE"
    and "st_finalSipResponse s' = st_finalSipResponse s" "st_terminated s' = st_terminated s"
  shows "st_answered (out @ out') s'"
proof -
  obtain ps n where "responses out = ps @ replicate n (st_finalSipResponse s)" "\<forall>p\<in>set ps. isResponseProvisional (sm_eResponseCode p)"
    using a unfolding st_answered_def by auto
  then show ?thesis
    using assms unfolding st_answered_def
    by (intro conjI exI [of _ ps] exI [of _ "Suc n"]) (simp_all flip: replicate_append_same)
qed

lemma answered_end:
  assumes a: "st_answered out s" and "responses out' = []" "count_list out' Report_terminated = 1"
    and "st_completed s" "st_completed s'" "st_eTxType s' = st_eTxType s"
    and "st_finalSipResponse s' = st_finalSipResponse s" "\<not> st_terminated s" "st_terminated s'"
  shows "st_answered (out @ out') s'"
  using assms unfolding st_answered_def by simp

lemmas st_state_defs = updateInviteState_def updateNonInviteState_def after_output_def returning_def report_error_def
  ignore_error_def Let_def

lemmas st_shape_defs = st_completed_def st_terminated_def

lemma sendProvisionalResponse_keeps:
  assumes inv: "st_inv out s" and live: "\<not> st_terminated s" and p: "isResponseProvisional (sm_eResponseCode r)"
    and res: "sendProvisionalResponse b r s = Inr (e, out', s')"
  shows "st_inv (out @ out') s'"
proof -
  have open_: "\<not> st_completed s" and sent: "out' = [respond r s]" and t: "st_timers s'"
    and s': "\<not> st_completed s'" "\<not> st_terminated s'" "st_eTxType s' = st_eTxType s" "st_mostRecentProvisionalSipResponse s' = r"
    using res live inv unfolding st_inv_def st_timers_def
    by (auto simp: sendProvisionalResponse_def st_state_defs st_shape_defs
        split: CtType.splits ServerInviteTransactionState.splits ServerNonInviteTransactionState.splits)
  have "st_answered (out @ out') s'"
    using inv live p open_ s' unfolding st_inv_def sent by (intro answered_provisional [of out s]) simp_all
  with t show ?thesis by (simp add: st_inv_def)
qed

lemma sendFinalInvite_keeps:
  assumes inv: "st_inv out s" and live: "\<not> st_terminated s" and ty: "st_eTxType s = CT_INVITE" "st_eInviteState s = STXS_PROCEEDING"
    and res: "sendFinalInvite r s = Inr (out', s')"
  shows "st_inv (out @ out') s'"
proof (cases "isResponseSuccessfull (sm_eResponseCode r) \<or> isFinalNonSuccessfulResponse (sm_eResponseCode r)")
  case True
  then have final: "isResponseFinal (sm_eResponseCode r)" by (auto simp: code_defs)
  have open_: "\<not> st_completed s" using ty by (simp add: st_completed_def)
  have "responses out' = [r] \<and> count_list out' Report_terminated = (if st_terminated s' then 1 else 0)
      \<and> st_completed s' \<and> st_finalSipResponse s' = r"
    using True res ty live by (auto simp: sendFinalInvite_def st_state_defs st_shape_defs split: if_splits)
  then have "st_answered (out @ out') s'"
    using inv live final open_ by (intro answered_final [of out s]) (simp_all add: st_inv_def)
  moreover have "st_timers s'"
    using True res ty inv unfolding st_inv_def st_timers_def by (auto simp: sendFinalInvite_def st_state_defs split: if_splits)
  ultimately show ?thesis by (simp add: st_inv_def)
next
  case False
  then show ?thesis using res inv by (simp add: sendFinalInvite_def Let_def)
qed

lemma sendFinalNonInvite_keeps:
  assumes inv: "st_inv out s" and live: "\<not> st_terminated s" and ty: "st_eTxType s = CT_NON_INVITE"
    and st: "st_eNonInviteState s = STXS_NI_TRYING \<or> st_eNonInviteState s = STXS_NI_PROCEEDING"
    and res: "sendFinalNonInvite r s = Inr (out', s')"
  shows "st_inv (out @ out') s'"
proof (cases "isResponseFinal (sm_eResponseCode r)")
  case True
  have open_: "\<not> st_completed s" using ty st by (auto simp: st_completed_def)
  have "responses out' = [r] \<and> count_list out' Report_terminated = (if st_terminated s' then 1 else 0)
      \<and> st_completed s' \<and> st_finalSipResponse s' = r"
    using True res ty live by (auto simp: sendFinalNonInvite_def st_state_defs st_shape_defs split: if_splits)
  then have "st_answered (out @ out') s'"
    using inv live True open_ by (intro answered_final [of out s]) (simp_all add: st_inv_def)
  moreover have "st_timers s'"
    using True res ty live inv unfolding st_inv_def st_timers_def
    by (auto simp: sendFinalNonInvite_def st_state_defs st_terminated_def split: if_splits)
  ultimately show ?thesis by (simp add: st_inv_def)
next
  case False
  then show ?thesis using res inv by (simp add: sendFinalNonInvite_def Let_def)
qed

lemma sendResponse_keeps:
  assumes inv: "st_inv out s" and live: "\<not> st_terminated s" and res: "sendResponse b r s = Inr (e, out', s')"
  shows "st_inv (out @ out') s'"
proof (cases "isResponseProvisional (sm_eResponseCode r)")
  case True
  then show ?thesis using res by (auto simp: sendResponse_def intro: sendProvisionalResponse_keeps [OF inv live True])
next
  case False
  show ?thesis
  proof (cases "st_eTxType s")
    case CT_INVITE
    then have "sendFinalInvite r s = Inr (out', s')" and "st_eInviteState s = STXS_PROCEEDING"
      using res False by (auto simp: sendResponse_def returning_def split: ServerInviteTransactionState.splits sum.splits)
    then show ?thesis using sendFinalInvite_keeps [OF inv live CT_INVITE] by simp
  next
    case CT_NON_INVITE
    then have "(sendFinalNonInvite r s = Inr (out', s') \<and> (st_eNonInviteState s = STXS_NI_TRYING \<or> st_eNonInviteState s = STXS_NI_PROCEEDING))
        \<or> (out' = [] \<and> s' = s)"
      using res False by (auto simp: sendResponse_def returning_def split: ServerNonInviteTransactionState.splits sum.splits)
    then show ?thesis using sendFinalNonInvite_keeps [OF inv live CT_NON_INVITE] inv by auto
  qed
qed

lemma onRequestReceived_keeps:
  assumes inv: "st_inv out s" and res: "onRequestReceived r s = Inr (out', s')"
  shows "st_inv (out @ out') s'"
proof -
  have t: "st_timers s'" and frame: "out' = []" "st_eTxType s' = st_eTxType s" "st_completed s' = st_completed s"
      "st_finalSipResponse s' = st_finalSipResponse s" "st_mostRecentProvisionalSipResponse s' = st_mostRecentProvisionalSipResponse s"
      "st_eNonInviteState s' = st_eNonInviteState s" "st_terminated s' = st_terminated s"
    using res inv unfolding st_inv_def st_timers_def
    by (auto simp: onRequestReceived_def onAckReceived_def st_state_defs st_shape_defs
        split: if_splits ServerInviteTransactionState.splits)
  have "st_answered (out @ out') s'"
    using inv frame by (intro answered_frame [of out s]) (simp_all add: st_inv_def)
  with t show ?thesis by (simp add: st_inv_def)
qed

lemma ignore_error_InrD: "ignore_error r = Inr (out, s) \<Longrightarrow> \<exists>e. r = Inr (e, out, s)"
  by (auto simp: ignore_error_def split: sum.splits)

lemma onRequestRetransmissionReceived_keeps:
  assumes inv: "st_inv out s" and live: "\<not> st_terminated s" and res: "onRequestRetransmissionReceived b s = Inr (out', s')"
  shows "st_inv (out @ out') s'"
proof (cases "out' = [] \<and> s' = s")
  case False
  let ?p = "st_mostRecentProvisionalSipResponse s" and ?f = "st_finalSipResponse s"
  have cases: "(ignore_error (sendProvisionalResponse b ?p s) = Inr (out', s') \<and> isResponseProvisional (sm_eResponseCode ?p))
      \<or> ignore_error (sendResponse b ?f s) = Inr (out', s')"
    using False res inv unfolding st_inv_def st_answered_def
    by (auto simp: onRequestRetransmissionReceived_def st_completed_def
        split: CtType.splits ServerInviteTransactionState.splits ServerNonInviteTransactionState.splits)
  then show ?thesis
    using sendProvisionalResponse_keeps [OF inv live] sendResponse_keeps [OF inv live] ignore_error_InrD by metis
qed (use inv in simp)

lemma timerG_keeps:
  assumes inv: "st_inv out s" and en: "st_timerG s \<noteq> None"
    and res: "handleTimerGTimeout b (s\<lparr>st_timerG := None\<rparr>) = Inr (out', s')"
  shows "st_inv (out @ out') s'"
proof -
  have T: "st_timers s" and A: "st_answered out s" using inv by (simp_all add: st_inv_def)
  have ty: "st_eTxType s = CT_INVITE" and st: "st_eInviteState s = STXS_COMPLETED \<or> st_eInviteState s = STXS_CONFIRMED"
    using T en unfolding st_timers_def by (cases "st_eTxType s"; simp)+
  have T': "st_timers s'"
    using T ty st res unfolding st_timers_def by (auto simp: handleTimerGTimeout_def Let_def interval_defs)
  show ?thesis
  proof (cases "st_eInviteState s = STXS_COMPLETED")
    case True
    then have "st_answered (out @ out') s'"
      using res ty by (intro answered_again [OF A]) (auto simp: handleTimerGTimeout_def Let_def st_shape_defs)
    with T' show ?thesis by (simp add: st_inv_def)
  next
    case False
    then have "st_answered (out @ out') s'"
      using res st by (intro answered_frame [OF A]) (auto simp: handleTimerGTimeout_def st_shape_defs)
    with T' show ?thesis by (simp add: st_inv_def)
  qed
qed

lemma ending_keeps:
  assumes inv: "st_inv out s" and live: "\<not> st_terminated s" and c: "st_completed s"
    and t: "t = s\<lparr>st_timerJ := None\<rparr> \<or> st_eTxType s = CT_INVITE \<and> (t = s\<lparr>st_timerI := None\<rparr> \<or> t = s\<lparr>st_timerH := None\<rparr>)"
    and res: "updateInviteState STXS_TERMINATED t = Inr (out', s')" and out: "out'' = out' \<or> out'' = Report_failure # out'"
  shows "st_inv (out @ out'') s'"
proof -
  have A: "st_answered out s" using inv by (simp add: st_inv_def)
  have o: "out' = [Report_terminated]"
    and s': "s' = t\<lparr>st_eInviteState := STXS_TERMINATED, st_timerG := None, st_timerH := None, st_timerI := None\<rparr>"
    using res by (auto simp: st_state_defs)
  have T: "st_timers s'" if "st_eTxType s = CT_INVITE"
    using inv t that unfolding s' st_inv_def st_timers_def by (elim conjE disjE) simp_all
  have "st_timers s'" if "st_eTxType s = CT_NON_INVITE"
    using inv t that c live unfolding s' st_inv_def st_timers_def st_shape_defs by (elim conjE disjE) simp_all
  with T have "st_timers s'" by (cases "st_eTxType s") simp_all
  moreover have "st_answered (out @ out'') s'"
    using c live t out unfolding o by (intro answered_end [OF A]) (auto simp: s' st_shape_defs)
  ultimately show ?thesis by (simp add: st_inv_def)
qed

lemma timerH_keeps:
  assumes inv: "st_inv out s" and en: "st_timerH s \<noteq> None"
    and res: "handleTimerHTimeout (s\<lparr>st_timerH := None\<rparr>) = Inr (out', s')"
  shows "st_inv (out @ out') s'"
proof -
  have ty: "st_eTxType s = CT_INVITE" and st: "st_eInviteState s = STXS_COMPLETED" and ni: "st_eNonInviteState s \<noteq> STXS_NI_TERMINATED"
    using inv en unfolding st_inv_def st_timers_def by (cases "st_eTxType s"; simp)+
  obtain o1 where "updateInviteState STXS_TERMINATED (s\<lparr>st_timerH := None\<rparr>) = Inr (o1, s')" "out' = Report_failure # o1"
    using res ty st by (auto simp: handleTimerHTimeout_def after_output_def split: sum.splits)
  then show ?thesis using ending_keeps [OF inv, of "s\<lparr>st_timerH := None\<rparr>" o1 s' out'] ty st ni by (simp add: st_shape_defs)
qed

lemma timerI_keeps:
  assumes inv: "st_inv out s" and en: "st_timerI s \<noteq> None"
    and res: "handleTimerITimeout (s\<lparr>st_timerI := None\<rparr>) = Inr (out', s')"
  shows "st_inv (out @ out') s'"
proof -
  have ty: "st_eTxType s = CT_INVITE" and st: "st_eInviteState s = STXS_CONFIRMED" and ni: "st_eNonInviteState s \<noteq> STXS_NI_TERMINATED"
    using inv en unfolding st_inv_def st_timers_def by (cases "st_eTxType s"; simp)+
  then show ?thesis using ending_keeps [OF inv _ _ _ res [unfolded handleTimerITimeout_def]] by (simp add: st_shape_defs)
qed

lemma timerJ_keeps:
  assumes inv: "st_inv out s" and en: "st_timerJ s \<noteq> None"
    and res: "handleTimerJTimeout (s\<lparr>st_timerJ := None\<rparr>) = Inr (out', s')"
  shows "st_inv (out @ out') s'"
proof -
  have ty: "st_eTxType s = CT_NON_INVITE" and st: "st_eNonInviteState s = STXS_NI_COMPLETED" "st_eInviteState s \<noteq> STXS_TERMINATED"
    using inv en unfolding st_inv_def st_timers_def by (cases "st_eTxType s"; simp)+
  then show ?thesis using ending_keeps [OF inv _ _ _ res [unfolded handleTimerJTimeout_def]] by (simp add: st_shape_defs)
qed

lemma st_handle_keeps:
  assumes inv: "st_inv out s" and en: "st_enabled e s" and res: "st_handle e s = Inr (out', s')"
  shows "st_inv (out @ out') s'"
proof (cases e)
  case (Tu_response r b)
  then obtain x where "sendResponse b r s = Inr (x, out', s')" using res ignore_error_InrD by (fastforce simp: st_handle_def)
  then show ?thesis using sendResponse_keeps [OF inv] en Tu_response by (simp add: st_enabled_def)
next
  case (Tu_provisional r b)
  then obtain x where "sendProvisionalResponse b r s = Inr (x, out', s')" using res ignore_error_InrD by (fastforce simp: st_handle_def)
  then show ?thesis using sendProvisionalResponse_keeps [OF inv, of r b x out' s'] en Tu_provisional by (simp add: st_enabled_def)
next
  case (Request r)
  then show ?thesis using onRequestReceived_keeps [OF inv] res by (simp add: st_handle_def)
next
  case (Retransmission b)
  then show ?thesis using onRequestRetransmissionReceived_keeps [OF inv] res en by (simp add: st_handle_def st_enabled_def)
next
  case (Timer_G b)
  then show ?thesis using timerG_keeps [OF inv] res en by (simp add: st_handle_def st_enabled_def)
next
  case Timer_H
  then show ?thesis using timerH_keeps [OF inv] res en by (simp add: st_handle_def st_enabled_def)
next
  case Timer_I
  then show ?thesis using timerI_keeps [OF inv] res en by (simp add: st_handle_def st_enabled_def)
next
  case Timer_J
  then show ?thesis using timerJ_keeps [OF inv] res en by (simp add: st_handle_def st_enabled_def)
qed

lemma st_fresh_simps:
  assumes "st_fresh s"
  shows "st_eInviteState s = STXS_PROCEEDING" "st_eNonInviteState s = STXS_NI_TRYING" "\<not> st_terminated s" "\<not> st_completed s" "st_timers s"
  using assms by (auto simp: st_fresh_def ServerTransaction_new_def st_shape_defs st_timers_def)

lemma fresh_inv:
  assumes f: "st_fresh s" and p: "st_eTxType s = CT_INVITE \<Longrightarrow> isResponseProvisional (sm_eResponseCode (st_mostRecentProvisionalSipResponse s'))"
    and s': "s' = s \<or> s' = s\<lparr>st_mostRecentProvisionalSipResponse := x\<rparr> \<or> s' = s\<lparr>st_finalSipResponse := x\<rparr>"
  shows "st_inv [] s'"
proof -
  have same: "st_eTxType s' = st_eTxType s" "st_eInviteState s' = st_eInviteState s" "st_eNonInviteState s' = st_eNonInviteState s"
      "st_timers s' = st_timers s"
    using s' by (elim disjE; simp add: st_timers_def)+
  note fresh = st_fresh_simps [OF f]
  have "\<not> st_completed s'" "\<not> st_terminated s'" using fresh same by (simp_all add: st_shape_defs)
  then have "st_answered [] s'"
    using fresh same p unfolding st_answered_def by (cases "st_eTxType s") simp_all
  moreover have "st_timers s'" using fresh same by simp
  ultimately show ?thesis by (simp add: st_inv_def)
qed

lemma report_error_InrD: "report_error r = Inr (out, s) \<Longrightarrow> \<exists>e out'. r = Inr (e, out', s) \<and> (out = out' \<or> out = out' @ [Report_failure])"
  by (auto simp: report_error_def split: sum.splits if_splits)

lemma st_inv_report_failure: "st_inv (out @ [Report_failure]) s = st_inv out s"
  by (simp add: st_inv_def st_answered_def)

lemma answer_provisional_inv:
  assumes f: "st_fresh s" and p: "isResponseProvisional (sm_eResponseCode r)" and res: "answer_provisional b r s = Inr (out, s')"
  shows "st_inv out s'"
proof -
  let ?s = "s\<lparr>st_mostRecentProvisionalSipResponse := r\<rparr>"
  obtain e o1 where "sendProvisionalResponse b r ?s = Inr (e, o1, s')" "out = o1 \<or> out = o1 @ [Report_failure]"
    using res report_error_InrD unfolding answer_provisional_def by blast
  moreover have "st_inv [] ?s" using p by (intro fresh_inv [OF f, of _ r]) simp_all
  moreover have "\<not> st_terminated ?s" using st_fresh_simps(3) [OF f] by (simp add: st_terminated_def)
  ultimately show ?thesis using sendProvisionalResponse_keeps [of "[]" ?s r b e o1 s'] p by (auto simp: st_inv_report_failure)
qed

lemma answer_final_inv:
  assumes f: "st_fresh s" and np: "\<not> isResponseProvisional (sm_eResponseCode r)" and k: "st_eTxType s = CT_INVITE \<Longrightarrow> known_response (sm_eResponseCode r)"
    and res: "answer_final b r s = Inr (out, s')"
  shows "st_inv out s'"
proof -
  let ?s = "s\<lparr>st_finalSipResponse := r\<rparr>"
  obtain e o1 where send: "sendResponse b r ?s = Inr (e, o1, s')" and out: "out = o1 \<or> out = o1 @ [Report_failure]"
    using res report_error_InrD unfolding answer_final_def by blast
  note fresh = st_fresh_simps [OF f]
  have "st_inv o1 s'"
  proof (cases "st_eTxType s")
    case CT_INVITE
    then have fin: "sendFinalInvite r ?s = Inr (o1, s')"
      using send np fresh by (auto simp: sendResponse_def returning_def split: sum.splits)
    have code: "isResponseSuccessfull (sm_eResponseCode r) \<or> isFinalNonSuccessfulResponse (sm_eResponseCode r)"
      using k [OF CT_INVITE] np by (simp add: known_response_def)
    then have "isResponseFinal (sm_eResponseCode r)" by (auto simp: code_defs)
    moreover have "responses o1 = [r] \<and> count_list o1 Report_terminated = (if st_terminated s' then 1 else 0)
        \<and> st_completed s' \<and> st_finalSipResponse s' = r \<and> st_eTxType s' = CT_INVITE"
      using fin code CT_INVITE fresh by (auto simp: sendFinalInvite_def st_state_defs st_shape_defs split: if_splits)
    ultimately have "st_answered o1 s'"
      unfolding st_answered_def by (intro conjI exI [of _ "[]"] exI [of _ 1]) simp_all
    moreover have "st_timers s'"
      using fin code CT_INVITE fresh unfolding st_timers_def by (auto simp: sendFinalInvite_def st_state_defs split: if_splits)
    ultimately show ?thesis by (simp add: st_inv_def)
  next
    case CT_NON_INVITE
    then have "st_inv [] ?s" by (intro fresh_inv [OF f, of _ r]) simp_all
    moreover have "\<not> st_terminated ?s" using fresh by (simp add: st_terminated_def)
    ultimately show ?thesis using sendResponse_keeps [of "[]" ?s b r e o1 s'] send by simp
  qed
  then show ?thesis using out by (auto simp: st_inv_report_failure)
qed

lemma answer_request_inv:
  assumes f: "st_fresh s" and k: "bWill \<longrightarrow> known_response (sm_eResponseCode r)" and res: "answer_request b bWill r s = Inr (out, s')"
  shows "st_inv out s'"
proof (cases "st_eTxType s")
  case CT_INVITE
  show ?thesis
  proof (cases bWill)
    case True
    then show ?thesis
      using res k CT_INVITE answer_provisional_inv [OF f, of r b out s'] answer_final_inv [OF f, of r b out s']
      by (auto simp: answer_request_def split: if_splits)
  next
    case False
    then have "answer_provisional b (setResponseCode TRYING r) s = Inr (out, s')" using res CT_INVITE by (simp add: answer_request_def)
    then show ?thesis by (rule answer_provisional_inv [OF f, rotated]) (simp add: setResponseCode_def code_defs)
  qed
next
  case CT_NON_INVITE
  then have "st_inv [] s" by (intro fresh_inv [OF f]) simp_all
  then show ?thesis
    using res CT_NON_INVITE answer_provisional_inv [OF f, of r b out s'] answer_final_inv [OF f, of r b out s']
    by (auto simp: answer_request_def split: if_splits)
qed

lemma st_reachable_inv:
  assumes "st_reachable s0 out s" and f: "st_fresh s0"
  shows "st_inv out s"
  using assms(1)
proof (induction rule: st_reachable.induct)
  case (start bWill response bSent out s)
  then show ?case using answer_request_inv [OF f] by blast
next
  case (step out s e out' s')
  then show ?case using st_handle_keeps by blast
qed

section \<open>Properties\<close>

text \<open>The events a transaction cannot handle.\<close>

definition st_asserts :: "st_event \<Rightarrow> ServerTransaction \<Rightarrow> bool" where
  "st_asserts e s = (case e of
     Tu_response r b \<Rightarrow> (if st_eTxType s = CT_INVITE then st_eInviteState s \<noteq> STXS_PROCEEDING
                         else st_eNonInviteState s = STXS_NI_COMPLETED \<and> isResponseProvisional (sm_eResponseCode r))
   | Tu_provisional r b \<Rightarrow> st_completed s
   | Request r \<Rightarrow> sm_eMethod r = ACK \<and> \<not> (st_eTxType s = CT_INVITE \<and> st_eInviteState s = STXS_COMPLETED)
   | Retransmission b \<Rightarrow> st_eTxType s = CT_INVITE \<and> st_eInviteState s = STXS_COMPLETED
   | _ \<Rightarrow> False)"

definition sample_context :: SipContext where
  "sample_context = \<lparr>sc_User = ''bob'', sc_FQDN = ''h'', sc_Domain = ''d'', sc_Secure = False, sc_SipPort = 5060\<rparr>"

definition sample_server :: ServerTransaction where
  "sample_server = ServerTransaction_new sample_context sample_request ''a'' 5060 TP_UDP"

lemma sample_server_fresh: "st_fresh sample_server"
proof -
  have "sample_server = sample_server\<lparr>st_toTag := None\<rparr>" by (simp add: sample_server_def ServerTransaction_new_def)
  then show ?thesis unfolding st_fresh_def sample_server_def by blast
qed

definition busy_response :: SipMessage where
  "busy_response = SipMessage_response 486"

text \<open>A rejected INVITE over UDP: the state once the response is sent, and once it is acknowledged.\<close>

definition sample_completed :: ServerTransaction where
  "sample_completed = sample_server\<lparr>st_finalSipResponse := busy_response, st_eInviteState := STXS_COMPLETED,
     st_timerH := Some (64 * INTERVAL_T1_DEFAULT_MS), st_timerG := Some INTERVAL_T1_DEFAULT_MS\<rparr>"

lemma sample_request_method: "sm_eMethod sample_request = INVITE"
  by (simp add: sample_request_def addHeaderField_def SipMessage_request_def)

lemma sample_completed_reachable: "st_reachable sample_server [Respond busy_response ''a'' 5060 TP_UDP] sample_completed"
  by (rule st_reachable.start [where bWill = True and response = busy_response and bSent = True])
    (simp_all add: busy_response_def SipMessage_response_def known_response_def code_defs answer_request_def answer_final_def
      sample_server_def ServerTransaction_new_def sample_request_method sendResponse_def sendFinalInvite_def st_state_defs
      respond_def isTransportUnreliable_def sample_completed_def SipMessage_new_def)

text \<open>
  The events a server transaction cannot handle. In a reachable state no timer fails an assertion;
  the other events do exactly when the user answers an INVITE that already has a final answer, or sends a
  provisional response after a final one; when an ACK reaches a transaction that is not an INVITE
  transaction in the Completed state, thus also a second ACK or one in the Proceeding state; and when
  the retransmission of an INVITE is reported in the Completed state.
\<close>

theorem server_asserts_exactly:
  assumes "st_fresh s0" and "st_reachable s0 out s" and "st_enabled e s"
  shows "(\<exists>f. st_handle e s = Inl f) = st_asserts e s"
proof -
  have T: "st_timers s" and A: "st_answered out s" using st_reachable_inv [OF assms(2,1)] by (simp_all add: st_inv_def)
  note send = sendProvisionalResponse_def sendResponse_def sendFinalInvite_def sendFinalNonInvite_def st_state_defs
  note timer = handleTimerGTimeout_def handleTimerHTimeout_def handleTimerITimeout_def handleTimerJTimeout_def
  show ?thesis
  proof (cases e)
    case (Retransmission b)
    have "st_eNonInviteState s = STXS_NI_COMPLETED \<and> st_eTxType s = CT_NON_INVITE \<longrightarrow> isResponseFinal (sm_eResponseCode (st_finalSipResponse s))"
      using A by (simp add: st_answered_def st_completed_def)
    then show ?thesis
      using Retransmission assms(3) unfolding st_handle_def st_asserts_def st_enabled_def
      by (cases "st_eTxType s"; cases "st_eInviteState s"; cases "st_eNonInviteState s")
        (auto simp: onRequestRetransmissionReceived_def st_terminated_def send code_defs)
  next
    case (Tu_response r b)
    then show ?thesis
      using assms(3) unfolding st_handle_def st_asserts_def st_enabled_def
      by (cases "st_eTxType s"; cases "st_eInviteState s"; cases "st_eNonInviteState s")
        (auto simp: st_terminated_def send)
  next
    case (Tu_provisional r b)
    then show ?thesis
      using assms(3) unfolding st_handle_def st_asserts_def st_enabled_def
      by (cases "st_eTxType s"; cases "st_eInviteState s"; cases "st_eNonInviteState s")
        (auto simp: st_shape_defs send)
  next
    case (Request r)
    then show ?thesis
      unfolding st_handle_def st_asserts_def
      by (cases "st_eTxType s"; cases "st_eInviteState s") (auto simp: onRequestReceived_def onAckReceived_def st_state_defs)
  qed (use T assms(3) in \<open>cases "st_eTxType s"; cases "st_eInviteState s";
        auto simp: st_handle_def st_asserts_def st_enabled_def timer st_timers_def st_state_defs\<close>)+
qed

theorem server_asserts_exactly_witness:
  "\<exists>f. st_handle (Retransmission True) sample_completed = Inl f"
proof -
  have "(\<exists>f. st_handle (Retransmission True) sample_completed = Inl f) = st_asserts (Retransmission True) sample_completed"
    by (rule server_asserts_exactly [OF sample_server_fresh sample_completed_reachable])
      (simp add: st_enabled_def st_terminated_def sample_completed_def sample_server_def ServerTransaction_new_def)
  then show ?thesis
    by (simp add: st_asserts_def sample_completed_def sample_server_def ServerTransaction_new_def sample_request_method)
qed

text \<open>A repeated request finds no answer once a non-INVITE transaction has completed.\<close>

lemma completed_request_not_answered_again:
  assumes "st_fresh s0" and "st_reachable s0 out s" and "st_eTxType s = CT_NON_INVITE" and "st_eNonInviteState s = STXS_NI_COMPLETED"
  shows "onRequestRetransmissionReceived b s = Inr ([], s)"
proof -
  have "isResponseFinal (sm_eResponseCode (st_finalSipResponse s))"
    using st_reachable_inv [OF assms(2,1)] assms(3,4) by (simp add: st_inv_def st_answered_def st_completed_def)
  then show ?thesis
    using assms(3,4) by (simp add: onRequestRetransmissionReceived_def sendResponse_def ignore_error_def code_defs)
qed

text \<open>
  C18: One final response. What a server transaction hands to the transport is a sequence of provisional
  responses, then repetitions of a single final response: exactly none before the user has given a final
  response, at least one after, and for other requests than INVITE at most one, because a
  retransmission of the request that arrives in the Completed state is not answered, although the comment
  at that place (\<open>ServerTransaction.cpp:233\<close>) demands that the final response is sent again. The user is told of
  the termination once, at the moment the transaction terminates, and not before.
\<close>

theorem server_single_final_response:
  assumes "st_fresh s0" and "st_reachable s0 out s"
  shows "(\<exists>ps n. responses out = ps @ replicate n (st_finalSipResponse s)
      \<and> (\<forall>p\<in>set ps. isResponseProvisional (sm_eResponseCode p))
      \<and> (n > 0 \<longrightarrow> isResponseFinal (sm_eResponseCode (st_finalSipResponse s)))
      \<and> (st_completed s \<longleftrightarrow> n > 0) \<and> (st_eTxType s = CT_NON_INVITE \<longrightarrow> n \<le> 1))
    \<and> (st_eTxType s = CT_NON_INVITE \<and> st_eNonInviteState s = STXS_NI_COMPLETED \<longrightarrow>
         (\<forall>b. onRequestRetransmissionReceived b s = Inr ([], s)))
    \<and> count_list out Report_terminated = (if st_terminated s then 1 else 0)"
proof (intro conjI impI allI)
  show "onRequestRetransmissionReceived b s = Inr ([], s)" if "st_eTxType s = CT_NON_INVITE \<and> st_eNonInviteState s = STXS_NI_COMPLETED" for b
    using completed_request_not_answered_again [OF assms] that by blast
qed (use st_reachable_inv [OF assms(2,1)] in \<open>auto simp: st_inv_def st_answered_def\<close>)

theorem server_single_final_response_witness:
  "\<exists>ps n. [busy_response] = ps @ replicate n busy_response \<and> (\<forall>p\<in>set ps. isResponseProvisional (sm_eResponseCode p)) \<and> n > 0"
proof -
  have c: "st_completed sample_completed" "st_finalSipResponse sample_completed = busy_response"
    by (simp_all add: st_completed_def sample_completed_def sample_server_def ServerTransaction_new_def sample_request_method)
  show ?thesis
    using server_single_final_response [OF sample_server_fresh sample_completed_reachable] unfolding c(2) by (auto simp: c(1))
qed

text \<open>
  C34: A server transaction does not linger. Unless it waits for an answer of the user or has terminated,
  the timer that ends it is pending, H, I or J, and when it fires the transaction terminates and tells
  the user; H reports the missing ACK as a failure first. Over a reliable transport I and J fire at once.
\<close>

theorem server_transaction_progress:
  assumes "st_fresh s0" and "st_reachable s0 out s" and "st_completed s" and "\<not> st_terminated s"
  shows "\<exists>e\<in>{Timer_H, Timer_I, Timer_J}. st_enabled e s
      \<and> (\<exists>s'. st_terminated s' \<and> st_handle e s = Inr ((if e = Timer_H then [Report_failure] else []) @ [Report_terminated], s'))
      \<and> (e = Timer_H \<longleftrightarrow> st_eInviteState s = STXS_COMPLETED)"
proof -
  have T: "st_timers s" using st_reachable_inv [OF assms(2,1)] by (simp add: st_inv_def)
  note defs = st_enabled_def st_handle_def handleTimerHTimeout_def handleTimerITimeout_def handleTimerJTimeout_def st_state_defs
    st_shape_defs st_timers_def
  show ?thesis
  proof (cases "st_eTxType s")
    case CT_INVITE
    then show ?thesis using T assms(3,4) by (cases "st_eInviteState s") (auto simp: defs)
  next
    case CT_NON_INVITE
    then show ?thesis using T assms(3,4) by (cases "st_eInviteState s"; cases "st_eNonInviteState s") (auto simp: defs)
  qed
qed

theorem server_transaction_progress_witness:
  "\<exists>s'. st_terminated s' \<and> st_handle Timer_H sample_completed = Inr ([Report_failure, Report_terminated], s')"
proof -
  have s: "st_completed sample_completed" "\<not> st_terminated sample_completed" "st_eInviteState sample_completed = STXS_COMPLETED"
    by (simp_all add: st_shape_defs sample_completed_def sample_server_def ServerTransaction_new_def sample_request_method)
  show ?thesis
    using server_transaction_progress [OF sample_server_fresh sample_completed_reachable s(1,2)] by (auto simp: s(3))
qed

text \<open>The interval of timer G never leaves T1: it does not back off to T2.\<close>

lemma timer_G_never_backs_off:
  assumes "st_fresh s0" and "st_reachable s0 out s" and "st_timerG s = Some interval"
  shows "interval = 500"
  using st_reachable_inv [OF assms(2,1)] assms(3) by (auto simp: st_inv_def st_timers_def interval_defs)

section \<open>The To tag\<close>

lemma generateResponse_tag:
  assumes "generateResponse tokenize sRandom eCode s = Inr (r, s')"
  shows "\<not> hasAttribute tokenize ''To'' ''tag'' (st_request s) \<longrightarrow> st_toTag s' = Some (case st_toTag s of None \<Rightarrow> sRandom | Some t \<Rightarrow> t)"
    and "st_request s' = st_request s" "st_localContext s' = st_localContext s"
  using assms by (auto simp: generateResponse_def Let_def split: option.splits if_splits)

lemma setResponseCode_fields [simp]:
  "getHeaderFields k (setResponseCode c m) = getHeaderFields k m" "sm_mHeaderMap (setResponseCode c m) = sm_mHeaderMap m"
  "sm_eResponseCode (setResponseCode c m) = c"
  by (simp_all add: setResponseCode_def getHeaderFields_def)

lemma generateResponse_fields:
  assumes g: "generateResponse tokenize sRandom eCode s = Inr (r, s')"
  shows "getHeaderFields ''To'' r = [the (getHeaderField ''To'' (st_request s)) @
      (if hasAttribute tokenize ''To'' ''tag'' (st_request s) then [] else '';tag='' @ the (st_toTag s'))]"
    and "getHeaderFields ''Via'' r = getHeaderFields ''Via'' (st_request s)" and "sm_eResponseCode r = eCode"
    and "getHeaderFields ''Contact'' r = [getContact (st_localContext s)]"
proof -
  obtain r0 where r0: "createResponse (st_request s) = Some r0" using g by (auto simp: generateResponse_def split: option.splits)
  define t where "t = the (getHeaderField ''To'' (st_request s)) @
      (if hasAttribute tokenize ''To'' ''tag'' (st_request s) then [] else '';tag='' @ the (st_toTag s'))"
  have r: "r = addHeaderField ''Contact'' (getContact (st_localContext s)) (addHeaderField ''To'' t (setResponseCode eCode r0))"
    using g by (auto simp: generateResponse_def r0 Let_def t_def split: if_splits)
  note fields = createResponse_fields [OF r0]
  show "getHeaderFields ''To'' r = [the (getHeaderField ''To'' (st_request s)) @
      (if hasAttribute tokenize ''To'' ''tag'' (st_request s) then [] else '';tag='' @ the (st_toTag s'))]"
    unfolding t_def [symmetric] r by (simp add: getHeaderFields_add header_sorted_add fields)
  show "getHeaderFields ''Via'' r = getHeaderFields ''Via'' (st_request s)"
    and "getHeaderFields ''Contact'' r = [getContact (st_localContext s)]"
    unfolding r by (simp_all add: getHeaderFields_add header_sorted_add fields)
  show "sm_eResponseCode r = eCode" unfolding r by (simp add: addHeaderField_def setResponseCode_def)
qed

text \<open>No event changes the request or the tag.\<close>

lemma st_handle_frame:
  assumes "st_handle e s = Inr (out, s')"
  shows "st_toTag s' = st_toTag s \<and> st_request s' = st_request s"
proof -
  have p: "ignore_error (sendProvisionalResponse b r s) = Inr (out, s') \<Longrightarrow> ?thesis" for b r
    by (auto simp: sendProvisionalResponse_def st_state_defs
        split: CtType.splits ServerInviteTransactionState.splits ServerNonInviteTransactionState.splits)
  have r: "ignore_error (sendResponse b r s) = Inr (out, s') \<Longrightarrow> ?thesis" for b r
    using p [of b r] by (cases "isResponseProvisional (sm_eResponseCode r)")
      (auto simp: sendResponse_def sendFinalInvite_def sendFinalNonInvite_def st_state_defs
        split: CtType.splits ServerInviteTransactionState.splits ServerNonInviteTransactionState.splits if_splits)
  show ?thesis
    using assms p r by (cases e)
      (auto simp: st_handle_def onRequestReceived_def onAckReceived_def onRequestRetransmissionReceived_def handleTimerGTimeout_def
        handleTimerHTimeout_def handleTimerITimeout_def handleTimerJTimeout_def updateInviteState_def after_output_def Let_def
        split: CtType.splits ServerInviteTransactionState.splits ServerNonInviteTransactionState.splits if_splits)
qed

fun st_run :: "st_event list \<Rightarrow> ServerTransaction \<Rightarrow> fault + ServerTransaction" where
  "st_run [] s = Inr s"
| "st_run (e # es) s = (case st_handle e s of Inl f \<Rightarrow> Inl f | Inr (out, s') \<Rightarrow> st_run es s')"

lemma st_run_frame: "st_run es s = Inr s' \<Longrightarrow> st_toTag s' = st_toTag s \<and> st_request s' = st_request s"
proof (induction es arbitrary: s)
  case (Cons e es)
  then obtain out s1 where "st_handle e s = Inr (out, s1)" "st_run es s1 = Inr s'" by (auto split: sum.splits)
  then show ?case using Cons.IH st_handle_frame by metis
qed simp

text \<open>
  All responses of a server transaction carry the same To field, whatever happens in between and
  whatever tag is drawn later: the To field of the request, if that has a tag, and else that field
  with a tag, the same each time. They have the Via fields of the request and the code asked for.
\<close>

theorem responses_share_to_tag:
  assumes g1: "generateResponse tokenize sRandom1 eCode1 s = Inr (r1, s1)" and run: "st_run es s1 = Inr s2"
    and g2: "generateResponse tokenize sRandom2 eCode2 s2 = Inr (r2, s3)"
  shows "\<exists>to tag. getHeaderField ''To'' (st_request s) = Some to \<and> getHeaderFields ''To'' r1 = [to @ tag] \<and> getHeaderFields ''To'' r2 = [to @ tag]
      \<and> (if hasAttribute tokenize ''To'' ''tag'' (st_request s) then tag = [] else \<exists>t. tag = '';tag='' @ t)
      \<and> getHeaderFields ''Via'' r2 = getHeaderFields ''Via'' (st_request s) \<and> sm_eResponseCode r2 = eCode2"
proof -
  note same = st_run_frame [OF run] generateResponse_tag [OF g1] generateResponse_tag [OF g2]
  have valid: "isValidRequest (st_request s)"
    using g1 createResponse_fields(3) by (auto simp: generateResponse_def split: option.splits)
  then obtain to where to: "getHeaderField ''To'' (st_request s) = Some to" by (auto simp: isValidRequest_def hasHeader_def)
  note fields = generateResponse_fields [OF g1] generateResponse_fields [OF g2]
  show ?thesis
  proof (cases "hasAttribute tokenize ''To'' ''tag'' (st_request s)")
    case True
    then show ?thesis using same fields to by auto
  next
    case False
    then have "st_toTag s3 = st_toTag s1" using same by (cases "st_toTag s") auto
    then show ?thesis using same fields to False by auto
  qed
qed

lemma sample_request_valid: "createResponse sample_request \<noteq> None"
  by (simp add: createResponse_def isValidRequest_def hasHeader_def getHeaderField_first sample_request_fields Let_def)

theorem responses_share_to_tag_witness:
  "\<exists>r1 s1 r2 s3 tag. generateResponse (\<lambda>h. [h]) ''x1y2'' 180 sample_server = Inr (r1, s1) \<and> generateResponse (\<lambda>h. [h]) ''zzzz'' 486 s1 = Inr (r2, s3)
     \<and> getHeaderFields ''To'' r1 = [''sip:b'' @ tag] \<and> getHeaderFields ''To'' r2 = [''sip:b'' @ tag]"
proof -
  have ok: "\<exists>r s'. generateResponse (\<lambda>h. [h]) rnd c s = Inr (r, s') \<and> st_request s' = st_request s" if "st_request s = sample_request" for rnd c s
    using that sample_request_valid by (auto simp: generateResponse_def Let_def split: option.split)
  have req: "st_request sample_server = sample_request" by (simp add: sample_server_def ServerTransaction_new_def)
  obtain r1 s1 where g1: "generateResponse (\<lambda>h. [h]) ''x1y2'' 180 sample_server = Inr (r1, s1)" and "st_request s1 = sample_request"
    using ok [OF req, of "''x1y2''" 180] req by auto
  then obtain r2 s3 where g2: "generateResponse (\<lambda>h. [h]) ''zzzz'' 486 s1 = Inr (r2, s3)" using ok by blast
  have "getHeaderField ''To'' sample_request = Some ''sip:b''" by (simp add: getHeaderField_first sample_request_fields)
  then show ?thesis using responses_share_to_tag [OF g1 _ g2, of "[]"] g1 g2 req by auto
qed

end
