(* ===== verification/User_Agent_Server_Props.thy ===== *)
theory User_Agent_Server_Props
  imports User_Agent_Server Server_Transaction_Props
begin

text \<open>
  The user agent server as a whole: what holds of its table of server transactions, how calls are set up
  and ended, and the order of requests within a dialog.
\<close>

section \<open>Dialogs\<close>

subsection \<open>The order of requests\<close>

fun sd_run :: "externals \<Rightarrow> SipMessage list \<Rightarrow> SipDialog \<Rightarrow> fault + ResponseCode list \<times> SipDialog" where
  "sd_run x [] d = Inr ([], d)"
| "sd_run x (q # qs) d =
     (case SipDialog_handleRequest x q SipMessage_new d of
        Inl f \<Rightarrow> Inl f
      | Inr (r, d1) \<Rightarrow> (case sd_run x qs d1 of Inl f \<Rightarrow> Inl f | Inr (cs, d2) \<Rightarrow> Inr (sm_eResponseCode r # cs, d2)))"

definition numbered :: "externals \<Rightarrow> u32 \<Rightarrow> SipMessage \<Rightarrow> bool" where
  "numbered x n q \<longleftrightarrow> getRequestSequenceNumber (ext_convert x) q = Inr n \<and> n \<noteq> SN_EMPTY \<and> sm_eMethod q \<in> {ACK, BYE}"

lemma handleRequest_numbered:
  assumes "numbered x n q"
  shows "SipDialog_handleRequest x q r d =
    (if sd_uiRemoteSN d \<noteq> SN_EMPTY \<and> n < sd_uiRemoteSN d then Inr (setResponseCode 500 r, d)
     else Inr (if sm_eMethod q = BYE then setResponseCode OK r else r, d\<lparr>sd_uiRemoteSN := n\<rparr>))"
  using assms by (auto simp: numbered_def SipDialog_handleRequest_def Let_def)

lemma sd_run_numbered:
  assumes "list_all2 (numbered x) ns qs" and "sd_uiRemoteSN d \<noteq> SN_EMPTY"
  shows "\<exists>cs d'. sd_run x qs d = Inr (cs, d') \<and> length cs = length qs
    \<and> sd_uiRemoteSN d' = Max (insert (sd_uiRemoteSN d) (set ns))
    \<and> (\<forall>i<length qs. cs ! i = (if ns ! i < Max (insert (sd_uiRemoteSN d) (set (take i ns))) then 500
          else if sm_eMethod (qs ! i) = BYE then OK else NOT_SET))"
  using assms
proof (induction ns qs arbitrary: d rule: list_all2_induct)
  case (Cons n ns q qs)
  let ?r = "sd_uiRemoteSN d" and ?d = "if n < sd_uiRemoteSN d then d else d\<lparr>sd_uiRemoteSN := n\<rparr>"
  have "n \<noteq> SN_EMPTY" using Cons.hyps by (simp add: numbered_def)
  then have max: "sd_uiRemoteSN ?d = max ?r n" and ne: "sd_uiRemoteSN ?d \<noteq> SN_EMPTY" using Cons.prems by (auto simp: max_def)
  obtain cs d' where run: "sd_run x qs ?d = Inr (cs, d')" "length cs = length qs" "sd_uiRemoteSN d' = Max (insert (max ?r n) (set ns))"
      and codes: "\<forall>i<length qs. cs ! i = (if ns ! i < Max (insert (max ?r n) (set (take i ns))) then 500
          else if sm_eMethod (qs ! i) = BYE then OK else NOT_SET)"
    using Cons.IH [OF ne] unfolding max by blast
  let ?c = "if n < ?r then 500 else if sm_eMethod q = BYE then OK else NOT_SET"
  have "sd_run x (q # qs) d = Inr (?c # cs, d')"
    using Cons.prems run(1) by (auto simp: handleRequest_numbered [OF Cons.hyps(1)] setResponseCode_def SipMessage_new_def)
  moreover have m: "Max (insert ?r (insert n A)) = Max (insert (max ?r n) A)" if "finite A" for A
    using that by (cases "A = {}") (simp_all add: max.assoc)
  moreover have "(?c # cs) ! i = (if (n # ns) ! i < Max (insert ?r (set (take i (n # ns)))) then 500
          else if sm_eMethod ((q # qs) ! i) = BYE then OK else NOT_SET)" if "i < length (q # qs)" for i
    using that codes m by (cases i) simp_all
  ultimately show ?case using run by (intro exI [of _ "?c # cs"] exI [of _ d']) simp
qed simp

text \<open>
  C39: A dialog enforces the order of requests. Of a sequence of ACK and BYE requests, exactly those are
  answered with 500 whose sequence number is lower than one that came before, or than that of the
  request that set up the dialog, and the dialog remembers the highest number. The number 2^32 - 1,
  which the program uses for an unset number, must not occur.
\<close>

theorem dialog_orders_requests:
  assumes "list_all2 (numbered x) ns qs" and "sd_uiRemoteSN d \<noteq> SN_EMPTY"
  shows "\<exists>cs d'. sd_run x qs d = Inr (cs, d') \<and> length cs = length qs
    \<and> sd_uiRemoteSN d' = Max (insert (sd_uiRemoteSN d) (set ns))
    \<and> (\<forall>i<length qs. cs ! i = 500 \<longleftrightarrow> ns ! i < Max (insert (sd_uiRemoteSN d) (set (take i ns))))"
proof -
  obtain cs d' where "sd_run x qs d = Inr (cs, d')" "length cs = length qs" "sd_uiRemoteSN d' = Max (insert (sd_uiRemoteSN d) (set ns))"
      and "\<forall>i<length qs. cs ! i = (if ns ! i < Max (insert (sd_uiRemoteSN d) (set (take i ns))) then 500
          else if sm_eMethod (qs ! i) = BYE then OK else NOT_SET)"
    using sd_run_numbered [OF assms] by blast
  then show ?thesis by (intro exI [of _ cs] exI [of _ d']) auto
qed

definition sample_ext :: externals where
  "sample_ext = \<lparr>ext_attributes = (\<lambda>s. split_on [] s CHR '';''), ext_tokenize = split_on [],
     ext_convert = (\<lambda>s. Some (of_nat (undecimal s))), ext_port = (\<lambda>s. Some (of_nat (undecimal s)))\<rparr>"

definition bye_numbered :: "string \<Rightarrow> SipMessage" where
  "bye_numbered n = addHeaderField ''CSeq'' (n @ '' BYE'') (SipMessage_request BYE ''sip:b'')"

definition sample_dialog :: SipDialog where
  "sample_dialog = \<lparr>sd_eState = DS_CONFIRMED, sd_sipContext = sample_context, sd_uiTxId = 0, sd_dialogId = (''c1'', ''l'', ''r''),
     sd_bIsUAC = False, sd_bSecure = False, sd_uiLocalSN = SN_EMPTY, sd_uiRemoteSN = 8, sd_localUri = sample_uri,
     sd_remoteUri = sample_uri, sd_routeSet = []\<rparr>"

theorem dialog_orders_requests_witness:
  "\<exists>cs d'. sd_run sample_ext [bye_numbered ''7'', bye_numbered ''9''] sample_dialog = Inr (cs, d') \<and> cs ! 0 = 500 \<and> cs ! 1 \<noteq> 500
     \<and> sd_uiRemoteSN d' = 9"
proof -
  have n: "numbered sample_ext 7 (bye_numbered ''7'')" "numbered sample_ext 9 (bye_numbered ''9'')"
    unfolding numbered_def by (code_simp, code_simp)
  have d: "sd_uiRemoteSN sample_dialog = 8" by (simp add: sample_dialog_def)
  show ?thesis
    using dialog_orders_requests [of sample_ext "[7, 9]" "[bye_numbered ''7'', bye_numbered ''9'']" sample_dialog] n
    by (fastforce simp: d SN_EMPTY_def less_Suc_eq)
qed

subsection \<open>Requests that belong to one dialog\<close>

definition same_dialog :: "SipMessage \<Rightarrow> SipMessage \<Rightarrow> bool" where
  "same_dialog m m' \<longleftrightarrow> (\<forall>k\<in>{''Call-ID'', ''From'', ''To''}. getHeaderField k m = getHeaderField k m')"

lemma extractDialogId_same:
  assumes "same_dialog m m'"
  shows "extractDialogId x m isUac = extractDialogId x m' isUac"
proof -
  have "getHeaderField ''Call-ID'' m = getHeaderField ''Call-ID'' m'" "getAttribute tk ''From'' ''tag'' m = getAttribute tk ''From'' ''tag'' m'"
    "getAttribute tk ''To'' ''tag'' m = getAttribute tk ''To'' ''tag'' m'" for tk
    using assms by (simp_all add: same_dialog_def getAttribute_def)
  then show ?thesis by (simp only: extractDialogId_def)
qed

lemma createDialog_stores:
  assumes "createDialog x uiTxId sipRequest sipResponse bIsUac bEarly dm = Inr (did, dm')"
  shows "extractDialogId x sipResponse bIsUac = Inr (Some did)"
    and "\<exists>d. map_of (dm_mDialogs dm') did = Some d \<and> (\<not> bIsUac \<longrightarrow> getRequestSequenceNumber (ext_convert x) sipRequest = Inr (sd_uiRemoteSN d))"
    and "dm_qTerminatedDialogs dm' = dm_qTerminatedDialogs dm"
  using assms by (auto simp: createDialog_def SipDialog_create_def intialiseDialogState_def Let_def split: sum.splits option.splits if_splits)

lemma handle_bye:
  assumes "map_of (dm_mDialogs dm) did = Some d" and "getRequestSequenceNumber (ext_convert x) bye = Inr n" and "sm_eMethod bye = BYE"
  shows "\<exists>dm'. DialogManager_handleRequest x did bye r dm =
      Inr (setResponseCode (if sd_uiRemoteSN d \<noteq> SN_EMPTY \<and> n < sd_uiRemoteSN d then 500 else 200) r, dm')
    \<and> \<not> dialogExists did dm' \<and> did \<in> set (dm_qTerminatedDialogs dm')"
  using assms by (simp add: DialogManager_handleRequest_def SipDialog_handleRequest_def terminateDialog_def dialogExists_def Let_def)

lemma after_bye:
  assumes "\<not> dialogExists did dm" and "did \<in> set (dm_qTerminatedDialogs dm)"
  shows "DialogManager_handleRequest x did q r dm = Inr (setResponseCode 487 r, dm)"
  using assms by (simp add: DialogManager_handleRequest_def dialogExists_def split: option.split)

lemma generateResponse_state:
  assumes "generateResponse tokenize sRandom eCode s = Inr (r, s')"
  obtains t where "s' = s\<lparr>st_toTag := t\<rparr>"
proof -
  have "s' = s\<lparr>st_toTag := st_toTag s'\<rparr>"
    using assms by (auto simp: generateResponse_def Let_def split: option.splits if_splits)
  then show ?thesis by (rule that)
qed

lemma in_dialog_request:
  assumes to: "getHeaderField ''To'' q = Some to" "contains to ''tag=''" and m: "isMethodAllowed (sm_eMethod q)"
    and did: "extractDialogId x q False = Inr (Some did)"
    and h: "DialogManager_handleRequest x did q resp (uas_dialogManager uas) = Inr (resp', dm)"
  shows "\<exists>note. processIncomingRequestFromTransactionLayer x q txid resp uas = Inr (True, resp', note, uas\<lparr>uas_dialogManager := dm\<rparr>)"
  using assms by (simp add: processIncomingRequestFromTransactionLayer_def processRequestInsideOfDialog_def)

lemma uas_accept_run:
  assumes st: "map_of (tu_mServerTransactions uas) uiTxId = Some st" and ty: "st_eTxType st = CT_INVITE" "st_eInviteState st = STXS_PROCEEDING"
    and acc: "uas_accept x sRandom bSent uiTxId sdp uas = Inr (err, out, uas')"
  obtains r st1 did dm where "generateResponse (ext_attributes x) sRandom 200 st = Inr (r, st1)"
    and "createDialog x uiTxId (st_request st) (r\<lparr>sm_messageBody := sdp\<rparr>) False False (uas_dialogManager uas) = Inr (did, dm)"
    and "out = [Transaction_output uiTxId (Respond (r\<lparr>sm_messageBody := sdp\<rparr>) (st_sSource st) (st_uiPort st) (st_eProtocol st)),
      Transaction_output uiTxId Report_terminated]"
    and "err = None" "uas_dialogManager uas' = dm" "map_of (tu_mServerTransactions uas') uiTxId = None"
proof -
  obtain r st1 where g: "generateResponse (ext_attributes x) sRandom 200 st = Inr (r, st1)"
    using acc st by (auto simp: uas_accept_def split: sum.splits)
  obtain t where st1: "st1 = st\<lparr>st_toTag := t\<rparr>" by (rule generateResponse_state [OF g])
  let ?r = "r\<lparr>sm_messageBody := sdp\<rparr>"
  have code: "sm_eResponseCode ?r = 200" using generateResponse_fields(3) [OF g] by simp
  obtain did dm where c: "createDialog x uiTxId (st_request st) ?r False False (uas_dialogManager uas) = Inr (did, dm)"
    using acc st g st1 by (auto simp: uas_accept_def Let_def split: sum.splits)
  obtain st2 where send: "sendResponse bSent ?r st1 = Inr (False, [respond ?r st1, Report_terminated], st2)"
    using code ty by (simp add: st1 sendResponse_def sendFinalInvite_def st_state_defs code_defs)
  have o: "err = None" "out = map (Transaction_output uiTxId) [respond ?r st1, Report_terminated]"
    and u: "uas' = (store_server_result uiTxId [respond ?r st1, Report_terminated] st2 uas)\<lparr>uas_dialogManager := dm\<rparr>"
    using acc st g c send st1 by (auto simp: uas_accept_def Let_def split: sum.splits)
  show ?thesis
    by (rule that [OF g c]) (simp_all add: o u st1 respond_def store_server_result_def onServerTransactionTermination_def Let_def)
qed

text \<open>
  C19: The life of a call. When the application accepts an INVITE that is waiting for an answer, the server
  sends one 200 response with the answer in its body, the transaction is removed from the table, and a
  dialog exists. A BYE with the Call-ID, From and To of the response finds it: it is answered with 200, or
  with 500 if its number is lower than that of the INVITE, the dialog is gone in both cases, and every
  later request of the dialog with an allowed method is answered with 487.
\<close>

theorem call_lifecycle:
  assumes st: "map_of (tu_mServerTransactions uas) uiTxId = Some st" and ty: "st_eTxType st = CT_INVITE" "st_eInviteState st = STXS_PROCEEDING"
    and notag: "\<not> hasAttribute (ext_attributes x) ''To'' ''tag'' (st_request st)"
    and acc: "uas_accept x sRandom bSent uiTxId sdp uas = Inr (err, out, uas')"
  shows "err = None \<and> map_of (tu_mServerTransactions uas') uiTxId = None
    \<and> (\<exists>r n0. out = [Transaction_output uiTxId (Respond r (st_sSource st) (st_uiPort st) (st_eProtocol st)), Transaction_output uiTxId Report_terminated]
        \<and> sm_eResponseCode r = 200 \<and> sm_messageBody r = sdp \<and> getRequestSequenceNumber (ext_convert x) (st_request st) = Inr n0
        \<and> (\<forall>bye n txid resp. same_dialog bye r \<and> sm_eMethod bye = BYE \<and> getRequestSequenceNumber (ext_convert x) bye = Inr n \<longrightarrow>
            (\<exists>note uas''. processIncomingRequestFromTransactionLayer x bye txid resp uas' =
               Inr (True, setResponseCode (if n0 \<noteq> SN_EMPTY \<and> n < n0 then 500 else 200) resp, note, uas'')
             \<and> (\<forall>q txid' resp'. same_dialog q r \<and> isMethodAllowed (sm_eMethod q) \<longrightarrow>
                 (\<exists>note'. processIncomingRequestFromTransactionLayer x q txid' resp' uas'' = Inr (True, setResponseCode 487 resp', note', uas''))))))"
proof -
  obtain r0 st1 did dm where g: "generateResponse (ext_attributes x) sRandom 200 st = Inr (r0, st1)"
    and c: "createDialog x uiTxId (st_request st) (r0\<lparr>sm_messageBody := sdp\<rparr>) False False (uas_dialogManager uas) = Inr (did, dm)"
    and out: "out = [Transaction_output uiTxId (Respond (r0\<lparr>sm_messageBody := sdp\<rparr>) (st_sSource st) (st_uiPort st) (st_eProtocol st)),
      Transaction_output uiTxId Report_terminated]" "err = None"
    and u: "uas_dialogManager uas' = dm" "map_of (tu_mServerTransactions uas') uiTxId = None"
    by (rule uas_accept_run [OF st ty acc])
  define r where "r = r0\<lparr>sm_messageBody := sdp\<rparr>"
  note dialog = createDialog_stores [OF c [folded r_def]]
  obtain d where d: "map_of (dm_mDialogs dm) did = Some d" and n0: "getRequestSequenceNumber (ext_convert x) (st_request st) = Inr (sd_uiRemoteSN d)"
    using dialog(2) by auto
  obtain to tag where "getHeaderFields ''To'' r0 = [to @ '';tag='' @ tag]" using generateResponse_fields(1) [OF g] notag by auto
  then have "getHeaderField ''To'' r = Some (to @ '';tag='' @ tag)" by (simp add: getHeaderField_first r_def getHeaderFields_def)
  moreover have "contains (to @ '';tag='' @ tag) ''tag=''" using contains_middle [of "to @ '';''" "''tag=''" tag] by simp
  ultimately have to: "\<exists>to. getHeaderField ''To'' q = Some to \<and> contains to ''tag=''" and did: "extractDialogId x q False = Inr (Some did)"
    if "same_dialog q r" for q
    using that dialog(1) extractDialogId_same [OF that, of x False] by (auto simp: same_dialog_def)
  have bye: "\<exists>note uas''. processIncomingRequestFromTransactionLayer x bye txid resp uas' =
        Inr (True, setResponseCode (if sd_uiRemoteSN d \<noteq> SN_EMPTY \<and> n < sd_uiRemoteSN d then 500 else 200) resp, note, uas'')
      \<and> (\<forall>q txid' resp'. same_dialog q r \<and> isMethodAllowed (sm_eMethod q) \<longrightarrow>
          (\<exists>note'. processIncomingRequestFromTransactionLayer x q txid' resp' uas'' = Inr (True, setResponseCode 487 resp', note', uas'')))"
    if b: "same_dialog bye r" "sm_eMethod bye = BYE" "getRequestSequenceNumber (ext_convert x) bye = Inr n" for bye n txid resp
  proof -
    obtain dm' where h: "DialogManager_handleRequest x did bye resp dm =
        Inr (setResponseCode (if sd_uiRemoteSN d \<noteq> SN_EMPTY \<and> n < sd_uiRemoteSN d then 500 else 200) resp, dm')"
      and gone: "\<not> dialogExists did dm'" "did \<in> set (dm_qTerminatedDialogs dm')"
      using handle_bye [OF d b(3,2)] by blast
    let ?u = "uas'\<lparr>uas_dialogManager := dm'\<rparr>"
    have "\<exists>note'. processIncomingRequestFromTransactionLayer x q txid' resp' ?u = Inr (True, setResponseCode 487 resp', note', ?u)"
      if "same_dialog q r" "isMethodAllowed (sm_eMethod q)" for q txid' resp'
      using to [OF that(1)] in_dialog_request [OF _ _ that(2) did [OF that(1)], of _ resp' ?u] after_bye [OF gone] by fastforce
    then show ?thesis
      using to [OF b(1)] in_dialog_request [OF _ _ _ did [OF b(1)] h [folded u(1)]] b(2) by (fastforce simp: isMethodAllowed_def)
  qed
  show ?thesis
    using out u(2) n0 bye generateResponse_fields(3) [OF g] unfolding r_def by auto
qed

definition sample_uas :: UserAgentServer where
  "sample_uas = \<lparr>tu_sipContext = sample_context, tu_uiLastTxId = 1, tu_mClientTransactions = [], tu_mServerTransactions = [(0, sample_server)],
     uas_dialogManager = DialogManager_create sample_context, uas_onRegister = None, uas_onInvite = True, uas_onBye = True\<rparr>"

definition sample_sdp :: MessageBody where
  "sample_sdp = MessageBody_new ''v=0'' ''application/sdp''"

lemma sample_accept: "isl (uas_accept sample_ext ''x1y2'' True 0 sample_sdp sample_uas) = False"
  by code_simp

theorem call_lifecycle_witness:
  "\<exists>out uas'. uas_accept sample_ext ''x1y2'' True 0 sample_sdp sample_uas = Inr (None, out, uas')
     \<and> map_of (tu_mServerTransactions uas') 0 = None \<and> length out = 2"
proof -
  obtain err out uas' where acc: "uas_accept sample_ext ''x1y2'' True 0 sample_sdp sample_uas = Inr (err, out, uas')"
    using sample_accept by (cases "uas_accept sample_ext ''x1y2'' True 0 sample_sdp sample_uas") (auto simp: split_paired_all)
  have st: "map_of (tu_mServerTransactions sample_uas) 0 = Some sample_server" by (simp add: sample_uas_def)
  have ty: "st_eTxType sample_server = CT_INVITE" "st_eInviteState sample_server = STXS_PROCEEDING"
      "\<not> hasAttribute (ext_attributes sample_ext) ''To'' ''tag'' (st_request sample_server)"
    by code_simp+
  show ?thesis using call_lifecycle [OF st ty acc] acc by auto
qed

section \<open>The table of server transactions\<close>

subsection \<open>Events\<close>

datatype ua_event = Incoming "string \<Rightarrow> string list" string bool SipMessage string u16 TransactionProtocol
  | App_ringing string bool u32 | App_reject string bool u32 | App_accept string bool u32 MessageBody | Timer u32 st_event

definition server_timer :: "u32 \<Rightarrow> st_event \<Rightarrow> UserAgentServer \<Rightarrow> fault + ua_output list \<times> UserAgentServer" where
  "server_timer uiTxId e uas =
     (case map_of (tu_mServerTransactions uas) uiTxId of
        None \<Rightarrow> Inr ([], uas)
      | Some st \<Rightarrow>
          if \<not> st_enabled e st then Inr ([], uas)
          else case st_handle e st of
                 Inl f \<Rightarrow> Inl f
               | Inr (out, st') \<Rightarrow> Inr (map (Transaction_output uiTxId) out, store_server_result uiTxId out st' uas))"

definition forget_error :: "ua_result \<Rightarrow> fault + ua_output list \<times> UserAgentServer" where
  "forget_error r = (case r of Inl f \<Rightarrow> Inl f | Inr (err, out, uas) \<Rightarrow> Inr (out, uas))"

definition ua_handle :: "externals \<Rightarrow> ua_event \<Rightarrow> UserAgentServer \<Rightarrow> fault + ua_output list \<times> UserAgentServer" where
  "ua_handle x e uas = (case e of
     Incoming raw sRandom b request sSource uiPort eProtocol \<Rightarrow>
       handleIncomingRequestFromTransportLayer raw x sRandom b request sSource uiPort eProtocol uas
   | App_ringing sRandom b uiTxId \<Rightarrow> forget_error (ringing x sRandom b uiTxId uas)
   | App_reject sRandom b uiTxId \<Rightarrow> forget_error (reject x sRandom b uiTxId uas)
   | App_accept sRandom b uiTxId sdp \<Rightarrow> forget_error (uas_accept x sRandom b uiTxId sdp uas)
   | Timer uiTxId t \<Rightarrow> server_timer uiTxId t uas)"

definition is_timer :: "st_event \<Rightarrow> bool" where
  "is_timer e \<longleftrightarrow> (case e of Timer_G b \<Rightarrow> True | Timer_H \<Rightarrow> True | Timer_I \<Rightarrow> True | Timer_J \<Rightarrow> True | _ \<Rightarrow> False)"

text \<open>Fewer than $2^{32}$ transactions, so that their numbers do not repeat.\<close>

inductive uas_reachable :: "externals \<Rightarrow> UserAgentServer \<Rightarrow> bool" for x where
  start: "\<lbrakk>tu_mServerTransactions uas = []; tu_uiLastTxId uas = 0\<rbrakk> \<Longrightarrow> uas_reachable x uas"
| step: "\<lbrakk>uas_reachable x uas; tu_uiLastTxId uas < 4294967295; \<And>txid t. e = Timer txid t \<Longrightarrow> is_timer t;
    ua_handle x e uas = Inr (out, uas')\<rbrakk> \<Longrightarrow> uas_reachable x uas'"

subsection \<open>The invariant\<close>

definition st_live :: "ServerTransaction \<Rightarrow> bool" where
  "st_live st \<longleftrightarrow> \<not> st_terminated st \<and> (\<exists>out. st_inv out st)"

definition table_ok :: "UserAgentServer \<Rightarrow> bool" where
  "table_ok uas \<longleftrightarrow> omap_ok (tu_mServerTransactions uas)
     \<and> (\<forall>(txid, st)\<in>set (tu_mServerTransactions uas). txid < tu_uiLastTxId uas \<and> st_live st)"

lemma st_inv_toTag: "st_inv out (s\<lparr>st_toTag := t\<rparr>) = st_inv out s"
  by (simp add: st_inv_def st_timers_def st_answered_def st_completed_def st_terminated_def)

lemma terminated_iff:
  assumes "st_inv out s" "\<not> st_terminated s" "st_inv (out @ out') s'"
  shows "st_terminated s' \<longleftrightarrow> Report_terminated \<in> set out'"
proof -
  have "count_list out Report_terminated = 0" using assms(1,2) by (simp add: st_inv_def st_answered_def)
  then have "count_list out' Report_terminated = (if st_terminated s' then 1 else 0)"
    using assms(3) by (simp add: st_inv_def st_answered_def)
  then show ?thesis by (metis count_list_0_iff zero_neq_one)
qed

lemma store_keeps_table:
  assumes t: "table_ok uas" and id: "uiTxId < tu_uiLastTxId uas"
    and s: "st_inv out s" "\<not> st_terminated s" "st_inv (out @ out') s'"
  shows "table_ok (store_server_result uiTxId out' s' uas)"
proof -
  let ?m = "tu_mServerTransactions uas"
  have live: "Report_terminated \<notin> set out' \<Longrightarrow> st_live s'" using terminated_iff [OF s] s(3) by (auto simp: st_live_def)
  have put: "omap_ok (omap_put uiTxId s' ?m)" "omap_ok (omap_erase uiTxId (omap_put uiTxId s' ?m))"
    using t by (simp_all add: table_ok_def omap_ok_put omap_ok_erase)
  have old: "txid < tu_uiLastTxId uas \<and> st_live st" if "map_of ?m txid = Some st" for txid st
    using t that omap_lookup [of ?m txid st] by (auto simp: table_ok_def)
  have entry: "(txid, st) \<in> set (omap_put uiTxId s' ?m) \<Longrightarrow> (txid = uiTxId \<and> st = s') \<or> (txid \<noteq> uiTxId \<and> map_of ?m txid = Some st)" for txid st
    using omap_lookup [OF put(1)] by (auto split: if_splits)
  show ?thesis
  proof (cases "Report_terminated \<in> set out'")
    case True
    have "txid < tu_uiLastTxId uas \<and> st_live st" if "(txid, st) \<in> set (omap_erase uiTxId (omap_put uiTxId s' ?m))" for txid st
      using that entry old by (fastforce simp: omap_erase_def)
    then show ?thesis
      using True put(2) by (auto simp: table_ok_def store_server_result_def onServerTransactionTermination_def Let_def)
  next
    case False
    have "txid < tu_uiLastTxId uas \<and> st_live st" if "(txid, st) \<in> set (omap_put uiTxId s' ?m)" for txid st
      using entry [OF that] old id live [OF False] by blast
    then show ?thesis using False put(1) by (auto simp: table_ok_def store_server_result_def Let_def)
  qed
qed

subsection \<open>New transactions\<close>

lemma answer_request_ignores_flag: "st_eTxType s = CT_NON_INVITE \<Longrightarrow> answer_request b bWill r s = answer_request b False r s"
  by (simp add: answer_request_def)

lemma answer_request_open:
  assumes f: "st_fresh s" and k: "st_eTxType s = CT_INVITE \<Longrightarrow> bWill \<Longrightarrow> isFinalNonSuccessfulResponse (sm_eResponseCode r)"
    and res: "answer_request b bWill r s = Inr (out, s')"
  shows "\<not> st_terminated s'"
proof (cases "st_eTxType s")
  case CT_INVITE
  note fresh = st_fresh_simps [OF f]
  show ?thesis
  proof (cases bWill)
    case True
    then have "isFinalNonSuccessfulResponse (sm_eResponseCode r)" "\<not> isResponseProvisional (sm_eResponseCode r)"
        "\<not> isResponseSuccessfull (sm_eResponseCode r)" "sm_eResponseCode r \<noteq> NOT_SET"
      using k [OF CT_INVITE] by (auto simp: code_defs)
    then show ?thesis
      using res True CT_INVITE fresh
      by (auto simp: answer_request_def answer_final_def sendResponse_def sendFinalInvite_def st_state_defs st_terminated_def split: if_splits)
  next
    case False
    then show ?thesis
      using res CT_INVITE fresh
      by (auto simp: answer_request_def answer_provisional_def sendProvisionalResponse_def report_error_def st_terminated_def Let_def split: if_splits)
  qed
next
  case CT_NON_INVITE
  then show ?thesis
    using res st_fresh_simps [OF f]
    by (auto simp: answer_request_def answer_provisional_def answer_final_def sendResponse_def sendFinalNonInvite_def
        sendProvisionalResponse_def st_state_defs st_terminated_def split: if_splits)
qed

lemma created_live:
  assumes tu: "\<forall>r u r' u'. tu r u = Inr (True, r', u') \<and> sm_eMethod request = INVITE \<longrightarrow> isFinalNonSuccessfulResponse (sm_eResponseCode r')"
    and res: "ServerTransaction_create tokenize rnd b tu ctx request src port proto u = Inr (out, st, u')"
  shows "st_live st \<and> (\<exists>r bWill r'. tu r u = Inr (bWill, r', u'))"
proof -
  let ?new = "ServerTransaction_new ctx request src port proto"
  obtain r0 s0 where g: "generateResponse tokenize rnd NOT_SET ?new = Inr (r0, s0)"
    using res by (auto simp: ServerTransaction_create_def split: sum.splits)
  obtain bWill r' where call: "tu r0 u = Inr (bWill, r', u')" and ans: "answer_request b bWill r' s0 = Inr (out, st)"
    using res g by (auto simp: ServerTransaction_create_def split: sum.splits)
  obtain t where s0: "s0 = ?new\<lparr>st_toTag := t\<rparr>" by (rule generateResponse_state [OF g])
  then have f: "st_fresh s0" unfolding st_fresh_def by blast
  have ty: "st_eTxType s0 = CT_INVITE \<longleftrightarrow> sm_eMethod request = INVITE" by (simp add: s0 ServerTransaction_new_def)
  have known: "isFinalNonSuccessfulResponse (sm_eResponseCode r')" if "st_eTxType s0 = CT_INVITE" bWill
    using tu call that ty by simp blast
  have "st_inv out st"
  proof (cases "st_eTxType s0")
    case CT_INVITE
    then show ?thesis using answer_request_inv [OF f _ ans] known by (simp add: known_response_def)
  next
    case CT_NON_INVITE
    then show ?thesis using answer_request_inv [OF f, of False r' b out st] ans
        answer_request_ignores_flag [OF CT_NON_INVITE, of b bWill r'] by simp
  qed
  moreover have "\<not> st_terminated st" using answer_request_open [OF f known ans] by simp
  ultimately show ?thesis using call by (auto simp: st_live_def)
qed

lemma process_frame:
  assumes "processIncomingRequestFromTransactionLayer x request txid resp uas = Inr (bWill, resp', out, uas')"
  shows "tu_mServerTransactions uas' = tu_mServerTransactions uas \<and> tu_uiLastTxId uas' = tu_uiLastTxId uas"
  using assms
  by (auto simp: processIncomingRequestFromTransactionLayer_def processRequestInsideOfDialog_def processRequestOutsideOfDialog_def
      split: option.splits if_splits sum.splits Method.splits)

lemma process_invite_code:
  assumes "processIncomingRequestFromTransactionLayer x request txid resp uas = Inr (True, resp', out, uas')" and "sm_eMethod request = INVITE"
  shows "isFinalNonSuccessfulResponse (sm_eResponseCode resp')"
proof -
  obtain did dm where "DialogManager_handleRequest x did request resp (uas_dialogManager uas) = Inr (resp', dm)"
    using assms by (auto simp: processIncomingRequestFromTransactionLayer_def processRequestInsideOfDialog_def processRequestOutsideOfDialog_def
        isMethodAllowed_def split: option.splits if_splits sum.splits)
  then show ?thesis
    using assms(2) by (auto simp: DialogManager_handleRequest_def SipDialog_handleRequest_def code_defs Let_def
        split: option.splits sum.splits if_splits)
qed

lemma begin_keeps_table:
  assumes t: "table_ok uas" and last: "tu_uiLastTxId uas < 4294967295"
    and res: "beginServerTransaction x rnd b (processIncomingRequestFromTransactionLayer x request) request src port proto uas = Inr (uiTxId, out, uas')"
  shows "table_ok uas' \<and> uiTxId = tu_uiLastTxId uas \<and> tu_uiLastTxId uas' = uiTxId + 1
    \<and> (\<exists>st. tu_mServerTransactions uas' = omap_put uiTxId st (tu_mServerTransactions uas) \<and> st_live st)"
proof -
  let ?id = "tu_uiLastTxId uas" and ?uas = "uas\<lparr>tu_uiLastTxId := tu_uiLastTxId uas + 1\<rparr>"
  let ?user = "\<lambda>response u. case processIncomingRequestFromTransactionLayer x request ?id response (snd u) of
                    Inl f \<Rightarrow> Inl f | Inr (bWill, response', out, u') \<Rightarrow> Inr (bWill, response', fst u @ out, u')"
  obtain tout st uout uas2 where c: "ServerTransaction_create (ext_attributes x) rnd b ?user (tu_sipContext uas) request src port proto ([], ?uas)
        = Inr (tout, st, (uout, uas2))"
    and u': "uas' = uas2\<lparr>tu_mServerTransactions := omap_put ?id st (tu_mServerTransactions uas2)\<rparr>" "uiTxId = ?id"
    using res by (auto simp: beginServerTransaction_def Let_def split: sum.splits)
  have "\<forall>r u r' u'. ?user r u = Inr (True, r', u') \<and> sm_eMethod request = INVITE \<longrightarrow> isFinalNonSuccessfulResponse (sm_eResponseCode r')"
    using process_invite_code by (auto split: sum.splits)
  note created = created_live [OF this c]
  then have live: "st_live st" by blast
  from created obtain r bWill r' where "?user r ([], ?uas) = Inr (bWill, r', (uout, uas2))" by blast
  then have "tu_mServerTransactions uas2 = tu_mServerTransactions uas" and last2: "tu_uiLastTxId uas2 = ?id + 1"
    using process_frame by (fastforce split: sum.splits)+
  then have put: "tu_mServerTransactions uas' = omap_put ?id st (tu_mServerTransactions uas)" "tu_uiLastTxId uas' = ?id + 1"
    using u' by simp_all
  have "unat ?id < 4294967295" using last by (simp add: word_less_nat_alt)
  then have "unat (?id + 1) = unat ?id + 1" by (simp add: unat_word_ariths)
  then have less: "k < ?id \<Longrightarrow> k < ?id + 1" "?id < ?id + 1" for k by (simp_all add: word_less_nat_alt)
  have new: "?id \<notin> fst ` set (tu_mServerTransactions uas)" using t by (fastforce simp: table_ok_def)
  have "table_ok uas'"
    using t less live by (auto simp: table_ok_def put omap_ok_put omap_put_new [OF new])
  then show ?thesis using put live u'(2) by auto
qed

subsection \<open>All events keep the table\<close>

lemma table_entry:
  assumes "table_ok uas" "map_of (tu_mServerTransactions uas) uiTxId = Some st"
  obtains out where "uiTxId < tu_uiLastTxId uas" "\<not> st_terminated st" "st_inv out st"
  using assms omap_lookup [of "tu_mServerTransactions uas" uiTxId st] by (auto simp: table_ok_def st_live_def)

lemma send_keeps_table:
  assumes t: "table_ok uas" and st: "map_of (tu_mServerTransactions uas) uiTxId = Some st"
    and g: "generateResponse tokenize rnd eCode st = Inr (r, st1)" and send: "sendResponse b r' st1 = Inr (err, out, st2)"
  shows "table_ok (store_server_result uiTxId out st2 uas)"
proof -
  obtain h where h: "uiTxId < tu_uiLastTxId uas" "\<not> st_terminated st" "st_inv h st" by (rule table_entry [OF t st])
  obtain tag where st1: "st1 = st\<lparr>st_toTag := tag\<rparr>" by (rule generateResponse_state [OF g])
  have s1: "st_inv h st1" "\<not> st_terminated st1" using h by (simp_all add: st1 st_inv_toTag) (simp add: st_terminated_def)
  show ?thesis by (rule store_keeps_table [OF t h(1) s1 sendResponse_keeps [OF s1 send]])
qed

lemma forget_error_InrD: "forget_error r = Inr (out, uas) \<Longrightarrow> \<exists>err. r = Inr (err, out, uas)"
  by (auto simp: forget_error_def split: sum.splits)

lemma respond_with_keeps_table:
  assumes t: "table_ok uas" and res: "respond_with x rnd b eCode uiTxId uas = Inr (err, out, uas')"
  shows "table_ok uas'"
  using res t send_keeps_table [OF t]
  by (auto simp: respond_with_def split: option.splits sum.splits)

lemma table_ok_dialogs [simp]: "table_ok (uas\<lparr>uas_dialogManager := dm\<rparr>) = table_ok uas"
  by (simp add: table_ok_def)

lemma uas_accept_keeps_table:
  assumes t: "table_ok uas" and res: "uas_accept x rnd b uiTxId sdp uas = Inr (err, out, uas')"
  shows "table_ok uas'"
  using res t send_keeps_table [OF t]
  by (auto simp: uas_accept_def Let_def split: option.splits sum.splits)

lemma server_timer_keeps_table:
  assumes t: "table_ok uas" and res: "server_timer uiTxId e uas = Inr (out, uas')"
  shows "table_ok uas'"
proof (cases "uas' = uas")
  case False
  then obtain st st' out' where st: "map_of (tu_mServerTransactions uas) uiTxId = Some st" and en: "st_enabled e st"
    and h: "st_handle e st = Inr (out', st')" and uas': "uas' = store_server_result uiTxId out' st' uas"
    using res by (auto simp: server_timer_def split: option.splits if_splits sum.splits)
  obtain o1 where o1: "uiTxId < tu_uiLastTxId uas" "\<not> st_terminated st" "st_inv o1 st" by (rule table_entry [OF t st])
  show ?thesis unfolding uas' by (rule store_keeps_table [OF t o1(1,3,2) st_handle_keeps [OF o1(3) en h]])
qed (use t in simp)

lemma find_transaction_entry: "find_transaction x request ps = Inr (Some p) \<Longrightarrow> p \<in> set ps"
  by (induction ps) (auto split: sum.splits if_splits)

lemma incoming_keeps_table:
  assumes t: "table_ok uas" and last: "tu_uiLastTxId uas < 4294967295"
    and res: "handleIncomingRequestFromTransportLayer raw x rnd b request src port proto uas = Inr (out, uas')"
  shows "table_ok uas'"
proof -
  obtain q where q: "annotate_via raw x src port request = Inr q"
    using res by (auto simp: handleIncomingRequestFromTransportLayer_def split: sum.splits)
  consider (same) "uas' = uas"
    | (matched) uiTxId st out' st' where "find_transaction x q (tu_mServerTransactions uas) = Inr (Some (uiTxId, st))"
        "onRequestReceived q st = Inr (out', st')" "uas' = store_server_result uiTxId out' st' uas"
    | (fresh) uiTxId out' where
        "beginServerTransaction x rnd b (processIncomingRequestFromTransactionLayer x q) q src port proto uas = Inr (uiTxId, out', uas')"
  proof (cases "case getBranchParameter (ext_attributes x) q of None \<Rightarrow> False | Some branch \<Rightarrow> starts_with branch ''z9hG4bK''")
    case True
    then obtain branch where b: "getBranchParameter (ext_attributes x) q = Some branch" "starts_with branch ''z9hG4bK''"
      by (auto split: option.splits)
    note res' = res [unfolded handleIncomingRequestFromTransportLayer_def q sum.case b option.case]
    show ?thesis
    proof (cases "find_transaction x q (tu_mServerTransactions uas)")
      case (Inr r)
      show ?thesis
      proof (cases r)
        case None
        then show ?thesis using res' Inr b(2) fresh by (auto split: sum.splits)
      next
        case (Some p)
        then show ?thesis using res' Inr b(2) matched by (cases p) (auto split: sum.splits)
      qed
    qed (use res' b(2) in auto)
  next
    case False
    then show ?thesis using res q same by (auto simp: handleIncomingRequestFromTransportLayer_def split: option.splits if_splits)
  qed
  then show ?thesis
  proof cases
    case matched
    have "omap_ok (tu_mServerTransactions uas)" using t by (simp add: table_ok_def)
    then have "map_of (tu_mServerTransactions uas) uiTxId = Some st" using find_transaction_entry [OF matched(1)] by (simp add: omap_lookup)
    then obtain h where h: "uiTxId < tu_uiLastTxId uas" "\<not> st_terminated st" "st_inv h st" by (rule table_entry [OF t])
    show ?thesis unfolding matched(3) by (rule store_keeps_table [OF t h(1,3,2) onRequestReceived_keeps [OF h(3) matched(2)]])
  next
    case fresh
    then show ?thesis using begin_keeps_table [OF t last] by blast
  qed (use t in simp)
qed

lemma uas_reachable_table: "uas_reachable x uas \<Longrightarrow> table_ok uas"
proof (induction rule: uas_reachable.induct)
  case (start uas)
  then show ?case by (simp add: table_ok_def)
next
  case (step uas e out uas')
  show ?case
  proof (cases e)
    case (Incoming raw rnd b request src port proto)
    then show ?thesis using step incoming_keeps_table by (auto simp: ua_handle_def)
  next
    case (App_ringing rnd b txid)
    then show ?thesis using step respond_with_keeps_table forget_error_InrD by (fastforce simp: ua_handle_def ringing_def)
  next
    case (App_reject rnd b txid)
    then show ?thesis using step respond_with_keeps_table forget_error_InrD by (fastforce simp: ua_handle_def reject_def)
  next
    case (App_accept rnd b txid sdp)
    then show ?thesis using step uas_accept_keeps_table forget_error_InrD by (fastforce simp: ua_handle_def)
  next
    case (Timer txid t)
    then show ?thesis using step server_timer_keeps_table by (auto simp: ua_handle_def)
  qed
qed

lemma timer_total:
  assumes "st_timers s" "is_timer e" "st_enabled e s"
  shows "\<exists>out s'. st_handle e s = Inr (out, s')"
proof -
  note timer = handleTimerGTimeout_def handleTimerHTimeout_def handleTimerITimeout_def handleTimerJTimeout_def
  show ?thesis
    using assms by (cases e; cases "st_eTxType s"; cases "st_eInviteState s")
      (auto simp: is_timer_def st_handle_def st_enabled_def timer st_timers_def st_state_defs)
qed

lemma server_timer_total:
  assumes t: "table_ok uas" and e: "is_timer e"
  shows "\<not> isl (server_timer txid e uas)"
proof (cases "map_of (tu_mServerTransactions uas) txid")
  case None
  then show ?thesis by (simp add: server_timer_def)
next
  case (Some st)
  obtain h where "st_inv h st" by (rule table_entry [OF t Some])
  then have "st_timers st" by (simp add: st_inv_def)
  then show ?thesis using timer_total [OF _ e, of st] Some by (auto simp: server_timer_def)
qed

lemma live_pending:
  assumes "st_live st" "st_completed st"
  shows "st_timerH st \<noteq> None \<or> st_timerI st \<noteq> None \<or> st_timerJ st \<noteq> None"
proof -
  have "st_timers st" "\<not> st_terminated st" using assms(1) by (auto simp: st_live_def st_inv_def)
  then show ?thesis
    using assms(2) by (cases "st_eTxType st"; cases "st_eInviteState st"; cases "st_eNonInviteState st") (auto simp: st_timers_def st_shape_defs)
qed

text \<open>
  C21: The table of server transactions is sound. In every reachable state of the user agent server the
  transactions have different numbers below the next one, none of them has terminated, each one with a final answer
  has a timer pending that will end it, and no timer of the table fails an assertion.
\<close>

theorem uas_transactions_live:
  assumes "uas_reachable x uas"
  shows "distinct (map fst (tu_mServerTransactions uas))
    \<and> (\<forall>(txid, st)\<in>set (tu_mServerTransactions uas). txid < tu_uiLastTxId uas \<and> \<not> st_terminated st
        \<and> (st_completed st \<longrightarrow> st_timerH st \<noteq> None \<or> st_timerI st \<noteq> None \<or> st_timerJ st \<noteq> None))
    \<and> (\<forall>txid t. is_timer t \<longrightarrow> \<not> isl (server_timer txid t uas))"
proof (intro conjI)
  have t: "table_ok uas" by (rule uas_reachable_table [OF assms])
  then show "distinct (map fst (tu_mServerTransactions uas))" by (simp add: table_ok_def omap_ok_distinct)
  have entry: "txid < tu_uiLastTxId uas" "st_live st" if "(txid, st) \<in> set (tu_mServerTransactions uas)" for txid st
    using t that by (auto simp: table_ok_def)
  then show "\<forall>(txid, st)\<in>set (tu_mServerTransactions uas). txid < tu_uiLastTxId uas \<and> \<not> st_terminated st
      \<and> (st_completed st \<longrightarrow> st_timerH st \<noteq> None \<or> st_timerI st \<noteq> None \<or> st_timerJ st \<noteq> None)"
    using live_pending by (fastforce simp: st_live_def)
  show "\<forall>txid e. is_timer e \<longrightarrow> \<not> isl (server_timer txid e uas)" using server_timer_total [OF t] by blast
qed

definition empty_uas :: UserAgentServer where
  "empty_uas = sample_uas\<lparr>tu_uiLastTxId := 0, tu_mServerTransactions := []\<rparr>"

definition branch_request :: SipMessage where
  "branch_request = addHeaderField ''Via'' ''SIP/2.0/UDP h;branch=z9hG4bKx'' (addHeaderField ''Max-Forwards'' ''70'' (addHeaderField ''Call-ID'' ''c1''
     (addHeaderField ''CSeq'' ''7 INVITE'' (addHeaderField ''From'' ''sip:a'' (addHeaderField ''To'' ''sip:b'' (SipMessage_request INVITE ''sip:b''))))))"

definition first_request :: "fault + ua_output list \<times> UserAgentServer" where
  "first_request = ua_handle sample_ext (Incoming (\<lambda>s. split_on [] s CHR '';'') ''x1y2'' True branch_request ''h'' 5060 TP_UDP) empty_uas"

lemma first_request_table:
  "case first_request of Inl f \<Rightarrow> False | Inr (out, uas) \<Rightarrow> length (tu_mServerTransactions uas) = 1 \<and> tu_uiLastTxId uas = 1"
  by code_simp

theorem uas_transactions_live_witness:
  "\<exists>out uas. first_request = Inr (out, uas) \<and> length (tu_mServerTransactions uas) = 1
     \<and> (\<forall>(txid, st)\<in>set (tu_mServerTransactions uas). txid < 1 \<and> \<not> st_terminated st)"
proof -
  obtain out uas where r: "first_request = Inr (out, uas)" "length (tu_mServerTransactions uas) = 1" "tu_uiLastTxId uas = 1"
    using first_request_table by (auto split: sum.splits)
  have "uas_reachable sample_ext empty_uas" by (rule uas_reachable.start) (simp_all add: empty_uas_def)
  then have "uas_reachable sample_ext uas"
    by (rule uas_reachable.step [OF _ _ _ r(1) [unfolded first_request_def]]) (simp_all add: empty_uas_def)
  then show ?thesis using uas_transactions_live [of sample_ext uas] r by fastforce
qed

section \<open>Requests that find no transaction\<close>

text \<open>A retransmitted INVITE never matches the transaction it started, and starts another one.\<close>

lemma invite_never_matches: "sm_sMethod q = ''INVITE'' \<Longrightarrow> find_transaction x q ps \<noteq> Inr (Some p)"
  by (induction ps) (auto simp: matches_method_def split: sum.split)

definition repeated_request :: "fault + ua_output list \<times> UserAgentServer" where
  "repeated_request = (case first_request of Inl f \<Rightarrow> Inl f
     | Inr (out, uas) \<Rightarrow> ua_handle sample_ext (Incoming (\<lambda>s. split_on [] s CHR '';'') ''q3w4'' True branch_request ''h'' 5060 TP_UDP) uas)"

lemma invite_retransmission_starts_second_transaction:
  "case repeated_request of Inl f \<Rightarrow> False
   | Inr (out, uas) \<Rightarrow> length (tu_mServerTransactions uas) = 2 \<and> list_ex (\<lambda>e. case e of On_invite i m \<Rightarrow> i = 1 | _ \<Rightarrow> False) out"
  by code_simp

text \<open>An ACK without a transaction of its own, such as that of a 200 response, starts one that no timer ends.\<close>

lemma unmatched_ack_lingers:
  assumes ack: "sm_eMethod q = ACK" and to: "getHeaderField ''To'' q = Some to" "\<not> contains to ''tag=''"
    and res: "beginServerTransaction x rnd b (processIncomingRequestFromTransactionLayer x q) q src port proto uas = Inr (uiTxId, out, uas')"
  shows "\<exists>st. map_of (tu_mServerTransactions uas') uiTxId = Some st \<and> out = [] \<and> st_eNonInviteState st = STXS_NI_TRYING
    \<and> (\<forall>t. is_timer t \<longrightarrow> \<not> st_enabled t st)"
proof -
  have p: "processIncomingRequestFromTransactionLayer x q txid r u = Inr (False, r, [], u)" for txid r u
    using ack to by (simp add: processIncomingRequestFromTransactionLayer_def processRequestOutsideOfDialog_def isMethodAllowed_def)
  let ?new = "ServerTransaction_new (tu_sipContext uas) q src port proto"
  obtain r s where g: "generateResponse (ext_attributes x) rnd NOT_SET ?new = Inr (r, s)"
    using res by (auto simp: beginServerTransaction_def ServerTransaction_create_def Let_def split: sum.splits)
  obtain t where s: "s = ?new\<lparr>st_toTag := t\<rparr>" by (rule generateResponse_state [OF g])
  have "sm_eResponseCode r = 0" by (rule generateResponse_fields(3) [OF g])
  then have a: "answer_request b False r s = Inr ([], s)"
    using ack by (simp add: answer_request_def s ServerTransaction_new_def code_defs)
  have "out = [] \<and> map_of (tu_mServerTransactions uas') uiTxId = Some s"
    using res by (auto simp: beginServerTransaction_def ServerTransaction_create_def Let_def g p a)
  then show ?thesis
    by (auto simp: s ServerTransaction_new_def is_timer_def st_enabled_def split: st_event.splits)
qed

end
