(* ===== verification/Codec_Bits.thy ===== *)
theory Codec_Bits
  imports Bit_Stream
begin

text \<open>
  The bit streams of the video codecs (\<open>CodecUtils/BitStreamBaseMSB.h\<close>, \<open>BitStreamWriterMSB.cpp\<close>,
  \<open>BitStreamReaderMSB.cpp\<close>): a cursor of byte and bit, the most significant bit first, in a buffer of octets. Their interfaces
  \<open>IBitStreamWriter.h\<close> and \<open>IBitStreamReader.h\<close> are records of operations with a locale each, which the
  two classes interpret. An access outside the buffer is an error.
\<close>

unbundle bit_operations_syntax

section \<open>The cursor\<close>

record BitStreamMSB =
  bsm_bitStream :: bytes
  bsm_bitSize :: int
  bsm_bytePos :: nat
  bsm_bitPos :: nat

definition SetStream :: "bytes \<Rightarrow> int \<Rightarrow> BitStreamMSB" where
  "SetStream stream bitSize = \<lparr>bsm_bitStream = stream, bsm_bitSize = bitSize, bsm_bytePos = 0, bsm_bitPos = 7\<rparr>"

definition Reset :: "BitStreamMSB \<Rightarrow> BitStreamMSB" where
  "Reset s = s\<lparr>bsm_bytePos := 0, bsm_bitPos := 7\<rparr>"

text \<open>\<open>Seek\<close> and \<open>GetStreamBitPos\<close> take the bit of the cursor as if it counted from the front.\<close>

definition Seek :: "nat \<Rightarrow> BitStreamMSB \<Rightarrow> bool \<times> BitStreamMSB" where
  "Seek streamBitPos s =
     (if int streamBitPos \<ge> bsm_bitSize s then (False, s)
      else (True, s\<lparr>bsm_bytePos := streamBitPos div 8, bsm_bitPos := streamBitPos mod 8\<rparr>))"

definition GetStreamBitPos :: "BitStreamMSB \<Rightarrow> nat" where
  "GetStreamBitPos s = 8 * bsm_bytePos s + bsm_bitPos s"

definition GetStreamBitsRemaining :: "BitStreamMSB \<Rightarrow> int" where
  "GetStreamBitsRemaining s = bsm_bitSize s - (8 * int (bsm_bytePos s) + (7 - int (bsm_bitPos s)))"

definition advance :: "BitStreamMSB \<Rightarrow> BitStreamMSB" where
  "advance s = (if bsm_bitPos s > 0 then s\<lparr>bsm_bitPos := bsm_bitPos s - 1\<rparr> else s\<lparr>bsm_bitPos := 7, bsm_bytePos := bsm_bytePos s + 1\<rparr>)"

definition put_bit :: "bool \<Rightarrow> nat \<Rightarrow> u8 \<Rightarrow> u8" where
  "put_bit b pos c = (if b then c OR push_bit pos 1 else c AND NOT (push_bit pos 1))"

section \<open>Writing\<close>

definition BitStreamWriterMSB_Write :: "bool \<Rightarrow> BitStreamMSB \<Rightarrow> fault + BitStreamMSB" where
  "BitStreamWriterMSB_Write val s =
     (if bsm_bytePos s < length (bsm_bitStream s)
      then Inr (advance (s\<lparr>bsm_bitStream := (bsm_bitStream s)[bsm_bytePos s := put_bit val (bsm_bitPos s) (bsm_bitStream s ! bsm_bytePos s)]\<rparr>))
      else Inl Buffer_overflow)"

text \<open>
  The loop of \<open>Write(numBits, val)\<close> works on a copy of the current octet, which it stores when the octet is full and at the
  end. After a full octet the next one is read. A shift by \<open>numBits - 1\<close> for \<open>numBits = 0\<close> is undefined in
  C++; its result is not used.
\<close>

fun write_loop :: "nat \<Rightarrow> u32 \<Rightarrow> u8 \<Rightarrow> BitStreamMSB \<Rightarrow> fault + u8 \<times> BitStreamMSB" where
  "write_loop 0 val cachedByte s = Inr (cachedByte, s)"
| "write_loop (Suc i) val cachedByte s =
     (let cachedByte1 = put_bit (bit val i) (bsm_bitPos s) cachedByte
      in if bsm_bitPos s > 0 then write_loop i val cachedByte1 (s\<lparr>bsm_bitPos := bsm_bitPos s - 1\<rparr>)
         else let s1 = s\<lparr>bsm_bitStream := (bsm_bitStream s)[bsm_bytePos s := cachedByte1], bsm_bitPos := 7, bsm_bytePos := bsm_bytePos s + 1\<rparr>
              in if bsm_bytePos s1 < length (bsm_bitStream s1) then write_loop i val (bsm_bitStream s1 ! bsm_bytePos s1) s1 else Inl Buffer_overflow)"

definition BitStreamWriterMSB_WriteBits :: "nat \<Rightarrow> u32 \<Rightarrow> BitStreamMSB \<Rightarrow> fault + BitStreamMSB" where
  "BitStreamWriterMSB_WriteBits numBits val s =
     (if bsm_bytePos s < length (bsm_bitStream s)
      then map_sum id (\<lambda>(cachedByte, s1). s1\<lparr>bsm_bitStream := (bsm_bitStream s1)[bsm_bytePos s1 := cachedByte]\<rparr>)
             (write_loop numBits val (bsm_bitStream s ! bsm_bytePos s) s)
      else Inl Buffer_overflow)"

definition BitStreamWriterMSB_Write64 :: "nat \<Rightarrow> u32 \<Rightarrow> u32 \<Rightarrow> BitStreamMSB \<Rightarrow> fault + BitStreamMSB" where
  "BitStreamWriterMSB_Write64 numBits valH valL s =
     (if numBits > 32
      then (case BitStreamWriterMSB_WriteBits (numBits - 32) valH s of Inl f \<Rightarrow> Inl f | Inr s1 \<Rightarrow> BitStreamWriterMSB_WriteBits 32 valL s1)
      else BitStreamWriterMSB_WriteBits numBits valL s)"

fun poke_loop :: "nat \<Rightarrow> u32 \<Rightarrow> nat \<Rightarrow> nat \<Rightarrow> bytes \<Rightarrow> fault + bytes" where
  "poke_loop 0 val bytePos bitPos bs = Inr bs"
| "poke_loop (Suc i) val bytePos bitPos bs =
     (if bytePos < length bs
      then let bs1 = bs[bytePos := put_bit (bit val i) bitPos (bs ! bytePos)]
           in if bitPos > 0 then poke_loop i val bytePos (bitPos - 1) bs1 else poke_loop i val (bytePos + 1) 7 bs1
      else Inl Buffer_overflow)"

definition Poke :: "nat \<Rightarrow> nat \<Rightarrow> u32 \<Rightarrow> BitStreamMSB \<Rightarrow> fault + BitStreamMSB" where
  "Poke bitLoc numBits val s =
     map_sum id (\<lambda>bs. s\<lparr>bsm_bitStream := bs\<rparr>) (poke_loop numBits val (bitLoc div 8) (bitLoc mod 8) (bsm_bitStream s))"

section \<open>Reading\<close>

definition BitStreamReaderMSB_Read :: "BitStreamMSB \<Rightarrow> fault + bool \<times> BitStreamMSB" where
  "BitStreamReaderMSB_Read s =
     (if bsm_bytePos s < length (bsm_bitStream s) then Inr (bit (bsm_bitStream s ! bsm_bytePos s) (bsm_bitPos s), advance s) else Inl Out_of_range)"

definition put_bit32 :: "bool \<Rightarrow> nat \<Rightarrow> u32 \<Rightarrow> u32" where
  "put_bit32 c i b = (if c then b OR push_bit i 1 else b AND NOT (push_bit i 1))"

fun read_loop :: "nat \<Rightarrow> u32 \<Rightarrow> BitStreamMSB \<Rightarrow> fault + u32 \<times> BitStreamMSB" where
  "read_loop 0 b s = Inr (b, s)"
| "read_loop (Suc i) b s =
     (if bsm_bytePos s < length (bsm_bitStream s)
      then read_loop i (put_bit32 (bit (bsm_bitStream s ! bsm_bytePos s) (bsm_bitPos s)) i b) (advance s)
      else Inl Out_of_range)"

definition BitStreamReaderMSB_ReadBits :: "nat \<Rightarrow> BitStreamMSB \<Rightarrow> fault + u32 \<times> BitStreamMSB" where
  "BitStreamReaderMSB_ReadBits numBits s = read_loop numBits 0 s"

definition Peek :: "nat \<Rightarrow> nat \<Rightarrow> BitStreamMSB \<Rightarrow> fault + u32" where
  "Peek bitLoc numBits s = map_sum id fst (read_loop numBits 0 (s\<lparr>bsm_bytePos := bitLoc div 8, bsm_bitPos := bitLoc mod 8\<rparr>))"

section \<open>The interfaces\<close>

record 'r IBitStreamReader =
  ir_Read :: "'r \<Rightarrow> fault + bool \<times> 'r"
  ir_ReadBits :: "nat \<Rightarrow> 'r \<Rightarrow> fault + u32 \<times> 'r"
  ir_GetStreamBitsRemaining :: "'r \<Rightarrow> int"

record 'w IBitStreamWriter =
  iw_Write :: "bool \<Rightarrow> 'w \<Rightarrow> fault + 'w"
  iw_WriteBits :: "nat \<Rightarrow> u32 \<Rightarrow> 'w \<Rightarrow> fault + 'w"
  iw_GetStreamBitsRemaining :: "'w \<Rightarrow> int"

definition BitStreamReaderMSB :: "BitStreamMSB IBitStreamReader" where
  "BitStreamReaderMSB = \<lparr>ir_Read = BitStreamReaderMSB_Read, ir_ReadBits = BitStreamReaderMSB_ReadBits,
     ir_GetStreamBitsRemaining = GetStreamBitsRemaining\<rparr>"

definition BitStreamWriterMSB :: "BitStreamMSB IBitStreamWriter" where
  "BitStreamWriterMSB = \<lparr>iw_Write = BitStreamWriterMSB_Write, iw_WriteBits = BitStreamWriterMSB_WriteBits,
     iw_GetStreamBitsRemaining = GetStreamBitsRemaining\<rparr>"

text \<open>
  What the codecs rely on: the bits to come of a reader, the bits so far and the room of a writer. A read of bits leaves the
  reader that many bits on, a write appends them. A writer may need one bit more of room than it writes.
\<close>

locale bit_reader =
  fixes R :: "'r IBitStreamReader"
    and rbits :: "'r \<Rightarrow> bool list"
    and skip :: "nat \<Rightarrow> 'r \<Rightarrow> 'r"
  assumes skip_bits: "rbits (skip n r) = drop n (rbits r)"
    and skip_skip: "skip n (skip m r) = skip (m + n) r"
    and skip_none: "rbits r \<noteq> [] \<Longrightarrow> skip 0 r = r"
    and read_bit: "rbits r = b # bs \<Longrightarrow> ir_Read R r = Inr (b, skip 1 r)"
    and read_bits: "\<lbrakk>n \<le> 32; n \<le> length (rbits r); rbits r \<noteq> []\<rbrakk> \<Longrightarrow>
      ir_ReadBits R n r = Inr (of_nat (of_bits (take n (rbits r))), skip n r)"
    and read_none: "ir_ReadBits R 0 r = Inr (0, r)"
    and remaining: "rbits r \<noteq> [] \<Longrightarrow> ir_GetStreamBitsRemaining R r = int (length (rbits r))"
begin
end

locale bit_writer =
  fixes W :: "'w IBitStreamWriter"
    and wbits :: "'w \<Rightarrow> bool list"
    and room :: "'w \<Rightarrow> nat"
    and put :: "bool list \<Rightarrow> 'w \<Rightarrow> 'w"
  assumes put_nil: "put [] w = w"
    and put_put: "put bs (put cs w) = put (cs @ bs) w"
    and put_bits: "length bs \<le> room w \<Longrightarrow> wbits (put bs w) = wbits w @ bs"
    and put_room: "length bs \<le> room w \<Longrightarrow> room (put bs w) = room w - length bs"
    and write_bit: "0 < room w \<Longrightarrow> iw_Write W b w = Inr (put [b] w)"
    and write_bits: "\<lbrakk>n \<le> 32; n < room w\<rbrakk> \<Longrightarrow> iw_WriteBits W n v w = Inr (put (to_bits n (unat v)) w)"
    and room_remaining: "0 < room w \<Longrightarrow> iw_GetStreamBitsRemaining W w = int (room w)"
begin
end

section \<open>The bits of a stream\<close>

definition stream_pos :: "BitStreamMSB \<Rightarrow> nat" where
  "stream_pos s = 8 * bsm_bytePos s + (7 - bsm_bitPos s)"

definition stream_ok :: "BitStreamMSB \<Rightarrow> bool" where
  "stream_ok s \<longleftrightarrow> bsm_bitPos s \<le> 7 \<and> 0 \<le> bsm_bitSize s \<and> bsm_bitSize s \<le> 8 * int (length (bsm_bitStream s))"

definition bits_to_come :: "BitStreamMSB \<Rightarrow> bool list" where
  "bits_to_come s = (if stream_ok s then drop (stream_pos s) (take (nat (bsm_bitSize s)) (bytes_bits (bsm_bitStream s))) else [])"

definition skip_ahead :: "nat \<Rightarrow> BitStreamMSB \<Rightarrow> BitStreamMSB" where
  "skip_ahead n s = (if bsm_bitPos s \<le> 7
     then s\<lparr>bsm_bytePos := (stream_pos s + n) div 8, bsm_bitPos := 7 - (stream_pos s + n) mod 8\<rparr> else s)"

definition bits_so_far :: "BitStreamMSB \<Rightarrow> bool list" where
  "bits_so_far s = take (stream_pos s) (bytes_bits (bsm_bitStream s))"

definition stream_room :: "BitStreamMSB \<Rightarrow> nat" where
  "stream_room s = (if stream_ok s then nat (bsm_bitSize s) - stream_pos s else 0)"

definition put_one :: "BitStreamMSB \<Rightarrow> bool \<Rightarrow> BitStreamMSB" where
  "put_one s b = advance (s\<lparr>bsm_bitStream := (bsm_bitStream s)[bsm_bytePos s := put_bit b (bsm_bitPos s) (bsm_bitStream s ! bsm_bytePos s)]\<rparr>)"

definition put_all :: "bool list \<Rightarrow> BitStreamMSB \<Rightarrow> BitStreamMSB" where
  "put_all bs s = foldl put_one s bs"

lemma to_bits_nth: "j < n \<Longrightarrow> to_bits n v ! j = bit v (n - 1 - j)"
  by (induction n arbitrary: j) (auto simp: nth_Cons bit_iff_odd split: nat.splits)

lemma bit_of_unat: "bit (unat w) n = bit w n"
  by transfer (simp add: bit_take_bit_iff bit_nat_iff)

lemma bytes_bits_nth: "j < 8 \<Longrightarrow> i < length bs \<Longrightarrow> bytes_bits bs ! (8 * i + j) = bit (bs ! i) (7 - j)"
proof (induction bs arbitrary: i)
  case (Cons b bs)
  show ?case
  proof (cases i)
    case 0
    with Cons.prems show ?thesis by (simp add: nth_append to_bits_nth bit_of_unat)
  next
    case (Suc k)
    with Cons show ?thesis by (simp add: nth_append)
  qed
qed simp

lemma bit_cases: "(b :: nat) \<le> 7 \<Longrightarrow> b = 0 \<or> b = 1 \<or> b = 2 \<or> b = 3 \<or> b = 4 \<or> b = 5 \<or> b = 6 \<or> b = 7"
  by linarith

lemma mod_mult_add8: "(8 * p + k) mod 8 = k mod (8 :: nat)"
  by simp

lemma cursor_div: "b \<le> 7 \<Longrightarrow> (8 * p + (7 - b)) div 8 = (p :: nat)"
  by simp

lemma cursor_mod: "b \<le> 7 \<Longrightarrow> 7 - (8 * p + (7 - b)) mod 8 = (b :: nat)"
  by (simp only: mod_mult_add8) simp

lemma cursor_next_div: "b \<le> 7 \<Longrightarrow> (8 * p + (7 - b) + 1) div 8 = (if b > 0 then p else p + 1 :: nat)"
  by (drule bit_cases, elim disjE; simp)

lemma cursor_next_mod: "b \<le> 7 \<Longrightarrow> 7 - (8 * p + (7 - b) + 1) mod 8 = (if b > 0 then b - 1 else 7 :: nat)"
  by (simp only: add.assoc mod_mult_add8) (cases b, simp_all)

lemma cursor_pos: "8 * (x div 8) + (7 - (7 - x mod 8)) = (x :: nat)"
proof -
  have "7 - (7 - x mod 8) = x mod 8" using mod_less_divisor [of 8 x] by linarith
  then show ?thesis by simp
qed

lemma stream_pos_next:
  assumes "bsm_bitPos s \<le> 7"
  shows "advance s = skip_ahead 1 s"
  using assms by (simp only: advance_def skip_ahead_def stream_pos_def cursor_next_div cursor_next_mod if_True) simp

lemma stream_pos_skip: "bsm_bitPos s \<le> 7 \<Longrightarrow> stream_pos (skip_ahead n s) = stream_pos s + n"
  by (subst (1) stream_pos_def) (simp add: skip_ahead_def cursor_pos del: diff_diff_cancel)

lemma skip_ahead_fields [simp]:
  "bsm_bitStream (skip_ahead n s) = bsm_bitStream s" "bsm_bitSize (skip_ahead n s) = bsm_bitSize s"
  by (simp_all add: skip_ahead_def)

lemma skip_ahead_bitPos [simp]: "bsm_bitPos (skip_ahead n s) \<le> 7 \<longleftrightarrow> bsm_bitPos s \<le> 7"
  by (auto simp: skip_ahead_def)

lemma stream_ok_skip [simp]: "stream_ok (skip_ahead n s) = stream_ok s"
  by (auto simp: stream_ok_def)

lemma skip_ahead_bits: "bits_to_come (skip_ahead n s) = drop n (bits_to_come s)"
  by (simp add: bits_to_come_def stream_pos_skip stream_ok_def [of s] add.commute)

lemma skip_ahead_skip: "skip_ahead n (skip_ahead m s) = skip_ahead (m + n) s"
proof (cases "bsm_bitPos s \<le> 7")
  case True
  then have "skip_ahead n (skip_ahead m s) = (skip_ahead m s)\<lparr>bsm_bytePos := (stream_pos s + m + n) div 8, bsm_bitPos := 7 - (stream_pos s + m + n) mod 8\<rparr>"
    by (simp add: skip_ahead_def [of n] stream_pos_skip)
  also have "\<dots> = skip_ahead (m + n) s"
    using True by (simp add: skip_ahead_def add.assoc)
  finally show ?thesis .
qed (simp add: skip_ahead_def)

lemma skip_ahead_none: "bsm_bitPos s \<le> 7 \<Longrightarrow> skip_ahead 0 s = s"
  by (simp only: skip_ahead_def stream_pos_def cursor_div cursor_mod add_0_right if_True) simp

lemma next_bit:
  assumes "bits_to_come s = b # bs"
  shows "bsm_bitPos s \<le> 7" and "bsm_bytePos s < length (bsm_bitStream s)" and "bit (bsm_bitStream s ! bsm_bytePos s) (bsm_bitPos s) = b"
proof -
  from assms have ok: "stream_ok s" by (auto simp: bits_to_come_def split: if_splits)
  then show p: "bsm_bitPos s \<le> 7" by (simp add: stream_ok_def)
  let ?bb = "take (nat (bsm_bitSize s)) (bytes_bits (bsm_bitStream s))"
  from assms ok have d: "drop (stream_pos s) ?bb = b # bs" by (simp add: bits_to_come_def)
  then have l: "stream_pos s < length ?bb" using leI by fastforce
  then have "stream_pos s < 8 * length (bsm_bitStream s)" by simp
  then show len: "bsm_bytePos s < length (bsm_bitStream s)" by (simp add: stream_pos_def)
  from d l have "?bb ! stream_pos s = b" by (simp add: nth_via_drop)
  with l have "bytes_bits (bsm_bitStream s) ! (8 * bsm_bytePos s + (7 - bsm_bitPos s)) = b" by (simp add: stream_pos_def)
  with p len show "bit (bsm_bitStream s ! bsm_bytePos s) (bsm_bitPos s) = b" by (subst (asm) bytes_bits_nth) auto
qed

lemma read_law: "bits_to_come s = b # bs \<Longrightarrow> BitStreamReaderMSB_Read s = Inr (b, skip_ahead 1 s)"
  using next_bit [of s b bs] by (simp add: BitStreamReaderMSB_Read_def stream_pos_next)

lemma bit_of_bits: "bit (of_bits bs) k \<longleftrightarrow> k < length bs \<and> bs ! (length bs - 1 - k)"
proof (cases "k < length bs")
  case True
  then have "to_bits (length bs) (of_bits bs) ! (length bs - 1 - k) = bit (of_bits bs) k" by (subst to_bits_nth) auto
  with True show ?thesis by (simp add: to_bits_of_bits)
next
  case False
  then have "of_bits bs < 2 ^ k" using of_bits_less [of bs] by (meson less_le_trans not_less one_le_numeral power_increasing)
  with False show ?thesis by (simp add: bit_iff_odd)
qed

lemma bit_put_bit32: "i < 32 \<Longrightarrow> bit (put_bit32 b i acc) k = (if k = i then b else bit acc k)"
  by (auto simp: put_bit32_def bit_simps dest: bit_imp_le_length)

lemma read_loop_law:
  "\<lbrakk>bits_to_come s = bs @ rest; length bs = n; n \<le> 32; bsm_bitPos s \<le> 7\<rbrakk> \<Longrightarrow>
   \<exists>v. read_loop n acc s = Inr (v, skip_ahead n s) \<and> (\<forall>k. bit v k = (if k < n then bs ! (n - 1 - k) else bit acc k))"
proof (induction n arbitrary: bs acc s)
  case 0
  then show ?case by (simp add: skip_ahead_none)
next
  case (Suc n)
  then obtain b cs where bs: "bs = b # cs" by (cases bs) auto
  let ?acc = "put_bit32 b n acc"
  from Suc.prems bs have nx: "bits_to_come s = b # (cs @ rest)" by simp
  note nb = next_bit [OF nx]
  have "bits_to_come (skip_ahead 1 s) = cs @ rest" using nx by (simp add: skip_ahead_bits)
  then obtain v where v: "read_loop n ?acc (skip_ahead 1 s) = Inr (v, skip_ahead n (skip_ahead 1 s))"
    and vb: "\<forall>k. bit v k = (if k < n then cs ! (n - 1 - k) else bit ?acc k)"
    using Suc.IH [of "skip_ahead 1 s" cs ?acc] Suc.prems bs by auto
  have "read_loop (Suc n) acc s = Inr (v, skip_ahead (Suc n) s)"
    using nb v by (simp add: stream_pos_next skip_ahead_skip)
  moreover have "\<forall>k. bit v k = (if k < Suc n then bs ! (Suc n - 1 - k) else bit acc k)"
  proof
    fix k
    have "k < n \<Longrightarrow> n - k = Suc (n - Suc k)" by simp
    then show "bit v k = (if k < Suc n then bs ! (Suc n - 1 - k) else bit acc k)"
      using vb Suc.prems(3) bs by (cases k n rule: linorder_cases) (simp_all add: bit_put_bit32)
  qed
  ultimately show ?case by blast
qed

lemma read_bits_law:
  assumes "n \<le> 32" "n \<le> length (bits_to_come s)" "bits_to_come s \<noteq> []"
  shows "BitStreamReaderMSB_ReadBits n s = Inr (of_nat (of_bits (take n (bits_to_come s))), skip_ahead n s)"
proof -
  let ?bs = "take n (bits_to_come s)"
  obtain b cs where nx: "bits_to_come s = b # cs" using assms(3) by (cases "bits_to_come s") auto
  have "\<exists>v. read_loop n 0 s = Inr (v, skip_ahead n s) \<and> (\<forall>k. bit v k = (if k < n then ?bs ! (n - 1 - k) else bit (0 :: u32) k))"
    by (rule read_loop_law [of s ?bs "drop n (bits_to_come s)"]) (use assms next_bit(1) [OF nx] in simp_all)
  then obtain v where v: "read_loop n 0 s = Inr (v, skip_ahead n s)" and vb: "\<forall>k. bit v k = (if k < n then ?bs ! (n - 1 - k) else bit (0 :: u32) k)"
    by blast
  have "v = of_nat (of_bits ?bs)"
    by (rule bit_word_eqI) (use assms vb in \<open>simp add: bit_of_nat_iff bit_of_bits min_def possible_bit_word\<close>)
  with v show ?thesis by (simp add: BitStreamReaderMSB_ReadBits_def)
qed

lemma remaining_law: "bits_to_come s \<noteq> [] \<Longrightarrow> GetStreamBitsRemaining s = int (length (bits_to_come s))"
  by (auto simp: bits_to_come_def GetStreamBitsRemaining_def stream_ok_def stream_pos_def min_def split: if_splits)

lemma read_none_law: "BitStreamReaderMSB_ReadBits 0 s = Inr (0, s)"
  by (simp add: BitStreamReaderMSB_ReadBits_def)

interpretation msb_reader: bit_reader BitStreamReaderMSB bits_to_come skip_ahead
  by unfold_locales (simp_all add: BitStreamReaderMSB_def skip_ahead_bits skip_ahead_skip read_law read_bits_law read_none_law remaining_law,
    metis list.exhaust next_bit(1) skip_ahead_none)

text \<open>Writing: a write of many bits through the cached octet is the write of its bits one by one.\<close>

lemma bit_put_bit: "k < 8 \<Longrightarrow> bit (put_bit b k c) j = (if j = k then b else bit c j)"
  by (auto simp: put_bit_def bit_simps dest: bit_imp_le_length)

lemma bytes_bits_put:
  assumes "i < length bs" "k \<le> 7"
  shows "bytes_bits (bs[i := put_bit b k (bs ! i)]) = (bytes_bits bs)[8 * i + (7 - k) := b]"
proof (rule nth_equalityI)
  show "length (bytes_bits (bs[i := put_bit b k (bs ! i)])) = length ((bytes_bits bs)[8 * i + (7 - k) := b])" by simp
next
  fix m assume "m < length (bytes_bits (bs[i := put_bit b k (bs ! i)]))"
  then have m: "m < 8 * length bs" by simp
  define q r where "q = m div 8" and "r = m mod 8"
  then have qr: "m = 8 * q + r" "r < 8" "q < length bs" using m by auto
  have eq: "m = 8 * i + (7 - k) \<longleftrightarrow> q = i \<and> r = 7 - k"
  proof
    assume e: "m = 8 * i + (7 - k)"
    then have "q = i" unfolding q_def using cursor_div [OF assms(2)] by blast
    then show "q = i \<and> r = 7 - k" using e qr(1) by linarith
  qed (use qr(1) in simp)
  have "bytes_bits (bs[i := put_bit b k (bs ! i)]) ! m = bit (bs[i := put_bit b k (bs ! i)] ! q) (7 - r)"
    unfolding qr(1) using qr by (simp add: bytes_bits_nth)
  also have "\<dots> = (if q = i \<and> r = 7 - k then b else bit (bs ! q) (7 - r))"
    using qr assms by (auto simp: bit_put_bit nth_list_update)
  also have "\<dots> = (if q = i \<and> r = 7 - k then b else bytes_bits bs ! m)"
    unfolding qr(1) using qr by (simp add: bytes_bits_nth)
  also have "\<dots> = (bytes_bits bs)[8 * i + (7 - k) := b] ! m"
    using eq m by (auto simp: nth_list_update)
  finally show "bytes_bits (bs[i := put_bit b k (bs ! i)]) ! m = (bytes_bits bs)[8 * i + (7 - k) := b] ! m" .
qed

lemma put_one_effect:
  assumes "bsm_bitPos s \<le> 7" "stream_pos s < 8 * length (bsm_bitStream s)"
  shows "bytes_bits (bsm_bitStream (put_one s b)) = (bytes_bits (bsm_bitStream s))[stream_pos s := b]"
    and "stream_pos (put_one s b) = stream_pos s + 1" and "bsm_bitPos (put_one s b) \<le> 7"
    and "bsm_bitSize (put_one s b) = bsm_bitSize s" and "length (bsm_bitStream (put_one s b)) = length (bsm_bitStream s)"
proof -
  let ?s = "s\<lparr>bsm_bitStream := (bsm_bitStream s)[bsm_bytePos s := put_bit b (bsm_bitPos s) (bsm_bitStream s ! bsm_bytePos s)]\<rparr>"
  have p: "put_one s b = skip_ahead 1 ?s" using assms by (simp add: put_one_def stream_pos_next)
  have i: "bsm_bytePos s < length (bsm_bitStream s)" using assms(2) by (simp add: stream_pos_def)
  show "bytes_bits (bsm_bitStream (put_one s b)) = (bytes_bits (bsm_bitStream s))[stream_pos s := b]"
    unfolding p stream_pos_def using bytes_bits_put [OF i assms(1)] by simp
  show "stream_pos (put_one s b) = stream_pos s + 1"
    unfolding p using assms by (subst stream_pos_skip) (simp_all add: stream_pos_def)
  show "bsm_bitPos (put_one s b) \<le> 7" "bsm_bitSize (put_one s b) = bsm_bitSize s"
    "length (bsm_bitStream (put_one s b)) = length (bsm_bitStream s)"
    unfolding p using assms by simp_all
qed

lemma put_one_so_far:
  assumes "bsm_bitPos s \<le> 7" "stream_pos s < 8 * length (bsm_bitStream s)"
  shows "bits_so_far (put_one s b) = bits_so_far s @ [b]"
proof -
  have "take (Suc n) (xs[n := b]) = take n xs @ [b]" if "n < length xs" for n and xs :: "bool list"
    using that by (simp add: take_Suc_conv_app_nth)
  then show ?thesis using assms by (simp add: bits_so_far_def put_one_effect)
qed

lemma put_all_effect:
  "\<lbrakk>stream_ok s; length bs \<le> stream_room s\<rbrakk> \<Longrightarrow> bits_so_far (put_all bs s) = bits_so_far s @ bs \<and> stream_ok (put_all bs s)
     \<and> stream_room (put_all bs s) = stream_room s - length bs"
proof (induction bs arbitrary: s)
  case (Cons b bs)
  then have p: "bsm_bitPos s \<le> 7" "stream_pos s < 8 * length (bsm_bitStream s)"
    by (auto simp: stream_ok_def stream_room_def)
  from Cons.prems p have ok: "stream_ok (put_one s b)" by (auto simp: stream_ok_def put_one_effect)
  then have r: "stream_room (put_one s b) = stream_room s - 1"
    using Cons.prems p by (simp add: stream_room_def put_one_effect)
  from Cons.IH [OF ok] Cons.prems r put_one_so_far [OF p, of b] show ?case by (simp add: put_all_def)
qed (simp add: put_all_def)

lemma put_all_nil: "put_all [] s = s"
  by (simp add: put_all_def)

lemma put_all_all: "put_all bs (put_all as' s) = put_all (as' @ bs) s"
  by (simp add: put_all_def)

definition flush :: "u8 \<Rightarrow> BitStreamMSB \<Rightarrow> BitStreamMSB" where
  "flush c s = s\<lparr>bsm_bitStream := (bsm_bitStream s)[bsm_bytePos s := c]\<rparr>"

lemma to_bits_word: "to_bits (Suc n) (unat v) = bit v n # to_bits n (unat v)"
  by (simp add: bit_of_unat [symmetric] bit_iff_odd)

lemma list_update_next: "xs[i := a, Suc i := xs ! Suc i] = xs[i := a]"
  by (metis list_update_id nth_list_update_neq n_not_Suc_n)

lemma write_loop_law:
  "\<lbrakk>bsm_bitPos s \<le> 7; bsm_bytePos s < length (bsm_bitStream s); stream_pos s + n < 8 * length (bsm_bitStream s)\<rbrakk> \<Longrightarrow>
   \<exists>c' s'. write_loop n v c s = Inr (c', s') \<and> flush c' s' = put_all (to_bits n (unat v)) (flush c s)"
proof (induction n arbitrary: c s)
  case 0
  then show ?case by (simp add: put_all_def)
next
  case (Suc n)
  let ?b = "bit v n" let ?c = "put_bit ?b (bsm_bitPos s) c"
  show ?case
  proof (cases "bsm_bitPos s > 0")
    case True
    let ?s = "s\<lparr>bsm_bitPos := bsm_bitPos s - 1\<rparr>"
    have p1: "bsm_bitPos s - Suc 0 \<le> 7" using Suc.prems(1) by linarith
    have q1: "stream_pos ?s + n < 8 * length (bsm_bitStream ?s)" using Suc.prems True by (simp add: stream_pos_def)
    have f: "flush ?c ?s = put_one (flush c s) ?b"
      using True Suc.prems by (simp add: flush_def put_one_def advance_def)
    obtain c' s' where "write_loop n v ?c ?s = Inr (c', s')" "flush c' s' = put_all (to_bits n (unat v)) (flush ?c ?s)"
      using Suc.IH [of ?s ?c] q1 p1 Suc.prems True by auto
    then show ?thesis using True f by (simp add: to_bits_word put_all_def del: to_bits.simps)
  next
    case False
    let ?s = "s\<lparr>bsm_bitStream := (bsm_bitStream s)[bsm_bytePos s := ?c], bsm_bitPos := 7, bsm_bytePos := bsm_bytePos s + 1\<rparr>"
    let ?d = "bsm_bitStream ?s ! bsm_bytePos ?s"
    have l: "bsm_bytePos ?s < length (bsm_bitStream ?s)" using Suc.prems False by (simp add: stream_pos_def)
    have f: "flush ?d ?s = put_one (flush c s) ?b"
      using False Suc.prems l by (simp add: flush_def put_one_def advance_def list_update_next)
    obtain c' s' where "write_loop n v ?d ?s = Inr (c', s')" "flush c' s' = put_all (to_bits n (unat v)) (flush ?d ?s)"
      using Suc.IH [of ?s ?d] Suc.prems False l by (auto simp: stream_pos_def)
    then show ?thesis using False f l by (simp add: to_bits_word put_all_def Let_def del: to_bits.simps)
  qed
qed

lemma write_bits_law:
  assumes "n < stream_room s"
  shows "BitStreamWriterMSB_WriteBits n v s = Inr (put_all (to_bits n (unat v)) s)"
proof -
  from assms have p: "bsm_bitPos s \<le> 7" and q: "stream_pos s + n < 8 * length (bsm_bitStream s)"
    by (auto simp: stream_room_def stream_ok_def split: if_splits)
  then have l: "bsm_bytePos s < length (bsm_bitStream s)" by (simp add: stream_pos_def)
  let ?c = "bsm_bitStream s ! bsm_bytePos s"
  obtain c' s' where w: "write_loop n v ?c s = Inr (c', s')" "flush c' s' = put_all (to_bits n (unat v)) (flush ?c s)"
    using write_loop_law [OF p l q] by blast
  have "flush ?c s = s" using l by (simp add: flush_def)
  with w l show ?thesis by (simp add: BitStreamWriterMSB_WriteBits_def flush_def)
qed

lemma write_bit_law: "0 < stream_room s \<Longrightarrow> BitStreamWriterMSB_Write b s = Inr (put_all [b] s)"
  by (auto simp: BitStreamWriterMSB_Write_def put_all_def put_one_def stream_room_def stream_ok_def stream_pos_def split: if_splits)

lemma room_remaining_law: "0 < stream_room s \<Longrightarrow> GetStreamBitsRemaining s = int (stream_room s)"
  by (auto simp: stream_room_def GetStreamBitsRemaining_def stream_ok_def stream_pos_def split: if_splits)

interpretation msb_writer: bit_writer BitStreamWriterMSB bits_so_far stream_room put_all
proof unfold_locales
  fix bs :: "bool list" and s
  assume l: "length bs \<le> stream_room s"
  show "bits_so_far (put_all bs s) = bits_so_far s @ bs" "stream_room (put_all bs s) = stream_room s - length bs"
    using l put_all_effect [of s bs] by (cases "stream_ok s"; auto simp: stream_room_def put_all_nil)+
qed (simp_all add: BitStreamWriterMSB_def put_all_nil put_all_all write_bit_law write_bits_law room_remaining_law)

end
