(* ===== verification/Codec_Nal.thy ===== *)
theory Codec_Nal
  imports Codec_Bits
begin

text \<open>
  The byte layer of the H.264 codec's stream (\<open>H264v2Codec.cpp\<close>): the trailing bits that close a NAL unit, the
  octets that are inserted so that the start code cannot occur within one, and their removal before a frame is decoded.
\<close>

section \<open>Trailing bits\<close>

text \<open>Each takes the number of bits that may still be written or read and returns its result and the bits it counts.\<close>

definition WriteTrailingBits :: "BitStreamMSB option \<Rightarrow> int \<Rightarrow> fault + nat \<times> nat \<times> BitStreamMSB option" where
  "WriteTrailingBits bsw allowedBits =
     (if allowedBits < 1 then Inr (1, 0, bsw)
      else case bsw of None \<Rightarrow> Inr (0, 1, None)
      | Some w \<Rightarrow>
         (case BitStreamWriterMSB_Write True w of Inl f \<Rightarrow> Inl f
          | Inr w1 \<Rightarrow>
             (let toByteBoundary = GetStreamBitPos w1 mod 8 + 1
              in if toByteBoundary < 8
                 then (case BitStreamWriterMSB_WriteBits toByteBoundary 0 w1 of Inl f \<Rightarrow> Inl f | Inr w2 \<Rightarrow> Inr (0, 1, Some w2))
                 else Inr (0, 1, Some w1))))"

definition ReadTrailingBits :: "BitStreamMSB option \<Rightarrow> int \<Rightarrow> fault + nat \<times> nat \<times> BitStreamMSB option" where
  "ReadTrailingBits bsr remainingBits =
     (if remainingBits < 1 then Inr (1, 0, bsr)
      else case bsr of None \<Rightarrow> Inr (0, 1, None)
      | Some r \<Rightarrow>
         (case BitStreamReaderMSB_Read r of Inl f \<Rightarrow> Inl f
          | Inr (b, r1) \<Rightarrow>
             if \<not> b then Inr (3, 1, Some r1)
             else let toByteBoundary = GetStreamBitPos r1 mod 8 + 1
                  in if toByteBoundary < 8
                     then (case BitStreamReaderMSB_ReadBits toByteBoundary r1 of Inl f \<Rightarrow> Inl f
                           | Inr (v, r2) \<Rightarrow> Inr (if v \<noteq> 0 then 3 else 0, 1, Some r2))
                     else Inr (0, 1, Some r1)))"

section \<open>Start code emulation prevention\<close>

text \<open>The loops that move the octets of a stream by one place.\<close>

definition shift_down :: "nat \<Rightarrow> nat \<Rightarrow> bytes \<Rightarrow> bytes" where
  "shift_down pos endPos stream = fold (\<lambda>i s. s[i + 1 := s ! i]) (rev [pos..<endPos + 1]) stream"

definition shift_up :: "nat \<Rightarrow> nat \<Rightarrow> bytes \<Rightarrow> bytes" where
  "shift_up pos endPos stream = fold (\<lambda>i s. s[i := s ! (i + 1)]) [pos..<endPos] stream"

definition emulates :: "bytes \<Rightarrow> nat \<Rightarrow> bool" where
  "emulates stream pos \<longleftrightarrow> stream ! pos AND 0xFC = 0 \<and> stream ! (pos - 1) = 0 \<and> stream ! (pos - 2) = 0"

function insert_loop :: "nat \<Rightarrow> nat \<Rightarrow> nat \<Rightarrow> bytes \<Rightarrow> fault + nat \<times> bytes" where
  "insert_loop pos endPos count stream =
     (if pos \<le> endPos
      then if emulates stream pos
           then if endPos + 1 < length stream
                then insert_loop (pos + 2) (endPos + 1) (count + 1) ((shift_down pos endPos stream)[pos := 3])
                else Inl Buffer_overflow
           else insert_loop (pos + 1) endPos count stream
      else Inr (count, stream))"
  by pat_completeness auto
termination
  by (relation "measure (\<lambda>(pos, endPos, _). endPos + 1 - pos)") auto

definition InsertEmulationPrevention :: "BitStreamMSB option \<Rightarrow> nat \<Rightarrow> fault + nat \<times> BitStreamMSB option" where
  "InsertEmulationPrevention bsw startOffset =
     (case bsw of None \<Rightarrow> Inr (0, None)
      | Some w \<Rightarrow>
         (let streamHead = bsm_bitStream w;
              endPos = int (bsm_bytePos w) - 1 - int startOffset
          in if endPos < 2 then Inr (0, Some w)
             else (case insert_loop 6 (nat endPos) 0 (drop startOffset streamHead) of
                     Inl f \<Rightarrow> Inl f
                   | Inr (count, stream) \<Rightarrow> Inr (count * 8, Some (w\<lparr>bsm_bitStream := take startOffset streamHead @ stream\<rparr>)))))"

function remove_loop :: "nat \<Rightarrow> int \<Rightarrow> nat \<Rightarrow> bytes \<Rightarrow> nat \<times> bytes" where
  "remove_loop pos endPos count stream =
     (if int pos \<le> endPos
      then if stream ! pos = 3 \<and> stream ! (pos - 1) = 0 \<and> stream ! (pos - 2) = 0
           then remove_loop (pos + 2) (endPos - 1) (count + 1) (shift_up pos (nat endPos) stream)
           else remove_loop (pos + 1) endPos count stream
      else (count, stream))"
  by pat_completeness auto
termination
  by (relation "measure (\<lambda>(pos, endPos, _). nat (endPos + 1 - int pos))") auto

text \<open>The reader's buffer holds the bits that its size announces.\<close>

definition RemoveEmulationPrevention :: "BitStreamMSB option \<Rightarrow> nat \<times> BitStreamMSB option" where
  "RemoveEmulationPrevention bsr =
     (case bsr of None \<Rightarrow> (0, None)
      | Some r \<Rightarrow>
         (let bits = nat (bsm_bitSize r);
              endPos = (if bits mod 8 \<noteq> 0 then int (bits div 8) else int (bits div 8) - 1);
              (count, stream) = remove_loop 2 endPos 0 (bsm_bitStream r)
          in (count * 8, Some (r\<lparr>bsm_bitStream := stream\<rparr>))))"

declare insert_loop.simps [simp del] remove_loop.simps [simp del]

section \<open>What the loops do\<close>

text \<open>The octets after two given ones, with an octet 3 before each that would complete a start code, and back.\<close>

fun escape :: "u8 \<Rightarrow> u8 \<Rightarrow> bytes \<Rightarrow> bytes" where
  "escape a b [] = []"
| "escape a b (x # xs) = (if a = 0 \<and> b = 0 \<and> x \<le> 3 then 3 # x # escape 3 x xs else x # escape b x xs)"

fun unescape :: "u8 \<Rightarrow> u8 \<Rightarrow> bytes \<Rightarrow> bytes" where
  "unescape a b [] = []"
| "unescape a b (x # xs) =
     (if a = 0 \<and> b = 0 \<and> x = 3 then (case xs of [] \<Rightarrow> [] | y # ys \<Rightarrow> y # unescape 3 y ys) else x # unescape b x xs)"

lemma unescape_escape: "unescape a b (escape a b xs) = xs"
  by (induction a b xs rule: escape.induct) auto

fun start_code_free :: "bytes \<Rightarrow> bool" where
  "start_code_free (a # b # c # xs) \<longleftrightarrow> \<not> (a = 0 \<and> b = 0 \<and> c \<le> 2) \<and> start_code_free (b # c # xs)"
| "start_code_free _ \<longleftrightarrow> True"

lemma two_or_three: "x \<le> 2 \<Longrightarrow> x \<le> (3 :: u8)"
  by (simp add: word_le_nat_alt)

lemma escape_start_code_free: "start_code_free (a # b # escape a b xs)"
  by (induction a b xs rule: escape.induct) (auto dest: two_or_three)

lemma length_escape: "length xs \<le> length (escape a b xs)"
  by (induction a b xs rule: escape.induct) auto

lemma length_escape_most: "length (escape a b xs) \<le> 2 * length xs"
  by (induction a b xs rule: escape.induct) auto

lemma shift_down_nth:
  "\<lbrakk>pos \<le> n; n < length s\<rbrakk> \<Longrightarrow> length (fold (\<lambda>i s. s[i + 1 := s ! i]) (rev [pos..<n]) s) = length s \<and>
    (\<forall>j < length s. fold (\<lambda>i s. s[i + 1 := s ! i]) (rev [pos..<n]) s ! j = (if pos < j \<and> j \<le> n then s ! (j - 1) else s ! j))"
proof (induction n arbitrary: s)
  case 0
  then show ?case by simp
next
  case (Suc n)
  show ?case
  proof (cases "pos \<le> n")
    case True
    let ?s = "s[Suc n := s ! n]"
    from Suc.IH [of ?s] Suc.prems True have
      "length (fold (\<lambda>i s. s[i + 1 := s ! i]) (rev [pos..<n]) ?s) = length s"
      "\<forall>j < length s. fold (\<lambda>i s. s[i + 1 := s ! i]) (rev [pos..<n]) ?s ! j = (if pos < j \<and> j \<le> n then ?s ! (j - 1) else ?s ! j)"
      by simp_all
    then have g: "length (fold (\<lambda>i s. s[i + 1 := s ! i]) (rev [pos..<Suc n]) s) = length s"
      "j < length s \<Longrightarrow> fold (\<lambda>i s. s[i + 1 := s ! i]) (rev [pos..<Suc n]) s ! j = (if pos < j \<and> j \<le> n then ?s ! (j - 1) else ?s ! j)" for j
      using True by simp_all
    have "(if pos < j \<and> j \<le> n then ?s ! (j - 1) else ?s ! j) = (if pos < j \<and> j \<le> Suc n then s ! (j - 1) else s ! j)" if "j < length s" for j
      using that True Suc.prems(2) by (cases j "Suc n" rule: linorder_cases) simp_all
    with g show ?thesis by simp
  next
    case False
    with Suc.prems show ?thesis by (auto simp: not_le less_eq_Suc_le)
  qed
qed

lemma shift_down_append:
  assumes "length pre = pos" "endPos + 1 = pos + length (x # xs)"
  shows "(shift_down pos endPos (pre @ (x # xs) @ t # tail))[pos := c] = (pre @ [c, x]) @ xs @ tail"
proof (rule nth_equalityI)
  let ?s = "pre @ (x # xs) @ t # tail"
  have sh: "length (shift_down pos endPos ?s) = length ?s"
    "j < length ?s \<Longrightarrow> shift_down pos endPos ?s ! j = (if pos < j \<and> j \<le> endPos + 1 then ?s ! (j - 1) else ?s ! j)" for j
    using shift_down_nth [of pos "endPos + 1" ?s] assms by (simp_all add: shift_down_def)
  then show "length ((shift_down pos endPos ?s)[pos := c]) = length ((pre @ [c, x]) @ xs @ tail)" by simp
  fix j assume "j < length ((shift_down pos endPos ?s)[pos := c])"
  then have j: "j < length ?s" using sh(1) by simp
  show "(shift_down pos endPos ?s)[pos := c] ! j = ((pre @ [c, x]) @ xs @ tail) ! j"
  proof (cases "j = pos")
    case True
    with assms j sh(1) show ?thesis by (simp add: nth_append)
  next
    case False
    then have "(shift_down pos endPos ?s)[pos := c] ! j = (if pos < j \<and> j \<le> endPos + 1 then ?s ! (j - 1) else ?s ! j)"
      using sh(2) [OF j] by simp
    also have "\<dots> = ((pre @ [c, x]) @ xs @ tail) ! j"
      using False assms by (auto simp: nth_append nth_Cons' not_less)
    finally show ?thesis .
  qed
qed

lemma shift_up_nth:
  "\<lbrakk>pos \<le> n; n < length s\<rbrakk> \<Longrightarrow> length (fold (\<lambda>i s. s[i := s ! (i + 1)]) [pos..<n] s) = length s \<and>
    (\<forall>j < length s. fold (\<lambda>i s. s[i := s ! (i + 1)]) [pos..<n] s ! j = (if pos \<le> j \<and> j < n then s ! (j + 1) else s ! j))"
proof (induction n)
  case 0
  then show ?case by simp
next
  case (Suc n)
  then show ?case by (cases "pos \<le> n") (auto simp: nth_list_update less_Suc_eq)
qed

lemma shift_up_append:
  assumes "length pre = pos" "endPos + 1 = pos + length (x # xs)"
  shows "shift_up pos endPos (pre @ (x # xs) @ tail) = pre @ xs @ last (x # xs) # tail"
proof (rule nth_equalityI)
  let ?s = "pre @ (x # xs) @ tail"
  have sh: "length (shift_up pos endPos ?s) = length ?s"
    "j < length ?s \<Longrightarrow> shift_up pos endPos ?s ! j = (if pos \<le> j \<and> j < endPos then ?s ! (j + 1) else ?s ! j)" for j
    using shift_up_nth [of pos endPos ?s] assms by (simp_all add: shift_up_def)
  then show "length (shift_up pos endPos ?s) = length (pre @ xs @ last (x # xs) # tail)" by simp
  fix j assume "j < length (shift_up pos endPos ?s)"
  then have j: "j < length ?s" using sh(1) by simp
  have l: "last (x # xs) = (x # xs) ! length xs" by (simp add: last_conv_nth)
  show "shift_up pos endPos ?s ! j = (pre @ xs @ last (x # xs) # tail) ! j"
    unfolding sh(2) [OF j] l using assms by (cases xs) (auto simp: nth_append nth_Cons' not_less le_Suc_eq)
qed

lemma escapes_octet: "x AND 0xFC = 0 \<longleftrightarrow> x \<le> (3 :: u8)"
proof
  assume a: "x AND 0xFC = 0"
  have "x = (x AND 0xFC) OR (x AND 3)" by (rule bit_word_eqI) (auto simp: bit_simps bit_numeral_rec numeral_eq_Suc split: nat.splits)
  with a have "x = x AND 3" by simp
  then show "x \<le> 3" by (metis and.commute word_and_le1)
next
  assume "x \<le> 3"
  then have "x = 0 \<or> x = 1 \<or> x = 2 \<or> x = 3" by (simp add: word_le_nat_alt word_unat_eq_iff) linarith
  then show "x AND 0xFC = 0" by auto
qed

lemma insert_loop_stop: "endPos < pos \<Longrightarrow> insert_loop pos endPos count stream = Inr (count, stream)"
  and insert_loop_keep: "\<lbrakk>pos \<le> endPos; \<not> emulates stream pos\<rbrakk> \<Longrightarrow> insert_loop pos endPos count stream = insert_loop (pos + 1) endPos count stream"
  and insert_loop_put: "\<lbrakk>pos \<le> endPos; emulates stream pos; endPos + 1 < length stream\<rbrakk> \<Longrightarrow>
    insert_loop pos endPos count stream = insert_loop (pos + 2) (endPos + 1) (count + 1) ((shift_down pos endPos stream)[pos := 3])"
  by (simp_all add: insert_loop.simps [of pos])

lemma remove_loop_stop: "endPos < int pos \<Longrightarrow> remove_loop pos endPos count stream = (count, stream)"
  and remove_loop_keep: "\<lbrakk>int pos \<le> endPos; \<not> (stream ! pos = 3 \<and> stream ! (pos - 1) = 0 \<and> stream ! (pos - 2) = 0)\<rbrakk> \<Longrightarrow>
    remove_loop pos endPos count stream = remove_loop (pos + 1) endPos count stream"
  and remove_loop_cut: "\<lbrakk>int pos \<le> endPos; stream ! pos = 3 \<and> stream ! (pos - 1) = 0 \<and> stream ! (pos - 2) = 0\<rbrakk> \<Longrightarrow>
    remove_loop pos endPos count stream = remove_loop (pos + 2) (endPos - 1) (count + 1) (shift_up pos (nat endPos) stream)"
  by (auto simp: remove_loop.simps [of pos])

lemma insert_loop_law:
  "\<lbrakk>length pre = pos; 2 \<le> pos; endPos + 1 = pos + length xs; a = pre ! (pos - 2); b = pre ! (pos - 1);
    length (escape a b xs) \<le> length xs + length tail\<rbrakk> \<Longrightarrow>
   insert_loop pos endPos count (pre @ xs @ tail) =
     Inr (count + (length (escape a b xs) - length xs), pre @ escape a b xs @ drop (length (escape a b xs) - length xs) tail)"
proof (induction xs arbitrary: pre pos endPos a b count tail)
  case Nil
  then show ?case by (simp add: insert_loop.simps)
next
  case (Cons x xs)
  let ?s = "pre @ (x # xs) @ tail"
  have e: "emulates ?s pos \<longleftrightarrow> a = 0 \<and> b = 0 \<and> x \<le> 3"
    using Cons.prems(1-5) by (auto simp: emulates_def escapes_octet nth_append)
  have le: "pos \<le> endPos" using Cons.prems by simp
  show ?case
  proof (cases "a = 0 \<and> b = 0 \<and> x \<le> 3")
    case True
    with Cons.prems(6) length_escape [of xs 3 x] obtain t tl where tail: "tail = t # tl" by (cases tail) auto
    have "insert_loop pos endPos count ?s = insert_loop (pos + 2) (endPos + 1) (count + 1) ((pre @ [3, x]) @ xs @ tl)"
      using insert_loop_put [OF le, of ?s count] True e Cons.prems(1,3) shift_down_append [OF Cons.prems(1,3), of t tl 3]
      by (simp add: tail)
    also have "\<dots> = Inr (count + 1 + (length (escape 3 x xs) - length xs), (pre @ [3, x]) @ escape 3 x xs @ drop (length (escape 3 x xs) - length xs) tl)"
      by (rule Cons.IH) (use Cons.prems True tail in \<open>simp_all add: nth_append\<close>)
    finally show ?thesis using True length_escape [of xs 3 x] by (simp add: tail Suc_diff_le)
  next
    case False
    have "insert_loop pos endPos count ?s = insert_loop (pos + 1) endPos count ((pre @ [x]) @ xs @ tail)"
      using insert_loop_keep [OF le, of ?s count] False e by simp
    also have "\<dots> = Inr (count + (length (escape b x xs) - length xs), (pre @ [x]) @ escape b x xs @ drop (length (escape b x xs) - length xs) tail)"
      by (rule Cons.IH) (use Cons.prems False in \<open>auto simp: nth_append\<close>)
    finally show ?thesis using False by auto
  qed
qed

lemma remove_loop_law:
  "\<lbrakk>length pre = pos; 2 \<le> pos; endPos + 1 = int (pos + length xs); a = pre ! (pos - 2); b = pre ! (pos - 1)\<rbrakk> \<Longrightarrow>
   \<exists>tail'. remove_loop pos endPos count (pre @ xs @ tail) = (count + (length xs - length (unescape a b xs)), pre @ unescape a b xs @ tail')
     \<and> length (unescape a b xs) \<le> length xs"
proof (induction "length xs" arbitrary: xs pre pos endPos a b count tail rule: less_induct)
  case less
  show ?case
  proof (cases xs)
    case Nil
    with less.prems show ?thesis by (simp add: remove_loop.simps)
  next
    case (Cons x ys)
    let ?s = "pre @ (x # ys) @ tail"
    have e: "?s ! pos = 3 \<and> ?s ! (pos - 1) = 0 \<and> ?s ! (pos - 2) = 0 \<longleftrightarrow> a = 0 \<and> b = 0 \<and> x = 3"
      using less.prems(1,2,4,5) by (auto simp: nth_append)
    have le: "int pos \<le> endPos" using less.prems(3) Cons by simp
    show ?thesis
    proof (cases "a = 0 \<and> b = 0 \<and> x = 3")
      case True
      have "shift_up pos (nat endPos) ?s = pre @ ys @ last (x # ys) # tail"
        by (rule shift_up_append) (use less.prems(1,3) Cons in auto)
      then have r: "remove_loop pos endPos count ?s = remove_loop (pos + 2) (endPos - 1) (count + 1) (pre @ ys @ last (x # ys) # tail)"
        using remove_loop_cut [OF le, of ?s count, OF e [THEN iffD2, OF True]] by simp
      show ?thesis
      proof (cases ys)
        case Nil
        with r True Cons less.prems(3) show ?thesis by (simp add: remove_loop_stop)
      next
        case (Cons y zs)
        note ys = this
        show ?thesis
        proof (cases zs)
          case Nil
          with r True ys \<open>xs = x # ys\<close> less.prems(3) show ?thesis by (simp add: remove_loop_stop)
        next
          case (Cons z ws)
          obtain t where "remove_loop (pos + 2) (endPos - 1) (count + 1) ((pre @ [y, z]) @ ws @ last (x # ys) # tail) =
              (count + 1 + (length ws - length (unescape y z ws)), (pre @ [y, z]) @ unescape y z ws @ t)"
            and "length (unescape y z ws) \<le> length ws"
            using less.hyps [of ws "pre @ [y, z]" "pos + 2" "endPos - 1" y z "count + 1" "last (x # ys) # tail"] less.prems ys Cons \<open>xs = x # ys\<close>
            by (auto simp: nth_append)
          with r True ys Cons \<open>xs = x # ys\<close> show ?thesis by (simp add: Suc_diff_le)
        qed
      qed
    next
      case False
      have r: "remove_loop pos endPos count ?s = remove_loop (pos + 1) endPos count ((pre @ [x]) @ ys @ tail)"
        by (rule remove_loop_keep [OF le, of ?s count, THEN trans]) (use False e in blast, simp)
      obtain t where "remove_loop (pos + 1) endPos count ((pre @ [x]) @ ys @ tail) =
          (count + (length ys - length (unescape b x ys)), (pre @ [x]) @ unescape b x ys @ t)"
        and "length (unescape b x ys) \<le> length ys"
        using less.hyps [of ys "pre @ [x]" "pos + 1" endPos b x count tail] less.prems Cons by (auto simp: nth_append)
      with r False Cons show ?thesis by auto
    qed
  qed
qed

lemma remove_loop_start:
  assumes "2 \<le> length xs" "endPos + 1 = int (4 + length xs)"
  shows "remove_loop 2 endPos 0 (0 # 0 # 0 # 1 # xs @ tail) = remove_loop 6 endPos 0 (0 # 0 # 0 # 1 # xs @ tail)"
proof -
  let ?s = "0 # 0 # 0 # 1 # xs @ tail :: bytes"
  have "remove_loop 2 endPos 0 ?s = remove_loop 3 endPos 0 ?s"
    using remove_loop_keep [of 2 endPos ?s 0] assms by simp
  also have "\<dots> = remove_loop 4 endPos 0 ?s" using remove_loop_keep [of 3 endPos ?s 0] assms by simp
  also have "\<dots> = remove_loop 5 endPos 0 ?s" using remove_loop_keep [of 4 endPos ?s 0] assms by simp
  also have "\<dots> = remove_loop 6 endPos 0 ?s" using remove_loop_keep [of 5 endPos ?s 0] assms by simp
  finally show ?thesis .
qed

text \<open>C7: a frame that starts with the start code and has been closed on an octet boundary gets an octet before each that would complete
  a start code within it, when the buffer has the room for them. The count returned is the number of bits added; after the
  start code the octets written hold no three that read 0, 0 and at most 2; and removing the octets from a
  stream of the announced new size gives back the frame and the same count.\<close>

theorem emulation_prevention_roundtrip:
  assumes frame: "bsm_bitStream w = front @ [0, 0, 0, 1] @ xs @ spare" and offset: "length front = startOffset"
    and closed: "bsm_bytePos w = startOffset + 4 + length xs" and long: "2 \<le> length xs" and room: "length xs \<le> length spare"
  shows "\<exists>count ys spare'. InsertEmulationPrevention (Some w) startOffset =
      Inr (8 * count, Some (w\<lparr>bsm_bitStream := front @ [0, 0, 0, 1] @ ys @ spare'\<rparr>))
    \<and> length ys = length xs + count \<and> start_code_free ys
    \<and> (\<forall>r. bsm_bitStream r = [0, 0, 0, 1] @ ys @ spare' \<and> bsm_bitSize r = 8 * int (4 + length ys) \<longrightarrow>
         (\<exists>spare''. RemoveEmulationPrevention (Some r) = (8 * count, Some (r\<lparr>bsm_bitStream := [0, 0, 0, 1] @ xs @ spare''\<rparr>))))"
proof -
  obtain h g zs where xs: "xs = h # g # zs" using long by (cases xs; cases "tl xs") auto
  let ?e = "escape h g zs" let ?ys = "h # g # ?e" let ?count = "length ?e - length zs"
  have el: "length ?e \<le> 2 * length zs" "length zs \<le> length ?e"
    by (rule length_escape_most, rule length_escape)
  let ?pre = "[0, 0, 0, 1, h, g] :: bytes"
  have "insert_loop 6 (3 + length xs) 0 (?pre @ zs @ spare) = Inr (0 + ?count, ?pre @ ?e @ drop ?count spare)"
    by (rule insert_loop_law) (use xs el room in \<open>simp_all add: numeral_eq_Suc\<close>)
  then have ins: "InsertEmulationPrevention (Some w) startOffset = Inr (8 * ?count, Some (w\<lparr>bsm_bitStream := front @ [0, 0, 0, 1] @ ?ys @ drop ?count spare\<rparr>))"
  proof -
    have e: "int (bsm_bytePos w) - 1 - int startOffset = int (3 + length xs)" using closed by simp
    have d: "drop startOffset (bsm_bitStream w) = ?pre @ zs @ spare" "take startOffset (bsm_bitStream w) = front"
      using frame offset xs by simp_all
    have n: "nat (int (3 + length xs)) = 3 + length xs" "\<not> int (3 + length xs) < 2" by simp_all
    show ?thesis
      using \<open>insert_loop 6 _ 0 _ = _\<close> by (simp add: InsertEmulationPrevention_def Let_def e d n mult.commute del: of_nat_add)
  qed
  have rem: "\<exists>spare''. RemoveEmulationPrevention (Some r) = (8 * ?count, Some (r\<lparr>bsm_bitStream := [0, 0, 0, 1] @ xs @ spare''\<rparr>))"
    if r: "bsm_bitStream r = [0, 0, 0, 1] @ ?ys @ drop ?count spare" "bsm_bitSize r = 8 * int (4 + length ?ys)" for r
  proof -
    let ?last = "int (4 + length ?ys) - 1"
    obtain t where "remove_loop 6 ?last 0 (?pre @ ?e @ drop ?count spare) = (0 + (length ?e - length (unescape h g ?e)), ?pre @ unescape h g ?e @ t)"
      using remove_loop_law [of ?pre 6 ?last ?e h g 0 "drop ?count spare"] by (auto simp: numeral_eq_Suc)
    then have "remove_loop 6 ?last 0 (bsm_bitStream r) = (?count, [0, 0, 0, 1] @ xs @ t)"
      using r xs by (simp add: unescape_escape)
    moreover have "remove_loop 2 ?last 0 (bsm_bitStream r) = remove_loop 6 ?last 0 (bsm_bitStream r)"
      using remove_loop_start [of ?ys ?last "drop ?count spare"] r by simp
    moreover have "nat (bsm_bitSize r) = 8 * (4 + length ?ys)" using r(2) by linarith
    then have "nat (bsm_bitSize r) div 8 = 4 + length ?ys" "nat (bsm_bitSize r) mod 8 = 0" by simp_all
    ultimately show ?thesis by (auto simp: RemoveEmulationPrevention_def Let_def)
  qed
  show ?thesis
    by (rule exI [of _ ?count], rule exI [of _ ?ys], rule exI [of _ "drop ?count spare"])
      (use ins rem el xs escape_start_code_free [of h g zs] in auto)
qed

definition frame_witness :: BitStreamMSB where
  "frame_witness = \<lparr>bsm_bitStream = [9, 0, 0, 0, 1, 0x65, 0, 0, 1, 0, 0, 0, 3, 7, 7, 7, 7, 7, 7, 7, 7], bsm_bitSize = 168, bsm_bytePos = 13, bsm_bitPos = 7\<rparr>"

theorem emulation_prevention_roundtrip_witness:
  "\<exists>count ys spare'. InsertEmulationPrevention (Some frame_witness) 1 =
      Inr (8 * count, Some (frame_witness\<lparr>bsm_bitStream := [9] @ [0, 0, 0, 1] @ ys @ spare'\<rparr>))
    \<and> length ys = length [0x65, 0, 0, 1, 0, 0, 0, 3 :: u8] + count \<and> start_code_free ys
    \<and> (\<forall>r. bsm_bitStream r = [0, 0, 0, 1] @ ys @ spare' \<and> bsm_bitSize r = 8 * int (4 + length ys) \<longrightarrow>
         (\<exists>spare''. RemoveEmulationPrevention (Some r) = (8 * count, Some (r\<lparr>bsm_bitStream := [0, 0, 0, 1] @ [0x65, 0, 0, 1, 0, 0, 0, 3] @ spare''\<rparr>))))"
  using emulation_prevention_roundtrip [of frame_witness "[9]" "[0x65, 0, 0, 1, 0, 0, 0, 3]" "[7, 7, 7, 7, 7, 7, 7, 7]" 1]
  by (simp add: frame_witness_def)

section \<open>Trailing bits are found again\<close>

lemma to_boundary: "b \<le> 7 \<Longrightarrow> (8 * p + b) mod 8 + 1 = b + (1 :: nat)"
  by (simp only: mod_mult_add8) simp

lemma boundary_padding: "\<lbrakk>b \<le> 7; 8 dvd 8 * p + (7 - b) + k; k < 8\<rbrakk> \<Longrightarrow> k = (if b < 7 then b + 1 else 0 :: nat)"
  by (drule bit_cases, elim disjE; simp; presburger)

lemma length_bits_so_far: "\<lbrakk>stream_ok s; 0 < stream_room s\<rbrakk> \<Longrightarrow> length (bits_so_far s) = stream_pos s"
  by (auto simp: bits_so_far_def stream_room_def stream_ok_def min_def)

lemma of_bits_zeros: "of_bits (replicate k False) = 0"
  by (induction k) (simp_all add: of_bits_Cons)

lemma trailing_bits_written:
  assumes w: "stream_ok w" "8 < stream_room w" and "1 \<le> allowedBits"
  shows "\<exists>k w'. WriteTrailingBits (Some w) allowedBits = Inr (0, 1, Some w') \<and> bits_so_far w' = bits_so_far w @ True # replicate k False
    \<and> 8 dvd length (bits_so_far w') \<and> k < 8 \<and> stream_ok w' \<and> stream_room w' = stream_room w - Suc k"
proof -
  let ?w = "put_all [True] w" let ?k = "if bsm_bitPos ?w < 7 then bsm_bitPos ?w + 1 else 0"
  have w1: "bits_so_far ?w = bits_so_far w @ [True]" "stream_ok ?w" "stream_room ?w = stream_room w - 1"
    using put_all_effect [of w "[True]"] w by auto
  then have b: "bsm_bitPos ?w \<le> 7" by (simp add: stream_ok_def)
  have g: "GetStreamBitPos ?w mod 8 + 1 = bsm_bitPos ?w + 1" unfolding GetStreamBitPos_def by (rule to_boundary [OF b])
  have k: "?k < 8" "?k < stream_room ?w" using b w(2) w1(3) by auto
  let ?w' = "put_all (replicate ?k False) ?w"
  have w2: "bits_so_far ?w' = bits_so_far ?w @ replicate ?k False" "stream_ok ?w'" "stream_room ?w' = stream_room ?w - ?k"
    using put_all_effect [of ?w "replicate ?k False"] w1 k by auto
  have "length (bits_so_far ?w') = stream_pos ?w + ?k"
    using length_bits_so_far [of ?w] w1 w2(1) w(2) by simp
  also have "8 dvd \<dots>" using bit_cases [OF b] unfolding stream_pos_def by (elim disjE) simp_all
  finally have d: "8 dvd length (bits_so_far ?w')" .
  have "WriteTrailingBits (Some w) allowedBits = Inr (0, 1, Some ?w')"
    using assms(3) w write_bit_law [of w True] write_bits_law [of ?k ?w 0] k b g
    by (auto simp: WriteTrailingBits_def Let_def to_bits_zero put_all_nil)
  with w1 w2 d k(1) show ?thesis
    by (intro exI [of _ ?k] exI [of _ ?w']) (simp add: w(2))
qed

lemma trailing_bits_read:
  assumes r: "bits_to_come r = True # replicate k False @ rest" and k: "8 dvd stream_pos r + 1 + k" "k < 8" and "1 \<le> remainingBits"
  shows "\<exists>r'. ReadTrailingBits (Some r) remainingBits = Inr (0, 1, Some r') \<and> bits_to_come r' = rest"
proof -
  let ?r = "skip_ahead 1 r"
  have b: "bsm_bitPos ?r \<le> 7" using next_bit [OF r] by simp
  have g: "GetStreamBitPos ?r mod 8 + 1 = bsm_bitPos ?r + 1" unfolding GetStreamBitPos_def by (rule to_boundary [OF b])
  have p: "stream_pos ?r = stream_pos r + 1" using next_bit [OF r] by (simp add: stream_pos_skip)
  have kk: "k = (if bsm_bitPos ?r < 7 then bsm_bitPos ?r + 1 else 0)"
    by (rule boundary_padding [where p = "bsm_bytePos ?r", OF b _ k(2)]) (fold stream_pos_def, use k(1) p in simp)
  have c: "bits_to_come ?r = replicate k False @ rest" using r by (simp add: skip_ahead_bits)
  have "k \<noteq> 0 \<Longrightarrow> BitStreamReaderMSB_ReadBits k ?r = Inr (0, skip_ahead k ?r)"
    using read_bits_law [of k ?r] c k(2) by (simp add: of_bits_zeros)
  with read_law [OF r] assms(4) g kk b c show ?thesis
    by (cases "k = 0") (auto simp: ReadTrailingBits_def Let_def skip_ahead_bits split: if_splits)
qed

end
