(* ===== verification/Codec_Vlc.thy ===== *)
theory Codec_Vlc
  imports Codec_Bits
begin

text \<open>
  The variable length codes of the H.264 codec (\<open>CodecUtils/*Vlc*\<close>): Exp-Golomb codes, and the codes of the context adaptive
  coding of coefficient blocks. The encoders look codes up in tables, the decoders are nested conditionals on the
  bits read, which the definitions follow branch by branch. The interfaces \<open>IVlcEncoder\<close> and
  \<open>IVlcDecoder\<close> are records of operations; an operation returns the number of bits of the code, 0 for a symbol or a code that does not exist.
\<close>

section \<open>Reading bits one by one\<close>

definition if_Read :: "'r IBitStreamReader \<Rightarrow> ('r \<Rightarrow> fault + 'a) \<Rightarrow> ('r \<Rightarrow> fault + 'a) \<Rightarrow> 'r \<Rightarrow> fault + 'a" where
  "if_Read R t e r = (case ir_Read R r of Inl f \<Rightarrow> Inl f | Inr (b, r1) \<Rightarrow> if b then t r1 else e r1)"

definition switch_Read :: "'r IBitStreamReader \<Rightarrow> nat \<Rightarrow> (nat \<Rightarrow> 'r \<Rightarrow> fault + 'a) \<Rightarrow> 'r \<Rightarrow> fault + 'a" where
  "switch_Read R n k r = (case ir_ReadBits R n r of Inl f \<Rightarrow> Inl f | Inr (bits, r1) \<Rightarrow> k (unat bits) r1)"

text \<open>The ends of the decoders: a coefficient token from its bits, trailing ones and total; a count from its bits and value.\<close>

definition token :: "nat \<Rightarrow> int \<Rightarrow> int \<Rightarrow> 'r \<Rightarrow> fault + nat \<times> (int \<times> int) \<times> 'r" where
  "token numBits tOs tCs r = Inr (numBits, (tCs, tOs), r)"

definition counted :: "nat \<Rightarrow> int \<Rightarrow> 'r \<Rightarrow> fault + nat \<times> int \<times> 'r" where
  "counted numBits n r = Inr (numBits, n, r)"

section \<open>The interfaces\<close>

record IVlcEncoder =
  ve_Encode :: "int \<Rightarrow> fault + nat \<times> u32"
  ve_Encode2 :: "int \<Rightarrow> int \<Rightarrow> fault + nat \<times> u32"
  ve_Encode3 :: "int \<Rightarrow> int \<Rightarrow> int \<Rightarrow> fault + nat \<times> u32"

record 'r IVlcDecoder =
  vd_Decode :: "'r \<Rightarrow> (fault + nat \<times> int \<times> 'r) option"
  vd_Decode2 :: "int \<Rightarrow> 'r \<Rightarrow> fault + nat \<times> int \<times> 'r"
  vd_Decode3 :: "int \<Rightarrow> 'r \<Rightarrow> fault + nat \<times> (int \<times> int) \<times> 'r"

text \<open>What a class that does not override them inherits.\<close>

definition vlc_encoder_default :: IVlcEncoder where
  "vlc_encoder_default = \<lparr>ve_Encode = (\<lambda>_. Inr (0, 0)), ve_Encode2 = (\<lambda>_ _. Inr (0, 0)), ve_Encode3 = (\<lambda>_ _ _. Inr (0, 0))\<rparr>"

definition vlc_decoder_default :: "'r IVlcDecoder" where
  "vlc_decoder_default = \<lparr>vd_Decode = (\<lambda>r. Some (Inr (0, 0, r))), vd_Decode2 = (\<lambda>_ r. Inr (0, 0, r)), vd_Decode3 = (\<lambda>_ r. Inr (0, (0, 0), r))\<rparr>"

text \<open>The tables are arrays of arrays; a symbol that is not an index of them reads past them.\<close>

definition table_entry :: "'a list list \<Rightarrow> int \<Rightarrow> int \<Rightarrow> fault + 'a" where
  "table_entry t i j =
     (if 0 \<le> i \<and> nat i < length t \<and> 0 \<le> j \<and> nat j < length (t ! nat i) then Inr (t ! nat i ! nat j) else Inl Out_of_range)"

section \<open>Leading zeros and Exp-Golomb codes\<close>

text \<open>Both decoders count zeros until a one is read, which a stream without a one never ends.\<close>

partial_function (option) count_zeros :: "'r IBitStreamReader \<Rightarrow> nat \<Rightarrow> 'r \<Rightarrow> (fault + nat \<times> 'r) option" where
  "count_zeros R n r =
     (case ir_Read R r of Inl f \<Rightarrow> Some (Inl f)
      | Inr (b, r1) \<Rightarrow> if b then Some (Inr (n, r1)) else count_zeros R (n + 1) r1)"

definition PrefixH264VlcEncoderImpl1_Encode :: "int \<Rightarrow> fault + nat \<times> u32" where
  "PrefixH264VlcEncoderImpl1_Encode symbol = Inr (nat (symbol + 1), 1)"

definition PrefixH264VlcDecoderImpl1_Decode :: "'r IBitStreamReader \<Rightarrow> 'r \<Rightarrow> (fault + nat \<times> int \<times> 'r) option" where
  "PrefixH264VlcDecoderImpl1_Decode R r =
     map_option (map_sum id (\<lambda>(symbol, r1). (symbol + 1, int symbol, r1))) (count_zeros R 0 r)"

text \<open>
  The encoder takes the number of leading zeros from the natural logarithm of the library; \<open>log2\<close> stands for the truncated
  quotient. The code is kept in 32 bits, above which the codeword has only leading zeros.
\<close>

definition ExpGolombUnsignedVlcEncoder_Encode :: "(int \<Rightarrow> int) \<Rightarrow> int \<Rightarrow> fault + nat \<times> u32" where
  "ExpGolombUnsignedVlcEncoder_Encode log2 symbol =
     (if symbol = 0 then Inr (1, 1)
      else let x = symbol + 1;
               leadingZeros = log2 x;
               numCodeBits = 2 * leadingZeros + 1
           in if numCodeBits \<le> 64
              then (let a = push_bit (nat leadingZeros) 1 in Inr (nat numCodeBits, (of_int x - a) OR a))
              else Inr (0, 0))"

definition ExpGolombSignedVlcEncoder_Encode :: "(int \<Rightarrow> int) \<Rightarrow> int \<Rightarrow> fault + nat \<times> u32" where
  "ExpGolombSignedVlcEncoder_Encode log2 symbol =
     (let x = 2 * symbol in ExpGolombUnsignedVlcEncoder_Encode log2 (if x \<le> 0 then - x else x - 1))"

definition ExpGolombTruncVlcEncoder_Encode2 :: "(int \<Rightarrow> int) \<Rightarrow> int \<Rightarrow> int \<Rightarrow> fault + nat \<times> u32" where
  "ExpGolombTruncVlcEncoder_Encode2 log2 symbol1 symbol2 =
     (if symbol2 = 1 then Inr (1, if symbol1 = 0 then 1 else 0) else ExpGolombUnsignedVlcEncoder_Encode log2 symbol1)"

definition ExpGolombUnsignedVlcDecoder_Decode :: "'r IBitStreamReader \<Rightarrow> 'r \<Rightarrow> (fault + nat \<times> int \<times> 'r) option" where
  "ExpGolombUnsignedVlcDecoder_Decode R r =
     map_option (\<lambda>res. case res of Inl f \<Rightarrow> Inl f
       | Inr (leadingZeros, r1) \<Rightarrow>
           switch_Read R leadingZeros (\<lambda>bits. counted (leadingZeros * 2 + 1) (sint (push_bit leadingZeros 1 - 1 + of_nat bits :: u32))) r1)
       (count_zeros R 0 r)"

definition signed_symbol :: "int \<Rightarrow> int" where
  "signed_symbol x = (if x \<noteq> 0 then if odd x then (x + 1) div 2 else - (x div 2) else x)"

definition ExpGolombSignedVlcDecoder_Decode :: "'r IBitStreamReader \<Rightarrow> 'r \<Rightarrow> (fault + nat \<times> int \<times> 'r) option" where
  "ExpGolombSignedVlcDecoder_Decode R r =
     map_option (map_sum id (\<lambda>(n, x, r1). (n, signed_symbol x, r1))) (ExpGolombUnsignedVlcDecoder_Decode R r)"

definition ExpGolombTruncVlcDecoder_Decode2 :: "'r IBitStreamReader \<Rightarrow> int \<Rightarrow> 'r \<Rightarrow> (fault + nat \<times> int \<times> 'r) option" where
  "ExpGolombTruncVlcDecoder_Decode2 R symbol2 r =
     (if symbol2 = 1 then Some (if_Read R (counted 1 0) (counted 1 1) r) else ExpGolombUnsignedVlcDecoder_Decode R r)"

section \<open>The tables of the encoders\<close>

definition nC0to1 :: "(nat \<times> u32) list list" where
  "nC0to1 = [
     [(1, 1), (6, 5), (8, 7), (9, 7), (10, 7), (11, 7), (13, 15), (13, 11), (13, 8), (14, 15), (14, 11), (15, 15), (15, 11), (16, 15), (16, 11), (16, 7), (16, 4)],
     [(0, 0), (2, 1), (6, 4), (8, 6), (9, 6), (10, 6), (11, 6), (13, 14), (13, 10), (14, 14), (14, 10), (15, 14), (15, 10), (15, 1), (16, 14), (16, 10), (16, 6)],
     [(0, 0), (0, 0), (3, 1), (7, 5), (8, 5), (9, 5), (10, 5), (11, 5), (13, 13), (13, 9), (14, 13), (14, 9), (15, 13), (15, 9), (16, 13), (16, 9), (16, 5)],
     [(0, 0), (0, 0), (0, 0), (5, 3), (6, 3), (7, 4), (8, 4), (9, 4), (10, 4), (11, 4), (13, 12), (14, 12), (14, 8), (15, 12), (15, 8), (16, 12), (16, 8)]]"

definition nC2to3 :: "(nat \<times> u32) list list" where
  "nC2to3 = [
     [(2, 3), (6, 11), (6, 7), (7, 7), (8, 7), (8, 4), (9, 7), (11, 15), (11, 11), (12, 15), (12, 11), (12, 8), (13, 15), (13, 11), (13, 7), (14, 9), (14, 7)],
     [(0, 0), (2, 2), (5, 7), (6, 10), (6, 6), (7, 6), (8, 6), (9, 6), (11, 14), (11, 10), (12, 14), (12, 10), (13, 14), (13, 10), (14, 11), (14, 8), (14, 6)],
     [(0, 0), (0, 0), (3, 3), (6, 9), (6, 5), (7, 5), (8, 5), (9, 5), (11, 13), (11, 9), (12, 13), (12, 9), (13, 13), (13, 9), (13, 6), (14, 10), (14, 5)],
     [(0, 0), (0, 0), (0, 0), (4, 5), (4, 4), (5, 6), (6, 8), (6, 4), (7, 4), (9, 4), (11, 12), (11, 8), (12, 12), (13, 12), (13, 8), (13, 1), (14, 4)]]"

definition nC4to7 :: "(nat \<times> u32) list list" where
  "nC4to7 = [
     [(4, 15), (6, 15), (6, 11), (6, 8), (7, 15), (7, 11), (7, 9), (7, 8), (8, 15), (8, 11), (9, 15), (9, 11), (9, 8), (10, 13), (10, 9), (10, 5), (10, 1)],
     [(0, 0), (4, 14), (5, 15), (5, 12), (5, 10), (5, 8), (6, 14), (6, 10), (7, 14), (8, 14), (8, 10), (9, 14), (9, 10), (9, 7), (10, 12), (10, 8), (10, 4)],
     [(0, 0), (0, 0), (4, 13), (5, 14), (5, 11), (5, 9), (6, 13), (6, 9), (7, 13), (7, 10), (8, 13), (8, 9), (9, 13), (9, 9), (10, 11), (10, 7), (10, 3)],
     [(0, 0), (0, 0), (0, 0), (4, 12), (4, 11), (4, 10), (4, 9), (4, 8), (5, 13), (6, 12), (7, 12), (8, 12), (8, 8), (9, 12), (10, 10), (10, 6), (10, 2)]]"

definition nC8up :: "(nat \<times> u32) list list" where
  "nC8up = [
     [(6, 3), (6, 0), (6, 4), (6, 8), (6, 12), (6, 16), (6, 20), (6, 24), (6, 28), (6, 32), (6, 36), (6, 40), (6, 44), (6, 48), (6, 52), (6, 56), (6, 60)],
     [(0, 0), (6, 1), (6, 5), (6, 9), (6, 13), (6, 17), (6, 21), (6, 25), (6, 29), (6, 33), (6, 37), (6, 41), (6, 45), (6, 49), (6, 53), (6, 57), (6, 61)],
     [(0, 0), (0, 0), (6, 6), (6, 10), (6, 14), (6, 18), (6, 22), (6, 26), (6, 30), (6, 34), (6, 38), (6, 42), (6, 46), (6, 50), (6, 54), (6, 58), (6, 62)],
     [(0, 0), (0, 0), (0, 0), (6, 11), (6, 15), (6, 19), (6, 23), (6, 27), (6, 31), (6, 35), (6, 39), (6, 43), (6, 47), (6, 51), (6, 55), (6, 59), (6, 63)]]"

definition nCneg1 :: "(nat \<times> u32) list list" where
  "nCneg1 = [
     [(2, 1), (6, 7), (6, 4), (6, 3), (6, 2)],
     [(0, 0), (1, 1), (6, 6), (7, 3), (8, 3)],
     [(0, 0), (0, 0), (3, 1), (7, 2), (8, 2)],
     [(0, 0), (0, 0), (0, 0), (6, 5), (7, 0)]]"

definition nCneg2 :: "(nat \<times> u32) list list" where
  "nCneg2 = [
     [(1, 1), (7, 15), (7, 14), (9, 7), (9, 6), (10, 7), (11, 7), (12, 7), (13, 7)],
     [(0, 0), (2, 1), (7, 13), (7, 12), (9, 5), (10, 6), (11, 6), (12, 6), (12, 5)],
     [(0, 0), (0, 0), (3, 1), (7, 11), (7, 10), (9, 4), (10, 5), (11, 5), (12, 4)],
     [(0, 0), (0, 0), (0, 0), (5, 1), (6, 1), (7, 9), (7, 8), (10, 4), (11, 4)]]"

definition TotalZeros4x4_table :: "(nat \<times> u32) list list" where
  "TotalZeros4x4_table = [
     [(0, 0), (1, 1), (3, 7), (4, 5), (5, 3), (4, 5), (6, 1), (6, 1), (6, 1), (6, 1), (5, 1), (4, 0), (4, 0), (3, 0), (2, 0), (1, 0)],
     [(0, 0), (3, 3), (3, 6), (3, 7), (3, 7), (4, 4), (5, 1), (5, 1), (4, 1), (6, 0), (5, 0), (4, 1), (4, 1), (3, 1), (2, 1), (1, 1)],
     [(0, 0), (3, 2), (3, 5), (3, 6), (4, 5), (4, 3), (3, 7), (3, 5), (5, 1), (4, 1), (3, 1), (3, 1), (2, 1), (1, 1), (1, 1), (0, 0)],
     [(0, 0), (4, 3), (3, 4), (3, 5), (4, 4), (3, 7), (3, 6), (3, 4), (3, 3), (2, 3), (2, 3), (3, 2), (1, 1), (2, 1), (0, 0), (0, 0)],
     [(0, 0), (4, 2), (3, 3), (4, 4), (3, 6), (3, 6), (3, 5), (3, 3), (2, 3), (2, 2), (2, 2), (1, 1), (3, 1), (0, 0), (0, 0), (0, 0)],
     [(0, 0), (5, 3), (4, 5), (4, 3), (3, 5), (3, 5), (3, 4), (2, 3), (2, 2), (3, 1), (2, 1), (3, 3), (0, 0), (0, 0), (0, 0), (0, 0)],
     [(0, 0), (5, 2), (4, 4), (3, 4), (3, 4), (3, 4), (3, 3), (3, 2), (3, 2), (2, 1), (4, 1), (0, 0), (0, 0), (0, 0), (0, 0), (0, 0)],
     [(0, 0), (6, 3), (4, 3), (3, 3), (4, 3), (3, 3), (3, 2), (4, 1), (3, 1), (5, 1), (0, 0), (0, 0), (0, 0), (0, 0), (0, 0), (0, 0)],
     [(0, 0), (6, 2), (4, 2), (4, 2), (3, 3), (4, 2), (4, 1), (3, 1), (6, 0), (0, 0), (0, 0), (0, 0), (0, 0), (0, 0), (0, 0), (0, 0)],
     [(0, 0), (7, 3), (5, 3), (5, 3), (4, 2), (5, 1), (3, 1), (6, 0), (0, 0), (0, 0), (0, 0), (0, 0), (0, 0), (0, 0), (0, 0), (0, 0)],
     [(0, 0), (7, 2), (5, 2), (5, 2), (5, 2), (4, 1), (6, 0), (0, 0), (0, 0), (0, 0), (0, 0), (0, 0), (0, 0), (0, 0), (0, 0), (0, 0)],
     [(0, 0), (8, 3), (6, 3), (6, 1), (5, 1), (5, 0), (0, 0), (0, 0), (0, 0), (0, 0), (0, 0), (0, 0), (0, 0), (0, 0), (0, 0), (0, 0)],
     [(0, 0), (8, 2), (6, 2), (5, 1), (5, 0), (0, 0), (0, 0), (0, 0), (0, 0), (0, 0), (0, 0), (0, 0), (0, 0), (0, 0), (0, 0), (0, 0)],
     [(0, 0), (9, 3), (6, 1), (6, 0), (0, 0), (0, 0), (0, 0), (0, 0), (0, 0), (0, 0), (0, 0), (0, 0), (0, 0), (0, 0), (0, 0), (0, 0)],
     [(0, 0), (9, 2), (6, 0), (0, 0), (0, 0), (0, 0), (0, 0), (0, 0), (0, 0), (0, 0), (0, 0), (0, 0), (0, 0), (0, 0), (0, 0), (0, 0)],
     [(0, 0), (9, 1), (0, 0), (0, 0), (0, 0), (0, 0), (0, 0), (0, 0), (0, 0), (0, 0), (0, 0), (0, 0), (0, 0), (0, 0), (0, 0), (0, 0)]]"

definition TotalZeros2x2_table :: "(nat \<times> u32) list list" where
  "TotalZeros2x2_table = [
     [(0, 0), (1, 1), (1, 1), (1, 1)],
     [(0, 0), (2, 1), (2, 1), (1, 0)],
     [(0, 0), (3, 1), (2, 0), (0, 0)],
     [(0, 0), (3, 0), (0, 0), (0, 0)]]"

definition TotalZeros2x4_table :: "(nat \<times> u32) list list" where
  "TotalZeros2x4_table = [
     [(0, 0), (1, 1), (3, 0), (3, 0), (3, 6), (2, 0), (2, 0), (1, 0)],
     [(0, 0), (3, 2), (2, 1), (3, 1), (2, 0), (2, 1), (2, 1), (1, 1)],
     [(0, 0), (3, 3), (3, 1), (2, 1), (2, 1), (2, 2), (1, 1), (0, 0)],
     [(0, 0), (4, 2), (3, 4), (2, 2), (2, 2), (2, 3), (0, 0), (0, 0)],
     [(0, 0), (4, 3), (3, 5), (3, 6), (3, 7), (0, 0), (0, 0), (0, 0)],
     [(0, 0), (4, 1), (3, 6), (3, 7), (0, 0), (0, 0), (0, 0), (0, 0)],
     [(0, 0), (5, 1), (3, 7), (0, 0), (0, 0), (0, 0), (0, 0), (0, 0)],
     [(0, 0), (5, 0), (0, 0), (0, 0), (0, 0), (0, 0), (0, 0), (0, 0)]]"

definition RunBefore_table :: "(nat \<times> u32) list list" where
  "RunBefore_table = [
     [(0, 0), (1, 1), (1, 1), (2, 3), (2, 3), (2, 3), (2, 3), (3, 7)],
     [(0, 0), (1, 0), (2, 1), (2, 2), (2, 2), (2, 2), (3, 0), (3, 6)],
     [(0, 0), (0, 0), (2, 0), (2, 1), (2, 1), (3, 3), (3, 1), (3, 5)],
     [(0, 0), (0, 0), (0, 0), (2, 0), (3, 1), (3, 2), (3, 3), (3, 4)],
     [(0, 0), (0, 0), (0, 0), (0, 0), (3, 0), (3, 1), (3, 2), (3, 3)],
     [(0, 0), (0, 0), (0, 0), (0, 0), (0, 0), (3, 0), (3, 5), (3, 2)],
     [(0, 0), (0, 0), (0, 0), (0, 0), (0, 0), (0, 0), (3, 4), (3, 1)],
     [(0, 0), (0, 0), (0, 0), (0, 0), (0, 0), (0, 0), (0, 0), (4, 1)],
     [(0, 0), (0, 0), (0, 0), (0, 0), (0, 0), (0, 0), (0, 0), (5, 1)],
     [(0, 0), (0, 0), (0, 0), (0, 0), (0, 0), (0, 0), (0, 0), (6, 1)],
     [(0, 0), (0, 0), (0, 0), (0, 0), (0, 0), (0, 0), (0, 0), (7, 1)],
     [(0, 0), (0, 0), (0, 0), (0, 0), (0, 0), (0, 0), (0, 0), (8, 1)],
     [(0, 0), (0, 0), (0, 0), (0, 0), (0, 0), (0, 0), (0, 0), (9, 1)],
     [(0, 0), (0, 0), (0, 0), (0, 0), (0, 0), (0, 0), (0, 0), (10, 1)],
     [(0, 0), (0, 0), (0, 0), (0, 0), (0, 0), (0, 0), (0, 0), (11, 1)]]"

section \<open>The encoders\<close>

definition CoeffTokenH264VlcEncoder_Encode3 :: "int \<Rightarrow> int \<Rightarrow> int \<Rightarrow> fault + nat \<times> u32" where
  "CoeffTokenH264VlcEncoder_Encode3 totalCoeffs trailingOnes numTotNeighborCoeff =
     table_entry
       (if numTotNeighborCoeff \<in> {0, 1} then nC0to1
        else if numTotNeighborCoeff \<in> {2, 3} then nC2to3
        else if numTotNeighborCoeff \<in> {4, 5, 6, 7} then nC4to7
        else if numTotNeighborCoeff = -1 then nCneg1
        else if numTotNeighborCoeff = -2 then nCneg2
        else nC8up) trailingOnes totalCoeffs"

definition TotalZeros4x4H264VlcEncoder_Encode2 :: "int \<Rightarrow> int \<Rightarrow> fault + nat \<times> u32" where
  "TotalZeros4x4H264VlcEncoder_Encode2 totalZeros totalCoeffs = table_entry TotalZeros4x4_table totalZeros totalCoeffs"

definition TotalZeros2x2H264VlcEncoder_Encode2 :: "int \<Rightarrow> int \<Rightarrow> fault + nat \<times> u32" where
  "TotalZeros2x2H264VlcEncoder_Encode2 totalZeros totalCoeffs = table_entry TotalZeros2x2_table totalZeros totalCoeffs"

definition TotalZeros2x4H264VlcEncoder_Encode2 :: "int \<Rightarrow> int \<Rightarrow> fault + nat \<times> u32" where
  "TotalZeros2x4H264VlcEncoder_Encode2 totalZeros totalCoeffs = table_entry TotalZeros2x4_table totalZeros totalCoeffs"

definition RunBeforeH264VlcEncoder_Encode2 :: "int \<Rightarrow> int \<Rightarrow> fault + nat \<times> u32" where
  "RunBeforeH264VlcEncoder_Encode2 runBefore zerosLeft =
     table_entry RunBefore_table runBefore (if zerosLeft > 6 then 7 else zerosLeft)"

section \<open>The decoders\<close>

definition NC0to1 :: "'r IBitStreamReader \<Rightarrow> 'r \<Rightarrow> fault + nat \<times> (int \<times> int) \<times> 'r" where
  "NC0to1 R = (if_Read R (token 1 0 0)
    (if_Read R (token 2 1 1)
    (if_Read R (token 3 2 2)
    (if_Read R
      (if_Read R (token 5 3 3)
      (if_Read R (token 6 0 1) (token 6 1 2)))
      (if_Read R
        (if_Read R (token 6 3 4)
        (if_Read R (token 7 2 3) (token 7 3 5)))
        (if_Read R
          (switch_Read R 2 (\<lambda>bits.
              if bits = 0 then (token 8 3 6) else if bits = 1 then (token 8 2 4) else if bits = 2 then (token 8 1 3) else 
              if bits = 3 then (token 8 0 2) else (token 0 0 0)))
          (if_Read R
            (switch_Read R 2 (\<lambda>bits.
                if bits = 0 then (token 9 3 7) else if bits = 1 then (token 9 2 5) else if bits = 2 then (token 9 1 4) else 
                if bits = 3 then (token 9 0 3) else (token 0 0 0)))
            (if_Read R
              (switch_Read R 2 (\<lambda>bits.
                  if bits = 0 then (token 10 3 8) else if bits = 1 then (token 10 2 6) else if bits = 2 then (token 10 1 5) else 
                  if bits = 3 then (token 10 0 4) else (token 0 0 0)))
              (if_Read R
                (switch_Read R 2 (\<lambda>bits.
                    if bits = 0 then (token 11 3 9) else if bits = 1 then (token 11 2 7) else if bits = 2 then (token 11 1 6) else 
                    if bits = 3 then (token 11 0 5) else (token 0 0 0)))
                (if_Read R
                  (switch_Read R 3 (\<lambda>bits.
                      if bits = 0 then (token 13 0 8) else if bits = 1 then (token 13 2 9) else if bits = 2 then (token 13 1 8) else 
                      if bits = 3 then (token 13 0 7) else if bits = 4 then (token 13 3 10) else if bits = 5 then (token 13 2 8) else 
                      if bits = 6 then (token 13 1 7) else if bits = 7 then (token 13 0 6) else (token 0 0 0)))
                  (if_Read R
                    (switch_Read R 3 (\<lambda>bits.
                        if bits = 0 then (token 14 3 12) else if bits = 1 then (token 14 2 11) else if bits = 2 then (token 14 1 10) else 
                        if bits = 3 then (token 14 0 10) else if bits = 4 then (token 14 3 11) else if bits = 5 then (token 14 2 10) else 
                        if bits = 6 then (token 14 1 9) else if bits = 7 then (token 14 0 9) else (token 0 0 0)))
                    (if_Read R
                      (switch_Read R 3 (\<lambda>bits.
                          if bits = 0 then (token 15 3 14) else if bits = 1 then (token 15 2 13) else if bits = 2 then (token 15 1 12) else 
                          if bits = 3 then (token 15 0 12) else if bits = 4 then (token 15 3 13) else if bits = 5 then (token 15 2 12) else 
                          if bits = 6 then (token 15 1 11) else if bits = 7 then (token 15 0 11) else (token 0 0 0)))
                      (if_Read R
                        (switch_Read R 3 (\<lambda>bits.
                            if bits = 0 then (token 16 3 16) else if bits = 1 then (token 16 2 15) else if bits = 2 then (token 16 1 15) else 
                            if bits = 3 then (token 16 0 14) else if bits = 4 then (token 16 3 15) else if bits = 5 then (token 16 2 14) else 
                            if bits = 6 then (token 16 1 14) else if bits = 7 then (token 16 0 13) else (token 0 0 0)))
                        (if_Read R
                          (switch_Read R 2 (\<lambda>bits.
                              if bits = 0 then (token 16 0 16) else if bits = 1 then (token 16 2 16) else if bits = 2 then (token 16 1 16) else 
                              if bits = 3 then (token 16 0 15) else (token 0 0 0)))
                          (if_Read R (token 15 1 13) (token 0 0 0))))))))))))))))"

definition NC2to3 :: "'r IBitStreamReader \<Rightarrow> 'r \<Rightarrow> fault + nat \<times> (int \<times> int) \<times> 'r" where
  "NC2to3 R = (if_Read R
      (if_Read R (token 2 0 0) (token 2 1 1))
      (if_Read R
        (if_Read R (token 3 2 2)
        (if_Read R (token 4 3 3) (token 4 3 4)))
        (if_Read R
          (if_Read R
            (if_Read R (token 5 1 2) (token 5 3 5))
            (switch_Read R 2 (\<lambda>bits.
                if bits = 0 then (token 6 3 6) else if bits = 1 then (token 6 2 3) else if bits = 2 then (token 6 1 3) else 
                if bits = 3 then (token 6 0 1) else (token 0 0 0))))
          (if_Read R
            (switch_Read R 2 (\<lambda>bits.
                if bits = 0 then (token 6 3 7) else if bits = 1 then (token 6 2 4) else if bits = 2 then (token 6 1 4) else 
                if bits = 3 then (token 6 0 2) else (token 0 0 0)))
            (if_Read R
              (switch_Read R 2 (\<lambda>bits.
                  if bits = 0 then (token 7 3 8) else if bits = 1 then (token 7 2 5) else if bits = 2 then (token 7 1 5) else 
                  if bits = 3 then (token 7 0 3) else (token 0 0 0)))
              (if_Read R
                (switch_Read R 2 (\<lambda>bits.
                    if bits = 0 then (token 8 0 5) else if bits = 1 then (token 8 2 6) else if bits = 2 then (token 8 1 6) else 
                    if bits = 3 then (token 8 0 4) else (token 0 0 0)))
                (if_Read R
                  (switch_Read R 2 (\<lambda>bits.
                      if bits = 0 then (token 9 3 9) else if bits = 1 then (token 9 2 7) else if bits = 2 then (token 9 1 7) else 
                      if bits = 3 then (token 9 0 6) else (token 0 0 0)))
                  (if_Read R
                    (switch_Read R 3 (\<lambda>bits.
                        if bits = 0 then (token 11 3 11) else if bits = 1 then (token 11 2 9) else if bits = 2 then (token 11 1 9) else 
                        if bits = 3 then (token 11 0 8) else if bits = 4 then (token 11 3 10) else if bits = 5 then (token 11 2 8) else 
                        if bits = 6 then (token 11 1 8) else if bits = 7 then (token 11 0 7) else (token 0 0 0)))
                    (if_Read R
                      (switch_Read R 3 (\<lambda>bits.
                          if bits = 0 then (token 12 0 11) else if bits = 1 then (token 12 2 11) else if bits = 2 then (token 12 1 11) else 
                          if bits = 3 then (token 12 0 10) else if bits = 4 then (token 12 3 12) else if bits = 5 then (token 12 2 10) else 
                          if bits = 6 then (token 12 1 10) else if bits = 7 then (token 12 0 9) else (token 0 0 0)))
                      (if_Read R
                        (switch_Read R 3 (\<lambda>bits.
                            if bits = 0 then (token 13 3 14) else if bits = 1 then (token 13 2 13) else if bits = 2 then (token 13 1 13) else 
                            if bits = 3 then (token 13 0 13) else if bits = 4 then (token 13 3 13) else if bits = 5 then (token 13 2 12) else 
                            if bits = 6 then (token 13 1 12) else if bits = 7 then (token 13 0 12) else (token 0 0 0)))
                        (if_Read R
                          (if_Read R
                            (if_Read R (token 13 0 14) (token 13 2 14))
                            (switch_Read R 2 (\<lambda>bits.
                                if bits = 0 then (token 14 1 15) else if bits = 1 then (token 14 0 15) else if bits = 2 then (token 14 2 15) else 
                                if bits = 3 then (token 14 1 14) else (token 0 0 0))))
                          (if_Read R
                            (switch_Read R 2 (\<lambda>bits.
                                if bits = 0 then (token 14 3 16) else if bits = 1 then (token 14 2 16) else if bits = 2 then (token 14 1 16) else 
                                if bits = 3 then (token 14 0 16) else (token 0 0 0)))
                            (if_Read R (token 13 3 15) (token 0 0 0))))))))))))))"

definition NC4to7 :: "'r IBitStreamReader \<Rightarrow> 'r \<Rightarrow> fault + nat \<times> (int \<times> int) \<times> 'r" where
  "NC4to7 R = (if_Read R
      (switch_Read R 3 (\<lambda>bits.
          if bits = 0 then (token 4 3 7) else if bits = 1 then (token 4 3 6) else if bits = 2 then (token 4 3 5) else 
          if bits = 3 then (token 4 3 4) else if bits = 4 then (token 4 3 3) else if bits = 5 then (token 4 2 2) else 
          if bits = 6 then (token 4 1 1) else if bits = 7 then (token 4 0 0) else (token 4 0 0)))
      (if_Read R
        (switch_Read R 3 (\<lambda>bits.
            if bits = 0 then (token 5 1 5) else if bits = 1 then (token 5 2 5) else if bits = 2 then (token 5 1 4) else 
            if bits = 3 then (token 5 2 4) else if bits = 4 then (token 5 1 3) else if bits = 5 then (token 5 3 8) else 
            if bits = 6 then (token 5 2 3) else if bits = 7 then (token 5 1 2) else (token 5 0 0)))
        (if_Read R
          (switch_Read R 3 (\<lambda>bits.
              if bits = 0 then (token 6 0 3) else if bits = 1 then (token 6 2 7) else if bits = 2 then (token 6 1 7) else 
              if bits = 3 then (token 6 0 2) else if bits = 4 then (token 6 3 9) else if bits = 5 then (token 6 2 6) else 
              if bits = 6 then (token 6 1 6) else if bits = 7 then (token 6 0 1) else (token 6 0 0)))
          (if_Read R
            (switch_Read R 3 (\<lambda>bits.
                if bits = 0 then (token 7 0 7) else if bits = 1 then (token 7 0 6) else if bits = 2 then (token 7 2 9) else 
                if bits = 3 then (token 7 0 5) else if bits = 4 then (token 7 3 10) else if bits = 5 then (token 7 2 8) else 
                if bits = 6 then (token 7 1 8) else if bits = 7 then (token 7 0 4) else (token 7 0 0)))
            (if_Read R
              (switch_Read R 3 (\<lambda>bits.
                  if bits = 0 then (token 8 3 12) else if bits = 1 then (token 8 2 11) else if bits = 2 then (token 8 1 10) else 
                  if bits = 3 then (token 8 0 9) else if bits = 4 then (token 8 3 11) else if bits = 5 then (token 8 2 10) else 
                  if bits = 6 then (token 8 1 9) else if bits = 7 then (token 8 0 8) else (token 8 0 0)))
              (if_Read R
                (switch_Read R 3 (\<lambda>bits.
                    if bits = 0 then (token 9 0 12) else if bits = 1 then (token 9 2 13) else if bits = 2 then (token 9 1 12) else 
                    if bits = 3 then (token 9 0 11) else if bits = 4 then (token 9 3 13) else if bits = 5 then (token 9 2 12) else 
                    if bits = 6 then (token 9 1 11) else if bits = 7 then (token 9 0 10) else (token 9 0 0)))
                (if_Read R
                  (if_Read R
                    (if_Read R (token 9 1 13)
                    (if_Read R (token 10 0 13) (token 10 1 14)))
                    (switch_Read R 2 (\<lambda>bits.
                        if bits = 0 then (token 10 1 15) else if bits = 1 then (token 10 0 14) else if bits = 2 then (token 10 3 14) else 
                        if bits = 3 then (token 10 2 14) else (token 10 0 0))))
                  (if_Read R
                    (switch_Read R 2 (\<lambda>bits.
                        if bits = 0 then (token 10 1 16) else if bits = 1 then (token 10 0 15) else if bits = 2 then (token 10 3 15) else 
                        if bits = 3 then (token 10 2 15) else (token 10 0 0)))
                    (if_Read R
                      (if_Read R (token 10 2 16) (token 10 3 16))
                      (if_Read R (token 10 0 16) (token 0 0 0)))))))))))"

definition NCneg1 :: "'r IBitStreamReader \<Rightarrow> 'r \<Rightarrow> fault + nat \<times> (int \<times> int) \<times> 'r" where
  "NCneg1 R = (if_Read R (token 1 1 1)
    (if_Read R (token 2 0 0)
    (if_Read R (token 3 2 2)
    (if_Read R
      (if_Read R
        (if_Read R (token 6 0 1) (token 6 1 2))
        (if_Read R (token 6 3 3) (token 6 0 2)))
      (if_Read R
        (if_Read R (token 6 0 3) (token 6 0 4))
        (if_Read R
          (if_Read R (token 7 1 3) (token 7 2 3))
          (if_Read R
            (if_Read R (token 8 1 4) (token 8 2 4))
            (token 7 3 4))))))))"

definition NCneg2 :: "'r IBitStreamReader \<Rightarrow> 'r \<Rightarrow> fault + nat \<times> (int \<times> int) \<times> 'r" where
  "NCneg2 R = (if_Read R (token 1 0 0)
    (if_Read R (token 2 1 1)
    (if_Read R (token 3 2 2)
    (if_Read R
      (switch_Read R 3 (\<lambda>bits.
          if bits = 0 then (token 7 3 6) else if bits = 1 then (token 7 3 5) else if bits = 2 then (token 7 2 4) else 
          if bits = 3 then (token 7 2 3) else if bits = 4 then (token 7 1 3) else if bits = 5 then (token 7 1 2) else 
          if bits = 6 then (token 7 0 2) else if bits = 7 then (token 7 0 1) else (token 7 0 0)))
      (if_Read R (token 5 3 3)
      (if_Read R (token 6 3 4)
      (if_Read R
        (switch_Read R 2 (\<lambda>bits.
            if bits = 0 then (token 9 2 5) else if bits = 1 then (token 9 1 4) else if bits = 2 then (token 9 0 4) else 
            if bits = 3 then (token 9 0 3) else (token 9 0 0)))
        (if_Read R
          (switch_Read R 2 (\<lambda>bits.
              if bits = 0 then (token 10 3 7) else if bits = 1 then (token 10 2 6) else if bits = 2 then (token 10 1 5) else 
              if bits = 3 then (token 10 0 5) else (token 10 0 0)))
          (if_Read R
            (switch_Read R 2 (\<lambda>bits.
                if bits = 0 then (token 11 3 8) else if bits = 1 then (token 11 2 7) else if bits = 2 then (token 11 1 6) else 
                if bits = 3 then (token 11 0 6) else (token 11 0 0)))
            (if_Read R
              (switch_Read R 2 (\<lambda>bits.
                  if bits = 0 then (token 12 2 8) else if bits = 1 then (token 12 1 8) else if bits = 2 then (token 12 1 7) else 
                  if bits = 3 then (token 12 0 7) else (token 12 0 0)))
              (switch_Read R 3 (\<lambda>bits.
                  if bits = 7 then (token 13 0 8) else (token 0 0 0)))))))))))))"

definition NC8up :: "'r IBitStreamReader \<Rightarrow> 'r \<Rightarrow> fault + nat \<times> (int \<times> int) \<times> 'r" where
  "NC8up R =
     switch_Read R 4 (\<lambda>c. switch_Read R 2 (\<lambda>t.
       let tCs = int c + 1; tOs = int t in if tCs = 1 \<and> tOs = 3 then token 6 0 0 else token 6 tOs tCs))"

definition CoeffTokenH264VlcDecoder_Decode3 :: "'r IBitStreamReader \<Rightarrow> int \<Rightarrow> 'r \<Rightarrow> fault + nat \<times> (int \<times> int) \<times> 'r" where
  "CoeffTokenH264VlcDecoder_Decode3 R numTotNeighborCoeff =
     (if numTotNeighborCoeff \<in> {0, 1} then NC0to1 R
      else if numTotNeighborCoeff \<in> {2, 3} then NC2to3 R
      else if numTotNeighborCoeff \<in> {4, 5, 6, 7} then NC4to7 R
      else if numTotNeighborCoeff = -1 then NCneg1 R
      else if numTotNeighborCoeff = -2 then NCneg2 R
      else NC8up R)"

definition TC1 :: "'r IBitStreamReader \<Rightarrow> 'r \<Rightarrow> fault + nat \<times> int \<times> 'r" where
  "TC1 R = (if_Read R (counted 1 0)
    (if_Read R
      (if_Read R (counted 3 1) (counted 3 2))
      (if_Read R
        (if_Read R (counted 4 3) (counted 4 4))
        (if_Read R
          (if_Read R (counted 5 5) (counted 5 6))
          (if_Read R
            (if_Read R (counted 6 7) (counted 6 8))
            (if_Read R
              (if_Read R (counted 7 9) (counted 7 10))
              (if_Read R
                (if_Read R (counted 8 11) (counted 8 12))
                (if_Read R
                  (if_Read R (counted 9 13) (counted 9 14))
                  (if_Read R (counted 9 15) (counted 0 0))))))))))"

definition TC2 :: "'r IBitStreamReader \<Rightarrow> 'r \<Rightarrow> fault + nat \<times> int \<times> 'r" where
  "TC2 R = (if_Read R
      (switch_Read R 2 (\<lambda>bits.
          if bits = 0 then (counted 3 3) else if bits = 1 then (counted 3 2) else if bits = 2 then (counted 3 1) else 
          if bits = 3 then (counted 3 0) else (counted 3 0)))
      (if_Read R
        (if_Read R (counted 3 4)
        (if_Read R (counted 4 5) (counted 4 6)))
        (if_Read R
          (if_Read R (counted 4 7) (counted 4 8))
          (if_Read R
            (if_Read R (counted 5 9) (counted 5 10))
            (if_Read R
              (if_Read R (counted 6 11) (counted 6 12))
              (if_Read R (counted 6 13) (counted 6 14)))))))"

definition TC3 :: "'r IBitStreamReader \<Rightarrow> 'r \<Rightarrow> fault + nat \<times> int \<times> 'r" where
  "TC3 R = (if_Read R
      (switch_Read R 2 (\<lambda>bits.
          if bits = 0 then (counted 3 6) else if bits = 1 then (counted 3 3) else if bits = 2 then (counted 3 2) else 
          if bits = 3 then (counted 3 1) else (counted 3 0)))
      (if_Read R
        (if_Read R (counted 3 7)
        (if_Read R (counted 4 0) (counted 4 4)))
        (if_Read R
          (if_Read R (counted 4 5) (counted 4 8))
          (if_Read R
            (if_Read R (counted 5 9) (counted 5 10))
            (if_Read R (counted 5 12)
            (if_Read R (counted 6 11) (counted 6 13)))))))"

definition TC4 :: "'r IBitStreamReader \<Rightarrow> 'r \<Rightarrow> fault + nat \<times> int \<times> 'r" where
  "TC4 R = (if_Read R
      (switch_Read R 2 (\<lambda>bits.
          if bits = 0 then (counted 3 6) else if bits = 1 then (counted 3 5) else if bits = 2 then (counted 3 4) else 
          if bits = 3 then (counted 3 1) else (counted 3 0)))
      (if_Read R
        (if_Read R (counted 3 8)
        (if_Read R (counted 4 2) (counted 4 3)))
        (if_Read R
          (if_Read R (counted 4 7) (counted 4 9))
          (if_Read R
            (if_Read R (counted 5 0) (counted 5 10))
            (if_Read R (counted 5 11) (counted 5 12))))))"

definition TC5 :: "'r IBitStreamReader \<Rightarrow> 'r \<Rightarrow> fault + nat \<times> int \<times> 'r" where
  "TC5 R = (if_Read R
      (switch_Read R 2 (\<lambda>bits.
          if bits = 0 then (counted 3 6) else if bits = 1 then (counted 3 5) else if bits = 2 then (counted 3 4) else 
          if bits = 3 then (counted 3 3) else (counted 3 0)))
      (if_Read R
        (if_Read R (counted 3 7)
        (if_Read R (counted 4 0) (counted 4 1)))
        (if_Read R
          (if_Read R (counted 4 2) (counted 4 8))
          (if_Read R (counted 4 10)
          (if_Read R (counted 5 9) (counted 5 11))))))"

definition TC6 :: "'r IBitStreamReader \<Rightarrow> 'r \<Rightarrow> fault + nat \<times> int \<times> 'r" where
  "TC6 R = (if_Read R
      (switch_Read R 2 (\<lambda>bits.
          if bits = 0 then (counted 3 5) else if bits = 1 then (counted 3 4) else if bits = 2 then (counted 3 3) else 
          if bits = 3 then (counted 3 2) else (counted 3 0)))
      (if_Read R
        (if_Read R (counted 3 6) (counted 3 7))
        (if_Read R (counted 3 9)
        (if_Read R (counted 4 8)
        (if_Read R (counted 5 1)
        (if_Read R (counted 6 0) (counted 6 10)))))))"

definition TC7 :: "'r IBitStreamReader \<Rightarrow> 'r \<Rightarrow> fault + nat \<times> int \<times> 'r" where
  "TC7 R = (if_Read R
      (if_Read R (counted 2 5)
      (if_Read R (counted 3 2) (counted 3 3)))
      (if_Read R
        (if_Read R (counted 3 4) (counted 3 6))
        (if_Read R (counted 3 8)
        (if_Read R (counted 4 7)
        (if_Read R (counted 5 1)
        (if_Read R (counted 6 0) (counted 6 9)))))))"

definition TC8 :: "'r IBitStreamReader \<Rightarrow> 'r \<Rightarrow> fault + nat \<times> int \<times> 'r" where
  "TC8 R = (if_Read R
      (if_Read R (counted 2 4) (counted 2 5))
      (if_Read R
        (if_Read R (counted 3 3) (counted 3 6))
        (if_Read R (counted 3 7)
        (if_Read R (counted 4 1)
        (if_Read R (counted 5 2)
        (if_Read R (counted 6 0) (counted 6 8)))))))"

definition TC9 :: "'r IBitStreamReader \<Rightarrow> 'r \<Rightarrow> fault + nat \<times> int \<times> 'r" where
  "TC9 R = (if_Read R
      (if_Read R (counted 2 3) (counted 2 4))
      (if_Read R (counted 2 6)
      (if_Read R (counted 3 5)
      (if_Read R (counted 4 2)
      (if_Read R (counted 5 7)
      (if_Read R (counted 6 0) (counted 6 1)))))))"

definition TC10 :: "'r IBitStreamReader \<Rightarrow> 'r \<Rightarrow> fault + nat \<times> int \<times> 'r" where
  "TC10 R = (if_Read R
      (if_Read R (counted 2 3) (counted 2 4))
      (if_Read R (counted 2 5)
      (if_Read R (counted 3 2)
      (if_Read R (counted 4 6)
      (if_Read R (counted 5 0) (counted 5 1))))))"

definition TotalZeros4x4H264VlcDecoder_Decode2 :: "'r IBitStreamReader \<Rightarrow> int \<Rightarrow> 'r \<Rightarrow> fault + nat \<times> int \<times> 'r" where
  "TotalZeros4x4H264VlcDecoder_Decode2 R totalCoeffs =
     (if totalCoeffs = 1 then TC1 R
      else if totalCoeffs = 2 then TC2 R
      else if totalCoeffs = 3 then TC3 R
      else if totalCoeffs = 4 then TC4 R
      else if totalCoeffs = 5 then TC5 R
      else if totalCoeffs = 6 then TC6 R
      else if totalCoeffs = 7 then TC7 R
      else if totalCoeffs = 8 then TC8 R
      else if totalCoeffs = 9 then TC9 R
      else if totalCoeffs = 10 then TC10 R
      else if totalCoeffs = 11 then (if_Read R (counted 1 4)
        (if_Read R
          (if_Read R (counted 3 5) (counted 3 3))
          (if_Read R (counted 3 2)
          (if_Read R (counted 4 1) (counted 4 0)))))
      else if totalCoeffs = 12 then (if_Read R (counted 1 3)
        (if_Read R (counted 2 2)
        (if_Read R (counted 3 4)
        (if_Read R (counted 4 1) (counted 4 0)))))
      else if totalCoeffs = 13 then (if_Read R (counted 1 2)
        (if_Read R (counted 2 3)
        (if_Read R (counted 3 1) (counted 3 0))))
      else if totalCoeffs = 14 then (if_Read R (counted 1 2)
        (if_Read R (counted 2 1) (counted 2 0)))
      else if totalCoeffs = 15 then (if_Read R (counted 1 1) (counted 1 0))
      else (counted 0 0))"

definition TotalZeros2x2H264VlcDecoder_Decode2 :: "'r IBitStreamReader \<Rightarrow> int \<Rightarrow> 'r \<Rightarrow> fault + nat \<times> int \<times> 'r" where
  "TotalZeros2x2H264VlcDecoder_Decode2 R totalCoeffs =
     (if totalCoeffs = 1 then (if_Read R (counted 1 0)
        (if_Read R (counted 2 1)
        (if_Read R (counted 3 2) (counted 3 3))))
      else if totalCoeffs = 2 then (if_Read R (counted 1 0)
        (if_Read R (counted 2 1) (counted 2 2)))
      else if totalCoeffs = 3 then (if_Read R (counted 1 0) (counted 1 1))
      else (counted 0 0))"

definition TotalZeros2x4H264VlcDecoder_Decode2 :: "'r IBitStreamReader \<Rightarrow> int \<Rightarrow> 'r \<Rightarrow> fault + nat \<times> int \<times> 'r" where
  "TotalZeros2x4H264VlcDecoder_Decode2 R totalCoeffs =
     (if totalCoeffs = 1 then (if_Read R (counted 1 0)
        (if_Read R
          (if_Read R (counted 3 2) (counted 3 1))
          (if_Read R
            (if_Read R (counted 4 4) (counted 4 3))
            (if_Read R (counted 4 5)
            (if_Read R (counted 5 6) (counted 5 7))))))
      else if totalCoeffs = 2 then (if_Read R
          (if_Read R
            (if_Read R (counted 3 6) (counted 3 5))
            (if_Read R (counted 3 4) (counted 3 3)))
          (if_Read R (counted 2 1)
          (if_Read R (counted 3 2) (counted 3 0))))
      else if totalCoeffs = 3 then (if_Read R
          (if_Read R
            (if_Read R (counted 3 5) (counted 3 4))
            (counted 2 3))
          (if_Read R (counted 2 2)
          (if_Read R (counted 3 1) (counted 3 0))))
      else if totalCoeffs = 4 then (if_Read R
          (if_Read R
            (if_Read R (counted 3 4) (counted 3 0))
            (counted 2 3))
          (if_Read R (counted 2 2) (counted 2 1)))
      else if totalCoeffs = 5 then (switch_Read R 2 (\<lambda>bits. counted 2 (int bits)))
      else if totalCoeffs = 6 then (if_Read R (counted 1 2)
        (if_Read R (counted 2 1) (counted 2 0)))
      else if totalCoeffs = 7 then (if_Read R (counted 1 1) (counted 1 0))
      else (counted 0 0))"

definition RunBeforeH264VlcDecoder_Decode2 :: "'r IBitStreamReader \<Rightarrow> int \<Rightarrow> 'r \<Rightarrow> fault + nat \<times> int \<times> 'r" where
  "RunBeforeH264VlcDecoder_Decode2 R zerosLeft =
     (if zerosLeft = 1 then (if_Read R (counted 1 0) (counted 1 1))
      else if zerosLeft = 2 then (if_Read R (counted 1 0)
        (if_Read R (counted 2 1) (counted 2 2)))
      else if zerosLeft = 3 then (if_Read R
          (if_Read R (counted 2 0) (counted 2 1))
          (if_Read R (counted 2 2) (counted 2 3)))
      else if zerosLeft = 4 then (if_Read R
          (if_Read R (counted 2 0) (counted 2 1))
          (if_Read R (counted 2 2)
          (if_Read R (counted 3 3) (counted 3 4))))
      else if zerosLeft = 5 then (if_Read R
          (if_Read R (counted 2 0) (counted 2 1))
          (if_Read R
            (if_Read R (counted 3 2) (counted 3 3))
            (if_Read R (counted 3 4) (counted 3 5))))
      else if zerosLeft = 6 then (if_Read R
          (if_Read R (counted 2 0)
          (if_Read R (counted 3 5) (counted 3 6)))
          (if_Read R
            (if_Read R (counted 3 3) (counted 3 4))
            (if_Read R (counted 3 2) (counted 3 1))))
      else if zerosLeft > 6 then (if_Read R
          (if_Read R
            (if_Read R (counted 3 0) (counted 3 1))
            (if_Read R (counted 3 2) (counted 3 3)))
          (if_Read R
            (if_Read R (counted 3 4) (counted 3 5))
            (if_Read R (counted 3 6)
            (if_Read R (counted 4 7)
            (if_Read R (counted 5 8)
            (if_Read R (counted 6 9)
            (if_Read R (counted 7 10)
            (if_Read R (counted 8 11)
            (if_Read R (counted 9 12)
            (if_Read R (counted 10 13)
            (if_Read R (counted 11 14) (counted 0 0))))))))))))
      else (counted 0 0))"

section \<open>The classes\<close>

definition PrefixVlcEncoder :: IVlcEncoder where
  "PrefixVlcEncoder = vlc_encoder_default\<lparr>ve_Encode := PrefixH264VlcEncoderImpl1_Encode\<rparr>"

definition CoeffTokenVlcEncoder :: IVlcEncoder where
  "CoeffTokenVlcEncoder = vlc_encoder_default\<lparr>ve_Encode3 := CoeffTokenH264VlcEncoder_Encode3\<rparr>"

definition TotalZeros4x4VlcEncoder :: IVlcEncoder where
  "TotalZeros4x4VlcEncoder = vlc_encoder_default\<lparr>ve_Encode2 := TotalZeros4x4H264VlcEncoder_Encode2\<rparr>"

definition TotalZeros2x2VlcEncoder :: IVlcEncoder where
  "TotalZeros2x2VlcEncoder = vlc_encoder_default\<lparr>ve_Encode2 := TotalZeros2x2H264VlcEncoder_Encode2\<rparr>"

definition RunBeforeVlcEncoder :: IVlcEncoder where
  "RunBeforeVlcEncoder = vlc_encoder_default\<lparr>ve_Encode2 := RunBeforeH264VlcEncoder_Encode2\<rparr>"

definition PrefixVlcDecoder :: "'r IBitStreamReader \<Rightarrow> 'r IVlcDecoder" where
  "PrefixVlcDecoder R = vlc_decoder_default\<lparr>vd_Decode := PrefixH264VlcDecoderImpl1_Decode R\<rparr>"

definition CoeffTokenVlcDecoder :: "'r IBitStreamReader \<Rightarrow> 'r IVlcDecoder" where
  "CoeffTokenVlcDecoder R = vlc_decoder_default\<lparr>vd_Decode3 := CoeffTokenH264VlcDecoder_Decode3 R\<rparr>"

definition TotalZeros4x4VlcDecoder :: "'r IBitStreamReader \<Rightarrow> 'r IVlcDecoder" where
  "TotalZeros4x4VlcDecoder R = vlc_decoder_default\<lparr>vd_Decode2 := TotalZeros4x4H264VlcDecoder_Decode2 R\<rparr>"

definition TotalZeros2x2VlcDecoder :: "'r IBitStreamReader \<Rightarrow> 'r IVlcDecoder" where
  "TotalZeros2x2VlcDecoder R = vlc_decoder_default\<lparr>vd_Decode2 := TotalZeros2x2H264VlcDecoder_Decode2 R\<rparr>"

definition RunBeforeVlcDecoder :: "'r IBitStreamReader \<Rightarrow> 'r IVlcDecoder" where
  "RunBeforeVlcDecoder R = vlc_decoder_default\<lparr>vd_Decode2 := RunBeforeH264VlcDecoder_Decode2 R\<rparr>"

section \<open>A code decodes to its symbol\<close>

lemma if_Read_cong [cong]: "r = r' \<Longrightarrow> if_Read R t e r = if_Read R t e r'"
  by simp

lemma switch_Read_cong [cong]: "r = r' \<Longrightarrow> switch_Read R n k r = switch_Read R n k r'"
  by simp

context bit_reader
begin

lemma if_Read_bit: "rbits r \<noteq> [] \<Longrightarrow> if_Read R t e r = (if hd (rbits r) then t (skip 1 r) else e (skip 1 r))"
  using read_bit [of r "hd (rbits r)" "tl (rbits r)"] by (simp add: if_Read_def)

lemma switch_Read_bits:
  assumes "n \<le> 32" "n \<le> length (rbits r)" "rbits r \<noteq> []"
  shows "switch_Read R n k r = k (of_bits (take n (rbits r))) (skip n r)"
proof -
  have "of_bits (take n (rbits r)) < 2 ^ length (take n (rbits r))" by (rule of_bits_less)
  also have "\<dots> \<le> 2 ^ 32" using assms by (intro power_increasing) simp_all
  finally have "unat (of_nat (of_bits (take n (rbits r))) :: u32) = of_bits (take n (rbits r))"
    by (simp add: unat_of_nat take_bit_eq_mod)
  then show ?thesis using read_bits [OF assms] by (simp add: switch_Read_def)
qed

end

text \<open>A property of the entries of a table with their row and column.\<close>

primrec all_row :: "(int \<Rightarrow> int \<Rightarrow> 'a \<Rightarrow> bool) \<Rightarrow> int \<Rightarrow> int \<Rightarrow> 'a list \<Rightarrow> bool" where
  "all_row P i j [] \<longleftrightarrow> True"
| "all_row P i j (e # es) \<longleftrightarrow> P i j e \<and> all_row P i (j + 1) es"

primrec all_table :: "(int \<Rightarrow> int \<Rightarrow> 'a \<Rightarrow> bool) \<Rightarrow> int \<Rightarrow> 'a list list \<Rightarrow> bool" where
  "all_table P i [] \<longleftrightarrow> True"
| "all_table P i (r # rs) \<longleftrightarrow> all_row P i 0 r \<and> all_table P (i + 1) rs"

lemma all_row_nth: "\<lbrakk>all_row P i j es; k < length es\<rbrakk> \<Longrightarrow> P i (j + int k) (es ! k)"
proof (induction es arbitrary: j k)
  case (Cons e es)
  then show ?case using Cons.IH [of "j + 1" "k - 1"] by (cases k) (auto simp: add.assoc)
qed simp

lemma all_table_nth: "\<lbrakk>all_table P i t; k < length t\<rbrakk> \<Longrightarrow> all_row P (i + int k) 0 (t ! k)"
proof (induction t arbitrary: i k)
  case (Cons r rs)
  then show ?case using Cons.IH [of "i + 1" "k - 1"] by (cases k) (auto simp: add.assoc)
qed simp

lemma all_table_entry: "\<lbrakk>all_table P 0 t; table_entry t i j = Inr e\<rbrakk> \<Longrightarrow> P i j e"
  using all_table_nth [of P 0 t "nat i"] all_row_nth [of P i 0 "t ! nat i" "nat j"] by (auto simp: table_entry_def split: if_splits)

context bit_reader
begin

definition decodes_token :: "('r \<Rightarrow> fault + nat \<times> (int \<times> int) \<times> 'r) \<Rightarrow> int \<Rightarrow> int \<Rightarrow> nat \<times> u32 \<Rightarrow> bool" where
  "decodes_token d tOs tCs e \<longleftrightarrow> (0 < fst e \<longrightarrow> (\<forall>r rest. rbits r = to_bits (fst e) (unat (snd e)) @ rest \<longrightarrow>
     d r = Inr (fst e, (tCs, tOs), skip (fst e) r)))"

lemmas decoding = decodes_token_def to_bits_numeral if_Read_bit switch_Read_bits skip_bits skip_skip token_def counted_def of_bits_Cons

lemma NC0to1_decodes: "all_table (decodes_token (NC0to1 R)) 0 nC0to1"
  by (simp add: nC0to1_def NC0to1_def decoding; simp add: numeral_eq_Suc)

lemma NC2to3_decodes: "all_table (decodes_token (NC2to3 R)) 0 nC2to3"
  by (simp add: nC2to3_def NC2to3_def decoding; simp add: numeral_eq_Suc)

lemma NC4to7_decodes: "all_table (decodes_token (NC4to7 R)) 0 nC4to7"
  by (simp add: nC4to7_def NC4to7_def decoding; simp add: numeral_eq_Suc)

lemma NC8up_decodes: "all_table (decodes_token (NC8up R)) 0 nC8up"
  by (simp add: nC8up_def NC8up_def decoding; simp add: numeral_eq_Suc)

lemma NCneg1_decodes: "all_table (decodes_token (NCneg1 R)) 0 nCneg1"
  by (simp add: nCneg1_def NCneg1_def decoding; simp add: numeral_eq_Suc)

lemma NCneg2_decodes: "all_table (decodes_token (NCneg2 R)) 0 nCneg2"
  by (simp add: nCneg2_def NCneg2_def decoding; simp add: numeral_eq_Suc)

definition decodes_count :: "(int \<Rightarrow> 'r \<Rightarrow> fault + nat \<times> int \<times> 'r) \<Rightarrow> int \<Rightarrow> int \<Rightarrow> nat \<times> u32 \<Rightarrow> bool" where
  "decodes_count d n ctx e \<longleftrightarrow> (0 < fst e \<longrightarrow> (\<forall>r rest. rbits r = to_bits (fst e) (unat (snd e)) @ rest \<longrightarrow>
     d ctx r = Inr (fst e, n, skip (fst e) r)))"

lemmas total_zeros_decoders = TC1_def TC2_def TC3_def TC4_def TC5_def TC6_def TC7_def TC8_def TC9_def TC10_def

lemma TotalZeros4x4_decodes: "all_table (decodes_count (TotalZeros4x4H264VlcDecoder_Decode2 R)) 0 TotalZeros4x4_table"
  by (simp add: TotalZeros4x4_table_def TotalZeros4x4H264VlcDecoder_Decode2_def total_zeros_decoders decoding decodes_count_def; simp add: numeral_eq_Suc)

lemma TotalZeros2x2_decodes: "all_table (decodes_count (TotalZeros2x2H264VlcDecoder_Decode2 R)) 0 TotalZeros2x2_table"
  by (simp add: TotalZeros2x2_table_def TotalZeros2x2H264VlcDecoder_Decode2_def decoding decodes_count_def; simp add: numeral_eq_Suc)

lemma TotalZeros2x4_decodes: "all_table (decodes_count (TotalZeros2x4H264VlcDecoder_Decode2 R)) 0 TotalZeros2x4_table"
  by (simp add: TotalZeros2x4_table_def TotalZeros2x4H264VlcDecoder_Decode2_def decoding decodes_count_def; simp add: numeral_eq_Suc)

lemma RunBefore_decodes:
  "all_table (decodes_count (RunBeforeH264VlcDecoder_Decode2 R)) 0 RunBefore_table"
  by (simp add: RunBefore_table_def decodes_count_def to_bits_numeral of_bits_Cons;
    simp add: RunBeforeH264VlcDecoder_Decode2_def; intro conjI allI impI; elim exE; simp add: decoding; simp add: numeral_eq_Suc)

end

text \<open>
  A symbol is coded when its encoder gives a code of at most the given number of bits and the decoder, at a stream
  that goes on with that code, gives the symbol and leaves the stream after it.
\<close>

definition coded :: "('r \<Rightarrow> bool list) \<Rightarrow> (nat \<Rightarrow> 'r \<Rightarrow> 'r) \<Rightarrow> nat \<Rightarrow> fault + nat \<times> u32 \<Rightarrow> ('r \<Rightarrow> (fault + nat \<times> 'a \<times> 'r) option) \<Rightarrow> 'a \<Rightarrow> bool" where
  "coded rbits skip most enc dec a \<longleftrightarrow> (\<exists>n v. enc = Inr (n, v) \<and> 0 < n \<and> n \<le> most
     \<and> (\<forall>r rest. rbits r = to_bits n (unat v) @ rest \<longrightarrow> dec r = Some (Inr (n, a, skip n r))))"

context bit_reader
begin

lemma count_zeros_bits:
  "rbits r = replicate n False @ True # rest \<Longrightarrow> count_zeros R k r = Some (Inr (k + n, skip (n + 1) r))"
proof (induction n arbitrary: k r)
  case 0
  then show ?case using read_bit [of r True rest] by (subst count_zeros.simps) simp
next
  case (Suc n)
  then have r: "rbits r = False # replicate n False @ True # rest" by simp
  then have "rbits (skip 1 r) = replicate n False @ True # rest" by (simp add: skip_bits)
  from Suc.IH [OF this, of "k + 1"] show ?case
    using read_bit [OF r] by (subst count_zeros.simps) (simp add: skip_skip)
qed

end

end
