(* ===== verification/Codec_Cavlc.thy ===== *)
theory Codec_Cavlc
  imports Codec_Vlc
begin

text \<open>
  Context adaptive coding of blocks of transform coefficients (\<open>CodecUtils/CAVLCH264Impl.cpp\<close>), the run-level codec
  that \<open>H264v2Codec\<close> instantiates for its 4x4 and 2x2 blocks. Its variable length codes are those that are
  attached to it; a method that fails returns a negative code.
\<close>

type_synonym s16 = "16 word"

section \<open>The codec and its modes\<close>

record ('e, 'd) CAVLCH264Impl =
  cv_zigZag :: "nat list"
  cv_mode :: int
  cv_maxNumCoeff :: nat
  cv_numCoeff :: int
  cv_numTotNeighborCoeff :: int
  cv_dcSkip :: int
  cv_pCoeffTokenVlcEncoder :: "'e option"
  cv_pCoeffTokenVlcDecoder :: "'d option"
  cv_pPrefixVlcEncoder :: "'e option"
  cv_pPrefixVlcDecoder :: "'d option"
  cv_pTotalZerosVlcEncoder :: "'e option"
  cv_pTotalZerosVlcDecoder :: "'d option"
  cv_pRunBeforeVlcEncoder :: "'e option"
  cv_pRunBeforeVlcDecoder :: "'d option"

definition zigZag8x8Pos :: "nat list" where
  "zigZag8x8Pos =
    [ 0,  1,  8, 16,  9,  2,  3, 10, 17, 24, 32, 25, 18, 11,  4,  5,
     12, 19, 26, 33, 40, 48, 41, 34, 27, 20, 13,  6,  7, 14, 21, 28,
     35, 42, 49, 56, 57, 50, 43, 36, 29, 22, 15, 23, 30, 37, 44, 51,
     58, 59, 52, 45, 38, 31, 39, 46, 53, 60, 61, 54, 47, 55, 62, 63]"

definition zigZag4x4Pos :: "nat list" where
  "zigZag4x4Pos = [0, 1, 4, 8, 5, 2, 3, 6, 9, 12, 13, 10, 7, 11, 14, 15]"

definition zigZag2x2Pos :: "nat list" where
  "zigZag2x2Pos = [0, 1, 2, 3]"

definition VLC_SYMBOL_NOT_RECOGNISED :: int where
  "VLC_SYMBOL_NOT_RECOGNISED = -1"

definition STREAM_ACCESS_DENIED :: int where
  "STREAM_ACCESS_DENIED = -2"

definition Mode2x2 :: int where "Mode2x2 = 0"
definition Mode4x4 :: int where "Mode4x4 = 1"
definition Mode8x8 :: int where "Mode8x8 = 2"

definition NUM_TOT_NEIGHBOR_COEFF_ID :: int where "NUM_TOT_NEIGHBOR_COEFF_ID = 0"
definition DC_SKIP_FLAG_ID :: int where "DC_SKIP_FLAG_ID = 1"
definition NUM_TOT_COEFF_ID :: int where "NUM_TOT_COEFF_ID = 2"

definition CAVLCH264Impl :: "('e, 'd) CAVLCH264Impl" where
  "CAVLCH264Impl = \<lparr>cv_zigZag = zigZag4x4Pos, cv_mode = Mode4x4, cv_maxNumCoeff = 16, cv_numCoeff = 0,
     cv_numTotNeighborCoeff = 0, cv_dcSkip = 0, cv_pCoeffTokenVlcEncoder = None, cv_pCoeffTokenVlcDecoder = None,
     cv_pPrefixVlcEncoder = None, cv_pPrefixVlcDecoder = None, cv_pTotalZerosVlcEncoder = None, cv_pTotalZerosVlcDecoder = None,
     cv_pRunBeforeVlcEncoder = None, cv_pRunBeforeVlcDecoder = None\<rparr>"

definition CAVLC_SetMode :: "int \<Rightarrow> ('e, 'd) CAVLCH264Impl \<Rightarrow> ('e, 'd) CAVLCH264Impl" where
  "CAVLC_SetMode mode cv =
     (if mode = Mode2x2 then cv\<lparr>cv_mode := mode, cv_zigZag := zigZag2x2Pos, cv_maxNumCoeff := 4\<rparr>
      else if mode = Mode4x4 then cv\<lparr>cv_mode := mode, cv_zigZag := zigZag4x4Pos, cv_maxNumCoeff := 16\<rparr>
      else if mode = Mode8x8 then cv\<lparr>cv_mode := mode, cv_zigZag := zigZag8x8Pos, cv_maxNumCoeff := 64\<rparr>
      else cv\<lparr>cv_mode := Mode4x4, cv_zigZag := zigZag4x4Pos, cv_maxNumCoeff := 16\<rparr>)"

definition CAVLC_SetParameter :: "int \<Rightarrow> int \<Rightarrow> ('e, 'd) CAVLCH264Impl \<Rightarrow> ('e, 'd) CAVLCH264Impl" where
  "CAVLC_SetParameter paramID paramVal cv =
     (if paramID = NUM_TOT_NEIGHBOR_COEFF_ID then cv\<lparr>cv_numTotNeighborCoeff := paramVal\<rparr>
      else if paramID = DC_SKIP_FLAG_ID then cv\<lparr>cv_dcSkip := paramVal\<rparr>
      else cv)"

definition CAVLC_GetParameter :: "int \<Rightarrow> ('e, 'd) CAVLCH264Impl \<Rightarrow> int" where
  "CAVLC_GetParameter paramID cv =
     (if paramID = NUM_TOT_NEIGHBOR_COEFF_ID then cv_numTotNeighborCoeff cv
      else if paramID = DC_SKIP_FLAG_ID then cv_dcSkip cv
      else if paramID = NUM_TOT_COEFF_ID then cv_numCoeff cv
      else -1)"

definition array_at :: "'a list \<Rightarrow> int \<Rightarrow> fault + 'a" where
  "array_at xs i = (if 0 \<le> i \<and> nat i < length xs then Inr (xs ! nat i) else Inl Out_of_range)"

definition deref :: "'a option \<Rightarrow> fault + 'a" where
  "deref p = (case p of None \<Rightarrow> Inl Null_dereference | Some x \<Rightarrow> Inr x)"

section \<open>Scanning a block\<close>

record cavlc_scan =
  sc_level :: "int list"
  sc_runBefore :: "int list"
  sc_totalCoeff :: nat
  sc_trailingOnes :: nat
  sc_trailingOnesSignFlag :: "bool list"
  sc_totalZeros :: int
  sc_count :: int

definition scan_start :: cavlc_scan where
  "scan_start = \<lparr>sc_level = [], sc_runBefore = [], sc_totalCoeff = 0, sc_trailingOnes = 0, sc_trailingOnesSignFlag = [],
     sc_totalZeros = 0, sc_count = 0\<rparr>"

definition trailing_one :: "int \<Rightarrow> cavlc_scan \<Rightarrow> cavlc_scan" where
  "trailing_one x st =
     (if x = -1 \<or> x = 1
      then st\<lparr>sc_trailingOnesSignFlag := sc_trailingOnesSignFlag st @ [x = -1], sc_trailingOnes := sc_trailingOnes st + 1\<rparr>
      else st)"

text \<open>The level at \<open>pos\<close> is the last one, so the arrays are lists that grow.\<close>

definition scan_coeff :: "cavlc_scan \<Rightarrow> int \<Rightarrow> cavlc_scan" where
  "scan_coeff st x =
     (if sc_totalCoeff st > 0
      then if x = 0 then st\<lparr>sc_count := sc_count st + 1, sc_totalZeros := sc_totalZeros st + 1\<rparr>
           else let st1 = st\<lparr>sc_runBefore := sc_runBefore st @ [sc_count st], sc_count := 0, sc_level := sc_level st @ [x],
                          sc_totalCoeff := sc_totalCoeff st + 1\<rparr>
                in if sc_trailingOnes st1 < 3 \<and> sc_trailingOnes st1 = sc_totalCoeff st1 - 1 then trailing_one x st1 else st1
      else if x \<noteq> 0 then trailing_one x (st\<lparr>sc_level := [x], sc_totalCoeff := 1\<rparr>)
      else st)"

text \<open>The coefficients in the order of the loop, from the last of the zigzag scan down to the first that is coded.\<close>

fun read_coeffs :: "nat list \<Rightarrow> s16 list \<Rightarrow> int list \<Rightarrow> fault + int list" where
  "read_coeffs zigZag coeffLevel [] = Inr []"
| "read_coeffs zigZag coeffLevel (i # is) =
     (case array_at zigZag i of Inl f \<Rightarrow> Inl f
      | Inr p \<Rightarrow>
         (case array_at coeffLevel (int p) of Inl f \<Rightarrow> Inl f
          | Inr x \<Rightarrow>
             (case read_coeffs zigZag coeffLevel is of Inl f \<Rightarrow> Inl f
              | Inr xs \<Rightarrow> Inr (sint x # xs))))"

section \<open>Levels\<close>

function grow_prefix :: "nat \<Rightarrow> int \<Rightarrow> nat" where
  "grow_prefix levelPrefix levelCode =
     (if levelCode \<ge> 2 ^ (levelPrefix - 2) - 4096 \<and> levelPrefix < 35 then grow_prefix (levelPrefix + 1) levelCode else levelPrefix)"
  by pat_completeness auto
termination
  by (relation "measure (\<lambda>(p, _). 35 - p)") auto

declare grow_prefix.simps [simp del]

text \<open>The prefix, the size of the suffix and the suffix of a level code.\<close>

definition level_parts :: "nat \<Rightarrow> int \<Rightarrow> int \<times> nat \<times> int" where
  "level_parts suffixLength levelCode =
     (if suffixLength = 0 \<and> levelCode \<ge> 14 \<and> levelCode \<le> 29 then (14, 4, (levelCode - 14) mod 16)
      else let maxLevelCode = 14 * 2 ^ suffixLength + (2 ^ suffixLength - 1)
           in if levelCode \<le> maxLevelCode then (levelCode div 2 ^ suffixLength, suffixLength, levelCode mod 2 ^ suffixLength)
              else let levelCode1 = levelCode - 15 * 2 ^ suffixLength - (if suffixLength = 0 then 15 else 0);
                       levelPrefix = grow_prefix 15 levelCode1;
                       levelCode2 = (if levelPrefix \<ge> 16 then levelCode1 - (2 ^ (levelPrefix - 3) - 4096) else levelCode1)
                   in (int levelPrefix, levelPrefix - 3, levelCode2 mod 2 ^ (levelPrefix - 3)))"

definition suffix_size :: "int \<Rightarrow> nat \<Rightarrow> nat" where
  "suffix_size levelPrefix suffixLength =
     (if levelPrefix \<ge> 15 then nat (levelPrefix - 3)
      else if levelPrefix = 14 \<and> suffixLength = 0 then 4 else suffixLength)"

definition level_code_of :: "int \<Rightarrow> nat \<Rightarrow> int \<Rightarrow> int" where
  "level_code_of levelPrefix suffixLength levelSuffix =
     (if levelPrefix < 15 then levelPrefix * 2 ^ suffixLength + levelSuffix else 15 * 2 ^ suffixLength + levelSuffix)
     + (if levelPrefix \<ge> 15 \<and> suffixLength = 0 then 15 else 0)
     + (if levelPrefix \<ge> 16 then 2 ^ nat (levelPrefix - 3) - 4096 else 0)"

definition next_suffix_length :: "nat \<Rightarrow> int \<Rightarrow> nat" where
  "next_suffix_length suffixLength level =
     (let s = (if suffixLength = 0 then 1 else suffixLength) in if \<bar>level\<bar> > 3 * 2 ^ (s - 1) \<and> s < 6 then s + 1 else s)"

section \<open>Encoding\<close>

text \<open>A step of the encoder goes on with a value or returns a code, and leaves the stream, if there is one.\<close>

definition bind_enc :: "fault + (int + 'a) \<times> 'w option \<Rightarrow> ('a \<Rightarrow> 'w option \<Rightarrow> fault + (int + 'b) \<times> 'w option) \<Rightarrow>
    fault + (int + 'b) \<times> 'w option" where
  "bind_enc m k = (case m of Inl f \<Rightarrow> Inl f | Inr (res, w) \<Rightarrow> (case res of Inl rc \<Rightarrow> Inr (Inl rc, w) | Inr a \<Rightarrow> k a w))"

definition lift_enc :: "fault + 'a \<Rightarrow> 'w option \<Rightarrow> fault + (int + 'a) \<times> 'w option" where
  "lift_enc m w = (case m of Inl f \<Rightarrow> Inl f | Inr a \<Rightarrow> Inr (Inr a, w))"

definition put_code :: "'w IBitStreamWriter \<Rightarrow> nat \<times> u32 \<Rightarrow> int \<Rightarrow> 'w option \<Rightarrow> fault + (int + int) \<times> 'w option" where
  "put_code W code totalEncBits pBsw =
     (let lclNumBits = fst code;
          counted = (if lclNumBits > 0 then Inr (totalEncBits + int lclNumBits) else Inl VLC_SYMBOL_NOT_RECOGNISED)
      in case pBsw of None \<Rightarrow> Inr (counted, None)
         | Some w \<Rightarrow>
            if iw_GetStreamBitsRemaining W w \<ge> int lclNumBits
            then (case iw_WriteBits W lclNumBits (snd code) w of Inl f \<Rightarrow> Inl f | Inr w1 \<Rightarrow> Inr (counted, Some w1))
            else Inr (Inl STREAM_ACCESS_DENIED, Some w))"

definition put_sign :: "'w IBitStreamWriter \<Rightarrow> bool \<Rightarrow> int \<Rightarrow> 'w option \<Rightarrow> fault + (int + int) \<times> 'w option" where
  "put_sign W flag totalEncBits pBsw =
     (case pBsw of None \<Rightarrow> Inr (Inr (totalEncBits + 1), None)
      | Some w \<Rightarrow>
         if iw_GetStreamBitsRemaining W w \<ge> 1
         then (case iw_Write W flag w of Inl f \<Rightarrow> Inl f | Inr w1 \<Rightarrow> Inr (Inr (totalEncBits + 1), Some w1))
         else Inr (Inl STREAM_ACCESS_DENIED, Some w))"

definition put_level :: "'w IBitStreamWriter \<Rightarrow> nat \<times> u32 \<Rightarrow> nat \<Rightarrow> int \<Rightarrow> int \<Rightarrow> 'w option \<Rightarrow> fault + (int + int) \<times> 'w option" where
  "put_level W code levelSuffixSize levelSuffix totalEncBits pBsw =
     (let lclNumBits = fst code;
          counted = (if lclNumBits > 0 then Inr (totalEncBits + int (lclNumBits + levelSuffixSize)) else Inl VLC_SYMBOL_NOT_RECOGNISED)
      in case pBsw of None \<Rightarrow> Inr (counted, None)
         | Some w \<Rightarrow>
            if iw_GetStreamBitsRemaining W w \<ge> int (lclNumBits + levelSuffixSize)
            then (case iw_WriteBits W lclNumBits (snd code) w of Inl f \<Rightarrow> Inl f
                  | Inr w1 \<Rightarrow>
                     (case iw_WriteBits W levelSuffixSize (of_int levelSuffix) w1 of Inl f \<Rightarrow> Inl f
                      | Inr w2 \<Rightarrow> Inr (counted, Some w2)))
            else Inr (Inl STREAM_ACCESS_DENIED, Some w))"

definition level_code :: "nat \<Rightarrow> nat \<Rightarrow> int \<Rightarrow> int" where
  "level_code i trailingOnes level =
     (if level > 0 then 2 * level - 2 else - (2 * level + 1)) - (if i = trailingOnes \<and> trailingOnes < 3 then 2 else 0)"

fun put_levels :: "'w IBitStreamWriter \<Rightarrow> IVlcEncoder option \<Rightarrow> nat \<Rightarrow> bool list \<Rightarrow> nat \<Rightarrow> nat \<Rightarrow> int list \<Rightarrow> int \<Rightarrow> 'w option
    \<Rightarrow> fault + (int + int) \<times> 'w option" where
  "put_levels W prefixEnc trailingOnes flags i suffixLength [] totalEncBits pBsw = Inr (Inr totalEncBits, pBsw)"
| "put_levels W prefixEnc trailingOnes flags i suffixLength (level # levels) totalEncBits pBsw =
     (if i < trailingOnes
      then bind_enc (put_sign W (flags ! i) totalEncBits pBsw) (put_levels W prefixEnc trailingOnes flags (i + 1) suffixLength levels)
      else (let (levelPrefix, levelSuffixSize, levelSuffix) = level_parts suffixLength (level_code i trailingOnes level)
            in case deref prefixEnc of Inl f \<Rightarrow> Inl f
               | Inr e \<Rightarrow>
                  (case ve_Encode e levelPrefix of Inl f \<Rightarrow> Inl f
                   | Inr code \<Rightarrow>
                      bind_enc (put_level W code levelSuffixSize levelSuffix totalEncBits pBsw)
                        (put_levels W prefixEnc trailingOnes flags (i + 1) (next_suffix_length suffixLength level) levels))))"

fun put_runs :: "'w IBitStreamWriter \<Rightarrow> IVlcEncoder option \<Rightarrow> int list \<Rightarrow> int \<Rightarrow> int \<Rightarrow> 'w option \<Rightarrow> fault + (int + int) \<times> 'w option" where
  "put_runs W runEnc [] zerosLeft totalEncBits pBsw = Inr (Inr totalEncBits, pBsw)"
| "put_runs W runEnc (run # runs) zerosLeft totalEncBits pBsw =
     (if zerosLeft = 0 then Inr (Inr totalEncBits, pBsw)
      else case deref runEnc of Inl f \<Rightarrow> Inl f
      | Inr e \<Rightarrow>
         (case ve_Encode2 e run zerosLeft of Inl f \<Rightarrow> Inl f
          | Inr code \<Rightarrow> bind_enc (put_code W code totalEncBits pBsw) (put_runs W runEnc runs (zerosLeft - run))))"

definition put_zeros :: "'w IBitStreamWriter \<Rightarrow> (IVlcEncoder, 'd) CAVLCH264Impl \<Rightarrow> cavlc_scan \<Rightarrow> int \<Rightarrow> 'w option
    \<Rightarrow> fault + (int + int) \<times> 'w option" where
  "put_zeros W cv st totalEncBits pBsw =
     (if int (sc_totalCoeff st) < int (cv_maxNumCoeff cv) - cv_dcSkip cv
      then case deref (cv_pTotalZerosVlcEncoder cv) of Inl f \<Rightarrow> Inl f
           | Inr e \<Rightarrow>
              (case ve_Encode2 e (sc_totalZeros st) (int (sc_totalCoeff st)) of Inl f \<Rightarrow> Inl f
               | Inr code \<Rightarrow>
                  bind_enc (put_code W code totalEncBits pBsw)
                    (put_runs W (cv_pRunBeforeVlcEncoder cv) (sc_runBefore st) (sc_totalZeros st)))
      else Inr (Inr totalEncBits, pBsw))"

definition put_block :: "'w IBitStreamWriter \<Rightarrow> (IVlcEncoder, 'd) CAVLCH264Impl \<Rightarrow> cavlc_scan \<Rightarrow> 'w option
    \<Rightarrow> fault + (int + int) \<times> 'w option" where
  "put_block W cv st pBsw =
     (case deref (cv_pCoeffTokenVlcEncoder cv) of Inl f \<Rightarrow> Inl f
      | Inr e \<Rightarrow>
         (case ve_Encode3 e (int (sc_totalCoeff st)) (int (sc_trailingOnes st)) (cv_numTotNeighborCoeff cv) of Inl f \<Rightarrow> Inl f
          | Inr code \<Rightarrow>
             bind_enc (put_code W code 0 pBsw) (\<lambda>totalEncBits w.
               if sc_totalCoeff st > 0
               then bind_enc (put_levels W (cv_pPrefixVlcEncoder cv) (sc_trailingOnes st) (sc_trailingOnesSignFlag st) 0
                       (if sc_totalCoeff st > 10 \<and> sc_trailingOnes st < 3 then 1 else 0) (sc_level st) totalEncBits w)
                       (put_zeros W cv st)
               else Inr (Inr totalEncBits, w))))"

definition CAVLC_Encode :: "'w IBitStreamWriter \<Rightarrow> s16 list \<Rightarrow> 'w option \<Rightarrow> (IVlcEncoder, 'd) CAVLCH264Impl
    \<Rightarrow> fault + int \<times> 'w option \<times> (IVlcEncoder, 'd) CAVLCH264Impl" where
  "CAVLC_Encode W coeffLevel pBsw cv =
     (case read_coeffs (cv_zigZag cv) coeffLevel (rev [cv_dcSkip cv..int (cv_maxNumCoeff cv) - 1]) of Inl f \<Rightarrow> Inl f
      | Inr xs \<Rightarrow>
         (let st = foldl scan_coeff scan_start xs
          in case put_block W cv st pBsw of Inl f \<Rightarrow> Inl f
             | Inr (Inl rc, w) \<Rightarrow> Inr (rc, w, cv)
             | Inr (Inr totalEncBits, w) \<Rightarrow> Inr (totalEncBits, w, cv\<lparr>cv_numCoeff := int (sc_totalCoeff st)\<rparr>)))"

section \<open>Decoding\<close>

text \<open>A step of the decoder may not return, go on with a value, or return a code; it leaves the stream.\<close>

definition bind_dec :: "(fault + (int + 'a) \<times> 'r) option \<Rightarrow> ('a \<Rightarrow> 'r \<Rightarrow> (fault + (int + 'b) \<times> 'r) option) \<Rightarrow>
    (fault + (int + 'b) \<times> 'r) option" where
  "bind_dec m k = (case m of None \<Rightarrow> None
     | Some (Inl f) \<Rightarrow> Some (Inl f)
     | Some (Inr (res, r)) \<Rightarrow> (case res of Inl rc \<Rightarrow> Some (Inr (Inl rc, r)) | Inr a \<Rightarrow> k a r))"

text \<open>A code is decoded when the stream has a bit left.\<close>

definition take_code :: "'r IBitStreamReader \<Rightarrow> ('r \<Rightarrow> (fault + nat \<times> 'a \<times> 'r) option) \<Rightarrow> int \<Rightarrow> 'r
    \<Rightarrow> (fault + (int + int \<times> 'a) \<times> 'r) option" where
  "take_code R decode totalDecBits r =
     (if ir_GetStreamBitsRemaining R r > 0
      then (case decode r of None \<Rightarrow> None
            | Some (Inl f) \<Rightarrow> Some (Inl f)
            | Some (Inr (lclNumBits, a, r1)) \<Rightarrow>
                Some (Inr (if lclNumBits > 0 then Inr (totalDecBits + int lclNumBits, a) else Inl VLC_SYMBOL_NOT_RECOGNISED, r1)))
      else Some (Inr (Inl STREAM_ACCESS_DENIED, r)))"

definition take_sign :: "'r IBitStreamReader \<Rightarrow> int \<Rightarrow> 'r \<Rightarrow> (fault + (int + int \<times> int) \<times> 'r) option" where
  "take_sign R totalDecBits r =
     (if ir_GetStreamBitsRemaining R r > 0
      then (case ir_Read R r of Inl f \<Rightarrow> Some (Inl f)
            | Inr (b, r1) \<Rightarrow> Some (Inr (Inr (totalDecBits + 1, 1 - 2 * of_bool b), r1)))
      else Some (Inr (Inl STREAM_ACCESS_DENIED, r)))"

definition take_suffix :: "'r IBitStreamReader \<Rightarrow> nat \<Rightarrow> int \<Rightarrow> 'r \<Rightarrow> (fault + (int + int \<times> int) \<times> 'r) option" where
  "take_suffix R levelSuffixSize totalDecBits r =
     (if levelSuffixSize > 0
      then if ir_GetStreamBitsRemaining R r \<ge> int levelSuffixSize
           then (case ir_ReadBits R levelSuffixSize r of Inl f \<Rightarrow> Some (Inl f)
                 | Inr (v, r1) \<Rightarrow> Some (Inr (Inr (totalDecBits + int levelSuffixSize, sint v), r1)))
           else Some (Inr (Inl STREAM_ACCESS_DENIED, r))
      else Some (Inr (Inr (totalDecBits, 0), r)))"

definition level_of :: "nat \<Rightarrow> nat \<Rightarrow> int \<Rightarrow> int" where
  "level_of i trailingOnes code =
     (let levelCode = code + (if i = trailingOnes \<and> trailingOnes < 3 then 2 else 0)
      in if odd levelCode then (- levelCode - 1) div 2 else (levelCode + 2) div 2)"

definition take_level :: "'r IBitStreamReader \<Rightarrow> 'r IVlcDecoder option \<Rightarrow> nat \<Rightarrow> nat \<Rightarrow> nat \<Rightarrow> int \<Rightarrow> 'r
    \<Rightarrow> (fault + (int + int \<times> int) \<times> 'r) option" where
  "take_level R prefixDec trailingOnes i suffixLength totalDecBits r =
     bind_dec (take_code R (\<lambda>r. case deref prefixDec of Inl f \<Rightarrow> Some (Inl f) | Inr d \<Rightarrow> vd_Decode d r) totalDecBits r)
       (\<lambda>(total1, levelPrefix) r1.
         bind_dec (take_suffix R (suffix_size levelPrefix suffixLength) total1 r1)
           (\<lambda>(total2, levelSuffix) r2.
             Some (Inr (Inr (total2, level_of i trailingOnes (level_code_of levelPrefix suffixLength levelSuffix)), r2))))"

definition and_then :: "'a \<Rightarrow> (fault + (int + int \<times> 'a list) \<times> 'r) option \<Rightarrow> (fault + (int + int \<times> 'a list) \<times> 'r) option" where
  "and_then x m = bind_dec m (\<lambda>(total, xs) r. Some (Inr (Inr (total, x # xs), r)))"

text \<open>The loop of the levels counts the ones to come; \<open>i\<close> is the index of the next.\<close>

fun take_levels :: "'r IBitStreamReader \<Rightarrow> 'r IVlcDecoder option \<Rightarrow> nat \<Rightarrow> nat \<Rightarrow> nat \<Rightarrow> nat \<Rightarrow> int \<Rightarrow> 'r
    \<Rightarrow> (fault + (int + int \<times> int list) \<times> 'r) option" where
  "take_levels R prefixDec trailingOnes 0 i suffixLength totalDecBits r = Some (Inr (Inr (totalDecBits, []), r))"
| "take_levels R prefixDec trailingOnes (Suc n) i suffixLength totalDecBits r =
     (if i < trailingOnes
      then bind_dec (take_sign R totalDecBits r)
             (\<lambda>(total1, level) r1. and_then level (take_levels R prefixDec trailingOnes n (i + 1) suffixLength total1 r1))
      else bind_dec (take_level R prefixDec trailingOnes i suffixLength totalDecBits r)
             (\<lambda>(total1, level) r1.
               and_then level (take_levels R prefixDec trailingOnes n (i + 1) (next_suffix_length suffixLength level) total1 r1)))"

text \<open>The runs before all coefficients but the last, then the zeros that are left.\<close>

fun take_runs :: "'r IBitStreamReader \<Rightarrow> 'r IVlcDecoder option \<Rightarrow> nat \<Rightarrow> int \<Rightarrow> int \<Rightarrow> 'r
    \<Rightarrow> (fault + (int + int \<times> int list) \<times> 'r) option" where
  "take_runs R runDec 0 zerosLeft totalDecBits r = Some (Inr (Inr (totalDecBits, [zerosLeft]), r))"
| "take_runs R runDec (Suc n) zerosLeft totalDecBits r =
     (if zerosLeft > 0
      then bind_dec (take_code R (\<lambda>r. case deref runDec of Inl f \<Rightarrow> Some (Inl f) | Inr d \<Rightarrow> Some (vd_Decode2 d zerosLeft r)) totalDecBits r)
             (\<lambda>(total1, run) r1. and_then run (take_runs R runDec n (zerosLeft - run) total1 r1))
      else and_then 0 (take_runs R runDec n zerosLeft totalDecBits r))"

definition take_total_zeros :: "'r IBitStreamReader \<Rightarrow> ('e, 'r IVlcDecoder) CAVLCH264Impl \<Rightarrow> int \<Rightarrow> int \<Rightarrow> 'r
    \<Rightarrow> (fault + (int + int \<times> int) \<times> 'r) option" where
  "take_total_zeros R cv totalCoeff totalDecBits r =
     (if totalCoeff < int (cv_maxNumCoeff cv) - cv_dcSkip cv
      then take_code R (\<lambda>r. case deref (cv_pTotalZerosVlcDecoder cv) of Inl f \<Rightarrow> Some (Inl f)
             | Inr d \<Rightarrow> Some (vd_Decode2 d totalCoeff r)) totalDecBits r
      else Some (Inr (Inr (totalDecBits, 0), r)))"

text \<open>The levels go to their places from the last one back; each is given with its run.\<close>

fun load_coeffs :: "nat list \<Rightarrow> int \<Rightarrow> int \<Rightarrow> (int \<times> int) list \<Rightarrow> s16 list \<Rightarrow> fault + s16 list" where
  "load_coeffs zigZag dcSkip coeffNum [] coeffLevel = Inr coeffLevel"
| "load_coeffs zigZag dcSkip coeffNum ((run, level) # ps) coeffLevel =
     (let coeffNum1 = coeffNum + (run + 1)
      in case array_at zigZag (coeffNum1 + dcSkip) of Inl f \<Rightarrow> Inl f
         | Inr p \<Rightarrow>
             if p < length coeffLevel then load_coeffs zigZag dcSkip coeffNum1 ps (coeffLevel[p := of_int level])
             else Inl Buffer_overflow)"

definition take_block :: "'r IBitStreamReader \<Rightarrow> ('e, 'r IVlcDecoder) CAVLCH264Impl \<Rightarrow> 'r
    \<Rightarrow> (fault + (int + int \<times> int \<times> (int \<times> int) list) \<times> 'r) option" where
  "take_block R cv r =
     bind_dec (take_code R (\<lambda>r. case deref (cv_pCoeffTokenVlcDecoder cv) of Inl f \<Rightarrow> Some (Inl f)
         | Inr d \<Rightarrow> Some (vd_Decode3 d (cv_numTotNeighborCoeff cv) r)) 0 r)
       (\<lambda>(total1, totalCoeff, trailingOnes) r1.
         if totalCoeff > 0
         then bind_dec (take_levels R (cv_pPrefixVlcDecoder cv) (nat trailingOnes) (nat totalCoeff) 0
                 (if totalCoeff > 10 \<and> trailingOnes < 3 then 1 else 0) total1 r1)
                (\<lambda>(total2, levels) r2.
                  bind_dec (take_total_zeros R cv totalCoeff total2 r2)
                    (\<lambda>(total3, zerosLeft) r3.
                      bind_dec (take_runs R (cv_pRunBeforeVlcDecoder cv) (nat totalCoeff - 1) zerosLeft total3 r3)
                        (\<lambda>(total4, runs) r4. Some (Inr (Inr (total4, totalCoeff, rev (zip runs levels)), r4)))))
         else Some (Inr (Inr (total1, totalCoeff, []), r1)))"

text \<open>The attached decoders give no more coefficients than the local arrays hold.\<close>

definition CAVLC_Decode :: "'r IBitStreamReader \<Rightarrow> 'r \<Rightarrow> s16 list \<Rightarrow> ('e, 'r IVlcDecoder) CAVLCH264Impl
    \<Rightarrow> (fault + int \<times> 'r \<times> s16 list \<times> ('e, 'r IVlcDecoder) CAVLCH264Impl) option" where
  "CAVLC_Decode R pBsr coeffLevel cv =
     (if length coeffLevel < cv_maxNumCoeff cv then Some (Inl Buffer_overflow)
      else let cleared = replicate (cv_maxNumCoeff cv) 0 @ drop (cv_maxNumCoeff cv) coeffLevel
           in case take_block R cv pBsr of None \<Rightarrow> None
              | Some (Inl f) \<Rightarrow> Some (Inl f)
              | Some (Inr (Inl rc, r)) \<Rightarrow> Some (Inr (rc, r, cleared, cv))
              | Some (Inr (Inr (totalDecBits, totalCoeff, ps), r)) \<Rightarrow>
                  (case load_coeffs (cv_zigZag cv) (cv_dcSkip cv) (-1) ps cleared of Inl f \<Rightarrow> Some (Inl f)
                   | Inr out \<Rightarrow> Some (Inr (totalDecBits, r, out, cv\<lparr>cv_numCoeff := totalCoeff\<rparr>))))"

end
