(* ===== verification/Cavlc_Round_Trip.thy ===== *)
theory Cavlc_Round_Trip
  imports Codec_Cavlc
begin

text \<open>
  What \<open>CAVLCH264Impl\<close> encodes it decodes: the parts of a level code, the scan of a block into levels and runs,
  and the block as a whole, for any codes that keep the contract of the locale \<open>cavlc_codes\<close>, which the codes of
  the library do.
\<close>

section \<open>Levels\<close>

lemma grow_prefix_bounds:
  "15 \<le> q \<Longrightarrow> q \<le> 35 \<Longrightarrow> q \<le> grow_prefix q lev \<and> grow_prefix q lev \<le> 35
     \<and> (grow_prefix q lev = q \<or> 2 ^ (grow_prefix q lev - 3) - 4096 \<le> lev)
     \<and> (grow_prefix q lev < 35 \<longrightarrow> lev < 2 ^ (grow_prefix q lev - 2) - 4096)"
proof (induction q lev rule: grow_prefix.induct)
  case (1 q lev)
  show ?case
  proof (cases "lev \<ge> 2 ^ (q - 2) - 4096 \<and> q < 35")
    case True
    then have g: "grow_prefix q lev = grow_prefix (q + 1) lev" by (subst grow_prefix.simps) simp
    have s: "q + 1 - 3 = q - 2" using "1.prems" by simp
    from "1.IH" [OF True] "1.prems" True show ?thesis unfolding g using s by (auto simp: le_Suc_eq)
  next
    case False
    then have g: "grow_prefix q lev = q" by (subst grow_prefix.simps) auto
    with False "1.prems" show ?thesis by auto
  qed
qed

lemma grow_prefix_16_bits:
  assumes "lev < 2 ^ 17" "0 \<le> lev"
  obtains p where "grow_prefix 15 lev = p" "15 \<le> p" "p \<le> 20" "lev < 2 ^ (p - 2) - 4096" "p = 15 \<or> 2 ^ (p - 3) - 4096 \<le> lev"
proof
  let ?p = "grow_prefix 15 lev"
  have b: "15 \<le> ?p" "?p \<le> 35" "?p = 15 \<or> 2 ^ (?p - 3) - 4096 \<le> lev" "?p < 35 \<longrightarrow> lev < 2 ^ (?p - 2) - 4096"
    using grow_prefix_bounds [of 15 lev] by auto
  show p20: "?p \<le> 20"
  proof (rule ccontr)
    assume "\<not> ?p \<le> 20"
    then have "(2 :: int) ^ 18 \<le> 2 ^ (?p - 3)" by (intro power_increasing) auto
    with b(3) assms(1) \<open>\<not> ?p \<le> 20\<close> show False by auto
  qed
  show "grow_prefix 15 lev = ?p" by (rule refl)
  show "15 \<le> ?p" "?p = 15 \<or> 2 ^ (?p - 3) - 4096 \<le> lev" using b by auto
  show "lev < 2 ^ (?p - 2) - 4096" using b(4) p20 by simp
qed

lemma int_div_less:
  assumes "0 < (d :: int)" "x < k * d"
  shows "x div d < k"
proof (rule ccontr)
  assume "\<not> x div d < k"
  then have "k * d \<le> x div d * d" using assms(1) by (intro mult_right_mono) auto
  also have "\<dots> \<le> x" using assms(1) by (simp add: div_mult_mod_eq flip: minus_mod_eq_div_mult)
  finally show False using assms(2) by simp
qed

lemma level_parts_code:
  assumes lc: "0 \<le> lc" "lc < 2 ^ 17" and "level_parts s lc = (p, n, suf)" and s6: "s \<le> 6"
  shows "suffix_size p s = n \<and> level_code_of p s suf = lc \<and> 0 \<le> p \<and> p \<le> 20 \<and> n \<le> 17 \<and> 0 \<le> suf \<and> suf < 2 ^ n"
proof (cases "s = 0 \<and> lc \<ge> 14 \<and> lc \<le> 29")
  case True
  with assms(3) have "p = 14" "n = 4" "suf = lc - 14" by (auto simp: level_parts_def)
  with True show ?thesis by (auto simp: suffix_size_def level_code_of_def)
next
  case esc: False
  have pos: "(0 :: int) < 2 ^ s" by simp
  have s64: "(2 :: int) ^ s \<le> 2 ^ 6" using s6 by (intro power_increasing) auto
  show ?thesis
  proof (cases "lc \<le> 14 * 2 ^ s + (2 ^ s - 1)")
    case True
    with esc assms(3) have v: "p = lc div 2 ^ s" "n = s" "suf = lc mod 2 ^ s" by (auto simp: level_parts_def Let_def)
    from True have "lc < 15 * 2 ^ s" by linarith
    then have p15: "p < 15" using pos v(1) by (auto intro: int_div_less)
    have p0: "0 \<le> p" using v(1) lc by (simp add: pos_imp_zdiv_nonneg_iff)
    have "\<not> (p = 14 \<and> s = 0)"
    proof
      assume s: "p = 14 \<and> s = 0"
      then have "lc = 14" using v(1) by auto
      with s esc show False by simp
    qed
    then have "suffix_size p s = n" using p15 v(2) by (simp add: suffix_size_def)
    moreover have "level_code_of p s suf = lc" using p15 v(1,3) by (simp add: level_code_of_def div_mult_mod_eq)
    ultimately show ?thesis using p0 p15 v s6 by simp
  next
    case False
    let ?c = "lc - 15 * 2 ^ s - (if s = 0 then 15 else 0)"
    from False esc have c0: "0 \<le> ?c" by (auto split: if_splits)
    have "?c \<le> lc - 15 * 2 ^ s" by simp
    then have c1: "?c < 2 ^ 17" using lc(2) pos by linarith
    obtain q where q: "grow_prefix 15 ?c = q" "15 \<le> q" "q \<le> 20" "?c < 2 ^ (q - 2) - 4096" "q = 15 \<or> 2 ^ (q - 3) - 4096 \<le> ?c"
      using grow_prefix_16_bits [OF c1 c0] by blast
    let ?d = "if q \<ge> 16 then ?c - (2 ^ (q - 3) - 4096) else ?c"
    have v: "p = int q" "n = q - 3" "suf = ?d mod 2 ^ (q - 3)"
      using assms(3) esc False q(1) by (auto simp: level_parts_def Let_def)
    have e: "(2 :: int) ^ (q - 2) = 2 * 2 ^ (q - 3)" using q(2) by (simp add: Suc_diff_le numeral_eq_Suc flip: power_Suc)
    have d: "0 \<le> ?d" "?d < 2 ^ (q - 3)"
    proof -
      show "0 \<le> ?d" using c0 q(5) by auto
      show "?d < 2 ^ (q - 3)"
      proof (cases "q \<ge> 16")
        case True
        then show ?thesis using q(4) e by simp
      next
        case False
        then have "q = 15" using q(2) by simp
        then show ?thesis using q(4) by simp
      qed
    qed
    then have suf: "suf = ?d" using v(3) by (simp add: mod_pos_pos_trivial)
    have sz: "suffix_size p s = n" using v q(2) by (simp add: suffix_size_def nat_diff_distrib)
    have "level_code_of p s suf = lc"
      using v(1) q(2) suf by (auto simp: level_code_of_def nat_diff_distrib)
    with sz d suf v q show ?thesis by auto
  qed
qed

text \<open>A level and its code, and the length of the suffixes that follow.\<close>

lemma level_code_level:
  assumes "level \<noteq> 0" "- (2 ^ 15) \<le> level" "level < 2 ^ 15" "i = tO \<and> tO < 3 \<Longrightarrow> level \<noteq> 1 \<and> level \<noteq> -1"
  shows "0 \<le> level_code i tO level" "level_code i tO level < 2 ^ 17" "level_of i tO (level_code i tO level) = level"
proof -
  show "0 \<le> level_code i tO level" "level_code i tO level < 2 ^ 17" using assms by (auto simp: level_code_def)
  show "level_of i tO (level_code i tO level) = level"
  proof (cases "level > 0")
    case True
    then show ?thesis by (simp add: level_of_def level_code_def)
  next
    case False
    have "(- (- (2 * level + 1)) - 1) div 2 = level" by simp
    with False show ?thesis by (simp add: level_of_def level_code_def)
  qed
qed

lemma next_suffix_length_bound: "s \<le> 6 \<Longrightarrow> next_suffix_length s level \<le> 6"
  by (auto simp: next_suffix_length_def Let_def)

section \<open>The scan of a block\<close>

text \<open>Levels and the runs of zeros that follow each in the order of the scan.\<close>

definition weave :: "int list \<Rightarrow> int list \<Rightarrow> int list" where
  "weave ls rs = concat (map (\<lambda>(l, r). l # replicate (nat r) 0) (zip ls rs))"

definition trailing_ok :: "int list \<Rightarrow> nat \<Rightarrow> bool list \<Rightarrow> bool" where
  "trailing_ok ls t flags \<longleftrightarrow> t \<le> 3 \<and> t \<le> length ls \<and> flags = map (\<lambda>l. l = -1) (take t ls)
     \<and> (\<forall>l \<in> set (take t ls). l = 1 \<or> l = -1) \<and> (t < 3 \<and> t < length ls \<longrightarrow> ls ! t \<noteq> 1 \<and> ls ! t \<noteq> -1)"

definition runs_ok :: "int list \<Rightarrow> cavlc_scan \<Rightarrow> bool" where
  "runs_ok xs st \<longleftrightarrow> length (sc_runBefore st) + 1 = length (sc_level st) \<and> (\<forall>r \<in> set (sc_runBefore st). 0 \<le> r) \<and> 0 \<le> sc_count st
     \<and> sc_totalZeros st = sum_list (sc_runBefore st) + sc_count st
     \<and> (\<exists>z. xs = replicate z 0 @ weave (sc_level st) (sc_runBefore st @ [sc_count st]))"

definition scan_ok :: "int list \<Rightarrow> cavlc_scan \<Rightarrow> bool" where
  "scan_ok xs st \<longleftrightarrow> sc_level st = filter (\<lambda>x. x \<noteq> 0) xs \<and> sc_totalCoeff st = length (sc_level st)
     \<and> trailing_ok (sc_level st) (sc_trailingOnes st) (sc_trailingOnesSignFlag st)
     \<and> (if sc_level st = [] then st = scan_start \<and> xs = replicate (length xs) 0 else runs_ok xs st)"

lemma weave_level: "length ls = length rs \<Longrightarrow> weave (ls @ [x]) (rs @ [0]) = weave ls rs @ [x]"
  by (simp add: weave_def)

lemma weave_zero: "length rs + 1 = length ls \<Longrightarrow> 0 \<le> c \<Longrightarrow> weave ls (rs @ [c + 1]) = weave ls (rs @ [c]) @ [0]"
proof -
  assume l: "length rs + 1 = length ls" and c: "0 \<le> c"
  then obtain ls' x where ls: "ls = ls' @ [x]" "length ls' = length rs" by (cases ls rule: rev_cases) auto
  have "nat (c + 1) = Suc (nat c)" using c by simp
  with ls show ?thesis by (simp add: weave_def replicate_append_same flip: replicate_Suc)
qed

lemma trailing_ok_snoc:
  "\<lbrakk>trailing_ok ls t flags; x \<noteq> 0\<rbrakk> \<Longrightarrow>
   trailing_ok (ls @ [x]) (if t < 3 \<and> t = length ls \<and> (x = -1 \<or> x = 1) then t + 1 else t)
     (if t < 3 \<and> t = length ls \<and> (x = -1 \<or> x = 1) then flags @ [x = -1] else flags)"
  by (auto simp: trailing_ok_def nth_append)

lemma scan_zero:
  assumes "scan_ok xs st"
  shows "scan_ok (xs @ [0]) (scan_coeff st 0)"
proof (cases "sc_level st = []")
  case True
  with assms have "st = scan_start" "xs = replicate (length xs) 0" by (auto simp: scan_ok_def)
  moreover from this(2) have "xs @ [0] = replicate (length (xs @ [0])) 0"
    by (metis length_append_singleton replicate_Suc replicate_append_same)
  ultimately show ?thesis using assms by (simp add: scan_ok_def scan_coeff_def scan_start_def)
next
  case False
  with assms have r: "runs_ok xs st" and t: "sc_totalCoeff st > 0" by (auto simp: scan_ok_def)
  let ?st = "st\<lparr>sc_count := sc_count st + 1, sc_totalZeros := sc_totalZeros st + 1\<rparr>"
  from r obtain z where "xs = replicate z 0 @ weave (sc_level st) (sc_runBefore st @ [sc_count st])"
    and l: "length (sc_runBefore st) + 1 = length (sc_level st)" and c: "0 \<le> sc_count st" by (auto simp: runs_ok_def)
  then have "xs @ [0] = replicate z 0 @ weave (sc_level st) (sc_runBefore st @ [sc_count st + 1])"
    using weave_zero [OF l c] by simp
  with r have "runs_ok (xs @ [0]) ?st" by (auto simp: runs_ok_def)
  with assms False t show ?thesis by (auto simp: scan_ok_def scan_coeff_def)
qed

lemma scan_level:
  assumes ok: "scan_ok xs st" and x: "x \<noteq> 0"
  shows "scan_ok (xs @ [x]) (scan_coeff st x)"
proof (cases "sc_level st = []")
  case True
  with ok have st: "st = scan_start" "xs = replicate (length xs) 0" by (auto simp: scan_ok_def)
  have f: "filter (\<lambda>x. x \<noteq> 0) xs = []" using ok True by (simp add: scan_ok_def)
  have "runs_ok (xs @ [x]) (scan_coeff st x)"
    using st x by (auto simp: runs_ok_def scan_coeff_def scan_start_def trailing_one_def weave_def intro!: exI [of _ "length xs"])
  moreover have "trailing_ok [x] (sc_trailingOnes (scan_coeff st x)) (sc_trailingOnesSignFlag (scan_coeff st x))"
    using st x by (auto simp: trailing_ok_def scan_coeff_def scan_start_def trailing_one_def)
  ultimately show ?thesis
    using st x f by (auto simp: scan_ok_def scan_coeff_def scan_start_def trailing_one_def)
next
  case False
  with ok have r: "runs_ok xs st" and t: "sc_totalCoeff st = length (sc_level st)" "sc_totalCoeff st > 0" by (auto simp: scan_ok_def)
  have tk: "trailing_ok (sc_level st) (sc_trailingOnes st) (sc_trailingOnesSignFlag st)" using ok unfolding scan_ok_def by blast
  let ?t = "sc_trailingOnes st" and ?more = "sc_trailingOnes st < 3 \<and> sc_trailingOnes st = length (sc_level st) \<and> (x = -1 \<or> x = 1)"
  let ?st = "st\<lparr>sc_runBefore := sc_runBefore st @ [sc_count st], sc_count := 0, sc_level := sc_level st @ [x],
    sc_totalCoeff := sc_totalCoeff st + 1, sc_trailingOnes := (if ?more then ?t + 1 else ?t),
    sc_trailingOnesSignFlag := (if ?more then sc_trailingOnesSignFlag st @ [x = -1] else sc_trailingOnesSignFlag st)\<rparr>"
  have s: "scan_coeff st x = ?st" using x t by (auto simp: scan_coeff_def trailing_one_def Let_def)
  from r obtain z where "xs = replicate z 0 @ weave (sc_level st) (sc_runBefore st @ [sc_count st])"
    and l: "length (sc_runBefore st) + 1 = length (sc_level st)" by (auto simp: runs_ok_def)
  then have "xs @ [x] = replicate z 0 @ weave (sc_level st @ [x]) ((sc_runBefore st @ [sc_count st]) @ [0])"
    by (subst weave_level) simp_all
  with r have "runs_ok (xs @ [x]) ?st" by (auto simp: runs_ok_def)
  moreover have "trailing_ok (sc_level ?st) (sc_trailingOnes ?st) (sc_trailingOnesSignFlag ?st)"
    using trailing_ok_snoc [OF _ x, of "sc_level st" ?t "sc_trailingOnesSignFlag st"] tk by (simp split del: if_split)
  ultimately show ?thesis unfolding s using ok x t by (simp add: scan_ok_def split del: if_split)
qed

lemma scan_all: "scan_ok xs (foldl scan_coeff scan_start xs)"
proof (induction xs rule: rev_induct)
  case Nil
  then show ?case by (simp add: scan_ok_def scan_start_def trailing_ok_def)
next
  case (snoc x xs)
  then show ?case using scan_zero scan_level by (cases "x = 0") simp_all
qed

section \<open>The coefficients go back to their places\<close>

text \<open>A block that holds the given coefficients in the order of the zigzag scan from its position \<open>d\<close> on, and zeros elsewhere.\<close>

definition loaded :: "nat list \<Rightarrow> nat \<Rightarrow> int list \<Rightarrow> s16 list \<Rightarrow> bool" where
  "loaded zz d zs blk \<longleftrightarrow> (\<forall>k < length zz. blk ! (zz ! k) = (if d \<le> k \<and> k - d < length zs then of_int (zs ! (k - d)) else 0))"

definition zigzag_ok :: "nat list \<Rightarrow> bool" where
  "zigzag_ok zz \<longleftrightarrow> distinct zz \<and> (\<forall>p \<in> set zz. p < length zz)"

definition spread :: "(int \<times> int) list \<Rightarrow> int list" where
  "spread ps = concat (map (\<lambda>(r, l). replicate (nat r) 0 @ [l]) ps)"

lemma spread_rev_weave: "spread (rev (zip rs ls)) = rev (weave ls rs)"
proof -
  have "zip ls rs = map (\<lambda>(r, l). (l, r)) (zip rs ls)" by (rule zip_commute)
  then show ?thesis by (simp add: spread_def weave_def rev_concat rev_map o_def case_prod_unfold)
qed

lemma load_step:
  assumes zz: "zigzag_ok zz" and blk: "loaded zz d zs blk" "length zz \<le> length blk" and len: "d + length zs + n < length zz"
  shows "loaded zz d (zs @ replicate n 0 @ [l]) (blk[zz ! (d + length zs + n) := of_int l])"
  unfolding loaded_def
proof (intro allI impI)
  fix k assume k: "k < length zz"
  let ?q = "d + length zs + n"
  have q: "zz ! ?q < length blk" using zz len blk(2) by (auto simp: zigzag_ok_def intro: less_le_trans)
  have eq: "zz ! k = zz ! ?q \<longleftrightarrow> k = ?q" using zz k len by (simp add: zigzag_ok_def nth_eq_iff_index_eq)
  show "blk[zz ! ?q := of_int l] ! (zz ! k) =
      (if d \<le> k \<and> k - d < length (zs @ replicate n 0 @ [l]) then of_int ((zs @ replicate n 0 @ [l]) ! (k - d)) else 0)"
  proof (cases "k = ?q")
    case True
    with q show ?thesis by (simp add: nth_append)
  next
    case False
    then have "blk[zz ! ?q := of_int l] ! (zz ! k) = (if d \<le> k \<and> k - d < length zs then of_int (zs ! (k - d)) else 0)"
      using eq blk(1) k by (simp add: loaded_def)
    with False show ?thesis by (auto simp: nth_append)
  qed
qed

lemma load_coeffs_law:
  "\<lbrakk>zigzag_ok zz; loaded zz d zs blk; length zz \<le> length blk; d + length zs + length (spread ps) \<le> length zz; \<forall>(r, l) \<in> set ps. 0 \<le> r\<rbrakk> \<Longrightarrow>
   \<exists>blk'. load_coeffs zz (int d) (int (length zs) - 1) ps blk = Inr blk' \<and> length blk' = length blk \<and> drop (length zz) blk' = drop (length zz) blk
     \<and> loaded zz d (zs @ spread ps) blk'"
proof (induction ps arbitrary: zs blk)
  case Nil
  then show ?case by (simp add: spread_def)
next
  case (Cons p ps)
  obtain r l where p: "p = (r, l)" by (cases p)
  let ?n = "nat r" let ?q = "d + length zs + ?n" let ?zs = "zs @ replicate ?n 0 @ [l]"
  let ?blk = "blk[zz ! ?q := of_int l]"
  have r: "0 \<le> r" using Cons.prems(5) p by simp
  have sp: "spread (p # ps) = replicate ?n 0 @ [l] @ spread ps" by (simp add: spread_def p)
  have q: "?q < length zz" using Cons.prems(4) sp by simp
  have z: "zz ! ?q < length zz" using Cons.prems(1) q by (simp add: zigzag_ok_def)
  have "\<exists>blk'. load_coeffs zz (int d) (int (length ?zs) - 1) ps ?blk = Inr blk' \<and> length blk' = length ?blk
      \<and> drop (length zz) blk' = drop (length zz) ?blk \<and> loaded zz d (?zs @ spread ps) blk'"
    by (rule Cons.IH [OF Cons.prems(1) load_step [OF Cons.prems(1-3) q]]) (use Cons.prems(3-5) sp in auto)
  then obtain blk' where b: "load_coeffs zz (int d) (int (length ?zs) - 1) ps ?blk = Inr blk'" "length blk' = length blk"
    "drop (length zz) blk' = drop (length zz) blk" "loaded zz d (zs @ spread (p # ps)) blk'"
    using z sp by auto
  have "int (length zs) - 1 + (r + 1) = int (length ?zs) - 1" using r by simp
  moreover have "array_at zz (int (length ?zs) - 1 + int d) = Inr (zz ! ?q)"
  proof -
    have e: "int (length ?zs) - 1 + int d = int ?q" using r by simp
    show ?thesis unfolding e array_at_def using q by (simp del: of_nat_add)
  qed
  ultimately have "load_coeffs zz (int d) (int (length zs) - 1) (p # ps) blk = Inr blk'"
    using b(1) z Cons.prems(3) by (simp only: p load_coeffs.simps Let_def) simp
  with b show ?case by blast
qed

text \<open>The block with the first \<open>d\<close> coefficients of the scan cleared.\<close>

definition clear_first :: "nat list \<Rightarrow> nat \<Rightarrow> s16 list \<Rightarrow> s16 list" where
  "clear_first zz d blk = fold (\<lambda>p b. b[p := 0]) (take d zz) blk"

lemma fold_clear_nth: "j < length blk \<Longrightarrow> fold (\<lambda>p b. b[p := 0]) ps blk ! j = (if j \<in> set ps then 0 else blk ! j)
   \<and> length (fold (\<lambda>p b. b[p := 0]) ps blk) = length blk"
  by (induction ps arbitrary: blk) (auto simp: nth_list_update)

lemma read_coeffs_law:
  "\<lbrakk>zigzag_ok zz; length zz \<le> length blk; \<forall>i \<in> set is. 0 \<le> i \<and> i < int (length zz)\<rbrakk> \<Longrightarrow>
   read_coeffs zz blk is = Inr (map (\<lambda>i. sint (blk ! (zz ! nat i))) is)"
proof (induction "is")
  case (Cons i "is")
  then have i: "nat i < length zz" "0 \<le> i" by auto
  then have "zz ! nat i < length blk" using Cons.prems(1,2) by (auto simp: zigzag_ok_def intro: less_le_trans)
  with i Cons show ?case by (simp add: array_at_def)
qed simp

lemma map_int_upt: "d \<le> n \<Longrightarrow> map int [d..<n] = [int d..int n - 1]"
proof (induction n)
  case (Suc n)
  then show ?case by (cases "d = Suc n") (simp_all add: upto_rec2)
qed simp

lemma scan_order: "d \<le> n \<Longrightarrow> rev [int d..int n - 1] = map int (rev [d..<n])"
  by (simp only: map_int_upt [symmetric] rev_map)

lemma loaded_unique:
  assumes zz: "zigzag_ok zz" and len: "length b1 = length zz" "length b2 = length zz" and l: "loaded zz d zs b1" "loaded zz d zs b2"
  shows "b1 = b2"
proof (rule nth_equalityI)
  show "length b1 = length b2" using len by simp
  fix j assume "j < length b1"
  then have j: "j \<in> {0..<length zz}" using len by simp
  have "set zz = {0..<length zz}"
    using zz by (intro card_subset_eq) (auto simp: zigzag_ok_def distinct_card)
  with j obtain k where "k < length zz" "zz ! k = j" by (metis in_set_conv_nth)
  with l show "b1 ! j = b2 ! j" by (metis loaded_def)
qed

lemma clear_first_loaded:
  assumes zz: "zigzag_ok zz" and len: "length blk = length zz" and d: "d \<le> length zz"
  shows "loaded zz d (map (\<lambda>k. sint (blk ! (zz ! k))) [d..<length zz]) (clear_first zz d blk)" "length (clear_first zz d blk) = length zz"
proof -
  have z: "zz ! k < length blk" if "k < length zz" for k using that zz len by (simp add: zigzag_ok_def)
  show "length (clear_first zz d blk) = length zz"
  proof (cases "length zz")
    case 0
    then show ?thesis using d by (simp add: clear_first_def len)
  next
    case (Suc n)
    then show ?thesis using fold_clear_nth [of 0 blk "take d zz"] len by (simp add: clear_first_def)
  qed
  have "zz ! k \<in> set (take d zz) \<longleftrightarrow> k < d" if "k < length zz" for k
    using that zz d by (auto simp: in_set_conv_nth zigzag_ok_def nth_eq_iff_index_eq)
  then show "loaded zz d (map (\<lambda>k. sint (blk ! (zz ! k))) [d..<length zz]) (clear_first zz d blk)"
    using fold_clear_nth [OF z] by (auto simp: loaded_def clear_first_def not_less)
qed

lemma loaded_zeros: "loaded zz d (zs @ replicate z 0) blk = loaded zz d zs blk"
proof -
  have "(if j < length (zs @ replicate z 0) then of_int ((zs @ replicate z 0) ! j) else 0) = (if j < length zs then of_int (zs ! j) else (0 :: s16))" for j
    by (simp add: nth_append)
  then show ?thesis unfolding loaded_def by (metis (no_types, lifting))
qed

lemma block_restored:
  assumes zz: "zigzag_ok zz" and len: "length blk = length zz" and d: "d \<le> length zz"
    and xs: "read_coeffs zz blk (rev [int d..int (length zz) - 1]) = Inr xs" and ok: "scan_ok xs st"
  shows "sc_level st = [] \<Longrightarrow> replicate (length zz) 0 = clear_first zz d blk"
    and "sc_level st \<noteq> [] \<Longrightarrow> load_coeffs zz (int d) (-1) (rev (zip (sc_runBefore st @ [sc_count st]) (sc_level st))) (replicate (length zz) 0)
      = Inr (clear_first zz d blk)"
    and "length xs = length zz - d" and "\<forall>x \<in> set xs. - (2 ^ 15) \<le> x \<and> x < 2 ^ 15"
proof -
  let ?ys = "map (\<lambda>k. sint (blk ! (zz ! k))) [d..<length zz]"
  have ord: "rev [int d..int (length zz) - 1] = map int (rev [d..<length zz])"
    using d by (rule scan_order)
  have "read_coeffs zz blk (map int (rev [d..<length zz])) = Inr (map (\<lambda>i. sint (blk ! (zz ! nat i))) (map int (rev [d..<length zz])))"
    by (rule read_coeffs_law) (use zz len in auto)
  then have x: "xs = rev ?ys" using xs ord by (simp add: rev_map o_def)
  show "length xs = length zz - d" using x by simp
  show "\<forall>x \<in> set xs. - (2 ^ 15) \<le> x \<and> x < 2 ^ 15"
  proof -
    have "- (2 ^ 15) \<le> sint w \<and> sint w < 2 ^ 15" for w :: s16
      using sint_ge [of w] sint_lt [of w] by simp
    then show ?thesis using x by auto
  qed
  note c = clear_first_loaded [OF zz len d]
  show "sc_level st = [] \<Longrightarrow> replicate (length zz) 0 = clear_first zz d blk"
  proof -
    assume "sc_level st = []"
    then have "xs = replicate (length xs) 0" using ok by (simp add: scan_ok_def)
    then have "?ys = replicate (length xs) 0" using x by (metis rev_replicate rev_rev_ident)
    then have "loaded zz d [] (clear_first zz d blk)" using c(1) loaded_zeros [of zz d "[]" "length xs"] by simp
    moreover have "loaded zz d [] (replicate (length zz) 0)" using zz by (simp add: loaded_def zigzag_ok_def)
    ultimately show ?thesis using loaded_unique [OF zz _ c(2)] by simp
  qed
  show "load_coeffs zz (int d) (-1) (rev (zip (sc_runBefore st @ [sc_count st]) (sc_level st))) (replicate (length zz) 0)
      = Inr (clear_first zz d blk)" if l: "sc_level st \<noteq> []"
  proof -
    let ?ps = "rev (zip (sc_runBefore st @ [sc_count st]) (sc_level st))"
    have r: "runs_ok xs st" using ok l by (simp add: scan_ok_def)
    then obtain z where w: "xs = replicate z 0 @ weave (sc_level st) (sc_runBefore st @ [sc_count st])" by (auto simp: runs_ok_def)
    have ys: "?ys = spread ?ps @ replicate z 0"
      using arg_cong [OF x, of rev] by (simp add: w spread_rev_weave)
    then have sl: "d + length (spread ?ps) \<le> length zz" using d by (metis (no_types, lifting) le_add1 length_append length_map length_upt nat_add_left_cancel_le le_add_diff_inverse)
    have "\<exists>blk'. load_coeffs zz (int d) (int (length ([] :: int list)) - 1) ?ps (replicate (length zz) 0) = Inr blk' \<and> length blk' = length (replicate (length zz) 0 :: s16 list)
        \<and> drop (length zz) blk' = drop (length zz) (replicate (length zz) 0) \<and> loaded zz d ([] @ spread ?ps) blk'"
    proof (rule load_coeffs_law [OF zz])
      show "loaded zz d [] (replicate (length zz) 0)" using zz by (simp add: loaded_def zigzag_ok_def)
      show "\<forall>(r, l) \<in> set ?ps. 0 \<le> r" using r by (auto simp: runs_ok_def dest!: set_zip_leftD)
    qed (use sl in simp_all)
    then obtain blk' where b: "load_coeffs zz (int d) (-1) ?ps (replicate (length zz) 0) = Inr blk'" "length blk' = length zz"
      "loaded zz d (spread ?ps) blk'" by auto
    have "loaded zz d (spread ?ps) (clear_first zz d blk)" using c(1) ys loaded_zeros by metis
    with b c(2) show ?thesis using loaded_unique [OF zz] by metis
  qed
qed

section \<open>The codes on the streams\<close>

text \<open>
  What the block codec relies on: the streams, and four codes. A context of the coefficient token that is one of
  \<open>contexts\<close> has a code for each total of at most the number of coefficients of a block.
\<close>

locale cavlc_codes = bit_reader R rbits skip + bit_writer W wbits room put
  for R :: "'r IBitStreamReader" and rbits skip and W :: "'w IBitStreamWriter" and wbits room put +
  fixes tokenEnc prefixEnc zerosEnc runEnc :: IVlcEncoder
    and tokenDec prefixDec zerosDec runDec :: "'r IVlcDecoder"
    and most :: nat and contexts :: "int set"
  assumes token_coded: "\<lbrakk>nC \<in> contexts; t \<le> 3; t \<le> c; c \<le> most\<rbrakk> \<Longrightarrow>
      coded rbits skip 16 (ve_Encode3 tokenEnc (int c) (int t) nC) (\<lambda>r. Some (vd_Decode3 tokenDec nC r)) (int c, int t)"
    and prefix_coded: "p \<le> 31 \<Longrightarrow> coded rbits skip (p + 1) (ve_Encode prefixEnc (int p)) (vd_Decode prefixDec) (int p)"
    and zeros_coded: "\<lbrakk>1 \<le> c; c < most; z \<le> most - c\<rbrakk> \<Longrightarrow>
      coded rbits skip 9 (ve_Encode2 zerosEnc (int z) (int c)) (\<lambda>r. Some (vd_Decode2 zerosDec (int c) r)) (int z)"
    and run_coded: "\<lbrakk>1 \<le> z; run \<le> z; run < most - 1\<rbrakk> \<Longrightarrow>
      coded rbits skip 11 (ve_Encode2 runEnc (int run) (int z)) (\<lambda>r. Some (vd_Decode2 runDec (int z) r)) (int run)"
begin

lemma skip_rest: "rbits (skip m r) = bs @ rest \<Longrightarrow> rbits (skip (m + length bs) r) = rest"
  by (metis append_eq_conv_conj skip_bits skip_skip)

lemma take_code_coded:
  assumes "coded rbits skip b enc dec a"
  obtains n v where "enc = Inr (n, v)" "0 < n" "n \<le> b"
    "\<And>m r rest tot. rbits (skip m r) = to_bits n (unat v) @ rest \<Longrightarrow> take_code R dec tot (skip m r) = Some (Inr (Inr (tot + int n, a), skip (m + n) r))"
proof -
  from assms obtain n v where c: "enc = Inr (n, v)" "0 < n" "n \<le> b"
    and d: "\<And>r rest. rbits r = to_bits n (unat v) @ rest \<Longrightarrow> dec r = Some (Inr (n, a, skip n r))"
    unfolding coded_def by blast
  have "take_code R dec tot (skip m r) = Some (Inr (Inr (tot + int n, a), skip (m + n) r))"
    if r: "rbits (skip m r) = to_bits n (unat v) @ rest" for m r rest tot
  proof -
    have "rbits (skip m r) \<noteq> []" using r c(2) by (metis append_is_Nil_conv length_greater_0_conv length_to_bits)
    then have "0 < ir_GetStreamBitsRemaining R (skip m r)" using remaining by simp
    then show ?thesis using d [OF r] c(2) by (simp add: take_code_def skip_skip)
  qed
  with c show ?thesis by (rule that)
qed

lemma put_code_put:
  "\<lbrakk>0 < n; n \<le> 32; n < room w\<rbrakk> \<Longrightarrow> put_code W (n, v) tot (Some w) = Inr (Inr (tot + int n), Some (put (to_bits n (unat v)) w))"
  using room_remaining [of w] write_bits [of n w v] by (simp add: put_code_def Let_def)

lemma room_after: "length bs \<le> room w \<Longrightarrow> room (put bs w) = room w - length bs"
  by (rule put_room)

lemma put_level_put:
  assumes "0 < n" "n \<le> 32" "k \<le> 32" "n + k < room w"
  shows "put_level W (n, v) k suf tot (Some w) =
    Inr (Inr (tot + int (n + k)), Some (put (to_bits n (unat v) @ to_bits k (unat (of_int suf :: u32))) w))"
proof -
  have "room (put (to_bits n (unat v)) w) = room w - n" using assms by (simp add: put_room)
  then have "iw_WriteBits W k (of_int suf) (put (to_bits n (unat v)) w) = Inr (put (to_bits k (unat (of_int suf :: u32))) (put (to_bits n (unat v)) w))"
    using assms by (intro write_bits) simp_all
  then show ?thesis
    using assms room_remaining [of w] write_bits [of n w v] by (simp add: put_level_def Let_def put_put)
qed

lemma take_sign_bit:
  "rbits (skip m r) = b # rest \<Longrightarrow> take_sign R tot (skip m r) = Some (Inr (Inr (tot + 1, 1 - 2 * of_bool b), skip (m + 1) r))"
  using remaining [of "skip m r"] read_bit [of "skip m r" b rest] by (simp add: take_sign_def skip_skip)

lemma put_sign_bit: "1 < room w \<Longrightarrow> put_sign W b tot (Some w) = Inr (Inr (tot + 1), Some (put [b] w))"
  using room_remaining [of w] write_bit [of w b] by (simp add: put_sign_def)

lemma take_suffix_bits:
  assumes r: "rbits (skip m r) = to_bits k (unat (of_int suf :: u32)) @ rest" and k: "k \<le> 17" and s: "0 \<le> suf" "suf < 2 ^ k"
  shows "take_suffix R k tot (skip m r) = Some (Inr (Inr (tot + int k, suf), skip (m + k) r))"
proof (cases "k = 0")
  case True
  with s show ?thesis using skip_skip [of 0 m r] by (simp add: take_suffix_def)
next
  case False
  have p: "(2 :: int) ^ k \<le> 2 ^ 17" using k by (intro power_increasing) simp_all
  then have u: "unat (of_int suf :: u32) = nat suf" using s by (simp add: unsigned_of_int take_bit_int_eq_self flip: nat_uint_eq)
  have lt: "nat suf < 2 ^ k" using s by (simp add: nat_less_iff)
  have ne: "rbits (skip m r) \<noteq> []" "k \<le> length (rbits (skip m r))" using r False by (auto simp flip: length_greater_0_conv)
  have "of_bits (take k (rbits (skip m r))) = nat suf" using r u lt by simp
  then have "ir_ReadBits R k (skip m r) = Inr (of_nat (nat suf), skip (m + k) r)"
    using read_bits [of k "skip m r"] ne k by (simp add: skip_skip)
  moreover have "sint (of_nat (nat suf) :: u32) = suf"
    using s p by (simp add: signed_of_int signed_take_bit_int_eq_self)
  moreover have "int k \<le> ir_GetStreamBitsRemaining R (skip m r)" using remaining ne by simp
  ultimately show ?thesis using False by (simp add: take_suffix_def)
qed

text \<open>What a step writes, and what a step reads from what was written.\<close>

definition writes_bits :: "(int \<Rightarrow> 'w option \<Rightarrow> fault + (int + int) \<times> 'w option) \<Rightarrow> bool list \<Rightarrow> bool" where
  "writes_bits f bs \<longleftrightarrow> (\<forall>w tot. length bs < room w \<longrightarrow> f tot (Some w) = Inr (Inr (tot + int (length bs)), Some (put bs w)))"

definition reads_bits :: "(int \<Rightarrow> 'r \<Rightarrow> (fault + (int + int \<times> 'a) \<times> 'r) option) \<Rightarrow> bool list \<Rightarrow> 'a \<Rightarrow> bool" where
  "reads_bits g bs a \<longleftrightarrow> (\<forall>m r rest tot. rbits (skip m r) = bs @ rest \<longrightarrow>
     g tot (skip m r) = Some (Inr (Inr (tot + int (length bs), a), skip (m + length bs) r)))"

lemma writes_nothing: "writes_bits (\<lambda>tot w. Inr (Inr tot, w)) []"
  by (simp add: writes_bits_def put_nil)

lemma reads_nothing: "reads_bits (\<lambda>tot r. Some (Inr (Inr (tot, a), r))) [] a"
  by (simp add: reads_bits_def)

lemma writes_then: "\<lbrakk>writes_bits f bs; writes_bits g cs\<rbrakk> \<Longrightarrow> writes_bits (\<lambda>tot w. bind_enc (f tot w) g) (bs @ cs)"
  by (simp add: writes_bits_def bind_enc_def put_room put_put add.assoc)

lemma reads_then: "\<lbrakk>reads_bits f bs a; reads_bits (g a) cs c\<rbrakk> \<Longrightarrow>
    reads_bits (\<lambda>tot r. bind_dec (f tot r) (\<lambda>(tot, x) r. g x tot r)) (bs @ cs) c"
  unfolding reads_bits_def
proof (intro allI impI)
  fix m r rest tot
  assume f: "\<forall>m r rest tot. rbits (skip m r) = bs @ rest \<longrightarrow> f tot (skip m r) = Some (Inr (Inr (tot + int (length bs), a), skip (m + length bs) r))"
    and g: "\<forall>m r rest tot. rbits (skip m r) = cs @ rest \<longrightarrow> g a tot (skip m r) = Some (Inr (Inr (tot + int (length cs), c), skip (m + length cs) r))"
    and r: "rbits (skip m r) = (bs @ cs) @ rest"
  from r have r1: "rbits (skip m r) = bs @ (cs @ rest)" by simp
  with g [rule_format, OF skip_rest [OF r1]] f [rule_format, OF r1]
  show "bind_dec (f tot (skip m r)) (\<lambda>(tot, x) r. g x tot r) = Some (Inr (Inr (tot + int (length (bs @ cs)), c), skip (m + length (bs @ cs)) r))"
    by (simp add: bind_dec_def add.assoc)
qed

lemma reads_and_then: "reads_bits g bs xs \<Longrightarrow> reads_bits (\<lambda>tot r. and_then x (g tot r)) bs (x # xs)"
  by (simp add: reads_bits_def and_then_def bind_dec_def)

lemma coded_bits:
  assumes "coded rbits skip b enc dec a" "b \<le> 32"
  obtains n v where "enc = Inr (n, v)" "0 < n" "n \<le> b" "writes_bits (put_code W (n, v)) (to_bits n (unat v))"
    "reads_bits (take_code R dec) (to_bits n (unat v)) a"
proof -
  from take_code_coded [OF assms(1)] obtain n v where c: "enc = Inr (n, v)" "0 < n" "n \<le> b"
    and d: "\<And>m r rest tot. rbits (skip m r) = to_bits n (unat v) @ rest \<Longrightarrow> take_code R dec tot (skip m r) = Some (Inr (Inr (tot + int n, a), skip (m + n) r))"
    by metis
  show ?thesis
    by (rule that [OF c]) (use put_code_put c assms(2) d in \<open>simp_all add: writes_bits_def reads_bits_def\<close>)
qed

lemma level_bits:
  assumes l: "level \<noteq> 0" "- (2 ^ 15) \<le> level" "level < 2 ^ 15" "i = t \<and> t < 3 \<Longrightarrow> level \<noteq> 1 \<and> level \<noteq> -1" and s: "s \<le> 6"
    and parts: "level_parts s (level_code i t level) = (p, k, suf)"
  obtains n v bs where "ve_Encode prefixEnc p = Inr (n, v)" "length bs \<le> 38"
    "writes_bits (put_level W (n, v) k suf) bs" "reads_bits (take_level R (Some prefixDec) t i s) bs level"
proof -
  note lc = level_code_level [OF l]
  note pt = level_parts_code [OF lc(1,2) parts s]
  from pt have p: "p = int (nat p)" "nat p \<le> 31" by auto
  have "coded rbits skip (nat p + 1) (ve_Encode prefixEnc (int (nat p))) (vd_Decode prefixDec) (int (nat p))"
    by (rule prefix_coded [OF p(2)])
  then have c: "coded rbits skip (nat p + 1) (ve_Encode prefixEnc p) (vd_Decode prefixDec) p" using p(1) by simp
  have "nat p + 1 \<le> 32" using p by simp
  from coded_bits [OF c this] obtain n v where n: "ve_Encode prefixEnc p = Inr (n, v)" "0 < n" "n \<le> nat p + 1"
    and rd: "reads_bits (take_code R (vd_Decode prefixDec)) (to_bits n (unat v)) p" by metis
  let ?bs = "to_bits n (unat v) @ to_bits k (unat (of_int suf :: u32))"
  have rs: "reads_bits (take_suffix R (suffix_size p s)) (to_bits k (unat (of_int suf :: u32))) suf"
    using take_suffix_bits pt by (simp add: reads_bits_def)
  have "reads_bits (\<lambda>tot r. bind_dec (take_suffix R (suffix_size p s) tot r)
      (\<lambda>(tot, x) r. Some (Inr (Inr (tot, level_of i t (level_code_of p s x)), r)))) (to_bits k (unat (of_int suf :: u32)) @ []) level"
    by (rule reads_then [OF rs, where g = "\<lambda>x tot r. Some (Inr (Inr (tot, level_of i t (level_code_of p s x)), r))"])
      (use reads_nothing [of level] pt lc(3) in simp)
  then have "reads_bits (\<lambda>tot r. bind_dec (take_code R (vd_Decode prefixDec) tot r)
      (\<lambda>(tot, p) r. bind_dec (take_suffix R (suffix_size p s) tot r)
        (\<lambda>(tot, x) r. Some (Inr (Inr (tot, level_of i t (level_code_of p s x)), r))))) ?bs level"
    by (intro reads_then [OF rd, where g = "\<lambda>p tot r. bind_dec (take_suffix R (suffix_size p s) tot r)
        (\<lambda>(tot, x) r. Some (Inr (Inr (tot, level_of i t (level_code_of p s x)), r)))"]) simp
  then have 1: "reads_bits (take_level R (Some prefixDec) t i s) ?bs level"
    unfolding take_level_def deref_def by simp
  have 2: "writes_bits (put_level W (n, v) k suf) ?bs"
    unfolding writes_bits_def using put_level_put [of n k _ v suf] n p pt by simp
  have "nat p \<le> 20" using pt by linarith
  then have "length ?bs \<le> 38" using n(3) pt by simp
  then show ?thesis by (rule that [OF n(1) _ 2 1])
qed

lemma levels_bits:
  "\<lbrakk>\<forall>l \<in> set ls. l \<noteq> 0 \<and> - (2 ^ 15) \<le> l \<and> l < 2 ^ 15; s \<le> 6;
    \<forall>j < length ls. i + j < t \<longrightarrow> (ls ! j = 1 \<or> ls ! j = -1) \<and> flags ! (i + j) = (ls ! j = -1);
    \<forall>j < length ls. i + j = t \<and> t < 3 \<longrightarrow> ls ! j \<noteq> 1 \<and> ls ! j \<noteq> -1\<rbrakk> \<Longrightarrow>
   \<exists>bs. length bs \<le> 38 * length ls \<and> writes_bits (put_levels W (Some prefixEnc) t flags i s ls) bs
     \<and> reads_bits (take_levels R (Some prefixDec) t (length ls) i s) bs ls"
proof (induction ls arbitrary: i s)
  case Nil
  show ?case using writes_nothing reads_nothing by (intro exI [of _ "[]"]) (simp add: writes_bits_def reads_bits_def)
next
  case (Cons l ls)
  have l: "l \<noteq> 0" "- (2 ^ 15) \<le> l" "l < 2 ^ 15" "i = t \<and> t < 3 \<Longrightarrow> l \<noteq> 1 \<and> l \<noteq> -1"
    using Cons.prems(1) Cons.prems(4) [rule_format, of 0] by auto
  have nx: "\<forall>j < length ls. i + 1 + j < t \<longrightarrow> (ls ! j = 1 \<or> ls ! j = -1) \<and> flags ! (i + 1 + j) = (ls ! j = -1)"
    "\<forall>j < length ls. i + 1 + j = t \<and> t < 3 \<longrightarrow> ls ! j \<noteq> 1 \<and> ls ! j \<noteq> -1"
    using Cons.prems(3,4) by (auto dest: spec [of _ "Suc _"])
  show ?case
  proof (cases "i < t")
    case True
    obtain bs where bs: "length bs \<le> 38 * length ls" "writes_bits (put_levels W (Some prefixEnc) t flags (i + 1) s ls) bs"
      "reads_bits (take_levels R (Some prefixDec) t (length ls) (i + 1) s) bs ls"
      using Cons.IH [of s "i + 1"] Cons.prems(1,2) nx by auto
    let ?b = "l = -1"
    have f: "flags ! i = ?b" and lv: "1 - 2 * of_bool ?b = l" using Cons.prems(3) [rule_format, of 0] True by auto
    have 1: "writes_bits (put_sign W (flags ! i)) [?b]" using put_sign_bit f by (simp add: writes_bits_def)
    have 2: "reads_bits (take_sign R) [?b] l" using take_sign_bit [where b = ?b] lv by (simp add: reads_bits_def)
    have "writes_bits (put_levels W (Some prefixEnc) t flags i s (l # ls)) ([?b] @ bs)"
      using writes_then [OF 1 bs(2)] True by (simp add: writes_bits_def)
    moreover have "reads_bits (take_levels R (Some prefixDec) t (length (l # ls)) i s) ([?b] @ bs) (l # ls)"
      using reads_then [OF 2, where g = "\<lambda>x tot r. and_then x (take_levels R (Some prefixDec) t (length ls) (i + 1) s tot r)",
          OF reads_and_then [OF bs(3), of l]] True by (simp add: reads_bits_def)
    ultimately show ?thesis using bs(1) by (intro exI [of _ "[?b] @ bs"]) (simp del: put_levels.simps take_levels.simps)
  next
    case False
    let ?s = "next_suffix_length s l"
    obtain bs where bs: "length bs \<le> 38 * length ls" "writes_bits (put_levels W (Some prefixEnc) t flags (i + 1) ?s ls) bs"
      "reads_bits (take_levels R (Some prefixDec) t (length ls) (i + 1) ?s) bs ls"
      using Cons.IH [of ?s "i + 1"] Cons.prems(1) next_suffix_length_bound [OF Cons.prems(2), of l] nx by auto
    obtain p k suf where parts: "level_parts s (level_code i t l) = (p, k, suf)" by (cases "level_parts s (level_code i t l)") auto
    from level_bits [OF l Cons.prems(2) parts] obtain n v cs where c: "ve_Encode prefixEnc p = Inr (n, v)" "length cs \<le> 38"
      "writes_bits (put_level W (n, v) k suf) cs" "reads_bits (take_level R (Some prefixDec) t i s) cs l" by metis
    have "writes_bits (put_levels W (Some prefixEnc) t flags i s (l # ls)) (cs @ bs)"
      using writes_then [OF c(3) bs(2)] False parts c(1) by (simp add: writes_bits_def deref_def)
    moreover have "reads_bits (take_levels R (Some prefixDec) t (length (l # ls)) i s) (cs @ bs) (l # ls)"
      using reads_then [OF c(4), where g = "\<lambda>x tot r. and_then x (take_levels R (Some prefixDec) t (length ls) (i + 1) (next_suffix_length s x) tot r)",
          OF reads_and_then [OF bs(3), of l]] False by (simp add: reads_bits_def)
    ultimately show ?thesis using bs(1) c(2) by (intro exI [of _ "cs @ bs"]) (simp del: put_levels.simps take_levels.simps)
  qed
qed

lemma runs_none: "reads_bits (take_runs R d n 0) [] (replicate n 0 @ [0])"
proof (induction n)
  case 0
  then show ?case by (simp add: reads_bits_def)
next
  case (Suc n)
  then show ?case using reads_and_then [OF Suc, of 0] by (simp add: reads_bits_def)
qed

lemma zero_sum: "\<lbrakk>\<forall>r \<in> set rs. (0 :: int) \<le> r; sum_list rs \<le> 0\<rbrakk> \<Longrightarrow> rs = replicate (length rs) 0"
proof (induction rs)
  case (Cons r rs)
  then have "0 \<le> sum_list rs" by (intro sum_list_nonneg) auto
  with Cons show ?case by auto
qed simp

lemma runs_bits:
  "\<lbrakk>\<forall>r \<in> set rs. 0 \<le> r; 0 \<le> c; zl = sum_list rs + c; rs \<noteq> [] \<Longrightarrow> zl < int most - 1\<rbrakk> \<Longrightarrow>
   \<exists>bs. length bs \<le> 11 * length rs \<and> writes_bits (put_runs W (Some runEnc) rs zl) bs
     \<and> reads_bits (take_runs R (Some runDec) (length rs) zl) bs (rs @ [c])"
proof (induction rs arbitrary: zl)
  case Nil
  then show ?case using writes_nothing by (intro exI [of _ "[]"]) (simp add: writes_bits_def reads_bits_def)
next
  case (Cons r rs)
  have r: "0 \<le> r" "0 \<le> sum_list rs" using Cons.prems(1) by (auto intro: sum_list_nonneg)
  show ?case
  proof (cases "zl = 0")
    case True
    with Cons.prems r have "sum_list (r # rs) \<le> 0" "c = 0" by auto
    with zero_sum [OF Cons.prems(1)] have z: "r # rs = replicate (Suc (length rs)) 0" by simp
    have "reads_bits (take_runs R (Some runDec) (length (r # rs)) zl) [] ((r # rs) @ [c])"
      unfolding z True \<open>c = 0\<close> using runs_none [of "Some runDec" "Suc (length rs)"] by (simp del: take_runs.simps replicate_Suc)
    moreover have "writes_bits (put_runs W (Some runEnc) (r # rs) zl) []" using True by (simp add: writes_bits_def put_nil)
    ultimately show ?thesis by (intro exI [of _ "[]"]) (simp del: put_runs.simps take_runs.simps)
  next
    case False
    have zl: "zl = r + sum_list rs + c" "zl < int most - 1" using Cons.prems by auto
    then have p: "0 < zl" using False r Cons.prems(2) by linarith
    obtain bs where bs: "length bs \<le> 11 * length rs" "writes_bits (put_runs W (Some runEnc) rs (zl - r)) bs"
      "reads_bits (take_runs R (Some runDec) (length rs) (zl - r)) bs (rs @ [c])"
      using Cons.IH [of "zl - r"] Cons.prems zl r by auto
    have "coded rbits skip 11 (ve_Encode2 runEnc (int (nat r)) (int (nat zl))) (\<lambda>x. Some (vd_Decode2 runDec (int (nat zl)) x)) (int (nat r))"
      by (rule run_coded) (use zl p r Cons.prems(2) in linarith)+
    then have c: "coded rbits skip 11 (ve_Encode2 runEnc r zl) (\<lambda>x. Some (vd_Decode2 runDec zl x)) r" using r p by simp
    have "(11 :: nat) \<le> 32" by simp
    from coded_bits [OF c this] obtain n v where n: "ve_Encode2 runEnc r zl = Inr (n, v)" "n \<le> 11" "writes_bits (put_code W (n, v)) (to_bits n (unat v))"
      "reads_bits (take_code R (\<lambda>x. Some (vd_Decode2 runDec zl x))) (to_bits n (unat v)) r" by metis
    have "writes_bits (put_runs W (Some runEnc) (r # rs) zl) (to_bits n (unat v) @ bs)"
      using writes_then [OF n(3) bs(2)] False n(1) by (simp add: writes_bits_def deref_def)
    moreover have "reads_bits (take_runs R (Some runDec) (length (r # rs)) zl) (to_bits n (unat v) @ bs) ((r # rs) @ [c])"
      using reads_then [OF n(4), where g = "\<lambda>x tot y. and_then x (take_runs R (Some runDec) (length rs) (zl - x) tot y)",
          OF reads_and_then [OF bs(3), of r]] p by (simp add: reads_bits_def deref_def)
    ultimately show ?thesis using bs(1) n(2)
      by (intro exI [of _ "to_bits n (unat v) @ bs"]) (simp del: put_runs.simps take_runs.simps)
  qed
qed

text \<open>The codec with the codes attached, in a block size and a context that the codes cover.\<close>

definition attached :: "(IVlcEncoder, 'r IVlcDecoder) CAVLCH264Impl \<Rightarrow> nat \<Rightarrow> bool" where
  "attached cv d \<longleftrightarrow> zigzag_ok (cv_zigZag cv) \<and> length (cv_zigZag cv) = most \<and> cv_maxNumCoeff cv = most \<and> cv_dcSkip cv = int d \<and> d \<le> most
     \<and> cv_numTotNeighborCoeff cv \<in> contexts
     \<and> cv_pCoeffTokenVlcEncoder cv = Some tokenEnc \<and> cv_pCoeffTokenVlcDecoder cv = Some tokenDec
     \<and> cv_pPrefixVlcEncoder cv = Some prefixEnc \<and> cv_pPrefixVlcDecoder cv = Some prefixDec
     \<and> cv_pTotalZerosVlcEncoder cv = Some zerosEnc \<and> cv_pTotalZerosVlcDecoder cv = Some zerosDec
     \<and> cv_pRunBeforeVlcEncoder cv = Some runEnc \<and> cv_pRunBeforeVlcDecoder cv = Some runDec"

lemma scan_sizes:
  assumes ok: "scan_ok xs st" and l: "sc_level st \<noteq> []"
  shows "1 \<le> length (sc_level st)" "length (sc_runBefore st) = length (sc_level st) - 1" "0 \<le> sc_totalZeros st"
    "int (length (sc_level st)) + sc_totalZeros st \<le> int (length xs)" "\<forall>r \<in> set (sc_runBefore st). 0 \<le> r" "0 \<le> sc_count st"
    "sc_totalZeros st = sum_list (sc_runBefore st) + sc_count st"
proof -
  from ok l have r: "runs_ok xs st" by (simp add: scan_ok_def)
  then show "1 \<le> length (sc_level st)" "length (sc_runBefore st) = length (sc_level st) - 1"
    "\<forall>r \<in> set (sc_runBefore st). 0 \<le> r" "0 \<le> sc_count st" "sc_totalZeros st = sum_list (sc_runBefore st) + sc_count st"
    unfolding runs_ok_def by auto
  with r show "0 \<le> sc_totalZeros st" by (simp add: sum_list_nonneg)
  have w: "int (length (weave ls rs)) = int (length ls) + sum_list rs" if "length ls = length rs" "\<forall>r \<in> set rs. 0 \<le> r" for ls rs :: "int list"
    using that by (induction ls rs rule: list_induct2) (auto simp: weave_def)
  from r obtain z where z: "xs = replicate z 0 @ weave (sc_level st) (sc_runBefore st @ [sc_count st])" by (auto simp: runs_ok_def)
  have "int (length (weave (sc_level st) (sc_runBefore st @ [sc_count st]))) = int (length (sc_level st)) + sc_totalZeros st"
    using w [of "sc_level st" "sc_runBefore st @ [sc_count st]"] r by (auto simp: runs_ok_def)
  then show "int (length (sc_level st)) + sc_totalZeros st \<le> int (length xs)" by (simp add: z)
qed

lemma zeros_bits:
  assumes ok: "scan_ok xs st" "sc_level st \<noteq> []" and len: "length xs = most - d" and cv: "attached cv d"
  shows "\<exists>bs. length bs \<le> 9 + 11 * most \<and> writes_bits (put_zeros W cv st) bs
    \<and> reads_bits (\<lambda>tot r. bind_dec (take_total_zeros R cv (int (length (sc_level st))) tot r)
        (\<lambda>(tot, zl) r. take_runs R (Some runDec) (length (sc_level st) - 1) zl tot r)) bs (sc_runBefore st @ [sc_count st])"
proof -
  let ?c = "length (sc_level st)" and ?z = "sc_totalZeros st"
  note sz = scan_sizes [OF ok]
  have tc: "sc_totalCoeff st = ?c" using ok(1) by (simp add: scan_ok_def)
  have d: "d \<le> most" and f: "cv_dcSkip cv = int d" "cv_maxNumCoeff cv = most" using cv by (auto simp: attached_def)
  have fit: "int ?c + ?z \<le> int most - int d" using sz(4) len d by simp
  show ?thesis
  proof (cases "int ?c < int most - int d")
    case True
    have "coded rbits skip 9 (ve_Encode2 zerosEnc (int (nat ?z)) (int ?c)) (\<lambda>r. Some (vd_Decode2 zerosDec (int ?c) r)) (int (nat ?z))"
      by (rule zeros_coded) (use sz True fit in linarith)+
    then have c: "coded rbits skip 9 (ve_Encode2 zerosEnc ?z (int ?c)) (\<lambda>r. Some (vd_Decode2 zerosDec (int ?c) r)) ?z" using sz(3) by simp
    have "(9 :: nat) \<le> 32" by simp
    from coded_bits [OF c this] obtain n v where n: "ve_Encode2 zerosEnc ?z (int ?c) = Inr (n, v)" "n \<le> 9"
      "writes_bits (put_code W (n, v)) (to_bits n (unat v))"
      "reads_bits (take_code R (\<lambda>r. Some (vd_Decode2 zerosDec (int ?c) r))) (to_bits n (unat v)) ?z" by metis
    have "sc_runBefore st \<noteq> [] \<Longrightarrow> ?z < int most - 1" using sz(2) fit by (cases "sc_runBefore st") auto
    from runs_bits [OF sz(5,6,7) this] obtain bs where bs: "length bs \<le> 11 * length (sc_runBefore st)"
      "writes_bits (put_runs W (Some runEnc) (sc_runBefore st) ?z) bs"
      "reads_bits (take_runs R (Some runDec) (length (sc_runBefore st)) ?z) bs (sc_runBefore st @ [sc_count st])" by blast
    have "writes_bits (put_zeros W cv st) (to_bits n (unat v) @ bs)"
      using writes_then [OF n(3) bs(2)] True n(1) cv tc by (simp add: writes_bits_def put_zeros_def deref_def attached_def)
    moreover have "reads_bits (\<lambda>tot r. bind_dec (take_total_zeros R cv (int ?c) tot r)
        (\<lambda>(tot, zl) r. take_runs R (Some runDec) (?c - 1) zl tot r)) (to_bits n (unat v) @ bs) (sc_runBefore st @ [sc_count st])"
      by (rule reads_then) (use n(4) bs(3) True cv sz(2) in \<open>simp_all add: take_total_zeros_def deref_def attached_def\<close>)
    moreover have "length (sc_runBefore st) \<le> most" using sz(2,3) fit by linarith
    ultimately show ?thesis using bs(1) n(2) by (intro exI [of _ "to_bits n (unat v) @ bs"]) simp
  next
    case False
    then have z: "?z = 0" using fit sz(3) by simp
    have "sum_list (sc_runBefore st @ [sc_count st]) \<le> 0" using sz(7) z by simp
    then have zs: "sc_runBefore st @ [sc_count st] = replicate (?c - 1) 0 @ [0]"
      using zero_sum [of "sc_runBefore st @ [sc_count st]"] sz(1,2,5,6) by (simp add: replicate_append_same)
    have "reads_bits (\<lambda>tot r. bind_dec (take_total_zeros R cv (int ?c) tot r)
        (\<lambda>(tot, zl) r. take_runs R (Some runDec) (?c - 1) zl tot r)) ([] @ []) (replicate (?c - 1) 0 @ [0])"
      by (rule reads_then [where a = 0]) (use False f runs_none in \<open>simp_all add: take_total_zeros_def reads_bits_def\<close>)
    moreover have "writes_bits (put_zeros W cv st) []"
      using False f tc by (simp add: writes_bits_def put_zeros_def put_nil)
    ultimately show ?thesis unfolding zs by (intro exI [of _ "[]"]) simp
  qed
qed

definition block_parts :: "cavlc_scan \<Rightarrow> int \<times> (int \<times> int) list" where
  "block_parts st = (int (length (sc_level st)),
     if sc_level st = [] then [] else rev (zip (sc_runBefore st @ [sc_count st]) (sc_level st)))"

definition start_suffix :: "cavlc_scan \<Rightarrow> nat" where
  "start_suffix st = (if length (sc_level st) > 10 \<and> sc_trailingOnes st < 3 then 1 else 0)"

lemma body_bits:
  assumes ok: "scan_ok xs st" "sc_level st \<noteq> []" and len: "length xs = most - d" and cv: "attached cv d"
    and range: "\<forall>x \<in> set xs. - (2 ^ 15) \<le> x \<and> x < 2 ^ 15"
  shows "\<exists>bs. length bs \<le> 9 + 49 * most
    \<and> writes_bits (\<lambda>tot w. bind_enc (put_levels W (Some prefixEnc) (sc_trailingOnes st) (sc_trailingOnesSignFlag st) 0 (start_suffix st) (sc_level st) tot w)
        (put_zeros W cv st)) bs
    \<and> reads_bits (\<lambda>tot r. bind_dec (take_levels R (Some prefixDec) (sc_trailingOnes st) (length (sc_level st)) 0 (start_suffix st) tot r)
        (\<lambda>(tot, ls) r. bind_dec (bind_dec (take_total_zeros R cv (int (length (sc_level st))) tot r)
              (\<lambda>(tot, zl) r. take_runs R (Some runDec) (length (sc_level st) - 1) zl tot r))
           (\<lambda>(tot, runs) r. Some (Inr (Inr (tot, int (length (sc_level st)), rev (zip runs ls)), r))))) bs (block_parts st)"
proof -
  let ?ls = "sc_level st" let ?c = "length ?ls"
  from ok(1) have tr: "trailing_ok ?ls (sc_trailingOnes st) (sc_trailingOnesSignFlag st)" and fl: "?ls = filter (\<lambda>x. x \<noteq> 0) xs"
    unfolding scan_ok_def by blast+
  have c: "?c \<le> most" using fl len by (metis diff_le_self le_trans length_filter_le)
  have "\<exists>bs. length bs \<le> 38 * ?c \<and> writes_bits (put_levels W (Some prefixEnc) (sc_trailingOnes st) (sc_trailingOnesSignFlag st) 0 (start_suffix st) ?ls) bs
     \<and> reads_bits (take_levels R (Some prefixDec) (sc_trailingOnes st) ?c 0 (start_suffix st)) bs ?ls"
  proof (rule levels_bits)
    show "\<forall>l \<in> set ?ls. l \<noteq> 0 \<and> - (2 ^ 15) \<le> l \<and> l < 2 ^ 15" using range fl by auto
    show "start_suffix st \<le> 6" by (simp add: start_suffix_def)
    show "\<forall>j < ?c. 0 + j < sc_trailingOnes st \<longrightarrow> (?ls ! j = 1 \<or> ?ls ! j = -1) \<and> sc_trailingOnesSignFlag st ! (0 + j) = (?ls ! j = -1)"
    proof (intro allI impI)
      fix j assume j: "j < ?c" "0 + j < sc_trailingOnes st"
      then have "?ls ! j \<in> set (take (sc_trailingOnes st) ?ls)" by (auto simp: in_set_conv_nth)
      with j tr show "(?ls ! j = 1 \<or> ?ls ! j = -1) \<and> sc_trailingOnesSignFlag st ! (0 + j) = (?ls ! j = -1)"
        unfolding trailing_ok_def by simp
    qed
    show "\<forall>j < ?c. 0 + j = sc_trailingOnes st \<and> sc_trailingOnes st < 3 \<longrightarrow> ?ls ! j \<noteq> 1 \<and> ?ls ! j \<noteq> -1"
      using tr by (auto simp: trailing_ok_def)
  qed
  then obtain bs where bs: "length bs \<le> 38 * ?c"
    "writes_bits (put_levels W (Some prefixEnc) (sc_trailingOnes st) (sc_trailingOnesSignFlag st) 0 (start_suffix st) ?ls) bs"
    "reads_bits (take_levels R (Some prefixDec) (sc_trailingOnes st) ?c 0 (start_suffix st)) bs ?ls" by blast
  from zeros_bits [OF ok len cv] obtain cs where cs: "length cs \<le> 9 + 11 * most" "writes_bits (put_zeros W cv st) cs"
    "reads_bits (\<lambda>tot r. bind_dec (take_total_zeros R cv (int ?c) tot r)
        (\<lambda>(tot, zl) r. take_runs R (Some runDec) (?c - 1) zl tot r)) cs (sc_runBefore st @ [sc_count st])" by blast
  let ?ret = "\<lambda>ls runs tot r. Some (Inr (Inr (tot, int ?c, rev (zip runs ls)), r))"
  have ret: "reads_bits (?ret ?ls (sc_runBefore st @ [sc_count st])) [] (block_parts st)"
    using ok(2) by (simp add: reads_bits_def block_parts_def)
  have z: "reads_bits (\<lambda>tot r. bind_dec (bind_dec (take_total_zeros R cv (int ?c) tot r) (\<lambda>(tot, zl) r. take_runs R (Some runDec) (?c - 1) zl tot r))
      (\<lambda>(tot, runs) r. ?ret ?ls runs tot r)) (cs @ []) (block_parts st)"
    by (rule reads_then [OF cs(3), where g = "?ret ?ls", OF ret])
  let ?g = "\<lambda>ls tot r. bind_dec (bind_dec (take_total_zeros R cv (int ?c) tot r) (\<lambda>(tot, zl) r. take_runs R (Some runDec) (?c - 1) zl tot r))
      (\<lambda>(tot, runs) r. ?ret ls runs tot r)"
  have "reads_bits (\<lambda>tot r. bind_dec (take_levels R (Some prefixDec) (sc_trailingOnes st) ?c 0 (start_suffix st) tot r)
      (\<lambda>(tot, ls) r. ?g ls tot r)) (bs @ cs) (block_parts st)"
    by (rule reads_then [OF bs(3), where g = ?g]) (use z in simp)
  moreover have "length (bs @ cs) \<le> 9 + 49 * most" using bs(1) cs(1) c by simp
  ultimately show ?thesis using writes_then [OF bs(2) cs(2)] by blast
qed

lemma bind_dec_assoc: "bind_dec (bind_dec m f) g = bind_dec m (\<lambda>a r. bind_dec (f a r) g)"
  by (auto simp: bind_dec_def split: option.split sum.split prod.split)

lemma block_bits:
  assumes ok: "scan_ok xs st" and len: "length xs = most - d" and cv: "attached cv d"
    and range: "\<forall>x \<in> set xs. - (2 ^ 15) \<le> x \<and> x < 2 ^ 15"
  obtains bs where "0 < length bs" "length bs \<le> 25 + 49 * most"
    "\<And>w. length bs < room w \<Longrightarrow> put_block W cv st (Some w) = Inr (Inr (int (length bs)), Some (put bs w))"
    "\<And>m r rest. rbits (skip m r) = bs @ rest \<Longrightarrow>
      take_block R cv (skip m r) = Some (Inr (Inr (int (length bs), block_parts st), skip (m + length bs) r))"
proof -
  let ?ls = "sc_level st" let ?c = "length ?ls" and ?t = "sc_trailingOnes st" and ?nC = "cv_numTotNeighborCoeff cv"
  from ok have tc: "sc_totalCoeff st = ?c" and tr: "?t \<le> 3" "?t \<le> ?c" and fl: "?ls = filter (\<lambda>x. x \<noteq> 0) xs"
    unfolding scan_ok_def trailing_ok_def by blast+
  have c: "?c \<le> most" using fl len by (metis diff_le_self le_trans length_filter_le)
  have tk: "coded rbits skip 16 (ve_Encode3 tokenEnc (int ?c) (int ?t) ?nC) (\<lambda>r. Some (vd_Decode3 tokenDec ?nC r)) (int ?c, int ?t)"
    by (rule token_coded) (use tr c cv in \<open>auto simp: attached_def\<close>)
  have "(16 :: nat) \<le> 32" by simp
  from coded_bits [OF tk this] obtain n v where n: "ve_Encode3 tokenEnc (int ?c) (int ?t) ?nC = Inr (n, v)" "0 < n" "n \<le> 16"
    "writes_bits (put_code W (n, v)) (to_bits n (unat v))"
    "reads_bits (take_code R (\<lambda>r. Some (vd_Decode3 tokenDec ?nC r))) (to_bits n (unat v)) (int ?c, int ?t)" by metis
  let ?enc = "\<lambda>tot w. if sc_totalCoeff st > 0
      then bind_enc (put_levels W (Some prefixEnc) ?t (sc_trailingOnesSignFlag st) 0 (start_suffix st) ?ls tot w) (put_zeros W cv st)
      else Inr (Inr tot, w)"
  let ?dec = "\<lambda>(totalCoeff, trailingOnes) tot r. if totalCoeff > 0
      then bind_dec (take_levels R (Some prefixDec) (nat trailingOnes) (nat totalCoeff) 0 (if totalCoeff > 10 \<and> trailingOnes < 3 then 1 else 0) tot r)
        (\<lambda>(tot, ls) r. bind_dec (bind_dec (take_total_zeros R cv totalCoeff tot r)
              (\<lambda>(tot, zl) r. take_runs R (Some runDec) (nat totalCoeff - 1) zl tot r))
           (\<lambda>(tot, runs) r. Some (Inr (Inr (tot, totalCoeff, rev (zip runs ls)), r))))
      else Some (Inr (Inr (tot, totalCoeff, []), r))"
  have "\<exists>bs. length bs \<le> 9 + 49 * most \<and> writes_bits ?enc bs \<and> reads_bits (?dec (int ?c, int ?t)) bs (block_parts st)"
  proof (cases "?ls = []")
    case True
    then show ?thesis using writes_nothing by (intro exI [of _ "[]"]) (simp add: tc reads_bits_def writes_bits_def block_parts_def)
  next
    case False
    from body_bits [OF ok False len cv range] obtain bs where "length bs \<le> 9 + 49 * most"
      "writes_bits (\<lambda>tot w. bind_enc (put_levels W (Some prefixEnc) ?t (sc_trailingOnesSignFlag st) 0 (start_suffix st) ?ls tot w) (put_zeros W cv st)) bs"
      "reads_bits (\<lambda>tot r. bind_dec (take_levels R (Some prefixDec) ?t ?c 0 (start_suffix st) tot r)
        (\<lambda>(tot, ls) r. bind_dec (bind_dec (take_total_zeros R cv (int ?c) tot r) (\<lambda>(tot, zl) r. take_runs R (Some runDec) (?c - 1) zl tot r))
           (\<lambda>(tot, runs) r. Some (Inr (Inr (tot, int ?c, rev (zip runs ls)), r))))) bs (block_parts st)" by blast
    moreover have "(if int ?c > 10 \<and> int ?t < 3 then 1 else 0) = start_suffix st" by (simp add: start_suffix_def)
    ultimately show ?thesis using False by (intro exI [of _ bs]) (simp add: tc)
  qed
  then obtain bs where bs: "length bs \<le> 9 + 49 * most" "writes_bits ?enc bs" "reads_bits (?dec (int ?c, int ?t)) bs (block_parts st)" by blast
  let ?all = "to_bits n (unat v) @ bs"
  have w: "writes_bits (\<lambda>tot w. bind_enc (put_code W (n, v) tot w) ?enc) ?all" by (rule writes_then [OF n(4) bs(2)])
  have r: "reads_bits (\<lambda>tot r. bind_dec (take_code R (\<lambda>r. Some (vd_Decode3 tokenDec ?nC r)) tot r) (\<lambda>(tot, x) r. ?dec x tot r)) ?all (block_parts st)"
    by (rule reads_then [OF n(5), where g = ?dec, OF bs(3)])
  have "put_block W cv st (Some w) = Inr (Inr (int (length ?all)), Some (put ?all w))" if "length ?all < room w" for w
  proof -
    have f: "cv_pCoeffTokenVlcEncoder cv = Some tokenEnc" "cv_pPrefixVlcEncoder cv = Some prefixEnc" using cv by (simp_all add: attached_def)
    have "put_block W cv st (Some w) = bind_enc (put_code W (n, v) 0 (Some w)) ?enc"
      unfolding put_block_def f deref_def start_suffix_def tc by (simp add: n(1))
    then show ?thesis using w [unfolded writes_bits_def, rule_format, OF that, of 0] by simp
  qed
  moreover have "take_block R cv (skip m r) = Some (Inr (Inr (int (length ?all), block_parts st), skip (m + length ?all) r))"
    if "rbits (skip m r) = ?all @ rest" for m r rest
  proof -
    have f: "cv_pCoeffTokenVlcDecoder cv = Some tokenDec" "cv_pPrefixVlcDecoder cv = Some prefixDec" "cv_pRunBeforeVlcDecoder cv = Some runDec"
      using cv by (simp_all add: attached_def)
    have "take_block R cv (skip m r) = bind_dec (take_code R (\<lambda>r. Some (vd_Decode3 tokenDec ?nC r)) 0 (skip m r)) (\<lambda>(tot, x) r. ?dec x tot r)"
      unfolding take_block_def f deref_def by (simp add: bind_dec_assoc case_prod_unfold cong: if_cong)
    then show ?thesis using r [unfolded reads_bits_def, rule_format, OF that, of 0] by simp
  qed
  moreover have "0 < length ?all" "length ?all \<le> 25 + 49 * most" using n(2,3) bs(1) by simp_all
  ultimately show ?thesis using that by blast
qed

lemma block_roundtrip:
  assumes cv: "attached cv d" and blk: "length blk = most"
  obtains bs n where "0 < length bs" "length bs \<le> 25 + 49 * most"
    "\<And>w. length bs < room w \<Longrightarrow> CAVLC_Encode W blk (Some w) cv = Inr (int (length bs), Some (put bs w), cv\<lparr>cv_numCoeff := n\<rparr>)"
    "\<And>r rest out. \<lbrakk>rbits r = bs @ rest; length out = most\<rbrakk> \<Longrightarrow>
      CAVLC_Decode R r out cv = Some (Inr (int (length bs), skip (length bs) r, clear_first (cv_zigZag cv) d blk, cv\<lparr>cv_numCoeff := n\<rparr>))"
proof -
  let ?zz = "cv_zigZag cv"
  have a: "zigzag_ok ?zz" "length blk = length ?zz" "d \<le> length ?zz" and f: "length ?zz = most" "cv_maxNumCoeff cv = most" "cv_dcSkip cv = int d"
    using cv blk by (simp_all add: attached_def)
  have "rev [int d..int (length ?zz) - 1] = map int (rev [d..<length ?zz])" by (rule scan_order [OF a(3)])
  then have "\<exists>xs. read_coeffs ?zz blk (rev [int d..int (length ?zz) - 1]) = Inr xs"
    using read_coeffs_law [OF a(1), of blk "map int (rev [d..<length ?zz])"] a(2) by auto
  then obtain xs where xs: "read_coeffs ?zz blk (rev [int d..int (length ?zz) - 1]) = Inr xs" by blast
  let ?st = "foldl scan_coeff scan_start xs"
  have ok: "scan_ok xs ?st" by (rule scan_all)
  note br = block_restored [OF a xs ok]
  have len: "length xs = most - d" using br(3) f(1) by simp
  from block_bits [OF ok len cv br(4)] obtain bs where bs: "0 < length bs" "length bs \<le> 25 + 49 * most"
    "\<And>w. length bs < room w \<Longrightarrow> put_block W cv ?st (Some w) = Inr (Inr (int (length bs)), Some (put bs w))"
    "\<And>m r rest. rbits (skip m r) = bs @ rest \<Longrightarrow>
      take_block R cv (skip m r) = Some (Inr (Inr (int (length bs), block_parts ?st), skip (m + length bs) r))" by metis
  let ?n = "int (length (sc_level ?st))"
  have tc: "int (sc_totalCoeff ?st) = ?n" using ok by (simp add: scan_ok_def)
  have enc: "CAVLC_Encode W blk (Some w) cv = Inr (int (length bs), Some (put bs w), cv\<lparr>cv_numCoeff := ?n\<rparr>)" if "length bs < room w" for w
    using xs bs(3) [OF that] f tc by (simp add: CAVLC_Encode_def Let_def)
  have dec: "CAVLC_Decode R r out cv = Some (Inr (int (length bs), skip (length bs) r, clear_first ?zz d blk, cv\<lparr>cv_numCoeff := ?n\<rparr>))"
    if r: "rbits r = bs @ rest" and out: "length out = most" for r rest out
  proof -
    have "rbits r \<noteq> []" using r bs(1) by auto
    then have r0: "skip 0 r = r" by (rule skip_none)
    have "take_block R cv r = Some (Inr (Inr (int (length bs), block_parts ?st), skip (length bs) r))"
      using bs(4) [of 0 r rest] r r0 by simp
    moreover have "load_coeffs ?zz (cv_dcSkip cv) (-1) (snd (block_parts ?st)) (replicate (length ?zz) 0) = Inr (clear_first ?zz d blk)"
      using br(1,2) f(3) by (cases "sc_level ?st = []") (simp_all add: block_parts_def)
    ultimately show ?thesis using out f by (simp add: CAVLC_Decode_def Let_def block_parts_def)
  qed
  show ?thesis by (rule that [OF bs(1,2) enc dec])
qed

end

section \<open>The codes of the library\<close>

lemma table_entry_int:
  "\<lbrakk>length t = a; \<forall>row \<in> set t. length row = b; i < a; j < b\<rbrakk> \<Longrightarrow> \<exists>e. table_entry t (int i) (int j) = Inr e"
  by (auto simp: table_entry_def)

definition code_exists :: "(int \<Rightarrow> int \<Rightarrow> bool) \<Rightarrow> nat \<Rightarrow> int \<Rightarrow> int \<Rightarrow> nat \<times> u32 \<Rightarrow> bool" where
  "code_exists legal most i j e \<longleftrightarrow> (legal i j \<longrightarrow> 0 < fst e \<and> fst e \<le> most)"

lemma token_codes_exist:
  "\<forall>T \<in> {nC0to1, nC2to3, nC4to7, nC8up}. all_table (code_exists (\<le>) 16) 0 T \<and> length T = 4 \<and> (\<forall>row \<in> set T. length row = 17)"
  "all_table (code_exists (\<le>) 16) 0 nCneg1 \<and> length nCneg1 = 4 \<and> (\<forall>row \<in> set nCneg1. length row = 5)"
  by (simp_all add: nC0to1_def nC2to3_def nC4to7_def nC8up_def nCneg1_def code_exists_def)

lemma zeros_codes_exist:
  "all_table (code_exists (\<lambda>z c. 1 \<le> c \<and> z + c \<le> 16) 9) 0 TotalZeros4x4_table \<and> length TotalZeros4x4_table = 16 \<and> (\<forall>row \<in> set TotalZeros4x4_table. length row = 16)"
  "all_table (code_exists (\<lambda>z c. 1 \<le> c \<and> z + c \<le> 4) 9) 0 TotalZeros2x2_table \<and> length TotalZeros2x2_table = 4 \<and> (\<forall>row \<in> set TotalZeros2x2_table. length row = 4)"
  by (simp_all add: TotalZeros4x4_table_def TotalZeros2x2_table_def code_exists_def)

lemma run_codes_exist:
  "all_table (code_exists (\<lambda>r z. 1 \<le> z \<and> (r \<le> z \<or> z = 7)) 11) 0 RunBefore_table \<and> length RunBefore_table = 15 \<and> (\<forall>row \<in> set RunBefore_table. length row = 8)"
  by (simp add: RunBefore_table_def code_exists_def)

lemma run_decoder_many: "6 < z \<Longrightarrow> RunBeforeH264VlcDecoder_Decode2 R z = RunBeforeH264VlcDecoder_Decode2 R 7"
  by (simp add: RunBeforeH264VlcDecoder_Decode2_def)

context bit_reader
begin

lemma coded_entry:
  assumes "table_entry T (int i) (int j) = Inr e" "all_table (code_exists legal m) 0 T" "legal (int i) (int j)"
    and "enc = table_entry T (int i) (int j)" and "\<And>r rest. rbits r = to_bits (fst e) (unat (snd e)) @ rest \<Longrightarrow> dec r = Some (Inr (fst e, a, skip (fst e) r))"
  shows "coded rbits skip m enc dec a"
proof -
  have "code_exists legal m (int i) (int j) e" by (rule all_table_entry [OF assms(2,1)])
  then show ?thesis using assms(1,3-5) by (cases e) (auto simp: coded_def code_exists_def)
qed

lemma token_entry:
  assumes T: "all_table (code_exists (\<le>) 16) 0 T" "length T = 4" "\<forall>row \<in> set T. length row = b" and dec: "all_table (decodes_token d) 0 T"
    and t: "t \<le> 3" "t \<le> c" "c < b"
  shows "coded rbits skip 16 (table_entry T (int t) (int c)) (\<lambda>r. Some (d r)) (int c, int t)"
proof -
  obtain e where e: "table_entry T (int t) (int c) = Inr e" using table_entry_int [of T 4 b t c] T t by auto
  have "code_exists (\<le>) 16 (int t) (int c) e" by (rule all_table_entry [OF T(1) e])
  then have "0 < fst e" using t by (simp add: code_exists_def)
  moreover have "decodes_token d (int t) (int c) e" by (rule all_table_entry [OF dec e])
  ultimately have "d r = Inr (fst e, (int c, int t), skip (fst e) r)" if "rbits r = to_bits (fst e) (unat (snd e)) @ rest" for r rest
    using that unfolding decodes_token_def by blast
  then show ?thesis by (intro coded_entry [OF e T(1)]) (use t in auto)
qed

lemma count_entry:
  assumes T: "all_table (code_exists legal m) 0 T" "length T = a" "\<forall>row \<in> set T. length row = b" and dec: "all_table (decodes_count d) 0 T"
    and ij: "i < a" "j < b" "legal (int i) (int j)" and ctx: "d ctx = d (int j)"
  shows "coded rbits skip m (table_entry T (int i) (int j)) (\<lambda>r. Some (d ctx r)) (int i)"
proof -
  obtain e where e: "table_entry T (int i) (int j) = Inr e" using table_entry_int [of T a b i j] T ij by auto
  have "code_exists legal m (int i) (int j) e" by (rule all_table_entry [OF T(1) e])
  then have "0 < fst e" using ij by (simp add: code_exists_def)
  moreover have "decodes_count d (int i) (int j) e" by (rule all_table_entry [OF dec e])
  ultimately have "d ctx r = Inr (fst e, int i, skip (fst e) r)" if "rbits r = to_bits (fst e) (unat (snd e)) @ rest" for r rest
    using that unfolding decodes_count_def ctx by blast
  then show ?thesis by (intro coded_entry [OF e T(1)]) (use ij in auto)
qed

lemma token_coded_4x4:
  assumes "nC \<noteq> -1" "nC \<noteq> -2" "t \<le> 3" "t \<le> c" "c \<le> 16"
  shows "coded rbits skip 16 (CoeffTokenH264VlcEncoder_Encode3 (int c) (int t) nC) (\<lambda>r. Some (CoeffTokenH264VlcDecoder_Decode3 R nC r)) (int c, int t)"
proof -
  have c: "c < 17" using assms by simp
  note x = token_codes_exist(1)
  have "coded rbits skip 16 (table_entry nC0to1 (int t) (int c)) (\<lambda>r. Some (NC0to1 R r)) (int c, int t)"
    "coded rbits skip 16 (table_entry nC2to3 (int t) (int c)) (\<lambda>r. Some (NC2to3 R r)) (int c, int t)"
    "coded rbits skip 16 (table_entry nC4to7 (int t) (int c)) (\<lambda>r. Some (NC4to7 R r)) (int c, int t)"
    "coded rbits skip 16 (table_entry nC8up (int t) (int c)) (\<lambda>r. Some (NC8up R r)) (int c, int t)"
    by (rule token_entry [OF _ _ _ _ assms(3,4) c]; use x NC0to1_decodes NC2to3_decodes NC4to7_decodes NC8up_decodes in simp)+
  then show ?thesis
    using assms(1,2) by (simp add: CoeffTokenH264VlcEncoder_Encode3_def CoeffTokenH264VlcDecoder_Decode3_def)
qed

lemma token_coded_2x2:
  assumes "t \<le> 3" "t \<le> c" "c \<le> 4"
  shows "coded rbits skip 16 (CoeffTokenH264VlcEncoder_Encode3 (int c) (int t) (-1)) (\<lambda>r. Some (CoeffTokenH264VlcDecoder_Decode3 R (-1) r)) (int c, int t)"
proof -
  have c: "c < 5" using assms by simp
  have "coded rbits skip 16 (table_entry nCneg1 (int t) (int c)) (\<lambda>r. Some (NCneg1 R r)) (int c, int t)"
    by (rule token_entry [OF _ _ _ _ assms(1,2) c]; use token_codes_exist(2) NCneg1_decodes in simp)
  then show ?thesis by (simp add: CoeffTokenH264VlcEncoder_Encode3_def CoeffTokenH264VlcDecoder_Decode3_def)
qed

lemma zeros_coded_4x4:
  assumes "1 \<le> c" "c < 16" "z \<le> 16 - c"
  shows "coded rbits skip 9 (TotalZeros4x4H264VlcEncoder_Encode2 (int z) (int c)) (\<lambda>r. Some (TotalZeros4x4H264VlcDecoder_Decode2 R (int c) r)) (int z)"
  unfolding TotalZeros4x4H264VlcEncoder_Encode2_def
  by (rule count_entry [of "\<lambda>z c. 1 \<le> c \<and> z + c \<le> 16" 9 _ 16 16]) (use zeros_codes_exist(1) TotalZeros4x4_decodes assms in auto)

lemma zeros_coded_2x2:
  assumes "1 \<le> c" "c < 4" "z \<le> 4 - c"
  shows "coded rbits skip 9 (TotalZeros2x2H264VlcEncoder_Encode2 (int z) (int c)) (\<lambda>r. Some (TotalZeros2x2H264VlcDecoder_Decode2 R (int c) r)) (int z)"
  unfolding TotalZeros2x2H264VlcEncoder_Encode2_def
  by (rule count_entry [of "\<lambda>z c. 1 \<le> c \<and> z + c \<le> 4" 9 _ 4 4]) (use zeros_codes_exist(2) TotalZeros2x2_decodes assms in auto)

lemma run_coded_any:
  assumes "1 \<le> z" "run \<le> z" "run < 15"
  shows "coded rbits skip 11 (RunBeforeH264VlcEncoder_Encode2 (int run) (int z)) (\<lambda>r. Some (RunBeforeH264VlcDecoder_Decode2 R (int z) r)) (int run)"
proof -
  let ?j = "if z > 6 then 7 else z"
  have "coded rbits skip 11 (table_entry RunBefore_table (int run) (int ?j)) (\<lambda>r. Some (RunBeforeH264VlcDecoder_Decode2 R (int z) r)) (int run)"
    by (rule count_entry [of "\<lambda>r z. 1 \<le> z \<and> (r \<le> z \<or> z = 7)" 11 _ 15 8])
      (use run_codes_exist RunBefore_decodes assms run_decoder_many [of "int z" R] in auto)
  then show ?thesis by (simp add: RunBeforeH264VlcEncoder_Encode2_def of_nat_less_iff if_distrib cong: if_cong)
qed

lemma prefix_coded_any:
  assumes "p \<le> 31"
  shows "coded rbits skip (p + 1) (PrefixH264VlcEncoderImpl1_Encode (int p)) (PrefixH264VlcDecoderImpl1_Decode R) (int p)"
proof -
  have one: "to_bits (Suc p) 1 = replicate p False @ [True]"
  proof (induction p)
    case (Suc p)
    have "(1 :: nat) div 2 ^ Suc p = 0" by (rule div_less) (rule one_less_power, simp_all)
    with Suc show ?case by (simp only: to_bits.simps(2) [of "Suc p"]) simp
  qed simp
  have "PrefixH264VlcDecoderImpl1_Decode R r = Some (Inr (p + 1, int p, skip (p + 1) r))" if "rbits r = to_bits (p + 1) (unat (1 :: u32)) @ rest" for r rest
    using count_zeros_bits [of r p rest 0] that one by (simp add: PrefixH264VlcDecoderImpl1_Decode_def)
  then show ?thesis unfolding coded_def PrefixH264VlcEncoderImpl1_Encode_def by (intro exI [of _ "p + 1"] exI [of _ 1]) auto
qed

end

text \<open>The interfaces on the bit streams of the library, for the blocks of 4x4 and those of 2x2 coefficients.\<close>

interpretation cavlc4x4: cavlc_codes BitStreamReaderMSB bits_to_come skip_ahead BitStreamWriterMSB bits_so_far stream_room put_all
  CoeffTokenVlcEncoder PrefixVlcEncoder TotalZeros4x4VlcEncoder RunBeforeVlcEncoder
  "CoeffTokenVlcDecoder BitStreamReaderMSB" "PrefixVlcDecoder BitStreamReaderMSB" "TotalZeros4x4VlcDecoder BitStreamReaderMSB" "RunBeforeVlcDecoder BitStreamReaderMSB"
  16 "- {-1, -2}"
  by unfold_locales
    (simp_all add: CoeffTokenVlcEncoder_def PrefixVlcEncoder_def TotalZeros4x4VlcEncoder_def RunBeforeVlcEncoder_def CoeffTokenVlcDecoder_def
      PrefixVlcDecoder_def TotalZeros4x4VlcDecoder_def RunBeforeVlcDecoder_def msb_reader.token_coded_4x4 msb_reader.zeros_coded_4x4
      msb_reader.run_coded_any msb_reader.prefix_coded_any [simplified])

interpretation cavlc2x2: cavlc_codes BitStreamReaderMSB bits_to_come skip_ahead BitStreamWriterMSB bits_so_far stream_room put_all
  CoeffTokenVlcEncoder PrefixVlcEncoder TotalZeros2x2VlcEncoder RunBeforeVlcEncoder
  "CoeffTokenVlcDecoder BitStreamReaderMSB" "PrefixVlcDecoder BitStreamReaderMSB" "TotalZeros2x2VlcDecoder BitStreamReaderMSB" "RunBeforeVlcDecoder BitStreamReaderMSB"
  4 "{-1}"
  by unfold_locales
    (simp_all add: CoeffTokenVlcEncoder_def PrefixVlcEncoder_def TotalZeros2x2VlcEncoder_def RunBeforeVlcEncoder_def CoeffTokenVlcDecoder_def
      PrefixVlcDecoder_def TotalZeros2x2VlcDecoder_def RunBeforeVlcDecoder_def msb_reader.token_coded_2x2 msb_reader.zeros_coded_2x2
      msb_reader.run_coded_any msb_reader.prefix_coded_any [simplified])

section \<open>The codec of the encoder and decoder\<close>

text \<open>What \<open>H264v2Codec\<close> creates for its 4x4 and 2x2 blocks, with its codes attached.\<close>

definition H264v2Codec_pCAVLC4x4 :: "(IVlcEncoder, BitStreamMSB IVlcDecoder) CAVLCH264Impl" where
  "H264v2Codec_pCAVLC4x4 = (CAVLC_SetMode Mode4x4 CAVLCH264Impl)
     \<lparr>cv_pCoeffTokenVlcEncoder := Some CoeffTokenVlcEncoder, cv_pCoeffTokenVlcDecoder := Some (CoeffTokenVlcDecoder BitStreamReaderMSB),
      cv_pPrefixVlcEncoder := Some PrefixVlcEncoder, cv_pPrefixVlcDecoder := Some (PrefixVlcDecoder BitStreamReaderMSB),
      cv_pRunBeforeVlcEncoder := Some RunBeforeVlcEncoder, cv_pRunBeforeVlcDecoder := Some (RunBeforeVlcDecoder BitStreamReaderMSB),
      cv_pTotalZerosVlcEncoder := Some TotalZeros4x4VlcEncoder, cv_pTotalZerosVlcDecoder := Some (TotalZeros4x4VlcDecoder BitStreamReaderMSB)\<rparr>"

definition H264v2Codec_pCAVLC2x2 :: "(IVlcEncoder, BitStreamMSB IVlcDecoder) CAVLCH264Impl" where
  "H264v2Codec_pCAVLC2x2 = (CAVLC_SetMode Mode2x2 CAVLCH264Impl)
     \<lparr>cv_pCoeffTokenVlcEncoder := Some CoeffTokenVlcEncoder, cv_pCoeffTokenVlcDecoder := Some (CoeffTokenVlcDecoder BitStreamReaderMSB),
      cv_pPrefixVlcEncoder := Some PrefixVlcEncoder, cv_pPrefixVlcDecoder := Some (PrefixVlcDecoder BitStreamReaderMSB),
      cv_pRunBeforeVlcEncoder := Some RunBeforeVlcEncoder, cv_pRunBeforeVlcDecoder := Some (RunBeforeVlcDecoder BitStreamReaderMSB),
      cv_pTotalZerosVlcEncoder := Some TotalZeros2x2VlcEncoder, cv_pTotalZerosVlcDecoder := Some (TotalZeros2x2VlcDecoder BitStreamReaderMSB)\<rparr>"

definition in_context :: "int \<Rightarrow> int \<Rightarrow> ('e, 'd) CAVLCH264Impl \<Rightarrow> ('e, 'd) CAVLCH264Impl" where
  "in_context nC dcSkip cv = CAVLC_SetParameter DC_SKIP_FLAG_ID dcSkip (CAVLC_SetParameter NUM_TOT_NEIGHBOR_COEFF_ID nC cv)"

lemmas in_context_defs = in_context_def CAVLC_SetParameter_def CAVLC_SetMode_def CAVLCH264Impl_def NUM_TOT_NEIGHBOR_COEFF_ID_def DC_SKIP_FLAG_ID_def
  Mode2x2_def Mode4x4_def Mode8x8_def

lemma zigzags_ok: "zigzag_ok zigZag4x4Pos" "zigzag_ok zigZag2x2Pos" "zigzag_ok zigZag8x8Pos"
  by (simp_all add: zigzag_ok_def zigZag4x4Pos_def zigZag2x2Pos_def zigZag8x8Pos_def)

lemma attached_4x4: "\<lbrakk>nC \<noteq> -1; nC \<noteq> -2; d \<le> 16\<rbrakk> \<Longrightarrow> cavlc4x4.attached (in_context nC (int d) H264v2Codec_pCAVLC4x4) d"
  unfolding cavlc4x4.attached_def using zigzags_ok by (simp add: H264v2Codec_pCAVLC4x4_def in_context_defs zigZag4x4Pos_def)

lemma attached_2x2: "d \<le> 4 \<Longrightarrow> cavlc2x2.attached (in_context (-1) (int d) H264v2Codec_pCAVLC2x2) d"
  unfolding cavlc2x2.attached_def using zigzags_ok by (simp add: H264v2Codec_pCAVLC2x2_def in_context_defs zigZag2x2Pos_def)

lemma zigzag_in_context:
  "cv_zigZag (in_context nC d H264v2Codec_pCAVLC4x4) = zigZag4x4Pos" "cv_zigZag (in_context nC d H264v2Codec_pCAVLC2x2) = zigZag2x2Pos"
  by (simp_all add: H264v2Codec_pCAVLC4x4_def H264v2Codec_pCAVLC2x2_def in_context_defs)

text \<open>C3: a 4x4 block of coefficients that is encoded in a context (the coefficients of the neighbours and the number of
  coefficients at the start of the scan that are left out) onto a stream with room for its longest encoding appends the bits
  that it announces to what was written before; and a decoder in that context, at a stream that goes on with those bits, announces as many,
  gives back the block (without the coefficients left out), counts the same coefficients and leaves the stream after the bits.\<close>

theorem coded_block_restored:
  assumes "length blk = 16" and "length out = 16" and "nC \<noteq> -1" and "nC \<noteq> -2" and "d \<le> 16" and "809 < stream_room w"
  shows "\<exists>bs w' cv. let codec = in_context nC (int d) H264v2Codec_pCAVLC4x4 in
      CAVLC_Encode BitStreamWriterMSB blk (Some w) codec = Inr (int (length bs), Some w', cv)
    \<and> 0 < length bs \<and> length bs \<le> 809 \<and> bits_so_far w' = bits_so_far w @ bs
    \<and> (\<forall>r rest. bits_to_come r = bs @ rest \<longrightarrow>
         (\<exists>r'. CAVLC_Decode BitStreamReaderMSB r out codec = Some (Inr (int (length bs), r', clear_first zigZag4x4Pos d blk, cv))
            \<and> bits_to_come r' = rest))"
proof -
  let ?cv = "in_context nC (int d) H264v2Codec_pCAVLC4x4"
  show ?thesis
  proof (rule cavlc4x4.block_roundtrip [OF attached_4x4 [OF assms(3-5)] assms(1)])
    fix bs n
    assume bs: "0 < length bs" "length bs \<le> 25 + 49 * 16"
      and enc: "\<And>w. length bs < stream_room w \<Longrightarrow>
        CAVLC_Encode BitStreamWriterMSB blk (Some w) ?cv = Inr (int (length bs), Some (put_all bs w), ?cv\<lparr>cv_numCoeff := n\<rparr>)"
      and dec: "\<And>r rest out. \<lbrakk>bits_to_come r = bs @ rest; length out = 16\<rbrakk> \<Longrightarrow>
        CAVLC_Decode BitStreamReaderMSB r out ?cv = Some (Inr (int (length bs), skip_ahead (length bs) r, clear_first (cv_zigZag ?cv) d blk, ?cv\<lparr>cv_numCoeff := n\<rparr>))"
    have room: "length bs < stream_room w" using bs(2) assms(6) by simp
    have "bits_so_far (put_all bs w) = bits_so_far w @ bs" using room by (intro msb_writer.put_bits) simp
    with bs enc [OF room] dec [OF _ assms(2)] show ?thesis
      by (intro exI [of _ bs] exI [of _ "put_all bs w"] exI [of _ "?cv\<lparr>cv_numCoeff := n\<rparr>"]) (simp add: Let_def zigzag_in_context skip_ahead_bits)
  qed
qed

theorem coded_block_restored_witness:
  "\<exists>bs w' cv. let codec = in_context 2 1 H264v2Codec_pCAVLC4x4; blk = [7, 0, -1, 5, 0, 0, 3, 0, 1, 0, 0, 0, 0, 0, -40, 0]; w = SetStream (replicate 102 0) 816 in
      CAVLC_Encode BitStreamWriterMSB blk (Some w) codec = Inr (int (length bs), Some w', cv)
    \<and> 0 < length bs \<and> length bs \<le> 809 \<and> bits_so_far w' = bits_so_far w @ bs
    \<and> (\<forall>r rest. bits_to_come r = bs @ rest \<longrightarrow>
         (\<exists>r'. CAVLC_Decode BitStreamReaderMSB r (replicate 16 9) codec = Some (Inr (int (length bs), r', clear_first zigZag4x4Pos 1 blk, cv))
            \<and> bits_to_come r' = rest))"
  using coded_block_restored [of "[7, 0, -1, 5, 0, 0, 3, 0, 1, 0, 0, 0, 0, 0, -40, 0]" "replicate 16 9" 2 1 "SetStream (replicate 102 0) 816"]
  by (simp add: Let_def SetStream_def stream_room_def stream_ok_def stream_pos_def)

lemma coded_chroma_dc_restored:
  assumes "length blk = 4" and "length out = 4" and "d \<le> 4" and "221 < stream_room w"
  shows "\<exists>bs w' cv. let codec = in_context (-1) (int d) H264v2Codec_pCAVLC2x2 in
      CAVLC_Encode BitStreamWriterMSB blk (Some w) codec = Inr (int (length bs), Some w', cv)
    \<and> 0 < length bs \<and> length bs \<le> 221 \<and> bits_so_far w' = bits_so_far w @ bs
    \<and> (\<forall>r rest. bits_to_come r = bs @ rest \<longrightarrow>
         (\<exists>r'. CAVLC_Decode BitStreamReaderMSB r out codec = Some (Inr (int (length bs), r', clear_first zigZag2x2Pos d blk, cv))
            \<and> bits_to_come r' = rest))"
proof -
  let ?cv = "in_context (-1) (int d) H264v2Codec_pCAVLC2x2"
  show ?thesis
  proof (rule cavlc2x2.block_roundtrip [OF attached_2x2 [OF assms(3)] assms(1)])
    fix bs n
    assume bs: "0 < length bs" "length bs \<le> 25 + 49 * 4"
      and enc: "\<And>w. length bs < stream_room w \<Longrightarrow>
        CAVLC_Encode BitStreamWriterMSB blk (Some w) ?cv = Inr (int (length bs), Some (put_all bs w), ?cv\<lparr>cv_numCoeff := n\<rparr>)"
      and dec: "\<And>r rest out. \<lbrakk>bits_to_come r = bs @ rest; length out = 4\<rbrakk> \<Longrightarrow>
        CAVLC_Decode BitStreamReaderMSB r out ?cv = Some (Inr (int (length bs), skip_ahead (length bs) r, clear_first (cv_zigZag ?cv) d blk, ?cv\<lparr>cv_numCoeff := n\<rparr>))"
    have room: "length bs < stream_room w" using bs(2) assms(4) by simp
    have "bits_so_far (put_all bs w) = bits_so_far w @ bs" using room by (intro msb_writer.put_bits) simp
    with bs enc [OF room] dec [OF _ assms(2)] show ?thesis
      by (intro exI [of _ bs] exI [of _ "put_all bs w"] exI [of _ "?cv\<lparr>cv_numCoeff := n\<rparr>"]) (simp add: Let_def zigzag_in_context skip_ahead_bits)
  qed
qed

end
