(* ===== verification/Exp_Golomb.thy ===== *)
theory Exp_Golomb
  imports Codec_Vlc
begin

text \<open>
  The Exp-Golomb codes of \<open>CodecUtils/ExpGolomb*\<close> are decoded to the symbols they encode. The encoder's count of leading
  zeros comes from the library's logarithm, of which it is assumed that the truncated quotient is the exponent of the
  highest power of two that the argument reaches.
\<close>

definition log2_exact :: "(int \<Rightarrow> int) \<Rightarrow> bool" where
  "log2_exact log2 \<longleftrightarrow> (\<forall>x > 0. 0 \<le> log2 x \<and> 2 ^ nat (log2 x) \<le> x \<and> x < 2 ^ (nat (log2 x) + 1))"

lemma or_highest_bit:
  assumes "2 ^ k \<le> x" "x < 2 ^ (k + 1)" "k < 31"
  shows "(of_int x - push_bit k 1) OR push_bit k 1 = (of_int x :: u32)"
proof -
  define y where "y = x - 2 ^ k"
  have y: "0 \<le> y" "y < 2 ^ k" using assms by (auto simp: y_def)
  have p: "(of_int x :: u32) - push_bit k 1 = of_int y" by (simp add: push_bit_eq_mult y_def)
  have nb: "\<not> bit (of_int y :: u32) n" if "k \<le> n" for n
  proof -
    have "y < 2 ^ n" using y(2) that by (meson less_le_trans one_le_numeral power_increasing)
    then have "\<not> bit y n" using y(1) by (simp add: bit_iff_odd)
    then show ?thesis by (simp add: bit_word_of_int_iff)
  qed
  have "(of_int y :: u32) + push_bit k 1 = of_int y OR push_bit k 1"
    by (rule disjunctive_add_eq_or) (rule bit_word_eqI, use nb in \<open>auto simp: bit_simps\<close>)
  then show ?thesis unfolding p by (simp add: push_bit_eq_mult y_def)
qed

lemma golomb_bits:
  assumes "2 ^ k \<le> x" "x < 2 ^ (k + 1)"
  shows "to_bits (2 * k + 1) x = replicate k False @ True # to_bits k (x - 2 ^ k)"
proof -
  have high: "to_bits k (x div 2 ^ (k + 1)) = replicate k False" using assms by (simp add: to_bits_zero)
  have "x div 2 ^ k = 1" using assms by (intro div_nat_eqI) auto
  then have mid: "odd (x div 2 ^ k)" by simp
  have low: "to_bits k x = to_bits k (x - 2 ^ k)"
  proof (rule nth_equalityI)
    fix i assume i: "i < length (to_bits k x)"
    have "x mod 2 ^ k = (x - 2 ^ k) mod 2 ^ k" using assms(1) by (simp add: le_mod_geq)
    then have "take_bit k x = take_bit k (x - 2 ^ k)" by (simp add: take_bit_eq_mod)
    then have "bit x n = bit (x - 2 ^ k) n" if "n < k" for n using that by (metis bit_take_bit_iff)
    with i show "to_bits k x ! i = to_bits k (x - 2 ^ k) ! i" by (simp add: to_bits_nth)
  qed simp
  have "to_bits (k + (k + 1)) x = to_bits k (x div 2 ^ (k + 1)) @ to_bits (k + 1) x" by (rule to_bits_split)
  moreover have "k + (k + 1) = 2 * k + 1" by simp
  moreover have "to_bits (k + 1) x = True # to_bits k (x - 2 ^ k)" using mid low by simp
  ultimately show ?thesis using high by metis
qed

context bit_reader
begin

lemma unsigned_golomb_coded:
  assumes log2: "log2_exact log2" and s: "0 \<le> s" "s < 2 ^ 30"
  shows "coded rbits skip 61 (ExpGolombUnsignedVlcEncoder_Encode log2 s) (ExpGolombUnsignedVlcDecoder_Decode R) s"
proof -
  define k where "k = (if s = 0 then 0 else nat (log2 (s + 1)))"
  let ?x = "nat (s + 1)"
  have l: "0 \<le> log2 (s + 1)" "2 ^ nat (log2 (s + 1)) \<le> s + 1" "s + 1 < 2 ^ (nat (log2 (s + 1)) + 1)"
    using log2 s(1) by (auto simp: log2_exact_def)
  have kx: "2 ^ k \<le> s + 1" "s + 1 < 2 ^ (k + 1)" using l s(1) by (auto simp: k_def)
  have k: "k \<le> 30"
  proof (rule ccontr)
    assume "\<not> k \<le> 30"
    then have "(2 :: int) ^ 31 \<le> 2 ^ k" by (intro power_increasing) auto
    with kx(1) s(2) show False by simp
  qed
  have kn: "2 ^ k \<le> ?x" "?x < 2 ^ (k + 1)" using kx s(1) by (simp_all add: nat_le_iff le_nat_iff nat_less_iff del: power_Suc)
  have enc: "ExpGolombUnsignedVlcEncoder_Encode log2 s = Inr (2 * k + 1, of_int (s + 1))"
  proof (cases "s = 0")
    case True
    then show ?thesis by (simp add: ExpGolombUnsignedVlcEncoder_Encode_def k_def)
  next
    case False
    then have "nat (2 * log2 (s + 1) + 1) = 2 * k + 1" "2 * log2 (s + 1) + 1 \<le> 64" "nat (log2 (s + 1)) = k" using l(1) k by (auto simp: k_def)
    moreover have "(of_int (s + 1) - push_bit k 1) OR push_bit k 1 = (of_int (s + 1) :: u32)"
      by (rule or_highest_bit [OF kx]) (use k in simp)
    ultimately show ?thesis using False by (simp add: ExpGolombUnsignedVlcEncoder_Encode_def Let_def)
  qed
  have "uint (of_int (s + 1) :: u32) = s + 1" by (rule uint_of_int_u32) (use s in auto)
  then have u: "unat (of_int (s + 1) :: u32) = ?x" by (simp only: nat_uint_eq [symmetric])
  have dec: "ExpGolombUnsignedVlcDecoder_Decode R r = Some (Inr (2 * k + 1, s, skip (2 * k + 1) r))"
    if r: "rbits r = to_bits (2 * k + 1) (unat (of_int (s + 1) :: u32)) @ rest" for r rest
  proof -
    have r1: "rbits r = replicate k False @ True # (to_bits k (?x - 2 ^ k) @ rest)"
      unfolding r u golomb_bits [OF kn] by simp
    have cz: "count_zeros R 0 r = Some (Inr (k, skip (k + 1) r))" using count_zeros_bits [OF r1, of 0] by simp
    have rest: "rbits (skip (k + 1) r) = to_bits k (?x - 2 ^ k) @ rest" using r1 by (simp add: skip_bits)
    let ?b = "?x - 2 ^ k"
    have b: "?b < 2 ^ k" using kn by simp
    have sw: "switch_Read R k f (skip (k + 1) r) = f ?b (skip (2 * k + 1) r)" for f :: "nat \<Rightarrow> 'r \<Rightarrow> fault + nat \<times> int \<times> 'r"
    proof (cases "k = 0")
      case True
      with b show ?thesis by (simp add: switch_Read_def read_none)
    next
      case False
      then have "rbits (skip (k + 1) r) \<noteq> []" unfolding rest by (metis append_is_Nil_conv length_greater_0_conv length_to_bits neq0_conv)
      then have "switch_Read R k f (skip (k + 1) r) = f (of_bits (take k (rbits (skip (k + 1) r)))) (skip k (skip (k + 1) r))"
        by (intro switch_Read_bits) (use k rest in simp_all)
      moreover have "of_bits (take k (rbits (skip (k + 1) r))) = ?b" unfolding rest using b by simp
      moreover have "skip k (skip (k + 1) r) = skip (2 * k + 1) r" unfolding skip_skip by (simp add: mult_2)
      ultimately show ?thesis by metis
    qed
    have "push_bit k 1 - 1 + of_nat ?b = (of_int s :: u32)"
    proof -
      have "int (2 ^ k) - 1 + int ?b = s" using kn(1) s(1) by (simp add: of_nat_diff)
      then have "of_int (int (2 ^ k) - 1 + int ?b) = (of_int s :: u32)" by (rule arg_cong)
      then show ?thesis by (simp add: push_bit_eq_mult)
    qed
    moreover have "sint (of_int s :: u32) = s" using s by (intro sint_of_int_u32) auto
    ultimately have v: "sint (push_bit k 1 - 1 + of_nat ?b :: u32) = s" by metis
    show ?thesis unfolding ExpGolombUnsignedVlcDecoder_Decode_def cz by (simp only: option.map sum.case prod.case sw counted_def v mult.commute [of k])
  qed
  have "0 < 2 * k + 1" "2 * k + 1 \<le> 61" using k by simp_all
  show ?thesis unfolding coded_def
  proof (intro exI conjI allI impI)
    show "ExpGolombUnsignedVlcEncoder_Encode log2 s = Inr (2 * k + 1, of_int (s + 1))" by (rule enc)
    show "ExpGolombUnsignedVlcDecoder_Decode R r = Some (Inr (2 * k + 1, s, skip (2 * k + 1) r))"
      if "rbits r = to_bits (2 * k + 1) (unat (of_int (s + 1) :: u32)) @ rest" for r rest by (rule dec [OF that])
  qed (use k in simp_all)
qed

lemma signed_golomb_coded:
  assumes log2: "log2_exact log2" and s: "- (2 ^ 29) < s" "s < 2 ^ 29"
  shows "coded rbits skip 61 (ExpGolombSignedVlcEncoder_Encode log2 s) (ExpGolombSignedVlcDecoder_Decode R) s"
proof -
  let ?u = "if 2 * s \<le> 0 then - (2 * s) else 2 * s - 1"
  have "0 \<le> ?u" "?u < 2 ^ 30" using s by auto
  from unsigned_golomb_coded [OF log2 this] have u: "coded rbits skip 61 (ExpGolombUnsignedVlcEncoder_Encode log2 ?u) (ExpGolombUnsignedVlcDecoder_Decode R) ?u" .
  have "signed_symbol ?u = s" by (auto simp: signed_symbol_def)
  with u show ?thesis unfolding coded_def ExpGolombSignedVlcEncoder_Encode_def ExpGolombSignedVlcDecoder_Decode_def Let_def
    by fastforce
qed

end

text \<open>On the streams of the codec: the code of a signed symbol, written bit by bit from its two halves, is read back.\<close>

lemma write_long_code:
  assumes "n \<le> 64" "n < stream_room w"
  shows "BitStreamWriterMSB_Write64 n 0 v w = Inr (put_all (to_bits n (unat v)) w)"
proof (cases "n > 32")
  case True
  then have "to_bits ((n - 32) + 32) (unat v) = to_bits (n - 32) (unat v div 2 ^ 32) @ to_bits 32 (unat v)" by (intro to_bits_split)
  moreover have "unat v div 2 ^ 32 = 0" using unsigned_less [of v] by simp
  ultimately have s: "to_bits n (unat v) = to_bits (n - 32) 0 @ to_bits 32 (unat v)" using True by simp
  have 1: "BitStreamWriterMSB_WriteBits (n - 32) 0 w = Inr (put_all (to_bits (n - 32) 0) w)"
    using write_bits_law [of "n - 32" w 0] assms by simp
  have "32 < stream_room (put_all (to_bits (n - 32) 0) w)" using msb_writer.put_room [of "to_bits (n - 32) 0" w] assms True by simp
  with 1 s True show ?thesis by (simp add: BitStreamWriterMSB_Write64_def write_bits_law put_all_all)
next
  case False
  with assms show ?thesis by (simp add: BitStreamWriterMSB_Write64_def write_bits_law)
qed

lemma signed_symbol_restored:
  assumes "log2_exact log2" "- (2 ^ 29) < s" "s < 2 ^ 29" "61 < stream_room w"
  shows "\<exists>n v w' bs. ExpGolombSignedVlcEncoder_Encode log2 s = Inr (n, v) \<and> BitStreamWriterMSB_Write64 n 0 v w = Inr w'
    \<and> bits_so_far w' = bits_so_far w @ bs \<and> length bs = n
    \<and> (\<forall>r rest. bits_to_come r = bs @ rest \<longrightarrow>
         (\<exists>r'. ExpGolombSignedVlcDecoder_Decode BitStreamReaderMSB r = Some (Inr (n, s, r')) \<and> bits_to_come r' = rest))"
proof -
  from msb_reader.signed_golomb_coded [OF assms(1-3)] obtain n v where e: "ExpGolombSignedVlcEncoder_Encode log2 s = Inr (n, v)" "n \<le> 61"
    and d: "\<And>r rest. bits_to_come r = to_bits n (unat v) @ rest \<Longrightarrow> ExpGolombSignedVlcDecoder_Decode BitStreamReaderMSB r = Some (Inr (n, s, skip_ahead n r))"
    unfolding coded_def by blast
  let ?bs = "to_bits n (unat v)"
  have w: "BitStreamWriterMSB_Write64 n 0 v w = Inr (put_all ?bs w)" using e(2) assms(4) by (intro write_long_code) simp_all
  have "bits_so_far (put_all ?bs w) = bits_so_far w @ ?bs" using e(2) assms(4) by (intro msb_writer.put_bits) simp
  with e w d show ?thesis by (intro exI [of _ n] exI [of _ v] exI [of _ "put_all ?bs w"] exI [of _ ?bs]) (simp add: skip_ahead_bits)
qed

end
