(* ===== verification/Spec2Isabelle.thy ===== *)
theory Spec2Isabelle
  imports Xr_Round_Trip Session_Exchange Unit_Delivery Timestamp_Playout Client_Transaction_Props User_Agent_Server_Props
    Codec_Nal Cavlc_Round_Trip Exp_Golomb
begin

text \<open>
  A verification library for \<open>rtp++\<close>, a C++ implementation of RTP and of the protocols around it.

  \<^bold>\<open>The program.\<close> A session sends and receives RTP data packets and RTCP control packets. Packets
  are structures (\<open>RtpPacket\<close>, the classes of \<open>rfc3550/Rtcp.h\<close>) that \<open>RtpPacketiser\<close> turns into
  octets and back through the bit streams of the \<open>cpputil\<close> package. A receiver keeps a \<open>MemberEntry\<close>
  for each source, which validates the source, extends sequence numbers over wrap-arounds, counts
  losses (\<open>LossEstimator\<close>) and measures jitter and round trip times, and from which the report blocks of
  RTCP are made. Media packets go to a playout buffer that groups those of one timestamp
  (\<open>RtpPacketGroup\<close>) and hands out the groups at their playout time. A session splits the samples of a
  payload format (\<open>Rfc6184Packetiser\<close> for H.264) into packets, keeps what it sends
  (\<open>TransmissionManager\<close>) and sends again what receivers report as lost (\<open>FeedbackManager\<close>,
  \<open>RtpSessionManager\<close>). Every source reports to the others at random intervals
  (\<open>RtcpReportManager\<close>, \<open>SessionDatabase\<close>), and earlier when it has feedback
  (\<open>rfc4585\<close>). Calls are set up by SIP: messages
  are parsed and printed by \<open>SipMessage\<close> and \<open>SipUri\<close>, the transaction layer (\<open>ClientTransaction\<close>,
  \<open>ServerTransaction\<close>) retransmits and matches them, and the user agent server keeps the
  transactions and, through \<open>DialogManager\<close>, the dialogs. The media come from video codecs under \<open>src/Libs\<close>;
  the H.264 codec codes blocks of coefficients (\<open>CAVLCH264Impl\<close>) onto a bit stream.

  \<^bold>\<open>Conventions.\<close> Definitions have the names of the C++ functions; where a name occurs in several classes,
  the class is prefixed. Unsigned integers are words of their width and wrap around as in C++, with the
  promotion to \<open>int\<close> written out where the code relies on it. A class is a \<^theory_text>\<open>record\<close>, an enumeration a
  \<^theory_text>\<open>datatype\<close>. An operation maps the object to its successor; callbacks, timer starts and messages that it
  sends are values of an output list. A failed \<open>assert\<close> is an error value of a sum type, an empty
  \<open>boost::optional\<close> or null pointer is \<^term>\<open>None\<close>. The clock, random numbers and the outcome of a
  network write are arguments. Log output is left out throughout.

  \<^bold>\<open>Theories, in the order of the layers.\<close>
    \<^item> \<open>Rtp_Prelude\<close>: integer types, the big-endian bits of a value, list insertion from the
      back.
    \<^item> \<open>Bit_Stream\<close>: the interface of the external bit streams as a locale with the laws that the
      serialisers rely on, interpreted on lists of bits.
    \<^item> \<open>Header_Extension\<close>, \<open>Rtp_Packet\<close>: \<open>rfc5285/*\<close>, \<open>rfc3550/RtpHeader\<close>, \<open>RtpPacket.h\<close> and the data
      packet half of \<open>RtpPacketiser.cpp\<close>. Shown: parsing inverts serialisation, except that contributing sources come back as payload; the
      reader of extensions consumes the words that are announced, which datagrams are refused.
    \<^item> \<open>Rtcp\<close>, \<open>Rtcp_Wire\<close>, \<open>Rtcp_Compound\<close>: \<open>RtcpPacketBase.cpp\<close>, \<open>rfc3550/Rtcp.cpp\<close>,
      \<open>rfc3550/RtcpParser\<close>, the validators and the RTCP half of \<open>RtpPacketiser.cpp\<close>. Each packet class has
      a well-formedness invariant that constructors establish and mutators keep; the length field
      counts the words written; a compound packet is parsed back; the parser loop ends.
    \<^item> \<open>Rtp_Time\<close>: \<open>RtpTime.cpp\<close>, IEEE double arithmetic as rationals rounded to 53 bits; conversions
      between NTP, wall clock and RTP time.
    \<^item> \<open>Loss_Estimator\<close>, \<open>Member_Entry\<close>: \<open>LossEstimator.h\<close>, \<open>rfc3550/MemberEntry.cpp\<close>. Within its limits
      the estimator reports each missing number once, and it is shown what goes wrong beyond them; sequence tracking refines unbounded
      packet numbers; the fraction lost, jitter and round trip time are those of RFC 3550, with the exceptions stated.
    \<^item> \<open>Rtp_Packet_Group\<close>, \<open>Jitter_Buffer\<close>, \<open>Playout\<close>, \<open>Timestamp_Playout\<close>: \<open>RtpPacketGroup.cpp\<close> and the three
      playout buffers. A locale states the contract of a playout buffer, its client lemmas (packets are
      conserved, every node is fetched) hold of the three implementations by interpretation.
    \<^item> \<open>Rtcp_Xr\<close>, \<open>Xr_Round_Trip\<close>: extended reports (\<open>rfc3611/*\<close>) and the round trip time of receivers without
      sender reports. Shown: reports are read back, and the time is that of the two reports.
    \<^item> \<open>Rtcp_Interval\<close>, \<open>Session_Database\<close>, \<open>Session_Statistics\<close>, \<open>Rtcp_Report_Manager\<close> with
      \<open>Session_Database_Props\<close>, \<open>Rtcp_Report_Props\<close>, \<open>Session_Timeouts\<close>, \<open>Session_Exchange\<close>: the
      transmission interval, the table of members, and the manager that sends reports and handles
      those of others. Shown: bounds of the interval; the table stays well typed; receiving
      never faults, and sending and reporting do exactly when the session's own entry is missing from the table, which only a change
      of the SSRC that the database is not told of brings about; the report is the one of a reference definition; members that
      are heard of stay and silent ones are removed; what one side reports arrives at the other.
    \<^item> \<open>Rtcp_Feedback\<close>, \<open>Early_Feedback\<close>: feedback packets of \<open>rfc4585\<close> and the report manager that sends them
      early. Shown: the numbers of a NACK are read back, early packets are limited as the profile asks and are delivered
      in time.
    \<^item> \<open>H264_Packetiser\<close>, \<open>H264_Round_Trip\<close>: \<open>rfc6184/Rfc6184Packetiser.cpp\<close>. Shown: the units of an access unit
      come out of the packets unchanged; where the packetiser fails or loops.
    \<^item> \<open>Loss_Detection\<close>, \<open>Transmission_Manager\<close>, \<open>Session_Manager\<close>, \<open>Session_Input\<close>: \<open>rto/StatisticsManager.cpp\<close>,
      \<open>rto/SimpleRtoEstimator.cpp\<close>, \<open>rfc4585/FeedbackManager.cpp\<close>, \<open>TransmissionManager.cpp\<close>, the packet path of
      \<open>RtpSessionManager.cpp\<close> and the headers and incoming data packets of \<open>RtpSession.cpp\<close>. The detector's listener is a locale. Shown:
      the database gives the packets of a validated source the numbers of the sender, without wrap-around.
    \<^item> \<open>Loss_Recovery\<close>, \<open>Unit_Delivery\<close>: how these parts work together. Shown: every lost packet is asked for once, and the sender
      sends exactly the lost ones again; an access unit that a session sends is handed to the application of a
      running receiver, whatever the order of its packets.
    \<^item> \<open>Sip_Message\<close>, \<open>Sip_Parser\<close>, \<open>Sip_Uri\<close>: \<open>rfc3261/SipMessage.cpp\<close>, \<open>SipUri.cpp\<close>. Parsing inverts
      printing, for messages and for URIs; responses mirror the fields of the request.
    \<^item> \<open>Client_Transaction\<close>, \<open>Client_Transaction_Props\<close>, \<open>Server_Transaction\<close>, \<open>Server_Transaction_Props\<close>: the
      transactions as state machines over events, with reachable states by rule induction. Shown: which
      events fail an assertion, that an outcome is reported once, that one final response is sent,
      that a finished transaction has the timer pending that removes it.
    \<^item> \<open>Ordered_Map\<close>, \<open>Sip_Dialog\<close>, \<open>User_Agent_Server\<close>, \<open>User_Agent_Server_Props\<close>: \<open>std::map\<close>, dialogs and
      their table, the transaction user and the user agent server. Shown: the table of
      transactions holds live transactions with distinct numbers, calls are set up and ended, a dialog
      refuses requests that are out of order.
    \<^item> \<open>Codec_Bits\<close>, \<open>Codec_Nal\<close>: the bit streams of the video codecs (\<open>CodecUtils/BitStream*MSB\<close>), their interfaces as
      locales, and the byte layer of \<open>H264v2Codec.cpp\<close>. Shown: bits written are read back; frames get through
      the prevention of start codes and its removal; trailing bits are found again.
    \<^item> \<open>Codec_Vlc\<close>, \<open>Exp_Golomb\<close>: the variable length codes \<open>CodecUtils/*Vlc*\<close> of H.264. Shown: every
      entry of an encoder's table is decoded to its symbol by the branches of the decoder; Exp-Golomb codes are read back.
    \<^item> \<open>Codec_Cavlc\<close>, \<open>Cavlc_Round_Trip\<close>: \<open>CodecUtils/CAVLCH264Impl.cpp\<close> with the instances that \<open>H264v2Codec::Open\<close>
      creates. Shown: a block that is encoded is decoded to itself, with the same number of bits. What the codec relies on of
      the attached codes is a locale, interpreted for blocks of 4x4 and of 2x2.

  \<^bold>\<open>Bounds and fuel.\<close> Only the loop over the packets of a compound RTCP packet has fuel, the number
  of octets left; each round consumes a header of four octets, and it is shown that the loop
  never runs out. Loops of the H.264 packetiser that need not end, because the sizes they count down
  with wrap around, are partial functions into options: the round trip shows that they return, a lemma that
  one of them does not. The loop of the codec's decoders that counts zero bits
  is one too; the round trip shows that it returns on what the encoder wrote. Other loops are structural or have a measure. Round trips of data packets hold
  up to the field widths of the format (extensions of 65535 words).
  Sequence tracking is exact while senders stay within the reordering limits of RFC 3550. Transaction
  numbers are 32 bit and assigned in order; their distinctness is stated for fewer than
  \<open>2 ^ 32\<close> transactions.

  \<^bold>\<open>Parameters.\<close> Code outside the repository is a parameter: the bit streams, the tokeniser, trimming and
  number conversion of \<open>cpputil\<close>, the regular expression that unfolds header lines (\<open>boost\<close>), the
  logarithm that the Exp-Golomb encoder uses. What a
  theorem needs of them is a hypothesis of its statement, and its witness supplies a concrete function.

  \<^bold>\<open>Not modelled.\<close> Sockets and event loops (\<open>network/*\<close>, the TCP connections of SIP), which are calls of
  \<open>boost::asio\<close>; the multipath parts of \<open>mprtp\<close> and \<open>rto\<close> and the predictors of \<open>rto\<close>, which need
  floating point models; SCTP and DCCP, adapters of external libraries; RTSP, SDP and offer/answer, the user
  agent client and the proxies of SIP; the payload formats other than H.264; the schedulers; applications,
  tools and tests; of the video codecs under \<open>src/Libs\<close> the motion estimation, transforms, macroblock and header
  layers and rate control, a body of numerical code apart from the entropy coding.
\<close>

end
